(* ===== verification/Hvc_Prelude.thy ===== *)
theory Hvc_Prelude
  imports Main "HOL-Library.Word" "HOL-Library.Multiset" "HOL-Library.List_Lexorder" "HOL-Library.Char_ord"
begin

text \<open>
  Shared vocabulary of the development: the exceptions and result values of the C++ code,
  its machine integers and clock, and the two containers every component uses, the ordered
  associative container \<open>std::map\<close> and the sweep that erases entries while it iterates.
\<close>

named_theorems store_simps \<open>definitions unfolded when a control-plane operation is run\<close>
named_theorems model_simps \<open>definitions unfolded when a concrete model value is evaluated\<close>

section \<open>Machine integers, time and errors\<close>

text \<open>
  \<open>std::uint64_t\<close> wraps, so versions, generations and sequence numbers are 64-bit words.
  \<open>std::size_t\<close> values only count elements of in-memory containers and are natural numbers.
  \<open>system_clock::time_point\<close> is the number of clock ticks since the epoch, and
  \<open>std::chrono::milliseconds\<close> the number of milliseconds; libstdc++ ticks in nanoseconds.
\<close>

type_synonym u64 = "64 word"
type_synonym u32 = "32 word"
type_synonym u16 = "16 word"
type_synonym u8 = "8 word"

type_synonym time_point = int
type_synonym milliseconds = int

definition ticks :: "milliseconds \<Rightarrow> int" where
  "ticks d = d * 1000000"

lemma ticks_less_iff [simp]: "ticks a < ticks b \<longleftrightarrow> a < b"
  by (simp add: ticks_def)

lemma ticks_le_iff [simp]: "ticks a \<le> ticks b \<longleftrightarrow> a \<le> b"
  by (simp add: ticks_def)

lemma ticks_pos_iff [simp]: "0 < ticks a \<longleftrightarrow> 0 < a"
  by (simp add: ticks_def)

lemma ticks_min: "ticks (min a b) = min (ticks a) (ticks b)"
  by (simp add: min_def)

text \<open>The standard exceptions the code throws, each with its message.\<close>

datatype cpp_error =
    InvalidArgument string
  | LogicError string
  | OverflowError string

type_synonym 'a throws = "cpp_error + 'a"

definition throws_bind :: "'e + 'a \<Rightarrow> ('a \<Rightarrow> 'e + 'b) \<Rightarrow> 'e + 'b" where
  "throws_bind r f = (case r of Inl e \<Rightarrow> Inl e | Inr x \<Rightarrow> f x)"

lemma throws_bind_simps [simp]:
  "throws_bind (Inl e) f = Inl e"
  "throws_bind (Inr x) f = f x"
  by (simp_all add: throws_bind_def)

lemma throws_bind_Inr_iff:
  "throws_bind r f = Inr y \<longleftrightarrow> (\<exists>x. r = Inr x \<and> f x = Inr y)"
  by (cases r) simp_all

lemma throws_bind_Inl_iff:
  "throws_bind r f = Inl y \<longleftrightarrow> r = Inl y \<or> (\<exists>x. r = Inr x \<and> f x = Inl y)"
  by (cases r) auto

text \<open>
  The result classes of the application layer hold an optional value and an optional error.
  Their private constructors throw unless exactly one is present; the sum is what is left.
\<close>

definition exclusive_result :: "string \<Rightarrow> 'a option \<Rightarrow> 'e option \<Rightarrow> ('e + 'a) throws" where
  "exclusive_result msg v e =
     (case (v, e) of
        (Some x, None) \<Rightarrow> Inr (Inr x)
      | (None, Some y) \<Rightarrow> Inr (Inl y)
      | _ \<Rightarrow> Inl (InvalidArgument msg))"

lemma exclusive_result_simps [simp]:
  "exclusive_result msg (Some x) None = Inr (Inr x)"
  "exclusive_result msg None (Some y) = Inr (Inl y)"
  "exclusive_result msg None None = Inl (InvalidArgument msg)"
  "exclusive_result msg (Some x) (Some y) = Inl (InvalidArgument msg)"
  by (simp_all add: exclusive_result_def)

lemma exclusive_result_returns_iff:
  "(\<exists>r. exclusive_result msg v e = Inr r) \<longleftrightarrow> (v = None) \<noteq> (e = None)"
  by (cases v; cases e) simp_all

lemma u64_succ_gr:
  fixes v :: u64
  assumes "v \<noteq> - 1"
  shows "v < v + 1"
proof -
  have "unat v \<noteq> 18446744073709551615"
  proof
    assume "unat v = 18446744073709551615"
    then have "word_of_nat (unat v) = (- 1 :: u64)" by simp
    with assms show False by simp
  qed
  moreover have "unat v < 18446744073709551616"
    using unsigned_less [of v, where 'a = nat] by simp
  ultimately show ?thesis by (simp add: word_less_nat_alt unat_word_ariths)
qed

text \<open>\<open>std::to_string\<close> of an unsigned integer.\<close>

fun decimal :: "nat \<Rightarrow> string" where
  "decimal n =
     (if n < 10 then [char_of (48 + n)] else decimal (n div 10) @ [char_of (48 + n mod 10)])"

section \<open>Ordered associative containers\<close>

text \<open>
  \<open>std::map\<close> iterates in key order, and the code lets that order show in its results.
  A map is the list of its entries in iteration order; lookup is \<^const>\<open>map_of\<close>.
\<close>

type_synonym ('k, 'v) std_map = "('k \<times> 'v) list"

abbreviation keys :: "('k, 'v) std_map \<Rightarrow> 'k list" where
  "keys m \<equiv> map fst m"

definition std_ok :: "('k::linorder, 'v) std_map \<Rightarrow> bool" where
  "std_ok m = sorted_wrt (<) (keys m)"

fun std_put :: "'k::linorder \<Rightarrow> 'v \<Rightarrow> ('k, 'v) std_map \<Rightarrow> ('k, 'v) std_map" where
  "std_put k v [] = [(k, v)]"
| "std_put k v ((k', v') # m) =
     (if k < k' then (k, v) # (k', v') # m
      else if k = k' then (k, v) # m
      else (k', v') # std_put k v m)"

definition std_erase :: "'k \<Rightarrow> ('k, 'v) std_map \<Rightarrow> ('k, 'v) std_map" where
  "std_erase k m = filter (\<lambda>e. fst e \<noteq> k) m"

definition std_contains :: "('k, 'v) std_map \<Rightarrow> 'k \<Rightarrow> bool" where
  "std_contains m k = (map_of m k \<noteq> None)"

definition std_emplace :: "'k::linorder \<Rightarrow> 'v \<Rightarrow> ('k, 'v) std_map \<Rightarrow> ('k, 'v) std_map" where
  "std_emplace k v m = (if std_contains m k then m else std_put k v m)"

lemma std_ok_Nil [simp]: "std_ok []"
  by (simp add: std_ok_def)

lemma std_ok_Cons: "std_ok ((k, v) # m) \<longleftrightarrow> (\<forall>k' \<in> fst ` set m. k < k') \<and> std_ok m"
  by (auto simp: std_ok_def)

lemma std_ok_distinct: "std_ok m \<Longrightarrow> distinct (keys m)"
  by (induction m) (auto simp: std_ok_def)

lemma std_ok_filter [intro, simp]: "std_ok m \<Longrightarrow> std_ok (filter P m)"
  unfolding std_ok_def by (induction m) auto

lemma std_ok_erase [intro, simp]: "std_ok m \<Longrightarrow> std_ok (std_erase k m)"
  by (simp add: std_erase_def)

lemma fst_set_std_put: "fst ` set (std_put k v m) = insert k (fst ` set m)"
  by (induction k v m rule: std_put.induct) auto

lemma std_ok_put [intro, simp]: "std_ok m \<Longrightarrow> std_ok (std_put k v m)"
  by (induction k v m rule: std_put.induct) (auto simp: std_ok_Cons fst_set_std_put)

lemma std_ok_emplace [intro, simp]: "std_ok m \<Longrightarrow> std_ok (std_emplace k v m)"
  by (simp add: std_emplace_def)

lemma map_of_std_put [simp]: "map_of (std_put k v m) = (map_of m)(k \<mapsto> v)"
  by (induction k v m rule: std_put.induct) auto

lemma map_of_std_erase [simp]: "map_of (std_erase k m) = (map_of m)(k := None)"
  by (induction m) (auto simp: std_erase_def)

lemma std_contains_iff [simp]: "std_contains m k \<longleftrightarrow> k \<in> fst ` set m"
  by (metis map_of_eq_None_iff std_contains_def)

lemma map_of_std_emplace:
  "map_of (std_emplace k v m) = (if map_of m k = None then (map_of m)(k \<mapsto> v) else map_of m)"
  by (simp add: std_emplace_def std_contains_def del: std_contains_iff)

lemma std_ok_map_of_iff: "std_ok m \<Longrightarrow> map_of m k = Some v \<longleftrightarrow> (k, v) \<in> set m"
  by (simp add: std_ok_distinct)

lemma map_of_filter_values:
  assumes "std_ok m"
  shows "map_of (filter (\<lambda>e. P (snd e)) m) k =
           (case map_of m k of Some v \<Rightarrow> if P v then Some v else None | None \<Rightarrow> None)"
  using assms
proof (induction m)
  case (Cons e m)
  then show ?case
    by (cases e) (auto simp: std_ok_Cons map_of_eq_None_iff image_iff split: option.splits)
qed simp

lemma set_std_put:
  assumes "std_ok m"
  shows "set (std_put k v m) = insert (k, v) {e \<in> set m. fst e \<noteq> k}"
  using assms
proof (induction k v m rule: std_put.induct)
  case (2 k v k' v' m)
  then show ?case by (auto simp: std_ok_Cons)
qed simp

lemma set_std_put_subset: "set (std_put k v m) \<subseteq> insert (k, v) (set m)"
  by (induction k v m rule: std_put.induct) auto

lemma std_put_fresh_values:
  assumes "std_ok m" and "k \<notin> fst ` set m"
  shows "snd ` set (std_put k v m) = insert v (snd ` set m)"
  using assms by (force simp: set_std_put)

lemma length_std_put_fresh: "k \<notin> fst ` set m \<Longrightarrow> length (std_put k v m) = Suc (length m)"
  by (induction k v m rule: std_put.induct) auto

lemma mset_std_put_fresh: "k \<notin> fst ` set m \<Longrightarrow> mset (std_put k v m) = add_mset (k, v) (mset m)"
  by (induction k v m rule: std_put.induct) auto

lemma length_filter_std_put_fresh:
  assumes "k \<notin> fst ` set m"
  shows "length (filter P (map snd (std_put k v m))) =
           length (filter P (map snd m)) + (if P v then 1 else 0)"
proof -
  have "length (filter P (map snd xs)) = size (filter_mset P (image_mset snd (mset xs)))"
    for xs :: "('a \<times> 'b) list"
    by (simp flip: mset_map mset_filter)
  then show ?thesis by (simp add: mset_std_put_fresh [OF assms])
qed

lemma length_filter_map_filter_le:
  "length (filter P (map f (filter Q xs))) \<le> length (filter P (map f xs))"
  by (induction xs) (auto intro: le_SucI)

lemma std_put_erase_fresh:
  assumes "k \<notin> fst ` set m"
  shows "std_erase k (std_put k v m) = m"
  using assms
proof (induction k v m rule: std_put.induct)
  case (2 k v k' v' m)
  have "filter (\<lambda>e. fst e \<noteq> k) m = m"
    using "2.prems" by (auto simp: filter_id_conv)
  with 2 show ?case by (auto simp: std_erase_def)
qed (simp add: std_erase_def)

text \<open>
  What the components rely on is the map interface only: a client proof uses the laws below
  and not the list representation.
\<close>

locale ordered_map =
  fixes empty :: "'m"
    and put :: "'k \<Rightarrow> 'v \<Rightarrow> 'm \<Rightarrow> 'm"
    and erase :: "'k \<Rightarrow> 'm \<Rightarrow> 'm"
    and find :: "'m \<Rightarrow> 'k \<Rightarrow> 'v option"
    and ok :: "'m \<Rightarrow> bool"
  assumes ok_empty: "ok empty"
    and ok_put: "ok m \<Longrightarrow> ok (put k v m)"
    and ok_erase: "ok m \<Longrightarrow> ok (erase k m)"
    and find_empty: "find empty k = None"
    and find_put: "ok m \<Longrightarrow> find (put k v m) k' = (if k' = k then Some v else find m k')"
    and find_erase: "ok m \<Longrightarrow> find (erase k m) k' = (if k' = k then None else find m k')"
begin

lemma find_put_same: "ok m \<Longrightarrow> find (put k v m) k = Some v"
  by (simp add: find_put)

lemma find_put_other: "ok m \<Longrightarrow> k' \<noteq> k \<Longrightarrow> find (put k v m) k' = find m k'"
  by (simp add: find_put)

lemma find_erase_put: "ok m \<Longrightarrow> find (erase k (put k v m)) k' = find (erase k m) k'"
  by (simp add: find_erase find_put ok_put)

lemma put_overwrites: "ok m \<Longrightarrow> find (put k w (put k v m)) = find (put k w m)"
  by (rule ext) (simp add: find_put ok_put)

end

interpretation std: ordered_map "[]" std_put std_erase map_of std_ok
  by unfold_locales (auto simp: map_of_eq_None_iff)

section \<open>Erasing while iterating\<close>

text \<open>
  The loops \<open>for (it = m.begin(); it != m.end();) { if (keep) { ++it; continue; } out.push(*it);
  it = m.erase(it); }\<close>: the selected values in iteration order, and the map that is left.
\<close>

fun sweep :: "('v \<Rightarrow> bool) \<Rightarrow> ('k, 'v) std_map \<Rightarrow> 'v list \<times> ('k, 'v) std_map" where
  "sweep P [] = ([], [])"
| "sweep P ((k, v) # m) =
     (let (hit, rest) = sweep P m
      in if P v then (v # hit, rest) else (hit, (k, v) # rest))"

lemma sweep_eq:
  "sweep P m = (filter P (map snd m), filter (\<lambda>e. \<not> P (snd e)) m)"
  by (induction P m rule: sweep.induct) (auto split: prod.splits)

lemma sweep_found [simp]: "fst (sweep P m) = filter P (map snd m)"
  by (simp add: sweep_eq)

lemma sweep_left [simp]: "snd (sweep P m) = filter (\<lambda>e. \<not> P (snd e)) m"
  by (simp add: sweep_eq)

section \<open>Lookup in a vector\<close>

text \<open>\<open>std::ranges::find_if\<close> followed by the test against \<open>end()\<close>.\<close>

lemma find_SomeD: "List.find P xs = Some x \<Longrightarrow> x \<in> set xs \<and> P x"
  by (induction xs) (auto split: if_splits)

lemma find_None_iff_none: "List.find P xs = None \<longleftrightarrow> (\<forall>x \<in> set xs. \<not> P x)"
  by (induction xs) auto

lemma find_unique:
  assumes "distinct (map f xs)" and "x \<in> set xs"
  shows "List.find (\<lambda>y. f y = f x) xs = Some x"
  using assms by (induction xs) (auto simp: image_iff)

lemma find_by_key_iff:
  assumes "distinct (map f xs)"
  shows "List.find (\<lambda>y. f y = k) xs = Some x \<longleftrightarrow> x \<in> set xs \<and> f x = k"
proof
  assume "List.find (\<lambda>y. f y = k) xs = Some x"
  then show "x \<in> set xs \<and> f x = k" by (rule find_SomeD)
next
  assume "x \<in> set xs \<and> f x = k"
  then show "List.find (\<lambda>y. f y = k) xs = Some x"
    using find_unique [OF assms, of x] by simp
qed

lemma lookup_by_key_iff:
  assumes "distinct (map f xs)"
  shows "(case List.find (\<lambda>y. f y = k) xs of None \<Rightarrow> False | Some y \<Rightarrow> P y) \<longleftrightarrow>
           (\<exists>y \<in> set xs. f y = k \<and> P y)"
proof (cases "List.find (\<lambda>y. f y = k) xs")
  case None
  then have "\<forall>y \<in> set xs. f y \<noteq> k" by (simp add: find_None_iff_none)
  with None show ?thesis by auto
next
  case (Some x)
  then have x: "y \<in> set xs \<and> f y = k \<longleftrightarrow> y = x" for y
    using find_by_key_iff [OF assms, of k y] by auto
  have "(\<exists>y \<in> set xs. f y = k \<and> P y) \<longleftrightarrow> P x"
    unfolding Bex_def using x by metis
  with Some show ?thesis by simp
qed

end
