(* ===== verification/Domain_Model.thy ===== *)
theory Domain_Model
  imports Hvc_Prelude
begin

text \<open>
  The domain model (\<open>libs/domain/include/hvc/domain/id.hpp\<close>, \<open>model.hpp\<close>,
  \<open>libs/domain/src/model.cpp\<close>): strongly typed identifiers, the validated hierarchy of
  groups, specializations and teams, the versioned membership snapshot and the role policy.
  A class with a validating constructor is a record and a \<open>_ctor\<close> function that throws; the
  predicates \<open>hierarchy_ok\<close>, \<open>snapshot_ok\<close> and \<open>policy_ok\<close> state what the constructors
  establish, and the lemmas show they establish exactly that.
\<close>

section \<open>Identifiers\<close>

datatype 'tag StrongId = StrongId (id_value: string)

definition StrongId_ctor :: "string \<Rightarrow> 'tag StrongId throws" where
  "StrongId_ctor v =
     (if v = [] then Inl (InvalidArgument ''An identifier must not be empty.'')
      else Inr (StrongId v))"

text \<open>The defaulted \<open>operator<=>\<close> orders identifiers by their text, byte by byte.\<close>

instantiation StrongId :: (type) linorder
begin

definition less_eq_StrongId :: "'a StrongId \<Rightarrow> 'a StrongId \<Rightarrow> bool" where
  "less_eq_StrongId a b = (id_value a \<le> id_value b)"

definition less_StrongId :: "'a StrongId \<Rightarrow> 'a StrongId \<Rightarrow> bool" where
  "less_StrongId a b = (id_value a < id_value b)"

instance
proof
  fix a b c :: "'a StrongId"
  show "(a < b) = (a \<le> b \<and> \<not> b \<le> a)"
    by (auto simp: less_eq_StrongId_def less_StrongId_def)
  show "a \<le> a" by (simp add: less_eq_StrongId_def)
  show "a \<le> b \<Longrightarrow> b \<le> c \<Longrightarrow> a \<le> c" by (simp add: less_eq_StrongId_def)
  show "a \<le> b \<Longrightarrow> b \<le> a \<Longrightarrow> a = b"
    by (simp add: less_eq_StrongId_def StrongId.expand)
  show "a \<le> b \<or> b \<le> a" by (auto simp: less_eq_StrongId_def)
qed

end

lemma StrongId_less [simp]: "StrongId a < StrongId b \<longleftrightarrow> a < b"
  by (simp add: less_StrongId_def)

lemma StrongId_le [simp]: "StrongId a \<le> StrongId b \<longleftrightarrow> a \<le> b"
  by (simp add: less_eq_StrongId_def)

datatype PlayerIdTag = PlayerIdTag
datatype GroupIdTag = GroupIdTag
datatype SpecializationIdTag = SpecializationIdTag
datatype TeamIdTag = TeamIdTag
datatype HierarchyIdTag = HierarchyIdTag
datatype TransmissionIdTag = TransmissionIdTag
datatype ClientTransmissionIdTag = ClientTransmissionIdTag
datatype RoleIdTag = RoleIdTag
datatype SessionIdTag = SessionIdTag
datatype DeviceIdTag = DeviceIdTag
datatype CorrelationIdTag = CorrelationIdTag

type_synonym PlayerId = "PlayerIdTag StrongId"
type_synonym GroupId = "GroupIdTag StrongId"
type_synonym SpecializationId = "SpecializationIdTag StrongId"
type_synonym TeamId = "TeamIdTag StrongId"
type_synonym HierarchyId = "HierarchyIdTag StrongId"
type_synonym TransmissionId = "TransmissionIdTag StrongId"
type_synonym ClientTransmissionId = "ClientTransmissionIdTag StrongId"
type_synonym RoleId = "RoleIdTag StrongId"
type_synonym SessionId = "SessionIdTag StrongId"
type_synonym DeviceId = "DeviceIdTag StrongId"
type_synonym CorrelationId = "CorrelationIdTag StrongId"

section \<open>Hierarchy\<close>

datatype VoiceScope = Team_scope | Specialization_scope | Group_scope

record ScopeDefinition =
  sd_scope :: VoiceScope
  sd_display_name :: string
  sd_priority :: int
  sd_max_concurrent_speakers :: "nat option"

record Group =
  gr_id :: GroupId
  gr_display_name :: string
  gr_active :: bool

record Specialization =
  sp_id :: SpecializationId
  sp_group_id :: GroupId
  sp_display_name :: string

record Team =
  tm_id :: TeamId
  tm_specialization_id :: SpecializationId
  tm_display_name :: string

record Hierarchy =
  hi_id :: HierarchyId
  hi_scopes :: "ScopeDefinition list"
  hi_groups :: "Group list"
  hi_specializations :: "Specialization list"
  hi_teams :: "Team list"

definition findScope :: "Hierarchy \<Rightarrow> VoiceScope \<Rightarrow> ScopeDefinition option" where
  "findScope h s = List.find (\<lambda>d. sd_scope d = s) (hi_scopes h)"

definition findGroup :: "Hierarchy \<Rightarrow> GroupId \<Rightarrow> Group option" where
  "findGroup h g = List.find (\<lambda>x. gr_id x = g) (hi_groups h)"

definition findSpecialization :: "Hierarchy \<Rightarrow> SpecializationId \<Rightarrow> Specialization option" where
  "findSpecialization h s = List.find (\<lambda>x. sp_id x = s) (hi_specializations h)"

definition findTeam :: "Hierarchy \<Rightarrow> TeamId \<Rightarrow> Team option" where
  "findTeam h t = List.find (\<lambda>x. tm_id x = t) (hi_teams h)"

fun requireUniqueIds :: "'item list \<Rightarrow> ('item \<Rightarrow> 'id) \<Rightarrow> string \<Rightarrow> unit throws" where
  "requireUniqueIds [] acc type_name = Inr ()"
| "requireUniqueIds (current # rest) acc type_name =
     (if List.find (\<lambda>candidate. acc current = acc candidate) rest \<noteq> None
      then Inl (InvalidArgument (''Duplicate '' @ type_name @ '' ID.''))
      else requireUniqueIds rest acc type_name)"

fun requireScopes :: "ScopeDefinition list \<Rightarrow> unit throws" where
  "requireScopes [] = Inr ()"
| "requireScopes (current # rest) =
     (if sd_display_name current = []
      then Inl (InvalidArgument ''A scope display name must not be empty.'')
      else if List.find (\<lambda>candidate. sd_scope current = sd_scope candidate) rest \<noteq> None
      then Inl (InvalidArgument ''Duplicate voice scope.'')
      else requireScopes rest)"

fun requireGroups :: "Hierarchy \<Rightarrow> Specialization list \<Rightarrow> unit throws" where
  "requireGroups h [] = Inr ()"
| "requireGroups h (s # rest) =
     (if findGroup h (sp_group_id s) = None
      then Inl (InvalidArgument ''A specialization references an unknown group.'')
      else requireGroups h rest)"

fun requireSpecializations :: "Hierarchy \<Rightarrow> Team list \<Rightarrow> unit throws" where
  "requireSpecializations h [] = Inr ()"
| "requireSpecializations h (t # rest) =
     (if findSpecialization h (tm_specialization_id t) = None
      then Inl (InvalidArgument ''A team references an unknown specialization.'')
      else requireSpecializations h rest)"

definition Hierarchy_ctor ::
  "HierarchyId \<Rightarrow> ScopeDefinition list \<Rightarrow> Group list \<Rightarrow> Specialization list \<Rightarrow> Team list
   \<Rightarrow> Hierarchy throws" where
  "Hierarchy_ctor hid scopes groups specializations teams =
     (let h = \<lparr>hi_id = hid, hi_scopes = scopes, hi_groups = groups,
               hi_specializations = specializations, hi_teams = teams\<rparr> in
      throws_bind (requireUniqueIds (hi_groups h) gr_id ''group'') (\<lambda>_.
      throws_bind (requireUniqueIds (hi_specializations h) sp_id ''specialization'') (\<lambda>_.
      throws_bind (requireUniqueIds (hi_teams h) tm_id ''team'') (\<lambda>_.
      throws_bind (requireScopes (hi_scopes h)) (\<lambda>_.
      throws_bind (requireGroups h (hi_specializations h)) (\<lambda>_.
      throws_bind (requireSpecializations h (hi_teams h)) (\<lambda>_. Inr h)))))))"

definition hierarchy_ok :: "Hierarchy \<Rightarrow> bool" where
  "hierarchy_ok h \<longleftrightarrow>
     distinct (map gr_id (hi_groups h)) \<and>
     distinct (map sp_id (hi_specializations h)) \<and>
     distinct (map tm_id (hi_teams h)) \<and>
     distinct (map sd_scope (hi_scopes h)) \<and>
     (\<forall>d \<in> set (hi_scopes h). sd_display_name d \<noteq> []) \<and>
     (\<forall>s \<in> set (hi_specializations h). sp_group_id s \<in> gr_id ` set (hi_groups h)) \<and>
     (\<forall>t \<in> set (hi_teams h).
        tm_specialization_id t \<in> sp_id ` set (hi_specializations h))"

lemma requireUniqueIds_ok: "requireUniqueIds xs acc ty = Inr () \<longleftrightarrow> distinct (map acc xs)"
  by (induction xs) (auto simp: find_None_iff_none image_iff)

lemma requireUniqueIds_unit: "requireUniqueIds xs acc ty = Inr u \<longleftrightarrow> distinct (map acc xs)"
  using requireUniqueIds_ok [of xs acc ty] by simp

lemma requireScopes_ok:
  "requireScopes ds = Inr u \<longleftrightarrow>
     distinct (map sd_scope ds) \<and> (\<forall>d \<in> set ds. sd_display_name d \<noteq> [])"
  by (induction ds) (auto simp: find_None_iff_none image_iff)

lemma findGroup_None_iff: "findGroup h g = None \<longleftrightarrow> g \<notin> gr_id ` set (hi_groups h)"
  by (auto simp: findGroup_def find_None_iff_none)

lemma findSpecialization_None_iff:
  "findSpecialization h s = None \<longleftrightarrow> s \<notin> sp_id ` set (hi_specializations h)"
  by (auto simp: findSpecialization_def find_None_iff_none)

lemma findScope_None_iff: "findScope h s = None \<longleftrightarrow> s \<notin> sd_scope ` set (hi_scopes h)"
  by (auto simp: findScope_def find_None_iff_none)

lemma requireGroups_ok:
  "requireGroups h ss = Inr u \<longleftrightarrow> (\<forall>s \<in> set ss. sp_group_id s \<in> gr_id ` set (hi_groups h))"
  by (induction ss) (auto simp: findGroup_None_iff)

lemma requireSpecializations_ok:
  "requireSpecializations h ts = Inr u \<longleftrightarrow>
     (\<forall>t \<in> set ts. tm_specialization_id t \<in> sp_id ` set (hi_specializations h))"
  by (induction ts) (auto simp: findSpecialization_None_iff)

lemmas require_ok = requireUniqueIds_unit requireScopes_ok requireGroups_ok
  requireSpecializations_ok

text \<open>
  The hierarchy constructor accepts exactly the well-formed hierarchies (unique
  identifiers on every level, one non-empty definition per scope, every parent present) and
  stores its arguments unchanged.
\<close>

theorem Hierarchy_ctor_accepts_iff:
  "Hierarchy_ctor hid scopes groups specializations teams = Inr h \<longleftrightarrow>
     h = \<lparr>hi_id = hid, hi_scopes = scopes, hi_groups = groups,
          hi_specializations = specializations, hi_teams = teams\<rparr> \<and> hierarchy_ok h"
  by (auto simp: Hierarchy_ctor_def Let_def throws_bind_Inr_iff require_ok hierarchy_ok_def)

lemma findGroup_iff:
  "hierarchy_ok h \<Longrightarrow> findGroup h g = Some x \<longleftrightarrow> x \<in> set (hi_groups h) \<and> gr_id x = g"
  by (simp add: findGroup_def find_by_key_iff hierarchy_ok_def)

lemma findSpecialization_iff:
  "hierarchy_ok h \<Longrightarrow>
   findSpecialization h s = Some x \<longleftrightarrow> x \<in> set (hi_specializations h) \<and> sp_id x = s"
  by (simp add: findSpecialization_def find_by_key_iff hierarchy_ok_def)

lemma findTeam_iff:
  "hierarchy_ok h \<Longrightarrow> findTeam h t = Some x \<longleftrightarrow> x \<in> set (hi_teams h) \<and> tm_id x = t"
  by (simp add: findTeam_def find_by_key_iff hierarchy_ok_def)

lemma findScope_iff:
  "hierarchy_ok h \<Longrightarrow> findScope h s = Some x \<longleftrightarrow> x \<in> set (hi_scopes h) \<and> sd_scope x = s"
  by (simp add: findScope_def find_by_key_iff hierarchy_ok_def)

section \<open>A concrete hierarchy\<close>

text \<open>
  One group with two specializations and three teams, the deployment on which the theorems are
  evaluated. At most one player may speak in a team at a time, and two in a specialization.
\<close>

definition sample_hierarchy :: Hierarchy where
  "sample_hierarchy =
     \<lparr>hi_id = StrongId ''h'',
      hi_scopes =
        [\<lparr>sd_scope = Team_scope, sd_display_name = ''Team'', sd_priority = 1,
          sd_max_concurrent_speakers = Some 1\<rparr>,
         \<lparr>sd_scope = Specialization_scope, sd_display_name = ''Unit'', sd_priority = 2,
          sd_max_concurrent_speakers = Some 2\<rparr>],
      hi_groups = [\<lparr>gr_id = StrongId ''g'', gr_display_name = ''Group'', gr_active = True\<rparr>],
      hi_specializations =
        [\<lparr>sp_id = StrongId ''s1'', sp_group_id = StrongId ''g'', sp_display_name = ''One''\<rparr>,
         \<lparr>sp_id = StrongId ''s2'', sp_group_id = StrongId ''g'', sp_display_name = ''Two''\<rparr>],
      hi_teams =
        [\<lparr>tm_id = StrongId ''t1'', tm_specialization_id = StrongId ''s1'', tm_display_name = ''A''\<rparr>,
         \<lparr>tm_id = StrongId ''t2'', tm_specialization_id = StrongId ''s1'', tm_display_name = ''B''\<rparr>,
         \<lparr>tm_id = StrongId ''t3'', tm_specialization_id = StrongId ''s2'', tm_display_name = ''C''\<rparr>]\<rparr>"

declare sample_hierarchy_def [model_simps]

lemma sample_hierarchy_ok: "hierarchy_ok sample_hierarchy"
  by (simp add: hierarchy_ok_def sample_hierarchy_def)

lemma sample_hierarchy_constructed:
  "Hierarchy_ctor (StrongId ''h'') (hi_scopes sample_hierarchy) (hi_groups sample_hierarchy)
     (hi_specializations sample_hierarchy) (hi_teams sample_hierarchy) = Inr sample_hierarchy"
  by code_simp

end
