(* ===== verification/Membership.thy ===== *)
theory Membership
  imports Domain_Model
begin

text \<open>
  Membership snapshots and the role policy (\<open>libs/domain/include/hvc/domain/model.hpp\<close>,
  \<open>libs/domain/src/model.cpp\<close>). A snapshot is sorted by player at construction and read by
  binary search; the lemmas show that this search is the plain lookup by key, that scope nodes
  of one snapshot are nested, and what the role policy grants.
\<close>

section \<open>Membership snapshot\<close>

datatype VoiceBanStatus = Ban_none | Ban_temporary | Ban_permanent

record VoiceMembership =
  vm_player_id :: PlayerId
  vm_group_id :: GroupId
  vm_specialization_id :: SpecializationId
  vm_team_id :: TeamId
  vm_role_ids :: "RoleId list"
  vm_connected :: bool
  vm_can_receive_voice :: bool
  vm_transmit_muted :: bool
  vm_voice_ban_status :: VoiceBanStatus

definition VoiceMembership_ctor ::
  "PlayerId \<Rightarrow> GroupId \<Rightarrow> SpecializationId \<Rightarrow> TeamId \<Rightarrow> RoleId list \<Rightarrow> VoiceMembership" where
  "VoiceMembership_ctor player grp specialization team roles =
     \<lparr>vm_player_id = player, vm_group_id = grp, vm_specialization_id = specialization,
      vm_team_id = team, vm_role_ids = roles, vm_connected = True,
      vm_can_receive_voice = True, vm_transmit_muted = False, vm_voice_ban_status = Ban_none\<rparr>"

record MembershipSnapshot =
  ms_version :: u64
  ms_hierarchy :: Hierarchy
  ms_memberships :: "VoiceMembership list"

definition valid_path :: "Hierarchy \<Rightarrow> VoiceMembership \<Rightarrow> bool" where
  "valid_path h m =
     (case (findGroup h (vm_group_id m), findSpecialization h (vm_specialization_id m),
            findTeam h (vm_team_id m)) of
        (Some g, Some s, Some t) \<Rightarrow> sp_group_id s = gr_id g \<and> tm_specialization_id t = sp_id s
      | _ \<Rightarrow> False)"

fun requirePaths :: "Hierarchy \<Rightarrow> VoiceMembership list \<Rightarrow> unit throws" where
  "requirePaths h [] = Inr ()"
| "requirePaths h (m # rest) =
     (if \<not> valid_path h m
      then Inl (InvalidArgument ''A membership does not form a valid hierarchy path.'')
      else requirePaths h rest)"

definition MembershipSnapshot_ctor ::
  "u64 \<Rightarrow> Hierarchy \<Rightarrow> VoiceMembership list \<Rightarrow> MembershipSnapshot throws" where
  "MembershipSnapshot_ctor version hierarchy memberships =
     (if version = 0
      then Inl (InvalidArgument ''A membership snapshot version must be greater than zero.'')
      else
        throws_bind (requireUniqueIds memberships vm_player_id ''player'') (\<lambda>_.
        throws_bind (requirePaths hierarchy memberships) (\<lambda>_.
        Inr \<lparr>ms_version = version, ms_hierarchy = hierarchy,
             ms_memberships = sort_key vm_player_id memberships\<rparr>)))"

text \<open>
  \<open>std::ranges::lower_bound\<close> returns the position of the first element that is not less than
  the key, on a range that the key partitions.
\<close>

definition lower_bound :: "('a \<Rightarrow> 'k::linorder) \<Rightarrow> 'k \<Rightarrow> 'a list \<Rightarrow> 'a list" where
  "lower_bound f k xs = dropWhile (\<lambda>x. f x < k) xs"

definition snapshot_find :: "MembershipSnapshot \<Rightarrow> PlayerId \<Rightarrow> VoiceMembership option" where
  "snapshot_find snap player =
     (case lower_bound vm_player_id player (ms_memberships snap) of
        [] \<Rightarrow> None
      | found # _ \<Rightarrow> if vm_player_id found \<noteq> player then None else Some found)"

definition snapshot_ok :: "MembershipSnapshot \<Rightarrow> bool" where
  "snapshot_ok snap \<longleftrightarrow>
     ms_version snap \<noteq> 0 \<and>
     hierarchy_ok (ms_hierarchy snap) \<and>
     sorted_wrt (<) (map vm_player_id (ms_memberships snap)) \<and>
     (\<forall>m \<in> set (ms_memberships snap). valid_path (ms_hierarchy snap) m)"

lemma requirePaths_ok: "requirePaths h ms = Inr u \<longleftrightarrow> (\<forall>m \<in> set ms. valid_path h m)"
  by (induction ms) auto

lemma sorted_strict_sort_key:
  "sorted_wrt (<) (map f (sort_key f xs)) \<longleftrightarrow> distinct (map f xs)"
proof -
  have "mset (map f (sort_key f xs)) = mset (map f xs)" by simp
  then have "distinct (map f (sort_key f xs)) \<longleftrightarrow> distinct (map f xs)"
    using mset_eq_imp_distinct_iff by blast
  then show ?thesis by (simp add: strict_sorted_iff)
qed

lemma MembershipSnapshot_ctor_iff:
  assumes "hierarchy_ok h"
  shows "MembershipSnapshot_ctor v h ms = Inr snap \<longleftrightarrow>
     snap = \<lparr>ms_version = v, ms_hierarchy = h, ms_memberships = sort_key vm_player_id ms\<rparr> \<and>
     snapshot_ok snap"
  using assms
  by (auto simp: MembershipSnapshot_ctor_def throws_bind_Inr_iff requireUniqueIds_unit
      requirePaths_ok snapshot_ok_def sorted_strict_sort_key)

text \<open>
  Given a validated hierarchy, the snapshot constructor accepts exactly the positive
  versions with one membership per player, each on a consistent group, specialization and team
  path, and the accepted snapshot holds the same memberships strictly sorted by player.
\<close>

theorem MembershipSnapshot_ctor_accepts_iff:
  assumes "hierarchy_ok h"
  shows "(\<exists>snap. MembershipSnapshot_ctor v h ms = Inr snap \<and> snapshot_ok snap \<and>
            ms_version snap = v \<and> ms_hierarchy snap = h \<and>
            mset (ms_memberships snap) = mset ms) \<longleftrightarrow>
         v \<noteq> 0 \<and> distinct (map vm_player_id ms) \<and> (\<forall>m \<in> set ms. valid_path h m)"
  using assms
  by (auto simp: MembershipSnapshot_ctor_iff snapshot_ok_def sorted_strict_sort_key)

lemma dropWhile_less_sorted:
  fixes f :: "'a \<Rightarrow> 'k::linorder"
  assumes "sorted_wrt (<) (map f xs)" and "x \<in> set xs"
  shows "\<exists>zs. dropWhile (\<lambda>y. f y < f x) xs = x # zs"
  using assms
proof (induction xs)
  case (Cons a xs)
  then show ?case by (cases "a = x") auto
qed simp

lemma snapshot_find_SomeD:
  assumes "snapshot_find snap p = Some m"
  shows "m \<in> set (ms_memberships snap) \<and> vm_player_id m = p"
proof -
  obtain zs where zs: "lower_bound vm_player_id p (ms_memberships snap) = m # zs"
    and p: "vm_player_id m = p"
    using assms by (auto simp: snapshot_find_def split: list.splits if_splits)
  have "m \<in> set (dropWhile (\<lambda>x. vm_player_id x < p) (ms_memberships snap))"
    using zs by (simp add: lower_bound_def)
  then show ?thesis using p by (blast dest: set_dropWhileD)
qed

lemma snapshot_find_iff:
  assumes "snapshot_ok snap"
  shows "snapshot_find snap p = Some m \<longleftrightarrow>
           m \<in> set (ms_memberships snap) \<and> vm_player_id m = p"
proof
  assume m: "m \<in> set (ms_memberships snap) \<and> vm_player_id m = p"
  have "sorted_wrt (<) (map vm_player_id (ms_memberships snap))"
    using assms by (simp add: snapshot_ok_def)
  from dropWhile_less_sorted [OF this, of m] m obtain zs where
    "dropWhile (\<lambda>x. vm_player_id x < p) (ms_memberships snap) = m # zs" by auto
  then show "snapshot_find snap p = Some m"
    using m by (simp add: snapshot_find_def lower_bound_def)
qed (rule snapshot_find_SomeD)

lemma snapshot_distinct:
  "snapshot_ok snap \<Longrightarrow> distinct (map vm_player_id (ms_memberships snap))"
  by (simp add: snapshot_ok_def strict_sorted_iff)

text \<open>
  The binary search over the sorted memberships of a valid snapshot returns what a linear
  search by player identifier returns, for every player.
\<close>

theorem snapshot_find_linear:
  assumes "snapshot_ok snap"
  shows "snapshot_find snap p =
           List.find (\<lambda>m. vm_player_id m = p) (ms_memberships snap)"
proof -
  have "snapshot_find snap p = Some m \<longleftrightarrow>
          List.find (\<lambda>m. vm_player_id m = p) (ms_memberships snap) = Some m" for m
    using assms by (simp add: snapshot_find_iff find_by_key_iff snapshot_distinct)
  then show ?thesis by (metis not_Some_eq)
qed

text \<open>The path of a membership is determined by its lowest node.\<close>

lemma valid_path_iff:
  assumes "hierarchy_ok h"
  shows "valid_path h m \<longleftrightarrow>
     vm_group_id m \<in> gr_id ` set (hi_groups h) \<and>
     (\<exists>s \<in> set (hi_specializations h).
        sp_id s = vm_specialization_id m \<and> sp_group_id s = vm_group_id m) \<and>
     (\<exists>t \<in> set (hi_teams h).
        tm_id t = vm_team_id m \<and> tm_specialization_id t = vm_specialization_id m)"
  (is "_ \<longleftrightarrow> ?rhs")
proof
  assume "valid_path h m"
  then obtain g s t where
    "findGroup h (vm_group_id m) = Some g"
    "findSpecialization h (vm_specialization_id m) = Some s"
    "findTeam h (vm_team_id m) = Some t"
    "sp_group_id s = gr_id g" "tm_specialization_id t = sp_id s"
    by (auto simp: valid_path_def split: option.splits)
  then show ?rhs
    using assms
    by (auto simp: findGroup_iff findSpecialization_iff findTeam_iff intro: rev_image_eqI)
next
  assume ?rhs
  then obtain g s t where
    "findGroup h (vm_group_id m) = Some g" "gr_id g = vm_group_id m"
    "findSpecialization h (vm_specialization_id m) = Some s"
    "sp_id s = vm_specialization_id m" "sp_group_id s = vm_group_id m"
    "findTeam h (vm_team_id m) = Some t" "tm_specialization_id t = vm_specialization_id m"
    using assms by (auto simp: findGroup_iff findSpecialization_iff findTeam_iff)
  then show "valid_path h m" by (simp add: valid_path_def)
qed

lemma same_specialization_same_group:
  assumes "hierarchy_ok h" "valid_path h a" "valid_path h b"
    and "vm_specialization_id a = vm_specialization_id b"
  shows "vm_group_id a = vm_group_id b"
  using assms by (auto simp: valid_path_iff hierarchy_ok_def) (metis distinct_map inj_onD)

lemma same_team_same_specialization:
  assumes "hierarchy_ok h" "valid_path h a" "valid_path h b"
    and "vm_team_id a = vm_team_id b"
  shows "vm_specialization_id a = vm_specialization_id b"
  using assms by (auto simp: valid_path_iff hierarchy_ok_def) (metis distinct_map inj_onD)

section \<open>Role policy\<close>

record RolePermissions =
  rp_role_id :: RoleId
  rp_transmit_scopes :: "VoiceScope list"
  rp_receive_scopes :: "VoiceScope list"

record RolePolicy =
  po_roles :: "RolePermissions list"

definition RolePolicy_ctor :: "RolePermissions list \<Rightarrow> RolePolicy throws" where
  "RolePolicy_ctor roles =
     throws_bind (requireUniqueIds roles rp_role_id ''role'') (\<lambda>_. Inr \<lparr>po_roles = roles\<rparr>)"

definition containsScope :: "VoiceScope list \<Rightarrow> VoiceScope \<Rightarrow> bool" where
  "containsScope scopes s = (List.find (\<lambda>x. x = s) scopes \<noteq> None)"

definition canTransmit :: "RolePolicy \<Rightarrow> RoleId list \<Rightarrow> VoiceScope \<Rightarrow> bool" where
  "canTransmit policy roles s =
     list_ex (\<lambda>role_id.
       case List.find (\<lambda>r. rp_role_id r = role_id) (po_roles policy) of
         None \<Rightarrow> False
       | Some role \<Rightarrow> containsScope (rp_transmit_scopes role) s) roles"

definition canReceive :: "RolePolicy \<Rightarrow> RoleId list \<Rightarrow> VoiceScope \<Rightarrow> bool" where
  "canReceive policy roles s =
     list_ex (\<lambda>role_id.
       case List.find (\<lambda>r. rp_role_id r = role_id) (po_roles policy) of
         None \<Rightarrow> False
       | Some role \<Rightarrow> containsScope (rp_receive_scopes role) s) roles"

definition policy_ok :: "RolePolicy \<Rightarrow> bool" where
  "policy_ok policy \<longleftrightarrow> distinct (map rp_role_id (po_roles policy))"

lemma containsScope_iff [simp]: "containsScope scopes s \<longleftrightarrow> s \<in> set scopes"
  by (auto simp: containsScope_def find_None_iff_none)

lemma RolePolicy_ctor_iff:
  "RolePolicy_ctor roles = Inr p \<longleftrightarrow> p = \<lparr>po_roles = roles\<rparr> \<and> policy_ok p"
  by (auto simp: RolePolicy_ctor_def throws_bind_Inr_iff requireUniqueIds_unit policy_ok_def)

lemma canTransmit_iff:
  assumes "policy_ok policy"
  shows "canTransmit policy roles s \<longleftrightarrow>
     (\<exists>role \<in> set (po_roles policy). rp_role_id role \<in> set roles \<and> s \<in> set (rp_transmit_scopes role))"
  using assms by (auto simp: canTransmit_def list_ex_iff policy_ok_def lookup_by_key_iff)

lemma canReceive_iff:
  assumes "policy_ok policy"
  shows "canReceive policy roles s \<longleftrightarrow>
     (\<exists>role \<in> set (po_roles policy). rp_role_id role \<in> set roles \<and> s \<in> set (rp_receive_scopes role))"
  using assms by (auto simp: canReceive_def list_ex_iff policy_ok_def lookup_by_key_iff)

section \<open>A concrete snapshot\<close>

definition sample_member :: "string \<Rightarrow> string \<Rightarrow> string \<Rightarrow> VoiceMembership" where
  "sample_member player specialization team =
     VoiceMembership_ctor (StrongId player) (StrongId ''g'') (StrongId specialization)
       (StrongId team) [StrongId ''talker'']"

definition sample_snapshot :: "u64 \<Rightarrow> MembershipSnapshot" where
  "sample_snapshot version =
     \<lparr>ms_version = version, ms_hierarchy = sample_hierarchy,
      ms_memberships =
        [sample_member ''alice'' ''s1'' ''t1'', sample_member ''bob'' ''s1'' ''t1'',
         sample_member ''cara'' ''s1'' ''t2'', sample_member ''dave'' ''s2'' ''t3'']\<rparr>"

definition sample_policy :: RolePolicy where
  "sample_policy =
     \<lparr>po_roles =
        [\<lparr>rp_role_id = StrongId ''talker'', rp_transmit_scopes = [Team_scope, Specialization_scope],
          rp_receive_scopes = [Team_scope, Specialization_scope]\<rparr>]\<rparr>"

lemmas sample_membership_defs = sample_member_def sample_snapshot_def sample_policy_def
  VoiceMembership_ctor_def

lemma sample_snapshot_ok: "v \<noteq> 0 \<Longrightarrow> snapshot_ok (sample_snapshot v)"
  by (simp add: snapshot_ok_def sample_membership_defs sample_hierarchy_ok)
    (simp add: valid_path_def findGroup_def findSpecialization_def findTeam_def sample_hierarchy_def)

lemma sample_policy_ok: "policy_ok sample_policy"
  by (simp add: policy_ok_def sample_policy_def)

theorem MembershipSnapshot_ctor_witness:
  "(\<exists>snap. MembershipSnapshot_ctor 7 sample_hierarchy
       [sample_member ''bob'' ''s1'' ''t1'', sample_member ''alice'' ''s1'' ''t1''] = Inr snap \<and>
     snapshot_ok snap \<and> ms_version snap = 7 \<and> ms_hierarchy snap = sample_hierarchy \<and>
     mset (ms_memberships snap) =
       mset [sample_member ''bob'' ''s1'' ''t1'', sample_member ''alice'' ''s1'' ''t1'']) \<and>
   \<not> (\<exists>snap. MembershipSnapshot_ctor 7 sample_hierarchy [sample_member ''bob'' ''s2'' ''t1''] =
        Inr snap \<and> snapshot_ok snap \<and> ms_version snap = 7 \<and>
        ms_hierarchy snap = sample_hierarchy \<and>
        mset (ms_memberships snap) = mset [sample_member ''bob'' ''s2'' ''t1''])"
  unfolding MembershipSnapshot_ctor_accepts_iff [OF sample_hierarchy_ok]
  by (simp add: sample_membership_defs valid_path_def findGroup_def findSpecialization_def
      findTeam_def sample_hierarchy_def)

theorem snapshot_find_linear_witness:
  "snapshot_find (sample_snapshot 3) (StrongId ''cara'') =
     Some (sample_member ''cara'' ''s1'' ''t2'') \<and>
   snapshot_find (sample_snapshot 3) (StrongId ''mallory'') = None"
  unfolding snapshot_find_linear [OF sample_snapshot_ok [of 3, simplified]]
  by (simp add: sample_membership_defs)

end
