(* ===== verification/Recipient_Routing.thy ===== *)
theory Recipient_Routing
  imports Membership
begin

text \<open>
  Recipient resolution (\<open>libs/domain/include/hvc/domain/routing.hpp\<close>,
  \<open>libs/domain/src/routing.cpp\<close>): the pure decision that accepts or rejects a transmission
  request and selects its recipients from the sender's snapshot. The lemmas give the exact
  acceptance condition, the recipients as a set and as an ordered list, and their isolation.
\<close>

section \<open>Requests and results\<close>

datatype RoutingError =
    Routing_voice_not_connected
  | Routing_voice_no_active_membership
  | Routing_voice_scope_not_found
  | Routing_voice_scope_not_authorized
  | Routing_voice_transmit_muted
  | Routing_voice_membership_stale

record TransmissionRequest =
  tr_sender_player_id :: PlayerId
  tr_requested_scope :: VoiceScope
  tr_membership_version :: u64

record RecipientRestriction =
  rr_recipient_player_id :: PlayerId
  rr_blocked_sender_player_id :: PlayerId

record RecipientResolution =
  rs_rejection :: "RoutingError option"
  rs_recipients :: "PlayerId list"

definition resolution_accepted :: "RecipientResolution \<Rightarrow> bool" where
  "resolution_accepted r = (rs_rejection r = None)"

section \<open>Resolution\<close>

fun belongsToScope :: "VoiceMembership \<Rightarrow> VoiceMembership \<Rightarrow> VoiceScope \<Rightarrow> bool" where
  "belongsToScope sender candidate Team_scope =
     (vm_group_id candidate = vm_group_id sender \<and>
      vm_specialization_id candidate = vm_specialization_id sender \<and>
      vm_team_id candidate = vm_team_id sender)"
| "belongsToScope sender candidate Specialization_scope =
     (vm_group_id candidate = vm_group_id sender \<and>
      vm_specialization_id candidate = vm_specialization_id sender)"
| "belongsToScope sender candidate Group_scope =
     (vm_group_id candidate = vm_group_id sender)"

definition isRestricted ::
  "RecipientRestriction list \<Rightarrow> PlayerId \<Rightarrow> PlayerId \<Rightarrow> bool" where
  "isRestricted restrictions recipient sender =
     list_ex (\<lambda>r. rr_recipient_player_id r = recipient \<and>
                  rr_blocked_sender_player_id r = sender) restrictions"

definition resolution_reject :: "RoutingError \<Rightarrow> RecipientResolution" where
  "resolution_reject e = \<lparr>rs_rejection = Some e, rs_recipients = []\<rparr>"

definition eligible ::
  "RolePolicy \<Rightarrow> RecipientRestriction list \<Rightarrow> VoiceScope \<Rightarrow> VoiceMembership \<Rightarrow>
   VoiceMembership \<Rightarrow> bool" where
  "eligible policy restrictions s sender candidate \<longleftrightarrow>
     vm_connected candidate \<and> vm_can_receive_voice candidate \<and>
     canReceive policy (vm_role_ids candidate) s \<and>
     belongsToScope sender candidate s \<and>
     \<not> isRestricted restrictions (vm_player_id candidate) (vm_player_id sender)"

fun collectRecipients :: "(VoiceMembership \<Rightarrow> bool) \<Rightarrow> VoiceMembership list \<Rightarrow> PlayerId list" where
  "collectRecipients P [] = []"
| "collectRecipients P (candidate # rest) =
     (if P candidate then vm_player_id candidate # collectRecipients P rest
      else collectRecipients P rest)"

definition resolve ::
  "MembershipSnapshot \<Rightarrow> RolePolicy \<Rightarrow> TransmissionRequest \<Rightarrow> RecipientRestriction list \<Rightarrow>
   RecipientResolution" where
  "resolve snap policy request restrictions =
     (if tr_membership_version request \<noteq> ms_version snap
      then resolution_reject Routing_voice_membership_stale
      else case snapshot_find snap (tr_sender_player_id request) of
        None \<Rightarrow> resolution_reject Routing_voice_no_active_membership
      | Some sender \<Rightarrow>
          if \<not> vm_connected sender then resolution_reject Routing_voice_not_connected
          else if (case findGroup (ms_hierarchy snap) (vm_group_id sender) of
                     None \<Rightarrow> True | Some g \<Rightarrow> \<not> gr_active g)
          then resolution_reject Routing_voice_no_active_membership
          else if findScope (ms_hierarchy snap) (tr_requested_scope request) = None
          then resolution_reject Routing_voice_scope_not_found
          else if vm_transmit_muted sender \<or> vm_voice_ban_status sender \<noteq> Ban_none
          then resolution_reject Routing_voice_transmit_muted
          else if \<not> canTransmit policy (vm_role_ids sender) (tr_requested_scope request)
          then resolution_reject Routing_voice_scope_not_authorized
          else \<lparr>rs_rejection = None,
                rs_recipients =
                  collectRecipients
                    (eligible policy restrictions (tr_requested_scope request) sender)
                    (ms_memberships snap)\<rparr>)"

lemma collectRecipients_eq: "collectRecipients P ms = map vm_player_id (filter P ms)"
  by (induction ms) simp_all

lemma resolution_reject_simps [simp]:
  "rs_rejection (resolution_reject e) = Some e"
  "rs_recipients (resolution_reject e) = []"
  "\<not> resolution_accepted (resolution_reject e)"
  by (simp_all add: resolution_reject_def resolution_accepted_def)

text \<open>The conditions of FR-004 of the specification, for a sender found in the snapshot.\<close>

definition may_transmit ::
  "MembershipSnapshot \<Rightarrow> RolePolicy \<Rightarrow> TransmissionRequest \<Rightarrow> VoiceMembership \<Rightarrow> bool" where
  "may_transmit snap policy request sender \<longleftrightarrow>
     tr_membership_version request = ms_version snap \<and>
     sender \<in> set (ms_memberships snap) \<and>
     vm_player_id sender = tr_sender_player_id request \<and>
     vm_connected sender \<and>
     (\<exists>g \<in> set (hi_groups (ms_hierarchy snap)). gr_id g = vm_group_id sender \<and> gr_active g) \<and>
     tr_requested_scope request \<in> sd_scope ` set (hi_scopes (ms_hierarchy snap)) \<and>
     \<not> vm_transmit_muted sender \<and>
     vm_voice_ban_status sender = Ban_none \<and>
     canTransmit policy (vm_role_ids sender) (tr_requested_scope request)"

lemma active_group_iff:
  assumes "hierarchy_ok h"
  shows "(case findGroup h g of None \<Rightarrow> True | Some x \<Rightarrow> \<not> gr_active x) \<longleftrightarrow>
           \<not> (\<exists>x \<in> set (hi_groups h). gr_id x = g \<and> gr_active x)"
proof -
  have "distinct (map gr_id (hi_groups h))" using assms by (simp add: hierarchy_ok_def)
  from lookup_by_key_iff [OF this, where k = g and P = gr_active] show ?thesis
    by (auto simp: findGroup_def split: option.splits)
qed

lemma resolve_accepted_sender:
  assumes "snapshot_ok snap"
  shows "resolution_accepted (resolve snap policy request restrictions) \<longleftrightarrow>
           (\<exists>sender. may_transmit snap policy request sender)"
proof (cases "snapshot_find snap (tr_sender_player_id request)")
  case None
  then show ?thesis
    using assms snapshot_find_iff [OF assms, of "tr_sender_player_id request"]
    by (auto simp: resolve_def may_transmit_def)
next
  case (Some sender)
  have h: "hierarchy_ok (ms_hierarchy snap)" using assms by (simp add: snapshot_ok_def)
  have unique: "x = sender"
    if "x \<in> set (ms_memberships snap)" "vm_player_id x = tr_sender_player_id request" for x
  proof -
    have "snapshot_find snap (tr_sender_player_id request) = Some x"
      using that snapshot_find_iff [OF assms] by blast
    with Some show "x = sender" by simp
  qed
  have in_snap: "sender \<in> set (ms_memberships snap)"
      "vm_player_id sender = tr_sender_player_id request"
    using Some snapshot_find_iff [OF assms] by simp_all
  have only: "(\<exists>s. may_transmit snap policy request s) \<longleftrightarrow> may_transmit snap policy request sender"
    unfolding may_transmit_def using unique by blast
  have scope: "tr_requested_scope request \<in> sd_scope ` set (hi_scopes (ms_hierarchy snap)) \<longleftrightarrow>
      findScope (ms_hierarchy snap) (tr_requested_scope request) \<noteq> None"
    by (simp add: findScope_None_iff)
  have "resolution_accepted (resolve snap policy request restrictions) \<longleftrightarrow>
      may_transmit snap policy request sender"
    unfolding resolve_def may_transmit_def active_group_iff [OF h] scope
    using in_snap by (simp add: Some resolution_accepted_def)
  then show ?thesis using only by simp
qed

text \<open>
  On a valid snapshot a request is accepted exactly when the requested version is current
  and the sender is a connected, unmuted, unbanned member of an active group, the scope is
  configured and one of the sender's roles may transmit in it.
\<close>

theorem resolve_accepted_iff:
  assumes "snapshot_ok snap"
  shows "resolution_accepted (resolve snap policy request restrictions) \<longleftrightarrow>
           (\<exists>sender. may_transmit snap policy request sender)"
  using assms by (rule resolve_accepted_sender)

lemma resolve_recipients_eq:
  assumes "snapshot_ok snap"
    and "may_transmit snap policy request sender"
  shows "rs_recipients (resolve snap policy request restrictions) =
           map vm_player_id
             (filter (eligible policy restrictions (tr_requested_scope request) sender)
                (ms_memberships snap))"
proof -
  have find: "snapshot_find snap (tr_sender_player_id request) = Some sender"
    using assms snapshot_find_iff by (auto simp: may_transmit_def)
  have h: "hierarchy_ok (ms_hierarchy snap)" using assms by (simp add: snapshot_ok_def)
  show ?thesis
    using assms(2) find
    by (auto simp: resolve_def may_transmit_def active_group_iff [OF h] findScope_None_iff
        collectRecipients_eq)
qed

text \<open>The hierarchy node a scope names, and who is eligible, written out.\<close>

definition same_node :: "VoiceScope \<Rightarrow> VoiceMembership \<Rightarrow> VoiceMembership \<Rightarrow> bool" where
  "same_node sc a b \<longleftrightarrow> vm_group_id a = vm_group_id b \<and>
     (sc = Group_scope \<or> vm_specialization_id a = vm_specialization_id b) \<and>
     (sc = Team_scope \<longrightarrow> vm_team_id a = vm_team_id b)"

lemma eligible_iff:
  "eligible policy restrictions sc sender c \<longleftrightarrow>
     vm_connected c \<and> vm_can_receive_voice c \<and> canReceive policy (vm_role_ids c) sc \<and>
     same_node sc sender c \<and>
     \<not> (\<exists>r. r \<in> set restrictions \<and> rr_recipient_player_id r = vm_player_id c \<and>
           rr_blocked_sender_player_id r = vm_player_id sender)"
  by (cases sc) (auto simp: eligible_def isRestricted_def list_ex_iff same_node_def)

text \<open>
  C3: the recipients of an accepted request are exactly the players of the sender's snapshot who
  are connected, may receive voice in the scope, share the sender's node of that scope and have
  not blocked the sender, without repetition and in increasing player order.
\<close>

theorem resolve_recipients_exact:
  assumes "snapshot_ok snap"
    and "may_transmit snap policy request sender"
  shows "sorted_wrt (<) (rs_recipients (resolve snap policy request restrictions)) \<and>
         set (rs_recipients (resolve snap policy request restrictions)) =
           {vm_player_id c | c. c \<in> set (ms_memberships snap) \<and>
              vm_connected c \<and> vm_can_receive_voice c \<and>
              canReceive policy (vm_role_ids c) (tr_requested_scope request) \<and>
              same_node (tr_requested_scope request) sender c \<and>
              \<not> (\<exists>r. r \<in> set restrictions \<and> rr_recipient_player_id r = vm_player_id c \<and>
                    rr_blocked_sender_player_id r = vm_player_id sender)}"
proof -
  have "sorted_wrt (<) (map vm_player_id (ms_memberships snap))"
    using assms(1) by (simp add: snapshot_ok_def)
  then have "sorted_wrt (<) (map vm_player_id (filter P (ms_memberships snap)))" for P
    by (simp add: sorted_wrt_map sorted_wrt_filter)
  then show ?thesis
    using resolve_recipients_eq [OF assms, of restrictions]
    by (auto simp: eligible_iff)
qed

text \<open>
  C4: isolation. Whatever is requested, a recipient is never outside the sender's group; for a
  team or specialization request it is never outside the sender's specialization, and for a team
  request never outside the sender's team. A rejected request has no recipients at all.
\<close>

theorem resolve_isolated:
  assumes "snapshot_ok snap"
    and "p \<in> set (rs_recipients (resolve snap policy request restrictions))"
  shows "\<exists>sender recipient.
     snapshot_find snap (tr_sender_player_id request) = Some sender \<and>
     snapshot_find snap p = Some recipient \<and>
     vm_group_id recipient = vm_group_id sender \<and>
     (tr_requested_scope request \<noteq> Group_scope \<longrightarrow>
        vm_specialization_id recipient = vm_specialization_id sender) \<and>
     (tr_requested_scope request = Team_scope \<longrightarrow> vm_team_id recipient = vm_team_id sender) \<and>
     \<not> isRestricted restrictions p (tr_sender_player_id request) \<and>
     resolution_accepted (resolve snap policy request restrictions)"
proof -
  have acc: "resolution_accepted (resolve snap policy request restrictions)"
    using assms(2)
    by (auto simp: resolve_def resolution_accepted_def split: option.splits if_splits)
  then obtain sender where m: "may_transmit snap policy request sender"
    using resolve_accepted_sender [OF assms(1)] by blast
  obtain c where c: "c \<in> set (ms_memberships snap)" "vm_player_id c = p"
    and e: "eligible policy restrictions (tr_requested_scope request) sender c"
    using assms(2) resolve_recipients_eq [OF assms(1) m, of restrictions] by auto
  have "snapshot_find snap p = Some c"
    using c snapshot_find_iff [OF assms(1)] by simp
  moreover have "snapshot_find snap (tr_sender_player_id request) = Some sender"
    using m snapshot_find_iff [OF assms(1)] by (simp add: may_transmit_def)
  ultimately show ?thesis
    using acc e c m
    by (cases "tr_requested_scope request") (auto simp: eligible_def may_transmit_def)
qed

section \<open>A concrete request\<close>

definition sample_request :: "string \<Rightarrow> VoiceScope \<Rightarrow> u64 \<Rightarrow> TransmissionRequest" where
  "sample_request player sc v =
     \<lparr>tr_sender_player_id = StrongId player, tr_requested_scope = sc, tr_membership_version = v\<rparr>"

lemmas sample_routing_defs = sample_request_def sample_membership_defs sample_hierarchy_def
  resolve_def snapshot_find_def lower_bound_def findGroup_def findScope_def canTransmit_def
  canReceive_def containsScope_def eligible_def isRestricted_def resolution_reject_def
  resolution_accepted_def

lemma sample_resolve:
  "resolve (sample_snapshot 3) sample_policy (sample_request ''alice'' Specialization_scope 3)
     [\<lparr>rr_recipient_player_id = StrongId ''bob'', rr_blocked_sender_player_id = StrongId ''alice''\<rparr>] =
     \<lparr>rs_rejection = None, rs_recipients = [StrongId ''alice'', StrongId ''cara'']\<rparr>"
  by (simp add: sample_routing_defs del: containsScope_iff)

lemma sample_may_transmit:
  "may_transmit (sample_snapshot 3) sample_policy (sample_request ''alice'' Team_scope 3)
     (sample_member ''alice'' ''s1'' ''t1'')"
  by (simp add: may_transmit_def sample_routing_defs)

theorem resolve_accepted_witness:
  "resolution_accepted
     (resolve (sample_snapshot 3) sample_policy (sample_request ''alice'' Team_scope 3) []) \<and>
   \<not> (\<exists>sender. may_transmit (sample_snapshot 3) sample_policy
         (sample_request ''alice'' Team_scope 2) sender)"
proof
  show "resolution_accepted
      (resolve (sample_snapshot 3) sample_policy (sample_request ''alice'' Team_scope 3) [])"
    using resolve_accepted_iff [OF sample_snapshot_ok [of 3, simplified]] sample_may_transmit by blast
  show "\<not> (\<exists>sender. may_transmit (sample_snapshot 3) sample_policy
         (sample_request ''alice'' Team_scope 2) sender)"
    using resolve_accepted_iff [OF sample_snapshot_ok [of 3, simplified],
        of sample_policy "sample_request ''alice'' Team_scope 2" "[]"]
    by (simp add: sample_routing_defs)
qed

theorem resolve_recipients_witness:
  "sorted_wrt (<) (rs_recipients (resolve (sample_snapshot 3) sample_policy
       (sample_request ''alice'' Team_scope 3) [])) \<and>
   StrongId ''bob'' \<in> set (rs_recipients (resolve (sample_snapshot 3) sample_policy
       (sample_request ''alice'' Team_scope 3) []))"
proof -
  have bob: "sample_member ''bob'' ''s1'' ''t1'' \<in> set (ms_memberships (sample_snapshot 3)) \<and>
      eligible sample_policy [] Team_scope (sample_member ''alice'' ''s1'' ''t1'')
        (sample_member ''bob'' ''s1'' ''t1'') \<and>
      vm_player_id (sample_member ''bob'' ''s1'' ''t1'') = StrongId ''bob''"
    by (simp add: sample_routing_defs)
  have scope: "tr_requested_scope (sample_request ''alice'' Team_scope 3) = Team_scope"
    by (simp add: sample_request_def)
  note exact = resolve_recipients_exact [OF sample_snapshot_ok [of 3, simplified]
      sample_may_transmit, of "[]", unfolded scope]
  show ?thesis
    by (rule conjI [OF conjunct1 [OF exact]], subst conjunct2 [OF exact],
        rule CollectI, rule exI [of _ "sample_member ''bob'' ''s1'' ''t1''"])
      (use bob in \<open>simp add: eligible_iff\<close>)
qed

theorem resolve_isolated_witness:
  "\<exists>sender recipient.
     snapshot_find (sample_snapshot 3) (StrongId ''alice'') = Some sender \<and>
     snapshot_find (sample_snapshot 3) (StrongId ''cara'') = Some recipient \<and>
     vm_specialization_id recipient = vm_specialization_id sender"
proof -
  have "StrongId ''cara'' \<in> set (rs_recipients (resolve (sample_snapshot 3) sample_policy
      (sample_request ''alice'' Specialization_scope 3)
      [\<lparr>rr_recipient_player_id = StrongId ''bob'',
        rr_blocked_sender_player_id = StrongId ''alice''\<rparr>]))"
    unfolding sample_resolve by simp
  from resolve_isolated [OF sample_snapshot_ok [of 3, simplified] this] show ?thesis
    by (auto simp: sample_request_def)
qed

end
