(* ===== verification/Voice_Session.thy ===== *)
theory Voice_Session
  imports Voice_State_Machines
begin

text \<open>
  The voice session (\<open>VoiceSessionStateMachine\<close> of
  \<open>libs/domain/src/state_machine.cpp\<close>): one connection, one transmission and the selected
  scope. The public methods are the events of a step function; \<open>reachable_session\<close> collects
  the states that any sequence of calls can produce.
\<close>

section \<open>Operations\<close>

record VoiceSessionStateMachine =
  vs_connection :: ConnectionStateMachine
  vs_transmission :: TransmissionStateMachine
  vs_selected_scope :: VoiceScope

definition session_init :: VoiceSessionStateMachine where
  "session_init = \<lparr>vs_connection = connection_init, vs_transmission = transmission_init,
                   vs_selected_scope = Team_scope\<rparr>"

definition on_connection ::
  "(ConnectionStateMachine \<Rightarrow> bool \<times> ConnectionStateMachine) \<Rightarrow> VoiceSessionStateMachine \<Rightarrow>
   bool \<times> VoiceSessionStateMachine" where
  "on_connection f s = (let (b, c) = f (vs_connection s) in (b, s\<lparr>vs_connection := c\<rparr>))"

definition on_transmission ::
  "(TransmissionStateMachine \<Rightarrow> bool \<times> TransmissionStateMachine) \<Rightarrow> VoiceSessionStateMachine \<Rightarrow>
   bool \<times> VoiceSessionStateMachine" where
  "on_transmission f s = (let (b, t) = f (vs_transmission s) in (b, s\<lparr>vs_transmission := t\<rparr>))"

definition connection_then_interrupt ::
  "(ConnectionStateMachine \<Rightarrow> bool \<times> ConnectionStateMachine) \<Rightarrow> TransmissionStopReason \<Rightarrow>
   VoiceSessionStateMachine \<Rightarrow> bool \<times> VoiceSessionStateMachine" where
  "connection_then_interrupt f reason s =
     (let (b, s') = on_connection f s
      in if \<not> b then (False, s')
         else (True, snd (on_transmission (trans_interrupt reason) s')))"

definition selectScope :: "VoiceScope \<Rightarrow> VoiceSessionStateMachine \<Rightarrow> VoiceSessionStateMachine" where
  "selectScope sc s = s\<lparr>vs_selected_scope := sc\<rparr>"

definition membershipChanged ::
  "u64 \<Rightarrow> VoiceSessionStateMachine \<Rightarrow> bool \<times> VoiceSessionStateMachine" where
  "membershipChanged v =
     connection_then_interrupt (conn_membershipChanged v) Stop_membership_changed"

definition connectionLost :: "VoiceSessionStateMachine \<Rightarrow> bool \<times> VoiceSessionStateMachine" where
  "connectionLost = connection_then_interrupt conn_connectionLost Stop_connection_lost"

definition disconnect :: "VoiceSessionStateMachine \<Rightarrow> bool \<times> VoiceSessionStateMachine" where
  "disconnect = connection_then_interrupt conn_disconnect Stop_disconnected"

definition requestTransmission ::
  "ClientTransmissionId \<Rightarrow> VoiceSessionStateMachine \<Rightarrow> bool \<times> VoiceSessionStateMachine" where
  "requestTransmission cid s =
     (case cs_membership_version (vs_connection s) of
        None \<Rightarrow> (False, s)
      | Some v \<Rightarrow>
          if \<not> conn_ready (vs_connection s) then (False, s)
          else on_transmission (trans_requestStart cid (vs_selected_scope s) v) s)"

datatype SessionOp =
    SelectScope VoiceScope
  | BeginConnect
  | TransportConnected
  | MembershipRefreshed u64
  | SubscriptionsRestored u64
  | MembershipChanged u64
  | ConnectionLost
  | Disconnect
  | RequestTransmission ClientTransmissionId
  | TransmissionAccepted ClientTransmissionId TransmissionId
  | TransmissionRejected ClientTransmissionId
  | EndTransmission
  | TransmissionEnded TransmissionId
  | PermissionRevoked
  | TransmissionTimedOut
  | TransmissionTransportFailed

fun session_step ::
  "SessionOp \<Rightarrow> VoiceSessionStateMachine \<Rightarrow> bool \<times> VoiceSessionStateMachine" where
  "session_step (SelectScope sc) s = (True, selectScope sc s)"
| "session_step BeginConnect s = on_connection conn_beginConnect s"
| "session_step TransportConnected s = on_connection conn_transportConnected s"
| "session_step (MembershipRefreshed v) s = on_connection (conn_membershipRefreshed v) s"
| "session_step (SubscriptionsRestored v) s = on_connection (conn_subscriptionsRestored v) s"
| "session_step (MembershipChanged v) s = membershipChanged v s"
| "session_step ConnectionLost s = connectionLost s"
| "session_step Disconnect s = disconnect s"
| "session_step (RequestTransmission cid) s = requestTransmission cid s"
| "session_step (TransmissionAccepted cid tid) s = on_transmission (trans_accepted cid tid) s"
| "session_step (TransmissionRejected cid) s = on_transmission (trans_rejected cid) s"
| "session_step EndTransmission s = on_transmission trans_requestEnd s"
| "session_step (TransmissionEnded tid) s = on_transmission (trans_ended tid) s"
| "session_step PermissionRevoked s = on_transmission (trans_interrupt Stop_permission_revoked) s"
| "session_step TransmissionTimedOut s = on_transmission (trans_interrupt Stop_timed_out) s"
| "session_step TransmissionTransportFailed s =
     on_transmission (trans_interrupt Stop_transport_error) s"

fun session_run :: "SessionOp list \<Rightarrow> VoiceSessionStateMachine \<Rightarrow> VoiceSessionStateMachine" where
  "session_run [] s = s"
| "session_run (op # ops) s = session_run ops (snd (session_step op s))"

inductive reachable_session :: "VoiceSessionStateMachine \<Rightarrow> bool" where
  initial: "reachable_session session_init"
| call: "reachable_session s \<Longrightarrow> session_step op s = (b, s') \<Longrightarrow> reachable_session s'"

lemmas session_defs = on_connection_def on_transmission_def connection_then_interrupt_def
  selectScope_def membershipChanged_def connectionLost_def disconnect_def requestTransmission_def

section \<open>Invariant\<close>

definition session_ok :: "VoiceSessionStateMachine \<Rightarrow> bool" where
  "session_ok s \<longleftrightarrow>
     connection_ok (vs_connection s) \<and>
     transmission_ok (vs_transmission s) \<and>
     (case ts_context (vs_transmission s) of
        None \<Rightarrow> True
      | Some c \<Rightarrow> cs_state (vs_connection s) = Conn_ready \<and>
                  cs_membership_version (vs_connection s) = Some (tc_membership_version c))"

lemma session_ok_init: "session_ok session_init"
  by (simp add: session_ok_def session_init_def connection_init_def transmission_init_def
      connection_ok_def transmission_ok_def)

lemmas session_ok_defs = session_ok_def connection_ok_def transmission_ok_def

lemma session_step_ok: "session_ok s \<Longrightarrow> session_ok (snd (session_step op s))"
  by (cases op)
    (auto simp: session_ok_defs session_defs conn_defs trans_defs split: option.splits if_splits)

lemma session_run_ok: "session_ok s \<Longrightarrow> session_ok (session_run ops s)"
  by (induction ops arbitrary: s) (auto intro: session_step_ok)

lemma reachable_session_ok: "reachable_session s \<Longrightarrow> session_ok s"
proof (induction rule: reachable_session.induct)
  case initial
  show ?case by (rule session_ok_init)
next
  case (call s op b s')
  then show ?case using session_step_ok [of s op] by simp
qed

lemma session_run_snoc: "session_run (xs @ ys) s = session_run ys (session_run xs s)"
  by (induction xs arbitrary: s) simp_all

lemma reachable_session_iff_run: "reachable_session s \<longleftrightarrow> (\<exists>ops. s = session_run ops session_init)"
proof
  assume "reachable_session s"
  then show "\<exists>ops. s = session_run ops session_init"
  proof (induction rule: reachable_session.induct)
    case initial
    show ?case by (rule exI [of _ "[]"]) simp
  next
    case (call s op b s')
    then obtain ops where "s = session_run ops session_init" by blast
    with call.hyps(2) have "s' = session_run (ops @ [op]) session_init"
      by (simp add: session_run_snoc)
    then show ?case by blast
  qed
next
  have "reachable_session t \<Longrightarrow> reachable_session (session_run ops t)" for ops t
    by (induction ops arbitrary: t) (auto intro: reachable_session.call prod.collapse [symmetric])
  then show "\<exists>ops. s = session_run ops session_init \<Longrightarrow> reachable_session s"
    using reachable_session.initial by blast
qed

text \<open>
  In every reachable voice session a pending or active transmission exists only while the
  connection is ready, and it was requested under the membership version the connection holds
  now; the version is positive and the server's identifier is known exactly after authorization.
\<close>

theorem transmission_only_when_ready:
  assumes "reachable_session s"
    and "ts_state (vs_transmission s) \<noteq> Trans_idle"
  shows "cs_state (vs_connection s) = Conn_ready \<and>
         trans_membershipVersion (vs_transmission s) = cs_membership_version (vs_connection s) \<and>
         trans_membershipVersion (vs_transmission s) \<notin> {None, Some 0} \<and>
         (trans_transmissionId (vs_transmission s) \<noteq> None \<longleftrightarrow>
            ts_state (vs_transmission s) \<noteq> Trans_requesting)"
proof -
  have "session_ok s" using assms(1) by (rule reachable_session_ok)
  with assms(2) show ?thesis
    by (cases "ts_state (vs_transmission s)")
      (auto simp: session_ok_defs trans_membershipVersion_def trans_transmissionId_def
        split: option.splits)
qed

text \<open>
  A rejected call changes nothing: whenever an operation of the session returns false, the
  whole session is as it was before the call.
\<close>

theorem rejected_call_is_silent:
  assumes "session_step op s = (False, s')"
  shows "s' = s"
  using assms
  by (cases op) (auto simp: session_defs conn_defs trans_defs Let_def
      split: option.splits if_splits prod.splits)

section \<open>Abstract view\<close>

text \<open>
  The contract of the class comment: a transmission starts only while the connection is ready,
  every change of connection, membership or permission ends it, and nothing resumes it. The view
  forgets all bookkeeping but the membership version in use and the phase of the transmission.
\<close>

datatype session_view = Offline | Listening u64 | Speaking u64 TransmissionState

definition view_of :: "VoiceSessionStateMachine \<Rightarrow> session_view" where
  "view_of s =
     (if cs_state (vs_connection s) = Conn_ready
      then case cs_membership_version (vs_connection s) of
             None \<Rightarrow> Offline
           | Some v \<Rightarrow> if ts_state (vs_transmission s) = Trans_idle then Listening v
                      else Speaking v (ts_state (vs_transmission s))
      else Offline)"

inductive view_step :: "session_view \<Rightarrow> session_view \<Rightarrow> bool" where
  stay: "view_step w w"
| come_online: "view_step Offline (Listening v)"
| go_offline: "view_step w Offline"
| press: "view_step (Listening v) (Speaking v Trans_requesting)"
| authorize: "view_step (Speaking v Trans_requesting) (Speaking v Trans_transmitting)"
| release: "view_step (Speaking v Trans_transmitting) (Speaking v Trans_ending)"
| stop: "view_step (Speaking v p) (Listening v)"

inductive_simps view_step_Offline: "view_step Offline w"
inductive_simps view_step_Listening: "view_step (Listening v) w"
inductive_simps view_step_Speaking: "view_step (Speaking v p) w"

lemmas view_step_simps = view_step_Offline view_step_Listening view_step_Speaking

lemma session_refines_view:
  assumes "session_ok s"
  shows "view_step (view_of s) (view_of (snd (session_step op s)))"
  using assms
  by (cases op)
    (auto simp: session_ok_defs view_of_def session_defs conn_defs trans_defs
      view_step_simps split: option.splits if_splits)

text \<open>
  C8: every operation of a reachable session refines the abstract contract: going online never
  starts a transmission, a transmission passes through authorization before it transmits, it
  never survives leaving the ready state, and it never moves to another membership version.
\<close>

theorem session_step_refines:
  assumes "reachable_session s" and "session_step op s = (b, s')"
  shows "view_step (view_of s) (view_of s')"
  using session_refines_view [OF reachable_session_ok [OF assms(1)], of op] assms(2) by simp

text \<open>
  An accepted membership change strictly increases the version, leaves the ready state until
  the subscriptions of the new version are restored, and ends a transmission in flight with the
  reason membership changed.
\<close>

theorem membership_change_interrupts:
  assumes "reachable_session s" and "membershipChanged v s = (True, s')"
  shows "(\<exists>old. cs_membership_version (vs_connection s) = Some old \<and> old < v) \<and>
         cs_membership_version (vs_connection s') = Some v \<and>
         cs_state (vs_connection s') = Conn_restoring_subscriptions \<and>
         ts_context (vs_transmission s') = None \<and>
         (ts_state (vs_transmission s) \<noteq> Trans_idle \<longrightarrow>
            ts_last_stop_reason (vs_transmission s') = Stop_membership_changed) \<and>
         (\<forall>cid. fst (requestTransmission cid s') = False)"
proof -
  have "session_ok s" using assms(1) by (rule reachable_session_ok)
  then show ?thesis
    using assms(2)
    by (auto simp: session_ok_defs session_defs conn_defs trans_defs Let_def
        split: option.splits if_splits prod.splits)
qed

section \<open>A concrete session\<close>

definition sample_session :: VoiceSessionStateMachine where
  "sample_session =
     session_run
       [BeginConnect, TransportConnected, MembershipRefreshed 4, SubscriptionsRestored 4,
        RequestTransmission (StrongId ''c1''), TransmissionAccepted (StrongId ''c1'') (StrongId ''x1'')]
       session_init"

lemma sample_session_reachable: "reachable_session sample_session"
  unfolding reachable_session_iff_run sample_session_def by blast

lemma sample_session_transmits:
  "ts_state (vs_transmission sample_session) = Trans_transmitting"
  by code_simp

theorem transmission_only_when_ready_witness:
  "cs_state (vs_connection sample_session) = Conn_ready \<and>
   trans_membershipVersion (vs_transmission sample_session) =
     cs_membership_version (vs_connection sample_session)"
  using transmission_only_when_ready [OF sample_session_reachable] sample_session_transmits by simp

theorem rejected_call_is_silent_witness:
  "snd (session_step BeginConnect sample_session) = sample_session"
proof -
  have "fst (session_step BeginConnect sample_session) = False" by code_simp
  then show ?thesis
    using rejected_call_is_silent [of BeginConnect sample_session] by (metis prod.collapse)
qed

theorem session_step_refines_witness:
  "view_step (view_of sample_session) (view_of (snd (session_step ConnectionLost sample_session)))"
  using session_step_refines [OF sample_session_reachable] by (metis prod.collapse)

theorem membership_change_interrupts_witness:
  "ts_last_stop_reason (vs_transmission (snd (membershipChanged 5 sample_session))) =
     Stop_membership_changed"
proof -
  have "fst (membershipChanged 5 sample_session) = True" by code_simp
  then have "membershipChanged 5 sample_session = (True, snd (membershipChanged 5 sample_session))"
    by (metis prod.collapse)
  from membership_change_interrupts [OF sample_session_reachable this] sample_session_transmits
  show ?thesis by simp
qed

end
