(* ===== verification/Control_Plane_Types.thy ===== *)
theory Control_Plane_Types
  imports Recipient_Routing Voice_Session
begin

text \<open>
  The data of the application layer
  (\<open>libs/application/include/hvc/application/control_plane.hpp\<close>, \<open>transmission_audit.hpp\<close>):
  sessions, authoritative membership contexts, transmissions, commands, error enumerations,
  audit events and the result classes, whose constructors throw unless exactly one of value and
  error is present (\<open>libs/application/src/control_plane.cpp\<close>).
\<close>

section \<open>Sessions and membership contexts\<close>

record AuthenticateSessionCommand =
  ac_credential :: string
  ac_device_id :: DeviceId
  ac_correlation_id :: CorrelationId

record AuthenticatedSession =
  as_session_id :: SessionId
  as_player_id :: PlayerId
  as_device_id :: DeviceId
  as_expires_at :: time_point

definition activeAt :: "AuthenticatedSession \<Rightarrow> time_point \<Rightarrow> bool" where
  "activeAt s now = (now < as_expires_at s)"

datatype SessionAuthenticationError =
    Auth_invalid_credentials
  | Auth_device_not_allowed
  | Auth_account_disabled
  | Auth_rate_limited

type_synonym SessionAuthenticationResult = "SessionAuthenticationError + AuthenticatedSession"

record AuthoritativeMembershipContext =
  mc_snapshot :: MembershipSnapshot
  mc_role_policy :: RolePolicy

definition AuthoritativeMembershipContext_ctor ::
  "MembershipSnapshot option \<Rightarrow> RolePolicy option \<Rightarrow> AuthoritativeMembershipContext throws" where
  "AuthoritativeMembershipContext_ctor snap policy =
     (case (snap, policy) of
        (Some s, Some p) \<Rightarrow> Inr \<lparr>mc_snapshot = s, mc_role_policy = p\<rparr>
      | _ \<Rightarrow> Inl (InvalidArgument
          ''An authoritative membership context requires a snapshot and a role policy.''))"

datatype AuthoritativeMembershipWriteError =
    Write_player_not_in_snapshot
  | Write_version_not_newer

section \<open>Commands and transmissions\<close>

record StartTransmissionCommand =
  st_session_id :: SessionId
  st_device_id :: DeviceId
  st_client_transmission_id :: ClientTransmissionId
  st_scope :: VoiceScope
  st_membership_version :: u64
  st_correlation_id :: CorrelationId

record EndTransmissionCommand =
  en_session_id :: SessionId
  en_device_id :: DeviceId
  en_transmission_id :: TransmissionId
  en_correlation_id :: CorrelationId

record ModerateTransmissionCommand =
  mo_session_id :: SessionId
  mo_device_id :: DeviceId
  mo_transmission_id :: TransmissionId
  mo_correlation_id :: CorrelationId

record AuthorizedTransmission =
  au_transmission_id :: TransmissionId
  au_client_transmission_id :: ClientTransmissionId
  au_sender_player_id :: PlayerId
  au_scope :: VoiceScope
  au_membership_version :: u64
  au_recipients :: "PlayerId list"
  au_correlation_id :: CorrelationId

record ActiveTransmission =
  at_authorization :: AuthorizedTransmission
  at_session_id :: SessionId
  at_device_id :: DeviceId
  at_started_at :: time_point
  at_scope_node_id :: string
  at_scope_can_subscribe :: bool

record EndedTransmission =
  et_transmission :: ActiveTransmission
  et_stop_reason :: TransmissionStopReason
  et_ended_at :: time_point
  et_correlation_id :: CorrelationId

abbreviation at_id :: "ActiveTransmission \<Rightarrow> TransmissionId" where
  "at_id t \<equiv> au_transmission_id (at_authorization t)"

abbreviation at_sender :: "ActiveTransmission \<Rightarrow> PlayerId" where
  "at_sender t \<equiv> au_sender_player_id (at_authorization t)"

abbreviation at_scope :: "ActiveTransmission \<Rightarrow> VoiceScope" where
  "at_scope t \<equiv> au_scope (at_authorization t)"

abbreviation at_version :: "ActiveTransmission \<Rightarrow> u64" where
  "at_version t \<equiv> au_membership_version (at_authorization t)"

datatype TransmissionRateLimitAction = Limit_start | Limit_end

section \<open>Error enumerations\<close>

datatype TransmissionAuthorizationError =
    Authz_session_not_found
  | Authz_session_device_mismatch
  | Authz_session_expired
  | Authz_membership_unavailable
  | Authz_voice_not_connected
  | Authz_voice_no_active_membership
  | Authz_voice_scope_not_found
  | Authz_voice_scope_not_authorized
  | Authz_voice_transmit_muted
  | Authz_voice_membership_stale

datatype TransmissionActivationError =
    Act_session_changed
  | Act_membership_changed
  | Act_sender_already_transmitting
  | Act_speaker_limit_reached
  | Act_voice_control_failed
  | Act_transmission_id_conflict

datatype TransmissionEndRepositoryError =
    Repo_transmission_not_found
  | Repo_transmission_not_owned

datatype StartTransmissionError =
    Start_session_not_found
  | Start_session_device_mismatch
  | Start_session_expired
  | Start_membership_unavailable
  | Start_voice_not_connected
  | Start_voice_no_active_membership
  | Start_voice_scope_not_found
  | Start_voice_scope_not_authorized
  | Start_voice_transmit_muted
  | Start_voice_membership_stale
  | Start_session_changed_during_start
  | Start_membership_changed_during_start
  | Start_sender_already_transmitting
  | Start_speaker_limit_reached
  | Start_voice_control_unavailable
  | Start_transmission_id_conflict
  | Start_rate_limited

datatype EndTransmissionError =
    End_session_not_found
  | End_session_device_mismatch
  | End_session_expired
  | End_transmission_not_found
  | End_transmission_not_owned
  | End_rate_limited

datatype ModerateTransmissionError =
    Mod_session_not_found
  | Mod_session_device_mismatch
  | Mod_session_expired
  | Mod_not_authorized
  | Mod_transmission_not_found

section \<open>Audit events\<close>

datatype TransmissionAuditEventType =
    Event_started
  | Event_ended
  | Event_rejected
  | Event_forcibly_interrupted

datatype TransmissionAuditOperation =
    Op_start
  | Op_end
  | Op_moderation
  | Op_timeout
  | Op_session_lifecycle
  | Op_membership_change

datatype TransmissionAuditRejectionReason =
    Audit_session_not_found
  | Audit_session_device_mismatch
  | Audit_session_expired
  | Audit_membership_unavailable
  | Audit_voice_not_connected
  | Audit_voice_no_active_membership
  | Audit_voice_scope_not_found
  | Audit_voice_scope_not_authorized
  | Audit_voice_transmit_muted
  | Audit_voice_membership_stale
  | Audit_session_changed_during_start
  | Audit_membership_changed_during_start
  | Audit_sender_already_transmitting
  | Audit_transmission_id_conflict
  | Audit_transmission_not_found
  | Audit_transmission_not_owned
  | Audit_not_authorized
  | Audit_rate_limited
  | Audit_speaker_limit_reached
  | Audit_voice_control_unavailable

record TransmissionAuditEvent =
  ev_type :: TransmissionAuditEventType
  ev_operation :: TransmissionAuditOperation
  ev_occurred_at :: time_point
  ev_correlation_id :: CorrelationId
  ev_session_id :: "SessionId option"
  ev_device_id :: "DeviceId option"
  ev_client_transmission_id :: "ClientTransmissionId option"
  ev_transmission_id :: "TransmissionId option"
  ev_actor_player_id :: "PlayerId option"
  ev_sender_player_id :: "PlayerId option"
  ev_scope :: "VoiceScope option"
  ev_membership_version :: "u64 option"
  ev_recipient_count :: "nat option"
  ev_stop_reason :: "TransmissionStopReason option"
  ev_rejection_reason :: "TransmissionAuditRejectionReason option"

definition TransmissionAuditEvent_ctor ::
  "TransmissionAuditEventType \<Rightarrow> TransmissionAuditOperation \<Rightarrow> time_point \<Rightarrow> CorrelationId \<Rightarrow>
   TransmissionAuditEvent" where
  "TransmissionAuditEvent_ctor ty oper time corr =
     \<lparr>ev_type = ty, ev_operation = oper, ev_occurred_at = time, ev_correlation_id = corr,
      ev_session_id = None, ev_device_id = None, ev_client_transmission_id = None,
      ev_transmission_id = None, ev_actor_player_id = None, ev_sender_player_id = None,
      ev_scope = None, ev_membership_version = None, ev_recipient_count = None,
      ev_stop_reason = None, ev_rejection_reason = None\<rparr>"

section \<open>Result classes\<close>

definition SessionAuthenticationResult_ctor ::
  "AuthenticatedSession option \<Rightarrow> SessionAuthenticationError option \<Rightarrow>
   SessionAuthenticationResult throws" where
  "SessionAuthenticationResult_ctor =
     exclusive_result ''A session authentication result must contain either a session or an error.''"

definition TransmissionAuthorizationResult_ctor ::
  "AuthorizedTransmission option \<Rightarrow> TransmissionAuthorizationError option \<Rightarrow>
   (TransmissionAuthorizationError + AuthorizedTransmission) throws" where
  "TransmissionAuthorizationResult_ctor =
     exclusive_result
       ''A transmission authorization result must contain either a transmission or an error.''"

definition TransmissionActivationResult_ctor ::
  "ActiveTransmission option \<Rightarrow> TransmissionActivationError option \<Rightarrow>
   (TransmissionActivationError + ActiveTransmission) throws" where
  "TransmissionActivationResult_ctor =
     exclusive_result
       ''A transmission activation result must contain either a transmission or an error.''"

definition TransmissionEndRepositoryResult_ctor ::
  "EndedTransmission option \<Rightarrow> TransmissionEndRepositoryError option \<Rightarrow>
   (TransmissionEndRepositoryError + EndedTransmission) throws" where
  "TransmissionEndRepositoryResult_ctor =
     exclusive_result ''A transmission end result must contain either a transmission or an error.''"

definition StartTransmissionResult_ctor ::
  "ActiveTransmission option \<Rightarrow> StartTransmissionError option \<Rightarrow>
   (StartTransmissionError + ActiveTransmission) throws" where
  "StartTransmissionResult_ctor =
     exclusive_result
       ''A start transmission result must contain either a transmission or an error.''"

definition EndTransmissionResult_ctor ::
  "EndedTransmission option \<Rightarrow> EndTransmissionError option \<Rightarrow>
   (EndTransmissionError + EndedTransmission) throws" where
  "EndTransmissionResult_ctor =
     exclusive_result ''An end transmission result must contain either a transmission or an error.''"

definition ModerateTransmissionResult_ctor ::
  "EndedTransmission option \<Rightarrow> ModerateTransmissionError option \<Rightarrow>
   (ModerateTransmissionError + EndedTransmission) throws" where
  "ModerateTransmissionResult_ctor =
     exclusive_result
       ''A moderation result must contain either an interrupted transmission or an error.''"

lemmas result_ctor_defs = SessionAuthenticationResult_ctor_def
  TransmissionAuthorizationResult_ctor_def TransmissionActivationResult_ctor_def
  TransmissionEndRepositoryResult_ctor_def StartTransmissionResult_ctor_def
  EndTransmissionResult_ctor_def ModerateTransmissionResult_ctor_def

text \<open>
  The static factories \<open>accepted\<close>, \<open>rejected\<close>, \<open>activated\<close>, \<open>ended\<close>, \<open>started\<close> and
  \<open>interrupted\<close> pass exactly one of the two, so their constructor never throws and a result is
  a sum: every operation of the model returns \<^const>\<open>Inr\<close> of the value or \<^const>\<open>Inl\<close> of the error.
\<close>

lemma result_factories_never_throw:
  "TransmissionAuthorizationResult_ctor (Some a) None = Inr (Inr a)"
  "TransmissionAuthorizationResult_ctor None (Some e1) = Inr (Inl e1)"
  "TransmissionActivationResult_ctor (Some b) None = Inr (Inr b)"
  "TransmissionActivationResult_ctor None (Some e2) = Inr (Inl e2)"
  "TransmissionEndRepositoryResult_ctor (Some c) None = Inr (Inr c)"
  "TransmissionEndRepositoryResult_ctor None (Some e3) = Inr (Inl e3)"
  "StartTransmissionResult_ctor (Some b) None = Inr (Inr b)"
  "StartTransmissionResult_ctor None (Some e4) = Inr (Inl e4)"
  "EndTransmissionResult_ctor (Some c) None = Inr (Inr c)"
  "EndTransmissionResult_ctor None (Some e5) = Inr (Inl e5)"
  "ModerateTransmissionResult_ctor (Some c) None = Inr (Inr c)"
  "ModerateTransmissionResult_ctor None (Some e6) = Inr (Inl e6)"
  by (simp_all add: result_ctor_defs)

definition context_ok :: "AuthoritativeMembershipContext \<Rightarrow> bool" where
  "context_ok c \<longleftrightarrow> snapshot_ok (mc_snapshot c) \<and> policy_ok (mc_role_policy c)"

end
