(* ===== verification/Control_Plane_Store.thy ===== *)
theory Control_Plane_Store
  imports Control_Plane_Types
begin

text \<open>
  The in-memory control-plane store
  (\<open>libs/application/include/hvc/application/in_memory_control_plane.hpp\<close>,
  \<open>libs/application/src/in_memory_control_plane.cpp\<close>): sessions, authoritative memberships and
  active transmissions under one mutex. Each operation is the code of one critical section; the
  audit sink and the lifecycle observer are the logs of the calls they receive, in order; what
  the observer answers to \<open>onStarted\<close> is a function of the calls it has seen. The optional persistent membership repository is an opaque state with the three operations of its
  interface as a parameter.
\<close>

section \<open>State\<close>

record 'm membership_repo =
  mr_currentFor :: "'m \<Rightarrow> PlayerId \<Rightarrow> AuthoritativeMembershipContext option"
  mr_upsertIfNewer :: "'m \<Rightarrow> PlayerId \<Rightarrow> AuthoritativeMembershipContext \<Rightarrow>
     AuthoritativeMembershipWriteError option \<times> 'm"
  mr_erase :: "'m \<Rightarrow> PlayerId \<Rightarrow> bool \<times> 'm"

datatype LifecycleCall =
    Call_onStarted ActiveTransmission bool
  | Call_onEnded EndedTransmission

record 'm Store =
  sto_audit_enabled :: bool
  sto_observer :: "(LifecycleCall list \<Rightarrow> ActiveTransmission \<Rightarrow> bool) option"
  sto_persistent_sessions :: "(SessionId \<Rightarrow> AuthenticatedSession option) option"
  sto_persistent_memberships :: "'m option"
  sto_sessions :: "(SessionId, AuthenticatedSession) std_map"
  sto_memberships :: "(PlayerId, AuthoritativeMembershipContext) std_map"
  sto_active :: "(TransmissionId, ActiveTransmission) std_map"
  sto_audit :: "TransmissionAuditEvent list"
  sto_calls :: "LifecycleCall list"

definition Store_ctor ::
  "bool \<Rightarrow> (LifecycleCall list \<Rightarrow> ActiveTransmission \<Rightarrow> bool) option \<Rightarrow>
   (SessionId \<Rightarrow> AuthenticatedSession option) option \<Rightarrow> 'm option \<Rightarrow> 'm Store" where
  "Store_ctor audit obs sessions memberships =
     \<lparr>sto_audit_enabled = audit, sto_observer = obs, sto_persistent_sessions = sessions,
      sto_persistent_memberships = memberships, sto_sessions = [], sto_memberships = [],
      sto_active = [], sto_audit = [], sto_calls = []\<rparr>"

section \<open>Reads\<close>

definition currentMembershipLocked ::
  "'m membership_repo \<Rightarrow> 'm Store \<Rightarrow> PlayerId \<Rightarrow> AuthoritativeMembershipContext option" where
  "currentMembershipLocked repo s player =
     (case sto_persistent_memberships s of
        Some r \<Rightarrow> mr_currentFor repo r player
      | None \<Rightarrow> map_of (sto_memberships s) player)"

definition currentSessionLocked :: "'m Store \<Rightarrow> SessionId \<Rightarrow> AuthenticatedSession option" where
  "currentSessionLocked s sid =
     (case map_of (sto_sessions s) sid of
        Some x \<Rightarrow> Some x
      | None \<Rightarrow> (case sto_persistent_sessions s of Some f \<Rightarrow> f sid | None \<Rightarrow> None))"

definition active :: "'m Store \<Rightarrow> TransmissionId \<Rightarrow> ActiveTransmission option" where
  "active s tid = map_of (sto_active s) tid"

definition activeCount :: "'m Store \<Rightarrow> nat" where
  "activeCount s = length (sto_active s)"

section \<open>Notifications\<close>

definition notifyEnded1 :: "EndedTransmission \<Rightarrow> 'm Store \<Rightarrow> 'm Store" where
  "notifyEnded1 e s =
     (if sto_observer s \<noteq> None then s\<lparr>sto_calls := sto_calls s @ [Call_onEnded e]\<rparr> else s)"

fun notifyEnded :: "EndedTransmission list \<Rightarrow> 'm Store \<Rightarrow> 'm Store" where
  "notifyEnded [] s = s"
| "notifyEnded (e # es) s = notifyEnded es (notifyEnded1 e s)"

definition forced_event ::
  "TransmissionAuditOperation \<Rightarrow> EndedTransmission \<Rightarrow> TransmissionAuditEvent" where
  "forced_event operation e =
     (let a = et_transmission e; au = at_authorization a in
      (TransmissionAuditEvent_ctor Event_forcibly_interrupted operation (et_ended_at e)
         (et_correlation_id e))
        \<lparr>ev_session_id := Some (at_session_id a),
         ev_device_id := Some (at_device_id a),
         ev_client_transmission_id := Some (au_client_transmission_id au),
         ev_transmission_id := Some (au_transmission_id au),
         ev_sender_player_id := Some (au_sender_player_id au),
         ev_scope := Some (au_scope au),
         ev_membership_version := Some (au_membership_version au),
         ev_recipient_count := Some (length (au_recipients au)),
         ev_stop_reason := Some (et_stop_reason e)\<rparr>)"

definition recordForcedInterruptions ::
  "EndedTransmission list \<Rightarrow> TransmissionAuditOperation \<Rightarrow> 'm Store \<Rightarrow> 'm Store" where
  "recordForcedInterruptions es operation s =
     (if \<not> sto_audit_enabled s then s
      else s\<lparr>sto_audit := sto_audit s @ map (forced_event operation) es\<rparr>)"

section \<open>Sessions\<close>

definition end_record ::
  "TransmissionStopReason \<Rightarrow> time_point \<Rightarrow> CorrelationId \<Rightarrow> ActiveTransmission \<Rightarrow>
   EndedTransmission" where
  "end_record reason ended_at corr t =
     \<lparr>et_transmission = t, et_stop_reason = reason, et_ended_at = ended_at,
      et_correlation_id = corr\<rparr>"

definition interruptForPlayerLocked ::
  "PlayerId \<Rightarrow> TransmissionStopReason \<Rightarrow> time_point \<Rightarrow> CorrelationId \<Rightarrow> 'm Store \<Rightarrow>
   EndedTransmission list \<times> 'm Store" where
  "interruptForPlayerLocked player reason ended_at corr s =
     (let (hit, rest) = sweep (\<lambda>t. at_sender t = player) (sto_active s)
      in (map (end_record reason ended_at corr) hit, s\<lparr>sto_active := rest\<rparr>))"

definition interruptForSessionLocked ::
  "SessionId \<Rightarrow> TransmissionStopReason \<Rightarrow> time_point \<Rightarrow> CorrelationId \<Rightarrow> 'm Store \<Rightarrow>
   EndedTransmission list \<times> 'm Store" where
  "interruptForSessionLocked sid reason ended_at corr s =
     (let (hit, rest) = sweep (\<lambda>t. at_session_id t = sid) (sto_active s)
      in (map (end_record reason ended_at corr) hit, s\<lparr>sto_active := rest\<rparr>))"

definition upsertSession :: "AuthenticatedSession \<Rightarrow> 'm Store \<Rightarrow> 'm Store" where
  "upsertSession session s =
     s\<lparr>sto_sessions := std_put (as_session_id session) session (sto_sessions s)\<rparr>"

definition removeSession_locked ::
  "SessionId \<Rightarrow> time_point \<Rightarrow> CorrelationId \<Rightarrow> 'm Store \<Rightarrow> EndedTransmission list \<times> 'm Store" where
  "removeSession_locked sid now corr s =
     (case currentSessionLocked s sid of
        None \<Rightarrow> ([], s)
      | Some _ \<Rightarrow>
          interruptForSessionLocked sid Stop_disconnected now corr
            (s\<lparr>sto_sessions := std_erase sid (sto_sessions s)\<rparr>))"

definition removeSession ::
  "SessionId \<Rightarrow> time_point \<Rightarrow> CorrelationId \<Rightarrow> 'm Store \<Rightarrow> EndedTransmission list \<times> 'm Store" where
  "removeSession sid now corr s =
     (let (interrupted, s') = removeSession_locked sid now corr s
      in (interrupted,
          recordForcedInterruptions interrupted Op_session_lifecycle (notifyEnded interrupted s')))"

section \<open>Memberships\<close>

definition MembershipUpdateResult_ctor ::
  "EndedTransmission list \<Rightarrow> AuthoritativeMembershipWriteError option \<Rightarrow>
   (AuthoritativeMembershipWriteError + EndedTransmission list) throws" where
  "MembershipUpdateResult_ctor interrupted error =
     (case error of
        Some e \<Rightarrow>
          if interrupted \<noteq> []
          then Inl (InvalidArgument
                 ''A rejected membership update must not interrupt transmissions.'')
          else Inr (Inl e)
      | None \<Rightarrow> Inr (Inr interrupted))"

lemma MembershipUpdateResult_factories_never_throw:
  "MembershipUpdateResult_ctor es None = Inr (Inr es)"
  "MembershipUpdateResult_ctor [] (Some e) = Inr (Inl e)"
  by (simp_all add: MembershipUpdateResult_ctor_def)

datatype AuthoritativeContextChange = Change_membership_changed | Change_permissions_changed

definition memory_upsertIfNewer ::
  "(PlayerId, AuthoritativeMembershipContext) std_map \<Rightarrow> PlayerId \<Rightarrow>
   AuthoritativeMembershipContext \<Rightarrow>
   AuthoritativeMembershipWriteError option \<times> (PlayerId, AuthoritativeMembershipContext) std_map"
where
  "memory_upsertIfNewer m player ctx =
     (case map_of m player of
        Some existing \<Rightarrow>
          if ms_version (mc_snapshot ctx) \<le> ms_version (mc_snapshot existing)
          then (Some Write_version_not_newer, m)
          else (None, std_put player ctx m)
      | None \<Rightarrow> (None, std_put player ctx m))"

definition write_membership ::
  "'m membership_repo \<Rightarrow> PlayerId \<Rightarrow> AuthoritativeMembershipContext \<Rightarrow> 'm Store \<Rightarrow>
   AuthoritativeMembershipWriteError option \<times> 'm Store" where
  "write_membership repo player ctx s =
     (case sto_persistent_memberships s of
        Some r \<Rightarrow>
          (let (e, r') = mr_upsertIfNewer repo r player ctx
           in (e, s\<lparr>sto_persistent_memberships := Some r'\<rparr>))
      | None \<Rightarrow>
          (let (e, m) = memory_upsertIfNewer (sto_memberships s) player ctx
           in (e, s\<lparr>sto_memberships := m\<rparr>)))"

definition updateMembership_locked ::
  "'m membership_repo \<Rightarrow> PlayerId \<Rightarrow> AuthoritativeMembershipContext \<Rightarrow> time_point \<Rightarrow>
   CorrelationId \<Rightarrow> AuthoritativeContextChange \<Rightarrow> 'm Store \<Rightarrow>
   (AuthoritativeMembershipWriteError + EndedTransmission list) \<times> 'm Store" where
  "updateMembership_locked repo player ctx now corr change s =
     (if snapshot_find (mc_snapshot ctx) player = None
      then (Inl Write_player_not_in_snapshot, s)
      else case write_membership repo player ctx s of
        (Some e, s') \<Rightarrow> (Inl e, s')
      | (None, s') \<Rightarrow>
          (let reason = (if change = Change_permissions_changed then Stop_permission_revoked
                         else Stop_membership_changed);
               (interrupted, s'') = interruptForPlayerLocked player reason now corr s'
           in (Inr interrupted, s'')))"

definition updateMembership ::
  "'m membership_repo \<Rightarrow> PlayerId \<Rightarrow> AuthoritativeMembershipContext \<Rightarrow> time_point \<Rightarrow>
   CorrelationId \<Rightarrow> AuthoritativeContextChange \<Rightarrow> 'm Store \<Rightarrow>
   (AuthoritativeMembershipWriteError + EndedTransmission list) \<times> 'm Store" where
  "updateMembership repo player ctx now corr change s =
     (case updateMembership_locked repo player ctx now corr change s of
        (Inl e, s') \<Rightarrow> (Inl e, s')
      | (Inr interrupted, s') \<Rightarrow>
          (Inr interrupted,
           recordForcedInterruptions interrupted Op_membership_change
             (notifyEnded interrupted s')))"

definition replaceMembership ::
  "'m membership_repo \<Rightarrow> PlayerId \<Rightarrow> AuthoritativeMembershipContext \<Rightarrow> time_point \<Rightarrow>
   CorrelationId \<Rightarrow> 'm Store \<Rightarrow>
   (AuthoritativeMembershipWriteError + EndedTransmission list) \<times> 'm Store" where
  "replaceMembership repo player ctx now corr s =
     updateMembership repo player ctx now corr Change_membership_changed s"

definition erase_membership :: "'m membership_repo \<Rightarrow> PlayerId \<Rightarrow> 'm Store \<Rightarrow> 'm Store" where
  "erase_membership repo player s =
     (case sto_persistent_memberships s of
        Some r \<Rightarrow> s\<lparr>sto_persistent_memberships := Some (snd (mr_erase repo r player))\<rparr>
      | None \<Rightarrow> s\<lparr>sto_memberships := std_erase player (sto_memberships s)\<rparr>)"

definition removeMembership_locked ::
  "'m membership_repo \<Rightarrow> PlayerId \<Rightarrow> time_point \<Rightarrow> CorrelationId \<Rightarrow> 'm Store \<Rightarrow>
   EndedTransmission list \<times> 'm Store" where
  "removeMembership_locked repo player now corr s =
     interruptForPlayerLocked player Stop_membership_changed now corr
       (erase_membership repo player s)"

definition removeMembership ::
  "'m membership_repo \<Rightarrow> PlayerId \<Rightarrow> time_point \<Rightarrow> CorrelationId \<Rightarrow> 'm Store \<Rightarrow>
   EndedTransmission list \<times> 'm Store" where
  "removeMembership repo player now corr s =
     (let (interrupted, s') = removeMembership_locked repo player now corr s
      in (interrupted,
          recordForcedInterruptions interrupted Op_membership_change (notifyEnded interrupted s')))"

section \<open>Active transmissions\<close>

fun sameScopeNode :: "VoiceMembership \<Rightarrow> VoiceMembership \<Rightarrow> VoiceScope \<Rightarrow> bool" where
  "sameScopeNode left right Team_scope = (vm_team_id left = vm_team_id right)"
| "sameScopeNode left right Specialization_scope =
     (vm_specialization_id left = vm_specialization_id right)"
| "sameScopeNode left right Group_scope = (vm_group_id left = vm_group_id right)"

fun scopeNodeId :: "VoiceMembership \<Rightarrow> VoiceScope \<Rightarrow> string" where
  "scopeNodeId m Team_scope = id_value (vm_team_id m)"
| "scopeNodeId m Specialization_scope = id_value (vm_specialization_id m)"
| "scopeNodeId m Group_scope = id_value (vm_group_id m)"

definition is_matching_speaker ::
  "'m membership_repo \<Rightarrow> 'm Store \<Rightarrow> VoiceMembership \<Rightarrow> VoiceScope \<Rightarrow> ActiveTransmission \<Rightarrow>
   bool" where
  "is_matching_speaker repo s sender sc t =
     (if at_scope t \<noteq> sc then False
      else case currentMembershipLocked repo s (at_sender t) of
        None \<Rightarrow> False
      | Some ctx \<Rightarrow>
          (case snapshot_find (mc_snapshot ctx) (at_sender t) of
             None \<Rightarrow> False
           | Some m \<Rightarrow> sameScopeNode sender m sc))"

fun matchingSpeakers ::
  "'m membership_repo \<Rightarrow> 'm Store \<Rightarrow> VoiceMembership \<Rightarrow> VoiceScope \<Rightarrow>
   (TransmissionId, ActiveTransmission) std_map \<Rightarrow> nat \<Rightarrow> nat" where
  "matchingSpeakers repo s sender sc [] n = n"
| "matchingSpeakers repo s sender sc ((k, t) # rest) n =
     matchingSpeakers repo s sender sc rest
       (if is_matching_speaker repo s sender sc t then Suc n else n)"

definition activate ::
  "'m membership_repo \<Rightarrow> AuthorizedTransmission \<Rightarrow> SessionId \<Rightarrow> DeviceId \<Rightarrow> time_point \<Rightarrow>
   'm Store \<Rightarrow> (TransmissionActivationError + ActiveTransmission) \<times> 'm Store" where
  "activate repo au sid dev started_at s =
     (if (case currentSessionLocked s sid of
            None \<Rightarrow> True
          | Some session \<Rightarrow>
              as_player_id session \<noteq> au_sender_player_id au \<or>
              as_device_id session \<noteq> dev \<or> \<not> activeAt session started_at)
      then (Inl Act_session_changed, s)
      else case currentMembershipLocked repo s (au_sender_player_id au) of
        None \<Rightarrow> (Inl Act_membership_changed, s)
      | Some ctx \<Rightarrow>
          if ms_version (mc_snapshot ctx) \<noteq> au_membership_version au
          then (Inl Act_membership_changed, s)
          else (case (snapshot_find (mc_snapshot ctx) (au_sender_player_id au),
                      findScope (ms_hierarchy (mc_snapshot ctx)) (au_scope au)) of
            (Some sender, Some scope_definition) \<Rightarrow>
              if (case sd_max_concurrent_speakers scope_definition of
                    None \<Rightarrow> False
                  | Some limit \<Rightarrow>
                      limit \<le> matchingSpeakers repo s sender (au_scope au) (sto_active s) 0)
              then (Inl Act_speaker_limit_reached, s)
              else if list_ex (\<lambda>e. at_sender (snd e) = au_sender_player_id au) (sto_active s)
              then (Inl Act_sender_already_transmitting, s)
              else if std_contains (sto_active s) (au_transmission_id au)
              then (Inl Act_transmission_id_conflict, s)
              else
                (let t = \<lparr>at_authorization = au, at_session_id = sid, at_device_id = dev,
                          at_started_at = started_at,
                          at_scope_node_id = scopeNodeId sender (au_scope au),
                          at_scope_can_subscribe =
                            (vm_can_receive_voice sender \<and>
                             canReceive (mc_role_policy ctx) (vm_role_ids sender) (au_scope au))\<rparr>;
                     s1 = s\<lparr>sto_active := std_emplace (au_transmission_id au) t (sto_active s)\<rparr>
                 in case sto_observer s1 of
                      None \<Rightarrow> (Inr t, s1)
                    | Some answer \<Rightarrow>
                        (let ok = answer (sto_calls s1) t;
                             s2 = s1\<lparr>sto_calls := sto_calls s1 @ [Call_onStarted t ok]\<rparr>
                         in if ok then (Inr t, s2)
                            else (Inl Act_voice_control_failed,
                                  s2\<lparr>sto_active :=
                                       std_erase (au_transmission_id au) (sto_active s2)\<rparr>)))
          | _ \<Rightarrow> (Inl Act_membership_changed, s)))"

definition end_transmission ::
  "TransmissionId \<Rightarrow> SessionId \<Rightarrow> DeviceId \<Rightarrow> TransmissionStopReason \<Rightarrow> time_point \<Rightarrow>
   CorrelationId \<Rightarrow> 'm Store \<Rightarrow>
   (TransmissionEndRepositoryError + EndedTransmission) \<times> 'm Store" where
  "end_transmission tid sid dev reason ended_at corr s =
     (case map_of (sto_active s) tid of
        None \<Rightarrow> (Inl Repo_transmission_not_found, s)
      | Some t \<Rightarrow>
          if at_session_id t \<noteq> sid \<or> at_device_id t \<noteq> dev
          then (Inl Repo_transmission_not_owned, s)
          else (let e = end_record reason ended_at corr t
                in (Inr e, notifyEnded1 e (s\<lparr>sto_active := std_erase tid (sto_active s)\<rparr>))))"

definition interrupt_transmission ::
  "TransmissionId \<Rightarrow> TransmissionStopReason \<Rightarrow> time_point \<Rightarrow> CorrelationId \<Rightarrow> 'm Store \<Rightarrow>
   (TransmissionEndRepositoryError + EndedTransmission) \<times> 'm Store" where
  "interrupt_transmission tid reason ended_at corr s =
     (case map_of (sto_active s) tid of
        None \<Rightarrow> (Inl Repo_transmission_not_found, s)
      | Some t \<Rightarrow>
          (let e = end_record reason ended_at corr t
           in (Inr e, notifyEnded1 e (s\<lparr>sto_active := std_erase tid (sto_active s)\<rparr>))))"

definition expireTimedOut_locked ::
  "milliseconds \<Rightarrow> time_point \<Rightarrow> CorrelationId \<Rightarrow> 'm Store \<Rightarrow>
   EndedTransmission list \<times> 'm Store" where
  "expireTimedOut_locked maximum_duration now corr s =
     (let (hit, rest) =
            sweep (\<lambda>t. \<not> (now - at_started_at t < ticks maximum_duration)) (sto_active s)
      in (map (end_record Stop_timed_out now corr) hit, s\<lparr>sto_active := rest\<rparr>))"

definition expireTimedOut ::
  "milliseconds \<Rightarrow> time_point \<Rightarrow> CorrelationId \<Rightarrow> 'm Store \<Rightarrow>
   EndedTransmission list \<times> 'm Store" where
  "expireTimedOut maximum_duration now corr s =
     (let (expired, s') = expireTimedOut_locked maximum_duration now corr s
      in (expired, notifyEnded expired s'))"

end
