(* ===== verification/Membership_Store.thy ===== *)
theory Membership_Store
  imports Control_Plane_Store
begin

text \<open>
  The contract of a mutable authoritative membership repository
  (\<open>IMutableAuthoritativeMembershipRepository\<close> in
  \<open>libs/application/include/hvc/application/control_plane.hpp\<close>), the in-memory implementation of
  it, and the proof that the control-plane store keeps the contract for its clients whether it
  holds the memberships itself or delegates to a persistent repository that keeps it.
\<close>

section \<open>The contract\<close>

locale mutable_memberships =
  fixes cur :: "'m \<Rightarrow> PlayerId \<Rightarrow> AuthoritativeMembershipContext option"
    and upsert :: "'m \<Rightarrow> PlayerId \<Rightarrow> AuthoritativeMembershipContext \<Rightarrow>
           AuthoritativeMembershipWriteError option \<times> 'm"
    and era :: "'m \<Rightarrow> PlayerId \<Rightarrow> bool \<times> 'm"
    and ok :: "'m \<Rightarrow> bool"
  assumes upsert_ok: "ok m \<Longrightarrow> ok (snd (upsert m p c))"
    and erase_ok: "ok m \<Longrightarrow> ok (snd (era m p))"
    and upsert_accepted:
      "ok m \<Longrightarrow> upsert m p c = (None, m') \<Longrightarrow> cur m' = (cur m)(p \<mapsto> c)"
    and upsert_newer:
      "ok m \<Longrightarrow> upsert m p c = (None, m') \<Longrightarrow> cur m p = Some old \<Longrightarrow>
       ms_version (mc_snapshot old) < ms_version (mc_snapshot c)"
    and upsert_accepts:
      "ok m \<Longrightarrow> snapshot_find (mc_snapshot c) p \<noteq> None \<Longrightarrow>
       (\<And>old. cur m p = Some old \<Longrightarrow>
          ms_version (mc_snapshot old) < ms_version (mc_snapshot c)) \<Longrightarrow>
       fst (upsert m p c) = None"
    and upsert_rejected:
      "ok m \<Longrightarrow> upsert m p c = (Some e, m') \<Longrightarrow> cur m' = cur m"
    and erase_current: "ok m \<Longrightarrow> cur (snd (era m p)) = (cur m)(p := None)"
begin

lemma upsert_current:
  assumes "ok m"
  shows "cur (snd (upsert m p c)) =
           (if fst (upsert m p c) = None then (cur m)(p \<mapsto> c) else cur m)"
proof (cases "upsert m p c")
  case (Pair r m')
  then show ?thesis
    using upsert_accepted [OF assms] upsert_rejected [OF assms] by (cases r) auto
qed

lemma upsert_other:
  assumes "ok m" and "q \<noteq> p"
  shows "cur (snd (upsert m p c)) q = cur m q"
  using assms by (simp add: upsert_current)

text \<open>A sequence of writes never takes a player back to an older version.\<close>

fun writes :: "(PlayerId \<times> AuthoritativeMembershipContext) list \<Rightarrow> 'm \<Rightarrow> 'm" where
  "writes [] m = m"
| "writes ((p, c) # ws) m = writes ws (snd (upsert m p c))"

lemma version_never_decreases:
  assumes "ok m" and "cur m q = Some old"
  shows "\<exists>new. cur (writes ws m) q = Some new \<and>
           ms_version (mc_snapshot old) \<le> ms_version (mc_snapshot new)"
  using assms
proof (induction ws arbitrary: m old)
  case (Cons w ws)
  obtain p c where w: "w = (p, c)" by fastforce
  obtain r m' where u: "upsert m p c = (r, m')" by fastforce
  obtain mid where mid: "cur m' q = Some mid"
      "ms_version (mc_snapshot old) \<le> ms_version (mc_snapshot mid)"
  proof (cases "r = None \<and> q = p")
    case True
    then show thesis
      using that upsert_newer [OF Cons.prems(1), of p c m' old] u Cons.prems
        upsert_accepted [OF Cons.prems(1), of p c m'] by auto
  next
    case False
    then have "cur m' q = Some old"
      using u Cons.prems upsert_current [OF Cons.prems(1), of p c] by auto
    then show thesis by (rule that) simp
  qed
  have "ok m'" using upsert_ok [OF Cons.prems(1), of p c] u by simp
  then have "\<exists>new. cur (writes ws m') q = Some new \<and>
      ms_version (mc_snapshot mid) \<le> ms_version (mc_snapshot new)"
    using mid(1) by (rule Cons.IH)
  then obtain new where "cur (writes ws m') q = Some new"
      "ms_version (mc_snapshot mid) \<le> ms_version (mc_snapshot new)" by auto
  with mid(2) show ?case by (auto simp: w u intro: order_trans)
qed auto

end

section \<open>The in-memory map\<close>

definition memory_erase ::
  "(PlayerId, AuthoritativeMembershipContext) std_map \<Rightarrow> PlayerId \<Rightarrow>
   bool \<times> (PlayerId, AuthoritativeMembershipContext) std_map" where
  "memory_erase m player = (std_contains m player, std_erase player m)"

definition memory_repo ::
  "(PlayerId, AuthoritativeMembershipContext) std_map membership_repo" where
  "memory_repo =
     \<lparr>mr_currentFor = map_of, mr_upsertIfNewer = memory_upsertIfNewer, mr_erase = memory_erase\<rparr>"

interpretation memory: mutable_memberships map_of memory_upsertIfNewer memory_erase std_ok
  by unfold_locales
    (auto simp: memory_upsertIfNewer_def memory_erase_def not_le [symmetric]
      split: option.splits if_splits)

section \<open>The store over a repository\<close>

locale membership_repo_laws =
  fixes repo :: "'m membership_repo"
    and ok :: "'m \<Rightarrow> bool"
  assumes laws: "mutable_memberships (mr_currentFor repo) (mr_upsertIfNewer repo) (mr_erase repo) ok"

interpretation memory_laws: membership_repo_laws memory_repo std_ok
  by (rule membership_repo_laws.intro)
    (simp add: memory_repo_def memory.mutable_memberships_axioms)

definition memberships_ok :: "('m \<Rightarrow> bool) \<Rightarrow> 'm Store \<Rightarrow> bool" where
  "memberships_ok ok s =
     (case sto_persistent_memberships s of
        Some r \<Rightarrow> ok r
      | None \<Rightarrow> std_ok (sto_memberships s))"

definition store_write ::
  "'m membership_repo \<Rightarrow> 'm Store \<Rightarrow> PlayerId \<Rightarrow> AuthoritativeMembershipContext \<Rightarrow>
   AuthoritativeMembershipWriteError option \<times> 'm Store" where
  "store_write repo s p c = write_membership repo p c s"

definition store_erase :: "'m membership_repo \<Rightarrow> 'm Store \<Rightarrow> PlayerId \<Rightarrow> bool \<times> 'm Store" where
  "store_erase repo s p =
     (currentMembershipLocked repo s p \<noteq> None, erase_membership repo p s)"

lemmas store_membership_defs = memberships_ok_def store_write_def store_erase_def
  write_membership_def erase_membership_def currentMembershipLocked_def

context membership_repo_laws
begin

sublocale base: mutable_memberships "mr_currentFor repo" "mr_upsertIfNewer repo"
  "mr_erase repo" ok
  by (rule laws)

lemma write_cases:
  assumes "memberships_ok ok m" and "store_write repo m p c = (e, m')"
  obtains (persistent) r r' where "sto_persistent_memberships m = Some r" "ok r"
      "mr_upsertIfNewer repo r p c = (e, r')" "m' = m\<lparr>sto_persistent_memberships := Some r'\<rparr>"
  | (memory) q where "sto_persistent_memberships m = None" "std_ok (sto_memberships m)"
      "memory_upsertIfNewer (sto_memberships m) p c = (e, q)" "m' = m\<lparr>sto_memberships := q\<rparr>"
  using assms
  by (cases "sto_persistent_memberships m")
    (auto simp: store_write_def write_membership_def memberships_ok_def split: prod.splits)

lemma store_write_ok:
  assumes "memberships_ok ok m"
  shows "memberships_ok ok (snd (store_write repo m p c))"
proof (cases "store_write repo m p c")
  case (Pair e m')
  with assms show ?thesis
  proof (cases rule: write_cases)
    case (persistent r r')
    then show ?thesis using base.upsert_ok [of r p c] by (simp add: Pair memberships_ok_def)
  next
    case (memory q)
    then show ?thesis
      using memory.upsert_ok [of "sto_memberships m" p c] by (simp add: Pair memberships_ok_def)
  qed
qed

lemma store_write_current:
  assumes m: "memberships_ok ok m" and w: "store_write repo m p c = (e, m')"
  shows "currentMembershipLocked repo m' =
           (if e = None then (currentMembershipLocked repo m)(p \<mapsto> c)
            else currentMembershipLocked repo m)"
  using m w
proof (cases rule: write_cases)
  case (persistent r r')
  then show ?thesis
    using base.upsert_current [of r p c] by (auto simp: currentMembershipLocked_def fun_eq_iff)
next
  case (memory q)
  then show ?thesis
    using memory.upsert_current [of "sto_memberships m" p c]
    by (auto simp: currentMembershipLocked_def fun_eq_iff)
qed

lemma store_write_newer:
  assumes m: "memberships_ok ok m" and w: "store_write repo m p c = (None, m')"
    and old: "currentMembershipLocked repo m p = Some old"
  shows "ms_version (mc_snapshot old) < ms_version (mc_snapshot c)"
  using m w
proof (cases rule: write_cases)
  case (persistent r r')
  then show ?thesis
    using base.upsert_newer [of r p c r' old] old by (simp add: currentMembershipLocked_def)
next
  case (memory q)
  then show ?thesis
    using memory.upsert_newer [of "sto_memberships m" p c q old] old
    by (simp add: currentMembershipLocked_def)
qed

lemma store_write_accepts:
  assumes m: "memberships_ok ok m" and found: "snapshot_find (mc_snapshot c) p \<noteq> None"
    and newer: "\<And>old. currentMembershipLocked repo m p = Some old \<Longrightarrow>
        ms_version (mc_snapshot old) < ms_version (mc_snapshot c)"
  shows "fst (store_write repo m p c) = None"
proof -
  obtain e m' where w: "store_write repo m p c = (e, m')" by fastforce
  from m w show ?thesis
  proof (cases rule: write_cases)
    case (persistent r r')
    then have "fst (mr_upsertIfNewer repo r p c) = None"
      using newer by (intro base.upsert_accepts found) (auto simp: currentMembershipLocked_def)
    then show ?thesis by (simp add: w persistent)
  next
    case (memory q)
    then have "fst (memory_upsertIfNewer (sto_memberships m) p c) = None"
      using newer by (intro memory.upsert_accepts found) (auto simp: currentMembershipLocked_def)
    then show ?thesis by (simp add: w memory)
  qed
qed

lemma store_erase_current:
  assumes "memberships_ok ok m"
  shows "memberships_ok ok (snd (store_erase repo m p))"
    and "currentMembershipLocked repo (snd (store_erase repo m p)) =
           (currentMembershipLocked repo m)(p := None)"
  using assms base.erase_ok base.erase_current
  by (auto simp: store_membership_defs fun_eq_iff split: option.splits)

lemma store_keeps_contract:
  "mutable_memberships (currentMembershipLocked repo) (store_write repo) (store_erase repo)
     (memberships_ok ok)"
  by unfold_locales
    (simp_all add: store_write_ok store_write_current store_write_newer store_write_accepts
      store_erase_current)

sublocale store: mutable_memberships "currentMembershipLocked repo" "store_write repo"
  "store_erase repo" "memberships_ok ok"
  by (rule store_keeps_contract)

end

end
