(* ===== verification/Store_Effects.thy ===== *)
theory Store_Effects
  imports Membership_Store
begin

text \<open>
  What each operation of the in-memory control-plane store does to the active transmissions, the
  memberships and the calls it makes, on every branch: the loops that stop transmissions are one
  filter, and the activation is the list of its guards.
\<close>

section \<open>Stopping transmissions\<close>

definition stopped_by ::
  "(ActiveTransmission \<Rightarrow> bool) \<Rightarrow> TransmissionStopReason \<Rightarrow> time_point \<Rightarrow> CorrelationId \<Rightarrow>
   'm Store \<Rightarrow> EndedTransmission list" where
  "stopped_by P reason now corr s =
     map (end_record reason now corr) (filter P (map snd (sto_active s)))"

definition stop_matching ::
  "(ActiveTransmission \<Rightarrow> bool) \<Rightarrow> TransmissionStopReason \<Rightarrow> time_point \<Rightarrow> CorrelationId \<Rightarrow>
   'm Store \<Rightarrow> 'm Store" where
  "stop_matching P reason now corr s =
     notifyEnded (stopped_by P reason now corr s)
       (s\<lparr>sto_active := filter (\<lambda>e. \<not> P (snd e)) (sto_active s)\<rparr>)"

lemma notifyEnded_eq:
  "notifyEnded es s =
     (if sto_observer s = None then s
      else s\<lparr>sto_calls := sto_calls s @ map Call_onEnded es\<rparr>)"
  by (induction es s rule: notifyEnded.induct) (auto simp: notifyEnded1_def)

lemma end_record_simps [simp]:
  "et_transmission (end_record r n c t) = t"
  "et_stop_reason (end_record r n c t) = r"
  "et_ended_at (end_record r n c t) = n"
  "et_correlation_id (end_record r n c t) = c"
  by (simp_all add: end_record_def)

lemma recordForcedInterruptions_fields [simp]:
  "sto_active (recordForcedInterruptions es oper s) = sto_active s"
  "sto_sessions (recordForcedInterruptions es oper s) = sto_sessions s"
  "sto_memberships (recordForcedInterruptions es oper s) = sto_memberships s"
  "sto_persistent_memberships (recordForcedInterruptions es oper s) = sto_persistent_memberships s"
  "sto_persistent_sessions (recordForcedInterruptions es oper s) = sto_persistent_sessions s"
  "sto_calls (recordForcedInterruptions es oper s) = sto_calls s"
  "sto_observer (recordForcedInterruptions es oper s) = sto_observer s"
  by (simp_all add: recordForcedInterruptions_def)

lemma recordForcedInterruptions_audit:
  "sto_audit (recordForcedInterruptions es oper s) =
     sto_audit s @ (if sto_audit_enabled s then map (forced_event oper) es else [])"
  by (simp add: recordForcedInterruptions_def)

lemma stop_matching_fields [simp]:
  "sto_active (stop_matching P r n c s) = filter (\<lambda>e. \<not> P (snd e)) (sto_active s)"
  "sto_sessions (stop_matching P r n c s) = sto_sessions s"
  "sto_memberships (stop_matching P r n c s) = sto_memberships s"
  "sto_persistent_memberships (stop_matching P r n c s) = sto_persistent_memberships s"
  "sto_persistent_sessions (stop_matching P r n c s) = sto_persistent_sessions s"
  "sto_audit (stop_matching P r n c s) = sto_audit s"
  "sto_audit_enabled (stop_matching P r n c s) = sto_audit_enabled s"
  "sto_observer (stop_matching P r n c s) = sto_observer s"
  by (simp_all add: stop_matching_def notifyEnded_eq)

lemma stop_matching_calls:
  "sto_calls (stop_matching P r n c s) =
     sto_calls s @ (if sto_observer s = None then [] else map Call_onEnded (stopped_by P r n c s))"
  by (simp add: stop_matching_def notifyEnded_eq)

text \<open>The repository reads do not depend on the active transmissions, the audit or the calls.\<close>

lemma currentMembershipLocked_frame [simp]:
  "currentMembershipLocked repo (s\<lparr>sto_active := a\<rparr>) = currentMembershipLocked repo s"
  "currentMembershipLocked repo (s\<lparr>sto_calls := l\<rparr>) = currentMembershipLocked repo s"
  "currentMembershipLocked repo (s\<lparr>sto_sessions := x\<rparr>) = currentMembershipLocked repo s"
  "currentMembershipLocked repo (s\<lparr>sto_persistent_sessions := f\<rparr>) = currentMembershipLocked repo s"
  "currentMembershipLocked repo (recordForcedInterruptions es oper s) =
     currentMembershipLocked repo s"
  "currentMembershipLocked repo (stop_matching P r n c s) = currentMembershipLocked repo s"
  by (simp_all add: currentMembershipLocked_def fun_eq_iff split: option.splits)

lemma memberships_ok_frame [simp]:
  "memberships_ok ok (s\<lparr>sto_active := a\<rparr>) = memberships_ok ok s"
  "memberships_ok ok (s\<lparr>sto_calls := l\<rparr>) = memberships_ok ok s"
  "memberships_ok ok (s\<lparr>sto_sessions := x\<rparr>) = memberships_ok ok s"
  "memberships_ok ok (s\<lparr>sto_persistent_sessions := f\<rparr>) = memberships_ok ok s"
  "memberships_ok ok (recordForcedInterruptions es oper s) = memberships_ok ok s"
  "memberships_ok ok (stop_matching P r n c s) = memberships_ok ok s"
  by (simp_all add: memberships_ok_def split: option.splits)

section \<open>What the operations do\<close>

lemma interruptForPlayerLocked_eq:
  "interruptForPlayerLocked p reason now corr s =
     (stopped_by (\<lambda>t. at_sender t = p) reason now corr s,
      s\<lparr>sto_active := filter (\<lambda>e. at_sender (snd e) \<noteq> p) (sto_active s)\<rparr>)"
  by (simp add: interruptForPlayerLocked_def stopped_by_def sweep_eq)

lemma interruptForSessionLocked_eq:
  "interruptForSessionLocked sid reason now corr s =
     (stopped_by (\<lambda>t. at_session_id t = sid) reason now corr s,
      s\<lparr>sto_active := filter (\<lambda>e. at_session_id (snd e) \<noteq> sid) (sto_active s)\<rparr>)"
  by (simp add: interruptForSessionLocked_def stopped_by_def sweep_eq)

lemma removeSession_eq:
  "removeSession sid now corr s =
     (case currentSessionLocked s sid of
        None \<Rightarrow> ([], s)
      | Some _ \<Rightarrow>
          (let es = stopped_by (\<lambda>t. at_session_id t = sid) Stop_disconnected now corr s
           in (es, recordForcedInterruptions es Op_session_lifecycle
                (stop_matching (\<lambda>t. at_session_id t = sid) Stop_disconnected now corr
                  (s\<lparr>sto_sessions := std_erase sid (sto_sessions s)\<rparr>)))))"
  by (simp add: removeSession_def removeSession_locked_def interruptForSessionLocked_eq Let_def
      stop_matching_def recordForcedInterruptions_def stopped_by_def split: option.splits)

definition change_reason :: "AuthoritativeContextChange \<Rightarrow> TransmissionStopReason" where
  "change_reason change =
     (if change = Change_permissions_changed then Stop_permission_revoked
      else Stop_membership_changed)"

lemma write_membership_frame:
  assumes "write_membership repo p ctx s = (e, s')"
  shows "sto_active s' = sto_active s" "sto_calls s' = sto_calls s"
    "sto_observer s' = sto_observer s" "sto_audit s' = sto_audit s"
    "sto_audit_enabled s' = sto_audit_enabled s" "sto_sessions s' = sto_sessions s"
  using assms by (auto simp: write_membership_def split: option.splits prod.splits)

lemma erase_membership_frame [simp]:
  "sto_active (erase_membership repo p s) = sto_active s"
  "sto_calls (erase_membership repo p s) = sto_calls s"
  "sto_observer (erase_membership repo p s) = sto_observer s"
  by (auto simp: erase_membership_def split: option.splits)

lemma updateMembership_eq:
  "updateMembership repo p ctx now corr change s =
     (if snapshot_find (mc_snapshot ctx) p = None then (Inl Write_player_not_in_snapshot, s)
      else case write_membership repo p ctx s of
        (Some e, s') \<Rightarrow> (Inl e, s')
      | (None, s') \<Rightarrow>
          (let es = stopped_by (\<lambda>t. at_sender t = p) (change_reason change) now corr s'
           in (Inr es, recordForcedInterruptions es Op_membership_change
                 (stop_matching (\<lambda>t. at_sender t = p) (change_reason change) now corr s'))))"
  by (simp add: updateMembership_def updateMembership_locked_def interruptForPlayerLocked_eq
      change_reason_def stop_matching_def Let_def split: option.splits prod.splits)

lemma removeMembership_eq:
  "removeMembership repo p now corr s =
     (let s' = erase_membership repo p s;
          es = stopped_by (\<lambda>t. at_sender t = p) Stop_membership_changed now corr s'
      in (es, recordForcedInterruptions es Op_membership_change
                (stop_matching (\<lambda>t. at_sender t = p) Stop_membership_changed now corr s')))"
  by (simp add: removeMembership_def removeMembership_locked_def interruptForPlayerLocked_eq
      stop_matching_def Let_def)

definition timed_out :: "milliseconds \<Rightarrow> time_point \<Rightarrow> ActiveTransmission \<Rightarrow> bool" where
  "timed_out maximum now t \<longleftrightarrow> ticks maximum \<le> now - at_started_at t"

lemma expireTimedOut_eq:
  "expireTimedOut maximum now corr s =
     (stopped_by (timed_out maximum now) Stop_timed_out now corr s,
      stop_matching (timed_out maximum now) Stop_timed_out now corr s)"
  by (simp add: expireTimedOut_def expireTimedOut_locked_def sweep_eq
      timed_out_def [abs_def] stop_matching_def stopped_by_def not_less)


lemma end_transmission_cases:
  "end_transmission tid sid dev reason now corr s =
     (case map_of (sto_active s) tid of
        None \<Rightarrow> (Inl Repo_transmission_not_found, s)
      | Some t \<Rightarrow>
          if at_session_id t = sid \<and> at_device_id t = dev
          then interrupt_transmission tid reason now corr s
          else (Inl Repo_transmission_not_owned, s))"
  by (simp add: end_transmission_def interrupt_transmission_def split: option.splits)

section \<open>Activation\<close>

definition new_transmission ::
  "AuthoritativeMembershipContext \<Rightarrow> VoiceMembership \<Rightarrow> AuthorizedTransmission \<Rightarrow> SessionId \<Rightarrow>
   DeviceId \<Rightarrow> time_point \<Rightarrow> ActiveTransmission" where
  "new_transmission ctx sender au sid dev now =
     \<lparr>at_authorization = au, at_session_id = sid, at_device_id = dev, at_started_at = now,
      at_scope_node_id = scopeNodeId sender (au_scope au),
      at_scope_can_subscribe =
        (vm_can_receive_voice sender \<and>
         canReceive (mc_role_policy ctx) (vm_role_ids sender) (au_scope au))\<rparr>"

lemma new_transmission_simps [simp]:
  "at_authorization (new_transmission ctx sender au sid dev now) = au"
  "at_session_id (new_transmission ctx sender au sid dev now) = sid"
  "at_device_id (new_transmission ctx sender au sid dev now) = dev"
  "at_started_at (new_transmission ctx sender au sid dev now) = now"
  "at_scope_node_id (new_transmission ctx sender au sid dev now) = scopeNodeId sender (au_scope au)"
  by (simp_all add: new_transmission_def)

text \<open>The promise of \<open>activate\<close>: what must hold of the store for a transmission to be admitted.\<close>

definition may_activate ::
  "'m membership_repo \<Rightarrow> AuthorizedTransmission \<Rightarrow> SessionId \<Rightarrow> DeviceId \<Rightarrow> time_point \<Rightarrow>
   'm Store \<Rightarrow> AuthoritativeMembershipContext \<Rightarrow> VoiceMembership \<Rightarrow> ScopeDefinition \<Rightarrow> bool" where
  "may_activate repo au sid dev now s ctx sender sd \<longleftrightarrow>
     (\<exists>session. currentSessionLocked s sid = Some session \<and>
        as_player_id session = au_sender_player_id au \<and>
        as_device_id session = dev \<and> activeAt session now) \<and>
     currentMembershipLocked repo s (au_sender_player_id au) = Some ctx \<and>
     ms_version (mc_snapshot ctx) = au_membership_version au \<and>
     snapshot_find (mc_snapshot ctx) (au_sender_player_id au) = Some sender \<and>
     findScope (ms_hierarchy (mc_snapshot ctx)) (au_scope au) = Some sd \<and>
     (\<forall>limit. sd_max_concurrent_speakers sd = Some limit \<longrightarrow>
        length (filter (is_matching_speaker repo s sender (au_scope au)) (map snd (sto_active s)))
          < limit) \<and>
     (\<forall>e \<in> set (sto_active s). at_sender (snd e) \<noteq> au_sender_player_id au) \<and>
     au_transmission_id au \<notin> fst ` set (sto_active s)"

definition admit :: "ActiveTransmission \<Rightarrow> 'm Store \<Rightarrow> 'm Store" where
  "admit t s =
     s\<lparr>sto_active := std_put (at_id t) t (sto_active s),
       sto_calls := sto_calls s @
         (if sto_observer s = None then [] else [Call_onStarted t True])\<rparr>"

lemma matchingSpeakers_eq:
  "matchingSpeakers repo s sender sc m n =
     n + length (filter (is_matching_speaker repo s sender sc) (map snd m))"
  by (induction repo s sender sc m n rule: matchingSpeakers.induct) auto

text \<open>The guards of \<open>activate\<close> before it changes anything, in the order of the code.\<close>

definition activation_guards ::
  "'m membership_repo \<Rightarrow> AuthorizedTransmission \<Rightarrow> SessionId \<Rightarrow> DeviceId \<Rightarrow> time_point \<Rightarrow>
   'm Store \<Rightarrow> (bool \<times> TransmissionActivationError) list" where
  "activation_guards repo au sid dev now s =
     (let ctx = currentMembershipLocked repo s (au_sender_player_id au);
          snap = mc_snapshot (the ctx);
          sender = snapshot_find snap (au_sender_player_id au);
          sd = findScope (ms_hierarchy snap) (au_scope au)
      in [(\<exists>session. currentSessionLocked s sid = Some session \<and>
             as_player_id session = au_sender_player_id au \<and>
             as_device_id session = dev \<and> activeAt session now, Act_session_changed),
          (ctx \<noteq> None \<and> ms_version snap = au_membership_version au, Act_membership_changed),
          (sender \<noteq> None \<and> sd \<noteq> None, Act_membership_changed),
          (\<forall>limit. sd_max_concurrent_speakers (the sd) = Some limit \<longrightarrow>
             length (filter (is_matching_speaker repo s (the sender) (au_scope au))
                       (map snd (sto_active s))) < limit, Act_speaker_limit_reached),
          (\<forall>e \<in> set (sto_active s). at_sender (snd e) \<noteq> au_sender_player_id au,
             Act_sender_already_transmitting),
          (au_transmission_id au \<notin> fst ` set (sto_active s), Act_transmission_id_conflict)])"

lemma guards_hold_iff:
  "(\<forall>g \<in> set (activation_guards repo au sid dev now s). fst g) \<longleftrightarrow>
     (\<exists>ctx sender sd. may_activate repo au sid dev now s ctx sender sd)"
  by (auto simp: activation_guards_def may_activate_def Let_def)

lemma activate_guards:
  "activate repo au sid dev now s =
     (case List.find (\<lambda>g. \<not> fst g) (activation_guards repo au sid dev now s) of
        Some g \<Rightarrow> (Inl (snd g), s)
      | None \<Rightarrow>
          (let ctx = the (currentMembershipLocked repo s (au_sender_player_id au));
               sender = the (snapshot_find (mc_snapshot ctx) (au_sender_player_id au));
               t = new_transmission ctx sender au sid dev now
           in case sto_observer s of
                Some answer \<Rightarrow>
                  if answer (sto_calls s) t then (Inr t, admit t s)
                  else (Inl Act_voice_control_failed,
                        s\<lparr>sto_calls := sto_calls s @ [Call_onStarted t False]\<rparr>)
              | None \<Rightarrow> (Inr t, admit t s)))"
proof -
  let ?session = "\<exists>session. currentSessionLocked s sid = Some session \<and>
             as_player_id session = au_sender_player_id au \<and>
             as_device_id session = dev \<and> activeAt session now"
  have session: "(case currentSessionLocked s sid of
            None \<Rightarrow> True
          | Some session \<Rightarrow>
              as_player_id session \<noteq> au_sender_player_id au \<or>
              as_device_id session \<noteq> dev \<or> \<not> activeAt session now) \<longleftrightarrow> \<not> ?session"
    by (auto split: option.splits)
  show ?thesis
  proof (cases "?session \<and> currentMembershipLocked repo s (au_sender_player_id au) \<noteq> None")
    case False
    then show ?thesis
      unfolding activate_def session by (auto simp: activation_guards_def Let_def)
  next
    case True
    then obtain ctx where ctx: "currentMembershipLocked repo s (au_sender_player_id au) = Some ctx"
      by auto
    show ?thesis
      unfolding activate_def session
      using True
      by (auto simp: ctx activation_guards_def Let_def matchingSpeakers_eq list_ex_iff admit_def
          new_transmission_def std_emplace_def std_put_erase_fresh split: option.splits)
  qed
qed

lemma activate_result:
  "(\<exists>e. activate repo au sid dev now s = (Inl e, s)) \<or>
   (\<exists>ctx sender sd. may_activate repo au sid dev now s ctx sender sd \<and>
      (let t = new_transmission ctx sender au sid dev now
       in (\<forall>answer. sto_observer s = Some answer \<longrightarrow> answer (sto_calls s) t) \<and>
          activate repo au sid dev now s = (Inr t, admit t s) \<or>
          (\<exists>answer. sto_observer s = Some answer \<and> \<not> answer (sto_calls s) t) \<and>
          activate repo au sid dev now s =
            (Inl Act_voice_control_failed,
             s\<lparr>sto_calls := sto_calls s @ [Call_onStarted t False]\<rparr>)))"
proof (cases "List.find (\<lambda>g. \<not> fst g) (activation_guards repo au sid dev now s)")
  case None
  then have "\<forall>g \<in> set (activation_guards repo au sid dev now s). fst g"
    by (simp add: find_None_iff_none)
  then obtain ctx sender sd where m: "may_activate repo au sid dev now s ctx sender sd"
    using guards_hold_iff by blast
  then have "currentMembershipLocked repo s (au_sender_player_id au) = Some ctx"
      "snapshot_find (mc_snapshot ctx) (au_sender_player_id au) = Some sender"
    by (simp_all add: may_activate_def)
  with None have "let t = new_transmission ctx sender au sid dev now
       in (\<forall>answer. sto_observer s = Some answer \<longrightarrow> answer (sto_calls s) t) \<and>
          activate repo au sid dev now s = (Inr t, admit t s) \<or>
          (\<exists>answer. sto_observer s = Some answer \<and> \<not> answer (sto_calls s) t) \<and>
          activate repo au sid dev now s =
            (Inl Act_voice_control_failed,
             s\<lparr>sto_calls := sto_calls s @ [Call_onStarted t False]\<rparr>)"
    by (auto simp: activate_guards Let_def split: option.splits)
  with m show ?thesis by blast
qed (simp add: activate_guards)

end
