(* ===== verification/Store_Invariants.thy ===== *)
theory Store_Invariants
  imports Store_Effects
begin

text \<open>
  The invariant that every operation of the in-memory control-plane store keeps, and the
  properties of runs of the store, where a run is any sequence of its operations, each with its
  notifications.
\<close>

section \<open>The invariant\<close>

definition transmission_current :: "'m membership_repo \<Rightarrow> 'm Store \<Rightarrow> ActiveTransmission \<Rightarrow> bool" where
  "transmission_current repo s t \<longleftrightarrow>
     (\<exists>ctx m. currentMembershipLocked repo s (at_sender t) = Some ctx \<and>
        ms_version (mc_snapshot ctx) = at_version t \<and>
        snapshot_find (mc_snapshot ctx) (at_sender t) = Some m \<and>
        at_scope_node_id t = scopeNodeId m (at_scope t) \<and>
        (at_scope_can_subscribe t \<longleftrightarrow>
           vm_can_receive_voice m \<and>
           canReceive (mc_role_policy ctx) (vm_role_ids m) (at_scope t)))"

definition observe1 :: "LifecycleCall \<Rightarrow> ActiveTransmission set \<Rightarrow> ActiveTransmission set" where
  "observe1 call V =
     (case call of
        Call_onStarted t ok \<Rightarrow> if ok then insert t V else V
      | Call_onEnded e \<Rightarrow> V - {et_transmission e})"

definition observer_view :: "LifecycleCall list \<Rightarrow> ActiveTransmission set" where
  "observer_view calls = fold observe1 calls {}"

definition store_inv :: "'m membership_repo \<Rightarrow> ('m \<Rightarrow> bool) \<Rightarrow> 'm Store \<Rightarrow> bool" where
  "store_inv repo ok s \<longleftrightarrow>
     memberships_ok ok s \<and>
     std_ok (sto_active s) \<and>
     (\<forall>e \<in> set (sto_active s). at_id (snd e) = fst e \<and> transmission_current repo s (snd e)) \<and>
     (\<forall>e \<in> set (sto_active s). \<forall>e' \<in> set (sto_active s).
        at_sender (snd e) = at_sender (snd e') \<longrightarrow> e = e') \<and>
     (sto_observer s \<noteq> None \<longrightarrow> observer_view (sto_calls s) = snd ` set (sto_active s))"

lemma inv_memberships_ok: "store_inv repo ok s \<Longrightarrow> memberships_ok ok s"
  by (simp add: store_inv_def)

lemma observer_view_simps [simp]:
  "observer_view [] = {}"
  "observer_view (calls @ [Call_onStarted t ok]) =
     (if ok then insert t (observer_view calls) else observer_view calls)"
  by (simp_all add: observer_view_def observe1_def)

lemma observer_view_ended:
  "observer_view (calls @ map Call_onEnded es) = observer_view calls - et_transmission ` set es"
proof (induction es arbitrary: calls)
  case (Cons e es)
  have "observer_view (calls @ map Call_onEnded (e # es)) =
      observer_view ((calls @ [Call_onEnded e]) @ map Call_onEnded es)" by simp
  also have "\<dots> = observer_view (calls @ [Call_onEnded e]) - et_transmission ` set es"
    by (rule Cons.IH)
  also have "observer_view (calls @ [Call_onEnded e]) = observer_view calls - {et_transmission e}"
    by (simp add: observer_view_def observe1_def)
  finally show ?case by auto
qed simp

lemma transmission_current_cong:
  assumes "currentMembershipLocked repo s' (at_sender t) = currentMembershipLocked repo s (at_sender t)"
  shows "transmission_current repo s' t = transmission_current repo s t"
  by (simp add: transmission_current_def assms)

lemma set_stopped_by:
  "et_transmission ` set (stopped_by P r n c s) = {t \<in> snd ` set (sto_active s). P t}"
  by (auto simp: stopped_by_def image_image image_iff)

text \<open>
  Stopping the transmissions of a predicate keeps the invariant when the memberships of the
  remaining senders have not changed.
\<close>

lemma inv_stop:
  assumes inv: "store_inv repo ok s"
    and ok: "memberships_ok ok s'"
    and act: "sto_active s' = sto_active s" and calls: "sto_calls s' = sto_calls s"
    and obs: "sto_observer s' = sto_observer s"
    and rest: "\<And>e. e \<in> set (sto_active s) \<Longrightarrow> \<not> P (snd e) \<Longrightarrow>
        currentMembershipLocked repo s' (at_sender (snd e)) =
        currentMembershipLocked repo s (at_sender (snd e))"
  shows "store_inv repo ok (stop_matching P r n c s')"
proof -
  have cur: "transmission_current repo (stop_matching P r n c s') (snd e)"
    if "e \<in> set (sto_active s)" "\<not> P (snd e)" for e
    using inv that transmission_current_cong [of repo "stop_matching P r n c s'" "snd e" s] rest
    by (simp add: store_inv_def)
  have view: "observer_view (sto_calls (stop_matching P r n c s')) =
      snd ` set (sto_active (stop_matching P r n c s'))" if "sto_observer s \<noteq> None"
  proof -
    have "observer_view (sto_calls s) = snd ` set (sto_active s)"
      using inv that by (simp add: store_inv_def)
    then have "observer_view (sto_calls (stop_matching P r n c s')) =
        snd ` set (sto_active s) - {t \<in> snd ` set (sto_active s). P t}"
      using that by (auto simp: stop_matching_calls calls obs observer_view_ended set_stopped_by act)
    then show ?thesis by (auto simp: act image_iff)
  qed
  show ?thesis
    using inv ok cur view by (auto simp: store_inv_def act obs)
qed

lemma inv_quiet:
  assumes "store_inv repo ok s"
    and "sto_active s' = sto_active s" "sto_observer s' = sto_observer s"
    and "observer_view (sto_calls s') = observer_view (sto_calls s)"
    and "currentMembershipLocked repo s' = currentMembershipLocked repo s"
    and "memberships_ok ok s'"
  shows "store_inv repo ok s'"
  using assms transmission_current_cong [of repo s' _ s] by (simp add: store_inv_def)

lemma inv_record [simp]:
  "store_inv repo ok (recordForcedInterruptions es oper s) = store_inv repo ok s"
  by (simp add: store_inv_def transmission_current_def)

lemma inv_admit:
  assumes inv: "store_inv repo ok s"
    and may: "may_activate repo au sid dev now s ctx sender sd"
  shows "store_inv repo ok (admit (new_transmission ctx sender au sid dev now) s)"
proof -
  let ?t = "new_transmission ctx sender au sid dev now"
  let ?s = "admit ?t s"
  have fresh: "au_transmission_id au \<notin> fst ` set (sto_active s)"
    and single: "\<forall>e \<in> set (sto_active s). at_sender (snd e) \<noteq> au_sender_player_id au"
    and std: "std_ok (sto_active s)"
    using may inv by (simp_all add: may_activate_def store_inv_def)
  have set: "set (sto_active ?s) = insert (au_transmission_id au, ?t) (set (sto_active s))"
    using std fresh by (force simp: admit_def set_std_put)
  have cur: "currentMembershipLocked repo ?s = currentMembershipLocked repo s"
    by (auto simp: admit_def currentMembershipLocked_def fun_eq_iff split: option.splits)
  have "transmission_current repo ?s ?t"
    using may unfolding transmission_current_def cur
    by (auto simp: may_activate_def new_transmission_def)
  moreover have "transmission_current repo ?s t = transmission_current repo s t" for t
    by (simp add: transmission_current_def cur)
  moreover have "memberships_ok ok ?s"
    using inv by (auto simp: store_inv_def admit_def memberships_ok_def split: option.splits)
  moreover have "std_ok (sto_active ?s)"
    using std by (simp add: admit_def)
  moreover have "sto_observer s \<noteq> None \<longrightarrow> observer_view (sto_calls ?s) = snd ` set (sto_active ?s)"
    using inv unfolding set by (auto simp: store_inv_def admit_def)
  moreover have "sto_observer ?s = sto_observer s" by (simp add: admit_def)
  ultimately show ?thesis
    using inv single fresh unfolding store_inv_def set by (auto; force)
qed

section \<open>Runs\<close>

text \<open>
  The calls a client can make. The external session repository is changed by its own service, so
  its next state is an operation of the environment.
\<close>

datatype StoreOp =
    Do_upsertSession AuthenticatedSession
  | Do_removeSession SessionId time_point CorrelationId
  | Do_updateMembership PlayerId AuthoritativeMembershipContext time_point CorrelationId
      AuthoritativeContextChange
  | Do_removeMembership PlayerId time_point CorrelationId
  | Do_activate AuthorizedTransmission SessionId DeviceId time_point
  | Do_end TransmissionId SessionId DeviceId TransmissionStopReason time_point CorrelationId
  | Do_interrupt TransmissionId TransmissionStopReason time_point CorrelationId
  | Do_expire milliseconds time_point CorrelationId
  | External_sessions "SessionId \<Rightarrow> AuthenticatedSession option"

fun store_step :: "'m membership_repo \<Rightarrow> StoreOp \<Rightarrow> 'm Store \<Rightarrow> 'm Store" where
  "store_step repo (Do_upsertSession x) s = upsertSession x s"
| "store_step repo (Do_removeSession sid now corr) s = snd (removeSession sid now corr s)"
| "store_step repo (Do_updateMembership p ctx now corr change) s =
     snd (updateMembership repo p ctx now corr change s)"
| "store_step repo (Do_removeMembership p now corr) s = snd (removeMembership repo p now corr s)"
| "store_step repo (Do_activate au sid dev now) s = snd (activate repo au sid dev now s)"
| "store_step repo (Do_end tid sid dev reason now corr) s =
     snd (end_transmission tid sid dev reason now corr s)"
| "store_step repo (Do_interrupt tid reason now corr) s =
     snd (interrupt_transmission tid reason now corr s)"
| "store_step repo (Do_expire maximum now corr) s = snd (expireTimedOut maximum now corr s)"
| "store_step repo (External_sessions f) s =
     (case sto_persistent_sessions s of
        None \<Rightarrow> s
      | Some _ \<Rightarrow> s\<lparr>sto_persistent_sessions := Some f\<rparr>)"

inductive store_reachable :: "'m membership_repo \<Rightarrow> 'm Store \<Rightarrow> 'm Store \<Rightarrow> bool"
  for repo :: "'m membership_repo" and start :: "'m Store" where
  reach_start: "store_reachable repo start start"
| reach_step: "store_reachable repo start s \<Longrightarrow> store_reachable repo start (store_step repo oper s)"

lemma filter_singleton:
  assumes "distinct xs" and "x \<in> set xs" and "\<And>y. y \<in> set xs \<Longrightarrow> P y \<longleftrightarrow> y = x"
  shows "filter P xs = [x]"
  using assms
proof (induction xs)
  case (Cons a xs)
  show ?case
  proof (cases "a = x")
    case True
    have "filter P xs = []"
      using Cons.prems True by (auto simp: filter_empty_conv)
    then show ?thesis using Cons.prems(3) [of a] True by simp
  next
    case False
    then show ?thesis using Cons by simp
  qed
qed simp

lemma interrupt_stop:
  assumes "store_inv repo ok s" and Some: "map_of (sto_active s) tid = Some t"
  shows "interrupt_transmission tid reason now corr s =
           (Inr (end_record reason now corr t),
            stop_matching (\<lambda>t. at_id t = tid) reason now corr s)"
proof -
  have std: "std_ok (sto_active s)" and ids: "\<forall>e \<in> set (sto_active s). at_id (snd e) = fst e"
    using assms by (simp_all add: store_inv_def)
  have mem: "(tid, t) \<in> set (sto_active s)" using Some by (rule map_of_SomeD)
  have eq: "at_id (snd e) = tid \<longleftrightarrow> e = (tid, t)" if "e \<in> set (sto_active s)" for e
  proof -
    have "at_id (snd e) = fst e" using that ids by blast
    moreover have "map_of (sto_active s) (fst e) = Some (snd e)"
      using that std by (simp add: std_ok_map_of_iff)
    ultimately show ?thesis using Some by (cases e) auto
  qed
  have left: "std_erase tid (sto_active s) = filter (\<lambda>e. at_id (snd e) \<noteq> tid) (sto_active s)"
    unfolding std_erase_def using ids by (intro filter_cong) auto
  have "distinct (sto_active s)"
    using std_ok_distinct [OF std] by (simp add: distinct_map)
  then have "filter (\<lambda>e. at_id (snd e) = tid) (sto_active s) = [(tid, t)]"
    using mem eq by (rule filter_singleton)
  then have "stopped_by (\<lambda>t. at_id t = tid) reason now corr s = [end_record reason now corr t]"
    by (simp add: stopped_by_def filter_map o_def)
  then show ?thesis
    by (simp add: interrupt_transmission_def Some Let_def stop_matching_def left)
qed

lemma inv_interrupt:
  assumes "store_inv repo ok s"
  shows "store_inv repo ok (snd (interrupt_transmission tid reason now corr s))"
proof (cases "map_of (sto_active s) tid")
  case (Some t)
  have "store_inv repo ok (stop_matching (\<lambda>t. at_id t = tid) reason now corr s)"
    using assms inv_stop inv_memberships_ok by blast
  then show ?thesis by (simp add: interrupt_stop [OF assms Some])
qed (simp add: interrupt_transmission_def assms)

context membership_repo_laws
begin

lemma inv_update:
  assumes inv: "store_inv repo ok s"
  shows "store_inv repo ok (snd (updateMembership repo p ctx now corr change s))"
proof (cases "write_membership repo p ctx s")
  case (Pair r s')
  have mem: "memberships_ok ok s" using inv by (simp add: store_inv_def)
  have ok: "memberships_ok ok s'"
    using store.upsert_ok [OF mem, of p ctx] Pair by (simp add: store_write_def)
  have cur: "currentMembershipLocked repo s' =
      (if r = None then (currentMembershipLocked repo s)(p \<mapsto> ctx)
       else currentMembershipLocked repo s)"
    using store.upsert_current [OF mem, of p ctx] Pair by (simp add: store_write_def)
  note frame = write_membership_frame [OF Pair]
  show ?thesis
  proof (cases r)
    case None
    have "store_inv repo ok (stop_matching (\<lambda>t. at_sender t = p) (change_reason change) now corr s')"
      using inv ok frame(1-3) by (rule inv_stop) (simp add: cur None)
    then show ?thesis by (simp add: updateMembership_eq Pair None Let_def inv)
  next
    case (Some e)
    have "store_inv repo ok s'"
      using inv frame(1,3) _ _ ok by (rule inv_quiet) (simp_all add: frame cur Some)
    then show ?thesis by (simp add: updateMembership_eq Pair Some inv)
  qed
qed

lemma inv_remove_membership:
  assumes inv: "store_inv repo ok s"
  shows "store_inv repo ok (snd (removeMembership repo p now corr s))"
proof -
  let ?s = "erase_membership repo p s"
  have mem: "memberships_ok ok s" using inv by (simp add: store_inv_def)
  have "store_inv repo ok (stop_matching (\<lambda>t. at_sender t = p) Stop_membership_changed now corr ?s)"
  proof (rule inv_stop [OF inv])
    show "memberships_ok ok ?s"
      using store.erase_ok [OF mem, of p] by (simp add: store_erase_def)
    show "currentMembershipLocked repo ?s (at_sender (snd e)) =
        currentMembershipLocked repo s (at_sender (snd e))" if "at_sender (snd e) \<noteq> p" for e
      using store.erase_current [OF mem, of p] that by (simp add: store_erase_def)
  qed simp_all
  then show ?thesis by (simp add: removeMembership_eq Let_def)
qed

lemma inv_step:
  assumes inv: "store_inv repo ok s"
  shows "store_inv repo ok (store_step repo oper s)"
proof (cases oper)
  case (Do_upsertSession x)
  then show ?thesis
    by (auto simp: upsertSession_def inv_memberships_ok [OF inv] intro!: inv_quiet [OF inv])
next
  case (Do_removeSession sid now corr)
  have "store_inv repo ok (stop_matching (\<lambda>t. at_session_id t = sid) Stop_disconnected now corr
      (s\<lparr>sto_sessions := std_erase sid (sto_sessions s)\<rparr>))"
    by (rule inv_stop [OF inv]) (simp_all add: inv_memberships_ok [OF inv])
  then show ?thesis using Do_removeSession inv
    by (simp add: removeSession_eq Let_def split: option.splits)
next
  case (Do_updateMembership p ctx now corr change)
  then show ?thesis using inv_update [OF inv] by simp
next
  case (Do_removeMembership p now corr)
  then show ?thesis using inv_remove_membership [OF inv] by simp
next
  case (Do_activate au sid dev now)
  have refused: "store_inv repo ok (s\<lparr>sto_calls := sto_calls s @ [Call_onStarted t False]\<rparr>)" for t
    by (rule inv_quiet [OF inv]) (simp_all add: inv_memberships_ok [OF inv])
  show ?thesis
    using activate_result [of repo au sid dev now s] inv_admit [OF inv] refused inv
    by (auto simp: Do_activate Let_def)
next
  case (Do_end tid sid dev reason now corr)
  then show ?thesis
    using inv inv_interrupt [OF inv] by (auto simp: end_transmission_cases split: option.splits)
next
  case (Do_interrupt tid reason now corr)
  then show ?thesis using inv_interrupt [OF inv] by simp
next
  case (Do_expire maximum now corr)
  have "store_inv repo ok (stop_matching (timed_out maximum now) Stop_timed_out now corr s)"
    using inv inv_stop inv_memberships_ok by blast
  then show ?thesis using Do_expire by (simp add: expireTimedOut_eq)
next
  case (External_sessions f)
  have "store_inv repo ok (s\<lparr>sto_persistent_sessions := Some f\<rparr>)"
    by (rule inv_quiet [OF inv]) (simp_all add: inv_memberships_ok [OF inv])
  then show ?thesis using External_sessions inv by (simp split: option.splits)
qed

lemma inv_reachable:
  assumes "store_reachable repo (Store_ctor audit obs sess mem) s"
    and "case mem of Some r \<Rightarrow> ok r | None \<Rightarrow> True"
  shows "store_inv repo ok s"
  using assms(1)
proof induction
  case reach_start
  show ?case
    using assms(2)
    by (auto simp: store_inv_def Store_ctor_def memberships_ok_def split: option.splits)
qed (rule inv_step)

end

end
