(* ===== verification/Store_Properties.thy ===== *)
theory Store_Properties
  imports Store_Invariants
begin

text \<open>
  The properties of the in-memory control-plane store: exact outcomes of its operations and what
  holds in every state a sequence of calls can produce.
\<close>

section \<open>Steps seen from outside\<close>

fun store_run :: "'m membership_repo \<Rightarrow> StoreOp list \<Rightarrow> 'm Store \<Rightarrow> 'm Store" where
  "store_run repo [] s = s"
| "store_run repo (oper # ops) s = store_run repo ops (store_step repo oper s)"

lemma store_run_append: "store_run repo (xs @ ys) s = store_run repo ys (store_run repo xs s)"
  by (induction xs arbitrary: s) simp_all

lemma store_reachable_run: "store_reachable repo start (store_run repo ops start)"
proof (induction ops rule: rev_induct)
  case (snoc oper ops)
  then show ?case by (auto simp: store_run_append intro: store_reachable.reach_step)
qed (simp add: store_reachable.reach_start)

lemma filter_itself: "\<exists>P. xs = filter P xs"
  by (rule exI [of _ "\<lambda>_. True"]) simp

lemma interrupt_active:
  "\<exists>P. sto_active (snd (interrupt_transmission tid reason now corr s)) = filter P (sto_active s)"
proof (cases "map_of (sto_active s) tid")
  case None
  then show ?thesis
    by (auto simp: interrupt_transmission_def intro: exI [of _ "\<lambda>_. True"])
next
  case (Some t)
  then show ?thesis
    by (auto simp: interrupt_transmission_def notifyEnded1_def std_erase_def Let_def)
qed

text \<open>An operation removes active transmissions, or it admits one that passed every guard.\<close>

lemma store_step_active:
  "(\<exists>P. sto_active (store_step repo oper s) = filter P (sto_active s)) \<or>
   (\<exists>au sid dev now ctx sender sd.
      may_activate repo au sid dev now s ctx sender sd \<and>
      store_step repo oper s = admit (new_transmission ctx sender au sid dev now) s)"
proof (cases oper)
  case (Do_activate au sid dev now)
  note same = filter_itself [of "sto_active s"]
  from activate_result [of repo au sid dev now s] same show ?thesis
    unfolding Do_activate store_step.simps Let_def by fastforce
next
  case (Do_updateMembership p ctx now corr change)
  note same = filter_itself [of "sto_active s"]
  show ?thesis
    by (cases "write_membership repo p ctx s")
      (use same write_membership_frame(1) [of repo p ctx s] in
        \<open>auto simp: Do_updateMembership updateMembership_eq Let_def split: option.splits\<close>)
next
  case (Do_removeSession sid now corr)
  note same = filter_itself [of "sto_active s"]
  then show ?thesis
    by (auto simp: Do_removeSession removeSession_eq Let_def split: option.splits)
next
  case (Do_end tid sid dev reason now corr)
  note same = filter_itself [of "sto_active s"]
  then show ?thesis
    using interrupt_active [of tid reason now corr s]
    by (auto simp: Do_end end_transmission_cases split: option.splits)
next
  case (Do_interrupt tid reason now corr)
  then show ?thesis using interrupt_active [of tid reason now corr s] by simp
next
  case (Do_upsertSession x)
  note same = filter_itself [of "sto_active s"]
  then show ?thesis by (simp add: Do_upsertSession upsertSession_def)
next
  case (External_sessions f)
  note same = filter_itself [of "sto_active s"]
  then show ?thesis by (auto simp: External_sessions split: option.splits)
qed (auto simp: removeMembership_eq expireTimedOut_eq Let_def)

text \<open>What an operation does to the active transmissions and the calls together.\<close>

lemma store_step_calls:
  assumes inv: "store_inv repo ok s" and obs: "sto_observer s = Some answer"
  shows "sto_observer (store_step repo oper s) = Some answer \<and>
    ((\<exists>P r n c. sto_active (store_step repo oper s) = filter (\<lambda>e. \<not> P (snd e)) (sto_active s) \<and>
        sto_calls (store_step repo oper s) =
          sto_calls s @ map Call_onEnded (stopped_by P r n c s)) \<or>
     (\<exists>t. \<not> answer (sto_calls s) t \<and> sto_active (store_step repo oper s) = sto_active s \<and>
        sto_calls (store_step repo oper s) = sto_calls s @ [Call_onStarted t False]) \<or>
     (\<exists>au sid dev now ctx sender sd. may_activate repo au sid dev now s ctx sender sd \<and>
        answer (sto_calls s) (new_transmission ctx sender au sid dev now) \<and>
        store_step repo oper s = admit (new_transmission ctx sender au sid dev now) s))"
    (is "_ \<and> ?effect (store_step repo oper s)")
proof -
  have same: "?effect s'" if "sto_active s' = sto_active s" "sto_calls s' = sto_calls s" for s'
  proof -
    have "stopped_by (\<lambda>_. False) Stop_none 0 (StrongId []) s = []" by (simp add: stopped_by_def)
    then show ?thesis using that by (intro disjI1 exI [of _ "\<lambda>_. False"]) auto
  qed
  have stop: "?effect (recordForcedInterruptions es oper (stop_matching P r n c s'))"
      "?effect (stop_matching P r n c s')"
    if "sto_active s' = sto_active s" "sto_calls s' = sto_calls s" "sto_observer s' \<noteq> None"
    for s' P r n c es oper
  proof -
    have "stopped_by P r n c s' = stopped_by P r n c s" by (simp add: stopped_by_def that(1))
    then have calls: "sto_calls (stop_matching P r n c s') =
        sto_calls s @ map Call_onEnded (stopped_by P r n c s)"
      using that(3) by (auto simp: stop_matching_calls that(2))
    show "?effect (recordForcedInterruptions es oper (stop_matching P r n c s'))"
      by (rule disjI1, rule exI [of _ P], rule exI [of _ r], rule exI [of _ n], rule exI [of _ c])
        (simp add: calls that(1))
    show "?effect (stop_matching P r n c s')"
      by (rule disjI1, rule exI [of _ P], rule exI [of _ r], rule exI [of _ n], rule exI [of _ c])
        (simp add: calls that(1))
  qed
  have interrupt: "?effect (snd (interrupt_transmission tid r n c s))" for tid r n c
  proof (cases "map_of (sto_active s) tid")
    case None
    then show ?thesis by (intro same) (simp_all add: interrupt_transmission_def)
  next
    case (Some t)
    then show ?thesis using stop(2) [of s] obs by (simp add: interrupt_stop [OF inv Some])
  qed
  have effect: "?effect (store_step repo oper s)"
  proof (cases oper)
    case (Do_upsertSession x)
    then show ?thesis by (intro same) (simp_all add: upsertSession_def)
  next
    case (Do_removeSession sid now corr)
    show ?thesis
    proof (cases "currentSessionLocked s sid")
      case None
      then show ?thesis by (intro same) (simp_all add: Do_removeSession removeSession_eq)
    next
      case (Some x)
      then show ?thesis
        using stop(1) [of "s\<lparr>sto_sessions := std_erase sid (sto_sessions s)\<rparr>"] obs
        unfolding Do_removeSession store_step.simps removeSession_eq Let_def by simp
    qed
  next
    case (Do_updateMembership p ctx now corr change)
    obtain e s' where w: "write_membership repo p ctx s = (e, s')" by fastforce
    note frame = write_membership_frame [OF w]
    show ?thesis
    proof (cases "snapshot_find (mc_snapshot ctx) p = None \<or> e \<noteq> None")
      case True
      then show ?thesis
        by (intro same; cases e) (auto simp: Do_updateMembership updateMembership_eq w frame)
    next
      case False
      then have eq: "store_step repo oper s =
          recordForcedInterruptions
            (stopped_by (\<lambda>t. at_sender t = p) (change_reason change) now corr s')
            Op_membership_change
            (stop_matching (\<lambda>t. at_sender t = p) (change_reason change) now corr s')"
        by (auto simp: Do_updateMembership updateMembership_eq w Let_def)
      show ?thesis unfolding eq using obs by (intro stop(1)) (simp_all add: frame)
    qed
  next
    case (Do_removeMembership p now corr)
    then show ?thesis
      using stop(1) [of "erase_membership repo p s"] obs
      unfolding Do_removeMembership store_step.simps removeMembership_eq Let_def by simp
  next
    case (Do_activate au sid dev now)
    then show ?thesis
      using activate_result [of repo au sid dev now s] same [of s] obs
      unfolding store_step.simps Let_def by fastforce
  next
    case (Do_end tid sid dev r n c)
    then show ?thesis using interrupt same [of s]
      by (simp add: end_transmission_cases split: option.splits)
  next
    case (Do_interrupt tid r n c)
    then show ?thesis using interrupt by simp
  next
    case (Do_expire maximum now corr)
    then show ?thesis using stop(2) [of s] obs by (simp add: expireTimedOut_eq)
  next
    case (External_sessions f)
    then show ?thesis by (intro same) (simp_all split: option.splits)
  qed
  have "sto_observer (store_step repo oper s) = sto_observer s"
  proof (cases oper)
    case (Do_activate au sid dev now)
    then show ?thesis
      using activate_result [of repo au sid dev now s] by (auto simp: Let_def admit_def)
  qed (auto simp: upsertSession_def removeSession_eq updateMembership_eq
      removeMembership_eq expireTimedOut_eq interrupt_transmission_def end_transmission_def
      notifyEnded1_def write_membership_def Let_def split: option.splits prod.splits)
  with effect obs show ?thesis by simp
qed

lemma currentMembershipLocked_sessions [simp]:
  "currentMembershipLocked repo (upsertSession x s) = currentMembershipLocked repo s"
  "currentMembershipLocked repo (snd (removeSession sid now corr s)) = currentMembershipLocked repo s"
  "currentMembershipLocked repo (snd (expireTimedOut maximum now corr s)) =
     currentMembershipLocked repo s"
  "currentMembershipLocked repo (snd (interrupt_transmission tid reason now corr s)) =
     currentMembershipLocked repo s"
  "currentMembershipLocked repo (snd (end_transmission tid sid dev reason now corr s)) =
     currentMembershipLocked repo s"
  "currentMembershipLocked repo (admit t s) = currentMembershipLocked repo s"
  by (auto simp: upsertSession_def removeSession_eq expireTimedOut_eq interrupt_transmission_def
      end_transmission_def notifyEnded1_def admit_def Let_def currentMembershipLocked_def fun_eq_iff
      split: option.splits)

lemma currentMembershipLocked_activate [simp]:
  "currentMembershipLocked repo (snd (activate repo au sid dev now s)) =
     currentMembershipLocked repo s"
  using activate_result [of repo au sid dev now s] by (auto simp: Let_def)

context membership_repo_laws
begin

text \<open>Only the write and the removal of a player change what the store knows of the player.\<close>

lemma store_step_current:
  assumes "memberships_ok ok s"
  shows "currentMembershipLocked repo (store_step repo oper s) =
     (case oper of
        Do_updateMembership p ctx now corr change \<Rightarrow>
          if snapshot_find (mc_snapshot ctx) p \<noteq> None \<and> fst (store_write repo s p ctx) = None
          then (currentMembershipLocked repo s)(p \<mapsto> ctx) else currentMembershipLocked repo s
      | Do_removeMembership p now corr \<Rightarrow> (currentMembershipLocked repo s)(p := None)
      | _ \<Rightarrow> currentMembershipLocked repo s)"
proof (cases oper)
  case (Do_updateMembership p ctx now corr change)
  obtain r s' where w: "write_membership repo p ctx s = (r, s')" by fastforce
  have "currentMembershipLocked repo s' =
      (if r = None then (currentMembershipLocked repo s)(p \<mapsto> ctx)
       else currentMembershipLocked repo s)"
    using store.upsert_current [OF assms, of p ctx] w by (simp add: store_write_def)
  then show ?thesis
    by (cases r)
      (simp_all add: Do_updateMembership updateMembership_eq w store_write_def Let_def)
next
  case (Do_removeMembership p now corr)
  then show ?thesis
    using store.erase_current [OF assms, of p]
    by (simp add: removeMembership_eq Let_def store_erase_def)
next
  case (External_sessions f)
  then show ?thesis by (auto split: option.splits)
qed simp_all

end

section \<open>Reachable stores\<close>

definition fresh_store_ok :: "('m \<Rightarrow> bool) \<Rightarrow> 'm option \<Rightarrow> bool" where
  "fresh_store_ok ok mem = (case mem of None \<Rightarrow> True | Some r \<Rightarrow> ok r)"

lemma reachable_inv:
  assumes "membership_repo_laws repo ok" and "fresh_store_ok ok mem"
    and "store_reachable repo (Store_ctor audit obs sess mem) s"
  shows "store_inv repo ok s"
  using membership_repo_laws.inv_reachable [OF assms(1,3)] assms(2)
  by (simp add: fresh_store_ok_def split: option.splits)

text \<open>
  C1: in every state the store can reach, over any membership repository that keeps its contract,
  an active transmission is stored under its own identifier, it is the only one of its sender, it
  was authorized under the membership version that is current for the sender, and its scope node
  and subscription permission are those of the sender's current membership and role policy.
\<close>

theorem active_transmissions_are_current:
  assumes "membership_repo_laws repo ok" and "fresh_store_ok ok mem"
    and "store_reachable repo (Store_ctor audit obs sess mem) s"
    and "active s tid = Some t"
  shows "at_id t = tid \<and>
     (\<forall>tid' t'. active s tid' = Some t' \<and> at_sender t' = at_sender t \<longrightarrow> tid' = tid) \<and>
     (\<exists>ctx m. currentMembershipLocked repo s (at_sender t) = Some ctx \<and>
        ms_version (mc_snapshot ctx) = at_version t \<and>
        snapshot_find (mc_snapshot ctx) (at_sender t) = Some m \<and>
        at_scope_node_id t = scopeNodeId m (at_scope t) \<and>
        (at_scope_can_subscribe t \<longleftrightarrow> vm_can_receive_voice m \<and>
           canReceive (mc_role_policy ctx) (vm_role_ids m) (at_scope t)))"
proof -
  have inv: "store_inv repo ok s" using assms(1-3) by (rule reachable_inv)
  have mem: "(tid, t) \<in> set (sto_active s)"
    using assms(4) by (simp add: active_def map_of_SomeD)
  have "tid' = tid" if "active s tid' = Some t'" "at_sender t' = at_sender t" for tid' t'
  proof -
    have "(tid', t') \<in> set (sto_active s)" using that(1) by (simp add: active_def map_of_SomeD)
    with inv mem that(2) show "tid' = tid" unfolding store_inv_def by fastforce
  qed
  with inv mem show ?thesis by (fastforce simp: store_inv_def transmission_current_def)
qed

text \<open>
  What the lifecycle observer has been told is the truth: replaying the calls it received, the
  transmissions it believes to be live are exactly the active ones, in every reachable state of
  the store with an observer.
\<close>

theorem observer_sees_active:
  assumes "membership_repo_laws repo ok" and "fresh_store_ok ok mem"
    and "store_reachable repo (Store_ctor audit (Some answer) sess mem) s"
    and "sto_observer s \<noteq> None"
  shows "observer_view (sto_calls s) = {t. \<exists>tid. active s tid = Some t}"
proof -
  have inv: "store_inv repo ok s" using assms(1-3) by (rule reachable_inv)
  then have "std_ok (sto_active s)" by (simp add: store_inv_def)
  then have "snd ` set (sto_active s) = {t. \<exists>tid. active s tid = Some t}"
    by (force simp: active_def std_ok_map_of_iff)
  with inv assms(4) show ?thesis by (simp add: store_inv_def)
qed

section \<open>Activation\<close>

text \<open>
  Activation checks its guards in the order of the code. The first guard that fails decides
  the error and nothing changes; when all hold, the transmission is admitted exactly once, unless
  the observer cannot grant publication, in which case the active set is as before the call.
\<close>

theorem activate_first_failing_guard:
  "activate repo au sid dev now s =
     (case List.find (\<lambda>g. \<not> fst g) (activation_guards repo au sid dev now s) of
        Some g \<Rightarrow> (Inl (snd g), s)
      | None \<Rightarrow>
          (let ctx = the (currentMembershipLocked repo s (au_sender_player_id au));
               sender = the (snapshot_find (mc_snapshot ctx) (au_sender_player_id au));
               t = new_transmission ctx sender au sid dev now
           in case sto_observer s of
                Some answer \<Rightarrow>
                  if answer (sto_calls s) t then (Inr t, admit t s)
                  else (Inl Act_voice_control_failed,
                        s\<lparr>sto_calls := sto_calls s @ [Call_onStarted t False]\<rparr>)
              | None \<Rightarrow> (Inr t, admit t s)))"
  by (rule activate_guards)

section \<open>Speaker limits\<close>

definition speakers_in :: "VoiceScope \<Rightarrow> string \<Rightarrow> 'm Store \<Rightarrow> nat" where
  "speakers_in sc node s =
     length (filter (\<lambda>t. at_scope t = sc \<and> at_scope_node_id t = node) (map snd (sto_active s)))"

definition context_limited ::
  "VoiceScope \<Rightarrow> nat \<Rightarrow> AuthoritativeMembershipContext \<Rightarrow> bool" where
  "context_limited sc n ctx \<longleftrightarrow>
     (case findScope (ms_hierarchy (mc_snapshot ctx)) sc of
        None \<Rightarrow> True
      | Some sd \<Rightarrow> (case sd_max_concurrent_speakers sd of None \<Rightarrow> False | Some l \<Rightarrow> l \<le> n))"

definition scope_limited :: "'m membership_repo \<Rightarrow> VoiceScope \<Rightarrow> nat \<Rightarrow> 'm Store \<Rightarrow> bool" where
  "scope_limited repo sc n s \<longleftrightarrow>
     (\<forall>p. case currentMembershipLocked repo s p of
        None \<Rightarrow> True
      | Some ctx \<Rightarrow> context_limited sc n ctx)"

definition op_limited :: "VoiceScope \<Rightarrow> nat \<Rightarrow> StoreOp \<Rightarrow> bool" where
  "op_limited sc n oper \<longleftrightarrow>
     (case oper of Do_updateMembership p ctx now corr change \<Rightarrow> context_limited sc n ctx | _ \<Rightarrow> True)"

lemma scopeNodeId_eq_iff: "scopeNodeId a sc = scopeNodeId b sc \<longleftrightarrow> sameScopeNode a b sc"
  by (cases sc) (auto intro: StrongId.expand)

lemma matching_speaker_iff:
  assumes "transmission_current repo s t"
  shows "is_matching_speaker repo s sender sc t \<longleftrightarrow>
           at_scope t = sc \<and> at_scope_node_id t = scopeNodeId sender sc"
  using assms by (auto simp: is_matching_speaker_def transmission_current_def scopeNodeId_eq_iff
      split: option.splits) (metis scopeNodeId_eq_iff)+

lemma matching_speakers_count:
  assumes "store_inv repo ok s"
  shows "length (filter (is_matching_speaker repo s sender sc) (map snd (sto_active s))) =
           speakers_in sc (scopeNodeId sender sc) s"
proof -
  have "is_matching_speaker repo s sender sc t \<longleftrightarrow>
      at_scope t = sc \<and> at_scope_node_id t = scopeNodeId sender sc"
    if "t \<in> set (map snd (sto_active s))" for t
    using assms that by (intro matching_speaker_iff) (auto simp: store_inv_def)
  then show ?thesis unfolding speakers_in_def by (metis (mono_tags, lifting) filter_cong)
qed

lemma speakers_in_admit:
  assumes "at_id t \<notin> fst ` set (sto_active s)"
  shows "speakers_in sc node (admit t s) =
     speakers_in sc node s + (if at_scope t = sc \<and> at_scope_node_id t = node then 1 else 0)"
  using length_filter_std_put_fresh [OF assms] by (simp add: speakers_in_def admit_def)

lemma speakers_in_filter:
  "sto_active s' = filter P (sto_active s) \<Longrightarrow> speakers_in sc node s' \<le> speakers_in sc node s"
  unfolding speakers_in_def by (simp only: length_filter_map_filter_le)

lemma speakers_bounded_step:
  assumes inv: "store_inv repo ok s" and lim: "scope_limited repo sc n s"
    and bound: "\<And>node. speakers_in sc node s \<le> n"
  shows "speakers_in sc node (store_step repo oper s) \<le> n"
  using store_step_active [of repo oper s]
proof (elim disjE exE conjE)
  fix P assume "sto_active (store_step repo oper s) = filter P (sto_active s)"
  then show ?thesis using speakers_in_filter bound order_trans by blast
next
  fix au sid dev now ctx sender sd
  assume may: "may_activate repo au sid dev now s ctx sender sd"
    and step: "store_step repo oper s = admit (new_transmission ctx sender au sid dev now) s"
  let ?t = "new_transmission ctx sender au sid dev now"
  have grow: "speakers_in sc node (admit ?t s) = speakers_in sc node s +
      (if au_scope au = sc \<and> scopeNodeId sender (au_scope au) = node then 1 else 0)"
    using may speakers_in_admit [of ?t s sc node] by (simp add: may_activate_def)
  have "speakers_in sc node s < n" if "au_scope au = sc" "scopeNodeId sender sc = node"
  proof -
    have ctx: "currentMembershipLocked repo s (au_sender_player_id au) = Some ctx"
      and sd: "findScope (ms_hierarchy (mc_snapshot ctx)) sc = Some sd"
      and below: "\<And>l. sd_max_concurrent_speakers sd = Some l \<Longrightarrow>
        length (filter (is_matching_speaker repo s sender sc) (map snd (sto_active s))) < l"
      using may that(1) unfolding may_activate_def by blast+
    have "context_limited sc n ctx"
      using lim ctx unfolding scope_limited_def by (metis option.simps(5))
    then obtain l where l: "sd_max_concurrent_speakers sd = Some l" "l \<le> n"
      by (auto simp: context_limited_def sd split: option.splits)
    have "speakers_in sc (scopeNodeId sender sc) s < l"
      using below [OF l(1)] unfolding matching_speakers_count [OF inv] .
    then show ?thesis using l(2) that(2) by simp
  qed
  then show ?thesis using bound [of node] unfolding step grow by auto
qed

context membership_repo_laws
begin

lemma scope_limited_step:
  assumes "memberships_ok ok s" and "scope_limited repo sc n s" and "op_limited sc n oper"
  shows "scope_limited repo sc n (store_step repo oper s)"
  using assms(2,3)
  by (cases oper)
    (auto simp: scope_limited_def op_limited_def store_step_current [OF assms(1)]
      simp del: store_step.simps split: option.splits if_splits)

lemma speakers_bounded_run:
  assumes "store_inv repo ok s" and "scope_limited repo sc n s"
    and "\<And>node. speakers_in sc node s \<le> n" and "\<forall>oper \<in> set ops. op_limited sc n oper"
  shows "speakers_in sc node (store_run repo ops s) \<le> n"
  using assms
proof (induction ops arbitrary: s node)
  case (Cons oper ops)
  show ?case
    unfolding store_run.simps
  proof (rule Cons.IH)
    show "store_inv repo ok (store_step repo oper s)" using Cons.prems(1) by (rule inv_step)
    show "scope_limited repo sc n (store_step repo oper s)"
      using Cons.prems(4) scope_limited_step [OF inv_memberships_ok [OF Cons.prems(1)] Cons.prems(2)]
      by simp
    show "speakers_in sc node (store_step repo oper s) \<le> n" for node
      using Cons.prems(1-3) by (rule speakers_bounded_step)
    show "\<forall>oper \<in> set ops. op_limited sc n oper" using Cons.prems(4) by simp
  qed
qed simp

lemma version_run:
  assumes "store_inv repo ok s"
    and "\<forall>oper \<in> set ops. \<forall>now corr. oper \<noteq> Do_removeMembership q now corr"
    and "currentMembershipLocked repo s q = Some old"
  shows "\<exists>new. currentMembershipLocked repo (store_run repo ops s) q = Some new \<and>
           (new = old \<or> ms_version (mc_snapshot old) < ms_version (mc_snapshot new))"
  using assms
proof (induction ops arbitrary: s old)
  case (Cons oper ops)
  have mem: "memberships_ok ok s" using Cons.prems(1) by (rule inv_memberships_ok)
  obtain mid where mid: "currentMembershipLocked repo (store_step repo oper s) q = Some mid"
      "mid = old \<or> ms_version (mc_snapshot old) < ms_version (mc_snapshot mid)"
  proof (cases oper)
    case (Do_updateMembership p ctx now corr change)
    obtain e s' where w: "store_write repo s p ctx = (e, s')" by fastforce
    have "ms_version (mc_snapshot old) < ms_version (mc_snapshot ctx)" if "q = p" "e = None"
      using store.upsert_newer [OF mem, of p ctx s' old] w that Cons.prems(3) by simp
    then show thesis
      using that [of ctx] that [of old] Cons.prems(3) w
      by (cases "q = p \<and> e = None \<and> snapshot_find (mc_snapshot ctx) p \<noteq> None")
        (auto simp: store_step_current [OF mem] Do_updateMembership simp del: store_step.simps)
  next
    case (Do_removeMembership p now corr)
    then show thesis using that [of old] Cons.prems(2,3)
      by (auto simp: store_step_current [OF mem] simp del: store_step.simps)
  qed (use that Cons.prems(3) in
      \<open>auto simp: store_step_current [OF mem] simp del: store_step.simps\<close>)
  obtain new where "currentMembershipLocked repo (store_run repo (oper # ops) s) q = Some new"
      "new = mid \<or> ms_version (mc_snapshot mid) < ms_version (mc_snapshot new)"
    using Cons.IH [OF inv_step [OF Cons.prems(1)] _ mid(1)] Cons.prems(2) by auto
  with mid(2) show ?case by (auto intro: order.strict_trans)
qed auto

end

text \<open>
  C7: the speaker limit. When every membership context the store ever holds limits a scope to at
  most n speakers, no sequence of calls makes more than n players speak at the same node of that
  scope at once.
\<close>

theorem speaker_limit_never_exceeded:
  assumes "membership_repo_laws repo ok" and "fresh_store_ok ok mem"
    and "scope_limited repo sc n (Store_ctor audit obs sess mem)"
    and "\<forall>oper \<in> set ops. op_limited sc n oper"
  shows "speakers_in sc node (store_run repo ops (Store_ctor audit obs sess mem)) \<le> n"
proof -
  let ?s = "Store_ctor audit obs sess mem"
  have inv: "store_inv repo ok ?s"
    using assms(1,2) store_reachable.reach_start by (rule reachable_inv)
  have empty: "speakers_in sc node' ?s \<le> n" for node'
    by (simp add: speakers_in_def Store_ctor_def)
  show ?thesis
    using membership_repo_laws.speakers_bounded_run [OF assms(1) inv assms(3) empty assms(4)] .
qed

text \<open>
  While a player is not removed, a sequence of calls leaves the player's authoritative context
  as it is or replaces it by one with a strictly greater version; an equal version is the same
  context.
\<close>

theorem membership_version_monotone:
  assumes "membership_repo_laws repo ok" and "fresh_store_ok ok mem"
    and "store_reachable repo (Store_ctor audit obs sess mem) s"
    and "\<forall>oper \<in> set ops. \<forall>now corr. oper \<noteq> Do_removeMembership q now corr"
    and "currentMembershipLocked repo s q = Some old"
  shows "\<exists>new. currentMembershipLocked repo (store_run repo ops s) q = Some new \<and>
           (new = old \<or> ms_version (mc_snapshot old) < ms_version (mc_snapshot new))"
  using membership_repo_laws.version_run [OF assms(1) reachable_inv [OF assms(1-3)] assms(4,5)] .

section \<open>Membership updates\<close>

context membership_repo_laws
begin

lemma update_outcome:
  assumes "memberships_ok ok s"
  shows "(\<exists>es. fst (updateMembership repo p ctx now corr change s) = Inr es) \<longleftrightarrow>
     snapshot_find (mc_snapshot ctx) p \<noteq> None \<and>
     (\<forall>old. currentMembershipLocked repo s p = Some old \<longrightarrow>
        ms_version (mc_snapshot old) < ms_version (mc_snapshot ctx))"
proof -
  obtain e s' where w: "write_membership repo p ctx s = (e, s')" by fastforce
  then have sw: "store_write repo s p ctx = (e, s')" by (simp add: store_write_def)
  have "e = None \<longleftrightarrow> (\<forall>old. currentMembershipLocked repo s p = Some old \<longrightarrow>
        ms_version (mc_snapshot old) < ms_version (mc_snapshot ctx))"
    if "snapshot_find (mc_snapshot ctx) p \<noteq> None"
    using store.upsert_newer [OF assms, of p ctx s'] store.upsert_accepts [OF assms that] sw by auto
  then show ?thesis
    by (cases e) (auto simp: updateMembership_eq w Let_def)
qed

lemma update_effect:
  assumes "memberships_ok ok s"
  shows "case updateMembership repo p ctx now corr change s of
       (Inl e, s') \<Rightarrow>
         sto_active s' = sto_active s \<and> sto_calls s' = sto_calls s \<and>
         sto_audit s' = sto_audit s \<and>
         currentMembershipLocked repo s' = currentMembershipLocked repo s
     | (Inr es, s') \<Rightarrow>
         es = map (end_record (change_reason change) now corr)
                (filter (\<lambda>t. at_sender t = p) (map snd (sto_active s))) \<and>
         sto_active s' = filter (\<lambda>e. at_sender (snd e) \<noteq> p) (sto_active s) \<and>
         sto_audit s' = sto_audit s @
           (if sto_audit_enabled s then map (forced_event Op_membership_change) es else []) \<and>
         currentMembershipLocked repo s' = (currentMembershipLocked repo s)(p \<mapsto> ctx)"
proof -
  obtain e s' where w: "write_membership repo p ctx s = (e, s')" by fastforce
  note frame = write_membership_frame [OF w]
  have "currentMembershipLocked repo s' =
      (if e = None then (currentMembershipLocked repo s)(p \<mapsto> ctx)
       else currentMembershipLocked repo s)"
    using store.upsert_current [OF assms, of p ctx] w by (simp add: store_write_def)
  then show ?thesis
    by (cases e)
      (simp_all add: updateMembership_eq w Let_def frame stopped_by_def
        recordForcedInterruptions_audit)
qed

end

text \<open>
  A membership update is accepted exactly when the player is in the new snapshot and the
  snapshot is strictly newer than the player's current one. Acceptance stores the context, stops
  exactly the player's transmissions, with the reason of the change, and records each stop in the
  audit log; a rejection changes neither memberships nor transmissions nor the audit log.
\<close>

theorem update_membership_exact:
  assumes "membership_repo_laws repo ok" and "fresh_store_ok ok mem"
    and "store_reachable repo (Store_ctor audit obs sess mem) s"
  shows "case updateMembership repo p ctx now corr change s of
       (Inl e, s') \<Rightarrow>
         (snapshot_find (mc_snapshot ctx) p = None \<or>
          (\<exists>old. currentMembershipLocked repo s p = Some old \<and>
             ms_version (mc_snapshot ctx) \<le> ms_version (mc_snapshot old))) \<and>
         sto_active s' = sto_active s \<and> sto_calls s' = sto_calls s \<and>
         sto_audit s' = sto_audit s \<and>
         currentMembershipLocked repo s' = currentMembershipLocked repo s
     | (Inr es, s') \<Rightarrow>
         snapshot_find (mc_snapshot ctx) p \<noteq> None \<and>
         (\<forall>old. currentMembershipLocked repo s p = Some old \<longrightarrow>
            ms_version (mc_snapshot old) < ms_version (mc_snapshot ctx)) \<and>
         es = map (end_record (change_reason change) now corr)
                (filter (\<lambda>t. at_sender t = p) (map snd (sto_active s))) \<and>
         sto_active s' = filter (\<lambda>e. at_sender (snd e) \<noteq> p) (sto_active s) \<and>
         sto_audit s' = sto_audit s @
           (if sto_audit_enabled s then map (forced_event Op_membership_change) es else []) \<and>
         currentMembershipLocked repo s' = (currentMembershipLocked repo s)(p \<mapsto> ctx)"
proof -
  have mem: "memberships_ok ok s"
    using reachable_inv [OF assms] by (rule inv_memberships_ok)
  obtain r s' where u: "updateMembership repo p ctx now corr change s = (r, s')" by fastforce
  show ?thesis
    using membership_repo_laws.update_outcome
        [OF assms(1) mem, where p = p and ctx = ctx and now = now and corr = corr and change = change]
      membership_repo_laws.update_effect
        [OF assms(1) mem, where p = p and ctx = ctx and now = now and corr = corr and change = change]
    unfolding u by (cases r) (auto simp: not_less)
qed

section \<open>Ending and expiry\<close>

text \<open>
  Ending a transmission is exact. An unknown identifier and a caller that is not the owning
  session and device are told so and change nothing; the owner stops that transmission and no
  other, once.
\<close>

theorem end_transmission_exact:
  assumes "membership_repo_laws repo ok" and "fresh_store_ok ok mem"
    and "store_reachable repo (Store_ctor audit obs sess mem) s"
  shows "case active s tid of
       None \<Rightarrow> end_transmission tid sid dev reason now corr s = (Inl Repo_transmission_not_found, s)
     | Some t \<Rightarrow>
         if at_session_id t = sid \<and> at_device_id t = dev
         then (\<exists>s'. end_transmission tid sid dev reason now corr s =
                 (Inr (end_record reason now corr t), s') \<and>
               active s' = (active s)(tid := None) \<and>
               fst (end_transmission tid sid dev reason now corr s') =
                 Inl Repo_transmission_not_found)
         else end_transmission tid sid dev reason now corr s = (Inl Repo_transmission_not_owned, s)"
proof (cases "active s tid")
  case None
  then show ?thesis by (simp add: active_def end_transmission_def)
next
  case (Some t)
  have inv: "store_inv repo ok s" using assms by (rule reachable_inv)
  have std: "std_ok (sto_active s)" and ids: "\<forall>e \<in> set (sto_active s). at_id (snd e) = fst e"
    using inv by (simp_all add: store_inv_def)
  let ?s = "stop_matching (\<lambda>t. at_id t = tid) reason now corr s"
  have "filter (\<lambda>e. at_id (snd e) \<noteq> tid) (sto_active s) = std_erase tid (sto_active s)"
    unfolding std_erase_def using ids by (intro filter_cong) auto
  then have gone: "active ?s = (active s)(tid := None)"
    by (simp add: active_def [abs_def] fun_eq_iff)
  then have "map_of (sto_active ?s) tid = None"
    by (metis active_def fun_upd_same)
  then have "fst (end_transmission tid sid dev reason now corr ?s) = Inl Repo_transmission_not_found"
    by (simp add: end_transmission_def)
  moreover have "interrupt_transmission tid reason now corr s = (Inr (end_record reason now corr t), ?s)"
    using Some by (intro interrupt_stop [OF inv]) (simp add: active_def)
  ultimately show ?thesis
    using Some gone by (auto simp: end_transmission_cases [of tid sid dev reason now corr s] active_def)
qed

text \<open>
  Expiry is exact and complete. It returns, in identifier order, the transmissions that have
  run for at least the maximum duration, leaves every other one, and a second sweep at the same
  time finds nothing.
\<close>

theorem expiry_exact:
  assumes "membership_repo_laws repo ok" and "fresh_store_ok ok mem"
    and "store_reachable repo (Store_ctor audit obs sess mem) s"
  shows "case expireTimedOut maximum now corr s of (es, s') \<Rightarrow>
     es = map (end_record Stop_timed_out now corr)
            (filter (timed_out maximum now) (map snd (sto_active s))) \<and>
     sorted_wrt (<) (map (at_id \<circ> et_transmission) es) \<and>
     (\<forall>tid. active s' tid =
        (case active s tid of
           None \<Rightarrow> None
         | Some t \<Rightarrow> if timed_out maximum now t then None else Some t)) \<and>
     fst (expireTimedOut maximum now corr' s') = []"
proof -
  have inv: "store_inv repo ok s" using assms by (rule reachable_inv)
  have std: "std_ok (sto_active s)" and ids: "\<forall>e \<in> set (sto_active s). at_id (snd e) = fst e"
    using inv by (simp_all add: store_inv_def)
  have sorted: "sorted_wrt (<) (map (at_id \<circ> snd) (filter P (sto_active s)))" for P
  proof -
    have "map (at_id \<circ> snd) (filter P (sto_active s)) = keys (filter P (sto_active s))"
      using ids by (intro map_cong) auto
    then show ?thesis using std_ok_filter [OF std, of P] unfolding std_ok_def by (simp only:)
  qed
  have expired: "expireTimedOut maximum now corr s =
      (stopped_by (timed_out maximum now) Stop_timed_out now corr s,
       stop_matching (timed_out maximum now) Stop_timed_out now corr s)"
    by (rule expireTimedOut_eq)
  show ?thesis
    using sorted map_of_filter_values [OF std, of "\<lambda>t. \<not> timed_out maximum now t"]
    unfolding expired
    by (auto simp: stopped_by_def active_def filter_map o_def expireTimedOut_eq filter_empty_conv
        split: option.splits)
qed

section \<open>Sessions held by the store\<close>

lemma store_step_sessions:
  "sto_persistent_sessions s = None \<Longrightarrow>
   sto_persistent_sessions (store_step repo oper s) = None \<and>
   sto_sessions (store_step repo oper s) =
     (case oper of
        Do_upsertSession x \<Rightarrow> std_put (as_session_id x) x (sto_sessions s)
      | Do_removeSession sid now corr \<Rightarrow> std_erase sid (sto_sessions s)
      | _ \<Rightarrow> sto_sessions s)"
proof (cases oper)
  case (Do_activate au sid dev now)
  assume "sto_persistent_sessions s = None"
  with activate_result [of repo au sid dev now s] show ?thesis
    by (auto simp: Do_activate Let_def admit_def)
next
  case (Do_removeSession sid now corr)
  assume none: "sto_persistent_sessions s = None"
  have "std_erase sid (sto_sessions s) = sto_sessions s" if "map_of (sto_sessions s) sid = None"
    using that by (auto simp: std_erase_def filter_id_conv map_of_eq_None_iff image_iff)
  with none show ?thesis
    by (auto simp: Do_removeSession removeSession_eq Let_def currentSessionLocked_def
        split: option.splits)
qed (auto simp: upsertSession_def updateMembership_eq removeMembership_eq expireTimedOut_eq
    interrupt_transmission_def end_transmission_def notifyEnded1_def write_membership_def
    erase_membership_def Let_def split: option.splits prod.splits)

definition sessions_cover :: "'m Store \<Rightarrow> bool" where
  "sessions_cover s \<longleftrightarrow>
     sto_persistent_sessions s = None \<and>
     (\<forall>e \<in> set (sto_active s). at_session_id (snd e) \<in> fst ` set (sto_sessions s))"

lemma fst_set_std_erase: "fst ` set (std_erase k m) = fst ` set m - {k}"
  by (auto simp: std_erase_def)

lemma sessions_cover_remove:
  assumes "sessions_cover s"
  shows "sto_active (snd (removeSession sid now corr s)) =
           filter (\<lambda>e. at_session_id (snd e) \<noteq> sid) (sto_active s)"
proof (cases "currentSessionLocked s sid")
  case None
  then have "sid \<notin> fst ` set (sto_sessions s)"
    by (auto simp: currentSessionLocked_def map_of_eq_None_iff split: option.splits)
  then have "filter (\<lambda>e. at_session_id (snd e) \<noteq> sid) (sto_active s) = sto_active s"
    using assms by (auto simp: sessions_cover_def filter_id_conv)
  then show ?thesis by (simp add: removeSession_eq None)
qed (simp add: removeSession_eq Let_def)

lemma admit_sessions:
  "sto_persistent_sessions (admit t s) = sto_persistent_sessions s"
  "sto_sessions (admit t s) = sto_sessions s"
  by (simp_all add: admit_def)

lemma sessions_cover_step:
  assumes cover: "sessions_cover s"
  shows "sessions_cover (store_step repo oper s)"
proof -
  have none: "sto_persistent_sessions s = None" using cover by (simp add: sessions_cover_def)
  note sessions = store_step_sessions [OF none, of repo oper]
  show ?thesis
    using store_step_active [of repo oper s]
  proof (elim disjE exE conjE)
    fix P assume P: "sto_active (store_step repo oper s) = filter P (sto_active s)"
    show ?thesis
    proof (cases oper)
      case (Do_removeSession sid now corr)
      have "sto_active (store_step repo oper s) =
          filter (\<lambda>e. at_session_id (snd e) \<noteq> sid) (sto_active s)"
        using sessions_cover_remove [OF cover] by (simp add: Do_removeSession)
      then show ?thesis
        using sessions cover by (auto simp: sessions_cover_def Do_removeSession fst_set_std_erase
            simp del: store_step.simps)
    qed (use sessions cover P in \<open>auto simp: sessions_cover_def fst_set_std_put
          simp del: store_step.simps\<close>)
  next
    fix au sid dev now ctx sender sd
    assume may: "may_activate repo au sid dev now s ctx sender sd"
      and step: "store_step repo oper s = admit (new_transmission ctx sender au sid dev now) s"
    have "sid \<in> fst ` set (sto_sessions s)"
      using may none by (auto simp: may_activate_def currentSessionLocked_def
          dest: map_of_SomeD split: option.splits intro: rev_image_eqI)
    moreover have "at_session_id (snd e) = sid \<or> e \<in> set (sto_active s)"
      if "e \<in> set (sto_active (admit (new_transmission ctx sender au sid dev now) s))" for e
      using that subsetD [OF set_std_put_subset] by (fastforce simp: admit_def)
    ultimately show ?thesis
      using cover unfolding step sessions_cover_def by (metis admit_sessions)
  qed
qed

lemma sessions_cover_reachable:
  "store_reachable repo start s \<Longrightarrow> start = Store_ctor audit obs None mem \<Longrightarrow> sessions_cover s"
proof (induction rule: store_reachable.induct)
  case reach_start
  then show ?case by (simp add: sessions_cover_def Store_ctor_def)
next
  case (reach_step s oper)
  then show ?case by (simp add: sessions_cover_step)
qed

text \<open>
  Removing a session that the store holds silences it: its transmissions are stopped and all
  others go on, the session is no longer found, and no later activation under it succeeds or
  changes anything.
\<close>

theorem removed_session_is_silent:
  assumes "membership_repo_laws repo ok" and "fresh_store_ok ok mem"
    and "store_reachable repo (Store_ctor audit obs None mem) s"
  shows "case removeSession sid now corr s of (es, s') \<Rightarrow>
     es = map (end_record Stop_disconnected now corr)
            (filter (\<lambda>t. at_session_id t = sid) (map snd (sto_active s))) \<and>
     (\<forall>tid. active s' tid =
        (case active s tid of
           None \<Rightarrow> None
         | Some t \<Rightarrow> if at_session_id t = sid then None else Some t)) \<and>
     currentSessionLocked s' sid = None \<and>
     activate repo au sid dev later s' = (Inl Act_session_changed, s')"
proof -
  have inv: "store_inv repo ok s" using assms by (rule reachable_inv)
  then have std: "std_ok (sto_active s)" by (simp add: store_inv_def)
  have cover: "sessions_cover s" using assms(3) by (rule sessions_cover_reachable) simp
  then have none: "sto_persistent_sessions s = None" by (simp add: sessions_cover_def)
  obtain es s' where r: "removeSession sid now corr s = (es, s')" by fastforce
  have act: "sto_active s' = filter (\<lambda>e. at_session_id (snd e) \<noteq> sid) (sto_active s)"
    using sessions_cover_remove [OF cover, of sid now corr] by (simp add: r)
  have gone: "currentSessionLocked s' sid = None"
    using store_step_sessions [OF none, of repo "Do_removeSession sid now corr"]
    by (simp add: currentSessionLocked_def r)
  have es: "es = stopped_by (\<lambda>t. at_session_id t = sid) Stop_disconnected now corr s"
  proof (cases "currentSessionLocked s sid")
    case None
    then have "sid \<notin> fst ` set (sto_sessions s)"
      by (auto simp: currentSessionLocked_def map_of_eq_None_iff split: option.splits)
    then have "filter (\<lambda>t. at_session_id t = sid) (map snd (sto_active s)) = []"
      using cover by (auto simp: sessions_cover_def filter_empty_conv)
    then show ?thesis using r None by (simp add: removeSession_eq stopped_by_def)
  next
    case (Some x)
    then show ?thesis using r by (simp add: removeSession_eq Let_def)
  qed
  have "activate repo au sid dev later s' = (Inl Act_session_changed, s')"
    by (simp add: activate_def gone)
  then show ?thesis
    using gone map_of_filter_values [OF std, of "\<lambda>t. at_session_id t \<noteq> sid"]
    by (auto simp: r es stopped_by_def active_def act split: option.splits)
qed

section \<open>Scope nodes\<close>

text \<open>
  Within one snapshot the speaker count and the recipient resolution agree on what a node is: the
  lowest identifier decides, because the path above it is determined.
\<close>

lemma same_node_iff_belongs:
  assumes "snapshot_ok snap" and "a \<in> set (ms_memberships snap)" "b \<in> set (ms_memberships snap)"
  shows "sameScopeNode a b sc \<longleftrightarrow> belongsToScope a b sc"
proof -
  have path: "hierarchy_ok (ms_hierarchy snap)" "valid_path (ms_hierarchy snap) a"
      "valid_path (ms_hierarchy snap) b"
    using assms by (simp_all add: snapshot_ok_def)
  note up = same_specialization_same_group [OF path] same_team_same_specialization [OF path]
  show ?thesis
  proof (cases sc)
    case Team_scope
    show ?thesis unfolding Team_scope sameScopeNode.simps belongsToScope.simps using up by metis
  next
    case Specialization_scope
    show ?thesis
      unfolding Specialization_scope sameScopeNode.simps belongsToScope.simps using up by metis
  next
    case Group_scope
    show ?thesis unfolding Group_scope sameScopeNode.simps belongsToScope.simps by metis
  qed
qed

section \<open>A concrete run\<close>

definition sample_context :: "u64 \<Rightarrow> AuthoritativeMembershipContext" where
  "sample_context v = \<lparr>mc_snapshot = sample_snapshot v, mc_role_policy = sample_policy\<rparr>"

definition sample_login :: "string \<Rightarrow> AuthenticatedSession" where
  "sample_login player =
     \<lparr>as_session_id = StrongId (''session-'' @ player), as_player_id = StrongId player,
      as_device_id = StrongId (''device-'' @ player), as_expires_at = 1000000000\<rparr>"

definition sample_authorization :: "string \<Rightarrow> u64 \<Rightarrow> AuthorizedTransmission" where
  "sample_authorization player v =
     \<lparr>au_transmission_id = StrongId (''x-'' @ player),
      au_client_transmission_id = StrongId (''c-'' @ player),
      au_sender_player_id = StrongId player, au_scope = Team_scope, au_membership_version = v,
      au_recipients = [StrongId ''alice'', StrongId ''bob''], au_correlation_id = StrongId ''k''\<rparr>"

definition sample_start :: "(PlayerId, AuthoritativeMembershipContext) std_map Store" where
  "sample_start = Store_ctor True (Some (\<lambda>_ _. True)) None None"

definition sample_ops :: "StoreOp list" where
  "sample_ops =
     [Do_upsertSession (sample_login ''alice''), Do_upsertSession (sample_login ''bob''),
      Do_updateMembership (StrongId ''alice'') (sample_context 3) 10 (StrongId ''k'')
        Change_membership_changed,
      Do_updateMembership (StrongId ''bob'') (sample_context 3) 20 (StrongId ''k'')
        Change_membership_changed,
      Do_activate (sample_authorization ''alice'' 3) (StrongId ''session-alice'')
        (StrongId ''device-alice'') 30]"

definition sample_store :: "(PlayerId, AuthoritativeMembershipContext) std_map Store" where
  "sample_store = store_run memory_repo sample_ops sample_start"

lemma sample_store_reachable:
  "store_reachable memory_repo (Store_ctor True (Some (\<lambda>_ _. True)) None None) sample_store"
  using store_reachable_run [of memory_repo sample_start sample_ops]
  by (simp add: sample_store_def sample_start_def)

lemma sample_store_laws: "membership_repo_laws memory_repo std_ok"
  by (rule memory_laws.membership_repo_laws_axioms)

lemma sample_store_fresh: "fresh_store_ok ok None"
  by (simp add: fresh_store_ok_def)

lemmas sample_reachable = sample_store_laws sample_store_fresh sample_store_reachable

lemmas sample_run_defs = sample_start_def Store_ctor_def sample_ops_def sample_login_def
  sample_context_def sample_authorization_def memory_repo_def upsertSession_def
  updateMembership_def updateMembership_locked_def write_membership_def memory_upsertIfNewer_def
  interruptForPlayerLocked_def activate_def currentSessionLocked_def currentMembershipLocked_def
  activeAt_def recordForcedInterruptions_def std_emplace_def Let_def

definition sample_active :: ActiveTransmission where
  "sample_active =
     \<lparr>at_authorization = sample_authorization ''alice'' 3,
      at_session_id = StrongId ''session-alice'', at_device_id = StrongId ''device-alice'',
      at_started_at = 30, at_scope_node_id = ''t1'', at_scope_can_subscribe = True\<rparr>"

lemma sample_store_eq:
  "sample_store =
     \<lparr>sto_audit_enabled = True, sto_observer = Some (\<lambda>_ _. True), sto_persistent_sessions = None,
      sto_persistent_memberships = None,
      sto_sessions = [(StrongId ''session-alice'', sample_login ''alice''),
                      (StrongId ''session-bob'', sample_login ''bob'')],
      sto_memberships = [(StrongId ''alice'', sample_context 3), (StrongId ''bob'', sample_context 3)],
      sto_active = [(StrongId ''x-alice'', sample_active)], sto_audit = [],
      sto_calls = [Call_onStarted sample_active True]\<rparr>"
  by (simp add: sample_store_def sample_run_defs sample_active_def sample_membership_defs
      sample_hierarchy_def snapshot_find_def lower_bound_def findScope_def canReceive_def)

theorem active_transmissions_witness:
  "active sample_store (StrongId ''x-alice'') = Some sample_active \<and>
   at_id sample_active = StrongId ''x-alice'' \<and> at_scope_node_id sample_active = ''t1''"
proof -
  have a: "active sample_store (StrongId ''x-alice'') = Some sample_active"
    by (simp add: active_def sample_store_eq)
  with active_transmissions_are_current [OF sample_reachable a] show ?thesis
    by (simp add: sample_active_def)
qed

theorem observer_sees_active_witness:
  "observer_view (sto_calls sample_store) = {t. \<exists>tid. active sample_store tid = Some t} \<and>
   sample_active \<in> observer_view (sto_calls sample_store)"
proof -
  have "sto_observer sample_store \<noteq> None" by (simp add: sample_store_eq)
  note eq = observer_sees_active [OF sample_reachable this]
  have "active sample_store (StrongId ''x-alice'') = Some sample_active"
    by (simp add: active_def sample_store_eq)
  then show ?thesis unfolding eq by blast
qed

theorem speaker_limit_witness:
  "speakers_in Team_scope ''t1''
     (store_run memory_repo (sample_ops @
        [Do_activate (sample_authorization ''bob'' 3) (StrongId ''session-bob'')
           (StrongId ''device-bob'') 40])
        (Store_ctor True (Some (\<lambda>_ _. True)) None None)) \<le> 1"
proof -
  have limit: "context_limited Team_scope 1 (sample_context v)" for v
    by (simp add: context_limited_def sample_context_def sample_membership_defs findScope_def
        sample_hierarchy_def)
  have "scope_limited memory_repo Team_scope 1 sample_start"
    by (simp add: scope_limited_def sample_start_def Store_ctor_def currentMembershipLocked_def)
  moreover have "\<forall>oper \<in> set (sample_ops @
        [Do_activate (sample_authorization ''bob'' 3) (StrongId ''session-bob'')
           (StrongId ''device-bob'') 40]). op_limited Team_scope 1 oper"
    using limit by (simp add: sample_ops_def op_limited_def)
  ultimately show ?thesis
    using speaker_limit_never_exceeded [OF sample_store_laws sample_store_fresh]
    unfolding sample_start_def by blast
qed

theorem membership_version_monotone_witness:
  "\<exists>new. currentMembershipLocked memory_repo
       (store_run memory_repo
          [Do_updateMembership (StrongId ''alice'') (sample_context 2) 50 (StrongId ''k'')
             Change_membership_changed] sample_store) (StrongId ''alice'') = Some new \<and>
     3 \<le> ms_version (mc_snapshot new)"
proof -
  have "currentMembershipLocked memory_repo sample_store (StrongId ''alice'') = Some (sample_context 3)"
    by (simp add: currentMembershipLocked_def sample_store_eq)
  from membership_version_monotone [OF sample_reachable _ this,
      of "[Do_updateMembership (StrongId ''alice'') (sample_context 2) 50 (StrongId ''k'')
             Change_membership_changed]"]
  show ?thesis by (auto simp: sample_context_def sample_snapshot_def less_imp_le)
qed

theorem update_membership_witness:
  "fst (updateMembership memory_repo (StrongId ''alice'') (sample_context 4) 60 (StrongId ''k'')
          Change_permissions_changed sample_store) =
     Inr [end_record Stop_permission_revoked 60 (StrongId ''k'') sample_active] \<and>
   fst (updateMembership memory_repo (StrongId ''alice'') (sample_context 3) 60 (StrongId ''k'')
          Change_permissions_changed sample_store) \<noteq> Inr []"
proof -
  note exact = update_membership_exact [OF sample_reachable, where p = "StrongId ''alice''"
      and now = 60 and corr = "StrongId ''k''" and change = Change_permissions_changed]
  have old: "currentMembershipLocked memory_repo sample_store (StrongId ''alice'') =
      Some (sample_context 3)"
    by (simp add: currentMembershipLocked_def sample_store_eq)
  have mine: "filter (\<lambda>t. at_sender t = StrongId ''alice'') (map snd (sto_active sample_store)) =
      [sample_active]"
    by (simp add: sample_store_eq sample_active_def sample_authorization_def)
  have found: "snapshot_find (mc_snapshot (sample_context 4)) (StrongId ''alice'') \<noteq> None"
    by (simp add: sample_context_def sample_membership_defs snapshot_find_def lower_bound_def)
  have "fst (updateMembership memory_repo (StrongId ''alice'') (sample_context 4) 60 (StrongId ''k'')
          Change_permissions_changed sample_store) =
     Inr [end_record Stop_permission_revoked 60 (StrongId ''k'') sample_active]"
    using exact [where ctx = "sample_context 4"] found unfolding mine old
    by (auto simp: change_reason_def sample_context_def sample_snapshot_def
        split: prod.splits sum.splits)
  moreover have "fst (updateMembership memory_repo (StrongId ''alice'') (sample_context 3) 60
          (StrongId ''k'') Change_permissions_changed sample_store) \<noteq> Inr []"
    using exact [where ctx = "sample_context 3"] unfolding mine old
    by (auto split: prod.splits sum.splits)
  ultimately show ?thesis ..
qed

theorem end_transmission_witness:
  "\<exists>s'. end_transmission (StrongId ''x-alice'') (StrongId ''session-alice'')
       (StrongId ''device-alice'') Stop_push_to_talk_released 70 (StrongId ''k'') sample_store =
       (Inr (end_record Stop_push_to_talk_released 70 (StrongId ''k'') sample_active), s') \<and>
     active s' (StrongId ''x-alice'') = None"
proof -
  have a: "active sample_store (StrongId ''x-alice'') = Some sample_active"
    by (simp add: active_def sample_store_eq)
  show ?thesis
    using end_transmission_exact [OF sample_reachable, where tid = "StrongId ''x-alice''"
        and sid = "StrongId ''session-alice''" and dev = "StrongId ''device-alice''"
        and reason = Stop_push_to_talk_released and now = 70 and corr = "StrongId ''k''"]
    unfolding a by (auto simp: sample_active_def)
qed

theorem expiry_witness:
  "fst (expireTimedOut 60000 (30 + ticks 60000) (StrongId ''k'') sample_store) =
     [end_record Stop_timed_out (30 + ticks 60000) (StrongId ''k'') sample_active] \<and>
   fst (expireTimedOut 60000 (29 + ticks 60000) (StrongId ''k'') sample_store) = []"
proof -
  have hit: "filter (timed_out 60000 (30 + ticks 60000)) (map snd (sto_active sample_store)) =
        [sample_active]"
    and miss: "filter (timed_out 60000 (29 + ticks 60000)) (map snd (sto_active sample_store)) = []"
    by (simp_all add: sample_store_eq sample_active_def timed_out_def)
  show ?thesis
    using expiry_exact [OF sample_reachable, where maximum = 60000 and now = "30 + ticks 60000"
        and corr = "StrongId ''k''" and corr' = "StrongId ''k''"]
      expiry_exact [OF sample_reachable, where maximum = 60000 and now = "29 + ticks 60000"
        and corr = "StrongId ''k''" and corr' = "StrongId ''k''"]
    unfolding hit miss by (auto split: prod.splits)
qed

theorem removed_session_witness:
  "active (snd (removeSession (StrongId ''session-alice'') 80 (StrongId ''k'') sample_store))
     (StrongId ''x-alice'') = None \<and>
   fst (activate memory_repo (sample_authorization ''alice'' 3) (StrongId ''session-alice'')
     (StrongId ''device-alice'') 90
     (snd (removeSession (StrongId ''session-alice'') 80 (StrongId ''k'') sample_store))) =
     Inl Act_session_changed"
proof -
  have a: "active sample_store (StrongId ''x-alice'') = Some sample_active"
    by (simp add: active_def sample_store_eq)
  show ?thesis
    using removed_session_is_silent [OF sample_reachable, where sid = "StrongId ''session-alice''"
        and now = 80 and corr = "StrongId ''k''" and au = "sample_authorization ''alice'' 3"
        and dev = "StrongId ''device-alice''" and later = 90] a
    by (auto simp: sample_active_def split: prod.splits)
qed

end
