(* ===== verification/Rate_Limiter.thy ===== *)
theory Rate_Limiter
  imports Control_Plane_Types
begin

text \<open>
  The rolling-window rate limiter (\<open>TransmissionRateLimit\<close> and
  \<open>InMemoryTransmissionRateLimiter\<close> of
  \<open>libs/application/src/in_memory_control_plane.cpp\<close>): one queue of accepted request times per
  player and action. The lemmas show that a queue is the accepted requests of the window, that no
  window ever holds more accepted requests than the limit, and that players and actions do not
  influence each other.
\<close>

section \<open>State and operations\<close>

record TransmissionRateLimit =
  rl_maximum_requests :: nat
  rl_window :: milliseconds

definition TransmissionRateLimit_ctor ::
  "nat \<Rightarrow> milliseconds \<Rightarrow> TransmissionRateLimit throws" where
  "TransmissionRateLimit_ctor maximum window =
     (if maximum = 0 \<or> window \<le> 0
      then Inl (InvalidArgument
        ''A transmission rate limit requires a positive request count and time window.'')
      else Inr \<lparr>rl_maximum_requests = maximum, rl_window = window\<rparr>)"

record RequestHistory =
  rh_starts :: "time_point list"
  rh_ends :: "time_point list"

record RateLimiter =
  li_start_limit :: TransmissionRateLimit
  li_end_limit :: TransmissionRateLimit
  li_histories :: "(PlayerId, RequestHistory) std_map"

definition RateLimiter_ctor :: "TransmissionRateLimit \<Rightarrow> TransmissionRateLimit \<Rightarrow> RateLimiter" where
  "RateLimiter_ctor start_limit end_limit =
     \<lparr>li_start_limit = start_limit, li_end_limit = end_limit, li_histories = []\<rparr>"

fun discardExpiredRequests :: "time_point list \<Rightarrow> time_point \<Rightarrow> milliseconds \<Rightarrow> time_point list" where
  "discardExpiredRequests [] now window = []"
| "discardExpiredRequests (r # rest) now window =
     (if r \<le> now - ticks window then discardExpiredRequests rest now window else r # rest)"

text \<open>\<open>histories_[player_id]\<close> creates an empty history for a player it has not seen.\<close>

definition history_of :: "RateLimiter \<Rightarrow> PlayerId \<Rightarrow> RequestHistory" where
  "history_of l player =
     (case map_of (li_histories l) player of
        Some h \<Rightarrow> h
      | None \<Rightarrow> \<lparr>rh_starts = [], rh_ends = []\<rparr>)"

fun requests_of :: "TransmissionRateLimitAction \<Rightarrow> RequestHistory \<Rightarrow> time_point list" where
  "requests_of Limit_start h = rh_starts h"
| "requests_of Limit_end h = rh_ends h"

fun set_requests ::
  "TransmissionRateLimitAction \<Rightarrow> time_point list \<Rightarrow> RequestHistory \<Rightarrow> RequestHistory" where
  "set_requests Limit_start rs h = h\<lparr>rh_starts := rs\<rparr>"
| "set_requests Limit_end rs h = h\<lparr>rh_ends := rs\<rparr>"

fun limit_of :: "TransmissionRateLimitAction \<Rightarrow> RateLimiter \<Rightarrow> TransmissionRateLimit" where
  "limit_of Limit_start l = li_start_limit l"
| "limit_of Limit_end l = li_end_limit l"

definition allow ::
  "PlayerId \<Rightarrow> TransmissionRateLimitAction \<Rightarrow> time_point \<Rightarrow> RateLimiter \<Rightarrow> bool \<times> RateLimiter" where
  "allow player action now l =
     (let history = history_of l player;
          limit = limit_of action l;
          requests = discardExpiredRequests (requests_of action history) now (rl_window limit)
      in if rl_maximum_requests limit \<le> length requests
         then (False, l\<lparr>li_histories :=
                 std_put player (set_requests action requests history) (li_histories l)\<rparr>)
         else (True, l\<lparr>li_histories :=
                 std_put player (set_requests action (requests @ [now]) history) (li_histories l)\<rparr>))"

section \<open>One queue\<close>

text \<open>What a call does to the queue it touches.\<close>

definition queue :: "RateLimiter \<Rightarrow> PlayerId \<Rightarrow> TransmissionRateLimitAction \<Rightarrow> time_point list" where
  "queue l player action = requests_of action (history_of l player)"

lemma requests_of_set [simp]:
  "requests_of a (set_requests b rs h) = (if a = b then rs else requests_of a h)"
  by (cases a; cases b) simp_all

lemma allow_queue:
  "queue (snd (allow player action now l)) player' action' =
     (if player' = player \<and> action' = action
      then (let kept = discardExpiredRequests (queue l player action) now
                         (rl_window (limit_of action l))
            in if fst (allow player action now l) then kept @ [now] else kept)
      else queue l player' action')"
  by (auto simp: allow_def queue_def history_of_def Let_def split: option.splits)

lemma allow_limits [simp]: "limit_of a (snd (allow player action now l)) = limit_of a l"
  by (cases a) (simp_all add: allow_def Let_def)

lemma allow_answer:
  "fst (allow player action now l) \<longleftrightarrow>
     length (discardExpiredRequests (queue l player action) now (rl_window (limit_of action l)))
       < rl_maximum_requests (limit_of action l)"
  by (auto simp: allow_def queue_def Let_def not_le)

lemma discard_filter:
  assumes "sorted rs"
  shows "discardExpiredRequests rs now w = filter (\<lambda>r. now - ticks w < r) rs"
  using assms
proof (induction rs)
  case (Cons r rs)
  show ?case
  proof (cases "r \<le> now - ticks w")
    case True
    then show ?thesis using Cons by simp
  next
    case False
    have "filter (\<lambda>r. now - ticks w < r) rs = rs"
      using Cons.prems False by (auto simp: filter_id_conv)
    with False show ?thesis by simp
  qed
qed simp

section \<open>Runs with a clock that does not go back\<close>

type_synonym limiter_call = "PlayerId \<times> TransmissionRateLimitAction \<times> time_point"

text \<open>The calls with their answers, oldest first, and the limiter they leave.\<close>

fun limiter_run :: "limiter_call list \<Rightarrow> RateLimiter \<Rightarrow> (limiter_call \<times> bool) list \<times> RateLimiter" where
  "limiter_run [] l = ([], l)"
| "limiter_run ((player, action, now) # calls) l =
     (let (answer, l') = allow player action now l;
          (answers, l'') = limiter_run calls l'
      in (((player, action, now), answer) # answers, l''))"

definition accepted_times ::
  "PlayerId \<Rightarrow> TransmissionRateLimitAction \<Rightarrow> (limiter_call \<times> bool) list \<Rightarrow> time_point list" where
  "accepted_times player action answers =
     map (\<lambda>c. snd (snd (fst c)))
       (filter (\<lambda>c. snd c \<and> fst (fst c) = player \<and> fst (snd (fst c)) = action) answers)"

definition in_window :: "time_point \<Rightarrow> milliseconds \<Rightarrow> time_point list \<Rightarrow> time_point list" where
  "in_window now w rs = filter (\<lambda>r. now - ticks w < r \<and> r \<le> now) rs"

lemma accepted_times_simps [simp]:
  "accepted_times p a [] = []"
  "accepted_times p a (xs @ ys) = accepted_times p a xs @ accepted_times p a ys"
  "accepted_times p a [((p', a', t), b)] = (if b \<and> p' = p \<and> a' = a then [t] else [])"
  by (simp_all add: accepted_times_def)

lemma limiter_run_snoc:
  "limiter_run (calls @ [(p, a, t)]) l =
     (let (answers, l') = limiter_run calls l; (b, l'') = allow p a t l'
      in (answers @ [((p, a, t), b)], l''))"
  by (induction calls l rule: limiter_run.induct) (auto simp: Let_def split: prod.splits)

text \<open>
  With call times that never decrease, a queue is the accepted requests that are younger than the
  window at the time of the last call that touched it: older ones were dropped for good.
\<close>

definition queue_ok ::
  "time_point list \<Rightarrow> time_point list \<Rightarrow> milliseconds \<Rightarrow> time_point \<Rightarrow> bool" where
  "queue_ok q accepted w now \<longleftrightarrow>
     sorted accepted \<and> (\<forall>t \<in> set accepted. t \<le> now) \<and>
     (\<exists>old. accepted = old @ q \<and> (\<forall>t \<in> set old. t \<le> now - ticks w))"

lemma sorted_filter_split:
  fixes b :: int
  assumes "sorted xs"
  shows "xs = filter (\<lambda>r. r \<le> b) xs @ filter (\<lambda>r. b < r) xs"
  using assms
proof (induction xs)
  case (Cons x xs)
  show ?case
  proof (cases "x \<le> b")
    case False
    then have "filter (\<lambda>r. r \<le> b) xs = []" "filter (\<lambda>r. b < r) xs = xs"
      using Cons.prems by (auto simp: filter_empty_conv filter_id_conv)
    then show ?thesis using False by simp
  qed (use Cons in simp)
qed simp

lemma queue_ok_later: "queue_ok q acc w now \<Longrightarrow> now \<le> now' \<Longrightarrow> queue_ok q acc w now'"
  unfolding queue_ok_def by force

lemma queue_ok_discard:
  assumes "queue_ok q acc w now"
  shows "queue_ok (discardExpiredRequests q now w) acc w now \<and>
         discardExpiredRequests q now w = in_window now w acc"
proof -
  obtain old where old: "acc = old @ q" "\<forall>t \<in> set old. t \<le> now - ticks w"
    and acc: "sorted acc" "\<forall>t \<in> set acc. t \<le> now"
    using assms by (auto simp: queue_ok_def)
  have q: "sorted q" using acc(1) old(1) by (simp add: sorted_append)
  have disc: "discardExpiredRequests q now w = filter (\<lambda>r. now - ticks w < r) q"
    using q by (rule discard_filter)
  have split: "q = filter (\<lambda>r. r \<le> now - ticks w) q @ filter (\<lambda>r. now - ticks w < r) q"
    using q by (rule sorted_filter_split)
  have "filter (\<lambda>r. now - ticks w < r \<and> r \<le> now) old = []"
    using old(2) by (auto simp: filter_empty_conv)
  moreover have "filter (\<lambda>r. now - ticks w < r \<and> r \<le> now) q = filter (\<lambda>r. now - ticks w < r) q"
    using old(1) acc(2) by (intro filter_cong) auto
  ultimately have "in_window now w acc = filter (\<lambda>r. now - ticks w < r) q"
    by (simp add: in_window_def old(1))
  moreover have "queue_ok (filter (\<lambda>r. now - ticks w < r) q) acc w now"
  proof -
    have "acc = (old @ filter (\<lambda>r. r \<le> now - ticks w) q) @ filter (\<lambda>r. now - ticks w < r) q"
      using old(1) split by simp
    moreover have "\<forall>t \<in> set (old @ filter (\<lambda>r. r \<le> now - ticks w) q). t \<le> now - ticks w"
      using old(2) by auto
    ultimately show ?thesis using acc unfolding queue_ok_def by blast
  qed
  ultimately show ?thesis by (simp add: disc)
qed

definition window_bounded :: "time_point list \<Rightarrow> milliseconds \<Rightarrow> nat \<Rightarrow> bool" where
  "window_bounded acc w n \<longleftrightarrow> (\<forall>t. length (in_window t w acc) \<le> n)"

lemma in_window_snoc:
  "in_window t w (acc @ [now]) =
     in_window t w acc @ (if t - ticks w < now \<and> now \<le> t then [now] else [])"
  by (simp add: in_window_def)

lemma in_window_later:
  assumes "\<forall>r \<in> set acc. r \<le> now" and "now \<le> t"
  shows "length (in_window t w acc) \<le> length (in_window now w acc)"
proof -
  have "in_window t w acc = filter (\<lambda>r. t - ticks w < r \<and> r \<le> t) (in_window now w acc)"
    using assms by (auto simp: in_window_def intro!: filter_cong)
  then show ?thesis by (metis length_filter_le)
qed

lemma window_bounded_snoc:
  assumes "window_bounded acc w n" and "\<forall>r \<in> set acc. r \<le> now"
    and "length (in_window now w acc) < n"
  shows "window_bounded (acc @ [now]) w n"
  unfolding window_bounded_def
proof
  fix t
  show "length (in_window t w (acc @ [now])) \<le> n"
  proof (cases "now \<le> t")
    case True
    then show ?thesis
      using in_window_later [OF assms(2) True, of w] assms(3) by (simp add: in_window_snoc)
  next
    case False
    then show ?thesis using assms(1) by (simp add: in_window_snoc window_bounded_def)
  qed
qed

definition limiter_inv :: "RateLimiter \<Rightarrow> (limiter_call \<times> bool) list \<Rightarrow> time_point \<Rightarrow> bool" where
  "limiter_inv l answers now \<longleftrightarrow>
     (\<forall>p a. queue_ok (queue l p a) (accepted_times p a answers) (rl_window (limit_of a l)) now \<and>
        window_bounded (accepted_times p a answers) (rl_window (limit_of a l))
          (rl_maximum_requests (limit_of a l)))"

lemma limiter_invD:
  assumes "limiter_inv l answers t" and "t \<le> now"
  shows "queue_ok (queue l p a) (accepted_times p a answers) (rl_window (limit_of a l)) now"
    and "window_bounded (accepted_times p a answers) (rl_window (limit_of a l))
          (rl_maximum_requests (limit_of a l))"
  using assms queue_ok_later unfolding limiter_inv_def by blast+

lemma limiter_answer:
  assumes "limiter_inv l answers t" and "t \<le> now"
  shows "fst (allow p a now l) \<longleftrightarrow>
     length (in_window now (rl_window (limit_of a l)) (accepted_times p a answers))
       < rl_maximum_requests (limit_of a l)"
proof -
  have "queue_ok (queue l p a) (accepted_times p a answers) (rl_window (limit_of a l)) now"
    using assms by (rule limiter_invD)
  from queue_ok_discard [OF this] show ?thesis by (simp add: allow_answer)
qed

lemma limiter_inv_allow:
  assumes inv: "limiter_inv l answers t" and later: "t \<le> now"
    and step: "allow p a now l = (b, l')"
  shows "limiter_inv l' (answers @ [((p, a, now), b)]) now"
  unfolding limiter_inv_def
proof (intro allI)
  fix p' a'
  let ?w = "rl_window (limit_of a' l)" and ?n = "rl_maximum_requests (limit_of a' l)"
  let ?acc = "accepted_times p' a' answers"
  have limit: "limit_of x l' = limit_of x l" for x
    using allow_limits [of x p a now l] by (simp add: step)
  have ok: "queue_ok (queue l p' a') ?acc ?w now" and bound: "window_bounded ?acc ?w ?n"
    using limiter_invD [OF inv later] by blast+
  have before: "\<forall>r \<in> set ?acc. r \<le> now" using ok by (simp add: queue_ok_def)
  have queue: "queue l' p' a' =
      (if p' = p \<and> a' = a
       then discardExpiredRequests (queue l p a) now (rl_window (limit_of a l)) @
              (if b then [now] else [])
       else queue l p' a')"
    using allow_queue [of p a now l p' a'] by (simp add: step Let_def)
  show "queue_ok (queue l' p' a') (accepted_times p' a' (answers @ [((p, a, now), b)]))
          (rl_window (limit_of a' l')) now \<and>
        window_bounded (accepted_times p' a' (answers @ [((p, a, now), b)]))
          (rl_window (limit_of a' l')) (rl_maximum_requests (limit_of a' l'))"
  proof (cases "p' = p \<and> a' = a")
    case True
    note kept = queue_ok_discard [OF ok]
    have "queue_ok (discardExpiredRequests (queue l p' a') now ?w @ [now]) (?acc @ [now]) ?w now"
      using conjunct1 [OF kept] by (auto simp: queue_ok_def sorted_append)
    moreover have "window_bounded (?acc @ [now]) ?w ?n" if b
      using limiter_answer [OF inv later, of p a] that True step
      by (intro window_bounded_snoc [OF bound before]) simp
    ultimately show ?thesis
      using True queue kept bound by (auto simp: limit)
  next
    case False
    then show ?thesis using queue ok bound by (auto simp: limit)
  qed
qed

definition call_times :: "limiter_call list \<Rightarrow> time_point list" where
  "call_times calls = map (\<lambda>c. snd (snd c)) calls"

lemma limiter_inv_run:
  assumes "sorted (call_times calls)" and "limiter_run calls (RateLimiter_ctor ls le) = (answers, l)"
    and "\<forall>t \<in> set (call_times calls). t \<le> now"
  shows "limiter_inv l answers now"
  using assms
proof (induction calls arbitrary: answers l now rule: rev_induct)
  case Nil
  then show ?case
    by (auto simp: limiter_inv_def queue_ok_def window_bounded_def in_window_def queue_def
        history_of_def RateLimiter_ctor_def) (metis requests_of.simps RequestHistory.select_convs
          TransmissionRateLimitAction.exhaust)
next
  case (snoc c calls)
  obtain p a t where c: "c = (p, a, t)" by (cases c) auto
  obtain answers' l' where run: "limiter_run calls (RateLimiter_ctor ls le) = (answers', l')"
    by fastforce
  obtain b l'' where step: "allow p a t l' = (b, l'')" by fastforce
  have sorted: "sorted (call_times calls)" and before: "\<forall>t' \<in> set (call_times calls). t' \<le> t"
    and now: "t \<le> now"
    using snoc.prems(1,3) by (auto simp: call_times_def c sorted_append)
  have "limiter_inv l' answers' t" using sorted run before by (rule snoc.IH)
  then have "limiter_inv l'' (answers' @ [((p, a, t), b)]) t"
    using step by (intro limiter_inv_allow) auto
  moreover have "answers = answers' @ [((p, a, t), b)]" "l = l''"
    using snoc.prems(2) by (simp_all add: c limiter_run_snoc run step Let_def)
  ultimately show ?case using now queue_ok_later unfolding limiter_inv_def by blast
qed

lemma limiter_run_limits:
  "limiter_run calls l = (answers, l') \<Longrightarrow> limit_of a l' = limit_of a l"
proof (induction calls l arbitrary: answers l' rule: limiter_run.induct)
  case (2 p a' t calls l)
  obtain b m where step: "allow p a' t l = (b, m)" by fastforce
  have "limit_of a m = limit_of a l" using allow_limits [of a p a' t l] by (simp add: step)
  with "2.prems" "2.IH" [OF step [symmetric] refl] step show ?case
    by (auto simp: Let_def split: prod.splits)
qed simp

text \<open>
  C39: the rate limit. When call times never decrease, a request is allowed exactly when fewer than
  the limit of the same player's requests of the same kind were allowed within the window that
  ends now; and no window of that length, wherever it lies, ever holds more than the limit.
\<close>

theorem rate_limit_exact:
  assumes "limiter_run calls (RateLimiter_ctor start_limit end_limit) = (answers, l)"
    and "sorted (call_times (calls @ [(p, a, now)]))"
  shows "(fst (allow p a now l) \<longleftrightarrow>
            length (in_window now (rl_window (limit_of a (RateLimiter_ctor start_limit end_limit)))
                      (accepted_times p a answers))
              < rl_maximum_requests (limit_of a (RateLimiter_ctor start_limit end_limit))) \<and>
         length (in_window t (rl_window (limit_of a (RateLimiter_ctor start_limit end_limit)))
                   (accepted_times p a answers))
           \<le> rl_maximum_requests (limit_of a (RateLimiter_ctor start_limit end_limit))"
proof -
  have sorted: "sorted (call_times calls)" "\<forall>t \<in> set (call_times calls). t \<le> now"
    using assms(2) by (auto simp: call_times_def sorted_append)
  have inv: "limiter_inv l answers now"
    using limiter_inv_run [OF sorted(1) assms(1) sorted(2)] .
  note limit = limiter_run_limits [OF assms(1), of a]
  show ?thesis
    using limiter_answer [OF inv order_refl, of p a] limiter_invD(2) [OF inv order_refl, of p a]
    unfolding limit window_bounded_def by blast
qed

theorem rate_limit_witness:
  "(let limit = \<lparr>rl_maximum_requests = 2, rl_window = 1\<rparr>;
        (answers, l) = limiter_run
          [(StrongId ''a'', Limit_start, 0), (StrongId ''a'', Limit_start, 10),
           (StrongId ''a'', Limit_start, 20), (StrongId ''b'', Limit_start, 30)]
          (RateLimiter_ctor limit limit)
    in map snd answers = [True, True, False, True] \<and>
       fst (allow (StrongId ''a'') Limit_start 1000000 l) \<and>
       length (in_window 500 1 (accepted_times (StrongId ''a'') Limit_start answers)) \<le> 2)"
proof -
  let ?limit = "\<lparr>rl_maximum_requests = 2, rl_window = 1\<rparr>"
  let ?calls = "[(StrongId ''a'', Limit_start, 0), (StrongId ''a'', Limit_start, 10),
           (StrongId ''a'', Limit_start, 20), (StrongId ''b'', Limit_start, 30)]"
  obtain answers l where run: "limiter_run ?calls (RateLimiter_ctor ?limit ?limit) = (answers, l)"
    by fastforce
  have answers: "answers = zip ?calls [True, True, False, True]"
    using run by (simp add: RateLimiter_ctor_def allow_def history_of_def ticks_def Let_def)
  have "sorted (call_times (?calls @ [(StrongId ''a'', Limit_start, 1000000)]))"
    by (simp add: call_times_def)
  from rate_limit_exact [OF run this, of 500] show ?thesis
    by (simp only: Let_def run prod.case)
      (simp add: answers RateLimiter_ctor_def accepted_times_def in_window_def ticks_def)
qed

end
