(* ===== verification/Publication_Control.thy ===== *)
theory Publication_Control
  imports Store_Properties
begin

text \<open>
  Coupling of the voice service's publication permission to the active transmissions
  (\<open>LiveKitPublicationController\<close> of \<open>libs/livekit/src/livekit_token.cpp\<close>, called by the store
  through \<open>ITransmissionLifecycleObserver\<close>). The RoomService client is a parameter: what it
  answers to an update, and whether the update takes effect in the room, are functions of the updates
  it has received. The two are independent: an update may take effect although the client reports a
  failure, for instance when the answer does not arrive in time. The first part proves that
  permissions follow the active set when every operation runs with its notifications, up to the
  grants that took effect unconfirmed, and exhibits such a grant; the second part
  lets notifications run after the mutex is released, as the code does, and shows what is lost.
\<close>

section \<open>The controller\<close>

datatype RoomServiceResponse = Confirmed | Refused | Threw

record PublicationUpdate =
  pu_room :: string
  pu_identity :: string
  pu_can_publish :: bool
  pu_can_subscribe :: bool

text \<open>
  An entry of the log is an update, the response the controller gets, and whether the permission in
  the room was replaced. The controller sees the response only.
\<close>

type_synonym room_log = "(PublicationUpdate \<times> RoomServiceResponse \<times> bool) list"
type_synonym room_service = "room_log \<Rightarrow> PublicationUpdate \<Rightarrow> RoomServiceResponse \<times> bool"

record LiveKitPublicationController =
  lp_log :: room_log
  lp_failure_count :: u64

definition LiveKitPublicationController_ctor :: LiveKitPublicationController where
  "LiveKitPublicationController_ctor = \<lparr>lp_log = [], lp_failure_count = 0\<rparr>"

definition publicationRoom :: "ActiveTransmission \<Rightarrow> string" where
  "publicationRoom t =
     (case at_scope t of
        Team_scope \<Rightarrow> ''team:'' @ at_scope_node_id t
      | Specialization_scope \<Rightarrow> ''specialization:'' @ at_scope_node_id t
      | Group_scope \<Rightarrow> ''group:'' @ at_scope_node_id t)"

definition lk_update ::
  "room_service \<Rightarrow> ActiveTransmission \<Rightarrow> bool \<Rightarrow> LiveKitPublicationController \<Rightarrow>
   RoomServiceResponse \<times> LiveKitPublicationController" where
  "lk_update serve t can_publish c =
     (let u = \<lparr>pu_room = publicationRoom t, pu_identity = id_value (at_sender t),
               pu_can_publish = can_publish, pu_can_subscribe = at_scope_can_subscribe t\<rparr>;
          (r, applied) = serve (lp_log c) u
      in (r, c\<lparr>lp_log := lp_log c @ [(u, r, applied)]\<rparr>))"

definition lk_onStarted ::
  "room_service \<Rightarrow> ActiveTransmission \<Rightarrow> LiveKitPublicationController \<Rightarrow>
   bool \<times> LiveKitPublicationController" where
  "lk_onStarted serve t c =
     (case lk_update serve t True c of
        (Confirmed, c') \<Rightarrow> (True, c')
      | (Refused, c') \<Rightarrow> (False, c'\<lparr>lp_failure_count := lp_failure_count c' + 1\<rparr>)
      | (Threw, c') \<Rightarrow> (False, c'\<lparr>lp_failure_count := lp_failure_count c' + 1\<rparr>))"

definition lk_onEnded ::
  "room_service \<Rightarrow> EndedTransmission \<Rightarrow> LiveKitPublicationController \<Rightarrow>
   LiveKitPublicationController" where
  "lk_onEnded serve e c =
     (case lk_update serve (et_transmission e) False c of
        (Confirmed, c') \<Rightarrow> c'
      | (Refused, c') \<Rightarrow> c'\<lparr>lp_failure_count := lp_failure_count c' + 1\<rparr>
      | (Threw, c') \<Rightarrow> c'\<lparr>lp_failure_count := lp_failure_count c' + 1\<rparr>)"

definition lk_call ::
  "room_service \<Rightarrow> LifecycleCall \<Rightarrow> LiveKitPublicationController \<Rightarrow>
   LiveKitPublicationController" where
  "lk_call serve call c =
     (case call of
        Call_onStarted t ok \<Rightarrow> snd (lk_onStarted serve t c)
      | Call_onEnded e \<Rightarrow> lk_onEnded serve e c)"

definition controller_after ::
  "room_service \<Rightarrow> LifecycleCall list \<Rightarrow> LiveKitPublicationController" where
  "controller_after serve calls = fold (lk_call serve) calls LiveKitPublicationController_ctor"

text \<open>The observer that the store is constructed with when LiveKit is configured.\<close>

definition livekit_observer ::
  "room_service \<Rightarrow> LifecycleCall list \<Rightarrow> ActiveTransmission \<Rightarrow> bool" where
  "livekit_observer serve calls t = fst (lk_onStarted serve t (controller_after serve calls))"

section \<open>Permissions\<close>

text \<open>An update that takes effect replaces the participant's permission in the room.\<close>

fun apply_update ::
  "PublicationUpdate \<times> RoomServiceResponse \<times> bool \<Rightarrow> (string \<times> string \<Rightarrow> bool) \<Rightarrow>
   (string \<times> string \<Rightarrow> bool)" where
  "apply_update (u, r, applied) P =
     (if applied then P((pu_room u, pu_identity u) := pu_can_publish u) else P)"

definition may_publish :: "room_log \<Rightarrow> string \<Rightarrow> string \<Rightarrow> bool" where
  "may_publish log room identity = fold apply_update log (\<lambda>_. False) (room, identity)"

abbreviation publishes ::
  "room_service \<Rightarrow> LifecycleCall list \<Rightarrow> string \<Rightarrow> string \<Rightarrow> bool" where
  "publishes serve calls \<equiv> may_publish (lp_log (controller_after serve calls))"

text \<open>
  A grant is left over when it is the last update that took effect for the participant in the room
  and the controller was not told that it did.
\<close>

definition effective_updates :: "room_log \<Rightarrow> string \<Rightarrow> string \<Rightarrow> room_log" where
  "effective_updates log room identity =
     filter (\<lambda>(u, r, applied). applied \<and> pu_room u = room \<and> pu_identity u = identity) log"

definition grant_left_over :: "room_log \<Rightarrow> string \<Rightarrow> string \<Rightarrow> bool" where
  "grant_left_over log room identity =
     (let es = effective_updates log room identity
      in es \<noteq> [] \<and> (case last es of (u, r, applied) \<Rightarrow> pu_can_publish u \<and> r \<noteq> Confirmed))"

abbreviation leftover ::
  "room_service \<Rightarrow> LifecycleCall list \<Rightarrow> string \<Rightarrow> string \<Rightarrow> bool" where
  "leftover serve calls \<equiv> grant_left_over (lp_log (controller_after serve calls))"

lemma grant_left_over_snoc:
  "grant_left_over (log @ [(u, r, applied)]) room identity \<longleftrightarrow>
     (if applied \<and> pu_room u = room \<and> pu_identity u = identity
      then pu_can_publish u \<and> r \<noteq> Confirmed else grant_left_over log room identity)"
  by (simp add: grant_left_over_def effective_updates_def Let_def)

lemma may_publish_snoc:
  "may_publish (log @ [(u, r, applied)]) room identity \<longleftrightarrow>
     (if applied \<and> pu_room u = room \<and> pu_identity u = identity
      then pu_can_publish u else may_publish log room identity)"
  by (auto simp: may_publish_def)

text \<open>The documented contract: the client answers \<open>true\<close> only after the update is confirmed.\<close>

definition confirmations_hold :: "room_service \<Rightarrow> bool" where
  "confirmations_hold serve \<longleftrightarrow> (\<forall>log u. fst (serve log u) = Confirmed \<longrightarrow> snd (serve log u))"

definition revocations_confirmed :: "room_service \<Rightarrow> bool" where
  "revocations_confirmed serve \<longleftrightarrow>
     (\<forall>log u. \<not> pu_can_publish u \<longrightarrow> fst (serve log u) = Confirmed)"

abbreviation plays :: "ActiveTransmission \<Rightarrow> string \<Rightarrow> string \<Rightarrow> bool" where
  "plays t room identity \<equiv> publicationRoom t = room \<and> id_value (at_sender t) = identity"

lemma publishes_Nil: "\<not> publishes serve [] room identity" "\<not> leftover serve [] room identity"
  by (simp_all add: controller_after_def LiveKitPublicationController_ctor_def may_publish_def
      grant_left_over_def effective_updates_def)

lemma controller_snoc:
  "lp_log (controller_after serve (calls @ [call])) =
     (let log = lp_log (controller_after serve calls);
          u = (case call of
                 Call_onStarted t ok \<Rightarrow>
                   \<lparr>pu_room = publicationRoom t, pu_identity = id_value (at_sender t),
                    pu_can_publish = True, pu_can_subscribe = at_scope_can_subscribe t\<rparr>
               | Call_onEnded e \<Rightarrow> let t = et_transmission e in
                   \<lparr>pu_room = publicationRoom t, pu_identity = id_value (at_sender t),
                    pu_can_publish = False, pu_can_subscribe = at_scope_can_subscribe t\<rparr>)
      in log @ [(u, serve log u)])"
  by (auto simp: controller_after_def lk_call_def lk_onStarted_def lk_onEnded_def lk_update_def
      Let_def split: LifecycleCall.splits prod.splits RoomServiceResponse.splits)

lemma observer_confirmed:
  "livekit_observer serve calls t \<longleftrightarrow>
     fst (serve (lp_log (controller_after serve calls))
       \<lparr>pu_room = publicationRoom t, pu_identity = id_value (at_sender t),
        pu_can_publish = True, pu_can_subscribe = at_scope_can_subscribe t\<rparr>) = Confirmed"
  by (auto simp: livekit_observer_def lk_onStarted_def lk_update_def Let_def
      split: prod.splits RoomServiceResponse.splits)

text \<open>A refused start leaves either nothing or a grant that took effect unconfirmed.\<close>

lemma publishes_refused:
  assumes "\<not> livekit_observer serve calls t"
  shows "\<exists>applied. \<forall>room identity.
    (publishes serve (calls @ [Call_onStarted t ok]) room identity \<longleftrightarrow>
       applied \<and> plays t room identity \<or> publishes serve calls room identity) \<and>
    (leftover serve (calls @ [Call_onStarted t ok]) room identity \<longleftrightarrow>
       applied \<and> plays t room identity \<or> leftover serve calls room identity)"
proof -
  obtain r applied where answer: "serve (lp_log (controller_after serve calls))
      \<lparr>pu_room = publicationRoom t, pu_identity = id_value (at_sender t),
       pu_can_publish = True, pu_can_subscribe = at_scope_can_subscribe t\<rparr> = (r, applied)"
    by fastforce
  with assms have "r \<noteq> Confirmed" by (simp add: observer_confirmed)
  with answer show ?thesis
    by (intro exI [of _ applied])
      (auto simp: controller_snoc may_publish_snoc grant_left_over_snoc Let_def)
qed

lemma publishes_admitted:
  assumes "confirmations_hold serve" and "livekit_observer serve calls t"
  shows "publishes serve (calls @ [Call_onStarted t ok]) room identity \<longleftrightarrow>
      plays t room identity \<or> publishes serve calls room identity"
    and "leftover serve (calls @ [Call_onStarted t ok]) room identity \<longleftrightarrow>
      \<not> plays t room identity \<and> leftover serve calls room identity"
proof -
  have answer: "serve (lp_log (controller_after serve calls))
      \<lparr>pu_room = publicationRoom t, pu_identity = id_value (at_sender t),
       pu_can_publish = True, pu_can_subscribe = at_scope_can_subscribe t\<rparr> = (Confirmed, True)"
    using assms unfolding confirmations_hold_def observer_confirmed by (metis prod.collapse)
  then show "publishes serve (calls @ [Call_onStarted t ok]) room identity \<longleftrightarrow>
      plays t room identity \<or> publishes serve calls room identity"
    and "leftover serve (calls @ [Call_onStarted t ok]) room identity \<longleftrightarrow>
      \<not> plays t room identity \<and> leftover serve calls room identity"
    by (auto simp: controller_snoc may_publish_snoc grant_left_over_snoc Let_def)
qed

lemma publishes_ended1:
  assumes "confirmations_hold serve" and "revocations_confirmed serve"
  shows "publishes serve (calls @ [Call_onEnded e]) room identity \<longleftrightarrow>
      publishes serve calls room identity \<and> \<not> plays (et_transmission e) room identity"
    and "leftover serve (calls @ [Call_onEnded e]) room identity \<longleftrightarrow>
      leftover serve calls room identity \<and> \<not> plays (et_transmission e) room identity"
proof -
  have "serve log \<lparr>pu_room = r, pu_identity = i, pu_can_publish = False, pu_can_subscribe = b\<rparr> =
      (Confirmed, True)" for log r i b
    using assms unfolding confirmations_hold_def revocations_confirmed_def
    by (metis PublicationUpdate.select_convs(3) prod.collapse)
  then show "publishes serve (calls @ [Call_onEnded e]) room identity \<longleftrightarrow>
      publishes serve calls room identity \<and> \<not> plays (et_transmission e) room identity"
    and "leftover serve (calls @ [Call_onEnded e]) room identity \<longleftrightarrow>
      leftover serve calls room identity \<and> \<not> plays (et_transmission e) room identity"
    by (auto simp: controller_snoc may_publish_snoc grant_left_over_snoc Let_def)
qed

lemma publishes_ended:
  assumes "confirmations_hold serve" and "revocations_confirmed serve"
  shows "publishes serve (calls @ map Call_onEnded es) room identity \<longleftrightarrow>
      publishes serve calls room identity \<and>
      (\<forall>t \<in> et_transmission ` set es. \<not> plays t room identity)"
    and "leftover serve (calls @ map Call_onEnded es) room identity \<longleftrightarrow>
      leftover serve calls room identity \<and>
      (\<forall>t \<in> et_transmission ` set es. \<not> plays t room identity)"
proof (induction es rule: rev_induct)
  case (snoc e es)
  have calls: "calls @ map Call_onEnded (es @ [e]) =
      (calls @ map Call_onEnded es) @ [Call_onEnded e]" by simp
  { case 1 show ?case unfolding calls publishes_ended1(1) [OF assms] snoc.IH(1) by auto }
  { case 2 show ?case unfolding calls publishes_ended1(2) [OF assms] snoc.IH(2) by auto }
qed simp_all

definition permissions_match :: "room_service \<Rightarrow> 'm Store \<Rightarrow> bool" where
  "permissions_match serve s \<longleftrightarrow>
     (\<forall>room identity. publishes serve (sto_calls s) room identity \<longleftrightarrow>
        (\<exists>e \<in> set (sto_active s). plays (snd e) room identity) \<or>
        leftover serve (sto_calls s) room identity)"

lemma permissions_match_step:
  assumes inv: "store_inv repo ok s" and obs: "sto_observer s = Some (livekit_observer serve)"
    and rev: "confirmations_hold serve" "revocations_confirmed serve"
    and match: "permissions_match serve s"
  shows "permissions_match serve (store_step repo oper s)"
  using store_step_calls [OF inv obs, of oper]
proof (elim conjE disjE exE)
  fix P r n c
  assume act: "sto_active (store_step repo oper s) = filter (\<lambda>e. \<not> P (snd e)) (sto_active s)"
    and calls: "sto_calls (store_step repo oper s) =
      sto_calls s @ map Call_onEnded (stopped_by P r n c s)"
  have unique: "e = e'"
    if "e \<in> set (sto_active s)" "e' \<in> set (sto_active s)"
      "id_value (at_sender (snd e)) = id_value (at_sender (snd e'))" for e e'
    using inv that unfolding store_inv_def by (metis StrongId.expand)
  have "(publishes serve (sto_calls s) room identity \<and>
      (\<forall>t \<in> {t \<in> snd ` set (sto_active s). P t}. \<not> plays t room identity)) \<longleftrightarrow>
      (\<exists>e \<in> set (filter (\<lambda>e. \<not> P (snd e)) (sto_active s)). plays (snd e) room identity) \<or>
      (leftover serve (sto_calls s) room identity \<and>
       (\<forall>t \<in> {t \<in> snd ` set (sto_active s). P t}. \<not> plays t room identity))"
      (is "?l \<longleftrightarrow> ?r \<or> ?m") for room identity
  proof
    assume l: ?l
    show "?r \<or> ?m"
    proof (cases "leftover serve (sto_calls s) room identity")
      case False
      with l obtain e where "e \<in> set (sto_active s)" "plays (snd e) room identity" "\<not> P (snd e)"
        using match unfolding permissions_match_def by blast
      then have ?r by (intro bexI [of _ e]) simp_all
      then show ?thesis ..
    qed (use l in simp)
  next
    assume "?r \<or> ?m"
    then show ?l
    proof
      assume ?r
      then obtain e where e: "e \<in> set (sto_active s)" "plays (snd e) room identity" "\<not> P (snd e)"
        by auto
      have "\<not> P (snd e')" if "e' \<in> set (sto_active s)" "plays (snd e') room identity" for e'
        using unique [OF e(1) that(1)] e that(2) by simp
      with e match show ?l unfolding permissions_match_def by blast
    next
      assume ?m
      with match show ?l unfolding permissions_match_def by blast
    qed
  qed
  then show ?thesis
    unfolding permissions_match_def calls act publishes_ended(1) [OF rev]
      publishes_ended(2) [OF rev] set_stopped_by by blast
next
  fix t
  assume refused: "\<not> livekit_observer serve (sto_calls s) t"
    and act: "sto_active (store_step repo oper s) = sto_active s"
    and calls: "sto_calls (store_step repo oper s) = sto_calls s @ [Call_onStarted t False]"
  show ?thesis
    using publishes_refused [OF refused, of False] match
    unfolding permissions_match_def calls act by blast
next
  fix au sid dev now ctx sender sd
  let ?t = "new_transmission ctx sender au sid dev now"
  assume may: "may_activate repo au sid dev now s ctx sender sd"
    and answer: "livekit_observer serve (sto_calls s) ?t"
    and step: "store_step repo oper s = admit ?t s"
  have std: "std_ok (sto_active s)" using inv by (simp add: store_inv_def)
  have "au_transmission_id au \<notin> fst ` set (sto_active s)" using may by (simp add: may_activate_def)
  then have set: "set (sto_active (admit ?t s)) =
      insert (au_transmission_id au, ?t) (set (sto_active s))"
    using std by (force simp: admit_def set_std_put)
  have calls: "sto_calls (admit ?t s) = sto_calls s @ [Call_onStarted ?t True]"
    using obs by (simp add: admit_def)
  show ?thesis
    unfolding permissions_match_def step calls set publishes_admitted(1) [OF rev(1) answer]
      publishes_admitted(2) [OF rev(1) answer]
    using match unfolding permissions_match_def by auto
qed

lemma permissions_match_reachable:
  assumes laws: "membership_repo_laws repo ok" and fresh: "fresh_store_ok ok mem"
    and rev: "confirmations_hold serve" "revocations_confirmed serve"
    and reach: "store_reachable repo start s"
    and start: "start = Store_ctor audit (Some (livekit_observer serve)) sess mem"
  shows "permissions_match serve s \<and> sto_observer s = Some (livekit_observer serve)"
  using reach start
proof (induction rule: store_reachable.induct)
  case reach_start
  then show ?case by (simp add: permissions_match_def Store_ctor_def publishes_Nil)
next
  case (reach_step s oper)
  have "store_inv repo ok s"
    using laws fresh reach_step.hyps unfolding reach_step.prems by (rule reachable_inv)
  with reach_step show ?case
    using permissions_match_step [OF _ _ rev] store_step_calls by blast
qed

text \<open>
  C5: when every operation runs together with its notifications, a confirmed RoomService update
  takes effect and every revocation is confirmed, a participant may publish in a room exactly while
  the store holds an active transmission of that player for that room, or the last update that took
  effect for the participant in that room is a grant whose confirmation the controller did not get. An
  update that is refused or throws may or may not have taken effect: nothing is assumed of it.
\<close>

theorem publication_follows_active:
  assumes "membership_repo_laws repo ok" and "fresh_store_ok ok mem"
    and "confirmations_hold serve" and "revocations_confirmed serve"
    and "store_reachable repo (Store_ctor audit (Some (livekit_observer serve)) sess mem) s"
  shows "publishes serve (sto_calls s) room identity \<longleftrightarrow>
     (\<exists>tid t. active s tid = Some t \<and> publicationRoom t = room \<and>
        id_value (at_sender t) = identity) \<or>
     leftover serve (sto_calls s) room identity"
proof -
  have match: "permissions_match serve s"
    using permissions_match_reachable [OF assms refl] by simp
  have "std_ok (sto_active s)"
    using reachable_inv [OF assms(1,2,5)] by (simp add: store_inv_def)
  then have "(\<exists>e \<in> set (sto_active s). plays (snd e) room identity) \<longleftrightarrow>
      (\<exists>tid t. active s tid = Some t \<and> plays t room identity)"
    by (simp add: active_def std_ok_map_of_iff) force
  with match show ?thesis unfolding permissions_match_def by blast
qed

section \<open>Notifications after the mutex is released\<close>

text \<open>
  \<open>removeSession\<close>, \<open>updateMembership\<close>, \<open>removeMembership\<close> and \<open>expireTimedOut\<close> release the
  mutex before they notify the observer. A thread between the two holds the transmissions it has
  still to announce; other threads run in the meantime.
\<close>

record 'm ConcurrentStore =
  co_store :: "'m Store"
  co_pending :: "EndedTransmission list list"

inductive interleaved ::
  "'m membership_repo \<Rightarrow> 'm ConcurrentStore \<Rightarrow> 'm ConcurrentStore \<Rightarrow> bool"
  for repo :: "'m membership_repo" where
  whole: "interleaved repo c (c\<lparr>co_store := store_step repo oper (co_store c)\<rparr>)"
| locked_remove_session:
    "removeSession_locked sid now corr (co_store c) = (es, s) \<Longrightarrow>
     interleaved repo c (c\<lparr>co_store := s, co_pending := co_pending c @ [es]\<rparr>)"
| locked_update_membership:
    "updateMembership_locked repo p ctx now corr change (co_store c) = (Inr es, s) \<Longrightarrow>
     interleaved repo c (c\<lparr>co_store := s, co_pending := co_pending c @ [es]\<rparr>)"
| locked_remove_membership:
    "removeMembership_locked repo p now corr (co_store c) = (es, s) \<Longrightarrow>
     interleaved repo c (c\<lparr>co_store := s, co_pending := co_pending c @ [es]\<rparr>)"
| locked_expire:
    "expireTimedOut_locked maximum now corr (co_store c) = (es, s) \<Longrightarrow>
     interleaved repo c (c\<lparr>co_store := s, co_pending := co_pending c @ [es]\<rparr>)"
| notify:
    "co_pending c = xs @ es # ys \<Longrightarrow>
     interleaved repo c
       (c\<lparr>co_store := notifyEnded es (co_store c), co_pending := xs @ ys\<rparr>)"

definition always_confirms :: room_service where
  "always_confirms log u = (Confirmed, True)"

definition race_start :: "(PlayerId, AuthoritativeMembershipContext) std_map Store" where
  "race_start = Store_ctor False (Some (livekit_observer always_confirms)) None None"

definition race_authorization :: "string \<Rightarrow> u64 \<Rightarrow> AuthorizedTransmission" where
  "race_authorization tid v =
     (sample_authorization ''alice'' v)\<lparr>au_transmission_id := StrongId tid\<rparr>"

text \<open>Alice transmits; her membership is updated, and the update's thread pauses at the unlock.\<close>

definition race_ops :: "StoreOp list" where
  "race_ops =
     [Do_upsertSession (sample_login ''alice''),
      Do_updateMembership (StrongId ''alice'') (sample_context 3) 10 (StrongId ''k'')
        Change_membership_changed,
      Do_activate (race_authorization ''x1'' 3) (StrongId ''session-alice'')
        (StrongId ''device-alice'') 20]"

definition race_paused ::
  "(AuthoritativeMembershipWriteError + EndedTransmission list) \<times>
   (PlayerId, AuthoritativeMembershipContext) std_map Store" where
  "race_paused =
     updateMembership_locked memory_repo (StrongId ''alice'') (sample_context 4) 30 (StrongId ''k'')
       Change_membership_changed (store_run memory_repo race_ops race_start)"

text \<open>Meanwhile Alice starts again under the new version; then the paused thread goes on.\<close>

definition race_restarted :: "(PlayerId, AuthoritativeMembershipContext) std_map Store" where
  "race_restarted =
     store_step memory_repo
       (Do_activate (race_authorization ''x2'' 4) (StrongId ''session-alice'')
         (StrongId ''device-alice'') 40) (snd race_paused)"

definition race_end :: "(PlayerId, AuthoritativeMembershipContext) std_map Store" where
  "race_end =
     notifyEnded (case fst race_paused of Inl e \<Rightarrow> [] | Inr es \<Rightarrow> es) race_restarted"

definition race_transmission :: "string \<Rightarrow> u64 \<Rightarrow> time_point \<Rightarrow> ActiveTransmission" where
  "race_transmission tid v now =
     \<lparr>at_authorization = race_authorization tid v, at_session_id = StrongId ''session-alice'',
      at_device_id = StrongId ''device-alice'', at_started_at = now, at_scope_node_id = ''t1'',
      at_scope_can_subscribe = True\<rparr>"

lemmas race_defs = race_ops_def race_start_def race_transmission_def race_authorization_def
  sample_run_defs sample_membership_defs sample_hierarchy_def snapshot_find_def lower_bound_def
  findScope_def canReceive_def livekit_observer_def lk_onStarted_def lk_update_def
  always_confirms_def

definition race_store ::
  "u64 \<Rightarrow> ActiveTransmission list \<Rightarrow> LifecycleCall list \<Rightarrow>
   (PlayerId, AuthoritativeMembershipContext) std_map Store" where
  "race_store v ts calls =
     \<lparr>sto_audit_enabled = False, sto_observer = Some (livekit_observer always_confirms),
      sto_persistent_sessions = None, sto_persistent_memberships = None,
      sto_sessions = [(StrongId ''session-alice'', sample_login ''alice'')],
      sto_memberships = [(StrongId ''alice'', sample_context v)],
      sto_active = map (\<lambda>t. (at_id t, t)) ts, sto_audit = [], sto_calls = calls\<rparr>"

lemma race_before:
  "store_run memory_repo race_ops race_start =
     race_store 3 [race_transmission ''x1'' 3 20]
       [Call_onStarted (race_transmission ''x1'' 3 20) True]"
  by (simp add: race_defs race_store_def)

lemma race_paused_eq:
  "race_paused =
     (Inr [end_record Stop_membership_changed 30 (StrongId ''k'') (race_transmission ''x1'' 3 20)],
      race_store 4 [] [Call_onStarted (race_transmission ''x1'' 3 20) True])"
  by (simp add: race_paused_def race_before) (simp add: race_store_def race_defs)

lemma race_restarted_eq:
  "race_restarted =
     race_store 4 [race_transmission ''x2'' 4 40]
       [Call_onStarted (race_transmission ''x1'' 3 20) True,
        Call_onStarted (race_transmission ''x2'' 4 40) True]"
  by (simp add: race_restarted_def race_paused_eq) (simp add: race_store_def race_defs)

lemma race_end_eq:
  "race_end =
     race_store 4 [race_transmission ''x2'' 4 40]
       [Call_onStarted (race_transmission ''x1'' 3 20) True,
        Call_onStarted (race_transmission ''x2'' 4 40) True,
        Call_onEnded (end_record Stop_membership_changed 30 (StrongId ''k'')
          (race_transmission ''x1'' 3 20))]"
  by (simp add: race_end_def race_restarted_eq race_paused_eq notifyEnded_eq)
    (simp add: race_store_def)

lemma interleaved_run:
  "(interleaved repo)\<^sup>*\<^sup>* c (c\<lparr>co_store := store_run repo ops (co_store c)\<rparr>)"
proof (induction ops arbitrary: c)
  case (Cons oper ops)
  have "interleaved repo c (c\<lparr>co_store := store_step repo oper (co_store c)\<rparr>)"
    by (rule interleaved.whole)
  moreover have "(interleaved repo)\<^sup>*\<^sup>* (c\<lparr>co_store := store_step repo oper (co_store c)\<rparr>)
      (c\<lparr>co_store := store_run repo (oper # ops) (co_store c)\<rparr>)"
    using Cons.IH [of "c\<lparr>co_store := store_step repo oper (co_store c)\<rparr>"] by simp
  ultimately show ?case by (rule converse_rtranclp_into_rtranclp)
qed simp

lemma race_interleaving:
  "(interleaved memory_repo)\<^sup>*\<^sup>* \<lparr>co_store = race_start, co_pending = []\<rparr>
     \<lparr>co_store = race_end, co_pending = []\<rparr>"
proof -
  let ?es = "[end_record Stop_membership_changed 30 (StrongId ''k'') (race_transmission ''x1'' 3 20)]"
  have run: "(interleaved memory_repo)\<^sup>*\<^sup>* \<lparr>co_store = race_start, co_pending = []\<rparr>
      \<lparr>co_store = store_run memory_repo race_ops race_start, co_pending = []\<rparr>"
    using interleaved_run [of memory_repo "\<lparr>co_store = race_start, co_pending = []\<rparr>" race_ops]
    by simp
  have paused: "interleaved memory_repo
      \<lparr>co_store = store_run memory_repo race_ops race_start, co_pending = []\<rparr>
      \<lparr>co_store = snd race_paused, co_pending = [?es]\<rparr>"
    using locked_update_membership [of memory_repo "StrongId ''alice''" "sample_context 4" 30
        "StrongId ''k''" Change_membership_changed
        "\<lparr>co_store = store_run memory_repo race_ops race_start, co_pending = []\<rparr>" ?es
        "snd race_paused"] race_paused_eq
    unfolding race_paused_def by simp
  have restart: "interleaved memory_repo \<lparr>co_store = snd race_paused, co_pending = [?es]\<rparr>
      \<lparr>co_store = race_restarted, co_pending = [?es]\<rparr>"
    using whole [of memory_repo "\<lparr>co_store = snd race_paused, co_pending = [?es]\<rparr>"]
    unfolding race_restarted_def by (simp del: store_step.simps)
  have announced: "race_end = notifyEnded ?es race_restarted"
    unfolding race_end_def race_paused_eq by (simp del: notifyEnded.simps)
  have resume: "interleaved memory_repo \<lparr>co_store = race_restarted, co_pending = [?es]\<rparr>
      \<lparr>co_store = race_end, co_pending = []\<rparr>"
  proof -
    let ?c = "\<lparr>co_store = race_restarted, co_pending = [?es]\<rparr>"
    have "interleaved memory_repo ?c
        (?c\<lparr>co_store := notifyEnded ?es (co_store ?c), co_pending := [] @ []\<rparr>)"
      by (rule interleaved.notify) (simp only: ConcurrentStore.select_convs append.simps)
    then show ?thesis
      unfolding announced
      by (simp only: ConcurrentStore.select_convs ConcurrentStore.update_convs append.simps)
  qed
  note run
  also note paused
  also note restart
  also note resume
  finally show ?thesis .
qed

text \<open>
  With concurrent calls the coupling is lost. An update that announces the stopped
  transmission only after the mutex is released can revoke the permission of the player's next
  transmission: a state is reachable in which no call is outstanding, every RoomService update was
  confirmed, the player's transmission is active, and the player may not publish in its room.
\<close>

theorem late_notification_silences_active_transmission:
  "\<exists>c tid t. (interleaved memory_repo)\<^sup>*\<^sup>*
       \<lparr>co_store = Store_ctor False (Some (livekit_observer always_confirms)) None None,
        co_pending = []\<rparr> c \<and>
     co_pending c = [] \<and> active (co_store c) tid = Some t \<and>
     \<not> publishes always_confirms (sto_calls (co_store c)) (publicationRoom t)
         (id_value (at_sender t))"
proof -
  let ?t = "race_transmission ''x2'' 4 40"
  have act: "active race_end (StrongId ''x2'') = Some ?t"
    by (simp add: race_end_eq race_store_def active_def race_transmission_def
        race_authorization_def)
  have "\<not> publishes always_confirms (sto_calls race_end) (publicationRoom ?t) (id_value (at_sender ?t))"
    by (simp add: race_end_eq race_store_def controller_after_def lk_call_def lk_onStarted_def
        lk_onEnded_def lk_update_def always_confirms_def may_publish_def publicationRoom_def
        LiveKitPublicationController_ctor_def race_transmission_def race_authorization_def
        sample_authorization_def)
  with race_interleaving act show ?thesis
    unfolding race_start_def by (metis ConcurrentStore.select_convs)
qed

text \<open>The answer to a grant gets lost; every revocation is confirmed.\<close>

definition lost_answers :: room_service where
  "lost_answers log u = (if pu_can_publish u then (Refused, True) else (Confirmed, True))"

text \<open>
  Such a grant is never revoked: a run of the store is possible, with a service whose confirmations
  hold and which confirms every revocation, after which the only start was answered with an error,
  no transmission is active, and the player may publish in the room of the refused transmission.
\<close>

theorem unconfirmed_grant_outlives_refusal:
  "\<exists>s. store_reachable memory_repo
       (Store_ctor False (Some (livekit_observer lost_answers)) None None) s \<and>
     confirmations_hold lost_answers \<and> revocations_confirmed lost_answers \<and>
     sto_active s = [] \<and> (\<exists>t. sto_calls s = [Call_onStarted t False] \<and>
       publishes lost_answers (sto_calls s) (publicationRoom t) (id_value (at_sender t)))"
proof -
  let ?start = "Store_ctor False (Some (livekit_observer lost_answers)) None None ::
    (PlayerId, AuthoritativeMembershipContext) std_map Store"
  let ?s = "store_run memory_repo race_ops ?start" and ?t = "race_transmission ''x1'' 3 20"
  have "sto_active ?s = [] \<and> sto_calls ?s = [Call_onStarted ?t False]"
    by (simp add: race_defs lost_answers_def std_erase_def)
  moreover have "publishes lost_answers [Call_onStarted ?t False] (publicationRoom ?t)
      (id_value (at_sender ?t))"
    using controller_snoc [of lost_answers "[]" "Call_onStarted ?t False"]
    by (simp add: lost_answers_def may_publish_snoc Let_def)
  moreover have "confirmations_hold lost_answers" "revocations_confirmed lost_answers"
    by (simp_all add: confirmations_hold_def revocations_confirmed_def lost_answers_def)
  moreover have "store_reachable memory_repo ?start ?s" by (rule store_reachable_run)
  ultimately show ?thesis by (intro exI [of _ ?s]) auto
qed

theorem publication_follows_active_witness:
  "publishes always_confirms (sto_calls (store_run memory_repo race_ops
       (Store_ctor False (Some (livekit_observer always_confirms)) None None))) ''team:t1'' ''alice'' \<and>
   confirmations_hold always_confirms \<and> revocations_confirmed always_confirms"
proof -
  have rev: "confirmations_hold always_confirms" "revocations_confirmed always_confirms"
    by (simp_all add: confirmations_hold_def revocations_confirmed_def always_confirms_def)
  have act: "active (store_run memory_repo race_ops race_start) (StrongId ''x1'') =
      Some (race_transmission ''x1'' 3 20)"
    unfolding race_before
    by (simp add: race_store_def active_def race_transmission_def race_authorization_def)
  have "publicationRoom (race_transmission ''x1'' 3 20) = ''team:t1''"
      "id_value (at_sender (race_transmission ''x1'' 3 20)) = ''alice''"
    by (simp_all add: publicationRoom_def race_transmission_def race_authorization_def
        sample_authorization_def)
  with act rev show ?thesis
    using publication_follows_active [OF sample_store_laws sample_store_fresh rev
        store_reachable_run [of memory_repo _ race_ops], where room = "''team:t1''"
        and identity = "''alice''"]
    unfolding race_start_def by blast
qed

end
