(* ===== verification/Transmission_Service.thy ===== *)
theory Transmission_Service
  imports Store_Properties Rate_Limiter
begin

text \<open>
  The transmission use cases (\<open>libs/application/src/control_plane.cpp\<close>): authorization of a start,
  the application service that rate-limits, authorizes, activates, ends, moderates and expires
  transmissions with one audit event per outcome, and the derivation of voice grants. The service
  is composed as in \<open>apps/control-plane/src/main.cpp\<close>: the in-memory store is its session
  repository, its membership provider and its transmission repository, and both write to the same
  audit sink. The identifier generator and the moderation authorizer are parameters.
\<close>

section \<open>Error translation\<close>

fun mapRoutingError :: "RoutingError \<Rightarrow> TransmissionAuthorizationError" where
  "mapRoutingError Routing_voice_not_connected = Authz_voice_not_connected"
| "mapRoutingError Routing_voice_no_active_membership = Authz_voice_no_active_membership"
| "mapRoutingError Routing_voice_scope_not_found = Authz_voice_scope_not_found"
| "mapRoutingError Routing_voice_scope_not_authorized = Authz_voice_scope_not_authorized"
| "mapRoutingError Routing_voice_transmit_muted = Authz_voice_transmit_muted"
| "mapRoutingError Routing_voice_membership_stale = Authz_voice_membership_stale"

fun mapAuthorizationError :: "TransmissionAuthorizationError \<Rightarrow> StartTransmissionError" where
  "mapAuthorizationError Authz_session_not_found = Start_session_not_found"
| "mapAuthorizationError Authz_session_device_mismatch = Start_session_device_mismatch"
| "mapAuthorizationError Authz_session_expired = Start_session_expired"
| "mapAuthorizationError Authz_membership_unavailable = Start_membership_unavailable"
| "mapAuthorizationError Authz_voice_not_connected = Start_voice_not_connected"
| "mapAuthorizationError Authz_voice_no_active_membership = Start_voice_no_active_membership"
| "mapAuthorizationError Authz_voice_scope_not_found = Start_voice_scope_not_found"
| "mapAuthorizationError Authz_voice_scope_not_authorized = Start_voice_scope_not_authorized"
| "mapAuthorizationError Authz_voice_transmit_muted = Start_voice_transmit_muted"
| "mapAuthorizationError Authz_voice_membership_stale = Start_voice_membership_stale"

fun mapActivationError :: "TransmissionActivationError \<Rightarrow> StartTransmissionError" where
  "mapActivationError Act_session_changed = Start_session_changed_during_start"
| "mapActivationError Act_membership_changed = Start_membership_changed_during_start"
| "mapActivationError Act_sender_already_transmitting = Start_sender_already_transmitting"
| "mapActivationError Act_speaker_limit_reached = Start_speaker_limit_reached"
| "mapActivationError Act_voice_control_failed = Start_voice_control_unavailable"
| "mapActivationError Act_transmission_id_conflict = Start_transmission_id_conflict"

fun audit_start_rejection :: "StartTransmissionError \<Rightarrow> TransmissionAuditRejectionReason" where
  "audit_start_rejection Start_session_not_found = Audit_session_not_found"
| "audit_start_rejection Start_session_device_mismatch = Audit_session_device_mismatch"
| "audit_start_rejection Start_session_expired = Audit_session_expired"
| "audit_start_rejection Start_membership_unavailable = Audit_membership_unavailable"
| "audit_start_rejection Start_voice_not_connected = Audit_voice_not_connected"
| "audit_start_rejection Start_voice_no_active_membership = Audit_voice_no_active_membership"
| "audit_start_rejection Start_voice_scope_not_found = Audit_voice_scope_not_found"
| "audit_start_rejection Start_voice_scope_not_authorized = Audit_voice_scope_not_authorized"
| "audit_start_rejection Start_voice_transmit_muted = Audit_voice_transmit_muted"
| "audit_start_rejection Start_voice_membership_stale = Audit_voice_membership_stale"
| "audit_start_rejection Start_session_changed_during_start = Audit_session_changed_during_start"
| "audit_start_rejection Start_membership_changed_during_start =
     Audit_membership_changed_during_start"
| "audit_start_rejection Start_sender_already_transmitting = Audit_sender_already_transmitting"
| "audit_start_rejection Start_speaker_limit_reached = Audit_speaker_limit_reached"
| "audit_start_rejection Start_voice_control_unavailable = Audit_voice_control_unavailable"
| "audit_start_rejection Start_transmission_id_conflict = Audit_transmission_id_conflict"
| "audit_start_rejection Start_rate_limited = Audit_rate_limited"

fun audit_end_rejection :: "EndTransmissionError \<Rightarrow> TransmissionAuditRejectionReason" where
  "audit_end_rejection End_session_not_found = Audit_session_not_found"
| "audit_end_rejection End_session_device_mismatch = Audit_session_device_mismatch"
| "audit_end_rejection End_session_expired = Audit_session_expired"
| "audit_end_rejection End_transmission_not_found = Audit_transmission_not_found"
| "audit_end_rejection End_transmission_not_owned = Audit_transmission_not_owned"
| "audit_end_rejection End_rate_limited = Audit_rate_limited"

fun audit_moderation_rejection ::
  "ModerateTransmissionError \<Rightarrow> TransmissionAuditRejectionReason" where
  "audit_moderation_rejection Mod_session_not_found = Audit_session_not_found"
| "audit_moderation_rejection Mod_session_device_mismatch = Audit_session_device_mismatch"
| "audit_moderation_rejection Mod_session_expired = Audit_session_expired"
| "audit_moderation_rejection Mod_not_authorized = Audit_not_authorized"
| "audit_moderation_rejection Mod_transmission_not_found = Audit_transmission_not_found"

section \<open>Audit events\<close>

definition addActiveTransmissionDetails ::
  "ActiveTransmission \<Rightarrow> TransmissionAuditEvent \<Rightarrow> TransmissionAuditEvent" where
  "addActiveTransmissionDetails t ev =
     ev\<lparr>ev_session_id := Some (at_session_id t),
        ev_device_id := Some (at_device_id t),
        ev_client_transmission_id := Some (au_client_transmission_id (at_authorization t)),
        ev_transmission_id := Some (au_transmission_id (at_authorization t)),
        ev_sender_player_id := Some (au_sender_player_id (at_authorization t)),
        ev_scope := Some (au_scope (at_authorization t)),
        ev_membership_version := Some (au_membership_version (at_authorization t)),
        ev_recipient_count := Some (length (au_recipients (at_authorization t)))\<rparr>"

definition record_event :: "TransmissionAuditEvent \<Rightarrow> 'm Store \<Rightarrow> 'm Store" where
  "record_event ev s =
     (if sto_audit_enabled s then s\<lparr>sto_audit := sto_audit s @ [ev]\<rparr> else s)"

definition recordStartRejected ::
  "StartTransmissionCommand \<Rightarrow> time_point \<Rightarrow> StartTransmissionError \<Rightarrow> PlayerId option \<Rightarrow>
   'm Store \<Rightarrow> 'm Store" where
  "recordStartRejected cmd now err sender =
     record_event
       ((TransmissionAuditEvent_ctor Event_rejected Op_start now (st_correlation_id cmd))
          \<lparr>ev_session_id := Some (st_session_id cmd),
           ev_device_id := Some (st_device_id cmd),
           ev_client_transmission_id := Some (st_client_transmission_id cmd),
           ev_actor_player_id := sender,
           ev_sender_player_id := sender,
           ev_scope := Some (st_scope cmd),
           ev_membership_version := Some (st_membership_version cmd),
           ev_rejection_reason := Some (audit_start_rejection err)\<rparr>)"

definition recordEndRejected ::
  "EndTransmissionCommand \<Rightarrow> time_point \<Rightarrow> EndTransmissionError \<Rightarrow> PlayerId option \<Rightarrow>
   'm Store \<Rightarrow> 'm Store" where
  "recordEndRejected cmd now err sender =
     record_event
       ((TransmissionAuditEvent_ctor Event_rejected Op_end now (en_correlation_id cmd))
          \<lparr>ev_session_id := Some (en_session_id cmd),
           ev_device_id := Some (en_device_id cmd),
           ev_transmission_id := Some (en_transmission_id cmd),
           ev_actor_player_id := sender,
           ev_sender_player_id := sender,
           ev_rejection_reason := Some (audit_end_rejection err)\<rparr>)"

definition recordModerationRejected ::
  "ModerateTransmissionCommand \<Rightarrow> time_point \<Rightarrow> ModerateTransmissionError \<Rightarrow> PlayerId option \<Rightarrow>
   'm Store \<Rightarrow> 'm Store" where
  "recordModerationRejected cmd now err moderator =
     record_event
       ((TransmissionAuditEvent_ctor Event_rejected Op_moderation now (mo_correlation_id cmd))
          \<lparr>ev_session_id := Some (mo_session_id cmd),
           ev_device_id := Some (mo_device_id cmd),
           ev_transmission_id := Some (mo_transmission_id cmd),
           ev_actor_player_id := moderator,
           ev_rejection_reason := Some (audit_moderation_rejection err)\<rparr>)"

definition recordStarted :: "ActiveTransmission \<Rightarrow> 'm Store \<Rightarrow> 'm Store" where
  "recordStarted t =
     record_event
       ((addActiveTransmissionDetails t
          (TransmissionAuditEvent_ctor Event_started Op_start (at_started_at t)
             (au_correlation_id (at_authorization t))))
          \<lparr>ev_actor_player_id := Some (au_sender_player_id (at_authorization t))\<rparr>)"

definition recordEnded :: "EndedTransmission \<Rightarrow> 'm Store \<Rightarrow> 'm Store" where
  "recordEnded e =
     record_event
       ((addActiveTransmissionDetails (et_transmission e)
          (TransmissionAuditEvent_ctor Event_ended Op_end (et_ended_at e) (et_correlation_id e)))
          \<lparr>ev_actor_player_id :=
             Some (au_sender_player_id (at_authorization (et_transmission e))),
           ev_stop_reason := Some (et_stop_reason e)\<rparr>)"

definition forced_interruption_event ::
  "EndedTransmission \<Rightarrow> TransmissionAuditOperation \<Rightarrow> PlayerId option \<Rightarrow> TransmissionAuditEvent"
where
  "forced_interruption_event e oper actor =
     (addActiveTransmissionDetails (et_transmission e)
        (TransmissionAuditEvent_ctor Event_forcibly_interrupted oper (et_ended_at e)
           (et_correlation_id e)))
        \<lparr>ev_actor_player_id := actor, ev_stop_reason := Some (et_stop_reason e)\<rparr>"

definition recordForcedInterruption ::
  "EndedTransmission \<Rightarrow> TransmissionAuditOperation \<Rightarrow> PlayerId option \<Rightarrow> 'm Store \<Rightarrow> 'm Store" where
  "recordForcedInterruption e oper actor = record_event (forced_interruption_event e oper actor)"

lemma record_event_fields [simp]:
  "sto_active (record_event ev s) = sto_active s"
  "sto_sessions (record_event ev s) = sto_sessions s"
  "sto_memberships (record_event ev s) = sto_memberships s"
  "sto_persistent_sessions (record_event ev s) = sto_persistent_sessions s"
  "sto_persistent_memberships (record_event ev s) = sto_persistent_memberships s"
  "sto_calls (record_event ev s) = sto_calls s"
  "sto_observer (record_event ev s) = sto_observer s"
  "sto_audit_enabled (record_event ev s) = sto_audit_enabled s"
  "sto_audit (record_event ev s) = sto_audit s @ (if sto_audit_enabled s then [ev] else [])"
  by (simp_all add: record_event_def)

lemmas record_defs = recordStartRejected_def recordEndRejected_def recordModerationRejected_def
  recordStarted_def recordEnded_def recordForcedInterruption_def

section \<open>Authorization\<close>

definition authorizeStart ::
  "(SessionId \<Rightarrow> AuthenticatedSession option) \<Rightarrow>
   (PlayerId \<Rightarrow> AuthoritativeMembershipContext option) \<Rightarrow> ('g \<Rightarrow> TransmissionId \<times> 'g) \<Rightarrow>
   StartTransmissionCommand \<Rightarrow> time_point \<Rightarrow> 'g \<Rightarrow>
   (TransmissionAuthorizationError + AuthorizedTransmission) \<times> 'g" where
  "authorizeStart sessions memberships next_id cmd now g =
     (case sessions (st_session_id cmd) of
        None \<Rightarrow> (Inl Authz_session_not_found, g)
      | Some session \<Rightarrow>
          if as_device_id session \<noteq> st_device_id cmd then (Inl Authz_session_device_mismatch, g)
          else if \<not> activeAt session now then (Inl Authz_session_expired, g)
          else (case memberships (as_player_id session) of
             None \<Rightarrow> (Inl Authz_membership_unavailable, g)
           | Some ctx \<Rightarrow>
               (let resolution = resolve (mc_snapshot ctx) (mc_role_policy ctx)
                      \<lparr>tr_sender_player_id = as_player_id session,
                       tr_requested_scope = st_scope cmd,
                       tr_membership_version = st_membership_version cmd\<rparr> []
                in case rs_rejection resolution of
                     Some err \<Rightarrow> (Inl (mapRoutingError err), g)
                   | None \<Rightarrow>
                       (let (tid, g') = next_id g
                        in (Inr \<lparr>au_transmission_id = tid,
                                 au_client_transmission_id = st_client_transmission_id cmd,
                                 au_sender_player_id = as_player_id session,
                                 au_scope = st_scope cmd,
                                 au_membership_version = ms_version (mc_snapshot ctx),
                                 au_recipients = rs_recipients resolution,
                                 au_correlation_id = st_correlation_id cmd\<rparr>, g')))))"

section \<open>The application service\<close>

definition TransmissionLifecyclePolicy_ctor :: "milliseconds \<Rightarrow> milliseconds throws" where
  "TransmissionLifecyclePolicy_ctor maximum =
     (if maximum \<le> 0
      then Inl (InvalidArgument ''The maximum transmission duration must be positive.'')
      else Inr maximum)"

record ('m, 'g) Service =
  sv_store :: "'m Store"
  sv_limiter :: RateLimiter
  sv_ids :: 'g
  sv_maximum_duration :: milliseconds

definition reject_start ::
  "StartTransmissionCommand \<Rightarrow> time_point \<Rightarrow> PlayerId option \<Rightarrow> StartTransmissionError \<Rightarrow>
   ('m, 'g) Service \<Rightarrow> (StartTransmissionError + ActiveTransmission) \<times> ('m, 'g) Service" where
  "reject_start cmd now sender err v =
     (Inl err, v\<lparr>sv_store := recordStartRejected cmd now err sender (sv_store v)\<rparr>)"

definition start ::
  "'m membership_repo \<Rightarrow> ('g \<Rightarrow> TransmissionId \<times> 'g) \<Rightarrow> StartTransmissionCommand \<Rightarrow> time_point \<Rightarrow>
   ('m, 'g) Service \<Rightarrow> (StartTransmissionError + ActiveTransmission) \<times> ('m, 'g) Service" where
  "start repo next_id cmd now v =
     (case currentSessionLocked (sv_store v) (st_session_id cmd) of
        None \<Rightarrow> reject_start cmd now None Start_session_not_found v
      | Some session \<Rightarrow>
          (let sender = Some (as_player_id session) in
           if as_device_id session \<noteq> st_device_id cmd
           then reject_start cmd now sender Start_session_device_mismatch v
           else if \<not> activeAt session now
           then reject_start cmd now sender Start_session_expired v
           else
             (let (allowed, l) = allow (as_player_id session) Limit_start now (sv_limiter v);
                  v1 = v\<lparr>sv_limiter := l\<rparr>
              in if \<not> allowed then reject_start cmd now sender Start_rate_limited v1
                 else
                   (let (authorization, g) =
                          authorizeStart (currentSessionLocked (sv_store v1))
                            (currentMembershipLocked repo (sv_store v1)) next_id cmd now (sv_ids v1);
                        v2 = v1\<lparr>sv_ids := g\<rparr>
                    in case authorization of
                         Inl err \<Rightarrow> reject_start cmd now sender (mapAuthorizationError err) v2
                       | Inr au \<Rightarrow>
                           (let (activation, s) =
                                  activate repo au (st_session_id cmd) (st_device_id cmd) now
                                    (sv_store v2);
                                v3 = v2\<lparr>sv_store := s\<rparr>
                            in case activation of
                                 Inl err \<Rightarrow> reject_start cmd now sender (mapActivationError err) v3
                               | Inr t \<Rightarrow>
                                   (Inr t, v3\<lparr>sv_store := recordStarted t (sv_store v3)\<rparr>))))))"

definition reject_end ::
  "EndTransmissionCommand \<Rightarrow> time_point \<Rightarrow> PlayerId option \<Rightarrow> EndTransmissionError \<Rightarrow>
   ('m, 'g) Service \<Rightarrow> (EndTransmissionError + EndedTransmission) \<times> ('m, 'g) Service" where
  "reject_end cmd now sender err v =
     (Inl err, v\<lparr>sv_store := recordEndRejected cmd now err sender (sv_store v)\<rparr>)"

definition end_service ::
  "EndTransmissionCommand \<Rightarrow> time_point \<Rightarrow> ('m, 'g) Service \<Rightarrow>
   (EndTransmissionError + EndedTransmission) \<times> ('m, 'g) Service" where
  "end_service cmd now v =
     (case currentSessionLocked (sv_store v) (en_session_id cmd) of
        None \<Rightarrow> reject_end cmd now None End_session_not_found v
      | Some session \<Rightarrow>
          (let sender = Some (as_player_id session) in
           if as_device_id session \<noteq> en_device_id cmd
           then reject_end cmd now sender End_session_device_mismatch v
           else if \<not> activeAt session now
           then reject_end cmd now sender End_session_expired v
           else
             (let (allowed, l) = allow (as_player_id session) Limit_end now (sv_limiter v);
                  v1 = v\<lparr>sv_limiter := l\<rparr>
              in if \<not> allowed then reject_end cmd now sender End_rate_limited v1
                 else
                   (let (ended, s) =
                          end_transmission (en_transmission_id cmd) (en_session_id cmd)
                            (en_device_id cmd) Stop_push_to_talk_released now
                            (en_correlation_id cmd) (sv_store v1);
                        v2 = v1\<lparr>sv_store := s\<rparr>
                    in case ended of
                         Inl err \<Rightarrow>
                           reject_end cmd now sender
                             (if err = Repo_transmission_not_found then End_transmission_not_found
                              else End_transmission_not_owned) v2
                       | Inr e \<Rightarrow> (Inr e, v2\<lparr>sv_store := recordEnded e (sv_store v2)\<rparr>)))))"

definition reject_moderation ::
  "ModerateTransmissionCommand \<Rightarrow> time_point \<Rightarrow> PlayerId option \<Rightarrow> ModerateTransmissionError \<Rightarrow>
   ('m, 'g) Service \<Rightarrow> (ModerateTransmissionError + EndedTransmission) \<times> ('m, 'g) Service" where
  "reject_moderation cmd now moderator err v =
     (Inl err, v\<lparr>sv_store := recordModerationRejected cmd now err moderator (sv_store v)\<rparr>)"

definition interruptForModeration ::
  "('m Store \<Rightarrow> PlayerId \<Rightarrow> TransmissionId \<Rightarrow> bool) \<Rightarrow> ModerateTransmissionCommand \<Rightarrow> time_point \<Rightarrow>
   ('m, 'g) Service \<Rightarrow> (ModerateTransmissionError + EndedTransmission) \<times> ('m, 'g) Service" where
  "interruptForModeration canInterrupt cmd now v =
     (case currentSessionLocked (sv_store v) (mo_session_id cmd) of
        None \<Rightarrow> reject_moderation cmd now None Mod_session_not_found v
      | Some session \<Rightarrow>
          (let moderator = Some (as_player_id session) in
           if as_device_id session \<noteq> mo_device_id cmd
           then reject_moderation cmd now moderator Mod_session_device_mismatch v
           else if \<not> activeAt session now
           then reject_moderation cmd now moderator Mod_session_expired v
           else if \<not> canInterrupt (sv_store v) (as_player_id session) (mo_transmission_id cmd)
           then reject_moderation cmd now moderator Mod_not_authorized v
           else
             (let (interrupted, s) =
                    interrupt_transmission (mo_transmission_id cmd) Stop_moderation_interrupted
                      now (mo_correlation_id cmd) (sv_store v);
                  v1 = v\<lparr>sv_store := s\<rparr>
              in case interrupted of
                   Inl err \<Rightarrow> reject_moderation cmd now moderator Mod_transmission_not_found v1
                 | Inr e \<Rightarrow>
                     (Inr e, v1\<lparr>sv_store :=
                        recordForcedInterruption e Op_moderation moderator (sv_store v1)\<rparr>))))"

fun record_timeouts :: "EndedTransmission list \<Rightarrow> 'm Store \<Rightarrow> 'm Store" where
  "record_timeouts [] s = s"
| "record_timeouts (e # es) s = record_timeouts es (recordForcedInterruption e Op_timeout None s)"

definition expire_service ::
  "time_point \<Rightarrow> CorrelationId \<Rightarrow> ('m, 'g) Service \<Rightarrow> EndedTransmission list \<times> ('m, 'g) Service" where
  "expire_service now corr v =
     (let (expired, s) = expireTimedOut (sv_maximum_duration v) now corr (sv_store v)
      in (expired, v\<lparr>sv_store := record_timeouts expired s\<rparr>))"

section \<open>Outcomes\<close>

lemma activate_audit [simp]:
  "sto_audit (snd (activate repo au sid dev now s)) = sto_audit s"
  "sto_audit_enabled (snd (activate repo au sid dev now s)) = sto_audit_enabled s"
  using activate_result [of repo au sid dev now s] by (auto simp: Let_def admit_def)

lemma activate_rejected_active:
  "activate repo au sid dev now s = (Inl err, s') \<Longrightarrow> sto_active s' = sto_active s"
  using activate_result [of repo au sid dev now s] by (auto simp: Let_def)

lemma activate_accepted:
  assumes "activate repo au sid dev now s = (Inr t, s')"
  shows "at_authorization t = au \<and> map_of (sto_active s') (at_id t) = Some t \<and>
         (\<exists>ctx. currentMembershipLocked repo s (au_sender_player_id au) = Some ctx \<and>
            ms_version (mc_snapshot ctx) = au_membership_version au)"
  using activate_result [of repo au sid dev now s] assms
  by (auto simp: Let_def may_activate_def admit_def)

lemmas start_defs = start_def reject_start_def recordStartRejected_def recordStarted_def

text \<open>
  Every start leaves exactly one audit event. A rejected start records the reason it returns
  under the caller's identifiers and leaves every active transmission as it was; an accepted start
  records the transmission it returns, which is then active.
\<close>

theorem start_is_audited:
  assumes "start repo next_id cmd now v = (r, v')" and "sto_audit_enabled (sv_store v)"
  shows "\<exists>ev. sto_audit (sv_store v') = sto_audit (sv_store v) @ [ev] \<and>
     ev_operation ev = Op_start \<and> ev_session_id ev = Some (st_session_id cmd) \<and>
     ev_device_id ev = Some (st_device_id cmd) \<and>
     (case r of
        Inl err \<Rightarrow>
          ev_type ev = Event_rejected \<and>
          ev_rejection_reason ev = Some (audit_start_rejection err) \<and>
          ev_correlation_id ev = st_correlation_id cmd \<and>
          sto_active (sv_store v') = sto_active (sv_store v)
      | Inr t \<Rightarrow>
          ev_type ev = Event_started \<and> ev_rejection_reason ev = None \<and>
          ev_transmission_id ev = Some (at_id t) \<and>
          active (sv_store v') (at_id t) = Some t)"
proof (cases "currentSessionLocked (sv_store v) (st_session_id cmd)")
  case None
  then show ?thesis
    using assms by (auto simp: start_defs TransmissionAuditEvent_ctor_def)
next
  case (Some session)
  obtain allowed l where l: "allow (as_player_id session) Limit_start now (sv_limiter v) = (allowed, l)"
    by fastforce
  obtain auth g where a: "authorizeStart (currentSessionLocked (sv_store v))
      (currentMembershipLocked repo (sv_store v)) next_id cmd now (sv_ids v) = (auth, g)"
    by fastforce
  show ?thesis
  proof (cases "as_device_id session \<noteq> st_device_id cmd \<or> \<not> activeAt session now \<or> \<not> allowed \<or>
      (\<exists>err. auth = Inl err)")
    case True
    then show ?thesis
      using assms Some l a
      by (auto simp: start_defs TransmissionAuditEvent_ctor_def Let_def split: if_splits)
  next
    case False
    then obtain au where au: "auth = Inr au" by (cases auth) auto
    obtain act s where act: "activate repo au (st_session_id cmd) (st_device_id cmd) now
        (sv_store v) = (act, s)" by fastforce
    have audit: "sto_audit s = sto_audit (sv_store v)" "sto_audit_enabled s"
      using activate_audit [of repo au "st_session_id cmd" "st_device_id cmd" now "sv_store v"]
        assms(2) by (simp_all add: act)
    show ?thesis
    proof (cases act)
      case (Inl err)
      then show ?thesis
        using assms(1) False Some l a au act audit activate_rejected_active [of repo au _ _ now]
        by (auto simp: start_defs TransmissionAuditEvent_ctor_def Let_def)
    next
      case (Inr t)
      have "at_session_id t = st_session_id cmd" "at_device_id t = st_device_id cmd"
        using activate_result [of repo au "st_session_id cmd" "st_device_id cmd" now "sv_store v"]
        by (auto simp: act Inr Let_def)
      then show ?thesis
        using assms(1) False Some l a au act audit Inr
          activate_accepted [of repo au "st_session_id cmd" "st_device_id cmd" now "sv_store v" t s]
        by (auto simp: start_defs TransmissionAuditEvent_ctor_def addActiveTransmissionDetails_def
            Let_def active_def)
    qed
  qed
qed

lemma authorizeStart_accepted:
  assumes "authorizeStart sessions memberships next_id cmd now g = (Inr au, g')"
  shows "\<exists>session ctx. sessions (st_session_id cmd) = Some session \<and>
     as_device_id session = st_device_id cmd \<and> activeAt session now \<and>
     memberships (as_player_id session) = Some ctx \<and>
     au_sender_player_id au = as_player_id session \<and> au_scope au = st_scope cmd \<and>
     au_membership_version au = ms_version (mc_snapshot ctx) \<and>
     (let resolution = resolve (mc_snapshot ctx) (mc_role_policy ctx)
            \<lparr>tr_sender_player_id = as_player_id session, tr_requested_scope = st_scope cmd,
             tr_membership_version = st_membership_version cmd\<rparr> []
      in resolution_accepted resolution \<and> au_recipients au = rs_recipients resolution)"
  using assms
  by (auto simp: authorizeStart_def resolution_accepted_def Let_def
      split: option.splits if_splits prod.splits)

text \<open>
  C2: a start succeeds only for the device of an unexpired session, under the rate limit, when
  the routing rules accept the session's player in the current authoritative membership; the
  transmission it returns has that player as sender, exactly the recipients of the resolution and
  the current membership version.
\<close>

theorem start_success_is_authorized:
  assumes "start repo next_id cmd now v = (Inr t, v')"
  shows "\<exists>session ctx. currentSessionLocked (sv_store v) (st_session_id cmd) = Some session \<and>
     as_device_id session = st_device_id cmd \<and> activeAt session now \<and>
     fst (allow (as_player_id session) Limit_start now (sv_limiter v)) \<and>
     currentMembershipLocked repo (sv_store v) (as_player_id session) = Some ctx \<and>
     at_sender t = as_player_id session \<and> at_scope t = st_scope cmd \<and>
     at_session_id t = st_session_id cmd \<and> at_device_id t = st_device_id cmd \<and>
     at_version t = ms_version (mc_snapshot ctx) \<and>
     (let resolution = resolve (mc_snapshot ctx) (mc_role_policy ctx)
            \<lparr>tr_sender_player_id = as_player_id session, tr_requested_scope = st_scope cmd,
             tr_membership_version = st_membership_version cmd\<rparr> []
      in resolution_accepted resolution \<and>
         au_recipients (at_authorization t) = rs_recipients resolution)"
proof -
  obtain session where session: "currentSessionLocked (sv_store v) (st_session_id cmd) = Some session"
    using assms by (auto simp: start_defs split: option.splits)
  obtain allowed l where l: "allow (as_player_id session) Limit_start now (sv_limiter v) = (allowed, l)"
    by fastforce
  obtain auth g where a: "authorizeStart (currentSessionLocked (sv_store v))
      (currentMembershipLocked repo (sv_store v)) next_id cmd now (sv_ids v) = (auth, g)"
    by fastforce
  obtain au s where au: "auth = Inr au" "allowed"
    and act: "activate repo au (st_session_id cmd) (st_device_id cmd) now (sv_store v) = (Inr t, s)"
    using assms session l a
    by (auto simp: start_defs Let_def split: if_splits sum.splits prod.splits)
  have "at_authorization t = au" "at_session_id t = st_session_id cmd"
      "at_device_id t = st_device_id cmd"
    using activate_result [of repo au "st_session_id cmd" "st_device_id cmd" now "sv_store v"]
    by (auto simp: act Let_def)
  then show ?thesis
    using authorizeStart_accepted [OF a [unfolded au]] session l au by auto
qed

section \<open>Between authorization and activation\<close>

text \<open>
  C6: other calls may run between authorization and activation. Unless one of them removes the
  sender's membership, an activation that succeeds finds the very context the authorization was
  decided on, so the recipients are those of the sender's current membership.
\<close>

theorem authorization_still_current:
  assumes "membership_repo_laws repo ok" and "fresh_store_ok ok mem"
    and "store_reachable repo (Store_ctor audit obs sess mem) s"
    and "authorizeStart (currentSessionLocked s) (currentMembershipLocked repo s) next_id cmd now g =
           (Inr au, g')"
    and "\<forall>oper \<in> set ops. \<forall>t corr. oper \<noteq> Do_removeMembership (au_sender_player_id au) t corr"
    and "activate repo au sid dev later (store_run repo ops s) = (Inr t, s')"
  shows "currentMembershipLocked repo s' (at_sender t) = currentMembershipLocked repo s (at_sender t)"
proof -
  have inv: "store_inv repo ok s" using assms(1-3) by (rule reachable_inv)
  obtain ctx where ctx: "currentMembershipLocked repo s (au_sender_player_id au) = Some ctx"
      "au_membership_version au = ms_version (mc_snapshot ctx)"
    using authorizeStart_accepted [OF assms(4)] by auto
  obtain new where new:
      "currentMembershipLocked repo (store_run repo ops s) (au_sender_player_id au) = Some new"
      "new = ctx \<or> ms_version (mc_snapshot ctx) < ms_version (mc_snapshot new)"
    using membership_repo_laws.version_run [OF assms(1) inv assms(5) ctx(1)] by auto
  have "ms_version (mc_snapshot new) = au_membership_version au" "at_authorization t = au"
    using activate_accepted [OF assms(6)] new(1) by auto
  moreover have "currentMembershipLocked repo s' = currentMembershipLocked repo (store_run repo ops s)"
    using currentMembershipLocked_activate [of repo au sid dev later "store_run repo ops s"]
    by (simp add: assms(6))
  ultimately show ?thesis using new ctx by auto
qed

text \<open>The removal of a membership forgets its version, so the next write may repeat it.\<close>

definition moved_snapshot :: "u64 \<Rightarrow> MembershipSnapshot" where
  "moved_snapshot v =
     (sample_snapshot v)\<lparr>ms_memberships :=
        [sample_member ''alice'' ''s2'' ''t3'', sample_member ''bob'' ''s1'' ''t1'',
         sample_member ''cara'' ''s1'' ''t2'', sample_member ''dave'' ''s2'' ''t3'']\<rparr>"

definition moved_context :: "u64 \<Rightarrow> AuthoritativeMembershipContext" where
  "moved_context v = \<lparr>mc_snapshot = moved_snapshot v, mc_role_policy = sample_policy\<rparr>"

definition sample_start_command :: StartTransmissionCommand where
  "sample_start_command =
     \<lparr>st_session_id = StrongId ''session-alice'', st_device_id = StrongId ''device-alice'',
      st_client_transmission_id = StrongId ''c1'', st_scope = Team_scope,
      st_membership_version = 3, st_correlation_id = StrongId ''k''\<rparr>"

definition sample_next_id :: "nat \<Rightarrow> TransmissionId \<times> nat" where
  "sample_next_id n = (StrongId (replicate (Suc n) CHR ''x''), Suc n)"

definition idle_store :: "(PlayerId, AuthoritativeMembershipContext) std_map Store" where
  "idle_store = store_run memory_repo (take 4 sample_ops) sample_start"

definition sample_au :: AuthorizedTransmission where
  "sample_au =
     \<lparr>au_transmission_id = StrongId ''x'', au_client_transmission_id = StrongId ''c1'',
      au_sender_player_id = StrongId ''alice'', au_scope = Team_scope, au_membership_version = 3,
      au_recipients = [StrongId ''alice'', StrongId ''bob''], au_correlation_id = StrongId ''k''\<rparr>"

definition sample_removal :: "StoreOp list" where
  "sample_removal =
     [Do_removeMembership (StrongId ''alice'') 50 (StrongId ''k''),
      Do_updateMembership (StrongId ''alice'') (moved_context 3) 60 (StrongId ''k'')
        Change_membership_changed]"

lemma moved_snapshot_ok: "v \<noteq> 0 \<Longrightarrow> snapshot_ok (moved_snapshot v)"
  by (simp add: moved_snapshot_def snapshot_ok_def sample_membership_defs sample_hierarchy_ok)
    (simp add: valid_path_def findGroup_def findSpecialization_def findTeam_def sample_hierarchy_def)

lemma idle_store_eq:
  "idle_store =
     \<lparr>sto_audit_enabled = True, sto_observer = Some (\<lambda>_ _. True), sto_persistent_sessions = None,
      sto_persistent_memberships = None,
      sto_sessions = [(StrongId ''session-alice'', sample_login ''alice''),
                      (StrongId ''session-bob'', sample_login ''bob'')],
      sto_memberships = [(StrongId ''alice'', sample_context 3), (StrongId ''bob'', sample_context 3)],
      sto_active = [], sto_audit = [], sto_calls = []\<rparr>"
  by (simp add: idle_store_def sample_run_defs sample_membership_defs
      sample_hierarchy_def snapshot_find_def lower_bound_def)

lemma idle_store_reachable:
  "store_reachable memory_repo (Store_ctor True (Some (\<lambda>_ _. True)) None None) idle_store"
  using store_reachable_run [of memory_repo sample_start "take 4 sample_ops"]
  by (simp only: idle_store_def sample_start_def)

lemma sample_authorized:
  "authorizeStart (currentSessionLocked idle_store) (currentMembershipLocked memory_repo idle_store)
     sample_next_id sample_start_command 40 0 = (Inr sample_au, 1)"
  by (simp add: authorizeStart_def idle_store_eq currentSessionLocked_def
      currentMembershipLocked_def sample_start_command_def sample_login_def activeAt_def
      sample_context_def sample_routing_defs sample_next_id_def sample_au_def Let_def
      del: containsScope_iff)

definition moved_active :: ActiveTransmission where
  "moved_active =
     \<lparr>at_authorization = sample_au, at_session_id = StrongId ''session-alice'',
      at_device_id = StrongId ''device-alice'', at_started_at = 70, at_scope_node_id = ''t3'',
      at_scope_can_subscribe = True\<rparr>"

lemma moved_store_eq:
  "store_run memory_repo sample_removal idle_store =
     idle_store\<lparr>sto_memberships :=
       [(StrongId ''alice'', moved_context 3), (StrongId ''bob'', sample_context 3)]\<rparr>"
  by (simp add: idle_store_eq sample_removal_def removeMembership_def removeMembership_locked_def
      erase_membership_def std_erase_def updateMembership_def updateMembership_locked_def
      write_membership_def memory_upsertIfNewer_def interruptForPlayerLocked_def
      recordForcedInterruptions_def moved_context_def moved_snapshot_def sample_membership_defs
      snapshot_find_def lower_bound_def Let_def)

lemma moved_activation:
  "fst (activate memory_repo sample_au (StrongId ''session-alice'') (StrongId ''device-alice'') 70
     (store_run memory_repo sample_removal idle_store)) = Inr moved_active"
  unfolding moved_store_eq
  by (simp add: idle_store_eq activate_def currentSessionLocked_def
      currentMembershipLocked_def sample_login_def activeAt_def sample_au_def moved_active_def
      moved_context_def moved_snapshot_def sample_membership_defs sample_hierarchy_def
      snapshot_find_def lower_bound_def findScope_def canReceive_def std_emplace_def Let_def)

text \<open>
  The removal is a real exception. Versions restart when a membership is removed, so a start
  authorized before the removal is activated after the player was put into another team under the
  same version: the transmission is active in the new team's node with the old team's recipients,
  which are not the recipients the current membership gives.
\<close>

theorem stale_authorization_survives_removal:
  "\<exists>s cmd au g ops t s' ctx.
     store_reachable memory_repo (Store_ctor True (Some (\<lambda>_ _. True)) None None) s \<and>
     authorizeStart (currentSessionLocked s) (currentMembershipLocked memory_repo s) sample_next_id
       cmd 40 0 = (Inr au, g) \<and>
     activate memory_repo au (st_session_id cmd) (st_device_id cmd) 70
       (store_run memory_repo ops s) = (Inr t, s') \<and>
     currentMembershipLocked memory_repo s' (at_sender t) = Some ctx \<and>
     snapshot_ok (mc_snapshot ctx) \<and>
     au_recipients (at_authorization t) \<noteq>
       rs_recipients (resolve (mc_snapshot ctx) (mc_role_policy ctx)
         \<lparr>tr_sender_player_id = at_sender t, tr_requested_scope = at_scope t,
          tr_membership_version = at_version t\<rparr> [])"
proof -
  obtain s' where act: "activate memory_repo sample_au (st_session_id sample_start_command)
      (st_device_id sample_start_command) 70 (store_run memory_repo sample_removal idle_store) =
      (Inr moved_active, s')"
    using moved_activation by (cases "activate memory_repo sample_au (StrongId ''session-alice'')
      (StrongId ''device-alice'') 70 (store_run memory_repo sample_removal idle_store)")
      (simp add: sample_start_command_def)
  have kept: "currentMembershipLocked memory_repo s' =
      currentMembershipLocked memory_repo (store_run memory_repo sample_removal idle_store)"
    using currentMembershipLocked_activate [of memory_repo sample_au "st_session_id sample_start_command"
        "st_device_id sample_start_command" 70 "store_run memory_repo sample_removal idle_store"]
    by (simp only: act snd_conv)
  have cur: "currentMembershipLocked memory_repo s' (at_sender moved_active) = Some (moved_context 3)"
    unfolding kept moved_store_eq
    by (simp add: idle_store_eq currentMembershipLocked_def moved_active_def sample_au_def)
  have recipients: "rs_recipients (resolve (mc_snapshot (moved_context 3)) (mc_role_policy (moved_context 3))
      \<lparr>tr_sender_player_id = at_sender moved_active, tr_requested_scope = at_scope moved_active,
       tr_membership_version = at_version moved_active\<rparr> []) = [StrongId ''alice'', StrongId ''dave'']"
    by (simp add: moved_context_def moved_snapshot_def moved_active_def sample_au_def
        sample_routing_defs del: containsScope_iff)
  have "au_recipients (at_authorization moved_active) = [StrongId ''alice'', StrongId ''bob'']"
    by (simp add: moved_active_def sample_au_def)
  moreover have "snapshot_ok (mc_snapshot (moved_context 3))"
    using moved_snapshot_ok [of 3] by (simp add: moved_context_def)
  ultimately show ?thesis
    using idle_store_reachable sample_authorized act cur recipients
    by (intro exI [of _ idle_store] exI [of _ sample_start_command] exI [of _ sample_au]
        exI [of _ 1] exI [of _ sample_removal] exI [of _ moved_active] exI [of _ s']
        exI [of _ "moved_context 3"]) simp
qed

section \<open>Moderation\<close>

lemma interrupt_audit:
  "sto_audit (snd (interrupt_transmission tid r n c s)) = sto_audit s"
  "sto_audit_enabled (snd (interrupt_transmission tid r n c s)) = sto_audit_enabled s"
  by (auto simp: interrupt_transmission_def notifyEnded1_def Let_def split: option.splits)

text \<open>
  C29: moderation stops a transmission only for an authorized moderator on the device of an
  unexpired session, and the stop names the moderator: the transmission was active, it is not
  afterwards, every other one goes on, and one audit event records the interruption with the
  moderator as actor. A refused request stops nothing.
\<close>

theorem moderation_is_authorized_and_audited:
  assumes "interruptForModeration canInterrupt cmd now v = (r, v')"
    and "sto_audit_enabled (sv_store v)"
  shows "case r of
      Inr e \<Rightarrow>
        (\<exists>session. currentSessionLocked (sv_store v) (mo_session_id cmd) = Some session \<and>
           as_device_id session = mo_device_id cmd \<and> activeAt session now \<and>
           canInterrupt (sv_store v) (as_player_id session) (mo_transmission_id cmd) \<and>
           active (sv_store v) (mo_transmission_id cmd) = Some (et_transmission e) \<and>
           et_stop_reason e = Stop_moderation_interrupted \<and>
           active (sv_store v') = (active (sv_store v))(mo_transmission_id cmd := None) \<and>
           sto_audit (sv_store v') = sto_audit (sv_store v) @
             [forced_interruption_event e Op_moderation (Some (as_player_id session))])
    | Inl err \<Rightarrow>
        sto_active (sv_store v') = sto_active (sv_store v) \<and>
        (\<exists>ev. sto_audit (sv_store v') = sto_audit (sv_store v) @ [ev] \<and>
           ev_type ev = Event_rejected \<and>
           ev_rejection_reason ev = Some (audit_moderation_rejection err))"
proof (cases "currentSessionLocked (sv_store v) (mo_session_id cmd)")
  case None
  then show ?thesis
    using assms by (auto simp: interruptForModeration_def reject_moderation_def
        recordModerationRejected_def TransmissionAuditEvent_ctor_def)
next
  case (Some session)
  show ?thesis
  proof (cases "map_of (sto_active (sv_store v)) (mo_transmission_id cmd)")
    case None
    then show ?thesis
      using assms Some by (auto simp: interruptForModeration_def interrupt_transmission_def
          reject_moderation_def recordModerationRejected_def TransmissionAuditEvent_ctor_def Let_def
          split: if_splits)
  next
    case active: (Some t)
    let ?e = "end_record Stop_moderation_interrupted now (mo_correlation_id cmd) t"
    obtain s where i: "interrupt_transmission (mo_transmission_id cmd) Stop_moderation_interrupted now
        (mo_correlation_id cmd) (sv_store v) = (Inr ?e, s)"
      by (simp add: interrupt_transmission_def active Let_def)
    then have "sto_active s = std_erase (mo_transmission_id cmd) (sto_active (sv_store v))"
      by (auto simp: interrupt_transmission_def active Let_def notifyEnded1_def)
    then have rest: "active s = (active (sv_store v))(mo_transmission_id cmd := None)"
      by (auto simp: active_def fun_eq_iff)
    have active_record: "active (record_event ev s) = active s" for ev
      by (simp add: active_def fun_eq_iff)
    have audit: "sto_audit s = sto_audit (sv_store v)" "sto_audit_enabled s"
      using assms(2) using interrupt_audit [of "mo_transmission_id cmd" Stop_moderation_interrupted now
          "mo_correlation_id cmd" "sv_store v"] by (simp_all add: i)
    show ?thesis
    proof (cases "as_device_id session = mo_device_id cmd \<and> activeAt session now \<and>
        canInterrupt (sv_store v) (as_player_id session) (mo_transmission_id cmd)")
      case True
      let ?ev = "forced_interruption_event ?e Op_moderation (Some (as_player_id session))"
      have r: "r = Inr ?e" and v': "sv_store v' = record_event ?ev s"
        using assms(1) Some True
        by (auto simp: interruptForModeration_def i Let_def recordForcedInterruption_def)
      have "sto_audit (record_event ?ev s) = sto_audit (sv_store v) @ [?ev]"
        by (simp only: record_event_fields audit if_True)
      moreover have "active (sv_store v) (mo_transmission_id cmd) = Some (et_transmission ?e)"
        by (simp add: active_def active)
      ultimately show ?thesis
        unfolding r v' sum.case active_record rest using True Some
        by (intro exI [of _ session] conjI) (simp_all only: end_record_simps)
    next
      case False
      then obtain err where "r = Inl err" "v' = v\<lparr>sv_store :=
          recordModerationRejected cmd now err (Some (as_player_id session)) (sv_store v)\<rparr>"
        using assms(1) Some
        by (auto simp: interruptForModeration_def reject_moderation_def Let_def split: if_splits)
      then show ?thesis
        using assms(2) by (simp add: recordModerationRejected_def TransmissionAuditEvent_ctor_def)
    qed
  qed
qed

section \<open>A concrete service\<close>

definition sample_service ::
  "((PlayerId, AuthoritativeMembershipContext) std_map, nat) Service" where
  "sample_service =
     \<lparr>sv_store = idle_store,
      sv_limiter = RateLimiter_ctor \<lparr>rl_maximum_requests = 10, rl_window = 1000\<rparr>
                     \<lparr>rl_maximum_requests = 20, rl_window = 1000\<rparr>,
      sv_ids = 0, sv_maximum_duration = 30000\<rparr>"

definition sample_started :: ActiveTransmission where
  "sample_started =
     \<lparr>at_authorization = sample_au, at_session_id = StrongId ''session-alice'',
      at_device_id = StrongId ''device-alice'', at_started_at = 40, at_scope_node_id = ''t1'',
      at_scope_can_subscribe = True\<rparr>"

lemma sample_activation:
  "fst (activate memory_repo sample_au (StrongId ''session-alice'') (StrongId ''device-alice'') 40
     idle_store) = Inr sample_started"
  by (simp add: idle_store_eq activate_def currentSessionLocked_def
      currentMembershipLocked_def sample_login_def activeAt_def sample_au_def sample_started_def
      sample_context_def sample_membership_defs sample_hierarchy_def
      snapshot_find_def lower_bound_def findScope_def canReceive_def std_emplace_def Let_def)

lemma sample_service_starts:
  "fst (start memory_repo sample_next_id sample_start_command 40 sample_service) =
     Inr sample_started"
proof -
  have session: "currentSessionLocked idle_store (StrongId ''session-alice'') =
      Some (sample_login ''alice'')"
    by (simp add: idle_store_eq currentSessionLocked_def)
  obtain l where allow: "allow (StrongId ''alice'') Limit_start 40 (sv_limiter sample_service) = (True, l)"
    by (simp add: sample_service_def RateLimiter_ctor_def allow_def history_of_def Let_def)
  obtain s where act: "activate memory_repo sample_au (StrongId ''session-alice'')
      (StrongId ''device-alice'') 40 idle_store = (Inr sample_started, s)"
    using sample_activation by (metis prod.collapse)
  have fields: "sv_store sample_service = idle_store" "sv_ids sample_service = 0"
      "st_session_id sample_start_command = StrongId ''session-alice''"
      "st_device_id sample_start_command = StrongId ''device-alice''"
      "as_player_id (sample_login ''alice'') = StrongId ''alice''"
      "as_device_id (sample_login ''alice'') = StrongId ''device-alice''"
      "activeAt (sample_login ''alice'') 40"
    by (simp_all add: sample_service_def sample_start_command_def sample_login_def activeAt_def)
  show ?thesis
    by (simp add: start_def fields session allow act Let_def sample_authorized)
qed

lemma sample_service_store: "sv_store sample_service = idle_store"
  by (simp add: sample_service_def)

theorem start_is_audited_witness:
  "\<exists>ev. sto_audit (sv_store (snd (start memory_repo sample_next_id sample_start_command 40
        sample_service))) = sto_audit idle_store @ [ev] \<and> ev_type ev = Event_started"
proof -
  obtain v' where run: "start memory_repo sample_next_id sample_start_command 40 sample_service =
      (Inr sample_started, v')"
    using sample_service_starts by (metis prod.collapse)
  have "sto_audit_enabled (sv_store sample_service)"
    by (simp add: sample_service_def idle_store_eq)
  from start_is_audited [OF run this] show ?thesis
    unfolding run sample_service_store [symmetric] by auto
qed

theorem start_success_witness:
  "\<exists>ctx. currentMembershipLocked memory_repo idle_store (StrongId ''alice'') = Some ctx \<and>
     at_version sample_started = ms_version (mc_snapshot ctx)"
proof -
  obtain v' where run: "start memory_repo sample_next_id sample_start_command 40 sample_service =
      (Inr sample_started, v')"
    using sample_service_starts by (metis prod.collapse)
  have "at_sender sample_started = StrongId ''alice''"
    by (simp add: sample_started_def sample_au_def)
  with start_success_is_authorized [OF run] show ?thesis
    by (auto simp: sample_service_def)
qed

theorem authorization_still_current_witness:
  "\<exists>s'. activate memory_repo sample_au (StrongId ''session-alice'') (StrongId ''device-alice'') 40
       (store_run memory_repo [] idle_store) = (Inr sample_started, s') \<and>
     currentMembershipLocked memory_repo s' (at_sender sample_started) =
       currentMembershipLocked memory_repo idle_store (at_sender sample_started)"
proof -
  obtain s' where act: "activate memory_repo sample_au (StrongId ''session-alice'')
      (StrongId ''device-alice'') 40 (store_run memory_repo [] idle_store) = (Inr sample_started, s')"
    using sample_activation by (metis prod.collapse store_run.simps(1))
  have "\<forall>oper \<in> set []. \<forall>t corr. oper \<noteq> Do_removeMembership (au_sender_player_id sample_au) t corr"
    by simp
  from authorization_still_current [OF sample_store_laws sample_store_fresh idle_store_reachable
      sample_authorized this act] act
  show ?thesis by blast
qed

definition sample_moderation :: ModerateTransmissionCommand where
  "sample_moderation =
     \<lparr>mo_session_id = StrongId ''session-bob'', mo_device_id = StrongId ''device-bob'',
      mo_transmission_id = StrongId ''x-alice'', mo_correlation_id = StrongId ''k''\<rparr>"

theorem moderation_witness:
  "\<exists>e. fst (interruptForModeration (\<lambda>_ p _. p = StrongId ''bob'') sample_moderation 90
         (sample_service\<lparr>sv_store := sample_store\<rparr>)) = Inr e \<and>
     et_transmission e = sample_active \<and>
     active (sv_store (snd (interruptForModeration (\<lambda>_ p _. p = StrongId ''bob'') sample_moderation
         90 (sample_service\<lparr>sv_store := sample_store\<rparr>)))) (StrongId ''x-alice'') = None"
proof -
  let ?v = "sample_service\<lparr>sv_store := sample_store\<rparr>"
  obtain r v' where run: "interruptForModeration (\<lambda>_ p _. p = StrongId ''bob'') sample_moderation 90
      ?v = (r, v')" by fastforce
  have enabled: "sto_audit_enabled (sv_store ?v)" by (simp add: sample_store_eq)
  have act: "active sample_store (StrongId ''x-alice'') = Some sample_active"
    by (simp add: active_def sample_store_eq)
  have "\<exists>e. r = Inr e"
    using arg_cong [OF run, of fst]
    by (auto simp: interruptForModeration_def currentSessionLocked_def sample_store_eq
        sample_moderation_def sample_login_def activeAt_def interrupt_transmission_def Let_def)
  then obtain e where "r = Inr e" by blast
  moreover have "mo_transmission_id sample_moderation = StrongId ''x-alice''"
    by (simp add: sample_moderation_def)
  ultimately show ?thesis
    using moderation_is_authorized_and_audited [OF run enabled] act unfolding run by auto
qed

end
