(* ===== verification/Identity_And_Grants.thy ===== *)
theory Identity_And_Grants
  imports Transmission_Service
begin

text \<open>
  Session issuance after external identity verification
  (\<open>libs/application/src/identity.cpp\<close>) and the derivation of voice grants
  (\<open>VoiceGrantAuthorizationService\<close> of \<open>libs/application/src/control_plane.cpp\<close>). The identity
  provider and the session identifier generator are parameters with a state of their own.
\<close>

section \<open>Sessions\<close>

record VerifiedIdentity =
  vi_player_id :: PlayerId
  vi_maximum_session_lifetime :: milliseconds

definition IdentityVerificationResult_ctor ::
  "VerifiedIdentity option \<Rightarrow> SessionAuthenticationError option \<Rightarrow>
   (SessionAuthenticationError + VerifiedIdentity) throws" where
  "IdentityVerificationResult_ctor identity err =
     throws_bind
       (exclusive_result
          ''An identity verification result must contain either an identity or an error.''
          identity err)
       (\<lambda>r. case r of
          Inr i \<Rightarrow>
            if vi_maximum_session_lifetime i \<le> 0
            then Inl (InvalidArgument ''A verified identity requires a positive session lifetime.'')
            else Inr (Inr i)
        | Inl e \<Rightarrow> Inr (Inl e))"

definition IdentitySessionPolicy_ctor :: "milliseconds \<Rightarrow> milliseconds throws" where
  "IdentitySessionPolicy_ctor maximum =
     (if maximum \<le> 0 then Inl (InvalidArgument ''The maximum session lifetime must be positive.'')
      else Inr maximum)"

definition authenticate ::
  "(string \<Rightarrow> DeviceId \<Rightarrow> time_point \<Rightarrow> 'i \<Rightarrow> (SessionAuthenticationError + VerifiedIdentity) \<times> 'i) \<Rightarrow>
   ('g \<Rightarrow> SessionId \<times> 'g) \<Rightarrow> milliseconds \<Rightarrow> AuthenticateSessionCommand \<Rightarrow> time_point \<Rightarrow>
   'i \<Rightarrow> 'g \<Rightarrow> SessionAuthenticationResult \<times> 'i \<times> 'g" where
  "authenticate verify next_session policy cmd now i g =
     (let (verification, i') = verify (ac_credential cmd) (ac_device_id cmd) now i
      in case verification of
           Inl err \<Rightarrow> (Inl err, i', g)
         | Inr identity \<Rightarrow>
             (let lifetime = min (vi_maximum_session_lifetime identity) policy;
                  (sid, g') = next_session g
              in (Inr \<lparr>as_session_id = sid, as_player_id = vi_player_id identity,
                       as_device_id = ac_device_id cmd, as_expires_at = now + ticks lifetime\<rparr>,
                  i', g')))"

text \<open>The identities a provider can return are values of the validating constructor.\<close>

definition provider_constructs ::
  "(string \<Rightarrow> DeviceId \<Rightarrow> time_point \<Rightarrow> 'i \<Rightarrow> (SessionAuthenticationError + VerifiedIdentity) \<times> 'i) \<Rightarrow>
   bool" where
  "provider_constructs verify \<longleftrightarrow>
     (\<forall>credential device now i. \<exists>identity err.
        IdentityVerificationResult_ctor identity err = Inr (fst (verify credential device now i)))"

text \<open>
  A session is issued only for an identity the provider verified for this credential and
  device now; it carries that player and device, is active immediately, and expires no later than
  the provider and the server policy allow. A refusal is passed on and uses up no identifier.
\<close>

theorem authenticate_issues_bounded_session:
  assumes "provider_constructs verify" and "IdentitySessionPolicy_ctor maximum = Inr policy"
    and "authenticate verify next_session policy cmd now i g = (r, i', g')"
  shows "case r of
      Inl err \<Rightarrow> verify (ac_credential cmd) (ac_device_id cmd) now i = (Inl err, i') \<and> g' = g
    | Inr session \<Rightarrow>
        (\<exists>identity. verify (ac_credential cmd) (ac_device_id cmd) now i = (Inr identity, i') \<and>
           as_player_id session = vi_player_id identity \<and>
           as_device_id session = ac_device_id cmd \<and>
           next_session g = (as_session_id session, g') \<and>
           activeAt session now \<and>
           as_expires_at session \<le> now + ticks (vi_maximum_session_lifetime identity) \<and>
           as_expires_at session \<le> now + ticks maximum \<and>
           \<not> activeAt session (now + ticks maximum))"
proof -
  obtain v where v: "verify (ac_credential cmd) (ac_device_id cmd) now i = (v, i')"
    using assms(3) by (auto simp: authenticate_def split: prod.splits sum.splits)
  obtain identity err where "IdentityVerificationResult_ctor identity err = Inr v"
    using assms(1) v unfolding provider_constructs_def by (metis fst_conv)
  then have positive: "0 < vi_maximum_session_lifetime x" if "v = Inr x" for x
    using that
    by (cases identity; cases err)
      (auto simp: IdentityVerificationResult_ctor_def split: if_splits)
  have policy: "0 < policy" "policy = maximum"
    using assms(2) by (auto simp: IdentitySessionPolicy_ctor_def split: if_splits)
  show ?thesis
    using assms(3) v positive policy
    by (auto simp: authenticate_def activeAt_def ticks_min Let_def
        split: sum.splits prod.splits)
qed

section \<open>Voice grants\<close>

record VoiceGrantClaims =
  vc_player_id :: PlayerId
  vc_device_id :: DeviceId
  vc_membership_version :: u64
  vc_group_id :: GroupId
  vc_specialization_id :: SpecializationId
  vc_team_id :: TeamId
  vc_transmit_scopes :: "VoiceScope list"
  vc_receive_scopes :: "VoiceScope list"
  vc_expires_at :: time_point

datatype VoiceGrantError =
    Grant_session_not_found
  | Grant_session_device_mismatch
  | Grant_session_expired
  | Grant_membership_unavailable
  | Grant_player_not_in_membership
  | Grant_voice_not_connected

definition VoiceGrantPolicy_ctor :: "milliseconds \<Rightarrow> milliseconds throws" where
  "VoiceGrantPolicy_ctor lifetime =
     (if lifetime \<le> 0 then Inl (InvalidArgument ''voice grant lifetime must be positive'')
      else Inr lifetime)"

fun grant_scopes ::
  "VoiceMembership \<Rightarrow> RolePolicy \<Rightarrow> ScopeDefinition list \<Rightarrow> VoiceScope list \<times> VoiceScope list"
where
  "grant_scopes m policy [] = ([], [])"
| "grant_scopes m policy (d # rest) =
     (let (transmit, receive) = grant_scopes m policy rest
      in (if \<not> vm_transmit_muted m \<and> vm_voice_ban_status m = Ban_none \<and>
             canTransmit policy (vm_role_ids m) (sd_scope d)
          then sd_scope d # transmit else transmit,
          if vm_can_receive_voice m \<and> canReceive policy (vm_role_ids m) (sd_scope d)
          then sd_scope d # receive else receive))"

definition derive ::
  "(SessionId \<Rightarrow> AuthenticatedSession option) \<Rightarrow>
   (PlayerId \<Rightarrow> AuthoritativeMembershipContext option) \<Rightarrow> milliseconds \<Rightarrow> SessionId \<Rightarrow> DeviceId \<Rightarrow>
   time_point \<Rightarrow> VoiceGrantError + VoiceGrantClaims" where
  "derive sessions memberships policy sid dev now =
     (case sessions sid of
        None \<Rightarrow> Inl Grant_session_not_found
      | Some session \<Rightarrow>
          if as_device_id session \<noteq> dev then Inl Grant_session_device_mismatch
          else if \<not> activeAt session now then Inl Grant_session_expired
          else (case memberships (as_player_id session) of
             None \<Rightarrow> Inl Grant_membership_unavailable
           | Some ctx \<Rightarrow>
               (case snapshot_find (mc_snapshot ctx) (as_player_id session) of
                  None \<Rightarrow> Inl Grant_player_not_in_membership
                | Some m \<Rightarrow>
                    if \<not> vm_connected m then Inl Grant_voice_not_connected
                    else
                      (let (transmit, receive) =
                             grant_scopes m (mc_role_policy ctx)
                               (hi_scopes (ms_hierarchy (mc_snapshot ctx)))
                       in Inr \<lparr>vc_player_id = as_player_id session, vc_device_id = dev,
                               vc_membership_version = ms_version (mc_snapshot ctx),
                               vc_group_id = vm_group_id m,
                               vc_specialization_id = vm_specialization_id m,
                               vc_team_id = vm_team_id m,
                               vc_transmit_scopes = transmit, vc_receive_scopes = receive,
                               vc_expires_at = min (as_expires_at session) (now + ticks policy)\<rparr>))))"

lemma grant_scopes_transmit:
  "s \<in> set (fst (grant_scopes m policy ds)) \<longleftrightarrow>
     s \<in> sd_scope ` set ds \<and> \<not> vm_transmit_muted m \<and> vm_voice_ban_status m = Ban_none \<and>
     canTransmit policy (vm_role_ids m) s"
  by (induction ds) (auto split: prod.splits)

lemma grant_scopes_receive:
  "s \<in> set (snd (grant_scopes m policy ds)) \<longleftrightarrow>
     s \<in> sd_scope ` set ds \<and> vm_can_receive_voice m \<and> canReceive policy (vm_role_ids m) s"
  by (induction ds) (auto split: prod.splits)

text \<open>The scopes a connected member of an active group is granted are those routing authorizes.\<close>

lemma granted_scopes:
  assumes "snapshot_ok (mc_snapshot ctx)"
    and member: "snapshot_find (mc_snapshot ctx) (vc_player_id claims) = Some m" "vm_connected m"
      "vc_group_id claims = vm_group_id m" "vc_membership_version claims = ms_version (mc_snapshot ctx)"
      "vc_transmit_scopes claims = fst (grant_scopes m (mc_role_policy ctx)
         (hi_scopes (ms_hierarchy (mc_snapshot ctx))))"
    and "\<exists>grp \<in> set (hi_groups (ms_hierarchy (mc_snapshot ctx))).
           gr_id grp = vc_group_id claims \<and> gr_active grp"
  shows "s \<in> set (vc_transmit_scopes claims) \<longleftrightarrow>
    resolution_accepted (resolve (mc_snapshot ctx) (mc_role_policy ctx)
      \<lparr>tr_sender_player_id = vc_player_id claims, tr_requested_scope = s,
       tr_membership_version = vc_membership_version claims\<rparr> restrictions)"
proof -
  let ?request = "\<lparr>tr_sender_player_id = vc_player_id claims, tr_requested_scope = s,
      tr_membership_version = vc_membership_version claims\<rparr>"
  have found: "m \<in> set (ms_memberships (mc_snapshot ctx))" "vm_player_id m = vc_player_id claims"
    using member(1) snapshot_find_iff [OF assms(1)] by simp_all
  have sender: "x = m" if "x \<in> set (ms_memberships (mc_snapshot ctx))"
      "vm_player_id x = vc_player_id claims" for x
    using that member(1) snapshot_find_iff [OF assms(1), of "vc_player_id claims" x] by simp
  have "may_transmit (mc_snapshot ctx) (mc_role_policy ctx) ?request m \<longleftrightarrow>
      s \<in> set (vc_transmit_scopes claims)"
    using found member(2-5) assms(7) by (auto simp: may_transmit_def grant_scopes_transmit)
  moreover have "(\<exists>x. may_transmit (mc_snapshot ctx) (mc_role_policy ctx) ?request x) \<longleftrightarrow>
      may_transmit (mc_snapshot ctx) (mc_role_policy ctx) ?request m"
    using sender by (auto simp: may_transmit_def)
  ultimately show ?thesis
    using resolve_accepted_sender [OF assms(1)] by simp
qed

text \<open>
  C40: a voice grant says what the routing rules say. A grant is derived exactly for a live session
  of the named device whose player is a connected member. It names that player and the current
  membership version, it expires within both the session and the grant policy, and when the snapshot
  is valid and the
  player's group is active its transmit scopes are exactly those in which a start under the granted
  version would be authorized for the player now.
\<close>

theorem grant_agrees_with_routing:
  "((\<exists>claims. derive sessions memberships policy sid dev now = Inr claims) \<longleftrightarrow>
      (\<exists>session ctx m. sessions sid = Some session \<and> as_device_id session = dev \<and>
         activeAt session now \<and> memberships (as_player_id session) = Some ctx \<and>
         snapshot_find (mc_snapshot ctx) (as_player_id session) = Some m \<and> vm_connected m)) \<and>
   (\<forall>claims. derive sessions memberships policy sid dev now = Inr claims \<longrightarrow>
      (\<exists>session ctx. sessions sid = Some session \<and> as_player_id session = vc_player_id claims \<and>
         as_device_id session = dev \<and> activeAt session now \<and>
         vc_expires_at claims \<le> as_expires_at session \<and>
         vc_expires_at claims \<le> now + ticks policy \<and>
         memberships (vc_player_id claims) = Some ctx \<and>
         vc_membership_version claims = ms_version (mc_snapshot ctx) \<and>
         (snapshot_ok (mc_snapshot ctx) \<and>
          (\<exists>grp \<in> set (hi_groups (ms_hierarchy (mc_snapshot ctx))).
             gr_id grp = vc_group_id claims \<and> gr_active grp) \<longrightarrow>
          (\<forall>s restrictions. s \<in> set (vc_transmit_scopes claims) \<longleftrightarrow>
             resolution_accepted (resolve (mc_snapshot ctx) (mc_role_policy ctx)
               \<lparr>tr_sender_player_id = vc_player_id claims, tr_requested_scope = s,
                tr_membership_version = vc_membership_version claims\<rparr> restrictions)))))"
proof (intro conjI allI impI)
  show "(\<exists>claims. derive sessions memberships policy sid dev now = Inr claims) \<longleftrightarrow>
      (\<exists>session ctx m. sessions sid = Some session \<and> as_device_id session = dev \<and>
         activeAt session now \<and> memberships (as_player_id session) = Some ctx \<and>
         snapshot_find (mc_snapshot ctx) (as_player_id session) = Some m \<and> vm_connected m)"
    by (auto simp: derive_def Let_def split: option.splits prod.splits)
next
  fix claims
  assume derived: "derive sessions memberships policy sid dev now = Inr claims"
  then obtain session ctx m where session: "sessions sid = Some session" "as_device_id session = dev"
      "activeAt session now" "as_player_id session = vc_player_id claims"
      "snapshot_find (mc_snapshot ctx) (vc_player_id claims) = Some m" "vm_connected m"
      "vc_group_id claims = vm_group_id m" "vc_membership_version claims = ms_version (mc_snapshot ctx)"
      "vc_transmit_scopes claims = fst (grant_scopes m (mc_role_policy ctx)
         (hi_scopes (ms_hierarchy (mc_snapshot ctx))))"
      "vc_expires_at claims = min (as_expires_at session) (now + ticks policy)"
      "memberships (vc_player_id claims) = Some ctx"
    by (auto simp: derive_def Let_def split: option.splits if_splits prod.splits)
  show "\<exists>session ctx. sessions sid = Some session \<and> as_player_id session = vc_player_id claims \<and>
      as_device_id session = dev \<and> activeAt session now \<and>
      vc_expires_at claims \<le> as_expires_at session \<and>
      vc_expires_at claims \<le> now + ticks policy \<and>
      memberships (vc_player_id claims) = Some ctx \<and>
      vc_membership_version claims = ms_version (mc_snapshot ctx) \<and>
      (snapshot_ok (mc_snapshot ctx) \<and>
       (\<exists>grp \<in> set (hi_groups (ms_hierarchy (mc_snapshot ctx))).
          gr_id grp = vc_group_id claims \<and> gr_active grp) \<longrightarrow>
       (\<forall>s restrictions. s \<in> set (vc_transmit_scopes claims) \<longleftrightarrow>
          resolution_accepted (resolve (mc_snapshot ctx) (mc_role_policy ctx)
            \<lparr>tr_sender_player_id = vc_player_id claims, tr_requested_scope = s,
             tr_membership_version = vc_membership_version claims\<rparr> restrictions)))"
    using session granted_scopes [OF _ session(5-9)]
    by (intro exI [of _ session] exI [of _ ctx]) simp
qed

section \<open>Concrete values\<close>

definition sample_verify ::
  "string \<Rightarrow> DeviceId \<Rightarrow> time_point \<Rightarrow> nat \<Rightarrow> (SessionAuthenticationError + VerifiedIdentity) \<times> nat"
where
  "sample_verify credential device now i =
     (if credential = ''secret''
      then (Inr \<lparr>vi_player_id = StrongId ''alice'', vi_maximum_session_lifetime = 60000\<rparr>, Suc i)
      else (Inl Auth_invalid_credentials, i))"

definition sample_next_session :: "nat \<Rightarrow> SessionId \<times> nat" where
  "sample_next_session n = (StrongId (replicate (Suc n) CHR ''s''), Suc n)"

definition sample_credentials :: AuthenticateSessionCommand where
  "sample_credentials =
     \<lparr>ac_credential = ''secret'', ac_device_id = StrongId ''d'', ac_correlation_id = StrongId ''k''\<rparr>"

theorem authenticate_witness:
  "\<exists>session. fst (authenticate sample_verify sample_next_session 900000 sample_credentials 5 0 0) =
       Inr session \<and> activeAt session 5 \<and> as_expires_at session \<le> 5 + ticks 60000 \<and>
       as_device_id session = StrongId ''d''"
proof -
  have "provider_constructs sample_verify"
    unfolding provider_constructs_def
  proof (intro allI)
    fix credential device now i
    show "\<exists>identity err. IdentityVerificationResult_ctor identity err =
        Inr (fst (sample_verify credential device now i))"
    proof (cases "credential = ''secret''")
      case True
      then show ?thesis
        by (intro exI [of _ "Some \<lparr>vi_player_id = StrongId ''alice'',
            vi_maximum_session_lifetime = 60000\<rparr>"] exI [of _ None])
          (simp add: sample_verify_def IdentityVerificationResult_ctor_def)
    next
      case False
      then show ?thesis
        by (intro exI [of _ None] exI [of _ "Some Auth_invalid_credentials"])
          (simp add: sample_verify_def IdentityVerificationResult_ctor_def)
    qed
  qed
  moreover have "IdentitySessionPolicy_ctor 900000 = Inr 900000"
    by (simp add: IdentitySessionPolicy_ctor_def)
  moreover obtain r i' g' where run: "authenticate sample_verify sample_next_session 900000
      sample_credentials 5 0 0 = (r, i', g')"
    using prod_cases3 by blast
  ultimately have "case r of Inl err \<Rightarrow> True
      | Inr session \<Rightarrow> activeAt session 5 \<and> as_expires_at session \<le> 5 + ticks 60000 \<and>
          as_device_id session = StrongId ''d''"
    using authenticate_issues_bounded_session [of sample_verify 900000 900000 sample_next_session
        sample_credentials 5 0 0 r i' g']
    by (auto simp: sample_verify_def sample_credentials_def split: sum.splits)
  moreover have "\<exists>session. r = Inr session"
    using arg_cong [OF run, of fst]
    by (auto simp: authenticate_def sample_verify_def sample_credentials_def
        sample_next_session_def Let_def)
  ultimately show ?thesis by (auto simp: run)
qed

lemma sample_derive:
  "derive (currentSessionLocked idle_store) (currentMembershipLocked memory_repo idle_store) 30000
     (StrongId ''session-alice'') (StrongId ''device-alice'') 40 =
     Inr \<lparr>vc_player_id = StrongId ''alice'', vc_device_id = StrongId ''device-alice'',
          vc_membership_version = 3, vc_group_id = StrongId ''g'',
          vc_specialization_id = StrongId ''s1'', vc_team_id = StrongId ''t1'',
          vc_transmit_scopes = [Team_scope, Specialization_scope],
          vc_receive_scopes = [Team_scope, Specialization_scope], vc_expires_at = 1000000000\<rparr>"
  by (simp add: derive_def idle_store_eq currentSessionLocked_def currentMembershipLocked_def
      sample_login_def activeAt_def sample_context_def sample_routing_defs ticks_def Let_def
      del: containsScope_iff)

theorem grant_agrees_witness:
  "(\<exists>claims. derive (currentSessionLocked idle_store) (currentMembershipLocked memory_repo idle_store)
      30000 (StrongId ''session-alice'') (StrongId ''device-alice'') 40 = Inr claims) \<and>
   resolution_accepted (resolve (sample_snapshot 3) sample_policy
     (sample_request ''alice'' Team_scope 3) [])"
proof -
  have ctx: "currentMembershipLocked memory_repo idle_store (StrongId ''alice'') =
      Some (sample_context 3)"
    by (simp add: idle_store_eq currentMembershipLocked_def)
  have ok: "snapshot_ok (mc_snapshot (sample_context 3))"
    using sample_snapshot_ok [of 3] by (simp add: sample_context_def)
  have grp: "\<exists>grp \<in> set (hi_groups (ms_hierarchy (mc_snapshot (sample_context 3)))).
      gr_id grp = StrongId ''g'' \<and> gr_active grp"
    by (simp add: sample_context_def sample_snapshot_def sample_hierarchy_def)
  from grant_agrees_with_routing [of "currentSessionLocked idle_store"
      "currentMembershipLocked memory_repo idle_store" 30000 "StrongId ''session-alice''"
      "StrongId ''device-alice''" 40, THEN conjunct2, rule_format, OF sample_derive]
  obtain restricted where "restricted = sample_context 3"
    "snapshot_ok (mc_snapshot restricted) \<and>
       (\<exists>grp \<in> set (hi_groups (ms_hierarchy (mc_snapshot restricted))).
          gr_id grp = StrongId ''g'' \<and> gr_active grp) \<longrightarrow>
     (\<forall>s restrictions. s \<in> {Team_scope, Specialization_scope} \<longleftrightarrow>
        resolution_accepted (resolve (mc_snapshot restricted) (mc_role_policy restricted)
          \<lparr>tr_sender_player_id = StrongId ''alice'', tr_requested_scope = s,
           tr_membership_version = 3\<rparr> restrictions))"
    using ctx by auto
  then have "resolution_accepted (resolve (sample_snapshot 3) sample_policy
      (sample_request ''alice'' Team_scope 3) [])"
    using ok grp by (auto simp: sample_context_def sample_request_def)
  with sample_derive show ?thesis by blast
qed

end
