(* ===== verification/Directory_Service.thy ===== *)
theory Directory_Service
  imports Control_Plane_Types
begin

text \<open>
  The public directory (\<open>libs/application/include/hvc/application/directory.hpp\<close>,
  \<open>libs/application/src/directory.cpp\<close>): public profiles and roles, the group-limited directory
  view with its version, and the presence view with its bounded history of revisions. The
  membership provider and the transport presence provider are parameters.
\<close>

section \<open>Data\<close>

datatype DirectoryNodeType = Node_group | Node_specialization | Node_team

record DirectoryNode =
  dn_node_id :: string
  dn_node_type :: DirectoryNodeType
  dn_parent_node_id :: "string option"
  dn_display_name :: string
  dn_sort_index :: u32

record PublicDirectoryRole =
  pr_role_id :: RoleId
  pr_display_name :: string
  pr_version :: u64

record DirectoryProfile =
  dp_player_id :: PlayerId
  dp_display_name :: string
  dp_version :: u64

record DirectoryParticipant =
  pa_player_id :: PlayerId
  pa_display_name :: string
  pa_primary_team_id :: TeamId
  pa_public_role_ids :: "RoleId list"

record DirectorySnapshot =
  di_version :: u64
  di_group_id :: GroupId
  di_nodes :: "DirectoryNode list"
  di_public_roles :: "PublicDirectoryRole list"
  di_participants :: "DirectoryParticipant list"

datatype DirectoryReadError = Directory_unavailable | Directory_limit_exceeded

datatype DirectoryPresenceState = Offline_state | Online_state

type_synonym DirectoryPresenceEntry = "PlayerId \<times> DirectoryPresenceState"

datatype DirectoryPresenceMode = Mode_snapshot | Mode_delta

record DirectoryPresenceSnapshot =
  ps_version :: u64
  ps_mode :: DirectoryPresenceMode
  ps_observed_at :: time_point
  ps_entries :: "DirectoryPresenceEntry list"

datatype DirectoryPresenceReadError = Presence_directory_unavailable | Presence_snapshot_required

record VersionedDirectory =
  vd_version :: u64
  vd_fingerprint :: string

record PresenceRevision =
  rv_version :: u64
  rv_entries :: "DirectoryPresenceEntry list"

record VersionedPresence =
  vp_version :: u64
  vp_initialized :: bool
  vp_states :: "(PlayerId, DirectoryPresenceState) std_map"
  vp_revisions :: "PresenceRevision list"

record DirectoryApplicationService =
  ds_profiles :: "(PlayerId, DirectoryProfile) std_map"
  ds_public_roles :: "(RoleId, PublicDirectoryRole) std_map"
  ds_catalog_version :: u64
  ds_directory_versions :: "(GroupId, VersionedDirectory) std_map"
  ds_presence_versions :: "(GroupId, VersionedPresence) std_map"

definition DirectoryApplicationService_ctor :: DirectoryApplicationService where
  "DirectoryApplicationService_ctor =
     \<lparr>ds_profiles = [], ds_public_roles = [], ds_catalog_version = 0, ds_directory_versions = [],
      ds_presence_versions = []\<rparr>"

definition maximum_directory_participants :: nat where
  "maximum_directory_participants = 200"

definition maximum_presence_revisions :: nat where
  "maximum_presence_revisions = 128"

section \<open>Profiles and roles\<close>

definition upsertProfile ::
  "DirectoryProfile \<Rightarrow> DirectoryApplicationService \<Rightarrow> (bool \<times> DirectoryApplicationService) throws"
where
  "upsertProfile profile d =
     (if dp_display_name profile = [] \<or> dp_version profile = 0
      then Inl (InvalidArgument ''A directory profile requires a name and positive version.'')
      else if (case map_of (ds_profiles d) (dp_player_id profile) of
                 None \<Rightarrow> False
               | Some existing \<Rightarrow> dp_version profile \<le> dp_version existing)
      then Inr (False, d)
      else Inr (True, d\<lparr>ds_profiles :=
             std_put (dp_player_id profile) profile (ds_profiles d)\<rparr>))"

fun role_catalog ::
  "u64 \<Rightarrow> PublicDirectoryRole list \<Rightarrow> (RoleId, PublicDirectoryRole) std_map \<Rightarrow>
   (RoleId, PublicDirectoryRole) std_map throws" where
  "role_catalog catalog_version [] replacement = Inr replacement"
| "role_catalog catalog_version (role # rest) replacement =
     (if pr_display_name role = [] \<or> pr_version role = 0 \<or> catalog_version < pr_version role
      then Inl (InvalidArgument ''A public role has an invalid name or version.'')
      else if std_contains replacement (pr_role_id role)
      then Inl (InvalidArgument ''The public role catalog contains a duplicate role.'')
      else role_catalog catalog_version rest (std_emplace (pr_role_id role) role replacement))"

definition replacePublicRoles ::
  "u64 \<Rightarrow> PublicDirectoryRole list \<Rightarrow> DirectoryApplicationService \<Rightarrow>
   (bool \<times> DirectoryApplicationService) throws" where
  "replacePublicRoles catalog_version roles d =
     (if catalog_version = 0
      then Inl (InvalidArgument ''A public role catalog requires a positive version.'')
      else throws_bind (role_catalog catalog_version roles []) (\<lambda>replacement.
        if catalog_version \<le> ds_catalog_version d then Inr (False, d)
        else Inr (True, d\<lparr>ds_public_roles := replacement,
                          ds_catalog_version := catalog_version\<rparr>)))"

section \<open>The directory view\<close>

definition currentContextFor ::
  "(PlayerId \<Rightarrow> AuthoritativeMembershipContext option) \<Rightarrow> PlayerId \<Rightarrow>
   AuthoritativeMembershipContext option" where
  "currentContextFor memberships actor =
     (case memberships actor of
        None \<Rightarrow> None
      | Some ctx \<Rightarrow>
          (case snapshot_find (mc_snapshot ctx) actor of
             None \<Rightarrow> None
           | Some m \<Rightarrow>
               (case findGroup (ms_hierarchy (mc_snapshot ctx)) (vm_group_id m) of
                  None \<Rightarrow> None
                | Some g \<Rightarrow> if \<not> gr_active g then None else Some ctx)))"

fun specialization_nodes ::
  "Group \<Rightarrow> GroupId \<Rightarrow> Specialization list \<Rightarrow> u32 \<Rightarrow> (SpecializationId, u32) std_map \<Rightarrow>
   DirectoryNode list \<times> (SpecializationId, u32) std_map" where
  "specialization_nodes g actor_group [] index next = ([], next)"
| "specialization_nodes g actor_group (s # rest) index next =
     (if sp_group_id s \<noteq> actor_group then specialization_nodes g actor_group rest index next
      else
        (let (nodes, next') =
               specialization_nodes g actor_group rest (index + 1) (std_emplace (sp_id s) 0 next)
         in (\<lparr>dn_node_id = id_value (sp_id s), dn_node_type = Node_specialization,
              dn_parent_node_id = Some (id_value (gr_id g)), dn_display_name = sp_display_name s,
              dn_sort_index = index\<rparr> # nodes, next')))"

fun team_nodes :: "Team list \<Rightarrow> (SpecializationId, u32) std_map \<Rightarrow> DirectoryNode list" where
  "team_nodes [] next = []"
| "team_nodes (t # rest) next =
     (case map_of next (tm_specialization_id t) of
        None \<Rightarrow> team_nodes rest next
      | Some index \<Rightarrow>
          \<lparr>dn_node_id = id_value (tm_id t), dn_node_type = Node_team,
           dn_parent_node_id = Some (id_value (tm_specialization_id t)),
           dn_display_name = tm_display_name t, dn_sort_index = index\<rparr>
          # team_nodes rest (std_put (tm_specialization_id t) (index + 1) next))"

fun public_roles_of ::
  "(RoleId, PublicDirectoryRole) std_map \<Rightarrow> RoleId list \<Rightarrow> RoleId list \<Rightarrow> (RoleId, unit) std_map \<Rightarrow> u64 \<Rightarrow>
   RoleId list \<times> (RoleId, unit) std_map \<times> u64" where
  "public_roles_of catalog [] ids referenced version = (ids, referenced, version)"
| "public_roles_of catalog (r # rest) ids referenced version =
     (case map_of catalog r of
        None \<Rightarrow> public_roles_of catalog rest ids referenced version
      | Some role \<Rightarrow>
          public_roles_of catalog rest (ids @ [r]) (std_emplace r () referenced)
            (max version (pr_version role)))"

fun directory_participants ::
  "DirectoryApplicationService \<Rightarrow> VoiceMembership list \<Rightarrow> (RoleId, unit) std_map \<Rightarrow> u64 \<Rightarrow>
   DirectoryParticipant list \<times> (RoleId, unit) std_map \<times> u64" where
  "directory_participants d [] referenced version = ([], referenced, version)"
| "directory_participants d (m # rest) referenced version =
     (let (name, version1) =
            (case map_of (ds_profiles d) (vm_player_id m) of
               None \<Rightarrow> (id_value (vm_player_id m), version)
             | Some p \<Rightarrow> (dp_display_name p, max version (dp_version p)));
          (ids, referenced1, version2) =
            public_roles_of (ds_public_roles d) (vm_role_ids m) [] referenced version1;
          (participants, referenced2, version3) =
            directory_participants d rest referenced1 version2
      in (\<lparr>pa_player_id = vm_player_id m, pa_display_name = name,
           pa_primary_team_id = vm_team_id m, pa_public_role_ids = remdups_adj (sort ids)\<rparr>
          # participants, referenced2, version3))"

section \<open>Fingerprint\<close>

definition appendFingerprint :: "string \<Rightarrow> string \<Rightarrow> string" where
  "appendFingerprint fingerprint v = fingerprint @ decimal (length v) @ '':'' @ v @ '';''"

definition appendFingerprint_u64 :: "string \<Rightarrow> u64 \<Rightarrow> string" where
  "appendFingerprint_u64 fingerprint v = appendFingerprint fingerprint (decimal (unat v))"

fun nodeTypeFingerprint :: "DirectoryNodeType \<Rightarrow> string" where
  "nodeTypeFingerprint Node_group = ''group''"
| "nodeTypeFingerprint Node_specialization = ''specialization''"
| "nodeTypeFingerprint Node_team = ''team''"

definition fingerprint_node :: "string \<Rightarrow> DirectoryNode \<Rightarrow> string" where
  "fingerprint_node fp node =
     appendFingerprint_u64
       (appendFingerprint
          (appendFingerprint
             (appendFingerprint
                (appendFingerprint fp (dn_node_id node))
                (nodeTypeFingerprint (dn_node_type node)))
             (case dn_parent_node_id node of None \<Rightarrow> [] | Some p \<Rightarrow> p))
          (dn_display_name node))
       (ucast (dn_sort_index node))"

definition fingerprint_role :: "string \<Rightarrow> PublicDirectoryRole \<Rightarrow> string" where
  "fingerprint_role fp role =
     appendFingerprint (appendFingerprint fp (id_value (pr_role_id role))) (pr_display_name role)"

definition fingerprint_participant :: "string \<Rightarrow> DirectoryParticipant \<Rightarrow> string" where
  "fingerprint_participant fp p =
     foldl (\<lambda>fp r. appendFingerprint fp (id_value r))
       (appendFingerprint
          (appendFingerprint
             (appendFingerprint fp (id_value (pa_player_id p)))
             (pa_display_name p))
          (id_value (pa_primary_team_id p)))
       (pa_public_role_ids p)"

definition directory_fingerprint :: "DirectorySnapshot \<Rightarrow> string" where
  "directory_fingerprint s =
     foldl fingerprint_participant
       (foldl fingerprint_role (foldl fingerprint_node [] (di_nodes s)) (di_public_roles s))
       (di_participants s)"

text \<open>The version of a group's view: the next one exactly when the fingerprint has changed.\<close>

definition next_directory_version ::
  "VersionedDirectory option \<Rightarrow> u64 \<Rightarrow> string \<Rightarrow> VersionedDirectory throws" where
  "next_directory_version known source_version fingerprint =
     (case known of
        None \<Rightarrow> Inr \<lparr>vd_version = max 1 source_version, vd_fingerprint = fingerprint\<rparr>
      | Some v \<Rightarrow>
          if vd_fingerprint v \<noteq> fingerprint
          then if vd_version v = - 1
               then Inl (OverflowError ''The directory version space is exhausted.'')
               else Inr \<lparr>vd_version = max (vd_version v + 1) source_version,
                         vd_fingerprint = fingerprint\<rparr>
          else Inr v)"

definition makeDirectory ::
  "AuthoritativeMembershipContext \<Rightarrow> VoiceMembership \<Rightarrow> DirectoryApplicationService \<Rightarrow>
   ((DirectoryReadError + DirectorySnapshot) \<times> DirectoryApplicationService) throws" where
  "makeDirectory ctx actor d =
     (let snap = mc_snapshot ctx; hierarchy = ms_hierarchy snap in
      case findGroup hierarchy (vm_group_id actor) of
        None \<Rightarrow> Inr (Inl Directory_unavailable, d)
      | Some g \<Rightarrow>
          if \<not> gr_active g then Inr (Inl Directory_unavailable, d)
          else
            (let visible = filter (\<lambda>m. vm_group_id m = vm_group_id actor) (ms_memberships snap) in
             if maximum_directory_participants < length visible
             then Inr (Inl Directory_limit_exceeded, d)
             else
               (let (specializations, next) =
                      specialization_nodes g (vm_group_id actor) (hi_specializations hierarchy) 0 [];
                    nodes =
                      \<lparr>dn_node_id = id_value (gr_id g), dn_node_type = Node_group,
                       dn_parent_node_id = None, dn_display_name = gr_display_name g,
                       dn_sort_index = 0\<rparr> # specializations @ team_nodes (hi_teams hierarchy) next;
                    (participants, referenced, source_version) =
                      directory_participants d (sort_key vm_player_id visible) [] (ms_version snap);
                    result =
                      \<lparr>di_version = ms_version snap, di_group_id = vm_group_id actor,
                       di_nodes = nodes,
                       di_public_roles =
                         map (\<lambda>r. the (map_of (ds_public_roles d) r)) (keys referenced),
                       di_participants = participants\<rparr>;
                    fingerprint = directory_fingerprint result
                in throws_bind
                     (next_directory_version
                        (map_of (ds_directory_versions d) (vm_group_id actor)) source_version
                        fingerprint)
                     (\<lambda>v. Inr (Inr (result\<lparr>di_version := vd_version v\<rparr>),
                        d\<lparr>ds_directory_versions :=
                          std_put (vm_group_id actor) v (ds_directory_versions d)\<rparr>)))))"

definition directoryFor ::
  "(PlayerId \<Rightarrow> AuthoritativeMembershipContext option) \<Rightarrow> PlayerId \<Rightarrow>
   DirectoryApplicationService \<Rightarrow>
   ((DirectoryReadError + DirectorySnapshot) \<times> DirectoryApplicationService) throws" where
  "directoryFor memberships actor d =
     (case currentContextFor memberships actor of
        None \<Rightarrow> Inr (Inl Directory_unavailable, d)
      | Some ctx \<Rightarrow>
          (case snapshot_find (mc_snapshot ctx) actor of
             None \<Rightarrow> Inr (Inl Directory_unavailable, d)
           | Some m \<Rightarrow> makeDirectory ctx m d))"

section \<open>Presence\<close>

fun presence_states ::
  "(PlayerId \<Rightarrow> nat) \<Rightarrow> GroupId \<Rightarrow> VoiceMembership list \<Rightarrow>
   (PlayerId, DirectoryPresenceState) std_map \<Rightarrow> (PlayerId, DirectoryPresenceState) std_map option"
where
  "presence_states connected g [] states = Some states"
| "presence_states connected g (m # rest) states =
     (if vm_group_id m \<noteq> g then presence_states connected g rest states
      else if length states = maximum_directory_participants then None
      else presence_states connected g rest
             (std_emplace (vm_player_id m)
                (if connected (vm_player_id m) = 0 then Offline_state else Online_state) states))"

definition empty_presence :: VersionedPresence where
  "empty_presence =
     \<lparr>vp_version = 0, vp_initialized = False, vp_states = [], vp_revisions = []\<rparr>"

definition changed_entries ::
  "(PlayerId, DirectoryPresenceState) std_map \<Rightarrow> (PlayerId, DirectoryPresenceState) std_map \<Rightarrow>
   DirectoryPresenceEntry list" where
  "changed_entries previous current =
     filter (\<lambda>e. case map_of previous (fst e) of None \<Rightarrow> True | Some st \<Rightarrow> st \<noteq> snd e) current"

definition observe_presence ::
  "(PlayerId, DirectoryPresenceState) std_map \<Rightarrow> VersionedPresence \<Rightarrow> VersionedPresence throws"
where
  "observe_presence current v =
     (if \<not> vp_initialized v
      then Inr (v\<lparr>vp_version := 1, vp_initialized := True, vp_states := current\<rparr>)
      else if vp_states v \<noteq> current
      then if vp_version v = - 1
           then Inl (OverflowError ''The presence version space is exhausted.'')
           else
             (let version = vp_version v + 1;
                  revisions = vp_revisions v @
                    [\<lparr>rv_version = version, rv_entries = changed_entries (vp_states v) current\<rparr>]
              in Inr (v\<lparr>vp_version := version, vp_states := current,
                        vp_revisions :=
                          (if maximum_presence_revisions < length revisions then tl revisions
                           else revisions)\<rparr>))
      else Inr v)"

definition snapshot_is_required :: "u64 \<Rightarrow> VersionedPresence \<Rightarrow> bool" where
  "snapshot_is_required after v \<longleftrightarrow>
     after = 0 \<or> vp_version v < after \<or>
     (vp_revisions v \<noteq> [] \<and> after < rv_version (hd (vp_revisions v)) - 1)"

fun collect_changes ::
  "(PlayerId, DirectoryPresenceState) std_map \<Rightarrow> DirectoryPresenceEntry list \<Rightarrow>
   (PlayerId, DirectoryPresenceState) std_map \<Rightarrow> (PlayerId, DirectoryPresenceState) std_map" where
  "collect_changes states [] latest = latest"
| "collect_changes states ((p, st) # rest) latest =
     collect_changes states rest (if std_contains states p then std_put p st latest else latest)"

fun latest_changes ::
  "(PlayerId, DirectoryPresenceState) std_map \<Rightarrow> u64 \<Rightarrow> PresenceRevision list \<Rightarrow>
   (PlayerId, DirectoryPresenceState) std_map \<Rightarrow> (PlayerId, DirectoryPresenceState) std_map" where
  "latest_changes states after [] latest = latest"
| "latest_changes states after (r # rest) latest =
     (if rv_version r \<le> after then latest_changes states after rest latest
      else latest_changes states after rest (collect_changes states (rv_entries r) latest))"

definition presence_answer ::
  "u64 option \<Rightarrow> time_point \<Rightarrow> VersionedPresence \<Rightarrow>
   DirectoryPresenceReadError + DirectoryPresenceSnapshot" where
  "presence_answer after observed_at v =
     (if (case after of None \<Rightarrow> False | Some a \<Rightarrow> snapshot_is_required a v)
      then Inl Presence_snapshot_required
      else Inr \<lparr>ps_version = vp_version v,
                ps_mode = (if after = None then Mode_snapshot else Mode_delta),
                ps_observed_at = observed_at,
                ps_entries =
                  (case after of
                     None \<Rightarrow> vp_states v
                   | Some a \<Rightarrow> latest_changes (vp_states v) a (vp_revisions v) [])\<rparr>)"

definition presenceFor ::
  "(PlayerId \<Rightarrow> AuthoritativeMembershipContext option) \<Rightarrow> (PlayerId \<Rightarrow> nat) \<Rightarrow> PlayerId \<Rightarrow>
   u64 option \<Rightarrow> time_point \<Rightarrow> DirectoryApplicationService \<Rightarrow>
   ((DirectoryPresenceReadError + DirectoryPresenceSnapshot) \<times> DirectoryApplicationService) throws"
where
  "presenceFor memberships connected actor after observed_at d =
     (case currentContextFor memberships actor of
        None \<Rightarrow> Inr (Inl Presence_directory_unavailable, d)
      | Some ctx \<Rightarrow>
          (case snapshot_find (mc_snapshot ctx) actor of
             None \<Rightarrow> Inr (Inl Presence_directory_unavailable, d)
           | Some m \<Rightarrow>
               (case presence_states connected (vm_group_id m) (ms_memberships (mc_snapshot ctx)) [] of
                  None \<Rightarrow> Inr (Inl Presence_directory_unavailable, d)
                | Some current \<Rightarrow>
                    (let versioned =
                           (case map_of (ds_presence_versions d) (vm_group_id m) of
                              Some v \<Rightarrow> v
                            | None \<Rightarrow> empty_presence)
                     in throws_bind (observe_presence current versioned) (\<lambda>v.
                          Inr (presence_answer after observed_at v,
                               d\<lparr>ds_presence_versions :=
                                 std_put (vm_group_id m) v (ds_presence_versions d)\<rparr>))))))"

end
