(* ===== verification/Directory_Properties.thy ===== *)
theory Directory_Properties
  imports Directory_Service
begin

text \<open>
  What the public directory promises: the view of a group discloses that group only, its version
  moves exactly with its content, and a presence delta brings a client that holds an earlier
  version up to date on every player it can see.
\<close>

lemma u64_unat_succ:
  fixes v :: u64
  assumes "v \<noteq> - 1"
  shows "unat (v + 1) = Suc (unat v)"
proof -
  have "v < v + 1" using assms by (rule u64_succ_gr)
  then have "v + 1 \<noteq> 0" by (metis word_not_simps(1))
  then show ?thesis by (metis Suc_eq_plus1 add.commute unatSuc)
qed

section \<open>The group view\<close>

lemma participants_players:
  "map pa_player_id (fst (directory_participants d ms refs v)) = map vm_player_id ms"
  by (induction ms arbitrary: refs v) (simp_all add: Let_def case_prod_beta)

lemma public_roles_of_ids:
  "set (fst (public_roles_of catalog rs ids refs v)) = set ids \<union> {r \<in> set rs. map_of catalog r \<noteq> None}"
  by (induction catalog rs ids refs v rule: public_roles_of.induct) (auto split: option.splits)

lemma participants_roles:
  "p \<in> set (fst (directory_participants d ms refs v)) \<Longrightarrow>
   set (pa_public_role_ids p) \<subseteq> fst ` set (ds_public_roles d) \<and>
   (\<exists>m \<in> set ms. pa_player_id p = vm_player_id m \<and> pa_primary_team_id p = vm_team_id m \<and>
      set (pa_public_role_ids p) \<subseteq> set (vm_role_ids m))"
proof (induction d ms refs v rule: directory_participants.induct)
  case (2 d m rest refs v)
  obtain name version1 where name: "(case map_of (ds_profiles d) (vm_player_id m) of
      None \<Rightarrow> (id_value (vm_player_id m), v)
    | Some p \<Rightarrow> (dp_display_name p, max v (dp_version p))) = (name, version1)" by fastforce
  obtain ids refs1 version2 where ids: "public_roles_of (ds_public_roles d) (vm_role_ids m) [] refs
      version1 = (ids, refs1, version2)" using prod_cases3 by blast
  obtain ps refs2 version3 where rest: "directory_participants d rest refs1 version2 =
      (ps, refs2, version3)" using prod_cases3 by blast
  have "set ids = {r \<in> set (vm_role_ids m). map_of (ds_public_roles d) r \<noteq> None}"
    using public_roles_of_ids [of "ds_public_roles d" "vm_role_ids m" "[]" refs version1]
    by (simp add: ids)
  then have own: "set ids \<subseteq> fst ` set (ds_public_roles d)" "set ids \<subseteq> set (vm_role_ids m)"
    by (auto simp: map_of_eq_None_iff)
  show ?case
  proof (cases "p \<in> set ps")
    case True
    then show ?thesis
      using "2.IH" [OF name [symmetric] refl ids [symmetric] refl] rest by auto
  next
    case False
    then have "p = \<lparr>pa_player_id = vm_player_id m, pa_display_name = name,
        pa_primary_team_id = vm_team_id m, pa_public_role_ids = remdups_adj (sort ids)\<rparr>"
      using "2.prems" by (simp add: name ids rest Let_def)
    then show ?thesis using own by auto
  qed
qed simp

lemma specialization_nodes_set:
  "(\<lambda>n. (dn_node_type n, dn_node_id n)) ` set (fst (specialization_nodes g ag ss i next)) =
     (\<lambda>s. (Node_specialization, id_value (sp_id s))) ` set (filter (\<lambda>s. sp_group_id s = ag) ss)"
  by (induction ss arbitrary: i "next") (simp_all add: Let_def case_prod_beta del: set_filter)

lemma fst_set_std_emplace: "fst ` set (std_emplace k v m) = insert k (fst ` set m)"
  by (auto simp: std_emplace_def fst_set_std_put)

lemma specialization_nodes_next:
  "fst ` set (snd (specialization_nodes g ag ss i next)) =
     fst ` set next \<union> sp_id ` set (filter (\<lambda>s. sp_group_id s = ag) ss)"
  by (induction ss arbitrary: i "next")
    (simp_all add: Let_def case_prod_beta fst_set_std_emplace del: set_filter)

lemma team_nodes_set:
  "(\<lambda>n. (dn_node_type n, dn_node_id n)) ` set (team_nodes ts next) =
     (\<lambda>t. (Node_team, id_value (tm_id t))) `
       set (filter (\<lambda>t. tm_specialization_id t \<in> fst ` set next) ts)"
proof (induction ts arbitrary: "next")
  case (Cons t rest)
  show ?case
  proof (cases "map_of next (tm_specialization_id t)")
    case None
    then have "tm_specialization_id t \<notin> fst ` set next" by (simp add: map_of_eq_None_iff)
    with None Cons.IH [of "next"] show ?thesis by (simp del: set_filter)
  next
    case (Some index)
    then have "tm_specialization_id t \<in> fst ` set next"
      using map_of_eq_None_iff [of "next" "tm_specialization_id t"] by simp
    then have "fst ` set (std_put (tm_specialization_id t) (index + 1) next) = fst ` set next"
      by (auto simp: fst_set_std_put)
    then show ?thesis
      using Some Cons.IH [of "std_put (tm_specialization_id t) (index + 1) next"]
        \<open>tm_specialization_id t \<in> fst ` set next\<close> by (simp del: set_filter)
  qed
qed simp

text \<open>What a successful read computes before its version.\<close>

lemma directoryFor_cases:
  assumes "directoryFor memberships actor d = Inr (Inr snap, d')"
  obtains ctx m g participants refs source_version v where
    "memberships actor = Some ctx" "snapshot_find (mc_snapshot ctx) actor = Some m"
    "findGroup (ms_hierarchy (mc_snapshot ctx)) (vm_group_id m) = Some g" "gr_active g"
    "length (filter (\<lambda>x. vm_group_id x = vm_group_id m) (ms_memberships (mc_snapshot ctx)))
       \<le> maximum_directory_participants"
    "di_group_id snap = vm_group_id m"
    "di_participants snap = participants"
    "directory_participants d
       (sort_key vm_player_id (filter (\<lambda>x. vm_group_id x = vm_group_id m)
          (ms_memberships (mc_snapshot ctx)))) [] (ms_version (mc_snapshot ctx)) =
       (participants, refs, source_version)"
    "(\<lambda>n. (dn_node_type n, dn_node_id n)) ` set (di_nodes snap) =
       insert (Node_group, id_value (gr_id g))
         ((\<lambda>s. (Node_specialization, id_value (sp_id s))) `
            {s \<in> set (hi_specializations (ms_hierarchy (mc_snapshot ctx))).
               sp_group_id s = vm_group_id m} \<union>
          (\<lambda>t. (Node_team, id_value (tm_id t))) `
            {t \<in> set (hi_teams (ms_hierarchy (mc_snapshot ctx))).
               tm_specialization_id t \<in> sp_id `
                 {s \<in> set (hi_specializations (ms_hierarchy (mc_snapshot ctx))).
                    sp_group_id s = vm_group_id m}})"
    "next_directory_version (map_of (ds_directory_versions d) (vm_group_id m)) source_version
       (directory_fingerprint snap) = Inr v"
    "di_version snap = vd_version v"
    "d' = d\<lparr>ds_directory_versions := std_put (vm_group_id m) v (ds_directory_versions d)\<rparr>"
proof -
  have fp: "directory_fingerprint (s\<lparr>di_version := x\<rparr>) = directory_fingerprint s" for s x
    by (simp add: directory_fingerprint_def)
  obtain ctx where "currentContextFor memberships actor = Some ctx"
    using assms by (auto simp: directoryFor_def split: option.splits)
  then have ctx: "memberships actor = Some ctx"
    by (auto simp: currentContextFor_def split: option.splits if_splits)
  obtain m where m: "snapshot_find (mc_snapshot ctx) actor = Some m"
    and make: "makeDirectory ctx m d = Inr (Inr snap, d')"
    using assms ctx by (auto simp: directoryFor_def currentContextFor_def
        split: option.splits if_splits)
  let ?snap = "mc_snapshot ctx" and ?h = "ms_hierarchy (mc_snapshot ctx)"
  let ?visible = "filter (\<lambda>x. vm_group_id x = vm_group_id m) (ms_memberships ?snap)"
  obtain g where g: "findGroup ?h (vm_group_id m) = Some g" "gr_active g"
    and limit: "length ?visible \<le> maximum_directory_participants"
    using make by (auto simp: makeDirectory_def Let_def split: option.splits if_splits)
  obtain sn "next" where sn: "specialization_nodes g (vm_group_id m) (hi_specializations ?h) 0 [] =
      (sn, next)" by fastforce
  obtain ps refs source where ps: "directory_participants d (sort_key vm_player_id ?visible) []
      (ms_version ?snap) = (ps, refs, source)" using prod_cases3 by blast
  have keys: "fst ` set next = sp_id ` {s \<in> set (hi_specializations ?h). sp_group_id s = vm_group_id m}"
    using specialization_nodes_next [of g "vm_group_id m" "hi_specializations ?h" 0 "[]"] by (simp add: sn)
  define body where "body = \<lparr>di_version = ms_version ?snap, di_group_id = vm_group_id m,
      di_nodes = \<lparr>dn_node_id = id_value (gr_id g), dn_node_type = Node_group,
                  dn_parent_node_id = None, dn_display_name = gr_display_name g,
                  dn_sort_index = 0\<rparr> # sn @ team_nodes (hi_teams ?h) next,
      di_public_roles = map (\<lambda>r. the (map_of (ds_public_roles d) r)) (keys refs),
      di_participants = ps\<rparr>"
  obtain v where v: "next_directory_version (map_of (ds_directory_versions d) (vm_group_id m)) source
        (directory_fingerprint body) = Inr v"
    and snap: "snap = body\<lparr>di_version := vd_version v\<rparr>"
    and d': "d' = d\<lparr>ds_directory_versions := std_put (vm_group_id m) v (ds_directory_versions d)\<rparr>"
    using make g limit sn ps
    by (auto simp: makeDirectory_def Let_def throws_bind_Inr_iff body_def not_less)
  have nodes: "(\<lambda>n. (dn_node_type n, dn_node_id n)) ` set (di_nodes snap) =
      insert (Node_group, id_value (gr_id g))
         ((\<lambda>s. (Node_specialization, id_value (sp_id s))) `
            {s \<in> set (hi_specializations ?h). sp_group_id s = vm_group_id m} \<union>
          (\<lambda>t. (Node_team, id_value (tm_id t))) `
            {t \<in> set (hi_teams ?h). tm_specialization_id t \<in> fst ` set next})"
    using specialization_nodes_set [of g "vm_group_id m" "hi_specializations ?h" 0 "[]"]
      team_nodes_set [of "hi_teams ?h" "next"]
    by (simp add: snap body_def sn image_Un)
  show thesis
  proof (rule that [OF ctx m g limit _ _ ps nodes [unfolded keys]])
    show "next_directory_version (map_of (ds_directory_versions d) (vm_group_id m)) source
        (directory_fingerprint snap) = Inr v" using v by (simp only: snap fp)
  qed (simp_all add: snap body_def d')
qed

text \<open>
  The directory discloses the reader's group and nothing else. A read succeeds only for a
  member of an active group; its participants are exactly the members of that group, at most 200,
  in player order; a participant's roles are public and really held; and its nodes are the group,
  the group's specializations and their teams.
\<close>

theorem directory_is_group_limited:
  assumes "directoryFor memberships actor d = Inr (Inr snap, d')"
    and "memberships actor = Some ctx" and "snapshot_ok (mc_snapshot ctx)"
  shows "\<exists>m. snapshot_find (mc_snapshot ctx) actor = Some m \<and> di_group_id snap = vm_group_id m \<and>
     map pa_player_id (di_participants snap) =
       map vm_player_id (filter (\<lambda>x. vm_group_id x = vm_group_id m)
         (ms_memberships (mc_snapshot ctx))) \<and>
     length (di_participants snap) \<le> 200 \<and>
     (\<forall>p \<in> set (di_participants snap).
        set (pa_public_role_ids p) \<subseteq> fst ` set (ds_public_roles d) \<and>
        (\<exists>x \<in> set (ms_memberships (mc_snapshot ctx)). vm_player_id x = pa_player_id p \<and>
           vm_group_id x = vm_group_id m \<and> set (pa_public_role_ids p) \<subseteq> set (vm_role_ids x))) \<and>
     (\<lambda>n. (dn_node_type n, dn_node_id n)) ` set (di_nodes snap) =
       insert (Node_group, id_value (vm_group_id m))
         ((\<lambda>s. (Node_specialization, id_value (sp_id s))) `
            {s \<in> set (hi_specializations (ms_hierarchy (mc_snapshot ctx))).
               sp_group_id s = vm_group_id m} \<union>
          (\<lambda>t. (Node_team, id_value (tm_id t))) `
            {t \<in> set (hi_teams (ms_hierarchy (mc_snapshot ctx))).
               tm_specialization_id t \<in> sp_id `
                 {s \<in> set (hi_specializations (ms_hierarchy (mc_snapshot ctx))).
                    sp_group_id s = vm_group_id m}})"
  using assms(1)
proof (cases rule: directoryFor_cases)
  case (1 ctx' m g participants refs source_version v)
  have ctx: "ctx' = ctx" using 1(1) assms(2) by simp
  let ?visible = "filter (\<lambda>x. vm_group_id x = vm_group_id m) (ms_memberships (mc_snapshot ctx))"
  have "sorted_wrt (<) (map vm_player_id (ms_memberships (mc_snapshot ctx)))"
    using assms(3) by (simp add: snapshot_ok_def)
  then have "sorted (map vm_player_id ?visible)"
    by (simp add: strict_sorted_iff sorted_filter)
  then have sorted: "sort_key vm_player_id ?visible = ?visible" by (rule sort_key_id_if_sorted)
  have ps: "fst (directory_participants d ?visible [] (ms_version (mc_snapshot ctx))) =
      di_participants snap"
    using 1(7,8) by (simp add: ctx sorted)
  have players: "map pa_player_id (di_participants snap) = map vm_player_id ?visible"
    unfolding ps [symmetric] by (rule participants_players)
  then have "length (di_participants snap) = length ?visible" by (metis length_map)
  then have count: "length (di_participants snap) \<le> 200"
    using 1(5) by (simp add: ctx maximum_directory_participants_def)
  have roles: "set (pa_public_role_ids p) \<subseteq> fst ` set (ds_public_roles d) \<and>
      (\<exists>x \<in> set ?visible. pa_player_id p = vm_player_id x \<and> pa_primary_team_id p = vm_team_id x \<and>
         set (pa_public_role_ids p) \<subseteq> set (vm_role_ids x))" if "p \<in> set (di_participants snap)" for p
    using that unfolding ps [symmetric] by (rule participants_roles)
  have "gr_id g = vm_group_id m"
    using 1(3) assms(3) by (simp add: ctx snapshot_ok_def findGroup_iff)
  then have nodes: "(\<lambda>n. (dn_node_type n, dn_node_id n)) ` set (di_nodes snap) =
      insert (Node_group, id_value (vm_group_id m))
         ((\<lambda>s. (Node_specialization, id_value (sp_id s))) `
            {s \<in> set (hi_specializations (ms_hierarchy (mc_snapshot ctx))).
               sp_group_id s = vm_group_id m} \<union>
          (\<lambda>t. (Node_team, id_value (tm_id t))) `
            {t \<in> set (hi_teams (ms_hierarchy (mc_snapshot ctx))).
               tm_specialization_id t \<in> sp_id `
                 {s \<in> set (hi_specializations (ms_hierarchy (mc_snapshot ctx))).
                    sp_group_id s = vm_group_id m}})"
    using 1(9) by (simp only: ctx)
  show ?thesis
  proof (intro exI [of _ m] conjI ballI)
    show "snapshot_find (mc_snapshot ctx) actor = Some m" using 1(2) by (simp only: ctx)
    fix p assume p: "p \<in> set (di_participants snap)"
    show "set (pa_public_role_ids p) \<subseteq> fst ` set (ds_public_roles d)" using roles [OF p] by blast
    obtain x where x: "x \<in> set ?visible" "pa_player_id p = vm_player_id x"
        "set (pa_public_role_ids p) \<subseteq> set (vm_role_ids x)" using roles [OF p] by blast
    then show "\<exists>x \<in> set (ms_memberships (mc_snapshot ctx)). vm_player_id x = pa_player_id p \<and>
        vm_group_id x = vm_group_id m \<and> set (pa_public_role_ids p) \<subseteq> set (vm_role_ids x)"
      by (intro bexI [of _ x]) simp_all
  qed (use 1(6) players count nodes in \<open>simp_all only: simp_thms\<close>)
qed

text \<open>Every stored version is positive, from construction on.\<close>

definition directory_versions_ok :: "DirectoryApplicationService \<Rightarrow> bool" where
  "directory_versions_ok d \<longleftrightarrow> (\<forall>e \<in> set (ds_directory_versions d). 0 < vd_version (snd e))"

lemma directory_versions_ok_ctor: "directory_versions_ok DirectoryApplicationService_ctor"
  by (simp add: directory_versions_ok_def DirectoryApplicationService_ctor_def)

lemma next_directory_version_pos:
  assumes "next_directory_version known source fp = Inr v"
    and "\<And>w. known = Some w \<Longrightarrow> 0 < vd_version w"
  shows "0 < vd_version v \<and> vd_fingerprint v = fp"
proof (cases known)
  case None
  have "(0 :: u64) < max 1 source" by (simp add: less_max_iff_disj)
  then show ?thesis using assms(1) None by (auto simp: next_directory_version_def)
next
  case (Some w)
  have "vd_version w \<noteq> - 1 \<Longrightarrow> vd_version w < max (vd_version w + 1) source"
    using u64_succ_gr [of "vd_version w"] by (simp add: less_max_iff_disj)
  then show ?thesis
    using assms Some by (auto simp: next_directory_version_def split: if_splits)
qed

lemma directory_versions_ok_read:
  assumes "directory_versions_ok d" and "directoryFor memberships actor d = Inr (Inr snap, d')"
  shows "directory_versions_ok d'"
  using assms(2)
proof (cases rule: directoryFor_cases)
  case (1 ctx m g ps refs source v)
  have "0 < vd_version v"
    using next_directory_version_pos [OF 1(10)] assms(1) map_of_SomeD
    by (fastforce simp: directory_versions_ok_def)
  then show ?thesis
    using assms(1) subsetD [OF set_std_put_subset] unfolding 1(12)
    by (fastforce simp: directory_versions_ok_def)
qed

text \<open>
  Versions follow content. Between two consecutive reads of the same group's view the version
  is the same when the disclosed content has the same fingerprint and strictly greater otherwise,
  whoever reads; and it is never zero.
\<close>

theorem directory_version_follows_content:
  assumes "directory_versions_ok d"
    and "directoryFor memberships actor d = Inr (Inr view1, d1)"
    and "directoryFor memberships' actor' d1 = Inr (Inr view2, d2)"
    and "di_group_id view2 = di_group_id view1"
  shows "0 < di_version view1 \<and>
     (if directory_fingerprint view2 = directory_fingerprint view1
      then di_version view2 = di_version view1
      else di_version view1 < di_version view2)"
  using assms(2)
proof (cases rule: directoryFor_cases)
  case one: (1 ctx m g ps refs source v)
  from assms(3) show ?thesis
  proof (cases rule: directoryFor_cases)
    case two: (1 ctx' m' g' ps' refs' source' v')
    have known: "map_of (ds_directory_versions d1) (vm_group_id m') = Some v"
      using one(6,12) two(6) assms(4) by simp
    have v: "0 < vd_version v" "vd_fingerprint v = directory_fingerprint view1"
      using next_directory_version_pos [OF one(10)] assms(1) map_of_SomeD
      by (fastforce simp: directory_versions_ok_def)+
    have "vd_version v < max (vd_version v + 1) source'" if "vd_version v \<noteq> - 1"
      using u64_succ_gr [OF that] by (simp add: less_max_iff_disj)
    then show ?thesis
      using two(10,11) one(11) v unfolding known
      by (auto simp: next_directory_version_def split: if_splits)
  qed
qed

section \<open>Presence deltas\<close>

type_synonym presence_map = "(PlayerId, DirectoryPresenceState) std_map"

fun observe_all :: "presence_map list \<Rightarrow> VersionedPresence \<Rightarrow> VersionedPresence throws" where
  "observe_all [] v = Inr v"
| "observe_all (c # cs) v = throws_bind (observe_presence c v) (observe_all cs)"

lemma observe_all_append:
  "observe_all (xs @ ys) v = throws_bind (observe_all xs v) (observe_all ys)"
proof (induction xs arbitrary: v)
  case (Cons c xs)
  then show ?case by (cases "observe_presence c v") simp_all
qed simp

text \<open>
  The revisions form a gapless run of versions that ends at the current one: the log that starts
  at version 2 without the entries that were dropped from its front.
\<close>

definition revisions_ok :: "VersionedPresence \<Rightarrow> bool" where
  "revisions_ok v \<longleftrightarrow>
     vp_initialized v \<and> 1 \<le> unat (vp_version v) \<and> std_ok (vp_states v) \<and>
     length (vp_revisions v) \<le> maximum_presence_revisions \<and>
     length (vp_revisions v) < unat (vp_version v) \<and>
     (maximum_presence_revisions \<le> length (vp_revisions v) \<or>
      Suc (length (vp_revisions v)) = unat (vp_version v)) \<and>
     map (\<lambda>r. unat (rv_version r)) (vp_revisions v) =
       [Suc (unat (vp_version v) - length (vp_revisions v)) ..< Suc (unat (vp_version v))] \<and>
     (\<forall>r \<in> set (vp_revisions v). distinct (map fst (rv_entries r)))"

lemma distinct_changed_entries:
  "std_ok current \<Longrightarrow> distinct (map fst (changed_entries previous current))"
  unfolding changed_entries_def using std_ok_distinct [OF std_ok_filter] by blast

lemma upt_tl: "tl [a ..< b] = [Suc a ..< b]"
  by (cases "a < b") (simp_all add: upt_conv_Cons)

lemma revisions_ok_first:
  assumes "\<not> vp_initialized v" and "vp_revisions v = []" and "std_ok c"
    and "observe_presence c v = Inr v'"
  shows "revisions_ok v' \<and> vp_states v' = c"
  using assms by (auto simp: observe_presence_def revisions_ok_def)

lemma observe_cases:
  assumes "vp_initialized v" and "observe_presence c v = Inr v'"
  obtains (same) "vp_states v = c" "v' = v"
  | (changed) "vp_states v \<noteq> c" "vp_version v \<noteq> - 1"
      "vp_version v' = vp_version v + 1" "vp_states v' = c" "vp_initialized v'"
      "vp_revisions v' =
         (let rs = vp_revisions v @ [\<lparr>rv_version = vp_version v + 1,
                rv_entries = changed_entries (vp_states v) c\<rparr>]
          in if maximum_presence_revisions < length rs then tl rs else rs)"
  using assms by (auto simp: observe_presence_def Let_def split: if_splits)

lemma revisions_ok_step:
  assumes ok: "revisions_ok v" and c: "std_ok c" and step: "observe_presence c v = Inr v'"
  shows "revisions_ok v' \<and> vp_states v' = c"
proof -
  have init: "vp_initialized v" using ok by (simp add: revisions_ok_def)
  from init step show ?thesis
  proof (cases rule: observe_cases)
    case same
    with ok show ?thesis by simp
  next
    case changed
    let ?n = "unat (vp_version v)" and ?l = "length (vp_revisions v)"
    let ?rs = "vp_revisions v @ [\<lparr>rv_version = vp_version v + 1,
        rv_entries = changed_entries (vp_states v) c\<rparr>]"
    have n: "unat (vp_version v') = Suc ?n"
      using u64_unat_succ [OF changed(2)] by (simp add: changed(3))
    have len: "?l \<le> maximum_presence_revisions" "?l < ?n"
        "maximum_presence_revisions \<le> ?l \<or> Suc ?l = ?n"
      and vs: "map (\<lambda>r. unat (rv_version r)) (vp_revisions v) = [Suc (?n - ?l) ..< Suc ?n]"
      and es: "\<forall>r \<in> set ?rs. distinct (map fst (rv_entries r))"
      using ok distinct_changed_entries [OF c] by (simp_all add: revisions_ok_def)
    have rs: "map (\<lambda>r. unat (rv_version r)) ?rs = [Suc (?n - ?l) ..< Suc (Suc ?n)]"
      using vs u64_unat_succ [OF changed(2)] by simp
    show ?thesis
    proof (cases "maximum_presence_revisions < length ?rs")
      case True
      then have eq: "?l = maximum_presence_revisions" using len(1) by simp
      have "map (\<lambda>r. unat (rv_version r)) (tl ?rs) = [Suc (Suc (?n - ?l)) ..< Suc (Suc ?n)]"
        by (simp only: map_tl rs upt_tl)
      moreover have "length (tl ?rs) = ?l" by simp
      moreover have "\<forall>r \<in> set (tl ?rs). distinct (map fst (rv_entries r))"
        using es by (cases "vp_revisions v") simp_all
      moreover have "vp_revisions v' = tl ?rs" using changed(6) True by (simp only: Let_def if_True)
      ultimately show ?thesis
        using len eq n changed(4,5) c by (simp add: revisions_ok_def Suc_diff_le del: upt_Suc)
    next
      case False
      then have revs: "vp_revisions v' = ?rs" using changed(6) by (simp only: Let_def if_False)
      have first: "?n - ?l = Suc 0" using len False by simp
      have "length (vp_revisions v') = Suc ?l" by (simp add: revs)
      moreover have "map (\<lambda>r. unat (rv_version r)) (vp_revisions v') =
          [Suc (Suc ?n - Suc ?l) ..< Suc (Suc ?n)]"
        by (simp only: revs rs diff_Suc_Suc)
      moreover have "\<forall>r \<in> set (vp_revisions v'). distinct (map fst (rv_entries r))"
        using es by (simp only: revs)
      ultimately show ?thesis
        using len n changed(4,5) c False first by (simp add: revisions_ok_def del: upt_Suc)
    qed
  qed
qed

lemma revisions_ok_all:
  assumes "revisions_ok v" and "\<forall>c \<in> set cs. std_ok c" and "observe_all cs v = Inr v'"
  shows "revisions_ok v'"
  using assms
proof (induction cs arbitrary: v)
  case (Cons c cs)
  then obtain w where w: "observe_presence c v = Inr w" "observe_all cs w = Inr v'"
    by (auto simp: throws_bind_Inr_iff)
  then have "revisions_ok w" using Cons.prems revisions_ok_step [of v c w] by simp
  then show ?case using Cons.IH [of w] Cons.prems(2) w(2) by simp
qed simp

text \<open>The last entry of a player in the revisions after a version.\<close>

fun last_change :: "PlayerId \<Rightarrow> u64 \<Rightarrow> PresenceRevision list \<Rightarrow> DirectoryPresenceState option \<Rightarrow>
    DirectoryPresenceState option" where
  "last_change p a [] acc = acc"
| "last_change p a (r # rs) acc =
     last_change p a rs
       (if rv_version r \<le> a then acc
        else case map_of (rv_entries r) p of Some st \<Rightarrow> Some st | None \<Rightarrow> acc)"

lemma last_change_append:
  "last_change p a (xs @ ys) acc = last_change p a ys (last_change p a xs acc)"
  by (induction xs arbitrary: acc) simp_all

lemma last_change_old:
  "\<forall>r \<in> set rs. rv_version r \<le> a \<Longrightarrow> last_change p a rs acc = acc"
  by (induction rs) simp_all

lemma map_of_collect_changes:
  assumes "distinct (map fst es)" and "p \<in> fst ` set states"
  shows "map_of (collect_changes states es latest) p =
     (case map_of es p of Some st \<Rightarrow> Some st | None \<Rightarrow> map_of latest p)"
  using assms
proof (induction es arbitrary: latest)
  case (Cons e es)
  obtain q st where e: "e = (q, st)" by fastforce
  have "map_of es q = None" using Cons.prems(1) by (simp add: e map_of_eq_None_iff)
  then show ?case using Cons by (auto simp: e split: option.splits)
qed simp

lemma map_of_latest_changes:
  assumes "\<forall>r \<in> set rs. distinct (map fst (rv_entries r))" and "p \<in> fst ` set states"
  shows "map_of (latest_changes states a rs latest) p = last_change p a rs (map_of latest p)"
  using assms
  by (induction rs arbitrary: latest) (simp_all add: map_of_collect_changes)

lemma map_of_filter_entries:
  assumes "std_ok m"
  shows "map_of (filter P m) k =
     (case map_of m k of None \<Rightarrow> None | Some v \<Rightarrow> if P (k, v) then Some v else None)"
proof (cases "map_of m k")
  case None
  then have "k \<notin> fst ` set (filter P m)" by (auto simp: map_of_eq_None_iff)
  then have "map_of (filter P m) k = None" by (simp add: map_of_eq_None_iff)
  with None show ?thesis by simp
next
  case (Some v)
  have iff: "map_of (filter P m) k = Some w \<longleftrightarrow> (k, w) \<in> set m \<and> P (k, w)" for w
    using std_ok_map_of_iff [OF std_ok_filter [OF assms, of P]] by simp
  have "(k, w) \<in> set m \<longleftrightarrow> w = v" for w
    using std_ok_map_of_iff [OF assms, of k w] Some by auto
  then have "map_of (filter P m) k = Some w \<longleftrightarrow> w = v \<and> P (k, v)" for w
    using iff by auto
  then show ?thesis using Some by (cases "map_of (filter P m) k") auto
qed

lemma map_of_changed_entries:
  assumes "std_ok current"
  shows "map_of (changed_entries previous current) p =
     (case map_of current p of
        None \<Rightarrow> None
      | Some st \<Rightarrow> if map_of previous p = Some st then None else Some st)"
  unfolding changed_entries_def map_of_filter_entries [OF assms]
  by (auto split: option.splits)

lemma version_le_observe:
  assumes "revisions_ok v" and "observe_presence c v = Inr v'"
  shows "vp_version v \<le> vp_version v' \<and>
     unat (vp_version v) - length (vp_revisions v) \<le> unat (vp_version v') - length (vp_revisions v')"
proof -
  have "vp_initialized v" using assms(1) by (simp add: revisions_ok_def)
  from this assms(2) show ?thesis
  proof (cases rule: observe_cases)
    case changed
    have "vp_version v < vp_version v + 1" using changed(2) by (rule u64_succ_gr)
    then show ?thesis
      using changed u64_unat_succ [OF changed(2)] by (auto simp: Let_def less_imp_le)
  qed simp
qed

text \<open>
  A client that holds the states of one version and overlays the changes after it has the current
  state of every player who is visible now, provided no revision in between was dropped.
\<close>

lemma overlay_current:
  assumes "revisions_ok v1" and "\<forall>c \<in> set cs. std_ok c" and "observe_all cs v1 = Inr v"
    and "unat (vp_version v) - length (vp_revisions v) \<le> unat (vp_version v1)"
  shows "vp_version v1 \<le> vp_version v \<and>
     (\<forall>p \<in> fst ` set (vp_states v).
        (case last_change p (vp_version v1) (vp_revisions v) None of
           Some st \<Rightarrow> Some st
         | None \<Rightarrow> map_of (vp_states v1) p) = map_of (vp_states v) p)"
  using assms(2-4)
proof (induction cs arbitrary: v rule: rev_induct)
  case Nil
  have "\<forall>n \<in> set (map (\<lambda>r. unat (rv_version r)) (vp_revisions v1)). n \<le> unat (vp_version v1)"
    using assms(1) unfolding revisions_ok_def by (metis atLeastLessThan_iff less_Suc_eq_le set_upt)
  then have "\<forall>r \<in> set (vp_revisions v1). rv_version r \<le> vp_version v1"
    by (simp add: word_le_nat_alt)
  then show ?case using Nil.prems(2) by (simp add: last_change_old)
next
  case (snoc c cs)
  obtain w where w: "observe_all cs v1 = Inr w" "observe_presence c w = Inr v"
    using snoc.prems(2) by (auto simp: observe_all_append throws_bind_Inr_iff)
  have ok: "revisions_ok w" using assms(1) _ w(1) by (rule revisions_ok_all) (use snoc.prems in simp)
  have c: "std_ok c" using snoc.prems(1) by simp
  note mono = version_le_observe [OF ok w(2)]
  have IH: "vp_version v1 \<le> vp_version w \<and>
     (\<forall>p \<in> fst ` set (vp_states w).
        (case last_change p (vp_version v1) (vp_revisions w) None of
           Some st \<Rightarrow> Some st
         | None \<Rightarrow> map_of (vp_states v1) p) = map_of (vp_states w) p)"
    using snoc.prems mono w(1) by (intro snoc.IH) auto
  have init: "vp_initialized w" using ok by (simp add: revisions_ok_def)
  from init w(2) show ?case
  proof (cases rule: observe_cases)
    case same
    with IH show ?thesis by simp
  next
    case changed
    let ?r = "\<lparr>rv_version = vp_version w + 1, rv_entries = changed_entries (vp_states w) c\<rparr>"
    let ?a = "vp_version v1"
    have later: "\<not> vp_version w + 1 \<le> ?a"
      using order.strict_trans1 [OF conjunct1 [OF IH] u64_succ_gr [OF changed(2)]]
      by (simp only: not_le)
    have revs: "last_change p ?a (vp_revisions v) None = last_change p ?a (vp_revisions w @ [?r]) None"
      for p
    proof (cases "maximum_presence_revisions < length (vp_revisions w @ [?r])")
      case True
      then have v: "vp_revisions v = tl (vp_revisions w @ [?r])"
        using changed(6) by (simp only: Let_def if_True)
      obtain r0 rest where split: "vp_revisions w = r0 # rest"
        using True by (cases "vp_revisions w") (auto simp: maximum_presence_revisions_def)
      have ver: "map (\<lambda>r. unat (rv_version r)) (r0 # rest) =
          [Suc (unat (vp_version w) - length (r0 # rest)) ..< Suc (unat (vp_version w))]"
        and len: "length (r0 # rest) < unat (vp_version w)"
        using ok by (simp_all only: revisions_ok_def split)
      have "unat (rv_version r0) = Suc (unat (vp_version w) - length (r0 # rest))"
        using arg_cong [OF ver, of hd] len by (simp del: upt_Suc)
      also have "\<dots> = unat (vp_version v) - length (vp_revisions v)"
        using len u64_unat_succ [OF changed(2)] by (simp add: changed(3) v split)
      finally have "rv_version r0 \<le> ?a" using snoc.prems(3) by (simp add: word_le_nat_alt)
      then show ?thesis by (simp add: v split)
    next
      case False
      then show ?thesis using changed(6) by (simp only: Let_def if_False)
    qed
    have change: "last_change p ?a (vp_revisions v) None =
        (case map_of c p of
           None \<Rightarrow> last_change p ?a (vp_revisions w) None
         | Some st \<Rightarrow> if map_of (vp_states w) p = Some st
                     then last_change p ?a (vp_revisions w) None else Some st)" for p
      unfolding revs last_change_append
      by (simp add: later map_of_changed_entries [OF c] split: option.splits)
    show ?thesis
    proof (intro conjI ballI)
      show "?a \<le> vp_version v" using IH mono by (meson order_trans)
      fix p assume "p \<in> fst ` set (vp_states v)"
      then obtain st where st: "map_of c p = Some st"
        using map_of_eq_None_iff [of c p] by (auto simp: changed(4))
      show "(case last_change p ?a (vp_revisions v) None of
           Some st \<Rightarrow> Some st | None \<Rightarrow> map_of (vp_states v1) p) = map_of (vp_states v) p"
      proof (cases "map_of (vp_states w) p = Some st")
        case True
        then have "p \<in> fst ` set (vp_states w)" by (metis map_of_eq_None_iff option.distinct(1))
        from bspec [OF conjunct2 [OF IH] this] True show ?thesis
          by (simp add: change st changed(4))
      next
        case False
        then show ?thesis by (simp add: change st changed(4))
      qed
    qed
  qed
qed

lemma observed_revisions_ok:
  assumes "\<forall>c \<in> set (first # seen @ later). std_ok c"
    and "observe_all (first # seen) empty_presence = Inr v1" and "observe_all later v1 = Inr v2"
  shows "revisions_ok v1" and "revisions_ok v2"
proof -
  obtain v0 where v0: "observe_presence first empty_presence = Inr v0" "observe_all seen v0 = Inr v1"
    using assms(2) by (auto simp: throws_bind_Inr_iff)
  have "revisions_ok v0"
    using revisions_ok_first [OF _ _ _ v0(1)] assms(1) by (simp add: empty_presence_def)
  then show ok1: "revisions_ok v1"
    by (rule revisions_ok_all [OF _ _ v0(2)]) (use assms(1) in simp)
  then show "revisions_ok v2"
    by (rule revisions_ok_all [OF _ _ assms(3)]) (use assms(1) in simp)
qed

text \<open>The kept revisions reach back to the version of a client that needs no snapshot.\<close>

lemma kept_revisions_cover:
  assumes "revisions_ok v" and "1 \<le> unat after" and "\<not> snapshot_is_required after v"
  shows "unat (vp_version v) - length (vp_revisions v) \<le> unat after"
proof (cases "vp_revisions v")
  case Nil
  then have "unat (vp_version v) = 1"
    using assms(1) by (auto simp: revisions_ok_def maximum_presence_revisions_def)
  with Nil assms(2) show ?thesis by simp
next
  case (Cons r rest)
  have ver: "map (\<lambda>r. unat (rv_version r)) (r # rest) =
      [Suc (unat (vp_version v) - length (r # rest)) ..< Suc (unat (vp_version v))]"
    and len: "length (r # rest) < unat (vp_version v)"
    using assms(1) by (simp_all only: revisions_ok_def Cons)
  have front: "unat (rv_version r) = Suc (unat (vp_version v) - length (r # rest))"
    using arg_cong [OF ver, of hd] len by (simp del: upt_Suc)
  then have "rv_version r \<noteq> 0" by auto
  then have "unat (rv_version r - 1) = unat (vp_version v) - length (r # rest)"
    using front by (simp add: unat_minus_one)
  moreover have "rv_version r - 1 \<le> after"
    using assms(3) by (simp add: snapshot_is_required_def Cons not_less)
  ultimately show ?thesis by (simp add: word_le_nat_alt Cons)
qed

lemma snapshot_answer:
  "presence_answer None t v = Inr held \<longleftrightarrow>
     held = \<lparr>ps_version = vp_version v, ps_mode = Mode_snapshot, ps_observed_at = t,
             ps_entries = vp_states v\<rparr>"
  by (auto simp: presence_answer_def)

lemma delta_answer:
  "presence_answer (Some after) t v = Inr delta \<longleftrightarrow>
     \<not> snapshot_is_required after v \<and>
     delta = \<lparr>ps_version = vp_version v, ps_mode = Mode_delta, ps_observed_at = t,
              ps_entries = latest_changes (vp_states v) after (vp_revisions v) []\<rparr>"
  by (auto simp: presence_answer_def)

lemma presence_overlay:
  assumes "revisions_ok v1" and "revisions_ok v2" and "\<forall>c \<in> set later. std_ok c"
    and "observe_all later v1 = Inr v2" and "\<not> snapshot_is_required (vp_version v1) v2"
    and "p \<in> fst ` set (vp_states v2)"
  shows "(case map_of (latest_changes (vp_states v2) (vp_version v1) (vp_revisions v2) []) p of
       Some st \<Rightarrow> Some st | None \<Rightarrow> map_of (vp_states v1) p) = map_of (vp_states v2) p"
    and "vp_version v1 \<le> vp_version v2"
proof -
  have "unat (vp_version v2) - length (vp_revisions v2) \<le> unat (vp_version v1)"
    using kept_revisions_cover [OF assms(2) _ assms(5)] assms(1) by (simp add: revisions_ok_def)
  note overlay = overlay_current [OF assms(1,3,4) this]
  have "map_of (latest_changes (vp_states v2) (vp_version v1) (vp_revisions v2) []) p =
      last_change p (vp_version v1) (vp_revisions v2) None"
    using map_of_latest_changes [of "vp_revisions v2" p "vp_states v2" "vp_version v1" "[]"] assms(2,6)
    by (simp add: revisions_ok_def)
  then show "(case map_of (latest_changes (vp_states v2) (vp_version v1) (vp_revisions v2) []) p of
       Some st \<Rightarrow> Some st | None \<Rightarrow> map_of (vp_states v1) p) = map_of (vp_states v2) p"
    using bspec [OF conjunct2 [OF overlay] assms(6)] by simp
  show "vp_version v1 \<le> vp_version v2" using overlay by simp
qed

text \<open>
  A presence delta is enough. A client that read a group's presence as a snapshot and later
  asks for the changes after that snapshot's version either is told to read a snapshot again or
  gets entries that, laid over what it holds, give the current state of every player now visible;
  at most the 128 most recent revisions are kept.
\<close>

theorem presence_delta_is_complete:
  assumes "\<forall>c \<in> set (first # seen @ later). std_ok c"
    and "observe_all (first # seen) empty_presence = Inr v1"
    and "presence_answer None t1 v1 = Inr held"
    and "observe_all later v1 = Inr v2"
    and "presence_answer (Some (ps_version held)) t2 v2 = Inr delta"
  shows "ps_mode delta = Mode_delta \<and> ps_version held \<le> ps_version delta \<and>
     length (vp_revisions v2) \<le> 128 \<and>
     (\<forall>p \<in> fst ` set (vp_states v2).
        (case map_of (ps_entries delta) p of
           Some st \<Rightarrow> Some st
         | None \<Rightarrow> map_of (ps_entries held) p) = map_of (vp_states v2) p)"
proof -
  note ok = observed_revisions_ok [OF assms(1,2,4)]
  have later: "\<forall>c \<in> set later. std_ok c" using assms(1) by simp
  note held = iffD1 [OF snapshot_answer assms(3)]
  have version: "ps_version held = vp_version v1" by (simp add: held)
  note delta = iffD1 [OF delta_answer assms(5) [unfolded version]]
  note fresh = conjunct1 [OF delta]
  have "unat (vp_version v2) - length (vp_revisions v2) \<le> unat (vp_version v1)"
    using kept_revisions_cover [OF ok(2) _ fresh] ok(1) by (simp add: revisions_ok_def)
  note advance = conjunct1 [OF overlay_current [OF ok(1) later assms(4) this]]
  note facts = presence_overlay(1) [OF ok later assms(4) fresh] advance
  have "length (vp_revisions v2) \<le> 128"
    using ok(2) by (simp add: revisions_ok_def maximum_presence_revisions_def)
  then show ?thesis
    unfolding conjunct2 [OF delta] held using facts
    by (intro conjI ballI) (simp_all only: simp_thms DirectoryPresenceSnapshot.select_convs)
qed

text \<open>
  A delta has no way to say that a player left. A reachable history exists in which a client
  that applies every delta keeps showing a player online who is no longer visible in the group.
\<close>

theorem presence_delta_cannot_remove:
  "\<exists>c1 c2 v1 v2 held delta p.
     observe_all [c1] empty_presence = Inr v1 \<and> presence_answer None 0 v1 = Inr held \<and>
     observe_all [c2] v1 = Inr v2 \<and>
     presence_answer (Some (ps_version held)) 1 v2 = Inr delta \<and>
     ps_version held < ps_version delta \<and> ps_entries delta = [] \<and>
     map_of (ps_entries held) p = Some Online_state \<and> map_of (vp_states v2) p = None"
proof -
  let ?c1 = "[(StrongId ''alice'', Online_state), (StrongId ''bob'', Online_state)]"
  let ?c2 = "[(StrongId ''alice'', Online_state)]"
  let ?v1 = "\<lparr>vp_version = 1, vp_initialized = True, vp_states = ?c1, vp_revisions = []\<rparr>"
  let ?v2 = "\<lparr>vp_version = 2, vp_initialized = True, vp_states = ?c2,
      vp_revisions = [\<lparr>rv_version = 2, rv_entries = []\<rparr>]\<rparr>"
  have "observe_all [?c1] empty_presence = Inr ?v1"
    by (simp add: observe_presence_def empty_presence_def)
  moreover have "observe_all [?c2] ?v1 = Inr ?v2"
    by (simp add: observe_presence_def changed_entries_def maximum_presence_revisions_def Let_def)
  moreover have "presence_answer None 0 ?v1 =
      Inr \<lparr>ps_version = 1, ps_mode = Mode_snapshot, ps_observed_at = 0, ps_entries = ?c1\<rparr>"
    by (simp add: presence_answer_def)
  moreover have "presence_answer (Some 1) 1 ?v2 =
      Inr \<lparr>ps_version = 2, ps_mode = Mode_delta, ps_observed_at = 1, ps_entries = []\<rparr>"
    by (simp add: presence_answer_def snapshot_is_required_def)
  ultimately show ?thesis
    by (intro exI [of _ ?c1] exI [of _ ?c2] exI [of _ ?v1] exI [of _ ?v2]
        exI [of _ "\<lparr>ps_version = 1, ps_mode = Mode_snapshot, ps_observed_at = 0, ps_entries = ?c1\<rparr>"]
        exI [of _ "\<lparr>ps_version = 2, ps_mode = Mode_delta, ps_observed_at = 1, ps_entries = []\<rparr>"]
        exI [of _ "StrongId ''bob''"]) simp
qed

section \<open>Concrete views\<close>

definition sample_provider :: "PlayerId \<Rightarrow> AuthoritativeMembershipContext option" where
  "sample_provider p =
     (if p = StrongId ''alice'' \<or> p = StrongId ''bob''
      then Some \<lparr>mc_snapshot = sample_snapshot 3, mc_role_policy = sample_policy\<rparr> else None)"

lemma sample_provider_ok:
  "sample_provider (StrongId ''alice'') =
     Some \<lparr>mc_snapshot = sample_snapshot 3, mc_role_policy = sample_policy\<rparr>"
  by (simp add: sample_provider_def)

lemma sample_snapshot_found:
  "snapshot_find (sample_snapshot 3) (StrongId ''alice'') = Some (sample_member ''alice'' ''s1'' ''t1'')"
  "snapshot_find (sample_snapshot 3) (StrongId ''bob'') = Some (sample_member ''bob'' ''s1'' ''t1'')"
  by (simp_all add: sample_membership_defs snapshot_find_def lower_bound_def)

lemma sample_group_found:
  "findGroup (ms_hierarchy (sample_snapshot 3)) (StrongId ''g'') =
     Some \<lparr>gr_id = StrongId ''g'', gr_display_name = ''Group'', gr_active = True\<rparr>"
  "vm_group_id (sample_member p sp t) = StrongId ''g''"
  by (simp_all add: sample_membership_defs sample_hierarchy_def findGroup_def)

lemma sample_context_found:
  "p = StrongId ''alice'' \<or> p = StrongId ''bob'' \<Longrightarrow>
   currentContextFor sample_provider p =
     Some \<lparr>mc_snapshot = sample_snapshot 3, mc_role_policy = sample_policy\<rparr>"
  by (auto simp: currentContextFor_def sample_provider_def sample_snapshot_found sample_group_found)

lemma sample_visible:
  "filter (\<lambda>m. vm_group_id m = StrongId ''g'') (ms_memberships (sample_snapshot 3)) =
     ms_memberships (sample_snapshot 3)"
  by (simp add: sample_membership_defs)

lemma sample_reads:
  assumes "p = StrongId ''alice'' \<or> p = StrongId ''bob''" and "q = StrongId ''alice'' \<or> q = StrongId ''bob''"
  obtains view1 d1 view2 d2 where
    "directoryFor sample_provider p DirectoryApplicationService_ctor = Inr (Inr view1, d1)"
    "directoryFor sample_provider q d1 = Inr (Inr view2, d2)"
    "di_group_id view1 = StrongId ''g''" "di_group_id view2 = StrongId ''g''"
proof -
  obtain sn "next" where sn: "specialization_nodes
      \<lparr>gr_id = StrongId ''g'', gr_display_name = ''Group'', gr_active = True\<rparr> (StrongId ''g'')
      (hi_specializations (ms_hierarchy (sample_snapshot 3))) 0 [] = (sn, next)" by fastforce
  obtain ps refs source where ps: "directory_participants DirectoryApplicationService_ctor
      (sort_key vm_player_id (ms_memberships (sample_snapshot 3))) []
      (ms_version (sample_snapshot 3)) = (ps, refs, source)" using prod_cases3 by blast
  have same: "directory_participants (DirectoryApplicationService_ctor\<lparr>ds_directory_versions := vs\<rparr>) ms r v =
      directory_participants DirectoryApplicationService_ctor ms r v" for vs ms r v
    by (induction ms arbitrary: r v)
      (simp_all add: DirectoryApplicationService_ctor_def Let_def case_prod_beta)
  have small: "length (ms_memberships (sample_snapshot 3)) \<le> maximum_directory_participants"
    by (simp add: sample_snapshot_def maximum_directory_participants_def)
  have fields: "ds_directory_versions DirectoryApplicationService_ctor = []"
      "ds_public_roles DirectoryApplicationService_ctor = []"
    by (simp_all add: DirectoryApplicationService_ctor_def)
  show thesis
    using assms small that
    by (elim disjE)
      (simp_all add: directoryFor_def sample_context_found sample_snapshot_found makeDirectory_def
        sample_group_found sample_visible sn ps same fields next_directory_version_def not_less Let_def)
qed

theorem directory_is_group_limited_witness:
  "\<exists>view d'. directoryFor sample_provider (StrongId ''alice'') DirectoryApplicationService_ctor =
       Inr (Inr view, d') \<and>
     map pa_player_id (di_participants view) =
       map vm_player_id (ms_memberships (sample_snapshot 3))"
proof -
  obtain view d' where read: "directoryFor sample_provider (StrongId ''alice'')
      DirectoryApplicationService_ctor = Inr (Inr view, d')"
    using sample_reads [of "StrongId ''alice''" "StrongId ''alice''"] by blast
  have "snapshot_ok (mc_snapshot \<lparr>mc_snapshot = sample_snapshot 3, mc_role_policy = sample_policy\<rparr>)"
    using sample_snapshot_ok [of 3] by simp
  from directory_is_group_limited [OF read sample_provider_ok this] show ?thesis
    using read by (auto simp: sample_snapshot_found sample_group_found sample_visible)
qed

theorem directory_version_witness:
  "\<exists>view1 d1 view2 d2.
     directoryFor sample_provider (StrongId ''alice'') DirectoryApplicationService_ctor =
       Inr (Inr view1, d1) \<and>
     directoryFor sample_provider (StrongId ''bob'') d1 = Inr (Inr view2, d2) \<and>
     0 < di_version view1 \<and>
     (if directory_fingerprint view2 = directory_fingerprint view1
      then di_version view2 = di_version view1 else di_version view1 < di_version view2)"
proof -
  obtain view1 d1 view2 d2 where read:
    "directoryFor sample_provider (StrongId ''alice'') DirectoryApplicationService_ctor =
       Inr (Inr view1, d1)"
    "directoryFor sample_provider (StrongId ''bob'') d1 = Inr (Inr view2, d2)"
    "di_group_id view1 = StrongId ''g''" "di_group_id view2 = StrongId ''g''"
    using sample_reads [of "StrongId ''alice''" "StrongId ''bob''"] by blast
  then have "di_group_id view2 = di_group_id view1" by simp
  from directory_version_follows_content [OF directory_versions_ok_ctor read(1,2) this] read(1,2)
  show ?thesis by blast
qed

theorem presence_delta_witness:
  "(let c1 = [(StrongId ''alice'', Online_state), (StrongId ''bob'', Online_state)];
        c2 = [(StrongId ''alice'', Online_state), (StrongId ''bob'', Offline_state)];
        v1 = \<lparr>vp_version = 1, vp_initialized = True, vp_states = c1, vp_revisions = []\<rparr>;
        v2 = \<lparr>vp_version = 2, vp_initialized = True, vp_states = c2,
              vp_revisions = [\<lparr>rv_version = 2,
                rv_entries = [(StrongId ''bob'', Offline_state)]\<rparr>]\<rparr>
    in observe_all [c2] v1 = Inr v2 \<and> length (vp_revisions v2) \<le> 128)"
proof -
  let ?c1 = "[(StrongId ''alice'', Online_state), (StrongId ''bob'', Online_state)]"
  let ?c2 = "[(StrongId ''alice'', Online_state), (StrongId ''bob'', Offline_state)]"
  let ?v1 = "\<lparr>vp_version = 1, vp_initialized = True, vp_states = ?c1, vp_revisions = []\<rparr>"
  let ?v2 = "\<lparr>vp_version = 2, vp_initialized = True, vp_states = ?c2,
      vp_revisions = [\<lparr>rv_version = 2, rv_entries = [(StrongId ''bob'', Offline_state)]\<rparr>]\<rparr>"
  have ok: "\<forall>c \<in> set (?c1 # [] @ [?c2]). std_ok c" by (simp add: std_ok_def)
  have o1: "observe_all (?c1 # []) empty_presence = Inr ?v1"
    by (simp add: observe_presence_def empty_presence_def)
  have o2: "observe_all [?c2] ?v1 = Inr ?v2"
    by (simp add: observe_presence_def changed_entries_def maximum_presence_revisions_def Let_def)
  have a1: "presence_answer None 0 ?v1 =
      Inr \<lparr>ps_version = 1, ps_mode = Mode_snapshot, ps_observed_at = 0, ps_entries = ?c1\<rparr>"
    by (simp add: presence_answer_def)
  have a2: "presence_answer (Some (ps_version \<lparr>ps_version = 1, ps_mode = Mode_snapshot,
        ps_observed_at = 0, ps_entries = ?c1\<rparr>)) 1 ?v2 =
      Inr \<lparr>ps_version = 2, ps_mode = Mode_delta, ps_observed_at = 1,
           ps_entries = [(StrongId ''bob'', Offline_state)]\<rparr>"
    by (simp add: presence_answer_def snapshot_is_required_def word_le_nat_alt)
  show ?thesis
    using presence_delta_is_complete [OF ok o1 a1 o2 a2] o2 by (simp add: Let_def)
qed

end
