(* ===== verification/Voice_Client.thy ===== *)
theory Voice_Client
  imports Domain_Model "HOL-Library.Product_Lexorder"
begin

text \<open>
  The client's voice facade (\<open>libs/client/include/hvc/client/voice_client.hpp\<close>,
  \<open>voice_transport.hpp\<close>, \<open>libs/client/src/voice_client.cpp\<close>): its data and its critical sections.
  Every method locks the client's mutex, works on its members, releases the mutex and calls the
  transport or the observer. A critical section is a function on the record of members; the
  theories \<open>Voice_Publication\<close> and \<open>Voice_Playback\<close> put them together with the calls in between.

  Gains are values of any linearly ordered type with zero, one and a multiplication; the code uses
  \<open>float\<close>. A \<open>NaN\<close> is refused wherever a gain enters the client, so it is not a value here.
\<close>

section \<open>Data\<close>

datatype VoiceTransportState =
    Transport_disconnected | Transport_connecting | Transport_connected | Transport_reconnecting

datatype VoiceTransportError =
    Vte_none
  | Vte_invalid_argument
  | Vte_invalid_state
  | Vte_connection_failed
  | Vte_audio_device_unavailable
  | Vte_audio_device_switch_failed
  | Vte_publication_failed
  | Vte_internal_error

record VoiceTransportResult =
  vr_error :: VoiceTransportError
  vr_message :: string

definition vr_success :: VoiceTransportResult where
  "vr_success = \<lparr>vr_error = Vte_none, vr_message = []\<rparr>"

definition vr_failure :: "VoiceTransportError \<Rightarrow> string \<Rightarrow> VoiceTransportResult" where
  "vr_failure e message = \<lparr>vr_error = e, vr_message = message\<rparr>"

definition vr_ok :: "VoiceTransportResult \<Rightarrow> bool" where
  "vr_ok r \<longleftrightarrow> vr_error r = Vte_none"

record VoiceRoomGrant =
  vg_scope :: VoiceScope
  vg_url :: string
  vg_token :: string

datatype MicrophonePublicationState = Pub_idle | Pub_starting | Pub_active | Pub_stopping

record 'f AudioEngineConfig =
  ae_maximum_streams :: nat
  ae_maximum_streams_per_scope :: "VoiceScope \<Rightarrow> nat"
  ae_team_gain_under_specialization :: 'f
  ae_team_gain_under_group :: 'f
  ae_specialization_gain_under_group :: 'f

text \<open>The default settings; the two arguments stand for the literals \<open>0.5F\<close> and \<open>0.25F\<close>.\<close>

definition AudioEngineConfig_default :: "'f \<Rightarrow> 'f \<Rightarrow> 'f AudioEngineConfig" where
  "AudioEngineConfig_default half quarter =
     \<lparr>ae_maximum_streams = 8,
      ae_maximum_streams_per_scope =
        (\<lambda>sc. case sc of Team_scope \<Rightarrow> 5 | Specialization_scope \<Rightarrow> 4 | Group_scope \<Rightarrow> 2),
      ae_team_gain_under_specialization = half,
      ae_team_gain_under_group = quarter,
      ae_specialization_gain_under_group = half\<rparr>"

record 'f RemoteAudioPlayback =
  rp_scope :: VoiceScope
  rp_participant_id :: string
  rp_admitted :: bool
  rp_gain :: 'f

datatype VoiceRemoteEventKind =
    Remote_participant_connected
  | Remote_participant_disconnected
  | Remote_audio_available
  | Remote_audio_unavailable
  | Remote_speaker_started
  | Remote_speaker_stopped

record VoiceConnectionEvent =
  ce_state :: VoiceTransportState
  ce_generation :: u64
  ce_sequence :: u64

record VoiceRemoteEvent =
  re_kind :: VoiceRemoteEventKind
  re_scope :: VoiceScope
  re_participant_id :: string
  re_generation :: u64
  re_sequence :: u64

datatype ObserverCall =
    Call_onVoiceStateChanged VoiceConnectionEvent
  | Call_onVoiceRemoteEvent VoiceRemoteEvent
  | Call_onVoiceError VoiceTransportError string

record 'f AvailableRemoteAudio =
  ra_scope :: VoiceScope
  ra_participant_id :: string
  ra_admission_order :: u64
  ra_admitted :: bool
  ra_gain :: 'f

record 'f PlaybackChange =
  pc_scope :: VoiceScope
  pc_participant_id :: string
  pc_admitted :: bool
  pc_gain :: 'f

text \<open>
  The members of the client. \<open>vc_observer\<close> tells whether an observer is attached and \<open>vc_calls\<close> is
  the log of the calls it has received; the unordered containers are never iterated, so they are
  sets and maps. \<open>vc_notifications\<close> stands for the condition variable \<open>publication_changed_\<close>: it
  counts the calls of \<open>notify_all\<close>, so a thread that went to sleep on the variable has been notified
  exactly when the count has grown since.
\<close>

record 'f VoiceClient =
  vc_observer :: bool
  vc_calls :: "ObserverCall list"
  vc_state :: VoiceTransportState
  vc_connection_generation :: u64
  vc_next_event_sequence :: u64
  vc_publication_state :: MicrophonePublicationState
  vc_publication_generation :: u64
  vc_active_scope :: "VoiceScope option"
  vc_last_stop_result :: VoiceTransportResult
  vc_audio_config :: "'f AudioEngineConfig"
  vc_available_remote_audio :: "'f AvailableRemoteAudio list"
  vc_muted_participants :: "string set"
  vc_blocked_participants :: "string set"
  vc_participant_volumes :: "string \<Rightarrow> 'f option"
  vc_next_admission_order :: u64
  vc_notifications :: nat

definition VoiceClient_ctor ::
  "VoiceTransportState \<Rightarrow> 'f AudioEngineConfig \<Rightarrow> 'f VoiceClient" where
  "VoiceClient_ctor transport_state config =
     \<lparr>vc_observer = False, vc_calls = [], vc_state = transport_state,
      vc_connection_generation = 0, vc_next_event_sequence = 0,
      vc_publication_state = Pub_idle, vc_publication_generation = 0, vc_active_scope = None,
      vc_last_stop_result = vr_success, vc_audio_config = config,
      vc_available_remote_audio = [], vc_muted_participants = {}, vc_blocked_participants = {},
      vc_participant_volumes = (\<lambda>_. None), vc_next_admission_order = 0,
      vc_notifications = 0\<rparr>"

definition vc_setObserver :: "bool \<Rightarrow> 'f VoiceClient \<Rightarrow> 'f VoiceClient" where
  "vc_setObserver attached c = c\<lparr>vc_observer := attached\<rparr>"

definition vc_observe :: "ObserverCall \<Rightarrow> 'f VoiceClient \<Rightarrow> 'f VoiceClient" where
  "vc_observe call c = (if vc_observer c then c\<lparr>vc_calls := vc_calls c @ [call]\<rparr> else c)"

section \<open>Connection\<close>

fun check_grants :: "VoiceRoomGrant list \<Rightarrow> (VoiceScope \<Rightarrow> bool) \<Rightarrow> VoiceTransportResult" where
  "check_grants [] seen = vr_success"
| "check_grants (g # gs) seen =
     (if seen (vg_scope g)
      then vr_failure Vte_invalid_argument ''voice room grants contain a duplicate scope''
      else if vg_url g = [] \<or> vg_token g = []
      then vr_failure Vte_invalid_argument
             ''voice room grants require a URL and a non-empty token''
      else check_grants gs (seen(vg_scope g := True)))"

definition validateGrants :: "VoiceRoomGrant list \<Rightarrow> VoiceTransportResult" where
  "validateGrants grants =
     (if grants = [] \<or> 3 < length grants
      then vr_failure Vte_invalid_argument
             ''between one and three authorized voice room grants are required''
      else check_grants grants (\<lambda>_. False))"

text \<open>Before the call of the transport; a result ends the method.\<close>

definition connect_begin ::
  "VoiceRoomGrant list \<Rightarrow> 'f VoiceClient \<Rightarrow> VoiceTransportResult option \<times> 'f VoiceClient" where
  "connect_begin grants c =
     (let validation = validateGrants grants in
      if \<not> vr_ok validation then (Some validation, c)
      else if vc_state c \<noteq> Transport_disconnected
      then (Some (vr_failure Vte_invalid_state ''voice client is already active''), c)
      else (None, c\<lparr>vc_state := Transport_connecting,
                    vc_connection_generation := vc_connection_generation c + 1\<rparr>))"

definition connect_finish :: "VoiceTransportResult \<Rightarrow> 'f VoiceClient \<Rightarrow> 'f VoiceClient" where
  "connect_finish result c =
     (if vr_ok result then c else c\<lparr>vc_state := Transport_disconnected\<rparr>)"

definition disconnect_begin :: "'f VoiceClient \<Rightarrow> VoiceTransportResult option \<times> 'f VoiceClient" where
  "disconnect_begin c =
     (if vc_state c = Transport_disconnected then (Some vr_success, c\<lparr>vc_active_scope := None\<rparr>)
      else (None, c))"

definition disconnect_goes_on :: "VoiceTransportResult \<Rightarrow> bool" where
  "disconnect_goes_on stop_result \<longleftrightarrow>
     vr_ok stop_result \<or> vr_error stop_result = Vte_invalid_state"

definition disconnect_finish :: "VoiceTransportResult \<Rightarrow> 'f VoiceClient \<Rightarrow> 'f VoiceClient" where
  "disconnect_finish result c =
     (if vr_ok result then c\<lparr>vc_state := Transport_disconnected, vc_active_scope := None\<rparr> else c)"

section \<open>Push-to-talk\<close>

definition press_begin ::
  "'f VoiceClient \<Rightarrow> (VoiceTransportResult + u64) \<times> 'f VoiceClient" where
  "press_begin c =
     (if vc_state c \<noteq> Transport_connected
      then (Inl (vr_failure Vte_invalid_state ''voice transport is not connected''), c)
      else if vc_publication_state c \<noteq> Pub_idle
      then (Inl (vr_failure Vte_invalid_state
                   ''only one push-to-talk transmission may be active''), c)
      else
        (let generation = vc_publication_generation c + 1
         in (Inr generation,
             c\<lparr>vc_publication_generation := generation, vc_publication_state := Pub_starting,
               vc_active_scope := None, vc_last_stop_result := vr_success\<rparr>)))"

text \<open>
  After \<open>startMicrophone\<close>: whether the press is confirmed, else whether its publication must be
  cancelled.
\<close>

datatype press_outcome = Press_confirmed | Press_unconfirmed (cancel_publication: bool)

definition press_confirm ::
  "VoiceScope \<Rightarrow> VoiceTransportResult \<Rightarrow> u64 \<Rightarrow> 'f VoiceClient \<Rightarrow> press_outcome \<times> 'f VoiceClient" where
  "press_confirm sc result generation c =
     (if vr_ok result \<and> generation = vc_publication_generation c \<and>
         vc_publication_state c = Pub_starting \<and> vc_state c = Transport_connected
      then (Press_confirmed,
            c\<lparr>vc_publication_state := Pub_active, vc_active_scope := Some sc,
              vc_notifications := vc_notifications c + 1\<rparr>)
      else (Press_unconfirmed
              (vr_ok result \<and> generation = vc_publication_generation c \<and>
               vc_publication_state c \<noteq> Pub_idle), c))"

text \<open>What the press does with the result of \<open>stopMicrophone\<close>.\<close>

definition tolerate_stopped :: "VoiceTransportResult \<Rightarrow> VoiceTransportResult" where
  "tolerate_stopped r =
     (if \<not> vr_ok r \<and> vr_error r = Vte_invalid_state then vr_success else r)"

definition publication_settled ::
  "VoiceTransportResult \<Rightarrow> u64 \<Rightarrow> 'f VoiceClient \<Rightarrow> 'f VoiceClient" where
  "publication_settled stop_result generation c =
     (if generation = vc_publication_generation c
      then c\<lparr>vc_publication_state := Pub_idle, vc_active_scope := None,
             vc_last_stop_result := stop_result, vc_notifications := vc_notifications c + 1\<rparr>
      else c)"

definition press_result ::
  "VoiceTransportResult \<Rightarrow> VoiceTransportResult \<Rightarrow> u64 \<Rightarrow> VoiceTransportResult" where
  "press_result result stop_result generation =
     (if \<not> vr_ok result then result
      else if \<not> vr_ok stop_result then stop_result
      else vr_failure Vte_invalid_state
             (''microphone publication generation '' @ decimal (unat generation) @
              '' was cancelled during the starting-to-stopping transition''))"

text \<open>
  The critical section at the start of a release: refused, wait for the owner of the publication
  to settle it, or stop the microphone.
\<close>

datatype release_action =
    Release_refused VoiceTransportResult
  | Release_waits u64
  | Release_stops u64

definition release_begin :: "'f VoiceClient \<Rightarrow> release_action \<times> 'f VoiceClient" where
  "release_begin c =
     (case vc_publication_state c of
        Pub_idle \<Rightarrow>
          (Release_refused (vr_failure Vte_invalid_state
                              ''no push-to-talk transmission is active''), c)
      | Pub_starting \<Rightarrow>
          (Release_waits (vc_publication_generation c),
           c\<lparr>vc_publication_state := Pub_stopping\<rparr>)
      | Pub_stopping \<Rightarrow> (Release_waits (vc_publication_generation c), c)
      | Pub_active \<Rightarrow>
          (Release_stops (vc_publication_generation c),
           c\<lparr>vc_publication_state := Pub_stopping\<rparr>))"

text \<open>The predicate of the condition variable.\<close>

definition release_may_wake :: "u64 \<Rightarrow> 'f VoiceClient \<Rightarrow> bool" where
  "release_may_wake generation c \<longleftrightarrow>
     vc_publication_generation c \<noteq> generation \<or> vc_publication_state c = Pub_idle"

section \<open>Callbacks of the transport\<close>

definition transportStateChanged ::
  "VoiceTransportState \<Rightarrow> 'f VoiceClient \<Rightarrow> VoiceConnectionEvent \<times> 'f VoiceClient" where
  "transportStateChanged state c =
     (let c1 = (if state = Transport_reconnecting \<and> vc_state c \<noteq> Transport_reconnecting
                then c\<lparr>vc_connection_generation := vc_connection_generation c + 1\<rparr> else c);
          c2 = c1\<lparr>vc_state := state\<rparr>;
          c3 = (if state \<noteq> Transport_connected \<and> vc_active_scope c2 \<noteq> None
                then c2\<lparr>vc_active_scope := None\<rparr> else c2);
          c4 = (if state \<noteq> Transport_connected \<and> vc_publication_state c3 = Pub_active
                then c3\<lparr>vc_publication_state := Pub_idle, vc_last_stop_result := vr_success,
                        vc_notifications := vc_notifications c3 + 1\<rparr>
                else if state \<noteq> Transport_connected \<and> vc_publication_state c3 = Pub_starting
                then c3\<lparr>vc_publication_state := Pub_stopping\<rparr>
                else c3);
          c5 = (if state \<noteq> Transport_connected
                then c4\<lparr>vc_available_remote_audio := []\<rparr> else c4);
          sequence = vc_next_event_sequence c5 + 1
      in (\<lparr>ce_state = state, ce_generation = vc_connection_generation c5,
           ce_sequence = sequence\<rparr>,
          c5\<lparr>vc_next_event_sequence := sequence\<rparr>))"

definition onTransportStateChanged ::
  "VoiceTransportState \<Rightarrow> 'f VoiceClient \<Rightarrow> 'f VoiceClient" where
  "onTransportStateChanged state c =
     (let (event, c') = transportStateChanged state c
      in vc_observe (Call_onVoiceStateChanged event) c')"

definition onTransportError ::
  "VoiceTransportError \<Rightarrow> string \<Rightarrow> 'f VoiceClient \<Rightarrow> 'f VoiceClient" where
  "onTransportError e message c = vc_observe (Call_onVoiceError e message) c"

definition emitRemoteEvent ::
  "VoiceRemoteEventKind \<Rightarrow> VoiceScope \<Rightarrow> string \<Rightarrow> 'f VoiceClient \<Rightarrow> 'f VoiceClient" where
  "emitRemoteEvent kind sc participant c =
     (if participant = []
      then onTransportError Vte_invalid_argument
             ''remote voice event has an empty participant ID'' c
      else if vc_state c = Transport_disconnected then c
      else
        (let sequence = vc_next_event_sequence c + 1
         in vc_observe
              (Call_onVoiceRemoteEvent
                 \<lparr>re_kind = kind, re_scope = sc, re_participant_id = participant,
                  re_generation = vc_connection_generation c, re_sequence = sequence\<rparr>)
              (c\<lparr>vc_next_event_sequence := sequence\<rparr>)))"

text \<open>Generations are counted in 64 bits.\<close>

lemma unat_of_nat_u64: "n < 2 ^ 64 \<Longrightarrow> unat (of_nat n :: u64) = n"
  by (simp add: unat_of_nat take_bit_eq_mod)

end
