(* ===== verification/Voice_Publication.thy ===== *)
theory Voice_Publication
  imports Voice_Client
begin

text \<open>
  Push-to-talk under concurrency. Calls of \<open>pressPushToTalk\<close>, \<open>releasePushToTalk\<close>, \<open>connect\<close> and
  \<open>disconnect\<close> (\<open>libs/client/src/voice_client.cpp\<close>) run on several threads and lock the client only
  for their critical sections; the transport is called in between and calls back at any time. A
  call is a thread at one of the points where it holds no lock, and a step is one critical section
  of one call or one callback. The transport is unconstrained: it may return any result at any
  time and report any state.
\<close>

section \<open>Calls in flight\<close>

text \<open>
  \<open>Starting\<close>: \<open>startMicrophone\<close> is running. \<open>Abandoning\<close>: the press was not confirmed; its last
  critical section is to come, after \<open>stopMicrophone\<close> if the flag is set. \<open>Stopping\<close>: the
  \<open>stopMicrophone\<close> of a release is running. \<open>Waiting\<close>: a release waits on the condition variable;
  the number is the count of notifications when it went to sleep, and it has been notified when the
  count has grown. The flag of the last two tells that the release was called by \<open>disconnect\<close>. A
  waiting release wakes up when it has been notified, or spuriously; then it checks its predicate and
  returns or sleeps again. \<open>Releasing\<close>: a
  disconnect is about to call its release. \<open>Disconnecting\<close>, \<open>Connecting\<close>: the call of the transport
  is running.
\<close>

datatype client_thread =
    Starting VoiceScope u64
  | Abandoning VoiceTransportResult u64 bool
  | Stopping u64 bool
  | Waiting u64 bool nat
  | Releasing
  | Disconnecting
  | Connecting

text \<open>\<open>cl_presses\<close> counts the accepted presses.\<close>

record 'f ClientSystem =
  cl_client :: "'f VoiceClient"
  cl_threads :: "client_thread list"
  cl_presses :: nat

fun owns_publication :: "client_thread \<Rightarrow> bool" where
  "owns_publication (Starting sc g) = True"
| "owns_publication (Abandoning r g stops) = True"
| "owns_publication (Stopping g d) = True"
| "owns_publication _ = False"

fun thread_generation :: "client_thread \<Rightarrow> u64 option" where
  "thread_generation (Starting sc g) = Some g"
| "thread_generation (Abandoning r g stops) = Some g"
| "thread_generation (Stopping g d) = Some g"
| "thread_generation (Waiting g d k) = Some g"
| "thread_generation _ = None"

definition owners :: "client_thread list \<Rightarrow> client_thread list" where
  "owners ts = filter owns_publication ts"

text \<open>What is left of a call after its release has returned.\<close>

definition after_release :: "bool \<Rightarrow> VoiceTransportResult \<Rightarrow> client_thread list" where
  "after_release in_disconnect r =
     (if in_disconnect \<and> disconnect_goes_on r then [Disconnecting] else [])"

fun release_threads :: "bool \<Rightarrow> nat \<Rightarrow> release_action \<Rightarrow> client_thread list" where
  "release_threads d notifications (Release_refused r) = after_release d r"
| "release_threads d notifications (Release_waits g) = [Waiting g d notifications]"
| "release_threads d notifications (Release_stops g) = [Stopping g d]"

text \<open>A sleeping release has been notified since it went to sleep.\<close>

definition notified :: "nat \<Rightarrow> 'f VoiceClient \<Rightarrow> bool" where
  "notified k c \<longleftrightarrow> k < vc_notifications c"

inductive client_step :: "'f ClientSystem \<Rightarrow> 'f ClientSystem \<Rightarrow> bool" where
  press:
    "press_begin (cl_client s) = (Inr g, c') \<Longrightarrow>
     client_step s (s\<lparr>cl_client := c', cl_threads := cl_threads s @ [Starting sc g],
                      cl_presses := cl_presses s + 1\<rparr>)"
| press_refused:
    "press_begin (cl_client s) = (Inl r, c') \<Longrightarrow> client_step s (s\<lparr>cl_client := c'\<rparr>)"
| start_confirmed:
    "cl_threads s = xs @ Starting sc g # ys \<Longrightarrow>
     press_confirm sc r g (cl_client s) = (Press_confirmed, c') \<Longrightarrow>
     client_step s (s\<lparr>cl_client := c', cl_threads := xs @ ys\<rparr>)"
| start_unconfirmed:
    "cl_threads s = xs @ Starting sc g # ys \<Longrightarrow>
     press_confirm sc r g (cl_client s) = (Press_unconfirmed cancel, c') \<Longrightarrow>
     client_step s (s\<lparr>cl_client := c',
                      cl_threads := xs @ Abandoning r g (cancel \<or> transport_publishes) # ys\<rparr>)"
| press_settled:
    "cl_threads s = xs @ Abandoning r g stops # ys \<Longrightarrow>
     client_step s
       (s\<lparr>cl_client := publication_settled (if stops then tolerate_stopped sr else vr_success) g
                         (cl_client s),
          cl_threads := xs @ ys\<rparr>)"
| release:
    "release_begin (cl_client s) = (action, c') \<Longrightarrow>
     client_step s
       (s\<lparr>cl_client := c',
          cl_threads := cl_threads s @ release_threads False (vc_notifications c') action\<rparr>)"
| release_settled:
    "cl_threads s = xs @ Stopping g d # ys \<Longrightarrow>
     client_step s (s\<lparr>cl_client := publication_settled sr g (cl_client s),
                      cl_threads := xs @ after_release d sr @ ys\<rparr>)"
| release_woken:
    "cl_threads s = xs @ Waiting g d k # ys \<Longrightarrow> release_may_wake g (cl_client s) \<Longrightarrow>
     client_step s
       (s\<lparr>cl_threads := xs @ after_release d (vc_last_stop_result (cl_client s)) @ ys\<rparr>)"
| release_sleeps_again:
    "cl_threads s = xs @ Waiting g d k # ys \<Longrightarrow> \<not> release_may_wake g (cl_client s) \<Longrightarrow>
     client_step s
       (s\<lparr>cl_threads := xs @ Waiting g d (vc_notifications (cl_client s)) # ys\<rparr>)"
| disconnect:
    "disconnect_begin (cl_client s) = (None, c') \<Longrightarrow>
     client_step s (s\<lparr>cl_client := c', cl_threads := cl_threads s @ [Releasing]\<rparr>)"
| already_disconnected:
    "disconnect_begin (cl_client s) = (Some r, c') \<Longrightarrow> client_step s (s\<lparr>cl_client := c'\<rparr>)"
| disconnect_release:
    "cl_threads s = xs @ Releasing # ys \<Longrightarrow> release_begin (cl_client s) = (action, c') \<Longrightarrow>
     client_step s
       (s\<lparr>cl_client := c',
          cl_threads := xs @ release_threads True (vc_notifications c') action @ ys\<rparr>)"
| disconnected:
    "cl_threads s = xs @ Disconnecting # ys \<Longrightarrow>
     client_step s (s\<lparr>cl_client := disconnect_finish r (cl_client s), cl_threads := xs @ ys\<rparr>)"
| connect:
    "connect_begin grants (cl_client s) = (None, c') \<Longrightarrow>
     client_step s (s\<lparr>cl_client := c', cl_threads := cl_threads s @ [Connecting]\<rparr>)"
| connect_refused:
    "connect_begin grants (cl_client s) = (Some r, c') \<Longrightarrow> client_step s (s\<lparr>cl_client := c'\<rparr>)"
| connected:
    "cl_threads s = xs @ Connecting # ys \<Longrightarrow>
     client_step s (s\<lparr>cl_client := connect_finish r (cl_client s), cl_threads := xs @ ys\<rparr>)"
| state_callback:
    "client_step s (s\<lparr>cl_client := onTransportStateChanged st (cl_client s)\<rparr>)"

inductive client_reachable :: "'f ClientSystem \<Rightarrow> bool" where
  fresh: "client_reachable \<lparr>cl_client = VoiceClient_ctor st config, cl_threads = [], cl_presses = 0\<rparr>"
| step: "client_reachable s \<Longrightarrow> client_step s s' \<Longrightarrow> client_reachable s'"

section \<open>The invariant\<close>

fun owner_ok :: "'f VoiceClient \<Rightarrow> client_thread \<Rightarrow> bool" where
  "owner_ok c (Stopping g d) \<longleftrightarrow>
     g = vc_publication_generation c \<and> vc_publication_state c = Pub_stopping"
| "owner_ok c t \<longleftrightarrow>
     thread_generation t = Some (vc_publication_generation c) \<and>
     vc_publication_state c \<in> {Pub_starting, Pub_stopping} \<and> vc_active_scope c = None"

definition owners_ok :: "'f VoiceClient \<Rightarrow> client_thread list \<Rightarrow> bool" where
  "owners_ok c ts \<longleftrightarrow>
     (case ts of
        [] \<Rightarrow> vc_publication_state c = Pub_active \<or>
              vc_publication_state c = Pub_idle \<and> vc_active_scope c = None
      | [t] \<Rightarrow> owner_ok c t
      | _ \<Rightarrow> False)"

text \<open>
  A waiting release whose predicate holds has been notified. The arguments are the number of presses,
  the state of the publication and the number of notifications.
\<close>

fun waiter_ok :: "nat \<Rightarrow> MicrophonePublicationState \<Rightarrow> nat \<Rightarrow> client_thread \<Rightarrow> bool" where
  "waiter_ok n p m (Waiting g d k) \<longleftrightarrow>
     unat g \<le> n \<and> (unat g = n \<longrightarrow> p \<in> {Pub_stopping, Pub_idle}) \<and> k \<le> m \<and>
     (unat g < n \<or> p = Pub_idle \<longrightarrow> k < m)"
| "waiter_ok n p m t \<longleftrightarrow> True"

definition publication_ok :: "'f VoiceClient \<Rightarrow> client_thread list \<Rightarrow> nat \<Rightarrow> bool" where
  "publication_ok c ts n \<longleftrightarrow>
     owners_ok c (owners ts) \<and> vc_publication_generation c = of_nat n \<and>
     (n < 2 ^ 64 \<longrightarrow> list_all (waiter_ok n (vc_publication_state c) (vc_notifications c)) ts)"

lemmas client_sections = press_begin_def press_confirm_def publication_settled_def
  release_begin_def disconnect_begin_def disconnect_finish_def connect_begin_def
  connect_finish_def onTransportStateChanged_def transportStateChanged_def vc_observe_def
  after_release_def

lemma owners_simps [simp]:
  "owners [] = []"
  "owners (xs @ ys) = owners xs @ owners ys"
  "owners (t # ts) = (if owns_publication t then t # owners ts else owners ts)"
  by (simp_all add: owners_def)

lemma owners_after_release [simp]: "owners (after_release d r) = []"
  by (simp add: after_release_def)

lemma waiters_after_release [simp]: "list_all (waiter_ok n p m) (after_release d r)"
  by (simp add: after_release_def)

lemma owns_owners: "t \<in> set (owners ts) \<Longrightarrow> owns_publication t"
  by (simp add: owners_def)

lemma owners_ok_one [simp]:
  "owners_ok c (xs @ t # ys) \<longleftrightarrow> xs = [] \<and> ys = [] \<and> owner_ok c t"
  by (cases xs; cases ys) (auto simp: owners_ok_def split: list.splits)

lemma owners_ok_single [simp]: "owners_ok c [t] \<longleftrightarrow> owner_ok c t"
  using owners_ok_one [of c "[]" t "[]"] by simp

lemma owners_ok_Nil:
  "owners_ok c [] \<longleftrightarrow> vc_publication_state c = Pub_active \<or>
     vc_publication_state c = Pub_idle \<and> vc_active_scope c = None"
  by (simp add: owners_ok_def)

lemma owner_ok_state:
  "owner_ok c t \<Longrightarrow> owns_publication t \<Longrightarrow>
     vc_publication_state c \<in> {Pub_starting, Pub_stopping} \<and>
     thread_generation t = Some (vc_publication_generation c)"
  by (cases t) auto

lemma owners_ok_state:
  assumes "owners_ok c (owners ts)"
  shows "owners ts = [] \<longleftrightarrow> vc_publication_state c \<in> {Pub_idle, Pub_active}"
    and "owners ts \<noteq> [] \<Longrightarrow> \<exists>t. owners ts = [t] \<and> owns_publication t \<and> owner_ok c t"
  using assms owns_owners [of "hd (owners ts)" ts] owner_ok_state [of c "hd (owners ts)"]
  by (cases "owners ts"; auto simp: owners_ok_def split: list.splits)+

text \<open>A change that leaves the publication as it is, or moves it from starting to stopping.\<close>

lemma owners_ok_cong:
  assumes "owners_ok c ts" and "vc_publication_generation c' = vc_publication_generation c"
    and "vc_publication_state c' = vc_publication_state c \<or>
         vc_publication_state c = Pub_starting \<and> vc_publication_state c' = Pub_stopping"
    and "vc_active_scope c' = vc_active_scope c \<or> vc_active_scope c' = None"
  shows "owners_ok c' ts"
proof -
  have "owner_ok c' t" if "owner_ok c t" for t
    using that assms(2-4) by (cases t) auto
  then show ?thesis
    using assms by (auto simp: owners_ok_def split: list.splits)
qed

lemma waiter_ok_mono:
  "waiter_ok n p m t \<Longrightarrow> p' = p \<or> p' = Pub_stopping \<Longrightarrow> waiter_ok n p' m t"
  "waiter_ok n p m t \<Longrightarrow> p' \<in> {Pub_stopping, Pub_idle} \<Longrightarrow> waiter_ok n p' (Suc m) t"
  "waiter_ok n Pub_idle m t \<Longrightarrow> waiter_ok (Suc n) p' m t"
  "waiter_ok n Pub_starting m t \<Longrightarrow> waiter_ok n Pub_active (Suc m) t"
  by (cases t; auto)+

lemma waiters_ok_mono:
  "list_all (waiter_ok n p m) ts \<Longrightarrow> p' = p \<or> p' = Pub_stopping \<Longrightarrow>
     list_all (waiter_ok n p' m) ts"
  "list_all (waiter_ok n p m) ts \<Longrightarrow> p' \<in> {Pub_stopping, Pub_idle} \<Longrightarrow>
     list_all (waiter_ok n p' (Suc m)) ts"
  "list_all (waiter_ok n Pub_idle m) ts \<Longrightarrow> list_all (waiter_ok (Suc n) p' m) ts"
  "list_all (waiter_ok n Pub_starting m) ts \<Longrightarrow> list_all (waiter_ok n Pub_active (Suc m)) ts"
  by (auto simp: list_all_iff intro: waiter_ok_mono)

lemma publication_ok_cong:
  assumes "publication_ok c ts n" and "vc_publication_generation c' = vc_publication_generation c"
    and "vc_publication_state c' = vc_publication_state c \<or>
         vc_publication_state c = Pub_starting \<and> vc_publication_state c' = Pub_stopping"
    and "vc_active_scope c' = vc_active_scope c \<or> vc_active_scope c' = None"
    and "vc_notifications c' = vc_notifications c"
  shows "publication_ok c' ts n"
  using assms owners_ok_cong [OF _ assms(2-4)] waiters_ok_mono(1)
  by (auto simp: publication_ok_def)

section \<open>Every step keeps the invariant\<close>

lemma publication_ok_press:
  assumes "publication_ok c ts n" and "press_begin c = (Inr g, c')"
  shows "publication_ok c' (ts @ [Starting sc g]) (Suc n)"
proof -
  have "vc_publication_state c = Pub_idle" and c': "c' =
      c\<lparr>vc_publication_generation := vc_publication_generation c + 1,
        vc_publication_state := Pub_starting, vc_active_scope := None,
        vc_last_stop_result := vr_success\<rparr>" "g = vc_publication_generation c + 1"
    using assms(2) by (auto simp: press_begin_def Let_def split: if_splits)
  then have "owners ts = []"
    using assms(1) owners_ok_state(1) [of c ts] by (simp add: publication_ok_def)
  then show ?thesis
    using assms(1) waiters_ok_mono(3) [of n "vc_notifications c" ts] \<open>vc_publication_state c = Pub_idle\<close>
    by (simp add: publication_ok_def c' owners_ok_def)
qed

lemma publication_ok_settled:
  assumes "publication_ok c (xs @ t # ys) n" and "owns_publication t"
    and "thread_generation t = Some g" and "owners zs = []"
    and "\<And>p m. list_all (waiter_ok n p m) zs"
  shows "publication_ok (publication_settled r g c) (xs @ zs @ ys) n"
  using assms owner_ok_state [of c t]
    waiters_ok_mono(2) [of n "vc_publication_state c" "vc_notifications c" _ Pub_idle]
  by (auto simp: publication_ok_def publication_settled_def owners_ok_Nil)

lemma publication_ok_confirm:
  assumes "publication_ok c (xs @ Starting sc g # ys) n"
    and "press_confirm sc r g c = (Press_confirmed, c')"
  shows "publication_ok c' (xs @ ys) n"
proof -
  have starting: "vc_publication_state c = Pub_starting"
    and c': "c' = c\<lparr>vc_publication_state := Pub_active, vc_active_scope := Some sc,
      vc_notifications := vc_notifications c + 1\<rparr>"
    using assms(2) by (auto simp: press_confirm_def split: if_splits)
  then show ?thesis
    using assms(1) waiters_ok_mono(4) [of n "vc_notifications c"]
    by (auto simp: publication_ok_def c' owners_ok_Nil)
qed

lemma publication_ok_release:
  assumes "publication_ok c (xs @ ys) n" and "release_begin c = (action, c')"
  shows "publication_ok c' (xs @ release_threads d (vc_notifications c') action @ ys) n"
proof (cases "vc_publication_state c")
  case Pub_idle
  then show ?thesis using assms by (auto simp: release_begin_def publication_ok_def)
next
  case Pub_starting
  then have c': "c' = c\<lparr>vc_publication_state := Pub_stopping\<rparr>"
      "action = Release_waits (vc_publication_generation c)"
    using assms(2) by (auto simp: release_begin_def)
  have "publication_ok c' (xs @ ys) n"
    by (rule publication_ok_cong [OF assms(1)]) (simp_all add: c' Pub_starting)
  then show ?thesis by (auto simp: publication_ok_def c' unat_of_nat_u64)
next
  case Pub_stopping
  then show ?thesis
    using assms by (auto simp: release_begin_def publication_ok_def unat_of_nat_u64)
next
  case Pub_active
  then have c': "c' = c\<lparr>vc_publication_state := Pub_stopping\<rparr>"
      "action = Release_stops (vc_publication_generation c)"
    using assms(2) by (auto simp: release_begin_def)
  have "owners (xs @ ys) = []"
    using assms(1) owners_ok_state(1) [of c "xs @ ys"] Pub_active by (simp add: publication_ok_def)
  then show ?thesis
    using assms(1) waiters_ok_mono(1) [of n "vc_publication_state c" "vc_notifications c" _ Pub_stopping]
    by (auto simp: publication_ok_def c')
qed

lemma publication_ok_callback:
  assumes "publication_ok c ts n"
  shows "publication_ok (onTransportStateChanged st c) ts n"
proof (cases "st \<noteq> Transport_connected \<and> vc_publication_state c = Pub_active")
  case True
  then have "owners ts = []"
    using assms owners_ok_state(1) [of c ts] by (simp add: publication_ok_def)
  then show ?thesis
    using assms True waiters_ok_mono(2) [of n "vc_publication_state c" "vc_notifications c" ts Pub_idle]
    by (auto simp: publication_ok_def client_sections Let_def owners_ok_Nil)
next
  case False
  then show ?thesis
    by (intro publication_ok_cong [OF assms]) (auto simp: client_sections Let_def)
qed

lemma publication_ok_quiet:
  assumes "publication_ok c (xs @ ys) n" and "owners zs = []" and "\<And>p m. list_all (waiter_ok n p m) zs"
  shows "publication_ok c (xs @ zs @ ys) n"
  using assms by (simp add: publication_ok_def)

lemma publication_ok_step:
  assumes "client_step s s'" and ok: "publication_ok (cl_client s) (cl_threads s) (cl_presses s)"
  shows "publication_ok (cl_client s') (cl_threads s') (cl_presses s')"
  using assms(1)
proof cases
  case (press g c' sc)
  then show ?thesis using publication_ok_press [OF ok press(2)] by simp
next
  case (press_refused r c')
  then show ?thesis using ok by (auto simp: press_begin_def Let_def split: if_splits)
next
  case (start_confirmed xs sc g ys r c')
  then show ?thesis using publication_ok_confirm ok by simp
next
  case (start_unconfirmed xs sc g ys r cancel c' transport_publishes)
  then have "c' = cl_client s" by (auto simp: press_confirm_def split: if_splits)
  then show ?thesis using ok start_unconfirmed(1,2) by (simp add: publication_ok_def)
next
  case (press_settled xs r g stops ys sr)
  then show ?thesis using publication_ok_settled [of "cl_client s" xs _ ys _ g "[]"] ok by simp
next
  case (release action c')
  then show ?thesis
    using publication_ok_release [of "cl_client s" "cl_threads s" "[]"] ok by simp
next
  case (release_settled xs g d ys sr)
  then show ?thesis
    using publication_ok_settled [of "cl_client s" xs "Stopping g d" ys _ g "after_release d sr"] ok
    by simp
next
  case (release_sleeps_again xs g d k ys)
  then show ?thesis
    using ok by (auto simp: publication_ok_def release_may_wake_def unat_of_nat_u64)
next
  case (release_woken xs g d k ys)
  then have "publication_ok (cl_client s) (xs @ ys) (cl_presses s)"
    using ok by (simp add: publication_ok_def)
  then show ?thesis
    using release_woken(1) publication_ok_quiet [of "cl_client s" xs ys "cl_presses s"
        "after_release d (vc_last_stop_result (cl_client s))"] by simp
next
  case (disconnect_release xs ys action c')
  then have "publication_ok (cl_client s) (xs @ ys) (cl_presses s)"
    using ok by (simp add: publication_ok_def)
  then show ?thesis using disconnect_release(1,3) publication_ok_release by simp
next
  case (state_callback st)
  then show ?thesis using publication_ok_callback [OF ok] by simp
next
  case (disconnect c')
  then show ?thesis
    using ok by (auto simp: disconnect_begin_def publication_ok_def split: if_splits)
next
  case (already_disconnected r c')
  then show ?thesis
    by (auto simp: disconnect_begin_def intro: publication_ok_cong [OF ok] split: if_splits)
next
  case (disconnected xs ys r)
  then have "publication_ok (cl_client s) (xs @ ys) (cl_presses s)"
    using ok by (simp add: publication_ok_def)
  then show ?thesis
    using disconnected(1) by (auto simp: disconnect_finish_def intro: publication_ok_cong)
next
  case (connect grants c')
  then have "publication_ok c' (cl_threads s) (cl_presses s)"
    by (auto simp: connect_begin_def Let_def intro: publication_ok_cong [OF ok] split: if_splits)
  then show ?thesis using connect(1) by (simp add: publication_ok_def)
next
  case (connect_refused grants r c')
  then show ?thesis using ok by (auto simp: connect_begin_def Let_def split: if_splits)
next
  case (connected xs ys r)
  then have "publication_ok (cl_client s) (xs @ ys) (cl_presses s)"
    using ok by (simp add: publication_ok_def)
  then show ?thesis
    using connected(1) by (auto simp: connect_finish_def intro: publication_ok_cong)
qed

lemma publication_ok_fresh: "publication_ok (VoiceClient_ctor st config) [] 0"
  by (simp add: publication_ok_def owners_ok_def VoiceClient_ctor_def)

lemma client_reachable_ok:
  assumes "client_reachable s"
  shows "publication_ok (cl_client s) (cl_threads s) (cl_presses s)"
  using assms by induction (auto simp: publication_ok_fresh intro: publication_ok_step)

section \<open>Moves of the publication\<close>

text \<open>What each critical section does to the publication.\<close>

lemma publication_moves:
  "press_begin c = (x, c') \<Longrightarrow>
     vc_publication_state c' = vc_publication_state c \<or>
     vc_publication_state c = Pub_idle \<and> vc_publication_state c' = Pub_starting"
  "press_confirm sc r g c = (outcome, c') \<Longrightarrow>
     c' = c \<and> outcome \<noteq> Press_confirmed \<or>
     vc_publication_state c = Pub_starting \<and> vc_publication_state c' = Pub_active \<and>
     g = vc_publication_generation c \<and> vc_state c = Transport_connected \<and>
     vc_active_scope c' = Some sc"
  "vc_publication_state (publication_settled r g c) = vc_publication_state c \<or>
     vc_publication_state (publication_settled r g c) = Pub_idle"
  "release_begin c = (action, c') \<Longrightarrow>
     vc_publication_state c' = vc_publication_state c \<or>
     vc_publication_state c \<in> {Pub_starting, Pub_active} \<and> vc_publication_state c' = Pub_stopping"
  "disconnect_begin c = (y, c') \<Longrightarrow> vc_publication_state c' = vc_publication_state c"
  "vc_publication_state (disconnect_finish r c) = vc_publication_state c"
  "connect_begin grants c = (z, c') \<Longrightarrow> vc_publication_state c' = vc_publication_state c"
  "vc_publication_state (connect_finish r c) = vc_publication_state c"
  "vc_publication_state (onTransportStateChanged st c) = vc_publication_state c \<or>
     vc_publication_state c = Pub_active \<and>
       vc_publication_state (onTransportStateChanged st c) = Pub_idle \<or>
     vc_publication_state c = Pub_starting \<and>
       vc_publication_state (onTransportStateChanged st c) = Pub_stopping"
  by (auto simp: client_sections Let_def split: if_splits MicrophonePublicationState.splits)

lemma publication_step_moves:
  assumes "client_reachable s" and "client_step s s'"
    and "vc_publication_state (cl_client s') \<noteq> vc_publication_state (cl_client s)"
  shows "(vc_publication_state (cl_client s), vc_publication_state (cl_client s')) \<in>
       {(Pub_idle, Pub_starting), (Pub_starting, Pub_active), (Pub_starting, Pub_stopping),
        (Pub_starting, Pub_idle), (Pub_active, Pub_stopping), (Pub_active, Pub_idle),
        (Pub_stopping, Pub_idle)} \<and>
     (vc_publication_state (cl_client s') = Pub_active \<longrightarrow>
        (\<exists>sc. Starting sc (vc_publication_generation (cl_client s)) \<in> set (cl_threads s) \<and>
           vc_state (cl_client s) = Transport_connected \<and>
           vc_active_scope (cl_client s') = Some sc))"
  using assms(2)
proof cases
  case (press_settled xs r g stops ys sr)
  then have "vc_publication_state (cl_client s) \<notin> {Pub_idle, Pub_active}"
    using client_reachable_ok [OF assms(1)] by (auto simp: publication_ok_def)
  with press_settled assms(3) show ?thesis
    using publication_moves(3) [of "if stops then tolerate_stopped sr else vr_success" g
        "cl_client s"]
    by (cases "vc_publication_state (cl_client s)") simp_all
next
  case (release_settled xs g d ys sr)
  then have "vc_publication_state (cl_client s) \<notin> {Pub_idle, Pub_active}"
    using client_reachable_ok [OF assms(1)] by (auto simp: publication_ok_def)
  with release_settled assms(3) show ?thesis
    using publication_moves(3) [of sr g "cl_client s"]
    by (cases "vc_publication_state (cl_client s)") simp_all
next
  case (press g c' sc)
  with assms(3) show ?thesis using publication_moves(1) [OF press(2)] by auto
next
  case (start_confirmed xs sc g ys r c')
  with assms(3) show ?thesis
    using publication_moves(2) [OF start_confirmed(3)] by auto
next
  case (start_unconfirmed xs sc g ys r cancel c' transport_publishes)
  with assms(3) show ?thesis
    using publication_moves(2) [OF start_unconfirmed(3)] by auto
next
  case (release action c')
  with assms(3) show ?thesis using publication_moves(4) [OF release(2)] by auto
next
  case (disconnect_release xs ys action c')
  with assms(3) show ?thesis using publication_moves(4) [OF disconnect_release(3)] by auto
next
  case (state_callback st)
  with assms(3) show ?thesis using publication_moves(9) [of st "cl_client s"] by auto
next
  case (press_refused r c')
  with assms(3) show ?thesis by (auto simp: press_begin_def Let_def split: if_splits)
next
  case (disconnect c')
  with assms(3) show ?thesis using publication_moves(5) [OF disconnect(2)] by simp
next
  case (already_disconnected r c')
  with assms(3) show ?thesis using publication_moves(5) [OF already_disconnected(2)] by simp
next
  case (connect grants c')
  with assms(3) show ?thesis using publication_moves(7) [OF connect(2)] by simp
next
  case (connect_refused grants r c')
  with assms(3) show ?thesis using publication_moves(7) [OF connect_refused(2)] by simp
qed (use assms(3) in \<open>simp_all add: publication_moves(6,8)\<close>)

section \<open>One publication at a time\<close>

text \<open>
  C25: one publication at a time. However calls and callbacks interleave, at most one call owns
  the microphone publication, and it is the call of the current generation; when none does, the
  publication is idle or active, never left starting or stopping. A press is accepted only when
  nothing is published and no start or stop of the microphone is outstanding.
\<close>

theorem one_publication_at_a_time:
  assumes "client_reachable s"
  shows "length (owners (cl_threads s)) \<le> 1 \<and>
     (\<forall>t \<in> set (owners (cl_threads s)).
        thread_generation t = Some (vc_publication_generation (cl_client s))) \<and>
     (owners (cl_threads s) = [] \<longleftrightarrow>
        vc_publication_state (cl_client s) \<in> {Pub_idle, Pub_active}) \<and>
     (\<forall>g c'. press_begin (cl_client s) = (Inr g, c') \<longrightarrow>
        owners (cl_threads s) = [] \<and> vc_active_scope (cl_client s) = None)"
proof -
  note ok = client_reachable_ok [OF assms]
  have "owners (cl_threads s) = [] \<longleftrightarrow>
      vc_publication_state (cl_client s) \<in> {Pub_idle, Pub_active}"
    by (rule owners_ok_state(1)) (use ok in \<open>simp add: publication_ok_def\<close>)
  moreover have "length (owners (cl_threads s)) \<le> 1 \<and> (\<forall>t \<in> set (owners (cl_threads s)).
      thread_generation t = Some (vc_publication_generation (cl_client s)))"
    using owners_ok_state(2) [of "cl_client s" "cl_threads s"] ok
      owner_ok_state [of "cl_client s" "hd (owners (cl_threads s))"]
    by (cases "owners (cl_threads s)") (auto simp: publication_ok_def)
  moreover have "owners (cl_threads s) = [] \<and> vc_active_scope (cl_client s) = None"
    if "press_begin (cl_client s) = (Inr g, c')" for g c'
  proof -
    have idle: "vc_publication_state (cl_client s) = Pub_idle"
      using that by (auto simp: press_begin_def Let_def split: if_splits)
    then have "owners (cl_threads s) = []" using calculation(1) by simp
    with idle ok show ?thesis by (simp add: publication_ok_def owners_ok_Nil)
  qed
  ultimately show ?thesis by blast
qed

lemma waiting_ok:
  assumes "client_reachable s" and "cl_presses s < 2 ^ 64"
    and "Waiting g d k \<in> set (cl_threads s)"
  shows "waiter_ok (cl_presses s) (vc_publication_state (cl_client s))
      (vc_notifications (cl_client s)) (Waiting g d k)"
    and "release_may_wake g (cl_client s) \<longleftrightarrow>
      unat g < cl_presses s \<or> vc_publication_state (cl_client s) = Pub_idle"
proof -
  show waiter: "waiter_ok (cl_presses s) (vc_publication_state (cl_client s))
      (vc_notifications (cl_client s)) (Waiting g d k)"
    using client_reachable_ok [OF assms(1)] assms(2,3)
    unfolding publication_ok_def list_all_iff by blast
  have "vc_publication_generation (cl_client s) = of_nat (cl_presses s)"
    using client_reachable_ok [OF assms(1)] by (simp add: publication_ok_def)
  moreover have "of_nat (cl_presses s) \<noteq> g \<longleftrightarrow> unat g \<noteq> cl_presses s"
    using unat_of_nat_u64 [OF assms(2)] by (auto simp: word_unat_eq_iff)
  ultimately show "release_may_wake g (cl_client s) \<longleftrightarrow>
      unat g < cl_presses s \<or> vc_publication_state (cl_client s) = Pub_idle"
    using waiter by (auto simp: release_may_wake_def)
qed

lemma notifications_grow:
  "client_step s s' \<Longrightarrow> vc_notifications (cl_client s) \<le> vc_notifications (cl_client s')"
  by (cases rule: client_step.cases, assumption)
    (auto simp: client_sections Let_def split: if_splits MicrophonePublicationState.splits)

lemma presses_step:
  assumes "client_step s s'"
  shows "cl_presses s' = cl_presses s \<or>
    cl_presses s' = Suc (cl_presses s) \<and> vc_publication_state (cl_client s) = Pub_idle"
  using assms by cases (auto simp: press_begin_def Let_def split: if_splits)

text \<open>Once a waiting release may wake, it may until it does.\<close>

lemma wake_stays:
  assumes "client_reachable s" and "client_step s s'" and "cl_presses s' < 2 ^ 64"
    and "Waiting g d k \<in> set (cl_threads s)" and "release_may_wake g (cl_client s)"
  shows "release_may_wake g (cl_client s')"
proof -
  have few: "cl_presses s < 2 ^ 64" using presses_step [OF assms(2)] assms(3) by auto
  have "unat g < cl_presses s' \<or>
      cl_presses s' = cl_presses s \<and> vc_publication_state (cl_client s) = Pub_idle"
    using waiting_ok [OF assms(1) few assms(4)] assms(5) presses_step [OF assms(2)] by auto
  then show ?thesis
  proof
    assume old: "unat g < cl_presses s'"
    have "vc_publication_generation (cl_client s') = of_nat (cl_presses s')"
      using client_reachable_ok [OF client_reachable.step [OF assms(1,2)]]
      by (simp add: publication_ok_def)
    then have "unat (vc_publication_generation (cl_client s')) = cl_presses s'"
      using assms(3) by (simp add: unat_of_nat_u64)
    with old show ?thesis by (auto simp: release_may_wake_def)
  next
    assume idle: "cl_presses s' = cl_presses s \<and> vc_publication_state (cl_client s) = Pub_idle"
    have "vc_publication_state (cl_client s') \<noteq> Pub_starting"
    proof
      assume starting: "vc_publication_state (cl_client s') = Pub_starting"
      from assms(2) show False
        by cases (use idle starting in \<open>auto simp: client_sections Let_def
            split: if_splits MicrophonePublicationState.splits\<close>)
    qed
    with idle show ?thesis
      using publication_step_moves [OF assms(1,2)] by (auto simp: release_may_wake_def)
  qed
qed

text \<open>The step in which the owner of a stopping publication gives it up notifies.\<close>

lemma gives_up_notifies:
  assumes "client_reachable s" and "client_step s s'"
    and "vc_publication_state (cl_client s) = Pub_stopping" and "owners (cl_threads s') = []"
  shows "vc_publication_state (cl_client s') = Pub_idle \<and>
    vc_notifications (cl_client s') = Suc (vc_notifications (cl_client s))"
proof -
  have "vc_publication_state (cl_client s') \<in> {Pub_idle, Pub_active}"
    using client_reachable_ok [OF client_reachable.step [OF assms(1,2)]] assms(4)
    by (auto simp: publication_ok_def owners_ok_Nil)
  then have idle: "vc_publication_state (cl_client s') = Pub_idle"
    using publication_step_moves [OF assms(1,2)] assms(3) by auto
  from assms(2) have "vc_notifications (cl_client s') = Suc (vc_notifications (cl_client s))"
    by cases (use idle assms(3) in \<open>auto simp: client_sections Let_def
        split: if_splits MicrophonePublicationState.splits\<close>)
  with idle show ?thesis ..
qed

text \<open>
  C26: no wake-up is lost. While fewer than 2 ^ 64 presses were accepted, a release that sleeps on
  the condition variable although its predicate holds has been notified since it went to sleep, so
  it does not depend on spurious wake-ups; until it checks the predicate, every step keeps it true.
  A release whose predicate does not hold sleeps because of exactly one other call, which owns the
  publication of the same generation, and the step in which that call gives the publication up makes
  the predicate true and notifies the release.
\<close>

theorem release_is_woken:
  assumes "client_reachable s" and "cl_presses s < 2 ^ 64"
    and "Waiting g d k \<in> set (cl_threads s)"
  shows "(release_may_wake g (cl_client s) \<longrightarrow>
       notified k (cl_client s) \<and>
       (\<forall>s'. client_step s s' \<and> cl_presses s' < 2 ^ 64 \<longrightarrow> release_may_wake g (cl_client s'))) \<and>
     (\<not> release_may_wake g (cl_client s) \<longrightarrow>
       (\<exists>t. owners (cl_threads s) = [t] \<and> thread_generation t = Some g \<and>
          (\<forall>s'. client_step s s' \<and> owners (cl_threads s') = [] \<longrightarrow>
             release_may_wake g (cl_client s') \<and> notified k (cl_client s'))))"
proof (intro conjI impI)
  note ok = client_reachable_ok [OF assms(1)] and waiter = waiting_ok [OF assms]
  {
    assume wakes: "release_may_wake g (cl_client s)"
    with waiter show "notified k (cl_client s)" by (auto simp: notified_def)
    show "\<forall>s'. client_step s s' \<and> cl_presses s' < 2 ^ 64 \<longrightarrow> release_may_wake g (cl_client s')"
      using wake_stays [OF assms(1) _ _ assms(3) wakes] by blast
  next
    assume waits: "\<not> release_may_wake g (cl_client s)"
    then have stopping: "vc_publication_state (cl_client s) = Pub_stopping"
      and g: "vc_publication_generation (cl_client s) = g"
      using waiter by (auto simp: release_may_wake_def)
    then obtain t where t: "owners (cl_threads s) = [t]" "owns_publication t"
        "owner_ok (cl_client s) t"
      using ok owners_ok_state [of "cl_client s" "cl_threads s"] by (auto simp: publication_ok_def)
    have "release_may_wake g (cl_client s') \<and> notified k (cl_client s')"
      if step: "client_step s s'" and free: "owners (cl_threads s') = []" for s'
      using gives_up_notifies [OF assms(1) step stopping free] waiter(1)
      by (auto simp: release_may_wake_def notified_def)
    with t g owner_ok_state [of "cl_client s" t]
    show "\<exists>t. owners (cl_threads s) = [t] \<and> thread_generation t = Some g \<and>
        (\<forall>s'. client_step s s' \<and> owners (cl_threads s') = [] \<longrightarrow>
           release_may_wake g (cl_client s') \<and> notified k (cl_client s'))" by auto
  }
qed

text \<open>
  The life of a publication. A step of any call or callback changes the publication only from
  idle to starting, from starting to active, stopping or idle, from active to stopping or idle,
  and from stopping to idle; so a press that was cancelled, or overtaken by a lost connection,
  never becomes active. It becomes active only by the confirmed start of the current press on a
  connected transport, in the scope of that press.
\<close>

theorem publication_life_cycle:
  assumes "client_reachable s" and "client_step s s'"
    and "vc_publication_state (cl_client s') \<noteq> vc_publication_state (cl_client s)"
  shows "(vc_publication_state (cl_client s), vc_publication_state (cl_client s')) \<in>
       {(Pub_idle, Pub_starting), (Pub_starting, Pub_active), (Pub_starting, Pub_stopping),
        (Pub_starting, Pub_idle), (Pub_active, Pub_stopping), (Pub_active, Pub_idle),
        (Pub_stopping, Pub_idle)} \<and>
     (vc_publication_state (cl_client s') = Pub_active \<longrightarrow>
        (\<exists>sc. Starting sc (vc_publication_generation (cl_client s)) \<in> set (cl_threads s) \<and>
           vc_state (cl_client s) = Transport_connected \<and>
           vc_active_scope (cl_client s') = Some sc))"
  by (rule publication_step_moves [OF assms])

section \<open>Runs\<close>

text \<open>A press whose start is outstanding, and a release that waits for it.\<close>

definition sample_connected :: "nat ClientSystem" where
  "sample_connected =
     \<lparr>cl_client = VoiceClient_ctor Transport_connected (AudioEngineConfig_default 1 1),
      cl_threads = [], cl_presses = 0\<rparr>"

definition sample_pressed :: "nat ClientSystem" where
  "sample_pressed =
     \<lparr>cl_client = snd (press_begin (cl_client sample_connected)),
      cl_threads = [Starting Team_scope 1], cl_presses = 1\<rparr>"

definition sample_released :: "nat ClientSystem" where
  "sample_released =
     \<lparr>cl_client = snd (release_begin (cl_client sample_pressed)),
      cl_threads = [Starting Team_scope 1, Waiting 1 False 0], cl_presses = 1\<rparr>"

definition sample_cancelling :: "nat ClientSystem" where
  "sample_cancelling =
     \<lparr>cl_client = cl_client sample_released,
      cl_threads = [Abandoning vr_success 1 True, Waiting 1 False 0], cl_presses = 1\<rparr>"

definition sample_settled :: "nat ClientSystem" where
  "sample_settled =
     \<lparr>cl_client = publication_settled vr_success 1 (cl_client sample_cancelling),
      cl_threads = [Waiting 1 False 0], cl_presses = 1\<rparr>"

definition sample_speaking :: "nat ClientSystem" where
  "sample_speaking =
     \<lparr>cl_client = snd (press_confirm Team_scope vr_success 1 (cl_client sample_pressed)),
      cl_threads = [], cl_presses = 1\<rparr>"

lemmas sample_client_defs = sample_connected_def sample_pressed_def sample_released_def
  sample_cancelling_def sample_settled_def sample_speaking_def VoiceClient_ctor_def press_begin_def release_begin_def press_confirm_def
  publication_settled_def tolerate_stopped_def vr_ok_def vr_success_def Let_def

lemma sample_pressed_reachable: "client_reachable sample_pressed"
proof -
  have "client_reachable sample_connected"
    unfolding sample_connected_def by (rule client_reachable.fresh)
  moreover have "client_step sample_connected sample_pressed"
    using client_step.press [of sample_connected 1 "cl_client sample_pressed" Team_scope]
    by (simp add: sample_client_defs)
  ultimately show ?thesis by (rule client_reachable.step)
qed

lemma sample_released_reachable: "client_reachable sample_released"
proof -
  have "client_step sample_pressed sample_released"
    using client_step.release [of sample_pressed "Release_waits 1" "cl_client sample_released"]
    by (simp add: sample_client_defs)
  with sample_pressed_reachable show ?thesis by (rule client_reachable.step)
qed

lemma sample_speaking_step: "client_step sample_pressed sample_speaking"
  using client_step.start_confirmed [of sample_pressed "[]" Team_scope 1 "[]" vr_success
      "cl_client sample_speaking"]
  by (simp add: sample_client_defs)

theorem one_publication_witness:
  "owners (cl_threads sample_pressed) = [Starting Team_scope 1] \<and>
   vc_publication_generation (cl_client sample_pressed) = 1 \<and>
   (\<forall>g c'. press_begin (cl_client sample_pressed) \<noteq> (Inr g, c'))"
  using one_publication_at_a_time [OF sample_pressed_reachable]
  by (auto simp: sample_client_defs)

lemma sample_cancelling_reachable: "client_reachable sample_cancelling"
proof -
  have "client_step sample_released sample_cancelling"
    using client_step.start_unconfirmed [of sample_released "[]" Team_scope 1 "[Waiting 1 False 0]"
        vr_success True "cl_client sample_released" False]
    by (simp add: sample_client_defs)
  with sample_released_reachable show ?thesis by (rule client_reachable.step)
qed

lemma sample_settled_step: "client_step sample_cancelling sample_settled"
  using client_step.press_settled [of sample_cancelling "[]" vr_success 1 True "[Waiting 1 False 0]"
      vr_success]
  by (simp add: sample_client_defs)

theorem release_is_woken_witness:
  "owners (cl_threads sample_cancelling) = [Abandoning vr_success 1 True] \<and>
   \<not> release_may_wake 1 (cl_client sample_cancelling) \<and> \<not> notified 0 (cl_client sample_cancelling) \<and>
   release_may_wake 1 (cl_client sample_settled) \<and> notified 0 (cl_client sample_settled)"
proof -
  have waits: "\<not> release_may_wake 1 (cl_client sample_cancelling)"
      "\<not> notified 0 (cl_client sample_cancelling)"
    by (simp_all add: sample_client_defs release_may_wake_def notified_def)
  have in_flight: "cl_threads sample_cancelling = [Abandoning vr_success 1 True, Waiting 1 False 0]"
    "cl_presses sample_cancelling = 1" "owners (cl_threads sample_settled) = []"
    by (simp_all add: sample_cancelling_def sample_settled_def)
  have "\<forall>s'. client_step sample_cancelling s' \<and> owners (cl_threads s') = [] \<longrightarrow>
      release_may_wake 1 (cl_client s') \<and> notified 0 (cl_client s')"
    using release_is_woken [OF sample_cancelling_reachable, of 1 False 0] waits(1)
    by (simp add: in_flight)
  then show ?thesis using sample_settled_step waits in_flight by auto
qed

theorem publication_life_cycle_witness:
  "vc_publication_state (cl_client sample_speaking) = Pub_active \<and>
   vc_active_scope (cl_client sample_speaking) = Some Team_scope"
proof -
  have "vc_publication_state (cl_client sample_speaking) = Pub_active \<and>
      vc_publication_state (cl_client sample_pressed) = Pub_starting"
    by (simp add: sample_client_defs)
  then show ?thesis
    using publication_life_cycle [OF sample_pressed_reachable sample_speaking_step]
    by (auto simp: sample_pressed_def)
qed

end
