(* ===== verification/Voice_Playback.thy ===== *)
theory Voice_Playback
  imports Voice_Client
begin

text \<open>
  Which remote streams the client plays, and how loud (\<open>recomputePlaybackLocked\<close> and its callers in
  \<open>libs/client/src/voice_client.cpp\<close>). The code sorts pointers to the available streams by priority
  and decides the streams in place; here the pointers are indices into the list. The transport is
  a parameter: what it answers to a playback policy is a function of the policies it has received,
  which are logged. The first part runs each operation to its end, the second lets the policies be
  applied after the mutex was released, as the code does.
\<close>

section \<open>The decision\<close>

fun scope_index :: "VoiceScope \<Rightarrow> nat" where
  "scope_index Team_scope = 0"
| "scope_index Specialization_scope = 1"
| "scope_index Group_scope = 2"

definition playback_key :: "'f AvailableRemoteAudio \<Rightarrow> int \<times> u64 \<times> string" where
  "playback_key st = (- int (scope_index (ra_scope st)), ra_admission_order st, ra_participant_id st)"

definition is_suppressed :: "'f VoiceClient \<Rightarrow> string \<Rightarrow> bool" where
  "is_suppressed c participant \<longleftrightarrow>
     participant \<in> vc_muted_participants c \<or> participant \<in> vc_blocked_participants c"

fun admit_streams ::
  "'f AudioEngineConfig \<Rightarrow> (string \<Rightarrow> bool) \<Rightarrow> nat list \<Rightarrow> 'f AvailableRemoteAudio list \<Rightarrow>
   (VoiceScope \<Rightarrow> nat) \<Rightarrow> nat \<Rightarrow> 'f AvailableRemoteAudio list \<times> (VoiceScope \<Rightarrow> nat)" where
  "admit_streams cfg suppressed [] v per_scope admitted_total = (v, per_scope)"
| "admit_streams cfg suppressed (i # rest) v per_scope admitted_total =
     (let st = v ! i; sc = ra_scope st;
          within_limits = per_scope sc < ae_maximum_streams_per_scope cfg sc \<and>
                          admitted_total < ae_maximum_streams cfg;
          admitted = (\<not> suppressed (ra_participant_id st) \<and> within_limits)
      in admit_streams cfg suppressed rest (v[i := st\<lparr>ra_admitted := admitted\<rparr>])
           (if admitted then per_scope(sc := per_scope sc + 1) else per_scope)
           (if admitted then admitted_total + 1 else admitted_total))"

definition stream_gain ::
  "'f::{zero, one, times} AudioEngineConfig \<Rightarrow> (string \<Rightarrow> 'f option) \<Rightarrow> bool \<Rightarrow> bool \<Rightarrow>
   'f AvailableRemoteAudio \<Rightarrow> 'f" where
  "stream_gain cfg volumes group_active specialization_active st =
     (if \<not> ra_admitted st then 0
      else
        (let gain = (case volumes (ra_participant_id st) of None \<Rightarrow> 1 | Some volume \<Rightarrow> volume) in
         case ra_scope st of
           Team_scope \<Rightarrow>
             if group_active then gain * ae_team_gain_under_group cfg
             else if specialization_active then gain * ae_team_gain_under_specialization cfg
             else gain
         | Specialization_scope \<Rightarrow>
             if group_active then gain * ae_specialization_gain_under_group cfg else gain
         | Group_scope \<Rightarrow> gain))"

fun set_gains ::
  "('f AvailableRemoteAudio \<Rightarrow> 'f) \<Rightarrow> nat list \<Rightarrow> 'f AvailableRemoteAudio list \<Rightarrow>
   'f PlaybackChange list \<times> 'f AvailableRemoteAudio list" where
  "set_gains gain [] v = ([], v)"
| "set_gains gain (i # rest) v =
     (let st = v ! i; g = gain st;
          v' = (if ra_gain st \<noteq> g then v[i := st\<lparr>ra_gain := g\<rparr>] else v);
          (changes, v'') = set_gains gain rest v'
      in (\<lparr>pc_scope = ra_scope st, pc_participant_id = ra_participant_id st,
           pc_admitted = ra_admitted st, pc_gain = ra_gain (v' ! i)\<rparr> # changes, v''))"

definition recomputePlaybackLocked ::
  "'f::{zero, one, times} VoiceClient \<Rightarrow> 'f PlaybackChange list \<times> 'f VoiceClient" where
  "recomputePlaybackLocked c =
     (let v = vc_available_remote_audio c; cfg = vc_audio_config c;
          ordered = sort_key (\<lambda>i. playback_key (v ! i)) [0..<length v];
          (v1, per_scope) = admit_streams cfg (is_suppressed c) ordered v (\<lambda>_. 0) 0;
          group_active = per_scope Group_scope \<noteq> 0;
          specialization_active = per_scope Specialization_scope \<noteq> 0;
          (changes, v2) =
            set_gains (stream_gain cfg (vc_participant_volumes c) group_active
                         specialization_active) ordered v1
      in (changes, c\<lparr>vc_available_remote_audio := v2\<rparr>))"

definition remoteAudioPlayback :: "'f VoiceClient \<Rightarrow> 'f RemoteAudioPlayback list" where
  "remoteAudioPlayback c =
     map (\<lambda>st. \<lparr>rp_scope = ra_scope st, rp_participant_id = ra_participant_id st,
                rp_admitted = ra_admitted st, rp_gain = ra_gain st\<rparr>)
       (sort_key playback_key (vc_available_remote_audio c))"

section \<open>The operations up to the release of the mutex\<close>

definition validateAudioConfig ::
  "('f::{zero, one, linorder} \<Rightarrow> bool) \<Rightarrow> 'f AudioEngineConfig \<Rightarrow> VoiceTransportResult" where
  "validateAudioConfig isfinite cfg =
     (let valid_gain = (\<lambda>g. isfinite g \<and> 0 \<le> g \<and> g \<le> 1) in
      if ae_maximum_streams cfg = 0 \<or>
         list_ex (\<lambda>sc. ae_maximum_streams_per_scope cfg sc = 0)
           [Team_scope, Specialization_scope, Group_scope] \<or>
         \<not> valid_gain (ae_team_gain_under_specialization cfg) \<or>
         \<not> valid_gain (ae_team_gain_under_group cfg) \<or>
         \<not> valid_gain (ae_specialization_gain_under_group cfg)
      then vr_failure Vte_invalid_argument
             ''audio engine limits must be positive and ducking gains must be between zero and one''
      else vr_success)"

text \<open>Each section returns a failure, or the policies to apply.\<close>

definition setAudioEngineConfig_locked ::
  "('f::{zero, one, times, linorder} \<Rightarrow> bool) \<Rightarrow> 'f AudioEngineConfig \<Rightarrow> 'f VoiceClient \<Rightarrow>
   (VoiceTransportResult + 'f PlaybackChange list) \<times> 'f VoiceClient" where
  "setAudioEngineConfig_locked isfinite cfg c =
     (let validation = validateAudioConfig isfinite cfg in
      if \<not> vr_ok validation then (Inl validation, c)
      else (let (changes, c') = recomputePlaybackLocked (c\<lparr>vc_audio_config := cfg\<rparr>)
            in (Inr changes, c')))"

datatype participant_flag = Muted_flag | Blocked_flag

definition set_flag :: "bool \<Rightarrow> string \<Rightarrow> string set \<Rightarrow> string set" where
  "set_flag enabled participant values =
     (if enabled then insert participant values else values - {participant})"

definition updateParticipantFlag_locked ::
  "string \<Rightarrow> bool \<Rightarrow> participant_flag \<Rightarrow> 'f::{zero, one, times} VoiceClient \<Rightarrow>
   (VoiceTransportResult + 'f PlaybackChange list) \<times> 'f VoiceClient" where
  "updateParticipantFlag_locked participant enabled flag c =
     (if participant = []
      then (Inl (vr_failure Vte_invalid_argument ''participant ID must not be empty''), c)
      else
        (let (changes, c') = recomputePlaybackLocked
               (case flag of
                  Muted_flag \<Rightarrow>
                    c\<lparr>vc_muted_participants :=
                        set_flag enabled participant (vc_muted_participants c)\<rparr>
                | Blocked_flag \<Rightarrow>
                    c\<lparr>vc_blocked_participants :=
                        set_flag enabled participant (vc_blocked_participants c)\<rparr>)
         in (Inr changes, c')))"

definition setParticipantVolume_locked ::
  "('f::{zero, one, times, linorder} \<Rightarrow> bool) \<Rightarrow> string \<Rightarrow> 'f \<Rightarrow> 'f VoiceClient \<Rightarrow>
   (VoiceTransportResult + 'f PlaybackChange list) \<times> 'f VoiceClient" where
  "setParticipantVolume_locked isfinite participant volume c =
     (if participant = [] \<or> \<not> isfinite volume \<or> volume < 0 \<or> 1 < volume
      then (Inl (vr_failure Vte_invalid_argument
        ''participant volume requires a non-empty ID and a finite value between zero and one''), c)
      else
        (let (changes, c') = recomputePlaybackLocked
               (c\<lparr>vc_participant_volumes := (vc_participant_volumes c)
                    (participant := (if volume = 1 then None else Some volume))\<rparr>)
         in (Inr changes, c')))"

definition audioAvailable_locked ::
  "VoiceScope \<Rightarrow> string \<Rightarrow> 'f::{zero, one, times} VoiceClient \<Rightarrow>
   'f PlaybackChange list option \<times> 'f VoiceClient" where
  "audioAvailable_locked sc participant c =
     (if list_ex (\<lambda>st. ra_scope st = sc \<and> ra_participant_id st = participant)
           (vc_available_remote_audio c)
      then (None, c)
      else
        (let (changes, c') = recomputePlaybackLocked
               (c\<lparr>vc_available_remote_audio := vc_available_remote_audio c @
                    [\<lparr>ra_scope = sc, ra_participant_id = participant,
                      ra_admission_order = vc_next_admission_order c, ra_admitted = False,
                      ra_gain = 0\<rparr>],
                  vc_next_admission_order := vc_next_admission_order c + 1\<rparr>)
         in (Some changes, c')))"

definition audioUnavailable_locked ::
  "VoiceScope \<Rightarrow> string \<Rightarrow> 'f::{zero, one, times} VoiceClient \<Rightarrow>
   'f PlaybackChange list \<times> 'f VoiceClient" where
  "audioUnavailable_locked sc participant c =
     recomputePlaybackLocked
       (c\<lparr>vc_available_remote_audio :=
            filter (\<lambda>st. \<not> (ra_scope st = sc \<and> ra_participant_id st = participant))
              (vc_available_remote_audio c)\<rparr>)"

section \<open>Applying the policies\<close>

type_synonym 'f playback_log = "('f PlaybackChange \<times> VoiceTransportResult) list"
type_synonym 'f playback_transport =
  "'f playback_log \<Rightarrow> 'f PlaybackChange \<Rightarrow> VoiceTransportResult"

fun configure_all ::
  "'f playback_transport \<Rightarrow> 'f PlaybackChange list \<Rightarrow> 'f playback_log \<Rightarrow> VoiceTransportResult \<Rightarrow>
   VoiceTransportResult \<times> 'f playback_log" where
  "configure_all answer [] log result = (result, log)"
| "configure_all answer (ch # rest) log result =
     (let current = answer log ch
      in configure_all answer rest (log @ [(ch, current)])
           (if \<not> vr_ok current \<and> vr_ok result then current else result))"

record 'f PlayingClient =
  pl_client :: "'f VoiceClient"
  pl_log :: "'f playback_log"

definition applyPlaybackChanges ::
  "'f playback_transport \<Rightarrow> 'f PlaybackChange list \<Rightarrow> 'f PlayingClient \<Rightarrow>
   VoiceTransportResult \<times> 'f PlayingClient" where
  "applyPlaybackChanges answer changes p =
     (let (result, log) = configure_all answer changes (pl_log p) vr_success
      in (result,
          p\<lparr>pl_log := log,
            pl_client := (if vr_ok result then pl_client p
                          else onTransportError (vr_error result) (vr_message result)
                                 (pl_client p))\<rparr>))"

definition apply_section ::
  "'f playback_transport \<Rightarrow> (VoiceTransportResult + 'f PlaybackChange list) \<times> 'f VoiceClient \<Rightarrow>
   'f PlayingClient \<Rightarrow> VoiceTransportResult \<times> 'f PlayingClient" where
  "apply_section answer section p =
     (case section of
        (Inl failure, c) \<Rightarrow> (failure, p\<lparr>pl_client := c\<rparr>)
      | (Inr changes, c) \<Rightarrow> applyPlaybackChanges answer changes (p\<lparr>pl_client := c\<rparr>))"

definition setAudioEngineConfig where
  "setAudioEngineConfig isfinite answer cfg p =
     apply_section answer (setAudioEngineConfig_locked isfinite cfg (pl_client p)) p"

definition setParticipantMuted where
  "setParticipantMuted answer participant muted p =
     apply_section answer
       (updateParticipantFlag_locked participant muted Muted_flag (pl_client p)) p"

definition setParticipantBlocked where
  "setParticipantBlocked answer participant blocked p =
     apply_section answer
       (updateParticipantFlag_locked participant blocked Blocked_flag (pl_client p)) p"

definition setParticipantVolume where
  "setParticipantVolume isfinite answer participant volume p =
     apply_section answer (setParticipantVolume_locked isfinite participant volume (pl_client p)) p"

definition onRemoteAudioAvailable ::
  "'f::{zero, one, times} playback_transport \<Rightarrow> VoiceScope \<Rightarrow> string \<Rightarrow> 'f PlayingClient \<Rightarrow>
   'f PlayingClient" where
  "onRemoteAudioAvailable answer sc participant p =
     (if participant = []
      then p\<lparr>pl_client := onTransportError Vte_invalid_argument
                ''remote audio publication has an empty participant ID'' (pl_client p)\<rparr>
      else case audioAvailable_locked sc participant (pl_client p) of
        (None, c) \<Rightarrow> p\<lparr>pl_client := c\<rparr>
      | (Some changes, c) \<Rightarrow>
          (let (_, p') = applyPlaybackChanges answer changes (p\<lparr>pl_client := c\<rparr>)
           in p'\<lparr>pl_client :=
                  emitRemoteEvent Remote_audio_available sc participant (pl_client p')\<rparr>))"

definition onRemoteAudioUnavailable ::
  "'f::{zero, one, times} playback_transport \<Rightarrow> VoiceScope \<Rightarrow> string \<Rightarrow> 'f PlayingClient \<Rightarrow>
   'f PlayingClient" where
  "onRemoteAudioUnavailable answer sc participant p =
     (let (changes, c) = audioUnavailable_locked sc participant (pl_client p);
          (_, p') = applyPlaybackChanges answer changes (p\<lparr>pl_client := c\<rparr>)
      in p'\<lparr>pl_client := emitRemoteEvent Remote_audio_unavailable sc participant (pl_client p')\<rparr>)"

section \<open>Runs\<close>

datatype 'f PlaybackOp =
    Set_config "'f AudioEngineConfig"
  | Set_muted string bool
  | Set_blocked string bool
  | Set_volume string 'f
  | Audio_available VoiceScope string
  | Audio_unavailable VoiceScope string
  | Transport_state VoiceTransportState

fun playback_step ::
  "('f::{zero, one, times, linorder} \<Rightarrow> bool) \<Rightarrow> 'f playback_transport \<Rightarrow> 'f PlaybackOp \<Rightarrow>
   'f PlayingClient \<Rightarrow> 'f PlayingClient" where
  "playback_step isfinite answer (Set_config cfg) p =
     snd (setAudioEngineConfig isfinite answer cfg p)"
| "playback_step isfinite answer (Set_muted participant b) p =
     snd (setParticipantMuted answer participant b p)"
| "playback_step isfinite answer (Set_blocked participant b) p =
     snd (setParticipantBlocked answer participant b p)"
| "playback_step isfinite answer (Set_volume participant volume) p =
     snd (setParticipantVolume isfinite answer participant volume p)"
| "playback_step isfinite answer (Audio_available sc participant) p =
     onRemoteAudioAvailable answer sc participant p"
| "playback_step isfinite answer (Audio_unavailable sc participant) p =
     onRemoteAudioUnavailable answer sc participant p"
| "playback_step isfinite answer (Transport_state st) p =
     p\<lparr>pl_client := onTransportStateChanged st (pl_client p)\<rparr>"

definition playback_run ::
  "('f::{zero, one, times, linorder} \<Rightarrow> bool) \<Rightarrow> 'f playback_transport \<Rightarrow> 'f PlaybackOp list \<Rightarrow>
   'f PlayingClient \<Rightarrow> 'f PlayingClient" where
  "playback_run isfinite answer ops p = fold (playback_step isfinite answer) ops p"

definition fresh_player :: "VoiceTransportState \<Rightarrow> 'f AudioEngineConfig \<Rightarrow> 'f PlayingClient" where
  "fresh_player st cfg = \<lparr>pl_client = VoiceClient_ctor st cfg, pl_log = []\<rparr>"

section \<open>The loops as list functions\<close>

text \<open>The decision along the list of streams in order of priority.\<close>

fun admit ::
  "'f AudioEngineConfig \<Rightarrow> (string \<Rightarrow> bool) \<Rightarrow> 'f AvailableRemoteAudio list \<Rightarrow>
   (VoiceScope \<Rightarrow> nat) \<Rightarrow> nat \<Rightarrow> 'f AvailableRemoteAudio list" where
  "admit cfg suppressed [] per_scope n = []"
| "admit cfg suppressed (st # rest) per_scope n =
     (let sc = ra_scope st;
          admitted = (\<not> suppressed (ra_participant_id st) \<and>
            per_scope sc < ae_maximum_streams_per_scope cfg sc \<and> n < ae_maximum_streams cfg)
      in st\<lparr>ra_admitted := admitted\<rparr> #
           admit cfg suppressed rest (if admitted then per_scope(sc := per_scope sc + 1) else per_scope)
             (if admitted then n + 1 else n))"

abbreviation admitted_in :: "VoiceScope \<Rightarrow> 'f AvailableRemoteAudio list \<Rightarrow> nat" where
  "admitted_in sc sts \<equiv> length (filter (\<lambda>t. ra_admitted t \<and> ra_scope t = sc) sts)"

lemma length_admit [simp]: "length (admit cfg suppressed sts per_scope n) = length sts"
  by (induction sts arbitrary: per_scope n) (simp_all add: Let_def)

lemma admit_streams_admit:
  assumes "distinct is" and "\<forall>i \<in> set is. i < length v"
  shows "(let (v', per_scope') = admit_streams cfg suppressed is v per_scope n;
              decided = admit cfg suppressed (map ((!) v) is) per_scope n
          in length v' = length v \<and> map ((!) v') is = decided \<and>
             (\<forall>j. j \<notin> set is \<longrightarrow> v' ! j = v ! j) \<and>
             per_scope' = (\<lambda>sc. per_scope sc + admitted_in sc decided))"
  using assms
proof (induction "is" arbitrary: v per_scope n)
  case Nil
  then show ?case by simp
next
  case (Cons i rest)
  define adm where "adm = (\<not> suppressed (ra_participant_id (v ! i)) \<and>
    per_scope (ra_scope (v ! i)) < ae_maximum_streams_per_scope cfg (ra_scope (v ! i)) \<and>
    n < ae_maximum_streams cfg)"
  define w where "w = v[i := (v ! i)\<lparr>ra_admitted := adm\<rparr>]"
  define per where
    "per = (if adm then per_scope(ra_scope (v ! i) := per_scope (ra_scope (v ! i)) + 1) else per_scope)"
  have rest: "map ((!) w) rest = map ((!) v) rest"
  proof (rule map_cong [OF refl])
    show "w ! x = v ! x" if "x \<in> set rest" for x
      using that Cons.prems(1) by (cases "i = x") (auto simp: w_def)
  qed
  obtain v' per' where run: "admit_streams cfg suppressed rest w per (if adm then n + 1 else n) = (v', per')"
    by (cases "admit_streams cfg suppressed rest w per (if adm then n + 1 else n)")
  have w: "length w = length v" "w ! i = (v ! i)\<lparr>ra_admitted := adm\<rparr>"
      "\<And>j. j \<noteq> i \<Longrightarrow> w ! j = v ! j"
    using Cons.prems by (simp_all add: w_def)
  have "distinct rest" "\<forall>i \<in> set rest. i < length w"
    using Cons.prems w(1) by simp_all
  from Cons.IH [OF this, of per "if adm then n + 1 else n"]
  have IH: "length v' = length v"
      "map ((!) v') rest = admit cfg suppressed (map ((!) v) rest) per (if adm then n + 1 else n)"
      "\<And>j. j \<notin> set rest \<Longrightarrow> v' ! j = w ! j"
      "per' = (\<lambda>sc. per sc + admitted_in sc
         (admit cfg suppressed (map ((!) v) rest) per (if adm then n + 1 else n)))"
    by (simp_all only: run rest w(1) Let_def prod.case) auto
  have first: "v' ! i = (v ! i)\<lparr>ra_admitted := adm\<rparr>"
    using IH(3) Cons.prems w(2) by simp
  have step: "admit_streams cfg suppressed (i # rest) v per_scope n = (v', per')"
      "admit cfg suppressed (map ((!) v) (i # rest)) per_scope n =
         (v ! i)\<lparr>ra_admitted := adm\<rparr> #
           admit cfg suppressed (map ((!) v) rest) per (if adm then n + 1 else n)"
    using run by (simp_all add: Let_def w_def per_def adm_def)
  show ?case
    unfolding step Let_def prod.case
  proof (intro conjI allI impI)
    show "v' ! j = v ! j" if "j \<notin> set (i # rest)" for j
      using that IH(3) w(3) by simp
    show "per' = (\<lambda>sc. per_scope sc + admitted_in sc ((v ! i)\<lparr>ra_admitted := adm\<rparr> #
        admit cfg suppressed (map ((!) v) rest) per (if adm then n + 1 else n)))"
      unfolding IH(4) by (auto simp: per_def fun_eq_iff)
  qed (simp_all only: IH list.map first)
qed

lemma set_gains_map:
  assumes "distinct is" and "\<forall>i \<in> set is. i < length v"
    and "\<And>st g. gain (st\<lparr>ra_gain := g\<rparr>) = gain st"
  shows "(let (changes, v') = set_gains gain is v;
              decided = map (\<lambda>i. (v ! i)\<lparr>ra_gain := gain (v ! i)\<rparr>) is
          in length v' = length v \<and> map ((!) v') is = decided \<and>
             (\<forall>j. j \<notin> set is \<longrightarrow> v' ! j = v ! j) \<and>
             changes = map (\<lambda>st. \<lparr>pc_scope = ra_scope st, pc_participant_id = ra_participant_id st,
               pc_admitted = ra_admitted st, pc_gain = ra_gain st\<rparr>) decided)"
  using assms(1,2)
proof (induction "is" arbitrary: v)
  case Nil
  then show ?case by simp
next
  case (Cons i rest)
  define w where "w = (if ra_gain (v ! i) \<noteq> gain (v ! i)
    then v[i := (v ! i)\<lparr>ra_gain := gain (v ! i)\<rparr>] else v)"
  have w: "length w = length v" "w ! i = (v ! i)\<lparr>ra_gain := gain (v ! i)\<rparr>"
    "\<And>j. j \<noteq> i \<Longrightarrow> w ! j = v ! j"
    using Cons.prems by (auto simp: w_def)
  have rest: "map (\<lambda>i. (w ! i)\<lparr>ra_gain := gain (w ! i)\<rparr>) rest =
      map (\<lambda>i. (v ! i)\<lparr>ra_gain := gain (v ! i)\<rparr>) rest"
  proof (rule map_cong [OF refl])
    show "(w ! x)\<lparr>ra_gain := gain (w ! x)\<rparr> = (v ! x)\<lparr>ra_gain := gain (v ! x)\<rparr>"
      if "x \<in> set rest" for x
      using that Cons.prems(1) w(3) [of x] by (cases "i = x") auto
  qed
  obtain changes v' where run: "set_gains gain rest w = (changes, v')"
    by (cases "set_gains gain rest w")
  have "set_gains gain (i # rest) v = (\<lparr>pc_scope = ra_scope (v ! i),
      pc_participant_id = ra_participant_id (v ! i), pc_admitted = ra_admitted (v ! i),
      pc_gain = ra_gain (w ! i)\<rparr> # changes, v')"
    using run by (simp add: Let_def w_def)
  then show ?case
    using Cons.IH [of w] run Cons.prems w rest by (auto simp: Let_def)
qed

lemma admit_nth:
  assumes "k < length sts"
  shows "(let d = admit cfg suppressed sts per_scope n; sc = ra_scope (sts ! k)
          in d ! k = (sts ! k)\<lparr>ra_admitted := ra_admitted (d ! k)\<rparr> \<and>
             (ra_admitted (d ! k) \<longleftrightarrow>
                \<not> suppressed (ra_participant_id (sts ! k)) \<and>
                per_scope sc + admitted_in sc (take k d) < ae_maximum_streams_per_scope cfg sc \<and>
                n + length (filter ra_admitted (take k d)) < ae_maximum_streams cfg))"
  using assms
proof (induction sts arbitrary: k per_scope n)
  case (Cons st rest)
  show ?case
  proof (cases k)
    case 0
    then show ?thesis by (simp add: Let_def)
  next
    case (Suc j)
    define adm where "adm = (\<not> suppressed (ra_participant_id st) \<and>
      per_scope (ra_scope st) < ae_maximum_streams_per_scope cfg (ra_scope st) \<and>
      n < ae_maximum_streams cfg)"
    define per where
      "per = (if adm then per_scope(ra_scope st := per_scope (ra_scope st) + 1) else per_scope)"
    define m where "m = (if adm then n + 1 else n)"
    have step: "admit cfg suppressed (st # rest) per_scope n =
        st\<lparr>ra_admitted := adm\<rparr> # admit cfg suppressed rest per m"
      by (simp add: Let_def adm_def per_def m_def)
    from Cons.prems Suc have "j < length rest" by simp
    from Cons.IH [OF this, of per m] show ?thesis
      unfolding step Suc by (auto simp: Let_def per_def m_def)
  qed
qed simp

lemma admit_bounds:
  fixes n :: nat
  shows "n + length (filter ra_admitted (admit cfg suppressed sts per_scope n)) \<le>
           max n (ae_maximum_streams cfg)"
    and "per_scope sc + admitted_in sc (admit cfg suppressed sts per_scope n) \<le>
           max (per_scope sc) (ae_maximum_streams_per_scope cfg sc)"
proof (induction sts arbitrary: per_scope n)
  case (Cons st rest)
  {
    case 1
    show ?case using Cons(1) [of "Suc n"] Cons(1) [of n] by (auto simp: Let_def)
  next
    case 2
    define per where "per = per_scope(ra_scope st := Suc (per_scope (ra_scope st)))"
    have "per sc = (if ra_scope st = sc then Suc (per_scope sc) else per_scope sc)"
      by (simp add: per_def)
    then show ?case
      using Cons(2) [of per "Suc n"] Cons(2) [of per_scope n]
      by (auto simp: Let_def per_def [symmetric] split: if_splits)
  }
qed simp_all

text \<open>Counting in a list that is strictly sorted by a key.\<close>

lemma filter_less_take:
  assumes "sorted_wrt (\<lambda>a b. key a < (key b :: 'k::linorder)) xs" and "k < length xs"
  shows "filter (\<lambda>t. key t < key (xs ! k) \<and> P t) xs = filter P (take k xs)"
proof -
  have "filter (\<lambda>t. key t < key (xs ! k) \<and> P t) (take k xs) = filter P (take k xs)"
    using assms by (intro filter_cong refl) (auto simp: in_set_conv_nth sorted_wrt_iff_nth_less)
  moreover have "filter (\<lambda>t. key t < key (xs ! k) \<and> P t) (drop k xs) = []"
  proof -
    have "\<not> key t < key (xs ! k)" if "t \<in> set (drop k xs)" for t
    proof -
      obtain j where "t = xs ! (k + j)" "k + j < length xs"
        using \<open>t \<in> set (drop k xs)\<close> by (auto simp: in_set_conv_nth)
      then show ?thesis
        using assms by (cases "j = 0") (auto simp: sorted_wrt_iff_nth_less dest: less_not_sym)
    qed
    then show ?thesis by (simp add: filter_empty_conv)
  qed
  ultimately show ?thesis
    using filter_append [of "\<lambda>t. key t < key (xs ! k) \<and> P t" "take k xs" "drop k xs"] by simp
qed

lemma mset_length_filter: "mset xs = mset ys \<Longrightarrow> length (filter P xs) = length (filter P ys)"
  by (metis mset_filter size_mset)

section \<open>What the client decides\<close>

definition stream_id :: "'f AvailableRemoteAudio \<Rightarrow> VoiceScope \<times> string" where
  "stream_id st = (ra_scope st, ra_participant_id st)"

definition admitted_before ::
  "'f AvailableRemoteAudio list \<Rightarrow> 'f AvailableRemoteAudio \<Rightarrow>
   ('f AvailableRemoteAudio \<Rightarrow> bool) \<Rightarrow> nat" where
  "admitted_before v st P =
     length (filter (\<lambda>t. playback_key t < playback_key st \<and> ra_admitted t \<and> P t) v)"

text \<open>The volume of the participant, ducked under the widest other scope that is heard.\<close>

definition heard :: "'f AvailableRemoteAudio list \<Rightarrow> VoiceScope \<Rightarrow> bool" where
  "heard v sc \<longleftrightarrow> (\<exists>t. t \<in> set v \<and> ra_admitted t \<and> ra_scope t = sc)"

definition ducking ::
  "'f AudioEngineConfig \<Rightarrow> 'f AvailableRemoteAudio list \<Rightarrow> VoiceScope \<Rightarrow> 'f option" where
  "ducking cfg v sc =
     (if sc \<noteq> Group_scope \<and> heard v Group_scope
      then Some (if sc = Team_scope then ae_team_gain_under_group cfg
                 else ae_specialization_gain_under_group cfg)
      else if sc = Team_scope \<and> heard v Specialization_scope
      then Some (ae_team_gain_under_specialization cfg)
      else None)"

definition expected_gain ::
  "'f::{zero, one, times} VoiceClient \<Rightarrow> 'f AvailableRemoteAudio \<Rightarrow> 'f" where
  "expected_gain c st =
     (let v = vc_available_remote_audio c;
          volume = (case vc_participant_volumes c (ra_participant_id st) of
                      None \<Rightarrow> 1 | Some x \<Rightarrow> x)
      in if \<not> ra_admitted st then 0
         else case ducking (vc_audio_config c) v (ra_scope st) of
                None \<Rightarrow> volume
              | Some factor \<Rightarrow> volume * factor)"

definition playback_decided :: "'f::{zero, one, times} VoiceClient \<Rightarrow> bool" where
  "playback_decided c \<longleftrightarrow>
     (let v = vc_available_remote_audio c; cfg = vc_audio_config c in
      distinct (map stream_id v) \<and>
      length (filter ra_admitted v) \<le> ae_maximum_streams cfg \<and>
      (\<forall>sc. admitted_in sc v \<le> ae_maximum_streams_per_scope cfg sc) \<and>
      (\<forall>st \<in> set v.
         (ra_admitted st \<longleftrightarrow>
            ra_participant_id st \<notin> vc_muted_participants c \<union> vc_blocked_participants c \<and>
            admitted_before v st (\<lambda>t. ra_scope t = ra_scope st)
              < ae_maximum_streams_per_scope cfg (ra_scope st) \<and>
            admitted_before v st (\<lambda>t. True) < ae_maximum_streams cfg) \<and>
         ra_gain st = expected_gain c st))"

abbreviation change_of :: "'f AvailableRemoteAudio \<Rightarrow> 'f PlaybackChange" where
  "change_of st \<equiv> \<lparr>pc_scope = ra_scope st, pc_participant_id = ra_participant_id st,
     pc_admitted = ra_admitted st, pc_gain = ra_gain st\<rparr>"

lemma stream_gain_ignores [simp]:
  "stream_gain cfg volumes g sp (st\<lparr>ra_gain := x\<rparr>) = stream_gain cfg volumes g sp st"
  by (simp add: stream_gain_def)

lemma sorted_indices:
  fixes key :: "'a \<Rightarrow> 'k::linorder"
  defines "js v \<equiv> sort_key (\<lambda>i. key (v ! i)) [0..<length v]"
  shows "distinct (js v)" and "set (js v) = {..<length v}"
    and "sorted (map key (map ((!) v) (js v)))"
    and "length w = length v \<Longrightarrow> mset (map ((!) w) (js v)) = mset w"
proof -
  show "distinct (js v)" "set (js v) = {..<length v}"
    by (auto simp: js_def)
  show "sorted (map key (map ((!) v) (js v)))"
    using sorted_sort_key [of "\<lambda>i. key (v ! i)" "[0..<length v]"] by (simp add: js_def comp_def)
  show "mset (map ((!) w) (js v)) = mset w" if "length w = length v"
  proof -
    have "mset (map ((!) w) (js v)) = mset (map ((!) w) [0..<length w])"
      using that by (simp add: js_def)
    also have "\<dots> = mset w" by (simp only: map_nth)
    finally show ?thesis .
  qed
qed

text \<open>One recomputation: an ordering of the streams, decided along that order.\<close>

lemma recompute_ordered:
  fixes c :: "'f::{zero, one, times} VoiceClient"
  assumes "recomputePlaybackLocked c = (changes, c')"
  obtains os d where "sorted (map playback_key os)" and "mset os = mset (vc_available_remote_audio c)"
    and "d = admit (vc_audio_config c) (is_suppressed c) os (\<lambda>_. 0) 0"
    and "c' = c\<lparr>vc_available_remote_audio := vc_available_remote_audio c'\<rparr>"
    and "mset (vc_available_remote_audio c') =
           mset (map (\<lambda>st. st\<lparr>ra_gain := stream_gain (vc_audio_config c) (vc_participant_volumes c)
             (admitted_in Group_scope d \<noteq> 0) (admitted_in Specialization_scope d \<noteq> 0) st\<rparr>) d)"
    and "mset changes = mset (map change_of (vc_available_remote_audio c'))"
proof -
  let ?v = "vc_available_remote_audio c"
  define js where "js = sort_key (\<lambda>i. playback_key (?v ! i)) [0..<length ?v]"
  note js = sorted_indices [where v = ?v and key = playback_key, folded js_def]
  define os where "os = map ((!) ?v) js"
  define d where "d = admit (vc_audio_config c) (is_suppressed c) os (\<lambda>_. 0) 0"
  obtain v1 per_scope where admit:
      "admit_streams (vc_audio_config c) (is_suppressed c) js ?v (\<lambda>_. 0) 0 = (v1, per_scope)"
    by (cases "admit_streams (vc_audio_config c) (is_suppressed c) js ?v (\<lambda>_. 0) 0")
  have range: "\<forall>i \<in> set js. i < length ?v"
    using js(2) by simp
  have v1: "length v1 = length ?v" "map ((!) v1) js = d" "per_scope = (\<lambda>sc. admitted_in sc d)"
    using admit_streams_admit [OF js(1) range, of "vc_audio_config c" "is_suppressed c" "\<lambda>_. 0" 0]
    by (simp_all add: admit Let_def d_def os_def)
  define gain where "gain = stream_gain (vc_audio_config c) (vc_participant_volumes c)
      (admitted_in Group_scope d \<noteq> 0) (admitted_in Specialization_scope d \<noteq> 0)"
  obtain ch v2 where gains: "set_gains gain js v1 = (ch, v2)"
    by (cases "set_gains gain js v1")
  have ignores: "gain (st\<lparr>ra_gain := x\<rparr>) = gain st" for st x
    by (simp add: gain_def)
  have d_map: "map f d = map (\<lambda>i. f (v1 ! i)) js" for f :: "'f AvailableRemoteAudio \<Rightarrow> 'b"
    by (simp add: v1(2) [symmetric] comp_def)
  have v2: "length v2 = length v1" "map ((!) v2) js = map (\<lambda>st. st\<lparr>ra_gain := gain st\<rparr>) d"
      "ch = map change_of (map (\<lambda>st. st\<lparr>ra_gain := gain st\<rparr>) d)"
    using set_gains_map [OF js(1) range [folded v1(1)], of gain] ignores
    by (simp_all add: gains Let_def d_map)
  have c': "changes = ch" "c' = c\<lparr>vc_available_remote_audio := v2\<rparr>"
    using assms admit gains v1(3)
    by (simp_all add: recomputePlaybackLocked_def Let_def js_def [symmetric] gain_def)
  have "mset v2 = mset (map (\<lambda>st. st\<lparr>ra_gain := gain st\<rparr>) d)"
    using js(4) [of v2] v1(1) v2(1,2) by simp
  moreover from this have "mset ch = mset (map change_of v2)"
    unfolding v2(3) by (simp only: mset_map)
  ultimately show ?thesis
    using that [of os d] js(3) js(4) [of ?v] c' by (simp add: os_def d_def gain_def)
qed

lemma playback_key_stream_id: "playback_key a = playback_key b \<Longrightarrow> stream_id a = stream_id b"
  by (cases "ra_scope a"; cases "ra_scope b") (simp_all add: playback_key_def stream_id_def)

lemma stream_gain_expected:
  assumes "g \<longleftrightarrow> heard v Group_scope" and "sp \<longleftrightarrow> heard v Specialization_scope"
    and "v = vc_available_remote_audio c"
  shows "stream_gain (vc_audio_config c) (vc_participant_volumes c) g sp st = expected_gain c st"
  using assms
  by (cases "ra_scope st") (simp_all add: stream_gain_def expected_gain_def ducking_def Let_def)

lemma recompute_decided:
  fixes c :: "'f::{zero, one, times} VoiceClient"
  assumes "recomputePlaybackLocked c = (changes, c')"
    and ids: "distinct (map stream_id (vc_available_remote_audio c))"
  shows "playback_decided c'"
    and "mset changes = mset (map change_of (vc_available_remote_audio c'))"
    and "c' = c\<lparr>vc_available_remote_audio := vc_available_remote_audio c'\<rparr>"
proof -
  obtain os d where os: "sorted (map playback_key os)" "mset os = mset (vc_available_remote_audio c)"
    and d: "d = admit (vc_audio_config c) (is_suppressed c) os (\<lambda>_. 0) 0"
    and c': "c' = c\<lparr>vc_available_remote_audio := vc_available_remote_audio c'\<rparr>"
    and v': "mset (vc_available_remote_audio c') =
           mset (map (\<lambda>st. st\<lparr>ra_gain := stream_gain (vc_audio_config c) (vc_participant_volumes c)
             (admitted_in Group_scope d \<noteq> 0) (admitted_in Specialization_scope d \<noteq> 0) st\<rparr>) d)"
    and ch: "mset changes = mset (map change_of (vc_available_remote_audio c'))"
    by (rule recompute_ordered [OF assms(1)])
  show "mset changes = mset (map change_of (vc_available_remote_audio c'))" by (fact ch)
  show "c' = c\<lparr>vc_available_remote_audio := vc_available_remote_audio c'\<rparr>" by (fact c')
  let ?cfg = "vc_audio_config c" and ?v' = "vc_available_remote_audio c'"
  define gain where "gain = stream_gain ?cfg (vc_participant_volumes c)
      (admitted_in Group_scope d \<noteq> 0) (admitted_in Specialization_scope d \<noteq> 0)"
  define e where "e = map (\<lambda>st. st\<lparr>ra_gain := gain st\<rparr>) d"
  have e: "mset ?v' = mset e" using v' by (simp add: e_def gain_def)
  then have set_e: "set ?v' = set e" by (metis set_mset_mset)
  have len: "length d = length os" "length e = length os" by (simp_all add: d e_def)
  note nth = admit_nth [of _ os ?cfg "is_suppressed c" "\<lambda>_. 0" 0, folded d, unfolded Let_def add_0]
  have d_nth: "d ! k = (os ! k)\<lparr>ra_admitted := ra_admitted (d ! k)\<rparr>" if "k < length os" for k
    by (rule conjunct1 [OF nth [OF that]])
  have fields: "playback_key (e ! k) = playback_key (os ! k)" "stream_id (e ! k) = stream_id (os ! k)"
      "ra_scope (e ! k) = ra_scope (os ! k)" "ra_participant_id (e ! k) = ra_participant_id (os ! k)"
      "ra_admitted (e ! k) = ra_admitted (d ! k)" if "k < length os" for k
    using that d_nth [OF that] len
    by (auto simp: e_def playback_key_def stream_id_def)
      (metis AvailableRemoteAudio.select_convs AvailableRemoteAudio.surjective
        AvailableRemoteAudio.update_convs(4))+
  have map_eq: "map stream_id e = map stream_id os" "map playback_key e = map playback_key os"
    using fields len by (auto intro: nth_equalityI)
  have ids_e: "distinct (map stream_id e)"
    using ids os(2) map_eq(1) by (metis mset_eq_imp_distinct_iff mset_map)
  then have "distinct (map playback_key e)"
    using playback_key_stream_id by (auto simp: distinct_map inj_on_def)
  then have sorted: "sorted_wrt (\<lambda>a b. playback_key a < playback_key b) e"
    using os(1) map_eq(2) by (simp add: strict_sorted_iff flip: sorted_wrt_map)
  have before: "admitted_before ?v' (e ! k) (\<lambda>t. P (ra_scope t)) =
      length (filter (\<lambda>t. ra_admitted t \<and> P (ra_scope t)) (take k d))"
    if k: "k < length e" for k P
  proof -
    have "admitted_before ?v' (e ! k) (\<lambda>t. P (ra_scope t)) =
        length (filter (\<lambda>t. playback_key t < playback_key (e ! k) \<and>
          (ra_admitted t \<and> P (ra_scope t))) e)"
      unfolding admitted_before_def by (rule mset_length_filter [OF e])
    also have "\<dots> = length (filter (\<lambda>t. ra_admitted t \<and> P (ra_scope t)) (take k e))"
      by (simp only: filter_less_take [OF sorted k])
    also have "\<dots> = length (filter (\<lambda>t. ra_admitted t \<and> P (ra_scope t)) (take k d))"
      by (simp add: e_def take_map filter_map comp_def)
    finally show ?thesis .
  qed
  have heard: "heard ?v' sc \<longleftrightarrow> admitted_in sc d \<noteq> 0" for sc
    by (auto simp: heard_def set_e e_def filter_empty_conv)
  have counts: "length (filter ra_admitted ?v') \<le> ae_maximum_streams ?cfg"
      "admitted_in sc ?v' \<le> ae_maximum_streams_per_scope ?cfg sc" for sc
    using admit_bounds(1) [of 0 ?cfg "is_suppressed c" os "\<lambda>_. 0", folded d]
      admit_bounds(2) [of "\<lambda>_. 0" sc ?cfg "is_suppressed c" os 0, folded d]
      mset_length_filter [OF e, of ra_admitted]
      mset_length_filter [OF e, of "\<lambda>t. ra_admitted t \<and> ra_scope t = sc"]
    by (simp_all add: e_def filter_map comp_def)
  have members: "vc_audio_config c' = ?cfg" "vc_muted_participants c' = vc_muted_participants c"
      "vc_blocked_participants c' = vc_blocked_participants c"
      "vc_participant_volumes c' = vc_participant_volumes c"
    by (subst c'; simp)+
  have "ra_gain st = expected_gain c' st" if "st \<in> set ?v'" for st
  proof -
    from that have "st \<in> (\<lambda>t. t\<lparr>ra_gain := gain t\<rparr>) ` set d" by (simp add: set_e e_def)
    then obtain t where t: "st = t\<lparr>ra_gain := gain t\<rparr>" by (rule imageE)
    have "expected_gain c' st = gain st"
      using stream_gain_expected [OF heard [of Group_scope, symmetric]
          heard [of Specialization_scope, symmetric] refl, of st]
      by (simp add: gain_def members)
    also have "\<dots> = gain t" by (simp add: t gain_def)
    finally show ?thesis by (simp add: t)
  qed
  moreover have "ra_admitted st \<longleftrightarrow>
      ra_participant_id st \<notin> vc_muted_participants c \<union> vc_blocked_participants c \<and>
      admitted_before ?v' st (\<lambda>t. ra_scope t = ra_scope st)
        < ae_maximum_streams_per_scope ?cfg (ra_scope st) \<and>
      admitted_before ?v' st (\<lambda>t. True) < ae_maximum_streams ?cfg" if "st \<in> set ?v'" for st
  proof -
    from that have "st \<in> set e" by (simp only: set_e)
    then obtain k where k: "k < length e" "st = e ! k" unfolding in_set_conv_nth by blast
    then have "k < length os" by (simp add: len)
    from conjunct2 [OF nth [OF this]] show ?thesis
      using before [OF k(1), of "\<lambda>sc. sc = ra_scope (os ! k)"] before [OF k(1), of "\<lambda>_. True"]
      unfolding k(2) fields [OF \<open>k < length os\<close>] by (simp add: is_suppressed_def)
  qed
  moreover have "distinct (map stream_id ?v')"
    using ids_e e by (metis mset_eq_imp_distinct_iff mset_map)
  ultimately show "playback_decided c'"
    using counts by (simp add: playback_decided_def Let_def members)
qed

section \<open>What the transport has been told\<close>

definition last_policy ::
  "'f playback_log \<Rightarrow> VoiceScope \<times> string \<Rightarrow> (bool \<times> 'f) option" where
  "last_policy log = map_of (rev (map (\<lambda>(ch, answered).
     ((pc_scope ch, pc_participant_id ch), (pc_admitted ch, pc_gain ch))) log))"

definition playback_ok :: "'f::{zero, one, times} PlayingClient \<Rightarrow> bool" where
  "playback_ok p \<longleftrightarrow> playback_decided (pl_client p) \<and>
     (\<forall>st \<in> set (vc_available_remote_audio (pl_client p)).
        last_policy (pl_log p) (stream_id st) = Some (ra_admitted st, ra_gain st))"

definition playback_view where
  "playback_view c =
     (vc_audio_config c, vc_available_remote_audio c, vc_muted_participants c,
      vc_blocked_participants c, vc_participant_volumes c)"

lemma playback_decided_view:
  "playback_view c = playback_view c' \<Longrightarrow> playback_decided c = playback_decided c'"
  by (simp add: playback_decided_def expected_gain_def playback_view_def Let_def)

lemma playback_ok_view:
  assumes "playback_ok p" and "playback_view (pl_client p') = playback_view (pl_client p)"
    and "pl_log p' = pl_log p"
  shows "playback_ok p'"
  using assms playback_decided_view [OF assms(2)] by (simp add: playback_ok_def playback_view_def)

lemma view_observe [simp]: "playback_view (vc_observe call c) = playback_view c"
  by (simp add: vc_observe_def playback_view_def)

lemma view_error [simp]: "playback_view (onTransportError e m c) = playback_view c"
  by (simp add: onTransportError_def)

lemma view_emit [simp]: "playback_view (emitRemoteEvent kind sc participant c) = playback_view c"
  by (simp add: emitRemoteEvent_def Let_def) (simp add: playback_view_def)

lemma configure_all_log:
  "configure_all answer changes log r = (r', log') \<Longrightarrow>
     \<exists>answers. length answers = length changes \<and> log' = log @ zip changes answers"
proof (induction changes arbitrary: log r)
  case (Cons ch rest)
  from Cons.prems have "configure_all answer rest (log @ [(ch, answer log ch)])
      (if \<not> vr_ok (answer log ch) \<and> vr_ok r then answer log ch else r) = (r', log')"
    by (simp add: Let_def)
  from Cons.IH [OF this] obtain answers where "length answers = length rest"
      "log' = (log @ [(ch, answer log ch)]) @ zip rest answers"
    by blast
  then show ?case by (intro exI [of _ "answer log ch # answers"]) simp
qed simp

lemma last_policy_append:
  assumes "length answers = length changes"
    and "distinct (map (\<lambda>ch. (pc_scope ch, pc_participant_id ch)) changes)" and "ch \<in> set changes"
  shows "last_policy (log @ zip changes answers) (pc_scope ch, pc_participant_id ch) =
           Some (pc_admitted ch, pc_gain ch)"
proof -
  let ?entry = "\<lambda>ch. ((pc_scope ch, pc_participant_id ch), (pc_admitted ch, pc_gain ch))"
  have "map (\<lambda>(ch, answered). ?entry ch) (zip changes answers) = map ?entry changes"
    using assms(1) by (simp add: case_prod_beta' flip: map_map [of ?entry fst, unfolded comp_def])
  moreover have "map_of (rev (map ?entry changes)) (pc_scope ch, pc_participant_id ch) =
      Some (pc_admitted ch, pc_gain ch)"
    using assms(2,3)
    by (intro map_of_is_SomeI) (auto simp: comp_def rev_map [symmetric] simp del: rev_map)
  ultimately show ?thesis by (simp add: last_policy_def map_add_def)
qed

lemma apply_ok:
  fixes c :: "'f::{zero, one, times} VoiceClient"
  assumes "recomputePlaybackLocked c = (changes, c')"
    and "distinct (map stream_id (vc_available_remote_audio c))"
    and "applyPlaybackChanges answer changes (p\<lparr>pl_client := c'\<rparr>) = (r, p')"
  shows "playback_ok p'"
proof -
  note decided = recompute_decided [OF assms(1,2)]
  let ?v = "vc_available_remote_audio c'"
  obtain log where log: "configure_all answer changes (pl_log p) vr_success = (r, log)"
    and p': "pl_log p' = log" "playback_view (pl_client p') = playback_view c'"
    using assms(3) by (auto simp: applyPlaybackChanges_def Let_def split: prod.splits)
  obtain answers where answers: "length answers = length changes"
      "log = pl_log p @ zip changes answers"
    using configure_all_log [OF log] by blast
  have ids: "mset (map (\<lambda>ch. (pc_scope ch, pc_participant_id ch)) changes) = mset (map stream_id ?v)"
    using decided(2)
    by (simp add: multiset.map_comp comp_def stream_id_def [abs_def])
  have "distinct (map (\<lambda>ch. (pc_scope ch, pc_participant_id ch)) changes)"
    using decided(1) mset_eq_imp_distinct_iff [OF ids] by (simp add: playback_decided_def Let_def)
  moreover have "change_of st \<in> set changes" if "st \<in> set ?v" for st
    using mset_eq_setD [OF decided(2)] that by simp
  ultimately have "last_policy log (stream_id st) = Some (ra_admitted st, ra_gain st)"
    if "st \<in> set ?v" for st
    using last_policy_append [OF answers(1), of "change_of st" "pl_log p"] that
    by (simp add: answers(2) stream_id_def)
  then show ?thesis
    using decided(1) p' playback_decided_view [OF p'(2)]
    by (simp add: playback_ok_def playback_view_def)
qed

lemma playback_ok_ids:
  "playback_ok p \<Longrightarrow> distinct (map stream_id (vc_available_remote_audio (pl_client p)))"
  by (simp add: playback_ok_def playback_decided_def Let_def)

lemma apply_section_ok:
  assumes "playback_ok p"
    and "section = (case recomputePlaybackLocked c of (changes, c') \<Rightarrow> (Inr changes, c'))"
    and "vc_available_remote_audio c = vc_available_remote_audio (pl_client p)"
  shows "playback_ok (snd (apply_section answer section p))"
proof -
  obtain changes c' where c': "recomputePlaybackLocked c = (changes, c')"
    by (cases "recomputePlaybackLocked c")
  obtain r p' where "applyPlaybackChanges answer changes (p\<lparr>pl_client := c'\<rparr>) = (r, p')"
    by (cases "applyPlaybackChanges answer changes (p\<lparr>pl_client := c'\<rparr>)")
  with apply_ok [OF c' _ this] playback_ok_ids [OF assms(1)] assms(2,3) c' show ?thesis
    by (simp add: apply_section_def)
qed

lemma refused_section_ok:
  "playback_ok p \<Longrightarrow> playback_ok (snd (apply_section answer (Inl failure, pl_client p) p))"
  by (simp add: apply_section_def)

lemma playback_ok_step:
  assumes "playback_ok p"
  shows "playback_ok (playback_step isfinite answer op p)"
proof (cases op)
  case (Set_config cfg)
  then show ?thesis
    using refused_section_ok [OF assms]
      apply_section_ok [OF assms refl, of "pl_client p\<lparr>vc_audio_config := cfg\<rparr>"]
    by (simp add: setAudioEngineConfig_def setAudioEngineConfig_locked_def Let_def)
next
  case (Set_muted participant b)
  then show ?thesis
    using refused_section_ok [OF assms]
      apply_section_ok [OF assms refl, of "pl_client p\<lparr>vc_muted_participants :=
        set_flag b participant (vc_muted_participants (pl_client p))\<rparr>"]
    by (simp add: setParticipantMuted_def updateParticipantFlag_locked_def)
next
  case (Set_blocked participant b)
  then show ?thesis
    using refused_section_ok [OF assms]
      apply_section_ok [OF assms refl, of "pl_client p\<lparr>vc_blocked_participants :=
        set_flag b participant (vc_blocked_participants (pl_client p))\<rparr>"]
    by (simp add: setParticipantBlocked_def updateParticipantFlag_locked_def)
next
  case (Set_volume participant volume)
  then show ?thesis
    using refused_section_ok [OF assms]
      apply_section_ok [OF assms refl, of "pl_client p\<lparr>vc_participant_volumes :=
        (vc_participant_volumes (pl_client p))
          (participant := (if volume = 1 then None else Some volume))\<rparr>"]
    by (simp add: setParticipantVolume_def setParticipantVolume_locked_def)
next
  case (Audio_available sc participant)
  show ?thesis
  proof (cases "participant = [] \<or> list_ex (\<lambda>st. ra_scope st = sc \<and>
      ra_participant_id st = participant) (vc_available_remote_audio (pl_client p))")
    case True
    then show ?thesis
      using assms Audio_available
      by (auto simp: onRemoteAudioAvailable_def audioAvailable_locked_def
          intro: playback_ok_view)
  next
    case False
    let ?c = "pl_client p\<lparr>vc_available_remote_audio := vc_available_remote_audio (pl_client p) @
        [\<lparr>ra_scope = sc, ra_participant_id = participant,
          ra_admission_order = vc_next_admission_order (pl_client p), ra_admitted = False,
          ra_gain = 0\<rparr>],
        vc_next_admission_order := vc_next_admission_order (pl_client p) + 1\<rparr>"
    obtain changes c' where c': "recomputePlaybackLocked ?c = (changes, c')"
      by (cases "recomputePlaybackLocked ?c")
    obtain r p' where p': "applyPlaybackChanges answer changes (p\<lparr>pl_client := c'\<rparr>) = (r, p')"
      by (cases "applyPlaybackChanges answer changes (p\<lparr>pl_client := c'\<rparr>)")
    have "playback_ok p'"
      using False playback_ok_ids [OF assms]
      by (intro apply_ok [OF c' _ p']) (auto simp: list_ex_iff stream_id_def)
    then show ?thesis
      using False Audio_available c' p'
      by (auto simp: onRemoteAudioAvailable_def audioAvailable_locked_def intro: playback_ok_view)
  qed
next
  case (Audio_unavailable sc participant)
  let ?c = "pl_client p\<lparr>vc_available_remote_audio :=
      filter (\<lambda>st. \<not> (ra_scope st = sc \<and> ra_participant_id st = participant))
        (vc_available_remote_audio (pl_client p))\<rparr>"
  obtain changes c' where c': "recomputePlaybackLocked ?c = (changes, c')"
    by (cases "recomputePlaybackLocked ?c")
  obtain r p' where p': "applyPlaybackChanges answer changes (p\<lparr>pl_client := c'\<rparr>) = (r, p')"
    by (cases "applyPlaybackChanges answer changes (p\<lparr>pl_client := c'\<rparr>)")
  have "playback_ok p'"
    using playback_ok_ids [OF assms]
    by (intro apply_ok [OF c' _ p']) (auto simp: distinct_map_filter)
  then show ?thesis
    using Audio_unavailable c' p'
    by (auto simp: onRemoteAudioUnavailable_def audioUnavailable_locked_def intro: playback_ok_view)
next
  case (Transport_state st)
  show ?thesis
  proof (cases "st = Transport_connected")
    case True
    then show ?thesis
      using assms Transport_state
      by (auto simp: onTransportStateChanged_def transportStateChanged_def Let_def playback_view_def
          vc_observe_def intro!: playback_ok_view [OF assms])
  next
    case False
    then show ?thesis
      using Transport_state
      by (simp add: onTransportStateChanged_def transportStateChanged_def Let_def vc_observe_def
          playback_ok_def playback_decided_def)
  qed
qed

lemma playback_ok_run:
  "playback_ok p \<Longrightarrow> playback_ok (playback_run isfinite answer ops p)"
  by (induction ops arbitrary: p) (simp_all add: playback_run_def playback_ok_step)

lemma playback_ok_fresh: "playback_ok (fresh_player st cfg)"
  by (simp add: playback_ok_def playback_decided_def fresh_player_def VoiceClient_ctor_def Let_def)

text \<open>
  Playback follows the client's settings. After any sequence of settings and transport
  callbacks, each run to its end, an available stream is admitted exactly when its participant is
  neither muted nor blocked and the streams admitted before it, by scope and then by arrival, are
  fewer than the limit of its scope and the total limit; its gain is the participant's volume,
  ducked under the widest other scope that is heard; the limits hold; and this is the policy the
  transport was told last for the stream.
\<close>

theorem playback_follows_settings:
  "let p = playback_run isfinite answer ops (fresh_player state config);
       c = pl_client p; v = vc_available_remote_audio c
   in length (filter ra_admitted v) \<le> ae_maximum_streams (vc_audio_config c) \<and>
     (\<forall>sc. admitted_in sc v \<le> ae_maximum_streams_per_scope (vc_audio_config c) sc) \<and>
     (\<forall>st. st \<in> set v \<longrightarrow>
        (ra_admitted st \<longleftrightarrow>
           ra_participant_id st \<notin> vc_muted_participants c \<union> vc_blocked_participants c \<and>
           admitted_before v st (\<lambda>t. ra_scope t = ra_scope st)
             < ae_maximum_streams_per_scope (vc_audio_config c) (ra_scope st) \<and>
           admitted_before v st (\<lambda>t. True) < ae_maximum_streams (vc_audio_config c)) \<and>
        ra_gain st = expected_gain c st \<and>
        last_policy (pl_log p) (stream_id st) = Some (ra_admitted st, ra_gain st))"
  using playback_ok_run [OF playback_ok_fresh, of isfinite answer ops state config]
  by (simp add: playback_ok_def playback_decided_def Let_def)

section \<open>Gains\<close>

definition is_gain :: "'f::{zero, one, linorder} \<Rightarrow> bool" where
  "is_gain g \<longleftrightarrow> 0 \<le> g \<and> g \<le> 1"

definition gains_ok :: "'f::{zero, one, times, linorder} VoiceClient \<Rightarrow> bool" where
  "gains_ok c \<longleftrightarrow>
     is_gain (ae_team_gain_under_specialization (vc_audio_config c)) \<and>
     is_gain (ae_team_gain_under_group (vc_audio_config c)) \<and>
     is_gain (ae_specialization_gain_under_group (vc_audio_config c)) \<and>
     (\<forall>participant. case vc_participant_volumes c participant of
        None \<Rightarrow> True | Some volume \<Rightarrow> is_gain volume)"

definition log_gains_ok :: "'f::{zero, one, times, linorder} PlayingClient \<Rightarrow> bool" where
  "log_gains_ok p \<longleftrightarrow> gains_ok (pl_client p) \<and> list_all (\<lambda>e. is_gain (pc_gain (fst e))) (pl_log p)"

text \<open>What the code relies on of the multiplication of gains.\<close>

definition gains_multiply :: "'f::{zero, one, times, linorder} itself \<Rightarrow> bool" where
  "gains_multiply _ \<longleftrightarrow> is_gain (0 :: 'f) \<and> is_gain (1 :: 'f) \<and>
     (\<forall>a b :: 'f. is_gain a \<longrightarrow> is_gain b \<longrightarrow> is_gain (a * b))"

lemma expected_gain_ok:
  fixes c :: "'f::{zero, one, times, linorder} VoiceClient"
  assumes "gains_multiply TYPE('f)" and "gains_ok c"
  shows "is_gain (expected_gain c st)"
proof -
  have "is_gain (case vc_participant_volumes c (ra_participant_id st) of None \<Rightarrow> 1 | Some x \<Rightarrow> x)"
    using assms by (cases "vc_participant_volumes c (ra_participant_id st)")
      (auto simp: gains_ok_def gains_multiply_def dest: spec [of _ "ra_participant_id st"])
  then show ?thesis
    using assms by (auto simp: expected_gain_def ducking_def gains_ok_def gains_multiply_def Let_def)
qed

lemma gains_ok_view: "playback_view c = playback_view c' \<Longrightarrow> gains_ok c = gains_ok c'"
  by (simp add: gains_ok_def playback_view_def)

lemma apply_gains_ok:
  fixes c :: "'f::{zero, one, times, linorder} VoiceClient"
  assumes "gains_multiply TYPE('f)" and "log_gains_ok p" and "gains_ok c"
    and recompute: "recomputePlaybackLocked c = (changes, c')"
    and "distinct (map stream_id (vc_available_remote_audio c))"
    and applied: "applyPlaybackChanges answer changes (p\<lparr>pl_client := c'\<rparr>) = (r, p')"
  shows "log_gains_ok p'"
proof -
  note decided = recompute_decided [OF recompute assms(5)]
  have "gains_ok c'"
    using assms(3) by (subst decided(3)) (simp add: gains_ok_def)
  have "is_gain (pc_gain ch)" if "ch \<in> set changes" for ch
  proof -
    obtain st where "st \<in> set (vc_available_remote_audio c')" "ch = change_of st"
      using mset_eq_setD [OF decided(2)] \<open>ch \<in> set changes\<close> by auto
    then show ?thesis
      using decided(1) expected_gain_ok [OF assms(1) \<open>gains_ok c'\<close>]
      by (simp add: playback_decided_def Let_def)
  qed
  moreover obtain answers where "length answers = length changes"
      "pl_log p' = pl_log p @ zip changes answers"
    using applied configure_all_log [of answer changes "pl_log p" vr_success]
    by (auto simp: applyPlaybackChanges_def Let_def split: prod.splits)
  moreover have "gains_ok (pl_client p') = gains_ok c'"
    using applied by (intro gains_ok_view)
      (auto simp: applyPlaybackChanges_def Let_def split: prod.splits)
  ultimately show ?thesis
    using assms(2) \<open>gains_ok c'\<close> by (auto simp: log_gains_ok_def list_all_iff dest: set_zip_leftD)
qed

lemma apply_section_gains_ok:
  fixes c :: "'f::{zero, one, times, linorder} VoiceClient"
  assumes "gains_multiply TYPE('f)" and "log_gains_ok p" and "playback_ok p"
    and "vc_available_remote_audio c = vc_available_remote_audio (pl_client p)" and "gains_ok c"
  shows "log_gains_ok (snd (apply_section answer
           (case recomputePlaybackLocked c of (changes, c') \<Rightarrow> (Inr changes, c')) p))"
proof -
  obtain changes c' where c': "recomputePlaybackLocked c = (changes, c')"
    by (cases "recomputePlaybackLocked c")
  obtain r p' where "applyPlaybackChanges answer changes (p\<lparr>pl_client := c'\<rparr>) = (r, p')"
    by (cases "applyPlaybackChanges answer changes (p\<lparr>pl_client := c'\<rparr>)")
  with apply_gains_ok [OF assms(1,2,5) c' _ this] playback_ok_ids [OF assms(3)] assms(4) c'
  show ?thesis by (simp add: apply_section_def)
qed

lemma refused_section_gains_ok:
  "log_gains_ok p \<Longrightarrow> log_gains_ok (snd (apply_section answer (Inl failure, pl_client p) p))"
  by (simp add: apply_section_def)

lemma log_gains_ok_view:
  assumes "log_gains_ok p" and "playback_view (pl_client p') = playback_view (pl_client p)"
    and "pl_log p' = pl_log p"
  shows "log_gains_ok p'"
  using assms gains_ok_view [OF assms(2)] by (simp add: log_gains_ok_def)

lemma log_gains_ok_step:
  fixes p :: "'f::{zero, one, times, linorder} PlayingClient"
  assumes mult: "gains_multiply TYPE('f)" and ok: "log_gains_ok p" "playback_ok p"
  shows "log_gains_ok (playback_step isfinite answer op p)"
proof (cases op)
  case (Set_config cfg)
  have gains: "gains_ok (pl_client p\<lparr>vc_audio_config := cfg\<rparr>)"
    if "vr_ok (validateAudioConfig isfinite cfg)"
    using that ok(1)
    by (auto simp: validateAudioConfig_def log_gains_ok_def gains_ok_def is_gain_def vr_ok_def
        vr_failure_def Let_def split: if_splits)
  then show ?thesis
    using Set_config refused_section_gains_ok [OF ok(1)]
      apply_section_gains_ok [OF mult ok, of "pl_client p\<lparr>vc_audio_config := cfg\<rparr>"]
    by (simp add: setAudioEngineConfig_def setAudioEngineConfig_locked_def Let_def)
next
  case (Set_muted participant b)
  then show ?thesis
    using ok(1) refused_section_gains_ok [OF ok(1)]
      apply_section_gains_ok [OF mult ok, of "pl_client p\<lparr>vc_muted_participants :=
        set_flag b participant (vc_muted_participants (pl_client p))\<rparr>"]
    by (simp add: setParticipantMuted_def updateParticipantFlag_locked_def log_gains_ok_def
        gains_ok_def)
next
  case (Set_blocked participant b)
  then show ?thesis
    using ok(1) refused_section_gains_ok [OF ok(1)]
      apply_section_gains_ok [OF mult ok, of "pl_client p\<lparr>vc_blocked_participants :=
        set_flag b participant (vc_blocked_participants (pl_client p))\<rparr>"]
    by (simp add: setParticipantBlocked_def updateParticipantFlag_locked_def log_gains_ok_def
        gains_ok_def)
next
  case (Set_volume participant volume)
  let ?c = "pl_client p\<lparr>vc_participant_volumes := (vc_participant_volumes (pl_client p))
      (participant := (if volume = 1 then None else Some volume))\<rparr>"
  have "gains_ok ?c" if "\<not> (volume < 0 \<or> 1 < volume)"
    using that ok(1) by (auto simp: log_gains_ok_def gains_ok_def is_gain_def)
  then show ?thesis
    using Set_volume refused_section_gains_ok [OF ok(1)] apply_section_gains_ok [OF mult ok, of ?c]
    by (simp add: setParticipantVolume_def setParticipantVolume_locked_def)
next
  case (Audio_available sc participant)
  show ?thesis
  proof (cases "participant = [] \<or> list_ex (\<lambda>st. ra_scope st = sc \<and>
      ra_participant_id st = participant) (vc_available_remote_audio (pl_client p))")
    case True
    then show ?thesis
      using ok Audio_available
      by (auto simp: onRemoteAudioAvailable_def audioAvailable_locked_def
          intro: log_gains_ok_view)
  next
    case False
    let ?c = "pl_client p\<lparr>vc_available_remote_audio := vc_available_remote_audio (pl_client p) @
        [\<lparr>ra_scope = sc, ra_participant_id = participant,
          ra_admission_order = vc_next_admission_order (pl_client p), ra_admitted = False,
          ra_gain = 0\<rparr>],
        vc_next_admission_order := vc_next_admission_order (pl_client p) + 1\<rparr>"
    obtain changes c' where c': "recomputePlaybackLocked ?c = (changes, c')"
      by (cases "recomputePlaybackLocked ?c")
    obtain r p' where p': "applyPlaybackChanges answer changes (p\<lparr>pl_client := c'\<rparr>) = (r, p')"
      by (cases "applyPlaybackChanges answer changes (p\<lparr>pl_client := c'\<rparr>)")
    have "log_gains_ok p'"
      using False playback_ok_ids [OF ok(2)] ok(1)
      by (intro apply_gains_ok [OF mult ok(1) _ c' _ p'])
        (auto simp: list_ex_iff stream_id_def log_gains_ok_def gains_ok_def)
    then show ?thesis
      using False Audio_available c' p'
      by (auto simp: onRemoteAudioAvailable_def audioAvailable_locked_def intro: log_gains_ok_view)
  qed
next
  case (Audio_unavailable sc participant)
  let ?c = "pl_client p\<lparr>vc_available_remote_audio :=
      filter (\<lambda>st. \<not> (ra_scope st = sc \<and> ra_participant_id st = participant))
        (vc_available_remote_audio (pl_client p))\<rparr>"
  obtain changes c' where c': "recomputePlaybackLocked ?c = (changes, c')"
    by (cases "recomputePlaybackLocked ?c")
  obtain r p' where p': "applyPlaybackChanges answer changes (p\<lparr>pl_client := c'\<rparr>) = (r, p')"
    by (cases "applyPlaybackChanges answer changes (p\<lparr>pl_client := c'\<rparr>)")
  have "log_gains_ok p'"
    using playback_ok_ids [OF ok(2)] ok(1)
    by (intro apply_gains_ok [OF mult ok(1) _ c' _ p'])
      (auto simp: distinct_map_filter log_gains_ok_def gains_ok_def)
  then show ?thesis
    using Audio_unavailable c' p'
    by (auto simp: onRemoteAudioUnavailable_def audioUnavailable_locked_def intro: log_gains_ok_view)
next
  case (Transport_state st)
  then show ?thesis
    using ok(1)
    by (auto simp: onTransportStateChanged_def transportStateChanged_def Let_def vc_observe_def
        log_gains_ok_def gains_ok_def)
qed

lemma log_gains_ok_run:
  fixes p :: "'f::{zero, one, times, linorder} PlayingClient"
  assumes "gains_multiply TYPE('f)" and "log_gains_ok p" and "playback_ok p"
  shows "log_gains_ok (playback_run isfinite answer ops p)"
  using assms(2,3)
  by (induction ops arbitrary: p)
    (simp_all add: playback_run_def playback_ok_step log_gains_ok_step [OF assms(1)])

text \<open>
  Every gain the transport is ever sent lies between zero and one, provided the gains of the
  initial settings do and a product of such gains does.
\<close>

theorem policy_gains_in_range:
  fixes config :: "'f::{zero, one, times, linorder} AudioEngineConfig"
  assumes "is_gain (0 :: 'f)" and "is_gain (1 :: 'f)"
    and "\<And>a b :: 'f. is_gain a \<Longrightarrow> is_gain b \<Longrightarrow> is_gain (a * b)"
    and "is_gain (ae_team_gain_under_specialization config)"
    and "is_gain (ae_team_gain_under_group config)"
    and "is_gain (ae_specialization_gain_under_group config)"
    and "(ch, answered) \<in> set (pl_log (playback_run isfinite answer ops (fresh_player state config)))"
  shows "0 \<le> pc_gain ch \<and> pc_gain ch \<le> 1"
proof -
  have "gains_multiply TYPE('f)" using assms(1-3) by (simp add: gains_multiply_def)
  moreover have "log_gains_ok (fresh_player state config)"
    using assms(4-6) by (simp add: log_gains_ok_def gains_ok_def fresh_player_def VoiceClient_ctor_def)
  ultimately have "log_gains_ok (playback_run isfinite answer ops (fresh_player state config))"
    by (rule log_gains_ok_run) (rule playback_ok_fresh)
  then show ?thesis
    using assms(7) by (auto simp: log_gains_ok_def list_all_iff is_gain_def)
qed

section \<open>Policies applied late\<close>

text \<open>
  A setter releases the mutex before it sends the policies it has computed, so another operation
  may run in between.
\<close>

record 'f ConcurrentPlayer =
  cp_player :: "'f PlayingClient"
  cp_pending :: "'f PlaybackChange list list"

fun setting_section ::
  "('f::{zero, one, times, linorder} \<Rightarrow> bool) \<Rightarrow> 'f PlaybackOp \<Rightarrow> 'f VoiceClient \<Rightarrow>
   ((VoiceTransportResult + 'f PlaybackChange list) \<times> 'f VoiceClient) option" where
  "setting_section isfinite (Set_config cfg) c = Some (setAudioEngineConfig_locked isfinite cfg c)"
| "setting_section isfinite (Set_muted participant b) c =
     Some (updateParticipantFlag_locked participant b Muted_flag c)"
| "setting_section isfinite (Set_blocked participant b) c =
     Some (updateParticipantFlag_locked participant b Blocked_flag c)"
| "setting_section isfinite (Set_volume participant volume) c =
     Some (setParticipantVolume_locked isfinite participant volume c)"
| "setting_section isfinite _ c = None"

inductive playback_interleaved ::
  "('f::{zero, one, times, linorder} \<Rightarrow> bool) \<Rightarrow> 'f playback_transport \<Rightarrow> 'f ConcurrentPlayer \<Rightarrow>
   'f ConcurrentPlayer \<Rightarrow> bool"
  for isfinite :: "'f \<Rightarrow> bool" and answer :: "'f playback_transport" where
  whole:
    "playback_interleaved isfinite answer cp
       (cp\<lparr>cp_player := playback_step isfinite answer op (cp_player cp)\<rparr>)"
| released:
    "setting_section isfinite op (pl_client (cp_player cp)) = Some (Inr changes, c') \<Longrightarrow>
     playback_interleaved isfinite answer cp
       (cp\<lparr>cp_player := (cp_player cp)\<lparr>pl_client := c'\<rparr>, cp_pending := cp_pending cp @ [changes]\<rparr>)"
| applied:
    "cp_pending cp = xs @ changes # ys \<Longrightarrow>
     playback_interleaved isfinite answer cp
       (cp\<lparr>cp_player := snd (applyPlaybackChanges answer changes (cp_player cp)),
           cp_pending := xs @ ys\<rparr>)"

definition all_succeed :: "nat playback_transport" where
  "all_succeed log ch = vr_success"

definition sample_player :: "nat PlayingClient" where
  "sample_player = playback_run (\<lambda>_. True) all_succeed
     [Audio_available Team_scope ''alice'', Audio_available Group_scope ''bob'']
     (fresh_player Transport_connected (AudioEngineConfig_default 1 1))"

text \<open>One thread mutes Bob and is stopped before it sends its policies; another mutes Alice.\<close>

definition mute_bob :: "nat PlaybackChange list \<times> nat VoiceClient" where
  "mute_bob =
     (case updateParticipantFlag_locked ''bob'' True Muted_flag (pl_client sample_player) of
        (Inr changes, c) \<Rightarrow> (changes, c)
      | (Inl _, c) \<Rightarrow> ([], c))"

definition mute_alice :: "nat PlayingClient" where
  "mute_alice = playback_step (\<lambda>_. True) all_succeed (Set_muted ''alice'' True)
     (sample_player\<lparr>pl_client := snd mute_bob\<rparr>)"

definition late_policies :: "nat PlayingClient" where
  "late_policies = snd (applyPlaybackChanges all_succeed (fst mute_bob) mute_alice)"

lemma late_policies_alice:
  "''alice'' \<in> vc_muted_participants (pl_client late_policies) \<and>
   last_policy (pl_log late_policies) (Team_scope, ''alice'') = Some (True, 1)"
  by code_simp

lemma mute_bob_section:
  "updateParticipantFlag_locked ''bob'' True Muted_flag (pl_client sample_player) =
     (Inr (fst mute_bob), snd mute_bob)"
  by (cases "recomputePlaybackLocked (pl_client sample_player\<lparr>vc_muted_participants :=
        set_flag True ''bob'' (vc_muted_participants (pl_client sample_player))\<rparr>)")
    (simp add: mute_bob_def updateParticipantFlag_locked_def)

text \<open>
  A muted participant can stay audible. Two settings may be changed at once; the policies of
  the first, computed before the second but sent after it, then admit a stream that the second
  muted. A state is reachable in which every policy was sent and confirmed, the client holds the
  participant as muted, and the transport was told last to play that participant at full gain.
\<close>

theorem late_policy_unmutes:
  "\<exists>cp. (playback_interleaved (\<lambda>_. True) all_succeed)\<^sup>*\<^sup>*
       \<lparr>cp_player = sample_player, cp_pending = []\<rparr> cp \<and>
     cp_pending cp = [] \<and>
     ''alice'' \<in> vc_muted_participants (pl_client (cp_player cp)) \<and>
     last_policy (pl_log (cp_player cp)) (Team_scope, ''alice'') = Some (True, 1)"
proof -
  let ?step = "playback_interleaved (\<lambda>_. True) all_succeed"
  let ?start = "\<lparr>cp_player = sample_player, cp_pending = []\<rparr>"
  let ?paused = "\<lparr>cp_player = sample_player\<lparr>pl_client := snd mute_bob\<rparr>,
    cp_pending = [fst mute_bob]\<rparr>"
  let ?overtaken = "\<lparr>cp_player = mute_alice, cp_pending = [fst mute_bob]\<rparr>"
  let ?settled = "\<lparr>cp_player = late_policies, cp_pending = []\<rparr>"
  have "?step ?start ?paused"
    using playback_interleaved.released [of "\<lambda>_. True" "Set_muted ''bob'' True" ?start
        "fst mute_bob" "snd mute_bob" all_succeed] mute_bob_section by simp
  moreover have "?step ?paused ?overtaken"
    using playback_interleaved.whole [of "\<lambda>_. True" all_succeed ?paused "Set_muted ''alice'' True"]
    by (simp add: mute_alice_def)
  moreover have "?step ?overtaken ?settled"
    using playback_interleaved.applied [of ?overtaken "[]" "fst mute_bob" "[]" "\<lambda>_. True" all_succeed]
    by (simp add: late_policies_def)
  ultimately have "?step\<^sup>*\<^sup>* ?start ?settled"
    by (meson converse_rtranclp_into_rtranclp rtranclp.rtrancl_refl)
  then show ?thesis
    using late_policies_alice by (intro exI [of _ ?settled]) simp
qed

section \<open>Witnesses\<close>

theorem playback_follows_settings_witness:
  "let p = playback_run (\<lambda>_. True) all_succeed
         [Audio_available Team_scope ''alice'', Audio_available Group_scope ''bob'']
         (fresh_player Transport_connected (AudioEngineConfig_default 1 1))
   in \<exists>st. st \<in> set (vc_available_remote_audio (pl_client p)) \<and> ra_participant_id st = ''alice'' \<and>
        last_policy (pl_log p) (stream_id st) = Some (ra_admitted st, ra_gain st)"
proof -
  have "map ra_participant_id (vc_available_remote_audio (pl_client sample_player)) =
      [''alice'', ''bob'']"
    by code_simp
  then have "''alice'' \<in> ra_participant_id ` set (vc_available_remote_audio (pl_client sample_player))"
    by (metis list.set_intros(1) list.set_map)
  then obtain st where "st \<in> set (vc_available_remote_audio (pl_client sample_player))"
      "ra_participant_id st = ''alice''"
    by auto
  then show ?thesis
    using playback_follows_settings [of "\<lambda>_. True" all_succeed
        "[Audio_available Team_scope ''alice'', Audio_available Group_scope ''bob'']"
        Transport_connected "AudioEngineConfig_default 1 1"]
    by (auto simp: Let_def sample_player_def)
qed

theorem policy_gains_witness: "fst (hd (pl_log sample_player)) \<in> fst ` set (pl_log sample_player) \<and>
    pc_gain (fst (hd (pl_log sample_player))) \<le> 1"
proof -
  have "pl_log sample_player \<noteq> []" by code_simp
  then have member: "hd (pl_log sample_player) \<in> set (pl_log sample_player)" by simp
  have "a * b \<le> 1" if "a \<le> 1" "b \<le> 1" for a b :: nat
    using mult_le_mono [OF that] by simp
  then have "is_gain (0 :: nat)" "is_gain (1 :: nat)"
      "\<And>a b :: nat. is_gain a \<Longrightarrow> is_gain b \<Longrightarrow> is_gain (a * b)"
    by (simp_all add: is_gain_def)
  from policy_gains_in_range [OF this, of "AudioEngineConfig_default 1 1"
      "fst (hd (pl_log sample_player))" "snd (hd (pl_log sample_player))" "\<lambda>_. True" all_succeed
      "[Audio_available Team_scope ''alice'', Audio_available Group_scope ''bob'']"
      Transport_connected]
  show ?thesis
    using member by (simp add: sample_player_def AudioEngineConfig_default_def is_gain_def)
qed

end
