(* ===== verification/Json_Text.thy ===== *)
theory Json_Text
  imports Hvc_Prelude
begin

text \<open>
  The characters and numbers of the JSON documents that server and client exchange: the character
  classes, \<open>std::from_chars\<close> and \<open>std::to_string\<close> for unsigned integers, and what the two parsers
  (\<open>libs/network/src/control_plane_http.cpp\<close>, \<open>libs/client/src/control_plane_client.cpp\<close>) have in
  common. Both parsers keep a position in their input and only move it forward; here the position
  is the rest of the input. A \<open>char\<close> is a byte.
\<close>

section \<open>Characters\<close>

abbreviation quote_char :: char where
  "quote_char \<equiv> CHR 0x22"

abbreviation backslash :: char where
  "backslash \<equiv> CHR 0x5C"

abbreviation byte :: "char \<Rightarrow> nat" where
  "byte \<equiv> of_char"

definition is_digit :: "char \<Rightarrow> bool" where
  "is_digit c \<longleftrightarrow> 48 \<le> byte c \<and> byte c \<le> 57"

definition starts_with :: "string \<Rightarrow> string \<Rightarrow> bool" where
  "starts_with p s \<longleftrightarrow> take (length p) s = p"

definition quoted :: "string \<Rightarrow> string" where
  "quoted s = quote_char # s @ [quote_char]"

lemma starts_with_append [simp]: "starts_with p (p @ s)"
  by (simp add: starts_with_def)

lemma starts_with_Cons [simp]: "starts_with (a # p) (b # s) \<longleftrightarrow> a = b \<and> starts_with p s"
  by (auto simp: starts_with_def)

lemma starts_with_Nil [simp]: "starts_with [] s"
  by (simp add: starts_with_def)

lemma starts_with_empty [simp]: "starts_with p [] \<longleftrightarrow> p = []"
  by (auto simp: starts_with_def)

lemma starts_with_iff: "starts_with p s \<longleftrightarrow> (\<exists>r. s = p @ r)"
  by (auto simp: starts_with_def) (metis append_take_drop_id)

text \<open>The eight escapes of one character; \<open>unescape\<close> is the \<open>switch\<close> of the server's parser.\<close>

definition unescape :: "char \<Rightarrow> char option" where
  "unescape e =
     (if e = quote_char then Some quote_char
      else if e = backslash then Some backslash
      else if e = CHR ''/'' then Some (CHR ''/'')
      else if e = CHR ''b'' then Some (CHR 0x08)
      else if e = CHR ''f'' then Some (CHR 0x0C)
      else if e = CHR ''n'' then Some (CHR 0x0A)
      else if e = CHR ''r'' then Some (CHR 0x0D)
      else if e = CHR ''t'' then Some (CHR 0x09)
      else None)"

section \<open>Unsigned integers\<close>

definition digit_value :: "char \<Rightarrow> nat" where
  "digit_value c = byte c - 48"

definition digits_value :: "string \<Rightarrow> nat" where
  "digits_value ds = foldl (\<lambda>n c. 10 * n + digit_value c) 0 ds"

text \<open>
  \<open>std::from_chars\<close> for \<open>std::uint64_t\<close> in base ten: the value and what follows the digits, nothing
  when there is no digit or the value does not fit.
\<close>

definition from_chars :: "string \<Rightarrow> (u64 \<times> string) option" where
  "from_chars s =
     (let ds = takeWhile is_digit s in
      if ds = [] \<or> 2 ^ 64 \<le> digits_value ds then None
      else Some (word_of_nat (digits_value ds), dropWhile is_digit s))"

declare decimal.simps [simp del]

definition to_string_u64 :: "u64 \<Rightarrow> string" where
  "to_string_u64 v = decimal (unat v)"

text \<open>\<open>std::to_string\<close> of a signed integer.\<close>

definition to_string_int :: "int \<Rightarrow> string" where
  "to_string_int v = (if v < 0 then CHR ''-'' # decimal (nat (- v)) else decimal (nat v))"

lemma digit_char [simp]:
  assumes "n < 10"
  shows "is_digit (char_of (48 + n))" and "digit_value (char_of (48 + n)) = n"
  using assms by (simp_all add: is_digit_def digit_value_def of_char_of)

lemma decimal_not_Nil [simp]: "decimal n \<noteq> []"
  by (subst decimal.simps) simp

lemma decimal_digits: "\<forall>c \<in> set (decimal n). is_digit c"
  by (induction n rule: decimal.induct) (subst decimal.simps, auto)

lemma digits_value_snoc: "digits_value (ds @ [c]) = 10 * digits_value ds + digit_value c"
  by (simp add: digits_value_def)

lemma digits_value_decimal [simp]: "digits_value (decimal n) = n"
proof (induction n rule: decimal.induct)
  case (1 n)
  show ?case
  proof (cases "n < 10")
    case True
    then show ?thesis by (subst decimal.simps) (simp add: digits_value_def)
  next
    case False
    then show ?thesis
      using 1 by (subst decimal.simps) (simp add: digits_value_snoc del: decimal.simps)
  qed
qed

lemma takeWhile_decimal:
  assumes "rest = [] \<or> \<not> is_digit (hd rest)"
  shows "takeWhile is_digit (decimal n @ rest) = decimal n"
    and "dropWhile is_digit (decimal n @ rest) = rest"
  using assms decimal_digits [of n] by (cases rest; simp add: takeWhile_append dropWhile_append)+

lemma from_chars_decimal:
  assumes "n < 2 ^ 64" and "rest = [] \<or> \<not> is_digit (hd rest)"
  shows "from_chars (decimal n @ rest) = Some (word_of_nat n, rest)"
  using assms by (simp add: from_chars_def takeWhile_decimal)

lemma from_chars_u64:
  assumes "rest = [] \<or> \<not> is_digit (hd rest)"
  shows "from_chars (to_string_u64 v @ rest) = Some (v, rest)"
proof -
  have "unat v < 2 ^ 64" using unsigned_less [of v, where 'a = nat] by simp
  then show ?thesis using from_chars_decimal [OF _ assms, of "unat v"] by (simp add: to_string_u64_def)
qed

lemma from_chars_shorter: "from_chars s = Some (v, r) \<Longrightarrow> length r < length s"
  using length_append [of "takeWhile is_digit s" "dropWhile is_digit s"]
  by (auto simp: from_chars_def Let_def split: if_splits)

text \<open>A decimal number has no superfluous leading zero.\<close>

lemma decimal_hd_zero:
  assumes "hd (decimal n) = CHR ''0''"
  shows "n = 0"
  using assms
proof (induction n rule: decimal.induct)
  case (1 n)
  show ?case
  proof (cases "n < 10")
    case True
    then have "digit_value (hd (decimal n)) = n" by (subst decimal.simps) simp
    with "1.prems" show ?thesis by (simp add: digit_value_def)
  next
    case False
    then have "hd (decimal n) = hd (decimal (n div 10))"
      by (subst decimal.simps) (simp add: hd_append)
    with 1 False show ?thesis by (simp del: decimal.simps)
  qed
qed

lemma decimal_zero: "decimal 0 = ''0''"
  by code_simp

end
