(* ===== verification/Http_Json.thy ===== *)
theory Http_Json
  imports Json_Text
begin

text \<open>
  The JSON codec of the server (\<open>libs/network/src/control_plane_http.cpp\<close>): it writes escaped
  strings into its responses and reads request bodies that are one flat object of strings,
  unsigned integers and Booleans.
\<close>

section \<open>Writing\<close>

definition hex_digit :: "nat \<Rightarrow> char" where
  "hex_digit n = ''0123456789abcdef'' ! n"

definition escape_char :: "char \<Rightarrow> string" where
  "escape_char c =
     (if c = quote_char then [backslash, quote_char]
      else if c = backslash then [backslash, backslash]
      else if c = CHR 0x08 then [backslash, CHR ''b'']
      else if c = CHR 0x0C then [backslash, CHR ''f'']
      else if c = CHR 0x0A then [backslash, CHR ''n'']
      else if c = CHR 0x0D then [backslash, CHR ''r'']
      else if c = CHR 0x09 then [backslash, CHR ''t'']
      else if byte c < 0x20
      then backslash # ''u00'' @ [hex_digit (byte c div 16), hex_digit (byte c mod 16)]
      else [c])"

definition escapeJson :: "string \<Rightarrow> string" where
  "escapeJson v = quote_char # concat (map escape_char v) @ [quote_char]"

definition asciiLower :: "string \<Rightarrow> string" where
  "asciiLower v =
     map (\<lambda>c. if byte (CHR ''A'') \<le> byte c \<and> byte c \<le> byte (CHR ''Z'')
              then char_of (byte c - byte (CHR ''A'') + byte (CHR ''a'')) else c) v"

section \<open>Reading\<close>

record JsonScalar =
  js_string :: "string option"
  js_unsigned :: "u64 option"
  js_boolean :: "bool option"

type_synonym JsonObject = "(string, JsonScalar) std_map"

definition JsonScalar_empty :: JsonScalar where
  "JsonScalar_empty = \<lparr>js_string = None, js_unsigned = None, js_boolean = None\<rparr>"

definition skipWhitespace :: "string \<Rightarrow> string" where
  "skipWhitespace s = dropWhile (\<lambda>c. c \<in> {CHR '' '', CHR 0x09, CHR 0x0D, CHR 0x0A}) s"

fun parse_string_body :: "string \<Rightarrow> string \<Rightarrow> (string \<times> string) option" where
  "parse_string_body [] v = None"
| "parse_string_body (c # cs) v =
     (if c = quote_char then Some (v, cs)
      else if c \<noteq> backslash
      then (if byte c < 0x20 then None else parse_string_body cs (v @ [c]))
      else
        (case cs of
           [] \<Rightarrow> None
         | e # es \<Rightarrow>
             (case unescape e of None \<Rightarrow> None | Some x \<Rightarrow> parse_string_body es (v @ [x]))))"

definition parseJsonString :: "string \<Rightarrow> (string \<times> string) option" where
  "parseJsonString s =
     (case s of [] \<Rightarrow> None
      | c # cs \<Rightarrow> if c \<noteq> quote_char then None else parse_string_body cs [])"

definition parseJsonUnsigned :: "string \<Rightarrow> (u64 \<times> string) option" where
  "parseJsonUnsigned s =
     (let digits = takeWhile is_digit s in
      if digits = [] then None
      else case from_chars digits of
        Some (v, []) \<Rightarrow> Some (v, drop (length digits) s)
      | _ \<Rightarrow> None)"

definition parse_scalar :: "string \<Rightarrow> (JsonScalar \<times> string) option" where
  "parse_scalar s =
     (if s \<noteq> [] \<and> hd s = quote_char
      then map_option (\<lambda>(v, r). (JsonScalar_empty\<lparr>js_string := Some v\<rparr>, r)) (parseJsonString s)
      else if starts_with ''true'' s
      then Some (JsonScalar_empty\<lparr>js_boolean := Some True\<rparr>, drop 4 s)
      else if starts_with ''false'' s
      then Some (JsonScalar_empty\<lparr>js_boolean := Some False\<rparr>, drop 5 s)
      else map_option (\<lambda>(v, r). (JsonScalar_empty\<lparr>js_unsigned := Some v\<rparr>, r))
             (parseJsonUnsigned s))"

lemma length_skipWhitespace: "length (skipWhitespace s) \<le> length s"
  by (simp add: skipWhitespace_def length_dropWhile_le)

lemma parse_string_body_shorter:
  "parse_string_body s v = Some (x, r) \<Longrightarrow> length r < length s"
proof (induction s v rule: parse_string_body.induct)
  case (2 c cs v)
  show ?case
  proof (cases "c = backslash")
    case True
    with 2 show ?thesis
      by (cases cs) (auto split: option.splits intro: less_SucI)
  next
    case False
    with 2 show ?thesis by (auto split: if_splits intro: less_SucI)
  qed
qed simp

lemma parseJsonString_shorter: "parseJsonString s = Some (x, r) \<Longrightarrow> length r < length s"
  by (cases s) (auto simp: parseJsonString_def split: if_splits dest: parse_string_body_shorter)

lemma parseJsonUnsigned_shorter: "parseJsonUnsigned s = Some (x, r) \<Longrightarrow> length r < length s"
  by (cases s) (auto simp: parseJsonUnsigned_def Let_def split: list.splits if_splits option.splits)

lemma starts_with_length: "starts_with p s \<Longrightarrow> length p \<le> length s"
  by (auto simp: starts_with_iff)

lemma parse_scalar_shorter: "parse_scalar s = Some (x, r) \<Longrightarrow> length r < length s"
  by (auto simp: parse_scalar_def split: if_splits
      dest: parseJsonString_shorter parseJsonUnsigned_shorter starts_with_length)

text \<open>One field: \<open>skip_to\<close> skips white space and takes one expected character.\<close>

definition skip_to :: "char \<Rightarrow> string \<Rightarrow> string option" where
  "skip_to expected s =
     (case skipWhitespace s of [] \<Rightarrow> None | c # r \<Rightarrow> if c \<noteq> expected then None else Some r)"

definition parse_field :: "string \<Rightarrow> ((string \<times> JsonScalar) \<times> string) option" where
  "parse_field s =
     Option.bind (parseJsonString s) (\<lambda>(key, s1).
     Option.bind (skip_to (CHR '':'') s1) (\<lambda>s2.
     Option.bind (parse_scalar (skipWhitespace s2)) (\<lambda>(scalar, s3). Some ((key, scalar), s3))))"

lemma skip_to_shorter: "skip_to c s = Some r \<Longrightarrow> length r < length s"
  using length_skipWhitespace [of s] by (auto simp: skip_to_def split: list.splits if_splits)

lemma parse_field_shorter: "parse_field s = Some (f, r) \<Longrightarrow> length r < length s"
  by (fastforce simp: parse_field_def bind_eq_Some_conv
      dest: parseJsonString_shorter skip_to_shorter parse_scalar_shorter
      intro: le_less_trans [OF length_skipWhitespace] order.strict_trans)

lemma parse_fields_shorter:
  assumes "parse_field s = Some (f, s1)" and "skipWhitespace s1 = d # s2"
  shows "length (skipWhitespace s2) < length s"
  using parse_field_shorter [OF assms(1)] length_skipWhitespace [of s1]
    length_skipWhitespace [of s2] assms(2)
  by simp

text \<open>The loop over the fields; each turn starts at a key.\<close>

function parse_fields :: "string \<Rightarrow> JsonObject \<Rightarrow> JsonObject option" where
  "parse_fields s object =
     (case parse_field s of
        None \<Rightarrow> None
      | Some ((key, scalar), s1) \<Rightarrow>
          if std_contains object key then None
          else
            (case skipWhitespace s1 of
               [] \<Rightarrow> None
             | d # s2 \<Rightarrow>
                 if d = CHR ''}''
                 then (if skipWhitespace s2 = [] then Some (std_emplace key scalar object) else None)
                 else if d \<noteq> CHR '','' then None
                 else parse_fields (skipWhitespace s2) (std_emplace key scalar object)))"
  by pat_completeness auto

termination
  by (relation "measure (length \<circ> fst)") (auto dest: parse_fields_shorter)

declare parse_fields.simps [simp del]

definition parseFlatJsonObject :: "string \<Rightarrow> JsonObject option" where
  "parseFlatJsonObject input =
     (case skipWhitespace input of
        [] \<Rightarrow> None
      | c # s \<Rightarrow>
          if c \<noteq> CHR ''{'' then None
          else (case skipWhitespace s of
             [] \<Rightarrow> None
           | d # s' \<Rightarrow>
               if d = CHR ''}'' then (if skipWhitespace s' = [] then Some [] else None)
               else parse_fields (d # s') []))"

section \<open>Fields\<close>

definition hasOnlyFields :: "JsonObject \<Rightarrow> string list \<Rightarrow> bool" where
  "hasOnlyFields object allowed = list_all (\<lambda>e. fst e \<in> set allowed) object"

definition stringField :: "JsonObject \<Rightarrow> string \<Rightarrow> string option" where
  "stringField object name =
     (case map_of object name of None \<Rightarrow> None | Some v \<Rightarrow> js_string v)"

definition unsignedField :: "JsonObject \<Rightarrow> string \<Rightarrow> u64 option" where
  "unsignedField object name =
     (case map_of object name of None \<Rightarrow> None | Some v \<Rightarrow> js_unsigned v)"

definition booleanField :: "JsonObject \<Rightarrow> string \<Rightarrow> bool option" where
  "booleanField object name =
     (case map_of object name of None \<Rightarrow> None | Some v \<Rightarrow> js_boolean v)"

end
