(* ===== verification/Http_Responses.thy ===== *)
theory Http_Responses
  imports Http_Json Identity_And_Grants Directory_Service
begin

text \<open>
  The documents the HTTP adapter answers with (\<open>libs/network/src/control_plane_http.cpp\<close>): requests
  and responses, error envelopes with their status codes, and one function per result document. A
  document is the text the code concatenates; \<open>key\<close> is the literal \<open>"name":\<close> in it.
\<close>

section \<open>Requests and responses\<close>

record HttpRequest =
  hq_method :: string
  hq_target :: string
  hq_headers :: "(string, string) std_map"
  hq_body :: string

record HttpResponse =
  hr_status_code :: nat
  hr_headers :: "(string, string) std_map"
  hr_body :: string

definition header :: "HttpRequest \<Rightarrow> string \<Rightarrow> string" where
  "header request name =
     (case map_of (hq_headers request) (asciiLower name) of None \<Rightarrow> [] | Some v \<Rightarrow> v)"

definition authorizationValue :: "HttpRequest \<Rightarrow> string \<Rightarrow> string option" where
  "authorizationValue request scheme =
     (let authorization = header request ''authorization'' in
      if \<not> starts_with scheme authorization \<or> length authorization = length scheme then None
      else Some (drop (length scheme) authorization))"

definition key :: "string \<Rightarrow> string" where
  "key name = quoted name @ '':''"

fun joined :: "string list \<Rightarrow> string" where
  "joined [] = []"
| "joined (t # ts) = t @ (if ts = [] then [] else '','' @ joined ts)"

definition api_version :: string where
  "api_version = ''{'' @ key ''api_version'' @ quoted ''v1''"

definition jsonResponse :: "nat \<Rightarrow> string \<Rightarrow> HttpResponse" where
  "jsonResponse status body =
     \<lparr>hr_status_code = status,
      hr_headers =
        [(''cache-control'', ''no-store''),
         (''content-type'', ''application/json; charset=utf-8''),
         (''x-hvc-api-version'', ''v1'')],
      hr_body = body\<rparr>"

definition errorResponse :: "nat \<Rightarrow> string \<Rightarrow> string \<Rightarrow> HttpResponse" where
  "errorResponse status code message =
     jsonResponse status
       (api_version @ '','' @ key ''error'' @ ''{'' @ key ''code'' @ escapeJson code @ '','' @
        key ''message'' @ escapeJson message @ ''}}'')"

text \<open>\<open>duration_cast<milliseconds>\<close> rounds towards zero.\<close>

definition unixMilliseconds :: "time_point \<Rightarrow> int" where
  "unixMilliseconds t = (if t < 0 then - (- t div 1000000) else t div 1000000)"

section \<open>Names\<close>

fun scopeName :: "VoiceScope \<Rightarrow> string" where
  "scopeName Team_scope = ''team''"
| "scopeName Specialization_scope = ''specialization''"
| "scopeName Group_scope = ''group''"

definition parseScope :: "string \<Rightarrow> VoiceScope option" where
  "parseScope scope =
     (if scope = ''team'' then Some Team_scope
      else if scope = ''specialization'' then Some Specialization_scope
      else if scope = ''group'' then Some Group_scope
      else None)"

fun authenticationError :: "SessionAuthenticationError \<Rightarrow> HttpResponse" where
  "authenticationError Auth_invalid_credentials =
     errorResponse 401 ''invalid_credentials'' ''The credential was rejected.''"
| "authenticationError Auth_device_not_allowed =
     errorResponse 403 ''device_not_allowed'' ''The device is not allowed.''"
| "authenticationError Auth_account_disabled =
     errorResponse 403 ''account_disabled'' ''The account is disabled.''"
| "authenticationError Auth_rate_limited =
     errorResponse 429 ''rate_limited'' ''Too many authentication attempts.''"

fun startErrorCode :: "StartTransmissionError \<Rightarrow> string" where
  "startErrorCode Start_session_not_found = ''session_not_found''"
| "startErrorCode Start_session_device_mismatch = ''session_device_mismatch''"
| "startErrorCode Start_session_expired = ''session_expired''"
| "startErrorCode Start_membership_unavailable = ''membership_unavailable''"
| "startErrorCode Start_voice_not_connected = ''voice_not_connected''"
| "startErrorCode Start_voice_no_active_membership = ''voice_no_active_membership''"
| "startErrorCode Start_voice_scope_not_found = ''voice_scope_not_found''"
| "startErrorCode Start_voice_scope_not_authorized = ''voice_scope_not_authorized''"
| "startErrorCode Start_voice_transmit_muted = ''voice_transmit_muted''"
| "startErrorCode Start_voice_membership_stale = ''voice_membership_stale''"
| "startErrorCode Start_session_changed_during_start = ''session_changed_during_start''"
| "startErrorCode Start_membership_changed_during_start = ''membership_changed_during_start''"
| "startErrorCode Start_sender_already_transmitting = ''sender_already_transmitting''"
| "startErrorCode Start_speaker_limit_reached = ''speaker_limit_reached''"
| "startErrorCode Start_voice_control_unavailable = ''voice_control_unavailable''"
| "startErrorCode Start_transmission_id_conflict = ''transmission_id_conflict''"
| "startErrorCode Start_rate_limited = ''rate_limited''"

fun startErrorStatus :: "StartTransmissionError \<Rightarrow> nat" where
  "startErrorStatus Start_session_not_found = 401"
| "startErrorStatus Start_session_expired = 401"
| "startErrorStatus Start_session_device_mismatch = 403"
| "startErrorStatus Start_voice_scope_not_authorized = 403"
| "startErrorStatus Start_voice_transmit_muted = 403"
| "startErrorStatus Start_rate_limited = 429"
| "startErrorStatus Start_voice_control_unavailable = 502"
| "startErrorStatus _ = 409"

fun endErrorCode :: "EndTransmissionError \<Rightarrow> string" where
  "endErrorCode End_session_not_found = ''session_not_found''"
| "endErrorCode End_session_device_mismatch = ''session_device_mismatch''"
| "endErrorCode End_session_expired = ''session_expired''"
| "endErrorCode End_transmission_not_found = ''transmission_not_found''"
| "endErrorCode End_transmission_not_owned = ''transmission_not_owned''"
| "endErrorCode End_rate_limited = ''rate_limited''"

fun endErrorStatus :: "EndTransmissionError \<Rightarrow> nat" where
  "endErrorStatus End_session_not_found = 401"
| "endErrorStatus End_session_expired = 401"
| "endErrorStatus End_session_device_mismatch = 403"
| "endErrorStatus End_transmission_not_owned = 403"
| "endErrorStatus End_transmission_not_found = 404"
| "endErrorStatus End_rate_limited = 429"

fun moderationErrorCode :: "ModerateTransmissionError \<Rightarrow> string" where
  "moderationErrorCode Mod_session_not_found = ''session_not_found''"
| "moderationErrorCode Mod_session_device_mismatch = ''session_device_mismatch''"
| "moderationErrorCode Mod_session_expired = ''session_expired''"
| "moderationErrorCode Mod_not_authorized = ''not_authorized''"
| "moderationErrorCode Mod_transmission_not_found = ''transmission_not_found''"

fun moderationErrorStatus :: "ModerateTransmissionError \<Rightarrow> nat" where
  "moderationErrorStatus Mod_session_not_found = 401"
| "moderationErrorStatus Mod_session_expired = 401"
| "moderationErrorStatus Mod_session_device_mismatch = 403"
| "moderationErrorStatus Mod_not_authorized = 403"
| "moderationErrorStatus Mod_transmission_not_found = 404"

fun directoryNodeTypeName :: "DirectoryNodeType \<Rightarrow> string" where
  "directoryNodeTypeName Node_group = ''group''"
| "directoryNodeTypeName Node_specialization = ''specialization''"
| "directoryNodeTypeName Node_team = ''team''"

fun presenceStateName :: "DirectoryPresenceState \<Rightarrow> string" where
  "presenceStateName Offline_state = ''offline''"
| "presenceStateName Online_state = ''online''"

fun voiceGrantError :: "VoiceGrantError \<Rightarrow> HttpResponse" where
  "voiceGrantError Grant_session_not_found =
     errorResponse 401 ''invalid_session'' ''The session is missing or expired.''"
| "voiceGrantError Grant_session_expired =
     errorResponse 401 ''invalid_session'' ''The session is missing or expired.''"
| "voiceGrantError Grant_session_device_mismatch =
     errorResponse 403 ''session_device_mismatch'' ''The session belongs to another device.''"
| "voiceGrantError Grant_membership_unavailable =
     errorResponse 404 ''membership_unavailable'' ''No authoritative membership is available.''"
| "voiceGrantError Grant_player_not_in_membership =
     errorResponse 409 ''membership_inconsistent''
       ''The authoritative membership does not contain the session player.''"
| "voiceGrantError Grant_voice_not_connected =
     errorResponse 409 ''voice_not_connected'' ''The session player is not connected to voice.''"

section \<open>Result documents\<close>

definition directory_etag :: "u64 \<Rightarrow> string" where
  "directory_etag version = quoted (''directory-'' @ to_string_u64 version)"

definition node_text :: "DirectoryNode \<Rightarrow> string" where
  "node_text node =
     ''{'' @ key ''node_id'' @ escapeJson (dn_node_id node) @
     '','' @ key ''node_type'' @ escapeJson (directoryNodeTypeName (dn_node_type node)) @
     '','' @ key ''parent_node_id'' @
       (case dn_parent_node_id node of Some p \<Rightarrow> escapeJson p | None \<Rightarrow> ''null'') @
     '','' @ key ''display_name'' @ escapeJson (dn_display_name node) @
     '','' @ key ''sort_index'' @ decimal (unat (dn_sort_index node)) @ ''}''"

definition role_text :: "PublicDirectoryRole \<Rightarrow> string" where
  "role_text role =
     ''{'' @ key ''role_id'' @ escapeJson (id_value (pr_role_id role)) @
     '','' @ key ''display_name'' @ escapeJson (pr_display_name role) @ ''}''"

definition participant_text :: "DirectoryParticipant \<Rightarrow> string" where
  "participant_text p =
     ''{'' @ key ''player_id'' @ escapeJson (id_value (pa_player_id p)) @
     '','' @ key ''display_name'' @ escapeJson (pa_display_name p) @
     '','' @ key ''primary_team_id'' @ escapeJson (id_value (pa_primary_team_id p)) @
     '','' @ key ''public_role_ids'' @ ''['' @
       joined (map (\<lambda>r. escapeJson (id_value r)) (pa_public_role_ids p)) @ '']}''"

definition directory_text :: "DirectorySnapshot \<Rightarrow> string" where
  "directory_text snap =
     api_version @ '','' @ key ''directory_version'' @ to_string_u64 (di_version snap) @
     '','' @ key ''group_id'' @ escapeJson (id_value (di_group_id snap)) @
     '','' @ key ''nodes'' @ ''['' @ joined (map node_text (di_nodes snap)) @
     ''],'' @ key ''public_roles'' @ ''['' @ joined (map role_text (di_public_roles snap)) @
     ''],'' @ key ''participants'' @ ''['' @ joined (map participant_text (di_participants snap)) @
     '']}''"

definition entry_text :: "DirectoryPresenceEntry \<Rightarrow> string" where
  "entry_text e =
     ''{'' @ key ''player_id'' @ escapeJson (id_value (fst e)) @
     '','' @ key ''state'' @ escapeJson (presenceStateName (snd e)) @ ''}''"

definition presence_text :: "DirectoryPresenceSnapshot \<Rightarrow> string" where
  "presence_text snap =
     api_version @ '','' @ key ''presence_version'' @ to_string_u64 (ps_version snap) @
     '','' @ key ''mode'' @
       escapeJson (if ps_mode snap = Mode_snapshot then ''snapshot'' else ''delta'') @
     '','' @ key ''observed_at_unix_ms'' @ to_string_int (unixMilliseconds (ps_observed_at snap)) @
     '','' @ key ''entries'' @ ''['' @ joined (map entry_text (ps_entries snap)) @ '']}''"

definition session_text :: "AuthenticatedSession \<Rightarrow> string" where
  "session_text session =
     api_version @ '','' @ key ''session_id'' @ escapeJson (id_value (as_session_id session)) @
     '','' @ key ''player_id'' @ escapeJson (id_value (as_player_id session)) @
     '','' @ key ''device_id'' @ escapeJson (id_value (as_device_id session)) @
     '','' @ key ''expires_at_unix_ms'' @
       to_string_int (unixMilliseconds (as_expires_at session)) @ ''}''"

definition boolean_text :: "bool \<Rightarrow> string" where
  "boolean_text b = (if b then ''true'' else ''false'')"

definition membership_text :: "MembershipSnapshot \<Rightarrow> VoiceMembership \<Rightarrow> string" where
  "membership_text snap m =
     api_version @ '','' @ key ''membership_version'' @ to_string_u64 (ms_version snap) @
     '','' @ key ''hierarchy_id'' @ escapeJson (id_value (hi_id (ms_hierarchy snap))) @
     '','' @ key ''player_id'' @ escapeJson (id_value (vm_player_id m)) @
     '','' @ key ''group_id'' @ escapeJson (id_value (vm_group_id m)) @
     '','' @ key ''specialization_id'' @ escapeJson (id_value (vm_specialization_id m)) @
     '','' @ key ''team_id'' @ escapeJson (id_value (vm_team_id m)) @
     '','' @ key ''role_ids'' @ ''['' @
       joined (map (\<lambda>r. escapeJson (id_value r)) (vm_role_ids m)) @ '']'' @
     '','' @ key ''connected'' @ boolean_text (vm_connected m) @
     '','' @ key ''can_receive_voice'' @ boolean_text (vm_can_receive_voice m) @
     '','' @ key ''transmit_muted'' @ boolean_text (vm_transmit_muted m) @ ''}''"

record IssuedVoiceRoomGrant =
  ig_scope :: VoiceScope
  ig_room_name :: string
  ig_access_token :: string

definition grant_text :: "IssuedVoiceRoomGrant \<Rightarrow> string" where
  "grant_text g =
     ''{'' @ key ''scope'' @ escapeJson (scopeName (ig_scope g)) @
     '','' @ key ''room_name'' @ escapeJson (ig_room_name g) @
     '','' @ key ''access_token'' @ escapeJson (ig_access_token g) @ ''}''"

definition grants_text :: "string \<Rightarrow> VoiceGrantClaims \<Rightarrow> IssuedVoiceRoomGrant list \<Rightarrow> string" where
  "grants_text url claims grants =
     api_version @ '','' @ key ''server_url'' @ escapeJson url @
     '','' @ key ''membership_version'' @ to_string_u64 (vc_membership_version claims) @
     '','' @ key ''expires_at_unix_ms'' @ to_string_int (unixMilliseconds (vc_expires_at claims)) @
     '','' @ key ''grants'' @ ''['' @ joined (map grant_text grants) @ '']}''"

definition started_text :: "ActiveTransmission \<Rightarrow> string" where
  "started_text t =
     (let au = at_authorization t in
      api_version @ '','' @ key ''transmission_id'' @ escapeJson (id_value (au_transmission_id au)) @
      '','' @ key ''client_transmission_id'' @
        escapeJson (id_value (au_client_transmission_id au)) @
      '','' @ key ''scope'' @ escapeJson (scopeName (au_scope au)) @
      '','' @ key ''membership_version'' @ to_string_u64 (au_membership_version au) @
      '','' @ key ''recipient_count'' @ decimal (length (au_recipients au)) @ ''}'')"

definition ended_text :: "string \<Rightarrow> string \<Rightarrow> string" where
  "ended_text transmission_id reason =
     api_version @ '','' @ key ''transmission_id'' @ escapeJson transmission_id @
     '','' @ key ''status'' @ quoted ''ended'' @
     '','' @ key ''stop_reason'' @ quoted reason @ ''}''"

definition removed_text :: "PlayerId \<Rightarrow> nat \<Rightarrow> string" where
  "removed_text subject interrupted =
     api_version @ '','' @ key ''player_id'' @ escapeJson (id_value subject) @
     '','' @ key ''status'' @ quoted ''removed'' @
     '','' @ key ''interrupted_transmission_count'' @ decimal interrupted @ ''}''"

definition replaced_text :: "PlayerId \<Rightarrow> u64 \<Rightarrow> nat \<Rightarrow> string" where
  "replaced_text subject version interrupted =
     api_version @ '','' @ key ''player_id'' @ escapeJson (id_value subject) @
     '','' @ key ''membership_version'' @ to_string_u64 version @
     '','' @ key ''status'' @ quoted ''replaced'' @
     '','' @ key ''interrupted_transmission_count'' @ decimal interrupted @ ''}''"

definition ready_text :: string where
  "ready_text = api_version @ '','' @ key ''status'' @ quoted ''ready'' @ ''}''"

end
