(* ===== verification/Control_Plane_Http.thy ===== *)
theory Control_Plane_Http
  imports Http_Responses
begin

text \<open>
  The HTTP adapter of the control plane (\<open>ControlPlaneHttpAdapter\<close> in
  \<open>libs/network/include/hvc/network/control_plane_http.hpp\<close> and
  \<open>libs/network/src/control_plane_http.cpp\<close>): authentication of a request, the routes, and the
  translation of exceptions. The adapter is wired as in \<open>apps/control-plane/src/main.cpp\<close>: the
  in-memory store is its membership provider and its administration, the transmission service
  works on the same store. The authenticator, the session repository and the issuer of room
  tokens are parameters. An exception is thrown only before the state is changed, so the state at
  the throw is the state at the start of the request.
\<close>

section \<open>Collaborators and state\<close>

record 'm SessionPort =
  sp_find :: "'m Store \<Rightarrow> SessionId \<Rightarrow> AuthenticatedSession option"
  sp_upsert :: "AuthenticatedSession \<Rightarrow> 'm Store \<Rightarrow> 'm Store"

record 'm AdministrativeAuthorizer =
  aa_canRead :: "'m Store \<Rightarrow> PlayerId \<Rightarrow> PlayerId \<Rightarrow> bool"
  aa_canRemove :: "'m Store \<Rightarrow> PlayerId \<Rightarrow> PlayerId \<Rightarrow> bool"
  aa_canReplace :: "'m Store \<Rightarrow> PlayerId \<Rightarrow> PlayerId \<Rightarrow> bool"

text \<open>An absent collaborator is the null pointer of the constructor's default arguments.\<close>

record ('m, 'g, 'i) HttpAdapter =
  ha_authenticate :: "AuthenticateSessionCommand \<Rightarrow> time_point \<Rightarrow> 'i \<Rightarrow> SessionAuthenticationResult \<times> 'i"
  ha_sessions :: "'m SessionPort"
  ha_memberships :: "'m membership_repo"
  ha_next_transmission :: "'g \<Rightarrow> TransmissionId \<times> 'g"
  ha_canInterrupt :: "'m Store \<Rightarrow> PlayerId \<Rightarrow> TransmissionId \<Rightarrow> bool"
  ha_administration :: bool
  ha_authorizer :: "'m AdministrativeAuthorizer option"
  ha_voice_grants :: "milliseconds option"
  ha_issuer :: "(VoiceGrantClaims \<Rightarrow> IssuedVoiceRoomGrant list) option"
  ha_voice_server_url :: string
  ha_connectedScopeCount :: "'m Store \<Rightarrow> PlayerId \<Rightarrow> nat"

record ('m, 'g, 'i) HttpState =
  hs_service :: "('m, 'g) Service"
  hs_identity :: 'i
  hs_directory :: "DirectoryApplicationService option"

record RequestSession =
  rq_session :: AuthenticatedSession
  rq_device_id :: DeviceId
  rq_correlation_id :: CorrelationId

abbreviation hs_store :: "('m, 'g, 'i) HttpState \<Rightarrow> 'm Store" where
  "hs_store s \<equiv> sv_store (hs_service s)"

definition with_store :: "'m Store \<Rightarrow> ('m, 'g, 'i) HttpState \<Rightarrow> ('m, 'g, 'i) HttpState" where
  "with_store store s = s\<lparr>hs_service := (hs_service s)\<lparr>sv_store := store\<rparr>\<rparr>"

definition provider ::
  "('m, 'g, 'i) HttpAdapter \<Rightarrow> ('m, 'g, 'i) HttpState \<Rightarrow> PlayerId \<Rightarrow>
   AuthoritativeMembershipContext option" where
  "provider a s = currentMembershipLocked (ha_memberships a) (hs_store s)"

section \<open>Authentication of a request\<close>

definition authenticateRequestSession ::
  "(SessionId \<Rightarrow> AuthenticatedSession option) \<Rightarrow> HttpRequest \<Rightarrow> time_point \<Rightarrow>
   (HttpResponse + RequestSession) throws" where
  "authenticateRequestSession sessions request now =
     (case authorizationValue request ''Session '' of
        None \<Rightarrow> Inr (Inl (errorResponse 401 ''session_required''
                  ''Authorization must use the Session scheme.''))
      | Some session_value \<Rightarrow>
          (let device_value = header request ''x-hvc-device-id'';
               correlation_value = header request ''x-correlation-id''
           in if device_value = [] \<or> correlation_value = []
              then Inr (Inl (errorResponse 400 ''required_header_missing''
                     ''X-HVC-Device-ID and X-Correlation-ID are required.''))
              else
                throws_bind (StrongId_ctor session_value) (\<lambda>session_id.
                throws_bind (StrongId_ctor device_value) (\<lambda>device_id.
                throws_bind (StrongId_ctor correlation_value) (\<lambda>correlation_id.
                  Inr (case sessions session_id of
                     None \<Rightarrow> Inl (errorResponse 401 ''invalid_session''
                               ''The session is missing or expired.'')
                   | Some session \<Rightarrow>
                       if \<not> activeAt session now
                       then Inl (errorResponse 401 ''invalid_session''
                              ''The session is missing or expired.'')
                       else if as_device_id session \<noteq> device_id
                       then Inl (errorResponse 403 ''session_device_mismatch''
                              ''The session belongs to another device.'')
                       else Inr \<lparr>rq_session = session, rq_device_id = device_id,
                                 rq_correlation_id = correlation_id\<rparr>))))))"

section \<open>The routes\<close>

type_synonym ('m, 'g, 'i) answer = "(HttpResponse \<times> ('m, 'g, 'i) HttpState) throws"

definition answer :: "HttpResponse \<Rightarrow> ('m, 'g, 'i) HttpState \<Rightarrow> ('m, 'g, 'i) answer" where
  "answer response s = Inr (response, s)"

text \<open>The result of the authenticator, which must be a live session of the requesting device.\<close>

definition accept_session ::
  "('m, 'g, 'i) HttpAdapter \<Rightarrow> DeviceId \<Rightarrow> time_point \<Rightarrow> SessionAuthenticationResult \<Rightarrow>
   ('m, 'g, 'i) HttpState \<Rightarrow> HttpResponse \<times> ('m, 'g, 'i) HttpState" where
  "accept_session a device_id now result s =
     (case result of
        Inl err \<Rightarrow> (authenticationError err, s)
      | Inr session \<Rightarrow>
          if as_device_id session \<noteq> device_id \<or> \<not> activeAt session now
          then (errorResponse 502 ''invalid_authenticator_result''
                  ''The authenticator returned an invalid or device-mismatched session.'', s)
          else (jsonResponse 201 (session_text session),
                with_store (sp_upsert (ha_sessions a) session (hs_store s)) s))"

definition createSession ::
  "('m, 'g, 'i) HttpAdapter \<Rightarrow> HttpRequest \<Rightarrow> time_point \<Rightarrow> ('m, 'g, 'i) HttpState \<Rightarrow>
   ('m, 'g, 'i) answer" where
  "createSession a request now s =
     (let device = header request ''x-hvc-device-id'';
          correlation = header request ''x-correlation-id'' in
      case authorizationValue request ''Bearer '' of
        None \<Rightarrow> answer (errorResponse 401 ''credential_required''
                  ''Authorization must use the Bearer scheme at the session boundary.'') s
      | Some credential \<Rightarrow>
          if device = [] \<or> correlation = []
          then answer (errorResponse 400 ''required_header_missing''
                 ''X-HVC-Device-ID and X-Correlation-ID are required.'') s
          else if hq_body request \<noteq> []
          then answer (errorResponse 400 ''body_not_allowed''
                 ''Session creation does not accept a request body.'') s
          else
            throws_bind (StrongId_ctor device) (\<lambda>device_id.
            throws_bind (StrongId_ctor correlation) (\<lambda>correlation_id.
              (let cmd = \<lparr>ac_credential = credential, ac_device_id = device_id,
                          ac_correlation_id = correlation_id\<rparr>;
                   (result, i) = ha_authenticate a cmd now (hs_identity s)
               in Inr (accept_session a device_id now result (s\<lparr>hs_identity := i\<rparr>))))))"

definition directoryResponse ::
  "(PlayerId \<Rightarrow> AuthoritativeMembershipContext option) \<Rightarrow> HttpRequest \<Rightarrow> PlayerId \<Rightarrow>
   DirectoryApplicationService \<Rightarrow> (HttpResponse \<times> DirectoryApplicationService) throws" where
  "directoryResponse memberships request actor d =
     throws_bind (directoryFor memberships actor d) (\<lambda>(result, d').
       Inr (case result of
          Inl Directory_unavailable \<Rightarrow>
            errorResponse 404 ''directory_unavailable'' ''No active directory is available.''
        | Inl Directory_limit_exceeded \<Rightarrow>
            errorResponse 413 ''directory_limit_exceeded''
              ''The visible directory exceeds the participant limit.''
        | Inr snap \<Rightarrow>
            (let etag = directory_etag (di_version snap) in
             if header request ''if-none-match'' = etag
             then \<lparr>hr_status_code = 304,
                   hr_headers = [(''cache-control'', ''no-store''), (''etag'', etag),
                                 (''x-hvc-api-version'', ''v1'')],
                   hr_body = []\<rparr>
             else
               (let response = jsonResponse 200 (directory_text snap)
                in response\<lparr>hr_headers := std_emplace ''etag'' etag (hr_headers response)\<rparr>)), d'))"

definition parsePresenceVersion :: "string \<Rightarrow> HttpResponse + u64 option" where
  "parsePresenceVersion target =
     (let path = ''/api/v1/directory/presence'' in
      if target = path then Inr None
      else if \<not> starts_with path target \<or> length target \<le> length path \<or>
              target ! length path \<noteq> CHR ''?''
      then Inl (errorResponse 404 ''route_not_found'' ''No v1 route matches the request.'')
      else
        (let query = drop (length path + 1) target; prefix = ''after_version='' in
         if \<not> starts_with prefix query \<or> length query = length prefix \<or> CHR ''&'' \<in> set query
         then Inl (errorResponse 400 ''invalid_query''
                ''Presence accepts only one after_version parameter.'')
         else
           (case from_chars (drop (length prefix) query) of
              Some (version, []) \<Rightarrow> Inr (Some version)
            | _ \<Rightarrow> Inl (errorResponse 400 ''invalid_query''
                     ''after_version must be an unsigned integer.''))))"

definition presenceResponse ::
  "(PlayerId \<Rightarrow> AuthoritativeMembershipContext option) \<Rightarrow> (PlayerId \<Rightarrow> nat) \<Rightarrow> PlayerId \<Rightarrow>
   u64 option \<Rightarrow> time_point \<Rightarrow> DirectoryApplicationService \<Rightarrow>
   (HttpResponse \<times> DirectoryApplicationService) throws" where
  "presenceResponse memberships connected actor after_version now d =
     throws_bind (presenceFor memberships connected actor after_version now d) (\<lambda>(result, d').
       Inr (case result of
          Inl Presence_directory_unavailable \<Rightarrow>
            errorResponse 404 ''directory_unavailable'' ''No active directory is available.''
        | Inl Presence_snapshot_required \<Rightarrow>
            errorResponse 409 ''presence_snapshot_required''
              ''A complete presence snapshot is required.''
        | Inr snap \<Rightarrow>
            (let response = jsonResponse 200 (presence_text snap)
             in response\<lparr>hr_headers := std_emplace ''retry-after'' ''1'' (hr_headers response)\<rparr>), d'))"

definition membershipResponse ::
  "PlayerId \<Rightarrow> (PlayerId \<Rightarrow> AuthoritativeMembershipContext option) \<Rightarrow> HttpResponse" where
  "membershipResponse player memberships =
     (case memberships player of
        None \<Rightarrow> errorResponse 404 ''membership_unavailable''
                  ''No authoritative membership is available.''
      | Some ctx \<Rightarrow>
          (case snapshot_find (mc_snapshot ctx) player of
             None \<Rightarrow> errorResponse 409 ''membership_inconsistent''
                       ''The authoritative membership does not contain the session player.''
           | Some m \<Rightarrow> jsonResponse 200 (membership_text (mc_snapshot ctx) m)))"

definition voiceGrantResponse ::
  "(SessionId \<Rightarrow> AuthenticatedSession option) \<Rightarrow>
   (PlayerId \<Rightarrow> AuthoritativeMembershipContext option) \<Rightarrow> milliseconds \<Rightarrow>
   (VoiceGrantClaims \<Rightarrow> IssuedVoiceRoomGrant list) \<Rightarrow> string \<Rightarrow> RequestSession \<Rightarrow> time_point \<Rightarrow>
   HttpResponse" where
  "voiceGrantResponse sessions memberships policy issue url authenticated now =
     (case derive sessions memberships policy (as_session_id (rq_session authenticated))
             (rq_device_id authenticated) now of
        Inl err \<Rightarrow> voiceGrantError err
      | Inr claims \<Rightarrow>
          (let grants = issue claims in
           if grants = []
           then errorResponse 403 ''voice_grants_empty''
                  ''The current roles do not authorize any voice room.''
           else jsonResponse 201 (grants_text url claims grants)))"

text \<open>The comma-separated roles of a replacement; a trailing comma ends the loop.\<close>

function role_parts :: "string \<Rightarrow> RoleId list \<Rightarrow> RoleId list option" where
  "role_parts v roles =
     (if v = [] then (if roles = [] then None else Some roles)
      else
        (let role = takeWhile (\<lambda>c. c \<noteq> CHR '','') v; rest = dropWhile (\<lambda>c. c \<noteq> CHR '','') v in
         if role = [] \<or> list_ex (\<lambda>r. id_value r = role) roles then None
         else if rest = [] then Some (roles @ [StrongId role])
         else role_parts (tl rest) (roles @ [StrongId role])))"
  by pat_completeness auto

termination
proof (relation "measure (length \<circ> fst)")
  fix v :: string and roles :: "RoleId list" and role rest
  assume "v \<noteq> []" and rest: "rest = dropWhile (\<lambda>c. c \<noteq> CHR '','') v" "rest \<noteq> []"
  have "length (tl rest) < length rest" using rest(2) by simp
  also have "\<dots> \<le> length v" unfolding rest(1) by (rule length_dropWhile_le)
  finally show "((tl rest, roles @ [StrongId role]), v, roles) \<in> measure (length \<circ> fst)" by simp
qed simp

definition parseRoles :: "string \<Rightarrow> RoleId list option" where
  "parseRoles v = role_parts v []"

definition replacement_fields :: "string list" where
  "replacement_fields =
     [''membership_version'', ''group_id'', ''specialization_id'', ''team_id'', ''role_ids'',
      ''connected'', ''can_receive_voice'', ''transmit_muted'']"

record MembershipBody =
  mb_version :: u64
  mb_group :: string
  mb_specialization :: string
  mb_team :: string
  mb_roles :: "RoleId list"
  mb_connected :: bool
  mb_can_receive :: bool
  mb_transmit_muted :: bool

definition membership_body :: "JsonObject \<Rightarrow> MembershipBody option" where
  "membership_body body =
     (case (unsignedField body ''membership_version'', stringField body ''group_id'',
            stringField body ''specialization_id'', stringField body ''team_id'',
            Option.bind (stringField body ''role_ids'') parseRoles,
            booleanField body ''connected'', booleanField body ''can_receive_voice'',
            booleanField body ''transmit_muted'') of
        (Some version, Some grp, Some specialization, Some team, Some roles, Some connected,
         Some can_receive, Some transmit_muted) \<Rightarrow>
          Some \<lparr>mb_version = version, mb_group = grp, mb_specialization = specialization,
                mb_team = team, mb_roles = roles, mb_connected = connected,
                mb_can_receive = can_receive, mb_transmit_muted = transmit_muted\<rparr>
      | _ \<Rightarrow> None)"

text \<open>The membership that replaces the one found; the ban status is not the administrator's to set.\<close>

definition replacement_membership ::
  "PlayerId \<Rightarrow> VoiceMembership \<Rightarrow> MembershipBody \<Rightarrow> VoiceMembership throws" where
  "replacement_membership subject existing b =
     throws_bind (StrongId_ctor (mb_group b)) (\<lambda>grp.
     throws_bind (StrongId_ctor (mb_specialization b)) (\<lambda>specialization.
     throws_bind (StrongId_ctor (mb_team b)) (\<lambda>team.
       Inr ((VoiceMembership_ctor subject grp specialization team (mb_roles b))
              \<lparr>vm_connected := mb_connected b, vm_can_receive_voice := mb_can_receive b,
               vm_transmit_muted := mb_transmit_muted b,
               vm_voice_ban_status := vm_voice_ban_status existing\<rparr>))))"

text \<open>\<open>std::find_if\<close> and the assignment through the iterator.\<close>

fun replace_first :: "PlayerId \<Rightarrow> VoiceMembership \<Rightarrow> VoiceMembership list \<Rightarrow> VoiceMembership list" where
  "replace_first subject m [] = []"
| "replace_first subject m (x # xs) =
     (if vm_player_id x = subject then m # xs else x # replace_first subject m xs)"

text \<open>The block of the code that catches the exceptions of the validating constructors.\<close>

definition replacement_context ::
  "AuthoritativeMembershipContext \<Rightarrow> u64 \<Rightarrow> VoiceMembership list \<Rightarrow>
   AuthoritativeMembershipContext throws" where
  "replacement_context ctx version memberships =
     (let h = ms_hierarchy (mc_snapshot ctx) in
      throws_bind
        (Hierarchy_ctor (hi_id h) (hi_scopes h) (hi_groups h) (hi_specializations h) (hi_teams h))
        (\<lambda>h'. throws_bind (MembershipSnapshot_ctor version h' memberships)
        (\<lambda>snap. AuthoritativeMembershipContext_ctor (Some snap) (Some (mc_role_policy ctx)))))"

definition commit_replacement ::
  "('m, 'g, 'i) HttpAdapter \<Rightarrow> RequestSession \<Rightarrow> PlayerId \<Rightarrow> u64 \<Rightarrow>
   AuthoritativeMembershipContext throws \<Rightarrow> time_point \<Rightarrow> ('m, 'g, 'i) HttpState \<Rightarrow>
   ('m, 'g, 'i) answer" where
  "commit_replacement a authenticated subject version replacement now s =
     (case replacement of
        Inl (InvalidArgument message) \<Rightarrow>
          answer (errorResponse 400 ''invalid_membership''
            ''The replacement membership is inconsistent with the hierarchy.'') s
      | Inl err \<Rightarrow> Inl err
      | Inr ctx \<Rightarrow>
          (let (result, store) =
                 replaceMembership (ha_memberships a) subject ctx now
                   (rq_correlation_id authenticated) (hs_store s);
               s1 = with_store store s
           in case result of
                Inl err \<Rightarrow> answer (errorResponse 409 ''membership_version_not_newer''
                             ''The replacement version must be strictly newer.'') s1
              | Inr interrupted \<Rightarrow>
                  answer (jsonResponse 200 (replaced_text subject version (length interrupted))) s1))"

definition replaceMembershipResponse ::
  "('m, 'g, 'i) HttpAdapter \<Rightarrow> RequestSession \<Rightarrow> PlayerId \<Rightarrow> JsonObject \<Rightarrow> time_point \<Rightarrow>
   ('m, 'g, 'i) HttpState \<Rightarrow> ('m, 'g, 'i) answer" where
  "replaceMembershipResponse a authenticated subject body now s =
     (if \<not> hasOnlyFields body replacement_fields
      then answer (errorResponse 400 ''unknown_field'' ''The request contains an unknown field.'') s
      else case membership_body body of
        None \<Rightarrow> answer (errorResponse 400 ''invalid_body''
          ''A version, hierarchy path, role_ids and all membership flags are required.'') s
      | Some b \<Rightarrow>
          (case provider a s subject of
             None \<Rightarrow> answer (errorResponse 404 ''membership_unavailable''
                       ''No authoritative membership is available.'') s
           | Some ctx \<Rightarrow>
               (let memberships = ms_memberships (mc_snapshot ctx) in
                case List.find (\<lambda>m. vm_player_id m = subject) memberships of
                  None \<Rightarrow> answer (errorResponse 409 ''membership_inconsistent''
                            ''The authoritative membership does not contain the subject.'') s
                | Some existing \<Rightarrow>
                    throws_bind (replacement_membership subject existing b) (\<lambda>replacement.
                      commit_replacement a authenticated subject (mb_version b)
                        (replacement_context ctx (mb_version b)
                           (replace_first subject replacement memberships)) now s))))"

definition startTransmissionResponse ::
  "('m, 'g, 'i) HttpAdapter \<Rightarrow> RequestSession \<Rightarrow> JsonObject \<Rightarrow> time_point \<Rightarrow>
   ('m, 'g, 'i) HttpState \<Rightarrow> ('m, 'g, 'i) answer" where
  "startTransmissionResponse a authenticated body now s =
     (if \<not> hasOnlyFields body [''client_transmission_id'', ''scope'', ''membership_version'']
      then answer (errorResponse 400 ''unknown_field'' ''The request contains an unknown field.'') s
      else
        (case (stringField body ''client_transmission_id'',
               Option.bind (stringField body ''scope'') parseScope,
               unsignedField body ''membership_version'') of
           (Some client_id, Some sc, Some version) \<Rightarrow>
             throws_bind (StrongId_ctor client_id) (\<lambda>client_transmission_id.
               (let (result, v) =
                      start (ha_memberships a) (ha_next_transmission a)
                        \<lparr>st_session_id = as_session_id (rq_session authenticated),
                         st_device_id = rq_device_id authenticated,
                         st_client_transmission_id = client_transmission_id,
                         st_scope = sc, st_membership_version = version,
                         st_correlation_id = rq_correlation_id authenticated\<rparr>
                        now (hs_service s);
                    s1 = s\<lparr>hs_service := v\<rparr>
                in case result of
                     Inl err \<Rightarrow> answer (errorResponse (startErrorStatus err) (startErrorCode err)
                                  ''The transmission could not be started.'') s1
                   | Inr t \<Rightarrow> answer (jsonResponse 201 (started_text t)) s1))
         | _ \<Rightarrow> answer (errorResponse 400 ''invalid_body''
                  ''client_transmission_id, scope and membership_version are required.'') s))"

definition endTransmissionResponse ::
  "RequestSession \<Rightarrow> string \<Rightarrow> time_point \<Rightarrow> ('m, 'g, 'i) HttpState \<Rightarrow> ('m, 'g, 'i) answer" where
  "endTransmissionResponse authenticated transmission_id now s =
     throws_bind (StrongId_ctor transmission_id) (\<lambda>tid.
       (let (result, v) =
              end_service
                \<lparr>en_session_id = as_session_id (rq_session authenticated),
                 en_device_id = rq_device_id authenticated, en_transmission_id = tid,
                 en_correlation_id = rq_correlation_id authenticated\<rparr> now (hs_service s);
            s1 = s\<lparr>hs_service := v\<rparr>
        in case result of
             Inl err \<Rightarrow> answer (errorResponse (endErrorStatus err) (endErrorCode err)
                          ''The transmission could not be ended.'') s1
           | Inr e \<Rightarrow>
               answer (jsonResponse 200 (ended_text transmission_id ''push_to_talk_released'')) s1))"

definition moderateTransmissionResponse ::
  "('m, 'g, 'i) HttpAdapter \<Rightarrow> RequestSession \<Rightarrow> string \<Rightarrow> time_point \<Rightarrow>
   ('m, 'g, 'i) HttpState \<Rightarrow> ('m, 'g, 'i) answer" where
  "moderateTransmissionResponse a authenticated transmission_id now s =
     throws_bind (StrongId_ctor transmission_id) (\<lambda>tid.
       (let (result, v) =
              interruptForModeration (ha_canInterrupt a)
                \<lparr>mo_session_id = as_session_id (rq_session authenticated),
                 mo_device_id = rq_device_id authenticated, mo_transmission_id = tid,
                 mo_correlation_id = rq_correlation_id authenticated\<rparr> now (hs_service s);
            s1 = s\<lparr>hs_service := v\<rparr>
        in case result of
             Inl err \<Rightarrow> answer (errorResponse (moderationErrorStatus err) (moderationErrorCode err)
                          ''The transmission could not be interrupted.'') s1
           | Inr e \<Rightarrow>
               answer (jsonResponse 200 (ended_text transmission_id ''moderation_interrupted'')) s1))"

section \<open>Dispatch\<close>

definition route_not_found :: HttpResponse where
  "route_not_found = errorResponse 404 ''route_not_found'' ''No v1 route matches the request.''"

text \<open>The read of the directory and of presence, whose service keeps versions of its own.\<close>

definition on_directory ::
  "(DirectoryApplicationService \<Rightarrow> (HttpResponse \<times> DirectoryApplicationService) throws) \<Rightarrow>
   ('m, 'g, 'i) HttpState \<Rightarrow> ('m, 'g, 'i) answer" where
  "on_directory read s =
     (case hs_directory s of
        None \<Rightarrow> answer (errorResponse 503 ''directory_unavailable''
                  ''Directory service is not configured.'') s
      | Some d \<Rightarrow>
          throws_bind (read d) (\<lambda>(response, d'). answer response (s\<lparr>hs_directory := Some d'\<rparr>)))"

definition handle_directory ::
  "('m, 'g, 'i) HttpAdapter \<Rightarrow> HttpRequest \<Rightarrow> RequestSession \<Rightarrow> ('m, 'g, 'i) HttpState \<Rightarrow>
   ('m, 'g, 'i) answer" where
  "handle_directory a request session s =
     (if hq_body request \<noteq> []
      then answer (errorResponse 400 ''body_not_allowed''
             ''Directory retrieval does not accept a request body.'') s
      else on_directory
             (directoryResponse (provider a s) request (as_player_id (rq_session session))) s)"

definition handle_presence ::
  "('m, 'g, 'i) HttpAdapter \<Rightarrow> HttpRequest \<Rightarrow> RequestSession \<Rightarrow> time_point \<Rightarrow>
   ('m, 'g, 'i) HttpState \<Rightarrow> ('m, 'g, 'i) answer" where
  "handle_presence a request session now s =
     (if hq_method request \<noteq> ''GET'' then answer route_not_found s
      else if hq_body request \<noteq> []
      then answer (errorResponse 400 ''body_not_allowed''
             ''Presence retrieval does not accept a request body.'') s
      else case parsePresenceVersion (hq_target request) of
        Inl response \<Rightarrow> answer response s
      | Inr after_version \<Rightarrow>
          on_directory
            (presenceResponse (provider a s) (ha_connectedScopeCount a (hs_store s))
               (as_player_id (rq_session session)) after_version now) s)"

definition not_authorized :: "string \<Rightarrow> HttpResponse" where
  "not_authorized what = errorResponse 403 ''not_authorized''
     (''The session cannot '' @ what @ '' administrative memberships.'')"

definition handle_administration ::
  "('m, 'g, 'i) HttpAdapter \<Rightarrow> HttpRequest \<Rightarrow> string \<Rightarrow> RequestSession \<Rightarrow> time_point \<Rightarrow>
   ('m, 'g, 'i) HttpState \<Rightarrow> ('m, 'g, 'i) answer" where
  "handle_administration a request subject_value session now s =
     (if subject_value = [] \<or> CHR ''/'' \<in> set subject_value
      then answer (errorResponse 400 ''invalid_membership_path''
             ''The administrative membership path is invalid.'') s
      else case ha_authorizer a of
        None \<Rightarrow> answer (errorResponse 403 ''administration_unavailable''
                  ''Membership administration is not enabled.'') s
      | Some authorizer \<Rightarrow>
          if \<not> ha_administration a
          then answer (errorResponse 403 ''administration_unavailable''
                 ''Membership administration is not enabled.'') s
          else
            throws_bind (StrongId_ctor subject_value) (\<lambda>subject.
              (let actor = as_player_id (rq_session session) in
               if hq_method request = ''GET'' \<and> hq_body request = []
               then
                 (if \<not> aa_canRead authorizer (hs_store s) actor subject
                  then answer (not_authorized ''read'') s
                  else answer (membershipResponse subject (provider a s)) s)
               else if hq_method request = ''DELETE'' \<and> hq_body request = []
               then
                 (if \<not> aa_canRemove authorizer (hs_store s) actor subject
                  then answer (not_authorized ''remove'') s
                  else if provider a s subject = None
                  then answer (errorResponse 404 ''membership_unavailable''
                         ''No authoritative membership is available.'') s
                  else
                    (let (interrupted, store) =
                           removeMembership (ha_memberships a) subject now
                             (rq_correlation_id session) (hs_store s)
                     in answer (jsonResponse 200 (removed_text subject (length interrupted)))
                          (with_store store s)))
               else if hq_method request = ''PUT''
               then
                 (if \<not> aa_canReplace authorizer (hs_store s) actor subject
                  then answer (not_authorized ''replace'') s
                  else case parseFlatJsonObject (hq_body request) of
                    None \<Rightarrow> answer (errorResponse 400 ''invalid_json''
                              ''The request body must be a flat JSON object.'') s
                  | Some body \<Rightarrow> replaceMembershipResponse a session subject body now s)
               else answer route_not_found s)))"

definition handle_voice_grants ::
  "('m, 'g, 'i) HttpAdapter \<Rightarrow> HttpRequest \<Rightarrow> RequestSession \<Rightarrow> time_point \<Rightarrow>
   ('m, 'g, 'i) HttpState \<Rightarrow> ('m, 'g, 'i) answer" where
  "handle_voice_grants a request session now s =
     (if hq_body request \<noteq> []
      then answer (errorResponse 400 ''body_not_allowed''
             ''Voice grant issuance does not accept a request body.'') s
      else case (ha_voice_grants a, ha_issuer a) of
        (Some policy, Some issue) \<Rightarrow>
          if ha_voice_server_url a = []
          then answer (errorResponse 503 ''voice_grants_unavailable''
                 ''Voice grant issuance is not configured.'') s
          else answer
                 (voiceGrantResponse (sp_find (ha_sessions a) (hs_store s)) (provider a s) policy issue
                    (ha_voice_server_url a) session now) s
      | _ \<Rightarrow> answer (errorResponse 503 ''voice_grants_unavailable''
               ''Voice grant issuance is not configured.'') s)"

definition ends_with :: "string \<Rightarrow> string \<Rightarrow> bool" where
  "ends_with suffix s \<longleftrightarrow> length suffix \<le> length s \<and> drop (length s - length suffix) s = suffix"

definition handle_transmission ::
  "('m, 'g, 'i) HttpAdapter \<Rightarrow> HttpRequest \<Rightarrow> string \<Rightarrow> RequestSession \<Rightarrow> time_point \<Rightarrow>
   ('m, 'g, 'i) HttpState \<Rightarrow> ('m, 'g, 'i) answer" where
  "handle_transmission a request path session now s =
     (let suffix = ''/interrupt'' in
      if hq_method request = ''POST'' \<and> ends_with suffix path
      then
        (let transmission_id = take (length path - length suffix) path in
         if transmission_id = [] \<or> CHR ''/'' \<in> set transmission_id \<or> hq_body request \<noteq> []
         then answer (errorResponse 400 ''invalid_transmission_path''
                ''The transmission path or body is invalid.'') s
         else moderateTransmissionResponse a session transmission_id now s)
      else if hq_method request = ''DELETE'' \<and> path \<noteq> [] \<and> CHR ''/'' \<notin> set path \<and>
              hq_body request = []
      then endTransmissionResponse session path now s
      else answer route_not_found s)"

definition membership_admin_prefix :: string where
  "membership_admin_prefix = ''/api/v1/admin/memberships/''"

definition transmission_prefix :: string where
  "transmission_prefix = ''/api/v1/transmissions/''"

text \<open>The routes behind the authentication.\<close>

definition handle_session ::
  "('m, 'g, 'i) HttpAdapter \<Rightarrow> HttpRequest \<Rightarrow> RequestSession \<Rightarrow> time_point \<Rightarrow>
   ('m, 'g, 'i) HttpState \<Rightarrow> ('m, 'g, 'i) answer" where
  "handle_session a request session now s =
     (let verb = hq_method request; target = hq_target request in
      if target = ''/api/v1/directory'' \<and> verb = ''GET'' then handle_directory a request session s
      else if starts_with ''/api/v1/directory/presence'' target
      then handle_presence a request session now s
      else if starts_with membership_admin_prefix target
      then handle_administration a request (drop (length membership_admin_prefix) target) session
             now s
      else if target = ''/api/v1/membership'' \<and> verb = ''GET''
      then
        (if hq_body request \<noteq> []
         then answer (errorResponse 400 ''body_not_allowed''
                ''Membership retrieval does not accept a request body.'') s
         else answer (membershipResponse (as_player_id (rq_session session)) (provider a s)) s)
      else if target = ''/api/v1/voice-grants'' \<and> verb = ''POST''
      then handle_voice_grants a request session now s
      else if target = ''/api/v1/transmissions'' \<and> verb = ''POST''
      then
        (case parseFlatJsonObject (hq_body request) of
           None \<Rightarrow> answer (errorResponse 400 ''invalid_json''
                     ''The request body must be a flat JSON object.'') s
         | Some body \<Rightarrow> startTransmissionResponse a session body now s)
      else if starts_with transmission_prefix target
      then handle_transmission a request (drop (length transmission_prefix) target) session now s
      else answer route_not_found s)"

definition dispatch ::
  "('m, 'g, 'i) HttpAdapter \<Rightarrow> HttpRequest \<Rightarrow> time_point \<Rightarrow> ('m, 'g, 'i) HttpState \<Rightarrow>
   ('m, 'g, 'i) answer" where
  "dispatch a request now s =
     (if hq_target request = ''/api/v1/health'' \<and> hq_method request = ''GET''
      then
        (if hq_body request \<noteq> []
         then answer (errorResponse 400 ''body_not_allowed''
                ''Health retrieval does not accept a request body.'') s
         else answer (jsonResponse 200 ready_text) s)
      else if hq_target request = ''/api/v1/sessions'' \<and> hq_method request = ''POST''
      then createSession a request now s
      else
        throws_bind
          (authenticateRequestSession (sp_find (ha_sessions a) (hs_store s)) request now)
          (\<lambda>authenticated.
             case authenticated of
               Inl response \<Rightarrow> answer response s
             | Inr session \<Rightarrow> handle_session a request session now s))"

definition handle ::
  "('m, 'g, 'i) HttpAdapter \<Rightarrow> HttpRequest \<Rightarrow> time_point \<Rightarrow> ('m, 'g, 'i) HttpState \<Rightarrow>
   HttpResponse \<times> ('m, 'g, 'i) HttpState" where
  "handle a request now s =
     (case dispatch a request now s of
        Inr r \<Rightarrow> r
      | Inl (InvalidArgument message) \<Rightarrow>
          (errorResponse 400 ''invalid_identifier'' ''An identifier is empty or invalid.'', s)
      | Inl _ \<Rightarrow>
          (errorResponse 500 ''internal_error'' ''The request could not be completed.'', s))"

section \<open>The deployed collaborators\<close>

text \<open>
  \<open>MembershipRoleAuthorizer\<close> and \<open>MembershipTransportPresenceProvider\<close> of
  \<open>apps/control-plane/src/main.cpp\<close>, and the session repository of the store.
\<close>

definition hasRole :: "'m membership_repo \<Rightarrow> 'm Store \<Rightarrow> PlayerId \<Rightarrow> string \<Rightarrow> bool" where
  "hasRole repo s actor role =
     (case currentMembershipLocked repo s actor of
        None \<Rightarrow> False
      | Some ctx \<Rightarrow>
          (case snapshot_find (mc_snapshot ctx) actor of
             None \<Rightarrow> False
           | Some m \<Rightarrow> list_ex (\<lambda>r. id_value r = role) (vm_role_ids m)))"

definition role_canInterrupt :: "'m membership_repo \<Rightarrow> 'm Store \<Rightarrow> PlayerId \<Rightarrow> TransmissionId \<Rightarrow> bool" where
  "role_canInterrupt repo s actor tid \<longleftrightarrow>
     hasRole repo s actor ''moderator'' \<or> hasRole repo s actor ''administrator''"

definition role_authorizer :: "'m membership_repo \<Rightarrow> 'm AdministrativeAuthorizer" where
  "role_authorizer repo =
     \<lparr>aa_canRead = (\<lambda>s actor subject. hasRole repo s actor ''administrator''),
      aa_canRemove = (\<lambda>s actor subject. hasRole repo s actor ''administrator''),
      aa_canReplace = (\<lambda>s actor subject. hasRole repo s actor ''administrator'')\<rparr>"

definition connectedScopeCount :: "'m membership_repo \<Rightarrow> 'm Store \<Rightarrow> PlayerId \<Rightarrow> nat" where
  "connectedScopeCount repo s player =
     (case currentMembershipLocked repo s player of
        None \<Rightarrow> 0
      | Some ctx \<Rightarrow>
          (case snapshot_find (mc_snapshot ctx) player of
             None \<Rightarrow> 0
           | Some m \<Rightarrow> if vm_connected m then 1 else 0))"

definition store_sessions :: "'m SessionPort" where
  "store_sessions = \<lparr>sp_find = currentSessionLocked, sp_upsert = upsertSession\<rparr>"

text \<open>
  The server passes its persistent repository, which is also the session provider behind the
  store; its contract is that a stored session is found until it is erased.
\<close>

definition persistent_sessions :: "'m SessionPort" where
  "persistent_sessions =
     \<lparr>sp_find = (\<lambda>s sid. case sto_persistent_sessions s of None \<Rightarrow> None | Some f \<Rightarrow> f sid),
      sp_upsert = (\<lambda>session s. case sto_persistent_sessions s of
         None \<Rightarrow> s
       | Some f \<Rightarrow> s\<lparr>sto_persistent_sessions := Some (f(as_session_id session \<mapsto> session))\<rparr>)\<rparr>"

text \<open>What the adapter relies on, for the two repositories alike.\<close>

locale session_repository =
  fixes port :: "'m SessionPort" and ok :: "'m Store \<Rightarrow> bool"
  assumes upsert_ok: "ok s \<Longrightarrow> ok (sp_upsert port x s)"
    and find_upsert:
      "ok s \<Longrightarrow> sp_find port (sp_upsert port x s) =
         (sp_find port s)(as_session_id x \<mapsto> x)"
    and upsert_memberships:
      "currentMembershipLocked repo (sp_upsert port x s) = currentMembershipLocked repo s"
    and upsert_active: "sto_active (sp_upsert port x s) = sto_active s"
begin

lemma stored_session_authenticates:
  assumes "ok s" and "activeAt x now"
    and "authorizationValue request ''Session '' = Some (id_value (as_session_id x))"
    and "as_device_id x = StrongId (header request ''x-hvc-device-id'')"
    and "header request ''x-hvc-device-id'' \<noteq> []" and "header request ''x-correlation-id'' \<noteq> []"
  shows "authenticateRequestSession (sp_find port (sp_upsert port x s)) request now =
     Inr (Inr \<lparr>rq_session = x, rq_device_id = as_device_id x,
               rq_correlation_id = StrongId (header request ''x-correlation-id'')\<rparr>)"
proof -
  have "id_value (as_session_id x) \<noteq> []"
    using assms(3) by (auto simp: authorizationValue_def Let_def starts_with_iff split: if_splits)
  then show ?thesis
    using assms
    by (simp add: authenticateRequestSession_def StrongId_ctor_def find_upsert Let_def)
qed

lemma other_sessions_kept:
  assumes "ok s" and "sid \<noteq> as_session_id x"
  shows "sp_find port (sp_upsert port x s) sid = sp_find port s sid"
  using assms by (simp add: find_upsert)

lemma stored_session_serves:
  assumes "ok s" and "as_device_id x = StrongId device" and "device \<noteq> []"
  shows "(\<forall>now request.
      activeAt x now \<and>
      authorizationValue request ''Session '' = Some (id_value (as_session_id x)) \<and>
      header request ''x-hvc-device-id'' = device \<and> header request ''x-correlation-id'' \<noteq> [] \<longrightarrow>
      authenticateRequestSession (sp_find port (sp_upsert port x s)) request now =
        Inr (Inr \<lparr>rq_session = x, rq_device_id = as_device_id x,
                  rq_correlation_id = StrongId (header request ''x-correlation-id'')\<rparr>)) \<and>
    (\<forall>sid. sid \<noteq> as_session_id x \<longrightarrow>
      sp_find port (sp_upsert port x s) sid = sp_find port s sid)"
  using assms stored_session_authenticates other_sessions_kept by blast

end

interpretation in_memory: session_repository store_sessions "\<lambda>s. True"
  by unfold_locales
    (auto simp: store_sessions_def upsertSession_def currentSessionLocked_def fun_eq_iff
      split: option.splits)

interpretation persistent: session_repository persistent_sessions "\<lambda>s. sto_persistent_sessions s \<noteq> None"
  by unfold_locales
    (auto simp: persistent_sessions_def split: option.splits)

end
