(* ===== verification/Http_Properties.thy ===== *)
theory Http_Properties
  imports Control_Plane_Http
begin

text \<open>
  What a request can do: no effect and no success without a live session of the requesting device,
  no change of a membership without the administrator role, and nothing to the store that is not
  one of its operations, so that the invariant of the store holds in every state the server
  reaches by requests and maintenance.
\<close>

section \<open>Requests without a session\<close>

lemma status_of_error [simp]: "hr_status_code (errorResponse status code message) = status"
  by (simp add: errorResponse_def jsonResponse_def)

lemma status_of_json [simp]: "hr_status_code (jsonResponse status body) = status"
  by (simp add: jsonResponse_def)

lemma authorizationValue_not_Nil: "authorizationValue request scheme = Some token \<Longrightarrow> token \<noteq> []"
  by (auto simp: authorizationValue_def Let_def starts_with_iff split: if_splits)

text \<open>Authentication never throws; its outcome without the identifiers' constructors.\<close>

definition request_session ::
  "(SessionId \<Rightarrow> AuthenticatedSession option) \<Rightarrow> HttpRequest \<Rightarrow> time_point \<Rightarrow> RequestSession option" where
  "request_session sessions request now =
     (case authorizationValue request ''Session '' of
        None \<Rightarrow> None
      | Some token \<Rightarrow>
          (case sessions (StrongId token) of
             None \<Rightarrow> None
           | Some session \<Rightarrow>
               if header request ''x-hvc-device-id'' \<noteq> [] \<and> header request ''x-correlation-id'' \<noteq> [] \<and>
                  activeAt session now \<and>
                  as_device_id session = StrongId (header request ''x-hvc-device-id'')
               then Some \<lparr>rq_session = session,
                          rq_device_id = StrongId (header request ''x-hvc-device-id''),
                          rq_correlation_id = StrongId (header request ''x-correlation-id'')\<rparr>
               else None))"

lemma authenticate_eq:
  "\<exists>response. hr_status_code response \<in> {400, 401, 403} \<and>
     authenticateRequestSession sessions request now =
       Inr (case request_session sessions request now of None \<Rightarrow> Inl response | Some rq \<Rightarrow> Inr rq)"
proof (cases "authorizationValue request ''Session ''")
  case (Some token)
  note token = Some authorizationValue_not_Nil [OF Some]
  show ?thesis
  proof (cases "header request ''x-hvc-device-id'' = [] \<or> header request ''x-correlation-id'' = []")
    case True
    with token show ?thesis
      by (auto simp: authenticateRequestSession_def request_session_def Let_def split: option.splits)
  next
    case False
    moreover have "\<exists>response :: HttpResponse. hr_status_code response = 400"
      by (rule exI [of _ "errorResponse 400 [] []"]) simp
    ultimately show ?thesis
      using token by (cases "sessions (StrongId token)")
        (auto simp: authenticateRequestSession_def request_session_def Let_def StrongId_ctor_def)
  qed
qed (simp add: authenticateRequestSession_def request_session_def)

lemma authenticated_session:
  assumes "authenticateRequestSession sessions request now = Inr (Inr rq)"
  shows "request_session sessions request now = Some rq"
  using authenticate_eq [of sessions request now] assms by (auto split: option.splits)

lemma unauthenticated_status:
  assumes "authenticateRequestSession sessions request now = Inr (Inl response)"
  shows "hr_status_code response \<in> {400, 401, 403}"
  using authenticate_eq [of sessions request now] assms by (auto split: option.splits)

lemma request_session_iff:
  "request_session sessions request now = Some rq \<longleftrightarrow>
     (\<exists>token session. authorizationValue request ''Session '' = Some token \<and>
        sessions (StrongId token) = Some session \<and> activeAt session now \<and>
        header request ''x-hvc-device-id'' \<noteq> [] \<and> header request ''x-correlation-id'' \<noteq> [] \<and>
        as_device_id session = StrongId (header request ''x-hvc-device-id'') \<and>
        rq = \<lparr>rq_session = session, rq_device_id = StrongId (header request ''x-hvc-device-id''),
              rq_correlation_id = StrongId (header request ''x-correlation-id'')\<rparr>)"
  by (auto simp: request_session_def split: option.splits if_splits)

lemma handle_cases:
  assumes "handle a request now s = (response, s')"
  obtains (thrown) "s' = s" "400 \<le> hr_status_code response"
      "response = errorResponse 400 ''invalid_identifier'' ''An identifier is empty or invalid.'' \<or>
       response = errorResponse 500 ''internal_error'' ''The request could not be completed.''"
    | (health) "s' = s" "hq_target request = ''/api/v1/health''" "hq_method request = ''GET''"
        "dispatch a request now s = Inr (response, s')"
    | (session) "hq_target request = ''/api/v1/sessions''" "hq_method request = ''POST''"
        "createSession a request now s = Inr (response, s')"
    | (refused) "s' = s"
        "authenticateRequestSession (sp_find (ha_sessions a) (hs_store s)) request now =
           Inr (Inl response)"
    | (served) rq where
        "authenticateRequestSession (sp_find (ha_sessions a) (hs_store s)) request now = Inr (Inr rq)"
        "handle_session a request rq now s = Inr (response, s')"
proof (cases "dispatch a request now s")
  case (Inl e)
  then show thesis
    using assms thrown by (cases e) (auto simp: handle_def)
next
  case (Inr r)
  then have dispatched: "dispatch a request now s = Inr (response, s')"
    using assms by (simp add: handle_def)
  consider (ready) "hq_target request = ''/api/v1/health''" "hq_method request = ''GET''"
    | (create) "hq_target request = ''/api/v1/sessions''" "hq_method request = ''POST''"
    | (other) "\<not> (hq_target request = ''/api/v1/health'' \<and> hq_method request = ''GET'')"
        "\<not> (hq_target request = ''/api/v1/sessions'' \<and> hq_method request = ''POST'')"
    by blast
  then show thesis
  proof cases
    case ready
    then show thesis
      using dispatched by (intro health) (auto simp: dispatch_def answer_def split: if_splits)
  next
    case create
    then show thesis using dispatched by (intro session) (auto simp: dispatch_def)
  next
    case other
    then obtain authenticated where
      "authenticateRequestSession (sp_find (ha_sessions a) (hs_store s)) request now =
         Inr authenticated"
      "(case authenticated of Inl response \<Rightarrow> answer response s
        | Inr rq \<Rightarrow> handle_session a request rq now s) = Inr (response, s')"
      using dispatched by (auto simp: dispatch_def throws_bind_Inr_iff)
    then show thesis
      using refused served by (cases authenticated) (auto simp: answer_def)
  qed
qed

text \<open>
  C10: nothing happens without a session. Apart from the health check and the creation of a
  session, a request that changes the server's state or is answered with anything but an error
  carries the identifier of a session that is stored, has not expired, and belongs to the device
  the request names.
\<close>

theorem request_needs_session:
  assumes "handle a request now s = (response, s')"
    and "(hq_target request, hq_method request) \<notin>
           {(''/api/v1/health'', ''GET''), (''/api/v1/sessions'', ''POST'')}"
    and "s' \<noteq> s \<or> hr_status_code response < 400"
  shows "\<exists>token session. authorizationValue request ''Session '' = Some token \<and>
     sp_find (ha_sessions a) (hs_store s) (StrongId token) = Some session \<and>
     activeAt session now \<and>
     as_device_id session = StrongId (header request ''x-hvc-device-id'')"
  using assms(1)
proof (cases rule: handle_cases)
  case refused
  then show ?thesis using unauthenticated_status [OF refused(2)] assms(3) by auto
next
  case (served rq)
  then show ?thesis
    using authenticated_session [OF served(1)] unfolding request_session_iff by blast
qed (use assms(2,3) in auto)

section \<open>Effects on the store\<close>

text \<open>The operations of the store a request may lead to, and the events it may add to the audit log.\<close>

inductive store_served ::
  "'m membership_repo \<Rightarrow> (StoreOp \<Rightarrow> bool) \<Rightarrow> 'm Store \<Rightarrow> 'm Store \<Rightarrow> bool"
  for repo :: "'m membership_repo" and allowed :: "StoreOp \<Rightarrow> bool" where
  unserved: "store_served repo allowed s s"
| oper: "store_served repo allowed s s' \<Longrightarrow> allowed oper \<Longrightarrow>
     store_served repo allowed s (store_step repo oper s')"
| audit: "store_served repo allowed s s' \<Longrightarrow>
     store_served repo allowed s (s'\<lparr>sto_audit := events\<rparr>)"

fun membership_op :: "StoreOp \<Rightarrow> bool" where
  "membership_op (Do_updateMembership p ctx now corr change) = True"
| "membership_op (Do_removeMembership p now corr) = True"
| "membership_op _ = False"

lemma served_one: "allowed oper \<Longrightarrow> store_served repo allowed s (store_step repo oper s)"
  by (rule store_served.oper [OF store_served.unserved])

lemma served_record:
  "store_served repo allowed s s' \<Longrightarrow> store_served repo allowed s (record_event ev s')"
  unfolding record_event_def by (auto intro: store_served.audit)

lemma served_record_defs:
  assumes "store_served repo allowed s s'"
  shows "store_served repo allowed s (recordStartRejected cmd1 now e1 p s')"
    and "store_served repo allowed s (recordEndRejected cmd2 now e2 p s')"
    and "store_served repo allowed s (recordModerationRejected cmd3 now e3 p s')"
    and "store_served repo allowed s (recordStarted t s')"
    and "store_served repo allowed s (recordEnded e s')"
    and "store_served repo allowed s (recordForcedInterruption e oper p s')"
  by (simp_all add: record_defs served_record assms)

lemma served_start:
  "store_served repo (\<lambda>x. \<not> membership_op x) (sv_store v)
     (sv_store (snd (start repo next_id cmd now v)))"
proof -
  have activated: "store_served repo (\<lambda>x. \<not> membership_op x) (sv_store v) s"
    if "activate repo au sid dev now (sv_store v) = (r, s)" for au sid dev r s
    using served_one [of "\<lambda>x. \<not> membership_op x" "Do_activate au sid dev now" repo "sv_store v"] that
    by simp
  show ?thesis
    by (auto simp: start_def reject_start_def Let_def store_served.unserved
        split: option.splits sum.splits prod.splits
        intro!: served_record_defs dest!: activated)
qed

lemma served_end:
  "store_served repo (\<lambda>x. \<not> membership_op x) (sv_store v) (sv_store (snd (end_service cmd now v)))"
proof -
  have ended: "store_served repo (\<lambda>x. \<not> membership_op x) (sv_store v) s"
    if "end_transmission tid sid dev reason now corr (sv_store v) = (r, s)" for tid sid dev reason corr r s
    using served_one [of "\<lambda>x. \<not> membership_op x" "Do_end tid sid dev reason now corr" repo "sv_store v"]
      that by simp
  show ?thesis
    by (auto simp: end_service_def reject_end_def Let_def store_served.unserved
        split: option.splits sum.splits prod.splits
        intro!: served_record_defs dest!: ended)
qed

lemma served_moderation:
  "store_served repo (\<lambda>x. \<not> membership_op x) (sv_store v)
     (sv_store (snd (interruptForModeration can cmd now v)))"
proof -
  have interrupted: "store_served repo (\<lambda>x. \<not> membership_op x) (sv_store v) s"
    if "interrupt_transmission tid reason now corr (sv_store v) = (r, s)" for tid reason corr r s
    using served_one [of "\<lambda>x. \<not> membership_op x" "Do_interrupt tid reason now corr" repo "sv_store v"]
      that by simp
  show ?thesis
    by (auto simp: interruptForModeration_def reject_moderation_def Let_def store_served.unserved
        split: option.splits sum.splits prod.splits
        intro!: served_record_defs dest!: interrupted)
qed

lemma hs_store_simps [simp]:
  "hs_store (with_store store s) = store"
  "hs_store (s\<lparr>hs_directory := d\<rparr>) = hs_store s"
  "hs_store (s\<lparr>hs_identity := i\<rparr>) = hs_store s"
  "hs_store (s\<lparr>hs_service := v\<rparr>) = sv_store v"
  by (simp_all add: with_store_def)

lemma answer_iff [simp]: "answer response s = Inr (response', s') \<longleftrightarrow> response' = response \<and> s' = s"
  by (auto simp: answer_def)

lemma on_directory_store: "on_directory read s = Inr (response, s') \<Longrightarrow> hs_store s' = hs_store s"
  by (auto simp: on_directory_def throws_bind_Inr_iff split: option.splits)

text \<open>The operations on the membership of one player.\<close>

fun membership_op_of :: "PlayerId \<Rightarrow> StoreOp \<Rightarrow> bool" where
  "membership_op_of subject (Do_updateMembership p ctx now corr change) = (p = subject)"
| "membership_op_of subject (Do_removeMembership p now corr) = (p = subject)"
| "membership_op_of subject _ = False"

lemma answer_sum:
  "(case r of Inl e \<Rightarrow> answer (f e) s | Inr t \<Rightarrow> answer (g t) s) =
     answer (case r of Inl e \<Rightarrow> f e | Inr t \<Rightarrow> g t) s"
  by (cases r) simp_all

lemma if_elim:
  "(if c then x else y) = r \<Longrightarrow> (c \<Longrightarrow> x = r \<Longrightarrow> P) \<Longrightarrow> (\<not> c \<Longrightarrow> y = r \<Longrightarrow> P) \<Longrightarrow> P"
  by (simp split: if_splits)

lemma served_started:
  assumes "startTransmissionResponse a rq body now s = Inr (response, s')"
  shows "store_served (ha_memberships a) (\<lambda>x. \<not> membership_op x) (hs_store s) (hs_store s')"
  using assms
  by (auto simp: startTransmissionResponse_def Let_def throws_bind_Inr_iff store_served.unserved
      case_prod_beta answer_sum served_start split: if_splits option.splits)

lemma served_ended:
  assumes "endTransmissionResponse rq tid now s = Inr (response, s')"
  shows "store_served repo (\<lambda>x. \<not> membership_op x) (hs_store s) (hs_store s')"
  using assms
  by (auto simp: endTransmissionResponse_def Let_def throws_bind_Inr_iff case_prod_beta answer_sum
      served_end)

lemma served_moderated:
  assumes "moderateTransmissionResponse a rq tid now s = Inr (response, s')"
  shows "store_served repo (\<lambda>x. \<not> membership_op x) (hs_store s) (hs_store s')"
  using assms
  by (auto simp: moderateTransmissionResponse_def Let_def throws_bind_Inr_iff case_prod_beta
      answer_sum served_moderation)

lemma served_replacement:
  "store_served (ha_memberships a) (membership_op_of subject) (hs_store s)
     (snd (replaceMembership (ha_memberships a) subject ctx now corr (hs_store s)))"
  using served_one [of "membership_op_of subject"
      "Do_updateMembership subject ctx now corr Change_membership_changed" "ha_memberships a"
      "hs_store s"]
  by (simp add: replaceMembership_def)

lemma served_committed:
  assumes "commit_replacement a rq subject version replacement now s = Inr (response, s')"
  shows "store_served (ha_memberships a) (membership_op_of subject) (hs_store s) (hs_store s')"
proof (cases replacement)
  case (Inl e)
  with assms show ?thesis
    by (cases e) (auto simp: commit_replacement_def store_served.unserved)
next
  case (Inr ctx)
  with assms show ?thesis
    by (auto simp: commit_replacement_def Let_def case_prod_beta answer_sum served_replacement)
qed

lemma served_replaced:
  assumes "replaceMembershipResponse a rq subject body now s = Inr (response, s')"
  shows "store_served (ha_memberships a) (membership_op_of subject) (hs_store s) (hs_store s')"
  using assms
  by (auto simp: replaceMembershipResponse_def Let_def throws_bind_Inr_iff store_served.unserved
      split: if_splits option.splits dest: served_committed)

lemma served_administration:
  assumes "handle_administration a request subject_value rq now s = Inr (response, s')"
  shows "s' = s \<or>
     (\<exists>authorizer. ha_authorizer a = Some authorizer \<and> subject_value \<noteq> [] \<and>
        (hq_method request = ''DELETE'' \<and>
           aa_canRemove authorizer (hs_store s) (as_player_id (rq_session rq)) (StrongId subject_value) \<or>
         hq_method request = ''PUT'' \<and>
           aa_canReplace authorizer (hs_store s) (as_player_id (rq_session rq)) (StrongId subject_value)) \<and>
        store_served (ha_memberships a) (membership_op_of (StrongId subject_value)) (hs_store s)
          (hs_store s'))"
proof -
  have removed: "store_served (ha_memberships a) (membership_op_of p) (hs_store s) store"
    if "removeMembership (ha_memberships a) p now corr (hs_store s) = (r, store)" for p corr r store
    using served_one [of "membership_op_of p" "Do_removeMembership p now corr" "ha_memberships a"
        "hs_store s"] that by simp
  show ?thesis
    using assms
    by (auto simp: handle_administration_def Let_def throws_bind_Inr_iff StrongId_ctor_def
        split: if_splits option.splits prod.splits dest!: removed served_replaced)
qed

definition program_port :: "'m SessionPort \<Rightarrow> bool" where
  "program_port port \<longleftrightarrow> port = store_sessions \<or> port = persistent_sessions"

lemma served_upsert:
  assumes "program_port port"
  shows "store_served repo (\<lambda>x. \<not> membership_op x) s (sp_upsert port x s)"
  using assms unfolding program_port_def
proof
  assume "port = store_sessions"
  then show ?thesis
    using served_one [of "\<lambda>x. \<not> membership_op x" "Do_upsertSession x" repo s]
    by (simp add: store_sessions_def)
next
  assume p: "port = persistent_sessions"
  show ?thesis
  proof (cases "sto_persistent_sessions s")
    case None
    then show ?thesis by (simp add: p persistent_sessions_def store_served.unserved)
  next
    case (Some f)
    then show ?thesis
      using served_one [of "\<lambda>x. \<not> membership_op x"
          "External_sessions (f(as_session_id x \<mapsto> x))" repo s] p
      by (simp add: persistent_sessions_def)
  qed
qed

lemma served_accepted:
  assumes "program_port (ha_sessions a)"
  shows "store_served repo (\<lambda>x. \<not> membership_op x) (hs_store s)
     (hs_store (snd (accept_session a device_id now result s)))"
  by (cases result)
    (simp_all add: accept_session_def store_served.unserved served_upsert [OF assms])

lemma served_created:
  assumes "createSession a request now s = Inr (response, s')" and "program_port (ha_sessions a)"
  shows "store_served repo (\<lambda>x. \<not> membership_op x) (hs_store s) (hs_store s')"
proof -
  have accepted: "store_served repo (\<lambda>x. \<not> membership_op x) (hs_store s) (hs_store s')"
    if "accept_session a device_id now result (s\<lparr>hs_identity := i\<rparr>) = (response, s')"
    for device_id result i
    using served_accepted [OF assms(2), of repo "s\<lparr>hs_identity := i\<rparr>" device_id now result] that
    by simp
  show ?thesis
    using assms(1)
    by (auto simp: createSession_def Let_def throws_bind_Inr_iff case_prod_beta
        store_served.unserved split: option.splits if_splits dest: accepted)
qed

lemma served_reads:
  "handle_directory a request rq s = Inr (response, s') \<Longrightarrow> hs_store s' = hs_store s"
  "handle_presence a request rq now s = Inr (response, s') \<Longrightarrow> hs_store s' = hs_store s"
  "handle_voice_grants a request rq now s = Inr (response, s') \<Longrightarrow> hs_store s' = hs_store s"
  by (auto simp: handle_directory_def handle_presence_def handle_voice_grants_def
      split: if_splits option.splits sum.splits dest: on_directory_store)

lemma served_transmission:
  assumes "handle_transmission a request path rq now s = Inr (response, s')"
  shows "store_served repo (\<lambda>x. \<not> membership_op x) (hs_store s) (hs_store s')"
  using assms unfolding handle_transmission_def Let_def
  by (simp split: if_split_asm add: store_served.unserved served_ended served_moderated)

text \<open>The session route that changes the store, and how.\<close>

lemma served_session:
  assumes "handle_session a request rq now s = Inr (response, s')"
  shows "store_served (ha_memberships a) (\<lambda>x. \<not> membership_op x) (hs_store s) (hs_store s') \<or>
     (\<exists>subject authorizer. hq_target request = membership_admin_prefix @ id_value subject \<and>
        ha_authorizer a = Some authorizer \<and>
        (hq_method request = ''DELETE'' \<and>
           aa_canRemove authorizer (hs_store s) (as_player_id (rq_session rq)) subject \<or>
         hq_method request = ''PUT'' \<and>
           aa_canReplace authorizer (hs_store s) (as_player_id (rq_session rq)) subject) \<and>
        store_served (ha_memberships a) (membership_op_of subject) (hs_store s) (hs_store s'))"
proof (cases "starts_with membership_admin_prefix (hq_target request) \<and>
    hq_target request \<noteq> ''/api/v1/directory'' \<and>
    \<not> starts_with ''/api/v1/directory/presence'' (hq_target request)")
  case True
  then obtain subject_value where target: "hq_target request = membership_admin_prefix @ subject_value"
    by (auto simp: starts_with_iff)
  then have "handle_administration a request subject_value rq now s = Inr (response, s')"
    using assms True by (simp add: handle_session_def Let_def)
  from served_administration [OF this] target show ?thesis
    by (auto simp: store_served.unserved intro!: exI [of _ "StrongId subject_value"])
next
  case False
  have "starts_with membership_admin_prefix (hq_target request) \<Longrightarrow>
      hq_target request \<noteq> ''/api/v1/directory'' \<and>
      \<not> starts_with ''/api/v1/directory/presence'' (hq_target request)"
    by (auto simp: starts_with_iff membership_admin_prefix_def)
  with False have other: "\<not> starts_with membership_admin_prefix (hq_target request)" by blast
  have started: "store_served (ha_memberships a) (\<lambda>x. \<not> membership_op x) (hs_store s) (hs_store s')"
    if "(case parsed of None \<Rightarrow> answer r s
         | Some body \<Rightarrow> startTransmissionResponse a rq body now s) = Inr (response, s')" for parsed r
    using that by (cases parsed) (simp_all add: store_served.unserved served_started)
  have not_found: "store_served (ha_memberships a) (\<lambda>x. \<not> membership_op x) (hs_store s) (hs_store s')"
    if "answer r s = Inr (response, s')" for r
    using that by (simp add: store_served.unserved)
  have "store_served (ha_memberships a) (\<lambda>x. \<not> membership_op x) (hs_store s) (hs_store s')"
    using assms other unfolding handle_session_def Let_def
    by (elim if_elim)
      (simp_all add: store_served.unserved served_reads served_transmission started not_found del: answer_iff)
  then show ?thesis ..
qed

text \<open>Everything a request does to the store.\<close>

lemma served_request:
  assumes "handle a request now s = (response, s')" and "program_port (ha_sessions a)"
  shows "store_served (ha_memberships a) (\<lambda>x. \<not> membership_op x) (hs_store s) (hs_store s') \<or>
     (\<exists>subject authorizer rq. hq_target request = membership_admin_prefix @ id_value subject \<and>
        ha_authorizer a = Some authorizer \<and>
        request_session (sp_find (ha_sessions a) (hs_store s)) request now = Some rq \<and>
        (hq_method request = ''DELETE'' \<and>
           aa_canRemove authorizer (hs_store s) (as_player_id (rq_session rq)) subject \<or>
         hq_method request = ''PUT'' \<and>
           aa_canReplace authorizer (hs_store s) (as_player_id (rq_session rq)) subject) \<and>
        store_served (ha_memberships a) (membership_op_of subject) (hs_store s) (hs_store s'))"
  using assms(1)
proof (cases rule: handle_cases)
  case session
  then show ?thesis using served_created [OF session(3) assms(2)] by blast
next
  case (served rq)
  then show ?thesis using served_session [OF served(2)] authenticated_session [OF served(1)] by blast
qed (simp_all add: store_served.unserved)

lemma audit_frame [simp]:
  "currentMembershipLocked repo (s\<lparr>sto_audit := events\<rparr>) = currentMembershipLocked repo s"
  "memberships_ok ok (s\<lparr>sto_audit := events\<rparr>) = memberships_ok ok s"
  by (simp_all add: currentMembershipLocked_def memberships_ok_def fun_eq_iff split: option.splits)

lemma store_inv_audit [simp]: "store_inv repo ok (s\<lparr>sto_audit := events\<rparr>) = store_inv repo ok s"
  by (simp add: store_inv_def transmission_current_def)

context membership_repo_laws
begin

lemma served_inv: "store_served repo allowed s s' \<Longrightarrow> store_inv repo ok s \<Longrightarrow> store_inv repo ok s'"
  by (induction rule: store_served.induct) (simp_all add: inv_step)

lemma served_current:
  assumes "store_served repo allowed s s'" and "store_inv repo ok s"
    and "\<And>x. allowed x \<Longrightarrow> \<not> membership_op x \<or> (\<exists>p. membership_op_of p x \<and> p \<noteq> player)"
  shows "currentMembershipLocked repo s' player = currentMembershipLocked repo s player"
  using assms(1,2)
proof (induction rule: store_served.induct)
  case (oper s s' oper)
  have "memberships_ok ok s'"
    using served_inv [OF oper.hyps(1) oper.prems] by (rule inv_memberships_ok)
  from store_step_current [OF this, of oper] show ?case
    using oper.IH [OF oper.prems] assms(3) [OF oper.hyps(2)] by (cases oper) auto
qed simp_all

end

text \<open>
  C11: only an administrator changes a membership. With the authorizer of the deployment, if after a
  request the current membership of any player is not what it was before, then the request is a
  replacement or a removal on that player's administrative path, and the player of its live session
  holds the administrator role in the current membership.
\<close>

theorem administration_needs_role:
  assumes "membership_repo_laws (ha_memberships a) ok"
    and "store_inv (ha_memberships a) ok (hs_store s)" and "program_port (ha_sessions a)"
    and "ha_authorizer a = Some (role_authorizer (ha_memberships a))"
    and "handle a request now s = (response, s')"
    and "provider a s' player \<noteq> provider a s player"
  shows "hq_target request = membership_admin_prefix @ id_value player \<and>
     (hq_method request = ''PUT'' \<or> hq_method request = ''DELETE'') \<and>
     (\<exists>rq ctx m. request_session (sp_find (ha_sessions a) (hs_store s)) request now = Some rq \<and>
        provider a s (as_player_id (rq_session rq)) = Some ctx \<and>
        snapshot_find (mc_snapshot ctx) (as_player_id (rq_session rq)) = Some m \<and>
        StrongId ''administrator'' \<in> set (vm_role_ids m))"
proof -
  note unchanged = membership_repo_laws.served_current [OF assms(1) _ assms(2)]
  have not_other: "\<not> store_served (ha_memberships a) (\<lambda>x. \<not> membership_op x) (hs_store s) (hs_store s')"
    using assms(6) unchanged [of "\<lambda>x. \<not> membership_op x" "hs_store s'" player]
    by (auto simp: provider_def)
  then obtain subject rq where served:
      "hq_target request = membership_admin_prefix @ id_value subject"
      "request_session (sp_find (ha_sessions a) (hs_store s)) request now = Some rq"
      "hq_method request = ''PUT'' \<or> hq_method request = ''DELETE''"
      "hasRole (ha_memberships a) (hs_store s) (as_player_id (rq_session rq)) ''administrator''"
      "store_served (ha_memberships a) (membership_op_of subject) (hs_store s) (hs_store s')"
    using served_request [OF assms(5,3)] assms(4) by (auto simp: role_authorizer_def)
  have "subject = player"
    using assms(6) unchanged [OF served(5), of player] by (auto simp: provider_def)
  moreover have "\<exists>ctx m. provider a s (as_player_id (rq_session rq)) = Some ctx \<and>
      snapshot_find (mc_snapshot ctx) (as_player_id (rq_session rq)) = Some m \<and>
      StrongId ''administrator'' \<in> set (vm_role_ids m)"
    using served(4)
    by (auto simp: hasRole_def provider_def list_ex_iff split: option.splits)
      (metis StrongId.collapse)
  ultimately show ?thesis using served by blast
qed

section \<open>Sessions\<close>

lemma created_session:
  assumes "createSession a request now s = Inr (response, s')" and "hr_status_code response = 201"
  obtains credential session i where
    "authorizationValue request ''Bearer '' = Some credential"
    "header request ''x-hvc-device-id'' \<noteq> []"
    "ha_authenticate a \<lparr>ac_credential = credential,
        ac_device_id = StrongId (header request ''x-hvc-device-id''),
        ac_correlation_id = StrongId (header request ''x-correlation-id'')\<rparr> now (hs_identity s) =
       (Inr session, i)"
    "as_device_id session = StrongId (header request ''x-hvc-device-id'')" "activeAt session now"
    "response = jsonResponse 201 (session_text session)"
    "s' = with_store (sp_upsert (ha_sessions a) session (hs_store s)) (s\<lparr>hs_identity := i\<rparr>)"
proof -
  obtain credential where credential: "authorizationValue request ''Bearer '' = Some credential"
    and headers: "header request ''x-hvc-device-id'' \<noteq> []" "header request ''x-correlation-id'' \<noteq> []"
      "hq_body request = []"
    using assms by (auto simp: createSession_def Let_def split: option.splits if_splits)
  obtain result i where result: "ha_authenticate a \<lparr>ac_credential = credential,
        ac_device_id = StrongId (header request ''x-hvc-device-id''),
        ac_correlation_id = StrongId (header request ''x-correlation-id'')\<rparr> now (hs_identity s) =
       (result, i)" by fastforce
  have accepted: "accept_session a (StrongId (header request ''x-hvc-device-id'')) now result
      (s\<lparr>hs_identity := i\<rparr>) = (response, s')"
    using assms(1) credential headers result by (simp add: createSession_def StrongId_ctor_def Let_def)
  have not_created: "hr_status_code (authenticationError e) \<noteq> 201" for e by (cases e) simp_all
  obtain session where session: "result = Inr session"
    "as_device_id session = StrongId (header request ''x-hvc-device-id'')" "activeAt session now"
    using accepted assms(2) not_created
    by (auto simp: accept_session_def split: sum.split_asm if_split_asm)
  show thesis
  proof (rule that)
    show "ha_authenticate a \<lparr>ac_credential = credential,
        ac_device_id = StrongId (header request ''x-hvc-device-id''),
        ac_correlation_id = StrongId (header request ''x-correlation-id'')\<rparr> now (hs_identity s) =
       (Inr session, i)" using result session by simp
    show "response = jsonResponse 201 (session_text session)"
      "s' = with_store (sp_upsert (ha_sessions a) session (hs_store s)) (s\<lparr>hs_identity := i\<rparr>)"
      using accepted session by (auto simp: accept_session_def)
  qed (use credential headers session in simp_all)
qed

text \<open>
  A session that was created serves its device. When the server answers 201 to a session
  request, the authenticator accepted that credential for that device and issued a live session;
  from then on a request that carries the session's identifier, the same device and any
  correlation identifier is authenticated as that session until it expires, and every other
  stored session is found as before.
\<close>

theorem created_session_serves_its_device:
  assumes "createSession a request now s = Inr (response, s')"
    and "hr_status_code response = 201"
    and "ha_sessions a = store_sessions \<or>
         ha_sessions a = persistent_sessions \<and> sto_persistent_sessions (hs_store s) \<noteq> None"
  shows "\<exists>credential session i.
     authorizationValue request ''Bearer '' = Some credential \<and>
     ha_authenticate a \<lparr>ac_credential = credential,
         ac_device_id = StrongId (header request ''x-hvc-device-id''),
         ac_correlation_id = StrongId (header request ''x-correlation-id'')\<rparr> now (hs_identity s) =
       (Inr session, i) \<and> activeAt session now \<and>
     (\<forall>later later_request.
        activeAt session later \<and>
        authorizationValue later_request ''Session '' = Some (id_value (as_session_id session)) \<and>
        header later_request ''x-hvc-device-id'' = header request ''x-hvc-device-id'' \<and>
        header later_request ''x-correlation-id'' \<noteq> [] \<longrightarrow>
        authenticateRequestSession (sp_find (ha_sessions a) (hs_store s')) later_request later =
          Inr (Inr \<lparr>rq_session = session, rq_device_id = as_device_id session,
                    rq_correlation_id = StrongId (header later_request ''x-correlation-id'')\<rparr>)) \<and>
     (\<forall>sid. sid \<noteq> as_session_id session \<longrightarrow>
        sp_find (ha_sessions a) (hs_store s') sid = sp_find (ha_sessions a) (hs_store s) sid)"
  using assms(1,2)
proof (rule created_session)
  fix credential session i
  assume created: "authorizationValue request ''Bearer '' = Some credential"
    "header request ''x-hvc-device-id'' \<noteq> []"
    "ha_authenticate a \<lparr>ac_credential = credential,
        ac_device_id = StrongId (header request ''x-hvc-device-id''),
        ac_correlation_id = StrongId (header request ''x-correlation-id'')\<rparr> now (hs_identity s) =
       (Inr session, i)"
    "as_device_id session = StrongId (header request ''x-hvc-device-id'')" "activeAt session now"
    "s' = with_store (sp_upsert (ha_sessions a) session (hs_store s)) (s\<lparr>hs_identity := i\<rparr>)"
  have stored: "hs_store s' = sp_upsert (ha_sessions a) session (hs_store s)"
    using created(6) by simp
  from assms(3) show ?thesis
  proof
    assume "ha_sessions a = store_sessions"
    with stored in_memory.stored_session_serves [OF TrueI created(4,2), of "hs_store s"]
    show ?thesis using created(1,3,5) by fastforce
  next
    assume port: "ha_sessions a = persistent_sessions \<and> sto_persistent_sessions (hs_store s) \<noteq> None"
    then have "sto_persistent_sessions (hs_store s) \<noteq> None" by blast
    from persistent.stored_session_serves [OF this created(4,2)] stored port
    show ?thesis using created(1,3,5) by fastforce
  qed
qed

section \<open>Runs of the server\<close>

text \<open>
  Requests, and the maintenance thread of \<open>apps/control-plane/src/main.cpp\<close>: it expires
  transmissions, and removes expired sessions from the store and from the session repository.
\<close>

inductive server_reachable ::
  "('m, 'g, 'i) HttpAdapter \<Rightarrow> ('m, 'g, 'i) HttpState \<Rightarrow> ('m, 'g, 'i) HttpState \<Rightarrow> bool"
  for a :: "('m, 'g, 'i) HttpAdapter" and s0 :: "('m, 'g, 'i) HttpState" where
  serving: "server_reachable a s0 s0"
| request: "server_reachable a s0 s \<Longrightarrow> server_reachable a s0 (snd (handle a req now s))"
| timeouts: "server_reachable a s0 s \<Longrightarrow>
     server_reachable a s0 (s\<lparr>hs_service := snd (expire_service now corr (hs_service s))\<rparr>)"
| cleanup: "server_reachable a s0 s \<Longrightarrow>
     server_reachable a s0 (with_store (snd (removeSession sid now corr (hs_store s))) s)"
| erased: "server_reachable a s0 s \<Longrightarrow> sto_persistent_sessions (hs_store s) = Some f \<Longrightarrow>
     server_reachable a s0
       (with_store ((hs_store s)\<lparr>sto_persistent_sessions := Some (f(sid := None))\<rparr>) s)"

lemma served_timeouts:
  "store_served repo (\<lambda>x. \<not> membership_op x) (sv_store v) (sv_store (snd (expire_service now corr v)))"
proof -
  have recorded: "store_served repo allowed s (record_timeouts es s')"
    if "store_served repo allowed s s'" for allowed s s' es
    using that
    by (induction es arbitrary: s') (simp_all add: served_record_defs)
  have "store_served repo (\<lambda>x. \<not> membership_op x) (sv_store v)
      (snd (expireTimedOut (sv_maximum_duration v) now corr (sv_store v)))"
    using served_one [of "\<lambda>x. \<not> membership_op x" "Do_expire (sv_maximum_duration v) now corr" repo
        "sv_store v"] by simp
  then show ?thesis by (simp add: expire_service_def case_prod_beta recorded)
qed

lemma server_reachable_inv:
  assumes "membership_repo_laws (ha_memberships a) ok" and "program_port (ha_sessions a)"
    and "store_inv (ha_memberships a) ok (hs_store s0)" and "server_reachable a s0 s"
  shows "store_inv (ha_memberships a) ok (hs_store s)"
  using assms(4)
proof induction
  case serving
  show ?case by (rule assms(3))
next
  case (request s req now)
  obtain response s' where h: "handle a req now s = (response, s')" by fastforce
  from served_request [OF h assms(2)] show ?case
    using membership_repo_laws.served_inv [OF assms(1) _ request.IH] h by auto
next
  case (timeouts s now corr)
  then show ?case
    using membership_repo_laws.served_inv [OF assms(1) served_timeouts] by simp
next
  case (cleanup s sid now corr)
  then show ?case
    using membership_repo_laws.inv_step [OF assms(1), of "hs_store s" "Do_removeSession sid now corr"]
    by simp
next
  case (erased s f sid)
  then show ?case
    using membership_repo_laws.inv_step [OF assms(1), of "hs_store s" "External_sessions (f(sid := None))"]
    by simp
qed

lemma inv_active:
  assumes "store_inv repo ok s" and "active s tid = Some t"
  shows "at_id t = tid \<and> transmission_current repo s t \<and>
     (\<forall>tid' t'. active s tid' = Some t' \<and> at_sender t' = at_sender t \<longrightarrow> tid' = tid)"
proof (intro conjI allI impI)
  have listed: "(i, u) \<in> set (sto_active s)" if "active s i = Some u" for i u
    using that by (simp add: active_def map_of_SomeD)
  have each: "\<And>e. e \<in> set (sto_active s) \<Longrightarrow>
      at_id (snd e) = fst e \<and> transmission_current repo s (snd e)"
    and unique: "\<And>e e'. e \<in> set (sto_active s) \<Longrightarrow> e' \<in> set (sto_active s) \<Longrightarrow>
      at_sender (snd e) = at_sender (snd e') \<Longrightarrow> e = e'"
    using assms(1) unfolding store_inv_def by blast+
  show "at_id t = tid" "transmission_current repo s t" using each [OF listed [OF assms(2)]] by simp_all
  fix tid' t' assume "active s tid' = Some t' \<and> at_sender t' = at_sender t"
  then show "tid' = tid" using unique [OF listed listed [OF assms(2)]] by fastforce
qed

text \<open>
  C9: the server keeps what the store promises. However requests of any kind and the maintenance
  follow each other on a freshly constructed store, every transmission active in it was authorized
  under the membership that is current for its sender, no player transmits twice, and the
  lifecycle observer, when there is one, believes live exactly the active transmissions, also when
  none is active.
\<close>

theorem served_transmissions_are_current:
  assumes "membership_repo_laws (ha_memberships a) ok" and "program_port (ha_sessions a)"
    and "fresh_store_ok ok mem" and "hs_store s0 = Store_ctor audit obs sess mem"
    and "server_reachable a s0 s"
  shows "(\<forall>tid t. active (hs_store s) tid = Some t \<longrightarrow>
       at_id t = tid \<and> transmission_current (ha_memberships a) (hs_store s) t \<and>
       (\<forall>tid' t'. active (hs_store s) tid' = Some t' \<and> at_sender t' = at_sender t \<longrightarrow> tid' = tid)) \<and>
     (sto_observer (hs_store s) \<noteq> None \<longrightarrow>
        observer_view (sto_calls (hs_store s)) = snd ` set (sto_active (hs_store s)))"
proof -
  have "store_inv (ha_memberships a) ok (hs_store s0)"
    using reachable_inv [OF assms(1,3) store_reachable.reach_start, of audit obs sess] assms(4) by simp
  from server_reachable_inv [OF assms(1,2) this assms(5)]
  have inv: "store_inv (ha_memberships a) ok (hs_store s)" .
  then have "sto_observer (hs_store s) \<noteq> None \<longrightarrow>
      observer_view (sto_calls (hs_store s)) = snd ` set (sto_active (hs_store s))"
    unfolding store_inv_def by blast
  with inv_active [OF inv] show ?thesis by blast
qed

end
