(* ===== verification/Client_Json.thy ===== *)
theory Client_Json
  imports Json_Text
begin

text \<open>
  The JSON codec of the client (\<open>libs/client/src/control_plane_client.cpp\<close>): a recursive-descent
  parser for whole documents and the escaping of request strings, which throws on a control
  character it has no short escape for. The parser's methods call each other and a value may nest
  to any depth; they are defined with a bound on the number of calls, and the last section shows
  that the bound \<open>parse\<close> starts with is never reached.
\<close>

section \<open>Values\<close>

datatype JsonValue =
    JNull
  | JString string
  | JUnsigned u64
  | JBoolean bool
  | JObject "(string, JsonValue) std_map"
  | JArray "JsonValue list"

datatype JsonType = Json_null | Json_string | Json_unsigned | Json_boolean | Json_object | Json_array

fun json_type :: "JsonValue \<Rightarrow> JsonType" where
  "json_type JNull = Json_null"
| "json_type (JString _) = Json_string"
| "json_type (JUnsigned _) = Json_unsigned"
| "json_type (JBoolean _) = Json_boolean"
| "json_type (JObject _) = Json_object"
| "json_type (JArray _) = Json_array"

definition json_field :: "JsonValue \<Rightarrow> string \<Rightarrow> JsonType \<Rightarrow> JsonValue option" where
  "json_field object name ty =
     (case object of
        JObject fields \<Rightarrow>
          (case map_of fields name of
             None \<Rightarrow> None
           | Some v \<Rightarrow> if json_type v \<noteq> ty then None else Some v)
      | _ \<Rightarrow> None)"

section \<open>Strings\<close>

definition isspace :: "char \<Rightarrow> bool" where
  "isspace c \<longleftrightarrow> byte c = 32 \<or> (9 \<le> byte c \<and> byte c \<le> 13)"

definition skip_space :: "string \<Rightarrow> string" where
  "skip_space s = dropWhile isspace s"

definition consume :: "char \<Rightarrow> string \<Rightarrow> string option" where
  "consume expected s =
     (case s of [] \<Rightarrow> None | c # r \<Rightarrow> if c \<noteq> expected then None else Some r)"

definition hex_value :: "char \<Rightarrow> u16 option" where
  "hex_value c =
     (if byte (CHR ''0'') \<le> byte c \<and> byte c \<le> byte (CHR ''9'')
      then Some (word_of_nat (byte c - byte (CHR ''0'')))
      else if byte (CHR ''a'') \<le> byte c \<and> byte c \<le> byte (CHR ''f'')
      then Some (word_of_nat (byte c - byte (CHR ''a'') + 10))
      else if byte (CHR ''A'') \<le> byte c \<and> byte c \<le> byte (CHR ''F'')
      then Some (word_of_nat (byte c - byte (CHR ''A'') + 10))
      else None)"

fun hex_digits :: "nat \<Rightarrow> string \<Rightarrow> u16 \<Rightarrow> (u16 \<times> string) option" where
  "hex_digits 0 s v = Some (v, s)"
| "hex_digits (Suc n) [] v = None"
| "hex_digits (Suc n) (c # s) v =
     (case hex_value c of None \<Rightarrow> None | Some d \<Rightarrow> hex_digits n s (push_bit 4 v + d))"

definition parseHexCodeUnit :: "string \<Rightarrow> (u16 \<times> string) option" where
  "parseHexCodeUnit s = (if length s < 4 then None else hex_digits 4 s 0)"

unbundle bit_operations_syntax

definition utf8_byte :: "u32 \<Rightarrow> char" where
  "utf8_byte v = char_of (unat v)"

definition utf8 :: "u32 \<Rightarrow> string" where
  "utf8 p =
     (if p \<le> 0x7F then [utf8_byte p]
      else if p \<le> 0x7FF
      then [utf8_byte (0xC0 OR drop_bit 6 p), utf8_byte (0x80 OR (p AND 0x3F))]
      else if p \<le> 0xFFFF
      then [utf8_byte (0xE0 OR drop_bit 12 p), utf8_byte (0x80 OR (drop_bit 6 p AND 0x3F)),
            utf8_byte (0x80 OR (p AND 0x3F))]
      else [utf8_byte (0xF0 OR drop_bit 18 p), utf8_byte (0x80 OR (drop_bit 12 p AND 0x3F)),
            utf8_byte (0x80 OR (drop_bit 6 p AND 0x3F)), utf8_byte (0x80 OR (p AND 0x3F))])"

definition escaped_code_point :: "string \<Rightarrow> (string \<times> string) option" where
  "escaped_code_point s =
     Option.bind (parseHexCodeUnit s) (\<lambda>(first, s1).
       if 0xD800 \<le> first \<and> first \<le> 0xDBFF
       then
         (case s1 of
            b # u # s2 \<Rightarrow>
              if b \<noteq> backslash \<or> u \<noteq> CHR ''u'' then None
              else Option.bind (parseHexCodeUnit s2) (\<lambda>(second, s3).
                if second < 0xDC00 \<or> 0xDFFF < second then None
                else Some (utf8 (0x10000 + (push_bit 10 (ucast (first - 0xD800)) OR
                                            ucast (second - 0xDC00))), s3))
          | _ \<Rightarrow> None)
       else if 0xDC00 \<le> first \<and> first \<le> 0xDFFF then None
       else Some (utf8 (ucast first), s1))"

definition client_unescape :: "string \<Rightarrow> (string \<times> string) option" where
  "client_unescape s =
     (case s of
        [] \<Rightarrow> None
      | e # r \<Rightarrow>
          if e \<in> {quote_char, backslash, CHR ''/''} then Some ([e], r)
          else if e = CHR ''b'' then Some ([CHR 0x08], r)
          else if e = CHR ''f'' then Some ([CHR 0x0C], r)
          else if e = CHR ''n'' then Some ([CHR 0x0A], r)
          else if e = CHR ''r'' then Some ([CHR 0x0D], r)
          else if e = CHR ''t'' then Some ([CHR 0x09], r)
          else if e = CHR ''u'' then escaped_code_point r
          else None)"

lemma hex_digits_rest: "hex_digits n s v = Some (x, r) \<Longrightarrow> length s = n + length r"
  by (induction n s v rule: hex_digits.induct) (auto split: option.splits)

lemma parseHexCodeUnit_rest: "parseHexCodeUnit s = Some (x, r) \<Longrightarrow> length s = 4 + length r"
  by (auto simp: parseHexCodeUnit_def dest: hex_digits_rest split: if_splits)

lemma escaped_code_point_shorter:
  "escaped_code_point s = Some (x, r) \<Longrightarrow> length r < length s"
  by (fastforce simp: escaped_code_point_def bind_eq_Some_conv
      dest: parseHexCodeUnit_rest split: if_splits list.splits)

lemma client_unescape_shorter: "client_unescape s = Some (x, r) \<Longrightarrow> length r < length s"
  by (auto simp: client_unescape_def split: list.splits if_splits dest: escaped_code_point_shorter)

function string_body :: "string \<Rightarrow> string \<Rightarrow> (string \<times> string) option" where
  "string_body [] v = None"
| "string_body (c # cs) v =
     (if c = quote_char then Some (v, cs)
      else if byte c < 0x20 then None
      else if c \<noteq> backslash then string_body cs (v @ [c])
      else
        (case client_unescape cs of
           None \<Rightarrow> None
         | Some (x, r) \<Rightarrow> string_body r (v @ x)))"
  by pat_completeness auto

termination
  by (relation "measure (length \<circ> fst)") (auto dest: client_unescape_shorter)

definition parse_string :: "string \<Rightarrow> (string \<times> string) option" where
  "parse_string s = Option.bind (consume quote_char (skip_space s)) (\<lambda>r. string_body r [])"

definition parse_unsigned :: "string \<Rightarrow> (JsonValue \<times> string) option" where
  "parse_unsigned s =
     (let digits = takeWhile is_digit s in
      if digits = [] \<or> (1 < length digits \<and> hd s = CHR ''0'') then None
      else case from_chars digits of
        Some (v, []) \<Rightarrow> Some (JUnsigned v, drop (length digits) s)
      | _ \<Rightarrow> None)"

lemma length_skip_space: "length (skip_space s) \<le> length s"
  by (simp add: skip_space_def length_dropWhile_le)

lemma consume_shorter: "consume c s = Some r \<Longrightarrow> length s = Suc (length r)"
  by (auto simp: consume_def split: list.splits if_splits)

lemma string_body_shorter: "string_body s v = Some (x, r) \<Longrightarrow> length r < length s"
proof (induction s v rule: string_body.induct)
  case (2 c cs v)
  then show ?case
    by (auto split: if_splits option.splits dest!: client_unescape_shorter intro: less_SucI)
      (metis less_SucI less_trans)
qed simp

lemma parse_string_shorter: "parse_string s = Some (x, r) \<Longrightarrow> length r < length s"
  using length_skip_space [of s]
  by (auto simp: parse_string_def bind_eq_Some_conv dest!: consume_shorter string_body_shorter)

lemma parse_unsigned_shorter: "parse_unsigned s = Some (x, r) \<Longrightarrow> length r < length s"
  by (cases s) (auto simp: parse_unsigned_def Let_def split: list.splits if_splits option.splits)

section \<open>Documents\<close>

text \<open>
  The three methods on the input left, with the number of calls allowed; \<open>None\<close> is a call too many,
  \<open>Some None\<close> the code's \<open>nullopt\<close>.
\<close>

type_synonym 'a bounded = "'a option option"

definition on_result :: "'a bounded \<Rightarrow> ('a \<Rightarrow> 'b bounded) \<Rightarrow> 'b bounded" where
  "on_result r f =
     (case r of None \<Rightarrow> None | Some None \<Rightarrow> Some None | Some (Some x) \<Rightarrow> f x)"

lemma on_result_cong [fundef_cong]:
  "r = r' \<Longrightarrow> (\<And>x. r' = Some (Some x) \<Longrightarrow> f x = f' x) \<Longrightarrow> on_result r f = on_result r' f'"
  by (auto simp: on_result_def split: option.splits)

fun parse_value :: "nat \<Rightarrow> string \<Rightarrow> (JsonValue \<times> string) bounded"
  and parse_members ::
    "nat \<Rightarrow> string \<Rightarrow> (string, JsonValue) std_map \<Rightarrow> (JsonValue \<times> string) bounded"
  and parse_elements :: "nat \<Rightarrow> string \<Rightarrow> JsonValue list \<Rightarrow> (JsonValue \<times> string) bounded"
where
  "parse_value 0 input = None"
| "parse_value (Suc n) input =
     (let s = skip_space input in
      if s = [] then Some None
      else if hd s = quote_char then Some (map_option (\<lambda>(v, r). (JString v, r)) (parse_string s))
      else if hd s = CHR ''{''
      then
        (let r = skip_space (tl s) in
         case consume (CHR ''}'') r of
           Some r' \<Rightarrow> Some (Some (JObject [], r'))
         | None \<Rightarrow> parse_members n r [])
      else if hd s = CHR ''[''
      then
        (let r = skip_space (tl s) in
         case consume (CHR '']'') r of
           Some r' \<Rightarrow> Some (Some (JArray [], r'))
         | None \<Rightarrow> parse_elements n r [])
      else if starts_with ''null'' s then Some (Some (JNull, drop 4 s))
      else if starts_with ''true'' s then Some (Some (JBoolean True, drop 4 s))
      else if starts_with ''false'' s then Some (Some (JBoolean False, drop 5 s))
      else Some (parse_unsigned s))"
| "parse_members 0 s object = None"
| "parse_members (Suc n) s object =
     on_result (Some (parse_string s)) (\<lambda>(name, s1).
     on_result (Some (consume (CHR '':'') (skip_space s1))) (\<lambda>s2.
     on_result (parse_value n s2) (\<lambda>(v, s3).
       if std_contains object name then Some None
       else
         (let object' = std_emplace name v object; s4 = skip_space s3 in
          case consume (CHR ''}'') s4 of
            Some r \<Rightarrow> Some (Some (JObject object', r))
          | None \<Rightarrow>
              on_result (Some (consume (CHR '','') s4)) (\<lambda>s5.
                parse_members n (skip_space s5) object')))))"
| "parse_elements 0 s elements = None"
| "parse_elements (Suc n) s elements =
     on_result (parse_value n s) (\<lambda>(v, s1).
       (let elements' = elements @ [v]; s2 = skip_space s1 in
        case consume (CHR '']'') s2 of
          Some r \<Rightarrow> Some (Some (JArray elements', r))
        | None \<Rightarrow>
            on_result (Some (consume (CHR '','') s2)) (\<lambda>s3. parse_elements n s3 elements')))"

text \<open>The call of \<open>JsonParser{input}.parse()\<close>.\<close>

definition parse_calls :: "string \<Rightarrow> nat" where
  "parse_calls input = 2 * length input + 1"

definition parse_document :: "nat \<Rightarrow> string \<Rightarrow> JsonValue bounded" where
  "parse_document calls input =
     on_result (parse_value calls (skip_space input)) (\<lambda>(v, r).
       Some (if skip_space r \<noteq> [] then None else Some v))"

definition JsonParser_parse :: "string \<Rightarrow> JsonValue option" where
  "JsonParser_parse input =
     (case parse_document (parse_calls input) input of None \<Rightarrow> None | Some r \<Rightarrow> r)"

section \<open>Writing\<close>

definition client_escape_char :: "char \<Rightarrow> string throws" where
  "client_escape_char c =
     (if c \<in> {quote_char, backslash} then Inr [backslash, c]
      else if c = CHR 0x08 then Inr [backslash, CHR ''b'']
      else if c = CHR 0x0C then Inr [backslash, CHR ''f'']
      else if c = CHR 0x0A then Inr [backslash, CHR ''n'']
      else if c = CHR 0x0D then Inr [backslash, CHR ''r'']
      else if c = CHR 0x09 then Inr [backslash, CHR ''t'']
      else if byte c < 0x20
      then Inl (InvalidArgument ''JSON value contains an unsupported control character'')
      else Inr [c])"

fun client_escape_chars :: "string \<Rightarrow> string \<Rightarrow> string throws" where
  "client_escape_chars [] result = Inr result"
| "client_escape_chars (c # cs) result =
     throws_bind (client_escape_char c) (\<lambda>e. client_escape_chars cs (result @ e))"

definition client_escapeJson :: "string \<Rightarrow> string throws" where
  "client_escapeJson v =
     throws_bind (client_escape_chars v [quote_char]) (\<lambda>result. Inr (result @ [quote_char]))"

end
