(* ===== verification/Json_Round_Trip.thy ===== *)
theory Json_Round_Trip
  imports Http_Json Client_Json
begin

text \<open>
  What one side writes the other side reads. The client's parser returns for every input within
  its bound of calls, and returns the document for the text of any document whose strings are
  escaped by the server; the server's parser returns the fields for any flat object whose strings
  are escaped by the client.
\<close>

section \<open>The client's parser ends\<close>

lemma on_result_Some_iff:
  "on_result r f = Some (Some y) \<longleftrightarrow> (\<exists>x. r = Some (Some x) \<and> f x = Some (Some y))"
  by (auto simp: on_result_def split: option.splits)

lemma on_result_None_iff:
  "on_result r f = None \<longleftrightarrow> r = None \<or> (\<exists>x. r = Some (Some x) \<and> f x = None)"
  by (auto simp: on_result_def split: option.splits)

lemma on_result_simps [simp]:
  "on_result (Some (Some x)) f = f x"
  "on_result (Some None) f = Some None"
  by (simp_all add: on_result_def)

lemma length_tl_less: "s \<noteq> [] \<Longrightarrow> length (tl s) < length s"
  by (cases s) simp_all

lemma skip_space_shorter: "s \<noteq> [] \<Longrightarrow> length (skip_space (tl s)) < length s"
  by (rule le_less_trans [OF length_skip_space length_tl_less])

lemma starts_with_drop_less:
  "starts_with p s \<Longrightarrow> p \<noteq> [] \<Longrightarrow> length (drop (length p) s) < length s"
  by (auto simp: starts_with_iff)

lemma parse_shorter:
  "parse_value n s = Some (Some (v, r)) \<Longrightarrow> length r < length s"
  "parse_members n s object = Some (Some (v, r)) \<Longrightarrow> length r < length s"
  "parse_elements n s elements = Some (Some (v, r)) \<Longrightarrow> length r < length s"
proof (induction n s and n s object and n s elements arbitrary: v r and v r and v r
    rule: parse_value_parse_members_parse_elements.induct)
  case (2 n input)
  let ?s = "skip_space input"
  have bound: "length ?s \<le> length input" by (rule length_skip_space)
  have "length r < length ?s"
  proof (cases "?s = []")
    case False
    note less = skip_space_shorter [OF False]
    consider (str) "hd ?s = quote_char" | (obj) "hd ?s = CHR ''{''" | (arr) "hd ?s = CHR ''[''"
      | (other) "hd ?s \<noteq> quote_char" "hd ?s \<noteq> CHR ''{''" "hd ?s \<noteq> CHR ''[''" by blast
    then show ?thesis
    proof cases
      case str
      then show ?thesis
        using "2.prems" False by (auto simp: Let_def dest: parse_string_shorter)
    next
      case obj
      then show ?thesis
        using "2.prems" "2.IH"(1) [OF refl False] False less
        by (fastforce simp: Let_def split: option.splits dest: consume_shorter)
    next
      case arr
      then show ?thesis
        using "2.prems" "2.IH"(2) [OF refl False] False less
        by (fastforce simp: Let_def split: option.splits dest: consume_shorter)
    next
      case other
      then show ?thesis
        using "2.prems" False starts_with_drop_less [of "''null''" ?s]
          starts_with_drop_less [of "''true''" ?s] starts_with_drop_less [of "''false''" ?s]
        by (auto simp: Let_def dest: parse_unsigned_shorter split: if_splits)
    qed
  qed (use 2 in \<open>simp add: Let_def\<close>)
  with bound show ?case by simp
next
  case (4 n s object)
  obtain name s1 s2 v' s3 where step: "parse_string s = Some (name, s1)"
    "consume (CHR '':'') (skip_space s1) = Some s2" "parse_value n s2 = Some (Some (v', s3))"
    and new: "\<not> std_contains object name"
    using "4.prems" by (auto simp: on_result_Some_iff split: if_splits)
  have less: "length (skip_space s3) < length s"
    using parse_string_shorter [OF step(1)] length_skip_space [of s1] consume_shorter [OF step(2)]
      "4.IH"(1) [OF _ refl _ step(3), of name s1] step(1,2) length_skip_space [of s3]
    by simp
  show ?case
  proof (cases "consume (CHR ''}'') (skip_space s3)")
    case None
    then obtain s5 where s5: "consume (CHR '','') (skip_space s3) = Some s5"
      and rest: "parse_members n (skip_space s5) (std_emplace name v' object) = Some (Some (v, r))"
      using "4.prems" step new by (auto simp: on_result_Some_iff Let_def split: if_splits)
    then have "length r < length (skip_space s5)"
      using "4.IH"(2) step new None by (auto simp: Let_def)
    then show ?thesis using less consume_shorter [OF s5] length_skip_space [of s5] by simp
  next
    case (Some x)
    then show ?thesis
      using "4.prems" step new less consume_shorter [OF Some] by (simp add: Let_def)
  qed
next
  case (6 n s elements)
  obtain v' s1 where step: "parse_value n s = Some (Some (v', s1))"
    using "6.prems" by (auto simp: on_result_Some_iff)
  have less: "length (skip_space s1) < length s"
    using "6.IH"(1) [OF step] length_skip_space [of s1] by simp
  show ?case
  proof (cases "consume (CHR '']'') (skip_space s1)")
    case None
    then obtain s3 where s3: "consume (CHR '','') (skip_space s1) = Some s3"
      and rest: "parse_elements n s3 (elements @ [v']) = Some (Some (v, r))"
      using "6.prems" step by (auto simp: on_result_Some_iff Let_def)
    then have "length r < length s3" using "6.IH"(2) step None by (auto simp: Let_def)
    then show ?thesis using less consume_shorter [OF s3] by simp
  next
    case (Some x)
    then show ?thesis using "6.prems" step less consume_shorter [OF Some] by (simp add: Let_def)
  qed
qed simp_all

lemma parse_enough:
  "2 * length s + 1 \<le> n \<Longrightarrow> parse_value n s \<noteq> None"
  "2 * length s + 1 \<le> n \<Longrightarrow> parse_members n s object \<noteq> None"
  "2 * length s + 2 \<le> n \<Longrightarrow> parse_elements n s elements \<noteq> None"
proof (induction n s and n s object and n s elements
    rule: parse_value_parse_members_parse_elements.induct)
  case (2 n input)
  let ?s = "skip_space input"
  have bound: "length ?s \<le> length input" by (rule length_skip_space)
  show ?case
  proof (cases "?s = []")
    case False
    note less = skip_space_shorter [OF False]
    show ?thesis
      using "2.prems" "2.IH"(1,2) [OF refl False] False less bound
      by (auto simp: Let_def split: option.splits)
  qed (simp add: Let_def)
next
  case (4 n s object)
  have value_read: "\<exists>r. parse_value n s2 = Some r"
    if "parse_string s = Some (name, s1)" "consume (CHR '':'') (skip_space s1) = Some s2" for name s1 s2
    using "4.IH"(1) [OF _ refl, of name s1 s2] that "4.prems" parse_string_shorter [OF that(1)]
      length_skip_space [of s1] consume_shorter [OF that(2)] by simp
  have rest_read: "\<exists>r. parse_members n (skip_space s5) (std_emplace name v object) = Some r"
    if "parse_string s = Some (name, s1)" "consume (CHR '':'') (skip_space s1) = Some s2"
      "parse_value n s2 = Some (Some (v, s3))" "\<not> std_contains object name"
      "consume (CHR ''}'') (skip_space s3) = None" "consume (CHR '','') (skip_space s3) = Some s5"
    for name s1 s2 v s3 s5
  proof -
    have "length (skip_space s5) < length s"
      using parse_string_shorter [OF that(1)] length_skip_space [of s1] consume_shorter [OF that(2)]
        parse_shorter(1) [OF that(3)] length_skip_space [of s3] consume_shorter [OF that(6)]
        length_skip_space [of s5] by simp
    then show ?thesis using "4.IH"(2) that "4.prems" by auto
  qed
  show ?case
  proof (cases "parse_string s")
    case (Some named)
    obtain name s1 where name: "named = (name, s1)" by (cases named)
    show ?thesis
    proof (cases "consume (CHR '':'') (skip_space s1)")
      case colon: (Some s2)
      obtain r where "parse_value n s2 = Some r" using value_read Some name colon by blast
      then show ?thesis
        using rest_read [of name s1 s2] Some name colon
        by (cases r; cases "std_contains object name")
          (auto simp: on_result_def Let_def simp del: std_contains_iff split: option.splits)
    qed (simp add: Some name)
  qed simp
next
  case (6 n s elements)
  have value_read: "\<exists>r. parse_value n s = Some r" using 6 by simp
  have rest_read: "\<exists>r. parse_elements n s3 (elements @ [v]) = Some r"
    if "parse_value n s = Some (Some (v, s1))" "consume (CHR '']'') (skip_space s1) = None"
      "consume (CHR '','') (skip_space s1) = Some s3" for v s1 s3
  proof -
    have "length s3 < length s"
      using parse_shorter(1) [OF that(1)] length_skip_space [of s1] consume_shorter [OF that(3)]
      by simp
    then show ?thesis using "6.IH"(2) that "6.prems" by auto
  qed
  obtain r where "parse_value n s = Some r" using value_read by blast
  then show ?case
    using rest_read by (cases r) (auto simp: on_result_def Let_def split: option.splits)
qed simp_all

text \<open>A result does not depend on how many more calls are allowed.\<close>

lemma on_result_mono:
  assumes "on_result r f = Some x" and "\<And>y. r = Some y \<Longrightarrow> r' = Some y"
    and "\<And>y x. r = Some (Some y) \<Longrightarrow> f y = Some x \<Longrightarrow> f' y = Some x"
  shows "on_result r' f' = Some x"
  using assms by (cases r) (auto simp: on_result_def split: option.splits)

lemma parse_more:
  "parse_value n s = Some r \<Longrightarrow> parse_value (n + k) s = Some r"
  "parse_members n s object = Some r \<Longrightarrow> parse_members (n + k) s object = Some r"
  "parse_elements n s elements = Some r \<Longrightarrow> parse_elements (n + k) s elements = Some r"
proof (induction n s and n s object and n s elements arbitrary: r and r and r
    rule: parse_value_parse_members_parse_elements.induct)
  case (2 n input)
  then show ?case by (auto simp: Let_def split: if_splits option.splits)
next
  case (4 n s object)
  show ?case
    using "4.prems" "4.IH"
    by (auto simp: Let_def elim!: on_result_mono split: if_splits option.splits)
next
  case (6 n s elements)
  show ?case
    using "6.prems" "6.IH"
    by (auto simp: Let_def elim!: on_result_mono split: if_splits option.splits)
qed simp_all

text \<open>
  C37: the client's parser ends on every input. Within the calls allowed for
  the length of the input, parsing is never cut off, whatever the input is and however deep it
  nests, and its result is the one that any larger number of calls gives.
\<close>

theorem client_parser_ends:
  "parse_document (parse_calls input + k) input = Some (JsonParser_parse input)"
proof -
  have "parse_value (parse_calls input) (skip_space input) \<noteq> None"
    by (rule parse_enough(1)) (use length_skip_space [of input] in \<open>simp add: parse_calls_def\<close>)
  then obtain r where r: "parse_value (parse_calls input) (skip_space input) = Some r" by blast
  show ?thesis
    using r parse_more(1) [OF r, of k]
    by (cases r) (auto simp: parse_document_def JsonParser_parse_def on_result_def)
qed

section \<open>Strings\<close>

lemma hex_value_digit:
  assumes "k < 16"
  shows "hex_value (hex_digit k) = Some (word_of_nat k)"
proof -
  have "list_all (\<lambda>k. hex_value (hex_digit k) = Some (word_of_nat k)) [0..<16]" by code_simp
  then show ?thesis using assms by (simp add: list_all_iff)
qed

lemma hex_digits_four:
  assumes "hex_value a = Some a'" "hex_value b = Some b'" "hex_value c = Some c'"
    "hex_value d = Some d'"
  shows "hex_digits 4 (a # b # c # d # s) v =
    Some (push_bit 4 (push_bit 4 (push_bit 4 (push_bit 4 v + a') + b') + c') + d', s)"
  using assms by (simp add: numeral_eq_Suc)

lemma hex_code_unit:
  assumes "n < 256"
  shows "parseHexCodeUnit (CHR ''0'' # CHR ''0'' # hex_digit (n div 16) # hex_digit (n mod 16) # t)
           = Some (word_of_nat n, t)"
proof -
  have zero: "hex_value (CHR ''0'') = Some 0" by (simp add: hex_value_def)
  have "push_bit 4 (word_of_nat (n div 16)) + word_of_nat (n mod 16) = (word_of_nat n :: u16)"
  proof -
    have "word_of_nat n = (word_of_nat (n div 16 * 16 + n mod 16) :: u16)" by simp
    also have "\<dots> = word_of_nat (n div 16) * 16 + word_of_nat (n mod 16)"
      by (simp only: of_nat_add of_nat_mult of_nat_numeral)
    finally show ?thesis by (simp add: push_bit_eq_mult)
  qed
  then show ?thesis
    using assms hex_digits_four [OF zero zero hex_value_digit hex_value_digit, of "n div 16" "n mod 16"]
    by (simp add: parseHexCodeUnit_def)
qed

lemma escaped_control:
  assumes "n < 32"
  shows "escaped_code_point
           (CHR ''0'' # CHR ''0'' # hex_digit (n div 16) # hex_digit (n mod 16) # t)
         = Some ([char_of n], t)"
proof -
  have u: "unat (word_of_nat n :: u16) = n" "unat (word_of_nat n :: u32) = n"
    using assms by (simp_all add: unat_of_nat)
  have "\<not> 0xD800 \<le> (word_of_nat n :: u16)" "\<not> 0xDC00 \<le> (word_of_nat n :: u16)"
    using assms by (simp_all add: word_le_nat_alt u)
  moreover have "ucast (word_of_nat n :: u16) = (word_of_nat n :: u32)"
    using assms by (simp add: unsigned_of_nat take_bit_nat_eq_self)
  moreover have "(word_of_nat n :: u32) \<le> 0x7F" using assms by (simp add: word_le_nat_alt u)
  ultimately show ?thesis
    using assms hex_code_unit [of n t]
    by (simp add: escaped_code_point_def utf8_def utf8_byte_def u)
qed

definition plain_char :: "char \<Rightarrow> bool" where
  "plain_char c \<longleftrightarrow> 0x20 \<le> byte c \<or> c \<in> {CHR 0x08, CHR 0x09, CHR 0x0A, CHR 0x0C, CHR 0x0D}"

lemma escape_char_cases:
  obtains (short) "c = quote_char \<or> c = backslash \<or> c = CHR 0x08 \<or> c = CHR 0x0C \<or> c = CHR 0x0A \<or>
      c = CHR 0x0D \<or> c = CHR 0x09"
    | (control) "escape_char c = backslash # ''u00'' @
        [hex_digit (byte c div 16), hex_digit (byte c mod 16)]" "byte c < 0x20" "\<not> plain_char c"
    | (plain) "escape_char c = [c]" "c \<noteq> quote_char" "c \<noteq> backslash" "\<not> byte c < 0x20"
proof (cases "c = quote_char \<or> c = backslash \<or> c = CHR 0x08 \<or> c = CHR 0x0C \<or> c = CHR 0x0A \<or>
      c = CHR 0x0D \<or> c = CHR 0x09")
  case False
  then show thesis
    using control plain by (cases "byte c < 0x20") (simp_all add: escape_char_def plain_char_def)
qed (rule short)

lemma client_reads_escape:
  "string_body (escape_char c @ t) v = string_body t (v @ [c])"
proof (cases c rule: escape_char_cases)
  case short
  then show ?thesis
    by (elim disjE) (simp_all add: escape_char_def client_unescape_def)
  next
  case control
  then show ?thesis
    using escaped_control [OF control(2), of t] by (simp add: client_unescape_def)
qed simp

lemma client_reads_escapes:
  "string_body (concat (map escape_char s) @ quote_char # t) v = Some (v @ s, t)"
  by (induction s arbitrary: v) (simp_all add: client_reads_escape)

lemma skip_space_id [simp]: "\<not> isspace c \<Longrightarrow> skip_space (c # s) = c # s"
  by (simp add: skip_space_def)

lemma skip_space_Nil [simp]: "skip_space [] = []"
  by (simp add: skip_space_def)

lemma consume_simps [simp]:
  "consume c (d # s) = (if c = d then Some s else None)"
  "consume c [] = None"
  by (simp_all add: consume_def)

text \<open>
  Every string crosses from the server to the client. What the server writes for a string, any
  bytes in it, the client reads back as that string, and it goes on right behind it.
\<close>

theorem server_string_reaches_client:
  "parse_string (escapeJson s @ rest) = Some (s, rest)"
  using client_reads_escapes [of s rest "[]"]
  by (simp add: parse_string_def escapeJson_def isspace_def)

definition plain :: "string \<Rightarrow> bool" where
  "plain s = list_all plain_char s"

lemma plain_simps [simp]:
  "plain []" "plain (c # s) \<longleftrightarrow> plain_char c \<and> plain s" "plain (s @ t) \<longleftrightarrow> plain s \<and> plain t"
  by (simp_all add: plain_def)

lemma client_escape_plain:
  "client_escape_char c = (if plain_char c then Inr (escape_char c)
     else Inl (InvalidArgument ''JSON value contains an unsupported control character''))"
  by (auto simp: client_escape_char_def escape_char_def plain_char_def)

lemma client_escape_chars_plain:
  "client_escape_chars s r = (if plain s then Inr (r @ concat (map escape_char s))
     else Inl (InvalidArgument ''JSON value contains an unsupported control character''))"
  by (induction s arbitrary: r) (simp_all add: client_escape_plain)

lemma client_escapeJson_plain:
  "client_escapeJson s = (if plain s then Inr (escapeJson s)
     else Inl (InvalidArgument ''JSON value contains an unsupported control character''))"
  by (simp add: client_escapeJson_def client_escape_chars_plain escapeJson_def)

lemma server_reads_escape:
  assumes "plain_char c"
  shows "parse_string_body (escape_char c @ t) v = parse_string_body t (v @ [c])"
proof (cases c rule: escape_char_cases)
  case short
  then show ?thesis by (elim disjE) (simp_all add: escape_char_def unescape_def)
qed (use assms in simp_all)

lemma server_reads_escapes:
  "plain s \<Longrightarrow>
   parse_string_body (concat (map escape_char s) @ quote_char # t) v = Some (v @ s, t)"
  by (induction s arbitrary: v) (simp_all add: server_reads_escape)

lemma parseJsonString_escape [simp]:
  "plain s \<Longrightarrow> parseJsonString (escapeJson s @ rest) = Some (s, rest)"
  by (simp add: parseJsonString_def escapeJson_def server_reads_escapes)

text \<open>
  A string crosses from the client to the server, or the client refuses it. The client's
  escaping throws exactly on a control character without a short escape; whatever it does write,
  the server reads back as the same string.
\<close>

theorem client_string_reaches_server:
  "case client_escapeJson s of
     Inr text \<Rightarrow> parseJsonString (text @ rest) = Some (s, rest)
   | Inl e \<Rightarrow> list_ex (\<lambda>c. byte c < 0x20 \<and> c \<notin> {CHR 0x08, CHR 0x09, CHR 0x0A, CHR 0x0C, CHR 0x0D}) s"
  by (auto simp: client_escapeJson_plain plain_def list_all_iff list_ex_iff plain_char_def not_le)

section \<open>Documents\<close>

text \<open>
  The documents the server writes: compact text, keys and strings escaped. \<open>document_value\<close> is what
  the client is to make of one.
\<close>

datatype document =
    D_null
  | D_string string
  | D_number nat
  | D_boolean bool
  | D_object "(string \<times> document) list"
  | D_array "document list"

fun document_text :: "document \<Rightarrow> string"
  and members_text :: "(string \<times> document) list \<Rightarrow> string"
  and elements_text :: "document list \<Rightarrow> string"
where
  "document_text D_null = ''null''"
| "document_text (D_string s) = escapeJson s"
| "document_text (D_number n) = decimal n"
| "document_text (D_boolean b) = (if b then ''true'' else ''false'')"
| "document_text (D_object fs) = ''{'' @ members_text fs @ ''}''"
| "document_text (D_array ds) = ''['' @ elements_text ds @ '']''"
| "members_text [] = []"
| "members_text ((k, d) # fs) =
     escapeJson k @ '':'' @ document_text d @ (if fs = [] then [] else '','' @ members_text fs)"
| "elements_text [] = []"
| "elements_text (d # ds) =
     document_text d @ (if ds = [] then [] else '','' @ elements_text ds)"

fun document_value :: "document \<Rightarrow> JsonValue"
  and members_value ::
    "(string \<times> document) list \<Rightarrow> (string, JsonValue) std_map \<Rightarrow> (string, JsonValue) std_map"
  and elements_value :: "document list \<Rightarrow> JsonValue list"
where
  "document_value D_null = JNull"
| "document_value (D_string s) = JString s"
| "document_value (D_number n) = JUnsigned (word_of_nat n)"
| "document_value (D_boolean b) = JBoolean b"
| "document_value (D_object fs) = JObject (members_value fs [])"
| "document_value (D_array ds) = JArray (elements_value ds)"
| "members_value [] m = m"
| "members_value ((k, d) # fs) m = members_value fs (std_emplace k (document_value d) m)"
| "elements_value [] = []"
| "elements_value (d # ds) = document_value d # elements_value ds"

fun document_ok :: "document \<Rightarrow> bool"
  and members_ok :: "(string \<times> document) list \<Rightarrow> string list \<Rightarrow> bool"
  and elements_ok :: "document list \<Rightarrow> bool"
where
  "document_ok (D_number n) \<longleftrightarrow> n < 2 ^ 64"
| "document_ok (D_object fs) \<longleftrightarrow> members_ok fs []"
| "document_ok (D_array ds) \<longleftrightarrow> elements_ok ds"
| "document_ok _ \<longleftrightarrow> True"
| "members_ok [] seen \<longleftrightarrow> True"
| "members_ok ((k, d) # fs) seen \<longleftrightarrow> k \<notin> set seen \<and> document_ok d \<and> members_ok fs (k # seen)"
| "elements_ok [] \<longleftrightarrow> True"
| "elements_ok (d # ds) \<longleftrightarrow> document_ok d \<and> elements_ok ds"

abbreviation number_ends :: "string \<Rightarrow> bool" where
  "number_ends rest \<equiv> rest = [] \<or> \<not> is_digit (hd rest)"

lemma parse_unsigned_decimal:
  assumes "n < 2 ^ 64" and "number_ends rest"
  shows "parse_unsigned (decimal n @ rest) = Some (JUnsigned (word_of_nat n), rest)"
proof -
  have "\<not> (1 < length (decimal n) \<and> hd (decimal n @ rest) = CHR ''0'')"
    using decimal_hd_zero [of n] by (auto simp: decimal_zero)
  then show ?thesis
    using from_chars_decimal [OF assms(1), of "[]"]
    by (simp add: parse_unsigned_def takeWhile_decimal [OF assms(2)] Let_def)
qed

lemma parse_value_number:
  assumes "n < 2 ^ 64" and "number_ends rest"
  shows "parse_value (Suc calls) (decimal n @ rest) = Some (Some (JUnsigned (word_of_nat n), rest))"
proof -
  obtain c cs where digits: "decimal n = c # cs" by (cases "decimal n") simp_all
  then have "is_digit c" using decimal_digits [of n] by simp
  then have "\<not> isspace c" "c \<noteq> quote_char" "c \<noteq> CHR ''{''" "c \<noteq> CHR ''[''" "c \<noteq> CHR ''n''"
    "c \<noteq> CHR ''t''" "c \<noteq> CHR ''f''"
    by (auto simp: is_digit_def isspace_def)
  then show ?thesis
    using parse_unsigned_decimal [OF assms] by (simp add: digits Let_def)
qed

lemma parse_string_escape [simp]: "parse_string (escapeJson s @ rest) = Some (s, rest)"
  using client_reads_escapes [of s rest "[]"]
  by (simp add: parse_string_def escapeJson_def isspace_def)

lemma escapeJson_head: "escapeJson s @ rest = quote_char # concat (map escape_char s) @ quote_char # rest"
  by (simp add: escapeJson_def)

lemma punctuation [simp]:
  "\<not> isspace (CHR ''{'')" "\<not> isspace (CHR ''}'')" "\<not> isspace (CHR ''['')" "\<not> isspace (CHR '']'')"
  "\<not> isspace (CHR '':'')" "\<not> isspace (CHR '','')" "\<not> isspace quote_char"
  "\<not> isspace (CHR ''n'')" "\<not> isspace (CHR ''t'')" "\<not> isspace (CHR ''f'')"
  "\<not> is_digit (CHR ''}'')" "\<not> is_digit (CHR '']'')" "\<not> is_digit (CHR '','')"
  by (simp_all add: isspace_def is_digit_def)

lemma skip_space_escape [simp]: "skip_space (escapeJson s @ rest) = escapeJson s @ rest"
  by (simp add: escapeJson_head)

text \<open>The text of a value opens with a character that is neither space nor a closing bracket.\<close>

definition opens :: "string \<Rightarrow> bool" where
  "opens s \<longleftrightarrow> s \<noteq> [] \<and> \<not> isspace (hd s) \<and> hd s \<noteq> CHR '']'' \<and> hd s \<noteq> CHR ''}''"

lemma opens_text: "opens (document_text d @ rest)"
proof (cases d)
  case (D_number n)
  have "is_digit (hd (decimal n))" using decimal_digits [of n] by (cases "decimal n") simp_all
  then show ?thesis
    using D_number by (cases "decimal n") (auto simp: opens_def isspace_def is_digit_def)
qed (simp_all add: opens_def escapeJson_head isspace_def)

lemma opens_skip: "opens s \<Longrightarrow> skip_space s = s" "opens s \<Longrightarrow> consume (CHR '']'') s = None"
  "opens s \<Longrightarrow> consume (CHR ''}'') s = None"
  by (auto simp: opens_def neq_Nil_conv)

lemma opens_members: "fs \<noteq> [] \<Longrightarrow> opens (members_text fs @ rest)"
  by (cases fs) (auto simp: escapeJson_head opens_def isspace_def)

lemma opens_elements: "ds \<noteq> [] \<Longrightarrow> opens (elements_text ds @ rest)"
  using opens_text by (cases ds) auto

lemma client_reads:
  "document_ok d \<Longrightarrow> number_ends rest \<Longrightarrow> 2 * length (document_text d @ rest) + 1 \<le> n \<Longrightarrow>
     parse_value n (document_text d @ rest) = Some (Some (document_value d, rest))"
  "members_ok fs seen \<Longrightarrow> fs \<noteq> [] \<Longrightarrow> fst ` set m \<subseteq> set seen \<Longrightarrow>
     2 * length (members_text fs @ CHR ''}'' # rest) + 1 \<le> n \<Longrightarrow>
     parse_members n (members_text fs @ CHR ''}'' # rest) m =
       Some (Some (JObject (members_value fs m), rest))"
  "elements_ok ds \<Longrightarrow> ds \<noteq> [] \<Longrightarrow>
     2 * length (elements_text ds @ CHR '']'' # rest) + 2 \<le> n \<Longrightarrow>
     parse_elements n (elements_text ds @ CHR '']'' # rest) es =
       Some (Some (JArray (es @ elements_value ds), rest))"
proof (induction d and fs and ds arbitrary: rest n and rest n seen m and rest n es
    rule: document_text_members_text_elements_text.induct)
  case 1
  then show ?case by (cases n) (simp_all add: Let_def)
next
  case (2 s)
  then show ?case by (cases n) (simp_all add: Let_def escapeJson_head del: parse_string_escape,
      simp add: parse_string_escape [unfolded escapeJson_head])
next
  case (3 k)
  then show ?case using parse_value_number by (cases n) auto
next
  case (4 b)
  then show ?case by (cases n; cases b) (simp_all add: Let_def)
next
  case (5 fs)
  then obtain n' where n: "n = Suc n'" by (cases n) auto
  show ?case
  proof (cases "fs = []")
    case False
    have "parse_members n' (members_text fs @ CHR ''}'' # rest) [] =
        Some (Some (JObject (members_value fs []), rest))"
      by (rule 5(1)) (use 5(2-) False n in auto)
    then show ?thesis
      using opens_skip [OF opens_members [OF False, of "CHR ''}'' # rest"]] n
      by (simp add: Let_def)
  qed (simp add: n Let_def)
next
  case (6 ds)
  then obtain n' where n: "n = Suc n'" by (cases n) auto
  show ?case
  proof (cases "ds = []")
    case False
    have "parse_elements n' (elements_text ds @ CHR '']'' # rest) [] =
        Some (Some (JArray (elements_value ds), rest))"
      using 6(1) [of rest n' "[]"] 6(2-) False n by auto
    then show ?thesis
      using opens_skip [OF opens_elements [OF False, of "CHR '']'' # rest"]] n
      by (simp add: Let_def)
  qed (simp add: n Let_def)
next
  case (8 k d fs)
  then obtain n' where n: "n = Suc n'" by (cases n) auto
  let ?more = "if fs = [] then CHR ''}'' # rest else CHR '','' # members_text fs @ CHR ''}'' # rest"
  have ends: "number_ends ?more" "skip_space ?more = ?more" by simp_all
  have v: "parse_value n' (document_text d @ ?more) = Some (Some (document_value d, ?more))"
    by (rule 8(1)) (use 8(3-) n in \<open>auto simp: escapeJson_def\<close>)
  have "k \<notin> fst ` set m" using "8.prems" by auto
  then show ?case
  proof (cases "fs = []")
    case False
    have "parse_members n' (members_text fs @ CHR ''}'' # rest) (std_emplace k (document_value d) m) =
        Some (Some (JObject (members_value fs (std_emplace k (document_value d) m)), rest))"
      by (rule 8(2) [where seen = "k # seen"])
        (use 8(3-) False n in \<open>auto simp: std_emplace_def fst_set_std_put\<close>)
    then show ?thesis
      using v ends False opens_skip(1) [OF opens_members [OF False, of "CHR ''}'' # rest"]]
        \<open>k \<notin> fst ` set m\<close>
      by (simp add: n Let_def)
  qed (use v in \<open>simp add: n Let_def\<close>)
next
  case (10 d ds)
  then obtain n' where n: "n = Suc n'" by (cases n) auto
  let ?more = "if ds = [] then CHR '']'' # rest else CHR '','' # elements_text ds @ CHR '']'' # rest"
  have v: "parse_value n' (document_text d @ ?more) = Some (Some (document_value d, ?more))"
    by (rule 10(1)) (use 10(3-) n in auto)
  show ?case
  proof (cases "ds = []")
    case False
    have "parse_elements n' (elements_text ds @ CHR '']'' # rest) (es @ [document_value d]) =
        Some (Some (JArray ((es @ [document_value d]) @ elements_value ds), rest))"
      by (rule 10(2)) (use 10(3-) False n in auto)
    then show ?thesis using v False by (simp add: n Let_def)
  qed (use v in \<open>simp add: n Let_def\<close>)
qed simp_all

lemma client_reads_document:
  assumes "document_ok d"
  shows "JsonParser_parse (document_text d) = Some (document_value d)"
proof -
  have "skip_space (document_text d) = document_text d"
    using opens_skip(1) [OF opens_text, of d "[]"] by simp
  then show ?thesis
    using client_reads(1) [OF assms, of "[]" "parse_calls (document_text d)"]
    by (simp add: JsonParser_parse_def parse_document_def parse_calls_def)
qed

section \<open>Flat objects\<close>

datatype flat_value = F_string string | F_unsigned u64 | F_boolean bool

fun flat_value_text :: "flat_value \<Rightarrow> string" where
  "flat_value_text (F_string s) = escapeJson s"
| "flat_value_text (F_unsigned v) = to_string_u64 v"
| "flat_value_text (F_boolean b) = (if b then ''true'' else ''false'')"

fun flat_scalar :: "flat_value \<Rightarrow> JsonScalar" where
  "flat_scalar (F_string s) = JsonScalar_empty\<lparr>js_string := Some s\<rparr>"
| "flat_scalar (F_unsigned v) = JsonScalar_empty\<lparr>js_unsigned := Some v\<rparr>"
| "flat_scalar (F_boolean b) = JsonScalar_empty\<lparr>js_boolean := Some b\<rparr>"

fun flat_plain :: "flat_value \<Rightarrow> bool" where
  "flat_plain (F_string s) = plain s"
| "flat_plain _ = True"

fun flat_members_text :: "(string \<times> flat_value) list \<Rightarrow> string" where
  "flat_members_text [] = []"
| "flat_members_text ((k, v) # fs) =
     escapeJson k @ '':'' @ flat_value_text v @ (if fs = [] then [] else '','' @ flat_members_text fs)"

definition flat_object_text :: "(string \<times> flat_value) list \<Rightarrow> string" where
  "flat_object_text fs = ''{'' @ flat_members_text fs @ ''}''"

fun flat_object :: "(string \<times> flat_value) list \<Rightarrow> JsonObject \<Rightarrow> JsonObject" where
  "flat_object [] object = object"
| "flat_object ((k, v) # fs) object = flat_object fs (std_emplace k (flat_scalar v) object)"

lemma skipWhitespace_id [simp]:
  "c \<notin> {CHR '' '', CHR 0x09, CHR 0x0D, CHR 0x0A} \<Longrightarrow> skipWhitespace (c # s) = c # s"
  by (simp add: skipWhitespace_def)

lemma skipWhitespace_Nil [simp]: "skipWhitespace [] = []"
  by (simp add: skipWhitespace_def)

lemma parseJsonUnsigned_decimal:
  assumes "number_ends rest"
  shows "parseJsonUnsigned (to_string_u64 v @ rest) = Some (v, rest)"
  using from_chars_u64 [of "[]" v]
  by (simp add: parseJsonUnsigned_def to_string_u64_def takeWhile_decimal [OF assms] Let_def)

lemma to_string_u64_head:
  obtains c cs where "to_string_u64 v = c # cs" and "is_digit c"
  using decimal_digits [of "unat v"] that
  by (cases "to_string_u64 v") (auto simp: to_string_u64_def)

lemma server_reads_scalar:
  assumes "flat_plain v" and "number_ends rest"
  shows "parse_scalar (skipWhitespace (flat_value_text v @ rest)) = Some (flat_scalar v, rest)"
proof (cases v)
  case (F_string s)
  then show ?thesis
    using assms(1) parseJsonString_escape [of s rest]
    by (simp add: parse_scalar_def escapeJson_head)
next
  case (F_unsigned u)
  obtain c cs where c: "to_string_u64 u = c # cs" "is_digit c" by (rule to_string_u64_head)
  then have "c \<notin> {CHR '' '', CHR 0x09, CHR 0x0D, CHR 0x0A}" "c \<noteq> quote_char" "c \<noteq> CHR ''t''" "c \<noteq> CHR ''f''"
    by (auto simp: is_digit_def)
  then show ?thesis
    using F_unsigned parseJsonUnsigned_decimal [OF assms(2), of u]
    by (simp add: parse_scalar_def c(1))
qed (simp add: parse_scalar_def)

lemma server_reads_fields:
  assumes "fs \<noteq> []" and "\<forall>(k, v) \<in> set fs. plain k \<and> flat_plain v"
    and "distinct (map fst fs)" and "fst ` set fs \<inter> fst ` set object = {}"
  shows "parse_fields (flat_members_text fs @ ''}'') object = Some (flat_object fs object)"
  using assms
proof (induction fs arbitrary: object)
  case (Cons f fs)
  obtain k v where f: "f = (k, v)" by (cases f)
  let ?more = "if fs = [] then ''}'' else '','' @ flat_members_text fs @ ''}''"
  have scalar: "parse_scalar (skipWhitespace (flat_value_text v @ ?more)) = Some (flat_scalar v, ?more)"
    by (rule server_reads_scalar) (use Cons.prems f in auto)
  have field: "parse_field (escapeJson k @ '':'' @ flat_value_text v @ ?more) =
      Some ((k, flat_scalar v), ?more)"
    using Cons.prems(2) f scalar by (simp add: parse_field_def skip_to_def)
  have new: "k \<notin> fst ` set object" using Cons.prems(4) f by auto
  show ?case
  proof (cases "fs = []")
    case True
    then show ?thesis
      using field new by (subst parse_fields.simps) (simp add: f)
  next
    case False
    obtain t where t: "flat_members_text fs @ ''}'' = quote_char # t"
      using False by (cases fs) (auto simp: escapeJson_head)
    have rest: "parse_fields (flat_members_text fs @ ''}'') (std_emplace k (flat_scalar v) object) =
        Some (flat_object fs (std_emplace k (flat_scalar v) object))"
      using Cons.IH [OF False] Cons.prems f new
      by (auto simp: std_emplace_def fst_set_std_put)
    show ?thesis
      using field new False rest t by (subst parse_fields.simps) (simp add: f)
  qed
qed simp

text \<open>
  A request body reaches the server as it was meant. The server's parser returns exactly the
  fields of a flat object whose keys are distinct and whose strings the client's escaping accepts.
\<close>

theorem flat_object_reaches_server:
  assumes "distinct (map fst fs)" and "\<forall>(k, v) \<in> set fs. plain k \<and> flat_plain v"
  shows "parseFlatJsonObject (flat_object_text fs) = Some (flat_object fs [])"
proof (cases "fs = []")
  case False
  obtain t where "flat_members_text fs @ ''}'' = quote_char # t"
    using False by (cases fs) (auto simp: escapeJson_head)
  then show ?thesis
    using server_reads_fields [OF False assms(2,1), of "[]"]
    by (simp add: parseFlatJsonObject_def flat_object_text_def)
qed (simp add: parseFlatJsonObject_def flat_object_text_def)

lemma map_of_flat_object:
  assumes "distinct (map fst fs)" and "fst ` set fs \<inter> fst ` set object = {}"
  shows "map_of (flat_object fs object) k =
    (case map_of fs k of Some v \<Rightarrow> Some (flat_scalar v) | None \<Rightarrow> map_of object k)"
  using assms
proof (induction fs arbitrary: object)
  case (Cons f fs)
  obtain a v where f: "f = (a, v)" by (cases f)
  have new: "map_of object a = None" using Cons.prems f by (auto simp: map_of_eq_None_iff)
  have "map_of (flat_object fs (std_emplace a (flat_scalar v) object)) k =
      (case map_of fs k of Some v \<Rightarrow> Some (flat_scalar v)
       | None \<Rightarrow> map_of (std_emplace a (flat_scalar v) object) k)"
    using Cons.prems f new
    by (intro Cons.IH) (auto simp: std_emplace_def fst_set_std_put split: if_splits)
  moreover have "map_of fs a = None" using Cons.prems f by (auto simp: map_of_eq_None_iff)
  ultimately show ?case using new by (auto simp: f map_of_std_emplace split: option.splits)
qed simp

end
