(* ===== verification/Http_Examples.thy ===== *)
theory Http_Examples
  imports Http_Properties Json_Round_Trip
begin

text \<open>
  A server run from a fresh store: a player logs in, starts a transmission, and uses the
  administrator role to remove another player's membership. The properties of requests are applied
  to the steps of this run.
\<close>

definition admin_member :: VoiceMembership where
  "admin_member = (sample_member ''alice'' ''s1'' ''t1'')
     \<lparr>vm_role_ids := [StrongId ''talker'', StrongId ''administrator'']\<rparr>"

definition admin_context :: AuthoritativeMembershipContext where
  "admin_context =
     \<lparr>mc_snapshot = (sample_snapshot 3)\<lparr>ms_memberships :=
        [admin_member, sample_member ''bob'' ''s1'' ''t1'']\<rparr>,
      mc_role_policy = sample_policy\<rparr>"

type_synonym memory_repository = "(PlayerId, AuthoritativeMembershipContext) std_map"

definition sample_memberships :: memory_repository where
  "sample_memberships =
     [(StrongId ''alice'', admin_context), (StrongId ''bob'', sample_context 3)]"

definition sample_adapter :: "(memory_repository, nat, nat \<times> nat) HttpAdapter" where
  "sample_adapter =
     \<lparr>ha_authenticate = (\<lambda>cmd now (i, g).
        authenticate sample_verify sample_next_session 900000 cmd now i g),
      ha_sessions = store_sessions, ha_memberships = memory_repo,
      ha_next_transmission = sample_next_id, ha_canInterrupt = role_canInterrupt memory_repo,
      ha_administration = True, ha_authorizer = Some (role_authorizer memory_repo),
      ha_voice_grants = None, ha_issuer = None, ha_voice_server_url = [],
      ha_connectedScopeCount = connectedScopeCount memory_repo\<rparr>"

definition sample_server :: "(memory_repository, nat, nat \<times> nat) HttpState" where
  "sample_server =
     \<lparr>hs_service = \<lparr>sv_store = Store_ctor True (Some (\<lambda>_ _. True)) None (Some sample_memberships),
        sv_limiter = RateLimiter_ctor \<lparr>rl_maximum_requests = 10, rl_window = 1000\<rparr>
                       \<lparr>rl_maximum_requests = 20, rl_window = 1000\<rparr>,
        sv_ids = 0, sv_maximum_duration = 30000\<rparr>,
      hs_identity = (0, 0), hs_directory = None\<rparr>"

definition sample_http :: "string \<Rightarrow> string \<Rightarrow> string \<Rightarrow> string \<Rightarrow> HttpRequest" where
  "sample_http verb target authorization body =
     \<lparr>hq_method = verb, hq_target = target,
      hq_headers = [(''authorization'', authorization), (''x-correlation-id'', ''k''),
                    (''x-hvc-device-id'', ''d'')],
      hq_body = body\<rparr>"

definition login_request :: HttpRequest where
  "login_request = sample_http ''POST'' ''/api/v1/sessions'' ''Bearer secret'' []"

definition talk_fields :: "(string \<times> flat_value) list" where
  "talk_fields =
     [(''client_transmission_id'', F_string ''c1''), (''scope'', F_string ''team''),
      (''membership_version'', F_unsigned 3)]"

definition talk_request :: HttpRequest where
  "talk_request = sample_http ''POST'' ''/api/v1/transmissions'' ''Session s''
     (flat_object_text talk_fields)"

definition removal_request :: HttpRequest where
  "removal_request = sample_http ''DELETE'' ''/api/v1/admin/memberships/bob'' ''Session s'' []"

definition sample_session_s :: AuthenticatedSession where
  "sample_session_s =
     \<lparr>as_session_id = StrongId ''s'', as_player_id = StrongId ''alice'', as_device_id = StrongId ''d'',
      as_expires_at = 60000000040\<rparr>"

definition logged_in :: "(memory_repository, nat, nat \<times> nat) HttpState" where
  "logged_in = snd (handle sample_adapter login_request 40 sample_server)"

lemmas sample_http_defs = sample_http_def login_request_def talk_request_def removal_request_def
  header_def asciiLower_def authorizationValue_def starts_with_def

lemma sample_headers:
  "header (sample_http verb target authorization body) ''x-hvc-device-id'' = ''d''"
  "header (sample_http verb target authorization body) ''x-correlation-id'' = ''k''"
  "header (sample_http verb target authorization body) ''authorization'' = authorization"
  by (simp_all add: header_def sample_http_def asciiLower_def)

lemma login_accepted:
  "authenticate sample_verify sample_next_session 900000
     \<lparr>ac_credential = ''secret'', ac_device_id = StrongId ''d'', ac_correlation_id = StrongId ''k''\<rparr> 40 0 0 =
   (Inr sample_session_s, 1, 1)"
  by (simp add: authenticate_def sample_verify_def sample_next_session_def sample_session_s_def ticks_def Let_def)

lemma login_creates:
  "createSession sample_adapter login_request 40 sample_server =
     Inr (jsonResponse 201 (session_text sample_session_s), logged_in)"
  and login_created:
  "handle sample_adapter login_request 40 sample_server =
     (jsonResponse 201 (session_text sample_session_s), logged_in)"
proof -
  have route: "dispatch sample_adapter login_request 40 sample_server =
      createSession sample_adapter login_request 40 sample_server"
    by (simp add: dispatch_def login_request_def sample_http_def)
  have created: "\<exists>s. createSession sample_adapter login_request 40 sample_server =
      Inr (jsonResponse 201 (session_text sample_session_s), s)"
    by (simp add: createSession_def login_request_def sample_headers authorizationValue_def
      sample_adapter_def sample_server_def StrongId_ctor_def login_accepted accept_session_def Let_def)
      (simp add: sample_http_def sample_headers login_accepted accept_session_def
      sample_session_s_def activeAt_def)
  then show "createSession sample_adapter login_request 40 sample_server =
     Inr (jsonResponse 201 (session_text sample_session_s), logged_in)"
    "handle sample_adapter login_request 40 sample_server =
     (jsonResponse 201 (session_text sample_session_s), logged_in)"
    using route by (auto simp: logged_in_def handle_def)
qed

lemma logged_in_eq:
  "logged_in = sample_server\<lparr>hs_identity := (1, 1),
     hs_service := (hs_service sample_server)\<lparr>sv_store :=
       (Store_ctor True (Some (\<lambda>_ _. True)) None (Some sample_memberships))
         \<lparr>sto_sessions := [(StrongId ''s'', sample_session_s)]\<rparr>\<rparr>\<rparr>"
  apply (simp add: logged_in_def handle_def dispatch_def createSession_def login_request_def sample_headers
      authorizationValue_def sample_adapter_def sample_server_def StrongId_ctor_def login_accepted
      accept_session_def Let_def) 
  apply (simp add: sample_http_def sample_headers login_accepted accept_session_def
      sample_session_s_def activeAt_def with_store_def store_sessions_def upsertSession_def Store_ctor_def)
  done

definition talking :: "(memory_repository, nat, nat \<times> nat) HttpState" where
  "talking = snd (handle sample_adapter talk_request 50 logged_in)"

lemma talk_parsed:
  "parseFlatJsonObject (hq_body talk_request) = Some (flat_object talk_fields [])"
  unfolding talk_request_def sample_http_def
  by (simp, rule flat_object_reaches_server)
    (simp_all add: talk_fields_def plain_char_def)

lemma talk_body:
  "hasOnlyFields (flat_object talk_fields [])
     [''client_transmission_id'', ''scope'', ''membership_version'']"
  "stringField (flat_object talk_fields []) ''client_transmission_id'' = Some ''c1''"
  "stringField (flat_object talk_fields []) ''scope'' = Some ''team''"
  "unsignedField (flat_object talk_fields []) ''membership_version'' = Some 3"
  by (simp_all add: talk_fields_def hasOnlyFields_def stringField_def unsignedField_def std_emplace_def JsonScalar_empty_def)

definition talk_command :: StartTransmissionCommand where
  "talk_command =
     \<lparr>st_session_id = StrongId ''s'', st_device_id = StrongId ''d'',
      st_client_transmission_id = StrongId ''c1'', st_scope = Team_scope,
      st_membership_version = 3, st_correlation_id = StrongId ''k''\<rparr>"

definition talk_authorized :: AuthorizedTransmission where
  "talk_authorized =
     \<lparr>au_transmission_id = StrongId ''x'', au_client_transmission_id = StrongId ''c1'',
      au_sender_player_id = StrongId ''alice'', au_scope = Team_scope, au_membership_version = 3,
      au_recipients = [StrongId ''alice'', StrongId ''bob''], au_correlation_id = StrongId ''k''\<rparr>"

definition talk_active :: ActiveTransmission where
  "talk_active =
     \<lparr>at_authorization = talk_authorized, at_session_id = StrongId ''s'',
      at_device_id = StrongId ''d'', at_started_at = 50, at_scope_node_id = ''t1'',
      at_scope_can_subscribe = True\<rparr>"

definition logged_store :: "memory_repository Store" where
  "logged_store = (Store_ctor True (Some (\<lambda>_ _. True)) None (Some sample_memberships))
         \<lparr>sto_sessions := [(StrongId ''s'', sample_session_s)]\<rparr>"

lemma logged_reads:
  "currentSessionLocked logged_store (StrongId ''s'') = Some sample_session_s"
  "currentMembershipLocked memory_repo logged_store (StrongId ''alice'') = Some admin_context"
  by (simp_all add: logged_store_def Store_ctor_def currentSessionLocked_def currentMembershipLocked_def
    memory_repo_def sample_memberships_def)

lemma talk_authorization:
  "authorizeStart (currentSessionLocked logged_store) (currentMembershipLocked memory_repo logged_store)
     sample_next_id talk_command 50 0 = (Inr talk_authorized, 1)"
  by (simp add: authorizeStart_def talk_command_def logged_reads sample_session_s_def activeAt_def
      admin_context_def admin_member_def sample_routing_defs sample_next_id_def talk_authorized_def Let_def
      del: containsScope_iff)

lemma talk_activation:
  "activate memory_repo talk_authorized (StrongId ''s'') (StrongId ''d'') 50 logged_store =
     (Inr talk_active, logged_store\<lparr>sto_active := [(StrongId ''x'', talk_active)],
        sto_calls := [Call_onStarted talk_active True]\<rparr>)"
  by (simp add: activate_def logged_reads sample_session_s_def activeAt_def talk_authorized_def talk_active_def
      admin_context_def admin_member_def sample_membership_defs sample_hierarchy_def
      snapshot_find_def lower_bound_def findScope_def canReceive_def std_emplace_def Let_def)
   (simp add: logged_store_def Store_ctor_def)

lemma session_request:
  assumes "sp_find (ha_sessions a) store (StrongId ''s'') = Some sample_session_s" and "now < 60000000040"
  shows "authenticateRequestSession (sp_find (ha_sessions a) store)
     (sample_http verb target ''Session s'' body) now =
     Inr (Inr \<lparr>rq_session = sample_session_s, rq_device_id = StrongId ''d'',
               rq_correlation_id = StrongId ''k''\<rparr>)"
  using assms
  by (simp add: authenticateRequestSession_def authorizationValue_def sample_headers StrongId_ctor_def
      Let_def) (simp add: activeAt_def sample_session_s_def)

lemma talk_starts:
  obtains v where
    "start memory_repo sample_next_id talk_command 50 (hs_service logged_in) = (Inr talk_active, v)"
    "active (sv_store v) (StrongId ''x'') = Some talk_active"
    "sto_sessions (sv_store v) = [(StrongId ''s'', sample_session_s)]"
    "sto_persistent_memberships (sv_store v) = Some sample_memberships"
proof -
  obtain l where allow: "allow (StrongId ''alice'') Limit_start 50 (sv_limiter (hs_service logged_in)) = (True, l)"
    by (simp add: logged_in_eq sample_server_def RateLimiter_ctor_def allow_def history_of_def Let_def)
  have fields: "hs_store logged_in = logged_store" "sv_ids (hs_service logged_in) = 0"
      "st_session_id talk_command = StrongId ''s''"
      "st_device_id talk_command = StrongId ''d''"
      "as_player_id sample_session_s = StrongId ''alice''"
      "as_device_id sample_session_s = StrongId ''d''"
      "activeAt sample_session_s 50"
    by (simp_all add: logged_in_eq logged_store_def sample_server_def talk_command_def sample_session_s_def activeAt_def)
  show thesis
    by (rule that, simp add: start_def fields allow Let_def talk_authorization logged_reads(1) talk_activation)
     (simp_all add: active_def logged_store_def Store_ctor_def record_defs record_event_def)
qed

lemma talk_created:
  "handle sample_adapter talk_request 50 logged_in = (jsonResponse 201 (started_text talk_active), talking)"
  "active (hs_store talking) (StrongId ''x'') = Some talk_active"
  "sto_sessions (hs_store talking) = [(StrongId ''s'', sample_session_s)]"
  "sto_persistent_memberships (hs_store talking) = Some sample_memberships"
proof -
  obtain v where v: "start memory_repo sample_next_id talk_command 50 (hs_service logged_in) = (Inr talk_active, v)"
    "active (sv_store v) (StrongId ''x'') = Some talk_active"
    "sto_sessions (sv_store v) = [(StrongId ''s'', sample_session_s)]"
    "sto_persistent_memberships (sv_store v) = Some sample_memberships"
    by (rule talk_starts)
  have found: "sp_find (ha_sessions sample_adapter) (hs_store logged_in) (StrongId ''s'') = Some sample_session_s"
    by (simp add: sample_adapter_def store_sessions_def logged_in_eq currentSessionLocked_def Store_ctor_def)
  have adapter: "ha_memberships sample_adapter = memory_repo"
      "ha_next_transmission sample_adapter = sample_next_id"
    by (simp_all add: sample_adapter_def)
  have started: "startTransmissionResponse sample_adapter
      \<lparr>rq_session = sample_session_s, rq_device_id = StrongId ''d'', rq_correlation_id = StrongId ''k''\<rparr>
      (flat_object talk_fields []) 50 logged_in =
      Inr (jsonResponse 201 (started_text talk_active), logged_in\<lparr>hs_service := v\<rparr>)"
    using v(1) unfolding talk_command_def
    by (simp add: startTransmissionResponse_def talk_body parseScope_def StrongId_ctor_def adapter
      sample_session_s_def answer_def)
  have verb: "hq_method talk_request = ''POST''" "hq_target talk_request = ''/api/v1/transmissions''"
    by (simp_all add: talk_request_def sample_http_def)
  let ?rq = "\<lparr>rq_session = sample_session_s, rq_device_id = StrongId ''d'', rq_correlation_id = StrongId ''k''\<rparr>"
  have "handle_session sample_adapter talk_request ?rq 50 logged_in =
      Inr (jsonResponse 201 (started_text talk_active), logged_in\<lparr>hs_service := v\<rparr>)"
    using started by (simp add: handle_session_def verb membership_admin_prefix_def talk_parsed)
  then have "handle sample_adapter talk_request 50 logged_in =
      (jsonResponse 201 (started_text talk_active), logged_in\<lparr>hs_service := v\<rparr>)"
    using session_request [OF found, of 50 "''POST''" "''/api/v1/transmissions''" "flat_object_text talk_fields"]
    by (simp add: handle_def dispatch_def verb talk_request_def [symmetric])
  then show "handle sample_adapter talk_request 50 logged_in = (jsonResponse 201 (started_text talk_active), talking)"
  "active (hs_store talking) (StrongId ''x'') = Some talk_active"
  "sto_sessions (hs_store talking) = [(StrongId ''s'', sample_session_s)]"
  "sto_persistent_memberships (hs_store talking) = Some sample_memberships"
    using v by (simp_all add: talking_def)
qed

lemma talking_reachable: "server_reachable sample_adapter sample_server talking"
  using server_reachable.request [OF server_reachable.request [OF server_reachable.serving]]
  by (simp add: talking_def logged_in_def)

lemma sample_server_laws:
  "membership_repo_laws (ha_memberships sample_adapter) std_ok"
  "program_port (ha_sessions sample_adapter)"
  "fresh_store_ok std_ok (Some sample_memberships)"
  "hs_store sample_server = Store_ctor True (Some (\<lambda>_ _. True)) None (Some sample_memberships)"
  by (simp_all add: sample_adapter_def sample_store_laws program_port_def fresh_store_ok_def
      sample_memberships_def sample_server_def std_ok_def)

theorem request_needs_session_witness:
  "\<exists>session. sp_find (ha_sessions sample_adapter) (hs_store logged_in) (StrongId ''s'') = Some session \<and>
     activeAt session 50 \<and> as_device_id session = StrongId ''d''"
proof -
  have "(hq_target talk_request, hq_method talk_request) \<notin>
      {(''/api/v1/health'', ''GET''), (''/api/v1/sessions'', ''POST'')}"
    by (simp add: talk_request_def sample_http_def)
  from request_needs_session [OF talk_created(1) this] show ?thesis
    by (auto simp: talk_request_def sample_headers authorizationValue_def Let_def)
qed

theorem created_session_witness:
  "authenticateRequestSession (sp_find (ha_sessions sample_adapter) (hs_store logged_in)) talk_request 50 =
     Inr (Inr \<lparr>rq_session = sample_session_s, rq_device_id = StrongId ''d'',
               rq_correlation_id = StrongId ''k''\<rparr>)"
proof -
  have port: "ha_sessions sample_adapter = store_sessions" by (simp add: sample_adapter_def)
  have logged: "authorizationValue login_request ''Bearer '' = Some ''secret''"
      "header login_request ''x-hvc-device-id'' = ''d''" "header login_request ''x-correlation-id'' = ''k''"
      "ha_authenticate sample_adapter \<lparr>ac_credential = ''secret'', ac_device_id = StrongId ''d'',
         ac_correlation_id = StrongId ''k''\<rparr> 40 (hs_identity sample_server) = (Inr sample_session_s, 1, 1)"
    by (simp_all add: login_request_def sample_headers authorizationValue_def sample_adapter_def
        sample_server_def login_accepted)
  have talk: "authorizationValue talk_request ''Session '' = Some ''s''"
      "header talk_request ''x-hvc-device-id'' = ''d''" "header talk_request ''x-correlation-id'' = ''k''"
      "activeAt sample_session_s 50" "as_session_id sample_session_s = StrongId ''s''"
      "as_device_id sample_session_s = StrongId ''d''"
    by (simp_all add: talk_request_def sample_headers authorizationValue_def sample_session_s_def activeAt_def)
  from created_session_serves_its_device [OF login_creates] port logged talk show ?thesis
    by fastforce
qed

theorem served_transmissions_witness:
  "active (hs_store talking) (StrongId ''x'') = Some talk_active \<and>
   transmission_current memory_repo (hs_store talking) talk_active"
  using served_transmissions_are_current [OF sample_server_laws talking_reachable] talk_created(2)
  by (simp add: sample_adapter_def)

definition removed :: "(memory_repository, nat, nat \<times> nat) HttpState" where
  "removed = snd (handle sample_adapter removal_request 60 talking)"

lemma talking_inv: "store_inv (ha_memberships sample_adapter) std_ok (hs_store talking)"
proof (rule server_reachable_inv [OF sample_server_laws(1,2) _ talking_reachable])
  show "store_inv (ha_memberships sample_adapter) std_ok (hs_store sample_server)"
    unfolding sample_server_laws(4)
    by (rule reachable_inv [OF sample_server_laws(1,3) store_reachable.reach_start])
qed

lemma talking_provider: "provider sample_adapter talking p = map_of sample_memberships p"
  by (simp add: provider_def currentMembershipLocked_def talk_created sample_adapter_def memory_repo_def)

lemma talking_session:
  "sp_find (ha_sessions sample_adapter) (hs_store talking) (StrongId ''s'') = Some sample_session_s"
  by (simp add: sample_adapter_def store_sessions_def currentSessionLocked_def talk_created)

lemma removed_handled:
  "provider sample_adapter (snd (handle sample_adapter removal_request 60 talking)) (StrongId ''bob'') = None"
proof -
  let ?store = "snd (removeMembership memory_repo (StrongId ''bob'') 60 (StrongId ''k'') (hs_store talking))"
  have fields: "ha_authorizer sample_adapter = Some (role_authorizer memory_repo)"
      "ha_administration sample_adapter" "ha_memberships sample_adapter = memory_repo"
    by (simp_all add: sample_adapter_def)
  have current: "currentMembershipLocked memory_repo (hs_store talking) = map_of sample_memberships"
    using talking_provider by (simp add: provider_def fields fun_eq_iff)
  have role: "hasRole memory_repo (hs_store talking) (StrongId ''alice'') ''administrator''"
    unfolding hasRole_def current
    by (simp add: sample_memberships_def admin_context_def admin_member_def sample_membership_defs
        snapshot_find_def lower_bound_def)
  have found: "provider sample_adapter talking (StrongId ''bob'') \<noteq> None"
    by (simp add: talking_provider sample_memberships_def)
  let ?rq = "\<lparr>rq_session = sample_session_s, rq_device_id = StrongId ''d'', rq_correlation_id = StrongId ''k''\<rparr>"
  have verb: "hq_method removal_request = ''DELETE''" "hq_body removal_request = []"
      "hq_target removal_request = ''/api/v1/admin/memberships/bob''"
      "as_player_id sample_session_s = StrongId ''alice''"
    by (simp_all add: removal_request_def sample_http_def sample_session_s_def)
  obtain interrupted store where removal:
      "removeMembership memory_repo (StrongId ''bob'') 60 (StrongId ''k'') (hs_store talking) =
        (interrupted, store)" by fastforce
  have "handle_administration sample_adapter removal_request ''bob'' ?rq 60 talking =
      Inr (jsonResponse 200 (removed_text (StrongId ''bob'') (length interrupted)), with_store store talking)"
    using role found removal
    by (simp add: handle_administration_def StrongId_ctor_def fields role_authorizer_def verb answer_def
        del: not_None_eq)
  then have "handle_session sample_adapter removal_request ?rq 60 talking =
      Inr (jsonResponse 200 (removed_text (StrongId ''bob'') (length interrupted)), with_store store talking)"
    by (simp add: handle_session_def verb membership_admin_prefix_def)
  then have "handle sample_adapter removal_request 60 talking =
      (jsonResponse 200 (removed_text (StrongId ''bob'') (length interrupted)), with_store store talking)"
    using session_request [OF talking_session, of 60 "''DELETE''"
        "''/api/v1/admin/memberships/bob''" "[]"]
    by (simp add: handle_def dispatch_def verb removal_request_def [symmetric])
  then have "snd (handle sample_adapter removal_request 60 talking) = with_store ?store talking"
    by (simp add: removal)
  moreover have "currentMembershipLocked memory_repo ?store (StrongId ''bob'') = None"
    using membership_repo_laws.store_step_current [OF sample_store_laws
        inv_memberships_ok [OF talking_inv [unfolded fields]],
        of "Do_removeMembership (StrongId ''bob'') 60 (StrongId ''k'')"] by simp
  ultimately show ?thesis by (simp add: provider_def fields)
qed

theorem administration_witness:
  "\<exists>ctx m. provider sample_adapter talking (StrongId ''alice'') = Some ctx \<and>
     snapshot_find (mc_snapshot ctx) (StrongId ''alice'') = Some m \<and>
     StrongId ''administrator'' \<in> set (vm_role_ids m)"
proof -
  obtain response where h: "handle sample_adapter removal_request 60 talking = (response, removed)"
    by (cases "handle sample_adapter removal_request 60 talking") (simp add: removed_def)
  have authorizer: "ha_authorizer sample_adapter = Some (role_authorizer (ha_memberships sample_adapter))"
    by (simp add: sample_adapter_def)
  have changed: "provider sample_adapter removed (StrongId ''bob'') \<noteq> provider sample_adapter talking (StrongId ''bob'')"
    using removed_handled by (simp add: removed_def talking_provider sample_memberships_def)
  have actor: "request_session (sp_find (ha_sessions sample_adapter) (hs_store talking)) removal_request 60 =
      Some rq \<Longrightarrow> as_player_id (rq_session rq) = StrongId ''alice''" for rq
    using authenticated_session [OF session_request [OF talking_session, of 60]]
    by (auto simp: removal_request_def sample_session_s_def)
  show ?thesis
    using administration_needs_role [OF sample_server_laws(1) talking_inv sample_server_laws(2)
        authorizer h changed] actor by metis
qed

end
