(* ===== verification/Control_Plane_Client.thy ===== *)
theory Control_Plane_Client
  imports Client_Json Voice_Client Control_Plane_Types
begin

text \<open>
  The typed client of the control plane (\<open>ControlPlaneClient\<close> in
  \<open>libs/client/include/hvc/client/control_plane_client.hpp\<close> and
  \<open>libs/client/src/control_plane_client.cpp\<close>): what it sends, and how it checks and decodes what
  it receives. The HTTP transport and the generator of identifiers are parameters; a transport may
  throw, and the text of its exception is then all the client learns. A decoder of the code's
  methods is a function of the document's root.
\<close>

section \<open>Data\<close>

record ClientHttpRequest =
  cq_method :: string
  cq_target :: string
  cq_headers :: "(string, string) std_map"
  cq_body :: string

record ClientHttpResponse =
  cr_status_code :: int
  cr_headers :: "(string, string) std_map"
  cr_body :: string
  cr_transport_error :: string

datatype ControlPlaneErrorKind =
    Cpe_invalid_state | Cpe_invalid_argument | Cpe_transport | Cpe_invalid_response | Cpe_server

record ControlPlaneError =
  ce_kind :: ControlPlaneErrorKind
  ce_status_code :: int
  ce_code :: string
  ce_message :: string

type_synonym 'v ControlPlaneResult = "ControlPlaneError + 'v"

record ControlPlaneSession =
  cs_session_id :: SessionId
  cs_player_id :: PlayerId
  cs_device_id :: DeviceId
  cs_expires_at :: time_point

record MembershipView =
  mv_version :: u64
  mv_hierarchy_id :: HierarchyId
  mv_player_id :: PlayerId
  mv_group_id :: GroupId
  mv_specialization_id :: SpecializationId
  mv_team_id :: TeamId
  mv_role_ids :: "RoleId list"
  mv_connected :: bool
  mv_can_receive_voice :: bool
  mv_transmit_muted :: bool

datatype DirectoryNodeKind = Kind_group | Kind_specialization | Kind_team

record DirectoryNodeView =
  nv_node_id :: string
  nv_kind :: DirectoryNodeKind
  nv_parent_node_id :: "string option"
  nv_display_name :: string
  nv_sort_index :: u64

record PublicRoleView =
  rv_role_id :: string
  rv_display_name :: string

record DirectoryParticipantView =
  pv_player_id :: string
  pv_display_name :: string
  pv_primary_team_id :: string
  pv_public_role_ids :: "string list"

record DirectoryView =
  dv_version :: u64
  dv_group_id :: string
  dv_nodes :: "DirectoryNodeView list"
  dv_public_roles :: "PublicRoleView list"
  dv_participants :: "DirectoryParticipantView list"

record DirectoryFetch =
  df_snapshot :: "DirectoryView option"

datatype ClientPresenceMode = Presence_mode_snapshot | Presence_mode_delta

record ClientPresenceEntry =
  pe_player_id :: string
  pe_online :: bool

record DirectoryPresenceView =
  py_version :: u64
  py_mode :: ClientPresenceMode
  py_observed_at :: time_point
  py_entries :: "ClientPresenceEntry list"
  py_retry_after :: u64

record VoiceGrantSet =
  gs_membership_version :: u64
  gs_expires_at :: time_point
  gs_room_grants :: "VoiceRoomGrant list"

record StartedTransmission =
  sd_transmission_id :: TransmissionId
  sd_client_transmission_id :: ClientTransmissionId
  sd_scope :: VoiceScope
  sd_membership_version :: u64
  sd_recipient_count :: u64

record EndedTransmissionView =
  ed_transmission_id :: TransmissionId
  ed_stop_reason :: string

text \<open>The collaborators and the members. An exception of the transport is its \<open>what()\<close>.\<close>

record ('t, 'g) ClientPorts =
  cp_send :: "ClientHttpRequest \<Rightarrow> 't \<Rightarrow> (string + ClientHttpResponse) \<times> 't"
  cp_nextCorrelationId :: "'g \<Rightarrow> CorrelationId \<times> 'g"
  cp_nextTransmissionId :: "'g \<Rightarrow> ClientTransmissionId \<times> 'g"

record ('t, 'g) ControlPlaneClient =
  cc_transport :: 't
  cc_identifiers :: 'g
  cc_device_id :: DeviceId
  cc_session :: "ControlPlaneSession option"

definition ControlPlaneClient_ctor :: "'t \<Rightarrow> 'g \<Rightarrow> DeviceId \<Rightarrow> ('t, 'g) ControlPlaneClient" where
  "ControlPlaneClient_ctor transport identifiers device =
     \<lparr>cc_transport = transport, cc_identifiers = identifiers, cc_device_id = device,
      cc_session = None\<rparr>"

definition invalidState :: "string \<Rightarrow> ControlPlaneError" where
  "invalidState message =
     \<lparr>ce_kind = Cpe_invalid_state, ce_status_code = 0, ce_code = ''invalid_state'',
      ce_message = message\<rparr>"

definition invalidArgument :: "string \<Rightarrow> ControlPlaneError" where
  "invalidArgument message =
     \<lparr>ce_kind = Cpe_invalid_argument, ce_status_code = 0, ce_code = ''invalid_argument'',
      ce_message = message\<rparr>"

definition invalidResponse :: "string \<Rightarrow> ControlPlaneError" where
  "invalidResponse message =
     \<lparr>ce_kind = Cpe_invalid_response, ce_status_code = 0, ce_code = ''invalid_response'',
      ce_message = message\<rparr>"

section \<open>Fields\<close>

definition string_at :: "JsonValue \<Rightarrow> string \<Rightarrow> string option" where
  "string_at object name =
     (case json_field object name Json_string of Some (JString s) \<Rightarrow> Some s | _ \<Rightarrow> None)"

definition unsigned_at :: "JsonValue \<Rightarrow> string \<Rightarrow> u64 option" where
  "unsigned_at object name =
     (case json_field object name Json_unsigned of Some (JUnsigned v) \<Rightarrow> Some v | _ \<Rightarrow> None)"

definition boolean_at :: "JsonValue \<Rightarrow> string \<Rightarrow> bool option" where
  "boolean_at object name =
     (case json_field object name Json_boolean of Some (JBoolean b) \<Rightarrow> Some b | _ \<Rightarrow> None)"

definition array_at :: "JsonValue \<Rightarrow> string \<Rightarrow> JsonValue list option" where
  "array_at object name =
     (case json_field object name Json_array of Some (JArray vs) \<Rightarrow> Some vs | _ \<Rightarrow> None)"

definition client_parseScope :: "string \<Rightarrow> VoiceScope option" where
  "client_parseScope v =
     (if v = ''team'' then Some Team_scope
      else if v = ''specialization'' then Some Specialization_scope
      else if v = ''group'' then Some Group_scope
      else None)"

definition parseDirectoryNodeKind :: "string \<Rightarrow> DirectoryNodeKind option" where
  "parseDirectoryNodeKind v =
     (if v = ''group'' then Some Kind_group
      else if v = ''specialization'' then Some Kind_specialization
      else if v = ''team'' then Some Kind_team
      else None)"

fun client_scopeName :: "VoiceScope \<Rightarrow> string" where
  "client_scopeName Team_scope = ''team''"
| "client_scopeName Specialization_scope = ''specialization''"
| "client_scopeName Group_scope = ''group''"

section \<open>Responses\<close>

definition lower :: "char \<Rightarrow> char" where
  "lower c =
     (if byte (CHR ''A'') \<le> byte c \<and> byte c \<le> byte (CHR ''Z'')
      then char_of (byte c + (byte (CHR ''a'') - byte (CHR ''A''))) else c)"

definition asciiHeaderNameEquals :: "string \<Rightarrow> string \<Rightarrow> bool" where
  "asciiHeaderNameEquals left right \<longleftrightarrow>
     length left = length right \<and> list_all2 (\<lambda>a b. lower a = lower b) left right"

definition responseHeader :: "ClientHttpResponse \<Rightarrow> string \<Rightarrow> string option" where
  "responseHeader response name =
     map_option snd (List.find (\<lambda>(header_name, v). asciiHeaderNameEquals header_name name)
       (cr_headers response))"

definition error_envelope :: "int \<Rightarrow> JsonValue \<Rightarrow> ControlPlaneError" where
  "error_envelope status root =
     (case Option.bind (json_field root ''error'' Json_object)
        (\<lambda>e. Option.bind (string_at e ''code'') (\<lambda>c. map_option (Pair c) (string_at e ''message''))) of
        None \<Rightarrow> invalidResponse ''control-plane error response has no valid error envelope''
      | Some (code, message) \<Rightarrow>
          \<lparr>ce_kind = Cpe_server, ce_status_code = status, ce_code = code, ce_message = message\<rparr>)"

definition responseRoot :: "ClientHttpResponse \<Rightarrow> JsonValue ControlPlaneResult" where
  "responseRoot response =
     (if cr_transport_error response \<noteq> []
      then Inl \<lparr>ce_kind = Cpe_transport, ce_status_code = 0, ce_code = ''transport_error'',
                ce_message = cr_transport_error response\<rparr>
      else if responseHeader response ''x-hvc-api-version'' \<noteq> Some ''v1''
      then Inl (invalidResponse ''control-plane response has an unsupported protocol header'')
      else case JsonParser_parse (cr_body response) of
        None \<Rightarrow> Inl (invalidResponse ''control-plane response is not valid JSON'')
      | Some parsed \<Rightarrow>
          if string_at parsed ''api_version'' \<noteq> Some ''v1''
          then Inl (invalidResponse ''control-plane response has an unsupported API version'')
          else if cr_status_code response < 200 \<or> 300 \<le> cr_status_code response
          then Inl (error_envelope (cr_status_code response) parsed)
          else Inr parsed)"

text \<open>The time is exact; the code multiplies in the clock's 64-bit representation.\<close>

definition timePoint :: "u64 \<Rightarrow> time_point option" where
  "timePoint milliseconds =
     (if 2 ^ 63 - 1 < unat milliseconds then None else Some (int (unat milliseconds) * 1000000))"

section \<open>Decoding\<close>

definition decode_session :: "DeviceId \<Rightarrow> JsonValue \<Rightarrow> ControlPlaneSession ControlPlaneResult" where
  "decode_session device root =
     (case (string_at root ''session_id'', string_at root ''player_id'', string_at root ''device_id'',
            Option.bind (unsigned_at root ''expires_at_unix_ms'') timePoint) of
        (Some session_id, Some player_id, Some device_id, Some expires_at) \<Rightarrow>
          if device_id \<noteq> id_value device
          then Inl (invalidResponse ''session response is incomplete or device-mismatched'')
          else
            (case throws_bind (StrongId_ctor session_id) (\<lambda>sid.
                  throws_bind (StrongId_ctor player_id) (\<lambda>pid. Inr (sid, pid))) of
               Inl _ \<Rightarrow> Inl (invalidResponse ''session response contains an invalid identifier'')
             | Inr (sid, pid) \<Rightarrow>
                 Inr \<lparr>cs_session_id = sid, cs_player_id = pid, cs_device_id = device,
                      cs_expires_at = expires_at\<rparr>)
      | _ \<Rightarrow> Inl (invalidResponse ''session response is incomplete or device-mismatched''))"

definition invalid_member :: ControlPlaneError where
  "invalid_member = invalidResponse ''membership response contains an invalid identifier''"

fun decode_roles :: "JsonValue list \<Rightarrow> RoleId list ControlPlaneResult" where
  "decode_roles [] = Inr []"
| "decode_roles (JString r # roles) =
     (case StrongId_ctor r of
        Inl _ \<Rightarrow> Inl invalid_member
      | Inr role_id \<Rightarrow> throws_bind (decode_roles roles) (\<lambda>rs. Inr (role_id # rs)))"
| "decode_roles (_ # roles) = Inl (invalidResponse ''membership role IDs must be strings'')"

definition decode_member_ids ::
  "string \<Rightarrow> string \<Rightarrow> string \<Rightarrow> string \<Rightarrow> string \<Rightarrow>
   (HierarchyId \<times> PlayerId \<times> GroupId \<times> SpecializationId \<times> TeamId) throws" where
  "decode_member_ids hierarchy player grp specialization team =
     throws_bind (StrongId_ctor hierarchy) (\<lambda>h.
     throws_bind (StrongId_ctor player) (\<lambda>p.
     throws_bind (StrongId_ctor grp) (\<lambda>g.
     throws_bind (StrongId_ctor specialization) (\<lambda>sp.
     throws_bind (StrongId_ctor team) (\<lambda>t. Inr (h, p, g, sp, t))))))"

definition decode_membership :: "PlayerId \<Rightarrow> JsonValue \<Rightarrow> MembershipView ControlPlaneResult" where
  "decode_membership session_player root =
     (case (unsigned_at root ''membership_version'', string_at root ''hierarchy_id'',
            string_at root ''player_id'', string_at root ''group_id'',
            string_at root ''specialization_id'', string_at root ''team_id'',
            array_at root ''role_ids'', boolean_at root ''connected'',
            boolean_at root ''can_receive_voice'', boolean_at root ''transmit_muted'') of
        (Some version, Some hierarchy, Some player, Some grp, Some specialization, Some team,
         Some roles, Some connected, Some can_receive, Some muted) \<Rightarrow>
          if version = 0 \<or> player \<noteq> id_value session_player
          then Inl (invalidResponse ''membership response is incomplete or session-mismatched'')
          else
            throws_bind (decode_roles roles) (\<lambda>role_ids.
              (case decode_member_ids hierarchy player grp specialization team of
                 Inl _ \<Rightarrow> Inl invalid_member
               | Inr (h, p, g, sp, t) \<Rightarrow>
                   Inr \<lparr>mv_version = version, mv_hierarchy_id = h, mv_player_id = p,
                        mv_group_id = g, mv_specialization_id = sp, mv_team_id = t,
                        mv_role_ids = role_ids, mv_connected = connected,
                        mv_can_receive_voice = can_receive, mv_transmit_muted = muted\<rparr>))
      | _ \<Rightarrow> Inl (invalidResponse ''membership response is incomplete or session-mismatched''))"

text \<open>The directory: nodes in order, their kinds by identifier, then roles and participants.\<close>

type_synonym node_kinds = "(string, DirectoryNodeKind) std_map"

definition decode_parent :: "JsonValue \<Rightarrow> string option ControlPlaneResult" where
  "decode_parent node =
     (case string_at node ''parent_node_id'' of
        Some parent \<Rightarrow>
          if parent = [] then Inl (invalidResponse ''directory node has an empty parent'')
          else Inr (Some parent)
      | None \<Rightarrow>
          if json_field node ''parent_node_id'' Json_null = None
          then Inl (invalidResponse ''directory node has no valid parent field'')
          else Inr None)"

definition invalid_node :: ControlPlaneError where
  "invalid_node = invalidResponse ''directory node is invalid or duplicated''"

definition decode_node ::
  "JsonValue \<Rightarrow> node_kinds \<Rightarrow> (DirectoryNodeView \<times> node_kinds) ControlPlaneResult" where
  "decode_node node kinds =
     (case (string_at node ''node_id'',
            Option.bind (string_at node ''node_type'') parseDirectoryNodeKind,
            string_at node ''display_name'', unsigned_at node ''sort_index'') of
        (Some node_id, Some kind, Some name, Some order) \<Rightarrow>
          if node_id = [] \<or> name = [] \<or> std_contains kinds node_id then Inl invalid_node
          else
            throws_bind (decode_parent node) (\<lambda>parent.
              if (kind = Kind_group) \<noteq> (parent = None)
              then Inl (invalidResponse ''directory node hierarchy level and parent disagree'')
              else Inr (\<lparr>nv_node_id = node_id, nv_kind = kind, nv_parent_node_id = parent,
                         nv_display_name = name, nv_sort_index = order\<rparr>,
                        std_emplace node_id kind kinds))
      | _ \<Rightarrow> Inl invalid_node)"

fun decode_nodes ::
  "JsonValue list \<Rightarrow> node_kinds \<Rightarrow> (DirectoryNodeView list \<times> node_kinds) ControlPlaneResult" where
  "decode_nodes [] kinds = Inr ([], kinds)"
| "decode_nodes (node # rest) kinds =
     throws_bind (decode_node node kinds) (\<lambda>(view, kinds').
     throws_bind (decode_nodes rest kinds') (\<lambda>(views, kinds''). Inr (view # views, kinds'')))"

definition expected_parent :: "DirectoryNodeKind \<Rightarrow> DirectoryNodeKind" where
  "expected_parent kind = (if kind = Kind_team then Kind_specialization else Kind_group)"

definition check_hierarchy ::
  "string \<Rightarrow> DirectoryNodeView list \<Rightarrow> node_kinds \<Rightarrow> ControlPlaneError option" where
  "check_hierarchy grp nodes kinds =
     (if length kinds \<noteq> length nodes \<or> map_of kinds grp \<noteq> Some Kind_group \<or>
         length (filter (\<lambda>n. nv_kind n = Kind_group) nodes) \<noteq> 1
      then Some (invalidResponse ''directory hierarchy has no unique Group root'')
      else if list_ex (\<lambda>n. case nv_parent_node_id n of
             None \<Rightarrow> False
           | Some parent \<Rightarrow> map_of kinds parent \<noteq> Some (expected_parent (nv_kind n))) nodes
      then Some (invalidResponse ''directory hierarchy contains an invalid parent'')
      else None)"

fun decode_public_roles ::
  "JsonValue list \<Rightarrow> (string, bool) std_map \<Rightarrow>
   (PublicRoleView list \<times> (string, bool) std_map) ControlPlaneResult" where
  "decode_public_roles [] seen = Inr ([], seen)"
| "decode_public_roles (role # rest) seen =
     (case (string_at role ''role_id'', string_at role ''display_name'') of
        (Some role_id, Some name) \<Rightarrow>
          if role_id = [] \<or> name = [] \<or> std_contains seen role_id
          then Inl (invalidResponse ''public directory role is invalid or duplicated'')
          else
            throws_bind (decode_public_roles rest (std_emplace role_id True seen)) (\<lambda>(views, seen').
              Inr (\<lparr>rv_role_id = role_id, rv_display_name = name\<rparr> # views, seen'))
      | _ \<Rightarrow> Inl (invalidResponse ''public directory role is invalid or duplicated''))"

fun decode_participant_roles ::
  "(string, bool) std_map \<Rightarrow> JsonValue list \<Rightarrow> (string, bool) std_map \<Rightarrow>
   string list ControlPlaneResult" where
  "decode_participant_roles known [] seen = Inr []"
| "decode_participant_roles known (JString r # rest) seen =
     (if \<not> std_contains known r \<or> std_contains seen r
      then Inl (invalidResponse ''directory participant has an invalid public role'')
      else throws_bind (decode_participant_roles known rest (std_emplace r True seen))
             (\<lambda>rs. Inr (r # rs)))"
| "decode_participant_roles known (_ # rest) seen =
     Inl (invalidResponse ''directory participant has an invalid public role'')"

fun decode_participants ::
  "node_kinds \<Rightarrow> (string, bool) std_map \<Rightarrow> JsonValue list \<Rightarrow> (string, bool) std_map \<Rightarrow>
   DirectoryParticipantView list ControlPlaneResult" where
  "decode_participants kinds known [] seen = Inr []"
| "decode_participants kinds known (participant # rest) seen =
     (case (string_at participant ''player_id'', string_at participant ''display_name'',
            string_at participant ''primary_team_id'', array_at participant ''public_role_ids'') of
        (Some player_id, Some name, Some team, Some roles) \<Rightarrow>
          if player_id = [] \<or> name = [] \<or> map_of kinds team \<noteq> Some Kind_team \<or>
             std_contains seen player_id
          then Inl (invalidResponse ''directory participant is invalid or duplicated'')
          else
            throws_bind (decode_participant_roles known roles []) (\<lambda>role_ids.
            throws_bind (decode_participants kinds known rest (std_emplace player_id True seen))
              (\<lambda>views. Inr (\<lparr>pv_player_id = player_id, pv_display_name = name,
                             pv_primary_team_id = team, pv_public_role_ids = role_ids\<rparr> # views)))
      | _ \<Rightarrow> Inl (invalidResponse ''directory participant is invalid or duplicated''))"

definition client_etag :: "u64 \<Rightarrow> string" where
  "client_etag version = quoted (''directory-'' @ to_string_u64 version)"

definition decode_directory :: "ClientHttpResponse \<Rightarrow> JsonValue \<Rightarrow> DirectoryView ControlPlaneResult"
where
  "decode_directory response root =
     (case (unsigned_at root ''directory_version'', string_at root ''group_id'',
            array_at root ''nodes'', array_at root ''public_roles'', array_at root ''participants'') of
        (Some version, Some grp, Some nodes, Some roles, Some participants) \<Rightarrow>
          if version = 0 \<or> grp = [] \<or> 200 < length participants
          then Inl (invalidResponse ''directory response is incomplete'')
          else if responseHeader response ''etag'' \<noteq> Some (client_etag version)
          then Inl (invalidResponse ''directory response has an inconsistent ETag'')
          else
            throws_bind (decode_nodes nodes []) (\<lambda>(node_views, kinds).
              (case check_hierarchy grp node_views kinds of
                 Some e \<Rightarrow> Inl e
               | None \<Rightarrow>
                   throws_bind (decode_public_roles roles []) (\<lambda>(role_views, known).
                   throws_bind (decode_participants kinds known participants [])
                     (\<lambda>participant_views.
                       Inr \<lparr>dv_version = version, dv_group_id = grp, dv_nodes = node_views,
                            dv_public_roles = role_views, dv_participants = participant_views\<rparr>))))
      | _ \<Rightarrow> Inl (invalidResponse ''directory response is incomplete''))"

text \<open>Presence: the mode asked for, the polling delay of the response, every player once.\<close>

definition retry_seconds :: "ClientHttpResponse \<Rightarrow> u64 option" where
  "retry_seconds response =
     Option.bind (responseHeader response ''retry-after'') (\<lambda>v.
       case from_chars v of
         Some (seconds, []) \<Rightarrow> if seconds = 0 \<or> 2 ^ 63 - 1 < unat seconds then None else Some seconds
       | _ \<Rightarrow> None)"

fun decode_entries ::
  "JsonValue list \<Rightarrow> (string, bool) std_map \<Rightarrow> ClientPresenceEntry list ControlPlaneResult" where
  "decode_entries [] seen = Inr []"
| "decode_entries (entry # rest) seen =
     (case (string_at entry ''player_id'', string_at entry ''state'') of
        (Some player, Some state) \<Rightarrow>
          if player = [] \<or> state \<noteq> ''online'' \<and> state \<noteq> ''offline'' \<or> std_contains seen player
          then Inl (invalidResponse ''presence entry is invalid or duplicated'')
          else
            throws_bind (decode_entries rest (std_emplace player True seen)) (\<lambda>entries.
              Inr (\<lparr>pe_player_id = player, pe_online = (state = ''online'')\<rparr> # entries))
      | _ \<Rightarrow> Inl (invalidResponse ''presence entry is invalid or duplicated''))"

definition decode_presence ::
  "u64 option \<Rightarrow> ClientHttpResponse \<Rightarrow> JsonValue \<Rightarrow> DirectoryPresenceView ControlPlaneResult" where
  "decode_presence after_version response root =
     (let expected = (if after_version = None then Presence_mode_snapshot else Presence_mode_delta) in
      case (unsigned_at root ''presence_version'', string_at root ''mode'',
            Option.bind (unsigned_at root ''observed_at_unix_ms'') timePoint,
            array_at root ''entries'') of
        (Some version, Some mode, Some observed_at, Some entries) \<Rightarrow>
          if version = 0 \<or> (mode = ''snapshot'') \<noteq> (expected = Presence_mode_snapshot) \<or>
             mode \<noteq> ''snapshot'' \<and> mode \<noteq> ''delta'' \<or>
             (case after_version of None \<Rightarrow> False | Some after \<Rightarrow> version < after)
          then Inl (invalidResponse ''presence response is incomplete or mode-mismatched'')
          else
            (case retry_seconds response of
               None \<Rightarrow> Inl (invalidResponse ''presence response has no valid Retry-After'')
             | Some seconds \<Rightarrow>
                 throws_bind (decode_entries entries []) (\<lambda>views.
                   Inr \<lparr>py_version = version, py_mode = expected, py_observed_at = observed_at,
                        py_entries = views, py_retry_after = seconds\<rparr>))
      | _ \<Rightarrow> Inl (invalidResponse ''presence response is incomplete or mode-mismatched''))"

text \<open>Voice grants: at most one for each of the three scopes.\<close>

fun decode_grants ::
  "string \<Rightarrow> JsonValue list \<Rightarrow> VoiceScope list \<Rightarrow> VoiceRoomGrant list ControlPlaneResult" where
  "decode_grants url [] seen = Inr []"
| "decode_grants url (grant # rest) seen =
     (case (Option.bind (string_at grant ''scope'') client_parseScope,
            string_at grant ''access_token'') of
        (Some sc, Some token) \<Rightarrow>
          if token = [] then Inl (invalidResponse ''voice grant entry is incomplete'')
          else if sc \<in> set seen
          then Inl (invalidResponse ''voice grant response contains a duplicate scope'')
          else
            throws_bind (decode_grants url rest (sc # seen)) (\<lambda>grants.
              Inr (\<lparr>vg_scope = sc, vg_url = url, vg_token = token\<rparr> # grants))
      | _ \<Rightarrow> Inl (invalidResponse ''voice grant entry is incomplete''))"

definition decode_voice_grants :: "JsonValue \<Rightarrow> VoiceGrantSet ControlPlaneResult" where
  "decode_voice_grants root =
     (case (string_at root ''server_url'', unsigned_at root ''membership_version'',
            Option.bind (unsigned_at root ''expires_at_unix_ms'') timePoint,
            array_at root ''grants'') of
        (Some url, Some version, Some expires_at, Some grants) \<Rightarrow>
          if url = [] \<or> version = 0 \<or> grants = []
          then Inl (invalidResponse ''voice grant response is incomplete'')
          else if 3 < length grants
          then Inl (invalidResponse ''voice grant response contains too many scopes'')
          else
            throws_bind (decode_grants url grants []) (\<lambda>room_grants.
              Inr \<lparr>gs_membership_version = version, gs_expires_at = expires_at,
                   gs_room_grants = room_grants\<rparr>)
      | _ \<Rightarrow> Inl (invalidResponse ''voice grant response is incomplete''))"

text \<open>A started transmission must be the one asked for; \<open>size_t\<close> has 64 bits.\<close>

definition decode_started ::
  "ClientTransmissionId \<Rightarrow> VoiceScope \<Rightarrow> u64 \<Rightarrow> JsonValue \<Rightarrow> StartedTransmission ControlPlaneResult"
where
  "decode_started client_id sc membership_version root =
     (case (string_at root ''transmission_id'', string_at root ''client_transmission_id'',
            Option.bind (string_at root ''scope'') client_parseScope,
            unsigned_at root ''membership_version'', unsigned_at root ''recipient_count'') of
        (Some transmission_id, Some response_client_id, Some response_scope, Some version,
         Some recipients) \<Rightarrow>
          if response_client_id \<noteq> id_value client_id \<or> response_scope \<noteq> sc \<or>
             version \<noteq> membership_version
          then Inl (invalidResponse ''transmission start response does not match the request'')
          else
            (case StrongId_ctor transmission_id of
               Inl _ \<Rightarrow> Inl (invalidResponse ''transmission response contains an invalid identifier'')
             | Inr tid \<Rightarrow>
                 Inr \<lparr>sd_transmission_id = tid, sd_client_transmission_id = client_id,
                      sd_scope = response_scope, sd_membership_version = version,
                      sd_recipient_count = recipients\<rparr>)
      | _ \<Rightarrow> Inl (invalidResponse ''transmission start response does not match the request''))"

definition decode_ended :: "TransmissionId \<Rightarrow> JsonValue \<Rightarrow> EndedTransmissionView ControlPlaneResult" where
  "decode_ended tid root =
     (case (string_at root ''transmission_id'', string_at root ''status'',
            string_at root ''stop_reason'') of
        (Some response_id, Some status, Some reason) \<Rightarrow>
          if response_id \<noteq> id_value tid \<or> status \<noteq> ''ended''
          then Inl (invalidResponse ''transmission end response does not match the request'')
          else Inr \<lparr>ed_transmission_id = tid, ed_stop_reason = reason\<rparr>
      | _ \<Rightarrow> Inl (invalidResponse ''transmission end response does not match the request''))"

section \<open>Operations\<close>

definition transport_failure :: "string \<Rightarrow> ClientHttpResponse" where
  "transport_failure message =
     \<lparr>cr_status_code = 0, cr_headers = [], cr_body = [], cr_transport_error = message\<rparr>"

definition sendSessionRequest ::
  "('t, 'g) ClientPorts \<Rightarrow> string \<Rightarrow> string \<Rightarrow> string \<Rightarrow> (string, string) std_map \<Rightarrow>
   ('t, 'g) ControlPlaneClient \<Rightarrow> ClientHttpResponse \<times> ('t, 'g) ControlPlaneClient" where
  "sendSessionRequest ports verb target body additional_headers c =
     (case cc_session c of
        None \<Rightarrow> (transport_failure ''no active session'', c)
      | Some session \<Rightarrow>
          (let (correlation, g) = cp_nextCorrelationId ports (cc_identifiers c);
               headers =
                 std_emplace ''x-hvc-device-id'' (id_value (cc_device_id c))
                   (std_emplace ''x-correlation-id'' (id_value correlation)
                     (std_emplace ''authorization'' (''Session '' @ id_value (cs_session_id session))
                       additional_headers));
               (sent, t) = cp_send ports
                 \<lparr>cq_method = verb, cq_target = target, cq_headers = headers, cq_body = body\<rparr>
                 (cc_transport c)
           in (case sent of Inr response \<Rightarrow> response | Inl message \<Rightarrow> transport_failure message,
               c\<lparr>cc_identifiers := g, cc_transport := t\<rparr>)))"

definition transport_exception :: "string \<Rightarrow> ControlPlaneError" where
  "transport_exception message =
     \<lparr>ce_kind = Cpe_transport, ce_status_code = 0, ce_code = ''transport_exception'',
      ce_message = message\<rparr>"

definition client_createSession ::
  "('t, 'g) ClientPorts \<Rightarrow> string \<Rightarrow> ('t, 'g) ControlPlaneClient \<Rightarrow>
   ControlPlaneSession ControlPlaneResult \<times> ('t, 'g) ControlPlaneClient" where
  "client_createSession ports credential c =
     (if credential = []
      then (Inl (invalidArgument ''external credential must not be empty''), c)
      else
        (let (correlation, g) = cp_nextCorrelationId ports (cc_identifiers c);
             (sent, t) = cp_send ports
               \<lparr>cq_method = ''POST'', cq_target = ''/api/v1/sessions'',
                cq_headers =
                  [(''authorization'', ''Bearer '' @ credential),
                   (''x-correlation-id'', id_value correlation),
                   (''x-hvc-device-id'', id_value (cc_device_id c))],
                cq_body = []\<rparr> (cc_transport c);
             c' = c\<lparr>cc_identifiers := g, cc_transport := t\<rparr>;
             result =
               (case sent of
                  Inl message \<Rightarrow> Inl (transport_exception message)
                | Inr response \<Rightarrow>
                    throws_bind (responseRoot response) (decode_session (cc_device_id c)))
         in (result, case result of Inl _ \<Rightarrow> c' | Inr created \<Rightarrow> c'\<lparr>cc_session := Some created\<rparr>)))"

text \<open>
  The calls of a logged-in client: without a session nothing is sent, otherwise one request, whose
  response is checked and decoded.
\<close>

definition session_call ::
  "('t, 'g) ClientPorts \<Rightarrow> string \<Rightarrow> string \<Rightarrow> string \<Rightarrow> (string, string) std_map \<Rightarrow>
   (ClientHttpResponse \<Rightarrow> 'v ControlPlaneResult) \<Rightarrow> ('t, 'g) ControlPlaneClient \<Rightarrow>
   'v ControlPlaneResult \<times> ('t, 'g) ControlPlaneClient" where
  "session_call ports verb target body headers decode c =
     (let (response, c') = sendSessionRequest ports verb target body headers c
      in (decode response, c'))"

definition client_membership ::
  "('t, 'g) ClientPorts \<Rightarrow> ('t, 'g) ControlPlaneClient \<Rightarrow>
   MembershipView ControlPlaneResult \<times> ('t, 'g) ControlPlaneClient" where
  "client_membership ports c =
     (case cc_session c of
        None \<Rightarrow> (Inl (invalidState ''a session is required before membership retrieval''), c)
      | Some session \<Rightarrow>
          session_call ports ''GET'' ''/api/v1/membership'' [] []
            (\<lambda>response. throws_bind (responseRoot response)
               (decode_membership (cs_player_id session))) c)"

definition not_modified :: "u64 option \<Rightarrow> ClientHttpResponse \<Rightarrow> DirectoryFetch ControlPlaneResult" where
  "not_modified known_version response =
     (if cr_transport_error response \<noteq> [] \<or> cr_body response \<noteq> [] \<or>
         responseHeader response ''x-hvc-api-version'' \<noteq> Some ''v1'' \<or>
         (case known_version of
            None \<Rightarrow> True
          | Some known \<Rightarrow> responseHeader response ''etag'' \<noteq> Some (client_etag known))
      then Inl (invalidResponse ''directory not-modified response is inconsistent'')
      else Inr \<lparr>df_snapshot = None\<rparr>)"

definition client_directory ::
  "('t, 'g) ClientPorts \<Rightarrow> u64 option \<Rightarrow> ('t, 'g) ControlPlaneClient \<Rightarrow>
   DirectoryFetch ControlPlaneResult \<times> ('t, 'g) ControlPlaneClient" where
  "client_directory ports known_version c =
     (if cc_session c = None
      then (Inl (invalidState ''a session is required before directory retrieval''), c)
      else if known_version = Some 0
      then (Inl (invalidArgument ''known directory version must be positive''), c)
      else
        session_call ports ''GET'' ''/api/v1/directory'' []
          (case known_version of None \<Rightarrow> [] | Some known \<Rightarrow> [(''if-none-match'', client_etag known)])
          (\<lambda>response.
             if cr_status_code response = 304 then not_modified known_version response
             else
               throws_bind (responseRoot response) (\<lambda>root.
               throws_bind (decode_directory response root) (\<lambda>view.
                 Inr \<lparr>df_snapshot = Some view\<rparr>))) c)"

definition client_directoryPresence ::
  "('t, 'g) ClientPorts \<Rightarrow> u64 option \<Rightarrow> ('t, 'g) ControlPlaneClient \<Rightarrow>
   DirectoryPresenceView ControlPlaneResult \<times> ('t, 'g) ControlPlaneClient" where
  "client_directoryPresence ports after_version c =
     (if cc_session c = None
      then (Inl (invalidState ''a session is required before presence retrieval''), c)
      else if after_version = Some 0
      then (Inl (invalidArgument ''presence delta version must be positive''), c)
      else
        session_call ports ''GET''
          (case after_version of
             None \<Rightarrow> ''/api/v1/directory/presence''
           | Some after \<Rightarrow> ''/api/v1/directory/presence?after_version='' @ to_string_u64 after) [] []
          (\<lambda>response. throws_bind (responseRoot response)
             (decode_presence after_version response)) c)"

definition client_voiceGrants ::
  "('t, 'g) ClientPorts \<Rightarrow> ('t, 'g) ControlPlaneClient \<Rightarrow>
   VoiceGrantSet ControlPlaneResult \<times> ('t, 'g) ControlPlaneClient" where
  "client_voiceGrants ports c =
     (if cc_session c = None
      then (Inl (invalidState ''a session is required before voice grant issuance''), c)
      else
        session_call ports ''POST'' ''/api/v1/voice-grants'' [] []
          (\<lambda>response. throws_bind (responseRoot response) decode_voice_grants) c)"

text \<open>The body is built before the request; escaping it may throw out of the method.\<close>

definition start_body :: "ClientTransmissionId \<Rightarrow> VoiceScope \<Rightarrow> u64 \<Rightarrow> string throws" where
  "start_body client_id sc membership_version =
     throws_bind (client_escapeJson (id_value client_id)) (\<lambda>escaped_id.
     throws_bind (client_escapeJson (client_scopeName sc)) (\<lambda>escaped_scope.
       Inr (''{'' @ quoted ''client_transmission_id'' @ '':'' @ escaped_id @
            '','' @ quoted ''scope'' @ '':'' @ escaped_scope @
            '','' @ quoted ''membership_version'' @ '':'' @ to_string_u64 membership_version @ ''}'')))"

definition client_startTransmission ::
  "('t, 'g) ClientPorts \<Rightarrow> VoiceScope \<Rightarrow> u64 \<Rightarrow> ('t, 'g) ControlPlaneClient \<Rightarrow>
   StartedTransmission ControlPlaneResult throws \<times> ('t, 'g) ControlPlaneClient" where
  "client_startTransmission ports sc membership_version c =
     (if cc_session c = None
      then (Inr (Inl (invalidState ''a session is required before starting a transmission'')), c)
      else if membership_version = 0
      then (Inr (Inl (invalidArgument ''membership version must be positive'')), c)
      else
        (let (client_id, g) = cp_nextTransmissionId ports (cc_identifiers c);
             c1 = c\<lparr>cc_identifiers := g\<rparr>
         in case start_body client_id sc membership_version of
              Inl e \<Rightarrow> (Inl e, c1)
            | Inr body \<Rightarrow>
                (let (result, c2) =
                       session_call ports ''POST'' ''/api/v1/transmissions'' body []
                         (\<lambda>response. throws_bind (responseRoot response)
                            (decode_started client_id sc membership_version)) c1
                 in (Inr result, c2))))"

definition client_endTransmission ::
  "('t, 'g) ClientPorts \<Rightarrow> TransmissionId \<Rightarrow> ('t, 'g) ControlPlaneClient \<Rightarrow>
   EndedTransmissionView ControlPlaneResult \<times> ('t, 'g) ControlPlaneClient" where
  "client_endTransmission ports tid c =
     (if cc_session c = None
      then (Inl (invalidState ''a session is required before ending a transmission''), c)
      else
        session_call ports ''DELETE'' (''/api/v1/transmissions/'' @ id_value tid) [] []
          (\<lambda>response. throws_bind (responseRoot response) (decode_ended tid)) c)"

definition clearSession :: "('t, 'g) ControlPlaneClient \<Rightarrow> ('t, 'g) ControlPlaneClient" where
  "clearSession c = c\<lparr>cc_session := None\<rparr>"

end
