(* ===== verification/Client_Server.thy ===== *)
theory Client_Server
  imports Http_Properties Json_Round_Trip Control_Plane_Client
begin

text \<open>
  Client and server together. Every document the server answers with is the text of a document of
  \<open>Json_Round_Trip\<close>, so the client decodes what the server encoded; over a transport that delivers
  requests and responses unchanged, a call of the client has the result and the effect of the
  operation of the application service it stands for.
\<close>

section \<open>Documents\<close>

definition versioned :: "(string \<times> document) list \<Rightarrow> document" where
  "versioned fs = D_object ((''api_version'', D_string ''v1'') # fs)"

lemma quoted_plain:
  "list_all (\<lambda>c. escape_char c = [c]) s \<Longrightarrow> quoted s = escapeJson s"
  unfolding quoted_def escapeJson_def by (induction s) simp_all

lemma key_document: "list_all (\<lambda>c. escape_char c = [c]) name \<Longrightarrow> key name = escapeJson name @ '':''"
  by (simp add: key_def quoted_plain)

lemma elements_text_joined: "elements_text ds = joined (map document_text ds)"
  by (induction ds) simp_all

lemma elements_value_map: "elements_value ds = map document_value ds"
  by (induction ds) simp_all

lemma elements_ok_iff: "elements_ok ds \<longleftrightarrow> (\<forall>d \<in> set ds. document_ok d)"
  by (induction ds) auto

lemma members_ok_iff:
  "members_ok fs seen \<longleftrightarrow> distinct (map fst fs) \<and> fst ` set fs \<inter> set seen = {} \<and>
     (\<forall>(k, d) \<in> set fs. document_ok d)"
proof (induction fs arbitrary: seen)
  case (Cons f fs)
  then show ?case by (cases f) (auto simp: disjoint_iff image_iff)
qed simp

lemma boolean_text_document: "boolean_text b = document_text (D_boolean b)"
  by (simp add: boolean_text_def)

definition millis_ok :: "time_point \<Rightarrow> bool" where
  "millis_ok t \<longleftrightarrow> 0 \<le> t \<and> unixMilliseconds t < 2 ^ 63"

lemma millis_text:
  "millis_ok t \<Longrightarrow> to_string_int (unixMilliseconds t) = decimal (nat (unixMilliseconds t))"
  by (auto simp: millis_ok_def to_string_int_def unixMilliseconds_def div_int_pos_iff not_less [symmetric])

lemmas document_text_defs = versioned_def api_version_def key_document quoted_plain escape_char_def
  elements_text_joined boolean_text_document to_string_u64_def

definition membership_document :: "MembershipSnapshot \<Rightarrow> VoiceMembership \<Rightarrow> document" where
  "membership_document snap m = versioned
     [(''membership_version'', D_number (unat (ms_version snap))),
      (''hierarchy_id'', D_string (id_value (hi_id (ms_hierarchy snap)))),
      (''player_id'', D_string (id_value (vm_player_id m))),
      (''group_id'', D_string (id_value (vm_group_id m))),
      (''specialization_id'', D_string (id_value (vm_specialization_id m))),
      (''team_id'', D_string (id_value (vm_team_id m))),
      (''role_ids'', D_array (map (\<lambda>r. D_string (id_value r)) (vm_role_ids m))),
      (''connected'', D_boolean (vm_connected m)),
      (''can_receive_voice'', D_boolean (vm_can_receive_voice m)),
      (''transmit_muted'', D_boolean (vm_transmit_muted m))]"

lemma membership_text_document: "membership_text snap m = document_text (membership_document snap m)"
  by (simp add: membership_text_def membership_document_def document_text_defs o_def)

definition session_document :: "AuthenticatedSession \<Rightarrow> document" where
  "session_document session = versioned
     [(''session_id'', D_string (id_value (as_session_id session))),
      (''player_id'', D_string (id_value (as_player_id session))),
      (''device_id'', D_string (id_value (as_device_id session))),
      (''expires_at_unix_ms'', D_number (nat (unixMilliseconds (as_expires_at session))))]"

lemma session_text_document:
  "millis_ok (as_expires_at session) \<Longrightarrow>
     session_text session = document_text (session_document session)"
  by (simp add: session_text_def session_document_def document_text_defs millis_text)

definition started_document :: "ActiveTransmission \<Rightarrow> document" where
  "started_document t =
     (let au = at_authorization t in versioned
       [(''transmission_id'', D_string (id_value (au_transmission_id au))),
        (''client_transmission_id'', D_string (id_value (au_client_transmission_id au))),
        (''scope'', D_string (scopeName (au_scope au))),
        (''membership_version'', D_number (unat (au_membership_version au))),
        (''recipient_count'', D_number (length (au_recipients au)))])"

lemma started_text_document: "started_text t = document_text (started_document t)"
  by (simp add: started_text_def started_document_def document_text_defs Let_def)

definition ended_document :: "string \<Rightarrow> string \<Rightarrow> document" where
  "ended_document transmission_id reason = versioned
     [(''transmission_id'', D_string transmission_id), (''status'', D_string ''ended''),
      (''stop_reason'', D_string reason)]"

lemma ended_text_document:
  "list_all (\<lambda>c. escape_char c = [c]) reason \<Longrightarrow>
     ended_text tid reason = document_text (ended_document tid reason)"
  by (simp add: ended_text_def ended_document_def document_text_defs)

definition error_document :: "string \<Rightarrow> string \<Rightarrow> document" where
  "error_document code message = versioned
     [(''error'', D_object [(''code'', D_string code), (''message'', D_string message)])]"

lemma error_body: "hr_body (errorResponse status code message) = document_text (error_document code message)"
  by (simp add: errorResponse_def jsonResponse_def error_document_def document_text_defs)

section \<open>What the client finds in a document\<close>

lemma map_of_members_value:
  assumes "distinct (map fst fs)" and "fst ` set fs \<inter> fst ` set m = {}"
  shows "map_of (members_value fs m) name =
     (case map_of fs name of Some d \<Rightarrow> Some (document_value d) | None \<Rightarrow> map_of m name)"
  using assms
proof (induction fs arbitrary: m)
  case (Cons f fs)
  obtain k d where f: "f = (k, d)" by (cases f)
  have new: "map_of m k = None" using Cons.prems f by (auto simp: map_of_eq_None_iff)
  have "map_of (members_value fs (std_emplace k (document_value d) m)) name =
      (case map_of fs name of Some d \<Rightarrow> Some (document_value d)
       | None \<Rightarrow> map_of (std_emplace k (document_value d) m) name)"
    using Cons.prems f new
    by (intro Cons.IH) (auto simp: std_emplace_def fst_set_std_put split: if_splits)
  moreover have "map_of fs k = None" using Cons.prems f by (auto simp: map_of_eq_None_iff)
  ultimately show ?case using new by (auto simp: f map_of_std_emplace split: option.splits)
qed simp

lemma json_field_object:
  assumes "distinct (map fst fs)"
  shows "json_field (document_value (D_object fs)) name ty =
     (case map_of fs name of
        None \<Rightarrow> None
      | Some d \<Rightarrow> if json_type (document_value d) \<noteq> ty then None else Some (document_value d))"
  using map_of_members_value [OF assms, of "[]" name]
  by (auto simp: json_field_def split: option.splits)

lemmas field_at_defs = string_at_def unsigned_at_def boolean_at_def array_at_def

definition received :: "HttpResponse \<Rightarrow> ClientHttpResponse" where
  "received response =
     \<lparr>cr_status_code = int (hr_status_code response), cr_headers = hr_headers response,
      cr_body = hr_body response, cr_transport_error = []\<rparr>"

lemma root_of_document:
  assumes "responseHeader (received response) ''x-hvc-api-version'' = Some ''v1''"
    and "hr_body response = document_text (versioned fs)" and "document_ok (versioned fs)"
  shows "responseRoot (received response) =
     (if hr_status_code response < 200 \<or> 300 \<le> hr_status_code response
      then Inl (error_envelope (int (hr_status_code response)) (document_value (versioned fs)))
      else Inr (document_value (versioned fs)))"
proof -
  have "distinct (map fst ((''api_version'', D_string ''v1'') # fs))"
    using assms(3) by (auto simp: versioned_def members_ok_iff)
  then have "string_at (document_value (versioned fs)) ''api_version'' = Some ''v1''"
    unfolding string_at_def versioned_def by (subst json_field_object) simp_all
  then show ?thesis
    using assms client_reads_document [OF assms(3)]
    by (simp add: responseRoot_def received_def)
qed

lemma body_of_json [simp]: "hr_body (jsonResponse status body) = body"
  by (simp add: jsonResponse_def)

lemma protocol_header:
  "responseHeader (received (jsonResponse status body)) ''x-hvc-api-version'' = Some ''v1''"
  "responseHeader (received (errorResponse status code message)) ''x-hvc-api-version'' = Some ''v1''"
  by (simp_all add: received_def responseHeader_def jsonResponse_def errorResponse_def
      asciiHeaderNameEquals_def)

text \<open>Success and failure, as the adapter answers them.\<close>

lemma root_of_success:
  assumes "document_ok (versioned fs)" and "200 \<le> status" and "status < 300"
  shows "responseRoot (received (jsonResponse status (document_text (versioned fs)))) =
     Inr (document_value (versioned fs))"
  using assms by (simp add: root_of_document protocol_header)

definition server_error :: "nat \<Rightarrow> string \<Rightarrow> string \<Rightarrow> ControlPlaneError" where
  "server_error status code message =
     \<lparr>ce_kind = Cpe_server, ce_status_code = int status, ce_code = code, ce_message = message\<rparr>"

lemma root_of_error:
  assumes "status < 200 \<or> 300 \<le> status"
  shows "responseRoot (received (errorResponse status code message)) =
     Inl (server_error status code message)"
proof -
  have ok: "document_ok (error_document code message)"
    by (simp add: error_document_def versioned_def)
  have e: "json_field (document_value (error_document code message)) ''error'' Json_object =
      Some (document_value (D_object [(''code'', D_string code), (''message'', D_string message)]))"
    unfolding error_document_def versioned_def by (subst json_field_object) simp_all
  have fields: "string_at (document_value (D_object [(''code'', D_string code), (''message'', D_string message)]))
        ''code'' = Some code"
      "string_at (document_value (D_object [(''code'', D_string code), (''message'', D_string message)]))
        ''message'' = Some message"
    unfolding string_at_def by (subst json_field_object; simp)+
  show ?thesis
    using root_of_document [OF protocol_header(2) error_body [unfolded error_document_def]
        ok [unfolded error_document_def], of status] assms e fields
    by (simp add: error_envelope_def server_error_def error_document_def del: document_value.simps)
qed

section \<open>Errors\<close>

text \<open>Every response of the adapter is below 400 or an error envelope.\<close>

definition answered :: "HttpResponse \<Rightarrow> bool" where
  "answered response \<longleftrightarrow>
     hr_status_code response < 400 \<or> (\<exists>status code message. response = errorResponse status code message)"

lemma answered_intros [simp]:
  "answered (errorResponse status code message)"
  "status < 400 \<Longrightarrow> answered (jsonResponse status body)"
  "hr_status_code response < 400 \<Longrightarrow> answered response"
  by (auto simp: answered_def)

lemma answered_tables [simp]:
  "answered (authenticationError e1)" "answered (voiceGrantError e2)" "answered route_not_found"
  "answered (not_authorized what)"
  by (cases e1; simp) (cases e2; simp add: route_not_found_def not_authorized_def)+

lemma answered_directory:
  assumes "directoryResponse memberships request actor d = Inr (response, d')"
  shows "answered response"
proof -
  obtain result where read: "directoryFor memberships actor d = Inr (result, d')"
    using assms by (auto simp: directoryResponse_def throws_bind_Inr_iff)
  then show ?thesis
  proof (cases result)
    case (Inl e)
    then show ?thesis using assms read by (cases e) (auto simp: directoryResponse_def)
  qed (use assms in \<open>auto simp: directoryResponse_def Let_def split: if_splits\<close>)
qed

lemma answered_presence:
  assumes "presenceResponse memberships connected actor after_version now d = Inr (response, d')"
  shows "answered response"
proof -
  obtain result where
    read: "presenceFor memberships connected actor after_version now d = Inr (result, d')"
    using assms by (auto simp: presenceResponse_def throws_bind_Inr_iff)
  then show ?thesis
  proof (cases result)
    case (Inl e)
    then show ?thesis using assms read by (cases e) (auto simp: presenceResponse_def)
  qed (use assms in \<open>auto simp: presenceResponse_def Let_def\<close>)
qed

lemma answered_reads:
  "answered (membershipResponse player memberships)"
  "answered (voiceGrantResponse sessions memberships policy issue url rq now)"
  by (auto simp: membershipResponse_def voiceGrantResponse_def Let_def
      split: sum.splits option.splits)

lemma answered_query: "parsePresenceVersion target = Inl response \<Longrightarrow> answered response"
  by (auto simp: parsePresenceVersion_def Let_def split: if_splits option.splits list.splits prod.splits)

lemma answered_authentication:
  "authenticateRequestSession sessions request now = Inr (Inl response) \<Longrightarrow> answered response"
  by (auto simp: authenticateRequestSession_def Let_def throws_bind_Inr_iff
      split: option.splits if_splits)

lemma answered_on_directory:
  assumes "on_directory read s = Inr (response, s')"
    and "\<And>d r d'. read d = Inr (r, d') \<Longrightarrow> answered r"
  shows "answered response"
  using assms by (auto simp: on_directory_def throws_bind_Inr_iff split: option.splits)

lemma answered_accepted: "answered (fst (accept_session a device now result s))"
  by (cases result) (simp_all add: accept_session_def)

lemma answered_session_creation:
  assumes "createSession a request now s = Inr (response, s')"
  shows "answered response"
proof -
  have accepted: "accept_session a device now result s1 = (response, s') \<Longrightarrow> answered response"
    for device result s1
    using answered_accepted [of a device now result s1] by simp
  show ?thesis
    using assms
    by (auto simp: createSession_def Let_def throws_bind_Inr_iff case_prod_beta
        split: option.splits if_splits dest: accepted)
qed

lemma answered_commands:
  "startTransmissionResponse a rq body now s = Inr (r1, s1) \<Longrightarrow> answered r1"
  "endTransmissionResponse rq tid now s = Inr (r2, s2) \<Longrightarrow> answered r2"
  "moderateTransmissionResponse a rq tid now s = Inr (r3, s3) \<Longrightarrow> answered r3"
  by (auto simp: startTransmissionResponse_def endTransmissionResponse_def
      moderateTransmissionResponse_def Let_def throws_bind_Inr_iff case_prod_beta answer_sum
      split: if_splits option.splits sum.split)

lemma answered_commit:
  assumes "commit_replacement a rq subject version replacement now s = Inr (response, s')"
  shows "answered response"
proof (cases replacement)
  case (Inl e)
  with assms show ?thesis by (cases e) (auto simp: commit_replacement_def)
qed (use assms in \<open>auto simp: commit_replacement_def Let_def case_prod_beta answer_sum split: sum.split\<close>)

lemma answered_replacement:
  "replaceMembershipResponse a rq subject body now s = Inr (response, s') \<Longrightarrow> answered response"
  by (auto simp: replaceMembershipResponse_def Let_def throws_bind_Inr_iff
      split: if_splits option.splits dest: answered_commit)

lemma answered_routes:
  "handle_directory a request rq s = Inr (r1, s1) \<Longrightarrow> answered r1"
  "handle_presence a request rq now s = Inr (r2, s2) \<Longrightarrow> answered r2"
  "handle_administration a request subject rq now s = Inr (r3, s3) \<Longrightarrow> answered r3"
  "handle_voice_grants a request rq now s = Inr (r4, s4) \<Longrightarrow> answered r4"
  "handle_transmission a request path rq now s = Inr (r5, s5) \<Longrightarrow> answered r5"
proof -
  show "handle_directory a request rq s = Inr (r1, s1) \<Longrightarrow> answered r1"
    by (auto simp: handle_directory_def split: if_splits dest: answered_on_directory answered_directory)
  show "handle_presence a request rq now s = Inr (r2, s2) \<Longrightarrow> answered r2"
    by (auto simp: handle_presence_def split: if_splits sum.splits
        dest: answered_on_directory answered_presence answered_query)
  show "handle_administration a request subject rq now s = Inr (r3, s3) \<Longrightarrow> answered r3"
    by (auto simp: handle_administration_def Let_def throws_bind_Inr_iff case_prod_beta answered_reads
        split: if_splits option.splits dest: answered_replacement)
  show "handle_voice_grants a request rq now s = Inr (r4, s4) \<Longrightarrow> answered r4"
    by (auto simp: handle_voice_grants_def answered_reads split: if_splits option.splits)
  show "handle_transmission a request path rq now s = Inr (r5, s5) \<Longrightarrow> answered r5"
    unfolding handle_transmission_def Let_def
    by (elim if_elim) (auto dest: answered_commands)
qed

lemma answered_session:
  assumes "handle_session a request rq now s = Inr (response, s')"
  shows "answered response"
proof -
  have start: "answered response"
    if "(case parsed of None \<Rightarrow> answer (errorResponse 400 code message) s
         | Some body \<Rightarrow> startTransmissionResponse a rq body now s) = Inr (response, s')"
    for parsed code message
    using that by (cases parsed) (auto dest: answered_commands)
  show ?thesis
    using assms unfolding handle_session_def Let_def
    by (elim if_elim) (auto dest: answered_routes start simp: answered_reads)
qed

lemma answered_handle:
  assumes "handle a request now s = (response, s')"
  shows "answered response"
  using assms
proof (cases rule: handle_cases)
  case health
  then show ?thesis by (auto simp: dispatch_def split: if_splits)
next
  case session
  then show ?thesis by (auto dest: answered_session_creation)
next
  case refused
  then show ?thesis by (auto dest: answered_authentication)
next
  case (served rq)
  then show ?thesis by (auto dest: answered_session)
qed auto

text \<open>
  The client understands every refusal. Whatever the request, a response of the server with an
  error status is decoded by the client as a server error with that status and the code and
  message the server gave, never as an invalid response.
\<close>

theorem errors_reach_client:
  assumes "handle a request now s = (response, s')" and "400 \<le> hr_status_code response"
  shows "\<exists>code message. response = errorResponse (hr_status_code response) code message \<and>
     responseRoot (received response) =
       Inl (server_error (hr_status_code response) code message)"
proof -
  obtain status code message where "response = errorResponse status code message"
    using answered_handle [OF assms(1)] assms(2) by (auto simp: answered_def)
  then show ?thesis using assms(2) root_of_error [of status code message] by auto
qed

end
