(* ===== verification/Remote_Calls.thy ===== *)
theory Remote_Calls
  imports Client_Server
begin

text \<open>
  The calls of the client over a transport that hands requests to the adapter and responses back
  unchanged. Each call is one operation of the server: it returns what the operation returned and
  leaves the server in the state the operation left.
\<close>

section \<open>The wire\<close>

definition server_request :: "ClientHttpRequest \<Rightarrow> HttpRequest" where
  "server_request q =
     \<lparr>hq_method = cq_method q, hq_target = cq_target q, hq_headers = cq_headers q,
      hq_body = cq_body q\<rparr>"

definition wire_send ::
  "('m, 'h, 'i) HttpAdapter \<Rightarrow> time_point \<Rightarrow> ClientHttpRequest \<Rightarrow> ('m, 'h, 'i) HttpState \<Rightarrow>
   (string + ClientHttpResponse) \<times> ('m, 'h, 'i) HttpState" where
  "wire_send a now q s =
     (let (response, s') = handle a (server_request q) now s in (Inr (received response), s'))"

definition wire ::
  "('m, 'h, 'i) HttpAdapter \<Rightarrow> time_point \<Rightarrow> ('g \<Rightarrow> CorrelationId \<times> 'g) \<Rightarrow>
   ('g \<Rightarrow> ClientTransmissionId \<times> 'g) \<Rightarrow> (('m, 'h, 'i) HttpState, 'g) ClientPorts" where
  "wire a now next_correlation next_transmission =
     \<lparr>cp_send = wire_send a now, cp_nextCorrelationId = next_correlation,
      cp_nextTransmissionId = next_transmission\<rparr>"

text \<open>Identifiers are values of their constructor.\<close>

abbreviation valid :: "'t StrongId \<Rightarrow> bool" where
  "valid x \<equiv> id_value x \<noteq> []"

definition logged_in_at ::
  "('m, 'h, 'i) HttpAdapter \<Rightarrow> time_point \<Rightarrow> AuthenticatedSession \<Rightarrow>
   (('m, 'h, 'i) HttpState, 'g) ControlPlaneClient \<Rightarrow> bool" where
  "logged_in_at a now x c \<longleftrightarrow>
     (\<exists>session. cc_session c = Some session \<and> cs_session_id session = as_session_id x \<and>
        cs_player_id session = as_player_id x) \<and>
     sp_find (ha_sessions a) (hs_store (cc_transport c)) (as_session_id x) = Some x \<and>
     activeAt x now \<and> as_device_id x = cc_device_id c \<and>
     valid (as_session_id x) \<and> valid (cc_device_id c)"

definition call_headers :: "AuthenticatedSession \<Rightarrow> CorrelationId \<Rightarrow> (string, string) std_map" where
  "call_headers x correlation =
     [(''authorization'', ''Session '' @ id_value (as_session_id x)),
      (''x-correlation-id'', id_value correlation),
      (''x-hvc-device-id'', id_value (as_device_id x))]"

definition call_session :: "AuthenticatedSession \<Rightarrow> CorrelationId \<Rightarrow> RequestSession" where
  "call_session x correlation =
     \<lparr>rq_session = x, rq_device_id = as_device_id x, rq_correlation_id = correlation\<rparr>"

lemma asciiLower_names [simp]:
  "asciiLower ''authorization'' = ''authorization''"
  "asciiLower ''x-correlation-id'' = ''x-correlation-id''"
  "asciiLower ''x-hvc-device-id'' = ''x-hvc-device-id''"
  by (simp_all add: asciiLower_def)

lemma call_authenticated:
  assumes "logged_in_at a now x c" and "valid correlation"
    and "hq_headers request = call_headers x correlation"
  shows "authenticateRequestSession (sp_find (ha_sessions a) (hs_store (cc_transport c))) request now =
     Inr (Inr (call_session x correlation))"
proof -
  have headers: "header request ''authorization'' = ''Session '' @ id_value (as_session_id x)"
      "header request ''x-correlation-id'' = id_value correlation"
      "header request ''x-hvc-device-id'' = id_value (as_device_id x)"
    by (simp_all add: header_def assms(3) call_headers_def)
  then have "authorizationValue request ''Session '' = Some (id_value (as_session_id x))"
    using assms(1) by (simp add: authorizationValue_def logged_in_at_def Let_def)
  then show ?thesis
    using assms(1,2) headers
    by (simp add: authenticateRequestSession_def logged_in_at_def StrongId_ctor_def call_session_def
        Let_def)
qed

lemma session_call_wire:
  assumes "logged_in_at a now x c"
    and "next_correlation (cc_identifiers c) = (correlation, g)" and "valid correlation"
    and "target \<noteq> ''/api/v1/health''" and "target \<noteq> ''/api/v1/sessions''"
    and "handle_session a
           \<lparr>hq_method = verb, hq_target = target, hq_headers = call_headers x correlation, hq_body = body\<rparr>
           (call_session x correlation) now (cc_transport c) = Inr (response, s')"
  shows "session_call (wire a now next_correlation next_transmission) verb target body [] decode c =
     (decode (received response), c\<lparr>cc_identifiers := g, cc_transport := s'\<rparr>)"
proof -
  let ?request = "\<lparr>hq_method = verb, hq_target = target, hq_headers = call_headers x correlation,
    hq_body = body\<rparr>"
  obtain session where session: "cc_session c = Some session" "cs_session_id session = as_session_id x"
      "as_device_id x = cc_device_id c"
    using assms(1) by (auto simp: logged_in_at_def)
  have headers: "std_emplace ''x-hvc-device-id'' (id_value (cc_device_id c))
      (std_emplace ''x-correlation-id'' (id_value correlation)
        (std_emplace ''authorization'' (''Session '' @ id_value (cs_session_id session)) [])) =
      call_headers x correlation"
    by (simp add: call_headers_def session std_emplace_def)
  have "handle a ?request now (cc_transport c) = (response, s')"
    using call_authenticated [OF assms(1,3), of ?request] assms(4-6)
    by (simp add: handle_def dispatch_def)
  then show ?thesis
    using session headers assms(2)
    by (simp add: session_call_def sendSessionRequest_def wire_def wire_send_def server_request_def
        case_prod_beta)
qed

text \<open>How a decoder of a root continues on the two kinds of answer.\<close>

lemma decoded_error:
  "throws_bind (responseRoot (received (errorResponse status code message))) decode =
     (if status < 200 \<or> 300 \<le> status then Inl (server_error status code message)
      else throws_bind (responseRoot (received (errorResponse status code message))) decode)"
  by (simp add: root_of_error)

lemma decoded_success:
  assumes "document_ok (versioned fs)" and "200 \<le> status" and "status < 300"
  shows "throws_bind (responseRoot (received (jsonResponse status (document_text (versioned fs))))) decode =
     decode (document_value (versioned fs))"
  using root_of_success [OF assms] by simp

section \<open>Reading the fields\<close>

lemma versioned_field:
  assumes "document_ok (versioned fs)" and "name \<noteq> ''api_version''"
  shows "json_field (document_value (versioned fs)) name ty =
     (case map_of fs name of
        None \<Rightarrow> None
      | Some d \<Rightarrow> if json_type (document_value d) \<noteq> ty then None else Some (document_value d))"
proof -
  have "distinct (map fst ((''api_version'', D_string ''v1'') # fs))"
    using assms(1) by (auto simp: versioned_def members_ok_iff)
  from json_field_object [OF this, of name ty] show ?thesis
    using assms(2) unfolding versioned_def by (simp del: document_value.simps)
qed

text \<open>The typed reads of a document with the fields looked up.\<close>

lemma versioned_reads:
  assumes "document_ok (versioned fs)" and "name \<noteq> ''api_version''" and "map_of fs name = Some d"
  shows "string_at (document_value (versioned fs)) name =
      (case d of D_string s \<Rightarrow> Some s | _ \<Rightarrow> None)"
    and "unsigned_at (document_value (versioned fs)) name =
      (case d of D_number n \<Rightarrow> Some (word_of_nat n) | _ \<Rightarrow> None)"
    and "boolean_at (document_value (versioned fs)) name =
      (case d of D_boolean b \<Rightarrow> Some b | _ \<Rightarrow> None)"
    and "array_at (document_value (versioned fs)) name =
      (case d of D_array ds \<Rightarrow> Some (map document_value ds) | _ \<Rightarrow> None)"
  by (cases d; simp add: field_at_defs versioned_field [OF assms(1,2)] assms(3) elements_value_map
      del: document_value.simps; simp add: elements_value_map)+

lemma versioned_ok:
  "document_ok (versioned fs) \<longleftrightarrow>
     distinct (''api_version'' # map fst fs) \<and> (\<forall>(k, d) \<in> set fs. document_ok d)"
  by (auto simp: versioned_def members_ok_iff)

lemma scopeName_parsed [simp]: "client_parseScope (scopeName sc) = Some sc"
  by (cases sc) (simp_all add: client_parseScope_def)

lemma client_scopeName_parsed [simp]: "parseScope (client_scopeName sc) = Some sc"
  by (cases sc) (simp_all add: parseScope_def)

lemma unat_u64 [simp]: "unat (v :: u64) < 18446744073709551616"
  using unsigned_less [of v, where 'a = nat] by simp

section \<open>Starting a transmission\<close>

lemma started_decoded:
  assumes "au_client_transmission_id (at_authorization t) = client_id"
    and "au_scope (at_authorization t) = sc" and "au_membership_version (at_authorization t) = v"
    and "valid (au_transmission_id (at_authorization t))"
    and "length (au_recipients (at_authorization t)) < 2 ^ 64"
  shows "throws_bind (responseRoot (received (jsonResponse 201 (started_text t))))
           (decode_started client_id sc v) =
     Inr \<lparr>sd_transmission_id = au_transmission_id (at_authorization t),
          sd_client_transmission_id = client_id, sd_scope = sc, sd_membership_version = v,
          sd_recipient_count = word_of_nat (length (au_recipients (at_authorization t)))\<rparr>"
proof -
  obtain fs where fs: "started_document t = versioned fs" and
    found: "map_of fs ''transmission_id'' = Some (D_string (id_value (au_transmission_id (at_authorization t))))"
      "map_of fs ''client_transmission_id'' = Some (D_string (id_value client_id))"
      "map_of fs ''scope'' = Some (D_string (scopeName sc))"
      "map_of fs ''membership_version'' = Some (D_number (unat v))"
      "map_of fs ''recipient_count'' = Some (D_number (length (au_recipients (at_authorization t))))"
    by (simp add: started_document_def Let_def assms(1-3))
  have ok: "document_ok (versioned fs)"
    using assms(5) unfolding fs [symmetric] started_document_def Let_def versioned_ok by simp
  show ?thesis
    using assms(4) unfolding started_text_document fs
    by (simp add: decoded_success ok decode_started_def versioned_reads [OF ok _ found(1)]
        versioned_reads [OF ok _ found(2)] versioned_reads [OF ok _ found(3)]
        versioned_reads [OF ok _ found(4)] versioned_reads [OF ok _ found(5)] StrongId_ctor_def)
qed

lemma resolution_version:
  "resolution_accepted (resolve snap policy request restrictions) \<Longrightarrow>
     tr_membership_version request = ms_version snap"
  by (auto simp: resolve_def split: if_splits)

lemma started_as_asked:
  assumes "start repo next_id cmd now v = (Inr t, v')"
  shows "au_client_transmission_id (at_authorization t) = st_client_transmission_id cmd"
    and "au_scope (at_authorization t) = st_scope cmd"
    and "au_membership_version (at_authorization t) = st_membership_version cmd"
    and "\<exists>g. au_transmission_id (at_authorization t) = fst (next_id g)"
proof -
  obtain session allowed l auth g where run:
    "currentSessionLocked (sv_store v) (st_session_id cmd) = Some session"
    "allow (as_player_id session) Limit_start now (sv_limiter v) = (allowed, l)"
    "authorizeStart (currentSessionLocked (sv_store v)) (currentMembershipLocked repo (sv_store v))
       next_id cmd now (sv_ids v) = (auth, g)"
    using assms by (auto simp: start_defs split: option.splits) (metis prod.exhaust_sel)
  then obtain au s where au: "auth = Inr au"
    and act: "activate repo au (st_session_id cmd) (st_device_id cmd) now (sv_store v) = (Inr t, s)"
    using assms by (auto simp: start_defs Let_def split: if_splits sum.splits prod.splits)
  have t: "at_authorization t = au" using activate_accepted [OF act] by blast
  have "au_client_transmission_id au = st_client_transmission_id cmd \<and>
      (\<exists>g. au_transmission_id au = fst (next_id g))"
    using run(3) au by (auto simp: authorizeStart_def Let_def split: option.splits if_splits prod.splits)
      (metis fst_conv)+
  with t show
    "au_client_transmission_id (at_authorization t) = st_client_transmission_id cmd"
    "au_scope (at_authorization t) = st_scope cmd"
    "au_membership_version (at_authorization t) = st_membership_version cmd"
    "\<exists>g. au_transmission_id (at_authorization t) = fst (next_id g)"
    using authorizeStart_accepted [OF run(3) [unfolded au]]
    by (auto simp: Let_def dest!: resolution_version)
qed

definition start_fields :: "ClientTransmissionId \<Rightarrow> VoiceScope \<Rightarrow> u64 \<Rightarrow> (string \<times> flat_value) list" where
  "start_fields client_id sc v =
     [(''client_transmission_id'', F_string (id_value client_id)),
      (''scope'', F_string (client_scopeName sc)), (''membership_version'', F_unsigned v)]"

lemma plain_scopeName [simp]: "plain (client_scopeName sc)"
  by (cases sc) (simp_all add: plain_char_def)

lemma start_body_fields:
  assumes "plain (id_value client_id)"
  shows "start_body client_id sc v = Inr (flat_object_text (start_fields client_id sc v))"
  using assms
  by (simp add: start_body_def client_escapeJson_plain flat_object_text_def start_fields_def
      quoted_plain escape_char_def)

lemma start_fields_parsed:
  assumes "plain (id_value client_id)"
  shows "parseFlatJsonObject (flat_object_text (start_fields client_id sc v)) =
     Some (flat_object (start_fields client_id sc v) [])"
  by (rule flat_object_reaches_server)
    (use assms in \<open>auto simp: start_fields_def plain_char_def\<close>)

lemma start_fields_read:
  "hasOnlyFields (flat_object (start_fields client_id sc v) [])
     [''client_transmission_id'', ''scope'', ''membership_version'']"
  "stringField (flat_object (start_fields client_id sc v) []) ''client_transmission_id'' =
     Some (id_value client_id)"
  "stringField (flat_object (start_fields client_id sc v) []) ''scope'' = Some (client_scopeName sc)"
  "unsignedField (flat_object (start_fields client_id sc v) []) ''membership_version'' = Some v"
  by (simp_all add: start_fields_def hasOnlyFields_def stringField_def unsignedField_def
      std_emplace_def JsonScalar_empty_def)

definition remote_start_command ::
  "AuthenticatedSession \<Rightarrow> ClientTransmissionId \<Rightarrow> CorrelationId \<Rightarrow> VoiceScope \<Rightarrow> u64 \<Rightarrow>
   StartTransmissionCommand" where
  "remote_start_command x client_id correlation sc v =
     \<lparr>st_session_id = as_session_id x, st_device_id = as_device_id x,
      st_client_transmission_id = client_id, st_scope = sc, st_membership_version = v,
      st_correlation_id = correlation\<rparr>"

definition started_view :: "ActiveTransmission \<Rightarrow> StartedTransmission" where
  "started_view t =
     \<lparr>sd_transmission_id = au_transmission_id (at_authorization t),
      sd_client_transmission_id = au_client_transmission_id (at_authorization t),
      sd_scope = au_scope (at_authorization t),
      sd_membership_version = au_membership_version (at_authorization t),
      sd_recipient_count = word_of_nat (length (au_recipients (at_authorization t)))\<rparr>"

text \<open>
  C13: starting a transmission through the client is starting it on the server. For a logged-in
  client the call returns exactly what the application service's start returned for the player's
  session and device, a refusal as the server error of its status and code, and leaves the server
  in the state start left; the client keeps its session.
\<close>

theorem remote_start_is_start:
  assumes "logged_in_at a now x c" and "v \<noteq> 0"
    and "next_transmission (cc_identifiers c) = (client_id, g1)"
    and "next_correlation g1 = (correlation, g2)"
    and "valid client_id" and "plain (id_value client_id)" and "valid correlation"
    and "\<And>g. valid (fst (ha_next_transmission a g))"
    and "start (ha_memberships a) (ha_next_transmission a)
           (remote_start_command x client_id correlation sc v) now (hs_service (cc_transport c)) =
         (result, service)"
    and "\<And>t. result = Inr t \<Longrightarrow> length (au_recipients (at_authorization t)) < 2 ^ 64"
  shows "client_startTransmission (wire a now next_correlation next_transmission) sc v c =
     (Inr (case result of
             Inl e \<Rightarrow> Inl (server_error (startErrorStatus e) (startErrorCode e)
                         ''The transmission could not be started.'')
           | Inr t \<Rightarrow> Inr (started_view t)),
      c\<lparr>cc_identifiers := g2, cc_transport := (cc_transport c)\<lparr>hs_service := service\<rparr>\<rparr>)"
proof -
  let ?body = "flat_object_text (start_fields client_id sc v)"
  let ?response = "case result of
      Inl e \<Rightarrow> errorResponse (startErrorStatus e) (startErrorCode e)
                 ''The transmission could not be started.''
    | Inr t \<Rightarrow> jsonResponse 201 (started_text t)"
  let ?c = "c\<lparr>cc_identifiers := g1\<rparr>"
  let ?s' = "(cc_transport c)\<lparr>hs_service := service\<rparr>"
  have session: "startTransmissionResponse a (call_session x correlation)
      (flat_object (start_fields client_id sc v) []) now (cc_transport c) = Inr (?response, ?s')"
    using assms(5,9)
    by (cases result)
      (simp_all add: startTransmissionResponse_def start_fields_read StrongId_ctor_def call_session_def
        remote_start_command_def answer_def)
  have "session_call (wire a now next_correlation next_transmission) ''POST''
      ''/api/v1/transmissions'' ?body [] decode ?c =
      (decode (received ?response), ?c\<lparr>cc_identifiers := g2, cc_transport := ?s'\<rparr>)"
    for decode :: "_ \<Rightarrow> StartedTransmission ControlPlaneResult"
  proof (rule session_call_wire)
    show "logged_in_at a now x ?c" using assms(1) by (simp add: logged_in_at_def)
    show "next_correlation (cc_identifiers ?c) = (correlation, g2)" using assms(4) by simp
  qed (use assms(7) session start_fields_parsed [OF assms(6), of sc v] in
      \<open>simp_all add: handle_session_def membership_admin_prefix_def\<close>)
  moreover have "throws_bind (responseRoot (received ?response)) (decode_started client_id sc v) =
      (case result of
         Inl e \<Rightarrow> Inl (server_error (startErrorStatus e) (startErrorCode e)
                    ''The transmission could not be started.'')
       | Inr t \<Rightarrow> Inr (started_view t))"
  proof (cases result)
    case (Inl e)
    have "300 \<le> startErrorStatus e" by (cases e) simp_all
    then show ?thesis by (simp add: Inl root_of_error)
  next
    case (Inr t)
    note asked = started_as_asked [OF assms(9) [unfolded Inr]]
    have "valid (au_transmission_id (at_authorization t))" using asked(4) assms(8) by auto
    then show ?thesis
      using asked(1-3) assms(10) [OF Inr] started_decoded [of t client_id sc v]
      by (simp add: Inr started_view_def remote_start_command_def)
  qed
  moreover obtain session where "cc_session c = Some session"
    using assms(1) by (auto simp: logged_in_at_def)
  ultimately show ?thesis
    using assms(2-4) start_body_fields [OF assms(6), of sc v]
    by (simp add: client_startTransmission_def wire_def)
qed

section \<open>Ending a transmission\<close>

lemma ended_decoded:
  assumes "list_all (\<lambda>c. escape_char c = [c]) reason"
  shows "throws_bind (responseRoot (received (jsonResponse 200 (ended_text (id_value tid) reason))))
           (decode_ended tid) =
     Inr \<lparr>ed_transmission_id = tid, ed_stop_reason = reason\<rparr>"
proof -
  obtain fs where fs: "ended_document (id_value tid) reason = versioned fs" and
    found: "map_of fs ''transmission_id'' = Some (D_string (id_value tid))"
      "map_of fs ''status'' = Some (D_string ''ended'')"
      "map_of fs ''stop_reason'' = Some (D_string reason)"
    by (simp add: ended_document_def)
  have ok: "document_ok (versioned fs)"
    unfolding fs [symmetric] ended_document_def versioned_ok by simp
  show ?thesis
    unfolding ended_text_document [OF assms] fs
    by (simp add: decoded_success ok decode_ended_def versioned_reads [OF ok _ found(1)]
        versioned_reads [OF ok _ found(2)] versioned_reads [OF ok _ found(3)])
qed

definition remote_end_command ::
  "AuthenticatedSession \<Rightarrow> CorrelationId \<Rightarrow> TransmissionId \<Rightarrow> EndTransmissionCommand" where
  "remote_end_command x correlation tid =
     \<lparr>en_session_id = as_session_id x, en_device_id = as_device_id x, en_transmission_id = tid,
      en_correlation_id = correlation\<rparr>"

text \<open>
  Ending a transmission through the client is ending it on the server, for an identifier that
  fits into a path: the call returns the confirmation or the refusal of the service's end operation
  and leaves the server in the state that operation left.
\<close>

theorem remote_end_is_end:
  assumes "logged_in_at a now x c"
    and "next_correlation (cc_identifiers c) = (correlation, g)" and "valid correlation"
    and "valid tid" and "CHR ''/'' \<notin> set (id_value tid)"
    and "end_service (remote_end_command x correlation tid) now (hs_service (cc_transport c)) =
         (result, service)"
  shows "client_endTransmission (wire a now next_correlation next_transmission) tid c =
     (case result of
        Inl e \<Rightarrow> Inl (server_error (endErrorStatus e) (endErrorCode e)
                    ''The transmission could not be ended.'')
      | Inr e \<Rightarrow> Inr \<lparr>ed_transmission_id = tid, ed_stop_reason = ''push_to_talk_released''\<rparr>,
      c\<lparr>cc_identifiers := g, cc_transport := (cc_transport c)\<lparr>hs_service := service\<rparr>\<rparr>)"
proof -
  let ?response = "case result of
      Inl e \<Rightarrow> errorResponse (endErrorStatus e) (endErrorCode e) ''The transmission could not be ended.''
    | Inr e \<Rightarrow> jsonResponse 200 (ended_text (id_value tid) ''push_to_talk_released'')"
  let ?s' = "(cc_transport c)\<lparr>hs_service := service\<rparr>"
  have ended: "endTransmissionResponse (call_session x correlation) (id_value tid) now (cc_transport c) =
      Inr (?response, ?s')"
    using assms(4,6)
    by (cases result)
      (simp_all add: endTransmissionResponse_def StrongId_ctor_def call_session_def
        remote_end_command_def answer_def)
  have "session_call (wire a now next_correlation next_transmission) ''DELETE''
      (''/api/v1/transmissions/'' @ id_value tid) [] [] decode c =
      (decode (received ?response), c\<lparr>cc_identifiers := g, cc_transport := ?s'\<rparr>)"
    for decode :: "_ \<Rightarrow> EndedTransmissionView ControlPlaneResult"
    by (rule session_call_wire [where next_correlation = next_correlation, OF assms(1-3)])
      (use assms(4,5) ended in \<open>simp_all add: handle_session_def handle_transmission_def
          membership_admin_prefix_def transmission_prefix_def\<close>)
  moreover have "throws_bind (responseRoot (received ?response)) (decode_ended tid) =
      (case result of
         Inl e \<Rightarrow> Inl (server_error (endErrorStatus e) (endErrorCode e)
                     ''The transmission could not be ended.'')
       | Inr e \<Rightarrow> Inr \<lparr>ed_transmission_id = tid, ed_stop_reason = ''push_to_talk_released''\<rparr>)"
  proof (cases result)
    case (Inl e)
    have "300 \<le> endErrorStatus e" by (cases e) simp_all
    then show ?thesis by (simp add: Inl root_of_error)
  qed (simp add: ended_decoded escape_char_def)
  moreover obtain session where "cc_session c = Some session"
    using assms(1) by (auto simp: logged_in_at_def)
  ultimately show ?thesis by (simp add: client_endTransmission_def)
qed

section \<open>Reading the membership\<close>

definition membership_view :: "MembershipSnapshot \<Rightarrow> VoiceMembership \<Rightarrow> MembershipView" where
  "membership_view snap m =
     \<lparr>mv_version = ms_version snap, mv_hierarchy_id = hi_id (ms_hierarchy snap),
      mv_player_id = vm_player_id m, mv_group_id = vm_group_id m,
      mv_specialization_id = vm_specialization_id m, mv_team_id = vm_team_id m,
      mv_role_ids = vm_role_ids m, mv_connected = vm_connected m,
      mv_can_receive_voice = vm_can_receive_voice m, mv_transmit_muted = vm_transmit_muted m\<rparr>"

definition member_ids_valid :: "MembershipSnapshot \<Rightarrow> VoiceMembership \<Rightarrow> bool" where
  "member_ids_valid snap m \<longleftrightarrow>
     valid (hi_id (ms_hierarchy snap)) \<and> valid (vm_player_id m) \<and> valid (vm_group_id m) \<and>
     valid (vm_specialization_id m) \<and> valid (vm_team_id m) \<and> (\<forall>r \<in> set (vm_role_ids m). valid r)"

lemma decode_roles_values:
  "\<forall>r \<in> set rs. valid r \<Longrightarrow> decode_roles (map (\<lambda>r. JString (id_value r)) rs) = Inr rs"
  by (induction rs) (simp_all add: StrongId_ctor_def)

lemma membership_decoded:
  assumes "member_ids_valid snap m" and "ms_version snap \<noteq> 0" and "vm_player_id m = player"
  shows "throws_bind (responseRoot (received (jsonResponse 200 (membership_text snap m))))
           (decode_membership player) = Inr (membership_view snap m)"
proof -
  obtain fs where fs: "membership_document snap m = versioned fs" and
    found: "map_of fs ''membership_version'' = Some (D_number (unat (ms_version snap)))"
      "map_of fs ''hierarchy_id'' = Some (D_string (id_value (hi_id (ms_hierarchy snap))))"
      "map_of fs ''player_id'' = Some (D_string (id_value (vm_player_id m)))"
      "map_of fs ''group_id'' = Some (D_string (id_value (vm_group_id m)))"
      "map_of fs ''specialization_id'' = Some (D_string (id_value (vm_specialization_id m)))"
      "map_of fs ''team_id'' = Some (D_string (id_value (vm_team_id m)))"
      "map_of fs ''role_ids'' = Some (D_array (map (\<lambda>r. D_string (id_value r)) (vm_role_ids m)))"
      "map_of fs ''connected'' = Some (D_boolean (vm_connected m))"
      "map_of fs ''can_receive_voice'' = Some (D_boolean (vm_can_receive_voice m))"
      "map_of fs ''transmit_muted'' = Some (D_boolean (vm_transmit_muted m))"
    by (simp add: membership_document_def)
  have ok: "document_ok (versioned fs)"
    unfolding fs [symmetric] membership_document_def versioned_ok by (simp add: elements_ok_iff)
  have root: "throws_bind (responseRoot (received (jsonResponse 200 (membership_text snap m))))
      (decode_membership player) = decode_membership player (document_value (versioned fs))"
    unfolding membership_text_document fs by (simp add: decoded_success ok)
  have roles: "decode_roles (map (\<lambda>r. JString (id_value r)) (vm_role_ids m)) = Inr (vm_role_ids m)"
    using assms(1) by (intro decode_roles_values) (simp add: member_ids_valid_def)
  have ids: "decode_member_ids (id_value (hi_id (ms_hierarchy snap))) (id_value (vm_player_id m))
      (id_value (vm_group_id m)) (id_value (vm_specialization_id m)) (id_value (vm_team_id m)) =
      Inr (hi_id (ms_hierarchy snap), vm_player_id m, vm_group_id m, vm_specialization_id m, vm_team_id m)"
    using assms(1) by (simp add: decode_member_ids_def member_ids_valid_def StrongId_ctor_def)
  show ?thesis
    unfolding root decode_membership_def
    using assms(2,3) roles ids
    by (simp add: versioned_reads [OF ok _ found(1)] versioned_reads [OF ok _ found(2)]
        versioned_reads [OF ok _ found(3)] versioned_reads [OF ok _ found(4)]
        versioned_reads [OF ok _ found(5)] versioned_reads [OF ok _ found(6)]
        versioned_reads [OF ok _ found(7)] versioned_reads [OF ok _ found(8)]
        versioned_reads [OF ok _ found(9)] versioned_reads [OF ok _ found(10)]
        membership_view_def o_def)
qed

text \<open>
  A logged-in client sees its authoritative membership. When the membership provider of the
  server has a context with the session's player in it, the client's view is that membership,
  field by field, and asking changes nothing on the server.
\<close>

theorem remote_membership_is_authoritative:
  assumes "logged_in_at a now x c"
    and "next_correlation (cc_identifiers c) = (correlation, g)" and "valid correlation"
    and "provider a (cc_transport c) (as_player_id x) = Some ctx"
    and "snapshot_find (mc_snapshot ctx) (as_player_id x) = Some m"
    and "member_ids_valid (mc_snapshot ctx) m" and "ms_version (mc_snapshot ctx) \<noteq> 0"
  shows "client_membership (wire a now next_correlation next_transmission) c =
     (Inr (membership_view (mc_snapshot ctx) m), c\<lparr>cc_identifiers := g\<rparr>)"
proof -
  let ?response = "jsonResponse 200 (membership_text (mc_snapshot ctx) m)"
  have "session_call (wire a now next_correlation next_transmission) ''GET'' ''/api/v1/membership''
      [] [] decode c =
      (decode (received ?response), c\<lparr>cc_identifiers := g, cc_transport := cc_transport c\<rparr>)"
    for decode :: "_ \<Rightarrow> MembershipView ControlPlaneResult"
    by (rule session_call_wire [where next_correlation = next_correlation, OF assms(1-3)])
      (use assms(4,5) in \<open>simp_all add: handle_session_def membership_admin_prefix_def
          membershipResponse_def call_session_def answer_def\<close>)
  moreover have "vm_player_id m = as_player_id x" using snapshot_find_SomeD [OF assms(5)] by blast
  moreover obtain session where "cc_session c = Some session" "cs_player_id session = as_player_id x"
    using assms(1) by (auto simp: logged_in_at_def)
  ultimately show ?thesis
    using membership_decoded [OF assms(6,7)] by (simp add: client_membership_def)
qed

section \<open>Logging in\<close>

lemma nat_millis:
  assumes "millis_ok t"
  shows "nat (unixMilliseconds t) < 2 ^ 63"
    and "timePoint (word_of_nat (nat (unixMilliseconds t))) = Some (unixMilliseconds t * 1000000)"
proof -
  have nonneg: "0 \<le> unixMilliseconds t"
    using assms by (auto simp: millis_ok_def unixMilliseconds_def div_int_pos_iff)
  show bound: "nat (unixMilliseconds t) < 2 ^ 63"
    using assms nonneg by (simp add: millis_ok_def nat_less_iff)
  then have "unat (word_of_nat (nat (unixMilliseconds t)) :: u64) = nat (unixMilliseconds t)"
    by (simp add: unat_of_nat)
  then show "timePoint (word_of_nat (nat (unixMilliseconds t))) = Some (unixMilliseconds t * 1000000)"
    using bound nonneg by (simp add: timePoint_def)
qed

definition session_view :: "AuthenticatedSession \<Rightarrow> ControlPlaneSession" where
  "session_view x =
     \<lparr>cs_session_id = as_session_id x, cs_player_id = as_player_id x,
      cs_device_id = as_device_id x, cs_expires_at = unixMilliseconds (as_expires_at x) * 1000000\<rparr>"

lemma session_decoded:
  assumes "millis_ok (as_expires_at x)" and "valid (as_session_id x)" and "valid (as_player_id x)"
  shows "throws_bind (responseRoot (received (jsonResponse 201 (session_text x))))
           (decode_session (as_device_id x)) = Inr (session_view x)"
proof -
  obtain fs where fs: "session_document x = versioned fs" and
    found: "map_of fs ''session_id'' = Some (D_string (id_value (as_session_id x)))"
      "map_of fs ''player_id'' = Some (D_string (id_value (as_player_id x)))"
      "map_of fs ''device_id'' = Some (D_string (id_value (as_device_id x)))"
      "map_of fs ''expires_at_unix_ms'' =
         Some (D_number (nat (unixMilliseconds (as_expires_at x))))"
    by (simp add: session_document_def)
  have ok: "document_ok (versioned fs)"
    using nat_millis(1) [OF assms(1)]
    unfolding fs [symmetric] session_document_def versioned_ok by simp
  show ?thesis
    unfolding session_text_document [OF assms(1)] fs
    using assms(2,3) nat_millis(2) [OF assms(1)]
    by (simp add: decoded_success ok decode_session_def versioned_reads [OF ok _ found(1)]
        versioned_reads [OF ok _ found(2)] versioned_reads [OF ok _ found(3)]
        versioned_reads [OF ok _ found(4)] StrongId_ctor_def session_view_def)
qed

text \<open>
  Logging in makes a client that is logged in. When the authenticator accepts the credential
  for the client's device with a session that is live, the client gets that session, with its
  expiry in milliseconds, and every later call of it is authenticated as that session until it
  expires.
\<close>

theorem remote_login_is_login:
  assumes "credential \<noteq> []" and "next_correlation (cc_identifiers c) = (correlation, g)"
    and "valid correlation" and "valid (cc_device_id c)"
    and "ha_authenticate a \<lparr>ac_credential = credential, ac_device_id = cc_device_id c,
           ac_correlation_id = correlation\<rparr> now (hs_identity (cc_transport c)) = (Inr x, i)"
    and "as_device_id x = cc_device_id c" and "activeAt x now" and "millis_ok (as_expires_at x)"
    and "valid (as_session_id x)" and "valid (as_player_id x)"
    and "ha_sessions a = store_sessions \<or>
         ha_sessions a = persistent_sessions \<and>
         sto_persistent_sessions (hs_store (cc_transport c)) \<noteq> None"
  shows "\<exists>c'. client_createSession (wire a now next_correlation next_transmission) credential c =
       (Inr (session_view x), c') \<and> cc_session c' = Some (session_view x) \<and>
     (\<forall>later. activeAt x later \<longrightarrow> logged_in_at a later x c')"
proof -
  let ?s = "(cc_transport c)\<lparr>hs_identity := i\<rparr>"
  let ?s' = "with_store (sp_upsert (ha_sessions a) x (hs_store ?s)) ?s"
  let ?request = "\<lparr>hq_method = ''POST'', hq_target = ''/api/v1/sessions'',
    hq_headers = [(''authorization'', ''Bearer '' @ credential),
      (''x-correlation-id'', id_value correlation),
      (''x-hvc-device-id'', id_value (cc_device_id c))], hq_body = []\<rparr>"
  have headers: "header ?request ''authorization'' = ''Bearer '' @ credential"
      "header ?request ''x-correlation-id'' = id_value correlation"
      "header ?request ''x-hvc-device-id'' = id_value (cc_device_id c)"
    by (simp_all add: header_def)
  have bearer: "authorizationValue ?request ''Bearer '' = Some credential"
    using assms(1) headers by (simp add: authorizationValue_def)
  have created: "createSession a ?request now (cc_transport c) =
      Inr (jsonResponse 201 (session_text x), ?s')"
    using assms(3-7) headers bearer
    by (simp add: createSession_def StrongId_ctor_def accept_session_def)
  then have handled: "handle a ?request now (cc_transport c) =
      (jsonResponse 201 (session_text x), ?s')"
    by (simp add: handle_def dispatch_def)
  have found: "sp_find (ha_sessions a) (sp_upsert (ha_sessions a) x (hs_store ?s)) (as_session_id x) =
      Some x"
    using assms(11) by (auto simp: in_memory.find_upsert persistent.find_upsert)
  let ?c' = "c\<lparr>cc_identifiers := g, cc_transport := ?s', cc_session := Some (session_view x)\<rparr>"
  have "client_createSession (wire a now next_correlation next_transmission) credential c =
      (Inr (session_view x), ?c')"
    using assms(1,2) session_decoded [OF assms(8-10)] handled assms(6)
    by (simp add: client_createSession_def wire_def wire_send_def server_request_def Let_def)
  moreover have "logged_in_at a later x ?c'" if "activeAt x later" for later
    using that found assms(4,6,9) by (simp add: logged_in_at_def session_view_def)
  ultimately show ?thesis by (intro exI [of _ ?c']) simp
qed

end
