(* ===== verification/Remote_Examples.thy ===== *)
theory Remote_Examples
  imports Remote_Calls Http_Examples
begin

text \<open>
  The run of \<open>Http_Examples\<close> seen from the client: logging in, starting and ending a transmission,
  and reading the membership over the wire.
\<close>

definition sample_correlation :: "nat \<Rightarrow> CorrelationId \<times> nat" where
  "sample_correlation n = (StrongId ''k'', Suc n)"

definition sample_client_id :: "nat \<Rightarrow> ClientTransmissionId \<times> nat" where
  "sample_client_id n = (StrongId ''c1'', Suc n)"

abbreviation sample_ports ::
  "time_point \<Rightarrow> ((memory_repository, nat, nat \<times> nat) HttpState, nat) ClientPorts" where
  "sample_ports now \<equiv> wire sample_adapter now sample_correlation sample_client_id"

definition sample_cpc ::
  "(memory_repository, nat, nat \<times> nat) HttpState \<Rightarrow>
   ((memory_repository, nat, nat \<times> nat) HttpState, nat) ControlPlaneClient" where
  "sample_cpc s =
     \<lparr>cc_transport = s, cc_identifiers = 0, cc_device_id = StrongId ''d'',
      cc_session = Some (session_view sample_session_s)\<rparr>"

lemma sample_logged_in:
  "logged_in_at sample_adapter 50 sample_session_s (sample_cpc logged_in)"
  "logged_in_at sample_adapter 60 sample_session_s (sample_cpc talking)"
proof -
  have "sp_find (ha_sessions sample_adapter) (hs_store logged_in) (StrongId ''s'') = Some sample_session_s"
    by (simp add: sample_adapter_def store_sessions_def logged_in_eq currentSessionLocked_def
        Store_ctor_def)
  then show "logged_in_at sample_adapter 50 sample_session_s (sample_cpc logged_in)"
    "logged_in_at sample_adapter 60 sample_session_s (sample_cpc talking)"
    using talking_session
    by (simp_all add: logged_in_at_def sample_cpc_def session_view_def sample_session_s_def activeAt_def)
qed

theorem remote_login_witness:
  "fst (client_createSession (sample_ports 40) ''secret''
     (ControlPlaneClient_ctor sample_server 0 (StrongId ''d''))) =
     Inr (session_view sample_session_s)"
proof -
  let ?c = "ControlPlaneClient_ctor sample_server (0 :: nat) (StrongId ''d'')"
  have "ha_authenticate sample_adapter \<lparr>ac_credential = ''secret'', ac_device_id = cc_device_id ?c,
      ac_correlation_id = StrongId ''k''\<rparr> 40 (hs_identity (cc_transport ?c)) =
      (Inr sample_session_s, 1, 1)"
    by (simp add: sample_adapter_def sample_server_def ControlPlaneClient_ctor_def login_accepted)
  moreover have "sample_correlation (cc_identifiers ?c) = (StrongId ''k'', 1)"
    by (simp add: sample_correlation_def ControlPlaneClient_ctor_def)
  moreover have "ha_sessions sample_adapter = store_sessions" by (simp add: sample_adapter_def)
  ultimately obtain c' where "client_createSession (sample_ports 40) ''secret'' ?c =
      (Inr (session_view sample_session_s), c')"
    using remote_login_is_login [of "''secret''" sample_correlation ?c "StrongId ''k''" 1
        sample_adapter 40 sample_session_s "(1, 1)" sample_client_id]
    by (auto simp: ControlPlaneClient_ctor_def sample_session_s_def activeAt_def millis_ok_def
        unixMilliseconds_def)
  then show ?thesis by simp
qed

theorem remote_start_witness:
  "fst (client_startTransmission (sample_ports 50) Team_scope 3 (sample_cpc logged_in)) =
     Inr (Inr (started_view talk_active))"
proof -
  obtain v where start: "start memory_repo sample_next_id talk_command 50 (hs_service logged_in) =
      (Inr talk_active, v)" by (rule talk_starts)
  have cmd: "remote_start_command sample_session_s (StrongId ''c1'') (StrongId ''k'') Team_scope 3 =
      talk_command"
    by (simp add: remote_start_command_def talk_command_def sample_session_s_def)
  have ids: "sample_client_id (cc_identifiers (sample_cpc logged_in)) = (StrongId ''c1'', 1)"
      "sample_correlation 1 = (StrongId ''k'', 2)"
    by (simp_all add: sample_client_id_def sample_correlation_def sample_cpc_def)
  have fields: "ha_memberships sample_adapter = memory_repo"
      "ha_next_transmission sample_adapter = sample_next_id"
      "cc_transport (sample_cpc logged_in) = logged_in"
    by (simp_all add: sample_adapter_def sample_cpc_def)
  have "client_startTransmission (sample_ports 50) Team_scope 3 (sample_cpc logged_in) =
      (Inr (case Inr talk_active of
             Inl e \<Rightarrow> Inl (server_error (startErrorStatus e) (startErrorCode e)
                         ''The transmission could not be started.'')
           | Inr t \<Rightarrow> Inr (started_view t)),
       (sample_cpc logged_in)\<lparr>cc_identifiers := 2,
         cc_transport := (cc_transport (sample_cpc logged_in))\<lparr>hs_service := v\<rparr>\<rparr>)"
    by (rule remote_start_is_start [where next_transmission = sample_client_id and
        next_correlation = sample_correlation, OF sample_logged_in(1) _ ids])
      (auto simp: plain_char_def sample_next_id_def fields cmd start talk_active_def
        talk_authorized_def)
  then show ?thesis by simp
qed

theorem remote_end_witness:
  "\<exists>result service.
     end_service (remote_end_command sample_session_s (StrongId ''k'') (StrongId ''x'')) 60
       (hs_service talking) = (result, service) \<and>
     fst (client_endTransmission (sample_ports 60) (StrongId ''x'') (sample_cpc talking)) =
       (case result of
          Inl e \<Rightarrow> Inl (server_error (endErrorStatus e) (endErrorCode e)
                      ''The transmission could not be ended.'')
        | Inr e \<Rightarrow> Inr \<lparr>ed_transmission_id = StrongId ''x'', ed_stop_reason = ''push_to_talk_released''\<rparr>)"
proof -
  obtain result service where run:
    "end_service (remote_end_command sample_session_s (StrongId ''k'') (StrongId ''x'')) 60
       (hs_service (cc_transport (sample_cpc talking))) = (result, service)" by fastforce
  have id: "sample_correlation (cc_identifiers (sample_cpc talking)) = (StrongId ''k'', 1)"
    by (simp add: sample_correlation_def sample_cpc_def)
  show ?thesis
    using remote_end_is_end [where next_correlation = sample_correlation and
        next_transmission = sample_client_id, OF sample_logged_in(2) id _ _ _ run] run
    by (simp add: sample_cpc_def)
qed

theorem remote_membership_witness:
  "fst (client_membership (sample_ports 60) (sample_cpc talking)) =
     Inr (membership_view (mc_snapshot admin_context) admin_member)"
proof -
  have id: "sample_correlation (cc_identifiers (sample_cpc talking)) = (StrongId ''k'', 1)"
    by (simp add: sample_correlation_def sample_cpc_def)
  have ctx: "provider sample_adapter (cc_transport (sample_cpc talking))
      (as_player_id sample_session_s) = Some admin_context"
    using talking_provider by (simp add: sample_cpc_def sample_session_s_def sample_memberships_def)
  have found: "snapshot_find (mc_snapshot admin_context) (as_player_id sample_session_s) =
      Some admin_member"
    by (simp add: sample_session_s_def admin_context_def admin_member_def sample_membership_defs
        snapshot_find_def lower_bound_def)
  have "client_membership (sample_ports 60) (sample_cpc talking) =
      (Inr (membership_view (mc_snapshot admin_context) admin_member),
       (sample_cpc talking)\<lparr>cc_identifiers := 1\<rparr>)"
    by (rule remote_membership_is_authoritative [where
        next_correlation = sample_correlation, OF sample_logged_in(2) id _ ctx found])
      (simp_all add: member_ids_valid_def admin_context_def admin_member_def sample_membership_defs
        sample_hierarchy_def)
  then show ?thesis by simp
qed

text \<open>A request without a session is answered with an error the client understands.\<close>

definition anonymous_request :: HttpRequest where
  "anonymous_request = sample_http ''GET'' ''/api/v1/membership'' [] []"

lemma anonymous_refused:
  "handle sample_adapter anonymous_request 60 talking =
     (errorResponse 401 ''session_required'' ''Authorization must use the Session scheme.'', talking)"
proof -
  have fields: "hq_target anonymous_request = ''/api/v1/membership''"
      "hq_method anonymous_request = ''GET''"
    by (simp_all add: anonymous_request_def sample_http_def)
  have "authorizationValue anonymous_request ''Session '' = None"
    by (simp add: anonymous_request_def authorizationValue_def sample_headers starts_with_def)
  then have "dispatch sample_adapter anonymous_request 60 talking =
      answer (errorResponse 401 ''session_required'' ''Authorization must use the Session scheme.'')
        talking"
    by (simp add: dispatch_def fields authenticateRequestSession_def)
  then show ?thesis by (simp add: handle_def answer_def)
qed

theorem errors_reach_client_witness:
  "\<exists>code message. responseRoot (received (fst (handle sample_adapter anonymous_request 60 talking))) =
     Inl (server_error 401 code message)"
proof -
  have status: "hr_status_code (errorResponse 401 ''session_required''
      ''Authorization must use the Session scheme.'') = 401"
    by (simp add: errorResponse_def jsonResponse_def)
  show ?thesis
    using errors_reach_client [OF anonymous_refused] unfolding anonymous_refused status by auto
qed

end
