(* ===== verification/Remote_Directory.thy ===== *)
theory Remote_Directory
  imports Remote_Calls Directory_Properties
begin

text \<open>
  The directory between server and client: which snapshots the client accepts, and that it then
  sees exactly what the server sent.
\<close>

section \<open>Documents\<close>

definition parent_document :: "string option \<Rightarrow> document" where
  "parent_document p = (case p of None \<Rightarrow> D_null | Some s \<Rightarrow> D_string s)"

definition node_document :: "DirectoryNode \<Rightarrow> document" where
  "node_document n = D_object
     [(''node_id'', D_string (dn_node_id n)),
      (''node_type'', D_string (directoryNodeTypeName (dn_node_type n))),
      (''parent_node_id'', parent_document (dn_parent_node_id n)),
      (''display_name'', D_string (dn_display_name n)),
      (''sort_index'', D_number (unat (dn_sort_index n)))]"

definition role_document :: "PublicDirectoryRole \<Rightarrow> document" where
  "role_document r = D_object
     [(''role_id'', D_string (id_value (pr_role_id r))),
      (''display_name'', D_string (pr_display_name r))]"

definition participant_document :: "DirectoryParticipant \<Rightarrow> document" where
  "participant_document p = D_object
     [(''player_id'', D_string (id_value (pa_player_id p))),
      (''display_name'', D_string (pa_display_name p)),
      (''primary_team_id'', D_string (id_value (pa_primary_team_id p))),
      (''public_role_ids'', D_array (map (\<lambda>r. D_string (id_value r)) (pa_public_role_ids p)))]"

definition directory_document :: "DirectorySnapshot \<Rightarrow> document" where
  "directory_document snap = versioned
     [(''directory_version'', D_number (unat (di_version snap))),
      (''group_id'', D_string (id_value (di_group_id snap))),
      (''nodes'', D_array (map node_document (di_nodes snap))),
      (''public_roles'', D_array (map role_document (di_public_roles snap))),
      (''participants'', D_array (map participant_document (di_participants snap)))]"

lemma node_text_document: "node_text n = document_text (node_document n)"
  by (cases "dn_parent_node_id n")
    (simp_all add: node_text_def node_document_def parent_document_def document_text_defs)

lemma role_text_document: "role_text r = document_text (role_document r)"
  by (simp add: role_text_def role_document_def document_text_defs)

lemma participant_text_document: "participant_text p = document_text (participant_document p)"
  by (simp add: participant_text_def participant_document_def document_text_defs o_def)

lemma directory_text_document: "directory_text snap = document_text (directory_document snap)"
proof -
  have parts: "node_text = (\<lambda>n. document_text (node_document n))"
      "role_text = (\<lambda>r. document_text (role_document r))"
      "participant_text = (\<lambda>p. document_text (participant_document p))"
    by (simp_all add: fun_eq_iff node_text_document role_text_document participant_text_document)
  show ?thesis
    by (simp add: directory_text_def directory_document_def document_text_defs o_def parts)
qed

lemma unat_u32 [simp]: "unat (v :: u32) < 18446744073709551616"
  using unsigned_less [of v, where 'a = nat] by (simp add: less_trans)

lemma parts_ok [simp]:
  "document_ok (node_document n)" "document_ok (role_document r)" "document_ok (participant_document p)"
  by (simp_all add: node_document_def role_document_def participant_document_def parent_document_def
      elements_ok_iff split: option.split)

lemma json_type_null: "json_type (document_value d) = Json_null \<longleftrightarrow> d = D_null"
  by (cases d) simp_all

lemma object_field:
  assumes "distinct (map fst fs)"
  shows "string_at (document_value (D_object fs)) name =
      (case map_of fs name of Some (D_string s) \<Rightarrow> Some s | _ \<Rightarrow> None)"
    and "unsigned_at (document_value (D_object fs)) name =
      (case map_of fs name of Some (D_number n) \<Rightarrow> Some (word_of_nat n) | _ \<Rightarrow> None)"
    and "array_at (document_value (D_object fs)) name =
      (case map_of fs name of Some (D_array ds) \<Rightarrow> Some (map document_value ds) | _ \<Rightarrow> None)"
    and "json_field (document_value (D_object fs)) name Json_null = None \<longleftrightarrow>
      map_of fs name \<noteq> Some D_null"
  by (auto simp: field_at_defs json_field_object [OF assms] elements_value_map json_type_null
      split: option.splits document.splits simp del: document_value.simps)
    (auto simp: elements_value_map)

section \<open>Views\<close>

fun kind_of :: "DirectoryNodeType \<Rightarrow> DirectoryNodeKind" where
  "kind_of Node_group = Kind_group"
| "kind_of Node_specialization = Kind_specialization"
| "kind_of Node_team = Kind_team"

lemma kind_parsed [simp]: "parseDirectoryNodeKind (directoryNodeTypeName ty) = Some (kind_of ty)"
  by (cases ty) (simp_all add: parseDirectoryNodeKind_def)

lemma kind_of_iff [simp]:
  "kind_of ty = Kind_group \<longleftrightarrow> ty = Node_group"
  "kind_of ty = Kind_specialization \<longleftrightarrow> ty = Node_specialization"
  "kind_of ty = Kind_team \<longleftrightarrow> ty = Node_team"
  by (cases ty; simp)+

definition node_view :: "DirectoryNode \<Rightarrow> DirectoryNodeView" where
  "node_view n =
     \<lparr>nv_node_id = dn_node_id n, nv_kind = kind_of (dn_node_type n),
      nv_parent_node_id = dn_parent_node_id n, nv_display_name = dn_display_name n,
      nv_sort_index = ucast (dn_sort_index n)\<rparr>"

definition role_view :: "PublicDirectoryRole \<Rightarrow> PublicRoleView" where
  "role_view r = \<lparr>rv_role_id = id_value (pr_role_id r), rv_display_name = pr_display_name r\<rparr>"

definition participant_view :: "DirectoryParticipant \<Rightarrow> DirectoryParticipantView" where
  "participant_view p =
     \<lparr>pv_player_id = id_value (pa_player_id p), pv_display_name = pa_display_name p,
      pv_primary_team_id = id_value (pa_primary_team_id p),
      pv_public_role_ids = map id_value (pa_public_role_ids p)\<rparr>"

definition directory_view :: "DirectorySnapshot \<Rightarrow> DirectoryView" where
  "directory_view snap =
     \<lparr>dv_version = di_version snap, dv_group_id = id_value (di_group_id snap),
      dv_nodes = map node_view (di_nodes snap),
      dv_public_roles = map role_view (di_public_roles snap),
      dv_participants = map participant_view (di_participants snap)\<rparr>"

section \<open>What the client accepts\<close>

definition node_fits :: "DirectoryNode \<Rightarrow> bool" where
  "node_fits n \<longleftrightarrow>
     dn_node_id n \<noteq> [] \<and> dn_display_name n \<noteq> [] \<and> dn_parent_node_id n \<noteq> Some [] \<and>
     (dn_node_type n = Node_group \<longleftrightarrow> dn_parent_node_id n = None)"

definition node_entry :: "DirectoryNode \<Rightarrow> string \<times> DirectoryNodeKind" where
  "node_entry n = (dn_node_id n, kind_of (dn_node_type n))"

fun emplace_all :: "('k::linorder \<times> 'v) list \<Rightarrow> ('k, 'v) std_map \<Rightarrow> ('k, 'v) std_map" where
  "emplace_all [] m = m"
| "emplace_all ((k, v) # es) m = emplace_all es (std_emplace k v m)"

lemma emplace_all_fst: "fst ` set (emplace_all es m) = fst ` set es \<union> fst ` set m"
  by (induction es m rule: emplace_all.induct) (auto simp: fst_set_std_emplace)

lemma map_of_emplace_all:
  assumes "distinct (map fst es)" and "fst ` set es \<inter> fst ` set m = {}"
  shows "map_of (emplace_all es m) k = (case map_of es k of Some v \<Rightarrow> Some v | None \<Rightarrow> map_of m k) \<and>
     length (emplace_all es m) = length es + length m"
  using assms
proof (induction es arbitrary: m)
  case (Cons e es)
  obtain a v where e: "e = (a, v)" by (cases e)
  have new: "a \<notin> fst ` set m" "map_of m a = None" "map_of es a = None"
    using Cons.prems e by (auto simp: map_of_eq_None_iff)
  have "distinct (map fst es)" "fst ` set es \<inter> fst ` set (std_emplace a v m) = {}"
    using Cons.prems e by (auto simp: fst_set_std_emplace)
  note rest = Cons.IH [OF this]
  have "length (std_emplace a v m) = Suc (length m)"
    using new(1) by (simp add: std_emplace_def length_std_put_fresh)
  then show ?case
    using rest new by (auto simp: e map_of_std_emplace split: option.splits)
qed simp

lemma node_decoded:
  "decode_node (document_value (node_document n)) kinds = Inr r \<longleftrightarrow>
     node_fits n \<and> dn_node_id n \<notin> fst ` set kinds \<and>
     r = (node_view n, std_emplace (dn_node_id n) (kind_of (dn_node_type n)) kinds)"
proof -
  obtain fs where fs: "node_document n = D_object fs" and "distinct (map fst fs)" and
    found: "map_of fs ''node_id'' = Some (D_string (dn_node_id n))"
      "map_of fs ''node_type'' = Some (D_string (directoryNodeTypeName (dn_node_type n)))"
      "map_of fs ''parent_node_id'' = Some (parent_document (dn_parent_node_id n))"
      "map_of fs ''display_name'' = Some (D_string (dn_display_name n))"
      "map_of fs ''sort_index'' = Some (D_number (unat (dn_sort_index n)))"
    by (simp add: node_document_def)
  note read = object_field [OF \<open>distinct (map fst fs)\<close>]
  have parent: "decode_parent (document_value (D_object fs)) =
      (if dn_parent_node_id n = Some []
       then Inl (invalidResponse ''directory node has an empty parent'')
       else Inr (dn_parent_node_id n))"
    by (cases "dn_parent_node_id n")
      (auto simp: decode_parent_def read found parent_document_def simp del: document_value.simps)
  have index: "(word_of_nat (unat (dn_sort_index n)) :: u64) = ucast (dn_sort_index n)"
    by (simp add: unsigned_def)
  show ?thesis
    unfolding fs
    by (auto simp: decode_node_def read found parent node_fits_def node_view_def index
        simp del: document_value.simps)
qed

lemma nodes_decoded:
  "decode_nodes (map (\<lambda>n. document_value (node_document n)) ns) kinds = Inr r \<longleftrightarrow>
     (\<forall>n \<in> set ns. node_fits n) \<and> distinct (map dn_node_id ns) \<and>
     dn_node_id ` set ns \<inter> fst ` set kinds = {} \<and>
     r = (map node_view ns, emplace_all (map node_entry ns) kinds)"
proof (induction ns arbitrary: kinds r)
  case (Cons n ns)
  show ?case
    by (auto simp: throws_bind_Inr_iff node_decoded Cons.IH node_entry_def fst_set_std_emplace)
qed auto

lemma role_decoded:
  "decode_public_roles (map (\<lambda>r. document_value (role_document r)) rs) seen = Inr x \<longleftrightarrow>
     (\<forall>r \<in> set rs. valid (pr_role_id r) \<and> pr_display_name r \<noteq> []) \<and>
     distinct (map (\<lambda>r. id_value (pr_role_id r)) rs) \<and>
     (\<lambda>r. id_value (pr_role_id r)) ` set rs \<inter> fst ` set seen = {} \<and>
     x = (map role_view rs, emplace_all (map (\<lambda>r. (id_value (pr_role_id r), True)) rs) seen)"
proof (induction rs arbitrary: seen x)
  case (Cons r rs)
  obtain fs where fs: "role_document r = D_object fs" and "distinct (map fst fs)" and
    found: "map_of fs ''role_id'' = Some (D_string (id_value (pr_role_id r)))"
      "map_of fs ''display_name'' = Some (D_string (pr_display_name r))"
    by (simp add: role_document_def)
  note read = object_field [OF \<open>distinct (map fst fs)\<close>]
  show ?case
    by (auto simp: throws_bind_Inr_iff fs read found Cons.IH role_view_def fst_set_std_emplace
        simp del: document_value.simps)
qed auto

lemma participant_roles_decoded:
  "decode_participant_roles known (map (\<lambda>r. JString (id_value r)) rs) seen = Inr x \<longleftrightarrow>
     id_value ` set rs \<subseteq> fst ` set known \<and> distinct (map id_value rs) \<and>
     id_value ` set rs \<inter> fst ` set seen = {} \<and> x = map id_value rs"
  by (induction rs arbitrary: seen x) (auto simp: throws_bind_Inr_iff fst_set_std_emplace)

definition participant_fits ::
  "(string \<Rightarrow> DirectoryNodeKind option) \<Rightarrow> string set \<Rightarrow> DirectoryParticipant \<Rightarrow> bool" where
  "participant_fits kind known p \<longleftrightarrow>
     valid (pa_player_id p) \<and> pa_display_name p \<noteq> [] \<and>
     kind (id_value (pa_primary_team_id p)) = Some Kind_team \<and>
     id_value ` set (pa_public_role_ids p) \<subseteq> known \<and> distinct (map id_value (pa_public_role_ids p))"

lemma participants_decoded:
  "decode_participants kinds known (map (\<lambda>p. document_value (participant_document p)) ps) seen =
       Inr x \<longleftrightarrow>
     (\<forall>p \<in> set ps. participant_fits (map_of kinds) (fst ` set known) p) \<and>
     distinct (map (\<lambda>p. id_value (pa_player_id p)) ps) \<and>
     (\<lambda>p. id_value (pa_player_id p)) ` set ps \<inter> fst ` set seen = {} \<and>
     x = map participant_view ps"
proof (induction ps arbitrary: seen x)
  case (Cons p ps)
  obtain fs where fs: "participant_document p = D_object fs" and "distinct (map fst fs)" and
    found: "map_of fs ''player_id'' = Some (D_string (id_value (pa_player_id p)))"
      "map_of fs ''display_name'' = Some (D_string (pa_display_name p))"
      "map_of fs ''primary_team_id'' = Some (D_string (id_value (pa_primary_team_id p)))"
      "map_of fs ''public_role_ids'' =
         Some (D_array (map (\<lambda>r. D_string (id_value r)) (pa_public_role_ids p)))"
    by (simp add: participant_document_def)
  note read = object_field [OF \<open>distinct (map fst fs)\<close>]
  have roles: "map document_value (map (\<lambda>r. D_string (id_value r)) (pa_public_role_ids p)) =
      map (\<lambda>r. JString (id_value r)) (pa_public_role_ids p)" by simp
  show ?case
    by (auto simp: throws_bind_Inr_iff fs read found Cons.IH participant_view_def
        participant_fits_def fst_set_std_emplace participant_roles_decoded roles
        simp del: document_value.simps map_map)
qed auto

definition nodes_accepted :: "string \<Rightarrow> DirectoryNode list \<Rightarrow> bool" where
  "nodes_accepted grp ns \<longleftrightarrow>
     (\<forall>n \<in> set ns. node_fits n) \<and> distinct (map dn_node_id ns) \<and>
     length (filter (\<lambda>n. dn_node_type n = Node_group) ns) = 1 \<and>
     (\<exists>n \<in> set ns. dn_node_id n = grp \<and> dn_node_type n = Node_group) \<and>
     (\<forall>n \<in> set ns. \<forall>p. dn_parent_node_id n = Some p \<longrightarrow>
        (\<exists>q \<in> set ns. dn_node_id q = p \<and>
           dn_node_type q = (if dn_node_type n = Node_team then Node_specialization else Node_group)))"

definition directory_accepted :: "DirectorySnapshot \<Rightarrow> bool" where
  "directory_accepted snap \<longleftrightarrow>
     di_version snap \<noteq> 0 \<and> valid (di_group_id snap) \<and> length (di_participants snap) \<le> 200 \<and>
     nodes_accepted (id_value (di_group_id snap)) (di_nodes snap) \<and>
     (\<forall>r \<in> set (di_public_roles snap). valid (pr_role_id r) \<and> pr_display_name r \<noteq> []) \<and>
     distinct (map (\<lambda>r. id_value (pr_role_id r)) (di_public_roles snap)) \<and>
     (\<forall>p \<in> set (di_participants snap).
        valid (pa_player_id p) \<and> pa_display_name p \<noteq> [] \<and>
        (\<exists>n \<in> set (di_nodes snap). dn_node_type n = Node_team \<and>
           dn_node_id n = id_value (pa_primary_team_id p)) \<and>
        id_value ` set (pa_public_role_ids p) \<subseteq>
          (\<lambda>r. id_value (pr_role_id r)) ` set (di_public_roles snap) \<and>
        distinct (map id_value (pa_public_role_ids p))) \<and>
     distinct (map (\<lambda>p. id_value (pa_player_id p)) (di_participants snap))"

lemma map_of_node_entries:
  assumes "distinct (map dn_node_id ns)"
  shows "map_of (emplace_all (map node_entry ns) []) k = Some kind \<longleftrightarrow>
           (\<exists>n \<in> set ns. dn_node_id n = k \<and> kind_of (dn_node_type n) = kind)"
    and "length (emplace_all (map node_entry ns) []) = length ns"
proof -
  have keys: "map fst (map node_entry ns) = map dn_node_id ns" by (simp add: node_entry_def)
  then have "distinct (map fst (map node_entry ns))" using assms by (simp only:)
  moreover from map_of_emplace_all [OF this, of "[]" k]
  have e: "map_of (emplace_all (map node_entry ns) []) k = map_of (map node_entry ns) k"
    and l: "length (emplace_all (map node_entry ns) []) = length ns"
    by (simp_all split: option.splits)
  ultimately show "map_of (emplace_all (map node_entry ns) []) k = Some kind \<longleftrightarrow>
      (\<exists>n \<in> set ns. dn_node_id n = k \<and> kind_of (dn_node_type n) = kind)"
    unfolding e by (subst map_of_eq_Some_iff) (auto simp: node_entry_def)
  show "length (emplace_all (map node_entry ns) []) = length ns" by (rule l)
qed

lemma expected_kind:
  "kind_of ty = expected_parent (kind_of ty') \<longleftrightarrow>
     ty = (if ty' = Node_team then Node_specialization else Node_group)"
  by (cases ty; cases ty') (simp_all add: expected_parent_def)

lemma check_hierarchy_accepts:
  assumes "\<forall>n \<in> set ns. node_fits n" and "distinct (map dn_node_id ns)"
  shows "check_hierarchy grp (map node_view ns) (emplace_all (map node_entry ns) []) = None \<longleftrightarrow>
     nodes_accepted grp ns"
proof -
  have groups: "length (filter (\<lambda>v. nv_kind v = Kind_group) (map node_view ns)) =
      length (filter (\<lambda>n. dn_node_type n = Node_group) ns)"
    by (simp add: filter_map o_def node_view_def)
  have root: "map_of (emplace_all (map node_entry ns) []) grp = Some Kind_group \<longleftrightarrow>
      (\<exists>n \<in> set ns. dn_node_id n = grp \<and> dn_node_type n = Node_group)"
    by (simp add: map_of_node_entries [OF assms(2)])
  have parents: "list_ex (\<lambda>v. case nv_parent_node_id v of None \<Rightarrow> False
        | Some p \<Rightarrow> map_of (emplace_all (map node_entry ns) []) p \<noteq>
            Some (expected_parent (nv_kind v))) (map node_view ns) \<longleftrightarrow>
      \<not> (\<forall>n \<in> set ns. \<forall>p. dn_parent_node_id n = Some p \<longrightarrow>
          (\<exists>q \<in> set ns. dn_node_id q = p \<and>
             dn_node_type q = (if dn_node_type n = Node_team then Node_specialization else Node_group)))"
    by (fastforce simp: list_ex_iff node_view_def map_of_node_entries [OF assms(2)] expected_kind
        split: option.splits)
  show ?thesis
    unfolding check_hierarchy_def groups root parents nodes_accepted_def
    using assms by (simp add: map_of_node_entries [OF assms(2)])
qed

lemma nodes_acceptedD:
  "nodes_accepted grp ns \<Longrightarrow> (\<forall>n \<in> set ns. node_fits n) \<and> distinct (map dn_node_id ns)"
  by (simp add: nodes_accepted_def)

lemma emplaced_keys:
  "fst ` set (emplace_all (map (\<lambda>r. (f r, True)) rs) []) = f ` set rs"
  by (simp add: emplace_all_fst image_image)

lemma directory_decoded:
  assumes "responseHeader response ''etag'' = Some (client_etag (di_version snap))"
  shows "decode_directory response (document_value (directory_document snap)) = Inr view \<longleftrightarrow>
     directory_accepted snap \<and> view = directory_view snap"
proof -
  obtain fs where fs: "directory_document snap = versioned fs" and
    found: "map_of fs ''directory_version'' = Some (D_number (unat (di_version snap)))"
      "map_of fs ''group_id'' = Some (D_string (id_value (di_group_id snap)))"
      "map_of fs ''nodes'' = Some (D_array (map node_document (di_nodes snap)))"
      "map_of fs ''public_roles'' = Some (D_array (map role_document (di_public_roles snap)))"
      "map_of fs ''participants'' =
         Some (D_array (map participant_document (di_participants snap)))"
    by (simp add: directory_document_def)
  have ok: "document_ok (versioned fs)"
    unfolding fs [symmetric] directory_document_def versioned_ok by (simp add: elements_ok_iff)
  let ?kinds = "emplace_all (map node_entry (di_nodes snap)) []"
  let ?known = "emplace_all (map (\<lambda>r. (id_value (pr_role_id r), True)) (di_public_roles snap)) []"
  have nodes: "(\<forall>n \<in> set (di_nodes snap). node_fits n) \<and> distinct (map dn_node_id (di_nodes snap)) \<and>
      check_hierarchy g (map node_view (di_nodes snap)) ?kinds = None \<longleftrightarrow>
      nodes_accepted g (di_nodes snap)" for g
    using check_hierarchy_accepts [of "di_nodes snap" g] nodes_acceptedD [of g "di_nodes snap"] by blast
  have kinds: "distinct (map dn_node_id (di_nodes snap)) \<Longrightarrow>
      map_of ?kinds k = Some Kind_team \<longleftrightarrow>
      (\<exists>n \<in> set (di_nodes snap). dn_node_type n = Node_team \<and> dn_node_id n = k)" for k
    by (auto simp: map_of_node_entries)
  have "decode_directory response (document_value (versioned fs)) = Inr view \<longleftrightarrow>
      di_version snap \<noteq> 0 \<and> valid (di_group_id snap) \<and> length (di_participants snap) \<le> 200 \<and>
      (\<forall>n \<in> set (di_nodes snap). node_fits n) \<and> distinct (map dn_node_id (di_nodes snap)) \<and>
      check_hierarchy (id_value (di_group_id snap)) (map node_view (di_nodes snap)) ?kinds = None \<and>
      (\<forall>r \<in> set (di_public_roles snap). valid (pr_role_id r) \<and> pr_display_name r \<noteq> []) \<and>
      distinct (map (\<lambda>r. id_value (pr_role_id r)) (di_public_roles snap)) \<and>
      (\<forall>p \<in> set (di_participants snap). participant_fits (map_of ?kinds)
         ((\<lambda>r. id_value (pr_role_id r)) ` set (di_public_roles snap)) p) \<and>
      distinct (map (\<lambda>p. id_value (pa_player_id p)) (di_participants snap)) \<and>
      view = directory_view snap"
    unfolding decode_directory_def
    using assms
    by (auto simp: versioned_reads [OF ok _ found(1)] versioned_reads [OF ok _ found(2)]
        versioned_reads [OF ok _ found(3)] versioned_reads [OF ok _ found(4)]
        versioned_reads [OF ok _ found(5)] o_def throws_bind_Inr_iff nodes_decoded role_decoded
        participants_decoded emplaced_keys directory_view_def split: option.splits)
  also have "\<dots> \<longleftrightarrow> directory_accepted snap \<and> view = directory_view snap"
    unfolding directory_accepted_def nodes [symmetric] participant_fits_def
    by (cases "distinct (map dn_node_id (di_nodes snap))") (simp_all add: kinds)
  finally show ?thesis unfolding fs .
qed

lemma decoded_is_accepted:
  assumes "decode_directory response (document_value (directory_document snap)) = Inr view"
  shows "directory_accepted snap"
proof -
  obtain fs where fs: "directory_document snap = versioned fs" and
    found: "map_of fs ''directory_version'' = Some (D_number (unat (di_version snap)))"
    by (simp add: directory_document_def)
  have ok: "document_ok (versioned fs)"
    unfolding fs [symmetric] directory_document_def versioned_ok by (simp add: elements_ok_iff)
  have "unsigned_at (document_value (directory_document snap)) ''directory_version'' =
      Some (di_version snap)"
    unfolding fs by (simp add: versioned_reads [OF ok _ found])
  then have "responseHeader response ''etag'' = Some (client_etag (di_version snap))"
    using assms unfolding decode_directory_def by (auto split: option.splits if_splits)
  then show ?thesis using assms directory_decoded by blast
qed

text \<open>A document the client refuses is refused as an invalid response.\<close>

definition invalid_response :: "ControlPlaneError \<Rightarrow> bool" where
  "invalid_response e \<longleftrightarrow> (\<exists>message. e = invalidResponse message)"

lemma invalid_responses [simp]:
  "invalid_response (invalidResponse message)" "invalid_response invalid_node"
  by (auto simp: invalid_response_def invalid_node_def)

lemma decode_nodes_error: "decode_nodes nodes kinds = Inl e \<Longrightarrow> invalid_response e"
proof (induction nodes arbitrary: kinds)
  case (Cons node rest)
  have "decode_node node kinds = Inl e \<Longrightarrow> invalid_response e"
    by (auto simp: decode_node_def decode_parent_def throws_bind_Inl_iff
        split: option.splits if_splits)
  with Cons show ?case by (auto simp: throws_bind_Inl_iff)
qed simp

lemma check_hierarchy_error: "check_hierarchy g nodes kinds = Some e \<Longrightarrow> invalid_response e"
  by (auto simp: check_hierarchy_def split: if_splits)

lemma decode_public_roles_error: "decode_public_roles roles seen = Inl e \<Longrightarrow> invalid_response e"
  by (induction roles arbitrary: seen)
    (auto simp: throws_bind_Inl_iff split: option.splits if_splits)

lemma decode_participant_roles_error:
  "decode_participant_roles known roles seen = Inl e \<Longrightarrow> invalid_response e"
  by (induction known roles seen rule: decode_participant_roles.induct)
    (auto simp: throws_bind_Inl_iff split: if_splits)

lemma decode_participants_error:
  "decode_participants kinds known participants seen = Inl e \<Longrightarrow> invalid_response e"
  by (induction participants arbitrary: seen)
    (auto simp: throws_bind_Inl_iff split: option.splits if_splits
      dest: decode_participant_roles_error)

lemma decode_directory_error: "decode_directory response root = Inl e \<Longrightarrow> invalid_response e"
  unfolding decode_directory_def
  by (auto simp: throws_bind_Inl_iff split: option.splits if_splits prod.splits
      dest: decode_nodes_error check_hierarchy_error decode_public_roles_error
        decode_participants_error)

section \<open>The call\<close>

lemma directory_etag_agrees: "client_etag v = directory_etag v"
  by (simp add: client_etag_def directory_etag_def)

lemma fetched_root:
  assumes "hr_body response = directory_text snap" and "hr_status_code response = 200"
    and "responseHeader (received response) ''x-hvc-api-version'' = Some ''v1''"
  shows "responseRoot (received response) = Inr (document_value (directory_document snap))"
proof -
  obtain fs where fs: "directory_document snap = versioned fs" by (simp add: directory_document_def)
  have ok: "document_ok (versioned fs)"
    unfolding fs [symmetric] directory_document_def versioned_ok by (simp add: elements_ok_iff)
  from root_of_document [OF assms(3) _ ok] assms(1,2) fs show ?thesis
    by (simp add: directory_text_document)
qed

lemma directory_response:
  assumes "directoryFor memberships actor d = Inr (Inr snap, d')"
    and "header request ''if-none-match'' = []"
  obtains response where "directoryResponse memberships request actor d = Inr (response, d')"
    "hr_body response = directory_text snap" "hr_status_code response = 200"
    "responseHeader (received response) ''x-hvc-api-version'' = Some ''v1''"
    "responseHeader (received response) ''etag'' = Some (client_etag (di_version snap))"
proof -
  let ?etag = "directory_etag (di_version snap)"
  let ?response = "(jsonResponse 200 (directory_text snap))
    \<lparr>hr_headers := std_emplace ''etag'' ?etag (hr_headers (jsonResponse 200 (directory_text snap)))\<rparr>"
  have "?etag \<noteq> []" by (simp add: directory_etag_def quoted_def)
  then have "directoryResponse memberships request actor d = Inr (?response, d')"
    using assms by (auto simp: directoryResponse_def Let_def)
  moreover have "hr_body ?response = directory_text snap" "hr_status_code ?response = 200"
    by (simp_all add: jsonResponse_def)
  moreover have "responseHeader (received ?response) ''x-hvc-api-version'' = Some ''v1''"
      "responseHeader (received ?response) ''etag'' = Some (client_etag (di_version snap))"
    by (simp_all add: received_def responseHeader_def jsonResponse_def asciiHeaderNameEquals_def
        std_emplace_def directory_etag_agrees lower_def)
  ultimately show thesis by (rule that)
qed

lemma directory_fetched:
  assumes "logged_in_at a now x c"
    and "next_correlation (cc_identifiers c) = (correlation, g)" and "valid correlation"
    and "hs_directory (cc_transport c) = Some d"
    and "directoryFor (provider a (cc_transport c)) (as_player_id x) d = Inr (Inr snap, d')"
  obtains response where
    "responseHeader response ''etag'' = Some (client_etag (di_version snap))"
    "client_directory (wire a now next_correlation next_transmission) None c =
      (throws_bind (decode_directory response (document_value (directory_document snap)))
         (\<lambda>view. Inr \<lparr>df_snapshot = Some view\<rparr>),
       c\<lparr>cc_identifiers := g, cc_transport := (cc_transport c)\<lparr>hs_directory := Some d'\<rparr>\<rparr>)"
proof -
  let ?request = "\<lparr>hq_method = ''GET'', hq_target = ''/api/v1/directory'',
    hq_headers = call_headers x correlation, hq_body = []\<rparr>"
  have "header ?request ''if-none-match'' = []"
    by (simp add: header_def call_headers_def asciiLower_def)
  from directory_response [OF assms(5) this] obtain response where
    response: "directoryResponse (provider a (cc_transport c)) ?request (as_player_id x) d =
        Inr (response, d')"
      "hr_body response = directory_text snap" "hr_status_code response = 200"
      "responseHeader (received response) ''x-hvc-api-version'' = Some ''v1''"
      "responseHeader (received response) ''etag'' = Some (client_etag (di_version snap))" .
  let ?decode = "\<lambda>response.
    if cr_status_code response = 304 then not_modified None response
    else throws_bind (responseRoot response) (\<lambda>root.
      throws_bind (decode_directory response root) (\<lambda>view. Inr \<lparr>df_snapshot = Some view\<rparr>))"
  have "session_call (wire a now next_correlation next_transmission) ''GET'' ''/api/v1/directory''
      [] [] ?decode c =
      (?decode (received response),
       c\<lparr>cc_identifiers := g, cc_transport := (cc_transport c)\<lparr>hs_directory := Some d'\<rparr>\<rparr>)"
    by (rule session_call_wire [where next_correlation = next_correlation, OF assms(1-3)])
      (use assms(4) response(1) in \<open>simp_all add: handle_session_def handle_directory_def
          on_directory_def call_session_def answer_def\<close>)
  moreover have "responseRoot (received response) = Inr (document_value (directory_document snap))"
    by (rule fetched_root [OF response(2-4)])
  moreover have "cr_status_code (received response) = 200"
    using response(3) by (simp add: received_def)
  moreover obtain session where "cc_session c = Some session"
    using assms(1) by (auto simp: logged_in_at_def)
  ultimately show thesis using that [OF response(5)] by (simp add: client_directory_def)
qed

text \<open>
  C14: a logged-in client fetches exactly the directory the server computed, or refuses it. When
  the directory service gives the session's player a snapshot, the client's unconditional fetch
  returns it, field by field, if the snapshot passes the client's checks, and an invalid-response
  error otherwise; there is no third outcome, and only the service's version cache changes on the
  server.
\<close>

theorem remote_directory_is_directory:
  assumes "logged_in_at a now x c"
    and "next_correlation (cc_identifiers c) = (correlation, g)" and "valid correlation"
    and "hs_directory (cc_transport c) = Some d"
    and "directoryFor (provider a (cc_transport c)) (as_player_id x) d = Inr (Inr snap, d')"
  shows "\<exists>message. client_directory (wire a now next_correlation next_transmission) None c =
     (if directory_accepted snap then Inr \<lparr>df_snapshot = Some (directory_view snap)\<rparr>
      else Inl (invalidResponse message),
      c\<lparr>cc_identifiers := g, cc_transport := (cc_transport c)\<lparr>hs_directory := Some d'\<rparr>\<rparr>)"
proof -
  obtain response where response:
    "responseHeader response ''etag'' = Some (client_etag (di_version snap))"
    "client_directory (wire a now next_correlation next_transmission) None c =
      (throws_bind (decode_directory response (document_value (directory_document snap)))
         (\<lambda>view. Inr \<lparr>df_snapshot = Some view\<rparr>),
       c\<lparr>cc_identifiers := g, cc_transport := (cc_transport c)\<lparr>hs_directory := Some d'\<rparr>\<rparr>)"
    by (rule directory_fetched [where next_correlation = next_correlation, OF assms])
  show ?thesis
  proof (cases "decode_directory response (document_value (directory_document snap))")
    case (Inl e)
    obtain message where "e = invalidResponse message"
      using decode_directory_error [OF Inl] by (auto simp: invalid_response_def)
    then show ?thesis using Inl response directory_decoded [OF response(1)] by auto
  next
    case (Inr view)
    moreover have "directory_accepted snap" "view = directory_view snap"
      using Inr directory_decoded [OF response(1)] by simp_all
    ultimately show ?thesis using response(2) by simp
  qed
qed

end
