(* ===== verification/Directory_Acceptance.thy ===== *)
theory Directory_Acceptance
  imports Remote_Directory Remote_Examples
begin

text \<open>
  Which hierarchies give directories the client accepts: those whose nodes have identifiers that
  are unique across groups, specializations and teams. The hierarchy's constructor asks for less,
  and a directory is refused for it.
\<close>

section \<open>The service's own data\<close>

text \<open>Every profile and every public role has a name, and a role is stored under its identifier.\<close>

definition role_entry_ok :: "RoleId \<times> PublicDirectoryRole \<Rightarrow> bool" where
  "role_entry_ok e \<longleftrightarrow>
     pr_role_id (snd e) = fst e \<and> pr_display_name (snd e) \<noteq> [] \<and> valid (fst e)"

definition service_ok :: "DirectoryApplicationService \<Rightarrow> bool" where
  "service_ok d \<longleftrightarrow>
     (\<forall>e \<in> set (ds_profiles d). dp_display_name (snd e) \<noteq> []) \<and>
     (\<forall>e \<in> set (ds_public_roles d). role_entry_ok e) \<and> directory_versions_ok d"

lemma set_std_put_cases: "e \<in> set (std_put k v m) \<Longrightarrow> e = (k, v) \<or> e \<in> set m"
  using set_std_put_subset by fast

lemma role_catalog_ok:
  assumes "role_catalog version roles replacement = Inr catalog"
    and "\<forall>e \<in> set replacement. role_entry_ok e" and "\<forall>r \<in> set roles. valid (pr_role_id r)"
  shows "\<forall>e \<in> set catalog. role_entry_ok e"
  using assms
proof (induction roles arbitrary: replacement)
  case (Cons role rest)
  have role: "role_entry_ok (pr_role_id role, role)"
    using Cons.prems by (simp add: role_entry_ok_def split: if_splits)
  then have "\<forall>e \<in> set (std_emplace (pr_role_id role) role replacement). role_entry_ok e"
    using Cons.prems(2) by (auto simp: std_emplace_def dest!: set_std_put_cases)
  with Cons.IH [of "std_emplace (pr_role_id role) role replacement"] Cons.prems show ?case
    by (simp split: if_splits)
qed simp

lemma service_ok_ctor: "service_ok DirectoryApplicationService_ctor"
  by (simp add: service_ok_def DirectoryApplicationService_ctor_def directory_versions_ok_def)

lemma service_ok_profile:
  "service_ok d \<Longrightarrow> upsertProfile profile d = Inr (r, d') \<Longrightarrow> service_ok d'"
  by (auto simp: service_ok_def upsertProfile_def directory_versions_ok_def split: if_splits
      dest!: set_std_put_cases)

lemma service_ok_roles:
  assumes "service_ok d" and "replacePublicRoles version roles d = Inr (r, d')"
    and "\<forall>r \<in> set roles. valid (pr_role_id r)"
  shows "service_ok d'"
proof -
  obtain catalog where catalog: "role_catalog version roles [] = Inr catalog"
    and d': "d' = d \<or> d' = d\<lparr>ds_public_roles := catalog, ds_catalog_version := version\<rparr>"
    using assms(2) by (auto simp: replacePublicRoles_def throws_bind_Inr_iff split: if_splits)
  from role_catalog_ok [OF catalog _ assms(3)] d' assms(1) show ?thesis
    by (auto simp: service_ok_def directory_versions_ok_def)
qed

lemma service_ok_read:
  assumes "service_ok d" and "directoryFor memberships actor d = Inr (Inr snap, d')"
  shows "service_ok d'"
  using assms(2)
proof (cases rule: directoryFor_cases)
  case (1 ctx m g participants refs source v)
  have "directory_versions_ok d'"
    using directory_versions_ok_read [OF _ assms(2)] assms(1) by (simp add: service_ok_def)
  then show ?thesis using 1(12) assms(1) by (simp add: service_ok_def)
qed

section \<open>Nodes\<close>

lemma specialization_nodes_ids:
  "map dn_node_id (fst (specialization_nodes g ag ss i next)) =
     map (\<lambda>s. id_value (sp_id s)) (filter (\<lambda>s. sp_group_id s = ag) ss)"
  by (induction ss arbitrary: i "next") (simp_all add: Let_def case_prod_beta)

lemma specialization_node:
  "n \<in> set (fst (specialization_nodes g ag ss i next)) \<Longrightarrow>
     dn_node_type n = Node_specialization \<and> dn_parent_node_id n = Some (id_value (gr_id g)) \<and>
     (\<exists>s \<in> set ss. dn_node_id n = id_value (sp_id s) \<and> dn_display_name n = sp_display_name s)"
  by (induction ss arbitrary: i "next") (auto simp: Let_def case_prod_beta split: if_splits)

lemma team_nodes_ids:
  "map dn_node_id (team_nodes ts next) =
     map (\<lambda>t. id_value (tm_id t)) (filter (\<lambda>t. tm_specialization_id t \<in> fst ` set next) ts)"
proof (induction ts arbitrary: "next")
  case (Cons t ts)
  show ?case
  proof (cases "map_of next (tm_specialization_id t)")
    case None
    then have "tm_specialization_id t \<notin> fst ` set next" by (simp add: map_of_eq_None_iff)
    then show ?thesis using None Cons.IH by simp
  next
    case (Some index)
    then have "tm_specialization_id t \<in> fst ` set next" by (metis map_of_eq_None_iff option.simps(3))
    then show ?thesis
      using Some Cons.IH [of "std_put (tm_specialization_id t) (index + 1) next"]
      by (simp add: fst_set_std_put insert_absorb)
  qed
qed simp

lemma team_node:
  "n \<in> set (team_nodes ts next) \<Longrightarrow>
     dn_node_type n = Node_team \<and>
     (\<exists>t \<in> set ts. dn_node_id n = id_value (tm_id t) \<and> dn_display_name n = tm_display_name t \<and>
        dn_parent_node_id n = Some (id_value (tm_specialization_id t)) \<and>
        tm_specialization_id t \<in> fst ` set next)"
proof (induction ts arbitrary: "next")
  case (Cons t ts)
  show ?case
  proof (cases "map_of next (tm_specialization_id t)")
    case None
    then show ?thesis using Cons by fastforce
  next
    case (Some index)
    then have "tm_specialization_id t \<in> fst ` set next" by (metis map_of_eq_None_iff option.simps(3))
    then show ?thesis
      using Some Cons.IH [of "std_put (tm_specialization_id t) (index + 1) next"] Cons.prems
      by (auto simp: fst_set_std_put insert_absorb)
  qed
qed simp

section \<open>Participants\<close>

lemma public_roles_refs:
  "fst (public_roles_of catalog rs ids refs v) = ids @ filter (\<lambda>r. map_of catalog r \<noteq> None) rs"
  "fst ` set (fst (snd (public_roles_of catalog rs ids refs v))) =
     fst ` set refs \<union> {r \<in> set rs. map_of catalog r \<noteq> None}"
  "std_ok refs \<Longrightarrow> std_ok (fst (snd (public_roles_of catalog rs ids refs v)))"
  by (induction catalog rs ids refs v rule: public_roles_of.induct)
    (auto simp: fst_set_std_emplace split: option.splits)

lemma id_value_inj: "inj_on id_value A"
  by (rule inj_onI) (metis StrongId.collapse)

lemma distinct_ids: "distinct (map id_value xs) \<longleftrightarrow> distinct xs"
  by (simp add: distinct_map id_value_inj)

lemma distinct_remdups_sorted: "sorted xs \<Longrightarrow> distinct (remdups_adj xs)"
proof (induction xs rule: remdups_adj.induct)
  case (3 x y xs)
  then show ?case by (cases "x = y") (auto simp: le_less_trans)
qed simp_all

definition participants_ok ::
  "DirectoryParticipant list \<Rightarrow> (RoleId, unit) std_map \<Rightarrow> bool" where
  "participants_ok ps refs \<longleftrightarrow>
     (\<forall>p \<in> set ps. pa_display_name p \<noteq> [] \<and> set (pa_public_role_ids p) \<subseteq> fst ` set refs \<and>
        distinct (map id_value (pa_public_role_ids p)))"

lemma participants_collected:
  assumes "service_ok d" and "std_ok refs" and "\<forall>m \<in> set ms. valid (vm_player_id m)"
    and "fst ` set refs \<subseteq> fst ` set (ds_public_roles d)"
    and "directory_participants d ms refs v = (ps, refs', v')"
  shows "participants_ok ps refs' \<and> std_ok refs' \<and> fst ` set refs \<subseteq> fst ` set refs' \<and>
     fst ` set refs' \<subseteq> fst ` set (ds_public_roles d)"
  using assms(2-)
proof (induction ms arbitrary: refs v ps refs' v')
  case (Cons m ms)
  obtain name v1 where name: "(case map_of (ds_profiles d) (vm_player_id m) of
      None \<Rightarrow> (id_value (vm_player_id m), v)
    | Some p \<Rightarrow> (dp_display_name p, max v (dp_version p))) = (name, v1)" by fastforce
  obtain ids refs1 v2 where ids: "public_roles_of (ds_public_roles d) (vm_role_ids m) [] refs v1 =
      (ids, refs1, v2)" using prod_cases3 by blast
  obtain qs refs2 v3 where rest: "directory_participants d ms refs1 v2 = (qs, refs2, v3)"
    using prod_cases3 by blast
  have result: "refs' = refs2" "ps = \<lparr>pa_player_id = vm_player_id m, pa_display_name = name,
      pa_primary_team_id = vm_team_id m, pa_public_role_ids = remdups_adj (sort ids)\<rparr> # qs"
    using Cons.prems(4) by (simp_all add: name ids rest)
  note refs = public_roles_refs [where catalog = "ds_public_roles d" and
      rs = "vm_role_ids m" and ids = "[]" and refs = refs and v = v1, unfolded ids, simplified]
  have own: "set ids \<subseteq> fst ` set refs1" "fst ` set refs \<subseteq> fst ` set refs1"
      "fst ` set refs1 \<subseteq> fst ` set (ds_public_roles d)"
    using refs(1,2) Cons.prems(3) by (auto simp: map_of_eq_None_iff)
      (metis domIff dom_map_of_conv_image_fst option.simps(3))
  have IH: "participants_ok qs refs2" "std_ok refs2" "fst ` set refs1 \<subseteq> fst ` set refs2"
      "fst ` set refs2 \<subseteq> fst ` set (ds_public_roles d)"
    using Cons.IH [OF _ _ own(3) rest] refs(3) Cons.prems(1,2) by simp_all
  have named: "name \<noteq> []"
    using name Cons.prems(2) assms(1)
    by (auto simp: service_ok_def split: option.splits dest!: map_of_SomeD)
  have sub: "fst ` set refs \<subseteq> fst ` set refs2" "set ids \<subseteq> fst ` set refs2"
    by (rule subset_trans [OF own(2) IH(3)], rule subset_trans [OF own(1) IH(3)])
  have "participants_ok ps refs2"
    unfolding participants_ok_def result(2) distinct_ids
    using IH(1) [unfolded participants_ok_def distinct_ids] named sub(2)
    by (simp add: distinct_remdups_sorted)
  then show ?case using IH(2,4) sub(1) unfolding result(1) by (intro conjI)
qed (simp add: participants_ok_def)

section \<open>Acceptance\<close>

definition hierarchy_named :: "Hierarchy \<Rightarrow> bool" where
  "hierarchy_named h \<longleftrightarrow>
     (\<forall>g \<in> set (hi_groups h). valid (gr_id g) \<and> gr_display_name g \<noteq> []) \<and>
     (\<forall>s \<in> set (hi_specializations h). valid (sp_id s) \<and> sp_display_name s \<noteq> []) \<and>
     (\<forall>t \<in> set (hi_teams h). valid (tm_id t) \<and> tm_display_name t \<noteq> [])"

definition node_ids_unique :: "Hierarchy \<Rightarrow> bool" where
  "node_ids_unique h \<longleftrightarrow>
     distinct (map (\<lambda>g. id_value (gr_id g)) (hi_groups h) @
       map (\<lambda>s. id_value (sp_id s)) (hi_specializations h) @
       map (\<lambda>t. id_value (tm_id t)) (hi_teams h))"

lemma distinct_levels:
  assumes "distinct xs" and "distinct ys" and "set xs \<subseteq> A" and "set ys \<subseteq> B" and "A \<inter> B = {}"
    and "a \<notin> A" and "a \<notin> B"
  shows "distinct (a # xs @ ys)"
  using assms by auto

lemma nodes_are_accepted:
  assumes "hierarchy_named h" and "node_ids_unique h" and "g \<in> set (hi_groups h)"
    and "specialization_nodes g (gr_id g) (hi_specializations h) 0 [] = (sn, next)"
  shows "nodes_accepted (id_value (gr_id g))
     (\<lparr>dn_node_id = id_value (gr_id g), dn_node_type = Node_group, dn_parent_node_id = None,
       dn_display_name = gr_display_name g, dn_sort_index = 0\<rparr> # sn @ team_nodes (hi_teams h) next)"
    (is "nodes_accepted _ (?root # sn @ ?tn)")
proof -
  let ?ss = "filter (\<lambda>s. sp_group_id s = gr_id g) (hi_specializations h)"
  let ?ts = "filter (\<lambda>t. tm_specialization_id t \<in> fst ` set next) (hi_teams h)"
  have sn_ids: "map dn_node_id sn = map (\<lambda>s. id_value (sp_id s)) ?ss"
    using specialization_nodes_ids [of g "gr_id g" "hi_specializations h" 0 "[]"] by (simp add: assms(4))
  have tn_ids: "map dn_node_id ?tn = map (\<lambda>t. id_value (tm_id t)) ?ts" by (rule team_nodes_ids)
  have sn: "n \<in> set sn \<Longrightarrow> dn_node_type n = Node_specialization \<and>
      dn_parent_node_id n = Some (id_value (gr_id g)) \<and>
      (\<exists>s \<in> set (hi_specializations h). dn_node_id n = id_value (sp_id s) \<and>
         dn_display_name n = sp_display_name s)" for n
    using specialization_node [of n g "gr_id g" "hi_specializations h" 0 "[]"] by (simp add: assms(4))
  note tn = team_node [of _ "hi_teams h" "next"]
  have keys: "fst ` set next = sp_id ` set ?ss"
    using specialization_nodes_next [of g "gr_id g" "hi_specializations h" 0 "[]"]
    by (simp add: assms(4))
  have unique: "distinct (map (\<lambda>s. id_value (sp_id s)) (hi_specializations h))"
      "distinct (map (\<lambda>t. id_value (tm_id t)) (hi_teams h))"
    and apart: "(\<lambda>s. id_value (sp_id s)) ` set (hi_specializations h) \<inter>
        (\<lambda>t. id_value (tm_id t)) ` set (hi_teams h) = {}"
      "id_value (gr_id g) \<notin> (\<lambda>s. id_value (sp_id s)) ` set (hi_specializations h)"
      "id_value (gr_id g) \<notin> (\<lambda>t. id_value (tm_id t)) ` set (hi_teams h)"
    using assms(2,3) unfolding node_ids_unique_def by auto
  have "distinct (map dn_node_id sn)" "distinct (map dn_node_id ?tn)"
    unfolding sn_ids tn_ids by (rule distinct_map_filter unique)+
  moreover have "set (map dn_node_id sn) \<subseteq> (\<lambda>s. id_value (sp_id s)) ` set (hi_specializations h)"
      "set (map dn_node_id ?tn) \<subseteq> (\<lambda>t. id_value (tm_id t)) ` set (hi_teams h)"
    unfolding sn_ids tn_ids by auto
  ultimately have "distinct (id_value (gr_id g) # map dn_node_id sn @ map dn_node_id ?tn)"
    using apart by (rule distinct_levels)
  then have ids: "distinct (map dn_node_id (?root # sn @ ?tn))" by simp
  have fits: "node_fits n" if "n \<in> set (?root # sn @ ?tn)" for n
  proof -
    have root: "node_fits ?root"
      using assms(1,3) by (simp add: node_fits_def hierarchy_named_def)
    have grp: "valid (gr_id g)" using assms(1,3) by (simp add: hierarchy_named_def)
    have spec: "node_fits n" if "n \<in> set sn"
      using sn [OF that] assms(1) grp by (auto simp: node_fits_def hierarchy_named_def)
    have team: "node_fits n" if listed: "n \<in> set ?tn"
    proof -
      obtain t where t: "t \<in> set (hi_teams h)" "dn_node_id n = id_value (tm_id t)"
          "dn_display_name n = tm_display_name t" "dn_node_type n = Node_team"
          "dn_parent_node_id n = Some (id_value (tm_specialization_id t))"
          "tm_specialization_id t \<in> sp_id ` set ?ss"
        using tn [OF listed] unfolding keys by blast
      then have "valid (tm_specialization_id t)" using assms(1) by (auto simp: hierarchy_named_def)
      then show ?thesis using t assms(1) by (simp add: node_fits_def hierarchy_named_def)
    qed
    show ?thesis using that root spec team by auto
  qed
  have types: "filter (\<lambda>n. dn_node_type n = Node_group) sn = []"
      "filter (\<lambda>n. dn_node_type n = Node_group) ?tn = []"
    using sn tn by (auto simp: filter_empty_conv)
  have parents: "\<exists>q \<in> set (?root # sn @ ?tn). dn_node_id q = p \<and>
      dn_node_type q = (if dn_node_type n = Node_team then Node_specialization else Node_group)"
    if listed: "n \<in> set (?root # sn @ ?tn)" and parent: "dn_parent_node_id n = Some p" for n p
  proof -
    consider "n = ?root" | "n \<in> set sn" | "n \<in> set ?tn" using listed by auto
    then show ?thesis
    proof cases
      case 2
      then show ?thesis using sn [OF 2] parent by simp
    next
      case 3
      obtain t where t: "t \<in> set (hi_teams h)"
          "dn_parent_node_id n = Some (id_value (tm_specialization_id t))"
          "dn_node_type n = Node_team" "tm_specialization_id t \<in> fst ` set next"
        using tn [OF 3] by blast
      then have "p \<in> set (map dn_node_id sn)" using parent unfolding sn_ids keys by auto
      then show ?thesis using sn t(3) by auto
    qed (use parent in simp)
  qed
  show ?thesis
    unfolding nodes_accepted_def
    using ids fits parents by (intro conjI ballI allI impI) (simp_all add: types)
qed

lemma directoryFor_parts:
  assumes "directoryFor memberships actor d = Inr (Inr snap, d')" and "memberships actor = Some ctx"
  obtains m g sn "next" refs source where
    "snapshot_find (mc_snapshot ctx) actor = Some m"
    "findGroup (ms_hierarchy (mc_snapshot ctx)) (vm_group_id m) = Some g"
    "specialization_nodes g (vm_group_id m) (hi_specializations (ms_hierarchy (mc_snapshot ctx))) 0 []
       = (sn, next)"
    "di_nodes snap = \<lparr>dn_node_id = id_value (gr_id g), dn_node_type = Node_group,
       dn_parent_node_id = None, dn_display_name = gr_display_name g, dn_sort_index = 0\<rparr> #
       sn @ team_nodes (hi_teams (ms_hierarchy (mc_snapshot ctx))) next"
    "directory_participants d
       (sort_key vm_player_id (filter (\<lambda>x. vm_group_id x = vm_group_id m)
          (ms_memberships (mc_snapshot ctx)))) [] (ms_version (mc_snapshot ctx)) =
       (di_participants snap, refs, source)"
    "di_public_roles snap = map (\<lambda>r. the (map_of (ds_public_roles d) r)) (keys refs)"
proof -
  obtain m where m: "snapshot_find (mc_snapshot ctx) actor = Some m"
    and make: "makeDirectory ctx m d = Inr (Inr snap, d')"
    using assms by (auto simp: directoryFor_def currentContextFor_def split: option.splits if_splits)
  obtain g where g: "findGroup (ms_hierarchy (mc_snapshot ctx)) (vm_group_id m) = Some g"
    using make by (auto simp: makeDirectory_def Let_def split: option.splits)
  obtain sn "next" where sn: "specialization_nodes g (vm_group_id m)
      (hi_specializations (ms_hierarchy (mc_snapshot ctx))) 0 [] = (sn, next)" by fastforce
  obtain ps refs source where ps: "directory_participants d
      (sort_key vm_player_id (filter (\<lambda>x. vm_group_id x = vm_group_id m)
         (ms_memberships (mc_snapshot ctx)))) [] (ms_version (mc_snapshot ctx)) = (ps, refs, source)"
    using prod_cases3 by blast
  show thesis
    by (rule that [OF m g sn])
      (use make g sn ps in \<open>auto simp: makeDirectory_def Let_def throws_bind_Inr_iff split: if_splits\<close>)
qed

text \<open>The parts of the check, each for a directory the service served.\<close>

lemma served_directory_numbers:
  assumes "service_ok d" and served: "directoryFor memberships actor d = Inr (Inr snap, d')"
    and "memberships actor = Some ctx" and "snapshot_find (mc_snapshot ctx) actor = Some m"
  shows "di_version snap \<noteq> 0" and "di_group_id snap = vm_group_id m"
    and "length (di_participants snap) \<le> 200"
proof -
  from served show "di_version snap \<noteq> 0" "di_group_id snap = vm_group_id m"
      "length (di_participants snap) \<le> 200"
  proof (atomize (full), cases rule: directoryFor_cases)
    case (1 ctx' m' g' ps refs' source' v)
    have same: "ctx' = ctx" "m' = m" using 1(1,2) assms(3,4) by simp_all
    have "0 < vd_version v"
      using next_directory_version_pos [OF 1(10)] assms(1) map_of_SomeD
      by (fastforce simp: service_ok_def directory_versions_ok_def)
    moreover have "length (di_participants snap) \<le> 200"
      using arg_cong [OF participants_players, of length] 1(5,7,8)
      by (simp add: maximum_directory_participants_def) (metis fst_conv length_map length_sort)
    ultimately show "di_version snap \<noteq> 0 \<and> di_group_id snap = vm_group_id m \<and>
        length (di_participants snap) \<le> 200"
      using 1(6,11) by (simp add: same)
  qed
qed

lemma named_roles_ok:
  assumes "service_ok d" and "r \<in> fst ` set (ds_public_roles d)"
  shows "pr_role_id (the (map_of (ds_public_roles d) r)) = r \<and>
    pr_display_name (the (map_of (ds_public_roles d) r)) \<noteq> [] \<and> valid r"
proof -
  obtain role where "map_of (ds_public_roles d) r = Some role"
    using assms(2) by (metis map_of_eq_None_iff not_None_eq)
  then show ?thesis
    using assms(1) map_of_SomeD unfolding service_ok_def role_entry_ok_def by fastforce
qed

lemma member_team_listed:
  assumes "snapshot_ok snapshot" and "x \<in> set (ms_memberships snapshot)" and "vm_group_id x = gid"
    and nodes: "specialization_nodes g gid (hi_specializations (ms_hierarchy snapshot)) 0 [] = (sn, next)"
  shows "\<exists>n \<in> set (team_nodes (hi_teams (ms_hierarchy snapshot)) next).
    dn_node_type n = Node_team \<and> dn_node_id n = id_value (vm_team_id x)"
proof -
  let ?h = "ms_hierarchy snapshot"
  have "valid_path ?h x" "hierarchy_ok ?h" using assms(1,2) by (simp_all add: snapshot_ok_def)
  then obtain s t where st: "s \<in> set (hi_specializations ?h)" "sp_group_id s = gid"
      "t \<in> set (hi_teams ?h)" "tm_id t = vm_team_id x" "tm_specialization_id t = sp_id s"
    using assms(3) by (auto simp: valid_path_def findGroup_iff findSpecialization_iff findTeam_iff
        split: option.splits)
  have "fst ` set next = sp_id ` set (filter (\<lambda>s. sp_group_id s = gid) (hi_specializations ?h))"
    using specialization_nodes_next [of g gid "hi_specializations ?h" 0 "[]"] by (simp add: nodes)
  then have "id_value (vm_team_id x) \<in> set (map dn_node_id (team_nodes (hi_teams ?h) next))"
    unfolding team_nodes_ids using st by (auto intro!: image_eqI [of _ _ t])
  then obtain n where "n \<in> set (team_nodes (hi_teams ?h) next)" "dn_node_id n = id_value (vm_team_id x)"
    by auto
  then show ?thesis using team_node [of n "hi_teams ?h" "next"] by auto
qed

lemma participants_distinct:
  assumes "snapshot_ok snapshot"
    and "directory_participants d (sort_key vm_player_id (filter P (ms_memberships snapshot))) [] v =
      (ps, refs, source)"
  shows "distinct (map (\<lambda>p. id_value (pa_player_id p)) ps)"
proof -
  let ?visible = "sort_key vm_player_id (filter P (ms_memberships snapshot))"
  have "map pa_player_id ps = map vm_player_id ?visible"
    using participants_players [of d ?visible "[]" v] by (simp only: assms(2) fst_conv)
  moreover have "distinct (map vm_player_id ?visible)"
    using assms(1) by (simp add: snapshot_ok_def strict_sorted_iff distinct_map inj_on_def)
  ultimately have "distinct (map id_value (map pa_player_id ps))"
    by (simp only: distinct_ids)
  then show ?thesis by (simp add: o_def)
qed

lemma unique_directory_accepted:
  assumes "service_ok d" and "directoryFor memberships actor d = Inr (Inr snap, d')"
    and "memberships actor = Some ctx" and "snapshot_ok (mc_snapshot ctx)"
    and "hierarchy_named (ms_hierarchy (mc_snapshot ctx))"
    and "node_ids_unique (ms_hierarchy (mc_snapshot ctx))"
    and "\<forall>m \<in> set (ms_memberships (mc_snapshot ctx)). valid (vm_player_id m)"
  shows "directory_accepted snap"
proof -
  let ?h = "ms_hierarchy (mc_snapshot ctx)"
  obtain m g sn "next" refs source where parts:
    "snapshot_find (mc_snapshot ctx) actor = Some m" "findGroup ?h (vm_group_id m) = Some g"
    "specialization_nodes g (vm_group_id m) (hi_specializations ?h) 0 [] = (sn, next)"
    "di_nodes snap = \<lparr>dn_node_id = id_value (gr_id g), dn_node_type = Node_group,
       dn_parent_node_id = None, dn_display_name = gr_display_name g, dn_sort_index = 0\<rparr> #
       sn @ team_nodes (hi_teams ?h) next"
    "directory_participants d
       (sort_key vm_player_id (filter (\<lambda>x. vm_group_id x = vm_group_id m)
          (ms_memberships (mc_snapshot ctx)))) [] (ms_version (mc_snapshot ctx)) =
       (di_participants snap, refs, source)"
    "di_public_roles snap = map (\<lambda>r. the (map_of (ds_public_roles d) r)) (keys refs)"
    by (rule directoryFor_parts [OF assms(2,3)])
  have g: "g \<in> set (hi_groups ?h)" "gr_id g = vm_group_id m"
    using parts(2) assms(4) by (auto simp: snapshot_ok_def findGroup_iff)
  let ?visible = "sort_key vm_player_id (filter (\<lambda>x. vm_group_id x = vm_group_id m)
    (ms_memberships (mc_snapshot ctx)))"
  note numbers = served_directory_numbers [OF assms(1,2,3) parts(1)]
  have nodes: "nodes_accepted (id_value (di_group_id snap)) (di_nodes snap)"
    using nodes_are_accepted [OF assms(5,6) g(1)] parts(3,4) g(2) numbers(2) by simp
  have collected: "participants_ok (di_participants snap) refs" "std_ok refs"
      "fst ` set refs \<subseteq> fst ` set (ds_public_roles d)"
    using participants_collected [OF assms(1) _ _ _ parts(5)] assms(7) by simp_all
  have role: "pr_role_id (the (map_of (ds_public_roles d) r)) = r \<and>
      pr_display_name (the (map_of (ds_public_roles d) r)) \<noteq> [] \<and> valid r"
    if "r \<in> set (keys refs)" for r
    by (rule named_roles_ok [OF assms(1)]) (use that collected(3) in auto)
  have role_ids: "map (\<lambda>r. id_value (pr_role_id r)) (di_public_roles snap) = map id_value (keys refs)"
    unfolding parts(6) using role by simp
  have member: "valid (pa_player_id p) \<and> (\<exists>n \<in> set (di_nodes snap). dn_node_type n = Node_team \<and>
      dn_node_id n = id_value (pa_primary_team_id p))" if listed: "p \<in> set (di_participants snap)" for p
  proof -
    obtain x where x: "x \<in> set (ms_memberships (mc_snapshot ctx))" "vm_group_id x = vm_group_id m"
        "pa_player_id p = vm_player_id x" "pa_primary_team_id p = vm_team_id x"
      using participants_roles [of p d ?visible "[]" "ms_version (mc_snapshot ctx)"] listed parts(5) by auto
    show ?thesis using member_team_listed [OF assms(4) x(1,2) parts(3)] x assms(7) parts(4) by auto
  qed
  have roles: "(\<lambda>r. id_value (pr_role_id r)) ` set (di_public_roles snap) = id_value ` fst ` set refs"
    using arg_cong [OF role_ids, of set] by (simp add: image_image)
  have names: "\<forall>r \<in> set (di_public_roles snap). valid (pr_role_id r) \<and> pr_display_name r \<noteq> []"
    unfolding parts(6) using role by auto
  have "valid (di_group_id snap)"
    using assms(5) g numbers(2) by (auto simp: hierarchy_named_def)
  then show ?thesis
    unfolding directory_accepted_def role_ids distinct_ids
    using numbers nodes collected(1) std_ok_distinct [OF collected(2)] member roles names
      participants_distinct [OF assms(4) parts(5)]
    by (simp add: participants_ok_def distinct_ids image_mono)
qed

text \<open>
  C38: a client can fetch every directory with unique node identifiers. Whatever the profiles and
  public roles of the service, when it computes a directory for the session's player from a valid
  snapshot whose players have identifiers and whose hierarchy has names and identifiers that differ
  across groups, specializations and teams, the logged-in client that asks for it over HTTP decodes the response and returns every
  field of it.
\<close>

theorem unique_directories_are_accepted:
  assumes "logged_in_at a now x c"
    and "next_correlation (cc_identifiers c) = (correlation, g)" and "valid correlation"
    and "hs_directory (cc_transport c) = Some d" and "service_ok d"
    and "directoryFor (provider a (cc_transport c)) (as_player_id x) d = Inr (Inr snap, d')"
    and "provider a (cc_transport c) (as_player_id x) = Some ctx" and "snapshot_ok (mc_snapshot ctx)"
    and "hierarchy_named (ms_hierarchy (mc_snapshot ctx))"
    and "node_ids_unique (ms_hierarchy (mc_snapshot ctx))"
    and "\<forall>m \<in> set (ms_memberships (mc_snapshot ctx)). valid (vm_player_id m)"
  shows "client_directory (wire a now next_correlation next_transmission) None c =
     (Inr \<lparr>df_snapshot = Some (directory_view snap)\<rparr>,
      c\<lparr>cc_identifiers := g, cc_transport := (cc_transport c)\<lparr>hs_directory := Some d'\<rparr>\<rparr>)"
proof (rule directory_fetched [where next_correlation = next_correlation and
      next_transmission = next_transmission, OF assms(1-4) assms(6)])
  fix response
  assume "responseHeader response ''etag'' = Some (client_etag (di_version snap))"
  note decoded = directory_decoded [OF this]
  have "directory_accepted snap" by (rule unique_directory_accepted [OF assms(5-11)])
  then have "decode_directory response (document_value (directory_document snap)) =
      Inr (directory_view snap)" by (simp add: decoded)
  moreover assume "client_directory (wire a now next_correlation next_transmission) None c =
    (throws_bind (decode_directory response (document_value (directory_document snap)))
       (\<lambda>view. Inr \<lparr>df_snapshot = Some view\<rparr>),
     c\<lparr>cc_identifiers := g, cc_transport := (cc_transport c)\<lparr>hs_directory := Some d'\<rparr>\<rparr>)"
  ultimately show ?thesis by simp
qed

section \<open>Concrete directories\<close>

lemma fresh_directory:
  assumes "memberships p = Some ctx" and "snapshot_find (mc_snapshot ctx) p = Some m"
    and "findGroup (ms_hierarchy (mc_snapshot ctx)) (vm_group_id m) = Some g" and "gr_active g"
    and "length (ms_memberships (mc_snapshot ctx)) \<le> maximum_directory_participants"
  obtains view d' where
    "directoryFor memberships p DirectoryApplicationService_ctor = Inr (Inr view, d')"
proof -
  let ?visible = "filter (\<lambda>x. vm_group_id x = vm_group_id m) (ms_memberships (mc_snapshot ctx))"
  obtain sn "next" where sn: "specialization_nodes g (vm_group_id m)
      (hi_specializations (ms_hierarchy (mc_snapshot ctx))) 0 [] = (sn, next)" by fastforce
  obtain ps refs source where ps: "directory_participants DirectoryApplicationService_ctor
      (sort_key vm_player_id ?visible) [] (ms_version (mc_snapshot ctx)) = (ps, refs, source)"
    using prod_cases3 by blast
  have small: "length ?visible \<le> maximum_directory_participants"
    using length_filter_le assms(5) by (rule le_trans)
  have fields: "ds_directory_versions DirectoryApplicationService_ctor = []"
    by (simp add: DirectoryApplicationService_ctor_def)
  show thesis
    using assms small that
    by (simp add: directoryFor_def currentContextFor_def makeDirectory_def sn ps fields
        next_directory_version_def not_less Let_def)
qed

definition directory_server :: "(memory_repository, nat, nat \<times> nat) HttpState" where
  "directory_server = talking\<lparr>hs_directory := Some DirectoryApplicationService_ctor\<rparr>"

lemma directory_server_provider:
  "provider sample_adapter directory_server (StrongId ''alice'') = Some admin_context"
  using talking_provider [of "StrongId ''alice''"]
  by (simp add: directory_server_def provider_def sample_memberships_def)

lemma directory_server_read:
  obtains view d' where "directoryFor (provider sample_adapter directory_server) (StrongId ''alice'')
    DirectoryApplicationService_ctor = Inr (Inr view, d')"
proof (rule fresh_directory [where memberships = "provider sample_adapter directory_server" and
      p = "StrongId ''alice''", OF directory_server_provider])
  show "snapshot_find (mc_snapshot admin_context) (StrongId ''alice'') = Some admin_member"
    by (simp add: admin_context_def admin_member_def sample_membership_defs snapshot_find_def
        lower_bound_def)
  show "findGroup (ms_hierarchy (mc_snapshot admin_context)) (vm_group_id admin_member) =
      Some \<lparr>gr_id = StrongId ''g'', gr_display_name = ''Group'', gr_active = True\<rparr>"
    by (simp add: admin_context_def admin_member_def sample_membership_defs sample_hierarchy_def
        findGroup_def)
qed (simp_all add: admin_context_def maximum_directory_participants_def)

lemma admin_context_ok:
  "snapshot_ok (mc_snapshot admin_context)"
  "hierarchy_named (ms_hierarchy (mc_snapshot admin_context))"
  "node_ids_unique (ms_hierarchy (mc_snapshot admin_context))"
  "\<forall>m \<in> set (ms_memberships (mc_snapshot admin_context)). valid (vm_player_id m)"
  using sample_snapshot_ok [of 3]
  by (simp_all add: admin_context_def admin_member_def snapshot_ok_def sample_membership_defs
      sample_hierarchy_def hierarchy_named_def node_ids_unique_def valid_path_def findTeam_def
      findSpecialization_def findGroup_def)

lemma directory_client:
  "cc_transport (sample_cpc directory_server) = directory_server"
  "as_player_id sample_session_s = StrongId ''alice''"
  "sample_correlation (cc_identifiers (sample_cpc directory_server)) = (StrongId ''k'', 1)"
  "hs_directory directory_server = Some DirectoryApplicationService_ctor"
  "logged_in_at sample_adapter 60 sample_session_s (sample_cpc directory_server)"
  using sample_logged_in(2)
  by (simp_all add: sample_cpc_def sample_session_s_def sample_correlation_def directory_server_def
      logged_in_at_def)

theorem unique_directories_are_accepted_witness:
  "\<exists>view d'. directoryFor (provider sample_adapter directory_server) (StrongId ''alice'')
       DirectoryApplicationService_ctor = Inr (Inr view, d') \<and>
     fst (client_directory (sample_ports 60) None (sample_cpc directory_server)) =
       Inr \<lparr>df_snapshot = Some (directory_view view)\<rparr>"
proof -
  let ?c = "sample_cpc directory_server"
  obtain view d' where read: "directoryFor (provider sample_adapter directory_server)
      (StrongId ''alice'') DirectoryApplicationService_ctor = Inr (Inr view, d')"
    by (rule directory_server_read)
  have "client_directory (sample_ports 60) None ?c =
     (Inr \<lparr>df_snapshot = Some (directory_view view)\<rparr>,
      ?c\<lparr>cc_identifiers := 1, cc_transport := (cc_transport ?c)\<lparr>hs_directory := Some d'\<rparr>\<rparr>)"
    by (rule unique_directories_are_accepted [where next_correlation = sample_correlation and
        correlation = "StrongId ''k''" and d = DirectoryApplicationService_ctor and
        ctx = admin_context, OF directory_client(5)])
      (use read directory_server_provider in \<open>simp_all add: directory_client service_ok_ctor
          admin_context_ok del: Ball_def\<close>)
  then show ?thesis using read by auto
qed

theorem remote_directory_witness:
  "\<exists>view d' message. directoryFor (provider sample_adapter directory_server) (StrongId ''alice'')
       DirectoryApplicationService_ctor = Inr (Inr view, d') \<and>
     fst (client_directory (sample_ports 60) None (sample_cpc directory_server)) =
       (if directory_accepted view then Inr \<lparr>df_snapshot = Some (directory_view view)\<rparr>
        else Inl (invalidResponse message))"
proof -
  let ?c = "sample_cpc directory_server"
  obtain view d' where read: "directoryFor (provider sample_adapter directory_server)
      (StrongId ''alice'') DirectoryApplicationService_ctor = Inr (Inr view, d')"
    by (rule directory_server_read)
  have "\<exists>message. client_directory (sample_ports 60) None ?c =
     (if directory_accepted view then Inr \<lparr>df_snapshot = Some (directory_view view)\<rparr>
      else Inl (invalidResponse message),
      ?c\<lparr>cc_identifiers := 1, cc_transport := (cc_transport ?c)\<lparr>hs_directory := Some d'\<rparr>\<rparr>)"
    by (rule remote_directory_is_directory [where next_correlation = sample_correlation and
        correlation = "StrongId ''k''" and d = DirectoryApplicationService_ctor,
        OF directory_client(5)])
      (use read in \<open>simp_all add: directory_client\<close>)
  then show ?thesis using read by auto
qed

definition shared_id_hierarchy :: Hierarchy where
  "shared_id_hierarchy =
     \<lparr>hi_id = StrongId ''h'', hi_scopes = hi_scopes sample_hierarchy,
      hi_groups = [\<lparr>gr_id = StrongId ''g'', gr_display_name = ''Group'', gr_active = True\<rparr>],
      hi_specializations =
        [\<lparr>sp_id = StrongId ''g'', sp_group_id = StrongId ''g'', sp_display_name = ''One''\<rparr>],
      hi_teams =
        [\<lparr>tm_id = StrongId ''t1'', tm_specialization_id = StrongId ''g'', tm_display_name = ''A''\<rparr>]\<rparr>"

definition shared_id_snapshot :: MembershipSnapshot where
  "shared_id_snapshot =
     \<lparr>ms_version = 1, ms_hierarchy = shared_id_hierarchy,
      ms_memberships = [sample_member ''alice'' ''g'' ''t1'']\<rparr>"

lemma shared_id_constructed:
  "Hierarchy_ctor (StrongId ''h'') (hi_scopes sample_hierarchy) (hi_groups shared_id_hierarchy)
     (hi_specializations shared_id_hierarchy) (hi_teams shared_id_hierarchy) = Inr shared_id_hierarchy"
  "MembershipSnapshot_ctor 1 shared_id_hierarchy [sample_member ''alice'' ''g'' ''t1''] =
     Inr shared_id_snapshot"
  by code_simp+

lemma shared_id_refused:
  assumes "directoryFor memberships (StrongId ''alice'') d = Inr (Inr view, d')"
    and "memberships (StrongId ''alice'') =
      Some \<lparr>mc_snapshot = shared_id_snapshot, mc_role_policy = policy\<rparr>"
  shows "\<not> directory_accepted view"
proof (rule directoryFor_parts [OF assms])
  fix m g sn "next" refs source
  assume m: "snapshot_find (mc_snapshot \<lparr>mc_snapshot = shared_id_snapshot, mc_role_policy = policy\<rparr>)
      (StrongId ''alice'') = Some m"
    and g: "findGroup (ms_hierarchy (mc_snapshot \<lparr>mc_snapshot = shared_id_snapshot,
      mc_role_policy = policy\<rparr>)) (vm_group_id m) = Some g"
    and sn: "specialization_nodes g (vm_group_id m) (hi_specializations (ms_hierarchy (mc_snapshot
      \<lparr>mc_snapshot = shared_id_snapshot, mc_role_policy = policy\<rparr>))) 0 [] = (sn, next)"
    and nodes: "di_nodes view = \<lparr>dn_node_id = id_value (gr_id g), dn_node_type = Node_group,
      dn_parent_node_id = None, dn_display_name = gr_display_name g, dn_sort_index = 0\<rparr> #
      sn @ team_nodes (hi_teams (ms_hierarchy (mc_snapshot
        \<lparr>mc_snapshot = shared_id_snapshot, mc_role_policy = policy\<rparr>))) next"
  have "m = sample_member ''alice'' ''g'' ''t1''"
    using m by (simp add: shared_id_snapshot_def snapshot_find_def lower_bound_def
        sample_membership_defs)
  moreover have "gr_id g = StrongId ''g''"
    using g calculation
    by (auto simp: shared_id_snapshot_def shared_id_hierarchy_def findGroup_def sample_membership_defs)
  ultimately have "\<not> distinct (map dn_node_id (di_nodes view))"
    using nodes sn by (auto simp: shared_id_snapshot_def shared_id_hierarchy_def sample_membership_defs)
  then show ?thesis by (simp add: directory_accepted_def nodes_accepted_def)
qed

text \<open>
  A valid hierarchy can give a directory that no client accepts. A specialization may carry
  the identifier of its group: the constructors accept the hierarchy and the snapshot and the
  service computes a directory, but the client decodes it from no response, whatever its headers.
\<close>

theorem shared_identifiers_are_refused:
  "\<exists>scopes groups specializations teams h memberships snapshot view d'.
     Hierarchy_ctor (StrongId ''h'') scopes groups specializations teams = Inr h \<and>
     MembershipSnapshot_ctor 1 h memberships = Inr snapshot \<and>
     directoryFor (\<lambda>_. Some \<lparr>mc_snapshot = snapshot, mc_role_policy = sample_policy\<rparr>)
       (StrongId ''alice'') DirectoryApplicationService_ctor = Inr (Inr view, d') \<and>
     (\<nexists>response result. decode_directory response (document_value (directory_document view)) =
        Inr result)"
proof -
  let ?read = "\<lambda>_ :: PlayerId. Some \<lparr>mc_snapshot = shared_id_snapshot, mc_role_policy = sample_policy\<rparr>"
  obtain view d' where read: "directoryFor ?read (StrongId ''alice'')
      DirectoryApplicationService_ctor = Inr (Inr view, d')"
  proof (rule fresh_directory [where memberships = ?read and p = "StrongId ''alice''" and
        ctx = "\<lparr>mc_snapshot = shared_id_snapshot, mc_role_policy = sample_policy\<rparr>" and
        m = "sample_member ''alice'' ''g'' ''t1''" and
        g = "\<lparr>gr_id = StrongId ''g'', gr_display_name = ''Group'', gr_active = True\<rparr>"])
  qed (simp_all add: shared_id_snapshot_def shared_id_hierarchy_def sample_membership_defs
      snapshot_find_def lower_bound_def findGroup_def maximum_directory_participants_def)
  have "\<nexists>response result. decode_directory response (document_value (directory_document view)) =
      Inr result"
    using shared_id_refused [OF read] decoded_is_accepted by fastforce
  then show ?thesis using read shared_id_constructed by blast
qed

end
