(* ===== verification/Authorized_Voice_Client.thy ===== *)
theory Authorized_Voice_Client
  imports Voice_Client Control_Plane_Client
begin

text \<open>
  The coordinated voice client (\<open>AuthorizedVoiceClient\<close> in
  \<open>libs/client/include/hvc/client/authorized_voice_client.hpp\<close> and
  \<open>libs/client/src/authorized_voice_client.cpp\<close>): it asks the control plane before it publishes the
  microphone and tells it when the microphone has stopped. A critical section of a method is a
  function on the record of members; a method is the composition of its sections with the calls of
  the two collaborators, which are the ports. \<open>Authorized_Publication\<close> lets the methods of several
  threads interleave.
\<close>

section \<open>Data\<close>

datatype VoiceSessionErrorSource = Source_client_state | Source_control_plane | Source_voice_transport

record VoiceSessionError =
  ve_source :: VoiceSessionErrorSource
  ve_code :: string
  ve_message :: string
  ve_status_code :: int

record VoiceSessionResult =
  vs_successful :: bool
  vs_transmission :: "StartedTransmission option"
  vs_error :: "VoiceSessionError option"

definition VoiceSessionResult_default :: VoiceSessionResult where
  "VoiceSessionResult_default = \<lparr>vs_successful = False, vs_transmission = None, vs_error = None\<rparr>"

definition session_success :: "StartedTransmission option \<Rightarrow> VoiceSessionResult" where
  "session_success t = \<lparr>vs_successful = True, vs_transmission = t, vs_error = None\<rparr>"

definition session_failure :: "VoiceSessionError \<Rightarrow> VoiceSessionResult" where
  "session_failure e = \<lparr>vs_successful = False, vs_transmission = None, vs_error = Some e\<rparr>"

definition session_refusal ::
  "VoiceSessionErrorSource \<Rightarrow> string \<Rightarrow> string \<Rightarrow> VoiceSessionResult" where
  "session_refusal source code message =
     session_failure \<lparr>ve_source = source, ve_code = code, ve_message = message, ve_status_code = 0\<rparr>"

definition authorized_scopeName :: "VoiceScope \<Rightarrow> string" where
  "authorized_scopeName sc =
     (case sc of Team_scope \<Rightarrow> ''team'' | Specialization_scope \<Rightarrow> ''specialization''
      | Group_scope \<Rightarrow> ''group'')"

definition cancelledPublication :: "VoiceScope \<Rightarrow> u64 \<Rightarrow> string \<Rightarrow> VoiceSessionResult" where
  "cancelledPublication sc generation correlation_id =
     session_refusal Source_client_state ''publication_cancelled''
       (''scope='' @ authorized_scopeName sc @ ''; transition=starting->stopping->idle'' @
        ''; generation='' @ to_string_u64 generation @
        ''; correlation_id='' @ correlation_id)"

definition controlPlaneFailure :: "ControlPlaneError \<Rightarrow> VoiceSessionResult" where
  "controlPlaneFailure e =
     session_failure
       \<lparr>ve_source = Source_control_plane, ve_code = ce_code e, ve_message = ce_message e,
        ve_status_code = ce_status_code e\<rparr>"

fun transport_error_number :: "VoiceTransportError \<Rightarrow> nat" where
  "transport_error_number Vte_none = 0"
| "transport_error_number Vte_invalid_argument = 1"
| "transport_error_number Vte_invalid_state = 2"
| "transport_error_number Vte_connection_failed = 3"
| "transport_error_number Vte_audio_device_unavailable = 4"
| "transport_error_number Vte_audio_device_switch_failed = 5"
| "transport_error_number Vte_publication_failed = 6"
| "transport_error_number Vte_internal_error = 7"

definition transportFailure :: "VoiceTransportResult \<Rightarrow> VoiceSessionResult" where
  "transportFailure r =
     session_refusal Source_voice_transport
       (''voice_transport_'' @ decimal (transport_error_number (vr_error r))) (vr_message r)"

record AuthorizedVoiceClient =
  av_membership :: "MembershipView option"
  av_active_transmission :: "StartedTransmission option"
  av_push_to_talk_enabled :: bool
  av_publication_state :: MicrophonePublicationState
  av_publication_generation :: u64
  av_voice_start_in_progress :: bool
  av_last_release_result :: VoiceSessionResult

definition AuthorizedVoiceClient_ctor :: AuthorizedVoiceClient where
  "AuthorizedVoiceClient_ctor =
     \<lparr>av_membership = None, av_active_transmission = None, av_push_to_talk_enabled = False,
      av_publication_state = Pub_idle, av_publication_generation = 0,
      av_voice_start_in_progress = False, av_last_release_result = VoiceSessionResult_default\<rparr>"

text \<open>
  The operations of the control-plane client and of the voice client that are called, on a state
  \<open>'w\<close> that holds both and all they talk to. Starting a transmission may
  throw.
\<close>

record 'w AuthorizedPorts =
  ap_createSession :: "string \<Rightarrow> 'w \<Rightarrow> ControlPlaneSession ControlPlaneResult \<times> 'w"
  ap_membership :: "'w \<Rightarrow> MembershipView ControlPlaneResult \<times> 'w"
  ap_voiceGrants :: "'w \<Rightarrow> VoiceGrantSet ControlPlaneResult \<times> 'w"
  ap_startTransmission ::
    "VoiceScope \<Rightarrow> u64 \<Rightarrow> 'w \<Rightarrow> StartedTransmission ControlPlaneResult throws \<times> 'w"
  ap_endTransmission :: "TransmissionId \<Rightarrow> 'w \<Rightarrow> EndedTransmissionView ControlPlaneResult \<times> 'w"
  ap_clearSession :: "'w \<Rightarrow> 'w"
  ap_voice_state :: "'w \<Rightarrow> VoiceTransportState"
  ap_voice_connect :: "VoiceRoomGrant list \<Rightarrow> 'w \<Rightarrow> VoiceTransportResult \<times> 'w"
  ap_voice_disconnect :: "'w \<Rightarrow> VoiceTransportResult \<times> 'w"
  ap_voice_press :: "VoiceScope \<Rightarrow> 'w \<Rightarrow> VoiceTransportResult \<times> 'w"
  ap_voice_release :: "'w \<Rightarrow> VoiceTransportResult \<times> 'w"

section \<open>Connecting\<close>

text \<open>\<open>connect\<close> keeps its lock throughout, so it is one step.\<close>

definition authorized_connect ::
  "'w AuthorizedPorts \<Rightarrow> string \<Rightarrow> AuthorizedVoiceClient \<times> 'w \<Rightarrow>
   VoiceSessionResult \<times> AuthorizedVoiceClient \<times> 'w" where
  "authorized_connect p external_credential = (\<lambda>(c, w).
     if av_membership c \<noteq> None \<or> ap_voice_state p w \<noteq> Transport_disconnected
     then (session_refusal Source_client_state ''already_connected''
            ''the authorized voice client is already active'', c, w)
     else
       (let (session, w1) = ap_createSession p external_credential w in
        case session of
          Inl e \<Rightarrow> (controlPlaneFailure e, c, w1)
        | Inr _ \<Rightarrow>
            (let (current_membership, w2) = ap_membership p w1 in
             case current_membership of
               Inl e \<Rightarrow> (controlPlaneFailure e, c, w2)
             | Inr m \<Rightarrow>
                 (let (grants, w3) = ap_voiceGrants p w2 in
                  case grants of
                    Inl e \<Rightarrow> (controlPlaneFailure e, c, w3)
                  | Inr g \<Rightarrow>
                      if gs_membership_version g \<noteq> mv_version m
                      then (session_refusal Source_control_plane ''voice_membership_stale''
                              ''voice grants do not match the current membership version'', c, w3)
                      else
                        (let (connected, w4) = ap_voice_connect p (gs_room_grants g) w3 in
                         if \<not> vr_ok connected then (transportFailure connected, c, w4)
                         else (session_success None,
                               c\<lparr>av_membership := Some m, av_push_to_talk_enabled := True\<rparr>, w4))))))"

section \<open>Push-to-talk: the sections of a press\<close>

definition start_admitted ::
  "VoiceTransportState \<Rightarrow> AuthorizedVoiceClient \<Rightarrow>
   (VoiceSessionResult + u64 \<times> u64) \<times> AuthorizedVoiceClient" where
  "start_admitted voice_state c =
     (case av_membership c of
        Some m \<Rightarrow>
          if \<not> av_push_to_talk_enabled c \<or> voice_state \<noteq> Transport_connected
          then (Inl (session_refusal Source_client_state ''not_connected''
                  ''membership and voice transport must be ready before push-to-talk''), c)
          else if av_publication_state c \<noteq> Pub_idle \<or> av_active_transmission c \<noteq> None
          then (Inl (session_refusal Source_client_state ''transmission_already_active''
                  ''only one authorized transmission may be active''), c)
          else
            (let generation = av_publication_generation c + 1
             in (Inr (generation, mv_version m),
                 c\<lparr>av_publication_generation := generation, av_publication_state := Pub_starting,
                   av_last_release_result := session_success None\<rparr>))
      | None \<Rightarrow>
          (Inl (session_refusal Source_client_state ''not_connected''
                  ''membership and voice transport must be ready before push-to-talk''), c))"

text \<open>The control plane refused the transmission.\<close>

definition start_refused :: "u64 \<Rightarrow> AuthorizedVoiceClient \<Rightarrow> AuthorizedVoiceClient" where
  "start_refused generation c =
     (if generation = av_publication_generation c then c\<lparr>av_publication_state := Pub_idle\<rparr> else c)"

text \<open>It authorized it; whether the press has been cancelled meanwhile.\<close>

definition start_authorized ::
  "u64 \<Rightarrow> StartedTransmission \<Rightarrow> AuthorizedVoiceClient \<Rightarrow> bool \<times> AuthorizedVoiceClient" where
  "start_authorized generation started c =
     (if generation \<noteq> av_publication_generation c then (True, c)
      else
        (let cancelled = (av_publication_state c = Pub_stopping)
         in (cancelled,
             c\<lparr>av_active_transmission := Some started,
               av_voice_start_in_progress := \<not> cancelled\<rparr>)))"

text \<open>The press has ended the transmission at the control plane, or has tried to.\<close>

definition start_undone ::
  "EndedTransmissionView ControlPlaneResult \<Rightarrow> u64 \<Rightarrow> AuthorizedVoiceClient \<Rightarrow>
   AuthorizedVoiceClient" where
  "start_undone ended generation c =
     (if generation = av_publication_generation c
      then
        (case ended of
           Inr _ \<Rightarrow> c\<lparr>av_active_transmission := None,
                      av_last_release_result := session_success None,
                      av_publication_state := Pub_idle\<rparr>
         | Inl e \<Rightarrow> c\<lparr>av_last_release_result := controlPlaneFailure e,
                      av_publication_state := Pub_idle\<rparr>)
      else c)"

text \<open>The voice client has returned from its press; whether a release came meanwhile.\<close>

definition voice_returned :: "u64 \<Rightarrow> AuthorizedVoiceClient \<Rightarrow> bool \<times> AuthorizedVoiceClient" where
  "voice_returned generation c =
     (generation = av_publication_generation c \<and> av_publication_state c = Pub_stopping,
      c\<lparr>av_voice_start_in_progress := False\<rparr>)"

definition start_confirmed ::
  "u64 \<Rightarrow> AuthorizedVoiceClient \<Rightarrow> VoiceSessionResult option \<times> AuthorizedVoiceClient" where
  "start_confirmed generation c =
     (if generation = av_publication_generation c \<and> av_publication_state c = Pub_starting
      then (Some (session_success (av_active_transmission c)),
            c\<lparr>av_publication_state := Pub_active\<rparr>)
      else (None, c))"

text \<open>What a press answers when the voice client refused to publish.\<close>

definition rollback_result ::
  "VoiceTransportResult \<Rightarrow> EndedTransmissionView ControlPlaneResult \<Rightarrow> bool \<Rightarrow> VoiceScope \<Rightarrow> u64 \<Rightarrow>
   string \<Rightarrow> VoiceSessionResult" where
  "rollback_result microphone rollback cancelled_while_starting sc generation correlation_id =
     (let message = vr_message microphone @ ''; scope='' @ authorized_scopeName sc @
            ''; transition=starting->idle'' @ ''; generation='' @ to_string_u64 generation @
            ''; correlation_id='' @ correlation_id @
            (case rollback of
               Inl e \<Rightarrow> ''; server rollback also failed: '' @ ce_code e
             | Inr _ \<Rightarrow> [])
      in if cancelled_while_starting \<and> \<not> isl rollback
         then cancelledPublication sc generation correlation_id
         else transportFailure (microphone\<lparr>vr_message := message\<rparr>))"

section \<open>Push-to-talk: the sections of a release\<close>

text \<open>
  The first section of a release: refused; wait until the publication has settled; stop the voice
  client's start and then wait; or stop the microphone and end the transmission.
\<close>

datatype authorized_release =
    Stop_refused VoiceSessionResult
  | Stop_waits u64
  | Stop_interrupts_start u64
  | Stop_ends u64 StartedTransmission

definition stop_begin :: "AuthorizedVoiceClient \<Rightarrow> authorized_release \<times> AuthorizedVoiceClient" where
  "stop_begin c =
     (let generation = av_publication_generation c;
          stopping = c\<lparr>av_publication_state := Pub_stopping\<rparr>
      in case av_publication_state c of
           Pub_idle \<Rightarrow>
             (Stop_refused (session_refusal Source_client_state ''no_active_transmission''
                ''no authorized transmission is active''), c)
         | Pub_stopping \<Rightarrow> (Stop_waits generation, c)
         | Pub_starting \<Rightarrow>
             (if av_voice_start_in_progress c then (Stop_interrupts_start generation, stopping)
              else (Stop_waits generation, stopping))
         | Pub_active \<Rightarrow>
             (case av_active_transmission c of
                None \<Rightarrow> (Stop_waits generation, stopping)
              | Some t \<Rightarrow> (Stop_ends generation t, stopping)))"

text \<open>The predicate of the condition variable.\<close>

definition stop_may_wake :: "u64 \<Rightarrow> AuthorizedVoiceClient \<Rightarrow> bool" where
  "stop_may_wake generation c \<longleftrightarrow>
     av_publication_generation c \<noteq> generation \<or> av_publication_state c = Pub_idle"

text \<open>What a release that interrupted the start answers once it is woken.\<close>

definition interrupted_start_result ::
  "VoiceTransportResult \<Rightarrow> AuthorizedVoiceClient \<Rightarrow> VoiceSessionResult" where
  "interrupted_start_result stopped c =
     (if \<not> vr_ok stopped then transportFailure stopped else av_last_release_result c)"

definition stop_result ::
  "VoiceTransportResult \<Rightarrow> EndedTransmissionView ControlPlaneResult \<Rightarrow> VoiceSessionResult" where
  "stop_result stopped ended =
     (case ended of
        Inl e \<Rightarrow> controlPlaneFailure e
      | Inr _ \<Rightarrow> if \<not> vr_ok stopped then transportFailure stopped else session_success None)"

definition stop_settled ::
  "VoiceTransportResult \<Rightarrow> EndedTransmissionView ControlPlaneResult \<Rightarrow> u64 \<Rightarrow> AuthorizedVoiceClient \<Rightarrow>
   AuthorizedVoiceClient" where
  "stop_settled stopped ended generation c =
     (if generation = av_publication_generation c
      then
        (let c' = (if isl ended then c else c\<lparr>av_active_transmission := None\<rparr>)
         in c'\<lparr>av_publication_state := Pub_idle,
               av_last_release_result := stop_result stopped ended\<rparr>)
      else c)"

section \<open>Ending an interrupted transmission\<close>

text \<open>\<open>endInterruptedTransmission\<close> keeps its lock throughout.\<close>

definition endInterruptedTransmission ::
  "'w AuthorizedPorts \<Rightarrow> AuthorizedVoiceClient \<times> 'w \<Rightarrow>
   VoiceSessionResult \<times> AuthorizedVoiceClient \<times> 'w" where
  "endInterruptedTransmission p = (\<lambda>(c, w).
     case av_active_transmission c of
       None \<Rightarrow> (session_success None, c, w)
     | Some t \<Rightarrow>
         (let (ended, w1) = ap_endTransmission p (sd_transmission_id t) w in
          case ended of
            Inl e \<Rightarrow> (controlPlaneFailure e, c, w1)
          | Inr _ \<Rightarrow> (session_success None, c\<lparr>av_active_transmission := None\<rparr>, w1)))"

section \<open>The sections of a disconnect and of a refresh\<close>

text \<open>Push-to-talk is refused from here on; whether a publication has to be released first.\<close>

definition quiesce :: "AuthorizedVoiceClient \<Rightarrow> bool \<times> AuthorizedVoiceClient" where
  "quiesce c =
     (av_publication_state c \<noteq> Pub_idle, c\<lparr>av_push_to_talk_enabled := False\<rparr>)"

definition forget_membership :: "AuthorizedVoiceClient \<Rightarrow> AuthorizedVoiceClient" where
  "forget_membership c = c\<lparr>av_membership := None\<rparr>"

definition install_membership :: "MembershipView \<Rightarrow> AuthorizedVoiceClient \<Rightarrow> AuthorizedVoiceClient" where
  "install_membership m c = c\<lparr>av_membership := Some m, av_push_to_talk_enabled := True\<rparr>"

definition known_membership_version ::
  "VoiceTransportState \<Rightarrow> AuthorizedVoiceClient \<Rightarrow> VoiceSessionResult + u64" where
  "known_membership_version voice_state c =
     (case av_membership c of
        Some m \<Rightarrow>
          if voice_state = Transport_disconnected
          then Inl (session_refusal Source_client_state ''not_connected''
                      ''membership refresh requires a connected voice session'')
          else Inr (mv_version m)
      | None \<Rightarrow>
          Inl (session_refusal Source_client_state ''not_connected''
                 ''membership refresh requires a connected voice session''))"

text \<open>
  The queries of a refresh, made without the lock: its answer, or the newer membership and its
  grants.
\<close>

definition fetch_authorization ::
  "'w AuthorizedPorts \<Rightarrow> u64 \<Rightarrow> 'w \<Rightarrow>
   (VoiceSessionResult + MembershipView \<times> VoiceGrantSet) \<times> 'w" where
  "fetch_authorization p known_version w =
     (let (current_membership, w1) = ap_membership p w in
      case current_membership of
        Inl e \<Rightarrow> (Inl (controlPlaneFailure e), w1)
      | Inr m \<Rightarrow>
          if mv_version m = known_version then (Inl (session_success None), w1)
          else if mv_version m < known_version
          then (Inl (session_refusal Source_control_plane ''voice_membership_stale''
                       ''the server returned an obsolete membership version''), w1)
          else
            (let (grants, w2) = ap_voiceGrants p w1 in
             case grants of
               Inl e \<Rightarrow> (Inl (controlPlaneFailure e), w2)
             | Inr g \<Rightarrow>
                 if gs_membership_version g \<noteq> mv_version m
                 then (Inl (session_refusal Source_control_plane ''voice_membership_stale''
                         ''voice grants do not match the refreshed membership version''), w2)
                 else (Inr (m, g), w2)))"

section \<open>Whole calls\<close>

text \<open>
  A call that no other call interleaves with. \<open>None\<close> is a release that waits for a call that is not
  there; the sections of a call without rivals never leave the publication starting or stopping, so
  no caller meets it. An exception of \<open>startTransmission\<close> leaves through the press.
\<close>

definition authorized_release ::
  "'w AuthorizedPorts \<Rightarrow> AuthorizedVoiceClient \<times> 'w \<Rightarrow>
   VoiceSessionResult option \<times> AuthorizedVoiceClient \<times> 'w" where
  "authorized_release p = (\<lambda>(c, w).
     let (action, c1) = stop_begin c in
     case action of
       Stop_refused r \<Rightarrow> (Some r, c1, w)
     | Stop_waits g \<Rightarrow>
         (if stop_may_wake g c1 then Some (av_last_release_result c1) else None, c1, w)
     | Stop_interrupts_start g \<Rightarrow>
         (let (stopped, w1) = ap_voice_release p w
          in (if stop_may_wake g c1 then Some (interrupted_start_result stopped c1) else None, c1, w1))
     | Stop_ends g t \<Rightarrow>
         (let (stopped, w1) = ap_voice_release p w;
              (ended, w2) = ap_endTransmission p (sd_transmission_id t) w1
          in (Some (stop_result stopped ended), stop_settled stopped ended g c1, w2)))"

definition authorized_press ::
  "'w AuthorizedPorts \<Rightarrow> VoiceScope \<Rightarrow> AuthorizedVoiceClient \<times> 'w \<Rightarrow>
   VoiceSessionResult throws \<times> AuthorizedVoiceClient \<times> 'w" where
  "authorized_press p sc = (\<lambda>(c, w).
     let (admission, c1) = start_admitted (ap_voice_state p w) c in
     case admission of
       Inl r \<Rightarrow> (Inr r, c1, w)
     | Inr (generation, version) \<Rightarrow>
         (let (started, w1) = ap_startTransmission p sc version w in
          case started of
            Inl e \<Rightarrow> (Inl e, c1, w1)
          | Inr (Inl e) \<Rightarrow> (Inr (controlPlaneFailure e), start_refused generation c1, w1)
          | Inr (Inr t) \<Rightarrow>
              (let correlation_id = id_value (sd_client_transmission_id t);
                   (cancelled_before_voice, c2) = start_authorized generation t c1
               in if cancelled_before_voice then
                    (let (ended, w2) = ap_endTransmission p (sd_transmission_id t) w1
                     in (Inr (cancelledPublication sc generation correlation_id),
                         start_undone ended generation c2, w2))
                  else
                    (let (microphone, w2) = ap_voice_press p sc w1;
                         (cancelled_while_starting, c3) = voice_returned generation c2
                     in if \<not> vr_ok microphone then
                          (let (rollback, w3) = ap_endTransmission p (sd_transmission_id t) w2
                           in (Inr (rollback_result microphone rollback cancelled_while_starting sc
                                      generation correlation_id),
                               start_undone rollback generation c3, w3))
                        else
                          (let (confirmed, c4) = start_confirmed generation c3 in
                           case confirmed of
                             Some r \<Rightarrow> (Inr r, c4, w2)
                           | None \<Rightarrow>
                               (let (_, w3) = ap_voice_release p w2;
                                    (rollback, w4) = ap_endTransmission p (sd_transmission_id t) w3
                                in (Inr (cancelledPublication sc generation correlation_id),
                                    start_undone rollback generation c4, w4)))))))"

text \<open>
  What a disconnect and a refresh have in common: disable push-to-talk, release, end what is left,
  leave the rooms. A failure of a phase is the answer of the call.
\<close>

definition leave_rooms ::
  "'w AuthorizedPorts \<Rightarrow> AuthorizedVoiceClient \<times> 'w \<Rightarrow>
   VoiceSessionResult option option \<times> AuthorizedVoiceClient \<times> 'w" where
  "leave_rooms p = (\<lambda>(c, w).
     let (publication_active, c1) = quiesce c;
         (released, c2, w2) =
           (if publication_active then authorized_release p (c1, w)
            else (Some (session_success None), c1, w))
     in case released of
          None \<Rightarrow> (None, c2, w2)
        | Some r \<Rightarrow>
            if \<not> vs_successful r then (Some (Some r), c2, w2)
            else
              (let (interrupted, c3, w3) = endInterruptedTransmission p (c2, w2) in
               if \<not> vs_successful interrupted then (Some (Some interrupted), c3, w3)
               else
                 (let (disconnected, w4) = ap_voice_disconnect p w3
                  in (Some (if vr_ok disconnected then None
                            else Some (transportFailure disconnected)), c3, w4))))"

definition authorized_disconnect ::
  "'w AuthorizedPorts \<Rightarrow> AuthorizedVoiceClient \<times> 'w \<Rightarrow>
   VoiceSessionResult option \<times> AuthorizedVoiceClient \<times> 'w" where
  "authorized_disconnect p s =
     (let (left, c, w) = leave_rooms p s in
      case left of
        None \<Rightarrow> (None, c, w)
      | Some (Some r) \<Rightarrow> (Some r, c, w)
      | Some None \<Rightarrow> (Some (session_success None), forget_membership c, ap_clearSession p w))"

definition refreshAuthorization ::
  "'w AuthorizedPorts \<Rightarrow> AuthorizedVoiceClient \<times> 'w \<Rightarrow>
   VoiceSessionResult option \<times> AuthorizedVoiceClient \<times> 'w" where
  "refreshAuthorization p = (\<lambda>(c, w).
     case known_membership_version (ap_voice_state p w) c of
       Inl r \<Rightarrow> (Some r, c, w)
     | Inr known_version \<Rightarrow>
         (let (fetched, w1) = fetch_authorization p known_version w in
          case fetched of
            Inl r \<Rightarrow> (Some r, c, w1)
          | Inr (m, g) \<Rightarrow>
              (let (left, c2, w2) = leave_rooms p (c, w1) in
               case left of
                 None \<Rightarrow> (None, c2, w2)
               | Some (Some r) \<Rightarrow> (Some r, c2, w2)
               | Some None \<Rightarrow>
                   (let (connected, w3) = ap_voice_connect p (gs_room_grants g) w2
                    in if \<not> vr_ok connected
                       then (Some (transportFailure connected), forget_membership c2, w3)
                       else (Some (session_success None), install_membership m c2, w3)))))"

end
