(* ===== verification/Authorized_Publication.thy ===== *)
theory Authorized_Publication
  imports Authorized_Voice_Client
begin

text \<open>
  The coordinated voice client under concurrency. Presses and releases come from the input thread
  and other callers at any time; \<open>connect\<close>, \<open>disconnect\<close> and \<open>refreshAuthorization\<close> are serialised by
  their caller (the services mutex of \<open>apps/windows-client/src/client_session.cpp\<close>), so at most one
  of them is under way. A call is a thread at one of the points where it holds no lock, and a step
  is one critical section of one call together with the answers of the collaborators that precede
  it. The state of the collaborators is arbitrary at every step: the server, the network and the
  voice client change it on their own. A call that is refused by its first section changes nothing
  and is no step. Identifiers of the client contain no control character, so starting a
  transmission does not throw here. The notifications of the condition variable are left out: a waiting
  release goes on at any time after its predicate has become true.
\<close>

section \<open>Calls under way\<close>

text \<open>Who waits for a release.\<close>

datatype release_purpose = By_user | By_disconnect | By_refresh MembershipView VoiceGrantSet

text \<open>
  A press: \<open>Authorizing\<close> the control plane is asked to start, \<open>Publishing\<close> the voice client presses,
  \<open>Confirming\<close> it has pressed, \<open>Undoing\<close> the press takes its transmission back. A release:
  \<open>Interrupting_start\<close> the voice client's release runs against its press, \<open>Awaiting\<close> the condition
  variable, with the answer of the voice client if there is one, \<open>Ending\<close> microphone and
  transmission are stopped. A disconnect or refresh: \<open>Fetching\<close> queries of a refresh, \<open>Releasing\<close> it
  is about to release, \<open>Finishing\<close> to end an interrupted transmission, \<open>Leaving\<close> the rooms are left,
  \<open>Joining\<close> the new rooms are joined.
\<close>

datatype authorized_thread =
    Authorizing VoiceScope u64 u64
  | Publishing VoiceScope u64 StartedTransmission
  | Confirming VoiceScope u64 StartedTransmission
  | Undoing u64 StartedTransmission
  | Interrupting_start u64 release_purpose
  | Awaiting u64 "VoiceTransportResult option" release_purpose
  | Ending u64 StartedTransmission release_purpose
  | Fetching u64
  | Releasing_for release_purpose
  | Finishing release_purpose
  | Leaving release_purpose
  | Joining MembershipView VoiceGrantSet

record AuthorizedSystem =
  sy_client :: AuthorizedVoiceClient
  sy_threads :: "authorized_thread list"
  sy_presses :: nat

text \<open>The calls that own the publication.\<close>

fun publishes :: "authorized_thread \<Rightarrow> bool" where
  "publishes (Authorizing sc g v) = True"
| "publishes (Publishing sc g t) = True"
| "publishes (Confirming sc g t) = True"
| "publishes (Undoing g t) = True"
| "publishes (Ending g t k) = True"
| "publishes _ = False"

text \<open>The threads of a disconnect or a refresh.\<close>

fun controls :: "authorized_thread \<Rightarrow> bool" where
  "controls (Interrupting_start g k) \<longleftrightarrow> k \<noteq> By_user"
| "controls (Awaiting g r k) \<longleftrightarrow> k \<noteq> By_user"
| "controls (Ending g t k) \<longleftrightarrow> k \<noteq> By_user"
| "controls (Fetching v) \<longleftrightarrow> True"
| "controls (Releasing_for k) \<longleftrightarrow> True"
| "controls (Finishing k) \<longleftrightarrow> True"
| "controls (Leaving k) \<longleftrightarrow> True"
| "controls (Joining m g) \<longleftrightarrow> True"
| "controls _ \<longleftrightarrow> False"

definition publishers :: "authorized_thread list \<Rightarrow> authorized_thread list" where
  "publishers ts = filter publishes ts"

definition controllers :: "authorized_thread list \<Rightarrow> authorized_thread list" where
  "controllers ts = filter controls ts"

text \<open>What is left of a call once its release has answered.\<close>

definition after_stop :: "release_purpose \<Rightarrow> VoiceSessionResult \<Rightarrow> authorized_thread list" where
  "after_stop k r = (if k \<noteq> By_user \<and> vs_successful r then [Finishing k] else [])"

fun stop_threads :: "release_purpose \<Rightarrow> authorized_release \<Rightarrow> authorized_thread list" where
  "stop_threads k (Stop_refused r) = after_stop k r"
| "stop_threads k (Stop_waits g) = [Awaiting g None k]"
| "stop_threads k (Stop_interrupts_start g) = [Interrupting_start g k]"
| "stop_threads k (Stop_ends g t) = [Ending g t k]"

definition woken_result ::
  "VoiceTransportResult option \<Rightarrow> AuthorizedVoiceClient \<Rightarrow> VoiceSessionResult" where
  "woken_result stopped c =
     (case stopped of None \<Rightarrow> av_last_release_result c
      | Some r \<Rightarrow> interrupted_start_result r c)"

text \<open>Where a disconnect or refresh goes on after it has disabled push-to-talk.\<close>

definition quiesced :: "release_purpose \<Rightarrow> bool \<Rightarrow> authorized_thread" where
  "quiesced k publication_active = (if publication_active then Releasing_for k else Finishing k)"

text \<open>And after the rooms have been left.\<close>

fun rooms_left ::
  "release_purpose \<Rightarrow> AuthorizedVoiceClient \<Rightarrow> authorized_thread list \<times> AuthorizedVoiceClient" where
  "rooms_left By_user c = ([], c)"
| "rooms_left By_disconnect c = ([], forget_membership c)"
| "rooms_left (By_refresh m g) c = ([Joining m g], c)"

definition rooms_joined ::
  "MembershipView \<Rightarrow> VoiceTransportResult \<Rightarrow> AuthorizedVoiceClient \<Rightarrow> AuthorizedVoiceClient" where
  "rooms_joined m connected c =
     (if vr_ok connected then install_membership m c else forget_membership c)"

inductive authorized_step ::
  "'w AuthorizedPorts \<Rightarrow> AuthorizedSystem \<Rightarrow> AuthorizedSystem \<Rightarrow> bool" for p where
  pressed:
    "start_admitted (ap_voice_state p w) (sy_client s) = (Inr (g, v), c') \<Longrightarrow>
     authorized_step p s
       (s\<lparr>sy_client := c', sy_threads := sy_threads s @ [Authorizing sc g v],
          sy_presses := sy_presses s + 1\<rparr>)"
| authorized:
    "sy_threads s = xs @ Authorizing sc g v # ys \<Longrightarrow>
     fst (ap_startTransmission p sc v w) = Inr (Inr t) \<Longrightarrow>
     start_authorized g t (sy_client s) = (cancelled, c') \<Longrightarrow>
     authorized_step p s
       (s\<lparr>sy_client := c',
          sy_threads := xs @ (if cancelled then Undoing g t else Publishing sc g t) # ys\<rparr>)"
| not_authorized:
    "sy_threads s = xs @ Authorizing sc g v # ys \<Longrightarrow>
     fst (ap_startTransmission p sc v w) = Inr (Inl e) \<Longrightarrow>
     authorized_step p s
       (s\<lparr>sy_client := start_refused g (sy_client s), sy_threads := xs @ ys\<rparr>)"
| voice_pressed:
    "sy_threads s = xs @ Publishing sc g t # ys \<Longrightarrow>
     voice_returned g (sy_client s) = (cancelled, c') \<Longrightarrow>
     authorized_step p s
       (s\<lparr>sy_client := c',
          sy_threads := xs @ (if vr_ok (fst (ap_voice_press p sc w)) then Confirming sc g t
                              else Undoing g t) # ys\<rparr>)"
| confirmed:
    "sy_threads s = xs @ Confirming sc g t # ys \<Longrightarrow>
     start_confirmed g (sy_client s) = (Some r, c') \<Longrightarrow>
     authorized_step p s (s\<lparr>sy_client := c', sy_threads := xs @ ys\<rparr>)"
| not_confirmed:
    "sy_threads s = xs @ Confirming sc g t # ys \<Longrightarrow>
     start_confirmed g (sy_client s) = (None, c') \<Longrightarrow>
     authorized_step p s (s\<lparr>sy_client := c', sy_threads := xs @ Undoing g t # ys\<rparr>)"
| undone:
    "sy_threads s = xs @ Undoing g t # ys \<Longrightarrow>
     fst (ap_endTransmission p (sd_transmission_id t) w) = ended \<Longrightarrow>
     authorized_step p s
       (s\<lparr>sy_client := start_undone ended g (sy_client s), sy_threads := xs @ ys\<rparr>)"
| released:
    "stop_begin (sy_client s) = (action, c') \<Longrightarrow>
     authorized_step p s
       (s\<lparr>sy_client := c', sy_threads := sy_threads s @ stop_threads By_user action\<rparr>)"
| start_interrupted:
    "sy_threads s = xs @ Interrupting_start g k # ys \<Longrightarrow>
     authorized_step p s
       (s\<lparr>sy_threads := xs @ Awaiting g (Some (fst (ap_voice_release p w))) k # ys\<rparr>)"
| woken:
    "sy_threads s = xs @ Awaiting g stopped k # ys \<Longrightarrow> stop_may_wake g (sy_client s) \<Longrightarrow>
     authorized_step p s
       (s\<lparr>sy_threads := xs @ after_stop k (woken_result stopped (sy_client s)) @ ys\<rparr>)"
| ended:
    "sy_threads s = xs @ Ending g t k # ys \<Longrightarrow>
     fst (ap_voice_release p w) = stopped \<Longrightarrow>
     fst (ap_endTransmission p (sd_transmission_id t) w') = answer \<Longrightarrow>
     authorized_step p s
       (s\<lparr>sy_client := stop_settled stopped answer g (sy_client s),
          sy_threads := xs @ after_stop k (stop_result stopped answer) @ ys\<rparr>)"
| connected:
    "controllers (sy_threads s) = [] \<Longrightarrow>
     authorized_connect p credential (sy_client s, w) = (r, c', w') \<Longrightarrow>
     authorized_step p s (s\<lparr>sy_client := c'\<rparr>)"
| disconnect_called:
    "controllers (sy_threads s) = [] \<Longrightarrow> quiesce (sy_client s) = (active, c') \<Longrightarrow>
     authorized_step p s
       (s\<lparr>sy_client := c', sy_threads := sy_threads s @ [quiesced By_disconnect active]\<rparr>)"
| refresh_called:
    "controllers (sy_threads s) = [] \<Longrightarrow>
     known_membership_version (ap_voice_state p w) (sy_client s) = Inr v \<Longrightarrow>
     authorized_step p s (s\<lparr>sy_threads := sy_threads s @ [Fetching v]\<rparr>)"
| not_fetched:
    "sy_threads s = xs @ Fetching v # ys \<Longrightarrow> fst (fetch_authorization p v w) = Inl r \<Longrightarrow>
     authorized_step p s (s\<lparr>sy_threads := xs @ ys\<rparr>)"
| fetched:
    "sy_threads s = xs @ Fetching v # ys \<Longrightarrow> fst (fetch_authorization p v w) = Inr (m, grants) \<Longrightarrow>
     quiesce (sy_client s) = (active, c') \<Longrightarrow>
     authorized_step p s
       (s\<lparr>sy_client := c', sy_threads := xs @ quiesced (By_refresh m grants) active # ys\<rparr>)"
| released_for:
    "sy_threads s = xs @ Releasing_for k # ys \<Longrightarrow> stop_begin (sy_client s) = (action, c') \<Longrightarrow>
     authorized_step p s (s\<lparr>sy_client := c', sy_threads := xs @ stop_threads k action @ ys\<rparr>)"
| finished:
    "sy_threads s = xs @ Finishing k # ys \<Longrightarrow>
     endInterruptedTransmission p (sy_client s, w) = (r, c', w') \<Longrightarrow>
     authorized_step p s
       (s\<lparr>sy_client := c',
          sy_threads := xs @ (if vs_successful r then [Leaving k] else []) @ ys\<rparr>)"
| left:
    "sy_threads s = xs @ Leaving k # ys \<Longrightarrow> vr_ok (fst (ap_voice_disconnect p w)) \<Longrightarrow>
     rooms_left k (sy_client s) = (zs, c') \<Longrightarrow>
     authorized_step p s (s\<lparr>sy_client := c', sy_threads := xs @ zs @ ys\<rparr>)"
| not_left:
    "sy_threads s = xs @ Leaving k # ys \<Longrightarrow> \<not> vr_ok (fst (ap_voice_disconnect p w)) \<Longrightarrow>
     authorized_step p s (s\<lparr>sy_threads := xs @ ys\<rparr>)"
| joined:
    "sy_threads s = xs @ Joining m grants # ys \<Longrightarrow>
     fst (ap_voice_connect p (gs_room_grants grants) w) = r \<Longrightarrow>
     authorized_step p s
       (s\<lparr>sy_client := rooms_joined m r (sy_client s), sy_threads := xs @ ys\<rparr>)"

inductive authorized_reachable :: "'w AuthorizedPorts \<Rightarrow> AuthorizedSystem \<Rightarrow> bool" for p where
  fresh:
    "authorized_reachable p
       \<lparr>sy_client = AuthorizedVoiceClient_ctor, sy_threads = [], sy_presses = 0\<rparr>"
| step: "authorized_reachable p s \<Longrightarrow> authorized_step p s s' \<Longrightarrow> authorized_reachable p s'"

section \<open>The invariant\<close>

text \<open>The transmission was authorized for this scope under the membership the client holds.\<close>

definition authorized_for ::
  "AuthorizedVoiceClient \<Rightarrow> VoiceScope \<Rightarrow> StartedTransmission \<Rightarrow> bool" where
  "authorized_for c sc t \<longleftrightarrow>
     sd_scope t = sc \<and> map_option mv_version (av_membership c) = Some (sd_membership_version t)"

fun publisher_ok :: "AuthorizedVoiceClient \<Rightarrow> authorized_thread \<Rightarrow> bool" where
  "publisher_ok c (Authorizing sc g v) \<longleftrightarrow>
     g = av_publication_generation c \<and> av_publication_state c \<in> {Pub_starting, Pub_stopping} \<and>
     av_active_transmission c = None \<and> \<not> av_voice_start_in_progress c \<and>
     map_option mv_version (av_membership c) = Some v"
| "publisher_ok c (Publishing sc g t) \<longleftrightarrow>
     g = av_publication_generation c \<and> av_publication_state c \<in> {Pub_starting, Pub_stopping} \<and>
     av_active_transmission c = Some t \<and> av_voice_start_in_progress c \<and> authorized_for c sc t"
| "publisher_ok c (Confirming sc g t) \<longleftrightarrow>
     g = av_publication_generation c \<and> av_publication_state c \<in> {Pub_starting, Pub_stopping} \<and>
     av_active_transmission c = Some t \<and> \<not> av_voice_start_in_progress c \<and> authorized_for c sc t"
| "publisher_ok c (Undoing g t) \<longleftrightarrow>
     g = av_publication_generation c \<and> av_publication_state c \<in> {Pub_starting, Pub_stopping} \<and>
     av_active_transmission c = Some t \<and> \<not> av_voice_start_in_progress c"
| "publisher_ok c (Ending g t k) \<longleftrightarrow>
     g = av_publication_generation c \<and> av_publication_state c = Pub_stopping \<and>
     av_active_transmission c = Some t \<and> \<not> av_voice_start_in_progress c"
| "publisher_ok c _ \<longleftrightarrow> True"

definition at_rest :: "AuthorizedVoiceClient \<Rightarrow> bool" where
  "at_rest c \<longleftrightarrow>
     \<not> av_voice_start_in_progress c \<and>
     (av_publication_state c = Pub_idle \<or>
      av_publication_state c = Pub_active \<and>
        (\<exists>t. av_active_transmission c = Some t \<and> authorized_for c (sd_scope t) t))"

definition publishers_ok :: "AuthorizedVoiceClient \<Rightarrow> authorized_thread list \<Rightarrow> bool" where
  "publishers_ok c ts \<longleftrightarrow>
     (case ts of [] \<Rightarrow> at_rest c | [t] \<Rightarrow> publisher_ok c t | _ \<Rightarrow> False)"

text \<open>The membership a refresh installs is newer than the one it knows.\<close>

fun target_ok :: "AuthorizedVoiceClient \<Rightarrow> release_purpose \<Rightarrow> bool" where
  "target_ok c (By_refresh m g) \<longleftrightarrow>
     (\<exists>m0. av_membership c = Some m0 \<and> mv_version m0 < mv_version m)"
| "target_ok c _ \<longleftrightarrow> True"

fun control_ok :: "AuthorizedVoiceClient \<Rightarrow> authorized_thread \<Rightarrow> bool" where
  "control_ok c (Fetching v) \<longleftrightarrow> map_option mv_version (av_membership c) = Some v"
| "control_ok c (Releasing_for k) \<longleftrightarrow>
     k \<noteq> By_user \<and> \<not> av_push_to_talk_enabled c \<and> target_ok c k"
| "control_ok c (Interrupting_start g k) \<longleftrightarrow>
     (k \<noteq> By_user \<longrightarrow> \<not> av_push_to_talk_enabled c \<and> g = av_publication_generation c \<and> target_ok c k)"
| "control_ok c (Awaiting g r k) \<longleftrightarrow>
     (k \<noteq> By_user \<longrightarrow> \<not> av_push_to_talk_enabled c \<and> g = av_publication_generation c \<and> target_ok c k)"
| "control_ok c (Ending g t k) \<longleftrightarrow>
     (k \<noteq> By_user \<longrightarrow> \<not> av_push_to_talk_enabled c \<and> target_ok c k)"
| "control_ok c (Finishing k) \<longleftrightarrow>
     k \<noteq> By_user \<and> \<not> av_push_to_talk_enabled c \<and> av_publication_state c = Pub_idle \<and> target_ok c k"
| "control_ok c (Leaving k) \<longleftrightarrow>
     k \<noteq> By_user \<and> \<not> av_push_to_talk_enabled c \<and> av_publication_state c = Pub_idle \<and>
     av_active_transmission c = None \<and> target_ok c k"
| "control_ok c (Joining m g) \<longleftrightarrow>
     \<not> av_push_to_talk_enabled c \<and> av_publication_state c = Pub_idle \<and>
     av_active_transmission c = None \<and> target_ok c (By_refresh m g)"
| "control_ok c _ \<longleftrightarrow> True"

fun stop_waiter_ok :: "nat \<Rightarrow> MicrophonePublicationState \<Rightarrow> authorized_thread \<Rightarrow> bool" where
  "stop_waiter_ok n p (Awaiting g r k) \<longleftrightarrow>
     unat g \<le> n \<and> (unat g = n \<longrightarrow> p \<in> {Pub_stopping, Pub_idle})"
| "stop_waiter_ok n p (Interrupting_start g k) \<longleftrightarrow>
     unat g \<le> n \<and> (unat g = n \<longrightarrow> p \<in> {Pub_stopping, Pub_idle})"
| "stop_waiter_ok n p t \<longleftrightarrow> True"

definition authorized_ok :: "AuthorizedVoiceClient \<Rightarrow> authorized_thread list \<Rightarrow> nat \<Rightarrow> bool" where
  "authorized_ok c ts n \<longleftrightarrow>
     publishers_ok c (publishers ts) \<and>
     length (controllers ts) \<le> 1 \<and> list_all (control_ok c) ts \<and>
     av_publication_generation c = of_nat n \<and>
     (n < 2 ^ 64 \<longrightarrow> list_all (stop_waiter_ok n (av_publication_state c)) ts)"

lemmas authorized_sections = start_admitted_def start_refused_def start_authorized_def
  start_undone_def voice_returned_def start_confirmed_def stop_begin_def stop_settled_def
  quiesce_def forget_membership_def install_membership_def

lemma publishers_simps [simp]:
  "publishers [] = []"
  "publishers (xs @ ys) = publishers xs @ publishers ys"
  "publishers (t # ts) = (if publishes t then t # publishers ts else publishers ts)"
  by (simp_all add: publishers_def)

lemma controllers_simps [simp]:
  "controllers [] = []"
  "controllers (xs @ ys) = controllers xs @ controllers ys"
  "controllers (t # ts) = (if controls t then t # controllers ts else controllers ts)"
  by (simp_all add: controllers_def)

lemma after_stop_simps [simp]:
  "publishers (after_stop k r) = []"
  "controllers (after_stop k r) = after_stop k r"
  "list_all (stop_waiter_ok n p) (after_stop k r)"
  "length (after_stop k r) \<le> (if k = By_user then 0 else 1)"
  "list_all (control_ok c) (after_stop k r) \<longleftrightarrow>
     (k \<noteq> By_user \<longrightarrow> vs_successful r \<longrightarrow> control_ok c (Finishing k))"
  by (auto simp: after_stop_def)

lemma publishers_ok_one [simp]:
  "publishers_ok c (xs @ t # ys) \<longleftrightarrow> xs = [] \<and> ys = [] \<and> publisher_ok c t"
  by (cases xs; cases ys) (auto simp: publishers_ok_def split: list.splits)

lemma publishers_ok_simps [simp]:
  "publishers_ok c [] \<longleftrightarrow> at_rest c"
  "publishers_ok c [t] \<longleftrightarrow> publisher_ok c t"
  by (simp_all add: publishers_ok_def)

lemma publishes_mem: "t \<in> set (publishers ts) \<longleftrightarrow> t \<in> set ts \<and> publishes t"
  by (auto simp: publishers_def)

lemma publishers_ok_state:
  assumes "publishers_ok c (publishers ts)"
  shows "publishers ts = [] \<and> at_rest c \<or>
     (\<exists>t. publishers ts = [t] \<and> publishes t \<and> publisher_ok c t)"
  using assms publishes_mem [of _ ts]
  by (cases "publishers ts") (auto simp: publishers_ok_def split: list.splits)

lemma publisher_busy:
  "publishes t \<Longrightarrow> publisher_ok c t \<Longrightarrow> av_publication_state c \<in> {Pub_starting, Pub_stopping}"
  by (cases t) auto

lemma at_rest_iff:
  assumes "publishers_ok c (publishers ts)"
  shows "publishers ts = [] \<longleftrightarrow> av_publication_state c \<in> {Pub_idle, Pub_active}"
  using publishers_ok_state [OF assms] publisher_busy [of "hd (publishers ts)" c]
  by (auto simp: at_rest_def)

section \<open>What a step leaves alone\<close>

text \<open>
  A change that keeps the membership and never enables push-to-talk keeps the conditions of the
  calls that control the client, as long as nothing is published that was not.
\<close>

definition calmer :: "AuthorizedVoiceClient \<Rightarrow> AuthorizedVoiceClient \<Rightarrow> bool" where
  "calmer c c' \<longleftrightarrow>
     av_membership c' = av_membership c \<and>
     (av_push_to_talk_enabled c' \<longrightarrow> av_push_to_talk_enabled c) \<and>
     av_publication_generation c' = av_publication_generation c \<and>
     (av_publication_state c = Pub_idle \<longrightarrow>
        av_publication_state c' = Pub_idle \<and>
        (av_active_transmission c = None \<longrightarrow> av_active_transmission c' = None))"

lemma target_ok_cong: "av_membership c' = av_membership c \<Longrightarrow> target_ok c' k = target_ok c k"
  by (cases k) auto

lemma target_ok_update [simp]:
  "target_ok (c\<lparr>av_publication_state := st\<rparr>) k = target_ok c k"
  "target_ok (c\<lparr>av_push_to_talk_enabled := b\<rparr>) k = target_ok c k"
  by (cases k; simp)+

lemma control_ok_calmer: "control_ok c t \<Longrightarrow> calmer c c' \<Longrightarrow> control_ok c' t"
  by (cases t) (auto simp: calmer_def target_ok_cong [of c' c])

lemma controls_ok_calmer:
  "list_all (control_ok c) ts \<Longrightarrow> calmer c c' \<Longrightarrow> list_all (control_ok c') ts"
  by (auto simp: list_all_iff intro: control_ok_calmer)

lemma calmer_refl [simp]: "calmer c c"
  by (simp add: calmer_def)

lemma uncontrolled_ok: "controllers ts = [] \<Longrightarrow> list_all (control_ok c) ts"
proof -
  have "control_ok c t" if "\<not> controls t" for t
    using that by (cases t) auto
  then show "controllers ts = [] \<Longrightarrow> list_all (control_ok c) ts"
    by (auto simp: controllers_def filter_empty_conv list_all_iff)
qed

lemma stop_waiter_mono:
  "stop_waiter_ok n p t \<Longrightarrow> p' = p \<or> p' \<in> {Pub_stopping, Pub_idle} \<or> p \<notin> {Pub_stopping, Pub_idle} \<Longrightarrow>
     stop_waiter_ok n p' t"
  "stop_waiter_ok n p t \<Longrightarrow> stop_waiter_ok (Suc n) p' t"
  by (cases t; auto)+

lemma stop_waiters_mono:
  "list_all (stop_waiter_ok n p) ts \<Longrightarrow>
     p' = p \<or> p' \<in> {Pub_stopping, Pub_idle} \<or> p \<notin> {Pub_stopping, Pub_idle} \<Longrightarrow>
     list_all (stop_waiter_ok n p') ts"
  "list_all (stop_waiter_ok n p) ts \<Longrightarrow> list_all (stop_waiter_ok (Suc n) p') ts"
  by (auto simp: list_all_iff intro: stop_waiter_mono)

text \<open>A call moves on: thread \<open>t\<close> becomes the threads \<open>zs\<close>.\<close>

lemma authorized_ok_replace:
  assumes "authorized_ok c (xs @ ts @ ys) n" and "calmer c c'"
    and "av_publication_state c' = av_publication_state c \<or>
         av_publication_state c' \<in> {Pub_stopping, Pub_idle} \<or>
         av_publication_state c \<notin> {Pub_stopping, Pub_idle}"
    and "publishers_ok c (publishers (xs @ ts @ ys)) \<Longrightarrow>
         publishers_ok c' (publishers (xs @ zs @ ys))"
    and "length (controllers zs) \<le> length (controllers ts)"
    and "list_all (control_ok c) ts \<Longrightarrow> list_all (control_ok c') zs"
    and "n < 2 ^ 64 \<Longrightarrow> list_all (stop_waiter_ok n (av_publication_state c)) ts \<Longrightarrow>
         list_all (stop_waiter_ok n (av_publication_state c')) zs"
  shows "authorized_ok c' (xs @ zs @ ys) n"
  using assms controls_ok_calmer [OF _ assms(2)] stop_waiters_mono(1) [OF _ assms(3)]
  by (auto simp: authorized_ok_def calmer_def)

lemma authorized_ok_pressed:
  assumes "authorized_ok c ts n" and "start_admitted vst c = (Inr (g, v), c')"
  shows "authorized_ok c' (ts @ [Authorizing sc g v]) (Suc n)"
proof -
  have idle: "av_publication_state c = Pub_idle" "av_active_transmission c = None"
      "av_push_to_talk_enabled c" and v: "map_option mv_version (av_membership c) = Some v"
    and c': "c' = c\<lparr>av_publication_generation := av_publication_generation c + 1,
        av_publication_state := Pub_starting, av_last_release_result := session_success None\<rparr>"
      "g = av_publication_generation c + 1"
    using assms(2) by (auto simp: start_admitted_def Let_def split: option.splits if_splits)
  have "publishers ts = [] \<and> at_rest c"
    using assms(1) idle publishers_ok_state [of c ts] publisher_busy [of "hd (publishers ts)" c]
    by (auto simp: authorized_ok_def)
  moreover have "control_ok c' t" if "control_ok c t" for t
    using that idle(3) by (cases t) (auto simp: c')
  ultimately show ?thesis
    using assms(1) idle v stop_waiters_mono(2) [of n "av_publication_state c" ts]
    by (auto simp: authorized_ok_def c' at_rest_def list_all_iff)
qed

lemma authorized_ok_authorized:
  assumes "authorized_ok c (xs @ Authorizing sc g v # ys) n"
    and "start_authorized g t c = (cancelled, c')" and "sd_scope t = sc" "sd_membership_version t = v"
  shows "authorized_ok c' (xs @ (if cancelled then Undoing g t else Publishing sc g t) # ys) n"
proof -
  have ok: "publisher_ok c (Authorizing sc g v)"
    using assms(1) by (simp add: authorized_ok_def)
  have c': "c' = c\<lparr>av_active_transmission := Some t,
      av_voice_start_in_progress := av_publication_state c \<noteq> Pub_stopping\<rparr>"
    and cancelled: "cancelled \<longleftrightarrow> av_publication_state c = Pub_stopping"
    using assms(2) ok by (auto simp: start_authorized_def Let_def)
  show ?thesis
    by (rule authorized_ok_replace [where xs = xs and ys = ys and ts = "[Authorizing sc g v]"
          and zs = "[if cancelled then Undoing g t else Publishing sc g t]" and c = c and c' = c',
          simplified append_Cons append_Nil])
      (use assms ok in \<open>auto simp: calmer_def c' cancelled authorized_for_def\<close>)
qed

text \<open>A press gives the publication up, before or after it was authorized.\<close>

lemma authorized_ok_given_up:
  assumes "authorized_ok c (xs @ t # ys) n"
    and "t = Authorizing sc g v \<and> c' = start_refused g c \<or>
         t = Undoing g t' \<and> c' = start_undone answer g c"
  shows "authorized_ok c' (xs @ ys) n"
proof -
  have "publisher_ok c t" using assms by (auto simp: authorized_ok_def)
  then have c': "av_publication_state c' = Pub_idle" "\<not> av_voice_start_in_progress c'" "calmer c c'"
    using assms(2)
    by (auto simp: start_refused_def start_undone_def calmer_def split: sum.splits)
  show ?thesis
    by (rule authorized_ok_replace [where xs = xs and ys = ys and ts = "[t]" and zs = "[]"
          and c = c and c' = c', simplified append_Cons append_Nil])
      (use assms c' in \<open>auto simp: at_rest_def\<close>)
qed

lemma authorized_ok_voice_pressed:
  assumes "authorized_ok c (xs @ Publishing sc g t # ys) n"
    and "voice_returned g c = (cancelled, c')"
  shows "authorized_ok c' (xs @ (if b then Confirming sc g t else Undoing g t) # ys) n"
proof -
  have c': "c' = c\<lparr>av_voice_start_in_progress := False\<rparr>"
    using assms(2) by (simp add: voice_returned_def)
  show ?thesis
    by (rule authorized_ok_replace [where xs = xs and ys = ys and ts = "[Publishing sc g t]"
          and zs = "[if b then Confirming sc g t else Undoing g t]" and c = c and c' = c',
          simplified append_Cons append_Nil])
      (use assms(1) in \<open>auto simp: calmer_def c' authorized_for_def\<close>)
qed

lemma authorized_ok_confirmed:
  assumes "authorized_ok c (xs @ Confirming sc g t # ys) n"
    and "start_confirmed g c = (Some r, c')"
  shows "authorized_ok c' (xs @ ys) n"
proof -
  have "publisher_ok c (Confirming sc g t)"
    using assms(1) by (simp add: authorized_ok_def)
  moreover have c': "c' = c\<lparr>av_publication_state := Pub_active\<rparr>"
      "av_publication_state c = Pub_starting"
    using assms(2) by (auto simp: start_confirmed_def split: if_splits)
  ultimately have "at_rest c'" by (auto simp: at_rest_def authorized_for_def)
  show ?thesis
    by (rule authorized_ok_replace [where xs = xs and ys = ys and ts = "[Confirming sc g t]"
          and zs = "[]" and c = c and c' = c', simplified append_Cons append_Nil])
      (use assms(1) \<open>at_rest c'\<close> c' in \<open>auto simp: calmer_def\<close>)
qed

lemma authorized_ok_not_confirmed:
  assumes "authorized_ok c (xs @ Confirming sc g t # ys) n"
  shows "authorized_ok c (xs @ Undoing g t # ys) n"
  by (rule authorized_ok_replace [where xs = xs and ys = ys and ts = "[Confirming sc g t]"
        and zs = "[Undoing g t]" and c = c and c' = c, simplified append_Cons append_Nil])
    (use assms in \<open>auto\<close>)

text \<open>A release begins, called by a user or by a disconnect or refresh.\<close>

lemma stop_begin_calmer: "stop_begin c = (action, c') \<Longrightarrow> calmer c c'"
  by (cases "av_publication_state c")
    (auto simp: stop_begin_def Let_def calmer_def split: option.splits if_splits)

lemma stop_begin_state:
  assumes "stop_begin c = (action, c')"
  shows "av_publication_state c = Pub_idle \<and> c' = c \<and>
        (\<exists>r. action = Stop_refused r \<and> \<not> vs_successful r) \<or>
      av_publication_state c \<noteq> Pub_idle \<and> c' = c\<lparr>av_publication_state := Pub_stopping\<rparr> \<and>
        (action = Stop_waits (av_publication_generation c) \<or>
         action = Stop_interrupts_start (av_publication_generation c) \<or>
         av_publication_state c = Pub_active \<and>
           (\<exists>t. av_active_transmission c = Some t \<and>
              action = Stop_ends (av_publication_generation c) t))"
    and "av_publication_state c = Pub_active \<Longrightarrow> av_active_transmission c = Some t \<Longrightarrow>
      action = Stop_ends (av_publication_generation c) t"
  using assms
  by (cases "av_publication_state c";
      auto simp: stop_begin_def Let_def session_refusal_def session_failure_def
        split: option.splits if_splits)+

lemma publisher_ok_stopping:
  "publishes t \<Longrightarrow> publisher_ok c t \<Longrightarrow> publisher_ok (c\<lparr>av_publication_state := Pub_stopping\<rparr>) t"
  by (cases t) (auto simp: authorized_for_def)

lemma stop_keeps_publishers:
  assumes "stop_begin c = (action, c')" and "publishers_ok c (publishers xs @ publishers ys)"
  shows "publishers_ok c' (publishers xs @ publishers (stop_threads k action) @ publishers ys)"
proof (cases "publishers xs @ publishers ys")
  case Nil
  then show ?thesis
    using assms(2) stop_begin_state(1) [OF assms(1)] stop_begin_state(2) [OF assms(1)]
    by (auto simp: at_rest_def)
next
  case (Cons t rest)
  then obtain "publishers xs @ publishers ys = [t]" "publishes t" "publisher_ok c t"
    using assms(2) publishers_ok_state [of c "xs @ ys"] by auto
  then show ?thesis
    using stop_begin_state(1) [OF assms(1)] publisher_busy [of t c] publisher_ok_stopping [of t c]
    by (auto simp: append_eq_Cons_conv)
qed

lemma authorized_ok_stop:
  assumes "authorized_ok c (xs @ ts @ ys) n" and "stop_begin c = (action, c')"
    and "ts = [Releasing_for k] \<or> ts = [] \<and> k = By_user"
  shows "authorized_ok c' (xs @ stop_threads k action @ ys) n"
proof (rule authorized_ok_replace [OF assms(1) stop_begin_calmer [OF assms(2)]])
  note state = stop_begin_state(1) [OF assms(2)]
  show "av_publication_state c' = av_publication_state c \<or>
      av_publication_state c' \<in> {Pub_stopping, Pub_idle} \<or>
      av_publication_state c \<notin> {Pub_stopping, Pub_idle}"
    using state by auto
  show "publishers_ok c' (publishers (xs @ stop_threads k action @ ys))"
    if "publishers_ok c (publishers (xs @ ts @ ys))"
    using that assms(3) stop_keeps_publishers [OF assms(2), of xs ys k] by auto
  show "length (controllers (stop_threads k action)) \<le> length (controllers ts)"
    using assms(3) state by (auto simp: after_stop_def)
  show "list_all (control_ok c') (stop_threads k action)" if "list_all (control_ok c) ts"
    using that assms(3) state by auto
  show "list_all (stop_waiter_ok n (av_publication_state c')) (stop_threads k action)"
    if "n < 2 ^ 64"
    using that assms(1) state by (auto simp: authorized_ok_def unat_of_nat_u64)
qed

text \<open>A release is woken, or has ended its transmission.\<close>

lemma authorized_ok_woken:
  assumes "authorized_ok c (xs @ Awaiting g stopped k # ys) n" and "stop_may_wake g c"
  shows "authorized_ok c (xs @ after_stop k (woken_result stopped c) @ ys) n"
  by (rule authorized_ok_replace [where ts = "[Awaiting g stopped k]" and c = c and c' = c])
    (use assms in \<open>auto simp: stop_may_wake_def after_stop_def\<close>)

lemma authorized_ok_ended:
  assumes "authorized_ok c (xs @ Ending g t k # ys) n"
  shows "authorized_ok (stop_settled stopped answer g c)
           (xs @ after_stop k (stop_result stopped answer) @ ys) n"
proof -
  have "publisher_ok c (Ending g t k)" using assms by (simp add: authorized_ok_def)
  then have c': "av_publication_state (stop_settled stopped answer g c) = Pub_idle"
      "\<not> av_voice_start_in_progress (stop_settled stopped answer g c)"
      "calmer c (stop_settled stopped answer g c)"
    by (auto simp: stop_settled_def Let_def calmer_def split: sum.splits)
  then have "control_ok (stop_settled stopped answer g c) (Finishing k)"
    if "control_ok c (Ending g t k)" "k \<noteq> By_user"
    using that control_ok_calmer [OF that(1) c'(3)] by simp
  with c' show ?thesis
    by - (rule authorized_ok_replace [where ts = "[Ending g t k]" and c = c],
      use assms in \<open>auto simp: at_rest_def after_stop_def\<close>)
qed

lemma authorized_ok_start_interrupted:
  assumes "authorized_ok c (xs @ Interrupting_start g k # ys) n"
  shows "authorized_ok c (xs @ Awaiting g r k # ys) n"
  by (rule authorized_ok_replace [where xs = xs and ys = ys and ts = "[Interrupting_start g k]"
        and zs = "[Awaiting g r k]" and c = c and c' = c, simplified append_Cons append_Nil])
    (use assms in auto)

text \<open>Connecting, refreshing and disconnecting.\<close>

lemma authorized_ok_connected:
  assumes "authorized_ok c ts n" and "controllers ts = []"
    and "authorized_connect p credential (c, w) = (r, c', w')"
  shows "authorized_ok c' ts n"
proof -
  have "c' = c \<or> (\<exists>m. av_membership c = None \<and>
      c' = c\<lparr>av_membership := Some m, av_push_to_talk_enabled := True\<rparr>)"
    using assms(3)
    by (auto simp: authorized_connect_def Let_def case_prod_beta split: if_splits sum.splits)
  moreover have "publishers_ok (c\<lparr>av_membership := Some m, av_push_to_talk_enabled := True\<rparr>)
      (publishers ts)" if "av_membership c = None" for m
  proof -
    have "publisher_ok (c\<lparr>av_membership := Some m, av_push_to_talk_enabled := True\<rparr>) t"
      if "publisher_ok c t" for t
      using that \<open>av_membership c = None\<close> by (cases t) (auto simp: authorized_for_def)
    then show ?thesis
      using assms(1) publishers_ok_state [of c ts] \<open>av_membership c = None\<close>
      by (auto simp: authorized_ok_def at_rest_def authorized_for_def)
  qed
  ultimately show ?thesis
    using assms(1,2) uncontrolled_ok by (auto simp: authorized_ok_def)
qed

lemma authorized_ok_quiesced:
  assumes "authorized_ok c (xs @ ts @ ys) n" and "quiesce c = (active, c')"
    and "ts = [Fetching v] \<and> target_ok c k \<or> ts = [] \<and> controllers (xs @ ys) = [] \<and> k = By_disconnect"
    and "k \<noteq> By_user"
  shows "authorized_ok c' (xs @ quiesced k active # ys) n"
proof -
  have c': "c' = c\<lparr>av_push_to_talk_enabled := False\<rparr>" "active \<longleftrightarrow> av_publication_state c \<noteq> Pub_idle"
    using assms(2) by (auto simp: quiesce_def)
  have "calmer c c'" by (simp add: calmer_def c')
  moreover have "publishers_ok c' (publishers (xs @ ys))"
  proof -
    have "publisher_ok c' t" if "publisher_ok c t" for t
      using that by (cases t) (auto simp: c' authorized_for_def)
    then show ?thesis
      using assms(1,3) publishers_ok_state [of c "xs @ ys"]
      by (auto simp: authorized_ok_def at_rest_def c' authorized_for_def)
  qed
  ultimately show ?thesis
    using assms controls_ok_calmer [of c xs c'] controls_ok_calmer [of c ys c']
    by (auto simp: authorized_ok_def c' quiesced_def)
qed

lemma authorized_ok_finished:
  assumes "authorized_ok c (xs @ Finishing k # ys) n"
    and "endInterruptedTransmission p (c, w) = (r, c', w')"
  shows "authorized_ok c' (xs @ (if vs_successful r then [Leaving k] else []) @ ys) n"
proof -
  have "control_ok c (Finishing k)" using assms(1) by (simp add: authorized_ok_def)
  moreover have c': "c' = c \<and> (vs_successful r \<longrightarrow> av_active_transmission c = None) \<or>
      c' = c\<lparr>av_active_transmission := None\<rparr>"
    using assms(2)
    by (auto simp: endInterruptedTransmission_def controlPlaneFailure_def session_failure_def
        session_success_def split: option.splits sum.splits prod.splits)
  ultimately have idle: "av_publication_state c = Pub_idle" "av_publication_state c' = Pub_idle"
    and calmer: "calmer c c'" by (auto simp: calmer_def)
  have "vs_successful r \<Longrightarrow> control_ok c' (Leaving k)"
    using control_ok_calmer [OF \<open>control_ok c (Finishing k)\<close> calmer] c' by auto
  moreover have "at_rest c \<Longrightarrow> at_rest c'" using c' idle by (auto simp: at_rest_def)
  moreover have "publishers (xs @ ys) = []"
    using assms(1) at_rest_iff [of c "xs @ Finishing k # ys"] idle by (auto simp: authorized_ok_def)
  ultimately show ?thesis
    by - (rule authorized_ok_replace [where ts = "[Finishing k]" and c = c, OF _ calmer],
      use assms(1) idle in auto)
qed

lemma authorized_ok_dropped:
  "authorized_ok c (xs @ t # ys) n \<Longrightarrow> \<not> publishes t \<Longrightarrow> authorized_ok c (xs @ ys) n"
  by (auto simp: authorized_ok_def split: if_splits)

text \<open>
  The one call that controls the client, with nothing published, may change the membership: no
  other call depends on it.
\<close>

lemma authorized_ok_membership:
  assumes "authorized_ok c (xs @ t # ys) n" and "controls t" and "\<not> publishes t"
    and "av_publication_state c = Pub_idle"
    and "c' = forget_membership c \<or> c' = install_membership m c"
  shows "authorized_ok c' (xs @ ys) n"
proof -
  have "controllers (xs @ ys) = []"
    using assms(1,2) by (auto simp: authorized_ok_def)
  moreover have "publishers (xs @ ys) = [] \<and> at_rest c"
    using assms(1,3,4) at_rest_iff [of c "xs @ t # ys"] by (auto simp: authorized_ok_def)
  ultimately show ?thesis
    using assms(1,5) uncontrolled_ok [of "xs @ ys" c'] assms(4)
    by (auto simp: authorized_ok_def at_rest_def forget_membership_def install_membership_def)
qed

lemma authorized_ok_left:
  assumes "authorized_ok c (xs @ Leaving k # ys) n" and "rooms_left k c = (zs, c')"
  shows "authorized_ok c' (xs @ zs @ ys) n"
proof (cases k)
  case By_user
  then show ?thesis using assms by (simp add: authorized_ok_def)
next
  case By_disconnect
  with assms(2) have z: "zs = []" "c' = forget_membership c" by simp_all
  have "av_publication_state c = Pub_idle" using assms(1) by (simp add: authorized_ok_def)
  then show ?thesis
    unfolding z append_Nil by (intro authorized_ok_membership [OF assms(1)] disjI1 refl) simp_all
next
  case (By_refresh m g)
  with assms show ?thesis by (auto simp: authorized_ok_def)
qed

lemma authorized_ok_joined:
  assumes "authorized_ok c (xs @ Joining m grants # ys) n"
  shows "authorized_ok (rooms_joined m r c) (xs @ ys) n"
proof (rule authorized_ok_membership [OF assms])
  show "rooms_joined m r c = forget_membership c \<or> rooms_joined m r c = install_membership m c"
    by (simp add: rooms_joined_def)
  show "av_publication_state c = Pub_idle" using assms by (simp add: authorized_ok_def)
qed simp_all

lemma fetched_newer:
  assumes "fst (fetch_authorization p v w) = Inr (m, grants)"
  shows "v < mv_version m \<and> gs_membership_version grants = mv_version m"
  using assms
  by (auto simp: fetch_authorization_def Let_def case_prod_beta split: sum.splits if_splits)

lemma authorized_ok_fetched:
  assumes "authorized_ok c (xs @ Fetching v # ys) n" and "quiesce c = (active, c')"
    and "v < mv_version m"
  shows "authorized_ok c' (xs @ quiesced (By_refresh m grants) active # ys) n"
proof (rule authorized_ok_quiesced [OF _ assms(2)])
  show "authorized_ok c (xs @ [Fetching v] @ ys) n" using assms(1) by simp
  show "[Fetching v] = [Fetching v] \<and> target_ok c (By_refresh m grants) \<or>
      [Fetching v] = [] \<and> controllers (xs @ ys) = [] \<and> By_refresh m grants = By_disconnect"
    using assms(1,3) by (auto simp: authorized_ok_def)
qed simp

text \<open>
  The calls during which the voice client may publish, and those that end a transmission or leave
  its rooms.
\<close>

fun on_air :: "authorized_thread \<Rightarrow> bool" where
  "on_air (Publishing sc g t) = True"
| "on_air (Confirming sc g t) = True"
| "on_air _ = False"

fun gives_up :: "authorized_thread \<Rightarrow> bool" where
  "gives_up (Undoing g t) = True"
| "gives_up (Ending g t k) = True"
| "gives_up (Finishing k) = True"
| "gives_up (Leaving k) = True"
| "gives_up (Joining m g) = True"
| "gives_up _ = False"

lemma active_only_from_starting:
  assumes "authorized_step p s s'"
  shows "av_publication_state (sy_client s') = Pub_active \<longrightarrow>
    av_publication_state (sy_client s) \<in> {Pub_starting, Pub_active}"
  using assms
proof cases
  case (left xs k ys w zs c')
  then show ?thesis by (cases k) (auto simp: forget_membership_def)
next
  case (released action c')
  then show ?thesis using stop_begin_state(1) [OF released(2)] by auto
next
  case (released_for xs k ys action c')
  then show ?thesis using stop_begin_state(1) [OF released_for(3)] by auto
next
  case (connected credential w r c' w')
  then show ?thesis
    by (auto simp: authorized_connect_def Let_def case_prod_beta split: if_splits sum.splits)
next
  case (finished xs k ys w r c' w')
  then show ?thesis
    by (auto simp: endInterruptedTransmission_def Let_def case_prod_beta
        split: option.splits sum.splits)
qed (auto simp: authorized_sections rooms_joined_def Let_def
      split: if_splits option.splits sum.splits)

text \<open>The calls that change a membership.\<close>

lemma membership_changers:
  assumes "authorized_step p s s'" and "av_membership (sy_client s) = Some m"
    and "av_membership (sy_client s') \<noteq> Some m"
  shows "\<exists>t \<in> set (sy_threads s). ((\<exists>k. t = Leaving k) \<or> (\<exists>m' grants. t = Joining m' grants)) \<and>
    (sy_client s' = forget_membership (sy_client s) \<or>
     (\<exists>m' grants. t = Joining m' grants \<and> sy_client s' = install_membership m' (sy_client s)))"
  using assms(1)
proof cases
  case (left xs k ys w zs c')
  then show ?thesis using assms(2,3) by (cases k) auto
next
  case (joined xs m' grants ys w r)
  then show ?thesis by (auto simp: rooms_joined_def)
next
  case (released action c')
  then show ?thesis using stop_begin_state(1) [OF released(2)] assms(2,3) by auto
next
  case (released_for xs k ys action c')
  then show ?thesis using stop_begin_state(1) [OF released_for(3)] assms(2,3) by auto
next
  case (connected credential w r c' w')
  then show ?thesis using assms(2,3)
    by (auto simp: authorized_connect_def)
next
  case (finished xs k ys w r c' w')
  then show ?thesis using assms(2,3)
    by (auto simp: endInterruptedTransmission_def Let_def case_prod_beta
        split: option.splits sum.splits)
qed (use assms(2,3) in \<open>auto simp: authorized_sections Let_def
      split: if_splits option.splits sum.splits\<close>)

section \<open>A control plane that authorizes what it is asked\<close>

locale authorizing_control_plane =
  fixes p :: "'w AuthorizedPorts"
  assumes as_asked:
    "fst (ap_startTransmission p sc v w) = Inr (Inr t) \<Longrightarrow>
     sd_scope t = sc \<and> sd_membership_version t = v"
begin

lemma authorized_ok_step:
  assumes "authorized_step p s s'" and ok: "authorized_ok (sy_client s) (sy_threads s) (sy_presses s)"
  shows "authorized_ok (sy_client s') (sy_threads s') (sy_presses s')"
  using assms(1)
proof cases
  case (pressed w g v c' sc)
  then show ?thesis using authorized_ok_pressed [OF ok pressed(2)] by simp
next
  case (authorized xs sc g v ys w t cancelled c')
  then show ?thesis
    using authorized_ok_authorized [OF ok [unfolded authorized(2)] authorized(4)]
      as_asked [OF authorized(3)] by simp
next
  case (not_authorized xs sc g v ys w e)
  then show ?thesis
    using authorized_ok_given_up [OF ok [unfolded not_authorized(2)]] by auto
next
  case (voice_pressed xs sc g t ys cancelled c' w)
  then show ?thesis
    using authorized_ok_voice_pressed [OF ok [unfolded voice_pressed(2)] voice_pressed(3)] by simp
next
  case (confirmed xs sc g t ys r c')
  then show ?thesis
    using authorized_ok_confirmed [OF ok [unfolded confirmed(2)] confirmed(3)] by simp
next
  case (not_confirmed xs sc g t ys c')
  then have "c' = sy_client s" by (simp add: start_confirmed_def split: if_splits)
  with not_confirmed show ?thesis
    using authorized_ok_not_confirmed [OF ok [unfolded not_confirmed(2)]] by simp
next
  case (undone xs g t ys w ended)
  then show ?thesis using authorized_ok_given_up [OF ok [unfolded undone(2)]] by auto
next
  case (released action c')
  then show ?thesis
    using authorized_ok_stop [of "sy_client s" "sy_threads s" "[]" "[]" _ action c' By_user] ok
    by simp
next
  case (start_interrupted xs g k ys w)
  then show ?thesis
    using authorized_ok_start_interrupted [OF ok [unfolded start_interrupted(2)]] by simp
next
  case (woken xs g stopped k ys)
  then show ?thesis using authorized_ok_woken [OF ok [unfolded woken(2)] woken(3)] by simp
next
  case (ended xs g t k ys w stopped w' answer)
  then show ?thesis using authorized_ok_ended [OF ok [unfolded ended(2)]] by simp
next
  case (connected credential w r c' w')
  then show ?thesis using authorized_ok_connected [OF ok connected(2,3)] by simp
next
  case (disconnect_called active c')
  then show ?thesis
    using authorized_ok_quiesced [of "sy_client s" "sy_threads s" "[]" "[]" _ active c' _
        By_disconnect] ok by simp
next
  case (refresh_called w v)
  then have "map_option mv_version (av_membership (sy_client s)) = Some v"
    by (auto simp: known_membership_version_def split: option.splits if_splits)
  with refresh_called ok show ?thesis by (simp add: authorized_ok_def)
next
  case (not_fetched xs v ys w r)
  then show ?thesis using authorized_ok_dropped [OF ok [unfolded not_fetched(2)]] by simp
next
  case (fetched xs v ys w m grants active c')
  then show ?thesis
    using authorized_ok_fetched [OF ok [unfolded fetched(2)] fetched(4)]
      fetched_newer [OF fetched(3)] by simp
next
  case (released_for xs k ys action c')
  then show ?thesis
    using authorized_ok_stop [of "sy_client s" xs "[Releasing_for k]" ys _ action c' k] ok by simp
next
  case (finished xs k ys w r c' w')
  then show ?thesis using authorized_ok_finished [OF ok [unfolded finished(2)] finished(3)] by simp
next
  case (left xs k ys w zs c')
  then show ?thesis using authorized_ok_left [OF ok [unfolded left(2)] left(4)] by simp
next
  case (not_left xs k ys w)
  then show ?thesis using authorized_ok_dropped [OF ok [unfolded not_left(2)]] by simp
next
  case (joined xs m grants ys w r)
  then show ?thesis using authorized_ok_joined [OF ok [unfolded joined(2)]] by simp
qed

lemma authorized_reachable_ok:
  "authorized_reachable p s \<Longrightarrow> authorized_ok (sy_client s) (sy_threads s) (sy_presses s)"
proof (induction rule: authorized_reachable.induct)
  case fresh
  then show ?case
    by (simp add: authorized_ok_def AuthorizedVoiceClient_ctor_def at_rest_def)
qed (rule authorized_ok_step)

text \<open>What is known of one call under way, and of the client when there is none.\<close>

lemma publisher_alone:
  assumes "authorized_reachable p s" and "t \<in> set (sy_threads s)" and "publishes t"
  shows "publishers (sy_threads s) = [t]" and "publisher_ok (sy_client s) t"
  using authorized_reachable_ok [OF assms(1)] publishers_ok_state [of "sy_client s" "sy_threads s"]
    publishes_mem [of t "sy_threads s"] assms(2,3)
  by (auto simp: authorized_ok_def)

lemma control_known:
  "authorized_reachable p s \<Longrightarrow> t \<in> set (sy_threads s) \<Longrightarrow> control_ok (sy_client s) t"
  using authorized_reachable_ok by (auto simp: authorized_ok_def list_all_iff)

lemma active_alone:
  assumes "authorized_reachable p s" and "av_publication_state (sy_client s) = Pub_active"
  shows "publishers (sy_threads s) = []"
    and "\<exists>t. av_active_transmission (sy_client s) = Some t \<and>
      authorized_for (sy_client s) (sd_scope t) t"
  using authorized_reachable_ok [OF assms(1)] assms(2)
    publishers_ok_state [of "sy_client s" "sy_threads s"]
    publisher_busy [of "hd (publishers (sy_threads s))" "sy_client s"]
  by (auto simp: authorized_ok_def at_rest_def)

lemma nothing_is_ended:
  assumes "authorized_reachable p s" and "t \<in> set (sy_threads s)" and "gives_up t"
  shows "av_publication_state (sy_client s) \<noteq> Pub_active"
    and "on_air u \<Longrightarrow> u \<notin> set (sy_threads s)"
proof -
  have t: "publishes t \<or> control_ok (sy_client s) t \<and> av_publication_state (sy_client s) = Pub_idle"
    using assms(3) control_known [OF assms(1,2)] by (cases t) auto
  then show "av_publication_state (sy_client s) \<noteq> Pub_active"
    using active_alone(1) [OF assms(1)] publishes_mem [of t "sy_threads s"] assms(2) by auto
  show "u \<notin> set (sy_threads s)" if "on_air u"
  proof
    assume "u \<in> set (sy_threads s)"
    moreover have "publishes u" using that by (cases u) auto
    ultimately have u: "publishers (sy_threads s) = [u]" "publisher_ok (sy_client s) u"
      using publisher_alone [OF assms(1)] by auto
    then have "av_publication_state (sy_client s) \<noteq> Pub_idle"
      using publisher_busy [OF \<open>publishes u\<close>, of "sy_client s"] by auto
    with t have "publishes t" by blast
    then have "t = u" using publisher_alone(1) [OF assms(1,2)] u(1) by simp
    with assms(3) that show False by (cases t) auto
  qed
qed

lemma publication_authorized:
  assumes "authorized_reachable p s"
  shows "length (publishers (sy_threads s)) \<le> 1"
    and "Publishing sc g t \<in> set (sy_threads s) \<or> Confirming sc g t \<in> set (sy_threads s) \<Longrightarrow>
      av_active_transmission (sy_client s) = Some t \<and> authorized_for (sy_client s) sc t"
  using authorized_reachable_ok [OF assms] publishers_ok_state [of "sy_client s" "sy_threads s"]
    publisher_alone(2) [OF assms, of "Publishing sc g t"]
    publisher_alone(2) [OF assms, of "Confirming sc g t"]
  by (auto simp: authorized_ok_def)

text \<open>A waiting release has someone to wait for, who wakes it.\<close>

lemma stop_is_woken:
  assumes "authorized_reachable p s" and "sy_presses s < 2 ^ 64"
    and "Awaiting g r k \<in> set (sy_threads s)" and "\<not> stop_may_wake g (sy_client s)"
  shows "\<exists>t. publishers (sy_threads s) = [t] \<and>
     (\<forall>s'. authorized_step p s s' \<and> publishers (sy_threads s') = [] \<longrightarrow>
        stop_may_wake g (sy_client s'))"
proof -
  note ok = authorized_reachable_ok [OF assms(1)]
  have stopping: "av_publication_state (sy_client s) = Pub_stopping"
    using ok assms(2-4)
    by (auto simp: authorized_ok_def stop_may_wake_def list_all_iff unat_of_nat_u64
        dest!: bspec [of _ _ "Awaiting g r k"])
  then obtain t where t: "publishers (sy_threads s) = [t]"
    using ok publishers_ok_state [of "sy_client s" "sy_threads s"]
    by (auto simp: authorized_ok_def at_rest_def)
  moreover have "stop_may_wake g (sy_client s')"
    if "authorized_step p s s'" "publishers (sy_threads s') = []" for s'
  proof -
    have "av_publication_state (sy_client s') \<in> {Pub_idle, Pub_active}"
      using authorized_ok_step [OF that(1) ok] that(2) by (auto simp: authorized_ok_def at_rest_def)
    moreover have "av_publication_state (sy_client s') = Pub_active \<longrightarrow>
        av_publication_state (sy_client s) \<in> {Pub_starting, Pub_active}"
      by (rule active_only_from_starting [OF that(1)])
    ultimately show ?thesis using stopping by (auto simp: stop_may_wake_def)
  qed
  ultimately show ?thesis by blast
qed

text \<open>The membership moves forward, and only while nothing is published.\<close>

lemma membership_moves_forward:
  assumes "authorized_reachable p s" and "authorized_step p s s'"
    and "av_membership (sy_client s) = Some m" and "av_membership (sy_client s') \<noteq> Some m"
  shows "av_publication_state (sy_client s') = Pub_idle \<and>
     av_active_transmission (sy_client s') = None \<and> publishers (sy_threads s') = [] \<and>
     (case av_membership (sy_client s') of
        None \<Rightarrow> \<not> av_push_to_talk_enabled (sy_client s')
      | Some m' \<Rightarrow> mv_version m < mv_version m')"
proof -
  obtain t where t: "t \<in> set (sy_threads s)" "(\<exists>k. t = Leaving k) \<or> (\<exists>m' grants. t = Joining m' grants)"
    and c': "sy_client s' = forget_membership (sy_client s) \<or>
      (\<exists>m' grants. t = Joining m' grants \<and> sy_client s' = install_membership m' (sy_client s))"
    using membership_changers [OF assms(2-4)] by blast
  have known: "av_publication_state (sy_client s) = Pub_idle"
      "av_active_transmission (sy_client s) = None" "\<not> av_push_to_talk_enabled (sy_client s)"
      "\<And>m' grants. t = Joining m' grants \<Longrightarrow> mv_version m < mv_version m'"
    using control_known [OF assms(1) t(1)] t(2) assms(3) by auto
  have idle: "av_publication_state (sy_client s') = Pub_idle"
    using c' known(1) by (auto simp: forget_membership_def install_membership_def)
  then have "publishers (sy_threads s') = []"
    using authorized_ok_step [OF assms(2) authorized_reachable_ok [OF assms(1)]]
      at_rest_iff [of "sy_client s'" "sy_threads s'"] by (auto simp: authorized_ok_def)
  then show ?thesis
    using c' known idle by (auto simp: forget_membership_def install_membership_def)
qed

end

end
