(* ===== verification/Authorized_Session.thy ===== *)
theory Authorized_Session
  imports Authorized_Publication Remote_Examples
begin

text \<open>
  The coordinated voice client on the control-plane client of \<open>Control_Plane_Client\<close>: what holds of
  every interleaving of its calls, and what becomes of it when the server ends its transmission. The
  voice client is a parameter; it may answer anything.
\<close>

section \<open>The collaborators\<close>

record 'v VoicePorts =
  vp_state :: "'v \<Rightarrow> VoiceTransportState"
  vp_connect :: "VoiceRoomGrant list \<Rightarrow> 'v \<Rightarrow> VoiceTransportResult \<times> 'v"
  vp_disconnect :: "'v \<Rightarrow> VoiceTransportResult \<times> 'v"
  vp_press :: "VoiceScope \<Rightarrow> 'v \<Rightarrow> VoiceTransportResult \<times> 'v"
  vp_release :: "'v \<Rightarrow> VoiceTransportResult \<times> 'v"

text \<open>An operation of the control-plane client, or of the voice client, on the pair of both.\<close>

definition on_control :: "('k \<Rightarrow> 'r \<times> 'k) \<Rightarrow> 'k \<times> 'v \<Rightarrow> 'r \<times> 'k \<times> 'v" where
  "on_control f = (\<lambda>(k, v). let (r, k') = f k in (r, k', v))"

definition on_voice :: "('v \<Rightarrow> 'r \<times> 'v) \<Rightarrow> 'k \<times> 'v \<Rightarrow> 'r \<times> 'k \<times> 'v" where
  "on_voice f = (\<lambda>(k, v). let (r, v') = f v in (r, k, v'))"

definition coordinated_ports ::
  "('t, 'g) ClientPorts \<Rightarrow> 'v VoicePorts \<Rightarrow> (('t, 'g) ControlPlaneClient \<times> 'v) AuthorizedPorts" where
  "coordinated_ports cp vp =
     \<lparr>ap_createSession = (\<lambda>credential. on_control (client_createSession cp credential)),
      ap_membership = on_control (client_membership cp),
      ap_voiceGrants = on_control (client_voiceGrants cp),
      ap_startTransmission = (\<lambda>sc version. on_control (client_startTransmission cp sc version)),
      ap_endTransmission = (\<lambda>tid. on_control (client_endTransmission cp tid)),
      ap_clearSession = (\<lambda>(k, v). (clearSession k, v)),
      ap_voice_state = (\<lambda>(k, v). vp_state vp v),
      ap_voice_connect = (\<lambda>grants. on_voice (vp_connect vp grants)),
      ap_voice_disconnect = on_voice (vp_disconnect vp),
      ap_voice_press = (\<lambda>sc. on_voice (vp_press vp sc)),
      ap_voice_release = on_voice (vp_release vp)\<rparr>"

lemma decode_started_as_asked:
  assumes "decode_started client_id sc v root = Inr t"
  shows "sd_scope t = sc \<and> sd_membership_version t = v"
  using assms by (auto simp: decode_started_def split: option.splits if_splits sum.splits)

lemma start_as_asked:
  assumes "fst (client_startTransmission cp sc v k) = Inr (Inr t)"
  shows "sd_scope t = sc \<and> sd_membership_version t = v"
proof -
  obtain client_id root where "decode_started client_id sc v root = Inr t"
    using assms
    by (auto simp: client_startTransmission_def session_call_def Let_def case_prod_beta
        throws_bind_Inr_iff split: if_splits sum.splits)
  then show ?thesis by (rule decode_started_as_asked)
qed

interpretation coordinated: authorizing_control_plane "coordinated_ports cp vp" for cp vp
proof unfold_locales
  fix sc v w t
  assume "fst (ap_startTransmission (coordinated_ports cp vp) sc v w) = Inr (Inr t)"
  then show "sd_scope t = sc \<and> sd_membership_version t = v"
    using start_as_asked [of cp sc v "fst w" t]
    by (auto simp: coordinated_ports_def on_control_def case_prod_beta)
qed

section \<open>A transmission the server has ended\<close>

text \<open>
  A set of states of the collaborators in which ending transmission \<open>t\<close> is refused, and which the
  calls of the client do not leave.
\<close>

locale lost_transmission =
  fixes p :: "'w AuthorizedPorts" and t :: StartedTransmission and lost :: "'w \<Rightarrow> bool"
  assumes end_refused:
      "lost w \<Longrightarrow> \<exists>e w'. ap_endTransmission p (sd_transmission_id t) w = (Inl e, w') \<and> lost w'"
    and release_keeps: "lost w \<Longrightarrow> lost (snd (ap_voice_release p w))"
    and membership_keeps: "lost w \<Longrightarrow> lost (snd (ap_membership p w))"
    and grants_keep: "lost w \<Longrightarrow> lost (snd (ap_voiceGrants p w))"
begin

lemma press_refused:
  assumes "av_active_transmission c = Some t"
  shows "\<exists>r. authorized_press p sc (c, w) = (Inr r, c, w) \<and> \<not> vs_successful r"
  using assms
  by (auto simp: authorized_press_def start_admitted_def session_refusal_def session_failure_def
      split: option.splits)

lemma interrupted_fails:
  assumes "av_active_transmission c = Some t" and "lost w"
  shows "\<exists>r w'. endInterruptedTransmission p (c, w) = (r, c, w') \<and> \<not> vs_successful r \<and> lost w'"
  using end_refused [OF assms(2)] assms(1)
  by (auto simp: endInterruptedTransmission_def controlPlaneFailure_def session_failure_def)

lemma release_fails:
  assumes "av_active_transmission c = Some t" and "lost w"
    and "av_publication_state c \<in> {Pub_idle, Pub_active}"
  shows "\<exists>r c' w'. authorized_release p (c, w) = (Some r, c', w') \<and> \<not> vs_successful r \<and>
     av_active_transmission c' = Some t \<and> av_publication_state c' = Pub_idle \<and>
     av_membership c' = av_membership c \<and> lost w'"
proof (cases "av_publication_state c = Pub_idle")
  case True
  with assms show ?thesis
    by (auto simp: authorized_release_def stop_begin_def session_refusal_def session_failure_def Let_def)
next
  case False
  then have active: "av_publication_state c = Pub_active" using assms(3) by simp
  obtain stopped w1 where stop: "ap_voice_release p w = (stopped, w1)" by fastforce
  then have "lost w1" using release_keeps [OF assms(2)] by simp
  then obtain e w2 where "ap_endTransmission p (sd_transmission_id t) w1 = (Inl e, w2)" "lost w2"
    using end_refused by blast
  with active stop assms(1) show ?thesis
    by (auto simp: authorized_release_def stop_begin_def stop_settled_def stop_result_def
        controlPlaneFailure_def session_failure_def Let_def)
qed

lemma leaving_fails:
  assumes "av_active_transmission c = Some t" and "lost w"
    and "av_publication_state c \<in> {Pub_idle, Pub_active}"
  shows "\<exists>r c' w'. leave_rooms p (c, w) = (Some (Some r), c', w') \<and> \<not> vs_successful r \<and>
     av_active_transmission c' = Some t \<and> av_publication_state c' = Pub_idle \<and>
     av_membership c' = av_membership c \<and> lost w'"
proof -
  let ?c = "c\<lparr>av_push_to_talk_enabled := False\<rparr>"
  obtain r c' w' where "authorized_release p (?c, w) = (Some r, c', w')" "\<not> vs_successful r"
      "av_active_transmission c' = Some t" "av_publication_state c' = Pub_idle"
      "av_membership c' = av_membership c" "lost w'"
    using release_fails [of ?c w] assms by auto
  moreover obtain r1 w1 where "endInterruptedTransmission p (?c, w) = (r1, ?c, w1)"
      "\<not> vs_successful r1" "lost w1"
    using interrupted_fails [of ?c w] assms by auto
  ultimately show ?thesis
    using assms by (auto simp: leave_rooms_def quiesce_def session_success_def)
qed

lemma disconnect_fails:
  assumes "av_active_transmission c = Some t" and "lost w"
    and "av_publication_state c \<in> {Pub_idle, Pub_active}"
  shows "\<exists>r c' w'. authorized_disconnect p (c, w) = (Some r, c', w') \<and> \<not> vs_successful r \<and>
     av_active_transmission c' = Some t \<and> av_publication_state c' = Pub_idle \<and>
     av_membership c' = av_membership c \<and> lost w'"
  using leaving_fails [OF assms] by (auto simp: authorized_disconnect_def)

text \<open>A refresh fails, unless the membership is the one the client has and nothing is done.\<close>

lemma refresh_fails:
  assumes "av_active_transmission c = Some t" and "lost w"
    and "av_publication_state c \<in> {Pub_idle, Pub_active}"
  shows "\<exists>r c' w'. refreshAuthorization p (c, w) = (Some r, c', w') \<and>
     (vs_successful r \<longrightarrow> c' = c) \<and>
     av_active_transmission c' = Some t \<and> av_publication_state c' \<in> {Pub_idle, Pub_active} \<and>
     av_membership c' = av_membership c \<and> lost w'"
proof (cases "known_membership_version (ap_voice_state p w) c")
  case (Inl r)
  then show ?thesis using assms by (auto simp: refreshAuthorization_def)
next
  case (Inr v)
  obtain fetched w1 where fetch: "fetch_authorization p v w = (fetched, w1)" by fastforce
  have "lost w1"
    using fetch membership_keeps [OF assms(2)] grants_keep
    by (auto simp: fetch_authorization_def Let_def case_prod_beta split: sum.splits if_splits)
  then obtain r c' w' where "leave_rooms p (c, w1) = (Some (Some r), c', w')" "\<not> vs_successful r"
      "av_active_transmission c' = Some t" "av_publication_state c' = Pub_idle"
      "av_membership c' = av_membership c" "lost w'"
    using leaving_fails [OF assms(1) _ assms(3)] by blast
  then show ?thesis
    using Inr fetch assms \<open>lost w1\<close>
    by (cases fetched) (auto simp: refreshAuthorization_def)
qed

end

text \<open>The server refuses to end a transmission that is not active.\<close>

definition ended_on_server ::
  "('m, 'h, 'i) HttpAdapter \<Rightarrow> time_point \<Rightarrow> AuthenticatedSession \<Rightarrow> StartedTransmission \<Rightarrow>
   (('m, 'h, 'i) HttpState, 'g) ControlPlaneClient \<times> 'v \<Rightarrow> bool" where
  "ended_on_server a now x t = (\<lambda>(k, v).
     logged_in_at a now x k \<and> active (hs_store (cc_transport k)) (sd_transmission_id t) = None)"

lemma recordEndRejected_fields [simp]:
  "sto_active (recordEndRejected cmd now err sender s) = sto_active s"
  "sto_sessions (recordEndRejected cmd now err sender s) = sto_sessions s"
  "sto_persistent_sessions (recordEndRejected cmd now err sender s) = sto_persistent_sessions s"
  by (simp_all add: recordEndRejected_def record_event_def)

lemma absent_transmission_not_ended:
  assumes "active (sv_store v) (en_transmission_id cmd) = None"
    and "end_service cmd now v = (result, v')"
  shows "\<exists>e. result = Inl e" and "sto_active (sv_store v') = sto_active (sv_store v)"
    and "sto_sessions (sv_store v') = sto_sessions (sv_store v)"
    and "sto_persistent_sessions (sv_store v') = sto_persistent_sessions (sv_store v)"
  using assms
  by (auto simp: end_service_def end_transmission_def active_def reject_end_def Let_def
      case_prod_beta split: option.splits if_splits)

lemma program_port_find:
  assumes "program_port port" and "sto_sessions s' = sto_sessions s"
    and "sto_persistent_sessions s' = sto_persistent_sessions s"
  shows "sp_find port s' = sp_find port s"
  using assms
  by (auto simp: program_port_def store_sessions_def persistent_sessions_def fun_eq_iff
      currentSessionLocked_def split: option.split)

lemma absent_transmission_refused:
  assumes "ended_on_server a now x t (k, v)" and "program_port (ha_sessions a)"
    and "\<And>g. valid (fst (next_correlation g))" and "valid (sd_transmission_id t)"
    and "CHR ''/'' \<notin> set (id_value (sd_transmission_id t))"
  shows "\<exists>e k'. client_endTransmission (wire a now next_correlation next_transmission)
      (sd_transmission_id t) k = (Inl e, k') \<and> ended_on_server a now x t (k', v')"
proof -
  let ?tid = "sd_transmission_id t"
  have logged: "logged_in_at a now x k" and absent: "active (hs_store (cc_transport k)) ?tid = None"
    using assms(1) by (simp_all add: ended_on_server_def)
  obtain correlation g where id: "next_correlation (cc_identifiers k) = (correlation, g)" by fastforce
  then have "valid correlation" using assms(3) [of "cc_identifiers k"] by simp
  obtain result service where run: "end_service (remote_end_command x correlation ?tid) now
      (hs_service (cc_transport k)) = (result, service)" by fastforce
  note kept = absent_transmission_not_ended [OF _ run]
  have cmd: "active (hs_store (cc_transport k))
      (en_transmission_id (remote_end_command x correlation ?tid)) = None"
    using absent by (simp add: remote_end_command_def)
  obtain e where "result = Inl e" using kept(1) [OF cmd] by blast
  then have "client_endTransmission (wire a now next_correlation next_transmission) ?tid k =
      (Inl (server_error (endErrorStatus e) (endErrorCode e)
         ''The transmission could not be ended.''),
       k\<lparr>cc_identifiers := g, cc_transport := (cc_transport k)\<lparr>hs_service := service\<rparr>\<rparr>)"
    using remote_end_is_end [where next_correlation = next_correlation, OF logged id
        \<open>valid correlation\<close> assms(4,5) run] by simp
  moreover have "sp_find (ha_sessions a) (sv_store service) =
      sp_find (ha_sessions a) (hs_store (cc_transport k))"
    by (rule program_port_find [OF assms(2) kept(3,4) [OF cmd]])
  ultimately show ?thesis
    using logged absent kept(2) [OF cmd] by (simp add: ended_on_server_def logged_in_at_def active_def)
qed

text \<open>The queries of a refresh leave the server as it is.\<close>

lemma query_keeps_server:
  assumes "hq_target q = ''/api/v1/membership'' \<and> hq_method q = ''GET'' \<or>
    hq_target q = ''/api/v1/voice-grants'' \<and> hq_method q = ''POST''"
  shows "snd (handle a q now s) = s"
proof -
  have "dispatch a q now s = Inr (response, s') \<Longrightarrow> s' = s" for response s'
    using assms
    by (auto simp: dispatch_def handle_session_def handle_voice_grants_def answer_def Let_def
        membership_admin_prefix_def starts_with_def throws_bind_def
        split: sum.splits if_splits option.splits)
  then show ?thesis
    by (cases "dispatch a q now s") (auto simp: handle_def split: cpp_error.splits)
qed

lemma session_call_keeps_server:
  assumes "logged_in_at a now x k"
    and "verb = ''GET'' \<and> target = ''/api/v1/membership'' \<or>
      verb = ''POST'' \<and> target = ''/api/v1/voice-grants''"
  shows "logged_in_at a now x (snd (session_call (wire a now next_correlation next_transmission)
        verb target [] [] decode k)) \<and>
      cc_transport (snd (session_call (wire a now next_correlation next_transmission)
        verb target [] [] decode k)) = cc_transport k"
proof -
  obtain session where "cc_session k = Some session" using assms(1) by (auto simp: logged_in_at_def)
  moreover have "snd (wire_send a now q (cc_transport k)) = cc_transport k"
    if "cq_method q = verb" "cq_target q = target" for q
    using that assms(2) query_keeps_server [of "server_request q" a now "cc_transport k"]
    by (auto simp: wire_send_def server_request_def case_prod_beta)
  ultimately show ?thesis
    using assms(1)
    by (simp add: session_call_def sendSessionRequest_def wire_def case_prod_beta logged_in_at_def)
qed

definition lost_on_server ::
  "('m, 'h, 'i) HttpAdapter \<Rightarrow> time_point \<Rightarrow> ('g \<Rightarrow> CorrelationId \<times> 'g) \<Rightarrow> AuthenticatedSession \<Rightarrow>
   StartedTransmission \<Rightarrow> (('m, 'h, 'i) HttpState, 'g) ControlPlaneClient \<times> 'v \<Rightarrow> bool" where
  "lost_on_server a now next_correlation x t w \<longleftrightarrow>
     program_port (ha_sessions a) \<and> (\<forall>g. valid (fst (next_correlation g))) \<and>
     valid (sd_transmission_id t) \<and> CHR ''/'' \<notin> set (id_value (sd_transmission_id t)) \<and>
     ended_on_server a now x t w"

interpretation server_ended: lost_transmission
  "coordinated_ports (wire a now next_correlation next_transmission) vp" t
  "lost_on_server a now next_correlation x t"
  for a now next_correlation next_transmission vp x t
proof (unfold_locales, goal_cases)
  case (1 w)
  obtain k v where w: "w = (k, v)" by fastforce
  obtain e k' where "client_endTransmission (wire a now next_correlation next_transmission)
      (sd_transmission_id t) k = (Inl e, k')" "ended_on_server a now x t (k', v)"
    using 1 absent_transmission_refused [of a now x t k v next_correlation next_transmission v]
    by (auto simp: lost_on_server_def w)
  then show ?case
    using 1 by (auto simp: coordinated_ports_def on_control_def lost_on_server_def w)
next
  case (2 w)
  then show ?case
    by (auto simp: coordinated_ports_def on_voice_def lost_on_server_def ended_on_server_def
        case_prod_beta)
next
  case (3 w)
  then show ?case
    using session_call_keeps_server [of a now x "fst w" "''GET''" "''/api/v1/membership''"]
    by (auto simp: coordinated_ports_def on_control_def lost_on_server_def ended_on_server_def
        client_membership_def case_prod_beta split: option.split)
next
  case (4 w)
  then show ?case
    using session_call_keeps_server [of a now x "fst w" "''POST''" "''/api/v1/voice-grants''"]
    by (auto simp: coordinated_ports_def on_control_def lost_on_server_def ended_on_server_def
        client_voiceGrants_def case_prod_beta)
qed

text \<open>The client holds a transmission its server has ended.\<close>

definition stuck_with ::
  "('m, 'h, 'i) HttpAdapter \<Rightarrow> time_point \<Rightarrow> ('g \<Rightarrow> CorrelationId \<times> 'g) \<Rightarrow> AuthenticatedSession \<Rightarrow>
   StartedTransmission \<Rightarrow>
   AuthorizedVoiceClient \<times> (('m, 'h, 'i) HttpState, 'g) ControlPlaneClient \<times> 'v \<Rightarrow> bool" where
  "stuck_with a now next_correlation x t = (\<lambda>(c, w).
     av_active_transmission c = Some t \<and> av_publication_state c \<in> {Pub_idle, Pub_active} \<and>
     lost_on_server a now next_correlation x t w)"

section \<open>Properties\<close>

text \<open>
  C16: what the microphone publishes has been authorized, and is still meant to be. In every
  interleaving of presses, releases, refreshes and disconnects, whatever the server, the network
  and the voice client answer, at most one call owns the publication; while the voice client is
  asked to publish, or has published, the client's active transmission is the one the server
  authorized for the very scope of the press under the membership version the client holds; and
  then no call is ending that transmission at the server or leaving its rooms.
\<close>

theorem publication_is_authorized:
  assumes "authorized_reachable (coordinated_ports cp vp) s"
  shows "length (publishers (sy_threads s)) \<le> 1 \<and>
    (\<forall>sc g t. Publishing sc g t \<in> set (sy_threads s) \<or> Confirming sc g t \<in> set (sy_threads s) \<longrightarrow>
       av_active_transmission (sy_client s) = Some t \<and> authorized_for (sy_client s) sc t) \<and>
    (av_publication_state (sy_client s) = Pub_active \<longrightarrow> publishers (sy_threads s) = [] \<and>
       (\<exists>t. av_active_transmission (sy_client s) = Some t \<and>
          authorized_for (sy_client s) (sd_scope t) t)) \<and>
    (av_publication_state (sy_client s) = Pub_active \<or> (\<exists>u \<in> set (sy_threads s). on_air u) \<longrightarrow>
       (\<forall>u \<in> set (sy_threads s). \<not> gives_up u))"
  using coordinated.publication_authorized [OF assms] coordinated.active_alone [OF assms]
    coordinated.nothing_is_ended [OF assms] by blast

text \<open>
  A waiting release waits for one other call. While fewer than 2 ^ 64 presses were accepted, a
  release that waits for the publication to settle, and whose predicate does not hold yet, waits for
  exactly one other call, which owns the publication; in whatever step that call gives it up, the
  predicate becomes true. The notification of the condition variable is not part of this model.
\<close>

theorem authorized_release_is_woken:
  assumes "authorized_reachable (coordinated_ports cp vp) s" and "sy_presses s < 2 ^ 64"
    and "Awaiting g r k \<in> set (sy_threads s)" and "\<not> stop_may_wake g (sy_client s)"
  shows "\<exists>t. publishers (sy_threads s) = [t] \<and>
     (\<forall>s'. authorized_step (coordinated_ports cp vp) s s' \<and> publishers (sy_threads s') = [] \<longrightarrow>
        stop_may_wake g (sy_client s'))"
  by (rule coordinated.stop_is_woken [OF assms])

text \<open>
  The membership of a client moves forward, and only in silence. A step that changes the
  membership a client holds finds nothing published and no transmission active; it installs a
  membership of a greater version, or forgets the membership and leaves push-to-talk disabled.
\<close>

theorem membership_changes_in_silence:
  assumes "authorized_reachable (coordinated_ports cp vp) s"
    and "authorized_step (coordinated_ports cp vp) s s'"
    and "av_membership (sy_client s) = Some m" and "av_membership (sy_client s') \<noteq> Some m"
  shows "av_publication_state (sy_client s') = Pub_idle \<and>
     av_active_transmission (sy_client s') = None \<and> publishers (sy_threads s') = [] \<and>
     (case av_membership (sy_client s') of
        None \<Rightarrow> \<not> av_push_to_talk_enabled (sy_client s')
      | Some m' \<Rightarrow> mv_version m < mv_version m')"
  by (rule coordinated.membership_moves_forward [OF assms])

text \<open>
  C17: a transmission the server has ended cannot be left. When the server has ended the client's
  active transmission on its own (it timed out, was moderated, or the membership changed), every
  attempt to end it is refused, and the client keeps it: a press is refused, a release, a
  disconnect and a refresh to a newer membership fail, the membership never changes, and the
  client is left in the same position after each of them.
\<close>

theorem ended_transmission_wedges_client:
  assumes "stuck_with a now next_correlation x t (c, w)"
    and "p = coordinated_ports (wire a now next_correlation next_transmission) vp"
  shows "(\<exists>r. authorized_press p sc (c, w) = (Inr r, c, w) \<and> \<not> vs_successful r) \<and>
    (\<forall>call \<in> {authorized_release p, authorized_disconnect p}.
       \<exists>r c' w'. call (c, w) = (Some r, c', w') \<and> \<not> vs_successful r \<and>
         av_membership c' = av_membership c \<and> stuck_with a now next_correlation x t (c', w')) \<and>
    (\<exists>r c' w'. refreshAuthorization p (c, w) = (Some r, c', w') \<and> (vs_successful r \<longrightarrow> c' = c) \<and>
       av_membership c' = av_membership c \<and> stuck_with a now next_correlation x t (c', w'))"
proof -
  have c: "av_active_transmission c = Some t" "lost_on_server a now next_correlation x t w"
      "av_publication_state c \<in> {Pub_idle, Pub_active}"
    using assms(1) by (simp_all add: stuck_with_def)
  show ?thesis
    unfolding assms(2) stuck_with_def
    using server_ended.press_refused [OF c(1)] server_ended.release_fails [OF c]
      server_ended.disconnect_fails [OF c] server_ended.refresh_fails [OF c]
    by blast
qed

end
