(* ===== verification/Authorized_Examples.thy ===== *)
theory Authorized_Examples
  imports Authorized_Session
begin

text \<open>
  Runs of the coordinated voice client: a press that a release overtakes, a refresh to a newer
  membership, and a transmission the server lets time out. The server of the first two answers each
  request with the document of its route; its state is the membership version.
\<close>

section \<open>A server of fixed answers\<close>

definition session_answer :: "(string \<times> document) list" where
  "session_answer =
     [(''session_id'', D_string ''s''), (''player_id'', D_string ''p''),
      (''device_id'', D_string ''d''), (''expires_at_unix_ms'', D_number 9)]"

definition membership_answer :: "nat \<Rightarrow> (string \<times> document) list" where
  "membership_answer version =
     [(''membership_version'', D_number version), (''hierarchy_id'', D_string ''h''),
      (''player_id'', D_string ''p''), (''group_id'', D_string ''g''),
      (''specialization_id'', D_string ''sp''), (''team_id'', D_string ''t''),
      (''role_ids'', D_array []), (''connected'', D_boolean True),
      (''can_receive_voice'', D_boolean True), (''transmit_muted'', D_boolean False)]"

definition grants_answer :: "nat \<Rightarrow> (string \<times> document) list" where
  "grants_answer version =
     [(''server_url'', D_string ''u''), (''membership_version'', D_number version),
      (''expires_at_unix_ms'', D_number 9),
      (''grants'', D_array [D_object [(''scope'', D_string ''team''),
                                      (''access_token'', D_string ''a'')]])]"

definition started_answer :: "nat \<Rightarrow> (string \<times> document) list" where
  "started_answer version =
     [(''transmission_id'', D_string ''x''), (''client_transmission_id'', D_string ''c1''),
      (''scope'', D_string ''team''), (''membership_version'', D_number version),
      (''recipient_count'', D_number 0)]"

definition ended_answer :: "(string \<times> document) list" where
  "ended_answer =
     [(''transmission_id'', D_string ''x''), (''status'', D_string ''ended''),
      (''stop_reason'', D_string ''push_to_talk_released'')]"

definition fixed_answer :: "string \<Rightarrow> nat \<Rightarrow> (string \<times> document) list" where
  "fixed_answer target version =
     (if target = ''/api/v1/sessions'' then session_answer
      else if target = ''/api/v1/membership'' then membership_answer version
      else if target = ''/api/v1/voice-grants'' then grants_answer version
      else if target = ''/api/v1/transmissions'' then started_answer version
      else ended_answer)"

definition fixed_answers ::
  "ClientHttpRequest \<Rightarrow> nat \<Rightarrow> (string + ClientHttpResponse) \<times> nat" where
  "fixed_answers q version =
     (Inr (received (jsonResponse 200
        (document_text (versioned (fixed_answer (cq_target q) version))))), version)"

definition fixed_client :: "(nat, nat) ClientPorts" where
  "fixed_client =
     \<lparr>cp_send = fixed_answers, cp_nextCorrelationId = sample_correlation,
      cp_nextTransmissionId = sample_client_id\<rparr>"

text \<open>A voice client that does what it is told.\<close>

definition obedient_voice :: "VoiceTransportState VoicePorts" where
  "obedient_voice =
     \<lparr>vp_state = (\<lambda>v. v), vp_connect = (\<lambda>grants v. (vr_success, Transport_connected)),
      vp_disconnect = (\<lambda>v. (vr_success, Transport_disconnected)),
      vp_press = (\<lambda>sc v. (vr_success, v)), vp_release = (\<lambda>v. (vr_success, v))\<rparr>"

abbreviation fixed_ports ::
  "((nat, nat) ControlPlaneClient \<times> VoiceTransportState) AuthorizedPorts" where
  "fixed_ports \<equiv> coordinated_ports fixed_client obedient_voice"

definition fixed_session :: ControlPlaneSession where
  "fixed_session =
     \<lparr>cs_session_id = StrongId ''s'', cs_player_id = StrongId ''p'', cs_device_id = StrongId ''d'',
      cs_expires_at = 9000000\<rparr>"

definition fixed_cpc ::
  "nat \<Rightarrow> nat \<Rightarrow> ControlPlaneSession option \<Rightarrow> (nat, nat) ControlPlaneClient" where
  "fixed_cpc version n session =
     \<lparr>cc_transport = version, cc_identifiers = n, cc_device_id = StrongId ''d'',
      cc_session = session\<rparr>"

definition fixed_membership :: "u64 \<Rightarrow> MembershipView" where
  "fixed_membership version =
     \<lparr>mv_version = version, mv_hierarchy_id = StrongId ''h'', mv_player_id = StrongId ''p'',
      mv_group_id = StrongId ''g'', mv_specialization_id = StrongId ''sp'',
      mv_team_id = StrongId ''t'', mv_role_ids = [], mv_connected = True,
      mv_can_receive_voice = True, mv_transmit_muted = False\<rparr>"

definition fixed_grants :: "u64 \<Rightarrow> VoiceGrantSet" where
  "fixed_grants version =
     \<lparr>gs_membership_version = version, gs_expires_at = 9000000,
      gs_room_grants = [\<lparr>vg_scope = Team_scope, vg_url = ''u'', vg_token = ''a''\<rparr>]\<rparr>"

definition fixed_started :: "u64 \<Rightarrow> StartedTransmission" where
  "fixed_started version =
     \<lparr>sd_transmission_id = StrongId ''x'', sd_client_transmission_id = StrongId ''c1'',
      sd_scope = Team_scope, sd_membership_version = version, sd_recipient_count = 0\<rparr>"

lemmas fixed_answer_defs = versioned_def session_answer_def membership_answer_def
  grants_answer_def started_answer_def ended_answer_def

lemma answers_decoded:
  "decode_session (StrongId ''d'') (document_value (versioned session_answer)) = Inr fixed_session"
  "decode_membership (StrongId ''p'') (document_value (versioned (membership_answer 3))) =
     Inr (fixed_membership 3)"
  "decode_membership (StrongId ''p'') (document_value (versioned (membership_answer 4))) =
     Inr (fixed_membership 4)"
  "decode_voice_grants (document_value (versioned (grants_answer 3))) = Inr (fixed_grants 3)"
  "decode_voice_grants (document_value (versioned (grants_answer 4))) = Inr (fixed_grants 4)"
  "decode_started (StrongId ''c1'') Team_scope 3 (document_value (versioned (started_answer 3))) =
     Inr (fixed_started 3)"
  "decode_ended (StrongId ''x'') (document_value (versioned ended_answer)) =
     Inr \<lparr>ed_transmission_id = StrongId ''x'', ed_stop_reason = ''push_to_talk_released''\<rparr>"
  by (simp_all add: fixed_answer_defs decode_session_def decode_membership_def
      decode_voice_grants_def decode_started_def decode_ended_def decode_member_ids_def
      field_at_defs json_field_def timePoint_def StrongId_ctor_def client_parseScope_def
      std_emplace_def
      fixed_session_def fixed_membership_def fixed_grants_def fixed_started_def)

lemma answers_ok:
  "document_ok (versioned session_answer)" "document_ok (versioned ended_answer)"
  "document_ok (versioned (membership_answer 3))" "document_ok (versioned (membership_answer 4))"
  "document_ok (versioned (grants_answer 3))" "document_ok (versioned (grants_answer 4))"
  "document_ok (versioned (started_answer 3))"
  by (simp_all add: fixed_answer_defs)

lemma fixed_cpc_fields [simp]:
  "cc_session (fixed_cpc version n x) = x" "cc_transport (fixed_cpc version n x) = version"
  "cc_identifiers (fixed_cpc version n x) = n" "cc_device_id (fixed_cpc version n x) = StrongId ''d''"
  "(fixed_cpc version n x)\<lparr>cc_identifiers := m\<rparr> = fixed_cpc version m x"
  "cs_player_id fixed_session = StrongId ''p''"
  by (simp_all add: fixed_cpc_def fixed_session_def)

lemma fixed_session_call:
  "session_call fixed_client verb target body [] decode (fixed_cpc version n (Some session)) =
     (decode (received (jsonResponse 200
        (document_text (versioned (fixed_answer target version))))),
      fixed_cpc version (Suc n) (Some session))"
  by (simp add: session_call_def sendSessionRequest_def fixed_client_def fixed_answers_def
      sample_correlation_def fixed_cpc_def)

lemma fixed_decoded:
  assumes "document_ok (versioned (fixed_answer target version))"
  shows "throws_bind (responseRoot (received (jsonResponse 200
      (document_text (versioned (fixed_answer target version)))))) decode =
    decode (document_value (versioned (fixed_answer target version)))"
  using root_of_success [OF assms, of 200] by simp

lemma fixed_login:
  "client_createSession fixed_client ''secret'' (fixed_cpc version n None) =
     (Inr fixed_session, fixed_cpc version (Suc n) (Some fixed_session))"
  by (simp add: client_createSession_def fixed_client_def fixed_answers_def sample_correlation_def
      fixed_answer_def root_of_success answers_ok answers_decoded fixed_cpc_def)

lemma fixed_calls:
  "client_membership fixed_client (fixed_cpc 3 n (Some fixed_session)) =
     (Inr (fixed_membership 3), fixed_cpc 3 (Suc n) (Some fixed_session))"
  "client_membership fixed_client (fixed_cpc 4 n (Some fixed_session)) =
     (Inr (fixed_membership 4), fixed_cpc 4 (Suc n) (Some fixed_session))"
  "client_voiceGrants fixed_client (fixed_cpc 3 n (Some fixed_session)) =
     (Inr (fixed_grants 3), fixed_cpc 3 (Suc n) (Some fixed_session))"
  "client_voiceGrants fixed_client (fixed_cpc 4 n (Some fixed_session)) =
     (Inr (fixed_grants 4), fixed_cpc 4 (Suc n) (Some fixed_session))"
  "client_endTransmission fixed_client (StrongId ''x'') (fixed_cpc 3 n (Some fixed_session)) =
     (Inr \<lparr>ed_transmission_id = StrongId ''x'', ed_stop_reason = ''push_to_talk_released''\<rparr>,
      fixed_cpc 3 (Suc n) (Some fixed_session))"
  by (simp_all add: client_membership_def client_voiceGrants_def client_endTransmission_def
      fixed_session_call fixed_decoded answers_ok answers_decoded
      fixed_answer_def [of "''/api/v1/membership''"]
      fixed_answer_def [of "''/api/v1/voice-grants''"]
      fixed_answer_def [of "''/api/v1/transmissions/x''"] root_of_success)

lemma fixed_start:
  "fst (client_startTransmission fixed_client Team_scope 3 (fixed_cpc 3 n (Some fixed_session))) =
     Inr (Inr (fixed_started 3))"
proof -
  obtain body where "start_body (StrongId ''c1'') Team_scope 3 = Inr body"
    using start_body_fields [of "StrongId ''c1''" Team_scope 3] by (simp add: plain_char_def)
  then show ?thesis
    by (simp add: client_startTransmission_def fixed_client_def sample_client_id_def Let_def
        fixed_session_call [unfolded fixed_client_def] fixed_answer_def [of "''/api/v1/transmissions''"]
        root_of_success answers_ok answers_decoded)
qed

section \<open>A release overtakes a press\<close>

definition run_client :: "MicrophonePublicationState \<Rightarrow> bool \<Rightarrow> StartedTransmission option \<Rightarrow> AuthorizedVoiceClient" where
  "run_client state starting transmission =
     \<lparr>av_membership = Some (fixed_membership 3), av_active_transmission = transmission,
      av_push_to_talk_enabled = True, av_publication_state = state,
      av_publication_generation = 1, av_voice_start_in_progress = starting,
      av_last_release_result = session_success None\<rparr>"

definition run_system :: "AuthorizedVoiceClient \<Rightarrow> authorized_thread list \<Rightarrow> AuthorizedSystem" where
  "run_system c ts = \<lparr>sy_client = c, sy_threads = ts, sy_presses = 1\<rparr>"

definition run_connected :: AuthorizedSystem where
  "run_connected =
     \<lparr>sy_client = AuthorizedVoiceClient_ctor
        \<lparr>av_membership := Some (fixed_membership 3), av_push_to_talk_enabled := True\<rparr>,
      sy_threads = [], sy_presses = 0\<rparr>"

abbreviation run_publishing :: "authorized_thread list \<Rightarrow> AuthorizedSystem" where
  "run_publishing ts \<equiv>
     run_system (run_client (if ts = [] then Pub_starting else Pub_stopping) True
       (Some (fixed_started 3))) (Publishing Team_scope 1 (fixed_started 3) # ts)"

abbreviation run_awaiting :: "authorized_thread list \<Rightarrow> AuthorizedSystem" where
  "run_awaiting ts \<equiv> run_system (run_client Pub_stopping False (Some (fixed_started 3)))
     (ts @ [Awaiting 1 (Some vr_success) By_user])"

definition run_settled :: AuthorizedSystem where
  "run_settled = run_system (run_client Pub_idle False None) [Awaiting 1 (Some vr_success) By_user]"

lemmas run_defs = run_client_def run_system_def run_connected_def run_settled_def
  AuthorizedVoiceClient_ctor_def

lemma fixed_port_calls:
  "ap_voice_state fixed_ports (k, v) = v"
  "ap_voice_press fixed_ports sc (k, v) = (vr_success, k, v)"
  "ap_voice_release fixed_ports (k, v) = (vr_success, k, v)"
  "ap_voice_connect fixed_ports grants (k, v) = (vr_success, k, Transport_connected)"
  "ap_voice_disconnect fixed_ports (k, v) = (vr_success, k, Transport_disconnected)"
  "fst (ap_startTransmission fixed_ports sc version (k, v)) =
     fst (client_startTransmission fixed_client sc version k)"
  "fst (ap_endTransmission fixed_ports tid (k, v)) = fst (client_endTransmission fixed_client tid k)"
  "ap_createSession fixed_ports credential (k, v) =
     (let (r, k') = client_createSession fixed_client credential k in (r, k', v))"
  "ap_membership fixed_ports (k, v) =
     (let (r, k') = client_membership fixed_client k in (r, k', v))"
  "ap_voiceGrants fixed_ports (k, v) =
     (let (r, k') = client_voiceGrants fixed_client k in (r, k', v))"
  by (simp_all add: coordinated_ports_def on_control_def on_voice_def obedient_voice_def
      case_prod_beta)

lemma vr_ok_success [simp]: "vr_ok vr_success"
  by (simp add: vr_ok_def vr_success_def)

abbreviation online :: "nat \<Rightarrow> (nat, nat) ControlPlaneClient \<times> VoiceTransportState" where
  "online version \<equiv> (fixed_cpc version 0 (Some fixed_session), Transport_connected)"

lemma run_connects: "authorized_reachable fixed_ports run_connected"
proof -
  have "fst (snd (authorized_connect fixed_ports ''secret''
      (AuthorizedVoiceClient_ctor, fixed_cpc 3 0 None, Transport_disconnected))) =
    sy_client run_connected"
    by (simp add: authorized_connect_def fixed_port_calls fixed_login fixed_calls run_defs
        fixed_membership_def fixed_grants_def)
  then obtain r w' where "authorized_connect fixed_ports ''secret''
      (AuthorizedVoiceClient_ctor, fixed_cpc 3 0 None, Transport_disconnected) =
    (r, sy_client run_connected, w')"
    by (metis prod.collapse)
  then have "authorized_step fixed_ports
      \<lparr>sy_client = AuthorizedVoiceClient_ctor, sy_threads = [], sy_presses = 0\<rparr> run_connected"
    using authorized_step.connected [of
        "\<lparr>sy_client = AuthorizedVoiceClient_ctor, sy_threads = [], sy_presses = 0\<rparr>"]
    by (fastforce simp: run_connected_def)
  then show ?thesis by (rule authorized_reachable.step [OF authorized_reachable.fresh])
qed

text \<open>The steps of the run.\<close>

lemma run_steps:
  "authorized_step fixed_ports run_connected
     (run_system (run_client Pub_starting False None) [Authorizing Team_scope 1 3])"
  "authorized_step fixed_ports
     (run_system (run_client Pub_starting False None) [Authorizing Team_scope 1 3])
     (run_publishing [])"
  "authorized_step fixed_ports (run_publishing []) (run_publishing [Interrupting_start 1 By_user])"
  "authorized_step fixed_ports (run_publishing [Interrupting_start 1 By_user])
     (run_publishing [Awaiting 1 (Some vr_success) By_user])"
  "authorized_step fixed_ports (run_publishing [Awaiting 1 (Some vr_success) By_user])
     (run_awaiting [Confirming Team_scope 1 (fixed_started 3)])"
  "authorized_step fixed_ports (run_awaiting [Confirming Team_scope 1 (fixed_started 3)])
     (run_awaiting [Undoing 1 (fixed_started 3)])"
  "authorized_step fixed_ports (run_awaiting [Undoing 1 (fixed_started 3)]) run_settled"
proof -
  show "authorized_step fixed_ports run_connected
     (run_system (run_client Pub_starting False None) [Authorizing Team_scope 1 3])"
    using authorized_step.pressed [of fixed_ports "online 3" run_connected 1 3
        "run_client Pub_starting False None" Team_scope]
    by (simp add: start_admitted_def fixed_port_calls run_defs fixed_membership_def)
  show "authorized_step fixed_ports
     (run_system (run_client Pub_starting False None) [Authorizing Team_scope 1 3])
     (run_publishing [])"
    using authorized_step.authorized [of
        "run_system (run_client Pub_starting False None) [Authorizing Team_scope 1 3]" "[]"
        Team_scope 1 3 "[]" fixed_ports "online 3" "fixed_started 3" False
        "run_client Pub_starting True (Some (fixed_started 3))"]
    by (simp add: start_authorized_def fixed_port_calls fixed_start run_defs)
  show "authorized_step fixed_ports (run_publishing [])
     (run_publishing [Interrupting_start 1 By_user])"
    using authorized_step.released [of "run_publishing []" "Stop_interrupts_start 1"
        "run_client Pub_stopping True (Some (fixed_started 3))" fixed_ports]
    by (simp add: stop_begin_def run_defs)
  show "authorized_step fixed_ports (run_publishing [Interrupting_start 1 By_user])
     (run_publishing [Awaiting 1 (Some vr_success) By_user])"
    using authorized_step.start_interrupted [of "run_publishing [Interrupting_start 1 By_user]"
        "[Publishing Team_scope 1 (fixed_started 3)]" 1 By_user "[]" fixed_ports "online 3"]
    by (simp add: fixed_port_calls run_defs)
  show "authorized_step fixed_ports (run_publishing [Awaiting 1 (Some vr_success) By_user])
     (run_awaiting [Confirming Team_scope 1 (fixed_started 3)])"
    using authorized_step.voice_pressed [of "run_publishing [Awaiting 1 (Some vr_success) By_user]"
        "[]" Team_scope 1 "fixed_started 3" "[Awaiting 1 (Some vr_success) By_user]" True
        "run_client Pub_stopping False (Some (fixed_started 3))" fixed_ports "online 3"]
    by (simp add: voice_returned_def fixed_port_calls run_defs)
  show "authorized_step fixed_ports (run_awaiting [Confirming Team_scope 1 (fixed_started 3)])
     (run_awaiting [Undoing 1 (fixed_started 3)])"
    using authorized_step.not_confirmed [of "run_awaiting [Confirming Team_scope 1 (fixed_started 3)]"
        "[]" Team_scope 1 "fixed_started 3" "[Awaiting 1 (Some vr_success) By_user]"
        "run_client Pub_stopping False (Some (fixed_started 3))" fixed_ports]
    by (simp add: start_confirmed_def run_defs)
  show "authorized_step fixed_ports (run_awaiting [Undoing 1 (fixed_started 3)]) run_settled"
    using authorized_step.undone [of "run_awaiting [Undoing 1 (fixed_started 3)]" "[]" 1
        "fixed_started 3" "[Awaiting 1 (Some vr_success) By_user]" fixed_ports "online 3"]
    by (simp add: start_undone_def fixed_port_calls fixed_calls run_defs
        fixed_started_def [of 3])
qed

lemma run_publishes: "authorized_reachable fixed_ports (run_publishing [])"
  by (rule authorized_reachable.step [OF authorized_reachable.step [OF run_connects run_steps(1)]
        run_steps(2)])

lemma run_awaits: "authorized_reachable fixed_ports (run_awaiting [Undoing 1 (fixed_started 3)])"
  by (intro authorized_reachable.step [OF _ run_steps(6)] authorized_reachable.step [OF _ run_steps(5)]
      authorized_reachable.step [OF _ run_steps(4)] authorized_reachable.step [OF _ run_steps(3)]
      run_publishes)

theorem publication_is_authorized_witness:
  "av_active_transmission (sy_client (run_publishing [])) = Some (fixed_started 3) \<and>
   authorized_for (sy_client (run_publishing [])) Team_scope (fixed_started 3) \<and>
   \<not> gives_up (Publishing Team_scope 1 (fixed_started 3))"
  using publication_is_authorized [OF run_publishes] by (simp add: run_system_def)

theorem authorized_release_is_woken_witness:
  "publishers (sy_threads (run_awaiting [Undoing 1 (fixed_started 3)])) = [Undoing 1 (fixed_started 3)] \<and>
   \<not> stop_may_wake 1 (sy_client (run_awaiting [Undoing 1 (fixed_started 3)])) \<and>
   stop_may_wake 1 (sy_client run_settled)"
proof -
  have waits: "\<not> stop_may_wake 1 (sy_client (run_awaiting [Undoing 1 (fixed_started 3)]))"
    by (simp add: stop_may_wake_def run_defs)
  have woken: "authorized_step fixed_ports (run_awaiting [Undoing 1 (fixed_started 3)]) s' \<Longrightarrow>
      publishers (sy_threads s') = [] \<Longrightarrow> stop_may_wake 1 (sy_client s')" for s'
    using authorized_release_is_woken [OF run_awaits _ _ waits, of "Some vr_success" By_user]
    by (auto simp: run_system_def)
  show ?thesis
    using woken [OF run_steps(7)] waits by (simp add: run_system_def run_settled_def)
qed

section \<open>A refresh to a newer membership\<close>

definition refresh_system :: "u64 \<Rightarrow> bool \<Rightarrow> authorized_thread list \<Rightarrow> AuthorizedSystem" where
  "refresh_system version enabled ts =
     \<lparr>sy_client = AuthorizedVoiceClient_ctor
        \<lparr>av_membership := Some (fixed_membership version), av_push_to_talk_enabled := enabled\<rparr>,
      sy_threads = ts, sy_presses = 0\<rparr>"

abbreviation to_newer :: release_purpose where
  "to_newer \<equiv> By_refresh (fixed_membership 4) (fixed_grants 4)"

lemmas refresh_defs = refresh_system_def AuthorizedVoiceClient_ctor_def

lemma refresh_steps:
  "authorized_step fixed_ports (refresh_system 3 True []) (refresh_system 3 True [Fetching 3])"
  "authorized_step fixed_ports (refresh_system 3 True [Fetching 3])
     (refresh_system 3 False [Finishing to_newer])"
  "authorized_step fixed_ports (refresh_system 3 False [Finishing to_newer])
     (refresh_system 3 False [Leaving to_newer])"
  "authorized_step fixed_ports (refresh_system 3 False [Leaving to_newer])
     (refresh_system 3 False [Joining (fixed_membership 4) (fixed_grants 4)])"
  "authorized_step fixed_ports
     (refresh_system 3 False [Joining (fixed_membership 4) (fixed_grants 4)])
     (refresh_system 4 True [])"
proof -
  show "authorized_step fixed_ports (refresh_system 3 True []) (refresh_system 3 True [Fetching 3])"
    using authorized_step.refresh_called [of "refresh_system 3 True []" fixed_ports "online 3" 3]
    by (simp add: known_membership_version_def fixed_port_calls refresh_defs
        fixed_membership_def [of 3])
  have "fst (fetch_authorization fixed_ports 3 (online 4)) =
      Inr (fixed_membership 4, fixed_grants 4)"
    by (simp add: fetch_authorization_def fixed_port_calls fixed_calls)
      (simp add: fixed_membership_def fixed_grants_def)
  then show "authorized_step fixed_ports (refresh_system 3 True [Fetching 3])
     (refresh_system 3 False [Finishing to_newer])"
    using authorized_step.fetched [of "refresh_system 3 True [Fetching 3]" "[]" 3 "[]" fixed_ports
        "online 4" "fixed_membership 4" "fixed_grants 4" False
        "sy_client (refresh_system 3 False [])"]
    by (simp add: quiesce_def quiesced_def refresh_defs)
  show "authorized_step fixed_ports (refresh_system 3 False [Finishing to_newer])
     (refresh_system 3 False [Leaving to_newer])"
    using authorized_step.finished [of "refresh_system 3 False [Finishing to_newer]" "[]" to_newer
        "[]" fixed_ports "online 4" "session_success None" "sy_client (refresh_system 3 False [])"
        "online 4"]
    by (simp add: endInterruptedTransmission_def session_success_def refresh_defs)
  show "authorized_step fixed_ports (refresh_system 3 False [Leaving to_newer])
     (refresh_system 3 False [Joining (fixed_membership 4) (fixed_grants 4)])"
    using authorized_step.left [of "refresh_system 3 False [Leaving to_newer]" "[]" to_newer "[]"
        fixed_ports "online 4" "[Joining (fixed_membership 4) (fixed_grants 4)]"
        "sy_client (refresh_system 3 False [])"]
    by (simp add: fixed_port_calls refresh_defs)
  show "authorized_step fixed_ports
     (refresh_system 3 False [Joining (fixed_membership 4) (fixed_grants 4)])
     (refresh_system 4 True [])"
    using authorized_step.joined [of
        "refresh_system 3 False [Joining (fixed_membership 4) (fixed_grants 4)]" "[]"
        "fixed_membership 4" "fixed_grants 4" "[]" fixed_ports "online 4" vr_success]
    by (simp add: fixed_port_calls rooms_joined_def install_membership_def refresh_defs)
qed

lemma refresh_joins:
  "authorized_reachable fixed_ports
     (refresh_system 3 False [Joining (fixed_membership 4) (fixed_grants 4)])"
proof -
  have "authorized_reachable fixed_ports (refresh_system 3 True [])"
    using run_connects by (simp add: run_connected_def refresh_system_def)
  then show ?thesis
    by (intro authorized_reachable.step [OF _ refresh_steps(4)]
        authorized_reachable.step [OF _ refresh_steps(3)]
        authorized_reachable.step [OF _ refresh_steps(2)]
        authorized_reachable.step [OF _ refresh_steps(1)])
qed

theorem membership_changes_in_silence_witness:
  "av_membership (sy_client (refresh_system 4 True [])) = Some (fixed_membership 4) \<and>
   mv_version (fixed_membership 3) < mv_version (fixed_membership 4)"
proof -
  have "av_membership (sy_client (refresh_system v enabled ts)) = Some (fixed_membership v)"
    for v enabled ts by (simp add: refresh_defs)
  moreover have "fixed_membership 4 \<noteq> fixed_membership 3" by (simp add: fixed_membership_def)
  ultimately show ?thesis
    using membership_changes_in_silence [OF refresh_joins refresh_steps(5), of "fixed_membership 3"]
    by simp
qed

section \<open>A transmission that timed out on the server\<close>

definition timed_out_server :: "(memory_repository, nat, nat \<times> nat) HttpState" where
  "timed_out_server =
     with_store (snd (expireTimedOut 0 60 (StrongId ''k'') (hs_store talking))) talking"

definition talking_client :: AuthorizedVoiceClient where
  "talking_client = run_client Pub_active False (Some (started_view talk_active))"

lemma timed_out_stuck:
  "stuck_with sample_adapter 60 sample_correlation sample_session_s (started_view talk_active)
     (talking_client, sample_cpc timed_out_server, Transport_connected)"
proof -
  have started: "sd_transmission_id (started_view talk_active) = StrongId ''x''"
    by (simp add: started_view_def talk_active_def talk_authorized_def)
  have std: "std_ok (sto_active (hs_store talking))"
    using talking_inv by (simp add: store_inv_def)
  have sessions: "sto_sessions (hs_store timed_out_server) = [(StrongId ''s'', sample_session_s)]"
    and ended: "active (hs_store timed_out_server) (StrongId ''x'') = None"
    using talk_created(2,3) map_of_filter_values [OF std, of "\<lambda>t. \<not> timed_out 0 60 t"]
    by (simp_all add: timed_out_server_def with_store_def expireTimedOut_eq active_def
        timed_out_def talk_active_def ticks_def)
  have "sp_find (ha_sessions sample_adapter) (hs_store timed_out_server) (StrongId ''s'') =
      Some sample_session_s"
    by (simp add: sample_adapter_def store_sessions_def currentSessionLocked_def sessions)
  then have "logged_in_at sample_adapter 60 sample_session_s (sample_cpc timed_out_server)"
    by (simp add: logged_in_at_def sample_cpc_def session_view_def sample_session_s_def activeAt_def)
  moreover have "cc_transport (sample_cpc timed_out_server) = timed_out_server"
    by (simp add: sample_cpc_def)
  ultimately show ?thesis
    using ended started
    by (simp add: stuck_with_def lost_on_server_def ended_on_server_def talking_client_def
        run_client_def program_port_def sample_adapter_def sample_correlation_def)
qed

theorem ended_transmission_wedges_client_witness:
  "\<exists>r s'. authorized_disconnect (coordinated_ports (sample_ports 60) obedient_voice)
      (talking_client, sample_cpc timed_out_server, Transport_connected) = (Some r, s') \<and>
    \<not> vs_successful r"
  using ended_transmission_wedges_client [OF timed_out_stuck refl,
      where vp = obedient_voice and next_transmission = sample_client_id]
  by blast

end
