(* ===== verification/Push_To_Talk.thy ===== *)
theory Push_To_Talk
  imports Authorized_Voice_Client
begin

text \<open>
  Push-to-talk input (\<open>libs/client/include/hvc/client/ptt_input.hpp\<close> and
  \<open>libs/client/src/ptt_input.cpp\<close>): bindings of chords of physical controls to actions, the engine
  that tracks which controls are held and which actions are therefore pressed, and the input that
  turns pressed and released actions into authorized transmissions. An operation of the engine
  locks it, updates its members, and tells its observer after unlocking; here it returns what it
  tells. \<open>Push_To_Talk_Properties\<close> states what holds of them, \<open>Push_To_Talk_Delivery\<close> puts engine
  and input together.
\<close>

section \<open>Data\<close>

datatype PushToTalkAction = Action_team | Action_specialization | Action_group

fun voiceScopeFor :: "PushToTalkAction \<Rightarrow> VoiceScope" where
  "voiceScopeFor Action_team = Team_scope"
| "voiceScopeFor Action_specialization = Specialization_scope"
| "voiceScopeFor Action_group = Group_scope"

text \<open>The actions in the order of their numbers.\<close>

definition all_actions :: "PushToTalkAction list" where
  "all_actions = [Action_team, Action_specialization, Action_group]"

datatype InputDeviceKind = Device_keyboard | Device_mouse | Device_game_controller

fun device_kind_number :: "InputDeviceKind \<Rightarrow> nat" where
  "device_kind_number Device_keyboard = 0"
| "device_kind_number Device_mouse = 1"
| "device_kind_number Device_game_controller = 2"

definition mouse_button_5 :: u16 where
  "mouse_button_5 = 5"

record InputControl =
  ic_device_kind :: InputDeviceKind
  ic_usage_page :: u16
  ic_code :: u16
  ic_extended :: bool
  ic_device_id :: string

record HidButtonDescriptor =
  hb_usage_page :: u16
  hb_usage :: u16

record InputDeviceProfile =
  ip_device_id :: string
  ip_display_name :: string
  ip_device_kind :: InputDeviceKind
  ip_vendor_id :: u16
  ip_product_id :: u16
  ip_usage_page :: u16
  ip_usage :: u16
  ip_buttons :: "HidButtonDescriptor list"

record InputBinding =
  ib_action :: PushToTalkAction
  ib_chord :: "InputControl list"

record InputEvent =
  ie_control :: InputControl
  ie_pressed :: bool
  ie_received_in_background :: bool

datatype InputBindingErrorCode =
    Binding_empty_chord | Binding_invalid_control | Binding_duplicate_control
  | Binding_duplicate | Binding_conflicting

record InputBindingError =
  be_code :: InputBindingErrorCode
  be_binding_index :: nat
  be_message :: string

text \<open>The result of setting bindings is the list of errors; it is a success when there is none.\<close>

type_synonym InputBindingResult = "InputBindingError list"

section \<open>Controls and chords\<close>

text \<open>\<open>std::tie\<close> compares the fields one after the other.\<close>

definition control_key :: "InputControl \<Rightarrow> nat \<times> u16 \<times> u16 \<times> bool \<times> string" where
  "control_key c =
     (device_kind_number (ic_device_kind c), ic_usage_page c, ic_code c, ic_extended c,
      ic_device_id c)"

definition controlLess :: "InputControl \<Rightarrow> InputControl \<Rightarrow> bool" where
  "controlLess left right \<longleftrightarrow> control_key left < control_key right"

definition normalizedChord :: "InputBinding \<Rightarrow> InputControl list" where
  "normalizedChord b = sort_key control_key (ib_chord b)"

definition controlsOverlap :: "InputControl \<Rightarrow> InputControl \<Rightarrow> bool" where
  "controlsOverlap left right \<longleftrightarrow>
     ic_device_kind left = ic_device_kind right \<and> ic_usage_page left = ic_usage_page right \<and>
     ic_code left = ic_code right \<and> ic_extended left = ic_extended right \<and>
     (ic_device_id left = [] \<or> ic_device_id right = [] \<or> ic_device_id left = ic_device_id right)"

definition chordsOverlap :: "InputControl list \<Rightarrow> InputControl list \<Rightarrow> bool" where
  "chordsOverlap left right \<longleftrightarrow>
     length left = length right \<and> list_all2 controlsOverlap left right"

definition validControl :: "InputControl \<Rightarrow> bool" where
  "validControl c \<longleftrightarrow>
     (if ic_code c = 0 then False
      else case ic_device_kind c of
        Device_keyboard \<Rightarrow> ic_usage_page c = 0
      | Device_mouse \<Rightarrow>
          ic_code c \<le> mouse_button_5 \<and> ic_usage_page c = 0 \<and> \<not> ic_extended c
      | Device_game_controller \<Rightarrow> ic_usage_page c \<noteq> 0 \<and> \<not> ic_extended c)"

definition heldControlMatches :: "InputControl \<Rightarrow> InputControl \<Rightarrow> bool" where
  "heldControlMatches expected held \<longleftrightarrow>
     ic_device_kind expected = ic_device_kind held \<and> ic_usage_page expected = ic_usage_page held \<and>
     ic_code expected = ic_code held \<and> ic_extended expected = ic_extended held \<and>
     (ic_device_id expected = [] \<or> ic_device_id expected = ic_device_id held)"

definition bindingPressed :: "InputBinding \<Rightarrow> InputControl list \<Rightarrow> bool" where
  "bindingPressed b pressed_controls \<longleftrightarrow>
     list_all (\<lambda>expected. list_ex (heldControlMatches expected) pressed_controls) (ib_chord b)"

section \<open>Validating bindings\<close>

text \<open>\<open>std::ranges::adjacent_find\<close> finds two equal neighbours.\<close>

fun adjacent_equal :: "'a list \<Rightarrow> bool" where
  "adjacent_equal (x # y # xs) \<longleftrightarrow> x = y \<or> adjacent_equal (y # xs)"
| "adjacent_equal _ \<longleftrightarrow> False"

definition binding_error :: "InputBindingErrorCode \<Rightarrow> nat \<Rightarrow> string \<Rightarrow> InputBindingError" where
  "binding_error code index message =
     \<lparr>be_code = code, be_binding_index = index, be_message = message\<rparr>"

definition chord_errors :: "nat \<Rightarrow> InputControl list \<Rightarrow> InputBindingError list" where
  "chord_errors index chord =
     (if chord = []
      then [binding_error Binding_empty_chord index ''an input chord cannot be empty'']
      else if list_ex (\<lambda>c. \<not> validControl c) chord
      then [binding_error Binding_invalid_control index
              ''an input chord contains an invalid control'']
      else if adjacent_equal chord
      then [binding_error Binding_duplicate_control index
              ''an input chord contains the same control more than once'']
      else [])"

text \<open>
  The inner loop: the first earlier binding that is a duplicate or a conflict. The two vectors
  \<open>bindings\<close> and \<open>normalized\<close> run in parallel.
\<close>

fun clash_errors ::
  "nat \<Rightarrow> PushToTalkAction \<Rightarrow> InputControl list \<Rightarrow> (PushToTalkAction \<times> InputControl list) list \<Rightarrow>
   InputBindingError list" where
  "clash_errors index action chord [] = []"
| "clash_errors index action chord ((action', chord') # previous) =
     (if chord = chord' \<or> action \<noteq> action' \<and> chordsOverlap chord chord'
      then
        (if action = action'
         then [binding_error Binding_duplicate index ''the input binding is duplicated'']
         else [binding_error Binding_conflicting index
                 ''the input binding is assigned to multiple actions''])
      else clash_errors index action chord previous)"

fun validate_from ::
  "nat \<Rightarrow> (PushToTalkAction \<times> InputControl list) list \<Rightarrow> InputBinding list \<Rightarrow>
   InputBindingResult" where
  "validate_from index previous [] = []"
| "validate_from index previous (b # bs) =
     (let chord = normalizedChord b
      in chord_errors index chord @ clash_errors index (ib_action b) chord previous @
         validate_from (Suc index) (previous @ [(ib_action b, chord)]) bs)"

definition validateBindings :: "InputBinding list \<Rightarrow> InputBindingResult" where
  "validateBindings bindings = validate_from 0 [] bindings"

section \<open>The binding engine\<close>

record ActionChange =
  ax_action :: PushToTalkAction
  ax_pressed :: bool

record PushToTalkBindingEngine =
  pb_observer :: bool
  pb_bindings :: "InputBinding list"
  pb_devices :: "InputDeviceProfile list"
  pb_pressed_controls :: "InputControl list"
  pb_pressed_actions :: "PushToTalkAction \<Rightarrow> bool"

definition PushToTalkBindingEngine_ctor :: PushToTalkBindingEngine where
  "PushToTalkBindingEngine_ctor =
     \<lparr>pb_observer = False, pb_bindings = [], pb_devices = [], pb_pressed_controls = [],
      pb_pressed_actions = (\<lambda>_. False)\<rparr>"

definition pb_setObserver :: "bool \<Rightarrow> PushToTalkBindingEngine \<Rightarrow> PushToTalkBindingEngine" where
  "pb_setObserver attached e = e\<lparr>pb_observer := attached\<rparr>"

definition actionPressed :: "PushToTalkBindingEngine \<Rightarrow> PushToTalkAction \<Rightarrow> bool" where
  "actionPressed e action = pb_pressed_actions e action"

definition action_change :: "PushToTalkAction \<Rightarrow> bool \<Rightarrow> ActionChange" where
  "action_change action pressed = \<lparr>ax_action = action, ax_pressed = pressed\<rparr>"

definition pressed_next :: "PushToTalkBindingEngine \<Rightarrow> PushToTalkAction \<Rightarrow> bool" where
  "pressed_next e action \<longleftrightarrow>
     list_ex (\<lambda>b. ib_action b = action \<and> bindingPressed b (pb_pressed_controls e)) (pb_bindings e)"

definition recalculateLocked ::
  "PushToTalkBindingEngine \<Rightarrow> ActionChange list \<times> PushToTalkBindingEngine" where
  "recalculateLocked e =
     (map (\<lambda>a. action_change a (pressed_next e a))
        (filter (\<lambda>a. pressed_next e a \<noteq> pb_pressed_actions e a) all_actions),
      e\<lparr>pb_pressed_actions := pressed_next e\<rparr>)"

text \<open>What the observer, if there is one, is told.\<close>

definition notify :: "ActionChange list \<Rightarrow> PushToTalkBindingEngine \<Rightarrow> ActionChange list" where
  "notify changes e = (if pb_observer e then changes else [])"

definition setBindings ::
  "InputBinding list \<Rightarrow> PushToTalkBindingEngine \<Rightarrow>
   InputBindingResult \<times> ActionChange list \<times> PushToTalkBindingEngine" where
  "setBindings bindings e =
     (let result = validateBindings bindings in
      if result \<noteq> [] then (result, [], e)
      else
        (let changes = map (\<lambda>a. action_change a False) (filter (pb_pressed_actions e) all_actions)
         in (result, notify changes e,
             e\<lparr>pb_bindings := bindings, pb_pressed_controls := [],
               pb_pressed_actions := (\<lambda>_. False)\<rparr>)))"

definition releaseAll ::
  "PushToTalkBindingEngine \<Rightarrow> ActionChange list \<times> PushToTalkBindingEngine" where
  "releaseAll e =
     (let (changes, e') = recalculateLocked (e\<lparr>pb_pressed_controls := []\<rparr>)
      in (notify changes e', e'))"

text \<open>A device is replaced where it is, or appended.\<close>

fun put_device :: "InputDeviceProfile \<Rightarrow> InputDeviceProfile list \<Rightarrow> InputDeviceProfile list" where
  "put_device profile [] = [profile]"
| "put_device profile (d # ds) =
     (if ip_device_id d = ip_device_id profile then profile # ds else d # put_device profile ds)"

definition onInputDeviceConnected ::
  "InputDeviceProfile \<Rightarrow> PushToTalkBindingEngine \<Rightarrow> PushToTalkBindingEngine" where
  "onInputDeviceConnected profile e =
     (if ip_device_id profile = [] then e
      else e\<lparr>pb_devices := put_device profile (pb_devices e)\<rparr>)"

definition onInputEvent ::
  "InputEvent \<Rightarrow> PushToTalkBindingEngine \<Rightarrow> ActionChange list \<times> PushToTalkBindingEngine" where
  "onInputEvent event e =
     (let c = ie_control event; held = pb_pressed_controls e in
      if \<not> validControl c \<or> ic_device_id c = [] then ([], e)
      else if ie_pressed event \<and> c \<notin> set held
      then
        (let (changes, e') = recalculateLocked (e\<lparr>pb_pressed_controls := held @ [c]\<rparr>)
         in (notify changes e', e'))
      else if \<not> ie_pressed event \<and> c \<in> set held
      then
        (let (changes, e') = recalculateLocked (e\<lparr>pb_pressed_controls := remove1 c held\<rparr>)
         in (notify changes e', e'))
      else ([], e))"

definition onInputDeviceRemoved ::
  "string \<Rightarrow> PushToTalkBindingEngine \<Rightarrow> ActionChange list \<times> PushToTalkBindingEngine" where
  "onInputDeviceRemoved device_id e =
     (if device_id = [] then ([], e)
      else
        (let (changes, e') = recalculateLocked
               (e\<lparr>pb_pressed_controls :=
                    filter (\<lambda>c. ic_device_id c \<noteq> device_id) (pb_pressed_controls e),
                  pb_devices := filter (\<lambda>d. ip_device_id d \<noteq> device_id) (pb_devices e)\<rparr>)
         in (notify changes e', e')))"

section \<open>From actions to transmissions\<close>

text \<open>
  The target (\<open>IPushToTalkTarget\<close>) is a port on a state \<open>'w\<close>. The state of the input is its active
  action; its observer is told the result of every attempt.
\<close>

record 'w PushToTalkTarget =
  pt_press :: "VoiceScope \<Rightarrow> 'w \<Rightarrow> VoiceSessionResult \<times> 'w"
  pt_release :: "'w \<Rightarrow> VoiceSessionResult \<times> 'w"

record AuthorizedPushToTalkInput =
  pi_observer :: bool
  pi_active_action :: "PushToTalkAction option"

definition AuthorizedPushToTalkInput_ctor :: AuthorizedPushToTalkInput where
  "AuthorizedPushToTalkInput_ctor = \<lparr>pi_observer = False, pi_active_action = None\<rparr>"

definition pi_setObserver :: "bool \<Rightarrow> AuthorizedPushToTalkInput \<Rightarrow> AuthorizedPushToTalkInput" where
  "pi_setObserver attached i = i\<lparr>pi_observer := attached\<rparr>"

type_synonym input_result = "PushToTalkAction \<times> bool \<times> VoiceSessionResult"

definition input_observed ::
  "PushToTalkAction \<Rightarrow> bool \<Rightarrow> VoiceSessionResult \<Rightarrow> AuthorizedPushToTalkInput \<Rightarrow>
   input_result option" where
  "input_observed action pressed result i =
     (if pi_observer i then Some (action, pressed, result) else None)"

definition onPushToTalkActionChanged ::
  "'w PushToTalkTarget \<Rightarrow> ActionChange \<Rightarrow> AuthorizedPushToTalkInput \<times> 'w \<Rightarrow>
   input_result option \<times> AuthorizedPushToTalkInput \<times> 'w" where
  "onPushToTalkActionChanged p change = (\<lambda>(i, w).
     let action = ax_action change in
     if ax_pressed change then
       if pi_active_action i \<noteq> None
       then (input_observed action True
               (session_refusal Source_client_state ''ptt_input_already_active''
                  ''another push-to-talk input action is already active'') i, i, w)
       else
         (let (result, w') = pt_press p (voiceScopeFor action) w;
              i' = (if vs_successful result then i\<lparr>pi_active_action := Some action\<rparr> else i)
          in (input_observed action True result i', i', w'))
     else if pi_active_action i = Some action then
       (let (result, w') = pt_release p w;
            i' = i\<lparr>pi_active_action := None\<rparr>
        in (input_observed action False result i', i', w'))
     else (None, i, w))"

end
