(* ===== verification/Push_To_Talk_Properties.thy ===== *)
theory Push_To_Talk_Properties
  imports Push_To_Talk "HOL-Library.Multiset"
begin

text \<open>
  Push-to-talk input: which bindings are accepted, that an action is pressed exactly while a chord
  of it is held, and that the observer is told exactly what changed.
\<close>

section \<open>Chords\<close>

lemma device_kind_number_inject [simp]:
  "device_kind_number k = device_kind_number k' \<longleftrightarrow> k = k'"
  by (cases k; cases k') simp_all

lemma inj_control_key: "inj control_key"
  by (rule injI) (simp add: control_key_def InputControl.equality)

lemma normalized_eq_iff:
  "normalizedChord b = normalizedChord b' \<longleftrightarrow> mset (ib_chord b) = mset (ib_chord b')"
proof
  assume "normalizedChord b = normalizedChord b'"
  then have "mset (normalizedChord b) = mset (normalizedChord b')" by simp
  then show "mset (ib_chord b) = mset (ib_chord b')" by (simp add: normalizedChord_def)
next
  have keys: "map control_key (sort_key control_key xs) = sort (map control_key xs)" for xs
    by (rule properties_for_sort [symmetric]) simp_all
  assume "mset (ib_chord b) = mset (ib_chord b')"
  then have "mset (map control_key (ib_chord b)) = mset (map control_key (ib_chord b'))" by simp
  then have "sort (map control_key (ib_chord b)) = sort (map control_key (ib_chord b'))"
    by (intro properties_for_sort) simp_all
  then show "normalizedChord b = normalizedChord b'"
    unfolding normalizedChord_def keys [symmetric]
    by (rule map_injective [OF _ inj_control_key])
qed

lemma adjacent_equal_sorted:
  fixes key :: "'a \<Rightarrow> 'b :: linorder"
  assumes "sorted (map key xs)" and "inj_on key (set xs)"
  shows "adjacent_equal xs \<longleftrightarrow> \<not> distinct xs"
  using assms
proof (induction xs rule: adjacent_equal.induct)
  case (1 x y xs)
  have "x \<in> set xs \<longrightarrow> x = y"
  proof
    assume "x \<in> set xs"
    then have "key y \<le> key x" "key x \<le> key y" using 1(2) by auto
    then have "key x = key y" by simp
    with 1(3) show "x = y" by (auto dest: inj_onD)
  qed
  with 1 show ?case by auto
qed simp_all

lemma normalized_props [simp]:
  "normalizedChord b = [] \<longleftrightarrow> ib_chord b = []"
  "set (normalizedChord b) = set (ib_chord b)"
  "adjacent_equal (normalizedChord b) \<longleftrightarrow> \<not> distinct (ib_chord b)"
proof -
  show "normalizedChord b = [] \<longleftrightarrow> ib_chord b = []"
    unfolding normalizedChord_def by (metis mset_sort mset_zero_iff)
  show "set (normalizedChord b) = set (ib_chord b)" by (simp add: normalizedChord_def)
  show "adjacent_equal (normalizedChord b) \<longleftrightarrow> \<not> distinct (ib_chord b)"
    using adjacent_equal_sorted [of control_key "normalizedChord b"] inj_control_key
    by (simp add: normalizedChord_def inj_def inj_on_def)
qed

section \<open>Accepted bindings\<close>

definition chord_ok :: "InputControl list \<Rightarrow> bool" where
  "chord_ok chord \<longleftrightarrow> chord \<noteq> [] \<and> list_all validControl chord \<and> distinct chord"

definition bindings_clash :: "InputBinding \<Rightarrow> InputBinding \<Rightarrow> bool" where
  "bindings_clash b b' \<longleftrightarrow>
     mset (ib_chord b) = mset (ib_chord b') \<or>
     ib_action b \<noteq> ib_action b' \<and> chordsOverlap (normalizedChord b) (normalizedChord b')"

lemma chord_errors_none: "chord_errors i (normalizedChord b) = [] \<longleftrightarrow> chord_ok (ib_chord b)"
  by (auto simp: chord_errors_def chord_ok_def list_ex_iff list_all_iff)

lemma clash_errors_none:
  "clash_errors i (ib_action b) (normalizedChord b)
     (map (\<lambda>b. (ib_action b, normalizedChord b)) bs) = [] \<longleftrightarrow>
   (\<forall>b' \<in> set bs. \<not> bindings_clash b b')"
  by (induction bs) (auto simp: bindings_clash_def normalized_eq_iff)

lemma validate_from_none:
  "validate_from i (map (\<lambda>b. (ib_action b, normalizedChord b)) previous) bs = [] \<longleftrightarrow>
     (\<forall>b \<in> set bs. chord_ok (ib_chord b) \<and> (\<forall>b' \<in> set previous. \<not> bindings_clash b b')) \<and>
     sorted_wrt (\<lambda>b' b. \<not> bindings_clash b b') bs"
proof (induction bs arbitrary: i previous)
  case (Cons b bs)
  from Cons [of "Suc i" "previous @ [b]"] show ?case
    by (auto simp: Let_def chord_errors_none clash_errors_none)
qed simp

text \<open>
  C35: which bindings are accepted. The one pass over sorted copies of the chords accepts a list of
  bindings if and only if every chord is non-empty and made of valid, distinct controls, no two
  bindings have the same controls in whatever order, and no two bindings of different actions have
  chords that overlap control by control in the sorted order.
\<close>

theorem bindings_accepted_iff:
  "validateBindings bs = [] \<longleftrightarrow>
     (\<forall>b \<in> set bs. ib_chord b \<noteq> [] \<and> list_all validControl (ib_chord b) \<and> distinct (ib_chord b)) \<and>
     sorted_wrt (\<lambda>b b'. mset (ib_chord b) \<noteq> mset (ib_chord b') \<and>
       (ib_action b \<noteq> ib_action b' \<longrightarrow>
          \<not> chordsOverlap (normalizedChord b') (normalizedChord b))) bs"
proof -
  have clash: "(\<lambda>b' b. \<not> bindings_clash b b') = (\<lambda>b b'. mset (ib_chord b) \<noteq> mset (ib_chord b') \<and>
       (ib_action b \<noteq> ib_action b' \<longrightarrow>
          \<not> chordsOverlap (normalizedChord b') (normalizedChord b)))"
    by (auto simp: bindings_clash_def fun_eq_iff)
  show ?thesis
    using validate_from_none [of 0 "[]" bs] unfolding validateBindings_def clash
    by (auto simp: chord_ok_def)
qed

section \<open>The engine\<close>

definition attached :: "PushToTalkBindingEngine \<Rightarrow> bool" where
  "attached e = pb_observer e"

text \<open>What an operation must tell: the actions that changed, in their order.\<close>

definition changes_between ::
  "PushToTalkBindingEngine \<Rightarrow> PushToTalkBindingEngine \<Rightarrow> ActionChange list" where
  "changes_between e e' =
     map (\<lambda>a. action_change a (actionPressed e' a))
       (filter (\<lambda>a. actionPressed e' a \<noteq> actionPressed e a) all_actions)"

inductive engine_step ::
  "PushToTalkBindingEngine \<Rightarrow> ActionChange list \<Rightarrow> PushToTalkBindingEngine \<Rightarrow> bool" where
  set_bindings:
    "setBindings bindings e = (result, changes, e') \<Longrightarrow> engine_step e changes e'"
| release_all: "releaseAll e = (changes, e') \<Longrightarrow> engine_step e changes e'"
| device_connected: "engine_step e [] (onInputDeviceConnected profile e)"
| input_event: "onInputEvent event e = (changes, e') \<Longrightarrow> engine_step e changes e'"
| device_removed: "onInputDeviceRemoved device_id e = (changes, e') \<Longrightarrow> engine_step e changes e'"

inductive engine_reachable :: "PushToTalkBindingEngine \<Rightarrow> bool" where
  fresh: "engine_reachable PushToTalkBindingEngine_ctor"
| observed: "engine_reachable e \<Longrightarrow> engine_reachable (pb_setObserver b e)"
| step: "engine_reachable e \<Longrightarrow> engine_step e changes e' \<Longrightarrow> engine_reachable e'"

definition engine_ok :: "PushToTalkBindingEngine \<Rightarrow> bool" where
  "engine_ok e \<longleftrightarrow>
     pb_pressed_actions e = pressed_next e \<and>
     (\<forall>b \<in> set (pb_bindings e). ib_chord b \<noteq> []) \<and>
     distinct (pb_pressed_controls e) \<and>
     (\<forall>c \<in> set (pb_pressed_controls e). validControl c \<and> ic_device_id c \<noteq> [])"

lemma pressed_next_cong:
  "pressed_next (e\<lparr>pb_pressed_actions := f\<rparr>) = pressed_next e"
  "pressed_next (e\<lparr>pb_devices := ds\<rparr>) = pressed_next e"
  "pressed_next (e\<lparr>pb_observer := b\<rparr>) = pressed_next e"
  by (simp_all add: pressed_next_def [abs_def])

lemma nothing_held:
  assumes "\<forall>b \<in> set (pb_bindings e). ib_chord b \<noteq> []" and "pb_pressed_controls e = []"
  shows "pressed_next e = (\<lambda>_. False)"
  using assms by (auto simp: pressed_next_def [abs_def] bindingPressed_def list_ex_iff list_all_iff)

lemma recalculated:
  assumes "recalculateLocked e = (changes, e')"
  shows "e' = e\<lparr>pb_pressed_actions := pressed_next e\<rparr>" and "changes = changes_between e e'"
  using assms
  by (auto simp: recalculateLocked_def changes_between_def actionPressed_def)

lemma recalculated_step:
  assumes "recalculateLocked e1 = (changes, e')" and "engine_ok e"
    and "pb_bindings e1 = pb_bindings e" and "pb_observer e1 = pb_observer e"
    and "pb_pressed_actions e1 = pb_pressed_actions e" and "distinct (pb_pressed_controls e1)"
    and "\<forall>c \<in> set (pb_pressed_controls e1). validControl c \<and> ic_device_id c \<noteq> []"
  shows "engine_ok e' \<and> pb_observer e' = pb_observer e \<and>
    notify changes e' = (if pb_observer e then changes_between e e' else [])"
proof -
  note e' = recalculated [OF assms(1)]
  have "engine_ok e'"
    using assms(2-) e'(1) by (simp add: engine_ok_def pressed_next_cong)
  moreover have "changes_between e1 e' = changes_between e e'"
    using assms(5) by (simp add: changes_between_def actionPressed_def)
  ultimately show ?thesis using e' assms(4) by (simp add: notify_def)
qed

text \<open>The held controls after an event of a valid control.\<close>

definition held_after :: "InputEvent \<Rightarrow> PushToTalkBindingEngine \<Rightarrow> InputControl list" where
  "held_after event e =
     (let c = ie_control event; held = pb_pressed_controls e in
      if ie_pressed event then (if c \<in> set held then held else held @ [c])
      else if c \<in> set held then remove1 c held else held)"

lemma input_event_cases:
  assumes "onInputEvent event e = (changes, e')"
  shows "e' = e \<and> changes = [] \<or>
    validControl (ie_control event) \<and> ic_device_id (ie_control event) \<noteq> [] \<and>
    (\<exists>cs. recalculateLocked (e\<lparr>pb_pressed_controls := held_after event e\<rparr>) = (cs, e') \<and>
       changes = notify cs e')"
  using assms
  by (cases "ie_pressed event"; cases "ie_control event \<in> set (pb_pressed_controls e)";
      cases "validControl (ie_control event) \<and> ic_device_id (ie_control event) \<noteq> []")
    (simp_all add: onInputEvent_def held_after_def Let_def case_prod_beta prod_eq_iff)

lemma held_after_ok:
  assumes "validControl (ie_control event)" and "ic_device_id (ie_control event) \<noteq> []"
  shows "distinct (pb_pressed_controls e) \<Longrightarrow> distinct (held_after event e)"
    and "\<forall>c \<in> set (pb_pressed_controls e). validControl c \<and> ic_device_id c \<noteq> [] \<Longrightarrow>
      \<forall>c \<in> set (held_after event e). validControl c \<and> ic_device_id c \<noteq> []"
  using assms
  by (auto simp: held_after_def Let_def dest: notin_set_remove1 set_remove1_subset [THEN subsetD])

lemma accepted_chords: "validateBindings bs = [] \<Longrightarrow> \<forall>b \<in> set bs. ib_chord b \<noteq> []"
  using validate_from_none [of 0 "[]" bs] by (simp add: validateBindings_def chord_ok_def)

lemma engine_step_ok:
  assumes "engine_step e changes e'" and "engine_ok e"
  shows "engine_ok e'" and "pb_observer e' = pb_observer e"
    and "changes = (if pb_observer e then changes_between e e' else [])"
proof -
  have "engine_ok e' \<and> pb_observer e' = pb_observer e \<and>
      changes = (if pb_observer e then changes_between e e' else [])"
    using assms(1)
  proof cases
    case (set_bindings bindings result)
    show ?thesis
    proof (cases "validateBindings bindings = []")
      case True
      then have e': "e' = e\<lparr>pb_bindings := bindings, pb_pressed_controls := [],
          pb_pressed_actions := (\<lambda>_. False)\<rparr>"
        and changes: "changes = notify (map (\<lambda>a. action_change a False)
            (filter (pb_pressed_actions e) all_actions)) e"
        using set_bindings by (auto simp: setBindings_def Let_def)
      have "engine_ok e'"
        using nothing_held [of e'] accepted_chords [OF True] by (simp add: engine_ok_def e')
      then show ?thesis
        by (simp add: changes notify_def changes_between_def actionPressed_def e')
    next
      case False
      then show ?thesis
        using set_bindings assms(2)
        by (auto simp: setBindings_def Let_def changes_between_def)
    qed
  next
    case release_all
    obtain cs where "recalculateLocked (e\<lparr>pb_pressed_controls := []\<rparr>) = (cs, e')"
      "changes = notify cs e'"
      using release_all by (auto simp: releaseAll_def split: prod.splits)
    then show ?thesis using recalculated_step [of _ cs e' e] assms(2) by simp
  next
    case (device_connected profile)
    then show ?thesis
      using assms(2)
      by (auto simp: onInputDeviceConnected_def engine_ok_def pressed_next_cong
          changes_between_def actionPressed_def)
  next
    case (input_event event)
    show ?thesis
    proof (cases "e' = e \<and> changes = []")
      case True
      with assms(2) show ?thesis by (simp add: changes_between_def)
    next
      case False
      then obtain cs where recalc: "recalculateLocked
            (e\<lparr>pb_pressed_controls := held_after event e\<rparr>) = (cs, e')" "changes = notify cs e'"
        and valid: "validControl (ie_control event)" "ic_device_id (ie_control event) \<noteq> []"
        using input_event_cases [OF input_event] by blast
      have before: "distinct (pb_pressed_controls e)"
          "\<forall>c \<in> set (pb_pressed_controls e). validControl c \<and> ic_device_id c \<noteq> []"
        using assms(2) by (simp_all add: engine_ok_def)
      note held = held_after_ok(1) [OF valid before(1)] held_after_ok(2) [OF valid before(2)]
      show ?thesis
        unfolding recalc(2)
        by (rule recalculated_step [OF recalc(1) assms(2)]) (use held in simp_all)
    qed
  next
    case (device_removed device_id)
    show ?thesis
    proof (cases "device_id = []")
      case True
      with device_removed assms(2) show ?thesis
        by (simp add: onInputDeviceRemoved_def changes_between_def)
    next
      case False
      let ?e1 = "e\<lparr>pb_pressed_controls :=
            filter (\<lambda>c. ic_device_id c \<noteq> device_id) (pb_pressed_controls e),
          pb_devices := filter (\<lambda>d. ip_device_id d \<noteq> device_id) (pb_devices e)\<rparr>"
      obtain cs where recalc: "recalculateLocked ?e1 = (cs, e')" "changes = notify cs e'"
        using device_removed False
        by (auto simp: onInputDeviceRemoved_def case_prod_beta prod_eq_iff)
      show ?thesis
        unfolding recalc(2)
        by (rule recalculated_step [OF recalc(1) assms(2)])
          (use assms(2) in \<open>simp_all add: engine_ok_def\<close>)
    qed
  qed
  then show "engine_ok e'" "pb_observer e' = pb_observer e"
    "changes = (if pb_observer e then changes_between e e' else [])" by blast+
qed

lemma engine_reachable_ok: "engine_reachable e \<Longrightarrow> engine_ok e"
proof (induction rule: engine_reachable.induct)
  case fresh
  then show ?case
    by (simp add: engine_ok_def PushToTalkBindingEngine_ctor_def pressed_next_def [abs_def])
next
  case (observed e b)
  then show ?case by (simp add: engine_ok_def pb_setObserver_def pressed_next_cong)
next
  case (step e changes e')
  then show ?case using engine_step_ok(1) by blast
qed

lemma held_after_set:
  "distinct (pb_pressed_controls e) \<Longrightarrow>
     set (held_after event e) =
       (if ie_pressed event then insert (ie_control event) (set (pb_pressed_controls e))
        else set (pb_pressed_controls e) - {ie_control event})"
  by (auto simp: held_after_def Let_def)

section \<open>Properties\<close>

text \<open>
  C34: an action is pressed exactly while one of its chords is held. Whatever input events, device
  removals, new bindings and releases have happened, the engine reports an action as pressed if
  and only if some binding of that action has every control of its chord held, on the named device
  or, where the chord names none, on any; no binding has an empty chord, so nothing is pressed while
  nothing is held.
\<close>

theorem pressed_iff_chord_held:
  assumes "engine_reachable e"
  shows "(actionPressed e a \<longleftrightarrow>
       (\<exists>b \<in> set (pb_bindings e). ib_action b = a \<and>
          (\<forall>c \<in> set (ib_chord b). \<exists>h \<in> set (pb_pressed_controls e). heldControlMatches c h))) \<and>
     (pb_pressed_controls e = [] \<longrightarrow> \<not> actionPressed e a)"
  using engine_reachable_ok [OF assms] nothing_held [of e]
  by (auto simp: engine_ok_def actionPressed_def pressed_next_def bindingPressed_def list_ex_iff
      list_all_iff)

text \<open>
  The observer is told exactly what changed. Every operation of the engine reports to an
  attached observer, in the order of the actions, the actions whose state changed with their new
  state, each once, and nothing to a detached one; an input event of a usable control makes that
  control held or not held and leaves every other control as it was.
\<close>

theorem observer_told_exactly_changes:
  assumes "engine_reachable e" and "engine_step e changes e'"
  shows "changes = (if pb_observer e
       then map (\<lambda>a. action_change a (actionPressed e' a))
              (filter (\<lambda>a. actionPressed e' a \<noteq> actionPressed e a) all_actions)
       else []) \<and>
     (\<forall>event. onInputEvent event e = (changes, e') \<and> validControl (ie_control event) \<and>
        ic_device_id (ie_control event) \<noteq> [] \<longrightarrow>
        set (pb_pressed_controls e') =
          (if ie_pressed event then insert (ie_control event) (set (pb_pressed_controls e))
           else set (pb_pressed_controls e) - {ie_control event}))"
proof -
  note ok = engine_reachable_ok [OF assms(1)]
  have held: "set (pb_pressed_controls e') = set (held_after event e)"
    if "onInputEvent event e = (changes, e')" "validControl (ie_control event)"
      "ic_device_id (ie_control event) \<noteq> []" for event
    using that
    by (cases "ie_pressed event"; cases "ie_control event \<in> set (pb_pressed_controls e)")
      (auto simp: onInputEvent_def held_after_def recalculateLocked_def Let_def)
  show ?thesis
    using engine_step_ok(3) [OF assms(2) ok] held held_after_set [of e] ok
    by (auto simp: changes_between_def engine_ok_def)
qed

end
