(* ===== verification/Push_To_Talk_Delivery.thy ===== *)
theory Push_To_Talk_Delivery
  imports Push_To_Talk_Properties
begin

text \<open>
  The engine and the input together. An operation of the engine collects its changes under the lock
  and tells them to the input after unlocking; the raw-input thread and the thread that sets
  bindings or releases everything (\<open>apps/windows-client/src/client_session.cpp\<close>) run at the same
  time. A call that still has changes to tell is a list of pending changes; a step is one operation
  of the engine, or the delivery of the next change of one call, which holds the input's lock until
  the target has answered. The flag \<open>overlap\<close> tells whether an operation may begin while another
  call still has changes to tell.
\<close>

section \<open>Delivery\<close>

record 'w PushToTalkSystem =
  px_engine :: PushToTalkBindingEngine
  px_input :: AuthorizedPushToTalkInput
  px_world :: 'w
  px_pending :: "ActionChange list list"

inductive delivery_step ::
  "bool \<Rightarrow> 'w PushToTalkTarget \<Rightarrow> 'w PushToTalkSystem \<Rightarrow> 'w PushToTalkSystem \<Rightarrow> bool"
  for overlap p where
  operated:
    "overlap \<or> px_pending s = [] \<Longrightarrow> engine_step (px_engine s) changes e' \<Longrightarrow>
     delivery_step overlap p s
       (s\<lparr>px_engine := e', px_pending := px_pending s @ [changes]\<rparr>)"
| delivered:
    "px_pending s = xs @ (change # changes) # ys \<Longrightarrow>
     onPushToTalkActionChanged p change (px_input s, px_world s) = (r, i', w') \<Longrightarrow>
     delivery_step overlap p s
       (s\<lparr>px_input := i', px_world := w', px_pending := xs @ changes # ys\<rparr>)"
| returned:
    "px_pending s = xs @ [] # ys \<Longrightarrow> delivery_step overlap p s (s\<lparr>px_pending := xs @ ys\<rparr>)"

text \<open>At first nothing is bound, and the input observes the engine.\<close>

inductive delivery_reachable ::
  "bool \<Rightarrow> 'w PushToTalkTarget \<Rightarrow> 'w \<Rightarrow> 'w PushToTalkSystem \<Rightarrow> bool" for overlap p w where
  fresh:
    "delivery_reachable overlap p w
       \<lparr>px_engine = pb_setObserver True PushToTalkBindingEngine_ctor,
        px_input = AuthorizedPushToTalkInput_ctor, px_world = w, px_pending = []\<rparr>"
| step:
    "delivery_reachable overlap p w s \<Longrightarrow> delivery_step overlap p s s' \<Longrightarrow>
     delivery_reachable overlap p w s'"

section \<open>A target that keeps a record\<close>

text \<open>It answers a call as \<open>answer\<close> says and remembers what it was called for and whether it agreed.\<close>

datatype target_call = Called_press VoiceScope bool | Called_release bool

definition recording_target ::
  "(target_call list \<Rightarrow> VoiceSessionResult) \<Rightarrow> target_call list PushToTalkTarget" where
  "recording_target answer =
     \<lparr>pt_press = (\<lambda>sc calls. (answer calls, calls @ [Called_press sc (vs_successful (answer calls))])),
      pt_release = (\<lambda>calls. (answer calls, calls @ [Called_release (vs_successful (answer calls))]))\<rparr>"

text \<open>
  The scope that is requested of the target after these calls: that of an accepted press whose
  release has not been called yet, whatever the release answers. The outer \<open>None\<close> says that the
  calls do not alternate: a press while a scope was requested, or a release while none was.
\<close>

fun request_after :: "target_call \<Rightarrow> VoiceScope option \<Rightarrow> VoiceScope option option" where
  "request_after (Called_press sc accepted) None = Some (if accepted then Some sc else None)"
| "request_after (Called_release ended) (Some sc) = Some None"
| "request_after _ _ = None"

fun requests_after :: "target_call list \<Rightarrow> VoiceScope option \<Rightarrow> VoiceScope option option" where
  "requests_after [] sc = Some sc"
| "requests_after (call # calls) sc = Option.bind (request_after call sc) (requests_after calls)"

text \<open>
  The scope in which the target transmits after these calls: an accepted press starts a
  transmission, a successful release ends it, and a call that fails changes nothing.
\<close>

fun transmits_next :: "target_call \<Rightarrow> VoiceScope option \<Rightarrow> VoiceScope option" where
  "transmits_next (Called_press sc accepted) transmitting = (if accepted then Some sc else transmitting)"
| "transmits_next (Called_release ended) transmitting = (if ended then None else transmitting)"

definition transmits_after :: "target_call list \<Rightarrow> VoiceScope option" where
  "transmits_after calls = fold transmits_next calls None"

text \<open>The last call that was not a refused press is a release that failed.\<close>

fun refused_press :: "target_call \<Rightarrow> bool" where
  "refused_press (Called_press sc accepted) = (\<not> accepted)"
| "refused_press (Called_release ended) = False"

definition release_failed :: "target_call list \<Rightarrow> bool" where
  "release_failed calls =
     (case dropWhile refused_press (rev calls) of Called_release False # _ \<Rightarrow> True | _ \<Rightarrow> False)"

lemma requests_after_append [simp]:
  "requests_after (calls @ calls') sc = Option.bind (requests_after calls sc) (requests_after calls')"
  by (induction calls arbitrary: sc) (auto split: Option.bind_splits)

lemma transmits_after_append [simp]:
  "transmits_after (calls @ [call]) = transmits_next call (transmits_after calls)"
  by (simp add: transmits_after_def)

lemma release_failed_append [simp]:
  "release_failed (calls @ [Called_press sc accepted]) \<longleftrightarrow> \<not> accepted \<and> release_failed calls"
  "release_failed (calls @ [Called_release ended]) \<longleftrightarrow> \<not> ended"
  by (simp_all add: release_failed_def split: bool.splits)

lemma target_fresh [simp]: "transmits_after [] = None" "\<not> release_failed []"
  by (simp_all add: transmits_after_def release_failed_def)

section \<open>Invariants\<close>

definition target_agrees :: "target_call list \<Rightarrow> PushToTalkAction option \<Rightarrow> bool" where
  "target_agrees calls active \<longleftrightarrow>
     requests_after calls None = Some (map_option voiceScopeFor active) \<and>
     (\<forall>a. active = Some a \<longrightarrow> transmits_after calls = Some (voiceScopeFor a)) \<and>
     (active = None \<longrightarrow> (transmits_after calls \<noteq> None \<longleftrightarrow> release_failed calls))"

lemma changed_input:
  assumes "onPushToTalkActionChanged (recording_target answer) change (i, calls) = (r, i', calls')"
    and "target_agrees calls (pi_active_action i)"
  shows "target_agrees calls' (pi_active_action i')"
  using assms
  by (auto simp: target_agrees_def onPushToTalkActionChanged_def recording_target_def Let_def
      split: if_splits)

lemma target_follows_input:
  assumes "delivery_reachable overlap (recording_target answer) [] s"
  shows "target_agrees (px_world s) (pi_active_action (px_input s))"
  using assms
proof (induction rule: delivery_reachable.induct)
  case fresh
  then show ?case by (simp add: AuthorizedPushToTalkInput_ctor_def target_agrees_def)
next
  case (step s s')
  from step(2) show ?case
  proof cases
    case (delivered xs change changes ys r i' w')
    with changed_input [OF delivered(3) step(3)] show ?thesis by simp
  qed (use step(3) in simp_all)
qed

lemma delivery_engine:
  assumes "delivery_reachable overlap p w s"
  shows "engine_reachable (px_engine s)" and "pb_observer (px_engine s)"
proof -
  have "engine_reachable (px_engine s) \<and> pb_observer (px_engine s)"
    using assms
  proof (induction rule: delivery_reachable.induct)
    case fresh
    show ?case
      using engine_reachable.observed [OF engine_reachable.fresh, of True]
      by (simp add: pb_setObserver_def)
  next
    case (step s s')
    from step(2) show ?case
    proof cases
      case (operated changes e')
      with step(3) show ?thesis
        using engine_reachable.step [OF _ operated(3)]
          engine_step_ok(2) [OF operated(3) engine_reachable_ok] by simp
    qed (use step(3) in simp_all)
  qed
  then show "engine_reachable (px_engine s)" "pb_observer (px_engine s)" by simp_all
qed

text \<open>What is still to be told, when calls do not overlap, brings the input up to date.\<close>

definition tells_the_rest :: "PushToTalkBindingEngine \<Rightarrow> AuthorizedPushToTalkInput \<Rightarrow> ActionChange list \<Rightarrow> bool" where
  "tells_the_rest e i changes \<longleftrightarrow>
     (\<forall>change \<in> set changes. ax_pressed change = actionPressed e (ax_action change)) \<and>
     (\<forall>a. pi_active_action i = Some a \<longrightarrow> actionPressed e a \<or> action_change a False \<in> set changes)"

lemma tells_the_rest_deliver:
  assumes "tells_the_rest e i (change # changes)"
    and "onPushToTalkActionChanged p change (i, w) = (r, i', w')"
  shows "tells_the_rest e i' changes"
proof -
  have told: "ax_pressed change = actionPressed e (ax_action change)"
    using assms(1) by (simp add: tells_the_rest_def)
  have i': "i' = i \<or> i' = i\<lparr>pi_active_action := Some (ax_action change)\<rparr> \<and> ax_pressed change \<or>
      i' = i\<lparr>pi_active_action := None\<rparr>"
    and released: "\<not> ax_pressed change \<Longrightarrow> pi_active_action i' \<noteq> Some (ax_action change)"
    using assms(2)
    by (auto simp: onPushToTalkActionChanged_def Let_def case_prod_beta split: if_splits)
  show ?thesis
    unfolding tells_the_rest_def
  proof (intro conjI allI impI)
    show "\<forall>change \<in> set changes. ax_pressed change = actionPressed e (ax_action change)"
      using assms(1) by (simp add: tells_the_rest_def)
    show "actionPressed e a \<or> action_change a False \<in> set changes"
      if active: "pi_active_action i' = Some a" for a
    proof (cases "i' = i")
      case True
      have "change = action_change a False \<Longrightarrow> False"
        using released active by (simp add: action_change_def)
      with True active assms(1) show ?thesis by (auto simp: tells_the_rest_def)
    next
      case False
      then show ?thesis using i' active told by auto
    qed
  qed
qed

lemma serial_delivery:
  assumes "delivery_reachable False p w s"
  shows "px_pending s = [] \<and> tells_the_rest (px_engine s) (px_input s) [] \<or>
    (\<exists>changes. px_pending s = [changes] \<and> tells_the_rest (px_engine s) (px_input s) changes)"
  using assms
proof (induction rule: delivery_reachable.induct)
  case fresh
  then show ?case by (simp add: tells_the_rest_def AuthorizedPushToTalkInput_ctor_def)
next
  case (step s s')
  from step(2) show ?case
  proof cases
    case (operated changes e')
    have "changes = changes_between (px_engine s) e'"
      using engine_step_ok(3) [OF operated(3) engine_reachable_ok] delivery_engine [OF step(1)]
      by simp
    moreover have "a \<in> set all_actions" for a by (cases a) (simp_all add: all_actions_def)
    ultimately have "tells_the_rest e' (px_input s) changes"
      if "tells_the_rest (px_engine s) (px_input s) []"
      using that by (auto simp: tells_the_rest_def changes_between_def action_change_def)
    with operated step(3) show ?thesis by auto
  next
    case (delivered xs change changes ys r i' w')
    then have "px_pending s = [change # changes]" "xs = []" "ys = []"
      using step(3) by (auto simp: Cons_eq_append_conv append_eq_Cons_conv)
    then show ?thesis
      using delivered step(3) tells_the_rest_deliver [OF _ delivered(3)] by auto
  next
    case (returned xs ys)
    then show ?thesis using step(3) by (auto simp: Cons_eq_append_conv append_eq_Cons_conv)
  qed
qed

section \<open>Properties\<close>

text \<open>
  C18: push-to-talk follows the chords of a target that starts transmitting when it accepts a press
  and stops when it accepts a release, whatever it answers. However calls of the engine overlap, the
  input calls the target in turn: a press only when every accepted press has been followed by a release call, a
  release only when one has not. While the input has an active action, the target transmits for it;
  while it has none, the target transmits exactly when the last release it was called for failed
  (a refused press apart), because the input forgets its action whatever the release answers. When
  calls of the engine do not overlap, then between calls the active action has a chord held, so a
  transmission outlives its chord only when its release failed.
\<close>

theorem push_to_talk_follows_chords:
  assumes "delivery_reachable overlap (recording_target answer) [] s"
  shows "requests_after (px_world s) None =
       Some (map_option voiceScopeFor (pi_active_action (px_input s))) \<and>
     (\<forall>a. pi_active_action (px_input s) = Some a \<longrightarrow>
        transmits_after (px_world s) = Some (voiceScopeFor a)) \<and>
     (pi_active_action (px_input s) = None \<longrightarrow>
        (transmits_after (px_world s) \<noteq> None \<longleftrightarrow> release_failed (px_world s))) \<and>
     (\<not> overlap \<and> px_pending s = [] \<longrightarrow>
       (\<forall>a. pi_active_action (px_input s) = Some a \<longrightarrow>
          (\<exists>b \<in> set (pb_bindings (px_engine s)). ib_action b = a \<and> ib_chord b \<noteq> [] \<and>
             (\<forall>c \<in> set (ib_chord b). \<exists>h \<in> set (pb_pressed_controls (px_engine s)).
                heldControlMatches c h))))"
proof -
  note ok = engine_reachable_ok [OF delivery_engine(1) [OF assms]]
  have pressed: "actionPressed (px_engine s) a"
    if "\<not> overlap" "px_pending s = []" "pi_active_action (px_input s) = Some a" for a
    using serial_delivery [of "recording_target answer" "[]" s] assms that
    by (auto simp: tells_the_rest_def)
  have chord: "\<exists>b \<in> set (pb_bindings (px_engine s)). ib_action b = a \<and> ib_chord b \<noteq> [] \<and>
      (\<forall>c \<in> set (ib_chord b). \<exists>h \<in> set (pb_pressed_controls (px_engine s)). heldControlMatches c h)"
    if "actionPressed (px_engine s) a" for a
    using ok that
    by (fastforce simp: engine_ok_def actionPressed_def pressed_next_def bindingPressed_def
        list_ex_iff list_all_iff)
  from target_follows_input [OF assms] pressed chord show ?thesis
    unfolding target_agrees_def by blast
qed

text \<open>The key \<open>V\<close> of any keyboard for the team, and of the keyboard \<open>k\<close>.\<close>

definition sample_key :: "string \<Rightarrow> InputControl" where
  "sample_key device =
     \<lparr>ic_device_kind = Device_keyboard, ic_usage_page = 0, ic_code = 86, ic_extended = False,
      ic_device_id = device\<rparr>"

definition sample_bindings :: "InputBinding list" where
  "sample_bindings = [\<lparr>ib_action = Action_team, ib_chord = [sample_key []]\<rparr>]"

definition sample_press :: "bool \<Rightarrow> InputEvent" where
  "sample_press pressed =
     \<lparr>ie_control = sample_key ''k'', ie_pressed = pressed, ie_received_in_background = False\<rparr>"

abbreviation agreeing :: "target_call list PushToTalkTarget" where
  "agreeing \<equiv> recording_target (\<lambda>_. session_success None)"

definition sample_ptt ::
  "bool \<Rightarrow> PushToTalkAction option \<Rightarrow> target_call list \<Rightarrow> ActionChange list list \<Rightarrow>
   target_call list PushToTalkSystem" where
  "sample_ptt held active calls pending =
     \<lparr>px_engine = \<lparr>pb_observer = True, pb_bindings = sample_bindings, pb_devices = [],
        pb_pressed_controls = (if held then [sample_key ''k''] else []),
        pb_pressed_actions = (\<lambda>a. held \<and> a = Action_team)\<rparr>,
      px_input = \<lparr>pi_observer = False, pi_active_action = active\<rparr>,
      px_world = calls, px_pending = pending\<rparr>"

lemmas sample_ptt_defs = sample_ptt_def sample_bindings_def sample_press_def sample_key_def
  all_actions_def action_change_def pressed_next_def bindingPressed_def heldControlMatches_def
  recalculateLocked_def notify_def Let_def

lemma sample_binds: "delivery_reachable overlap p [] (sample_ptt False None [] [])"
proof -
  let ?s = "\<lparr>px_engine = pb_setObserver True PushToTalkBindingEngine_ctor,
      px_input = AuthorizedPushToTalkInput_ctor, px_world = [], px_pending = []\<rparr>
      :: target_call list PushToTalkSystem"
  have accepted: "validateBindings sample_bindings = []"
    by code_simp
  then have "setBindings sample_bindings (px_engine ?s) =
      ([], [], px_engine (sample_ptt False None [] []))"
    by (simp add: setBindings_def sample_ptt_defs pb_setObserver_def
        PushToTalkBindingEngine_ctor_def)
  from delivery_step.operated [OF _ engine_step.set_bindings [OF this], of overlap p]
  have "delivery_step overlap p ?s (sample_ptt False None [] [[]])"
    by (simp add: sample_ptt_def AuthorizedPushToTalkInput_ctor_def)
  from delivery_reachable.step [OF delivery_reachable.fresh this]
  have "delivery_reachable overlap p [] (sample_ptt False None [] [[]])" .
  moreover have "delivery_step overlap p (sample_ptt False None [] [[]])
      (sample_ptt False None [] [])"
    using delivery_step.returned [of "sample_ptt False None [] [[]]" "[]" "[]"]
    by (simp add: sample_ptt_def)
  ultimately show ?thesis by (rule delivery_reachable.step)
qed

lemma sample_key_pressed:
  "delivery_reachable overlap p []
     (sample_ptt True None [] [[action_change Action_team True]])"
proof -
  have "onInputEvent (sample_press True) (px_engine (sample_ptt False None [] [])) =
      ([action_change Action_team True], px_engine (sample_ptt True None [] []))"
    by (simp add: onInputEvent_def sample_ptt_defs validControl_def fun_eq_iff)
      (metis PushToTalkAction.exhaust)
  from delivery_step.operated [OF _ engine_step.input_event [OF this], of overlap p]
  have "delivery_step overlap p (sample_ptt False None [] [])
      (sample_ptt True None [] [[action_change Action_team True]])"
    by (simp add: sample_ptt_def)
  with sample_binds show ?thesis by (rule delivery_reachable.step)
qed

lemma sample_delivered:
  fixes p :: "target_call list PushToTalkTarget"
  assumes "pt_press p Team_scope [] = (session_success None, [Called_press Team_scope True])"
    and "delivery_reachable overlap p []
    (sample_ptt held None [] [[action_change Action_team True]])"
  shows "delivery_reachable overlap p []
    (sample_ptt held (Some Action_team) [Called_press Team_scope True] [])"
proof -
  have agreed: "vs_successful (session_success None)" by (simp add: session_success_def)
  have "delivery_step overlap p
      (sample_ptt held None [] [[action_change Action_team True]])
      (sample_ptt held (Some Action_team) [Called_press Team_scope True] [[]])"
    using delivery_step.delivered [of
        "sample_ptt held None [] [[action_change Action_team True]]" "[]"
        "action_change Action_team True" "[]" "[]" p None
        "\<lparr>pi_observer = False, pi_active_action = Some Action_team\<rparr>"
        "[Called_press Team_scope True]" overlap]
    by (simp add: sample_ptt_def onPushToTalkActionChanged_def action_change_def input_observed_def
        assms(1) agreed)
  moreover have "delivery_step overlap p
      (sample_ptt held (Some Action_team) [Called_press Team_scope True] [[]])
      (sample_ptt held (Some Action_team) [Called_press Team_scope True] [])"
    using delivery_step.returned [of
        "sample_ptt held (Some Action_team) [Called_press Team_scope True] [[]]" "[]" "[]"]
    by (simp add: sample_ptt_def)
  ultimately show ?thesis
    by (intro delivery_reachable.step [OF delivery_reachable.step [OF assms(2)]])
qed

lemma agreeing_press:
  "pt_press agreeing Team_scope [] = (session_success None, [Called_press Team_scope True])"
  by (simp add: recording_target_def session_success_def)

theorem push_to_talk_follows_chords_witness:
  "requests_after [Called_press Team_scope True] None = Some (Some Team_scope) \<and>
   transmits_after [Called_press Team_scope True] = Some Team_scope \<and>
   (\<exists>b \<in> set sample_bindings. ib_action b = Action_team \<and>
      (\<forall>c \<in> set (ib_chord b). heldControlMatches c (sample_key ''k'')))"
  using push_to_talk_follows_chords [OF sample_delivered [OF agreeing_press sample_key_pressed [of False]]]
  by (auto simp: sample_ptt_def)

text \<open>
  A press told late outlives its chord. When the key is pressed on the input thread and
  everything is released on another thread before the press is told, the input hears of the
  release first, ignores it, and then starts a transmission: nothing is held, no action is pressed,
  nothing is left to be told, and the target transmits.
\<close>

theorem late_press_outlives_its_chord:
  "\<exists>s. delivery_reachable True agreeing [] s \<and> px_pending s = [] \<and>
     pb_pressed_controls (px_engine s) = [] \<and> (\<forall>a. \<not> actionPressed (px_engine s) a) \<and>
     pi_active_action (px_input s) = Some Action_team \<and>
     transmits_after (px_world s) = Some Team_scope"
proof -
  let ?on = "action_change Action_team True" and ?off = "action_change Action_team False"
  have "releaseAll (px_engine (sample_ptt True None [] [[?on]])) =
      ([?off], px_engine (sample_ptt False None [] []))"
    by (simp add: releaseAll_def sample_ptt_defs fun_eq_iff)
  from delivery_step.operated [OF _ engine_step.release_all [OF this], of True agreeing]
  have "delivery_step True agreeing (sample_ptt True None [] [[?on]])
      (sample_ptt False None [] [[?on], [?off]])"
    by (simp add: sample_ptt_def)
  moreover have "delivery_step True agreeing (sample_ptt False None [] [[?on], [?off]])
      (sample_ptt False None [] [[?on], []])"
    using delivery_step.delivered [of "sample_ptt False None [] [[?on], [?off]]" "[[?on]]" ?off
        "[]" "[]" agreeing None "\<lparr>pi_observer = False, pi_active_action = None\<rparr>" "[]" True]
    by (simp add: sample_ptt_def onPushToTalkActionChanged_def action_change_def)
  moreover have "delivery_step True agreeing (sample_ptt False None [] [[?on], []])
      (sample_ptt False None [] [[?on]])"
    using delivery_step.returned [of "sample_ptt False None [] [[?on], []]" "[[?on]]" "[]"]
    by (simp add: sample_ptt_def)
  ultimately have "delivery_reachable True agreeing [] (sample_ptt False None [] [[?on]])"
    by (intro delivery_reachable.step [OF delivery_reachable.step [OF delivery_reachable.step
          [OF sample_key_pressed]]])
  from sample_delivered [OF agreeing_press this] show ?thesis
    by (intro exI [of _ "sample_ptt False (Some Action_team) [Called_press Team_scope True] []"])
      (simp add: sample_ptt_def actionPressed_def transmits_after_def)
qed

text \<open>
  A release that fails is not repeated. The target agrees to the press of the key and fails when
  it is released: no call overlaps another, nothing is held or left to be told, the input has no
  active action, and the target still transmits.
\<close>

definition failing_release :: "target_call list PushToTalkTarget" where
  "failing_release =
     recording_target (\<lambda>calls. if calls = [] then session_success None
       else session_refusal Source_voice_transport [] [])"

theorem failed_release_outlives_its_chord:
  "\<exists>s. delivery_reachable False failing_release [] s \<and> px_pending s = [] \<and>
     pb_pressed_controls (px_engine s) = [] \<and> (\<forall>a. \<not> actionPressed (px_engine s) a) \<and>
     pi_active_action (px_input s) = None \<and>
     transmits_after (px_world s) = Some Team_scope"
proof -
  let ?off = "action_change Action_team False"
  let ?w = "[Called_press Team_scope True]" and ?w' = "[Called_press Team_scope True, Called_release False]"
  have press: "pt_press failing_release Team_scope [] =
      (session_success None, [Called_press Team_scope True])"
    by (simp add: failing_release_def recording_target_def session_success_def)
  have release: "pt_release failing_release ?w = (session_refusal Source_voice_transport [] [], ?w')"
    by (simp add: failing_release_def recording_target_def session_refusal_def session_failure_def)
  have "onInputEvent (sample_press False) (px_engine (sample_ptt True (Some Action_team) ?w [])) =
      ([?off], px_engine (sample_ptt False (Some Action_team) ?w []))"
    by (simp add: onInputEvent_def sample_ptt_defs validControl_def fun_eq_iff)
  from delivery_step.operated [OF _ engine_step.input_event [OF this], of False failing_release]
  have "delivery_step False failing_release (sample_ptt True (Some Action_team) ?w [])
      (sample_ptt False (Some Action_team) ?w [[?off]])"
    by (simp add: sample_ptt_def)
  moreover have "delivery_step False failing_release (sample_ptt False (Some Action_team) ?w [[?off]])
      (sample_ptt False None ?w' [[]])"
    using delivery_step.delivered [of "sample_ptt False (Some Action_team) ?w [[?off]]" "[]" ?off
        "[]" "[]" failing_release None "\<lparr>pi_observer = False, pi_active_action = None\<rparr>" ?w' False]
    by (simp add: sample_ptt_def onPushToTalkActionChanged_def action_change_def input_observed_def
        release)
  moreover have "delivery_step False failing_release (sample_ptt False None ?w' [[]])
      (sample_ptt False None ?w' [])"
    using delivery_step.returned [of "sample_ptt False None ?w' [[]]" "[]" "[]"]
    by (simp add: sample_ptt_def)
  ultimately have "delivery_reachable False failing_release [] (sample_ptt False None ?w' [])"
    by (intro delivery_reachable.step [OF delivery_reachable.step [OF delivery_reachable.step
          [OF sample_delivered [OF press sample_key_pressed]]]])
  moreover have "transmits_after ?w' = Some Team_scope" by (simp add: transmits_after_def)
  ultimately show ?thesis
    by (intro exI [of _ "sample_ptt False None ?w' []"]) (simp add: sample_ptt_def actionPressed_def)
qed

theorem pressed_iff_chord_held_witness:
  "actionPressed (px_engine (sample_ptt True None [] [])) Action_team \<and>
   \<not> actionPressed (px_engine (sample_ptt False None [] [])) Action_team"
proof -
  have "engine_reachable (px_engine (sample_ptt True None [] []))"
      "engine_reachable (px_engine (sample_ptt False None [] []))"
    using delivery_engine(1) [OF sample_binds [of False]]
      delivery_engine(1) [OF sample_key_pressed [of False]] by (simp_all add: sample_ptt_def)
  note pressed = this [THEN pressed_iff_chord_held, of Action_team]
  have chord: "(\<exists>b \<in> set sample_bindings. ib_action b = Action_team \<and>
      (\<forall>c \<in> set (ib_chord b). \<exists>h \<in> {sample_key ''k''}. heldControlMatches c h))"
    by (simp add: sample_bindings_def sample_key_def heldControlMatches_def)
  show ?thesis
    using pressed chord by (auto simp: sample_ptt_def)
qed

theorem bindings_accepted_iff_witness:
  "validateBindings sample_bindings = [] \<and> validateBindings (sample_bindings @ sample_bindings) \<noteq> []"
  using bindings_accepted_iff [of sample_bindings]
    bindings_accepted_iff [of "sample_bindings @ sample_bindings"]
  by (simp add: sample_bindings_def sample_key_def validControl_def)

theorem observer_told_exactly_changes_witness:
  "set (pb_pressed_controls (px_engine (sample_ptt True None [] []))) = {sample_key ''k''}"
proof -
  have event: "onInputEvent (sample_press True) (px_engine (sample_ptt False None [] [])) =
      ([action_change Action_team True], px_engine (sample_ptt True None [] []))"
    by (simp add: onInputEvent_def sample_ptt_defs validControl_def fun_eq_iff)
      (metis PushToTalkAction.exhaust)
  have key: "validControl (sample_key ''k'')" "ic_device_id (sample_key ''k'') = ''k''"
    by (simp_all add: validControl_def sample_key_def)
  show ?thesis
    using observer_told_exactly_changes [OF delivery_engine(1) [OF sample_binds]
        engine_step.input_event [OF event]] event key
    by (auto simp: sample_press_def sample_ptt_def)
qed

text \<open>
  Chords that overlap in another order are not noticed: a chord of \<open>V\<close> on any keyboard and \<open>V\<close> on
  keyboard \<open>a\<close>, and one of \<open>V\<close> on keyboards \<open>a\<close> and \<open>b\<close>, are accepted for different actions, and
  holding \<open>V\<close> on both keyboards presses both.
\<close>

theorem overlapping_chords_accepted:
  "validateBindings
     [\<lparr>ib_action = Action_team, ib_chord = [sample_key [], sample_key ''a'']\<rparr>,
      \<lparr>ib_action = Action_group, ib_chord = [sample_key ''a'', sample_key ''b'']\<rparr>] = [] \<and>
   (\<forall>b \<in> {\<lparr>ib_action = Action_team, ib_chord = [sample_key [], sample_key ''a'']\<rparr>,
           \<lparr>ib_action = Action_group, ib_chord = [sample_key ''a'', sample_key ''b'']\<rparr>}.
      bindingPressed b [sample_key ''a'', sample_key ''b''])"
proof -
  have "control_key (sample_key []) \<le> control_key (sample_key ''a'')"
    "control_key (sample_key ''a'') \<le> control_key (sample_key ''b'')"
    by (simp_all add: control_key_def sample_key_def)
  then have "normalizedChord \<lparr>ib_action = x, ib_chord = [sample_key [], sample_key ''a'']\<rparr> =
      [sample_key [], sample_key ''a'']"
    "normalizedChord \<lparr>ib_action = x, ib_chord = [sample_key ''a'', sample_key ''b'']\<rparr> =
      [sample_key ''a'', sample_key ''b'']" for x
    by (simp_all add: normalizedChord_def)
  then show ?thesis
    by (simp add: validateBindings_def Let_def chord_errors_def sample_key_def validControl_def
        chordsOverlap_def controlsOverlap_def bindingPressed_def heldControlMatches_def)
qed

end
