(* ===== verification/Hmac_Sha256.thy ===== *)
theory Hmac_Sha256
  imports Complex_Main Hvc_Prelude Json_Text
begin

text \<open>
  SHA-256, HMAC-SHA-256 and the URL-safe base64 of \<open>libs/livekit/src/livekit_token.cpp\<close>, written as
  the code has them, over \<open>uint8_t\<close> and \<open>uint32_t\<close>. The reference definitions after them are those of
  FIPS 180-4, RFC 2104 and RFC 4648 and share no table with the code: the constants of the hash are
  computed from the roots of the first primes. The theorems show that the code computes the references
  and that what is encoded is decoded again.
\<close>

unbundle bit_operations_syntax

section \<open>The code\<close>

text \<open>A \<open>char\<close> is a byte.\<close>

definition bytes_of :: "string \<Rightarrow> u8 list" where
  "bytes_of s = map (\<lambda>c. word_of_nat (byte c)) s"

definition chars_of :: "u8 list \<Rightarrow> string" where
  "chars_of bs = map (\<lambda>b. char_of (unat b)) bs"

definition round_constants :: "u32 list" where
  "round_constants =
     [0x428a2f98, 0x71374491, 0xb5c0fbcf, 0xe9b5dba5, 0x3956c25b, 0x59f111f1,
      0x923f82a4, 0xab1c5ed5, 0xd807aa98, 0x12835b01, 0x243185be, 0x550c7dc3,
      0x72be5d74, 0x80deb1fe, 0x9bdc06a7, 0xc19bf174, 0xe49b69c1, 0xefbe4786,
      0x0fc19dc6, 0x240ca1cc, 0x2de92c6f, 0x4a7484aa, 0x5cb0a9dc, 0x76f988da,
      0x983e5152, 0xa831c66d, 0xb00327c8, 0xbf597fc7, 0xc6e00bf3, 0xd5a79147,
      0x06ca6351, 0x14292967, 0x27b70a85, 0x2e1b2138, 0x4d2c6dfc, 0x53380d13,
      0x650a7354, 0x766a0abb, 0x81c2c92e, 0x92722c85, 0xa2bfe8a1, 0xa81a664b,
      0xc24b8b70, 0xc76c51a3, 0xd192e819, 0xd6990624, 0xf40e3585, 0x106aa070,
      0x19a4c116, 0x1e376c08, 0x2748774c, 0x34b0bcb5, 0x391c0cb3, 0x4ed8aa4a,
      0x5b9cca4f, 0x682e6ff3, 0x748f82ee, 0x78a5636f, 0x84c87814, 0x8cc70208,
      0x90befffa, 0xa4506ceb, 0xbef9a3f7, 0xc67178f2]"

text \<open>The loop that pads to 56 bytes of the last block.\<close>

lemma padding_measure:
  assumes "n mod 64 \<noteq> 56"
  shows "63 - (Suc n + 7) mod 64 < 63 - (n + 7) mod (64 :: nat)"
proof -
  have "(n + 7) mod 64 \<noteq> 63"
  proof
    assume "(n + 7) mod 64 = 63"
    then have "n + 7 = 64 * ((n + 7) div 64) + 63"
      using mult_div_mod_eq [of 64 "n + 7"] by simp
    then have "n = 64 * ((n + 7) div 64) + 56" by simp
    then have "n mod 64 = 56" by (metis mod_mult_self4 mod_less numeral_less_iff semiring_norm(76,78,81))
    with assms show False by simp
  qed
  moreover have "(n + 7) mod 64 < 64" by simp
  moreover have "(Suc n + 7) mod 64 = (if (n + 7) mod 64 = 63 then 0 else Suc ((n + 7) mod 64))"
    using mod_Suc [of "n + 7" 64] by simp
  ultimately show ?thesis by auto
qed

function zero_padding :: "nat \<Rightarrow> u8 list" where
  "zero_padding n = (if n mod 64 \<noteq> 56 then 0 # zero_padding (n + 1) else [])"
  by auto
termination
  by (relation "measure (\<lambda>n. 63 - (n + 7) mod 64)") (use padding_measure in simp_all)

declare zero_padding.simps [simp del]

definition pad_message :: "u8 list \<Rightarrow> u8 list" where
  "pad_message input =
     (let bit_length = word_of_nat (length input) * 8 :: u64;
          message = input @ [0x80];
          padded = message @ zero_padding (length message)
      in padded @ map (\<lambda>shift. ucast (drop_bit shift bit_length)) [56, 48, 40, 32, 24, 16, 8, 0])"

definition word_at :: "u8 list \<Rightarrow> nat \<Rightarrow> u32" where
  "word_at message byte_offset =
     push_bit 24 (ucast (message ! byte_offset)) OR
     push_bit 16 (ucast (message ! (byte_offset + 1))) OR
     push_bit 8 (ucast (message ! (byte_offset + 2))) OR
     ucast (message ! (byte_offset + 3))"

text \<open>The array of 64 words is filled from the front, each from earlier ones.\<close>

definition next_word :: "u32 list \<Rightarrow> nat \<Rightarrow> u32" where
  "next_word ws index =
     (let left = word_rotr 7 (ws ! (index - 15)) XOR word_rotr 18 (ws ! (index - 15)) XOR
                 drop_bit 3 (ws ! (index - 15));
          right = word_rotr 17 (ws ! (index - 2)) XOR word_rotr 19 (ws ! (index - 2)) XOR
                  drop_bit 10 (ws ! (index - 2))
      in ws ! (index - 16) + left + ws ! (index - 7) + right)"

definition message_words :: "u8 list \<Rightarrow> nat \<Rightarrow> u32 list" where
  "message_words message offset =
     foldl (\<lambda>ws index. ws @ [next_word ws index])
       (map (\<lambda>index. word_at message (offset + index * 4)) [0..<16]) [16..<64]"

type_synonym sha_state = "u32 \<times> u32 \<times> u32 \<times> u32 \<times> u32 \<times> u32 \<times> u32 \<times> u32"

definition sha_round :: "u32 list \<Rightarrow> sha_state \<Rightarrow> nat \<Rightarrow> sha_state" where
  "sha_round ws = (\<lambda>(a, b, c, d, e, f, g, h) index.
     let sum1 = word_rotr 6 e XOR word_rotr 11 e XOR word_rotr 25 e;
         choice = (e AND f) XOR (NOT e AND g);
         temp1 = h + sum1 + choice + round_constants ! index + ws ! index;
         sum0 = word_rotr 2 a XOR word_rotr 13 a XOR word_rotr 22 a;
         majority = (a AND b) XOR (a AND c) XOR (b AND c);
         temp2 = sum0 + majority
     in (temp1 + temp2, a, b, c, d + temp1, e, f, g))"

definition sha_block :: "u8 list \<Rightarrow> nat \<Rightarrow> sha_state \<Rightarrow> sha_state" where
  "sha_block message offset st =
     (let ws = message_words message offset;
          (a, b, c, d, e, f, g, h) = st;
          (a', b', c', d', e', f', g', h') = foldl (sha_round ws) st [0..<64]
      in (a + a', b + b', c + c', d + d', e + e', f + f', g + g', h + h'))"

function sha_blocks :: "u8 list \<Rightarrow> nat \<Rightarrow> sha_state \<Rightarrow> sha_state" where
  "sha_blocks message offset st =
     (if offset < length message
      then sha_blocks message (offset + 64) (sha_block message offset st) else st)"
  by auto
termination
  by (relation "measure (\<lambda>(message, offset, st). length message - offset)") auto

declare sha_blocks.simps [simp del]

definition sha_initial :: sha_state where
  "sha_initial =
     (0x6a09e667, 0xbb67ae85, 0x3c6ef372, 0xa54ff53a,
      0x510e527f, 0x9b05688c, 0x1f83d9ab, 0x5be0cd19)"

definition word_bytes :: "u32 \<Rightarrow> u8 list" where
  "word_bytes w = [ucast (drop_bit 24 w), ucast (drop_bit 16 w), ucast (drop_bit 8 w), ucast w]"

definition sha256 :: "u8 list \<Rightarrow> u8 list" where
  "sha256 input =
     (let (a, b, c, d, e, f, g, h) = sha_blocks (pad_message input) 0 sha_initial
      in concat (map word_bytes [a, b, c, d, e, f, g, h]))"

definition hmacSha256 :: "u8 list \<Rightarrow> u8 list \<Rightarrow> u8 list" where
  "hmacSha256 key message =
     (let short = (if 64 < length key then sha256 key else key);
          normalized = short @ replicate (64 - length short) 0;
          inner = map (\<lambda>b. b XOR 0x36) normalized @ message;
          outer = map (\<lambda>b. b XOR 0x5c) normalized @ sha256 inner
      in sha256 outer)"

section \<open>Base64\<close>

definition base64_alphabet :: string where
  "base64_alphabet = ''ABCDEFGHIJKLMNOPQRSTUVWXYZabcdefghijklmnopqrstuvwxyz0123456789-_''"

definition base64_char :: "u32 \<Rightarrow> char" where
  "base64_char v = base64_alphabet ! unat (v AND 63)"

text \<open>A step of the loop reads up to three bytes.\<close>

fun base64Url :: "u8 list \<Rightarrow> string" where
  "base64Url [] = []"
| "base64Url [x] =
     (let v = push_bit 16 (ucast x) :: u32
      in [base64_char (drop_bit 18 v), base64_char (drop_bit 12 v)])"
| "base64Url [x, y] =
     (let v = push_bit 16 (ucast x) OR push_bit 8 (ucast y) :: u32
      in [base64_char (drop_bit 18 v), base64_char (drop_bit 12 v), base64_char (drop_bit 6 v)])"
| "base64Url (x # y # z # bs) =
     (let v = push_bit 16 (ucast x) OR push_bit 8 (ucast y) OR ucast z :: u32
      in [base64_char (drop_bit 18 v), base64_char (drop_bit 12 v), base64_char (drop_bit 6 v),
          base64_char v] @ base64Url bs)"

section \<open>The standards\<close>

text \<open>
  FIPS 180-4: the message is followed by a one bit, the least number of zero bits that leaves 64 bits
  of the last block, and the length; the schedule is the recurrence for \<open>W\<close>; choice and majority are
  given bit by bit. The constants of the rounds and the initial hash value are the first 32 bits of
  the fractional parts of the cube roots of the first 64 primes and of the square roots of the first
  eight.
\<close>

definition is_prime :: "nat \<Rightarrow> bool" where
  "is_prime n \<longleftrightarrow> 1 < n \<and> (\<forall>d \<in> {2..<n}. \<not> d dvd n)"

definition fips_primes :: "nat list" where
  "fips_primes = filter is_prime [2..<312]"

definition fips_fraction :: "nat \<Rightarrow> nat \<Rightarrow> u32" where
  "fips_fraction n p = word_of_int \<lfloor>2 ^ 32 * frac (root n (real p))\<rfloor>"

definition fips_constants :: "u32 list" where
  "fips_constants = map (fips_fraction 3) fips_primes"

definition fips_initial :: sha_state where
  "fips_initial =
     (let h = \<lambda>i. fips_fraction 2 (fips_primes ! i)
      in (h 0, h 1, h 2, h 3, h 4, h 5, h 6, h 7))"

definition fips_choice :: "u32 \<Rightarrow> u32 \<Rightarrow> u32 \<Rightarrow> u32 \<Rightarrow> bool" where
  "fips_choice x y z w \<longleftrightarrow> (\<forall>i < 32. bit w i = (if bit x i then bit y i else bit z i))"

definition fips_majority :: "u32 \<Rightarrow> u32 \<Rightarrow> u32 \<Rightarrow> u32 \<Rightarrow> bool" where
  "fips_majority x y z w \<longleftrightarrow>
     (\<forall>i < 32. bit w i = (2 \<le> length (filter id [bit x i, bit y i, bit z i])))"

definition fips_padding :: "u8 list \<Rightarrow> u8 list" where
  "fips_padding m =
     m @ [0x80] @ replicate ((119 - length m mod 64) mod 64) 0 @
     rev (map (\<lambda>i. word_of_nat (8 * length m div 256 ^ i)) [0..<8])"

definition big_endian :: "u8 list \<Rightarrow> u32" where
  "big_endian bs = word_of_nat (foldl (\<lambda>n b. 256 * n + unat b) 0 bs)"

fun fips_schedule :: "u8 list \<Rightarrow> nat \<Rightarrow> u32" where
  "fips_schedule block t =
     (if t < 16 then big_endian (take 4 (drop (4 * t) block))
      else
        (word_rotr 17 (fips_schedule block (t - 2)) XOR word_rotr 19 (fips_schedule block (t - 2)) XOR
         drop_bit 10 (fips_schedule block (t - 2))) + fips_schedule block (t - 7) +
        (word_rotr 7 (fips_schedule block (t - 15)) XOR word_rotr 18 (fips_schedule block (t - 15)) XOR
         drop_bit 3 (fips_schedule block (t - 15))) + fips_schedule block (t - 16))"

declare fips_schedule.simps [simp del]

text \<open>The state after \<open>t\<close> rounds on a block, and after \<open>n\<close> blocks, as the standard's recurrences.\<close>

fun fips_rounds :: "u8 list \<Rightarrow> sha_state \<Rightarrow> nat \<Rightarrow> sha_state" where
  "fips_rounds block st 0 = st"
| "fips_rounds block st (Suc t) =
     (let (a, b, c, d, e, f, g, h) = fips_rounds block st t;
          t1 = h + (word_rotr 6 e XOR word_rotr 11 e XOR word_rotr 25 e) +
               ((e AND f) XOR (NOT e AND g)) + fips_constants ! t + fips_schedule block t;
          t2 = (word_rotr 2 a XOR word_rotr 13 a XOR word_rotr 22 a) +
               ((a AND b) XOR (a AND c) XOR (b AND c))
      in (t1 + t2, a, b, c, d + t1, e, f, g))"

definition add_states :: "sha_state \<Rightarrow> sha_state \<Rightarrow> sha_state" where
  "add_states = (\<lambda>(a, b, c, d, e, f, g, h) (a', b', c', d', e', f', g', h').
     (a + a', b + b', c + c', d + d', e + e', f + f', g + g', h + h'))"

fun fips_hash :: "u8 list \<Rightarrow> nat \<Rightarrow> sha_state" where
  "fips_hash message 0 = fips_initial"
| "fips_hash message (Suc i) =
     add_states (fips_hash message i)
       (fips_rounds (take 64 (drop (64 * i) message)) (fips_hash message i) 64)"

definition fips_sha256 :: "u8 list \<Rightarrow> u8 list" where
  "fips_sha256 m =
     (let padded = fips_padding m; (a, b, c, d, e, f, g, h) = fips_hash padded (length padded div 64)
      in concat (map (\<lambda>w. map (\<lambda>i. ucast (drop_bit i w)) [24, 16, 8, 0]) [a, b, c, d, e, f, g, h]))"

text \<open>
  RFC 2104 over a hash function with blocks of \<open>block\<close> bytes: the key, hashed when it is longer than a
  block, is padded with zero bytes to a block and xored with \<open>ipad\<close> and \<open>opad\<close>.
\<close>

definition rfc2104_hmac :: "(u8 list \<Rightarrow> u8 list) \<Rightarrow> nat \<Rightarrow> u8 list \<Rightarrow> u8 list \<Rightarrow> u8 list" where
  "rfc2104_hmac hash block key text =
     (let key' = (if block < length key then hash key else key);
          padded = key' @ replicate (block - length key') 0;
          ipad = replicate block 0x36;
          opad = replicate block 0x5c
      in hash (map2 (XOR) padded opad @ hash (map2 (XOR) padded ipad @ text)))"

section \<open>The constants\<close>

lemma is_prime_iff:
  assumes "n < 324"
  shows "is_prime n \<longleftrightarrow> 1 < n \<and> list_all (\<lambda>d. n \<le> d \<or> n mod d \<noteq> 0) [2, 3, 5, 7, 11, 13, 17]"
proof
  assume prime: "is_prime n"
  have "n \<le> d \<or> n mod d \<noteq> 0" if "d \<in> set [2, 3, 5, 7, 11, 13, 17]" for d
  proof -
    have "2 \<le> d" using that by auto
    with prime show ?thesis
      unfolding is_prime_def by (metis atLeastLessThan_iff dvd_eq_mod_eq_0 not_le)
  qed
  with prime show "1 < n \<and> list_all (\<lambda>d. n \<le> d \<or> n mod d \<noteq> 0) [2, 3, 5, 7, 11, 13, 17]"
    unfolding list_all_iff is_prime_def by blast
next
  assume small: "1 < n \<and> list_all (\<lambda>d. n \<le> d \<or> n mod d \<noteq> 0) [2, 3, 5, 7, 11, 13, 17]"
  have no: False if d: "2 \<le> d" "d \<le> 17" "d < n" "d dvd n" for d
  proof -
    have "list_all (\<lambda>d. list_ex (\<lambda>p. p dvd d) [2, 3, 5, 7, 11, 13, 17]) [2..<18 :: nat]" by simp
    moreover have "d \<in> set [2..<18]" unfolding set_upt using d(1,2) by simp
    ultimately obtain p where p: "p \<in> set [2, 3, 5, 7, 11, 13, 17]" "p dvd d"
      unfolding list_all_iff list_ex_iff by blast
    have "n \<le> p \<or> n mod p \<noteq> 0" using small p(1) unfolding list_all_iff by blast
    moreover have "p \<le> d" using d(1) p(2) by (simp add: dvd_imp_le)
    moreover have "n mod p = 0" using dvd_trans [OF p(2) d(4)] by (simp only: dvd_eq_mod_eq_0)
    ultimately show False using d(3) by simp
  qed
  have "\<not> d dvd n" if d: "2 \<le> d" "d < n" for d
  proof
    assume "d dvd n"
    then obtain e where n: "n = d * e" by (rule dvdE)
    have "e \<noteq> 0" "e \<noteq> 1" using n d by auto
    then have "2 \<le> e" by linarith
    have "1 * e < d * e" using d(1) \<open>2 \<le> e\<close> by (intro mult_strict_right_mono) simp_all
    with n \<open>2 \<le> e\<close> have e: "2 \<le> e" "e < n" "e dvd n" by simp_all
    have "d \<le> 17 \<or> e \<le> 17"
    proof (rule ccontr)
      assume "\<not> (d \<le> 17 \<or> e \<le> 17)"
      then have "18 * 18 \<le> d * e" by (intro mult_le_mono) simp_all
      with assms n show False by simp
    qed
    with no d e \<open>d dvd n\<close> show False by blast
  qed
  with small show "is_prime n" by (simp add: is_prime_def)
qed

lemma fips_primes_eq: "fips_primes =
     [2, 3, 5, 7, 11, 13, 17, 19, 23, 29, 31, 37, 41, 43, 47, 53, 59, 61, 67, 71, 73, 79,
      83, 89, 97, 101, 103, 107, 109, 113, 127, 131, 137, 139, 149, 151, 157, 163, 167, 173,
      179, 181, 191, 193, 197, 199, 211, 223, 227, 229, 233, 239, 241, 251, 257, 263, 269,
      271, 277, 281, 283, 293, 307, 311]"
  by (simp add: fips_primes_def is_prime_iff)

lemma floor_root:
  assumes "0 < n" and "k ^ n \<le> p * 2 ^ (32 * n)" and "p * 2 ^ (32 * n) < (k + 1) ^ n"
  shows "fips_fraction n p = word_of_nat k"
proof -
  let ?x = "2 ^ 32 * root n (real p)"
  have x: "?x ^ n = real (p * 2 ^ (32 * n))" "0 \<le> ?x"
    using assms(1) by (simp_all add: power_mult_distrib power_mult)
  have "\<lfloor>?x\<rfloor> = int k"
  proof (rule floor_unique)
    have "real k ^ n \<le> ?x ^ n" unfolding x(1) using assms(2) by (metis of_nat_le_iff of_nat_power)
    then show "real_of_int (int k) \<le> ?x" using x(2) assms(1) power_mono_iff [of "real k" ?x n] by simp
    have "?x ^ n < real (k + 1) ^ n" unfolding x(1) using assms(3) by (metis of_nat_less_iff of_nat_power)
    then show "?x < real_of_int (int k) + 1" using power_less_imp_less_base [of ?x n "real (k + 1)"] by simp
  qed
  moreover have "\<lfloor>2 ^ 32 * frac (root n (real p))\<rfloor> = \<lfloor>?x\<rfloor> - 2 ^ 32 * \<lfloor>root n (real p)\<rfloor>"
  proof -
    have "2 ^ 32 * frac (root n (real p)) = ?x - of_int (2 ^ 32 * \<lfloor>root n (real p)\<rfloor>)"
      by (simp add: frac_def algebra_simps)
    then show ?thesis by (simp only: floor_diff_of_int)
  qed
  ultimately have "fips_fraction n p = word_of_int (int k - 2 ^ 32 * \<lfloor>root n (real p)\<rfloor>)"
    by (simp add: fips_fraction_def)
  moreover have "(2 :: u32) ^ 32 = 0" unfolding exp_eq_zero_iff by simp
  ultimately show ?thesis
    by (simp only: of_int_diff of_int_mult of_int_power of_int_numeral of_int_of_nat_eq
        mult_zero_left diff_zero)
qed

lemma fractions:
  assumes "0 < n" and "list_all2 (\<lambda>p k. k ^ n \<le> p * 2 ^ (32 * n) \<and> p * 2 ^ (32 * n) < (k + 1) ^ n) ps ks"
  shows "map (fips_fraction n) ps = map word_of_nat ks"
  using assms(2) by (induction rule: list_all2_induct) (simp_all add: floor_root [OF assms(1)])

lemma fips_constants_roots: "fips_constants = map word_of_nat
     [0x1428a2f98, 0x171374491, 0x1b5c0fbcf, 0x1e9b5dba5, 0x23956c25b, 0x259f111f1,
      0x2923f82a4, 0x2ab1c5ed5, 0x2d807aa98, 0x312835b01, 0x3243185be, 0x3550c7dc3,
      0x372be5d74, 0x380deb1fe, 0x39bdc06a7, 0x3c19bf174, 0x3e49b69c1, 0x3efbe4786,
      0x40fc19dc6, 0x4240ca1cc, 0x42de92c6f, 0x44a7484aa, 0x45cb0a9dc, 0x476f988da,
      0x4983e5152, 0x4a831c66d, 0x4b00327c8, 0x4bf597fc7, 0x4c6e00bf3, 0x4d5a79147,
      0x506ca6351, 0x514292967, 0x527b70a85, 0x52e1b2138, 0x54d2c6dfc, 0x553380d13,
      0x5650a7354, 0x5766a0abb, 0x581c2c92e, 0x592722c85, 0x5a2bfe8a1, 0x5a81a664b,
      0x5c24b8b70, 0x5c76c51a3, 0x5d192e819, 0x5d6990624, 0x5f40e3585, 0x6106aa070,
      0x619a4c116, 0x61e376c08, 0x62748774c, 0x634b0bcb5, 0x6391c0cb3, 0x64ed8aa4a,
      0x65b9cca4f, 0x6682e6ff3, 0x6748f82ee, 0x678a5636f, 0x684c87814, 0x68cc70208,
      0x690befffa, 0x6a4506ceb, 0x6bef9a3f7, 0x6c67178f2]"
  unfolding fips_constants_def fips_primes_eq by (rule fractions) simp_all

lemma square_roots: "map (fips_fraction 2) (take 8 fips_primes) = map word_of_nat
     [0x16a09e667, 0x1bb67ae85, 0x23c6ef372, 0x2a54ff53a, 0x3510e527f, 0x39b05688c,
      0x41f83d9ab, 0x45be0cd19]"
  unfolding fips_primes_eq by (rule fractions) simp_all

lemma round_constants_are_fips: "round_constants = fips_constants"
  unfolding fips_constants_roots round_constants_def by simp

lemma sha_initial_is_fips: "sha_initial = fips_initial"
proof -
  have "fips_fraction 2 (fips_primes ! i) = map (fips_fraction 2) (take 8 fips_primes) ! i"
    if "i < 8" for i
  proof -
    have "length fips_primes = 64" by (simp add: fips_primes_eq)
    with that show ?thesis by simp
  qed
  then show ?thesis
    by (simp add: fips_initial_def sha_initial_def square_roots)
qed

section \<open>The code computes SHA-256\<close>

text \<open>The number of zero bytes that follow \<open>n\<close> bytes.\<close>

definition zero_count :: "nat \<Rightarrow> nat" where
  "zero_count n = (if n mod 64 \<le> 56 then 56 - n mod 64 else 120 - n mod 64)"

lemma zero_count_Suc: "n mod 64 \<noteq> 56 \<Longrightarrow> zero_count n = Suc (zero_count (Suc n))"
  unfolding zero_count_def mod_Suc using mod_less_divisor [of 64 n] by auto

lemma zero_padding_eq: "zero_padding n = replicate (zero_count n) 0"
proof (induction n rule: zero_padding.induct)
  case (1 n)
  show ?case
  proof (cases "n mod 64 = 56")
    case True
    then show ?thesis by (subst zero_padding.simps) (simp add: zero_count_def)
  next
    case False
    with 1 zero_count_Suc [OF False] show ?thesis by (subst zero_padding.simps) simp
  qed
qed

lemma fips_zero_count: "(119 - n mod 64) mod 64 = zero_count (Suc n)"
proof (cases "n mod 64 \<le> 55")
  case True
  then have "119 - n mod 64 = 64 + (55 - n mod 64)" by simp
  then have "(119 - n mod 64) mod 64 = 55 - n mod 64" by (simp only: mod_add_self1) simp
  with True show ?thesis by (simp add: zero_count_def mod_Suc)
next
  case False
  then show ?thesis
    using mod_less_divisor [of 64 n] by (auto simp: zero_count_def mod_Suc)
qed

lemma bit_length_bytes:
  assumes "length m < 2 ^ 61"
  shows "map (\<lambda>shift. ucast (drop_bit shift (word_of_nat (length m) * 8 :: u64)) :: u8)
      [56, 48, 40, 32, 24, 16, 8, 0] =
    rev (map (\<lambda>i. word_of_nat (8 * length m div 256 ^ i)) [0..<8])"
proof -
  have n: "unat (word_of_nat (length m) * 8 :: u64) = 8 * length m"
    using assms by (simp add: unat_word_ariths unat_of_nat take_bit_eq_mod)
  have "ucast (drop_bit (8 * i) (word_of_nat (length m) * 8 :: u64)) =
      (word_of_nat (8 * length m div 256 ^ i) :: u8)" for i
  proof -
    have "unat (drop_bit (8 * i) (word_of_nat (length m) * 8 :: u64)) = 8 * length m div 256 ^ i"
      unfolding unsigned_drop_bit_eq n
      using assms by (simp add: drop_bit_eq_div power_mult take_bit_eq_mod)
    then show ?thesis by (metis of_nat_unat)
  qed
  from this [of 7] this [of 6] this [of 5] this [of 4] this [of 3] this [of 2] this [of 1] this [of 0]
  show ?thesis by (simp add: upt_rec)
qed

lemma padding_is_fips: "length m < 2 ^ 61 \<Longrightarrow> pad_message m = fips_padding m"
  using bit_length_bytes [of m]
  by (simp add: pad_message_def fips_padding_def zero_padding_eq fips_zero_count Let_def)

lemma choice_is_fips: "fips_choice x y z ((x AND y) XOR (NOT x AND z))"
  by (auto simp: fips_choice_def bit_simps)

lemma majority_is_fips: "fips_majority x y z ((x AND y) XOR (x AND z) XOR (y AND z))"
  by (auto simp: fips_majority_def bit_simps)

lemma fips_padding_length: "length (fips_padding m) mod 64 = 0"
proof -
  have "(n + zero_count (Suc n) + 9) mod 64 = 0" for n
  proof -
    obtain q r where n: "n = 64 * q + r" "r < 64" by (metis mod_less_divisor mult_div_mod_eq zero_less_numeral)
    then show ?thesis unfolding zero_count_def mod_Suc by auto
  qed
  from this [of "length m"] show ?thesis
    by (simp add: fips_padding_def fips_zero_count ac_simps)
qed

lemma four_bytes:
  fixes a b c d :: u8
  shows "push_bit 24 (ucast a) OR push_bit 16 (ucast b) OR push_bit 8 (ucast c) OR ucast d =
    (push_bit 24 (ucast a) + (push_bit 16 (ucast b) + (push_bit 8 (ucast c) + ucast d)) :: u32)"
proof -
  have "push_bit 8 (ucast c) + ucast d = (push_bit 8 (ucast c) OR ucast d :: u32)"
    by (rule disjunctive_add_eq_or, rule bit_eqI) (auto simp: bit_simps dest: bit_imp_le_length)
  moreover have "push_bit 16 (ucast b) + (push_bit 8 (ucast c) OR ucast d) =
      (push_bit 16 (ucast b) OR push_bit 8 (ucast c) OR ucast d :: u32)"
    by (rule disjunctive_add_eq_or, rule bit_eqI) (auto simp: bit_simps dest: bit_imp_le_length)
  moreover have "push_bit 24 (ucast a) + (push_bit 16 (ucast b) OR push_bit 8 (ucast c) OR ucast d) =
      (push_bit 24 (ucast a) OR push_bit 16 (ucast b) OR push_bit 8 (ucast c) OR ucast d :: u32)"
    by (rule disjunctive_add_eq_or, rule bit_eqI) (auto simp: bit_simps dest: bit_imp_le_length)
  ultimately show ?thesis by simp
qed

lemma word_at_big_endian:
  assumes "offset + 4 \<le> length message"
  shows "word_at message offset = big_endian (take 4 (drop offset message))"
proof -
  let ?a = "message ! offset" and ?b = "message ! (offset + 1)"
  let ?c = "message ! (offset + 2)" and ?d = "message ! (offset + 3)"
  have taken: "take 4 (drop offset message) = [?a, ?b, ?c, ?d]"
    using assms by (simp add: numeral_eq_Suc Cons_nth_drop_Suc [symmetric])
  have "word_at message offset =
      push_bit 24 (ucast ?a) + (push_bit 16 (ucast ?b) + (push_bit 8 (ucast ?c) + ucast ?d))"
    unfolding word_at_def by (rule four_bytes)
  then show ?thesis
    unfolding taken by (simp add: big_endian_def push_bit_eq_mult algebra_simps)
qed

text \<open>The words of a block are those of the recurrence.\<close>

lemma fill_length: "length (foldl (\<lambda>ws i. ws @ [next_word ws i]) ws [n..<m]) = length ws + (m - n)"
proof (induction "m - n" arbitrary: ws n)
  case (Suc k)
  then have "[n..<m] = n # [Suc n..<m]" by (simp add: upt_rec)
  with Suc show ?case by simp
qed simp

lemma message_words_schedule:
  assumes "offset + 64 \<le> length message" and "t < 64"
  shows "message_words message offset ! t = fips_schedule (take 64 (drop offset message)) t"
proof -
  let ?block = "take 64 (drop offset message)"
  let ?first = "map (\<lambda>index. word_at message (offset + index * 4)) [0..<16]"
  have first: "?first ! i = fips_schedule ?block i" if "i < 16" for i
  proof -
    have "take 4 (drop (4 * i) ?block) = take 4 (drop (offset + 4 * i) message)"
      using that by (simp add: drop_take ac_simps min_def)
    then show ?thesis
      using that assms(1) word_at_big_endian [of "offset + 4 * i" message]
      by (simp add: fips_schedule.simps [of _ i] ac_simps)
  qed
  have "m \<le> 64 \<Longrightarrow> 16 \<le> m \<Longrightarrow> \<forall>i < m. foldl (\<lambda>ws i. ws @ [next_word ws i]) ?first [16..<m] ! i =
      fips_schedule ?block i" for m
  proof (induction m)
    case (Suc m)
    show ?case
    proof (cases "m < 16")
      case True
      with Suc(3) first show ?thesis by (auto simp: less_Suc_eq)
    next
      case False
      let ?ws = "foldl (\<lambda>ws i. ws @ [next_word ws i]) ?first [16..<m]"
      have ws: "length ?ws = m" "\<forall>i < m. ?ws ! i = fips_schedule ?block i"
        using False Suc fill_length [of ?first 16 m] by auto
      have "next_word ?ws m = fips_schedule ?block m"
        using False ws(2) by (simp add: next_word_def fips_schedule.simps [of _ m] Let_def ac_simps)
      moreover have "[16..<Suc m] = [16..<m] @ [m]" using False by simp
      ultimately show ?thesis using ws by (auto simp: nth_append less_Suc_eq)
    qed
  qed simp
  from this [of 64] show ?thesis using assms(2) by (simp only: message_words_def)
qed

lemma rounds_are_fips:
  assumes "\<forall>t < n. ws ! t = fips_schedule block t"
  shows "foldl (sha_round ws) st [0..<n] = fips_rounds block st n"
  using assms
proof (induction n)
  case (Suc n)
  then have "foldl (sha_round ws) st [0..<n] = fips_rounds block st n" "ws ! n = fips_schedule block n"
    by simp_all
  then show ?case
    by (simp add: sha_round_def round_constants_are_fips Let_def split: prod.split)
qed simp

lemma block_is_fips:
  assumes "offset + 64 \<le> length message"
  shows "sha_block message offset st =
    add_states st (fips_rounds (take 64 (drop offset message)) st 64)"
proof -
  have "foldl (sha_round (message_words message offset)) st [0..<64] =
      fips_rounds (take 64 (drop offset message)) st 64"
    by (rule rounds_are_fips) (use message_words_schedule [OF assms] in simp)
  then show ?thesis by (simp add: sha_block_def add_states_def Let_def split: prod.split)
qed

lemma blocks_are_fips:
  assumes "length message = 64 * n" and "i \<le> n"
  shows "sha_blocks message (64 * i) (fips_hash message i) = fips_hash message n"
  using assms(2)
proof (induction "n - i" arbitrary: i)
  case 0
  then show ?case using assms(1) by (simp add: sha_blocks.simps)
next
  case (Suc k)
  then have "i < n" by simp
  then have "sha_blocks message (64 * i) (fips_hash message i) =
      sha_blocks message (64 * Suc i) (fips_hash message (Suc i))"
    using assms(1) block_is_fips [of "64 * i" message]
    by (subst sha_blocks.simps) (simp add: ac_simps)
  also have "\<dots> = fips_hash message n"
    by (rule Suc(1)) (use Suc(2) \<open>i < n\<close> in simp_all)
  finally show ?case .
qed

lemma sha256_fips: "length m < 2 ^ 61 \<Longrightarrow> sha256 m = fips_sha256 m"
proof -
  assume small: "length m < 2 ^ 61"
  have "length (fips_padding m) = 64 * (length (fips_padding m) div 64)"
    using mult_div_mod_eq [of 64 "length (fips_padding m)"] fips_padding_length [of m] by simp
  from blocks_are_fips [OF this, of 0] show ?thesis
    using small
    by (simp add: sha256_def fips_sha256_def padding_is_fips sha_initial_is_fips
        word_bytes_def [abs_def] Let_def)
qed

lemma length_fips_sha256: "length (fips_sha256 m) = 32"
  by (simp add: fips_sha256_def Let_def split: prod.split)

text \<open>The code's HMAC is that of RFC 2104 over the hash of FIPS 180-4.\<close>

lemma map2_replicate: "map2 f xs (replicate (length xs) y) = map (\<lambda>x. f x y) xs"
  by (induction xs) simp_all

theorem hmac_is_rfc2104:
  assumes "length secret < 2 ^ 61" and "length message + 64 < 2 ^ 61"
  shows "hmacSha256 secret message = rfc2104_hmac fips_sha256 64 secret message"
proof -
  let ?key = "if 64 < length secret then fips_sha256 secret else secret"
  let ?padded = "?key @ replicate (64 - length ?key) 0"
  have key: "length ?padded = 64" by (simp add: length_fips_sha256)
  have pad: "map (\<lambda>b. b XOR y) ?padded = map2 (XOR) ?padded (replicate 64 y)" for y
    using map2_replicate [of "(XOR)" ?padded y] unfolding key by simp
  have inner: "sha256 (map (\<lambda>b. b XOR y) ?padded @ message) =
      fips_sha256 (map2 (XOR) ?padded (replicate 64 y) @ message)" for y
    unfolding pad by (rule sha256_fips) (use key assms(2) in simp)
  have outer: "sha256 (map (\<lambda>b. b XOR y) ?padded @ fips_sha256 m) =
      fips_sha256 (map2 (XOR) ?padded (replicate 64 y) @ fips_sha256 m)" for y m
    unfolding pad by (rule sha256_fips) (use key in \<open>simp add: length_fips_sha256\<close>)
  have "hmacSha256 secret message = sha256 (map (\<lambda>b. b XOR 0x5c) ?padded @
      sha256 (map (\<lambda>b. b XOR 0x36) ?padded @ message))"
    unfolding hmacSha256_def Let_def sha256_fips [OF assms(1)] ..
  also have "\<dots> = rfc2104_hmac fips_sha256 64 secret message"
    unfolding inner outer rfc2104_hmac_def Let_def ..
  finally show ?thesis .
qed

text \<open>
  C36: the hash is SHA-256. For every input shorter than 2 ^ 61 bytes the code's loops, over one
  padded vector and an array of words, compute the hash of FIPS 180-4: its padding, its message
  schedule, its rounds and its chaining, with the constants that the standard takes from the cube and
  square roots of the first primes and the choice and majority functions it states bit by bit.
\<close>

theorem sha256_is_fips:
  assumes "length m < 2 ^ 61"
  shows "sha256 m = fips_sha256 m \<and>
    fips_choice x y z ((x AND y) XOR (NOT x AND z)) \<and>
    fips_majority x y z ((x AND y) XOR (x AND z) XOR (y AND z))"
  using sha256_fips [OF assms] choice_is_fips majority_is_fips by simp

theorem sha256_is_fips_witness:
  "sha256 (bytes_of ''abc'') = fips_sha256 (bytes_of ''abc'')"
  using sha256_is_fips [of "bytes_of ''abc''"] by (simp add: bytes_of_def)

section \<open>Decoding base64\<close>

text \<open>RFC 4648, section 5, without padding: six bits of every character, most significant first.\<close>

definition base64_value :: "char \<Rightarrow> u32 option" where
  "base64_value c = map_of (zip base64_alphabet (map word_of_nat [0..<64])) c"

definition byte_at :: "nat \<Rightarrow> u32 \<Rightarrow> u8" where
  "byte_at shift v = ucast (drop_bit shift v)"

fun base64_decode :: "string \<Rightarrow> u8 list option" where
  "base64_decode [] = Some []"
| "base64_decode [a] = None"
| "base64_decode [a, b] =
     (case (base64_value a, base64_value b) of
        (Some u, Some v) \<Rightarrow> Some [byte_at 4 (push_bit 6 u OR v)]
      | _ \<Rightarrow> None)"
| "base64_decode [a, b, c] =
     (case (base64_value a, base64_value b, base64_value c) of
        (Some u, Some v, Some w) \<Rightarrow>
          Some [byte_at 10 (push_bit 12 u OR push_bit 6 v OR w),
                byte_at 2 (push_bit 12 u OR push_bit 6 v OR w)]
      | _ \<Rightarrow> None)"
| "base64_decode (a # b # c # d # s) =
     (case (base64_value a, base64_value b, base64_value c, base64_value d, base64_decode s) of
        (Some u, Some v, Some w, Some x, Some bs) \<Rightarrow>
          (let n = push_bit 18 u OR push_bit 12 v OR push_bit 6 w OR x
           in Some (byte_at 16 n # byte_at 8 n # byte_at 0 n # bs))
      | _ \<Rightarrow> None)"

lemma base64_alphabet_distinct: "distinct base64_alphabet" "length base64_alphabet = 64"
  by (simp_all add: base64_alphabet_def)

lemma sixty_three: "(v AND 63 :: u32) = take_bit 6 v"
  by (simp add: take_bit_eq_mask mask_eq_exp_minus_1)

lemma base64_value_char [simp]: "base64_value (base64_char v) = Some (take_bit 6 v)"
proof -
  have "unat (take_bit 6 v) < 64"
    using take_bit_nat_less_exp [of 6 "unat v"] by (simp add: unsigned_take_bit_eq)
  then have "map_of (zip base64_alphabet (map word_of_nat [0..<64]))
      (base64_alphabet ! unat (take_bit 6 v)) =
      Some (map word_of_nat [0..<64] ! unat (take_bit 6 v) :: u32)"
    by (intro map_of_zip_nth) (simp_all add: base64_alphabet_distinct)
  with \<open>unat (take_bit 6 v) < 64\<close> show ?thesis
    by (simp add: base64_value_def base64_char_def sixty_three)
qed

text \<open>The characters put the bits of the group together again.\<close>

lemma sextets:
  fixes v :: u32
  shows "push_bit 6 (take_bit 6 (drop_bit 18 v)) OR take_bit 6 (drop_bit 12 v) =
      take_bit 12 (drop_bit 12 v)"
    and "push_bit 12 (take_bit 6 (drop_bit 18 v)) OR push_bit 6 (take_bit 6 (drop_bit 12 v)) OR
        take_bit 6 (drop_bit 6 v) = take_bit 18 (drop_bit 6 v)"
    and "push_bit 18 (take_bit 6 (drop_bit 18 v)) OR push_bit 12 (take_bit 6 (drop_bit 12 v)) OR
        push_bit 6 (take_bit 6 (drop_bit 6 v)) OR take_bit 6 v = take_bit 24 v"
proof -
  have e: "k \<le> n \<Longrightarrow> k + j + (n - k) = j + n" for k j n :: nat by simp
  show "push_bit 6 (take_bit 6 (drop_bit 18 v)) OR take_bit 6 (drop_bit 12 v) =
      take_bit 12 (drop_bit 12 v)"
    by (rule bit_eqI, case_tac "n < 6") (auto simp: bit_simps e [of 6 _ 12, simplified])
  show "push_bit 12 (take_bit 6 (drop_bit 18 v)) OR push_bit 6 (take_bit 6 (drop_bit 12 v)) OR
        take_bit 6 (drop_bit 6 v) = take_bit 18 (drop_bit 6 v)"
    by (rule bit_eqI, case_tac "n < 6"; case_tac "n < 12")
      (auto simp: bit_simps e [of 6 _ 6, simplified] e [of 12 _ 6, simplified])
  show "push_bit 18 (take_bit 6 (drop_bit 18 v)) OR push_bit 12 (take_bit 6 (drop_bit 12 v)) OR
        push_bit 6 (take_bit 6 (drop_bit 6 v)) OR take_bit 6 v = take_bit 24 v"
    by (rule bit_eqI, case_tac "n < 6"; case_tac "n < 12"; case_tac "n < 18")
      (auto simp: bit_simps)
qed

lemma group_bytes:
  fixes x y z :: u8
  shows "byte_at 4 (take_bit 12 (drop_bit 12 (push_bit 16 (ucast x)))) = x"
    and "byte_at 10 (take_bit 18 (drop_bit 6 (push_bit 16 (ucast x) OR push_bit 8 (ucast y)))) = x"
    and "byte_at 2 (take_bit 18 (drop_bit 6 (push_bit 16 (ucast x) OR push_bit 8 (ucast y)))) = y"
    and "byte_at 16 (take_bit 24 (push_bit 16 (ucast x) OR push_bit 8 (ucast y) OR ucast z)) = x"
    and "byte_at 8 (take_bit 24 (push_bit 16 (ucast x) OR push_bit 8 (ucast y) OR ucast z)) = y"
    and "byte_at 0 (take_bit 24 (push_bit 16 (ucast x) OR push_bit 8 (ucast y) OR ucast z)) = z"
  unfolding byte_at_def
  by (rule bit_eqI, auto simp: bit_simps dest: bit_imp_le_length)+

text \<open>
  Base64 loses nothing. Decoding what the adapter writes for any bytes, with the reference
  decoder of the unpadded URL alphabet, gives exactly these bytes back.
\<close>

theorem base64_round_trip: "base64_decode (base64Url bs) = Some bs"
  by (induction bs rule: base64Url.induct) 
    (simp_all add: Let_def sextets group_bytes del: take_bit_or drop_bit_or push_bit_or)

lemma base64_characters: "set (base64Url bs) \<subseteq> set base64_alphabet"
proof -
  have "base64_char v \<in> set base64_alphabet" for v
  proof -
    have "unat (take_bit 6 v) < 64"
      using take_bit_nat_less_exp [of 6 "unat v"] by (simp add: unsigned_take_bit_eq)
    then show ?thesis
      unfolding base64_char_def sixty_three by (simp add: base64_alphabet_distinct(2))
  qed
  then show ?thesis by (induction bs rule: base64Url.induct) (simp_all add: Let_def)
qed

lemma chars_bytes [simp]: "chars_of (bytes_of s) = s"
  by (induction s) (simp_all add: chars_of_def bytes_of_def unat_of_nat take_bit_eq_mod)

end
