(* ===== verification/Livekit_Token.thy ===== *)
theory Livekit_Token
  imports Hmac_Sha256 Publication_Control Http_Responses Identity_And_Grants Json_Round_Trip
begin

text \<open>
  LiveKit access tokens (\<open>LiveKitTokenAdapter\<close> and \<open>roomServiceToken\<close> of
  \<open>libs/livekit/src/livekit_token.cpp\<close>): a token is a header, a payload and a signature, each in
  base64. The theorems show what the payload says once it is decoded, that the signature is over
  exactly the first two parts, and which rooms a grant opens.
\<close>

section \<open>The code\<close>

record LiveKitCredentials =
  lk_api_key :: string
  lk_api_secret :: string

definition LiveKitCredentials_ctor :: "string \<Rightarrow> string \<Rightarrow> LiveKitCredentials throws" where
  "LiveKitCredentials_ctor api_key secret =
     (if api_key = [] \<or> secret = []
      then Inl (InvalidArgument ''LiveKit API key and secret must not be empty'')
      else Inr \<lparr>lk_api_key = api_key, lk_api_secret = secret\<rparr>)"

definition jsonEscape :: "string \<Rightarrow> string" where
  "jsonEscape v =
     quote_char #
     concat (map (\<lambda>c. if c = quote_char \<or> c = backslash then [backslash, c] else [c]) v) @
     [quote_char]"

definition roomFor :: "VoiceGrantClaims \<Rightarrow> VoiceScope \<Rightarrow> string" where
  "roomFor claims sc =
     (case sc of
        Team_scope \<Rightarrow> ''team:'' @ id_value (vc_team_id claims)
      | Specialization_scope \<Rightarrow> ''specialization:'' @ id_value (vc_specialization_id claims)
      | Group_scope \<Rightarrow> ''group:'' @ id_value (vc_group_id claims))"

definition contains :: "VoiceScope list \<Rightarrow> VoiceScope \<Rightarrow> bool" where
  "contains scopes sc \<longleftrightarrow> sc \<in> set scopes"

text \<open>\<open>duration_cast<seconds>\<close> rounds towards zero.\<close>

definition unixSeconds :: "time_point \<Rightarrow> int" where
  "unixSeconds t = (if t < 0 then - (- t div 1000000000) else t div 1000000000)"

definition token_header :: string where
  "token_header =
     ''{'' @ key ''alg'' @ quoted ''HS256'' @ '','' @ key ''typ'' @ quoted ''JWT'' @ ''}''"

definition signed_token :: "LiveKitCredentials \<Rightarrow> string \<Rightarrow> string" where
  "signed_token credentials payload =
     (let signing_input = base64Url (bytes_of token_header) @ ''.'' @ base64Url (bytes_of payload);
          signature = hmacSha256 (bytes_of (lk_api_secret credentials)) (bytes_of signing_input)
      in signing_input @ ''.'' @ base64Url signature)"

text \<open>The clock is a parameter.\<close>

definition roomServiceToken :: "LiveKitCredentials \<Rightarrow> string \<Rightarrow> time_point \<Rightarrow> string" where
  "roomServiceToken credentials room now =
     (let expiration = unixSeconds (now + 30 * 1000000000);
          payload = ''{'' @ key ''iss'' @ jsonEscape (lk_api_key credentials) @
            '','' @ key ''sub'' @ quoted ''hvc-control-plane'' @
            '','' @ key ''exp'' @ to_string_int expiration @
            '','' @ key ''video'' @ ''{'' @ key ''roomAdmin'' @ ''true'' @
            '','' @ key ''room'' @ jsonEscape room @ ''}}''
      in signed_token credentials payload)"

definition grant_metadata :: "VoiceGrantClaims \<Rightarrow> string" where
  "grant_metadata claims =
     ''{'' @ key ''device_id'' @ jsonEscape (id_value (vc_device_id claims)) @
     '','' @ key ''membership_version'' @ to_string_u64 (vc_membership_version claims) @ ''}''"

definition grant_payload ::
  "LiveKitCredentials \<Rightarrow> VoiceGrantClaims \<Rightarrow> VoiceScope \<Rightarrow> bool \<Rightarrow> string" where
  "grant_payload credentials claims sc can_subscribe =
     ''{'' @ key ''iss'' @ jsonEscape (lk_api_key credentials) @
     '','' @ key ''sub'' @ jsonEscape (id_value (vc_player_id claims)) @
     '','' @ key ''exp'' @ to_string_int (unixSeconds (vc_expires_at claims)) @
     '','' @ key ''metadata'' @ jsonEscape (grant_metadata claims) @
     '','' @ key ''video'' @ ''{'' @ key ''roomJoin'' @ ''true'' @
     '','' @ key ''room'' @ jsonEscape (roomFor claims sc) @
     '','' @ key ''canPublish'' @ ''false'' @
     '','' @ key ''canSubscribe'' @ (if can_subscribe then ''true'' else ''false'') @ ''}}''"

fun issue_scopes ::
  "LiveKitCredentials \<Rightarrow> VoiceGrantClaims \<Rightarrow> VoiceScope list \<Rightarrow> IssuedVoiceRoomGrant list" where
  "issue_scopes credentials claims [] = []"
| "issue_scopes credentials claims (sc # scopes) =
     (let can_transmit = contains (vc_transmit_scopes claims) sc;
          can_subscribe = contains (vc_receive_scopes claims) sc;
          rest = issue_scopes credentials claims scopes
      in if \<not> can_transmit \<and> \<not> can_subscribe then rest
         else
           \<lparr>ig_scope = sc, ig_room_name = roomFor claims sc,
            ig_access_token =
              signed_token credentials (grant_payload credentials claims sc can_subscribe)\<rparr> # rest)"

definition issue :: "LiveKitCredentials \<Rightarrow> VoiceGrantClaims \<Rightarrow> IssuedVoiceRoomGrant list" where
  "issue credentials claims =
     issue_scopes credentials claims [Team_scope, Specialization_scope, Group_scope]"

section \<open>Reading a token\<close>

text \<open>
  A reader splits the token at its dots and decodes the parts; the signature is checked against the
  HMAC of RFC 2104, over the hash of FIPS 180-4, of the first two parts as they were received.
\<close>

fun split_at :: "char \<Rightarrow> string \<Rightarrow> string list" where
  "split_at c [] = [[]]"
| "split_at c (x # s) =
     (if x = c then [] # split_at c s
      else case split_at c s of [] \<Rightarrow> [[x]] | part # parts \<Rightarrow> (x # part) # parts)"

definition verified_payload :: "string \<Rightarrow> string \<Rightarrow> string option" where
  "verified_payload secret token =
     (case split_at (CHR ''.'') token of
        [head, payload, signature] \<Rightarrow>
          (case (base64_decode signature, base64_decode payload) of
             (Some mac, Some said) \<Rightarrow>
               if mac = rfc2104_hmac fips_sha256 64 (bytes_of secret)
                          (bytes_of (head @ ''.'' @ payload))
               then Some (chars_of said) else None
           | _ \<Rightarrow> None)
      | _ \<Rightarrow> None)"

lemma split_at_none: "c \<notin> set s \<Longrightarrow> split_at c s = [s]"
  by (induction s) auto

lemma split_at_append: "c \<notin> set s \<Longrightarrow> split_at c (s @ c # t) = s # split_at c t"
  by (induction s) auto

lemma base64_no_dot: "CHR ''.'' \<notin> set (base64Url bs)"
  using base64_characters [of bs] by (auto simp: base64_alphabet_def)

lemma length_base64Url: "length (base64Url bs) \<le> 2 * length bs"
  by (induction bs rule: base64Url.induct) (simp_all add: Let_def)

text \<open>The lengths for which the hash is that of the standard.\<close>

definition token_bounded :: "LiveKitCredentials \<Rightarrow> string \<Rightarrow> bool" where
  "token_bounded credentials payload \<longleftrightarrow>
     length (lk_api_secret credentials) < 2 ^ 59 \<and> length payload < 2 ^ 59"

lemma signed_token_verified:
  assumes "token_bounded credentials payload"
  shows "verified_payload (lk_api_secret credentials) (signed_token credentials payload) = Some payload"
proof -
  let ?input = "base64Url (bytes_of token_header) @ ''.'' @ base64Url (bytes_of payload)"
  have "length (base64Url (bytes_of token_header)) \<le> 2 * length token_header"
      "length (base64Url (bytes_of payload)) \<le> 2 * length payload"
    using length_base64Url [of "bytes_of _"] by (simp_all add: bytes_of_def)
  moreover have "length token_header \<le> 100"
    by (simp add: token_header_def key_def quoted_def)
  ultimately have "length (bytes_of ?input) + 64 < 2 ^ 61"
    using assms by (simp add: bytes_of_def token_bounded_def)
  moreover have "length (bytes_of (lk_api_secret credentials)) < 2 ^ 61"
    using assms by (simp add: bytes_of_def token_bounded_def)
  ultimately have "hmacSha256 (bytes_of (lk_api_secret credentials)) (bytes_of ?input) =
      rfc2104_hmac fips_sha256 64 (bytes_of (lk_api_secret credentials)) (bytes_of ?input)"
    by (intro hmac_is_rfc2104)
  then show ?thesis
    by (simp add: verified_payload_def signed_token_def Let_def split_at_append split_at_none
        base64_no_dot base64_round_trip)
qed

section \<open>What the payload says\<close>

text \<open>\<open>jsonEscape\<close> escapes all there is to escape in a string without control characters.\<close>

definition printable :: "string \<Rightarrow> bool" where
  "printable s \<longleftrightarrow> list_all (\<lambda>c. 0x20 \<le> byte c) s"

lemma jsonEscape_printable: "printable s \<Longrightarrow> jsonEscape s = escapeJson s"
proof -
  have "(if c = quote_char \<or> c = backslash then [backslash, c] else [c]) = escape_char c"
    if "0x20 \<le> byte c" for c
    using that by (auto simp: escape_char_def)
  then have "printable s \<Longrightarrow>
      concat (map (\<lambda>c. if c = quote_char \<or> c = backslash then [backslash, c] else [c]) s) =
      concat (map escape_char s)"
    unfolding printable_def by (induction s) auto
  then show "printable s \<Longrightarrow> jsonEscape s = escapeJson s"
    by (simp add: jsonEscape_def escapeJson_def)
qed

lemma printable_simps [simp]:
  "printable []" "printable (c # s) \<longleftrightarrow> 0x20 \<le> byte c \<and> printable s"
  "printable (s @ t) \<longleftrightarrow> printable s \<and> printable t"
  by (simp_all add: printable_def)

lemma printable_escapes:
  "printable s \<Longrightarrow>
     printable (concat (map (\<lambda>c. if c = quote_char \<or> c = backslash then [backslash, c] else [c]) s))"
  by (induction s) simp_all

lemma printable_escape: "printable s \<Longrightarrow> printable (jsonEscape s)"
  unfolding jsonEscape_def using printable_escapes [of s] by simp

lemma printable_decimal [simp]: "printable (decimal n)"
proof -
  have "0x20 \<le> byte c" if "is_digit c" for c using that by (simp add: is_digit_def)
  then show ?thesis
    unfolding printable_def list_all_iff using decimal_digits [of n] by blast
qed

definition metadata_document :: "VoiceGrantClaims \<Rightarrow> document" where
  "metadata_document claims = D_object
     [(''device_id'', D_string (id_value (vc_device_id claims))),
      (''membership_version'', D_number (unat (vc_membership_version claims)))]"

definition grant_document ::
  "LiveKitCredentials \<Rightarrow> VoiceGrantClaims \<Rightarrow> VoiceScope \<Rightarrow> bool \<Rightarrow> document" where
  "grant_document credentials claims sc can_subscribe = D_object
     [(''iss'', D_string (lk_api_key credentials)),
      (''sub'', D_string (id_value (vc_player_id claims))),
      (''exp'', D_number (nat (unixSeconds (vc_expires_at claims)))),
      (''metadata'', D_string (document_text (metadata_document claims))),
      (''video'', D_object
         [(''roomJoin'', D_boolean True), (''room'', D_string (roomFor claims sc)),
          (''canPublish'', D_boolean False), (''canSubscribe'', D_boolean can_subscribe)])]"

text \<open>The identifiers of the claims and the API key have no control character.\<close>

definition claims_printable :: "LiveKitCredentials \<Rightarrow> VoiceGrantClaims \<Rightarrow> bool" where
  "claims_printable credentials claims \<longleftrightarrow>
     printable (lk_api_key credentials) \<and> printable (id_value (vc_player_id claims)) \<and>
     printable (id_value (vc_device_id claims)) \<and> printable (id_value (vc_team_id claims)) \<and>
     printable (id_value (vc_specialization_id claims)) \<and> printable (id_value (vc_group_id claims))"

lemma grant_metadata_text:
  assumes "printable (id_value (vc_device_id claims))"
  shows "grant_metadata claims = document_text (metadata_document claims)"
  using assms
  by (simp add: grant_metadata_def metadata_document_def jsonEscape_printable key_def quoted_def
      escapeJson_def escape_char_def to_string_u64_def del: decimal.simps)

lemma grant_metadata_printable:
  assumes "printable (id_value (vc_device_id claims))"
  shows "printable (grant_metadata claims)"
  using printable_escape [OF assms]
  by (simp add: grant_metadata_def key_def quoted_def to_string_u64_def del: decimal.simps)

lemma prefixed_room_printable:
  "claims_printable credentials claims \<Longrightarrow> printable (roomFor claims sc)"
  by (cases sc) (simp_all add: claims_printable_def roomFor_def)

lemma to_string_int_nat: "0 \<le> v \<Longrightarrow> to_string_int v = decimal (nat v)"
  by (simp add: to_string_int_def)

lemma unixSeconds_bounds:
  assumes "0 \<le> t" and "t < 2 ^ 63"
  shows "0 \<le> unixSeconds t" and "nat (unixSeconds t) < 2 ^ 64"
  using assms by (simp_all add: unixSeconds_def)

lemma plain_key_text:
  "escapeJson ''iss'' = quoted ''iss''" "escapeJson ''sub'' = quoted ''sub''"
  "escapeJson ''exp'' = quoted ''exp''" "escapeJson ''metadata'' = quoted ''metadata''"
  "escapeJson ''video'' = quoted ''video''" "escapeJson ''roomJoin'' = quoted ''roomJoin''"
  "escapeJson ''room'' = quoted ''room''" "escapeJson ''canPublish'' = quoted ''canPublish''"
  "escapeJson ''canSubscribe'' = quoted ''canSubscribe''"
  by (simp_all add: escapeJson_def quoted_def escape_char_def)

lemma grant_payload_text:
  assumes "claims_printable credentials claims" and "0 \<le> unixSeconds (vc_expires_at claims)"
  shows "grant_payload credentials claims sc b = document_text (grant_document credentials claims sc b)"
proof -
  have parts: "printable (lk_api_key credentials)" "printable (id_value (vc_player_id claims))"
    "printable (id_value (vc_device_id claims))"
    using assms(1) by (simp_all add: claims_printable_def)
  have "jsonEscape (grant_metadata claims) = escapeJson (document_text (metadata_document claims))"
    using jsonEscape_printable [OF grant_metadata_printable [OF parts(3)]]
      grant_metadata_text [OF parts(3)] by simp
  then show ?thesis
    using jsonEscape_printable [OF parts(1)] jsonEscape_printable [OF parts(2)]
      jsonEscape_printable [OF prefixed_room_printable [OF assms(1), of sc]]
    by (simp add: grant_payload_def grant_document_def plain_key_text key_def
        to_string_int_nat [OF assms(2)] del: decimal.simps)
qed

lemma payload_read:
  assumes "claims_printable credentials claims" and "0 \<le> vc_expires_at claims"
    and "vc_expires_at claims < 2 ^ 63"
  shows "JsonParser_parse (grant_payload credentials claims sc b) =
    Some (document_value (grant_document credentials claims sc b))"
  unfolding grant_payload_text [OF assms(1) unixSeconds_bounds(1) [OF assms(2,3)]]
  by (rule client_reads_document)
    (use unixSeconds_bounds(2) [OF assms(2,3)] in \<open>simp add: grant_document_def\<close>)

section \<open>The tokens of a grant\<close>

lemma set_issue_scopes:
  "g \<in> set (issue_scopes credentials claims scopes) \<Longrightarrow>
     ig_scope g \<in> set (vc_transmit_scopes claims) \<union> set (vc_receive_scopes claims) \<and>
     ig_room_name g = roomFor claims (ig_scope g) \<and>
     ig_access_token g =
       signed_token credentials
         (grant_payload credentials claims (ig_scope g)
           (contains (vc_receive_scopes claims) (ig_scope g)))"
  by (induction scopes) (auto simp: Let_def contains_def split: if_splits)

lemma scopes_issue_scopes:
  "map ig_scope (issue_scopes credentials claims scopes) =
     filter (\<lambda>sc. sc \<in> set (vc_transmit_scopes claims) \<union> set (vc_receive_scopes claims)) scopes"
  by (induction scopes) (auto simp: Let_def contains_def)

text \<open>
  C24: a voice grant becomes one token for every scope it lets the player speak or listen in, in
  the order team, specialization, group, and for no other scope. Each is for the room of its scope;
  its signature is the HMAC-SHA-256 of RFC 2104 and FIPS 180-4 under the configured secret, and what
  its payload says to a JSON reader is the player, the expiry in seconds, the device and membership
  version, the room, that publishing is not allowed, and that subscribing is allowed exactly when the
  grant has the scope among those to receive. This holds for grants whose expiry is in [0, 2 ^ 63)
  nanoseconds, whose identifiers and API key have no control characters (one of them makes the payload
  unreadable, as token_string_read_iff below shows), and whose secret and payloads are shorter than
  2 ^ 59 characters.
\<close>

theorem issued_tokens_state_the_grant:
  assumes "claims_printable credentials claims" and "0 \<le> vc_expires_at claims"
    and "vc_expires_at claims < 2 ^ 63"
    and "\<forall>sc subscribe. token_bounded credentials (grant_payload credentials claims sc subscribe)"
  shows "map ig_scope (issue credentials claims) =
      filter (\<lambda>sc. sc \<in> set (vc_transmit_scopes claims) \<union> set (vc_receive_scopes claims))
        [Team_scope, Specialization_scope, Group_scope] \<and>
    list_all (\<lambda>g.
        ig_room_name g = roomFor claims (ig_scope g) \<and>
        Option.bind (verified_payload (lk_api_secret credentials) (ig_access_token g)) JsonParser_parse =
          Some (document_value (grant_document credentials claims (ig_scope g)
            (ig_scope g \<in> set (vc_receive_scopes claims)))))
      (issue credentials claims)"
  using scopes_issue_scopes set_issue_scopes payload_read [OF assms(1-3)]
  by (force simp: issue_def list_all_iff signed_token_verified [OF assms(4) [rule_format]]
      contains_def)

text \<open>
  The room a member may join is the room in which the publication control opens and closes the
  microphone of a transmission in the same node.
\<close>

lemma roomFor_publicationRoom:
  assumes "at_scope t = sc"
    and "at_scope_node_id t =
      (case sc of Team_scope \<Rightarrow> id_value (vc_team_id claims)
       | Specialization_scope \<Rightarrow> id_value (vc_specialization_id claims)
       | Group_scope \<Rightarrow> id_value (vc_group_id claims))"
  shows "roomFor claims sc = publicationRoom t"
  using assms by (cases sc) (simp_all add: roomFor_def publicationRoom_def)

section \<open>Identifiers with control characters\<close>

lemma read_escapes_iff:
  "string_body (concat (map (\<lambda>c. if c = quote_char \<or> c = backslash then [backslash, c] else [c]) s) @
      [quote_char]) v =
     (if printable s then Some (v @ s, []) else None)"
proof (induction s arbitrary: v)
  case (Cons c s)
  consider "c = quote_char" | "c = backslash" | "byte c < 0x20" "c \<noteq> quote_char" "c \<noteq> backslash"
    | "0x20 \<le> byte c" "c \<noteq> quote_char" "c \<noteq> backslash" by force
  then show ?case
    by cases (simp_all add: Cons client_unescape_def)
qed simp

text \<open>
  A string that a token carries is read back if and only if it has no control character. The
  adapter escapes quotes and backslashes only, so one control character in an identifier, which no
  constructor refuses, leaves a payload that is not JSON.
\<close>

theorem token_string_read_iff:
  "parse_string (jsonEscape s) = (if printable s then Some (s, []) else None)"
  using read_escapes_iff [of s "[]"] by (simp add: parse_string_def jsonEscape_def isspace_def)

section \<open>An issued grant\<close>

definition example_credentials :: LiveKitCredentials where
  "example_credentials = \<lparr>lk_api_key = ''devkey'', lk_api_secret = ''secret''\<rparr>"

definition example_claims :: VoiceGrantClaims where
  "example_claims =
     \<lparr>vc_player_id = StrongId ''p1'', vc_device_id = StrongId ''d1'', vc_membership_version = 7,
      vc_group_id = StrongId ''g1'', vc_specialization_id = StrongId ''s1'',
      vc_team_id = StrongId ''t1'', vc_transmit_scopes = [Team_scope],
      vc_receive_scopes = [Group_scope, Team_scope], vc_expires_at = 60000000000\<rparr>"

lemma example_hypotheses:
  "claims_printable example_credentials example_claims"
  "0 \<le> vc_expires_at example_claims" "vc_expires_at example_claims < 2 ^ 63"
  "\<forall>sc subscribe. token_bounded example_credentials
     (grant_payload example_credentials example_claims sc subscribe)"
proof -
  have "list_all (\<lambda>sc. list_all (\<lambda>subscribe.
      length (grant_payload example_credentials example_claims sc subscribe) < 500) [True, False])
      [Team_scope, Specialization_scope, Group_scope]"
    by code_simp
  then have "length (grant_payload example_credentials example_claims sc subscribe) < 500"
    for sc subscribe
    by (cases sc; cases subscribe) simp_all
  then show "\<forall>sc subscribe. token_bounded example_credentials
     (grant_payload example_credentials example_claims sc subscribe)"
    by (fastforce simp: token_bounded_def example_credentials_def intro: less_trans)
qed (simp_all add: claims_printable_def example_credentials_def example_claims_def)

theorem issued_tokens_state_the_grant_witness:
  "map ig_scope (issue example_credentials example_claims) = [Team_scope, Group_scope] \<and>
   map (\<lambda>g. (ig_room_name g,
       Option.bind (verified_payload ''secret'' (ig_access_token g)) JsonParser_parse))
     (issue example_credentials example_claims) =
   [(''team:t1'', Some (document_value (grant_document example_credentials example_claims Team_scope True))),
    (''group:g1'', Some (document_value (grant_document example_credentials example_claims Group_scope True)))]"
proof -
  let ?said = "\<lambda>g. (ig_room_name g,
    Option.bind (verified_payload ''secret'' (ig_access_token g)) JsonParser_parse)"
  let ?meant = "\<lambda>sc. (roomFor example_claims sc,
    Some (document_value (grant_document example_credentials example_claims sc
      (sc \<in> set (vc_receive_scopes example_claims)))))"
  note stated = issued_tokens_state_the_grant [OF example_hypotheses]
  have scopes: "map ig_scope (issue example_credentials example_claims) = [Team_scope, Group_scope]"
    using conjunct1 [OF stated] by (simp add: example_claims_def)
  have "map ?said (issue example_credentials example_claims) =
      map ?meant (map ig_scope (issue example_credentials example_claims))"
    using conjunct2 [OF stated] by (simp add: list_all_iff example_credentials_def)
  then show ?thesis
    unfolding scopes by (simp add: scopes roomFor_def example_claims_def)
qed

end
