(* ===== verification/Client_Core.thy ===== *)
theory Client_Core
  imports Voice_Playback
begin

text \<open>
  The client library's C interface (\<open>libs/client/include/hvc/client_core.h\<close>,
  \<open>libs/client/src/client_core.cpp\<close>): a handle owns a voice client, whose transport the host gives as a
  table of functions, and turns what the client and the host report into numbered events.

  A pointer that may be null is an option, and values that enter from the host are words of the
  width of the interface. The host is a parameter: a function of its table sees its own state and
  the playback policies it was given so far, and answers with an error, a message and the callbacks
  it makes while the call runs. The host calls the handle from one thread at a time, as the
  interface demands. Memory does not run out, so the handlers of \<open>std::bad_alloc\<close> are left out.
\<close>

section \<open>Values of the interface\<close>

text \<open>\<open>data\<close> has at least \<open>size\<close> bytes when it is not null.\<close>

record string_view =
  vw_data :: "string option"
  vw_size :: nat

definition validString :: "string_view \<Rightarrow> bool" where
  "validString v \<longleftrightarrow> vw_size v = 0 \<or> vw_data v \<noteq> None"

definition copyString :: "string_view \<Rightarrow> string" where
  "copyString v = (if vw_size v = 0 then [] else take (vw_size v) (the (vw_data v)))"

definition stringView :: "string \<Rightarrow> string_view" where
  "stringView s = \<lparr>vw_data = Some s, vw_size = length s\<rparr>"

definition empty_view :: string_view where
  "empty_view = \<lparr>vw_data = None, vw_size = 0\<rparr>"

datatype core_result =
    Result_ok
  | Result_invalid_argument
  | Result_incompatible_abi
  | Result_invalid_state
  | Result_transport_error
  | Result_internal_error

datatype core_event_kind =
    Event_membership_updated
  | Event_membership_cleared
  | Event_connection_state_changed
  | Event_speaker_started
  | Event_speaker_stopped
  | Event_error

definition validScope :: "u32 \<Rightarrow> bool" where
  "validScope s \<longleftrightarrow> s = 0 \<or> s = 1 \<or> s = 2"

text \<open>A cast of a valid scope, and its inverse.\<close>

definition domainScope :: "u32 \<Rightarrow> VoiceScope" where
  "domainScope s = (if s = 0 then Team_scope else if s = 1 then Specialization_scope else Group_scope)"

definition coreScope :: "VoiceScope \<Rightarrow> u32" where
  "coreScope sc = of_nat (scope_index sc)"

definition abi_version :: u32 where
  "abi_version = 0x00010000"

definition abiMajor :: "u32 \<Rightarrow> u32" where
  "abiMajor version = drop_bit 16 version"

definition transportError :: "u32 \<Rightarrow> VoiceTransportError" where
  "transportError e =
     (if e = 0 then Vte_none
      else if e = 1 then Vte_invalid_argument
      else if e = 2 then Vte_invalid_state
      else if e = 3 then Vte_connection_failed
      else if e = 4 then Vte_audio_device_unavailable
      else if e = 5 then Vte_audio_device_switch_failed
      else if e = 6 then Vte_publication_failed
      else Vte_internal_error)"

definition transportState :: "u32 \<Rightarrow> VoiceTransportState" where
  "transportState s =
     (if s = 0 then Transport_disconnected
      else if s = 1 then Transport_connecting
      else if s = 2 then Transport_connected
      else if s = 3 then Transport_reconnecting
      else Transport_disconnected)"

fun coreState :: "VoiceTransportState \<Rightarrow> u32" where
  "coreState Transport_disconnected = 0"
| "coreState Transport_connecting = 1"
| "coreState Transport_connected = 2"
| "coreState Transport_reconnecting = 3"

definition callResult :: "u32 \<Rightarrow> string_view \<Rightarrow> VoiceTransportResult" where
  "callResult e message =
     (if e = 0 then vr_success
      else
        (let diagnostic = (if validString message then copyString message else [])
         in vr_failure (transportError e)
              (if diagnostic = [] then ''host voice transport operation failed'' else diagnostic)))"

fun voiceErrorCode :: "VoiceTransportError \<Rightarrow> string" where
  "voiceErrorCode Vte_none = ''voice_transport_none''"
| "voiceErrorCode Vte_invalid_argument = ''voice_transport_invalid_argument''"
| "voiceErrorCode Vte_invalid_state = ''voice_transport_invalid_state''"
| "voiceErrorCode Vte_connection_failed = ''voice_transport_connection_failed''"
| "voiceErrorCode Vte_audio_device_unavailable = ''voice_transport_audio_device_unavailable''"
| "voiceErrorCode Vte_audio_device_switch_failed = ''voice_transport_audio_device_switch_failed''"
| "voiceErrorCode Vte_publication_failed = ''voice_transport_publication_failed''"
| "voiceErrorCode Vte_internal_error = ''voice_transport_internal_error''"

text \<open>Sizes of the structures on the 64-bit platforms the library is built for.\<close>

definition sizeof_room_grant :: u32 where
  "sizeof_room_grant = 40"

definition sizeof_membership :: u32 where
  "sizeof_membership = 120"

definition sizeof_event :: u32 where
  "sizeof_event = 88"

definition sizeof_transport :: u32 where
  "sizeof_transport = 80"

definition sizeof_config :: u32 where
  "sizeof_config = 104"

record room_grant_v1 =
  xg_struct_size :: u32
  xg_scope :: u32
  xg_url :: string_view
  xg_token :: string_view

record membership_v1 =
  xm_struct_size :: u32
  xm_version :: u64
  xm_hierarchy_id :: string_view
  xm_player_id :: string_view
  xm_group_id :: string_view
  xm_specialization_id :: string_view
  xm_team_id :: string_view
  xm_role_ids :: "string_view list option"
  xm_role_count :: nat
  xm_connected :: u8
  xm_can_receive_voice :: u8
  xm_transmit_muted :: u8

record core_event_v1 =
  xe_struct_size :: u32
  xe_abi_version :: u32
  xe_sequence :: u64
  xe_kind :: core_event_kind
  xe_connection_state :: u32
  xe_scope :: u32
  xe_membership :: "membership_v1 option"
  xe_participant_id :: string_view
  xe_error_code :: string_view
  xe_message :: string_view

section \<open>The host's transport\<close>

datatype host_callback =
    Cb_connection_state_changed u32
  | Cb_remote_audio_available u32 string_view
  | Cb_remote_audio_unavailable u32 string_view
  | Cb_speaker_started u32 string_view
  | Cb_speaker_stopped u32 string_view
  | Cb_error u32 string_view

record host_reply =
  rep_callbacks :: "host_callback list"
  rep_error :: u32
  rep_message :: string_view

type_synonym ('f, 't) host_view = "'f playback_log \<times> 't"

text \<open>
  The table of functions. \<open>set_observer\<close> is told whether an observer is attached or detached; the
  answer to a playback policy is an error and a message.
\<close>

record ('f, 't) transport_v1 =
  tt_struct_size :: u32
  tt_set_observer :: "(bool \<Rightarrow> ('f, 't) host_view \<Rightarrow> host_reply \<times> 't) option"
  tt_state :: "(('f, 't) host_view \<Rightarrow> u32) option"
  tt_connect :: "(room_grant_v1 list \<Rightarrow> ('f, 't) host_view \<Rightarrow> host_reply \<times> 't) option"
  tt_disconnect :: "(('f, 't) host_view \<Rightarrow> host_reply \<times> 't) option"
  tt_start_microphone :: "(u32 \<Rightarrow> ('f, 't) host_view \<Rightarrow> host_reply \<times> 't) option"
  tt_stop_microphone :: "(('f, 't) host_view \<Rightarrow> host_reply \<times> 't) option"
  tt_active_microphone_scope :: "(('f, 't) host_view \<Rightarrow> u8 \<times> u32) option"
  tt_configure_remote_audio ::
    "(u32 \<Rightarrow> string_view \<Rightarrow> u8 \<Rightarrow> 'f \<Rightarrow> ('f, 't) host_view \<Rightarrow> u32 \<times> string_view) option"

definition validTransport :: "('f, 't) transport_v1 \<Rightarrow> bool" where
  "validTransport t \<longleftrightarrow>
     sizeof_transport \<le> tt_struct_size t \<and>
     tt_set_observer t \<noteq> None \<and> tt_state t \<noteq> None \<and>
     tt_connect t \<noteq> None \<and> tt_disconnect t \<noteq> None \<and>
     tt_start_microphone t \<noteq> None \<and> tt_stop_microphone t \<noteq> None \<and>
     tt_active_microphone_scope t \<noteq> None \<and>
     tt_configure_remote_audio t \<noteq> None"

record ('f, 't) config_v1 =
  xc_struct_size :: u32
  xc_abi_version :: u32
  xc_transport :: "('f, 't) transport_v1"
  xc_event_callback :: bool

section \<open>The handle\<close>

record MembershipStorage =
  mb_version :: u64
  mb_hierarchy_id :: string
  mb_player_id :: string
  mb_group_id :: string
  mb_specialization_id :: string
  mb_team_id :: string
  mb_role_ids :: "string list"
  mb_connected :: bool
  mb_can_receive_voice :: bool
  mb_transmit_muted :: bool

text \<open>
  \<open>co_callback\<close> tells whether the host receives events, \<open>co_events\<close> are the events it has received.
  \<open>co_observer\<close> and \<open>co_observer_attached\<close> are members of the transport adapter, \<open>co_player\<close> is the
  voice client with the policies it has sent, \<open>co_host\<close> the host's state.
\<close>

record ('f, 't) client_core =
  co_callback :: bool
  co_events :: "core_event_v1 list"
  co_table :: "('f, 't) transport_v1"
  co_observer :: bool
  co_observer_attached :: bool
  co_player :: "'f PlayingClient"
  co_host :: 't
  co_next_sequence :: u64
  co_membership :: "MembershipStorage option"

abbreviation co_client :: "('f, 't) client_core \<Rightarrow> 'f VoiceClient" where
  "co_client c \<equiv> pl_client (co_player c)"

definition with_client :: "'f VoiceClient \<Rightarrow> ('f, 't) client_core \<Rightarrow> ('f, 't) client_core" where
  "with_client v c = c\<lparr>co_player := (co_player c)\<lparr>pl_client := v\<rparr>\<rparr>"

definition host_sees :: "('f, 't) client_core \<Rightarrow> ('f, 't) host_view" where
  "host_sees c = (pl_log (co_player c), co_host c)"

section \<open>Events\<close>

definition initializeEvent ::
  "core_event_kind \<Rightarrow> ('f, 't) client_core \<Rightarrow> core_event_v1 \<times> ('f, 't) client_core" where
  "initializeEvent kind c =
     (\<lparr>xe_struct_size = sizeof_event, xe_abi_version = abi_version,
       xe_sequence = co_next_sequence c, xe_kind = kind, xe_connection_state = 0, xe_scope = 0,
       xe_membership = None, xe_participant_id = empty_view, xe_error_code = empty_view,
       xe_message = empty_view\<rparr>,
      c\<lparr>co_next_sequence := co_next_sequence c + 1\<rparr>)"

definition emit_event :: "core_event_v1 \<Rightarrow> ('f, 't) client_core \<Rightarrow> ('f, 't) client_core" where
  "emit_event event c = (if co_callback c then c\<lparr>co_events := co_events c @ [event]\<rparr> else c)"

definition reportError :: "string \<Rightarrow> string \<Rightarrow> ('f, 't) client_core \<Rightarrow> ('f, 't) client_core" where
  "reportError code message c =
     (let (event, c') = initializeEvent Event_error c
      in emit_event (event\<lparr>xe_error_code := stringView code, xe_message := stringView message\<rparr>) c')"

definition reportArgumentError :: "string \<Rightarrow> ('f, 't) client_core \<Rightarrow> ('f, 't) client_core" where
  "reportArgumentError message c = reportError ''client_invalid_argument'' message c"

definition speakerEvent ::
  "core_event_kind \<Rightarrow> VoiceScope \<Rightarrow> string \<Rightarrow> ('f, 't) client_core \<Rightarrow> ('f, 't) client_core" where
  "speakerEvent kind sc participant c =
     (let (event, c') = initializeEvent kind c
      in emit_event (event\<lparr>xe_scope := coreScope sc, xe_participant_id := stringView participant\<rparr>) c')"

text \<open>What the handle does with a call of the voice client.\<close>

fun core_observes :: "ObserverCall \<Rightarrow> ('f, 't) client_core \<Rightarrow> ('f, 't) client_core" where
  "core_observes (Call_onVoiceStateChanged connection) c =
     (let (event, c') = initializeEvent Event_connection_state_changed c
      in emit_event (event\<lparr>xe_connection_state := coreState (ce_state connection)\<rparr>) c')"
| "core_observes (Call_onVoiceRemoteEvent remote) c =
     (if re_kind remote = Remote_speaker_started
      then speakerEvent Event_speaker_started (re_scope remote) (re_participant_id remote) c
      else if re_kind remote = Remote_speaker_stopped
      then speakerEvent Event_speaker_stopped (re_scope remote) (re_participant_id remote) c
      else c)"
| "core_observes (Call_onVoiceError e message) c = reportError (voiceErrorCode e) message c"

text \<open>The calls the voice client has logged reach the handle at once; the log is empty afterwards.\<close>

definition observed :: "('f, 't) client_core \<Rightarrow> ('f, 't) client_core" where
  "observed c =
     fold core_observes (vc_calls (co_client c)) (with_client ((co_client c)\<lparr>vc_calls := []\<rparr>) c)"
section \<open>The transport adapter\<close>

definition playback_answers :: "('f, 't) client_core \<Rightarrow> 'f playback_transport" where
  "playback_answers c log ch =
     (let (e, message) = the (tt_configure_remote_audio (co_table c)) (coreScope (pc_scope ch))
            (stringView (pc_participant_id ch)) (if pc_admitted ch then 1 else 0) (pc_gain ch)
            (log, co_host c)
      in callResult e message)"

definition adapter_connection_state ::
  "u32 \<Rightarrow> ('f, 't) client_core \<Rightarrow> ('f, 't) client_core" where
  "adapter_connection_state s c =
     (if \<not> co_observer c then c
      else observed (with_client (onTransportStateChanged (transportState s) (co_client c)) c))"

definition adapter_audio ::
  "('f playback_transport \<Rightarrow> VoiceScope \<Rightarrow> string \<Rightarrow> 'f PlayingClient \<Rightarrow> 'f PlayingClient) \<Rightarrow>
   u32 \<Rightarrow> string_view \<Rightarrow> ('f, 't) client_core \<Rightarrow> ('f, 't) client_core" where
  "adapter_audio callback s participant c =
     (if \<not> co_observer c \<or> \<not> validScope s \<or> \<not> validString participant then c
      else observed (c\<lparr>co_player := callback (playback_answers c) (domainScope s)
                                     (copyString participant) (co_player c)\<rparr>))"

definition adapter_speaker ::
  "VoiceRemoteEventKind \<Rightarrow> u32 \<Rightarrow> string_view \<Rightarrow> ('f, 't) client_core \<Rightarrow> ('f, 't) client_core" where
  "adapter_speaker kind s participant c =
     (if \<not> co_observer c \<or> \<not> validScope s \<or> \<not> validString participant then c
      else observed (with_client
             (emitRemoteEvent kind (domainScope s) (copyString participant) (co_client c)) c))"

definition adapter_error ::
  "u32 \<Rightarrow> string_view \<Rightarrow> ('f, 't) client_core \<Rightarrow> ('f, 't) client_core" where
  "adapter_error e message c =
     (if \<not> co_observer c \<or> \<not> validString message then c
      else observed (with_client
             (onTransportError (transportError e) (copyString message) (co_client c)) c))"

fun host_calls_back ::
  "host_callback \<Rightarrow> ('f::{zero, one, times}, 't) client_core \<Rightarrow> ('f, 't) client_core" where
  "host_calls_back (Cb_connection_state_changed s) c = adapter_connection_state s c"
| "host_calls_back (Cb_remote_audio_available s p) c = adapter_audio onRemoteAudioAvailable s p c"
| "host_calls_back (Cb_remote_audio_unavailable s p) c = adapter_audio onRemoteAudioUnavailable s p c"
| "host_calls_back (Cb_speaker_started s p) c = adapter_speaker Remote_speaker_started s p c"
| "host_calls_back (Cb_speaker_stopped s p) c = adapter_speaker Remote_speaker_stopped s p c"
| "host_calls_back (Cb_error e m) c = adapter_error e m c"

text \<open>The effect of a call of the table: the callbacks made while it runs, then its result.\<close>

definition host_returns ::
  "host_reply \<times> 't \<Rightarrow> ('f::{zero, one, times}, 't) client_core \<Rightarrow>
   VoiceTransportResult \<times> ('f, 't) client_core" where
  "host_returns answer c =
     (let (reply, t') = answer
      in (callResult (rep_error reply) (rep_message reply),
          fold host_calls_back (rep_callbacks reply) (c\<lparr>co_host := t'\<rparr>)))"

definition adapter_setObserver ::
  "bool \<Rightarrow> ('f::{zero, one, times}, 't) client_core \<Rightarrow> ('f, 't) client_core" where
  "adapter_setObserver attach c =
     (let c1 = c\<lparr>co_observer := attach\<rparr>;
          (result, c2) = host_returns (the (tt_set_observer (co_table c)) attach (host_sees c1)) c1;
          attached = vr_ok result;
          c3 = c2\<lparr>co_observer_attached := attached\<rparr>
      in if \<not> attached then c3\<lparr>co_observer := False\<rparr> else c3)"

definition adapter_state :: "('f, 't) client_core \<Rightarrow> VoiceTransportState" where
  "adapter_state c = transportState (the (tt_state (co_table c)) (host_sees c))"

definition room_grant :: "VoiceRoomGrant \<Rightarrow> room_grant_v1" where
  "room_grant g =
     \<lparr>xg_struct_size = sizeof_room_grant, xg_scope = coreScope (vg_scope g),
      xg_url = stringView (vg_url g), xg_token = stringView (vg_token g)\<rparr>"

definition adapter_connect where
  "adapter_connect grants c =
     host_returns (the (tt_connect (co_table c)) (map room_grant grants) (host_sees c)) c"

definition adapter_disconnect where
  "adapter_disconnect c = host_returns (the (tt_disconnect (co_table c)) (host_sees c)) c"

definition adapter_startMicrophone where
  "adapter_startMicrophone sc c =
     host_returns (the (tt_start_microphone (co_table c)) (coreScope sc) (host_sees c)) c"

definition adapter_stopMicrophone where
  "adapter_stopMicrophone c = host_returns (the (tt_stop_microphone (co_table c)) (host_sees c)) c"

definition adapter_activeTransmissionScope :: "('f, 't) client_core \<Rightarrow> VoiceScope option" where
  "adapter_activeTransmissionScope c =
     (let (active, s) = the (tt_active_microphone_scope (co_table c)) (host_sees c)
      in if active = 0 \<or> \<not> validScope s then None else Some (domainScope s))"

section \<open>The voice client's methods\<close>

definition voice_connect ::
  "VoiceRoomGrant list \<Rightarrow> ('f::{zero, one, times}, 't) client_core \<Rightarrow>
   VoiceTransportResult \<times> ('f, 't) client_core" where
  "voice_connect grants c =
     (case connect_begin grants (co_client c) of
        (Some r, v) \<Rightarrow> (r, with_client v c)
      | (None, v) \<Rightarrow>
          (let (result, c') = adapter_connect grants (with_client v c)
           in (result, with_client (connect_finish result (co_client c')) c')))"

definition voice_press ::
  "VoiceScope \<Rightarrow> ('f::{zero, one, times}, 't) client_core \<Rightarrow>
   VoiceTransportResult \<times> ('f, 't) client_core" where
  "voice_press sc c =
     (case press_begin (co_client c) of
        (Inl r, v) \<Rightarrow> (r, with_client v c)
      | (Inr g, v) \<Rightarrow>
          (let (result, c1) = adapter_startMicrophone sc (with_client v c)
           in case press_confirm sc result g (co_client c1) of
                (Press_confirmed, v1) \<Rightarrow> (result, with_client v1 c1)
              | (Press_unconfirmed cancel, v1) \<Rightarrow>
                  (let c2 = with_client v1 c1;
                       (stop_result, c3) =
                         (if cancel \<or> adapter_activeTransmissionScope c2 \<noteq> None
                          then (let (r, c') = adapter_stopMicrophone c2 in (tolerate_stopped r, c'))
                          else (vr_success, c2))
                   in (press_result result stop_result g,
                       with_client (publication_settled stop_result g (co_client c3)) c3))))"

text \<open>A release that would wait for ever does not return.\<close>

definition voice_release ::
  "('f::{zero, one, times}, 't) client_core \<Rightarrow>
   (VoiceTransportResult \<times> ('f, 't) client_core) option" where
  "voice_release c =
     (case release_begin (co_client c) of
        (Release_refused r, v) \<Rightarrow> Some (r, with_client v c)
      | (Release_waits g, v) \<Rightarrow>
          (if release_may_wake g v then Some (vc_last_stop_result v, with_client v c) else None)
      | (Release_stops g, v) \<Rightarrow>
          (let (result, c') = adapter_stopMicrophone (with_client v c)
           in Some (result, with_client (publication_settled result g (co_client c')) c')))"

definition voice_disconnect ::
  "('f::{zero, one, times}, 't) client_core \<Rightarrow>
   (VoiceTransportResult \<times> ('f, 't) client_core) option" where
  "voice_disconnect c =
     (case disconnect_begin (co_client c) of
        (Some r, v) \<Rightarrow> Some (r, with_client v c)
      | (None, v) \<Rightarrow>
          (case voice_release (with_client v c) of
             None \<Rightarrow> None
           | Some (stop_result, c1) \<Rightarrow>
               if \<not> disconnect_goes_on stop_result then Some (stop_result, c1)
               else (let (result, c2) = adapter_disconnect c1
                     in Some (result, with_client (disconnect_finish result (co_client c2)) c2))))"

section \<open>Memberships\<close>

fun copy_roles :: "string_view list \<Rightarrow> string list option" where
  "copy_roles [] = Some []"
| "copy_roles (v # vs) =
     (if \<not> validString v \<or> vw_size v = 0 then None
      else map_option (\<lambda>roles. copyString v # roles) (copy_roles vs))"

definition copyMembership :: "membership_v1 \<Rightarrow> MembershipStorage option" where
  "copyMembership m =
     (if xm_struct_size m < sizeof_membership \<or> xm_version m = 0 \<or>
         (xm_role_count m \<noteq> 0 \<and> xm_role_ids m = None)
      then None
      else if list_ex (\<lambda>v. \<not> validString v \<or> vw_size v = 0)
                [xm_hierarchy_id m, xm_player_id m, xm_group_id m, xm_specialization_id m,
                 xm_team_id m]
      then None
      else map_option
             (\<lambda>roles.
                \<lparr>mb_version = xm_version m, mb_hierarchy_id = copyString (xm_hierarchy_id m),
                 mb_player_id = copyString (xm_player_id m),
                 mb_group_id = copyString (xm_group_id m),
                 mb_specialization_id = copyString (xm_specialization_id m),
                 mb_team_id = copyString (xm_team_id m), mb_role_ids = roles,
                 mb_connected = (xm_connected m \<noteq> 0),
                 mb_can_receive_voice = (xm_can_receive_voice m \<noteq> 0),
                 mb_transmit_muted = (xm_transmit_muted m \<noteq> 0)\<rparr>)
             (copy_roles (take (xm_role_count m)
                (case xm_role_ids m of None \<Rightarrow> [] | Some roles \<Rightarrow> roles))))"

definition as_u8 :: "bool \<Rightarrow> u8" where
  "as_u8 b = (if b then 1 else 0)"

definition event_membership :: "MembershipStorage \<Rightarrow> membership_v1" where
  "event_membership m =
     \<lparr>xm_struct_size = sizeof_membership, xm_version = mb_version m,
      xm_hierarchy_id = stringView (mb_hierarchy_id m), xm_player_id = stringView (mb_player_id m),
      xm_group_id = stringView (mb_group_id m),
      xm_specialization_id = stringView (mb_specialization_id m),
      xm_team_id = stringView (mb_team_id m),
      xm_role_ids = Some (map stringView (mb_role_ids m)), xm_role_count = length (mb_role_ids m),
      xm_connected = as_u8 (mb_connected m), xm_can_receive_voice = as_u8 (mb_can_receive_voice m),
      xm_transmit_muted = as_u8 (mb_transmit_muted m)\<rparr>"

definition emitMembership :: "MembershipStorage \<Rightarrow> ('f, 't) client_core \<Rightarrow> ('f, 't) client_core" where
  "emitMembership m c =
     (let (event, c') = initializeEvent Event_membership_updated c
      in emit_event (event\<lparr>xe_membership := Some (event_membership m)\<rparr>) c')"

definition emitMembershipCleared :: "('f, 't) client_core \<Rightarrow> ('f, 't) client_core" where
  "emitMembershipCleared c =
     (let (event, c') = initializeEvent Event_membership_cleared c in emit_event event c')"

section \<open>Construction and destruction\<close>

text \<open>The two gains are the literals \<open>0.5F\<close> and \<open>0.25F\<close> of the default audio settings.\<close>

definition client_core_ctor ::
  "'f \<Rightarrow> 'f \<Rightarrow> ('f::{zero, one, times}, 't) config_v1 \<Rightarrow> 't \<Rightarrow> ('f, 't) client_core" where
  "client_core_ctor half quarter config t =
     (let settings = AudioEngineConfig_default half quarter;
          c0 = \<lparr>co_callback = xc_event_callback config, co_events = [],
                co_table = xc_transport config, co_observer = False, co_observer_attached = False,
                co_player = fresh_player Transport_disconnected settings, co_host = t,
                co_next_sequence = 1, co_membership = None\<rparr>;
          c1 = with_client (VoiceClient_ctor (adapter_state c0) settings) c0;
          c2 = adapter_setObserver True c1
      in with_client (vc_setObserver True (co_client c2)) c2)"

definition client_core_dtor ::
  "('f::{zero, one, times}, 't) client_core \<Rightarrow> ('f, 't) client_core" where
  "client_core_dtor c = adapter_setObserver False (with_client (vc_setObserver False (co_client c)) c)"

section \<open>The functions of the interface\<close>

definition hvc_client_core_api_version :: u32 where
  "hvc_client_core_api_version = abi_version"

text \<open>
  \<open>has_out\<close> tells whether the pointer that receives the handle is not null. The last component is
  the host's state.
\<close>

definition hvc_client_core_create ::
  "'f \<Rightarrow> 'f \<Rightarrow> ('f::{zero, one, times}, 't) config_v1 option \<Rightarrow> bool \<Rightarrow> 't \<Rightarrow>
   core_result \<times> ('f, 't) client_core option \<times> 't" where
  "hvc_client_core_create half quarter config has_out t =
     (if \<not> has_out then (Result_invalid_argument, None, t)
      else case config of
        None \<Rightarrow> (Result_invalid_argument, None, t)
      | Some cf \<Rightarrow>
          if xc_struct_size cf < sizeof_config then (Result_invalid_argument, None, t)
          else if abiMajor (xc_abi_version cf) \<noteq> abiMajor abi_version \<or> abi_version < xc_abi_version cf
          then (Result_incompatible_abi, None, t)
          else if \<not> validTransport (xc_transport cf) then (Result_invalid_argument, None, t)
          else
            (let handle = client_core_ctor half quarter cf t
             in if \<not> co_observer_attached handle
                then (Result_transport_error, None, co_host (client_core_dtor handle))
                else (Result_ok, Some handle, co_host handle)))"

definition hvc_client_core_destroy ::
  "('f::{zero, one, times}, 't) client_core option \<Rightarrow> ('f, 't) client_core option" where
  "hvc_client_core_destroy core = map_option client_core_dtor core"

definition operationResult ::
  "VoiceTransportResult \<Rightarrow> ('f, 't) client_core \<Rightarrow> core_result \<times> ('f, 't) client_core" where
  "operationResult result c =
     (if vr_ok result then (Result_ok, c)
      else
        (let c' = reportError (voiceErrorCode (vr_error result)) (vr_message result) c
         in (if vr_error result = Vte_invalid_argument then Result_invalid_argument
             else if vr_error result = Vte_invalid_state then Result_invalid_state
             else Result_transport_error, c')))"

text \<open>The operations, on a handle that is not null.\<close>

fun copy_grants :: "room_grant_v1 list \<Rightarrow> VoiceRoomGrant list option" where
  "copy_grants [] = Some []"
| "copy_grants (g # gs) =
     (if xg_struct_size g < sizeof_room_grant \<or> \<not> validScope (xg_scope g) \<or>
         \<not> validString (xg_url g) \<or> \<not> validString (xg_token g) \<or>
         vw_size (xg_url g) = 0 \<or> vw_size (xg_token g) = 0
      then None
      else map_option
             (\<lambda>rest. \<lparr>vg_scope = domainScope (xg_scope g), vg_url = copyString (xg_url g),
                      vg_token = copyString (xg_token g)\<rparr> # rest)
             (copy_grants gs))"

definition core_connect ::
  "room_grant_v1 list option \<Rightarrow> nat \<Rightarrow> ('f::{zero, one, times}, 't) client_core \<Rightarrow>
   core_result \<times> ('f, 't) client_core" where
  "core_connect grants grant_count c =
     (if grants = None \<or> grant_count = 0 \<or> 3 < grant_count
      then (Result_invalid_argument,
            reportArgumentError ''between one and three room grants are required'' c)
      else case copy_grants (take grant_count (the grants)) of
        None \<Rightarrow> (Result_invalid_argument,
                 reportArgumentError ''room grants contain an invalid entry'' c)
      | Some copied \<Rightarrow> (let (result, c') = voice_connect copied c in operationResult result c'))"

definition core_disconnect ::
  "('f::{zero, one, times}, 't) client_core \<Rightarrow> (core_result \<times> ('f, 't) client_core) option" where
  "core_disconnect c = map_option (\<lambda>(result, c'). operationResult result c') (voice_disconnect c)"

definition core_press ::
  "u32 \<Rightarrow> ('f::{zero, one, times}, 't) client_core \<Rightarrow> core_result \<times> ('f, 't) client_core" where
  "core_press s c =
     (if \<not> validScope s
      then (Result_invalid_argument, reportArgumentError ''push-to-talk scope is invalid'' c)
      else (let (result, c') = voice_press (domainScope s) c in operationResult result c'))"

definition core_release ::
  "('f::{zero, one, times}, 't) client_core \<Rightarrow> (core_result \<times> ('f, 't) client_core) option" where
  "core_release c = map_option (\<lambda>(result, c'). operationResult result c') (voice_release c)"

definition core_update_membership ::
  "membership_v1 option \<Rightarrow> ('f, 't) client_core \<Rightarrow> core_result \<times> ('f, 't) client_core" where
  "core_update_membership membership c =
     (case membership of
        None \<Rightarrow> (Result_invalid_argument, reportArgumentError ''membership is required'' c)
      | Some m \<Rightarrow>
          (case copyMembership m of
             None \<Rightarrow> (Result_invalid_argument,
                      reportArgumentError ''membership contains an invalid field'' c)
           | Some copied \<Rightarrow>
               if (case co_membership c of None \<Rightarrow> False
                   | Some held \<Rightarrow> mb_version copied \<le> mb_version held)
               then (Result_invalid_argument,
                     reportArgumentError ''membership version must increase strictly'' c)
               else (Result_ok, emitMembership copied (c\<lparr>co_membership := Some copied\<rparr>))))"

definition core_clear_membership ::
  "('f, 't) client_core \<Rightarrow> core_result \<times> ('f, 't) client_core" where
  "core_clear_membership c = (Result_ok, emitMembershipCleared (c\<lparr>co_membership := None\<rparr>))"

text \<open>The exported functions: a null handle is refused, and nothing is reported for it.\<close>

datatype core_call =
    Call_connect "room_grant_v1 list option" nat
  | Call_disconnect
  | Call_press_push_to_talk u32
  | Call_release_push_to_talk
  | Call_update_membership "membership_v1 option"
  | Call_clear_membership

fun core_called ::
  "core_call \<Rightarrow> ('f::{zero, one, times}, 't) client_core \<Rightarrow>
   (core_result \<times> ('f, 't) client_core) option" where
  "core_called (Call_connect grants n) c = Some (core_connect grants n c)"
| "core_called Call_disconnect c = core_disconnect c"
| "core_called (Call_press_push_to_talk s) c = Some (core_press s c)"
| "core_called Call_release_push_to_talk c = core_release c"
| "core_called (Call_update_membership m) c = Some (core_update_membership m c)"
| "core_called Call_clear_membership c = Some (core_clear_membership c)"

definition hvc_client_core_call ::
  "core_call \<Rightarrow> ('f::{zero, one, times}, 't) client_core option \<Rightarrow>
   (core_result \<times> ('f, 't) client_core option) option" where
  "hvc_client_core_call call core =
     (case core of
        None \<Rightarrow> Some (Result_invalid_argument, None)
      | Some c \<Rightarrow> map_option (\<lambda>(r, c'). (r, Some c')) (core_called call c))"

definition hvc_client_core_get_connection_state ::
  "('f, 't) client_core option \<Rightarrow> bool \<Rightarrow> core_result \<times> u32 option" where
  "hvc_client_core_get_connection_state core has_out =
     (case core of
        None \<Rightarrow> (Result_invalid_argument, None)
      | Some c \<Rightarrow> if \<not> has_out then (Result_invalid_argument, None)
                  else (Result_ok, Some (coreState (vc_state (co_client c)))))"

section \<open>Runs\<close>

text \<open>
  What happens to a handle: the host calls an operation, calls back from its own threads, or moves
  on its own.
\<close>

datatype 't core_action =
    Host_calls core_call
  | Host_calls_back host_callback
  | Host_moves 't

fun core_step ::
  "'t core_action \<Rightarrow> ('f::{zero, one, times}, 't) client_core \<Rightarrow> ('f, 't) client_core option" where
  "core_step (Host_calls call) c = map_option snd (core_called call c)"
| "core_step (Host_calls_back callback) c = Some (host_calls_back callback c)"
| "core_step (Host_moves t) c = Some (c\<lparr>co_host := t\<rparr>)"

fun core_run ::
  "'t core_action list \<Rightarrow> ('f::{zero, one, times}, 't) client_core \<Rightarrow> ('f, 't) client_core option" where
  "core_run [] c = Some c"
| "core_run (a # rest) c = Option.bind (core_step a c) (core_run rest)"

end
