(* ===== verification/Client_Core_Properties.thy ===== *)
theory Client_Core_Properties
  imports Client_Core
begin

text \<open>
  What holds of a handle of the C interface: its operations return, its events are numbered in order
  and well-formed, a failure is reported, and the memberships it publishes only get newer.
\<close>

section \<open>Updates of the voice client\<close>

lemma with_client_simps [simp]:
  "co_callback (with_client v c) = co_callback c"
  "co_events (with_client v c) = co_events c"
  "co_table (with_client v c) = co_table c"
  "co_observer (with_client v c) = co_observer c"
  "co_observer_attached (with_client v c) = co_observer_attached c"
  "co_client (with_client v c) = v"
  "pl_log (co_player (with_client v c)) = pl_log (co_player c)"
  "co_host (with_client v c) = co_host c"
  "co_next_sequence (with_client v c) = co_next_sequence c"
  "co_membership (with_client v c) = co_membership c"
  by (simp_all add: with_client_def)

lemma with_client_with_client [simp]: "with_client v (with_client w c) = with_client v c"
  by (simp add: with_client_def)

section \<open>What is emitted\<close>

text \<open>The fields of an event that do not belong to its kind are zero or empty.\<close>

definition event_shape :: "core_event_v1 \<Rightarrow> bool" where
  "event_shape e \<longleftrightarrow>
     xe_struct_size e = sizeof_event \<and> xe_abi_version e = abi_version \<and>
     (xe_kind e \<noteq> Event_connection_state_changed \<longrightarrow> xe_connection_state e = 0) \<and>
     (xe_kind e \<noteq> Event_speaker_started \<and> xe_kind e \<noteq> Event_speaker_stopped \<longrightarrow>
        xe_scope e = 0 \<and> xe_participant_id e = empty_view) \<and>
     (xe_kind e = Event_membership_updated \<longleftrightarrow> xe_membership e \<noteq> None) \<and>
     (xe_kind e \<noteq> Event_error \<longrightarrow> xe_error_code e = empty_view \<and> xe_message e = empty_view)"

fun about_membership :: "core_event_kind \<Rightarrow> bool" where
  "about_membership Event_membership_updated = True"
| "about_membership Event_membership_cleared = True"
| "about_membership _ = False"

fun numbered_from :: "u64 \<Rightarrow> core_event_v1 list \<Rightarrow> bool" where
  "numbered_from n [] = True"
| "numbered_from n (e # es) = (xe_sequence e = n \<and> numbered_from (n + 1) es)"

lemma numbered_from_append [simp]:
  "numbered_from n (xs @ ys) \<longleftrightarrow> numbered_from n xs \<and> numbered_from (n + of_nat (length xs)) ys"
  by (induction xs arbitrary: n) (auto simp: algebra_simps)

lemma numbered_from_nth:
  "numbered_from n es \<Longrightarrow> i < length es \<Longrightarrow> xe_sequence (es ! i) = n + of_nat i"
  by (induction es arbitrary: n i) (auto simp: nth_Cons algebra_simps split: nat.split)

text \<open>
  A step that leaves the membership alone: it emits events, numbered on, none of them about the
  membership.
\<close>

definition emits :: "('f, 't) client_core \<Rightarrow> ('f, 't) client_core \<Rightarrow> bool" where
  "emits c c' \<longleftrightarrow>
     co_callback c' = co_callback c \<and> co_membership c' = co_membership c \<and>
     (\<exists>es. numbered_from (co_next_sequence c) es \<and>
           (\<forall>e \<in> set es. event_shape e \<and> \<not> about_membership (xe_kind e)) \<and>
           co_next_sequence c' = co_next_sequence c + of_nat (length es) \<and>
           co_events c' = co_events c @ (if co_callback c then es else []))"

lemma emits_refl [simp, intro]: "emits c c"
  by (auto simp: emits_def intro!: exI [of _ "[]"])

lemma emits_trans [trans]:
  assumes "emits a b" and "emits b c"
  shows "emits a c"
proof -
  obtain es fs where "numbered_from (co_next_sequence a) es" "numbered_from (co_next_sequence b) fs"
      "\<forall>e \<in> set es. event_shape e \<and> \<not> about_membership (xe_kind e)"
      "\<forall>e \<in> set fs. event_shape e \<and> \<not> about_membership (xe_kind e)"
      "co_next_sequence b = co_next_sequence a + of_nat (length es)"
      "co_next_sequence c = co_next_sequence b + of_nat (length fs)"
      "co_events b = co_events a @ (if co_callback a then es else [])"
      "co_events c = co_events b @ (if co_callback b then fs else [])"
    using assms unfolding emits_def by blast
  then show ?thesis
    using assms unfolding emits_def by (intro conjI exI [of _ "es @ fs"]) (auto simp: algebra_simps)
qed

text \<open>Fields that do not count.\<close>

lemma emits_same:
  assumes "co_callback c' = co_callback c" and "co_membership c' = co_membership c"
    and "co_next_sequence c' = co_next_sequence c" and "co_events c' = co_events c"
  shows "emits c c'"
  using assms by (auto simp: emits_def intro!: exI [of _ "[]"])

lemma emits_with_client [simp, intro]: "emits c (with_client v c)"
  by (rule emits_same) simp_all

lemma emits_then_client: "emits c c' \<Longrightarrow> emits c (with_client v c')"
  by (rule emits_trans [OF _ emits_with_client])

lemmas event_defs = initializeEvent_def reportError_def speakerEvent_def reportArgumentError_def
  Let_def

lemma emits_event:
  assumes "xe_sequence e = co_next_sequence c" and "event_shape e"
    and "\<not> about_membership (xe_kind e)"
  shows "emits c (emit_event e (c\<lparr>co_next_sequence := co_next_sequence c + 1\<rparr>))"
  using assms unfolding emits_def emit_event_def by (intro conjI exI [of _ "[e]"]) simp_all

lemma emits_reportError: "emits c (reportError code message c)"
  by (auto simp: event_defs event_shape_def intro!: emits_event)

lemma emits_reportArgumentError: "emits c (reportArgumentError message c)"
  by (simp add: reportArgumentError_def emits_reportError)

lemma emits_observes: "emits c (core_observes call c)"
proof (cases call)
  case (Call_onVoiceRemoteEvent e)
  then show ?thesis
    by (cases "re_kind e") (auto simp: event_defs event_shape_def intro!: emits_event)
qed (auto simp: event_defs event_shape_def intro!: emits_event)

lemma emits_fold: "(\<And>x c. emits c (f x c)) \<Longrightarrow> emits c (fold f xs c)"
  by (induction xs arbitrary: c) (auto intro: emits_trans)

lemma emits_observed: "emits c (observed c)"
  unfolding observed_def by (rule emits_trans [OF emits_with_client emits_fold]) (rule emits_observes)

lemma emits_calls_back: "emits c (host_calls_back callback c)"
proof (cases callback)
  case (Cb_remote_audio_available s p)
  then show ?thesis
    by (auto simp: adapter_audio_def intro!: emits_trans [OF emits_same emits_observed])
next
  case (Cb_remote_audio_unavailable s p)
  then show ?thesis
    by (auto simp: adapter_audio_def intro!: emits_trans [OF emits_same emits_observed])
qed (auto simp: adapter_connection_state_def adapter_speaker_def adapter_error_def
       intro!: emits_trans [OF emits_with_client emits_observed])

lemma emits_host_returns: "emits c (snd (host_returns answer c))"
  by (auto simp: host_returns_def split: prod.splits
      intro!: emits_trans [OF emits_same emits_fold [OF emits_calls_back]])

lemma emits_host: "host_returns answer c = (r, c') \<Longrightarrow> emits c c'"
  using emits_host_returns [of c answer] by simp

lemma emits_setObserver: "emits c (adapter_setObserver attach c)"
proof -
  obtain r c2 where "host_returns (the (tt_set_observer (co_table c)) attach
      (host_sees (c\<lparr>co_observer := attach\<rparr>))) (c\<lparr>co_observer := attach\<rparr>) = (r, c2)"
    by fastforce
  moreover from emits_host [OF this] have "emits c c2"
    by (rule emits_trans [OF emits_same, rotated -1]) simp_all
  ultimately show ?thesis
    by (auto simp: adapter_setObserver_def Let_def intro!: emits_trans [OF \<open>emits c c2\<close> emits_same])
qed

section \<open>Operations emit\<close>

lemma emits_connect: "voice_connect grants c = (r, c') \<Longrightarrow> emits c c'"
  by (auto simp: voice_connect_def adapter_connect_def split: prod.splits option.splits
      dest!: emits_host intro: emits_trans [OF emits_with_client] emits_then_client)

lemma emits_stop: "adapter_stopMicrophone c = (r, c') \<Longrightarrow> emits c c'"
  by (auto simp: adapter_stopMicrophone_def dest: emits_host)

lemma emits_start: "adapter_startMicrophone sc c = (r, c') \<Longrightarrow> emits c c'"
  by (auto simp: adapter_startMicrophone_def dest: emits_host)

lemma emits_press: "voice_press sc c = (r, c') \<Longrightarrow> emits c c'"
  by (auto simp: voice_press_def Let_def split: prod.splits sum.splits press_outcome.splits if_splits
      dest!: emits_start emits_stop
      intro: emits_trans [OF emits_with_client] emits_then_client emits_trans)

lemma emits_release: "voice_release c = Some (r, c') \<Longrightarrow> emits c c'"
  by (auto simp: voice_release_def split: prod.splits release_action.splits if_splits
      dest!: emits_stop intro: emits_trans [OF emits_with_client] emits_then_client)

lemma emits_disconnect:
  assumes "voice_disconnect c = Some (r, c')"
  shows "emits c c'"
  using assms
  by (auto simp: voice_disconnect_def adapter_disconnect_def
      split: prod.splits option.splits if_splits dest!: emits_release emits_host
      intro: emits_trans [OF emits_with_client] emits_then_client emits_trans)

lemma emits_operationResult: "operationResult r c = (result, c') \<Longrightarrow> emits c c'"
  by (auto simp: operationResult_def Let_def emits_reportError split: if_splits)

text \<open>What the operations on the membership do.\<close>

definition publishes_membership :: "MembershipStorage option \<Rightarrow> ('f, 't) client_core \<Rightarrow> ('f, 't) client_core \<Rightarrow> bool" where
  "publishes_membership m c c' \<longleftrightarrow>
     co_callback c' = co_callback c \<and> co_membership c' = m \<and>
     (\<exists>e. xe_sequence e = co_next_sequence c \<and> event_shape e \<and>
          (case m of None \<Rightarrow> xe_kind e = Event_membership_cleared
           | Some held \<Rightarrow> xe_kind e = Event_membership_updated \<and>
               xe_membership e = Some (event_membership held) \<and>
               (\<forall>old. co_membership c = Some old \<longrightarrow> mb_version old < mb_version held)) \<and>
          co_next_sequence c' = co_next_sequence c + 1 \<and>
          co_events c' = co_events c @ (if co_callback c then [e] else []))"

lemma publishes_membership_event:
  assumes "xe_sequence e = co_next_sequence c" and "event_shape e"
    and "case m of None \<Rightarrow> xe_kind e = Event_membership_cleared
         | Some held \<Rightarrow> xe_kind e = Event_membership_updated \<and>
             xe_membership e = Some (event_membership held) \<and>
             (\<forall>old. co_membership c = Some old \<longrightarrow> mb_version old < mb_version held)"
  shows "publishes_membership m c (emit_event e
    (c\<lparr>co_membership := m, co_next_sequence := co_next_sequence c + 1\<rparr>))"
  using assms unfolding publishes_membership_def emit_event_def by (intro conjI exI [of _ e]) simp_all

lemma called_emits_or_publishes:
  assumes "core_called call c = Some (r, c')"
  shows "emits c c' \<or> (r = Result_ok \<and> (\<exists>m. publishes_membership m c c'))"
proof (cases call)
  case (Call_connect grants n)
  then show ?thesis using assms
    by (auto simp: core_connect_def emits_reportArgumentError split: prod.splits option.splits if_splits
        dest!: emits_connect emits_operationResult intro: emits_trans)
next
  case (Call_press_push_to_talk s)
  then show ?thesis using assms
    by (auto simp: core_press_def emits_reportArgumentError split: prod.splits if_splits
        dest!: emits_press emits_operationResult intro: emits_trans)
next
  case Call_disconnect
  then show ?thesis using assms
    by (auto simp: core_disconnect_def split: prod.splits dest!: emits_disconnect emits_operationResult
        intro: emits_trans)
next
  case Call_release_push_to_talk
  then show ?thesis using assms
    by (auto simp: core_release_def split: prod.splits dest!: emits_release emits_operationResult
        intro: emits_trans)
next
  case (Call_update_membership m)
  show ?thesis
  proof (cases "emits c c'")
    case False
    with Call_update_membership assms obtain copied where
      "r = Result_ok" "c' = emitMembership copied (c\<lparr>co_membership := Some copied\<rparr>)"
      "\<forall>held. co_membership c = Some held \<longrightarrow> \<not> mb_version copied \<le> mb_version held"
      by (auto simp: core_update_membership_def emits_reportArgumentError
          split: option.splits if_splits)
    then have "publishes_membership (Some copied) c c'"
      by (auto simp: emitMembership_def event_defs event_shape_def not_le intro!: publishes_membership_event)
    with \<open>r = Result_ok\<close> show ?thesis by blast
  qed simp
next
  case Call_clear_membership
  then have "publishes_membership None c c'" "r = Result_ok" using assms
    by (auto simp: core_clear_membership_def emitMembershipCleared_def event_defs event_shape_def
        intro!: publishes_membership_event)
  then show ?thesis by blast
qed

section \<open>The events of a handle\<close>

text \<open>The membership the events have published, and that each one is newer than the one before.\<close>

definition membership_after :: "membership_v1 option \<Rightarrow> core_event_v1 \<Rightarrow> membership_v1 option" where
  "membership_after m e =
     (if xe_kind e = Event_membership_updated then xe_membership e
      else if xe_kind e = Event_membership_cleared then None
      else m)"

definition published :: "core_event_v1 list \<Rightarrow> membership_v1 option" where
  "published es = foldl membership_after None es"

lemma published_snoc [simp]: "published (es @ [e]) = membership_after (published es) e"
  by (simp add: published_def)

definition memberships_rise :: "core_event_v1 list \<Rightarrow> bool" where
  "memberships_rise es \<longleftrightarrow>
     (\<forall>xs e ys held m. es = xs @ e # ys \<longrightarrow> xe_membership e = Some m \<longrightarrow>
        published xs = Some held \<longrightarrow> xm_version held < xm_version m)"

lemma memberships_rise_Nil [simp]: "memberships_rise []"
  by (simp add: memberships_rise_def)

lemma memberships_rise_snoc:
  "memberships_rise (es @ [e]) \<longleftrightarrow> memberships_rise es \<and>
     (\<forall>held m. xe_membership e = Some m \<longrightarrow> published es = Some held \<longrightarrow>
        xm_version held < xm_version m)" (is "?l \<longleftrightarrow> ?r")
proof
  assume ?l
  then show ?r unfolding memberships_rise_def by (auto; metis append_Cons append_assoc)
next
  assume r: ?r
  show ?l unfolding memberships_rise_def
  proof (intro allI impI)
    fix xs f ys held m
    assume "es @ [e] = xs @ f # ys" "xe_membership f = Some m" "published xs = Some held"
    with r show "xm_version held < xm_version m"
      by (cases ys rule: rev_cases) (auto simp: memberships_rise_def)
  qed
qed

lemma other_events:
  assumes "\<forall>e \<in> set fs. event_shape e \<and> \<not> about_membership (xe_kind e)"
  shows "published (es @ fs) = published es \<and> (memberships_rise (es @ fs) \<longleftrightarrow> memberships_rise es)"
  using assms
proof (induction fs rule: rev_induct)
  case (snoc f fs)
  then have "xe_kind f \<noteq> Event_membership_updated" "xe_kind f \<noteq> Event_membership_cleared"
      "xe_membership f = None"
    by (auto simp: event_shape_def)
  with snoc published_snoc [of "es @ fs" f] memberships_rise_snoc [of "es @ fs" f] show ?case
    by (simp add: membership_after_def)
qed simp

definition handle_ok :: "('f, 't) client_core \<Rightarrow> bool" where
  "handle_ok c \<longleftrightarrow>
     (\<forall>e \<in> set (co_events c). event_shape e) \<and> memberships_rise (co_events c) \<and>
     (if co_callback c
      then numbered_from 1 (co_events c) \<and>
           co_next_sequence c = 1 + of_nat (length (co_events c)) \<and>
           published (co_events c) = map_option event_membership (co_membership c)
      else co_events c = [])"

lemma handle_ok_emits: "handle_ok c \<Longrightarrow> emits c c' \<Longrightarrow> handle_ok c'"
  unfolding handle_ok_def emits_def using other_events by (fastforce split: if_splits)

lemma handle_ok_publishes:
  assumes ok: "handle_ok c" and p: "publishes_membership m c c'"
  shows "handle_ok c'"
proof -
  obtain e where e: "xe_sequence e = co_next_sequence c" "event_shape e"
      "case m of None \<Rightarrow> xe_kind e = Event_membership_cleared
       | Some held \<Rightarrow> xe_kind e = Event_membership_updated \<and>
           xe_membership e = Some (event_membership held) \<and>
           (\<forall>old. co_membership c = Some old \<longrightarrow> mb_version old < mb_version held)"
      "co_next_sequence c' = co_next_sequence c + 1"
      "co_events c' = co_events c @ (if co_callback c then [e] else [])"
    and c': "co_callback c' = co_callback c" "co_membership c' = m"
    using p unfolding publishes_membership_def by blast
  show ?thesis
  proof (cases "co_callback c")
    case True
    have "memberships_rise (co_events c @ [e])"
      unfolding memberships_rise_snoc using ok e(2,3) True
      by (auto simp: handle_ok_def event_membership_def event_shape_def split: option.splits)
    moreover have "published (co_events c @ [e]) = map_option event_membership m"
      using e(3) by (auto simp: membership_after_def split: option.splits)
    ultimately show ?thesis
      using ok e(1,2,4,5) c' True unfolding handle_ok_def by (simp add: algebra_simps)
  next
    case False
    then show ?thesis using ok e c' unfolding handle_ok_def by simp
  qed
qed

lemma handle_ok_step: "handle_ok c \<Longrightarrow> core_step a c = Some c' \<Longrightarrow> handle_ok c'"
  by (cases a)
    (auto dest: called_emits_or_publishes intro: handle_ok_emits [OF _ emits_calls_back]
      handle_ok_emits handle_ok_publishes handle_ok_emits [OF _ emits_same])

lemma handle_ok_run: "handle_ok c \<Longrightarrow> core_run actions c = Some c' \<Longrightarrow> handle_ok c'"
  by (induction actions arbitrary: c) (auto simp: bind_eq_Some_conv intro: handle_ok_step)

lemma handle_ok_ctor: "handle_ok (client_core_ctor half quarter config t)"
  unfolding client_core_ctor_def Let_def
  by (rule handle_ok_emits [OF handle_ok_emits [OF _ emits_setObserver] emits_with_client])
    (simp add: handle_ok_def published_def)

lemma created_handle:
  assumes "hvc_client_core_create half quarter config has_out t = (r, Some c, t')"
  obtains cf where "config = Some cf" "c = client_core_ctor half quarter cf t" "r = Result_ok"
    "validTransport (xc_transport cf)" "co_observer_attached c"
  using assms by (auto simp: hvc_client_core_create_def Let_def split: option.splits if_splits)

section \<open>Publication\<close>

text \<open>
  Between operations the microphone is idle, or it is published in a scope of a connected transport.
\<close>

definition settled :: "'f VoiceClient \<Rightarrow> bool" where
  "settled v \<longleftrightarrow>
     vc_publication_state v = Pub_idle \<and> vc_active_scope v = None \<or>
     vc_publication_state v = Pub_active \<and> vc_active_scope v \<noteq> None \<and>
       vc_state v = Transport_connected"

text \<open>What a callback may do to the publication while an operation runs.\<close>

definition callback_moves :: "'f VoiceClient \<Rightarrow> 'f VoiceClient \<Rightarrow> bool" where
  "callback_moves v w \<longleftrightarrow>
     vc_publication_generation w = vc_publication_generation v \<and>
     (vc_publication_state w = vc_publication_state v \<or>
      vc_publication_state v = Pub_active \<and> vc_publication_state w = Pub_idle \<or>
      vc_publication_state v = Pub_starting \<and> vc_publication_state w = Pub_stopping) \<and>
     (settled v \<longrightarrow> settled w)"

lemma callback_moves_refl [simp, intro]: "callback_moves v v"
  by (simp add: callback_moves_def)

lemma callback_moves_trans [trans]: "callback_moves u v \<Longrightarrow> callback_moves v w \<Longrightarrow> callback_moves u w"
  by (auto simp: callback_moves_def)

lemma settled_moves: "settled v \<Longrightarrow> callback_moves v w \<Longrightarrow> settled w"
  by (simp add: callback_moves_def)

definition publication_of where
  "publication_of v =
     (vc_publication_generation v, vc_publication_state v, vc_active_scope v, vc_state v)"

lemma callback_moves_same: "publication_of w = publication_of v \<Longrightarrow> callback_moves v w"
  by (simp add: callback_moves_def publication_of_def settled_def)

lemma report_publication [simp]:
  "publication_of (vc_observe call v) = publication_of v"
  "publication_of (onTransportError e m v) = publication_of v"
  "publication_of (emitRemoteEvent kind sc p v) = publication_of v"
  by (simp_all add: publication_of_def vc_observe_def onTransportError_def emitRemoteEvent_def Let_def)

lemma changes_publication [simp]:
  "publication_of (pl_client (snd (applyPlaybackChanges answer changes p))) =
     publication_of (pl_client p)"
  by (simp add: applyPlaybackChanges_def Let_def split: prod.splits)

lemma recompute_publication:
  "recomputePlaybackLocked v = (changes, w) \<Longrightarrow> publication_of w = publication_of v"
  by (auto simp: recomputePlaybackLocked_def publication_of_def Let_def split: prod.splits)

lemma locked_publication:
  "audioAvailable_locked sc q v = (changes, w) \<Longrightarrow> publication_of w = publication_of v"
  "audioUnavailable_locked sc q v = (changes', w) \<Longrightarrow> publication_of w = publication_of v"
  by (auto simp: audioAvailable_locked_def audioUnavailable_locked_def Let_def
      split: prod.splits if_splits dest!: recompute_publication) (simp_all add: publication_of_def)

lemma audio_moves:
  "callback_moves (pl_client p) (pl_client (onRemoteAudioAvailable answer sc q p))"
  "callback_moves (pl_client p) (pl_client (onRemoteAudioUnavailable answer sc q p))"
proof -
  show "callback_moves (pl_client p) (pl_client (onRemoteAudioAvailable answer sc q p))"
    by (cases "audioAvailable_locked sc q (pl_client p)")
      (auto simp: onRemoteAudioAvailable_def case_prod_unfold Let_def locked_publication
        intro!: callback_moves_same split: option.splits)
  show "callback_moves (pl_client p) (pl_client (onRemoteAudioUnavailable answer sc q p))"
    by (cases "audioUnavailable_locked sc q (pl_client p)")
      (auto simp: onRemoteAudioUnavailable_def case_prod_unfold Let_def locked_publication
        intro!: callback_moves_same)
qed

lemma report_moves [simp]:
  "callback_moves v (onTransportError e m v)"
  "callback_moves v (emitRemoteEvent kind sc q v)"
  by (simp_all add: callback_moves_same)

lemma state_moves: "callback_moves v (onTransportStateChanged s v)"
  by (auto simp: callback_moves_def settled_def onTransportStateChanged_def transportStateChanged_def
      Let_def vc_observe_def)

lemma co_client_observes [simp]: "co_client (core_observes call c) = co_client c"
  by (cases "(call, c)" rule: core_observes.cases) (simp_all add: event_defs emit_event_def)

lemma co_client_fold_observes [simp]: "co_client (fold core_observes calls c) = co_client c"
  by (induction calls arbitrary: c) simp_all

lemma observed_moves: "callback_moves v (co_client c) \<Longrightarrow> callback_moves v (co_client (observed c))"
  by (simp add: observed_def callback_moves_def settled_def)

lemma calls_back_moves: "callback_moves (co_client c) (co_client (host_calls_back callback c))"
  by (cases callback)
    (auto simp: adapter_connection_state_def adapter_audio_def adapter_speaker_def adapter_error_def
      audio_moves state_moves intro!: observed_moves)

lemma fold_calls_back_moves: "callback_moves (co_client c) (co_client (fold host_calls_back callbacks c))"
  by (induction callbacks arbitrary: c) (auto intro: callback_moves_trans calls_back_moves)

lemma host_moves: "host_returns answer c = (r, c') \<Longrightarrow> callback_moves (co_client c) (co_client c')"
  using fold_calls_back_moves [of "c\<lparr>co_host := snd answer\<rparr>"]
  by (auto simp: host_returns_def split: prod.splits)

text \<open>
  A publication that an operation has begun under the generation \<open>g\<close> is still its own when the host
  has returned, so the operation settles it.
\<close>

lemma settled_settles:
  "vc_publication_generation v = g \<Longrightarrow> settled (publication_settled r g v)"
  by (simp add: publication_settled_def settled_def)

lemma settled_release:
  assumes "settled (co_client c)"
  shows "\<exists>r c'. voice_release c = Some (r, c') \<and> settled (co_client c') \<and>
    vc_publication_state (co_client c') = Pub_idle"
proof (cases "vc_publication_state (co_client c) = Pub_idle")
  case True
  then show ?thesis
    using assms by (auto simp: voice_release_def release_begin_def)
next
  case False
  let ?g = "vc_publication_generation (co_client c)"
  let ?v = "(co_client c)\<lparr>vc_publication_state := Pub_stopping\<rparr>"
  obtain r c' where stop: "adapter_stopMicrophone (with_client ?v c) = (r, c')" by fastforce
  then have g: "vc_publication_generation (co_client c') = ?g"
    using host_moves by (fastforce simp: adapter_stopMicrophone_def callback_moves_def)
  have "vc_publication_state (co_client c) = Pub_active"
    using False assms by (simp add: settled_def)
  moreover have "vc_publication_state (publication_settled r ?g (co_client c')) = Pub_idle"
    using g by (simp add: publication_settled_def)
  ultimately show ?thesis
    using stop settled_settles [OF g] by (auto simp: voice_release_def release_begin_def)
qed

lemma idle_moves:
  "callback_moves v w \<Longrightarrow> vc_publication_state v = Pub_idle \<Longrightarrow> vc_publication_state w = Pub_idle"
  by (auto simp: callback_moves_def)

lemma settled_disconnect:
  assumes "settled (co_client c)"
  shows "\<exists>r c'. voice_disconnect c = Some (r, c') \<and> settled (co_client c')"
proof (cases "vc_state (co_client c) = Transport_disconnected")
  case True
  then show ?thesis using assms by (auto simp: voice_disconnect_def disconnect_begin_def settled_def)
next
  case False
  obtain r c1 where release: "voice_release (with_client (co_client c) c) = Some (r, c1)"
      "settled (co_client c1)" "vc_publication_state (co_client c1) = Pub_idle"
    using settled_release [of "with_client (co_client c) c"] assms by auto
  obtain r2 c2 where host: "adapter_disconnect c1 = (r2, c2)" by fastforce
  then have moved: "callback_moves (co_client c1) (co_client c2)"
    using host_moves by (fastforce simp: adapter_disconnect_def)
  have "settled (disconnect_finish r2 (co_client c2))"
    using settled_moves [OF release(2) moved] idle_moves [OF moved release(3)]
    by (auto simp: disconnect_finish_def settled_def)
  with False release(1,2) host show ?thesis
    by (auto simp: voice_disconnect_def disconnect_begin_def)
qed

lemma settled_connect:
  assumes "settled (co_client c)" and "voice_connect grants c = (r, c')"
  shows "settled (co_client c')"
proof (cases "connect_begin grants (co_client c)")
  case (Pair begun v)
  show ?thesis
  proof (cases begun)
    case (Some refusal)
    then show ?thesis
      using assms Pair by (auto simp: voice_connect_def connect_begin_def Let_def split: if_splits)
  next
    case None
    then have v: "settled v" "vc_publication_state v = Pub_idle"
      using Pair assms(1) by (auto simp: connect_begin_def Let_def settled_def split: if_splits)
    obtain r2 c2 where host: "adapter_connect grants (with_client v c) = (r2, c2)" by fastforce
    then have moved: "callback_moves v (co_client c2)"
      using host_moves by (fastforce simp: adapter_connect_def)
    have "settled (connect_finish r2 (co_client c2))"
      using settled_moves [OF v(1) moved] idle_moves [OF moved v(2)]
      by (auto simp: connect_finish_def settled_def)
    then show ?thesis using assms(2) Pair None host by (auto simp: voice_connect_def)
  qed
qed

lemma settled_press:
  assumes "settled (co_client c)" and "voice_press sc c = (r, c')"
  shows "settled (co_client c')"
proof (cases "press_begin (co_client c)")
  case (Pair begun v)
  show ?thesis
  proof (cases begun)
    case (Inl refusal)
    then show ?thesis
      using assms Pair by (auto simp: voice_press_def press_begin_def Let_def split: if_splits)
  next
    case (Inr g)
    then have v: "vc_publication_generation v = g"
      using Pair by (auto simp: press_begin_def Let_def split: if_splits)
    obtain result c1 where start: "adapter_startMicrophone sc (with_client v c) = (result, c1)"
      by fastforce
    have c1: "vc_publication_generation (co_client c1) = g"
      using start host_moves v by (fastforce simp: adapter_startMicrophone_def callback_moves_def)
    obtain out v1 where confirm: "press_confirm sc result g (co_client c1) = (out, v1)" by fastforce
    then have v1: "vc_publication_generation v1 = g" "out = Press_confirmed \<Longrightarrow> settled v1"
      using c1 by (auto simp: press_confirm_def settled_def split: if_splits)
    have "vc_publication_generation (co_client c3) = g"
      if "adapter_stopMicrophone (with_client v1 c1) = (x, c3)" for x c3
      using that host_moves v1(1) by (fastforce simp: adapter_stopMicrophone_def callback_moves_def)
    then show ?thesis
      using assms(2) Pair Inr start confirm v1
      by (auto simp: voice_press_def Let_def settled_settles
          split: press_outcome.splits prod.splits if_splits)
  qed
qed

lemma co_client_operationResult [simp]: "co_client (snd (operationResult r c)) = co_client c"
  by (simp add: operationResult_def Let_def event_defs emit_event_def)

lemma settled_operationResult:
  "settled (co_client c) \<Longrightarrow> \<exists>x c'. operationResult r c = (x, c') \<and> settled (co_client c')"
  using co_client_operationResult [of r c] by (cases "operationResult r c") simp

lemma settled_called:
  assumes "settled (co_client c)"
  shows "\<exists>r c'. core_called call c = Some (r, c') \<and> settled (co_client c')"
proof (cases call)
  case (Call_connect grants n)
  then show ?thesis using assms
    by (auto simp: core_connect_def event_defs emit_event_def
        split: option.splits prod.splits dest: settled_connect intro: settled_operationResult)
next
  case (Call_press_push_to_talk s)
  then show ?thesis using assms
    by (auto simp: core_press_def event_defs emit_event_def
        split: prod.splits dest: settled_press intro: settled_operationResult)
next
  case Call_disconnect
  obtain r c1 where "voice_disconnect c = Some (r, c1)" "settled (co_client c1)"
    using settled_disconnect [OF assms] by auto
  then show ?thesis using Call_disconnect
    by (auto simp: core_disconnect_def intro: settled_operationResult)
next
  case Call_release_push_to_talk
  obtain r c1 where "voice_release c = Some (r, c1)" "settled (co_client c1)"
    using settled_release [OF assms] by auto
  then show ?thesis using Call_release_push_to_talk
    by (auto simp: core_release_def intro: settled_operationResult)
qed (use assms in \<open>auto simp: core_update_membership_def core_clear_membership_def emitMembership_def
      emitMembershipCleared_def event_defs emit_event_def split: option.splits\<close>)

lemma settled_step: "settled (co_client c) \<Longrightarrow> \<exists>c'. core_step a c = Some c' \<and> settled (co_client c')"
proof (cases a)
  case (Host_calls call)
  moreover assume "settled (co_client c)"
  from settled_called [OF this, of call] obtain r c' where
    "core_called call c = Some (r, c')" "settled (co_client c')" by blast
  ultimately show ?thesis by simp
qed (auto intro: settled_moves calls_back_moves)

lemma settled_run:
  "settled (co_client c) \<Longrightarrow> \<exists>c'. core_run actions c = Some c' \<and> settled (co_client c')"
proof (induction actions arbitrary: c)
  case (Cons a actions)
  from settled_step [OF Cons.prems, of a] obtain d where "core_step a c = Some d" "settled (co_client d)"
    by blast
  with Cons.IH show ?case by simp
qed simp

lemma handle_ok_created:
  assumes "hvc_client_core_create half quarter config has_out t = (r, Some c, t')"
    and "core_run actions c = Some c'"
  shows "handle_ok c'"
proof -
  obtain cf where "c = client_core_ctor half quarter cf t" by (rule created_handle [OF assms(1)])
  then have "handle_ok c" by (simp add: handle_ok_ctor)
  then show ?thesis using assms(2) by (rule handle_ok_run)
qed

lemma settled_ctor: "settled (co_client (client_core_ctor half quarter config t))"
proof -
  have attach: "settled (co_client (adapter_setObserver True c))" if "settled (co_client c)"
    for c :: "('a, 'b) client_core"
  proof -
    obtain r d where host: "host_returns (the (tt_set_observer (co_table c)) True
        (host_sees (c\<lparr>co_observer := True\<rparr>))) (c\<lparr>co_observer := True\<rparr>) = (r, d)" by fastforce
    have "settled (co_client d)" using settled_moves [OF _ host_moves [OF host]] that by simp
    with host show ?thesis by (simp add: adapter_setObserver_def Let_def)
  qed
  show ?thesis
    using attach [of "with_client (VoiceClient_ctor st settings) c" for st settings c]
    by (simp add: client_core_ctor_def Let_def vc_setObserver_def settled_def VoiceClient_ctor_def)
qed

section \<open>The properties\<close>

text \<open>
  C23: every operation on a handle returns. Whatever the host's functions answer and whatever they
  call back meanwhile, no sequence of operations and callbacks on a created handle runs into a
  release that waits; and between operations the microphone is idle, or published in a scope while
  the transport is connected.
\<close>

theorem core_operations_return:
  assumes "hvc_client_core_create half quarter config has_out t = (r, Some c, t')"
  shows "\<exists>c'. core_run actions c = Some c' \<and>
    (vc_publication_state (co_client c') = Pub_idle \<and> vc_active_scope (co_client c') = None \<or>
     vc_publication_state (co_client c') = Pub_active \<and> vc_active_scope (co_client c') \<noteq> None \<and>
       vc_state (co_client c') = Transport_connected)"
proof -
  have "settled (co_client c)"
    by (rule created_handle [OF assms]) (simp add: settled_ctor)
  from settled_run [OF this, of actions] show ?thesis unfolding settled_def .
qed

text \<open>
  The events of a handle are numbered without a gap, from one, and well-formed. Whatever is
  called and called back, the \<open>i\<close>-th event the host receives has the number \<open>i\<close> (in 64 bits), states
  its size and version, and the fields that do not belong to its kind are zero or empty.
\<close>

theorem core_events_are_numbered:
  assumes "hvc_client_core_create half quarter config has_out t = (r, Some c, t')"
    and "core_run actions c = Some c'" and "i < length (co_events c')"
  shows "xe_sequence (co_events c' ! i) = of_nat (i + 1) \<and> event_shape (co_events c' ! i)"
proof -
  have "handle_ok c'"
    by (rule handle_ok_created [OF assms(1,2)])
  then have "numbered_from 1 (co_events c') \<and> (\<forall>e \<in> set (co_events c'). event_shape e)"
    unfolding handle_ok_def by (auto split: if_splits)
  with assms(3) numbered_from_nth [of 1 "co_events c'" i]
  show ?thesis by (simp add: algebra_simps)
qed

text \<open>
  Memberships only get newer. The membership the events of a handle have published is the one
  it holds, and each published membership is of a greater version than the one before, unless it was
  cleared in between.
\<close>

theorem published_memberships_rise:
  assumes "hvc_client_core_create half quarter config has_out t = (r, Some c, t')"
    and "core_run actions c = Some c'" and "co_callback c'"
  shows "published (co_events c') = map_option event_membership (co_membership c') \<and>
    memberships_rise (co_events c')"
proof -
  have "handle_ok c'"
    by (rule handle_ok_created [OF assms(1,2)])
  with assms(3) show ?thesis unfolding handle_ok_def by simp
qed

section \<open>Failures\<close>

text \<open>The result that goes with the code of an error event.\<close>

definition result_of_code :: "string \<Rightarrow> core_result" where
  "result_of_code code =
     (if code \<in> {''client_invalid_argument'', ''voice_transport_invalid_argument''}
      then Result_invalid_argument
      else if code = ''voice_transport_invalid_state'' then Result_invalid_state
      else Result_transport_error)"

definition reports :: "core_result \<Rightarrow> ('f, 't) client_core \<Rightarrow> bool" where
  "reports r c \<longleftrightarrow>
     (\<exists>es e. co_events c = es @ [e] \<and> xe_kind e = Event_error \<and>
        xe_error_code e \<noteq> empty_view \<and> r = result_of_code (copyString (xe_error_code e)))"

lemma copyString_stringView [simp]: "copyString (stringView s) = s"
  by (simp add: copyString_def stringView_def)

lemma reportError_reports:
  "co_callback c \<Longrightarrow> reports (result_of_code code) (reportError code message c)"
  by (simp add: reports_def event_defs emit_event_def stringView_def copyString_def empty_view_def)

lemma operationResult_reports:
  assumes "operationResult result c = (r, c')" and "r \<noteq> Result_ok" and "co_callback c"
  shows "reports r c'"
proof -
  have "r = result_of_code (voiceErrorCode (vr_error result))"
    using assms(1,2)
    by (cases "vr_error result") (auto simp: operationResult_def Let_def vr_ok_def result_of_code_def
        split: if_splits)
  moreover have "c' = reportError (voiceErrorCode (vr_error result)) (vr_message result) c"
    using assms(1,2) by (auto simp: operationResult_def Let_def split: if_splits)
  ultimately show ?thesis using reportError_reports [OF assms(3)] by simp
qed

lemma reportArgumentError_reports:
  "co_callback c \<Longrightarrow> reports Result_invalid_argument (reportArgumentError message c)"
  using reportError_reports [of c "''client_invalid_argument''" message]
  by (simp add: reportArgumentError_def result_of_code_def)

lemma finish_reports:
  assumes "emits c d" and "operationResult result d = (r, c')" and "r \<noteq> Result_ok" and "co_callback c"
  shows "reports r c'"
  using operationResult_reports [OF assms(2,3)] assms(1,4) by (simp add: emits_def)

text \<open>
  No failure is silent. When an operation on a handle with an event callback does not return
  success, the last event the host has received when it returns is an error event, and the
  operation's result is the one that goes with the event's code.
\<close>

theorem core_failures_are_reported:
  assumes "core_called call c = Some (r, c')" and "r \<noteq> Result_ok" and "co_callback c"
  shows "reports r c'"
proof (cases call)
  case (Call_connect grants n)
  then show ?thesis using assms
    by (auto simp: core_connect_def reportArgumentError_reports
        split: option.splits prod.splits if_splits
        intro: finish_reports emits_connect)
next
  case (Call_press_push_to_talk s)
  then show ?thesis using assms
    by (auto simp: core_press_def reportArgumentError_reports split: prod.splits if_splits
        intro: finish_reports emits_press)
next
  case Call_disconnect
  then show ?thesis using assms
    by (auto simp: core_disconnect_def split: prod.splits 
        intro: finish_reports emits_disconnect)
next
  case Call_release_push_to_talk
  then show ?thesis using assms
    by (auto simp: core_release_def split: prod.splits 
        intro: finish_reports emits_release)
next
  case (Call_update_membership m)
  then show ?thesis using assms
    by (auto simp: core_update_membership_def reportArgumentError_reports split: option.splits if_splits)
next
  case Call_clear_membership
  then show ?thesis using assms by (simp add: core_clear_membership_def)
qed

end
