(* ===== verification/Client_Core_Wrapper.thy ===== *)
theory Client_Core_Wrapper
  imports Client_Core_Properties
begin

text \<open>
  The C++ wrapper of the C interface (\<open>libs/client/include/hvc/client_core.hpp\<close>): it makes a table of
  functions from a transport that is a C++ object, and owning values from the events. The transport
  is a parameter: a call answers with the callbacks it makes and with a result, or throws.
\<close>

section \<open>Values\<close>

datatype wrapper_scope = Scope_team | Scope_specialization | Scope_group

datatype HostConnectionState =
    State_disconnected | State_connecting | State_connected | State_reconnecting

datatype TransportError =
    Te_none
  | Te_invalid_argument
  | Te_invalid_state
  | Te_connection_failed
  | Te_audio_device_unavailable
  | Te_audio_device_switch_failed
  | Te_publication_failed
  | Te_internal_error

text \<open>The casts between the enumerations and their values; the library passes values of an enumerator only.\<close>

fun scope_value :: "wrapper_scope \<Rightarrow> u32" where
  "scope_value Scope_team = 0"
| "scope_value Scope_specialization = 1"
| "scope_value Scope_group = 2"

definition scope_of_value :: "u32 \<Rightarrow> wrapper_scope" where
  "scope_of_value s =
     (if s = 0 then Scope_team else if s = 1 then Scope_specialization else Scope_group)"

fun connection_value :: "HostConnectionState \<Rightarrow> u32" where
  "connection_value State_disconnected = 0"
| "connection_value State_connecting = 1"
| "connection_value State_connected = 2"
| "connection_value State_reconnecting = 3"

definition connection_of_value :: "u32 \<Rightarrow> HostConnectionState" where
  "connection_of_value s =
     (if s = 0 then State_disconnected
      else if s = 1 then State_connecting
      else if s = 2 then State_connected
      else State_reconnecting)"

fun error_value :: "TransportError \<Rightarrow> u32" where
  "error_value Te_none = 0"
| "error_value Te_invalid_argument = 1"
| "error_value Te_invalid_state = 2"
| "error_value Te_connection_failed = 3"
| "error_value Te_audio_device_unavailable = 4"
| "error_value Te_audio_device_switch_failed = 5"
| "error_value Te_publication_failed = 6"
| "error_value Te_internal_error = 7"

record TransportResult =
  tr_error :: TransportError
  tr_message :: string

record RoomGrant =
  wg_scope :: wrapper_scope
  wg_url :: string
  wg_token :: string

record OwnedMembership =
  wm_version :: u64
  wm_hierarchy_id :: string
  wm_player_id :: string
  wm_group_id :: string
  wm_specialization_id :: string
  wm_team_id :: string
  wm_role_ids :: "string list"
  wm_connected :: bool
  wm_can_receive_voice :: bool
  wm_transmit_muted :: bool

record Event =
  we_sequence :: u64
  we_kind :: core_event_kind
  we_connection_state :: HostConnectionState
  we_scope :: wrapper_scope
  we_membership :: "OwnedMembership option"
  we_participant_id :: string
  we_error_code :: string
  we_message :: string

section \<open>The transport\<close>

datatype transport_callback =
    On_connection_state_changed HostConnectionState
  | On_remote_audio_available wrapper_scope string
  | On_remote_audio_unavailable wrapper_scope string
  | On_speaker_started wrapper_scope string
  | On_speaker_stopped wrapper_scope string
  | On_error TransportError string

text \<open>No result: the call has thrown.\<close>

record transport_reply =
  cr_callbacks :: "transport_callback list"
  cr_result :: "TransportResult option"

record ('f, 't) Transport =
  ct_setObserver :: "bool \<Rightarrow> ('f, 't) host_view \<Rightarrow> transport_reply \<times> 't"
  ct_state :: "('f, 't) host_view \<Rightarrow> HostConnectionState"
  ct_connect :: "RoomGrant list \<Rightarrow> ('f, 't) host_view \<Rightarrow> transport_reply \<times> 't"
  ct_disconnect :: "('f, 't) host_view \<Rightarrow> transport_reply \<times> 't"
  ct_startMicrophone :: "wrapper_scope \<Rightarrow> ('f, 't) host_view \<Rightarrow> transport_reply \<times> 't"
  ct_stopMicrophone :: "('f, 't) host_view \<Rightarrow> transport_reply \<times> 't"
  ct_activeMicrophoneScope :: "('f, 't) host_view \<Rightarrow> wrapper_scope option"
  ct_configureRemoteAudio ::
    "wrapper_scope \<Rightarrow> string \<Rightarrow> bool \<Rightarrow> 'f \<Rightarrow> ('f, 't) host_view \<Rightarrow> TransportResult option"

text \<open>
  The wrapper as the host of the C interface: whether it holds the observer's table, and the state of
  the transport.
\<close>

record 't wrapper =
  wr_observer :: bool
  wr_transport :: 't

section \<open>Thunks\<close>

definition wrapper_view :: "string \<Rightarrow> string_view" where
  "wrapper_view s = \<lparr>vw_data = Some s, vw_size = length s\<rparr>"

definition wrapper_string :: "string_view \<Rightarrow> string" where
  "wrapper_string v = (if vw_size v = 0 then [] else take (vw_size v) (the (vw_data v)))"

definition finishTransportCall :: "TransportResult \<Rightarrow> u32 \<times> string_view" where
  "finishTransportCall result = (error_value (tr_error result), wrapper_view (tr_message result))"

definition internalTransportFailure :: "u32 \<times> string_view" where
  "internalTransportFailure =
     finishTransportCall \<lparr>tr_error = Te_internal_error, tr_message = ''C++ transport threw''\<rparr>"

definition finish_or_threw :: "TransportResult option \<Rightarrow> u32 \<times> string_view" where
  "finish_or_threw result =
     (case result of None \<Rightarrow> internalTransportFailure | Some r \<Rightarrow> finishTransportCall r)"

text \<open>A callback of the transport goes to the table the wrapper holds.\<close>

fun relay :: "transport_callback \<Rightarrow> host_callback" where
  "relay (On_connection_state_changed s) = Cb_connection_state_changed (connection_value s)"
| "relay (On_remote_audio_available sc p) =
     Cb_remote_audio_available (scope_value sc) (wrapper_view p)"
| "relay (On_remote_audio_unavailable sc p) =
     Cb_remote_audio_unavailable (scope_value sc) (wrapper_view p)"
| "relay (On_speaker_started sc p) = Cb_speaker_started (scope_value sc) (wrapper_view p)"
| "relay (On_speaker_stopped sc p) = Cb_speaker_stopped (scope_value sc) (wrapper_view p)"
| "relay (On_error e m) = Cb_error (error_value e) (wrapper_view m)"

definition thunk_reply ::
  "'t wrapper \<Rightarrow> transport_reply \<times> 't \<Rightarrow> host_reply \<times> 't wrapper" where
  "thunk_reply w answer =
     (let (reply, t') = answer; (e, message) = finish_or_threw (cr_result reply)
      in (\<lparr>rep_callbacks = (if wr_observer w then map relay (cr_callbacks reply) else []),
           rep_error = e, rep_message = message\<rparr>,
          w\<lparr>wr_transport := t'\<rparr>))"

definition setObserverThunk ::
  "('f, 't) Transport \<Rightarrow> bool \<Rightarrow> ('f, 't wrapper) host_view \<Rightarrow> host_reply \<times> 't wrapper" where
  "setObserverThunk tr attach seen =
     (let (log, w) = seen;
          w1 = w\<lparr>wr_observer := attach\<rparr>;
          answer = ct_setObserver tr attach (log, wr_transport w1);
          (reply, w2) = thunk_reply w1 answer
      in (reply,
          case cr_result (fst answer) of
            None \<Rightarrow> w2
          | Some r \<Rightarrow> if tr_error r \<noteq> Te_none \<and> attach then w2\<lparr>wr_observer := False\<rparr> else w2))"

definition stateThunk :: "('f, 't) Transport \<Rightarrow> ('f, 't wrapper) host_view \<Rightarrow> u32" where
  "stateThunk tr seen = (let (log, w) = seen in connection_value (ct_state tr (log, wr_transport w)))"

definition connectThunk ::
  "('f, 't) Transport \<Rightarrow> room_grant_v1 list \<Rightarrow> ('f, 't wrapper) host_view \<Rightarrow>
   host_reply \<times> 't wrapper" where
  "connectThunk tr grants seen =
     (let (log, w) = seen
      in thunk_reply w
           (ct_connect tr
              (map (\<lambda>g. \<lparr>wg_scope = scope_of_value (xg_scope g), wg_url = wrapper_string (xg_url g),
                          wg_token = wrapper_string (xg_token g)\<rparr>) grants)
              (log, wr_transport w)))"

definition disconnectThunk ::
  "('f, 't) Transport \<Rightarrow> ('f, 't wrapper) host_view \<Rightarrow> host_reply \<times> 't wrapper" where
  "disconnectThunk tr seen =
     (let (log, w) = seen in thunk_reply w (ct_disconnect tr (log, wr_transport w)))"

definition startMicrophoneThunk ::
  "('f, 't) Transport \<Rightarrow> u32 \<Rightarrow> ('f, 't wrapper) host_view \<Rightarrow> host_reply \<times> 't wrapper" where
  "startMicrophoneThunk tr s seen =
     (let (log, w) = seen
      in thunk_reply w (ct_startMicrophone tr (scope_of_value s) (log, wr_transport w)))"

definition stopMicrophoneThunk ::
  "('f, 't) Transport \<Rightarrow> ('f, 't wrapper) host_view \<Rightarrow> host_reply \<times> 't wrapper" where
  "stopMicrophoneThunk tr seen =
     (let (log, w) = seen in thunk_reply w (ct_stopMicrophone tr (log, wr_transport w)))"

text \<open>The scope is written only when a scope is active; it was zero before.\<close>

definition activeMicrophoneScopeThunk ::
  "('f, 't) Transport \<Rightarrow> ('f, 't wrapper) host_view \<Rightarrow> u8 \<times> u32" where
  "activeMicrophoneScopeThunk tr seen =
     (let (log, w) = seen
      in case ct_activeMicrophoneScope tr (log, wr_transport w) of
           None \<Rightarrow> (0, 0)
         | Some sc \<Rightarrow> (1, scope_value sc))"

definition configureRemoteAudioThunk ::
  "('f, 't) Transport \<Rightarrow> u32 \<Rightarrow> string_view \<Rightarrow> u8 \<Rightarrow> 'f \<Rightarrow> ('f, 't wrapper) host_view \<Rightarrow>
   u32 \<times> string_view" where
  "configureRemoteAudioThunk tr s participant admitted gain seen =
     (let (log, w) = seen
      in finish_or_threw
           (ct_configureRemoteAudio tr (scope_of_value s) (wrapper_string participant) (admitted \<noteq> 0)
              gain (log, wr_transport w)))"

definition transportTable :: "('f, 't) Transport \<Rightarrow> ('f, 't wrapper) transport_v1" where
  "transportTable tr =
     \<lparr>tt_struct_size = sizeof_transport,
      tt_set_observer = Some (setObserverThunk tr), tt_state = Some (stateThunk tr),
      tt_connect = Some (connectThunk tr), tt_disconnect = Some (disconnectThunk tr),
      tt_start_microphone = Some (startMicrophoneThunk tr),
      tt_stop_microphone = Some (stopMicrophoneThunk tr),
      tt_active_microphone_scope = Some (activeMicrophoneScopeThunk tr),
      tt_configure_remote_audio = Some (configureRemoteAudioThunk tr)\<rparr>"

section \<open>Events\<close>

definition membership_value :: "membership_v1 \<Rightarrow> OwnedMembership" where
  "membership_value m =
     \<lparr>wm_version = xm_version m, wm_hierarchy_id = wrapper_string (xm_hierarchy_id m),
      wm_player_id = wrapper_string (xm_player_id m), wm_group_id = wrapper_string (xm_group_id m),
      wm_specialization_id = wrapper_string (xm_specialization_id m),
      wm_team_id = wrapper_string (xm_team_id m),
      wm_role_ids = map wrapper_string
        (take (xm_role_count m) (case xm_role_ids m of None \<Rightarrow> [] | Some roles \<Rightarrow> roles)),
      wm_connected = (xm_connected m \<noteq> 0), wm_can_receive_voice = (xm_can_receive_voice m \<noteq> 0),
      wm_transmit_muted = (xm_transmit_muted m \<noteq> 0)\<rparr>"

definition event_value :: "core_event_v1 \<Rightarrow> Event" where
  "event_value e =
     \<lparr>we_sequence = xe_sequence e, we_kind = xe_kind e,
      we_connection_state = connection_of_value (xe_connection_state e),
      we_scope = scope_of_value (xe_scope e),
      we_membership = map_option membership_value (xe_membership e),
      we_participant_id = wrapper_string (xe_participant_id e),
      we_error_code = wrapper_string (xe_error_code e), we_message = wrapper_string (xe_message e)\<rparr>"

text \<open>The events the application's callback has been given.\<close>

definition application_events :: "('f, 't wrapper) client_core \<Rightarrow> Event list" where
  "application_events c = map event_value (co_events c)"

section \<open>The wrapper's operations\<close>

datatype construction_error = Throws_invalid_argument string | Throws_runtime_error string

definition ClientCore_ctor ::
  "'f \<Rightarrow> 'f \<Rightarrow> ('f::{zero, one, times}, 't) Transport \<Rightarrow> 't \<Rightarrow>
   construction_error + ('f, 't wrapper) client_core" where
  "ClientCore_ctor half quarter tr t =
     (case hvc_client_core_create half quarter
             (Some \<lparr>xc_struct_size = sizeof_config, xc_abi_version = abi_version,
                    xc_transport = transportTable tr, xc_event_callback = True\<rparr>)
             True \<lparr>wr_observer = False, wr_transport = t\<rparr> of
        (result, core, w) \<Rightarrow>
          if result = Result_invalid_argument \<or> result = Result_incompatible_abi
          then Inl (Throws_invalid_argument ''client-core configuration was rejected'')
          else if result \<noteq> Result_ok
          then Inl (Throws_runtime_error ''client-core instance could not be created'')
          else Inr (the core))"

definition wrapper_connect :: "RoomGrant list \<Rightarrow> core_call" where
  "wrapper_connect grants =
     Call_connect
       (Some (map (\<lambda>g. \<lparr>xg_struct_size = sizeof_room_grant, xg_scope = scope_value (wg_scope g),
                        xg_url = wrapper_view (wg_url g), xg_token = wrapper_view (wg_token g)\<rparr>)
               grants))
       (length grants)"

definition wrapper_pressPushToTalk :: "wrapper_scope \<Rightarrow> core_call" where
  "wrapper_pressPushToTalk sc = Call_press_push_to_talk (scope_value sc)"

definition wrapper_updateMembership :: "OwnedMembership \<Rightarrow> core_call" where
  "wrapper_updateMembership m =
     Call_update_membership
       (Some \<lparr>xm_struct_size = sizeof_membership, xm_version = wm_version m,
              xm_hierarchy_id = wrapper_view (wm_hierarchy_id m),
              xm_player_id = wrapper_view (wm_player_id m),
              xm_group_id = wrapper_view (wm_group_id m),
              xm_specialization_id = wrapper_view (wm_specialization_id m),
              xm_team_id = wrapper_view (wm_team_id m),
              xm_role_ids = Some (map wrapper_view (wm_role_ids m)),
              xm_role_count = length (wm_role_ids m), xm_connected = as_u8 (wm_connected m),
              xm_can_receive_voice = as_u8 (wm_can_receive_voice m),
              xm_transmit_muted = as_u8 (wm_transmit_muted m)\<rparr>)"

definition wrapper_connectionState ::
  "('f, 't wrapper) client_core \<Rightarrow> construction_error + HostConnectionState" where
  "wrapper_connectionState c =
     (case hvc_client_core_get_connection_state (Some c) True of
        (Result_ok, Some s) \<Rightarrow> Inr (connection_of_value s)
      | _ \<Rightarrow> Inl (Throws_runtime_error ''client-core connection state is unavailable''))"

section \<open>Round trips of values\<close>

lemma wrapper_view_is_stringView: "wrapper_view = stringView"
  by (rule ext) (simp add: wrapper_view_def stringView_def)

lemma wrapper_string_is_copyString: "wrapper_string = copyString"
  by (rule ext) (simp add: wrapper_string_def copyString_def)

lemma valid_view [simp]: "validString (stringView s)" "vw_size (stringView s) = length s"
  by (simp_all add: validString_def stringView_def)

lemma wrapper_string_view [simp]: "wrapper_string (wrapper_view s) = s"
  by (simp add: wrapper_view_is_stringView wrapper_string_is_copyString)

lemma empty_view_string [simp]: "wrapper_string empty_view = []" "copyString empty_view = []"
  by (simp_all add: wrapper_string_def copyString_def empty_view_def)

lemmas view_simps = wrapper_view_is_stringView wrapper_string_is_copyString

lemma scope_round_trip [simp]:
  "scope_of_value (scope_value sc) = sc" "validScope (scope_value sc)"
  "coreScope (domainScope (scope_value sc)) = scope_value sc"
  by (cases sc; simp add: scope_of_value_def validScope_def coreScope_def domainScope_def)+

lemma connection_round_trip [simp]: "connection_of_value (connection_value s) = s"
  by (cases s) (simp_all add: connection_of_value_def)

lemma as_u8_nonzero [simp]: "as_u8 b \<noteq> 0 \<longleftrightarrow> b"
  by (simp add: as_u8_def)

lemma error_value_0 [simp]: "error_value e = 0 \<longleftrightarrow> e = Te_none"
  by (cases e) simp_all

lemma copy_roles_views:
  "copy_roles (map stringView roles) = (if [] \<in> set roles then None else Some roles)"
  by (induction roles) auto

section \<open>Memberships through the wrapper\<close>

definition complete_membership :: "OwnedMembership \<Rightarrow> bool" where
  "complete_membership m \<longleftrightarrow>
     wm_version m \<noteq> 0 \<and> wm_hierarchy_id m \<noteq> [] \<and> wm_player_id m \<noteq> [] \<and> wm_group_id m \<noteq> [] \<and>
     wm_specialization_id m \<noteq> [] \<and> wm_team_id m \<noteq> [] \<and> [] \<notin> set (wm_role_ids m)"

definition stored_membership :: "OwnedMembership \<Rightarrow> MembershipStorage" where
  "stored_membership m =
     \<lparr>mb_version = wm_version m, mb_hierarchy_id = wm_hierarchy_id m, mb_player_id = wm_player_id m,
      mb_group_id = wm_group_id m, mb_specialization_id = wm_specialization_id m,
      mb_team_id = wm_team_id m, mb_role_ids = wm_role_ids m, mb_connected = wm_connected m,
      mb_can_receive_voice = wm_can_receive_voice m, mb_transmit_muted = wm_transmit_muted m\<rparr>"

lemma wrapper_update_called:
  "core_called (wrapper_updateMembership m) c =
     Some (if \<not> complete_membership m
           then (Result_invalid_argument,
                 reportArgumentError ''membership contains an invalid field'' c)
           else if \<exists>held. co_membership c = Some held \<and> wm_version m \<le> mb_version held
           then (Result_invalid_argument,
                 reportArgumentError ''membership version must increase strictly'' c)
           else (Result_ok, emitMembership (stored_membership m)
                   (c\<lparr>co_membership := Some (stored_membership m)\<rparr>)))"
  by (simp add: wrapper_updateMembership_def core_update_membership_def copyMembership_def
      complete_membership_def view_simps copy_roles_views stored_membership_def sizeof_membership_def
      split: option.split)

lemma membership_value_round_trip [simp]: "membership_value (event_membership (stored_membership m)) = m"
  by (simp add: membership_value_def event_membership_def stored_membership_def view_simps
      comp_def)

text \<open>
  C22: a membership arrives as it was published. Through the C++ wrapper, the C interface and back,
  an application that publishes a membership receives exactly one event, which carries exactly
  that membership, when it is complete and newer than the one held; otherwise the call is refused, the
  held membership stays, and the one event is an error.
\<close>

theorem membership_reaches_application:
  assumes "co_callback c"
  shows "\<exists>r c' e.
    core_called (wrapper_updateMembership m) c = Some (r, c') \<and>
    application_events c' = application_events c @ [e] \<and> we_sequence e = co_next_sequence c \<and>
    (if complete_membership m \<and> (\<forall>held. co_membership c = Some held \<longrightarrow> mb_version held < wm_version m)
     then r = Result_ok \<and> co_membership c' = Some (stored_membership m) \<and>
          we_kind e = Event_membership_updated \<and> we_membership e = Some m
     else r = Result_invalid_argument \<and> co_membership c' = co_membership c \<and>
          we_kind e = Event_error \<and> we_error_code e = ''client_invalid_argument'' \<and>
          we_membership e = None)"
  using assms
  by (auto simp: wrapper_update_called application_events_def emitMembership_def event_defs
      emit_event_def event_value_def view_simps not_le)

section \<open>Connecting through the wrapper\<close>

lemma host_reports [simp]:
  "co_host (reportError code message c) = co_host c"
  "co_host (speakerEvent kind sc p c) = co_host c"
  by (simp_all add: event_defs emit_event_def)

lemma host_observes [simp]: "co_host (core_observes call c) = co_host c"
  by (cases "(call, c)" rule: core_observes.cases) (simp_all add: initializeEvent_def emit_event_def Let_def)

lemma host_fold_observes [simp]: "co_host (fold core_observes calls c) = co_host c"
  by (induction calls arbitrary: c) simp_all

lemma host_calls_back_keeps [simp]: "co_host (host_calls_back callback c) = co_host c"
  by (cases callback)
    (simp_all add: adapter_connection_state_def adapter_audio_def adapter_speaker_def
      adapter_error_def observed_def)

lemma fold_calls_back_keeps [simp]: "co_host (fold host_calls_back callbacks c) = co_host c"
  by (induction callbacks arbitrary: c) simp_all

definition connectable :: "RoomGrant list \<Rightarrow> bool" where
  "connectable grants \<longleftrightarrow>
     grants \<noteq> [] \<and> length grants \<le> 3 \<and> distinct (map wg_scope grants) \<and>
     (\<forall>g \<in> set grants. wg_url g \<noteq> [] \<and> wg_token g \<noteq> [])"

definition domain_grant :: "RoomGrant \<Rightarrow> VoiceRoomGrant" where
  "domain_grant g =
     \<lparr>vg_scope = domainScope (scope_value (wg_scope g)), vg_url = wg_url g, vg_token = wg_token g\<rparr>"

lemma domain_grant_fields [simp]:
  "vg_scope (domain_grant g) = domainScope (scope_value (wg_scope g))"
  "vg_url (domain_grant g) = wg_url g" "vg_token (domain_grant g) = wg_token g"
  by (simp_all add: domain_grant_def)

lemma copied_grants:
  assumes "\<forall>g \<in> set grants. wg_url g \<noteq> [] \<and> wg_token g \<noteq> []"
  shows "copy_grants (map (\<lambda>g. \<lparr>xg_struct_size = sizeof_room_grant, xg_scope = scope_value (wg_scope g),
    xg_url = wrapper_view (wg_url g), xg_token = wrapper_view (wg_token g)\<rparr>) grants) =
    Some (map domain_grant grants)"
  using assms by (induction grants) (simp_all add: view_simps domain_grant_def)

lemma domain_scope_inj: "domainScope (scope_value a) = domainScope (scope_value b) \<longleftrightarrow> a = b"
  by (cases a; cases b) (simp_all add: domainScope_def)

lemma checked_grants:
  assumes "distinct (map wg_scope grants)" and "\<forall>g \<in> set grants. wg_url g \<noteq> [] \<and> wg_token g \<noteq> []"
    and "\<forall>g \<in> set grants. \<not> seen (domainScope (scope_value (wg_scope g)))"
  shows "check_grants (map domain_grant grants) seen = vr_success"
  using assms
proof (induction grants arbitrary: seen)
  case (Cons g grants)
  let ?seen = "seen(domainScope (scope_value (wg_scope g)) := True)"
  have "\<forall>h \<in> set grants. \<not> ?seen (domainScope (scope_value (wg_scope h)))"
    using Cons.prems by (auto simp: domain_scope_inj dest: sym)
  then have "check_grants (map domain_grant grants) ?seen = vr_success"
    using Cons.prems by (intro Cons.IH) auto
  with Cons.prems show ?case by simp
qed simp

lemma thunk_grants:
  "map (\<lambda>g. \<lparr>wg_scope = scope_of_value (xg_scope g), wg_url = wrapper_string (xg_url g),
       wg_token = wrapper_string (xg_token g)\<rparr>) (map room_grant (map domain_grant grants)) = grants"
  by (induction grants) (simp_all add: room_grant_def domain_grant_def view_simps)

lemma connect_adapted:
  assumes "co_table c = transportTable tr"
    and "ct_connect tr grants (pl_log (co_player c), wr_transport (co_host c)) = (reply, t')"
  shows "\<exists>c'. adapter_connect (map domain_grant grants) c =
      (case finish_or_threw (cr_result reply) of (e, message) \<Rightarrow> callResult e message, c') \<and>
    wr_transport (co_host c') = t' \<and> emits c c'"
proof -
  have "connectThunk tr (map room_grant (map domain_grant grants)) (host_sees c) =
      thunk_reply (co_host c) (reply, t')"
    unfolding connectThunk_def host_sees_def Let_def prod.case thunk_grants assms(2) ..
  moreover obtain e message where "finish_or_threw (cr_result reply) = (e, message)" by fastforce
  moreover note emits_host_returns [of c "thunk_reply (co_host c) (reply, t')"]
  ultimately show ?thesis
    using assms(1)
    by (simp add: adapter_connect_def transportTable_def thunk_reply_def host_returns_def)
qed

text \<open>The result and the report of a call the transport has refused.\<close>

definition refused_result :: "TransportError \<Rightarrow> core_result" where
  "refused_result e =
     (if e = Te_invalid_argument then Result_invalid_argument
      else if e = Te_invalid_state then Result_invalid_state
      else Result_transport_error)"

definition refused_code :: "TransportError \<Rightarrow> string" where
  "refused_code e = voiceErrorCode (transportError (error_value e))"

definition outcome :: "TransportResult option \<Rightarrow> TransportResult" where
  "outcome result =
     (case result of
        None \<Rightarrow> \<lparr>tr_error = Te_internal_error, tr_message = ''C++ transport threw''\<rparr>
      | Some r \<Rightarrow> r)"

lemma finish_outcome: "finish_or_threw result = finishTransportCall (outcome result)"
  by (simp add: finish_or_threw_def internalTransportFailure_def outcome_def split: option.split)

text \<open>
  C21: connecting through the C interface is connecting the transport. On a disconnected handle whose
  table is the wrapper's, valid grants of distinct scopes reach the C++ transport as the application
  gave them, whatever it calls back meanwhile; the call succeeds exactly when the transport does, and
  when the transport refuses or throws, the application's last event carries the code of the
  transport's error and its text.
\<close>

theorem connect_reaches_transport:
  assumes "co_table c = transportTable tr" and "vc_state (co_client c) = Transport_disconnected"
    and "connectable grants" and "co_callback c"
    and "ct_connect tr grants (pl_log (co_player c), wr_transport (co_host c)) = (reply, t')"
  shows "\<exists>r c'. core_called (wrapper_connect grants) c = Some (r, c') \<and>
    wr_transport (co_host c') = t' \<and>
    (let res = outcome (cr_result reply)
     in if tr_error res = Te_none then r = Result_ok
        else r = refused_result (tr_error res) \<and>
          (\<exists>es e. application_events c' = es @ [e] \<and> we_kind e = Event_error \<and>
             we_error_code e = refused_code (tr_error res) \<and>
             we_message e = (if tr_message res = []
                             then ''host voice transport operation failed'' else tr_message res)))"
proof -
  let ?v = "(co_client c)\<lparr>vc_state := Transport_connecting,
    vc_connection_generation := vc_connection_generation (co_client c) + 1\<rparr>"
  let ?res = "outcome (cr_result reply)"
  let ?result = "callResult (error_value (tr_error ?res)) (stringView (tr_message ?res))"
  have "validateGrants (map domain_grant grants) = vr_success"
    using assms(3) checked_grants by (simp add: connectable_def validateGrants_def)
  then have begun: "connect_begin (map domain_grant grants) (co_client c) = (None, ?v)"
    using assms(2) by (simp add: connect_begin_def vr_success_def vr_ok_def)
  obtain d where d: "adapter_connect (map domain_grant grants) (with_client ?v c) = (?result, d)"
      "wr_transport (co_host d) = t'" "emits (with_client ?v c) d"
    using connect_adapted [of "with_client ?v c" tr grants reply t'] assms(1,5)
    by (auto simp: finish_outcome finishTransportCall_def view_simps)
  let ?d = "with_client (connect_finish ?result (co_client d)) d"
  have "voice_connect (map domain_grant grants) c = (?result, ?d)"
    unfolding voice_connect_def begun by (simp add: d(1))
  then have called: "core_called (wrapper_connect grants) c = Some (operationResult ?result ?d)"
    using assms(3) by (simp add: wrapper_connect_def core_connect_def copied_grants connectable_def)
  have d_callback: "co_callback d" using d(3) assms(4) by (simp add: emits_def)
  show ?thesis
  proof (cases "tr_error ?res = Te_none")
    case True
    then have "operationResult ?result ?d = (Result_ok, ?d)"
      by (simp add: operationResult_def callResult_def vr_success_def vr_ok_def)
    with called d(2) True show ?thesis by simp
  next
    case False
    let ?message = "if tr_message ?res = [] then ''host voice transport operation failed''
      else tr_message ?res"
    have "?result = vr_failure (transportError (error_value (tr_error ?res))) ?message"
      using False by (simp add: callResult_def)
    moreover have "operationResult (vr_failure (transportError (error_value e)) message) x =
        (refused_result e, reportError (refused_code e) message x)" if "e \<noteq> Te_none"
      for e message and x :: "('a, 'b wrapper) client_core"
      using that by (cases e) (simp_all add: operationResult_def vr_failure_def vr_ok_def
          transportError_def refused_result_def refused_code_def)
    ultimately have "operationResult ?result ?d = (refused_result (tr_error ?res),
        reportError (refused_code (tr_error ?res)) ?message ?d)"
      using False by simp
    moreover have "\<exists>es e. application_events (reportError code message ?d) = es @ [e] \<and>
        we_kind e = Event_error \<and> we_error_code e = code \<and> we_message e = message" for code message
      using d_callback by (simp add: application_events_def event_defs emit_event_def event_value_def
          view_simps)
    ultimately show ?thesis using called d(2) False by simp
  qed
qed

end
