(* ===== verification/Client_Core_Examples.thy ===== *)
theory Client_Core_Examples
  imports Client_Core_Wrapper
begin

text \<open>
  A handle made by the C++ wrapper over a small transport, the instances of the properties on it, and
  two behaviours of the interface at its edges.
\<close>

section \<open>A transport\<close>

text \<open>The transport counts: 0 is disconnected, 1 connected, 2 connected and publishing.\<close>

definition done_with :: "transport_callback list \<Rightarrow> transport_reply" where
  "done_with callbacks =
     \<lparr>cr_callbacks = callbacks, cr_result = Some \<lparr>tr_error = Te_none, tr_message = []\<rparr>\<rparr>"

definition plain_transport :: "(nat, nat) Transport" where
  "plain_transport =
     \<lparr>ct_setObserver = (\<lambda>attach (log, t). (done_with [], t)),
      ct_state = (\<lambda>(log, t). if t = 0 then State_disconnected else State_connected),
      ct_connect = (\<lambda>grants (log, t).
        (done_with [On_connection_state_changed State_connecting,
                    On_connection_state_changed State_connected], 1)),
      ct_disconnect = (\<lambda>(log, t). (done_with [On_connection_state_changed State_disconnected], 0)),
      ct_startMicrophone = (\<lambda>sc (log, t). (done_with [], 2)),
      ct_stopMicrophone = (\<lambda>(log, t). (done_with [], 1)),
      ct_activeMicrophoneScope = (\<lambda>(log, t). if t = 2 then Some Scope_team else None),
      ct_configureRemoteAudio = (\<lambda>sc p admitted gain seen.
        Some \<lparr>tr_error = Te_none, tr_message = []\<rparr>)\<rparr>"

text \<open>The same transport, but its connecting fails after it has reported that it connects.\<close>

definition refusing_transport :: "(nat, nat) Transport" where
  "refusing_transport = plain_transport
     \<lparr>ct_connect := (\<lambda>grants (log, t).
        (\<lparr>cr_callbacks = [On_connection_state_changed State_connecting],
          cr_result = Some \<lparr>tr_error = Te_connection_failed, tr_message = ''no route''\<rparr>\<rparr>, 0))\<rparr>"

definition sample_config :: "(nat, nat) Transport \<Rightarrow> (nat, nat wrapper) config_v1" where
  "sample_config tr =
     \<lparr>xc_struct_size = sizeof_config, xc_abi_version = abi_version,
      xc_transport = transportTable tr, xc_event_callback = True\<rparr>"

definition sample_handle :: "(nat, nat) Transport \<Rightarrow> (nat, nat wrapper) client_core" where
  "sample_handle tr =
     client_core_ctor 1 0 (sample_config tr) \<lparr>wr_observer = False, wr_transport = 0\<rparr>"

lemma valid_table [simp]: "validTransport (transportTable tr)"
  by (simp add: validTransport_def transportTable_def)

lemmas sample_core_defs = sample_handle_def sample_config_def client_core_ctor_def
  adapter_setObserver_def adapter_state_def host_returns_def transportTable_def setObserverThunk_def
  stateThunk_def thunk_reply_def finish_or_threw_def finishTransportCall_def host_sees_def
  plain_transport_def refusing_transport_def done_with_def wrapper_view_def transportState_def
  callResult_def vr_success_def vr_ok_def with_client_def vc_setObserver_def Let_def

lemma sample_attached:
  "co_observer_attached (sample_handle plain_transport)"
  "co_observer_attached (sample_handle refusing_transport)"
  by (simp_all add: sample_core_defs)

lemma sample_created:
  assumes "co_observer_attached (sample_handle tr)"
  shows "hvc_client_core_create 1 0 (Some (sample_config tr)) True
      \<lparr>wr_observer = False, wr_transport = 0\<rparr> =
    (Result_ok, Some (sample_handle tr), co_host (sample_handle tr))"
  using assms
  by (simp add: hvc_client_core_create_def sample_handle_def Let_def)
    (simp add: sample_config_def abiMajor_def)

lemma sample_wrapped:
  assumes "co_observer_attached (sample_handle tr)"
  shows "ClientCore_ctor 1 0 tr 0 = Inr (sample_handle tr)"
  using sample_created [OF assms] by (simp add: ClientCore_ctor_def sample_config_def)

definition sample_grants :: "RoomGrant list" where
  "sample_grants = [\<lparr>wg_scope = Scope_team, wg_url = ''wss'', wg_token = ''t''\<rparr>]"

definition sample_membership :: "u64 \<Rightarrow> OwnedMembership" where
  "sample_membership v =
     \<lparr>wm_version = v, wm_hierarchy_id = ''h'', wm_player_id = ''alice'', wm_group_id = ''g'',
      wm_specialization_id = ''s'', wm_team_id = ''t'', wm_role_ids = [''lead''],
      wm_connected = True, wm_can_receive_voice = True, wm_transmit_muted = False\<rparr>"

definition sample_actions :: "nat wrapper core_action list" where
  "sample_actions =
     [Host_calls (wrapper_connect sample_grants), Host_calls (wrapper_updateMembership (sample_membership 3)),
      Host_calls (wrapper_pressPushToTalk Scope_team),
      Host_calls_back (Cb_speaker_started 0 (stringView ''bob'')),
      Host_calls (wrapper_updateMembership (sample_membership 2))]"

section \<open>The instances\<close>

lemma sample_run:
  "map_option (\<lambda>c. (vc_publication_state (co_client c), length (co_events c), co_callback c))
     (core_run sample_actions (sample_handle plain_transport)) = Some (Pub_active, 5, True)"
  by code_simp

lemma sample_run_ends:
  obtains c where "core_run sample_actions (sample_handle plain_transport) = Some c"
    "vc_publication_state (co_client c) = Pub_active" "length (co_events c) = 5" "co_callback c"
  using sample_run by auto

theorem core_operations_return_witness:
  "\<exists>c. core_run sample_actions (sample_handle plain_transport) = Some c \<and>
     vc_publication_state (co_client c) = Pub_active \<and> vc_state (co_client c) = Transport_connected"
proof -
  obtain c where "core_run sample_actions (sample_handle plain_transport) = Some c"
      "vc_publication_state (co_client c) = Pub_active" by (rule sample_run_ends)
  then show ?thesis
    using core_operations_return [OF sample_created [OF sample_attached(1)], of sample_actions] by auto
qed

theorem core_events_are_numbered_witness:
  "\<exists>c. core_run sample_actions (sample_handle plain_transport) = Some c \<and>
     xe_sequence (co_events c ! 4) = 5 \<and> event_shape (co_events c ! 4)"
proof -
  obtain c where c: "core_run sample_actions (sample_handle plain_transport) = Some c"
      "length (co_events c) = 5" by (rule sample_run_ends)
  with core_events_are_numbered [OF sample_created [OF sample_attached(1)] c(1), of 4]
  show ?thesis by simp
qed

theorem published_memberships_rise_witness:
  "\<exists>c. core_run sample_actions (sample_handle plain_transport) = Some c \<and>
     published (co_events c) = map_option event_membership (co_membership c) \<and>
     memberships_rise (co_events c)"
proof -
  obtain c where c: "core_run sample_actions (sample_handle plain_transport) = Some c"
      "co_callback c" by (rule sample_run_ends)
  with published_memberships_rise [OF sample_created [OF sample_attached(1)] c]
  show ?thesis by simp
qed

theorem core_failures_are_reported_witness:
  "\<exists>c. core_called (wrapper_pressPushToTalk Scope_team) (sample_handle plain_transport) =
       Some (Result_invalid_state, c) \<and> reports Result_invalid_state c"
proof -
  have "map_option fst (core_called (wrapper_pressPushToTalk Scope_team)
      (sample_handle plain_transport)) = Some Result_invalid_state"
    by code_simp
  then obtain c where c: "core_called (wrapper_pressPushToTalk Scope_team)
      (sample_handle plain_transport) = Some (Result_invalid_state, c)" by auto
  have "co_callback (sample_handle plain_transport)" by code_simp
  with core_failures_are_reported [OF c] c show ?thesis by simp
qed

theorem membership_reaches_application_witness:
  "\<exists>c e. core_called (wrapper_updateMembership (sample_membership 3)) (sample_handle plain_transport) =
       Some (Result_ok, c) \<and> application_events c = [e] \<and> we_membership e = Some (sample_membership 3)"
proof -
  have "co_callback (sample_handle plain_transport)" by code_simp
  from membership_reaches_application [OF this, of "sample_membership 3"]
  obtain r c e where "core_called (wrapper_updateMembership (sample_membership 3))
        (sample_handle plain_transport) = Some (r, c)"
      "application_events c = application_events (sample_handle plain_transport) @ [e]"
      "if complete_membership (sample_membership 3) \<and>
         (\<forall>held. co_membership (sample_handle plain_transport) = Some held \<longrightarrow>
            mb_version held < wm_version (sample_membership 3))
       then r = Result_ok \<and> we_membership e = Some (sample_membership 3) else True"
    by (auto split: if_splits)
  moreover have "complete_membership (sample_membership 3)"
    by (simp add: complete_membership_def sample_membership_def)
  moreover have "co_membership (sample_handle plain_transport) = None"
    "co_events (sample_handle plain_transport) = []"
    by code_simp+
  ultimately show ?thesis by (simp add: application_events_def)
qed

theorem connect_reaches_transport_witness:
  "\<exists>c es e. core_called (wrapper_connect sample_grants) (sample_handle refusing_transport) =
       Some (Result_transport_error, c) \<and> application_events c = es @ [e] \<and>
     we_error_code e = ''voice_transport_connection_failed'' \<and> we_message e = ''no route''"
proof -
  let ?c = "sample_handle refusing_transport"
  let ?reply = "\<lparr>cr_callbacks = [On_connection_state_changed State_connecting],
    cr_result = Some \<lparr>tr_error = Te_connection_failed, tr_message = ''no route''\<rparr>\<rparr>"
  have fields: "co_table ?c = transportTable refusing_transport"
    by (simp add: sample_core_defs)
  have state: "vc_state (co_client ?c) = Transport_disconnected" "co_callback ?c" by code_simp+
  have grants: "connectable sample_grants" by (simp add: connectable_def sample_grants_def)
  have "ct_connect refusing_transport sample_grants
      (pl_log (co_player ?c), wr_transport (co_host ?c)) = (?reply, 0)"
    by (simp add: refusing_transport_def)
  from connect_reaches_transport [OF fields state(1) grants state(2) this] show ?thesis
    by (auto simp: outcome_def refused_result_def refused_code_def transportError_def)
qed

section \<open>At the edges\<close>

text \<open>
  A configuration of an unsupported size is answered as an invalid argument; the header documents
  the incompatible-ABI result for it.
\<close>

theorem small_configuration_is_invalid_argument:
  "hvc_client_core_create half quarter
     (Some (sample_config plain_transport\<lparr>xc_struct_size := sizeof_config - 1\<rparr>)) True t =
   (Result_invalid_argument, None, t)"
  by (simp add: hvc_client_core_create_def sample_config_def sizeof_config_def)

text \<open>
  A failed connect leaves the handle disconnected without an event: the last event about the
  connection still says that it is being established.
\<close>

theorem failed_connect_is_not_announced:
  "map_option (\<lambda>(r, c). (hvc_client_core_get_connection_state (Some c) True,
       map xe_connection_state (filter (\<lambda>e. xe_kind e = Event_connection_state_changed) (co_events c))))
     (core_called (wrapper_connect sample_grants) (sample_handle refusing_transport)) =
   Some ((Result_ok, Some 0), [1])"
  by code_simp

end
