(* ===== verification/Desktop_Model.thy ===== *)
theory Desktop_Model
  imports Push_To_Talk Control_Plane_Client Http_Json
begin

text \<open>
  The desktop client's presentation state (\<open>libs/presentation/include/hvc/presentation/desktop_model.hpp\<close>
  and \<open>libs/presentation/src/desktop_model.cpp\<close>): what the windows show, as a function of the events
  of the session, of the voice transport and of the user. The model is not shared between threads,
  so every method is one function on the state. \<open>Desktop_Properties\<close> and \<open>Desktop_Events\<close> state what
  holds of them.

  Volumes and gains are values of a linearly ordered type with zero and one, as in \<open>Voice_Client\<close>:
  a \<open>NaN\<close> is not a value here, and what lies between zero and one is finite. The three flags or
  sequences that the code keeps in an array by scope are functions of the scope.
\<close>

section \<open>Data\<close>

datatype ConnectionPhase =
    Phase_signed_out | Phase_connecting | Phase_ready | Phase_reconnecting | Phase_disconnecting

datatype OperationPhase = Operation_idle | Operation_pending | Operation_succeeded | Operation_failed

datatype PresenceState = Presence_unknown | Presence_offline | Presence_online

datatype DesktopErrorCode =
    Code_none | Code_invalid_state | Code_invalid_argument | Code_not_found | Code_forbidden
  | Code_stale_version | Code_operation_failed

datatype CommandKind =
    Command_connect | Command_disconnect | Command_select_channel | Command_open_settings
  | Command_open_diagnostics | Command_open_administration | Command_apply_settings
  | Command_set_participant_volume | Command_set_participant_muted | Command_set_participant_blocked

record ChannelSelection =
  cx_scope :: VoiceScope
  cx_node_id :: string

record 'f ParticipantState =
  pp_participant_id :: string
  pp_display_name :: string
  pp_primary_team_id :: string
  pp_role_ids :: "string list"
  pp_presence :: PresenceState
  pp_connected_scopes :: "VoiceScope \<Rightarrow> bool"
  pp_audio_available_scopes :: "VoiceScope \<Rightarrow> bool"
  pp_audio_available :: bool
  pp_speaking :: bool
  pp_speaking_scope :: "VoiceScope option"
  pp_volume :: 'f
  pp_muted :: bool
  pp_blocked :: bool

definition ParticipantState_default :: "'f::one ParticipantState" where
  "ParticipantState_default =
     \<lparr>pp_participant_id = [], pp_display_name = [], pp_primary_team_id = [], pp_role_ids = [],
      pp_presence = Presence_unknown, pp_connected_scopes = (\<lambda>_. False),
      pp_audio_available_scopes = (\<lambda>_. False), pp_audio_available = False, pp_speaking = False,
      pp_speaking_scope = None, pp_volume = 1, pp_muted = False, pp_blocked = False\<rparr>"

record AudioDevice =
  ad_id :: string
  ad_display_name :: string

record 'f SettingsState =
  se_audio :: "'f AudioEngineConfig"
  se_recording_devices :: "AudioDevice list"
  se_playout_devices :: "AudioDevice list"
  se_recording_device_id :: string
  se_playout_device_id :: string
  se_bindings :: "InputBinding list"
  se_input_devices :: "InputDeviceProfile list"
  se_text_scale_percent :: u16
  se_strong_speaker_indicators :: bool
  se_apply_phase :: OperationPhase

record AdministrationState =
  an_can_moderate :: bool
  an_can_administrate :: bool
  an_operation_phase :: OperationPhase

definition AdministrationState_default :: AdministrationState where
  "AdministrationState_default =
     \<lparr>an_can_moderate = False, an_can_administrate = False, an_operation_phase = Operation_idle\<rparr>"

record DiagnosticsState =
  dg_voice_state :: VoiceTransportState
  dg_last_error_code :: string
  dg_last_diagnostic :: string
  dg_error_count :: u64

definition DiagnosticsState_default :: DiagnosticsState where
  "DiagnosticsState_default =
     \<lparr>dg_voice_state = Transport_disconnected, dg_last_error_code = [], dg_last_diagnostic = [],
      dg_error_count = 0\<rparr>"

record 'f DesktopState =
  dk_connection :: ConnectionPhase
  dk_membership :: "MembershipView option"
  dk_selected_channel :: "ChannelSelection option"
  dk_directory :: "DirectoryView option"
  dk_presence_version :: "u64 option"
  dk_presence_observed_at :: "time_point option"
  dk_participants :: "(string, 'f ParticipantState) std_map"
  dk_active_transmission_scope :: "VoiceScope option"
  dk_settings :: "'f SettingsState"
  dk_administration :: AdministrationState
  dk_diagnostics :: DiagnosticsState

record 'f Command =
  cm_kind :: CommandKind
  cm_channel :: "ChannelSelection option"
  cm_participant_id :: string
  cm_participant_volume :: 'f
  cm_enabled :: bool
  cm_settings :: "'f SettingsState option"

definition Command_ctor :: "CommandKind \<Rightarrow> 'f::one Command" where
  "Command_ctor kind =
     \<lparr>cm_kind = kind, cm_channel = None, cm_participant_id = [], cm_participant_volume = 1,
      cm_enabled = False, cm_settings = None\<rparr>"

record ValidationResult =
  va_error :: DesktopErrorCode
  va_field :: string

definition va_ok :: "ValidationResult \<Rightarrow> bool" where
  "va_ok r \<longleftrightarrow> va_error r = Code_none"

definition va_success :: ValidationResult where
  "va_success = \<lparr>va_error = Code_none, va_field = []\<rparr>"

definition va_failure :: "DesktopErrorCode \<Rightarrow> string \<Rightarrow> ValidationResult" where
  "va_failure e field = \<lparr>va_error = e, va_field = field\<rparr>"

fun errorCodeName :: "DesktopErrorCode \<Rightarrow> string" where
  "errorCodeName Code_none = ''none''"
| "errorCodeName Code_invalid_state = ''invalid_state''"
| "errorCodeName Code_invalid_argument = ''invalid_argument''"
| "errorCodeName Code_not_found = ''not_found''"
| "errorCodeName Code_forbidden = ''forbidden''"
| "errorCodeName Code_stale_version = ''stale_version''"
| "errorCodeName Code_operation_failed = ''operation_failed''"

text \<open>The event sequences of one participant, by scope.\<close>

record ParticipantVoiceSequences =
  sq_connected :: "VoiceScope \<Rightarrow> u64"
  sq_audio_available :: "VoiceScope \<Rightarrow> u64"
  sq_speaking :: "VoiceScope \<Rightarrow> u64"

definition ParticipantVoiceSequences_default :: ParticipantVoiceSequences where
  "ParticipantVoiceSequences_default =
     \<lparr>sq_connected = (\<lambda>_. 0), sq_audio_available = (\<lambda>_. 0), sq_speaking = (\<lambda>_. 0)\<rparr>"

record 'f DesktopModel =
  dm_state :: "'f DesktopState"
  dm_server_presence :: "(string, bool) std_map"
  dm_participant_voice_sequences :: "(string, ParticipantVoiceSequences) std_map"
  dm_voice_generation :: u64
  dm_last_connection_sequence :: u64

text \<open>A new model; the settings are those of a default \<open>SettingsState\<close>.\<close>

definition SettingsState_default :: "'f \<Rightarrow> 'f \<Rightarrow> 'f SettingsState" where
  "SettingsState_default half quarter =
     \<lparr>se_audio = AudioEngineConfig_default half quarter, se_recording_devices = [],
      se_playout_devices = [], se_recording_device_id = [], se_playout_device_id = [],
      se_bindings = [], se_input_devices = [], se_text_scale_percent = 100,
      se_strong_speaker_indicators = False, se_apply_phase = Operation_idle\<rparr>"

definition DesktopModel_ctor :: "'f \<Rightarrow> 'f \<Rightarrow> 'f DesktopModel" where
  "DesktopModel_ctor half quarter =
     \<lparr>dm_state =
        \<lparr>dk_connection = Phase_signed_out, dk_membership = None, dk_selected_channel = None,
         dk_directory = None, dk_presence_version = None, dk_presence_observed_at = None,
         dk_participants = [], dk_active_transmission_scope = None,
         dk_settings = SettingsState_default half quarter,
         dk_administration = AdministrationState_default,
         dk_diagnostics = DiagnosticsState_default\<rparr>,
      dm_server_presence = [], dm_participant_voice_sequences = [], dm_voice_generation = 0,
      dm_last_connection_sequence = 0\<rparr>"

definition on_state :: "('f DesktopState \<Rightarrow> 'f DesktopState) \<Rightarrow> 'f DesktopModel \<Rightarrow> 'f DesktopModel" where
  "on_state f d = d\<lparr>dm_state := f (dm_state d)\<rparr>"

section \<open>Validating commands\<close>

definition isSessionAvailable :: "ConnectionPhase \<Rightarrow> bool" where
  "isSessionAvailable phase \<longleftrightarrow> phase = Phase_ready \<or> phase = Phase_reconnecting"

text \<open>\<open>std::tolower\<close> in the C locale, the one the program runs in.\<close>

definition membership_hasRole :: "MembershipView \<Rightarrow> string \<Rightarrow> bool" where
  "membership_hasRole m expected_role \<longleftrightarrow>
     list_ex (\<lambda>role_id. asciiLower (id_value role_id) = expected_role) (mv_role_ids m)"

definition valid_gain :: "'f::{linorder, zero, one} \<Rightarrow> bool" where
  "valid_gain gain \<longleftrightarrow> 0 \<le> gain \<and> gain \<le> 1"

definition device_exists :: "AudioDevice list \<Rightarrow> string \<Rightarrow> bool" where
  "device_exists devices selected \<longleftrightarrow> selected = [] \<or> list_ex (\<lambda>d. ad_id d = selected) devices"

definition all_scopes :: "VoiceScope list" where
  "all_scopes = [Team_scope, Specialization_scope, Group_scope]"

definition validateSettings :: "'f::{linorder, zero, one} SettingsState \<Rightarrow> ValidationResult" where
  "validateSettings settings =
     (let audio = se_audio settings in
      if ae_maximum_streams audio = 0 \<or>
         list_ex (\<lambda>sc. ae_maximum_streams_per_scope audio sc = 0) all_scopes
      then va_failure Code_invalid_argument ''settings.audio.stream_limits''
      else if \<not> valid_gain (ae_team_gain_under_specialization audio) \<or>
              \<not> valid_gain (ae_team_gain_under_group audio) \<or>
              \<not> valid_gain (ae_specialization_gain_under_group audio)
      then va_failure Code_invalid_argument ''settings.audio.ducking''
      else if se_text_scale_percent settings < 100 \<or> 200 < se_text_scale_percent settings
      then va_failure Code_invalid_argument ''settings.accessibility.text_scale_percent''
      else if \<not> device_exists (se_recording_devices settings) (se_recording_device_id settings)
      then va_failure Code_not_found ''settings.recording_device_id''
      else if \<not> device_exists (se_playout_devices settings) (se_playout_device_id settings)
      then va_failure Code_not_found ''settings.playout_device_id''
      else va_success)"

definition validate :: "'f::{linorder, zero, one} Command \<Rightarrow> 'f DesktopModel \<Rightarrow> ValidationResult" where
  "validate command d =
     (let st = dm_state d;
          available = isSessionAvailable (dk_connection st);
          no_session = va_failure Code_invalid_state ''connection'';
          known = cm_participant_id command \<noteq> [] \<and>
                  std_contains (dk_participants st) (cm_participant_id command)
      in case cm_kind command of
           Command_connect \<Rightarrow>
             if dk_connection st = Phase_signed_out then va_success else no_session
         | Command_disconnect \<Rightarrow> if available then va_success else no_session
         | Command_select_channel \<Rightarrow>
             if \<not> available then no_session
             else (case cm_channel command of
                 None \<Rightarrow> va_failure Code_invalid_argument ''channel''
               | Some channel \<Rightarrow>
                   if cx_node_id channel = [] then va_failure Code_invalid_argument ''channel''
                   else va_success)
         | Command_open_settings \<Rightarrow> if available then va_success else no_session
         | Command_open_diagnostics \<Rightarrow> if available then va_success else no_session
         | Command_open_administration \<Rightarrow>
             if \<not> available then no_session
             else if an_can_moderate (dk_administration st) \<or> an_can_administrate (dk_administration st)
             then va_success else va_failure Code_forbidden ''role''
         | Command_apply_settings \<Rightarrow>
             if \<not> available then no_session
             else (case cm_settings command of
                 Some settings \<Rightarrow> validateSettings settings
               | None \<Rightarrow> va_failure Code_invalid_argument ''settings'')
         | Command_set_participant_volume \<Rightarrow>
             if \<not> available then no_session
             else if \<not> known then va_failure Code_not_found ''participant_id''
             else if valid_gain (cm_participant_volume command) then va_success
             else va_failure Code_invalid_argument ''participant_volume''
         | Command_set_participant_muted \<Rightarrow>
             if \<not> available then no_session
             else if known then va_success else va_failure Code_not_found ''participant_id''
         | Command_set_participant_blocked \<Rightarrow>
             if \<not> available then no_session
             else if known then va_success else va_failure Code_not_found ''participant_id'')"

section \<open>Derived state\<close>

definition refreshParticipantDerivedState ::
  "(string, bool) std_map \<Rightarrow> 'f ParticipantState \<Rightarrow> 'f ParticipantState" where
  "refreshParticipantDerivedState server_presence x =
     (let locally_connected = list_ex (pp_connected_scopes x) all_scopes
      in x\<lparr>pp_audio_available := list_ex (pp_audio_available_scopes x) all_scopes,
           pp_presence :=
             (case map_of server_presence (pp_participant_id x) of
                Some online \<Rightarrow> if online \<or> locally_connected then Presence_online else Presence_offline
              | None \<Rightarrow> if locally_connected then Presence_online else Presence_unknown)\<rparr>)"

text \<open>The loop over the participants by reference.\<close>

definition each_participant ::
  "('f ParticipantState \<Rightarrow> 'f ParticipantState) \<Rightarrow> 'f DesktopModel \<Rightarrow> 'f DesktopModel" where
  "each_participant f =
     on_state (\<lambda>st. st\<lparr>dk_participants := map (\<lambda>(k, x). (k, f x)) (dk_participants st)\<rparr>)"

definition clearRemoteTransportState :: "'f DesktopModel \<Rightarrow> 'f DesktopModel" where
  "clearRemoteTransportState d =
     each_participant (\<lambda>x. refreshParticipantDerivedState (dm_server_presence d)
       (x\<lparr>pp_connected_scopes := (\<lambda>_. False), pp_audio_available_scopes := (\<lambda>_. False),
          pp_audio_available := False, pp_speaking := False, pp_speaking_scope := None\<rparr>)) d"

definition clearAuthenticatedState :: "'f DesktopModel \<Rightarrow> 'f DesktopModel" where
  "clearAuthenticatedState d =
     d\<lparr>dm_state := (dm_state d)
         \<lparr>dk_membership := None, dk_selected_channel := None, dk_directory := None,
          dk_presence_version := None, dk_presence_observed_at := None, dk_participants := [],
          dk_active_transmission_scope := None,
          dk_administration := AdministrationState_default,
          dk_diagnostics := DiagnosticsState_default\<rparr>,
       dm_server_presence := [], dm_participant_voice_sequences := [], dm_voice_generation := 0,
       dm_last_connection_sequence := 0\<rparr>"

definition recordError :: "string \<Rightarrow> string \<Rightarrow> 'f DesktopModel \<Rightarrow> 'f DesktopModel" where
  "recordError error_code diagnostic =
     on_state (\<lambda>st. st\<lparr>dk_diagnostics := (dk_diagnostics st)
       \<lparr>dg_last_error_code := error_code, dg_last_diagnostic := diagnostic,
        dg_error_count := dg_error_count (dk_diagnostics st) + 1\<rparr>\<rparr>)"

section \<open>Memberships and connection\<close>

definition administrationFor :: "MembershipView \<Rightarrow> AdministrationState" where
  "administrationFor m =
     (let administrator = membership_hasRole m ''administrator'' \<or> membership_hasRole m ''admin''
      in \<lparr>an_can_moderate = administrator \<or> membership_hasRole m ''moderator'',
          an_can_administrate = administrator, an_operation_phase = Operation_idle\<rparr>)"

definition applyMembership :: "MembershipView \<Rightarrow> 'f DesktopModel \<Rightarrow> 'f DesktopModel" where
  "applyMembership m d =
     (let group_changed =
            (case dk_membership (dm_state d) of
               None \<Rightarrow> False
             | Some held \<Rightarrow> id_value (mv_group_id held) \<noteq> id_value (mv_group_id m));
          d' =
            (if group_changed
             then clearRemoteTransportState
               (d\<lparr>dm_state := (dm_state d)
                    \<lparr>dk_directory := None, dk_presence_version := None,
                     dk_presence_observed_at := None, dk_participants := []\<rparr>,
                  dm_server_presence := [], dm_participant_voice_sequences := []\<rparr>)
             else d)
      in on_state (\<lambda>st. st
           \<lparr>dk_administration := administrationFor m,
            dk_selected_channel :=
              Some \<lparr>cx_scope = Team_scope, cx_node_id = id_value (mv_team_id m)\<rparr>,
            dk_membership := Some m\<rparr>) d')"

definition beginConnect ::
  "'f::{linorder, zero, one} DesktopModel \<Rightarrow> ValidationResult \<times> 'f DesktopModel" where
  "beginConnect d =
     (let result = validate (Command_ctor Command_connect) d in
      (result,
       if \<not> va_ok result then d
       else on_state (\<lambda>st. st
         \<lparr>dk_connection := Phase_connecting,
          dk_diagnostics := (dk_diagnostics st)\<lparr>dg_voice_state := Transport_connecting\<rparr>\<rparr>)
           (clearAuthenticatedState d)))"

definition connectionSucceeded ::
  "MembershipView \<Rightarrow> 'f DesktopModel \<Rightarrow> ValidationResult \<times> 'f DesktopModel" where
  "connectionSucceeded m d =
     (if dk_connection (dm_state d) \<noteq> Phase_connecting
      then (va_failure Code_invalid_state ''connection'', d)
      else if mv_version m = 0 \<or> id_value (mv_player_id m) = [] \<or> id_value (mv_group_id m) = [] \<or>
              id_value (mv_specialization_id m) = [] \<or> id_value (mv_team_id m) = []
      then (va_failure Code_invalid_argument ''membership'', d)
      else (va_success, on_state (\<lambda>st. st
        \<lparr>dk_connection := Phase_ready,
         dk_diagnostics := (dk_diagnostics st)\<lparr>dg_voice_state := Transport_connected\<rparr>\<rparr>)
           (applyMembership m d)))"

definition connectionFailed :: "string \<Rightarrow> string \<Rightarrow> 'f DesktopModel \<Rightarrow> 'f DesktopModel" where
  "connectionFailed error_code diagnostic d =
     recordError error_code diagnostic
       (on_state (\<lambda>st. st\<lparr>dk_connection := Phase_signed_out\<rparr>) (clearAuthenticatedState d))"

definition beginDisconnect ::
  "'f::{linorder, zero, one} DesktopModel \<Rightarrow> ValidationResult \<times> 'f DesktopModel" where
  "beginDisconnect d =
     (let result = validate (Command_ctor Command_disconnect) d in
      (result,
       if \<not> va_ok result then d
       else on_state (\<lambda>st. st\<lparr>dk_connection := Phase_disconnecting,
                              dk_active_transmission_scope := None\<rparr>) d))"

definition model_disconnected :: "'f DesktopModel \<Rightarrow> 'f DesktopModel" where
  "model_disconnected d =
     on_state (\<lambda>st. st
       \<lparr>dk_connection := Phase_signed_out,
        dk_diagnostics := (dk_diagnostics st)\<lparr>dg_voice_state := Transport_disconnected\<rparr>\<rparr>)
       (clearAuthenticatedState d)"

definition model_updateMembership ::
  "MembershipView \<Rightarrow> 'f DesktopModel \<Rightarrow> ValidationResult \<times> 'f DesktopModel" where
  "model_updateMembership m d =
     (case dk_membership (dm_state d) of
        None \<Rightarrow> (va_failure Code_invalid_state ''membership'', d)
      | Some held \<Rightarrow>
          if mv_version m \<le> mv_version held
          then (va_failure Code_stale_version ''membership.version'', d)
          else (va_success, applyMembership m d))"

text \<open>An event of a newer transport generation forgets all that was known of the older one.\<close>

definition new_generation :: "u64 \<Rightarrow> 'f DesktopModel \<Rightarrow> 'f DesktopModel" where
  "new_generation generation d =
     (if dm_voice_generation d < generation
      then (clearRemoteTransportState (d\<lparr>dm_voice_generation := generation\<rparr>))
             \<lparr>dm_participant_voice_sequences := [], dm_last_connection_sequence := 0\<rparr>
      else d)"

fun phase_after :: "VoiceTransportState \<Rightarrow> 'f DesktopState \<Rightarrow> 'f DesktopState" where
  "phase_after Transport_disconnected st =
     st\<lparr>dk_connection :=
          (if dk_connection st \<noteq> Phase_signed_out \<and> dk_connection st \<noteq> Phase_disconnecting
           then Phase_reconnecting else dk_connection st),
        dk_active_transmission_scope := None\<rparr>"
| "phase_after Transport_connecting st =
     (if dk_connection st \<noteq> Phase_signed_out then st\<lparr>dk_connection := Phase_connecting\<rparr> else st)"
| "phase_after Transport_connected st =
     (if dk_membership st \<noteq> None then st\<lparr>dk_connection := Phase_ready\<rparr> else st)"
| "phase_after Transport_reconnecting st =
     st\<lparr>dk_connection :=
          (if dk_connection st \<noteq> Phase_signed_out then Phase_reconnecting else dk_connection st),
        dk_active_transmission_scope := None\<rparr>"

definition updateVoiceState :: "VoiceConnectionEvent \<Rightarrow> 'f DesktopModel \<Rightarrow> 'f DesktopModel" where
  "updateVoiceState event d =
     (if ce_generation event < dm_voice_generation d then d
      else
        (let d' = new_generation (ce_generation event) d in
         if ce_sequence event \<le> dm_last_connection_sequence d' then d'
         else on_state (\<lambda>st. phase_after (ce_state event)
             (st\<lparr>dk_diagnostics := (dk_diagnostics st)\<lparr>dg_voice_state := ce_state event\<rparr>\<rparr>))
           (d'\<lparr>dm_last_connection_sequence := ce_sequence event\<rparr>)))"

definition transmissionStarted :: "VoiceScope \<Rightarrow> 'f DesktopModel \<Rightarrow> 'f DesktopModel" where
  "transmissionStarted sc = on_state (\<lambda>st. st\<lparr>dk_active_transmission_scope := Some sc\<rparr>)"

definition transmissionStopped :: "'f DesktopModel \<Rightarrow> 'f DesktopModel" where
  "transmissionStopped = on_state (\<lambda>st. st\<lparr>dk_active_transmission_scope := None\<rparr>)"

definition replaceSettings :: "'f SettingsState \<Rightarrow> 'f DesktopModel \<Rightarrow> 'f DesktopModel" where
  "replaceSettings settings = on_state (\<lambda>st. st\<lparr>dk_settings := settings\<rparr>)"

definition selectChannel ::
  "ChannelSelection \<Rightarrow> 'f::{linorder, zero, one} DesktopModel \<Rightarrow>
   ValidationResult \<times> 'f DesktopModel" where
  "selectChannel selection d =
     (let command = (Command_ctor Command_select_channel)\<lparr>cm_channel := Some selection\<rparr>;
          result = validate command d
      in (result,
          if va_ok result then on_state (\<lambda>st. st\<lparr>dk_selected_channel := Some selection\<rparr>) d else d))"

section \<open>Directory and presence\<close>

text \<open>The participant of a directory entry: what is already known of it, with the entry's profile.\<close>

definition listed_participant ::
  "'f::one DesktopModel \<Rightarrow> DirectoryParticipantView \<Rightarrow> 'f ParticipantState" where
  "listed_participant d source =
     (let target =
            (case map_of (dk_participants (dm_state d)) (pv_player_id source) of
               Some existing \<Rightarrow> existing
             | None \<Rightarrow> ParticipantState_default)
      in refreshParticipantDerivedState (dm_server_presence d)
           (target\<lparr>pp_participant_id := pv_player_id source,
                   pp_display_name := pv_display_name source,
                   pp_primary_team_id := pv_primary_team_id source,
                   pp_role_ids := pv_public_role_ids source\<rparr>))"

fun list_participants ::
  "'f::one DesktopModel \<Rightarrow> DirectoryParticipantView list \<Rightarrow>
   (string, 'f ParticipantState) std_map \<Rightarrow> (string, 'f ParticipantState) std_map" where
  "list_participants d [] participants = participants"
| "list_participants d (source # sources) participants =
     list_participants d sources
       (std_emplace (pp_participant_id (listed_participant d source)) (listed_participant d source)
          participants)"

definition applyDirectory ::
  "DirectoryView \<Rightarrow> 'f::one DesktopModel \<Rightarrow> ValidationResult \<times> 'f DesktopModel" where
  "applyDirectory directory d =
     (let st = dm_state d in
      case dk_membership st of
        None \<Rightarrow> (va_failure Code_invalid_state ''directory'', d)
      | Some m \<Rightarrow>
          if dv_group_id directory \<noteq> id_value (mv_group_id m)
          then (va_failure Code_forbidden ''directory.group_id'', d)
          else if dv_version directory = 0 \<or>
              (case dk_directory st of
                 None \<Rightarrow> False | Some held \<Rightarrow> dv_version directory \<le> dv_version held)
          then (va_failure Code_stale_version ''directory.version'', d)
          else (va_success,
            each_participant (refreshParticipantDerivedState [])
              (d\<lparr>dm_state := st
                   \<lparr>dk_participants := list_participants d (dv_participants directory) [],
                    dk_directory := Some directory, dk_presence_version := None,
                    dk_presence_observed_at := None\<rparr>,
                 dm_server_presence := []\<rparr>)))"

fun take_entries ::
  "(string, 'f ParticipantState) std_map \<Rightarrow> ClientPresenceEntry list \<Rightarrow>
   (string, bool) std_map \<Rightarrow> (string, bool) std_map" where
  "take_entries participants [] server_presence = server_presence"
| "take_entries participants (entry # entries) server_presence =
     take_entries participants entries
       (if std_contains participants (pe_player_id entry)
        then std_put (pe_player_id entry) (pe_online entry) server_presence else server_presence)"

definition applyPresence ::
  "DirectoryPresenceView \<Rightarrow> 'f DesktopModel \<Rightarrow> ValidationResult \<times> 'f DesktopModel" where
  "applyPresence presence d =
     (let st = dm_state d in
      if dk_directory st = None then (va_failure Code_invalid_state ''presence'', d)
      else if py_version presence = 0 \<or>
          (case dk_presence_version st of
             None \<Rightarrow> False | Some held \<Rightarrow> py_version presence \<le> held)
      then (va_failure Code_stale_version ''presence.version'', d)
      else if py_mode presence = Presence_mode_delta \<and> dk_presence_version st = None
      then (va_failure Code_invalid_state ''presence.mode'', d)
      else
        (let server_presence = take_entries (dk_participants st) (py_entries presence)
               (if py_mode presence = Presence_mode_snapshot then [] else dm_server_presence d)
         in (va_success,
             each_participant (refreshParticipantDerivedState server_presence)
               (d\<lparr>dm_state := st\<lparr>dk_presence_version := Some (py_version presence),
                                  dk_presence_observed_at := Some (py_observed_at presence)\<rparr>,
                  dm_server_presence := server_presence\<rparr>))))"

section \<open>Remote voice events\<close>

text \<open>
  An event concerns up to three facets of a participant in its scope. A facet is updated when the
  event is newer than the last one that updated it.
\<close>

fun concerns_connected :: "VoiceRemoteEventKind \<Rightarrow> bool" where
  "concerns_connected Remote_participant_connected \<longleftrightarrow> True"
| "concerns_connected Remote_participant_disconnected \<longleftrightarrow> True"
| "concerns_connected _ \<longleftrightarrow> False"

fun concerns_audio :: "VoiceRemoteEventKind \<Rightarrow> bool" where
  "concerns_audio Remote_participant_connected \<longleftrightarrow> False"
| "concerns_audio Remote_speaker_stopped \<longleftrightarrow> False"
| "concerns_audio _ \<longleftrightarrow> True"

fun concerns_speaking :: "VoiceRemoteEventKind \<Rightarrow> bool" where
  "concerns_speaking Remote_participant_connected \<longleftrightarrow> False"
| "concerns_speaking Remote_audio_available \<longleftrightarrow> False"
| "concerns_speaking _ \<longleftrightarrow> True"

definition advance_facet ::
  "bool \<Rightarrow> VoiceRemoteEvent \<Rightarrow> (VoiceScope \<Rightarrow> u64) \<Rightarrow> bool \<times> (VoiceScope \<Rightarrow> u64)" where
  "advance_facet concerned event sequences =
     (if \<not> concerned \<or> re_sequence event \<le> sequences (re_scope event) then (False, sequences)
      else (True, sequences(re_scope event := re_sequence event)))"

definition stop_speaking :: "VoiceScope \<Rightarrow> 'f ParticipantState \<Rightarrow> 'f ParticipantState" where
  "stop_speaking sc x =
     (if pp_speaking_scope x = Some sc then x\<lparr>pp_speaking := False, pp_speaking_scope := None\<rparr> else x)"

definition set_connected :: "VoiceScope \<Rightarrow> bool \<Rightarrow> 'f ParticipantState \<Rightarrow> 'f ParticipantState" where
  "set_connected sc b x = x\<lparr>pp_connected_scopes := (pp_connected_scopes x)(sc := b)\<rparr>"

definition set_audio :: "VoiceScope \<Rightarrow> bool \<Rightarrow> 'f ParticipantState \<Rightarrow> 'f ParticipantState" where
  "set_audio sc b x = x\<lparr>pp_audio_available_scopes := (pp_audio_available_scopes x)(sc := b)\<rparr>"

text \<open>\<open>uc\<close>, \<open>ua\<close> and \<open>us\<close> tell which facets are updated.\<close>

fun update_facets ::
  "VoiceRemoteEventKind \<Rightarrow> VoiceScope \<Rightarrow> bool \<Rightarrow> bool \<Rightarrow> bool \<Rightarrow> 'f ParticipantState \<Rightarrow>
   'f ParticipantState" where
  "update_facets Remote_participant_connected sc uc ua us x =
     (if uc then set_connected sc True x else x)"
| "update_facets Remote_participant_disconnected sc uc ua us x =
     (let x1 = (if uc then set_connected sc False x else x);
          x2 = (if ua then set_audio sc False x1 else x1)
      in if us then stop_speaking sc x2 else x2)"
| "update_facets Remote_audio_available sc uc ua us x = (if ua then set_audio sc True x else x)"
| "update_facets Remote_audio_unavailable sc uc ua us x =
     (let x1 = (if ua then set_audio sc False x else x) in if us then stop_speaking sc x1 else x1)"
| "update_facets Remote_speaker_started sc uc ua us x =
     (let x1 = (if ua then set_audio sc True x else x)
      in if us then x1\<lparr>pp_speaking := True, pp_speaking_scope := Some sc\<rparr> else x1)"
| "update_facets Remote_speaker_stopped sc uc ua us x = (if us then stop_speaking sc x else x)"

definition placeholder :: "string \<Rightarrow> 'f::one ParticipantState" where
  "placeholder participant_id =
     ParticipantState_default\<lparr>pp_participant_id := participant_id, pp_display_name := participant_id\<rparr>"

definition sequences_of :: "string \<Rightarrow> 'f DesktopModel \<Rightarrow> ParticipantVoiceSequences" where
  "sequences_of participant_id d =
     (case map_of (dm_participant_voice_sequences d) participant_id of
        Some sequences \<Rightarrow> sequences
      | None \<Rightarrow> ParticipantVoiceSequences_default)"

definition applyVoiceRemoteEvent ::
  "VoiceRemoteEvent \<Rightarrow> 'f::one DesktopModel \<Rightarrow> 'f DesktopModel" where
  "applyVoiceRemoteEvent event d =
     (let pid = re_participant_id event; kind = re_kind event in
      if pid = [] \<or> re_generation event < dm_voice_generation d then d
      else
        (let d1 = new_generation (re_generation event) d;
             sequences = sequences_of pid d1;
             (uc, connected) = advance_facet (concerns_connected kind) event (sq_connected sequences);
             (ua, audio) = advance_facet (concerns_audio kind) event (sq_audio_available sequences);
             (us, speaking) = advance_facet (concerns_speaking kind) event (sq_speaking sequences);
             d2 = d1\<lparr>dm_participant_voice_sequences :=
               std_put pid \<lparr>sq_connected = connected, sq_audio_available = audio,
                            sq_speaking = speaking\<rparr> (dm_participant_voice_sequences d1)\<rparr>;
             participants = dk_participants (dm_state d2);
             updated = (\<lambda>x. refreshParticipantDerivedState (dm_server_presence d2)
               (update_facets kind (re_scope event) uc ua us x))
         in if \<not> uc \<and> \<not> ua \<and> \<not> us then d2
            else
              (case map_of participants pid of
                 Some x \<Rightarrow>
                   on_state (\<lambda>st. st\<lparr>dk_participants := std_put pid (updated x) participants\<rparr>) d2
               | None \<Rightarrow>
                   if dk_directory (dm_state d2) \<noteq> None then d2
                   else on_state (\<lambda>st. st\<lparr>dk_participants :=
                       std_put pid (updated (placeholder pid)) participants\<rparr>) d2)))"

section \<open>Local participant settings\<close>

definition modify_participant ::
  "string \<Rightarrow> ('f ParticipantState \<Rightarrow> 'f ParticipantState) \<Rightarrow> 'f DesktopModel \<Rightarrow> 'f DesktopModel" where
  "modify_participant participant_id f d =
     on_state (\<lambda>st. st\<lparr>dk_participants :=
       map (\<lambda>(k, x). (k, if k = participant_id then f x else x)) (dk_participants st)\<rparr>) d"

definition model_setParticipantVolume ::
  "string \<Rightarrow> 'f \<Rightarrow> 'f::{linorder, zero, one} DesktopModel \<Rightarrow> ValidationResult \<times> 'f DesktopModel" where
  "model_setParticipantVolume participant_id volume d =
     (let command = (Command_ctor Command_set_participant_volume)
            \<lparr>cm_participant_id := participant_id, cm_participant_volume := volume\<rparr>;
          result = validate command d
      in (result,
          if va_ok result then modify_participant participant_id (\<lambda>x. x\<lparr>pp_volume := volume\<rparr>) d
          else d))"

definition model_setParticipantMuted ::
  "string \<Rightarrow> bool \<Rightarrow> 'f::{linorder, zero, one} DesktopModel \<Rightarrow> ValidationResult \<times> 'f DesktopModel" where
  "model_setParticipantMuted participant_id muted d =
     (let command = (Command_ctor Command_set_participant_muted)
            \<lparr>cm_participant_id := participant_id, cm_enabled := muted\<rparr>;
          result = validate command d
      in (result,
          if va_ok result then modify_participant participant_id (\<lambda>x. x\<lparr>pp_muted := muted\<rparr>) d
          else d))"

end
