(* ===== verification/Desktop_Properties.thy ===== *)
theory Desktop_Properties
  imports Desktop_Model
begin

text \<open>
  What the desktop shows is consistent after any sequence of events, and memberships, directories and
  presence move forward only.
\<close>

section \<open>Runs\<close>

datatype 'f DesktopEvent =
    Begin_connect
  | Connection_succeeded MembershipView
  | Connection_failed string string
  | Begin_disconnect
  | Disconnected
  | Voice_state VoiceConnectionEvent
  | Update_membership MembershipView
  | Select_channel ChannelSelection
  | Apply_directory DirectoryView
  | Apply_presence DirectoryPresenceView
  | Remote_event VoiceRemoteEvent
  | Transmission_started VoiceScope
  | Transmission_stopped
  | Replace_settings "'f SettingsState"
  | Set_volume string 'f
  | Set_muted string bool
  | Record_error string string

fun desktop_after ::
  "'f::{linorder, zero, one} DesktopEvent \<Rightarrow> 'f DesktopModel \<Rightarrow> 'f DesktopModel" where
  "desktop_after Begin_connect d = snd (beginConnect d)"
| "desktop_after (Connection_succeeded m) d = snd (connectionSucceeded m d)"
| "desktop_after (Connection_failed code diagnostic) d = connectionFailed code diagnostic d"
| "desktop_after Begin_disconnect d = snd (beginDisconnect d)"
| "desktop_after Disconnected d = model_disconnected d"
| "desktop_after (Voice_state event) d = updateVoiceState event d"
| "desktop_after (Update_membership m) d = snd (model_updateMembership m d)"
| "desktop_after (Select_channel selection) d = snd (selectChannel selection d)"
| "desktop_after (Apply_directory directory) d = snd (applyDirectory directory d)"
| "desktop_after (Apply_presence presence) d = snd (applyPresence presence d)"
| "desktop_after (Remote_event event) d = applyVoiceRemoteEvent event d"
| "desktop_after (Transmission_started sc) d = transmissionStarted sc d"
| "desktop_after Transmission_stopped d = transmissionStopped d"
| "desktop_after (Replace_settings settings) d = replaceSettings settings d"
| "desktop_after (Set_volume participant volume) d = snd (model_setParticipantVolume participant volume d)"
| "desktop_after (Set_muted participant muted) d = snd (model_setParticipantMuted participant muted d)"
| "desktop_after (Record_error code diagnostic) d = recordError code diagnostic d"

fun desktop_run ::
  "'f::{linorder, zero, one} DesktopEvent list \<Rightarrow> 'f DesktopModel \<Rightarrow> 'f DesktopModel" where
  "desktop_run [] d = d"
| "desktop_run (e # es) d = desktop_run es (desktop_after e d)"

section \<open>The invariant\<close>

text \<open>A participant under its key, given what the server says of presence.\<close>

definition participant_ok ::
  "(string, bool) std_map \<Rightarrow> string \<Rightarrow> 'f::{linorder, zero, one} ParticipantState \<Rightarrow> bool" where
  "participant_ok server_presence k x \<longleftrightarrow>
     pp_participant_id x = k \<and> refreshParticipantDerivedState server_presence x = x \<and>
     (pp_speaking x \<longleftrightarrow> pp_speaking_scope x \<noteq> None) \<and> 0 \<le> pp_volume x \<and> pp_volume x \<le> 1"

definition participants_ok ::
  "(string, bool) std_map \<Rightarrow> (string, 'f::{linorder, zero, one} ParticipantState) std_map \<Rightarrow> bool" where
  "participants_ok server_presence participants \<longleftrightarrow>
     std_ok participants \<and> (\<forall>(k, x) \<in> set participants. participant_ok server_presence k x)"

text \<open>The directory is that of the membership's group, and presence belongs to a directory.\<close>

definition directory_ok :: "(string, bool) std_map \<Rightarrow> 'f DesktopState \<Rightarrow> bool" where
  "directory_ok server_presence st \<longleftrightarrow>
     std_ok server_presence \<and> fst ` set server_presence \<subseteq> fst ` set (dk_participants st) \<and>
     (dk_presence_version st = None \<longleftrightarrow> dk_presence_observed_at st = None) \<and>
     (dk_presence_version st = None \<longrightarrow> server_presence = []) \<and>
     (case dk_directory st of
        None \<Rightarrow> dk_presence_version st = None
      | Some v \<Rightarrow>
          (case dk_membership st of
             None \<Rightarrow> False
           | Some m \<Rightarrow> dv_group_id v = id_value (mv_group_id m) \<and>
               fst ` set (dk_participants st) = pv_player_id ` set (dv_participants v)))"

definition session_shown_ok :: "'f DesktopState \<Rightarrow> bool" where
  "session_shown_ok st \<longleftrightarrow>
     (dk_connection st = Phase_ready \<longrightarrow> dk_membership st \<noteq> None) \<and>
     (dk_connection st = Phase_signed_out \<longrightarrow> dk_membership st = None) \<and>
     dk_administration st =
       (case dk_membership st of None \<Rightarrow> AdministrationState_default | Some m \<Rightarrow> administrationFor m)"

definition desktop_ok :: "'f::{linorder, zero, one} DesktopModel \<Rightarrow> bool" where
  "desktop_ok d \<longleftrightarrow>
     participants_ok (dm_server_presence d) (dk_participants (dm_state d)) \<and>
     directory_ok (dm_server_presence d) (dm_state d) \<and> session_shown_ok (dm_state d)"

named_theorems desktop_ok_defs

lemmas desktop_oks [desktop_ok_defs] =
  desktop_ok_def participants_ok_def directory_ok_def session_shown_ok_def on_state_def

section \<open>Participants\<close>

lemma keys_map_values: "map fst (map (\<lambda>(k, x). (k, f k x)) m) = map fst m"
  by (induction m) auto

lemma std_ok_map_values [simp]: "std_ok (map (\<lambda>(k, x). (k, f k x)) m) = std_ok m"
  by (simp only: std_ok_def keys_map_values)

lemma fst_image_values [simp]: "fst ` (\<lambda>(k, x). (k, f k x)) ` A = fst ` A"
  by force

lemma refresh_refresh [simp]:
  "refreshParticipantDerivedState sp (refreshParticipantDerivedState sp' x) =
     refreshParticipantDerivedState sp x"
  by (simp add: refreshParticipantDerivedState_def Let_def)

lemma refresh_fields [simp]:
  "pp_participant_id (refreshParticipantDerivedState sp x) = pp_participant_id x"
  "pp_speaking (refreshParticipantDerivedState sp x) = pp_speaking x"
  "pp_speaking_scope (refreshParticipantDerivedState sp x) = pp_speaking_scope x"
  "pp_volume (refreshParticipantDerivedState sp x) = pp_volume x"
  "pp_connected_scopes (refreshParticipantDerivedState sp x) = pp_connected_scopes x"
  "pp_audio_available_scopes (refreshParticipantDerivedState sp x) = pp_audio_available_scopes x"
  by (simp_all add: refreshParticipantDerivedState_def Let_def)

text \<open>What is left to show of a participant that has just been refreshed.\<close>

definition participant_core :: "string \<Rightarrow> 'f::{linorder, zero, one} ParticipantState \<Rightarrow> bool" where
  "participant_core k x \<longleftrightarrow>
     pp_participant_id x = k \<and> (pp_speaking x \<longleftrightarrow> pp_speaking_scope x \<noteq> None) \<and>
     0 \<le> pp_volume x \<and> pp_volume x \<le> 1"

lemma participant_ok_refreshed:
  "participant_core k x \<Longrightarrow> participant_ok sp k (refreshParticipantDerivedState sp x)"
  by (simp add: participant_ok_def participant_core_def)

lemma participant_ok_core: "participant_ok sp k x \<Longrightarrow> participant_core k x"
  by (simp add: participant_ok_def participant_core_def)

lemma participant_core_facets:
  "participant_core k x \<Longrightarrow> participant_core k (update_facets kind sc uc ua us x)"
  by (cases kind)
    (auto simp: participant_core_def stop_speaking_def set_connected_def set_audio_def Let_def)

lemma participant_core_default:
  "participant_core [] (ParticipantState_default :: 'f::{linorder, zero_less_one} ParticipantState)"
  by (simp add: participant_core_def ParticipantState_default_def)

lemma participant_core_placeholder:
  "participant_core k (placeholder k :: 'f::{linorder, zero_less_one} ParticipantState)"
  by (simp add: participant_core_def ParticipantState_default_def placeholder_def)

lemma participants_ok_each:
  assumes "\<And>k x. (k, x) \<in> set participants \<Longrightarrow> participant_ok sp k (f x)"
    and "std_ok participants"
  shows "participants_ok sp (map (\<lambda>(k, x). (k, f x)) participants)"
  using assms by (auto simp: participants_ok_def)

lemma participants_ok_put:
  assumes "participants_ok sp participants" and "participant_ok sp k x"
  shows "participants_ok sp (std_put k x participants)"
  using assms set_std_put_subset [of k x participants] by (auto simp: participants_ok_def)

lemma participants_ok_lookup:
  assumes "participants_ok sp participants" and "map_of participants k = Some x"
  shows "participant_ok sp k x"
  using assms map_of_SomeD [OF assms(2)] by (auto simp: participants_ok_def)

lemma participants_ok_iff:
  "participants_ok sp participants \<longleftrightarrow>
     std_ok participants \<and> (\<forall>k x. (k, x) \<in> set participants \<longrightarrow> participant_ok sp k x)"
  by (auto simp: participants_ok_def)

lemma participants_ok_Nil [simp]: "participants_ok sp []"
  by (simp add: participants_ok_def)

section \<open>The invariant is kept\<close>

lemma dm_state_on_state [simp]:
  "dm_state (on_state f d) = f (dm_state d)"
  "dm_server_presence (on_state f d) = dm_server_presence d"
  "dm_participant_voice_sequences (on_state f d) = dm_participant_voice_sequences d"
  "dm_voice_generation (on_state f d) = dm_voice_generation d"
  "dm_last_connection_sequence (on_state f d) = dm_last_connection_sequence d"
  by (simp_all add: on_state_def)

lemma each_participant_fields [simp]:
  "dm_server_presence (each_participant f d) = dm_server_presence d"
  "dm_participant_voice_sequences (each_participant f d) = dm_participant_voice_sequences d"
  "dm_voice_generation (each_participant f d) = dm_voice_generation d"
  "dm_last_connection_sequence (each_participant f d) = dm_last_connection_sequence d"
  "dm_state (each_participant f d) =
     (dm_state d)\<lparr>dk_participants := map (\<lambda>(k, x). (k, f x)) (dk_participants (dm_state d))\<rparr>"
  by (simp_all add: each_participant_def)

lemma desktop_ok_ctor: "desktop_ok (DesktopModel_ctor half quarter)"
  by (simp add: DesktopModel_ctor_def desktop_ok_defs)

lemma desktop_ok_cleared:
  "desktop_ok (on_state (\<lambda>st. st\<lparr>dk_connection := Phase_signed_out\<rparr>) (clearAuthenticatedState d))"
  "desktop_ok (on_state (\<lambda>st. st\<lparr>dk_connection := Phase_connecting\<rparr>) (clearAuthenticatedState d))"
  by (simp_all add: clearAuthenticatedState_def desktop_ok_defs)

text \<open>Changes of parts of the state that the invariant does not speak of.\<close>

lemma directory_ok_cong:
  assumes "directory_ok sp st"
    and "fst ` set (dk_participants st') = fst ` set (dk_participants st)"
    and "dk_directory st' = dk_directory st" and "dk_membership st' = dk_membership st"
    and "dk_presence_version st' = dk_presence_version st"
    and "dk_presence_observed_at st' = dk_presence_observed_at st"
  shows "directory_ok sp st'"
  using assms(1) unfolding directory_ok_def assms(2-) .

lemma desktop_ok_cong:
  assumes "desktop_ok d"
    and "participants_ok (dm_server_presence d') (dk_participants (dm_state d'))"
    and "dm_server_presence d' = dm_server_presence d"
    and "fst ` set (dk_participants (dm_state d')) = fst ` set (dk_participants (dm_state d))"
    and "dk_directory (dm_state d') = dk_directory (dm_state d)"
    and "dk_membership (dm_state d') = dk_membership (dm_state d)"
    and "dk_presence_version (dm_state d') = dk_presence_version (dm_state d)"
    and "dk_presence_observed_at (dm_state d') = dk_presence_observed_at (dm_state d)"
    and "session_shown_ok (dm_state d')"
  shows "desktop_ok d'"
proof -
  have "directory_ok (dm_server_presence d') (dm_state d')"
    unfolding assms(3) by (rule directory_ok_cong [OF _ assms(4-8)]) (use assms(1) in \<open>simp add: desktop_ok_def\<close>)
  then show ?thesis using assms(2,9) by (simp add: desktop_ok_def)
qed

lemma desktop_ok_each:
  assumes "desktop_ok d"
    and "\<And>k x. participant_ok (dm_server_presence d) k x \<Longrightarrow> participant_ok (dm_server_presence d) k (f x)"
  shows "desktop_ok (each_participant f d)"
proof (rule desktop_ok_cong [OF assms(1)])
  show "participants_ok (dm_server_presence (each_participant f d))
      (dk_participants (dm_state (each_participant f d)))"
    using assms by (auto simp: desktop_ok_def participants_ok_def intro!: participants_ok_each)
qed (use assms(1) in \<open>simp_all add: desktop_ok_def session_shown_ok_def\<close>)

lemma clear_remote_ok: "desktop_ok d \<Longrightarrow> desktop_ok (clearRemoteTransportState d)"
  unfolding clearRemoteTransportState_def
  by (erule desktop_ok_each, rule participant_ok_refreshed)
    (simp add: participant_ok_def participant_core_def)

lemma new_generation_ok: "desktop_ok d \<Longrightarrow> desktop_ok (new_generation g d)"
  using clear_remote_ok [of "d\<lparr>dm_voice_generation := g\<rparr>"]
  by (auto simp: new_generation_def desktop_ok_def)

lemma update_voice_state_ok:
  assumes "desktop_ok d"
  shows "desktop_ok (updateVoiceState event d)"
proof -
  let ?d = "new_generation (ce_generation event) d"
  have ok: "desktop_ok ?d" by (rule new_generation_ok [OF assms])
  have "desktop_ok (on_state (\<lambda>st. phase_after (ce_state event)
      (st\<lparr>dk_diagnostics := (dk_diagnostics st)\<lparr>dg_voice_state := ce_state event\<rparr>\<rparr>))
      (?d\<lparr>dm_last_connection_sequence := ce_sequence event\<rparr>))"
    using ok by (cases "ce_state event"; intro desktop_ok_cong [OF ok])
      (auto simp: desktop_ok_def session_shown_ok_def)
  then show ?thesis using assms ok by (simp add: updateVoiceState_def Let_def)
qed

lemma applyMembership_cases:
  obtains (same) "applyMembership m d = on_state (\<lambda>st. st
      \<lparr>dk_administration := administrationFor m,
       dk_selected_channel := Some \<lparr>cx_scope = Team_scope, cx_node_id = id_value (mv_team_id m)\<rparr>,
       dk_membership := Some m\<rparr>) d"
    "\<forall>held. dk_membership (dm_state d) = Some held \<longrightarrow>
       id_value (mv_group_id held) = id_value (mv_group_id m)"
  | (changed) held where "dk_membership (dm_state d) = Some held"
    "id_value (mv_group_id held) \<noteq> id_value (mv_group_id m)"
    "applyMembership m d = d\<lparr>dm_state := (dm_state d)
      \<lparr>dk_directory := None, dk_presence_version := None, dk_presence_observed_at := None,
       dk_participants := [], dk_administration := administrationFor m,
       dk_selected_channel := Some \<lparr>cx_scope = Team_scope, cx_node_id = id_value (mv_team_id m)\<rparr>,
       dk_membership := Some m\<rparr>,
      dm_server_presence := [], dm_participant_voice_sequences := []\<rparr>"
proof (cases "\<exists>held. dk_membership (dm_state d) = Some held \<and>
    id_value (mv_group_id held) \<noteq> id_value (mv_group_id m)")
  case True
  then show thesis
    using changed by (auto simp: applyMembership_def clearRemoteTransportState_def each_participant_def
        on_state_def)
next
  case False
  then show thesis using same by (cases "dk_membership (dm_state d)") (auto simp: applyMembership_def)
qed

lemma apply_membership_ok:
  assumes "desktop_ok d"
  shows "desktop_ok (on_state (\<lambda>st. st\<lparr>dk_connection := phase\<rparr>) (applyMembership m d)) \<longleftrightarrow>
    phase \<noteq> Phase_signed_out"
proof (cases rule: applyMembership_cases [of m d])
  case same
  have "directory_ok (dm_server_presence d) ((dm_state d)
      \<lparr>dk_administration := administrationFor m,
       dk_selected_channel := Some \<lparr>cx_scope = Team_scope, cx_node_id = id_value (mv_team_id m)\<rparr>,
       dk_membership := Some m, dk_connection := phase\<rparr>)"
  proof (cases "dk_directory (dm_state d)")
    case None
    then show ?thesis using assms by (auto simp: desktop_ok_def directory_ok_def)
  next
    case (Some v)
    then obtain held where held: "dk_membership (dm_state d) = Some held"
      "dv_group_id v = id_value (mv_group_id held)"
      using assms by (auto simp: desktop_ok_def directory_ok_def split: option.splits)
    with same(2) Some assms show ?thesis by (clarsimp simp: desktop_ok_def directory_ok_def, force)
  qed
  then show ?thesis
    using assms unfolding same(1) by (simp add: desktop_ok_def session_shown_ok_def)
next
  case changed
  then show ?thesis by (simp add: desktop_ok_defs)
qed

lemma applied_membership_ok:
  assumes "desktop_ok d" and "dk_connection (dm_state d) \<noteq> Phase_signed_out"
  shows "desktop_ok (applyMembership m d)"
proof -
  have "dk_connection (dm_state (applyMembership m d)) = dk_connection (dm_state d)"
    by (cases rule: applyMembership_cases [of m d]) simp_all
  then have "on_state (\<lambda>st. st\<lparr>dk_connection := dk_connection (dm_state d)\<rparr>) (applyMembership m d) =
      applyMembership m d"
    by (simp add: on_state_def)
  then show ?thesis
    using apply_membership_ok [OF assms(1), of "dk_connection (dm_state d)" m] assms(2) by simp
qed

text \<open>Directory and presence.\<close>

lemma listed_core:
  fixes d :: "'f::{linorder, zero_less_one} DesktopModel"
  assumes "participants_ok sp (dk_participants (dm_state d))"
  shows "participant_core (pv_player_id source) (listed_participant d source)"
proof (cases "map_of (dk_participants (dm_state d)) (pv_player_id source)")
  case None
  then show ?thesis
    using participant_core_default [where 'f = 'f]
    by (simp add: listed_participant_def participant_core_def)
next
  case (Some x)
  then show ?thesis
    using participant_ok_core [OF participants_ok_lookup [OF assms Some]]
    by (simp add: listed_participant_def participant_core_def)
qed

lemma list_participants_ok:
  fixes d :: "'f::{linorder, zero_less_one} DesktopModel"
  assumes "participants_ok sp (dk_participants (dm_state d))"
    and "std_ok m" and "\<forall>(k, x) \<in> set m. participant_core k x"
  shows "std_ok (list_participants d sources m) \<and>
    (\<forall>(k, x) \<in> set (list_participants d sources m). participant_core k x) \<and>
    fst ` set (list_participants d sources m) = pv_player_id ` set sources \<union> fst ` set m"
  using assms(2,3)
proof (induction sources arbitrary: m)
  case (Cons source sources)
  note core = listed_core [OF assms(1), of source]
  have k: "pp_participant_id (listed_participant d source) = pv_player_id source"
    using core by (simp add: participant_core_def)
  let ?m = "std_emplace (pv_player_id source) (listed_participant d source) m"
  have "\<forall>(k, x) \<in> set ?m. participant_core k x"
    using Cons.prems core set_std_put_subset [of "pv_player_id source" _ m]
    by (auto simp: std_emplace_def split: if_splits)
  moreover have "fst ` set ?m = insert (pv_player_id source) (fst ` set m)"
    by (auto simp: std_emplace_def fst_set_std_put)
  ultimately show ?case using Cons.IH [of ?m] Cons.prems(1) by (auto simp: k)
qed simp

lemma apply_directory_ok:
  fixes d :: "'f::{linorder, zero_less_one} DesktopModel"
  assumes "desktop_ok d"
  shows "desktop_ok (snd (applyDirectory directory d))"
proof (cases "va_ok (fst (applyDirectory directory d))")
  case True
  let ?l = "list_participants d (dv_participants directory) []"
  have l: "std_ok ?l" "\<forall>(k, x) \<in> set ?l. participant_core k x"
      "fst ` set ?l = pv_player_id ` set (dv_participants directory)"
    using list_participants_ok [of "dm_server_presence d" d "[]" "dv_participants directory"] assms
    by (auto simp: desktop_ok_def)
  have "participants_ok [] (map (\<lambda>(k, x). (k, refreshParticipantDerivedState [] x)) ?l)"
    by (rule participants_ok_each [OF participant_ok_refreshed l(1)]) (use l(2) in auto)
  then show ?thesis
    using True assms l(3)
    by (auto simp: applyDirectory_def va_ok_def va_failure_def desktop_ok_def directory_ok_def
        session_shown_ok_def Let_def split: option.splits if_splits)
next
  case False
  then show ?thesis
    using assms by (auto simp: applyDirectory_def va_ok_def va_success_def Let_def split: option.splits)
qed

lemma take_entries_ok:
  assumes "std_ok sp" and "fst ` set sp \<subseteq> fst ` set participants"
  shows "std_ok (take_entries participants entries sp)"
    and "fst ` set (take_entries participants entries sp) \<subseteq> fst ` set participants"
  using assms
  by (induction participants entries sp rule: take_entries.induct) (auto simp: fst_set_std_put)

lemma apply_presence_ok:
  assumes "desktop_ok d"
  shows "desktop_ok (snd (applyPresence presence d))"
proof (cases "va_ok (fst (applyPresence presence d))")
  case True
  let ?p = "dk_participants (dm_state d)"
  let ?sp = "take_entries ?p (py_entries presence)
    (if py_mode presence = Presence_mode_snapshot then [] else dm_server_presence d)"
  have sp: "std_ok ?sp" "fst ` set ?sp \<subseteq> fst ` set ?p"
    using take_entries_ok [of "if py_mode presence = Presence_mode_snapshot then [] else dm_server_presence d" ?p]
      assms by (auto simp: desktop_ok_def directory_ok_def)
  have "participants_ok ?sp (map (\<lambda>(k, x). (k, refreshParticipantDerivedState ?sp x)) ?p)"
    by (rule participants_ok_each [OF participant_ok_refreshed])
      (use assms in \<open>auto simp: desktop_ok_def participants_ok_def dest: participant_ok_core\<close>)
  then show ?thesis
    using True assms sp
    by (auto simp: applyPresence_def va_ok_def va_failure_def desktop_ok_def directory_ok_def
        session_shown_ok_def Let_def split: option.splits if_splits)
next
  case False
  then show ?thesis
    using assms by (auto simp: applyPresence_def va_ok_def va_success_def Let_def split: option.splits if_splits)
qed

text \<open>Remote events and local settings.\<close>

lemma put_participant_ok:
  assumes "desktop_ok d" and "participant_ok (dm_server_presence d) k x"
    and "k \<in> fst ` set (dk_participants (dm_state d)) \<or> dk_directory (dm_state d) = None"
  shows "desktop_ok (on_state (\<lambda>st. st\<lparr>dk_participants := std_put k x (dk_participants (dm_state d))\<rparr>) d)"
proof -
  let ?p = "dk_participants (dm_state d)"
  have ok: "participants_ok (dm_server_presence d) (std_put k x ?p)"
    using assms(1,2) by (intro participants_ok_put) (simp_all add: desktop_ok_def)
  show ?thesis
  proof (cases "k \<in> fst ` set ?p")
    case True
    then have "fst ` set (std_put k x ?p) = fst ` set ?p"
      by (simp add: fst_set_std_put insert_absorb)
    with ok assms(1) show ?thesis
      by (intro desktop_ok_cong [OF assms(1)]) (simp_all add: desktop_ok_def session_shown_ok_def)
  next
    case False
    with assms(3) ok assms(1) show ?thesis
      by (auto simp: desktop_ok_def directory_ok_def session_shown_ok_def)
  qed
qed

lemma apply_remote_ok:
  fixes d :: "'f::{linorder, zero_less_one} DesktopModel"
  assumes "desktop_ok d"
  shows "desktop_ok (applyVoiceRemoteEvent event d)"
proof -
  let ?pid = "re_participant_id event"
  let ?d1 = "new_generation (re_generation event) d"
  have ok: "desktop_ok (?d1\<lparr>dm_participant_voice_sequences := sequences\<rparr>)" for sequences
    using new_generation_ok [OF assms, of "re_generation event"] by (simp add: desktop_ok_def)
  have put: "desktop_ok (on_state (\<lambda>st. st\<lparr>dk_participants := std_put ?pid
        (refreshParticipantDerivedState (dm_server_presence ?d1)
          (update_facets (re_kind event) (re_scope event) uc ua us x)) (dk_participants (dm_state ?d1))\<rparr>)
      (?d1\<lparr>dm_participant_voice_sequences := sequences\<rparr>))"
    if "participant_core ?pid x"
      "?pid \<in> fst ` set (dk_participants (dm_state ?d1)) \<or> dk_directory (dm_state ?d1) = None"
    for uc ua us x sequences
    using put_participant_ok [OF ok [of sequences]
        participant_ok_refreshed [OF participant_core_facets [OF that(1)]]] that(2) by simp
  have core: "participant_core ?pid x"
    if "map_of (dk_participants (dm_state ?d1)) ?pid = Some x" for x
    using participant_ok_core [OF participants_ok_lookup [OF _ that, of "dm_server_presence ?d1"]]
      ok by (simp add: desktop_ok_def)
  have key: "?pid \<in> fst ` set (dk_participants (dm_state ?d1))"
    if "map_of (dk_participants (dm_state ?d1)) ?pid = Some x" for x
    using map_of_SomeD [OF that] by force
  show ?thesis
    using assms ok put [OF core] put [OF participant_core_placeholder] key
    by (auto simp: applyVoiceRemoteEvent_def Let_def split: prod.split option.split)
qed

lemma modify_participant_ok:
  assumes "desktop_ok d"
    and "\<And>x. participant_ok (dm_server_presence d) k x \<Longrightarrow> participant_ok (dm_server_presence d) k (f x)"
  shows "desktop_ok (modify_participant k f d)"
  unfolding modify_participant_def
proof (rule desktop_ok_cong [OF assms(1)])
  show "participants_ok (dm_server_presence (on_state (\<lambda>st. st\<lparr>dk_participants :=
        map (\<lambda>(k', x). (k', if k' = k then f x else x)) (dk_participants st)\<rparr>) d))
      (dk_participants (dm_state (on_state (\<lambda>st. st\<lparr>dk_participants :=
        map (\<lambda>(k', x). (k', if k' = k then f x else x)) (dk_participants st)\<rparr>) d)))"
    using assms by (auto simp: desktop_ok_def participants_ok_iff)
qed (use assms(1) in \<open>simp_all add: desktop_ok_def session_shown_ok_def\<close>)

lemma participant_ok_local:
  assumes "participant_ok sp k x"
  shows "participant_ok sp k (x\<lparr>pp_muted := muted\<rparr>)"
    and "0 \<le> volume \<Longrightarrow> volume \<le> 1 \<Longrightarrow> participant_ok sp k (x\<lparr>pp_volume := volume\<rparr>)"
proof -
  have "refreshParticipantDerivedState sp (x\<lparr>pp_muted := muted\<rparr>) =
      (refreshParticipantDerivedState sp x)\<lparr>pp_muted := muted\<rparr>"
    "refreshParticipantDerivedState sp (x\<lparr>pp_volume := volume\<rparr>) =
      (refreshParticipantDerivedState sp x)\<lparr>pp_volume := volume\<rparr>"
    by (simp_all add: refreshParticipantDerivedState_def Let_def)
  then show "participant_ok sp k (x\<lparr>pp_muted := muted\<rparr>)"
    and "0 \<le> volume \<Longrightarrow> volume \<le> 1 \<Longrightarrow> participant_ok sp k (x\<lparr>pp_volume := volume\<rparr>)"
    using assms by (simp_all add: participant_ok_def)
qed

lemma desktop_after_ok:
  fixes d :: "'f::{linorder, zero_less_one} DesktopModel"
  assumes "desktop_ok d"
  shows "desktop_ok (desktop_after e d)"
proof -
  have quiet: "desktop_ok (on_state f d)"
    if "\<And>st. session_shown_ok st \<Longrightarrow> session_shown_ok (f st)"
      "\<And>st. dk_participants (f st) = dk_participants st" "\<And>st. dk_directory (f st) = dk_directory st"
      "\<And>st. dk_membership (f st) = dk_membership st"
      "\<And>st. dk_presence_version (f st) = dk_presence_version st"
      "\<And>st. dk_presence_observed_at (f st) = dk_presence_observed_at st" for f
    using assms that by (intro desktop_ok_cong [OF assms]) (simp_all add: desktop_ok_def)
  show ?thesis
  proof (cases e)
    case (Connection_succeeded m)
    have ready: "desktop_ok (on_state (\<lambda>st. st\<lparr>dk_connection := Phase_ready\<rparr>) (applyMembership m d))"
      using apply_membership_ok [OF assms] by simp
    have "desktop_ok (on_state (\<lambda>st. st\<lparr>dk_connection := Phase_ready, dk_diagnostics := (dk_diagnostics st)
        \<lparr>dg_voice_state := Transport_connected\<rparr>\<rparr>) (applyMembership m d))"
      using ready by (intro desktop_ok_cong [OF ready]) (simp_all add: desktop_ok_def session_shown_ok_def)
    then show ?thesis using Connection_succeeded assms by (simp add: connectionSucceeded_def)
  next
    case (Update_membership m)
    have "dk_connection (dm_state d) \<noteq> Phase_signed_out" if "dk_membership (dm_state d) = Some held" for held
      using assms that by (auto simp: desktop_ok_def session_shown_ok_def)
    then show ?thesis
      using Update_membership assms applied_membership_ok [OF assms, of m]
      by (auto simp: model_updateMembership_def split: option.splits)
  next
    case (Set_volume k volume)
    then show ?thesis
      using assms
      by (auto simp: model_setParticipantVolume_def validate_def valid_gain_def va_ok_def va_failure_def
          Command_ctor_def Let_def participant_ok_local split: if_splits intro!: modify_participant_ok)
  next
    case (Set_muted k muted)
    then show ?thesis
      using assms
      by (auto simp: model_setParticipantMuted_def Let_def participant_ok_local intro!: modify_participant_ok)
  next
    case (Connection_failed code diagnostic)
    then show ?thesis
      by (simp add: connectionFailed_def recordError_def clearAuthenticatedState_def desktop_ok_defs)
  next
    case Disconnected
    then show ?thesis
      by (simp add: model_disconnected_def clearAuthenticatedState_def desktop_ok_defs)
  next
    case Begin_connect
    then show ?thesis
      using assms
      by (simp add: beginConnect_def Let_def) (simp add: clearAuthenticatedState_def desktop_ok_defs)
  qed (use assms in \<open>auto simp: update_voice_state_ok apply_directory_ok apply_presence_ok
      apply_remote_ok beginDisconnect_def selectChannel_def transmissionStarted_def
      transmissionStopped_def replaceSettings_def recordError_def Let_def session_shown_ok_def
      intro!: quiet\<close>)
qed

lemma desktop_run_ok:
  fixes d :: "'f::{linorder, zero_less_one} DesktopModel"
  shows "desktop_ok d \<Longrightarrow> desktop_ok (desktop_run es d)"
  by (induction es arbitrary: d) (simp_all add: desktop_after_ok)

section \<open>Properties\<close>

lemma list_ex_scopes: "list_ex P all_scopes \<longleftrightarrow> (\<exists>sc. P sc)"
  by (auto simp: all_scopes_def) (metis VoiceScope.exhaust)

lemma participant_ok_shown:
  "participant_ok sp k x \<longleftrightarrow>
     pp_participant_id x = k \<and> (pp_audio_available x \<longleftrightarrow> (\<exists>sc. pp_audio_available_scopes x sc)) \<and>
     pp_presence x =
       (if map_of sp k = Some True \<or> (\<exists>sc. pp_connected_scopes x sc) then Presence_online
        else if map_of sp k = Some False then Presence_offline else Presence_unknown) \<and>
     (pp_speaking x \<longleftrightarrow> pp_speaking_scope x \<noteq> None) \<and> 0 \<le> pp_volume x \<and> pp_volume x \<le> 1"
  by (cases x) (auto simp: participant_ok_def refreshParticipantDerivedState_def Let_def list_ex_scopes
      split: option.splits)

text \<open>
  C20: what the desktop shows fits together. After any sequence of events of user, session and
  transport, it is ready only with a membership and signed out only without one; the administration
  offered is that of the membership's roles; a directory is that of the membership's group and its
  players are exactly the participants; every participant has audio exactly when some scope has it,
  is online exactly when the server says so or some scope is connected, offline only when the server
  says so, speaks exactly when it speaks in a scope, and has a volume between zero and one.
\<close>

theorem desktop_state_is_consistent:
  fixes half quarter :: "'f::{linorder, zero_less_one}"
  assumes "d = desktop_run es (DesktopModel_ctor half quarter)" and "st = dm_state d"
  shows "(dk_connection st = Phase_ready \<longrightarrow> dk_membership st \<noteq> None) \<and>
    (dk_connection st = Phase_signed_out \<longrightarrow> dk_membership st = None) \<and>
    dk_administration st = (case dk_membership st of
        None \<Rightarrow> AdministrationState_default | Some m \<Rightarrow> administrationFor m) \<and>
    (\<forall>v. dk_directory st = Some v \<longrightarrow> (\<exists>m. dk_membership st = Some m \<and>
        dv_group_id v = id_value (mv_group_id m)) \<and>
        fst ` set (dk_participants st) = pv_player_id ` set (dv_participants v)) \<and>
    (dk_directory st = None \<longrightarrow> dk_presence_version st = None) \<and>
    (\<forall>k x. (k, x) \<in> set (dk_participants st) \<longrightarrow>
       pp_participant_id x = k \<and> (pp_audio_available x \<longleftrightarrow> (\<exists>sc. pp_audio_available_scopes x sc)) \<and>
       pp_presence x =
         (if map_of (dm_server_presence d) k = Some True \<or> (\<exists>sc. pp_connected_scopes x sc)
          then Presence_online
          else if map_of (dm_server_presence d) k = Some False then Presence_offline
          else Presence_unknown) \<and>
       (pp_speaking x \<longleftrightarrow> pp_speaking_scope x \<noteq> None) \<and> 0 \<le> pp_volume x \<and> pp_volume x \<le> 1)"
proof -
  have ok: "desktop_ok d" unfolding assms(1) by (rule desktop_run_ok [OF desktop_ok_ctor])
  have "participant_ok (dm_server_presence d) k x" if "(k, x) \<in> set (dk_participants st)" for k x
    using ok that by (auto simp: assms(2) desktop_ok_def participants_ok_iff)
  then have parts: "\<forall>k x. (k, x) \<in> set (dk_participants st) \<longrightarrow>
       pp_participant_id x = k \<and> (pp_audio_available x \<longleftrightarrow> (\<exists>sc. pp_audio_available_scopes x sc)) \<and>
       pp_presence x =
         (if map_of (dm_server_presence d) k = Some True \<or> (\<exists>sc. pp_connected_scopes x sc)
          then Presence_online
          else if map_of (dm_server_presence d) k = Some False then Presence_offline
          else Presence_unknown) \<and>
       (pp_speaking x \<longleftrightarrow> pp_speaking_scope x \<noteq> None) \<and> 0 \<le> pp_volume x \<and> pp_volume x \<le> 1"
    unfolding participant_ok_shown by blast
  have dir: "(\<forall>v. dk_directory st = Some v \<longrightarrow> (\<exists>m. dk_membership st = Some m \<and>
        dv_group_id v = id_value (mv_group_id m)) \<and>
        fst ` set (dk_participants st) = pv_player_id ` set (dv_participants v)) \<and>
    (dk_directory st = None \<longrightarrow> dk_presence_version st = None)"
    using ok unfolding assms(2) desktop_ok_def directory_ok_def
    by (cases "dk_directory (dm_state d)"; cases "dk_membership (dm_state d)") simp_all
  have "session_shown_ok st" using ok by (simp add: assms(2) desktop_ok_def)
  with dir parts show ?thesis unfolding session_shown_ok_def by blast
qed

text \<open>What a transport event leaves alone.\<close>

definition held_documents ::
  "'f DesktopState \<Rightarrow> MembershipView option \<times> DirectoryView option \<times> u64 option" where
  "held_documents st = (dk_membership st, dk_directory st, dk_presence_version st)"

lemma phase_after_documents [simp]: "held_documents (phase_after v st) = held_documents st"
  by (cases v) (simp_all add: held_documents_def)

lemma new_generation_documents [simp]:
  "held_documents (dm_state (new_generation g d)) = held_documents (dm_state d)"
  by (simp add: new_generation_def clearRemoteTransportState_def held_documents_def)

lemma transport_documents:
  "held_documents (dm_state (updateVoiceState event d)) = held_documents (dm_state d)"
  "held_documents (dm_state (applyVoiceRemoteEvent event' d)) = held_documents (dm_state d)"
proof -
  have "held_documents (st\<lparr>dk_diagnostics := x\<rparr>) = held_documents st"
    "held_documents (st\<lparr>dk_participants := y\<rparr>) = held_documents st" for st :: "'a DesktopState" and x y
    by (simp_all add: held_documents_def)
  then show "held_documents (dm_state (updateVoiceState event d)) = held_documents (dm_state d)"
    and "held_documents (dm_state (applyVoiceRemoteEvent event' d)) = held_documents (dm_state d)"
    by (simp_all add: updateVoiceState_def applyVoiceRemoteEvent_def Let_def split: prod.split option.split)
qed

definition documents_advance :: "'f DesktopState \<Rightarrow> 'f DesktopState \<Rightarrow> bool" where
  "documents_advance st st' \<longleftrightarrow>
    (\<forall>m m'. dk_membership st = Some m \<and> dk_membership st' = Some m' \<longrightarrow>
      m' = m \<or> mv_version m < mv_version m') \<and>
    (\<forall>m m'. dk_membership st = Some m \<and> dk_membership st' = Some m' \<and>
      id_value (mv_group_id m) \<noteq> id_value (mv_group_id m') \<longrightarrow>
      dk_directory st' = None \<and> dk_presence_version st' = None \<and> dk_participants st' = []) \<and>
    (\<forall>v v'. dk_directory st = Some v \<and> dk_directory st' = Some v' \<longrightarrow>
      v' = v \<or> dv_version v < dv_version v' \<and> dk_presence_version st' = None) \<and>
    (\<forall>p p'. dk_presence_version st = Some p \<and> dk_presence_version st' = Some p' \<longrightarrow> p \<le> p')"

lemma documents_kept: "held_documents st' = held_documents st \<Longrightarrow> documents_advance st st'"
  by (auto simp: held_documents_def documents_advance_def)

lemma documents_cleared: "held_documents st' = (None, None, None) \<Longrightarrow> documents_advance st st'"
  by (auto simp: held_documents_def documents_advance_def)

lemma documents_advance_step:
  assumes "\<And>m. e \<noteq> Connection_succeeded m"
  shows "documents_advance (dm_state d) (dm_state (desktop_after e d))"
proof (cases e)
  case (Update_membership m)
  show ?thesis
    by (cases rule: applyMembership_cases [of m d])
      (auto simp: Update_membership model_updateMembership_def documents_advance_def not_le
        split: option.splits)
next
  case (Apply_directory directory)
  then show ?thesis
    by (auto simp: applyDirectory_def documents_advance_def not_le Let_def split: option.splits)
next
  case (Apply_presence presence)
  then show ?thesis
    by (auto simp: applyPresence_def documents_advance_def Let_def split: option.splits)
next
  case (Voice_state event)
  then show ?thesis by (simp add: documents_kept transport_documents)
next
  case (Remote_event event)
  then show ?thesis by (simp add: documents_kept transport_documents)
qed (use assms in \<open>auto simp: beginConnect_def connectionFailed_def model_disconnected_def
    clearAuthenticatedState_def recordError_def beginDisconnect_def selectChannel_def
    transmissionStarted_def transmissionStopped_def replaceSettings_def modify_participant_def
    model_setParticipantVolume_def model_setParticipantMuted_def Let_def held_documents_def
    intro: documents_kept documents_cleared\<close>)

text \<open>
  Memberships, directories and presence move forward only. An event that replaces the shown
  membership installs one of a greater version, unless it completes a new login; one that replaces
  the directory installs one of a greater version and forgets the presence; the presence version
  never decreases under a directory; and a change of group leaves nothing of the old group's
  directory, presence and participants.
\<close>

theorem desktop_versions_advance:
  fixes d :: "'f::{linorder, zero_less_one} DesktopModel"
  assumes "st = dm_state d" and "st' = dm_state (desktop_after e d)"
  shows "(\<forall>m m'. dk_membership st = Some m \<and> dk_membership st' = Some m' \<longrightarrow>
      m' = m \<or> mv_version m < mv_version m' \<or>
      e = Connection_succeeded m' \<and> dk_connection st = Phase_connecting) \<and>
    (\<forall>m m'. dk_membership st = Some m \<and> dk_membership st' = Some m' \<and>
      id_value (mv_group_id m) \<noteq> id_value (mv_group_id m') \<longrightarrow>
      dk_directory st' = None \<and> dk_presence_version st' = None \<and> dk_participants st' = []) \<and>
    (\<forall>v v'. dk_directory st = Some v \<and> dk_directory st' = Some v' \<longrightarrow>
      v' = v \<or> dv_version v < dv_version v' \<and> dk_presence_version st' = None) \<and>
    (\<forall>p p'. dk_presence_version st = Some p \<and> dk_presence_version st' = Some p' \<longrightarrow> p \<le> p')"
proof (cases "\<exists>m. e = Connection_succeeded m")
  case True
  then obtain m where e: "e = Connection_succeeded m" by blast
  show ?thesis
    unfolding assms
    by (cases rule: applyMembership_cases [of m d]) (auto simp: e connectionSucceeded_def)
next
  case False
  then have "documents_advance st st'" unfolding assms by (intro documents_advance_step) blast
  then show ?thesis unfolding documents_advance_def by blast
qed

end
