(* ===== verification/Desktop_Events.thy ===== *)
theory Desktop_Events
  imports Desktop_Properties
begin

text \<open>
  Remote voice events reach the desktop in any order. Whether a participant is connected or has audio
  in a scope is decided by the latest event about it, whatever the order of arrival; who speaks is
  not.
\<close>

section \<open>Facets\<close>

datatype RemoteFacet = Facet_connected | Facet_audio

fun facet_flags :: "RemoteFacet \<Rightarrow> 'f ParticipantState \<Rightarrow> VoiceScope \<Rightarrow> bool" where
  "facet_flags Facet_connected x = pp_connected_scopes x"
| "facet_flags Facet_audio x = pp_audio_available_scopes x"

fun facet_sequence :: "RemoteFacet \<Rightarrow> ParticipantVoiceSequences \<Rightarrow> VoiceScope \<Rightarrow> u64" where
  "facet_sequence Facet_connected q = sq_connected q"
| "facet_sequence Facet_audio q = sq_audio_available q"

text \<open>The events about a facet, and what they say of it.\<close>

fun facet_said :: "RemoteFacet \<Rightarrow> VoiceRemoteEventKind \<Rightarrow> bool option" where
  "facet_said Facet_connected Remote_participant_connected = Some True"
| "facet_said Facet_connected Remote_participant_disconnected = Some False"
| "facet_said Facet_audio Remote_audio_available = Some True"
| "facet_said Facet_audio Remote_speaker_started = Some True"
| "facet_said Facet_audio Remote_audio_unavailable = Some False"
| "facet_said Facet_audio Remote_participant_disconnected = Some False"
| "facet_said _ _ = None"

definition shown_facet :: "RemoteFacet \<Rightarrow> 'f DesktopModel \<Rightarrow> string \<Rightarrow> VoiceScope \<Rightarrow> bool" where
  "shown_facet f d p sc =
     (case map_of (dk_participants (dm_state d)) p of None \<Rightarrow> False | Some x \<Rightarrow> facet_flags f x sc)"

definition facet_seen :: "RemoteFacet \<Rightarrow> 'f DesktopModel \<Rightarrow> string \<Rightarrow> VoiceScope \<Rightarrow> u64" where
  "facet_seen f d p sc = facet_sequence f (sequences_of p d) sc"

definition is_about :: "RemoteFacet \<Rightarrow> string \<Rightarrow> VoiceScope \<Rightarrow> VoiceRemoteEvent \<Rightarrow> bool" where
  "is_about f p sc e \<longleftrightarrow>
     re_participant_id e = p \<and> re_scope e = sc \<and> facet_said f (re_kind e) \<noteq> None"

text \<open>A player whose events are not dropped.\<close>

definition may_be_shown :: "'f DesktopModel \<Rightarrow> string \<Rightarrow> bool" where
  "may_be_shown d p \<longleftrightarrow>
     p \<noteq> [] \<and> (map_of (dk_participants (dm_state d)) p \<noteq> None \<or> dk_directory (dm_state d) = None)"

section \<open>One event\<close>

lemma new_generation_same [simp]: "new_generation (dm_voice_generation d) d = d"
  by (simp add: new_generation_def)

lemma update_facets_flags:
  "facet_flags Facet_connected (update_facets kind sc uc ua us x) =
     (if uc then (case facet_said Facet_connected kind of
        None \<Rightarrow> pp_connected_scopes x | Some b \<Rightarrow> (pp_connected_scopes x)(sc := b))
      else pp_connected_scopes x)"
  "facet_flags Facet_audio (update_facets kind sc uc ua us x) =
     (if ua then (case facet_said Facet_audio kind of
        None \<Rightarrow> pp_audio_available_scopes x | Some b \<Rightarrow> (pp_audio_available_scopes x)(sc := b))
      else pp_audio_available_scopes x)"
  by (cases kind; simp add: Let_def set_connected_def set_audio_def stop_speaking_def)+

lemma concerns_said:
  "concerns_connected kind \<longleftrightarrow> facet_said Facet_connected kind \<noteq> None"
  "concerns_audio kind \<longleftrightarrow> facet_said Facet_audio kind \<noteq> None"
  by (cases kind; simp)+

lemma facet_flags_refresh [simp]:
  "facet_flags f (refreshParticipantDerivedState sp x) = facet_flags f x"
  by (cases f) simp_all

lemma facet_flags_placeholder [simp]: "facet_flags f (placeholder p) sc = False"
  by (cases f) (simp_all add: placeholder_def ParticipantState_default_def)

lemma advance_facet_eq:
  "advance_facet b e q =
     (b \<and> q (re_scope e) < re_sequence e,
      if b then q(re_scope e := max (re_sequence e) (q (re_scope e))) else q)"
  by (auto simp: advance_facet_def max_def fun_upd_idem)

text \<open>The facet an event may update: its new flag and its new sequence.\<close>

lemma apply_current_event:
  fixes d :: "'f::one DesktopModel"
  assumes "re_generation e = dm_voice_generation d" and "may_be_shown d (re_participant_id e)"
  defines "d' \<equiv> applyVoiceRemoteEvent e d"
  shows "dm_voice_generation d' = dm_voice_generation d"
    and "may_be_shown d p \<Longrightarrow> may_be_shown d' p"
    and "facet_seen f d' p sc =
      (if is_about f p sc e then max (re_sequence e) (facet_seen f d p sc) else facet_seen f d p sc)"
    and "shown_facet f d' p sc =
      (if is_about f p sc e \<and> facet_seen f d p sc < re_sequence e
       then facet_said f (re_kind e) = Some True else shown_facet f d p sc)"
proof -
  let ?pid = "re_participant_id e" and ?q = "sequences_of (re_participant_id e) d"
  obtain uc c where c: "advance_facet (concerns_connected (re_kind e)) e (sq_connected ?q) = (uc, c)"
    by fastforce
  obtain ua a where a: "advance_facet (concerns_audio (re_kind e)) e (sq_audio_available ?q) = (ua, a)"
    by fastforce
  obtain us k where k: "advance_facet (concerns_speaking (re_kind e)) e (sq_speaking ?q) = (us, k)"
    by fastforce
  have new: "uc \<longleftrightarrow> facet_said Facet_connected (re_kind e) \<noteq> None \<and>
        sq_connected ?q (re_scope e) < re_sequence e"
      "ua \<longleftrightarrow> facet_said Facet_audio (re_kind e) \<noteq> None \<and>
        sq_audio_available ?q (re_scope e) < re_sequence e"
    and c_at: "c s = (if s = re_scope e \<and> facet_said Facet_connected (re_kind e) \<noteq> None
        then max (re_sequence e) (sq_connected ?q s) else sq_connected ?q s)"
    and a_at: "a s = (if s = re_scope e \<and> facet_said Facet_audio (re_kind e) \<noteq> None
        then max (re_sequence e) (sq_audio_available ?q s) else sq_audio_available ?q s)" for s
    using c a unfolding advance_facet_eq concerns_said by auto
  let ?x = "case map_of (dk_participants (dm_state d)) ?pid of Some x \<Rightarrow> x | None \<Rightarrow> placeholder ?pid"
  let ?x' = "refreshParticipantDerivedState (dm_server_presence d)
    (update_facets (re_kind e) (re_scope e) uc ua us ?x)"
  let ?d2 = "d\<lparr>dm_participant_voice_sequences := std_put ?pid
    \<lparr>sq_connected = c, sq_audio_available = a, sq_speaking = k\<rparr> (dm_participant_voice_sequences d)\<rparr>"
  have d': "d' = (if \<not> uc \<and> \<not> ua \<and> \<not> us then ?d2
      else on_state (\<lambda>st. st\<lparr>dk_participants := std_put ?pid ?x' (dk_participants (dm_state d))\<rparr>) ?d2)"
    using assms(1,2) c a k
    by (auto simp: d'_def applyVoiceRemoteEvent_def may_be_shown_def Let_def split: option.splits)
  have q: "sequences_of p d' = (if p = ?pid
      then \<lparr>sq_connected = c, sq_audio_available = a, sq_speaking = k\<rparr> else sequences_of p d)" for p
    by (simp add: d' sequences_of_def)
  show "dm_voice_generation d' = dm_voice_generation d" by (simp add: d')
  show "may_be_shown d p \<Longrightarrow> may_be_shown d' p" by (auto simp: d' may_be_shown_def)
  show "facet_seen f d' p sc =
      (if is_about f p sc e then max (re_sequence e) (facet_seen f d p sc) else facet_seen f d p sc)"
    by (cases f) (auto simp: facet_seen_def is_about_def q c_at a_at)
  have flags: "facet_flags f ?x' sc = (if is_about f ?pid sc e \<and> facet_seen f d ?pid sc < re_sequence e
      then facet_said f (re_kind e) = Some True else facet_flags f ?x sc)"
    by (cases f) (auto simp: facet_seen_def is_about_def update_facets_flags [unfolded facet_flags.simps]
        new split: option.splits)
  have old: "shown_facet f d ?pid sc = facet_flags f ?x sc"
    by (simp add: shown_facet_def split: option.splits)
  show "shown_facet f d' p sc =
      (if is_about f p sc e \<and> facet_seen f d p sc < re_sequence e
       then facet_said f (re_kind e) = Some True else shown_facet f d p sc)"
  proof (cases "p = ?pid \<and> (uc \<or> ua \<or> us)")
    case True
    then have "shown_facet f d' p sc = facet_flags f ?x' sc"
      by (auto simp: d' shown_facet_def)
    with True flags old show ?thesis by simp
  next
    case False
    then have same: "shown_facet f d' p sc = shown_facet f d p sc"
      by (auto simp: d' shown_facet_def)
    moreover have "\<not> (is_about f p sc e \<and> facet_seen f d p sc < re_sequence e)"
      using False unfolding new by (cases f) (auto simp: is_about_def facet_seen_def)
    ultimately show ?thesis by auto
  qed
qed

section \<open>Runs of events\<close>

fun apply_events :: "VoiceRemoteEvent list \<Rightarrow> 'f::one DesktopModel \<Rightarrow> 'f DesktopModel" where
  "apply_events [] d = d"
| "apply_events (e # es) d = apply_events es (applyVoiceRemoteEvent e d)"

text \<open>
  What is shown of a facet is what the latest event about it said, and the sequence kept is that of
  this event.
\<close>

definition shows_latest :: "VoiceRemoteEvent set \<Rightarrow> 'f DesktopModel \<Rightarrow> bool" where
  "shows_latest seen d \<longleftrightarrow> (\<forall>f p sc.
     (\<forall>e \<in> seen. is_about f p sc e \<longrightarrow> re_sequence e \<le> facet_seen f d p sc) \<and>
     (facet_seen f d p sc = 0 \<or>
        (\<exists>e \<in> seen. is_about f p sc e \<and> re_sequence e = facet_seen f d p sc)) \<and>
     (shown_facet f d p sc \<longleftrightarrow> (\<exists>e \<in> seen. is_about f p sc e \<and>
        re_sequence e = facet_seen f d p sc \<and> facet_said f (re_kind e) = Some True)))"

lemma shows_latest_step:
  fixes d :: "'f::one DesktopModel"
  assumes "shows_latest seen d" and "re_generation e = dm_voice_generation d"
    and "may_be_shown d (re_participant_id e)"
    and "inj_on re_sequence (insert e seen)" and "0 < re_sequence e"
  shows "shows_latest (insert e seen) (applyVoiceRemoteEvent e d)"
  unfolding shows_latest_def
proof (intro allI)
  fix f p sc
  let ?d = "applyVoiceRemoteEvent e d"
  note applied = apply_current_event(3,4) [OF assms(2,3), of f p sc]
  have held: "\<forall>e \<in> seen. is_about f p sc e \<longrightarrow> re_sequence e \<le> facet_seen f d p sc"
    "facet_seen f d p sc = 0 \<or>
        (\<exists>e \<in> seen. is_about f p sc e \<and> re_sequence e = facet_seen f d p sc)"
    "shown_facet f d p sc \<longleftrightarrow> (\<exists>e \<in> seen. is_about f p sc e \<and>
        re_sequence e = facet_seen f d p sc \<and> facet_said f (re_kind e) = Some True)"
    using assms(1) unfolding shows_latest_def by blast+
  show "(\<forall>e' \<in> insert e seen. is_about f p sc e' \<longrightarrow> re_sequence e' \<le> facet_seen f ?d p sc) \<and>
     (facet_seen f ?d p sc = 0 \<or>
        (\<exists>e' \<in> insert e seen. is_about f p sc e' \<and> re_sequence e' = facet_seen f ?d p sc)) \<and>
     (shown_facet f ?d p sc \<longleftrightarrow> (\<exists>e' \<in> insert e seen. is_about f p sc e' \<and>
        re_sequence e' = facet_seen f ?d p sc \<and> facet_said f (re_kind e') = Some True))"
  proof (cases "is_about f p sc e")
    case False
    with held show ?thesis unfolding applied by auto
  next
    case about: True
    show ?thesis
    proof (cases "facet_seen f d p sc < re_sequence e")
      case True
      then have now: "facet_seen f ?d p sc = re_sequence e"
        "shown_facet f ?d p sc \<longleftrightarrow> facet_said f (re_kind e) = Some True"
        using about unfolding applied by simp_all
      have "re_sequence e' < re_sequence e" if "e' \<in> seen" "is_about f p sc e'" for e'
        using held(1) that True by (meson le_less_trans)
      with about show ?thesis unfolding now by (force simp: less_imp_le)
    next
      case False
      then have now: "facet_seen f ?d p sc = facet_seen f d p sc"
        "shown_facet f ?d p sc \<longleftrightarrow> shown_facet f d p sc"
        using about unfolding applied by (auto simp: max_def)
      have old: "e \<in> seen" if seq: "re_sequence e = facet_seen f d p sc"
      proof -
        obtain e0 where "e0 \<in> seen" "re_sequence e0 = re_sequence e"
          using held(2) seq assms(5) by auto
        then show ?thesis using inj_onD [OF assms(4), of e0 e] by auto
      qed
      have "re_sequence e \<le> facet_seen f d p sc" using False by simp
      then show ?thesis using held old unfolding now by blast
    qed
  qed
qed

lemma shows_latest_run:
  fixes d :: "'f::one DesktopModel"
  assumes "shows_latest seen d" and "inj_on re_sequence (seen \<union> set es)"
    and "\<forall>e \<in> set es. re_generation e = dm_voice_generation d \<and> 0 < re_sequence e \<and>
      may_be_shown d (re_participant_id e)"
  shows "shows_latest (seen \<union> set es) (apply_events es d)"
  using assms
proof (induction es arbitrary: d seen)
  case (Cons e es)
  have e: "re_generation e = dm_voice_generation d" "may_be_shown d (re_participant_id e)"
    "0 < re_sequence e" using Cons.prems(3) by simp_all
  have "inj_on re_sequence (insert e seen)"
    using Cons.prems(2) by (rule inj_on_subset) auto
  from shows_latest_step [OF Cons.prems(1) e(1,2) this e(3)]
  have "shows_latest (insert e seen) (applyVoiceRemoteEvent e d)" .
  moreover have "\<forall>e' \<in> set es. re_generation e' = dm_voice_generation (applyVoiceRemoteEvent e d) \<and>
      0 < re_sequence e' \<and> may_be_shown (applyVoiceRemoteEvent e d) (re_participant_id e')"
    using Cons.prems(3) apply_current_event(1,2) [OF e(1,2)] by simp
  ultimately show ?case
    using Cons.IH [of "insert e seen" "applyVoiceRemoteEvent e d"] Cons.prems(2) by simp
qed simp

lemma new_generation_fresh:
  assumes "dm_voice_generation d < g"
  shows "shows_latest {} (new_generation g d)" and "dm_voice_generation (new_generation g d) = g"
    and "may_be_shown (new_generation g d) p = may_be_shown d p"
proof -
  have lookup: "map_of (dk_participants (dm_state (new_generation g d))) p =
      map_option (\<lambda>x. refreshParticipantDerivedState (dm_server_presence d)
       (x\<lparr>pp_connected_scopes := (\<lambda>_. False), pp_audio_available_scopes := (\<lambda>_. False),
          pp_audio_available := False, pp_speaking := False, pp_speaking_scope := None\<rparr>))
       (map_of (dk_participants (dm_state d)) p)" for p
    using assms by (simp add: new_generation_def clearRemoteTransportState_def map_of_map)
  have "\<not> shown_facet f (new_generation g d) p sc" for f p sc
    unfolding shown_facet_def lookup
    by (cases f) (auto split: option.splits)
  moreover have "facet_seen f (new_generation g d) p sc = 0" for f p sc
    using assms by (cases f) (simp_all add: facet_seen_def sequences_of_def new_generation_def
        ParticipantVoiceSequences_default_def)
  ultimately show "shows_latest {} (new_generation g d)" by (simp add: shows_latest_def)
  show "dm_voice_generation (new_generation g d) = g"
    using assms by (simp add: new_generation_def clearRemoteTransportState_def)
  show "may_be_shown (new_generation g d) p = may_be_shown d p"
    unfolding may_be_shown_def lookup
    using assms by (simp add: new_generation_def clearRemoteTransportState_def)
qed

lemma first_event_of_generation:
  assumes "dm_voice_generation d < re_generation e" and "re_participant_id e \<noteq> []"
  shows "applyVoiceRemoteEvent e (new_generation (re_generation e) d) = applyVoiceRemoteEvent e d"
proof -
  have "\<not> re_generation e < dm_voice_generation d" using assms(1) by simp
  moreover have "new_generation (re_generation e) (new_generation (re_generation e) d) =
      new_generation (re_generation e) d"
    using new_generation_fresh(2) [OF assms(1)] new_generation_same [of "new_generation (re_generation e) d"]
    by simp
  ultimately show ?thesis
    using assms new_generation_fresh(2) [OF assms(1)]
    unfolding applyVoiceRemoteEvent_def by simp
qed

section \<open>Properties\<close>

text \<open>
  C30: late events do not matter. After the events of a new transport generation, in whatever order
  and however often they arrive, a listed participant is shown connected in a scope exactly when the
  latest of its events there that connects or disconnects it connects it, and with audio exactly
  when the latest that makes audio available or takes it away makes it available. What was shown of
  the previous generation plays no part.
\<close>

theorem remote_facets_show_latest:
  fixes d :: "'f::one DesktopModel"
  assumes "es \<noteq> []" and "dm_voice_generation d < g"
    and "\<forall>e \<in> set es. re_generation e = g \<and> 0 < re_sequence e \<and> may_be_shown d (re_participant_id e)"
    and "inj_on re_sequence (set es)"
    and "map_of (dk_participants (dm_state (apply_events es d))) p = Some x"
  shows "(pp_connected_scopes x sc \<longleftrightarrow>
      (\<exists>e \<in> set es. re_participant_id e = p \<and> re_scope e = sc \<and>
         re_kind e = Remote_participant_connected \<and>
         (\<forall>e' \<in> set es. is_about Facet_connected p sc e' \<longrightarrow> re_sequence e' \<le> re_sequence e))) \<and>
    (pp_audio_available_scopes x sc \<longleftrightarrow>
      (\<exists>e \<in> set es. re_participant_id e = p \<and> re_scope e = sc \<and>
         re_kind e \<in> {Remote_audio_available, Remote_speaker_started} \<and>
         (\<forall>e' \<in> set es. is_about Facet_audio p sc e' \<longrightarrow> re_sequence e' \<le> re_sequence e)))"
proof -
  obtain e0 es0 where es: "es = e0 # es0" using assms(1) by (cases es) auto
  have e0: "dm_voice_generation d < re_generation e0" "re_participant_id e0 \<noteq> []" "re_generation e0 = g"
    using assms(2,3) by (auto simp: es may_be_shown_def)
  have run: "apply_events es d = apply_events es (new_generation g d)"
    using first_event_of_generation [OF e0(1,2)] by (simp add: es e0(3))
  have "shows_latest ({} \<union> set es) (apply_events es (new_generation g d))"
    using assms(3,4) new_generation_fresh [OF assms(2)] by (intro shows_latest_run) simp_all
  then have latest: "shows_latest (set es) (apply_events es d)" by (simp add: run)
  have shown: "facet_flags f x sc \<longleftrightarrow>
      (\<exists>e \<in> set es. is_about f p sc e \<and> facet_said f (re_kind e) = Some True \<and>
         (\<forall>e' \<in> set es. is_about f p sc e' \<longrightarrow> re_sequence e' \<le> re_sequence e))" for f
  proof -
    have flags: "facet_flags f x sc = shown_facet f (apply_events es d) p sc"
      using assms(5) by (simp add: shown_facet_def)
    let ?n = "facet_seen f (apply_events es d) p sc"
    have bound: "\<forall>e \<in> set es. is_about f p sc e \<longrightarrow> re_sequence e \<le> ?n"
      and shown: "shown_facet f (apply_events es d) p sc \<longleftrightarrow> (\<exists>e \<in> set es. is_about f p sc e \<and>
        re_sequence e = ?n \<and> facet_said f (re_kind e) = Some True)"
      and kept: "?n = 0 \<or> (\<exists>e \<in> set es. is_about f p sc e \<and> re_sequence e = ?n)"
      using latest unfolding shows_latest_def by blast+
    have "re_sequence e = ?n" if "e \<in> set es" "is_about f p sc e"
      "\<forall>e' \<in> set es. is_about f p sc e' \<longrightarrow> re_sequence e' \<le> re_sequence e" for e
    proof (rule antisym)
      show "re_sequence e \<le> ?n" using bound that by blast
      show "?n \<le> re_sequence e" using kept that by auto
    qed
    then show ?thesis unfolding flags shown using bound by metis
  qed
  have said: "facet_said Facet_connected k = Some True \<longleftrightarrow> k = Remote_participant_connected"
    "facet_said Facet_audio k = Some True \<longleftrightarrow> k \<in> {Remote_audio_available, Remote_speaker_started}" for k
    by (cases k; simp)+
  have shown': "facet_flags f x sc \<longleftrightarrow>
      (\<exists>e \<in> set es. re_participant_id e = p \<and> re_scope e = sc \<and> facet_said f (re_kind e) = Some True \<and>
         (\<forall>e' \<in> set es. is_about f p sc e' \<longrightarrow> re_sequence e' \<le> re_sequence e))" for f
    unfolding shown by (rule bex_cong [OF refl]) (simp add: is_about_def, blast)
  show ?thesis
    using shown' [of Facet_connected] shown' [of Facet_audio] by (simp only: said facet_flags.simps)
qed

end
