(* ===== verification/Desktop_Presence.thy ===== *)
theory Desktop_Presence
  imports Desktop_Properties Directory_Properties
begin

text \<open>
  The presence the server keeps and the presence the desktop shows. The server answers with a
  snapshot and later with the changes after it (\<open>Directory_Service\<close>); the desktop lays what it is
  sent over what it holds (\<open>Desktop_Model\<close>).
\<close>

section \<open>From the server's answer to the client's view\<close>

fun view_mode :: "DirectoryPresenceMode \<Rightarrow> ClientPresenceMode" where
  "view_mode Mode_snapshot = Presence_mode_snapshot"
| "view_mode Mode_delta = Presence_mode_delta"

definition entry_view :: "DirectoryPresenceEntry \<Rightarrow> ClientPresenceEntry" where
  "entry_view e = \<lparr>pe_player_id = id_value (fst e), pe_online = (snd e = Online_state)\<rparr>"

definition presence_view :: "u64 \<Rightarrow> DirectoryPresenceSnapshot \<Rightarrow> DirectoryPresenceView" where
  "presence_view retry snap =
     \<lparr>py_version = ps_version snap, py_mode = view_mode (ps_mode snap),
      py_observed_at = ps_observed_at snap, py_entries = map entry_view (ps_entries snap),
      py_retry_after = retry\<rparr>"

lemma presence_view_fields [simp]:
  "py_version (presence_view r s) = ps_version s"
  "py_mode (presence_view r s) = view_mode (ps_mode s)"
  "py_entries (presence_view r s) = map entry_view (ps_entries s)"
  by (simp_all add: presence_view_def)

lemma id_value_inject [simp]: "id_value p = id_value q \<longleftrightarrow> p = q"
  by (cases p; cases q) simp

section \<open>Laying entries over the presence held\<close>

lemma map_of_take_entries:
  assumes "distinct (map fst es)" and "id_value p \<in> fst ` set participants"
  shows "map_of (take_entries participants (map entry_view es) sp) (id_value p) =
     (case map_of es p of Some st \<Rightarrow> Some (st = Online_state) | None \<Rightarrow> map_of sp (id_value p))"
  using assms
proof (induction es arbitrary: sp)
  case (Cons e es)
  obtain q st where e: "e = (q, st)" by fastforce
  have "map_of es q = None" using Cons.prems(1) by (simp add: e map_of_eq_None_iff)
  then show ?case using Cons by (auto simp: e entry_view_def split: option.splits)
qed simp

lemma std_ok_collect_changes: "std_ok latest \<Longrightarrow> std_ok (collect_changes states es latest)"
  by (induction states es latest rule: collect_changes.induct) simp_all

lemma std_ok_latest_changes: "std_ok latest \<Longrightarrow> std_ok (latest_changes states a rs latest)"
  by (induction states a rs latest rule: latest_changes.induct) (simp_all add: std_ok_collect_changes)

section \<open>One answer\<close>

lemma applied_presence:
  assumes "dk_directory (dm_state d) \<noteq> None" and "ps_version snap \<noteq> 0" and "std_ok (ps_entries snap)"
    and "case dk_presence_version (dm_state d) of
       None \<Rightarrow> ps_mode snap = Mode_snapshot | Some held \<Rightarrow> held < ps_version snap"
    and "id_value p \<in> fst ` set (dk_participants (dm_state d))"
  shows "map_of (dm_server_presence (snd (applyPresence (presence_view r snap) d))) (id_value p) =
      (case map_of (ps_entries snap) p of
         Some st \<Rightarrow> Some (st = Online_state)
       | None \<Rightarrow> if ps_mode snap = Mode_snapshot then None
           else map_of (dm_server_presence d) (id_value p))"
    and "dk_presence_version (dm_state (snd (applyPresence (presence_view r snap) d))) =
      Some (ps_version snap)"
    and "dk_directory (dm_state (snd (applyPresence (presence_view r snap) d))) \<noteq> None"
    and "fst ` set (dk_participants (dm_state (snd (applyPresence (presence_view r snap) d)))) =
      fst ` set (dk_participants (dm_state d))"
proof -
  let ?d' = "snd (applyPresence (presence_view r snap) d)"
  let ?sp = "if ps_mode snap = Mode_snapshot then [] else dm_server_presence d"
  have mode: "view_mode (ps_mode snap) = Presence_mode_snapshot \<longleftrightarrow> ps_mode snap = Mode_snapshot"
    "view_mode (ps_mode snap) = Presence_mode_delta \<longleftrightarrow> ps_mode snap \<noteq> Mode_snapshot"
    by (cases "ps_mode snap"; simp)+
  have applied: "dm_server_presence ?d' =
        take_entries (dk_participants (dm_state d)) (map entry_view (ps_entries snap)) ?sp \<and>
      dk_presence_version (dm_state ?d') = Some (ps_version snap) \<and>
      dk_directory (dm_state ?d') = dk_directory (dm_state d) \<and>
      fst ` set (dk_participants (dm_state ?d')) = fst ` set (dk_participants (dm_state d))"
  proof (cases "dk_presence_version (dm_state d)")
    case None
    then show ?thesis using assms(1,2,4) by (simp add: applyPresence_def Let_def mode)
  next
    case (Some a)
    then have "\<not> ps_version snap \<le> a" using assms(4) by simp
    then show ?thesis using assms(1,2) Some by (auto simp add: applyPresence_def Let_def mode)
  qed
  then show "map_of (dm_server_presence ?d') (id_value p) =
      (case map_of (ps_entries snap) p of
         Some st \<Rightarrow> Some (st = Online_state)
       | None \<Rightarrow> if ps_mode snap = Mode_snapshot then None
           else map_of (dm_server_presence d) (id_value p))"
    using map_of_take_entries [OF std_ok_distinct [OF assms(3)] assms(5), of ?sp]
    by (simp split: option.split)
  show "dk_presence_version (dm_state ?d') = Some (ps_version snap)"
    "dk_directory (dm_state ?d') \<noteq> None"
    "fst ` set (dk_participants (dm_state ?d')) = fst ` set (dk_participants (dm_state d))"
    using applied assms(1) by simp_all
qed

lemma ignored_presence:
  assumes "dk_presence_version (dm_state d) = Some (ps_version snap)"
  shows "snd (applyPresence (presence_view r snap) d) = d"
  using assms by (simp add: applyPresence_def Let_def)

text \<open>Nothing has changed since the version the client holds.\<close>

lemma no_news:
  assumes "revisions_ok v" and "p \<in> fst ` set (vp_states v)"
  shows "map_of (latest_changes (vp_states v) (vp_version v) (vp_revisions v) []) p = None"
proof -
  have "\<forall>r \<in> set (vp_revisions v). rv_version r \<le> vp_version v"
  proof
    fix r
    assume "r \<in> set (vp_revisions v)"
    then have "unat (rv_version r) \<in> set (map (\<lambda>r. unat (rv_version r)) (vp_revisions v))" by simp
    also have "\<dots> = {Suc (unat (vp_version v) - length (vp_revisions v)) ..< Suc (unat (vp_version v))}"
      using assms(1) by (simp only: revisions_ok_def set_upt)
    finally show "rv_version r \<le> vp_version v" by (simp add: word_le_nat_alt)
  qed
  then have "last_change p (vp_version v) (vp_revisions v) None = None"
    by (simp add: last_change_old)
  then show ?thesis
    using map_of_latest_changes [of "vp_revisions v" p "vp_states v" "vp_version v" "[]"] assms
    by (simp add: revisions_ok_def)
qed

text \<open>What voice events leave alone once the directory is known.\<close>

fun is_voice_event :: "'f DesktopEvent \<Rightarrow> bool" where
  "is_voice_event (Voice_state event) \<longleftrightarrow> True"
| "is_voice_event (Remote_event event) \<longleftrightarrow> True"
| "is_voice_event _ \<longleftrightarrow> False"

definition presence_held ::
  "'f DesktopModel \<Rightarrow> (string, bool) std_map \<times> u64 option \<times> bool \<times> string set" where
  "presence_held d =
     (dm_server_presence d, dk_presence_version (dm_state d), dk_directory (dm_state d) \<noteq> None,
      fst ` set (dk_participants (dm_state d)))"

lemma new_generation_presence [simp]: "presence_held (new_generation g d) = presence_held d"
  by (simp add: presence_held_def new_generation_def clearRemoteTransportState_def)

lemma phase_after_fields [simp]:
  "dk_presence_version (phase_after v st) = dk_presence_version st"
  "dk_directory (phase_after v st) = dk_directory st"
  "dk_participants (phase_after v st) = dk_participants st"
  by (cases v; simp)+

lemma voice_state_presence: "presence_held (updateVoiceState event d) = presence_held d"
proof -
  have "presence_held (on_state (\<lambda>st. phase_after v (st\<lparr>dk_diagnostics := g st\<rparr>))
      (d\<lparr>dm_last_connection_sequence := n\<rparr>)) = presence_held d" for v g n and d :: "'a DesktopModel"
    by (simp add: presence_held_def)
  then show ?thesis by (simp add: updateVoiceState_def Let_def)
qed

lemma remote_event_presence:
  fixes d :: "'f::one DesktopModel"
  assumes "dk_directory (dm_state d) \<noteq> None"
  shows "presence_held (applyVoiceRemoteEvent event d) = presence_held d"
proof -
  let ?pid = "re_participant_id event" and ?d1 = "new_generation (re_generation event) d"
  let ?q = "sequences_of ?pid ?d1"
  obtain uc c where c: "advance_facet (concerns_connected (re_kind event)) event (sq_connected ?q) = (uc, c)"
    by fastforce
  obtain ua a where a: "advance_facet (concerns_audio (re_kind event)) event (sq_audio_available ?q) = (ua, a)"
    by fastforce
  obtain us k where k: "advance_facet (concerns_speaking (re_kind event)) event (sq_speaking ?q) = (us, k)"
    by fastforce
  have same: "presence_held ?d1 = presence_held d" by simp
  then have known: "dk_directory (dm_state ?d1) \<noteq> None" using assms by (simp add: presence_held_def)
  have put: "fst ` set (std_put k x m) = fst ` set m" if "map_of m k = Some y"
    for k and x y :: "'f ParticipantState" and m
    using map_of_SomeD [OF that] by (auto simp: fst_set_std_put rev_image_eqI)
  show ?thesis
  proof (cases "?pid = [] \<or> re_generation event < dm_voice_generation d")
    case True
    then show ?thesis by (auto simp: applyVoiceRemoteEvent_def)
  next
    case False
    then have "presence_held (applyVoiceRemoteEvent event d) = presence_held ?d1"
      using known
      by (cases "map_of (dk_participants (dm_state ?d1)) ?pid"; cases "\<not> uc \<and> \<not> ua \<and> \<not> us")
        (simp_all add: applyVoiceRemoteEvent_def c a k presence_held_def put Let_def)
    then show ?thesis by simp
  qed
qed

lemma desktop_run_append: "desktop_run (xs @ ys) d = desktop_run ys (desktop_run xs d)"
  by (induction xs arbitrary: d) simp_all

lemma voice_events_presence:
  fixes d :: "'f::{linorder, zero_less_one} DesktopModel"
  assumes "\<forall>e \<in> set es. is_voice_event e" and "dk_directory (dm_state d) \<noteq> None"
  shows "presence_held (desktop_run es d) = presence_held d"
  using assms
proof (induction es arbitrary: d)
  case (Cons e es)
  have "presence_held (desktop_after e d) = presence_held d"
    using Cons.prems
    by (cases e) (simp_all add: voice_state_presence remote_event_presence)
  moreover from this have "dk_directory (dm_state (desktop_after e d)) \<noteq> None"
    using Cons.prems(2) by (simp add: presence_held_def)
  ultimately show ?case using Cons by simp
qed simp

text \<open>A participant of a consistent model.\<close>

lemma shown_presence:
  assumes "desktop_ok d" and "k \<in> fst ` set (dk_participants (dm_state d))"
    and "map_of (dm_server_presence d) k = Some online"
  shows "\<exists>x. map_of (dk_participants (dm_state d)) k = Some x \<and>
    pp_presence x = (if online \<or> (\<exists>sc. pp_connected_scopes x sc) then Presence_online
      else Presence_offline)"
proof -
  obtain x where x: "map_of (dk_participants (dm_state d)) k = Some x"
    using assms(2) by (metis map_of_eq_None_iff not_None_eq)
  then have "participant_ok (dm_server_presence d) k x"
    using assms(1) by (auto simp: desktop_ok_def participants_ok_def dest: map_of_SomeD)
  with x assms(3) show ?thesis by (auto simp: participant_ok_shown)
qed

lemma two_answers:
  fixes d :: "'f::{linorder, zero_less_one} DesktopModel"
  assumes "dk_directory (dm_state d) \<noteq> None" and "dk_presence_version (dm_state d) = None"
    and "id_value p \<in> fst ` set (dk_participants (dm_state d))"
    and "\<forall>e \<in> set voice. is_voice_event e"
    and "ps_mode held = Mode_snapshot" and "ps_version held \<noteq> 0" and "std_ok (ps_entries held)"
    and "ps_mode delta = Mode_delta" and "std_ok (ps_entries delta)"
    and "ps_version held \<le> ps_version delta"
    and "ps_version delta = ps_version held \<Longrightarrow> map_of (ps_entries delta) p = None"
    and "(case map_of (ps_entries delta) p of
        Some st \<Rightarrow> Some st | None \<Rightarrow> map_of (ps_entries held) p) = Some now"
  shows "map_of (dm_server_presence (desktop_run (Apply_presence (presence_view r1 held) # voice @
        [Apply_presence (presence_view r2 delta)]) d)) (id_value p) = Some (now = Online_state) \<and>
      id_value p \<in> fst ` set (dk_participants (dm_state (desktop_run
        (Apply_presence (presence_view r1 held) # voice @ [Apply_presence (presence_view r2 delta)]) d)))"
proof -
  let ?k = "id_value p"
  let ?d0 = "snd (applyPresence (presence_view r1 held) d)" let ?d1 = "desktop_run voice ?d0"
  have first: "map_of (dm_server_presence ?d0) ?k =
      map_option (\<lambda>st. st = Online_state) (map_of (ps_entries held) p)"
    "dk_presence_version (dm_state ?d0) = Some (ps_version held)" "dk_directory (dm_state ?d0) \<noteq> None"
    "?k \<in> fst ` set (dk_participants (dm_state ?d0))"
    using applied_presence [OF assms(1,6,7) _ assms(3)] assms(2,3,5)
    by (simp_all split: option.split)
  have "presence_held ?d1 = presence_held ?d0" by (rule voice_events_presence [OF assms(4) first(3)])
  then have second: "map_of (dm_server_presence ?d1) ?k =
      map_option (\<lambda>st. st = Online_state) (map_of (ps_entries held) p)"
    "dk_presence_version (dm_state ?d1) = Some (ps_version held)" "dk_directory (dm_state ?d1) \<noteq> None"
    "?k \<in> fst ` set (dk_participants (dm_state ?d1))"
    using first by (simp_all add: presence_held_def)
  show ?thesis
  proof (cases "ps_version delta = ps_version held")
    case True
    with ignored_presence [of ?d1 delta] second assms(11,12) show ?thesis
      by (simp add: desktop_run_append)
  next
    case False
    then have "ps_version held < ps_version delta" "ps_version delta \<noteq> 0"
      using assms(10) by auto
    with applied_presence [OF second(3) _ assms(9) _ second(4), of r2] second assms(8,12)
    show ?thesis by (auto simp: desktop_run_append split: option.splits)
  qed
qed

section \<open>Properties\<close>

text \<open>
  C19: the desktop shows the server's presence. A desktop that has the directory but no presence
  yet, that is given the server's snapshot and later the server's answer to what changed since,
  shows every participant visible on the server at the second answer online when the server holds
  it online or a voice room it is heard in says so, and offline otherwise, however many times the
  server observed the group before and between the two answers.
\<close>

theorem desktop_presence_follows_server:
  fixes half quarter :: "'f::{linorder, zero_less_one}"
  assumes "\<forall>c \<in> set (first # seen @ later). std_ok c"
    and "observe_all (first # seen) empty_presence = Inr v1" and "observe_all later v1 = Inr v2"
    and "presence_answer None t1 v1 = Inr held"
    and "presence_answer (Some (ps_version held)) t2 v2 = Inr delta"
    and "d = desktop_run es (DesktopModel_ctor half quarter)"
    and "dk_directory (dm_state d) \<noteq> None" and "dk_presence_version (dm_state d) = None"
    and "\<forall>e \<in> set voice. is_voice_event e"
    and "p \<in> fst ` set (vp_states v2)" and "id_value p \<in> fst ` set (dk_participants (dm_state d))"
    and "d' = desktop_run (Apply_presence (presence_view r1 held) # voice @
        [Apply_presence (presence_view r2 delta)]) d"
  shows "\<exists>x. map_of (dk_participants (dm_state d')) (id_value p) = Some x \<and>
      pp_presence x =
        (if map_of (vp_states v2) p = Some Online_state \<or> (\<exists>sc. pp_connected_scopes x sc)
         then Presence_online else Presence_offline)"
proof -
  note ok = observed_revisions_ok [OF assms(1-3)]
  have later: "\<forall>c \<in> set later. std_ok c" using assms(1) by simp
  note held = iffD1 [OF snapshot_answer assms(4)]
  have version: "ps_version held = vp_version v1" by (simp add: held)
  note delta = iffD1 [OF delta_answer assms(5) [unfolded version]]
  note overlay = presence_overlay [OF ok later assms(3) conjunct1 [OF delta] assms(10)]
  have nonzero: "vp_version v1 \<noteq> 0" and states: "std_ok (vp_states v1)"
    using ok by (auto simp: revisions_ok_def)
  obtain now where now: "map_of (vp_states v2) p = Some now"
    using assms(10) by (metis map_of_eq_None_iff not_None_eq)
  have shown: "map_of (dm_server_presence d') (id_value p) = Some (now = Online_state) \<and>
      id_value p \<in> fst ` set (dk_participants (dm_state d'))"
    unfolding assms(12)
    using overlay now nonzero states no_news [OF ok(2) assms(10)]
    by (intro two_answers [OF assms(7,8,11,9)])
      (simp_all add: held delta std_ok_latest_changes cong: option.case_cong)
  have "desktop_ok d'"
    unfolding assms(6,12) by (intro desktop_run_ok desktop_ok_ctor)
  from shown_presence [OF this conjunct2 [OF shown] conjunct1 [OF shown]] now show ?thesis by simp
qed

end
