(* ===== verification/Desktop_Examples.thy ===== *)
theory Desktop_Examples
  imports Desktop_Events Desktop_Presence
begin

text \<open>
  The desktop on concrete sessions: inputs at which the hypotheses of its properties hold, and
  sessions in which what is shown depends on the order in which events arrive.
\<close>

definition shown_membership :: "u64 \<Rightarrow> MembershipView" where
  "shown_membership v =
     \<lparr>mv_version = v, mv_hierarchy_id = StrongId ''h'', mv_player_id = StrongId ''alice'',
      mv_group_id = StrongId ''g'', mv_specialization_id = StrongId ''sp'',
      mv_team_id = StrongId ''t'', mv_role_ids = [StrongId ''Moderator''], mv_connected = True,
      mv_can_receive_voice = True, mv_transmit_muted = False\<rparr>"

definition shown_player :: "string \<Rightarrow> DirectoryParticipantView" where
  "shown_player p =
     \<lparr>pv_player_id = p, pv_display_name = p, pv_primary_team_id = ''t'', pv_public_role_ids = []\<rparr>"

definition shown_directory :: "u64 \<Rightarrow> string list \<Rightarrow> DirectoryView" where
  "shown_directory v ps =
     \<lparr>dv_version = v, dv_group_id = ''g'', dv_nodes = [], dv_public_roles = [],
      dv_participants = map shown_player ps\<rparr>"

definition remote_event ::
  "VoiceRemoteEventKind \<Rightarrow> VoiceScope \<Rightarrow> string \<Rightarrow> u64 \<Rightarrow> VoiceRemoteEvent" where
  "remote_event kind sc p n =
     \<lparr>re_kind = kind, re_scope = sc, re_participant_id = p, re_generation = 1, re_sequence = n\<rparr>"

text \<open>A new desktop that has logged in and received a directory.\<close>

definition new_desktop :: "nat DesktopModel" where
  "new_desktop = DesktopModel_ctor 0 0"

definition listed_desktop :: "string list \<Rightarrow> nat DesktopModel" where
  "listed_desktop ps = desktop_run
     [Begin_connect, Connection_succeeded (shown_membership 3), Apply_directory (shown_directory 1 ps)]
     new_desktop"

lemmas desktop_sample_defs = shown_membership_def shown_player_def shown_directory_def
  remote_event_def new_desktop_def listed_desktop_def DesktopModel_ctor_def
  SettingsState_default_def AudioEngineConfig_default_def AdministrationState_default_def
  DiagnosticsState_default_def ParticipantState_default_def ParticipantVoiceSequences_default_def

lemmas desktop_steps = beginConnect_def connectionSucceeded_def applyMembership_def
  administrationFor_def membership_hasRole_def clearAuthenticatedState_def clearRemoteTransportState_def
  applyDirectory_def listed_participant_def validate_def Command_ctor_def va_ok_def va_success_def
  va_failure_def refreshParticipantDerivedState_def each_participant_def on_state_def
  isSessionAvailable_def all_scopes_def std_emplace_def updateVoiceState_def new_generation_def
  applyVoiceRemoteEvent_def advance_facet_def sequences_of_def placeholder_def set_connected_def
  set_audio_def stop_speaking_def applyPresence_def

text \<open>The participant that a directory entry gives.\<close>

definition fresh_participant :: "string \<Rightarrow> nat ParticipantState" where
  "fresh_participant p = ParticipantState_default
     \<lparr>pp_participant_id := p, pp_display_name := p, pp_primary_team_id := ''t''\<rparr>"

lemma listed_desktop_shows:
  "dk_connection (dm_state (listed_desktop [''alice'', ''bob''])) = Phase_ready"
  "dk_membership (dm_state (listed_desktop [''alice'', ''bob''])) = Some (shown_membership 3)"
  "dk_directory (dm_state (listed_desktop [''alice'', ''bob''])) =
     Some (shown_directory 1 [''alice'', ''bob''])"
  "dk_presence_version (dm_state (listed_desktop [''alice'', ''bob''])) = None"
  "dk_participants (dm_state (listed_desktop [''alice'', ''bob''])) =
     [(''alice'', fresh_participant ''alice''), (''bob'', fresh_participant ''bob'')]"
  "dm_voice_generation (listed_desktop [''alice'', ''bob'']) = 0"
  by (simp_all add: desktop_sample_defs desktop_steps asciiLower_def fresh_participant_def)

theorem desktop_state_is_consistent_witness:
  "pv_player_id ` set (dv_participants (shown_directory 1 [''alice'', ''bob''])) = {''alice'', ''bob''} \<and>
   fst ` set (dk_participants (dm_state (listed_desktop [''alice'', ''bob'']))) = {''alice'', ''bob''} \<and>
   an_can_moderate (dk_administration (dm_state (listed_desktop [''alice'', ''bob'']))) \<and>
   \<not> an_can_administrate (dk_administration (dm_state (listed_desktop [''alice'', ''bob''])))"
proof -
  have "pv_player_id ` set (dv_participants (shown_directory 1 [''alice'', ''bob''])) = {''alice'', ''bob''}"
    by (simp add: shown_directory_def shown_player_def)
  moreover note desktop_state_is_consistent
    [OF listed_desktop_def [of "[''alice'', ''bob'']", unfolded new_desktop_def] refl]
  moreover have "an_can_moderate (administrationFor (shown_membership 3))"
    "\<not> an_can_administrate (administrationFor (shown_membership 3))"
    by code_simp+
  ultimately show ?thesis by (simp add: listed_desktop_shows(2,3))
qed

theorem desktop_versions_advance_witness:
  "dk_directory (dm_state (desktop_after (Apply_directory (shown_directory 2 [''alice'']))
     (listed_desktop [''alice'', ''bob'']))) = Some (shown_directory 2 [''alice'']) \<and>
   dk_presence_version (dm_state (desktop_after (Apply_directory (shown_directory 2 [''alice'']))
     (listed_desktop [''alice'', ''bob'']))) = None"
proof -
  have now: "dk_directory (dm_state (desktop_after (Apply_directory (shown_directory 2 [''alice'']))
      (listed_desktop [''alice'', ''bob'']))) = Some (shown_directory 2 [''alice''])"
    by (simp add: applyDirectory_def Let_def listed_desktop_shows(2,3))
      (simp add: shown_directory_def shown_membership_def word_le_nat_alt)
  have "shown_directory 2 [''alice''] \<noteq> shown_directory 1 [''alice'', ''bob'']"
    by (simp add: shown_directory_def)
  with desktop_versions_advance [OF refl refl, of "listed_desktop [''alice'', ''bob'']"
      "Apply_directory (shown_directory 2 [''alice''])"] now
  show ?thesis by (simp add: listed_desktop_shows(3))
qed

theorem remote_facets_show_latest_witness:
  "\<exists>x. map_of (dk_participants (dm_state (apply_events
       [remote_event Remote_participant_disconnected Group_scope ''bob'' 3,
        remote_event Remote_participant_connected Group_scope ''bob'' 2,
        remote_event Remote_speaker_started Team_scope ''bob'' 4]
       (listed_desktop [''alice'', ''bob''])))) ''bob'' = Some x \<and>
     \<not> pp_connected_scopes x Group_scope \<and> pp_audio_available_scopes x Team_scope"
proof -
  let ?es = "[remote_event Remote_participant_disconnected Group_scope ''bob'' 3,
      remote_event Remote_participant_connected Group_scope ''bob'' 2,
      remote_event Remote_speaker_started Team_scope ''bob'' 4]"
  let ?d = "listed_desktop [''alice'', ''bob'']"
  have hyps: "?es \<noteq> []" "dm_voice_generation ?d < 1"
    "\<forall>e \<in> set ?es. re_generation e = 1 \<and> 0 < re_sequence e \<and> may_be_shown ?d (re_participant_id e)"
    "inj_on re_sequence (set ?es)"
    by (simp_all add: listed_desktop_shows(5,6) may_be_shown_def remote_event_def)
  have "map_option (\<lambda>_. True) (map_of (dk_participants (dm_state (apply_events ?es ?d))) ''bob'') = Some True"
    by code_simp
  then obtain x where x: "map_of (dk_participants (dm_state (apply_events ?es ?d))) ''bob'' = Some x"
    by blast
  note shown = remote_facets_show_latest [OF hyps x]
  have "\<not> pp_connected_scopes x Group_scope"
    unfolding conjunct1 [OF shown] by (auto simp: remote_event_def is_about_def)
  moreover have "pp_audio_available_scopes x Team_scope"
    unfolding conjunct2 [OF shown] by (simp add: remote_event_def is_about_def)
  ultimately show ?thesis using x by blast
qed

theorem desktop_presence_follows_server_witness:
  "\<exists>v1 v2 held delta x.
     observe_all [[(StrongId ''alice'', Online_state), (StrongId ''bob'', Offline_state)]]
       empty_presence = Inr v1 \<and>
     observe_all [[(StrongId ''alice'', Online_state), (StrongId ''bob'', Online_state)]] v1 = Inr v2 \<and>
     presence_answer None 0 v1 = Inr held \<and>
     presence_answer (Some (ps_version held)) 1 v2 = Inr delta \<and>
     map_of (dk_participants (dm_state (desktop_run
       [Apply_presence (presence_view 5 held), Apply_presence (presence_view 5 delta)]
       (listed_desktop [''alice'', ''bob''])))) ''bob'' = Some x \<and>
     pp_presence x = Presence_online"
proof -
  let ?c1 = "[(StrongId ''alice'', Online_state), (StrongId ''bob'', Offline_state)]"
  let ?c2 = "[(StrongId ''alice'', Online_state), (StrongId ''bob'', Online_state)]"
  let ?v1 = "\<lparr>vp_version = 1, vp_initialized = True, vp_states = ?c1, vp_revisions = []\<rparr>"
  let ?v2 = "\<lparr>vp_version = 2, vp_initialized = True, vp_states = ?c2,
      vp_revisions = [\<lparr>rv_version = 2, rv_entries = [(StrongId ''bob'', Online_state)]\<rparr>]\<rparr>"
  let ?held = "\<lparr>ps_version = 1, ps_mode = Mode_snapshot, ps_observed_at = 0, ps_entries = ?c1\<rparr>"
  let ?delta = "\<lparr>ps_version = 2, ps_mode = Mode_delta, ps_observed_at = 1,
      ps_entries = [(StrongId ''bob'', Online_state)]\<rparr>"
  let ?d = "listed_desktop [''alice'', ''bob'']"
  have server: "observe_all [?c1] empty_presence = Inr ?v1" "observe_all [?c2] ?v1 = Inr ?v2"
    "presence_answer None 0 ?v1 = Inr ?held" "presence_answer (Some (ps_version ?held)) 1 ?v2 = Inr ?delta"
    by (simp_all add: observe_presence_def empty_presence_def changed_entries_def presence_answer_def
        snapshot_is_required_def maximum_presence_revisions_def Let_def word_le_nat_alt)
  have ok: "\<forall>c \<in> set (?c1 # [] @ [?c2]). std_ok c"
    by (simp add: std_ok_def less_StrongId_def)
  have d: "dk_directory (dm_state ?d) \<noteq> None" "dk_presence_version (dm_state ?d) = None"
    "StrongId ''bob'' \<in> fst ` set (vp_states ?v2)" "\<forall>e \<in> set []. is_voice_event e"
    "id_value (StrongId ''bob'' :: PlayerId) \<in> fst ` set (dk_participants (dm_state ?d))"
    by (simp_all add: listed_desktop_shows)
  have first: "observe_all (?c1 # []) empty_presence = Inr ?v1" by (rule server(1))
  from desktop_presence_follows_server [OF ok first server(2-4) listed_desktop_def [of "[''alice'', ''bob'']",
        unfolded new_desktop_def] d(1,2,4,3,5) refl, of 5 5]
  obtain x where x: "map_of (dk_participants (dm_state (desktop_run
       [Apply_presence (presence_view 5 ?held), Apply_presence (presence_view 5 ?delta)] ?d)))
       ''bob'' = Some x" "pp_presence x = Presence_online"
    by (auto simp del: desktop_run.simps)
  show ?thesis using server x by blast
qed

section \<open>Orders of arrival\<close>

text \<open>
  Who speaks does depend on the order of arrival. Each scope has its own event sequence, but the
  participant has a single speaking scope: of two speakers' events in two scopes the one that arrives
  last is shown, whichever is newer.
\<close>

theorem speaking_depends_on_order:
  "map_option pp_speaking_scope (map_of (dk_participants (dm_state (apply_events
       [remote_event Remote_speaker_started Team_scope ''bob'' 1,
        remote_event Remote_speaker_started Group_scope ''bob'' 2]
       (listed_desktop [''alice'', ''bob''])))) ''bob'') = Some (Some Group_scope)"
  "map_option pp_speaking_scope (map_of (dk_participants (dm_state (apply_events
       [remote_event Remote_speaker_started Group_scope ''bob'' 2,
        remote_event Remote_speaker_started Team_scope ''bob'' 1]
       (listed_desktop [''alice'', ''bob''])))) ''bob'') = Some (Some Team_scope)"
  by code_simp+

text \<open>
  A membership older than the one shown is installed when the log-in completes a second time while a
  voice event has put the connection back to connecting.
\<close>

theorem older_membership_is_installed:
  "map_option mv_version (dk_membership (dm_state (desktop_run
     [Voice_state \<lparr>ce_state = Transport_connecting, ce_generation = 1, ce_sequence = 1\<rparr>,
      Connection_succeeded (shown_membership 2)] (listed_desktop [''alice''])))) = Some 2"
  "map_option mv_version (dk_membership (dm_state (listed_desktop [''alice'']))) = Some 3"
  by code_simp+

text \<open>
  An event about a player the directory does not list yet is not shown, but it counts as seen: when
  the next directory lists the player, the event is lost, also if it is delivered again.
\<close>

theorem early_event_is_lost:
  "map_option (\<lambda>x. pp_connected_scopes x Team_scope) (map_of (dk_participants (dm_state (desktop_run
     [Remote_event (remote_event Remote_participant_connected Team_scope ''carol'' 1),
      Apply_directory (shown_directory 2 [''alice'', ''carol'']),
      Remote_event (remote_event Remote_participant_connected Team_scope ''carol'' 1)]
     (listed_desktop [''alice''])))) ''carol'') = Some False"
  "map_option (\<lambda>x. pp_connected_scopes x Team_scope) (map_of (dk_participants (dm_state (desktop_run
     [Apply_directory (shown_directory 2 [''alice'', ''carol'']),
      Remote_event (remote_event Remote_participant_connected Team_scope ''carol'' 1)]
     (listed_desktop [''alice''])))) ''carol'') = Some True"
  by code_simp+

text \<open>An event of the ended session that arrives late shows a participant while signed out.\<close>

theorem event_after_sign_out_is_shown:
  "dk_connection (dm_state (desktop_run
     [Disconnected, Remote_event (remote_event Remote_participant_connected Team_scope ''bob'' 9)]
     (listed_desktop [''alice'', ''bob'']))) = Phase_signed_out"
  "map fst (dk_participants (dm_state (desktop_run
     [Disconnected, Remote_event (remote_event Remote_participant_connected Team_scope ''bob'' 9)]
     (listed_desktop [''alice'', ''bob''])))) = [''bob'']"
  by code_simp+

text \<open>A voice room that connects while the session is being torn down makes the session ready again.\<close>

theorem disconnecting_becomes_ready:
  "dk_connection (dm_state (desktop_run
     [Begin_disconnect,
      Voice_state \<lparr>ce_state = Transport_connected, ce_generation = 1, ce_sequence = 1\<rparr>]
     (listed_desktop [''alice'']))) = Phase_ready"
  by code_simp

end
