(* ===== verification/Http_Server.thy ===== *)
theory Http_Server
  imports Control_Plane_Http
begin

text \<open>
  The HTTP connections of the control-plane executable
  (\<open>apps/control-plane/src/linux_http_server.cpp\<close>): reading a request from a socket, writing a
  response to it, and serving one connection. The listener and its workers are in
  \<open>Http_Listener\<close>.

  The socket is what its peer and the system do with it: a list of the results of \<open>recv\<close>, with a
  piece of any length as the bytes that have arrived, and a list of the results of \<open>send\<close>. When the
  list of \<open>recv\<close> ends, the peer has closed.
\<close>

section \<open>Strings\<close>

text \<open>\<open>std::string::find\<close> of a nonempty pattern, from a position on.\<close>

fun find_sub :: "string \<Rightarrow> string \<Rightarrow> nat option" where
  "find_sub pat [] = None"
| "find_sub pat (c # cs) =
     (if take (length pat) (c # cs) = pat then Some 0 else map_option Suc (find_sub pat cs))"

definition find_from :: "string \<Rightarrow> string \<Rightarrow> nat \<Rightarrow> nat option" where
  "find_from s pat pos = map_option (\<lambda>i. pos + i) (find_sub pat (drop pos s))"

definition crlf :: string where
  "crlf = [CHR 0x0D, CHR 0x0A]"

definition lowerAscii :: "string \<Rightarrow> string" where
  "lowerAscii value =
     map (\<lambda>c. if byte (CHR ''A'') \<le> byte c \<and> byte c \<le> byte (CHR ''Z'')
              then char_of (byte c - byte (CHR ''A'') + byte (CHR ''a'')) else c) value"

definition is_blank :: "char \<Rightarrow> bool" where
  "is_blank c \<longleftrightarrow> c = CHR '' '' \<or> c = CHR 0x09"

definition trim :: "string \<Rightarrow> string" where
  "trim value = rev (dropWhile is_blank (rev (dropWhile is_blank value)))"

section \<open>Responses\<close>

definition statusReason :: "nat \<Rightarrow> string" where
  "statusReason status =
     (if status = 200 then ''OK''
      else if status = 201 then ''Created''
      else if status = 304 then ''Not Modified''
      else if status = 400 then ''Bad Request''
      else if status = 401 then ''Unauthorized''
      else if status = 403 then ''Forbidden''
      else if status = 404 then ''Not Found''
      else if status = 409 then ''Conflict''
      else if status = 413 then ''Content Too Large''
      else if status = 429 then ''Too Many Requests''
      else if status = 500 then ''Internal Server Error''
      else if status = 502 then ''Bad Gateway''
      else if status = 503 then ''Service Unavailable''
      else ''Error'')"

definition protocolError :: "nat \<Rightarrow> string \<Rightarrow> HttpResponse" where
  "protocolError status code =
     \<lparr>hr_status_code = status,
      hr_headers =
        [(''cache-control'', ''no-store''),
         (''content-type'', ''application/json; charset=utf-8''),
         (''x-hvc-api-version'', ''v1'')],
      hr_body =
        ''{'' @ key ''api_version'' @ quoted ''v1'' @ '','' @ key ''error'' @ ''{'' @ key ''code'' @
        quoted code @ '','' @ key ''message'' @ quoted ''The HTTP request is invalid.'' @ ''}}''\<rparr>"

datatype SendEvent = Sent nat | Send_interrupted | Send_failed | Send_closed

text \<open>
  What was written, whether all of it was, and the events left. \<open>Sent n\<close> stands for a \<open>send\<close> that
  takes at least one and at most \<open>n\<close> bytes. A list that ends stands for a peer that takes nothing
  more until the timeout of the socket.
\<close>

fun sendAll :: "string \<Rightarrow> SendEvent list \<Rightarrow> string \<times> bool \<times> SendEvent list" where
  "sendAll [] events = ([], True, events)"
| "sendAll bytes [] = ([], False, [])"
| "sendAll bytes (Send_interrupted # events) = sendAll bytes events"
| "sendAll bytes (Send_failed # events) = ([], False, events)"
| "sendAll bytes (Send_closed # events) = ([], False, events)"
| "sendAll bytes (Sent n # events) =
     (let count = max 1 (min n (length bytes));
          (written, complete, left) = sendAll (drop count bytes) events
      in (take count bytes @ written, complete, left))"

definition header_line :: "string \<times> string \<Rightarrow> string" where
  "header_line h = fst h @ '': '' @ snd h @ crlf"

definition response_header :: "HttpResponse \<Rightarrow> string" where
  "response_header response =
     ''HTTP/1.1 '' @ decimal (hr_status_code response) @ '' '' @ statusReason (hr_status_code response) @
     crlf @ concat (map header_line (hr_headers response)) @
     ''content-length: '' @ decimal (length (hr_body response)) @ crlf @
     ''connection: close'' @ crlf @ crlf"

definition sendResponse :: "HttpResponse \<Rightarrow> SendEvent list \<Rightarrow> string \<times> bool \<times> SendEvent list" where
  "sendResponse response events =
     (let (head_written, complete, left) = sendAll (response_header response) events in
      if \<not> complete then (head_written, False, left)
      else
        (let (body_written, complete', left') = sendAll (hr_body response) left
         in (head_written @ body_written, complete', left')))"

section \<open>Requests\<close>

definition maximum_header_bytes :: nat where
  "maximum_header_bytes = 16 * 1024"

definition maximum_body_bytes :: nat where
  "maximum_body_bytes = 64 * 1024"

definition buffer_size :: nat where
  "buffer_size = 4096"

datatype SocketEvent = Arrived string | Interrupted | Read_failed

datatype ReadResult = Count string | Closed | Error_interrupted | Error_other

text \<open>\<open>recv\<close> with room for \<open>n\<close> bytes.\<close>

fun recv :: "nat \<Rightarrow> SocketEvent list \<Rightarrow> ReadResult \<times> SocketEvent list" where
  "recv n [] = (Closed, [])"
| "recv n (Interrupted # events) = (Error_interrupted, events)"
| "recv n (Read_failed # events) = (Error_other, events)"
| "recv n (Arrived bytes # events) =
     (if bytes = [] then (Closed, events)
      else if length bytes \<le> n then (Count bytes, events)
      else (Count (take n bytes), Arrived (drop n bytes) # events))"

fun event_size :: "SocketEvent \<Rightarrow> nat" where
  "event_size (Arrived bytes) = Suc (length bytes)"
| "event_size Interrupted = 1"
| "event_size Read_failed = 1"

definition events_size :: "SocketEvent list \<Rightarrow> nat" where
  "events_size events = sum_list (map event_size events)"

lemma events_size_simps [simp]:
  "events_size [] = 0" "events_size (e # es) = event_size e + events_size es"
  by (simp_all add: events_size_def)

lemma recv_shorter:
  assumes "recv n events = (r, events')" and "r \<noteq> Closed" and "0 < n"
  shows "events_size events' < events_size events"
  using assms by (cases "(n, events)" rule: recv.cases) (auto split: if_splits)

lemmas recv_decreases = recv_shorter [OF sym]

text \<open>The loop up to the end of the header section: what was received, and the end's position.\<close>

function read_head ::
  "string \<Rightarrow> SocketEvent list \<Rightarrow> HttpResponse + string \<times> nat \<times> SocketEvent list" where
  "read_head received events =
     (if maximum_header_bytes \<le> length received then Inl (protocolError 413 ''headers_too_large'')
      else
        (case recv buffer_size events of
           (Error_interrupted, events') \<Rightarrow> read_head received events'
         | (Error_other, events') \<Rightarrow> Inl (protocolError 400 ''request_read_failed'')
         | (Closed, events') \<Rightarrow> Inl (protocolError 400 ''incomplete_request'')
         | (Count bytes, events') \<Rightarrow>
             (case find_from (received @ bytes) (crlf @ crlf) 0 of
                Some header_end \<Rightarrow> Inr (received @ bytes, header_end, events')
              | None \<Rightarrow> read_head (received @ bytes) events')))"
  by pat_completeness auto
termination
  by (relation "measure (\<lambda>(received, events). events_size events)")
    (auto simp: buffer_size_def dest: recv_decreases)

text \<open>The loop over the header lines.\<close>

lemma find_sub_bound: "find_sub pat s = Some i \<Longrightarrow> i < length s \<and> take (length pat) (drop i s) = pat"
  by (induction pat s arbitrary: i rule: find_sub.induct) (auto split: if_splits)

function read_headers ::
  "string \<Rightarrow> nat \<Rightarrow> nat \<Rightarrow> (string, string) std_map \<Rightarrow>
   HttpResponse + (string, string) std_map" where
  "read_headers received header_end line_start headers =
     (if line_start < header_end
      then
        (case find_from received crlf line_start of
           None \<Rightarrow> Inl (protocolError 400 ''invalid_header'')
         | Some line_end \<Rightarrow>
             if header_end < line_end then Inl (protocolError 400 ''invalid_header'')
             else
               (let line = take (line_end - line_start) (drop line_start received) in
                case find_from line '':'' 0 of
                  None \<Rightarrow> Inl (protocolError 400 ''invalid_header'')
                | Some colon \<Rightarrow>
                    (let name = lowerAscii (trim (take colon line));
                         value = trim (drop (colon + 1) line)
                     in if name = [] \<or> std_contains headers name
                        then Inl (protocolError 400 ''duplicate_or_empty_header'')
                        else read_headers received header_end (line_end + 2)
                               (std_put name value headers))))
      else Inr headers)"
  by pat_completeness auto
termination
  by (relation "measure (\<lambda>(received, header_end, line_start, headers). header_end - line_start)")
    (auto simp: find_from_def)

text \<open>The request line: the method and the target.\<close>

definition read_request_line :: "string \<Rightarrow> HttpResponse + string \<times> string" where
  "read_request_line request_line =
     (case find_from request_line '' '' 0 of
        None \<Rightarrow> Inl (protocolError 400 ''invalid_request_line'')
      | Some first_space \<Rightarrow>
          (case find_from request_line '' '' (first_space + 1) of
             None \<Rightarrow> Inl (protocolError 400 ''invalid_request_line'')
           | Some second_space \<Rightarrow>
               if drop (second_space + 1) request_line \<noteq> ''HTTP/1.1''
               then Inl (protocolError 400 ''invalid_request_line'')
               else
                 (let verb = take first_space request_line;
                      target = take (second_space - first_space - 1) (drop (first_space + 1) request_line)
                  in if verb = [] \<or> target = [] \<or> hd target \<noteq> CHR ''/''
                     then Inl (protocolError 400 ''invalid_request_target'')
                     else Inr (verb, target))))"

text \<open>The length the headers announce.\<close>

definition content_length_of :: "HttpRequest \<Rightarrow> HttpResponse + nat" where
  "content_length_of request =
     (if header request ''transfer-encoding'' \<noteq> []
      then Inl (protocolError 400 ''transfer_encoding_not_supported'')
      else
        (let value = header request ''content-length'';
             parsed = (if value = [] then Some 0
               else case from_chars value of
                 Some (n, rest) \<Rightarrow> if rest = [] then Some (unat n) else None
               | None \<Rightarrow> None)
         in case parsed of
              None \<Rightarrow> Inl (protocolError 400 ''invalid_content_length'')
            | Some n \<Rightarrow>
                if maximum_body_bytes < n then Inl (protocolError 413 ''body_too_large'') else Inr n))"

function read_body ::
  "nat \<Rightarrow> string \<Rightarrow> SocketEvent list \<Rightarrow> HttpResponse + string" where
  "read_body total_size received events =
     (if total_size \<le> length received then Inr received
      else
        (case recv (min buffer_size (total_size - length received)) events of
           (Error_interrupted, events') \<Rightarrow> read_body total_size received events'
         | (Error_other, events') \<Rightarrow> Inl (protocolError 400 ''request_read_failed'')
         | (Closed, events') \<Rightarrow> Inl (protocolError 400 ''incomplete_body'')
         | (Count bytes, events') \<Rightarrow> read_body total_size (received @ bytes) events'))"
  by pat_completeness auto
termination
  by (relation "measure (\<lambda>(total_size, received, events). events_size events)")
    (auto simp: buffer_size_def dest: recv_decreases)

definition readRequest :: "SocketEvent list \<Rightarrow> HttpResponse + HttpRequest" where
  "readRequest events =
     throws_bind (read_head [] events) (\<lambda>(received, header_end, events').
       case find_from received crlf 0 of
         None \<Rightarrow> Inl (protocolError 400 ''invalid_request_line'')
       | Some request_line_end \<Rightarrow>
           if header_end < request_line_end then Inl (protocolError 400 ''invalid_request_line'')
           else
             throws_bind (read_request_line (take request_line_end received)) (\<lambda>(verb, target).
             throws_bind (read_headers received header_end (request_line_end + 2) []) (\<lambda>headers.
               let request = \<lparr>hq_method = verb, hq_target = target, hq_headers = headers, hq_body = []\<rparr>;
                   body_start = header_end + 4
               in throws_bind (content_length_of request) (\<lambda>content_length.
                  throws_bind (read_body (body_start + content_length) received events') (\<lambda>received'.
                    Inr (request\<lparr>hq_body := take content_length (drop body_start received')\<rparr>))))))"

section \<open>One connection\<close>

text \<open>
  What serving a connection leaves behind: the bytes written to it, whether it ended without an
  exception, and the state of the handler. \<open>timeouts\<close> tells whether \<open>setClientTimeouts\<close> returned.
\<close>

record 's ClientRun =
  cl_written :: string
  cl_complete :: bool
  cl_state :: 's

definition processClient ::
  "(HttpRequest \<Rightarrow> time_point \<Rightarrow> 's \<Rightarrow> HttpResponse \<times> 's) \<Rightarrow> time_point \<Rightarrow> bool \<Rightarrow>
   SocketEvent list \<Rightarrow> SendEvent list \<Rightarrow> 's \<Rightarrow> 's ClientRun" where
  "processClient handler now timeouts arriving sending s =
     (if \<not> timeouts then \<lparr>cl_written = [], cl_complete = False, cl_state = s\<rparr>
      else
        (case readRequest arriving of
           Inl response \<Rightarrow>
             (let (written, complete, left) = sendResponse response sending
              in \<lparr>cl_written = written, cl_complete = complete, cl_state = s\<rparr>)
         | Inr request \<Rightarrow>
             (let (response, s') = handler request now s;
                  (written, complete, left) = sendResponse response sending
              in \<lparr>cl_written = written, cl_complete = complete, cl_state = s'\<rparr>)))"

text \<open>The answer to a connection that finds the queue full; the reading side is shut down unread.\<close>

definition sendOverloadResponse :: "bool \<Rightarrow> SendEvent list \<Rightarrow> string \<times> bool" where
  "sendOverloadResponse shut_read sending =
     (if \<not> shut_read then ([], False)
      else
        (let (written, complete, left) = sendResponse (protocolError 503 ''server_overloaded'') sending
         in (written, complete)))"

end
