(* ===== verification/Http_Reading.thy ===== *)
theory Http_Reading
  imports Http_Server
begin

text \<open>
  What the connections of \<open>Http_Server\<close> do: a request is read whole however the network divides it,
  what is accepted is well formed and bounded, and an answer is written whole or cut off.
\<close>

declare read_head.simps [simp del] read_headers.simps [simp del] read_body.simps [simp del]

named_theorems http_defs

lemmas http_sizes [http_defs] = maximum_header_bytes_def maximum_body_bytes_def buffer_size_def

section \<open>Finding\<close>

lemma find_sub_fits:
  assumes "find_sub pat s = Some i"
  shows "i + length pat \<le> length s"
proof -
  note found = find_sub_bound [OF assms]
  have "length pat = min (length s - i) (length pat)"
    using arg_cong [OF conjunct2 [OF found], of length] by simp
  then show ?thesis using found by linarith
qed

lemma find_sub_exists:
  assumes "take (length pat) (drop i s) = pat" and "pat \<noteq> []"
  shows "find_sub pat s \<noteq> None"
  using assms
proof (induction pat s arbitrary: i rule: find_sub.induct)
  case (2 pat c cs)
  then show ?case by (cases i) auto
qed simp

lemma find_sub_append:
  assumes "find_sub pat s = Some i"
  shows "find_sub pat (s @ t) = Some i"
  using assms
proof (induction pat s arbitrary: i rule: find_sub.induct)
  case (2 pat c cs)
  show ?case
  proof (cases "take (length pat) (c # cs) = pat")
    case True
    then have "length pat \<le> length (c # cs)" by (metis length_take min.cobounded1 min_def nat_le_linear)
    then have "take (length pat) ((c # cs) @ t) = pat" using True by (simp only: take_append) simp
    with True 2 show ?thesis by auto
  next
    case False
    then obtain j where j: "find_sub pat cs = Some j" "i = Suc j" using 2(2) by auto
    then have "length pat \<le> length cs" using find_sub_fits [OF j(1)] by simp
    then have "take (length pat) ((c # cs) @ t) = take (length pat) (c # cs)"
      by (simp only: take_append) simp
    with False 2(1) [OF False j(1)] j(2) show ?thesis by auto
  qed
qed simp

lemma find_sub_short:
  assumes "find_sub pat (s @ t) = Some e" and "find_sub pat s = None" and "pat \<noteq> []"
  shows "length s < e + length pat"
proof (rule ccontr)
  assume "\<not> length s < e + length pat"
  then have "take (length pat) (drop e s) = take (length pat) (drop e (s @ t))"
    by simp
  also have "\<dots> = pat" using find_sub_bound [OF assms(1)] by simp
  finally show False using find_sub_exists [OF _ assms(3)] assms(2) by blast
qed

lemma find_sub_skip:
  assumes "c \<notin> set l"
  shows "find_sub (c # pat) (l @ t) = map_option (\<lambda>i. length l + i) (find_sub (c # pat) t)"
  using assms by (induction l) (cases "find_sub (c # pat) t"; auto)+

lemma find_sub_here: "pat \<noteq> [] \<Longrightarrow> find_sub pat (pat @ t) = Some 0"
  by (cases pat) simp_all

lemma find_char_first: "find_sub [c] s = Some i \<Longrightarrow> c \<notin> set (take i s) \<and> i < length s"
  by (induction "[c]" s arbitrary: i rule: find_sub.induct) (auto split: if_splits)

lemma find_from_0 [simp]: "find_from s pat 0 = find_sub pat s"
  by (simp add: find_from_def option.map_ident)

lemma find_from_append: "find_from (pre @ s) pat (length pre) = map_option (\<lambda>i. length pre + i) (find_sub pat s)"
  by (simp add: find_from_def)

section \<open>Pieces\<close>

text \<open>A connection that stays up: pieces that are not empty, and interrupted calls.\<close>

fun is_live :: "SocketEvent \<Rightarrow> bool" where
  "is_live (Arrived bytes) \<longleftrightarrow> bytes \<noteq> []"
| "is_live Interrupted \<longleftrightarrow> True"
| "is_live Read_failed \<longleftrightarrow> False"

fun bytes_of :: "SocketEvent list \<Rightarrow> string" where
  "bytes_of [] = []"
| "bytes_of (Arrived bytes # events) = bytes @ bytes_of events"
| "bytes_of (e # events) = bytes_of events"

lemma recv_live:
  assumes "\<forall>e \<in> set events. is_live e" and "0 < n" and "recv n events = (r, events')"
  shows "\<forall>e \<in> set events'. is_live e" and "r \<noteq> Error_other"
    and "r = Closed \<Longrightarrow> bytes_of events = []"
    and "r = Error_interrupted \<Longrightarrow> bytes_of events' = bytes_of events"
    and "r = Count bytes \<Longrightarrow> bytes @ bytes_of events' = bytes_of events"
  using assms by (cases "(n, events)" rule: recv.cases; auto split: if_splits)+

lemma recv_bound: "recv n events = (Count bytes, events') \<Longrightarrow> length bytes \<le> n"
  by (cases "(n, events)" rule: recv.cases) (auto split: if_splits)

lemma read_head_whole:
  assumes "\<forall>e \<in> set events. is_live e"
    and "find_sub (crlf @ crlf) (received @ bytes_of events) = Some header_end"
    and "header_end + 4 \<le> maximum_header_bytes" and "find_sub (crlf @ crlf) received = None"
  shows "\<exists>received' events'. read_head received events = Inr (received', header_end, events') \<and>
     received' @ bytes_of events' = received @ bytes_of events \<and>
     (\<forall>e \<in> set events'. is_live e)"
  using assms
proof (induction received events rule: read_head.induct)
  case (1 received events)
  obtain r events' where r: "recv buffer_size events = (r, events')" by fastforce
  note live = recv_live [OF "1.prems"(1) _ r]
  have small: "length received < maximum_header_bytes"
    using find_sub_short [OF "1.prems"(2,4)] "1.prems"(3) by (simp add: crlf_def)
  show ?case
  proof (cases r)
    case (Count bytes)
    have whole: "(received @ bytes) @ bytes_of events' = received @ bytes_of events"
      using live(5) [OF _ Count] by (simp add: buffer_size_def)
    show ?thesis
    proof (cases "find_sub (crlf @ crlf) (received @ bytes)")
      case None
      then show ?thesis
        using "1.IH"(1) [OF _ r [symmetric] Count] small live(1) whole "1.prems"(2,3) r Count
        by (simp add: read_head.simps [of received] buffer_size_def)
    next
      case (Some e)
      then have "e = header_end"
        using find_sub_append [OF Some, of "bytes_of events'"] whole "1.prems"(2) by simp
      then show ?thesis
        using small live(1) whole r Count Some
        by (simp add: read_head.simps [of received] buffer_size_def)
    qed
  next
    case Closed
    then have "bytes_of events = []" using live(3) by (simp add: buffer_size_def)
    then show ?thesis using "1.prems"(2,4) by simp
  next
    case Error_interrupted
    then show ?thesis
      using "1.IH"(2) [OF _ r [symmetric] Error_interrupted] small live(1,4) "1.prems"(2-4) r
      by (simp add: read_head.simps [of received] buffer_size_def)
  next
    case Error_other
    then show ?thesis using live(2) by (simp add: buffer_size_def)
  qed
qed

lemma read_body_whole:
  assumes "\<forall>e \<in> set events. is_live e" and "total_size \<le> length (received @ bytes_of events)"
  shows "\<exists>received' left. read_body total_size received events = Inr received' \<and> total_size \<le> length received' \<and>
     received' @ left = received @ bytes_of events"
  using assms
proof (induction total_size received events rule: read_body.induct)
  case (1 total_size received events)
  let ?n = "min buffer_size (total_size - length received)"
  obtain r events' where r: "recv ?n events = (r, events')" by fastforce
  show ?case
  proof (cases "total_size \<le> length received")
    case True
    then show ?thesis by (auto simp: read_body.simps [of total_size])
  next
    case more: False
    then have n: "0 < ?n" by (simp add: buffer_size_def)
    note live = recv_live [OF "1.prems"(1) n r]
    show ?thesis
    proof (cases r)
      case (Count bytes)
      have "(received @ bytes) @ bytes_of events' = received @ bytes_of events"
        using live(5) [OF Count] by simp
      then show ?thesis
        using "1.IH"(1) [OF more r [symmetric] Count] more live(1) "1.prems"(2) r Count
        by (simp add: read_body.simps [of total_size received events])
    next
      case Closed
      then show ?thesis using live(3) more "1.prems"(2) by simp
    next
      case Error_interrupted
      then show ?thesis
        using "1.IH"(2) [OF more r [symmetric] Error_interrupted] more live(1,4) "1.prems"(2) r
        by (simp add: read_body.simps [of total_size received events])
    next
      case Error_other
      then show ?thesis using live(2) by simp
    qed
  qed
qed

end
