(* ===== verification/Http_Connections.thy ===== *)
theory Http_Connections
  imports Http_Reading
begin

text \<open>
  A request written by a client and read by the server, what the server accepts at all, and the
  answer of one connection.
\<close>

section \<open>A request on the wire\<close>

definition request_line :: "HttpRequest \<Rightarrow> string" where
  "request_line r = hq_method r @ '' '' @ hq_target r @ '' HTTP/1.1''"

definition request_head :: "HttpRequest \<Rightarrow> string" where
  "request_head r = request_line r @ crlf @ concat (map header_line (hq_headers r)) @ crlf"

definition request_text :: "HttpRequest \<Rightarrow> string" where
  "request_text r = request_head r @ hq_body r"

definition one_line :: "string \<Rightarrow> bool" where
  "one_line s \<longleftrightarrow> CHR 0x0D \<notin> set s"

definition header_ok :: "string \<times> string \<Rightarrow> bool" where
  "header_ok h \<longleftrightarrow>
     fst h \<noteq> [] \<and> one_line (fst h) \<and> CHR '':'' \<notin> set (fst h) \<and> lowerAscii (fst h) = fst h \<and>
     trim (fst h) = fst h \<and> one_line (snd h) \<and> trim (snd h) = snd h"

definition request_ok :: "HttpRequest \<Rightarrow> bool" where
  "request_ok r \<longleftrightarrow>
     hq_method r \<noteq> [] \<and> one_line (hq_method r) \<and> CHR '' '' \<notin> set (hq_method r) \<and>
     hq_target r \<noteq> [] \<and> hd (hq_target r) = CHR ''/'' \<and> one_line (hq_target r) \<and>
     CHR '' '' \<notin> set (hq_target r) \<and>
     std_ok (hq_headers r) \<and> (\<forall>h \<in> set (hq_headers r). header_ok h) \<and>
     header r ''transfer-encoding'' = [] \<and>
     header r ''content-length'' = (if hq_body r = [] then [] else decimal (length (hq_body r))) \<and>
     length (hq_body r) \<le> maximum_body_bytes"

section \<open>Lines\<close>

lemma take_crlf: "take 2 (c # s) = crlf \<longleftrightarrow> c = CHR 0x0D \<and> s \<noteq> [] \<and> hd s = CHR 0x0A"
  by (cases s) (auto simp: crlf_def numeral_2_eq_2)

lemma find_line_end:
  assumes "one_line l"
  shows "find_sub crlf (l @ crlf @ t) = Some (length l)"
  using find_sub_skip [of "CHR 0x0D" l "[CHR 0x0A]" "crlf @ t"] assms
  by (simp add: one_line_def crlf_def)

text \<open>The blank line after lines that are not empty.\<close>

lemma find_blank_line:
  assumes "\<forall>l \<in> set ls. one_line l \<and> l \<noteq> []" and "ls \<noteq> []"
  shows "find_sub (crlf @ crlf) (concat (map (\<lambda>l. l @ crlf) ls) @ crlf @ t) =
     Some (length (concat (map (\<lambda>l. l @ crlf) ls)) - 2)"
  using assms
proof (induction ls)
  case (Cons l ls)
  let ?rest = "concat (map (\<lambda>l. l @ crlf) ls) @ crlf @ t"
  have skip: "find_sub (crlf @ crlf) (l @ crlf @ ?rest) =
      map_option (\<lambda>i. length l + i) (find_sub (crlf @ crlf) (crlf @ ?rest))"
    using find_sub_skip [of "CHR 0x0D" l "[CHR 0x0A, CHR 0x0D, CHR 0x0A]" "crlf @ ?rest"] Cons.prems(1)
    by (simp add: one_line_def crlf_def)
  show ?case
  proof (cases ls)
    case Nil
    then show ?thesis using skip by (simp add: crlf_def)
  next
    case (Cons l' ls')
    then obtain c cs where "l' = c # cs" "c \<noteq> CHR 0x0D"
      using Cons.prems(1) by (cases l') (auto simp: one_line_def)
    then have "find_sub (crlf @ crlf) (crlf @ ?rest) =
        map_option (\<lambda>i. 2 + i) (find_sub (crlf @ crlf) ?rest)"
      by (cases "find_sub (crlf @ crlf) ?rest") (auto simp: Cons crlf_def)
    moreover have "2 \<le> length (concat (map (\<lambda>l. l @ crlf) ls))"
      by (simp add: Cons crlf_def)
    ultimately show ?thesis using skip Cons.IH Cons.prems(1) Cons by (simp add: crlf_def)
  qed
qed simp

lemma header_line_eq: "header_line h = (fst h @ '': '' @ snd h) @ crlf"
  by (simp add: header_line_def)

lemma map_header_line:
  "map header_line hs = map (\<lambda>l. l @ crlf) (map (\<lambda>h. fst h @ '': '' @ snd h) hs)"
  by (simp add: header_line_def)

lemma header_line_ok: "header_ok h \<Longrightarrow> one_line (fst h @ '': '' @ snd h)"
  by (simp add: header_ok_def one_line_def)

lemma trim_blank: "trim (CHR '' '' # s) = trim s"
  by (simp add: trim_def is_blank_def)

lemma header_line_parts:
  assumes "header_ok h"
  shows "find_from (fst h @ '': '' @ snd h) '':'' 0 = Some (length (fst h))"
    and "lowerAscii (trim (take (length (fst h)) (fst h @ '': '' @ snd h))) = fst h"
    and "trim (drop (length (fst h) + 1) (fst h @ '': '' @ snd h)) = snd h"
  using assms find_sub_skip [of "CHR '':''" "fst h" "[]" "'': '' @ snd h"]
  by (simp_all add: header_ok_def trim_blank)

section \<open>Reading what was written\<close>

lemma std_put_last:
  assumes "\<forall>k' \<in> fst ` set m. k' < k"
  shows "std_put k v m = m @ [(k, v)]"
  using assms by (induction k v m rule: std_put.induct) auto

lemma std_ok_append:
  "std_ok (m @ hs) \<longleftrightarrow> std_ok m \<and> std_ok hs \<and> (\<forall>k \<in> fst ` set m. \<forall>k' \<in> fst ` set hs. k < k')"
  by (auto simp: std_ok_def sorted_wrt_append)

lemma read_headers_written:
  assumes "\<forall>h \<in> set hs. header_ok h" and "std_ok (m @ hs)" and "2 \<le> length pre"
    and "received = pre @ concat (map header_line hs) @ crlf @ t"
    and "header_end = length (pre @ concat (map header_line hs)) - 2"
  shows "read_headers received header_end (length pre) m = Inr (m @ hs)"
  using assms
proof (induction hs arbitrary: pre m)
  case Nil
  then have "\<not> length pre < header_end" by simp
  then show ?case by (subst read_headers.simps) simp
next
  case (Cons h hs)
  let ?line = "fst h @ '': '' @ snd h"
  let ?rest = "concat (map header_line hs) @ crlf @ t"
  have h: "header_ok h" using Cons.prems(1) by simp
  have whole: "received = pre @ ?line @ crlf @ ?rest" using Cons.prems(4) by (simp add: header_line_eq [of h])
  have found: "find_from received crlf (length pre) = Some (length pre + length ?line)"
    using find_line_end [OF header_line_ok [OF h], of ?rest] unfolding whole
    by (simp add: find_from_append del: append_assoc)
  have header_end: "header_end = length pre + length ?line + length (concat (map header_line hs))"
    using Cons.prems(5) by (simp add: header_line_eq [of h] crlf_def)
  have line: "take (length pre + length ?line - length pre) (drop (length pre) received) = ?line"
    by (simp add: whole)
  have fresh: "\<not> std_contains m (fst h)" "std_put (fst h) (snd h) m = m @ [h]"
    using Cons.prems(2) std_put_last [of m "fst h" "snd h"] by (auto simp: std_ok_append)
  have "read_headers received header_end (length (pre @ ?line @ crlf)) (m @ [h]) = Inr ((m @ [h]) @ hs)"
  proof (rule Cons.IH)
    show "\<forall>h \<in> set hs. header_ok h" using Cons.prems(1) by simp
    show "std_ok ((m @ [h]) @ hs)" using Cons.prems(2) by simp
    show "2 \<le> length (pre @ ?line @ crlf)" by (simp add: crlf_def)
    show "received = (pre @ ?line @ crlf) @ concat (map header_line hs) @ crlf @ t" by (simp add: whole)
    show "header_end = length ((pre @ ?line @ crlf) @ concat (map header_line hs)) - 2"
      by (simp add: header_end crlf_def)
  qed
  moreover have "fst h \<noteq> []" using h by (simp add: header_ok_def)
  ultimately show ?case
    using found header_end line fresh header_line_parts [OF h]
    by (subst read_headers.simps) (simp add: crlf_def Let_def)
qed

lemma request_line_read:
  assumes "request_ok r"
  shows "read_request_line (request_line r) = Inr (hq_method r, hq_target r)"
proof -
  have "find_from (request_line r) '' '' 0 = Some (length (hq_method r))"
    using assms find_sub_skip [of "CHR '' ''" "hq_method r" "[]" "'' '' @ hq_target r @ '' HTTP/1.1''"]
    by (simp add: request_line_def request_ok_def)
  moreover have "find_from (request_line r) '' '' (length (hq_method r) + 1) =
      Some (length (hq_method r) + 1 + length (hq_target r))"
    using assms find_sub_skip [of "CHR '' ''" "hq_target r" "[]" "'' HTTP/1.1''"]
      find_from_append [of "hq_method r @ '' ''" "hq_target r @ '' HTTP/1.1''" "'' ''"]
    by (simp add: request_line_def request_ok_def)
  ultimately show ?thesis
    using assms by (simp add: read_request_line_def request_ok_def) (simp add: request_line_def)
qed

lemma request_line_one_line:
  assumes "request_ok r"
  shows "one_line (request_line r)" and "request_line r \<noteq> []"
  using assms by (simp_all add: request_line_def request_ok_def one_line_def)

lemma content_length_read:
  assumes "request_ok r"
  shows "content_length_of (r\<lparr>hq_body := []\<rparr>) = Inr (length (hq_body r))"
proof -
  have same: "header (r\<lparr>hq_body := []\<rparr>) name = header r name" for name by (simp add: header_def)
  have "length (hq_body r) < 2 ^ 64" using assms by (simp add: request_ok_def maximum_body_bytes_def)
  then have "from_chars (decimal (length (hq_body r))) = Some (word_of_nat (length (hq_body r)), [])"
      "unat (word_of_nat (length (hq_body r)) :: u64) = length (hq_body r)"
    using from_chars_decimal [of "length (hq_body r)" "[]"] by (simp_all add: unsigned_of_nat take_bit_nat_eq_self)
  then show ?thesis
    using assms by (simp add: content_length_of_def request_ok_def same Let_def)
qed

lemma request_head_lines:
  "request_head r = concat (map (\<lambda>l. l @ crlf) (request_line r #
     map (\<lambda>h. fst h @ '': '' @ snd h) (hq_headers r))) @ crlf"
  by (simp add: request_head_def map_header_line)

lemma blank_line_of_head:
  assumes "request_ok r"
  shows "find_sub (crlf @ crlf) (request_head r @ t) = Some (length (request_head r) - 4)"
proof -
  let ?ls = "request_line r # map (\<lambda>h. fst h @ '': '' @ snd h) (hq_headers r)"
  have "\<forall>l \<in> set ?ls. one_line l \<and> l \<noteq> []"
    using assms request_line_one_line [OF assms]
    by (auto simp: request_ok_def header_ok_def one_line_def)
  from find_blank_line [OF this, of t] show ?thesis by (simp add: request_head_lines crlf_def)
qed

lemma first_line_of_head:
  assumes "request_ok r"
  shows "find_sub crlf (request_head r @ t) = Some (length (request_line r))"
  using find_line_end [OF request_line_one_line(1) [OF assms]]
  by (simp add: request_head_def)

lemma headers_of_head:
  assumes "request_ok r"
  shows "read_headers (request_head r @ t) (length (request_head r) - 4) (length (request_line r) + 2) [] =
    Inr (hq_headers r)"
proof -
  have "read_headers (request_head r @ t) (length (request_head r) - 4)
      (length (request_line r @ crlf)) [] = Inr ([] @ hq_headers r)"
    by (rule read_headers_written [where t = t])
      (use assms in \<open>auto simp: request_ok_def request_head_def crlf_def\<close>)
  then show ?thesis by (simp add: crlf_def)
qed

lemma request_parts:
  "r\<lparr>hq_body := b\<rparr> =
     \<lparr>hq_method = hq_method r, hq_target = hq_target r, hq_headers = hq_headers r, hq_body = b\<rparr>"
  "\<lparr>hq_method = hq_method r, hq_target = hq_target r, hq_headers = hq_headers r, hq_body = hq_body r\<rparr> = r"
  by (cases r; simp)+

section \<open>What is accepted\<close>

definition read_error :: "HttpResponse \<Rightarrow> bool" where
  "read_error response \<longleftrightarrow> (\<exists>status \<in> {400, 413}. \<exists>code. response = protocolError status code)"

lemma read_error_protocol [simp]: "status = 400 \<or> status = 413 \<Longrightarrow> read_error (protocolError status code)"
  by (auto simp: read_error_def)

lemma read_head_outcome:
  "case read_head received events of
     Inl response \<Rightarrow> read_error response
   | Inr (received', header_end, events') \<Rightarrow>
       find_sub (crlf @ crlf) received' = Some header_end \<and>
       length received' < maximum_header_bytes + buffer_size"
proof (induction received events rule: read_head.induct)
  case (1 received events)
  obtain r events' where r: "recv buffer_size events = (r, events')" by fastforce
  show ?case
  proof (cases "maximum_header_bytes \<le> length received")
    case True
    then show ?thesis by (simp add: read_head.simps [of received])
  next
    case False
    then show ?thesis
      using "1.IH" [OF False r [symmetric]] r recv_bound [of buffer_size events]
      by (cases r) (auto simp: read_head.simps [of received] split: option.splits)
  qed
qed

definition field_ok :: "nat \<Rightarrow> string \<times> string \<Rightarrow> bool" where
  "field_ok n h \<longleftrightarrow>
     fst h \<noteq> [] \<and> lowerAscii (fst h) = fst h \<and> length (fst h) + length (snd h) < n \<and>
     (snd h = [] \<or> \<not> is_blank (hd (snd h)) \<and> \<not> is_blank (last (snd h)))"

lemma lowerAscii_idem [simp]: "lowerAscii (lowerAscii s) = lowerAscii s"
proof -
  have "byte (char_of (byte c - byte (CHR ''A'') + byte (CHR ''a''))) =
      byte c - byte (CHR ''A'') + byte (CHR ''a'')"
    if "byte c \<le> byte (CHR ''Z'')" for c
    using that by (simp add: of_char_of)
  then show ?thesis by (auto simp: lowerAscii_def)
qed

lemma length_lowerAscii [simp]: "length (lowerAscii s) = length s"
  by (simp add: lowerAscii_def)

lemma trim_length: "length (trim s) \<le> length s"
  using length_dropWhile_le [of is_blank "rev (dropWhile is_blank s)"] length_dropWhile_le [of is_blank s]
  by (simp add: trim_def)

lemma trim_ends:
  assumes "trim s \<noteq> []"
  shows "\<not> is_blank (hd (trim s))" and "\<not> is_blank (last (trim s))"
proof -
  let ?w = "dropWhile is_blank s"
  let ?r = "dropWhile is_blank (rev ?w)"
  have r: "?r \<noteq> []" using assms by (simp add: trim_def)
  then show "\<not> is_blank (last (trim s))" using hd_dropWhile [OF r] by (simp add: trim_def last_rev)
  obtain t where t: "rev ?w = t @ ?r" by (metis takeWhile_dropWhile_id)
  then have "?w = rev ?r @ rev t" by (metis rev_append rev_rev_ident)
  then have "hd ?w = hd (rev ?r)" using r by (metis hd_append2 rev_is_Nil_conv)
  moreover have "?w \<noteq> []" using r by fastforce
  ultimately show "\<not> is_blank (hd (trim s))"
    using hd_dropWhile [of is_blank s] unfolding trim_def by metis
qed

lemma header_field_ok:
  assumes "find_from line '':'' 0 = Some colon" and "length line \<le> n"
    and "lowerAscii (trim (take colon line)) \<noteq> []"
  shows "field_ok n (lowerAscii (trim (take colon line)), trim (drop (colon + 1) line))"
proof -
  have "colon < length line" using find_sub_bound [of "'':''" line colon] assms(1) by simp
  then show ?thesis
    using assms(2,3) trim_length [of "take colon line"] trim_length [of "drop (colon + 1) line"]
      trim_ends [of "drop (colon + 1) line"]
    by (auto simp: field_ok_def)
qed

lemma read_headers_outcome:
  assumes "std_ok headers" and "\<forall>h \<in> set headers. field_ok (length received) h"
  shows "case read_headers received header_end line_start headers of
     Inl response \<Rightarrow> read_error response
   | Inr headers' \<Rightarrow> std_ok headers' \<and> (\<forall>h \<in> set headers'. field_ok (length received) h)"
  using assms
proof (induction received header_end line_start headers rule: read_headers.induct)
  case (1 received header_end line_start headers)
  note unfolded = read_headers.simps [of received header_end line_start headers]
  show ?case
  proof (cases "line_start < header_end")
    case False
    then show ?thesis using "1.prems" by (simp add: unfolded)
  next
    case more: True
    show ?thesis
    proof (cases "find_from received crlf line_start")
      case None
      then show ?thesis using more by (simp add: unfolded)
    next
      case (Some line_end)
      let ?line = "take (line_end - line_start) (drop line_start received)"
      show ?thesis
      proof (cases "header_end < line_end \<or> find_from ?line '':'' 0 = None")
        case True
        then show ?thesis using more Some by (auto simp: unfolded Let_def)
      next
        case False
        then obtain colon where colon: "find_from ?line '':'' 0 = Some colon" by auto
        let ?name = "lowerAscii (trim (take colon ?line))" and ?field = "trim (drop (colon + 1) ?line)"
        show ?thesis
        proof (cases "?name = [] \<or> std_contains headers ?name")
          case True
          then show ?thesis using more Some False colon by (auto simp: unfolded Let_def)
        next
          case fresh: False
          have "field_ok (length received) (?name, ?field)"
            by (rule header_field_ok [OF colon]) (use fresh in auto)
          then have "\<forall>h \<in> set (std_put ?name ?field headers). field_ok (length received) h"
            using "1.prems"(2) set_std_put_subset [of ?name ?field headers] by blast
          then show ?thesis
            using "1.IH" [OF more Some _ refl colon refl refl fresh] False more Some colon fresh "1.prems"(1)
            by (simp add: unfolded Let_def)
        qed
      qed
    qed
  qed
qed

lemma read_request_line_outcome:
  "case read_request_line line of
     Inl response \<Rightarrow> read_error response
   | Inr (verb, target) \<Rightarrow>
       verb \<noteq> [] \<and> CHR '' '' \<notin> set verb \<and> target \<noteq> [] \<and> hd target = CHR ''/'' \<and>
       CHR '' '' \<notin> set target \<and> length verb + length target < length line"
proof (cases "read_request_line line")
  case (Inl response)
  then show ?thesis
    by (auto simp: read_request_line_def Let_def split: option.splits if_splits)
next
  case (Inr vt)
  then obtain first second where
    first: "find_sub '' '' line = Some first" and
    second: "find_sub '' '' (drop (first + 1) line) = Some second" and
    vt: "vt = (take first line, take second (drop (first + 1) line))" and
    ok: "take first line \<noteq> []" "take second (drop (first + 1) line) \<noteq> []"
      "hd (take second (drop (first + 1) line)) = CHR ''/''"
    by (auto simp: read_request_line_def find_from_def option.map_ident Let_def
        split: option.splits if_splits)
  then show ?thesis
    using Inr find_char_first [OF first] find_char_first [OF second] by auto
qed

lemma content_length_outcome:
  "case content_length_of request of
     Inl response \<Rightarrow> read_error response
   | Inr n \<Rightarrow> n \<le> maximum_body_bytes \<and> header request ''transfer-encoding'' = [] \<and>
       (if header request ''content-length'' = [] then n = 0
        else \<exists>v. from_chars (header request ''content-length'') = Some (v, []) \<and> unat v = n)"
  by (auto simp: content_length_of_def Let_def not_less split: option.splits if_splits)

lemma read_body_outcome:
  "case read_body total_size received events of
     Inl response \<Rightarrow> read_error response
   | Inr received' \<Rightarrow> total_size \<le> length received' \<and> (\<exists>t. received' = received @ t)"
proof (induction total_size received events rule: read_body.induct)
  case (1 total_size received events)
  let ?n = "min buffer_size (total_size - length received)"
  obtain r events' where r: "recv ?n events = (r, events')" by fastforce
  show ?case
  proof (cases "total_size \<le> length received")
    case True
    then show ?thesis by (simp add: read_body.simps [of total_size])
  next
    case False
    then show ?thesis
      using "1.IH" [OF False r [symmetric]] r
      by (cases r) (auto simp: read_body.simps [of total_size received] split: sum.splits)
  qed
qed

text \<open>
  A request is read whole however the network divides it. A well-formed request, written with
  its headers in order and a head of at most 16384 bytes, is read as exactly that request, whatever
  the sizes of the pieces in which it arrives and however often a call is interrupted, also when more
  bytes follow it.
\<close>

lemma request_survives_pieces:
  assumes "request_ok r" and "length (request_head r) \<le> 16384"
    and "\<forall>e \<in> set events. is_live e" and "bytes_of events = request_text r @ surplus"
  shows "readRequest events = Inr r"
proof -
  let ?e = "length (request_head r) - 4"
  have four: "4 \<le> length (request_head r)"
    by (simp add: request_head_def crlf_def)
  have whole: "bytes_of events = request_head r @ hq_body r @ surplus"
    using assms(4) by (simp add: request_text_def)
  obtain received events' where head: "read_head [] events = Inr (received, ?e, events')"
    and rest: "received @ bytes_of events' = request_head r @ hq_body r @ surplus"
    and live: "\<forall>e \<in> set events'. is_live e"
    using read_head_whole [OF assms(3), of "[]" ?e] blank_line_of_head [OF assms(1)] four assms(2)
    by (auto simp: whole maximum_header_bytes_def)
  have "find_sub (crlf @ crlf) received = Some ?e" using read_head_outcome [of "[]" events] head by simp
  then have "length (request_head r) \<le> length received"
    using find_sub_fits four by (fastforce simp: crlf_def)
  then have "take (length (request_head r)) received =
      take (length (request_head r)) (received @ bytes_of events')" by simp
  also have "\<dots> = request_head r" unfolding rest by simp
  finally obtain t where t: "received = request_head r @ t" by (metis append_take_drop_id)
  obtain received' left where body: "read_body (?e + 4 + length (hq_body r)) received events' = Inr received'"
    and long: "?e + 4 + length (hq_body r) \<le> length received'"
    and all: "received' @ left = received @ bytes_of events'"
    using read_body_whole [OF live, of "?e + 4 + length (hq_body r)" received] rest four by auto
  have "take (length (hq_body r)) (drop (?e + 4) received') =
      take (length (hq_body r)) (drop (?e + 4) (received' @ left))"
    using long by simp
  also have "\<dots> = hq_body r" unfolding all rest using four by simp
  finally have bytes: "take (length (hq_body r)) (drop (?e + 4) received') = hq_body r" .
  have first: "find_sub crlf received = Some (length (request_line r))"
    "take (length (request_line r)) received = request_line r" "length (request_line r) \<le> ?e"
    using first_line_of_head [OF assms(1)] by (simp_all add: t) (simp_all add: request_head_def crlf_def)
  show ?thesis
    using head first request_line_read [OF assms(1)] headers_of_head [OF assms(1), of t]
      content_length_read [OF assms(1)] body bytes request_parts [where r = r]
    by (simp add: readRequest_def t Let_def add.commute)
qed

lemma read_errors:
  assumes "readRequest events = Inl response"
  shows "read_error response"
proof -
  have parts: "read_request_line line = Inl response \<Longrightarrow> read_error response"
    "content_length_of request = Inl response \<Longrightarrow> read_error response"
    "read_headers received header_end line_start [] = Inl response \<Longrightarrow> read_error response"
    "read_body total_size received events' = Inl response \<Longrightarrow> read_error response"
    for line request received header_end line_start total_size events'
    using read_request_line_outcome [of line] content_length_outcome [of request]
      read_headers_outcome [of "[]" received header_end line_start]
      read_body_outcome [of total_size received events']
    by simp_all
  show ?thesis
    using assms read_head_outcome [of "[]" events] parts
    by (auto simp: readRequest_def throws_bind_Inl_iff Let_def split: option.splits if_splits)
qed

lemma accepted_parts:
  assumes "readRequest events = Inr request"
  obtains received header_end events' line_end where
    "read_head [] events = Inr (received, header_end, events')"
    "read_request_line (take line_end received) = Inr (hq_method request, hq_target request)"
    "read_headers received header_end (line_end + 2) [] = Inr (hq_headers request)"
    "content_length_of (request\<lparr>hq_body := []\<rparr>) = Inr (length (hq_body request))"
proof -
  obtain received header_end events' line_end verb target headers n received' where
    parts: "read_head [] events = Inr (received, header_end, events')"
      "read_request_line (take line_end received) = Inr (verb, target)"
      "read_headers received header_end (line_end + 2) [] = Inr headers"
      "content_length_of \<lparr>hq_method = verb, hq_target = target, hq_headers = headers, hq_body = []\<rparr> = Inr n"
      "read_body (header_end + 4 + n) received events' = Inr received'"
    and request: "request = \<lparr>hq_method = verb, hq_target = target, hq_headers = headers,
      hq_body = take n (drop (header_end + 4) received')\<rparr>"
    using assms by (auto simp: readRequest_def throws_bind_Inr_iff Let_def split: option.splits if_splits)
  have "header_end + 4 + n \<le> length received'"
    using read_body_outcome [of "header_end + 4 + n" received events'] parts(5) by simp
  then have "length (hq_body request) = n" by (simp add: request)
  with parts that show thesis by (simp add: request)
qed

text \<open>
  C32: every connection is answered with a bounded, well-formed request or with an error. Whatever
  arrives, reading ends; it ends in status 400 or 413, or in a request with a method and an absolute
  target without spaces, with distinct lower-case header names and trimmed values, no transfer
  encoding, a body of the announced length and of at most 65536 bytes, and nothing in its head longer
  than 20480 bytes.
\<close>

theorem accepted_request_is_bounded:
  "case readRequest events of
     Inl response \<Rightarrow> (\<exists>code. response = protocolError 400 code \<or> response = protocolError 413 code)
   | Inr request \<Rightarrow>
       hq_method request \<noteq> [] \<and> CHR '' '' \<notin> set (hq_method request) \<and>
       hq_target request \<noteq> [] \<and> hd (hq_target request) = CHR ''/'' \<and>
       CHR '' '' \<notin> set (hq_target request) \<and>
       length (hq_method request) + length (hq_target request) < 20480 \<and>
       std_ok (hq_headers request) \<and> list_all (field_ok 20480) (hq_headers request) \<and>
       header request ''transfer-encoding'' = [] \<and> length (hq_body request) \<le> 65536 \<and>
       (if header request ''content-length'' = [] then hq_body request = []
        else from_chars (header request ''content-length'') =
          Some (word_of_nat (length (hq_body request)), []))"
proof (cases "readRequest events")
  case (Inl response)
  then show ?thesis using read_errors [OF Inl] by (auto simp: read_error_def)
next
  case (Inr request)
  obtain received header_end events' line_end where
    parts: "read_head [] events = Inr (received, header_end, events')"
      "read_request_line (take line_end received) = Inr (hq_method request, hq_target request)"
      "read_headers received header_end (line_end + 2) [] = Inr (hq_headers request)"
      "content_length_of (request\<lparr>hq_body := []\<rparr>) = Inr (length (hq_body request))"
    by (rule accepted_parts [OF Inr])
  have small: "length received < 20480"
    using read_head_outcome [of "[]" events] parts(1) by (simp add: http_defs)
  have fields: "field_ok n h \<Longrightarrow> n \<le> 20480 \<Longrightarrow> field_ok 20480 h" for n h
    by (auto simp: field_ok_def)
  have "std_ok (hq_headers request) \<and> list_all (field_ok 20480) (hq_headers request)"
    using read_headers_outcome [of "[]" received header_end "line_end + 2"] parts(3) small
    by (auto simp: list_all_iff intro: fields)
  moreover have "length (hq_method request) + length (hq_target request) < 20480"
    and "hq_method request \<noteq> [] \<and> CHR '' '' \<notin> set (hq_method request) \<and>
      hq_target request \<noteq> [] \<and> hd (hq_target request) = CHR ''/'' \<and>
      CHR '' '' \<notin> set (hq_target request)"
    using read_request_line_outcome [of "take line_end received"] parts(2) small by auto
  moreover have "header request ''transfer-encoding'' = [] \<and> length (hq_body request) \<le> 65536 \<and>
      (if header request ''content-length'' = [] then hq_body request = []
       else from_chars (header request ''content-length'') =
         Some (word_of_nat (length (hq_body request)), []))"
  proof -
    have same: "header (request\<lparr>hq_body := []\<rparr>) name = header request name" for name
      by (simp add: header_def)
    have lengths: "length (hq_body request) \<le> 65536" "header request ''transfer-encoding'' = []"
      "if header request ''content-length'' = [] then length (hq_body request) = 0
       else \<exists>v. from_chars (header request ''content-length'') = Some (v, []) \<and>
         unat v = length (hq_body request)"
      using content_length_outcome [of "request\<lparr>hq_body := []\<rparr>"] parts(4)
      by (simp_all only: same http_defs sum.case) simp_all
    moreover have "v = word_of_nat (unat v)" for v :: u64 by simp
    ultimately show ?thesis by (metis length_0_conv)
  qed
  ultimately show ?thesis using Inr by simp
qed

section \<open>What is answered\<close>

definition response_text :: "HttpResponse \<Rightarrow> string" where
  "response_text response = response_header response @ hr_body response"

lemma sendAll_prefix:
  assumes "sendAll bytes events = (written, complete, left)"
  shows "(\<exists>t. bytes = written @ t) \<and> (complete \<longrightarrow> written = bytes)"
  using assms
proof (induction bytes events arbitrary: written complete left rule: sendAll.induct)
  case (6 c cs n events)
  let ?bytes = "c # cs" and ?n = "max 1 (min n (length (c # cs)))"
  obtain written' complete' left' where rest: "sendAll (drop ?n ?bytes) events = (written', complete', left')"
    by (metis prod_cases3)
  then have now: "written = take ?n ?bytes @ written'" "complete = complete'"
    using "6.prems" by (simp_all add: Let_def)
  from "6.IH" [OF refl rest] obtain t where t: "drop ?n ?bytes = written' @ t"
    and whole: "complete' \<longrightarrow> written' = drop ?n ?bytes" by blast
  have "?bytes = written @ t" unfolding now using t by (metis append.assoc append_take_drop_id)
  moreover have "complete \<longrightarrow> written = ?bytes" unfolding now using whole by (metis append_take_drop_id)
  ultimately show ?case by blast
qed auto

text \<open>A peer that keeps reading: no call fails, and enough of them take a byte at least.\<close>

fun takes_bytes :: "SendEvent \<Rightarrow> bool" where
  "takes_bytes (Sent n) \<longleftrightarrow> True"
| "takes_bytes _ \<longleftrightarrow> False"

definition keeps_reading :: "nat \<Rightarrow> SendEvent list \<Rightarrow> bool" where
  "keeps_reading n events \<longleftrightarrow>
     (\<forall>e \<in> set events. takes_bytes e \<or> e = Send_interrupted) \<and> n \<le> length (filter takes_bytes events)"

lemma sendAll_complete:
  assumes "keeps_reading (length bytes + n) events"
  shows "\<exists>left. sendAll bytes events = (bytes, True, left) \<and> keeps_reading n left"
  using assms
proof (induction bytes events rule: sendAll.induct)
  case (6 c cs k events)
  let ?bytes = "c # cs" and ?n = "max 1 (min k (length (c # cs)))"
  have "length (drop ?n ?bytes) \<le> length cs" by simp
  then have "keeps_reading (length (drop ?n ?bytes) + n) events"
    using "6.prems" unfolding keeps_reading_def by (simp del: length_drop)
  then obtain left where "sendAll (drop ?n ?bytes) events = (drop ?n ?bytes, True, left)"
      "keeps_reading n left"
    using "6.IH" [OF refl] by blast
  then show ?case by (simp only: sendAll.simps Let_def prod.case append_take_drop_id) blast
qed (auto simp: keeps_reading_def)

lemma response_written:
  assumes "sendResponse response events = (written, complete, left)"
  shows "(\<exists>t. response_text response = written @ t) \<and> (complete \<longrightarrow> written = response_text response)"
proof -
  obtain head whole events' where head: "sendAll (response_header response) events = (head, whole, events')"
    by (metis prod_cases3)
  obtain body all events'' where body: "sendAll (hr_body response) events' = (body, all, events'')"
    by (metis prod_cases3)
  show ?thesis
    using assms sendAll_prefix [OF head] sendAll_prefix [OF body]
    by (cases whole) (auto simp: sendResponse_def response_text_def head body)
qed

lemma response_complete:
  assumes "keeps_reading (length (response_text response)) events"
  shows "\<exists>left. sendResponse response events = (response_text response, True, left)"
proof -
  obtain left where head: "sendAll (response_header response) events = (response_header response, True, left)"
    and more: "keeps_reading (length (hr_body response) + 0) left"
    using sendAll_complete [of "response_header response" "length (hr_body response)" events] assms
    by (auto simp: response_text_def)
  obtain left' where "sendAll (hr_body response) left = (hr_body response, True, left')"
    using sendAll_complete [OF more] by blast
  with head show ?thesis by (simp add: sendResponse_def response_text_def)
qed

text \<open>
  C33: the application is asked at most once, about a well-formed request, and answered in order.
  Whatever happens on a connection, what is written to it is the beginning of one response, all of it
  when serving ends normally: the application's response to the request read, or the error of the
  reading; and the application's state is that after this one request, or unchanged.
\<close>

theorem connection_gets_one_response:
  "let run = processClient handler now timeouts arriving sending s in
   \<exists>response rest.
     response_text response = cl_written run @ rest \<and> \<not> (cl_complete run \<and> rest \<noteq> []) \<and>
     (case readRequest arriving of
        Inr request \<Rightarrow>
          (if timeouts then (response, cl_state run) = handler request now s
           else cl_written run = [] \<and> cl_state run = s)
      | Inl e \<Rightarrow> response = e \<and> cl_state run = s)"
proof -
  define asked where "asked =
    (case readRequest arriving of Inl e \<Rightarrow> (e, s) | Inr request \<Rightarrow> handler request now s)"
  obtain written complete left where sent: "sendResponse (fst asked) sending = (written, complete, left)"
    by (metis prod_cases3)
  note written = response_written [OF sent]
  have run: "processClient handler now timeouts arriving sending s =
      (if timeouts then \<lparr>cl_written = written, cl_complete = complete, cl_state = snd asked\<rparr>
       else \<lparr>cl_written = [], cl_complete = False, cl_state = s\<rparr>)"
    using sent by (auto simp: processClient_def asked_def split: sum.split prod.split)
  obtain rest where rest: "response_text (fst asked) = written @ rest" using written by blast
  then have whole: "\<not> (complete \<and> rest \<noteq> [])" using written by auto
  show ?thesis
  proof (cases timeouts)
    case True
    then show ?thesis unfolding run Let_def using rest whole
      by (intro exI [of _ "fst asked"] exI [of _ rest]) (auto simp: asked_def split: sum.split)
  next
    case False
    then show ?thesis unfolding run Let_def
      by (intro exI [of _ "fst asked"] exI [of _ "response_text (fst asked)"])
        (auto simp: asked_def split: sum.split)
  qed
qed

text \<open>
  C15: a request that reaches the server is served. Over a connection that stays up, a well-formed
  request is answered by exactly the response of the control-plane application to it, and the
  application is left in the state of having handled it.
\<close>

theorem delivered_request_is_served:
  assumes "request_ok r" and "length (request_head r) \<le> 16384"
    and "\<forall>e \<in> set arriving. is_live e" and "bytes_of arriving = request_text r"
    and "handle a r now s = (response, s')"
    and "keeps_reading (length (response_text response)) sending"
  shows "processClient (handle a) now True arriving sending s =
    \<lparr>cl_written = response_text response, cl_complete = True, cl_state = s'\<rparr>"
proof -
  have "readRequest arriving = Inr r"
    using request_survives_pieces [OF assms(1-3), of "[]"] assms(4) by simp
  with response_complete [OF assms(6)] assms(5) show ?thesis
    by (auto simp: processClient_def)
qed

end
