(* ===== verification/Http_Connection_Examples.thy ===== *)
theory Http_Connection_Examples
  imports Http_Connections
begin

text \<open>A request on a concrete connection.\<close>

definition health_request :: HttpRequest where
  "health_request =
     \<lparr>hq_method = ''GET'', hq_target = ''/api/v1/health'', hq_headers = [(''host'', ''voice'')], hq_body = []\<rparr>"

definition health_pieces :: "SocketEvent list" where
  "health_pieces =
     [Arrived ''GET /api/v1/he'', Interrupted, Arrived (''alth HTTP/1.1'' @ [CHR 0x0D]),
      Arrived ([CHR 0x0A] @ ''host: voice'' @ crlf), Interrupted, Arrived crlf]"

lemma health_request_ok: "request_ok health_request" "length (request_head health_request) \<le> 16384"
proof -
  have "header_ok (''host'', ''voice'')" by code_simp
  moreover have "header health_request ''transfer-encoding'' = []" "header health_request ''content-length'' = []"
    by code_simp+
  ultimately show "request_ok health_request"
    by (simp add: request_ok_def health_request_def one_line_def std_ok_def)
  have "length (request_head health_request) = 44" by code_simp
  then show "length (request_head health_request) \<le> 16384" by simp
qed

lemma health_pieces_ok: "\<forall>e \<in> set health_pieces. is_live e" "bytes_of health_pieces = request_text health_request"
  by code_simp+

lemma health_answer: "handle a health_request now s = (jsonResponse 200 ready_text, s)"
  by (simp add: handle_def dispatch_def health_request_def answer_def)

theorem delivered_request_is_served_witness:
  "\<forall>(a :: (unit, unit, unit) HttpAdapter) s.
     processClient (handle a) 0 True health_pieces (replicate 400 (Sent 64)) s =
       \<lparr>cl_written = response_text (jsonResponse 200 ready_text), cl_complete = True, cl_state = s\<rparr>"
proof (intro allI)
  fix a :: "(unit, unit, unit) HttpAdapter" and s
  have "length (response_text (jsonResponse 200 ready_text)) \<le> 400" by code_simp
  then have "keeps_reading (length (response_text (jsonResponse 200 ready_text))) (replicate 400 (Sent 64))"
    by (simp add: keeps_reading_def)
  from delivered_request_is_served [OF health_request_ok health_pieces_ok health_answer this]
  show "processClient (handle a) 0 True health_pieces (replicate 400 (Sent 64)) s =
       \<lparr>cl_written = response_text (jsonResponse 200 ready_text), cl_complete = True, cl_state = s\<rparr>" .
qed

end
