(* ===== verification/Http_Listener.thy ===== *)
theory Http_Listener
  imports Hvc_Prelude
begin

text \<open>
  The listener and its workers (\<open>runLinuxHttpServer\<close> of
  \<open>apps/control-plane/src/linux_http_server.cpp\<close>): the accepting thread puts connections into a
  bounded queue or refuses them, a fixed number of workers take and serve them, and after a shutdown
  request the workers serve what is still queued and end.

  The threads interleave as a step relation. A step is what one thread does under the queue's mutex,
  or a call in between. Workers wait on a condition variable: a waiting worker goes on when it is
  notified, or without any reason. Serving one connection is \<open>processClient\<close> (\<open>Http_Server\<close>), which
  returns for every connection because of the socket timeouts.
\<close>

section \<open>State\<close>

record ListenerOptions =
  lo_worker_count :: nat
  lo_maximum_queued_connections :: nat

definition LinuxHttpServerOptions_default :: ListenerOptions where
  "LinuxHttpServerOptions_default = \<lparr>lo_worker_count = 8, lo_maximum_queued_connections = 64\<rparr>"

text \<open>
  Where a worker is: about to look at the queue, asleep in \<open>wait\<close>, serving a connection, or ended.
\<close>

datatype Worker = Awake | Asleep | Serving nat | Ended

text \<open>
  Where the accepting thread is: at the test of the loop, between queueing a connection and
  \<open>notify_one\<close>, refusing a connection, past the loop, between setting \<open>stopping\<close> and \<open>notify_all\<close>,
  joining the workers, or returned.
\<close>

datatype Acceptor = Polling | Notifying | Refusing nat | Leaving | Stopping | Joining | Returned

record Listener =
  ls_queue :: "nat list"
  ls_stopping :: bool
  ls_workers :: "Worker list"
  ls_acceptor :: Acceptor
  ls_accepted :: nat
  ls_served :: "nat list"
  ls_refused :: "nat list"
  ls_result :: int

text \<open>The start: invalid limits throw; otherwise every worker thread has been created.\<close>

definition run_start :: "ListenerOptions \<Rightarrow> Listener throws" where
  "run_start options =
     (if lo_worker_count options = 0 \<or> lo_maximum_queued_connections options = 0
      then Inl (InvalidArgument ''HTTP worker and queue limits must be positive.'')
      else Inr \<lparr>ls_queue = [], ls_stopping = False,
                ls_workers = replicate (lo_worker_count options) Awake, ls_acceptor = Polling,
                ls_accepted = 0, ls_served = [], ls_refused = [], ls_result = 0\<rparr>)"

section \<open>Steps\<close>

text \<open>One round of a worker's loop up to unlocking or waiting.\<close>

definition worker_check :: "nat \<Rightarrow> Listener \<Rightarrow> Listener" where
  "worker_check w l =
     (case ls_queue l of
        [] \<Rightarrow> l\<lparr>ls_workers := (ls_workers l)[w := if ls_stopping l then Ended else Asleep]\<rparr>
      | client # queue \<Rightarrow>
          l\<lparr>ls_queue := queue, ls_workers := (ls_workers l)[w := Serving client]\<rparr>)"

text \<open>What the accepting thread does with a connection it has accepted; connections are numbered.\<close>

definition take_connection :: "ListenerOptions \<Rightarrow> Listener \<Rightarrow> Listener" where
  "take_connection options l =
     (let client = ls_accepted l; l' = l\<lparr>ls_accepted := client + 1\<rparr>
      in if length (ls_queue l) < lo_maximum_queued_connections options
         then l'\<lparr>ls_queue := ls_queue l @ [client], ls_acceptor := Notifying\<rparr>
         else l'\<lparr>ls_acceptor := Refusing client\<rparr>)"

definition all_ended :: "Listener \<Rightarrow> bool" where
  "all_ended l \<longleftrightarrow> list_all (\<lambda>x. x = Ended) (ls_workers l)"

lemma all_ended_acceptor [simp]: "all_ended (l\<lparr>ls_acceptor := a\<rparr>) = all_ended l"
  by (simp add: all_ended_def)

inductive listener_step :: "ListenerOptions \<Rightarrow> Listener \<Rightarrow> Listener \<Rightarrow> bool" for options where
  check:
    "w < length (ls_workers l) \<Longrightarrow> ls_workers l ! w = Awake \<Longrightarrow>
     listener_step options l (worker_check w l)"
| wake:
    "w < length (ls_workers l) \<Longrightarrow> ls_workers l ! w = Asleep \<Longrightarrow>
     listener_step options l (l\<lparr>ls_workers := (ls_workers l)[w := Awake]\<rparr>)"
| serve:
    "w < length (ls_workers l) \<Longrightarrow> ls_workers l ! w = Serving client \<Longrightarrow>
     listener_step options l
       (l\<lparr>ls_workers := (ls_workers l)[w := Awake], ls_served := client # ls_served l\<rparr>)"
| accept:
    "ls_acceptor l = Polling \<Longrightarrow> listener_step options l (take_connection options l)"
| notify_one:
    "ls_acceptor l = Notifying \<Longrightarrow> w < length (ls_workers l) \<Longrightarrow> ls_workers l ! w = Asleep \<Longrightarrow>
     listener_step options l
       (l\<lparr>ls_acceptor := Polling, ls_workers := (ls_workers l)[w := Awake]\<rparr>)"
| notify_nobody:
    "ls_acceptor l = Notifying \<Longrightarrow> Asleep \<notin> set (ls_workers l) \<Longrightarrow>
     listener_step options l (l\<lparr>ls_acceptor := Polling\<rparr>)"
| refuse:
    "ls_acceptor l = Refusing client \<Longrightarrow>
     listener_step options l (l\<lparr>ls_acceptor := Polling, ls_refused := client # ls_refused l\<rparr>)"
| shutdown:
    "ls_acceptor l = Polling \<Longrightarrow> listener_step options l (l\<lparr>ls_acceptor := Leaving\<rparr>)"
| fail:
    "ls_acceptor l = Polling \<Longrightarrow>
     listener_step options l (l\<lparr>ls_acceptor := Leaving, ls_result := 1\<rparr>)"
| stop:
    "ls_acceptor l = Leaving \<Longrightarrow>
     listener_step options l (l\<lparr>ls_acceptor := Stopping, ls_stopping := True\<rparr>)"
| notify_all:
    "ls_acceptor l = Stopping \<Longrightarrow>
     listener_step options l
       (l\<lparr>ls_acceptor := Joining,
          ls_workers := map (\<lambda>x. if x = Asleep then Awake else x) (ls_workers l)\<rparr>)"
| return:
    "ls_acceptor l = Joining \<Longrightarrow> all_ended l \<Longrightarrow>
     listener_step options l (l\<lparr>ls_acceptor := Returned\<rparr>)"

text \<open>What is reached from the start.\<close>

inductive listener_reaches :: "ListenerOptions \<Rightarrow> Listener \<Rightarrow> bool" for options where
  start: "run_start options = Inr l \<Longrightarrow> listener_reaches options l"
| step: "listener_reaches options l \<Longrightarrow> listener_step options l l' \<Longrightarrow> listener_reaches options l'"

inductive_cases listener_stepE: "listener_step options l l'"

section \<open>The invariant\<close>

fun serving :: "Worker \<Rightarrow> nat list" where
  "serving (Serving client) = [client]"
| "serving _ = []"

definition refusing :: "Listener \<Rightarrow> nat list" where
  "refusing l = (case ls_acceptor l of Refusing client \<Rightarrow> [client] | _ \<Rightarrow> [])"

text \<open>Every accepted connection is in one place.\<close>

definition whereabouts :: "Listener \<Rightarrow> nat multiset" where
  "whereabouts l =
     mset (ls_queue l) + mset (concat (map serving (ls_workers l))) + mset (ls_served l) +
     mset (refusing l) + mset (ls_refused l)"

definition awake :: "Listener \<Rightarrow> nat" where
  "awake l = count_list (ls_workers l) Awake"

definition listener_ok :: "ListenerOptions \<Rightarrow> Listener \<Rightarrow> bool" where
  "listener_ok options l \<longleftrightarrow>
     0 < lo_worker_count options \<and> length (ls_workers l) = lo_worker_count options \<and>
     length (ls_queue l) \<le> lo_maximum_queued_connections options \<and>
     whereabouts l = mset [0 ..< ls_accepted l] \<and>
     (ls_stopping l \<longleftrightarrow> ls_acceptor l \<in> {Stopping, Joining, Returned}) \<and>
     (ls_acceptor l \<in> {Joining, Returned} \<longrightarrow> Asleep \<notin> set (ls_workers l)) \<and>
     (Asleep \<in> set (ls_workers l) \<longrightarrow>
        length (ls_queue l) \<le> awake l + (if ls_acceptor l = Notifying then 1 else 0)) \<and>
     (Ended \<in> set (ls_workers l) \<longrightarrow> ls_stopping l \<and> ls_queue l = []) \<and>
     (ls_acceptor l = Returned \<longrightarrow> all_ended l)"

text \<open>Replacing one worker.\<close>

lemma serving_update:
  assumes "w < length ws"
  shows "mset (concat (map serving (ws[w := x]))) + mset (serving (ws ! w)) =
    mset (concat (map serving ws)) + mset (serving x)"
  using assms
proof (induction ws arbitrary: w)
  case (Cons y ws)
  then show ?case by (cases w) (auto simp: ac_simps)
qed simp

lemma count_update:
  assumes "w < length ws"
  shows "count_list (ws[w := x]) a + (if ws ! w = a then 1 else 0) =
    count_list ws a + (if x = a then 1 else 0)"
  using assms
proof (induction ws arbitrary: w)
  case (Cons y ws)
  show ?case
  proof (cases w)
    case (Suc v)
    with Cons.IH [of v] Cons.prems show ?thesis by (auto split: if_splits)
  qed simp
qed simp

lemma serving_woken:
  "map serving (map (\<lambda>x. if x = Asleep then Awake else x) ws) = map serving ws"
  by simp

lemma set_update_other: "y \<in> set (ws[w := x]) \<Longrightarrow> y \<noteq> x \<Longrightarrow> y \<in> set ws"
  using set_update_subset_insert by fastforce

lemma mset_upt_Suc [simp]: "mset_set {0 ..< Suc n} = add_mset n (mset_set {0 ..< n})"
  by (simp add: atLeast0_lessThan_Suc)

lemma listener_ok_start: "run_start options = Inr l \<Longrightarrow> listener_ok options l"
  by (auto simp: run_start_def listener_ok_def whereabouts_def refusing_def map_replicate_const
      split: if_splits)

lemma running_worker:
  assumes "listener_ok options l" and "w < length (ls_workers l)" and "ls_workers l ! w \<noteq> Ended"
  shows "ls_acceptor l \<noteq> Returned"
  using assms nth_mem [OF assms(2)] by (auto simp: listener_ok_def all_ended_def list_all_iff)

lemma listener_ok_step:
  assumes "listener_ok options l" and "listener_step options l l'"
  shows "listener_ok options l'"
  using assms(2)
proof cases
  case (check w)
  note moved = serving_update [OF check(2)] count_update [OF check(2), where a = Awake]
  show ?thesis
  proof (cases "ls_queue l")
    case Nil
    let ?x = "if ls_stopping l then Ended else Asleep"
    have l': "l' = l\<lparr>ls_workers := (ls_workers l)[w := ?x]\<rparr>"
      using check Nil by (simp add: worker_check_def)
    have "mset (concat (map serving ((ls_workers l)[w := ?x]))) =
        mset (concat (map serving (ls_workers l)))"
      using moved(1) [of ?x] check(3) by (cases "ls_stopping l") simp_all
    then have "whereabouts l' = whereabouts l" by (simp add: l' whereabouts_def refusing_def)
    moreover have "Asleep \<in> set (ls_workers l') \<Longrightarrow> ls_stopping l \<Longrightarrow> Asleep \<in> set (ls_workers l)"
      "Ended \<in> set (ls_workers l') \<Longrightarrow> \<not> ls_stopping l \<Longrightarrow> Ended \<in> set (ls_workers l)"
      unfolding l' by (auto dest: set_update_other)
    moreover have "ls_acceptor l = Returned \<Longrightarrow> False"
      using running_worker [OF assms(1) check(2)] check(3) by simp
    ultimately show ?thesis
      using assms(1) Nil unfolding listener_ok_def
      by (simp add: l') blast
  next
    case (Cons client queue)
    then show ?thesis
      using assms(1) check running_worker [OF assms(1) check(2)] moved [of "Serving client"]
      by (auto simp: listener_ok_def worker_check_def whereabouts_def refusing_def awake_def
          dest: set_update_other split: if_splits)
  qed
next
  case (wake w)
  then show ?thesis
    using assms(1) running_worker [OF assms(1) wake(2)] serving_update [OF wake(2), of Awake] count_update [OF wake(2), of Awake Awake]
    by (auto simp: listener_ok_def whereabouts_def refusing_def awake_def
        dest: set_update_other split: if_splits)
next
  case (serve w client)
  have "mset (concat (map serving (ls_workers l))) =
      add_mset client (mset (concat (map serving ((ls_workers l)[w := Awake]))))"
    using serving_update [OF serve(2), of Awake] serve(3) by simp
  then have "whereabouts l' = whereabouts l" by (simp add: serve(1) whereabouts_def refusing_def)
  then show ?thesis
    using assms(1) serve running_worker [OF assms(1) serve(2)] count_update [OF serve(2), of Awake Awake]
    by (auto simp: listener_ok_def awake_def dest: set_update_other split: if_splits)
next
  case accept
  then show ?thesis
    using assms(1) by (auto simp: listener_ok_def take_connection_def whereabouts_def refusing_def awake_def Let_def)
next
  case (notify_one w)
  then show ?thesis
    using assms(1) serving_update [OF notify_one(3), of Awake] count_update [OF notify_one(3), of Awake Awake]
    by (auto simp: listener_ok_def whereabouts_def refusing_def awake_def
        dest: set_update_other split: if_splits)
next
  case notify_nobody
  then show ?thesis using assms(1) by (auto simp: listener_ok_def whereabouts_def refusing_def awake_def)
next
  case (refuse client)
  then show ?thesis using assms(1) by (auto simp: listener_ok_def whereabouts_def refusing_def awake_def)
next
  case shutdown
  then show ?thesis using assms(1) by (auto simp: listener_ok_def whereabouts_def refusing_def awake_def)
next
  case fail
  then show ?thesis using assms(1) by (auto simp: listener_ok_def whereabouts_def refusing_def awake_def)
next
  case stop
  then show ?thesis using assms(1) by (auto simp: listener_ok_def whereabouts_def refusing_def awake_def)
next
  case notify_all
  have "whereabouts l' = whereabouts l"
    using arg_cong [OF serving_woken [of "ls_workers l"], of concat] notify_all(2)
    by (simp add: notify_all(1) whereabouts_def refusing_def del: map_map)
  then show ?thesis
    using assms(1) notify_all by (auto simp: listener_ok_def split: if_splits)
next
  case return
  then show ?thesis using assms(1) by (auto simp: listener_ok_def whereabouts_def refusing_def awake_def)
qed

lemma listener_reaches_ok: "listener_reaches options l \<Longrightarrow> listener_ok options l"
  by (induction rule: listener_reaches.induct) (auto intro: listener_ok_start listener_ok_step)

section \<open>Draining\<close>

text \<open>How many steps are left once every worker has been told to stop.\<close>

fun worker_work :: "Worker \<Rightarrow> nat" where
  "worker_work Awake = 1"
| "worker_work (Serving client) = 2"
| "worker_work _ = 0"

definition work_left :: "Listener \<Rightarrow> nat" where
  "work_left l = 2 * length (ls_queue l) + sum_list (map worker_work (ls_workers l)) +
     (if ls_acceptor l = Joining then 1 else 0)"

lemma work_update:
  assumes "w < length ws"
  shows "sum_list (map worker_work (ws[w := x])) + worker_work (ws ! w) =
    sum_list (map worker_work ws) + worker_work x"
  using assms
proof (induction ws arbitrary: w)
  case (Cons y ws)
  then show ?case by (cases w) auto
qed simp

lemma work_bound: "sum_list (map worker_work ws) \<le> 2 * length ws"
proof -
  have "worker_work x \<le> 2" for x by (cases x) simp_all
  from sum_list_mono [of ws worker_work "\<lambda>_. 2", OF this] show ?thesis
    by (simp add: sum_list_triv)
qed

lemma draining_step:
  assumes "listener_ok options l" and "ls_acceptor l \<in> {Joining, Returned}" and "listener_step options l l'"
  shows "work_left l' < work_left l \<and> ls_acceptor l' \<in> {Joining, Returned} \<and>
    ls_refused l' = ls_refused l \<and> ls_accepted l' = ls_accepted l"
  using assms(3)
proof cases
  case (check w)
  show ?thesis
  proof (cases "ls_queue l")
    case Nil
    have "ls_stopping l" using assms(1,2) by (auto simp: listener_ok_def)
    with Nil check assms(2) work_update [OF check(2), of Ended] show ?thesis
      by (auto simp: worker_check_def work_left_def)
  next
    case (Cons client queue)
    with check assms(2) work_update [OF check(2), of "Serving client"] show ?thesis
      by (auto simp: worker_check_def work_left_def)
  qed
next
  case (wake w)
  then have "Asleep \<in> set (ls_workers l)" by (metis nth_mem)
  then show ?thesis using assms(1,2) by (auto simp: listener_ok_def)
next
  case (serve w client)
  with assms(2) work_update [OF serve(2), of Awake] show ?thesis
    by (auto simp: work_left_def)
next
  case (notify_one w)
  then show ?thesis using assms(2) by simp
next
  case return
  then show ?thesis by (simp add: work_left_def)
qed (use assms(2) in simp_all)

lemma draining_run:
  assumes "(listener_step options ^^ n) l l'" and "listener_ok options l"
    and "ls_acceptor l \<in> {Joining, Returned}"
  shows "listener_ok options l' \<and> ls_acceptor l' \<in> {Joining, Returned} \<and> work_left l' + n \<le> work_left l"
  using assms(1)
proof (induction n arbitrary: l')
  case (Suc n)
  then obtain m where m: "(listener_step options ^^ n) l m" "listener_step options m l'" by auto
  from Suc.IH [OF m(1)] have ok: "listener_ok options m" "ls_acceptor m \<in> {Joining, Returned}"
    "work_left m + n \<le> work_left l" by auto
  from draining_step [OF ok(1,2) m(2)] listener_ok_step [OF ok(1) m(2)] ok(3) show ?case by auto
qed (use assms(2,3) in simp)

lemma drained:
  assumes "listener_ok options l" and "ls_acceptor l \<in> {Joining, Returned}"
    and "\<nexists>l'. listener_step options l l'"
  shows "ls_acceptor l = Returned"
proof (rule ccontr)
  assume running: "ls_acceptor l \<noteq> Returned"
  have "x = Ended" if x: "x \<in> set (ls_workers l)" for x
  proof -
    obtain w where w: "w < length (ls_workers l)" "ls_workers l ! w = x"
      using x by (auto simp: in_set_conv_nth)
    show ?thesis
      using assms(3) listener_step.check [OF w(1)] listener_step.serve [OF w(1)] w(2) x assms(1,2)
      by (cases x) (auto simp: listener_ok_def)
  qed
  then have "all_ended l" by (simp add: all_ended_def list_all_iff)
  with assms(2,3) running listener_step.return show False by blast
qed

section \<open>Properties\<close>

text \<open>
  C28: no connection is lost or served twice, and none waits while the workers sleep. In every
  reachable state each accepted connection is in exactly one place: queued, being served by a worker,
  served, being refused, or refused. The queue never exceeds its capacity, and while a worker sleeps
  there are no more queued connections than workers about to look at the queue, up to the one
  connection whose notification is about to be sent.
\<close>

theorem connections_are_conserved:
  assumes "listener_reaches options l"
  shows "mset (ls_queue l @ concat (map serving (ls_workers l)) @ ls_served l @ refusing l @
       ls_refused l) = mset [0 ..< ls_accepted l] \<and>
    length (ls_queue l) \<le> lo_maximum_queued_connections options \<and>
    length (concat (map serving (ls_workers l))) \<le> lo_worker_count options \<and>
    (if Asleep \<in> set (ls_workers l)
     then length (ls_queue l) \<le> count_list (ls_workers l) Awake +
       (if ls_acceptor l = Notifying then 1 else 0)
     else True)"
proof -
  have ok: "listener_ok options l" by (rule listener_reaches_ok [OF assms])
  have "length (concat (map serving ws)) \<le> length ws" for ws
  proof (induction ws)
    case (Cons x ws)
    then show ?case by (cases x) auto
  qed simp
  from this [of "ls_workers l"] ok show ?thesis
    unfolding listener_ok_def whereabouts_def awake_def
    by (intro conjI) (simp_all only: mset_append add.assoc, auto)
qed

text \<open>
  C27: a shutdown serves what was accepted and ends. Once the accepting thread has set the stop flag
  and notified all workers, every run of the remaining threads is finite, of at most twice as many
  steps as there are queued connections and workers and one more; where no step is left, the server
  has returned, the queue is empty and every accepted connection was served or refused exactly once.
\<close>

theorem shutdown_serves_the_queue:
  assumes "listener_reaches options l" and "ls_acceptor l = Joining"
    and "(listener_step options ^^ n) l l'"
  shows "n \<le> 2 * (length (ls_queue l) + lo_worker_count options) + 1 \<and>
    ((\<exists>l''. listener_step options l' l'') \<or>
     ls_acceptor l' = Returned \<and> ls_queue l' = [] \<and>
     mset (ls_served l' @ ls_refused l') = mset [0 ..< ls_accepted l'])"
proof -
  have ok: "listener_ok options l" by (rule listener_reaches_ok [OF assms(1)])
  from draining_run [OF assms(3) ok] assms(2) have run: "listener_ok options l'"
    "ls_acceptor l' \<in> {Joining, Returned}" "work_left l' + n \<le> work_left l" by auto
  have "work_left l \<le> 2 * (length (ls_queue l) + lo_worker_count options) + 1"
    using work_bound [of "ls_workers l"] ok by (simp add: work_left_def listener_ok_def)
  moreover have "ls_queue l' = [] \<and> mset (ls_served l' @ ls_refused l') = mset [0 ..< ls_accepted l']"
    if returned: "ls_acceptor l' = Returned"
  proof -
    have ended: "\<forall>x \<in> set (ls_workers l'). x = Ended"
      using run(1) returned by (simp add: listener_ok_def all_ended_def list_all_iff)
    then have idle: "concat (map serving (ls_workers l')) = []" by (auto simp: concat_eq_Nil_conv)
    have "ls_workers l' \<noteq> []" using run(1) by (auto simp: listener_ok_def)
    then have "Ended \<in> set (ls_workers l')" using ended by (metis list.set_intros(1) neq_Nil_conv)
    then have empty: "ls_queue l' = []" using run(1) by (simp add: listener_ok_def)
    have "whereabouts l' = mset [0 ..< ls_accepted l']" using run(1) by (simp add: listener_ok_def)
    then show ?thesis unfolding whereabouts_def refusing_def idle empty returned by simp
  qed
  ultimately show ?thesis using run drained [OF run(1,2)] by fastforce
qed

section \<open>A concrete server\<close>

text \<open>One worker and room for one connection.\<close>

definition small_server :: ListenerOptions where
  "small_server = \<lparr>lo_worker_count = 1, lo_maximum_queued_connections = 1\<rparr>"

definition small_state :: "nat list \<Rightarrow> Worker \<Rightarrow> Acceptor \<Rightarrow> nat list \<Rightarrow> Listener" where
  "small_state queue worker acceptor served =
     \<lparr>ls_queue = queue, ls_stopping = (acceptor \<in> {Stopping, Joining, Returned}), ls_workers = [worker],
      ls_acceptor = acceptor, ls_accepted = 1, ls_served = served, ls_refused = [], ls_result = 0\<rparr>"

lemma small_server_accepts: "listener_reaches small_server (small_state [0] Awake Notifying [])"
proof -
  have "listener_reaches small_server ((small_state [] Awake Polling [])\<lparr>ls_accepted := 0\<rparr>)"
    by (rule listener_reaches.start) (simp add: run_start_def small_server_def small_state_def)
  from listener_reaches.step [OF this listener_step.accept] show ?thesis
    by (simp add: small_state_def take_connection_def small_server_def)
qed

lemma small_server_stops: "listener_reaches small_server (small_state [0] Awake Joining [])"
proof -
  have "listener_reaches small_server (small_state [0] Awake Polling [])"
    using listener_reaches.step [OF small_server_accepts listener_step.notify_nobody]
    by (simp add: small_state_def)
  from listener_reaches.step [OF this listener_step.shutdown]
  have "listener_reaches small_server (small_state [0] Awake Leaving [])"
    by (simp add: small_state_def)
  from listener_reaches.step [OF this listener_step.stop]
  have "listener_reaches small_server (small_state [0] Awake Stopping [])"
    by (simp add: small_state_def)
  from listener_reaches.step [OF this listener_step.notify_all] show ?thesis
    by (simp add: small_state_def)
qed

lemma small_server_drains:
  "(listener_step small_server ^^ 4) (small_state [0] Awake Joining []) (small_state [] Ended Returned [0])"
proof -
  have "listener_step small_server (small_state [0] Awake Joining []) (small_state [] (Serving 0) Joining [])"
    using listener_step.check [of 0 "small_state [0] Awake Joining []" small_server]
    by (simp add: small_state_def worker_check_def)
  moreover have "listener_step small_server (small_state [] (Serving 0) Joining []) (small_state [] Awake Joining [0])"
    using listener_step.serve [of 0 "small_state [] (Serving 0) Joining []" 0 small_server]
    by (simp add: small_state_def)
  moreover have "listener_step small_server (small_state [] Awake Joining [0]) (small_state [] Ended Joining [0])"
    using listener_step.check [of 0 "small_state [] Awake Joining [0]" small_server]
    by (simp add: small_state_def worker_check_def)
  moreover have "listener_step small_server (small_state [] Ended Joining [0]) (small_state [] Ended Returned [0])"
    using listener_step.return [of "small_state [] Ended Joining [0]" small_server]
    by (simp add: small_state_def all_ended_def)
  ultimately show ?thesis by (auto simp: numeral_eq_Suc relcompp.simps)
qed

theorem connections_are_conserved_witness:
  "listener_reaches small_server (small_state [0] Awake Notifying []) \<and>
   mset (ls_queue (small_state [0] Awake Notifying [])) = mset [0 ..< 1]"
  using connections_are_conserved [OF small_server_accepts] small_server_accepts
  by (simp add: small_state_def refusing_def)

theorem shutdown_serves_the_queue_witness:
  "(listener_step small_server ^^ 4) (small_state [0] Awake Joining []) (small_state [] Ended Returned [0]) \<and>
   (4 :: nat) \<le> 5 \<and> mset (ls_served (small_state [] Ended Returned [0])) = mset [0 ..< 1]"
proof -
  have "ls_acceptor (small_state [0] Awake Joining []) = Joining" by (simp add: small_state_def)
  note shutdown_serves_the_queue [OF small_server_stops this small_server_drains]
  moreover have "\<not> listener_step small_server (small_state [] Ended Returned [0]) l" for l
    by (auto simp: small_state_def elim: listener_stepE)
  ultimately show ?thesis
    using small_server_drains by (auto simp: small_state_def)
qed

end
