(* ===== verification/Server_Process.thy ===== *)
theory Server_Process
  imports Control_Plane_Http
begin

text \<open>
  The control-plane executable (\<open>apps/control-plane/src/main.cpp\<close>): its command line and the
  configurations it accepts, the two identity providers with the file of accounts, the identifiers it
  generates, the metrics in front of the HTTP application, and one round of the maintenance thread.
  The contents of files, the random words, and the query for expired sessions of the database are
  parameters.
\<close>

section \<open>Options\<close>

datatype StartupError = Invalid_argument string | Runtime_error string

record Options =
  op_database_path :: string
  op_listen_address :: string
  op_port :: u16
  op_http_workers :: u64
  op_http_queue_capacity :: u64
  op_bootstrap_token_file :: string
  op_bootstrap_player :: string
  op_identity_file :: string
  op_livekit_url :: string
  op_livekit_control_url :: string
  op_livekit_api_key :: string
  op_livekit_api_secret_file :: string
  op_show_help :: bool

definition Options_default :: Options where
  "Options_default =
     \<lparr>op_database_path = ''hvc-control-plane.db'', op_listen_address = [], op_port = 8080,
      op_http_workers = 8, op_http_queue_capacity = 64, op_bootstrap_token_file = [],
      op_bootstrap_player = [], op_identity_file = [], op_livekit_url = [],
      op_livekit_control_url = [], op_livekit_api_key = [], op_livekit_api_secret_file = [],
      op_show_help = False\<rparr>"

text \<open>\<open>std::from_chars\<close> for \<open>unsigned int\<close>, of 32 bits.\<close>

definition from_chars_u32 :: "string \<Rightarrow> (u32 \<times> string) option" where
  "from_chars_u32 s =
     (let ds = takeWhile is_digit s in
      if ds = [] \<or> 2 ^ 32 \<le> digits_value ds then None
      else Some (word_of_nat (digits_value ds), dropWhile is_digit s))"

definition parsePort :: "string \<Rightarrow> StartupError + u16" where
  "parsePort value =
     (let failed = Inl (Invalid_argument ''The port must be an integer from 1 through 65535.'') in
      case from_chars_u32 value of
        None \<Rightarrow> failed
      | Some (port, rest) \<Rightarrow>
          if rest \<noteq> [] \<or> port = 0 \<or> 65535 < port then failed else Inr (ucast port))"

definition parsePositiveSize :: "string \<Rightarrow> string \<Rightarrow> StartupError + u64" where
  "parsePositiveSize value description =
     (let failed = Inl (Invalid_argument (description @ '' must be a positive integer.'')) in
      case from_chars value of
        None \<Rightarrow> failed
      | Some (parsed, rest) \<Rightarrow> if rest \<noteq> [] \<or> parsed = 0 then failed else Inr parsed)"

definition set_option :: "string \<Rightarrow> string \<Rightarrow> Options \<Rightarrow> StartupError + Options" where
  "set_option argument value options =
     (if argument = ''--database'' then Inr (options\<lparr>op_database_path := value\<rparr>)
      else if argument = ''--listen'' then Inr (options\<lparr>op_listen_address := value\<rparr>)
      else if argument = ''--port''
      then throws_bind (parsePort value) (\<lambda>port. Inr (options\<lparr>op_port := port\<rparr>))
      else if argument = ''--http-workers''
      then throws_bind (parsePositiveSize value ''HTTP worker count'')
             (\<lambda>n. Inr (options\<lparr>op_http_workers := n\<rparr>))
      else if argument = ''--http-queue-capacity''
      then throws_bind (parsePositiveSize value ''HTTP queue capacity'')
             (\<lambda>n. Inr (options\<lparr>op_http_queue_capacity := n\<rparr>))
      else if argument = ''--bootstrap-token-file''
      then Inr (options\<lparr>op_bootstrap_token_file := value\<rparr>)
      else if argument = ''--bootstrap-player'' then Inr (options\<lparr>op_bootstrap_player := value\<rparr>)
      else if argument = ''--identity-file'' then Inr (options\<lparr>op_identity_file := value\<rparr>)
      else if argument = ''--livekit-url'' then Inr (options\<lparr>op_livekit_url := value\<rparr>)
      else if argument = ''--livekit-control-url''
      then Inr (options\<lparr>op_livekit_control_url := value\<rparr>)
      else if argument = ''--livekit-api-key'' then Inr (options\<lparr>op_livekit_api_key := value\<rparr>)
      else if argument = ''--livekit-api-secret-file''
      then Inr (options\<lparr>op_livekit_api_secret_file := value\<rparr>)
      else Inl (Invalid_argument (''Unknown argument: '' @ argument)))"

text \<open>The arguments after the program's name.\<close>

fun parseOptions :: "string list \<Rightarrow> Options \<Rightarrow> StartupError + Options" where
  "parseOptions [] options = Inr options"
| "parseOptions (argument # arguments) options =
     (if argument = ''--help'' then parseOptions arguments (options\<lparr>op_show_help := True\<rparr>)
      else
        (case arguments of
           [] \<Rightarrow> Inl (Invalid_argument (''A value is missing after '' @ argument @ ''.''))
         | value # rest \<Rightarrow> throws_bind (set_option argument value options) (parseOptions rest)))"

section \<open>Configurations\<close>

datatype IdentityMode = Accounts_from string | Bootstrap_with string string

datatype ServerMode =
    Show_help
  | Check_database
  | Serve IdentityMode bool

text \<open>What \<open>main\<close> decides from the options; \<open>Serve\<close> tells whether LiveKit is integrated.\<close>

definition server_mode :: "Options \<Rightarrow> StartupError + ServerMode" where
  "server_mode options =
     (let bootstrap = op_bootstrap_token_file options \<noteq> [] \<or> op_bootstrap_player options \<noteq> [];
          any_livekit = op_livekit_url options \<noteq> [] \<or> op_livekit_control_url options \<noteq> [] \<or>
            op_livekit_api_key options \<noteq> [] \<or> op_livekit_api_secret_file options \<noteq> [];
          all_livekit = op_livekit_url options \<noteq> [] \<and> op_livekit_api_key options \<noteq> [] \<and>
            op_livekit_api_secret_file options \<noteq> []
      in if op_show_help options then Inr Show_help
         else if op_listen_address options = []
         then (if bootstrap \<or> op_identity_file options \<noteq> [] \<or> any_livekit
               then Inl (Invalid_argument ''Authentication and LiveKit options require --listen.'')
               else Inr Check_database)
         else if bootstrap \<and> (op_bootstrap_token_file options = [] \<or> op_bootstrap_player options = [])
         then Inl (Invalid_argument
           ''Bootstrap mode requires both --bootstrap-token-file and --bootstrap-player.'')
         else if bootstrap = (op_identity_file options \<noteq> [])
         then Inl (Invalid_argument
           ''--listen requires exactly one of --identity-file or bootstrap mode.'')
         else if any_livekit \<and> \<not> all_livekit
         then Inl (Invalid_argument ''LiveKit integration requires URL, API key and API secret file.'')
         else Inr (Serve
           (if op_identity_file options \<noteq> [] then Accounts_from (op_identity_file options)
            else Bootstrap_with (op_bootstrap_token_file options) (op_bootstrap_player options))
           all_livekit))"

section \<open>Credentials\<close>

text \<open>A file is its contents, or nothing when it cannot be opened.\<close>

definition readCredentialFile :: "string option \<Rightarrow> string \<Rightarrow> StartupError + string" where
  "readCredentialFile file description =
     (case file of
        None \<Rightarrow> Inl (Runtime_error (''Cannot open the '' @ description @ '' file.''))
      | Some contents \<Rightarrow>
          (let credential =
             rev (dropWhile (\<lambda>c. c = CHR 0x0D \<or> c = CHR 0x0A) (rev contents))
           in if credential = []
              then Inl (Runtime_error (''The '' @ description @ '' file is empty.''))
              else Inr credential))"

definition char_at :: "string \<Rightarrow> nat \<Rightarrow> nat" where
  "char_at s i = (if i < length s then byte (s ! i) else 0)"

fun differences :: "string \<Rightarrow> string \<Rightarrow> nat \<Rightarrow> nat \<Rightarrow> nat \<Rightarrow> nat" where
  "differences left right index 0 difference = difference"
| "differences left right index (Suc n) difference =
     differences left right (Suc index) n
       (or difference (xor (char_at left index) (char_at right index)))"

text \<open>\<open>std::size_t\<close> values are natural numbers: a string is shorter than the address space.\<close>

definition constantTimeEqual :: "string \<Rightarrow> string \<Rightarrow> bool" where
  "constantTimeEqual left right \<longleftrightarrow>
     differences left right 0 (max (length left) (length right)) (xor (length left) (length right)) = 0"

section \<open>Identifiers\<close>

definition hexadecimal :: string where
  "hexadecimal = ''0123456789abcdef''"

definition word_digits :: "u32 \<Rightarrow> string" where
  "word_digits w =
     map (\<lambda>shift. hexadecimal ! unat (and (drop_bit shift w) 0x0F)) [28, 24, 20, 16, 12, 8, 4, 0]"

text \<open>The prefix and the digits of four words of the random device.\<close>

definition generate :: "string \<Rightarrow> (nat \<Rightarrow> u32) \<Rightarrow> nat \<Rightarrow> string \<times> nat" where
  "generate prefix random_device n =
     (prefix @ concat (map (\<lambda>i. word_digits (random_device (n + i))) [0, 1, 2, 3]), n + 4)"

definition next_transmission_id :: "(nat \<Rightarrow> u32) \<Rightarrow> nat \<Rightarrow> TransmissionId \<times> nat" where
  "next_transmission_id random_device n =
     (let (identifier, n') = generate ''tx_'' random_device n in (StrongId identifier, n'))"

definition next_session_id :: "(nat \<Rightarrow> u32) \<Rightarrow> nat \<Rightarrow> SessionId \<times> nat" where
  "next_session_id random_device n =
     (let (identifier, n') = generate ''ses_'' random_device n in (StrongId identifier, n'))"

section \<open>Identity providers\<close>

definition session_lifetime :: milliseconds where
  "session_lifetime = 15 * 60 * 1000"

definition verified :: "PlayerId \<Rightarrow> SessionAuthenticationError + VerifiedIdentity" where
  "verified player = Inr \<lparr>vi_player_id = player, vi_maximum_session_lifetime = session_lifetime\<rparr>"

definition bootstrap_verify ::
  "string \<Rightarrow> PlayerId \<Rightarrow> string \<Rightarrow> SessionAuthenticationError + VerifiedIdentity" where
  "bootstrap_verify expected player credential =
     (if \<not> constantTimeEqual credential expected then Inl Auth_invalid_credentials else verified player)"

record DeploymentIdentity =
  dy_credential :: string
  dy_player_id :: PlayerId
  dy_allowed_devices :: "string list"

lemma rest_shorter: "s \<noteq> [] \<Longrightarrow> length (drop 1 (dropWhile P s)) < length s"
  using length_dropWhile_le [of P s] by (cases s) (auto intro: le_less_trans)

text \<open>\<open>std::getline\<close> until the end of the stream, and once.\<close>

function getlines :: "char \<Rightarrow> string \<Rightarrow> string list" where
  "getlines separator s =
     (if s = [] then []
      else takeWhile (\<lambda>c. c \<noteq> separator) s #
        getlines separator (drop 1 (dropWhile (\<lambda>c. c \<noteq> separator) s)))"
  by pat_completeness auto
termination
  by (relation "measure (\<lambda>(separator, s). length s)")
    (simp_all only: rest_shorter in_measure wf_measure split not_False_eq_True)

declare getlines.simps [simp del]

definition getline :: "char \<Rightarrow> string \<Rightarrow> (string \<times> string) option" where
  "getline separator s =
     (if s = [] then None
      else Some (takeWhile (\<lambda>c. c \<noteq> separator) s, drop 1 (dropWhile (\<lambda>c. c \<noteq> separator) s)))"

definition tab :: char where "tab = CHR 0x09"
definition newline :: char where "newline = CHR 0x0A"

text \<open>The three fields of a row.\<close>

definition row_fields :: "string \<Rightarrow> (string \<times> string \<times> string) option" where
  "row_fields line =
     (case getline tab line of
        None \<Rightarrow> None
      | Some (credential, rest) \<Rightarrow>
          (case getline tab rest of
             None \<Rightarrow> None
           | Some (player, rest') \<Rightarrow>
               (case getline newline rest' of
                  None \<Rightarrow> None
                | Some (devices, rest'') \<Rightarrow>
                    if credential = [] \<or> player = [] \<or> devices = [] then None
                    else Some (credential, player, devices))))"

definition strip_return :: "string \<Rightarrow> string" where
  "strip_return s = (if s \<noteq> [] \<and> last s = CHR 0x0D then butlast s else s)"

definition allowed_devices :: "string \<Rightarrow> string list" where
  "allowed_devices devices = filter (\<lambda>device. device \<noteq> []) (getlines (CHR '','') devices)"

definition read_row ::
  "string \<Rightarrow> nat \<Rightarrow> DeploymentIdentity list \<Rightarrow> StartupError + DeploymentIdentity list" where
  "read_row line line_number identities =
     (if line = [] \<or> hd line = CHR ''#'' then Inr identities
      else
        (case row_fields line of
           None \<Rightarrow> Inl (Runtime_error (''Invalid identity file row '' @ decimal line_number @ ''.''))
         | Some (credential, player, devices) \<Rightarrow>
             if strip_return devices = []
             then Inl (Runtime_error ''Identity row has no allowed device.'')
             else if list_ex (\<lambda>identity. constantTimeEqual credential (dy_credential identity) \<or>
                    id_value (dy_player_id identity) = player) identities
             then Inl (Runtime_error
               (''Duplicate credential or player in identity row '' @ decimal line_number @ ''.''))
             else if allowed_devices (strip_return devices) = []
             then Inl (Runtime_error ''Identity row has no allowed device.'')
             else Inr (identities @
               [\<lparr>dy_credential = credential, dy_player_id = StrongId player,
                 dy_allowed_devices = allowed_devices (strip_return devices)\<rparr>])))"

fun read_rows ::
  "string list \<Rightarrow> nat \<Rightarrow> DeploymentIdentity list \<Rightarrow> StartupError + DeploymentIdentity list" where
  "read_rows [] line_number identities = Inr identities"
| "read_rows (line # lines) line_number identities =
     throws_bind (read_row line (line_number + 1) identities) (read_rows lines (line_number + 1))"

definition MultiUserIdentityProvider_ctor :: "string option \<Rightarrow> StartupError + DeploymentIdentity list" where
  "MultiUserIdentityProvider_ctor file =
     (case file of
        None \<Rightarrow> Inl (Runtime_error ''Cannot open the identity file.'')
      | Some contents \<Rightarrow>
          throws_bind (read_rows (getlines newline contents) 0 []) (\<lambda>identities.
            if length identities < 2
            then Inl (Runtime_error ''Production identity mode requires at least two configured accounts.'')
            else Inr identities))"

text \<open>The loop keeps the last account whose credential matches.\<close>

fun selected_identity ::
  "string \<Rightarrow> DeploymentIdentity list \<Rightarrow> DeploymentIdentity option \<Rightarrow> DeploymentIdentity option" where
  "selected_identity credential [] selected = selected"
| "selected_identity credential (identity # identities) selected =
     selected_identity credential identities
       (if constantTimeEqual credential (dy_credential identity) then Some identity else selected)"

definition accounts_verify ::
  "DeploymentIdentity list \<Rightarrow> string \<Rightarrow> DeviceId \<Rightarrow> SessionAuthenticationError + VerifiedIdentity" where
  "accounts_verify identities credential device_id =
     (case selected_identity credential identities None of
        None \<Rightarrow> Inl Auth_invalid_credentials
      | Some selected \<Rightarrow>
          if ''*'' \<in> set (dy_allowed_devices selected) \<or>
             id_value device_id \<in> set (dy_allowed_devices selected)
          then verified (dy_player_id selected) else Inl Auth_device_not_allowed)"

section \<open>Metrics\<close>

record ('m, 'g, 'i) RuntimeHandler =
  rt_api :: "('m, 'g, 'i) HttpState"
  rt_request_count :: u64
  rt_error_count :: u64

definition metrics_text :: "u64 \<Rightarrow> u64 \<Rightarrow> nat \<Rightarrow> u64 \<Rightarrow> u64 \<Rightarrow> string" where
  "metrics_text requests errors talking failures dropped =
     ''hvc_http_requests_total '' @ to_string_u64 requests @ [newline] @
     ''hvc_http_error_responses_total '' @ to_string_u64 errors @ [newline] @
     ''hvc_active_transmissions '' @ decimal talking @ [newline] @
     ''hvc_livekit_operation_failures_total '' @ to_string_u64 failures @ [newline] @
     ''hvc_sqlite_dropped_audit_events_total '' @ to_string_u64 dropped @ [newline]"

text \<open>\<open>failures\<close> and \<open>dropped\<close> are the counts of the publication controller and of the database.\<close>

definition runtime_handle ::
  "('m, 'g, 'i) HttpAdapter \<Rightarrow> u64 \<Rightarrow> u64 \<Rightarrow> HttpRequest \<Rightarrow> time_point \<Rightarrow>
   ('m, 'g, 'i) RuntimeHandler \<Rightarrow> HttpResponse \<times> ('m, 'g, 'i) RuntimeHandler" where
  "runtime_handle a failures dropped request now h =
     (let h = h\<lparr>rt_request_count := rt_request_count h + 1\<rparr> in
      if hq_method request = ''GET'' \<and> hq_target request = ''/api/v1/metrics''
      then
        (\<lparr>hr_status_code = 200,
          hr_headers =
            [(''cache-control'', ''no-store''),
             (''content-type'', ''text/plain; version=0.0.4; charset=utf-8''),
             (''x-hvc-api-version'', ''v1'')],
          hr_body = metrics_text (rt_request_count h) (rt_error_count h)
            (length (sto_active (hs_store (rt_api h)))) failures dropped\<rparr>, h)
      else
        (let (response, s) = handle a request now (rt_api h); h = h\<lparr>rt_api := s\<rparr>
         in (response,
             if 400 \<le> hr_status_code response then h\<lparr>rt_error_count := rt_error_count h + 1\<rparr> else h)))"

section \<open>Maintenance\<close>

record ('m, 'g) Maintenance =
  mt_service :: "('m, 'g) Service"
  mt_next_session_sweep :: time_point
  mt_next_retention_sweep :: time_point

definition seconds :: "int \<Rightarrow> int" where
  "seconds n = ticks (n * 1000)"

text \<open>\<open>repository.erase\<close>: the database is what the store asks for sessions it does not hold itself.\<close>

definition erase_session :: "SessionId \<Rightarrow> 'm Store \<Rightarrow> 'm Store" where
  "erase_session sid s =
     s\<lparr>sto_persistent_sessions := map_option (\<lambda>f. f(sid := None)) (sto_persistent_sessions s)\<rparr>"

fun remove_sessions ::
  "SessionId list \<Rightarrow> time_point \<Rightarrow> 'm Store \<Rightarrow> 'm Store" where
  "remove_sessions [] now s = s"
| "remove_sessions (sid # sids) now s =
     remove_sessions sids now
       (erase_session sid (snd (removeSession sid now (StrongId ''scheduler-session-cleanup'') s)))"

text \<open>
  One round. \<open>expired_sessions\<close> is the query of the database; the erasure of old audit events is a
  query of the database too and touches nothing that is modelled.
\<close>

definition maintenance_round ::
  "((SessionId \<Rightarrow> AuthenticatedSession option) \<Rightarrow> time_point \<Rightarrow> nat \<Rightarrow> SessionId list) \<Rightarrow>
   time_point \<Rightarrow> ('m, 'g) Maintenance \<Rightarrow> ('m, 'g) Maintenance" where
  "maintenance_round expired_sessions now mt =
     (let v = snd (expire_service now (StrongId ''scheduler-timeout'') (mt_service mt));
          mt1 = mt\<lparr>mt_service := v\<rparr>;
          sids = (case sto_persistent_sessions (sv_store v) of
                    None \<Rightarrow> [] | Some f \<Rightarrow> expired_sessions f now 256);
          mt2 = (if mt_next_session_sweep mt1 \<le> now
                 then mt1\<lparr>mt_service := v\<lparr>sv_store := remove_sessions sids now (sv_store v)\<rparr>,
                          mt_next_session_sweep := now + seconds 5\<rparr>
                 else mt1)
      in if mt_next_retention_sweep mt2 \<le> now
         then mt2\<lparr>mt_next_retention_sweep := now + seconds 60\<rparr> else mt2)"

end
