(* ===== verification/Server_Process_Properties.thy ===== *)
theory Server_Process_Properties
  imports Server_Process
begin

text \<open>
  Who can log in with a file of accounts, what the server makes of such a file, and what a round of
  the maintenance thread ends.
\<close>

section \<open>Comparing credentials\<close>

lemma or_zero_iff: "or (a :: nat) b = 0 \<longleftrightarrow> a = 0 \<and> b = 0"
  by (auto simp: bit_eq_iff bit_or_iff)

lemma xor_zero_iff: "xor (a :: nat) b = 0 \<longleftrightarrow> a = b"
  by (auto simp: bit_eq_iff bit_xor_iff)

lemma differences_zero_iff:
  "differences left right index n difference = 0 \<longleftrightarrow>
     difference = 0 \<and> (\<forall>i < n. char_at left (index + i) = char_at right (index + i))"
proof (induction n arbitrary: index difference)
  case (Suc n)
  have "(\<forall>i < Suc n. char_at left (index + i) = char_at right (index + i)) \<longleftrightarrow>
      char_at left index = char_at right index \<and>
      (\<forall>i < n. char_at left (Suc index + i) = char_at right (Suc index + i))"
    by (auto simp: less_Suc_eq_0_disj)
  with Suc.IH show ?case by (auto simp: or_zero_iff xor_zero_iff)
qed simp

text \<open>The comparison that looks at every character decides equality.\<close>

lemma constantTimeEqual_iff [simp]: "constantTimeEqual left right \<longleftrightarrow> left = right"
proof
  assume "constantTimeEqual left right"
  then have same: "length left = length right" "\<forall>i < length left. char_at left i = char_at right i"
    by (auto simp: constantTimeEqual_def differences_zero_iff xor_zero_iff)
  then show "left = right"
    by (intro nth_equalityI) (auto simp: char_at_def)
qed (simp add: constantTimeEqual_def differences_zero_iff)

section \<open>Numbers on the command line\<close>

lemma takeWhile_all: "takeWhile P s = s \<longleftrightarrow> list_all P s"
  by (induction s) auto

lemma parsePort_iff:
  "parsePort value = Inr port \<longleftrightarrow>
     value \<noteq> [] \<and> list_all is_digit value \<and> 0 < digits_value value \<and> digits_value value \<le> 65535 \<and>
     unat port = digits_value value"
proof -
  have range: "((word_of_nat n :: u32) = 0 \<or> 65535 < (word_of_nat n :: u32)) \<longleftrightarrow> n = 0 \<or> 65535 < n"
    and port: "n \<le> 65535 \<Longrightarrow> unat (ucast (word_of_nat n :: u32) :: u16) = n"
    if "n < 2 ^ 32" for n
  proof -
    have word: "unat (word_of_nat n :: u32) = n"
      using that by (simp add: unsigned_of_nat take_bit_nat_eq_self)
    then show "((word_of_nat n :: u32) = 0 \<or> 65535 < (word_of_nat n :: u32)) \<longleftrightarrow> n = 0 \<or> 65535 < n"
      by (auto simp: word_less_nat_alt)
    show "n \<le> 65535 \<Longrightarrow> unat (ucast (word_of_nat n :: u32) :: u16) = n"
      using word by (simp add: unsigned_ucast_eq take_bit_nat_eq_self)
  qed
  have all: "dropWhile is_digit value = [] \<longleftrightarrow> takeWhile is_digit value = value"
    by (metis append_Nil2 append_self_conv takeWhile_dropWhile_id)
  show ?thesis
  proof (cases "takeWhile is_digit value = value \<and> value \<noteq> [] \<and> digits_value value < 2 ^ 32")
    case True
    note digits = conjunct1 [OF True] and rest = iffD2 [OF all conjunct1 [OF True]]
    have parsed: "parsePort value =
        (if digits_value value = 0 \<or> 65535 < digits_value value
         then Inl (Invalid_argument ''The port must be an integer from 1 through 65535.'')
         else Inr (ucast (word_of_nat (digits_value value) :: u32)))"
      using range [of "digits_value value"] True
      unfolding parsePort_def from_chars_u32_def Let_def digits rest by simp
    have "list_all is_digit value" "value \<noteq> []" using True by (simp_all add: list_all_iff)
    moreover have "ucast (word_of_nat (digits_value value) :: u32) = port \<longleftrightarrow>
        unat port = digits_value value" if "digits_value value \<le> 65535"
      using port [of "digits_value value"] True that by (metis word_unat_eq_iff)
    ultimately show ?thesis by (auto simp: parsed not_less)
  next
    case False
    show ?thesis
    proof (cases "takeWhile is_digit value = value")
      case True
      then have "list_all is_digit value" "value = [] \<or> 2 ^ 32 \<le> digits_value value"
        using False by (auto simp: list_all_iff)
      then show ?thesis
        unfolding parsePort_def from_chars_u32_def Let_def True by auto
    next
      case False
      then have "dropWhile is_digit value \<noteq> []" "\<not> list_all is_digit value"
        using all by (auto simp: list_all_iff)
      then show ?thesis
        unfolding parsePort_def from_chars_u32_def Let_def
        by (auto simp del: dropWhile_eq_Nil_conv split: if_splits)
    qed
  qed
qed

section \<open>Identifiers\<close>

lemma hexadecimal_inject:
  assumes "i < 16" and "j < 16"
  shows "hexadecimal ! i = hexadecimal ! j \<longleftrightarrow> i = j"
proof -
  have "distinct hexadecimal" "length hexadecimal = 16" by (simp_all add: hexadecimal_def)
  with assms show ?thesis by (simp add: nth_eq_iff_index_eq)
qed

lemma digit_bound: "unat (and w 0x0F :: u32) < 16"
proof -
  have "and w 0x0F = take_bit 4 w" by (simp add: take_bit_eq_mask mask_eq_exp_minus_1)
  then have "unat (and w 0x0F) = take_bit 4 (unat w)" by (simp add: unsigned_take_bit_eq)
  then show ?thesis using take_bit_nat_less_exp [of 4 "unat w"] by simp
qed

text \<open>A word is determined by its digits, so different random words give different identifiers.\<close>

lemma word_digits_inject: "word_digits v = word_digits w \<longleftrightarrow> v = w"
proof
  assume "word_digits v = word_digits w"
  then have "hexadecimal ! unat (and (drop_bit s v) 0x0F) = hexadecimal ! unat (and (drop_bit s w) 0x0F)"
    if "s \<in> set [28, 24, 20, 16, 12, 8, 4, 0]" for s
    using that by (auto simp: word_digits_def)
  then have "and (drop_bit s v) 0x0F = and (drop_bit s w) 0x0F"
    if "s \<in> set [28, 24, 20, 16, 12, 8, 4, 0]" for s
    using that hexadecimal_inject [OF digit_bound digit_bound] by (metis word_unat_eq_iff)
  then have same: "take_bit 4 (drop_bit s v) = take_bit 4 (drop_bit s w)"
    if "s \<in> set [28, 24, 20, 16, 12, 8, 4, 0]" for s
    using that by (simp add: take_bit_eq_mask mask_eq_exp_minus_1)
  show "v = w"
  proof (rule bit_word_eqI)
    fix n :: nat
    assume "n < LENGTH(32)"
    then have n: "n < 32" by simp
    let ?s = "n - n mod 4"
    have "?s \<in> set [28, 24, 20, 16, 12, 8, 4, 0]"
      using n by (simp add: minus_mod_eq_mult_div) presburger
    from arg_cong [OF same [OF this], of "\<lambda>x. bit x (n mod 4)"] show "bit v n \<longleftrightarrow> bit w n"
      by (simp add: bit_take_bit_iff bit_drop_bit_eq)
  qed
qed simp

section \<open>Lines and fields\<close>

lemma until_separator:
  assumes "separator \<notin> set s"
  shows "takeWhile (\<lambda>c. c \<noteq> separator) (s @ separator # rest) = s"
    and "dropWhile (\<lambda>c. c \<noteq> separator) (s @ separator # rest) = separator # rest"
    and "takeWhile (\<lambda>c. c \<noteq> separator) s = s" and "dropWhile (\<lambda>c. c \<noteq> separator) s = []"
  using assms by (induction s) auto

lemma getlines_Nil [simp]: "getlines separator [] = []"
  by (simp add: getlines.simps)

lemma getlines_one_line:
  assumes "separator \<notin> set line"
  shows "getlines separator (line @ separator # rest) = line # getlines separator rest"
    and "line \<noteq> [] \<Longrightarrow> getlines separator line = [line]"
  unfolding getlines.simps [of separator "line @ separator # rest"] getlines.simps [of separator line]
    until_separator [OF assms]
  by simp_all

lemma getline_field:
  assumes "separator \<notin> set field"
  shows "getline separator (field @ separator # rest) = Some (field, rest)"
    and "field \<noteq> [] \<Longrightarrow> getline separator field = Some (field, [])"
  unfolding getline_def until_separator [OF assms] by simp_all

section \<open>The file of accounts\<close>

fun comma_separated :: "string list \<Rightarrow> string" where
  "comma_separated [] = []"
| "comma_separated [device] = device"
| "comma_separated (device # devices) = device @ CHR '','' # comma_separated devices"

definition account_row :: "DeploymentIdentity \<Rightarrow> string" where
  "account_row x =
     dy_credential x @ tab # id_value (dy_player_id x) @ tab # comma_separated (dy_allowed_devices x)"

definition accounts_file :: "DeploymentIdentity list \<Rightarrow> string" where
  "accounts_file xs = concat (map (\<lambda>x. account_row x @ [newline]) xs)"

definition account_ok :: "DeploymentIdentity \<Rightarrow> bool" where
  "account_ok x \<longleftrightarrow>
     dy_credential x \<noteq> [] \<and> hd (dy_credential x) \<noteq> CHR ''#'' \<and>
     {tab, newline} \<inter> set (dy_credential x) = {} \<and>
     id_value (dy_player_id x) \<noteq> [] \<and> {tab, newline} \<inter> set (id_value (dy_player_id x)) = {} \<and>
     dy_allowed_devices x \<noteq> [] \<and>
     (\<forall>device \<in> set (dy_allowed_devices x).
        device \<noteq> [] \<and> {CHR '','', newline, CHR 0x0D} \<inter> set device = {})"

lemma devices_read:
  assumes "devices \<noteq> []" and "\<forall>device \<in> set devices. device \<noteq> [] \<and> CHR '','' \<notin> set device"
  shows "getlines (CHR '','') (comma_separated devices) = devices"
  using assms
  by (induction devices rule: comma_separated.induct) (auto simp: getlines_one_line)

lemma comma_separated_chars:
  "set (comma_separated devices) \<subseteq> insert (CHR '','') (\<Union>device \<in> set devices. set device)"
  by (induction devices rule: comma_separated.induct) auto

lemma comma_separated_Nil:
  "\<forall>device \<in> set devices. device \<noteq> [] \<Longrightarrow> devices \<noteq> [] \<Longrightarrow> comma_separated devices \<noteq> []"
  by (induction devices rule: comma_separated.induct) auto

lemma account_row_read:
  assumes "account_ok x"
  shows "account_row x \<noteq> []" and "hd (account_row x) \<noteq> CHR ''#''" and "newline \<notin> set (account_row x)"
    and "row_fields (account_row x) =
      Some (dy_credential x, id_value (dy_player_id x), comma_separated (dy_allowed_devices x))"
    and "strip_return (comma_separated (dy_allowed_devices x)) = comma_separated (dy_allowed_devices x)"
    and "allowed_devices (comma_separated (dy_allowed_devices x)) = dy_allowed_devices x"
proof -
  let ?devices = "comma_separated (dy_allowed_devices x)"
  have ok: "dy_credential x \<noteq> []" "hd (dy_credential x) \<noteq> CHR ''#''" "tab \<notin> set (dy_credential x)"
    "newline \<notin> set (dy_credential x)" "id_value (dy_player_id x) \<noteq> []"
    "tab \<notin> set (id_value (dy_player_id x))" "newline \<notin> set (id_value (dy_player_id x))"
    "dy_allowed_devices x \<noteq> []"
    "\<forall>device \<in> set (dy_allowed_devices x). device \<noteq> [] \<and> CHR '','' \<notin> set device \<and>
       newline \<notin> set device \<and> CHR 0x0D \<notin> set device"
    using assms by (auto simp: account_ok_def)
  have clean: "newline \<notin> set ?devices" "CHR 0x0D \<notin> set ?devices" "?devices \<noteq> []"
    using ok(8,9) comma_separated_chars [of "dy_allowed_devices x"] comma_separated_Nil
    by (auto simp: newline_def)
  show "account_row x \<noteq> []" "hd (account_row x) \<noteq> CHR ''#''" "newline \<notin> set (account_row x)"
    using ok clean by (auto simp: account_row_def tab_def newline_def hd_append)
  show "row_fields (account_row x) = Some (dy_credential x, id_value (dy_player_id x), ?devices)"
    using ok clean getline_field by (simp add: row_fields_def account_row_def)
  show "strip_return ?devices = ?devices"
    by (metis clean(2,3) last_in_set strip_return_def)
  have "filter (\<lambda>device. device \<noteq> []) (dy_allowed_devices x) = dy_allowed_devices x"
    using ok(9) by (simp add: filter_id_conv)
  then show "allowed_devices ?devices = dy_allowed_devices x"
    using devices_read [OF ok(8)] ok(9) by (simp add: allowed_devices_def)
qed

lemma rows_read:
  assumes "\<forall>x \<in> set xs. account_ok x" and "distinct (map dy_credential (ys @ xs))"
    and "distinct (map dy_player_id (ys @ xs))"
  shows "read_rows (getlines newline (accounts_file xs)) n ys = Inr (ys @ xs)"
  using assms
proof (induction xs arbitrary: ys n)
  case Nil
  then show ?case by (simp add: accounts_file_def getlines.simps)
next
  case (Cons x xs)
  have x: "account_ok x" using Cons.prems(1) by simp
  note row = account_row_read [OF x]
  have "comma_separated (dy_allowed_devices x) \<noteq> []"
    using x comma_separated_Nil by (auto simp: account_ok_def)
  moreover have "\<not> list_ex (\<lambda>identity. dy_credential x = dy_credential identity \<or>
      id_value (dy_player_id identity) = id_value (dy_player_id x)) ys"
    using Cons.prems(2,3) by (auto simp: list_ex_iff image_iff StrongId.expand)
  moreover have "dy_allowed_devices x \<noteq> []" using x by (simp add: account_ok_def)
  moreover have "\<lparr>dy_credential = dy_credential x, dy_player_id = StrongId (id_value (dy_player_id x)),
      dy_allowed_devices = dy_allowed_devices x\<rparr> = x" by simp
  ultimately have "read_row (account_row x) (n + 1) ys = Inr (ys @ [x])"
    using row by (simp add: read_row_def)
  moreover have "getlines newline (accounts_file (x # xs)) =
      account_row x # getlines newline (accounts_file xs)"
    using getlines_one_line(1) [OF row(3)] by (simp add: accounts_file_def)
  ultimately show ?case using Cons.IH [of "ys @ [x]" "n + 1"] Cons.prems by simp
qed

text \<open>
  A file of accounts is read as it was written. The rows of at least two accounts with distinct
  credentials and players, whose fields hold no separators and whose credentials do not begin with a
  comment sign, load as exactly these accounts.
\<close>

theorem accounts_file_round_trip:
  assumes "\<forall>x \<in> set xs. account_ok x" and "2 \<le> length xs"
    and "distinct (map dy_credential xs)" and "distinct (map dy_player_id xs)"
  shows "MultiUserIdentityProvider_ctor (Some (accounts_file xs)) = Inr xs"
  using rows_read [OF assms(1), of "[]" 0] assms(2-4)
  by (simp add: MultiUserIdentityProvider_ctor_def)

section \<open>Logging in\<close>

definition configured_ok :: "DeploymentIdentity list \<Rightarrow> bool" where
  "configured_ok identities \<longleftrightarrow>
     distinct (map dy_credential identities) \<and> distinct (map dy_player_id identities) \<and>
     list_all (\<lambda>x. dy_credential x \<noteq> [] \<and> id_value (dy_player_id x) \<noteq> [] \<and> dy_allowed_devices x \<noteq> [])
       identities"

lemma read_row_ok:
  assumes "configured_ok identities" and "read_row line n identities = Inr identities'"
  shows "configured_ok identities'"
proof (cases "line = [] \<or> hd line = CHR ''#''")
  case True
  then show ?thesis using assms by (simp add: read_row_def)
next
  case False
  then obtain credential player devices where
    row: "row_fields line = Some (credential, player, devices)" and
    new: "\<not> list_ex (\<lambda>x. credential = dy_credential x \<or> id_value (dy_player_id x) = player) identities"
      "allowed_devices (strip_return devices) \<noteq> []" and
    added: "identities' = identities @ [\<lparr>dy_credential = credential, dy_player_id = StrongId player,
                 dy_allowed_devices = allowed_devices (strip_return devices)\<rparr>]"
    using assms(2) by (auto simp: read_row_def split: option.splits if_splits prod.splits)
  have "credential \<noteq> []" "player \<noteq> []"
    using row by (auto simp: row_fields_def split: option.splits if_splits prod.splits)
  moreover have "StrongId player \<notin> dy_player_id ` set identities"
    using new(1) by (auto simp: list_ex_iff) (metis StrongId.sel)
  ultimately show ?thesis
    using assms(1) new by (auto simp: added configured_ok_def list_ex_iff)
qed

lemma read_rows_ok:
  "configured_ok identities \<Longrightarrow> read_rows lines n identities = Inr identities' \<Longrightarrow> configured_ok identities'"
  by (induction lines n identities rule: read_rows.induct)
    (auto simp: throws_bind_Inr_iff dest: read_row_ok)

lemma selected_identity_eq:
  assumes "distinct (map dy_credential identities)"
  shows "selected_identity credential identities selected =
    (case List.find (\<lambda>x. dy_credential x = credential) identities of
       Some x \<Rightarrow> Some x | None \<Rightarrow> selected)"
  using assms
proof (induction identities arbitrary: selected)
  case (Cons x xs)
  have "List.find (\<lambda>y. dy_credential y = credential) xs = None" if "dy_credential x = credential"
    unfolding find_None_iff_none using Cons.prems that by (metis distinct.simps(2) image_eqI list.set_map list.simps(9))
  with Cons show ?case by auto
qed simp

text \<open>
  C12: only the configured accounts log in, each on its own devices. A file that the server accepts
  has at least two accounts, with distinct credentials and players and a device each; the identity
  provider verifies a credential exactly for the player of the account with this credential, on a
  device the account lists or, with a star, on any; and it tells an unknown credential from a device
  that is not allowed.
\<close>

theorem accounts_decide_logins:
  assumes "MultiUserIdentityProvider_ctor file = Inr identities"
  shows "2 \<le> length identities \<and> configured_ok identities \<and>
    (accounts_verify identities credential device = verified player \<longleftrightarrow>
       (\<exists>x \<in> set identities. dy_credential x = credential \<and> dy_player_id x = player \<and>
          (''*'' \<in> set (dy_allowed_devices x) \<or> id_value device \<in> set (dy_allowed_devices x)))) \<and>
    (accounts_verify identities credential device = Inl Auth_invalid_credentials \<longleftrightarrow>
       credential \<notin> dy_credential ` set identities)"
proof -
  obtain contents where "read_rows (getlines newline contents) 0 [] = Inr identities" "2 \<le> length identities"
    using assms by (auto simp: MultiUserIdentityProvider_ctor_def throws_bind_Inr_iff split: option.splits if_splits)
  moreover have "configured_ok []" by (simp add: configured_ok_def)
  ultimately have ok: "configured_ok identities" "2 \<le> length identities"
    using read_rows_ok by blast+
  then have distinct: "distinct (map dy_credential identities)" by (simp add: configured_ok_def)
  show ?thesis
  proof (cases "List.find (\<lambda>x. dy_credential x = credential) identities")
    case None
    then have "credential \<notin> dy_credential ` set identities" by (auto simp: find_None_iff_none)
    with None ok distinct show ?thesis
      by (auto simp: accounts_verify_def selected_identity_eq verified_def)
  next
    case (Some x)
    then have x: "x' \<in> set identities \<and> dy_credential x' = credential \<longleftrightarrow> x' = x" for x'
      using find_by_key_iff [OF distinct, of credential x'] by auto
    have "(\<exists>x' \<in> set identities. dy_credential x' = credential \<and> P x') \<longleftrightarrow> P x" for P
      using x by metis
    moreover have "credential \<in> dy_credential ` set identities" using x [of x] by auto
    ultimately show ?thesis
      using Some ok distinct by (simp add: accounts_verify_def selected_identity_eq verified_def)
  qed
qed

text \<open>The provider's answers are values of the validating constructor, as \<open>authenticate\<close> expects.\<close>

lemma accounts_construct:
  "provider_constructs (\<lambda>credential device now i. (accounts_verify identities credential device, i))"
proof -
  have "IdentityVerificationResult_ctor (Some \<lparr>vi_player_id = p, vi_maximum_session_lifetime = session_lifetime\<rparr>) None =
      Inr (verified p)" "IdentityVerificationResult_ctor None (Some e) = Inr (Inl e)" for p e
    by (simp_all add: IdentityVerificationResult_ctor_def verified_def session_lifetime_def)
  then show ?thesis
    unfolding provider_constructs_def accounts_verify_def
    by (auto split: option.split)
qed

section \<open>Maintenance\<close>

lemma record_timeouts_active [simp]:
  "sto_active (record_timeouts es s) = sto_active s"
  "sto_sessions (record_timeouts es s) = sto_sessions s"
  "sto_persistent_sessions (record_timeouts es s) = sto_persistent_sessions s"
  by (induction es arbitrary: s) (simp_all add: recordForcedInterruption_def)

lemma expire_service_effect:
  "sto_active (sv_store (snd (expire_service now corr v))) =
     filter (\<lambda>e. \<not> timed_out (sv_maximum_duration v) now (snd e)) (sto_active (sv_store v))"
  "sto_sessions (sv_store (snd (expire_service now corr v))) = sto_sessions (sv_store v)"
  "sto_persistent_sessions (sv_store (snd (expire_service now corr v))) =
     sto_persistent_sessions (sv_store v)"
  by (simp_all add: expire_service_def expireTimedOut_eq)

lemma remove_session_effect:
  fixes s :: "'m Store" and sid :: SessionId and now :: time_point
  assumes "sto_persistent_sessions s = Some f"
    and "currentSessionLocked s sid = None \<Longrightarrow> \<forall>e \<in> set (sto_active s). at_session_id (snd e) \<noteq> sid"
  defines "s' \<equiv> erase_session sid (snd (removeSession sid now (StrongId ''scheduler-session-cleanup'') s))"
  shows "sto_active s' = filter (\<lambda>e. at_session_id (snd e) \<noteq> sid) (sto_active s)"
    and "sto_persistent_sessions s' = Some (f(sid := None))"
    and "currentSessionLocked s' x = (if x = sid then None else currentSessionLocked s x)"
  using assms(1,2)
  by (auto simp: s'_def erase_session_def removeSession_eq currentSessionLocked_def Let_def filter_id_conv
      split: option.splits)

lemma remove_sessions_effect:
  assumes "sto_persistent_sessions s = Some f"
    and "\<forall>sid \<in> set sids. currentSessionLocked s sid \<noteq> None \<or>
      (\<forall>e \<in> set (sto_active s). at_session_id (snd e) \<noteq> sid)"
  shows "sto_active (remove_sessions sids now s) =
      filter (\<lambda>e. at_session_id (snd e) \<notin> set sids) (sto_active s) \<and>
    currentSessionLocked (remove_sessions sids now s) x =
      (if x \<in> set sids then None else currentSessionLocked s x)"
  using assms
proof (induction sids arbitrary: s f)
  case (Cons sid sids)
  let ?s = "erase_session sid (snd (removeSession sid now (StrongId ''scheduler-session-cleanup'') s))"
  have "currentSessionLocked s sid = None \<Longrightarrow> \<forall>e \<in> set (sto_active s). at_session_id (snd e) \<noteq> sid"
    using Cons.prems(2) by auto
  note step = remove_session_effect [OF Cons.prems(1) this]
  have "\<forall>y \<in> set sids. currentSessionLocked ?s y \<noteq> None \<or>
      (\<forall>e \<in> set (sto_active ?s). at_session_id (snd e) \<noteq> y)"
  proof
    fix y
    assume "y \<in> set sids"
    then have "currentSessionLocked s y \<noteq> None \<or> (\<forall>e \<in> set (sto_active s). at_session_id (snd e) \<noteq> y)"
      using Cons.prems(2) by simp
    then show "currentSessionLocked ?s y \<noteq> None \<or> (\<forall>e \<in> set (sto_active ?s). at_session_id (snd e) \<noteq> y)"
      by (elim disjE) (auto simp: step(1,3))
  qed
  from Cons.IH [OF step(2) this] show ?case by (auto simp: step(1,3) conj_commute)
qed simp

text \<open>
  C31: a round of maintenance ends what is overdue and nothing else. When a session sweep is due and
  the database answers with sessions it stores, the transmissions that stay active are exactly those
  younger than the maximum duration whose session is not among the answered ones; the answered
  sessions are gone, every other one is kept; and the next sweep is due five seconds later.
\<close>

theorem maintenance_ends_what_is_overdue:
  fixes mt :: "('m, 'g) Maintenance"
  assumes "sto_persistent_sessions (sv_store (mt_service mt)) = Some f"
    and "sids = expired_sessions f now 256"
    and "\<forall>sid \<in> set sids. f sid \<noteq> None" and "mt_next_session_sweep mt \<le> now"
    and "mt' = maintenance_round expired_sessions now mt"
  shows "sto_active (sv_store (mt_service mt')) =
      filter (\<lambda>e. now - at_started_at (snd e) < ticks (sv_maximum_duration (mt_service mt)) \<and>
                  at_session_id (snd e) \<notin> set sids) (sto_active (sv_store (mt_service mt))) \<and>
    currentSessionLocked (sv_store (mt_service mt')) sid =
      (if sid \<in> set sids then None else currentSessionLocked (sv_store (mt_service mt)) sid) \<and>
    mt_next_session_sweep mt' = now + seconds 5"
proof -
  let ?s = "sv_store (snd (expire_service now (StrongId ''scheduler-timeout'') (mt_service mt)))"
  have s: "sto_persistent_sessions ?s = Some f"
    "currentSessionLocked ?s x = currentSessionLocked (sv_store (mt_service mt)) x" for x
    using assms(1) by (simp_all add: expire_service_effect currentSessionLocked_def cong: option.case_cong)
  have "\<forall>x \<in> set sids. currentSessionLocked ?s x \<noteq> None \<or>
      (\<forall>e \<in> set (sto_active ?s). at_session_id (snd e) \<noteq> x)"
    using assms(1,3) unfolding s(2) by (simp add: currentSessionLocked_def split: option.split)
  note removed = remove_sessions_effect [OF s(1) this, of now sid]
  have "sv_store (mt_service mt') = remove_sessions sids now ?s"
    "mt_next_session_sweep mt' = now + seconds 5"
    using assms(4) by (simp_all add: assms(2,5) maintenance_round_def s(1) Let_def)
  then show ?thesis
    using removed by (auto simp: s(2) expire_service_effect(1) timed_out_def not_le intro: filter_cong)
qed

end
