(* ===== verification/Server_Process_Examples.thy ===== *)
theory Server_Process_Examples
  imports Server_Process_Properties
begin

text \<open>
  A concrete file of accounts, concrete command lines and a concrete round of maintenance; and a file
  that is refused although its rows are in order.
\<close>

section \<open>Accounts\<close>

definition first_account :: DeploymentIdentity where
  "first_account =
     \<lparr>dy_credential = ''token-1'', dy_player_id = StrongId ''player-1'',
      dy_allowed_devices = [''desktop-1'', ''laptop-1'']\<rparr>"

definition second_account :: DeploymentIdentity where
  "second_account =
     \<lparr>dy_credential = ''token-2'', dy_player_id = StrongId ''player-2'', dy_allowed_devices = [''*'']\<rparr>"

lemma accounts_ok: "\<forall>x \<in> set [first_account, second_account]. account_ok x"
  by code_simp

theorem accounts_file_round_trip_witness:
  "accounts_file [first_account, second_account] =
     ''token-1'' @ [tab] @ ''player-1'' @ [tab] @ ''desktop-1,laptop-1'' @ [newline] @
     ''token-2'' @ [tab] @ ''player-2'' @ [tab] @ ''*'' @ [newline] \<and>
   MultiUserIdentityProvider_ctor (Some (accounts_file [first_account, second_account])) =
     Inr [first_account, second_account]"
proof
  show "accounts_file [first_account, second_account] =
     ''token-1'' @ [tab] @ ''player-1'' @ [tab] @ ''desktop-1,laptop-1'' @ [newline] @
     ''token-2'' @ [tab] @ ''player-2'' @ [tab] @ ''*'' @ [newline]" by code_simp
  show "MultiUserIdentityProvider_ctor (Some (accounts_file [first_account, second_account])) =
     Inr [first_account, second_account]"
    by (rule accounts_file_round_trip [OF accounts_ok])
      (simp_all add: first_account_def second_account_def)
qed

lemma accounts_loaded:
  "MultiUserIdentityProvider_ctor (Some
     (''# accounts'' @ [newline] @ ''token-1'' @ [tab] @ ''player-1'' @ [tab] @ ''desktop-1,laptop-1'' @
      [CHR 0x0D, newline] @ ''token-2'' @ [tab] @ ''player-2'' @ [tab] @ ''*'')) =
     Inr [first_account, second_account]"
  by code_simp

theorem accounts_decide_logins_witness:
  "accounts_verify [first_account, second_account] ''token-2'' (StrongId ''any'') =
     verified (StrongId ''player-2'') \<and>
   accounts_verify [first_account, second_account] ''token-3'' (StrongId ''any'') =
     Inl Auth_invalid_credentials"
proof -
  note decided = accounts_decide_logins [OF accounts_loaded]
  show ?thesis
    using decided [of "''token-2''" "StrongId ''any''" "StrongId ''player-2''"]
      decided [of "''token-3''" "StrongId ''any''" "StrongId ''player-2''"]
    by (simp add: first_account_def second_account_def)
qed

text \<open>The blank lines of a file with Windows line ends are taken for rows.\<close>

theorem blank_line_refused:
  "MultiUserIdentityProvider_ctor (Some
     (''token-1'' @ [tab] @ ''player-1'' @ [tab] @ ''*'' @ [CHR 0x0D, newline, CHR 0x0D, newline] @
      ''token-2'' @ [tab] @ ''player-2'' @ [tab] @ ''*'')) =
     Inl (Runtime_error ''Invalid identity file row 2.'')"
  by code_simp

section \<open>Command lines\<close>

theorem command_lines:
  "throws_bind (parseOptions [''--listen'', ''0.0.0.0'', ''--identity-file'', ''accounts'']
       Options_default) server_mode = Inr (Serve (Accounts_from ''accounts'') False)"
  "throws_bind (parseOptions [''--listen'', ''0.0.0.0''] Options_default) server_mode =
     Inl (Invalid_argument ''--listen requires exactly one of --identity-file or bootstrap mode.'')"
  "parseOptions [''--help'', ''--database''] Options_default =
     Inl (Invalid_argument ''A value is missing after --database.'')"
  "throws_bind (parseOptions [] Options_default) server_mode = Inr Check_database"
  by (simp_all add: Options_default_def set_option_def server_mode_def)

section \<open>A round of maintenance\<close>

definition maintained ::
  "((PlayerId, AuthoritativeMembershipContext) std_map, nat) Maintenance" where
  "maintained =
     \<lparr>mt_service = sample_service\<lparr>sv_store := sample_store
        \<lparr>sto_persistent_sessions := Some [StrongId ''session-alice'' \<mapsto> sample_login ''alice'']\<rparr>\<rparr>,
      mt_next_session_sweep = 0, mt_next_retention_sweep = 0\<rparr>"

theorem maintenance_witness:
  "sto_active (sv_store (mt_service maintained)) = [(StrongId ''x-alice'', sample_active)] \<and>
   sto_active (sv_store (mt_service
     (maintenance_round (\<lambda>f now n. [StrongId ''session-alice'']) 50 maintained))) = [] \<and>
   currentSessionLocked (sv_store (mt_service
     (maintenance_round (\<lambda>f now n. [StrongId ''session-alice'']) 50 maintained)))
     (StrongId ''session-alice'') = None"
proof -
  have f: "sto_persistent_sessions (sv_store (mt_service maintained)) =
      Some [StrongId ''session-alice'' \<mapsto> sample_login ''alice'']"
    and active: "sto_active (sv_store (mt_service maintained)) = [(StrongId ''x-alice'', sample_active)]"
    and due: "mt_next_session_sweep maintained \<le> 50"
    by (simp_all add: maintained_def sample_store_eq)
  have "\<forall>sid \<in> set [StrongId ''session-alice''].
      [StrongId ''session-alice'' \<mapsto> sample_login ''alice''] sid \<noteq> None" by simp
  from maintenance_ends_what_is_overdue [OF f refl this due refl, of "StrongId ''session-alice''"] active
  show ?thesis by (simp add: sample_active_def)
qed

end
