(* ===== verification/Spec2Isabelle.thy ===== *)
theory Spec2Isabelle
  imports
    Hvc_Prelude Domain_Model Membership Recipient_Routing
    Voice_State_Machines Voice_Session
    Control_Plane_Types Control_Plane_Store Membership_Store Store_Effects Store_Invariants
    Store_Properties Rate_Limiter Publication_Control Transmission_Service Identity_And_Grants
    Directory_Service Directory_Properties
    Voice_Client Voice_Publication Voice_Playback
    Json_Text Http_Json Http_Responses Control_Plane_Http Http_Properties Http_Examples
    Client_Json Json_Round_Trip Control_Plane_Client
    Client_Server Remote_Calls Remote_Examples Remote_Directory Directory_Acceptance
    Authorized_Voice_Client Authorized_Publication Authorized_Session Authorized_Examples
    Push_To_Talk Push_To_Talk_Properties Push_To_Talk_Delivery
    Hmac_Sha256 Livekit_Token
    Client_Core Client_Core_Properties Client_Core_Wrapper Client_Core_Examples
    Desktop_Model Desktop_Properties Desktop_Events Desktop_Presence Desktop_Examples
    Http_Server Http_Reading Http_Connections Http_Connection_Examples Http_Listener
    Server_Process Server_Process_Properties Server_Process_Examples
begin

text \<open>
  A verification library for the hierarchical voice chat (VoxTree): a control plane that knows
  who belongs to which group, specialization and team and decides who may speak to whom, and a
  client that follows its decisions. All paths below are relative to \<open>src/\<close>.

  \<^bold>\<open>The program and how its parts interact.\<close> A client authenticates
  (\<open>libs/application/src/identity.cpp\<close>), connects, and asks to speak in a scope. The application
  service (\<open>libs/application/src/control_plane.cpp\<close>) limits the rate, looks up the session and the
  authoritative membership in the store (\<open>in_memory_control_plane.cpp\<close>), asks the domain
  (\<open>libs/domain/src/routing.cpp\<close>) for the recipients and activates the transmission in the store,
  which checks everything again under its mutex, stops transmissions when memberships or sessions
  change, writes the audit log and tells a lifecycle observer what starts and ends. The observer
  of the deployed server (\<open>libs/livekit/src/livekit_token.cpp\<close>) turns that into publication
  permissions of the voice service. Clients read who is in their group from the directory
  (\<open>directory.cpp\<close>) and hold their own view of connection, transmission and selected scope in the
  state machines of \<open>libs/domain/src/state_machine.cpp\<close>. Between the two lies a JSON document
  protocol over HTTP: \<open>libs/network/src/control_plane_http.cpp\<close> authenticates a request, calls the
  services and writes the response, \<open>libs/client/src/control_plane_client.cpp\<close> writes the request and
  checks and decodes the response. The executable \<open>apps/control-plane\<close> reads the requests from sockets,
  serves them with a pool of workers, knows the configured accounts and sweeps what has expired. On
  the client, \<open>libs/client/src/authorized_voice_client.cpp\<close> joins the control plane and the voice
  transport (\<open>voice_client.cpp\<close>), \<open>ptt_input.cpp\<close> turns held controls into its calls, and
  \<open>libs/presentation/src/desktop_model.cpp\<close> is what the windows show.

  \<^bold>\<open>Theories and the code they model.\<close>
  \<^item> \<open>Hvc_Prelude\<close>: exceptions as a sum type, result objects that hold exactly one of value and
    error, \<open>std::map\<close> as a key-sorted association list (locale \<open>ordered_map\<close>, interpreted on
    \<open>std_put\<close> and \<open>std_erase\<close>), the erase-while-iterating loop as \<open>sweep\<close>, the machine integers.
  \<^item> \<open>Domain_Model\<close> and \<open>Membership\<close>: \<open>id.hpp\<close>, \<open>model.hpp\<close>, \<open>model.cpp\<close>. Validating constructors
    are \<open>_ctor\<close> functions; \<open>hierarchy_ok\<close>, \<open>snapshot_ok\<close> and \<open>policy_ok\<close> are what they establish.
    The binary search of \<open>MembershipSnapshot::find\<close> is shown to be the lookup by key.
  \<^item> \<open>Recipient_Routing\<close>: \<open>routing.hpp\<close>, \<open>routing.cpp\<close>: exact acceptance condition, exact recipients
    and their isolation.
  \<^item> \<open>Voice_State_Machines\<close> and \<open>Voice_Session\<close>: \<open>state_machine.hpp\<close>, \<open>state_machine.cpp\<close>. A method
    is a function from a machine to its Boolean and the new machine; the public methods of the
    session are the events of \<open>session_step\<close>, which refines the abstract \<open>view_step\<close>.
  \<^item> \<open>Control_Plane_Types\<close>: commands, sessions, transmissions, error enumerations, audit events and
    result objects of \<open>control_plane.hpp\<close> and \<open>transmission_audit.hpp\<close>.
  \<^item> \<open>Control_Plane_Store\<close>: \<open>InMemoryControlPlaneStore\<close>, one function per method, with a
    \<open>_locked\<close> function for the critical section where the method notifies after it. The record
    \<open>Store\<close> has the members of the class; \<open>sto_audit\<close> and \<open>sto_calls\<close> are the logs of the calls to the
    audit sink and to the observer.
  \<^item> \<open>Membership_Store\<close>: the contract of \<open>IMutableAuthoritativeMembershipRepository\<close> as the locale
    \<open>mutable_memberships\<close>, interpreted on the in-memory map; the locale \<open>membership_repo_laws\<close> for an
    external repository, and the \<open>sublocale\<close> that shows that the store keeps the same contract
    for its own clients whichever of the two is behind it.
  \<^item> \<open>Store_Effects\<close>, \<open>Store_Invariants\<close>, \<open>Store_Properties\<close>: what each operation does on every
    branch, the invariant \<open>store_inv\<close> kept by each of them, reachability over \<open>StoreOp\<close>, and the
    properties of the store.
  \<^item> \<open>Rate_Limiter\<close>: \<open>TransmissionRateLimit\<close> and \<open>InMemoryTransmissionRateLimiter\<close>; an invariant
    relates the queues to the history of all calls.
  \<^item> \<open>Publication_Control\<close>: \<open>LiveKitPublicationController\<close>; its permissions follow the active
    transmissions when operations are atomic, up to grants that took effect unconfirmed, and do not
    when notifications are late.
  \<^item> \<open>Transmission_Service\<close>: \<open>TransmissionAuthorizationService\<close> and \<open>TransmissionApplicationService\<close>
    composed with the store and the limiter as in \<open>apps/control-plane/src/main.cpp\<close>.
  \<^item> \<open>Identity_And_Grants\<close>: \<open>IdentitySessionAuthenticator\<close> and \<open>VoiceGrantAuthorizationService\<close>.
  \<^item> \<open>Directory_Service\<close> and \<open>Directory_Properties\<close>: \<open>DirectoryApplicationService\<close>, the group-limited
    directory, its version, and the presence view with its bounded history.
  \<^item> \<open>Voice_Client\<close>, \<open>Voice_Publication\<close>, \<open>Voice_Playback\<close>: \<open>libs/client/src/voice_client.cpp\<close>. A
    method is its critical sections; \<open>client_step\<close> lets the calls of push-to-talk and the callbacks of
    an arbitrary transport interleave between them, with the condition variable on which releases
    wait and its notifications, \<open>playback_step\<close> runs the audio settings and
    \<open>playback_interleaved\<close> lets their policies reach the transport late.
  \<^item> \<open>Client_Core\<close>: the C interface \<open>client_core.h\<close> and \<open>client_core.cpp\<close> over \<open>Voice_Client\<close> and
    \<open>Voice_Playback\<close>: a handle, the host's table of functions with the callbacks it makes during a
    call, and the events. The host calls one operation at a time, so a method of the voice client is
    run to its end here; a release that would wait is \<open>None\<close>. \<open>Client_Core_Wrapper\<close> is the C++ wrapper
    \<open>client_core.hpp\<close>, \<open>Client_Core_Properties\<close> has the order and form of the events and that every
    operation returns, \<open>Client_Core_Examples\<close> a handle over a small transport.
  \<^item> \<open>Json_Text\<close>, \<open>Http_Json\<close>, \<open>Http_Responses\<close>, \<open>Control_Plane_Http\<close>: \<open>control_plane_http.cpp\<close>: the
    flat JSON parser, the response documents and status codes, authentication and every route;
    \<open>handle\<close> is the adapter's entry point, on a state that holds the transmission service with its
    store, the authenticator and the directory. The locale \<open>session_repository\<close> is what the adapter
    needs of the sessions, interpreted on the store and on the persistent repository. The role
    authorizer and the presence provider are those of \<open>apps/control-plane/src/main.cpp\<close>.
  \<^item> \<open>Http_Properties\<close>, \<open>Http_Examples\<close>: what a request may change and who may make it, for every
    request and over every run of the server, and a concrete run.
  \<^item> \<open>Client_Json\<close>, \<open>Control_Plane_Client\<close>: \<open>control_plane_client.cpp\<close>: the recursive JSON parser and
    each call of the client with its checks.
  \<^item> \<open>Json_Round_Trip\<close>: what each side writes is what the other reads.
  \<^item> \<open>Client_Server\<close>, \<open>Remote_Calls\<close>, \<open>Remote_Directory\<close>, \<open>Directory_Acceptance\<close>, \<open>Remote_Examples\<close>: the
    client wired to the server; a call of the client is the call of the service behind it.
  \<^item> \<open>Authorized_Voice_Client\<close>, \<open>Authorized_Publication\<close>, \<open>Authorized_Session\<close>, \<open>Authorized_Examples\<close>:
    \<open>authorized_voice_client.cpp\<close>: a press asks the server, then publishes; a release stops publishing,
    then ends the transmission; a refresh installs a newer membership. A method is its critical
    sections, and the calls of the two clients behind it run between them. Where a property is about
    the server, the control-plane client is the modelled one; the voice client is a parameter with
    its operations.
  \<^item> \<open>Push_To_Talk\<close>, \<open>Push_To_Talk_Properties\<close>, \<open>Push_To_Talk_Delivery\<close>: \<open>ptt_input.cpp\<close>: bindings and
    their validation, the controls that are held, and the input that drives a push-to-talk target.
  \<^item> \<open>Hmac_Sha256\<close>, \<open>Livekit_Token\<close>: the signing part of \<open>livekit_token.cpp\<close>: the hash and
    the HMAC against definitions of the standards, whose constants are computed from roots of primes,
    and what the issued tokens say.
  \<^item> \<open>Desktop_Model\<close>: \<open>desktop_model.cpp\<close>, one function per method. \<open>Desktop_Properties\<close> has the invariant
    \<open>desktop_ok\<close> over runs of \<open>DesktopEvent\<close>s, \<open>Desktop_Events\<close> the events of remote participants in any
    order, \<open>Desktop_Presence\<close> the desktop behind the presence view of \<open>Directory_Service\<close>, and
    \<open>Desktop_Examples\<close> concrete sessions.
  \<^item> \<open>Http_Server\<close>: the connections of \<open>linux_http_server.cpp\<close>: reading a request piece by piece, writing a
    response, serving one connection. \<open>Http_Reading\<close> and \<open>Http_Connections\<close> say what is read, accepted
    and answered, composed with \<open>handle\<close> of \<open>Control_Plane_Http\<close>; \<open>Http_Connection_Examples\<close> is one
    connection. \<open>Http_Listener\<close> is the accepting thread, its queue and its workers as the step relation
    \<open>listener_step\<close>.
  \<^item> \<open>Server_Process\<close>, \<open>Server_Process_Properties\<close>, \<open>Server_Process_Examples\<close>: \<open>main.cpp\<close> of the control
    plane: options, accounts, identifiers, metrics and maintenance.

  \<^bold>\<open>Correspondence.\<close> A struct or class is a record, an enumeration a datatype, \<open>std::uint64_t\<close> and
  \<open>std::uint32_t\<close> are words that wrap, \<open>std::string\<close> is \<open>string\<close>. A time point is an \<open>int\<close> number of
  clock ticks; a duration in milliseconds is converted by \<open>ticks\<close>, and the arithmetic of the clock
  is unbounded here, so overflow of the 64-bit tick count is outside the model. An exception is
  \<open>Inl\<close> of a \<open>cpp_error\<close>. A method that changes its object returns the changed record. Collaborators
  behind an interface that the repository does not implement, or that talk to other processes, are
  parameters: the identity provider, the identifier generators, the moderation authorizer, the
  external membership repository, the RoomService client, the transport's presence provider.
  Collaborators with state of their own thread it. Of the RoomService client it is assumed that a
  confirmed update took effect and that revocations are confirmed; an update it does not confirm may
  or may not have taken effect. System calls are lists of their results: what
  arrives at a socket, what a peer takes, the contents of a file, the random words. Every operation of the store runs under one
  mutex, so a run of the server is a sequence of critical sections: \<open>store_reachable\<close> takes each
  operation with its notifications, \<open>interleaved\<close> of \<open>Publication_Control\<close> takes the notifications
  that the code makes after it has released the mutex as steps of their own. In \<open>Voice_Publication\<close> a
  release that waits on the condition variable carries the count of notifications when it went to
  sleep; it may also wake up spuriously, but the properties do not rely on that. The model of the
  authorized client leaves notifications out: there a waiting release goes on once its predicate holds.

  \<^bold>\<open>Bounds.\<close> The loops of the modelled code run over finite containers and are structural, or
  shorten their input and have a measure. The one use of fuel is the mutual recursion of the
  client's JSON parser: \<open>parse_calls\<close> allows twice the length of the input and one call more, and
  \<open>client_parser_ends\<close> shows that this is always enough. The recursion depth of that parser is not
  bounded in the code either; the model has no stack to exhaust. The bounds in the code are kept as they are: 200 directory participants,
  128 presence revisions, the speaker limit of a scope definition, the counts and windows of the
  rate limiter. The version counters of directory and presence are 64-bit; a read that would have to
  increment the largest one throws \<open>OverflowError\<close>, as the code does, and never wraps. A request's head is read while less than 16384 bytes have arrived, and its body has at
  most 65536 bytes; the length of a run of \<open>listener_step\<close> after a shutdown is bounded by the work left.

  \<^bold>\<open>What the lemmas show.\<close> The properties state what the control plane may let happen (only authorized,
  current, non-overlapping transmissions within the speaker limit), the routing rules, who can log in,
  the authentication of requests, the agreement of client and server on the documents they exchange,
  from the bytes of a request to the state of the store and back, the client's state machines, its
  push-to-talk input and publication, moderation, the rate limit, grants and tokens, the directory and
  the presence as the desktop shows it, that a shutdown loses no accepted connection, and that the C
  interface carries calls, failures and memberships through unchanged. Lemmas of
  the same form about the audit log, membership updates, playback, sessions and error answers stand
  beside them. Some theorems are existence statements about undesired histories that the code admits:
  a late notification that silences a live transmission, a grant whose confirmation was lost and which
  is never revoked, an authorization that survives a removal of
  the membership it was decided on, a presence delta that cannot say that a player left, a playback
  policy that arrives late and makes a muted participant audible, a valid hierarchy whose directory
  every client refuses, a transmission ended by the server that blocks its client, a press that
  outlives its chord, a failed release that is not repeated, a failed connect of which the host is not told, and the orders of arrival in
  \<open>Desktop_Examples\<close>.

  \<^bold>\<open>Not modelled.\<close> The SQLite repositories (\<open>libs/persistence\<close>), which are statements for a database
  engine behind the interfaces of the store; the resolution of the listen address, signals and the
  RoomService client of the server process; the devices of the operating systems behind the
  push-to-talk input and the HTTP transports (\<open>libs/client\<close>); the LiveKit transport
  and the audio output (\<open>libs/livekit\<close>), which call a third-party SDK; and the applications other than
  the control plane. Exceptions thrown out of a call of the voice client inside
  \<open>startTransmission\<close> are not modelled in the interleaved model of the authorized client. They are
  named with their reasons in the manifest.
\<close>

end
